(* ===== verification/Sordino_Prelude.thy ===== *)
theory Sordino_Prelude
  imports Main "HOL-Library.Sublist"
begin

text \<open>
  Shared vocabulary of the development.

  Rust's \<open>str\<close> is modelled as its UTF-8 bytes: a \<open>string\<close> here is a list of bytes (Isabelle's
  \<open>char\<close> is an 8-bit value), so lengths, offsets and slices are byte counts exactly as in the
  code. The theory holds the standard-library string operations the code calls (search, replace,
  trim, char iteration, ASCII classes), the generic left-to-right scanner that
  \<open>Regex::find_iter\<close> and \<open>str::replace\<close> are instances of, and the splice loop of the unmaskers.
  The locale \<open>matcher\<close> is the contract of a scanner's matcher; its lemmas are used for tokens and
  for literal needles alike.
\<close>

section \<open>Fact collections\<close>

named_theorems ascii_defs "unfolds the ASCII character classes"
named_theorems model_simps "unfolds the small accessors of the model"

section \<open>Errors\<close>

text \<open>A fallible function returns \<open>Inl\<close> of its error or \<open>Inr\<close> of its result.\<close>

definition is_ok :: "'e + 'a \<Rightarrow> bool" where
  "is_ok r = (case r of Inl _ \<Rightarrow> False | Inr _ \<Rightarrow> True)"

lemma is_ok_simps [simp]: "is_ok (Inr x)" "\<not> is_ok (Inl e)"
  by (simp_all add: is_ok_def)

lemma is_okE [elim]: "is_ok r \<Longrightarrow> (\<And>x. r = Inr x \<Longrightarrow> P) \<Longrightarrow> P"
  by (cases r) auto

lemma is_ok_ex: "is_ok r \<longleftrightarrow> (\<exists>x. r = Inr x)"
  by (cases r) auto

section \<open>Hash maps\<close>

text \<open>A hash map is the association list of its entries, listed in one of its iteration orders.\<close>

definition hm_remove :: "'k \<Rightarrow> ('k \<times> 'v) list \<Rightarrow> ('k \<times> 'v) list" where
  "hm_remove k m = filter (\<lambda>(h, _). h \<noteq> k) m"

definition hm_insert :: "'k \<Rightarrow> 'v \<Rightarrow> ('k \<times> 'v) list \<Rightarrow> ('k \<times> 'v) list" where
  "hm_insert k v m = (k, v) # hm_remove k m"

lemma hm_lookup [simp]:
  "map_of (hm_remove k m) h = (if h = k then None else map_of m h)"
  "map_of (hm_insert k v m) h = (if h = k then Some v else map_of m h)"
  by (induction m) (auto simp: hm_remove_def hm_insert_def)

lemma hm_keys:
  "map fst (hm_remove k m) = filter (\<lambda>x. x \<noteq> k) (map fst m)"
  "map fst (hm_insert k v m) = k # filter (\<lambda>x. x \<noteq> k) (map fst m)"
  by (induction m) (auto simp: hm_remove_def hm_insert_def)

definition keys_distinct :: "('k \<times> 'v) list \<Rightarrow> bool" where
  "keys_distinct m \<longleftrightarrow> distinct (map fst m)"

lemma keys_distinct_simps [simp]:
  "keys_distinct []"
  "keys_distinct m \<Longrightarrow> keys_distinct (hm_remove k m)"
  "keys_distinct m \<Longrightarrow> keys_distinct (hm_insert k v m)"
  by (auto simp: keys_distinct_def hm_keys)

section \<open>Lists\<close>

lemma takeWhile_upto: "c \<notin> set x \<Longrightarrow> takeWhile (\<lambda>y. y \<noteq> c) (x @ c # w) = x"
  by (induction x) auto

lemma takeWhile_absent: "c \<notin> set x \<Longrightarrow> takeWhile (\<lambda>y. y \<noteq> c) (x @ w) = x @ takeWhile (\<lambda>y. y \<noteq> c) w"
  by (induction x) auto

lemma takeWhile_absent_all: "c \<notin> set x \<Longrightarrow> takeWhile (\<lambda>y. y \<noteq> c) x = x"
  by (induction x) auto

lemma nth_middle: "length u \<le> j \<Longrightarrow> j < length u + length t \<Longrightarrow> (u @ t @ v) ! j = t ! (j - length u)"
  by (simp add: nth_append less_diff_conv2)

section \<open>Bytes and characters\<close>

definition ord :: "char \<Rightarrow> nat" where
  "ord c = of_char c"

lemma ord_inject [simp]: "ord c = ord d \<longleftrightarrow> c = d"
  by (simp add: ord_def)

lemma ord_less_256 [simp]: "ord c < 256"
  by (simp add: ord_def)

lemma char_of_ord [simp]: "char_of (ord c) = c"
  by (simp add: ord_def)

definition is_upper :: "char \<Rightarrow> bool" where [ascii_defs]:
  "is_upper c \<longleftrightarrow> 65 \<le> ord c \<and> ord c \<le> 90"

definition is_lower :: "char \<Rightarrow> bool" where [ascii_defs]:
  "is_lower c \<longleftrightarrow> 97 \<le> ord c \<and> ord c \<le> 122"

definition is_digit :: "char \<Rightarrow> bool" where [ascii_defs]:
  "is_digit c \<longleftrightarrow> 48 \<le> ord c \<and> ord c \<le> 57"

definition is_alpha :: "char \<Rightarrow> bool" where [ascii_defs]:
  "is_alpha c \<longleftrightarrow> is_upper c \<or> is_lower c"

definition is_alnum :: "char \<Rightarrow> bool" where [ascii_defs]:
  "is_alnum c \<longleftrightarrow> is_alpha c \<or> is_digit c"

text \<open>\<open>is_ascii_hexdigit\<close>: both cases of \<open>a\<close> to \<open>f\<close>.\<close>

definition is_hexdigit :: "char \<Rightarrow> bool" where [ascii_defs]:
  "is_hexdigit c \<longleftrightarrow> is_digit c \<or> (65 \<le> ord c \<and> ord c \<le> 70) \<or> (97 \<le> ord c \<and> ord c \<le> 102)"

text \<open>\<open>u8::is_ascii_whitespace\<close>: space, tab, LF, FF, CR (not VT).\<close>

definition is_ascii_ws :: "char \<Rightarrow> bool" where [ascii_defs]:
  "is_ascii_ws c \<longleftrightarrow> ord c \<in> {32, 9, 10, 12, 13}"

definition is_ascii :: "char \<Rightarrow> bool" where [ascii_defs]:
  "is_ascii c \<longleftrightarrow> ord c < 128"

definition to_upper_byte :: "char \<Rightarrow> char" where [ascii_defs]:
  "to_upper_byte c = (if is_lower c then char_of (ord c - 32) else c)"

definition to_lower_byte :: "char \<Rightarrow> char" where [ascii_defs]:
  "to_lower_byte c = (if is_upper c then char_of (ord c + 32) else c)"

lemma ord_char_of: "n < 256 \<Longrightarrow> ord (char_of n) = n"
  by (simp add: ord_def)

lemma to_upper_byte_not_lower: "\<not> is_lower (to_upper_byte c)"
  by (auto simp: ascii_defs ord_char_of)

lemma to_upper_byte_id: "\<not> is_lower c \<Longrightarrow> to_upper_byte c = c"
  by (simp add: to_upper_byte_def)

lemma to_upper_byte_alnum: "is_alnum c \<Longrightarrow> is_upper (to_upper_byte c) \<or> is_digit (to_upper_byte c)"
  by (auto simp: ascii_defs ord_char_of)

section \<open>UTF-8\<close>

text \<open>A continuation byte is \<open>0x80\<close> to \<open>0xBF\<close>; an offset is a char boundary iff it is the end
  of the string or the byte there starts a character (\<open>str::is_char_boundary\<close>).\<close>

definition is_cont :: "char \<Rightarrow> bool" where
  "is_cont c \<longleftrightarrow> 128 \<le> ord c \<and> ord c < 192"

definition is_boundary :: "string \<Rightarrow> nat \<Rightarrow> bool" where
  "is_boundary s i \<longleftrightarrow> i = 0 \<or> i = length s \<or> (i < length s \<and> \<not> is_cont (s ! i))"

text \<open>\<open>str::chars\<close>, each character as its bytes.\<close>

function utf8_chars :: "string \<Rightarrow> string list" where
  "utf8_chars [] = []"
| "utf8_chars (c # cs) = (c # takeWhile is_cont cs) # utf8_chars (dropWhile is_cont cs)"
  by pat_completeness auto
termination
  by (relation "measure length") (auto simp: length_dropWhile_le less_Suc_eq_le)

lemma concat_utf8_chars [simp]: "concat (utf8_chars s) = s"
  by (induction s rule: utf8_chars.induct) auto

lemma utf8_chars_nonempty: "c \<in> set (utf8_chars s) \<Longrightarrow> c \<noteq> []"
  by (induction s rule: utf8_chars.induct) auto

lemma utf8_chars_ascii: "list_all is_ascii s \<Longrightarrow> utf8_chars s = map (\<lambda>c. [c]) s"
proof (induction s rule: utf8_chars.induct)
  case (2 c cs)
  then have "takeWhile is_cont cs = []" "dropWhile is_cont cs = cs"
    by (cases cs; auto simp: is_cont_def is_ascii_def)+
  with 2 show ?case by simp
qed simp

text \<open>
  \<open>String::from_utf8\<close>: the well-formed byte sequences of the Unicode standard (no overlong
  encodings, no surrogates, nothing above U+10FFFF).
\<close>

function utf8_valid :: "string \<Rightarrow> bool" where
  "utf8_valid [] = True"
| "utf8_valid (a # s) =
    (if ord a < 128 then utf8_valid s
     else if 194 \<le> ord a \<and> ord a \<le> 223 then
       (case s of b # s' \<Rightarrow> is_cont b \<and> utf8_valid s' | _ \<Rightarrow> False)
     else if 224 \<le> ord a \<and> ord a \<le> 239 then
       (case s of b # c # s' \<Rightarrow>
          is_cont b \<and> is_cont c \<and> (ord a = 224 \<longrightarrow> 160 \<le> ord b) \<and> (ord a = 237 \<longrightarrow> ord b < 160)
          \<and> utf8_valid s' | _ \<Rightarrow> False)
     else if 240 \<le> ord a \<and> ord a \<le> 244 then
       (case s of b # c # d # s' \<Rightarrow>
          is_cont b \<and> is_cont c \<and> is_cont d \<and> (ord a = 240 \<longrightarrow> 144 \<le> ord b)
          \<and> (ord a = 244 \<longrightarrow> ord b < 144) \<and> utf8_valid s' | _ \<Rightarrow> False)
     else False)"
  by pat_completeness auto
termination
  by (relation "measure length") auto

lemma utf8_valid_ascii: "list_all is_ascii s \<Longrightarrow> utf8_valid s"
  by (induction s) (auto simp: is_ascii_def)

text \<open>The Unicode \<open>White_Space\<close> characters, as UTF-8 (\<open>char::is_whitespace\<close>).\<close>

definition is_ws_char :: "string \<Rightarrow> bool" where
  "is_ws_char c \<longleftrightarrow>
     (let b = map ord c in
      b \<in> {[9], [10], [11], [12], [13], [32], [194, 133], [194, 160], [225, 154, 128],
           [226, 128, 168], [226, 128, 169], [226, 128, 175], [226, 129, 159], [227, 128, 128]}
      \<or> (length b = 3 \<and> take 2 b = [226, 128] \<and> 128 \<le> b ! 2 \<and> b ! 2 \<le> 138))"

definition trim_start :: "string \<Rightarrow> string" where
  "trim_start s = concat (dropWhile is_ws_char (utf8_chars s))"

definition trim_end :: "string \<Rightarrow> string" where
  "trim_end s = concat (rev (dropWhile is_ws_char (rev (utf8_chars s))))"

definition trim :: "string \<Rightarrow> string" where
  "trim s = trim_end (trim_start s)"

section \<open>Searching and slicing\<close>

definition starts_with :: "string \<Rightarrow> string \<Rightarrow> bool" where
  "starts_with p s \<longleftrightarrow> take (length p) s = p"

definition ends_with :: "string \<Rightarrow> string \<Rightarrow> bool" where
  "ends_with p s \<longleftrightarrow> length p \<le> length s \<and> drop (length s - length p) s = p"

lemma starts_with_iff: "starts_with p s \<longleftrightarrow> (\<exists>r. s = p @ r)"
  unfolding starts_with_def by (metis append_eq_conv_conj append_take_drop_id)

lemma starts_with_append [simp]: "starts_with p (p @ s)"
  by (simp add: starts_with_def)

text \<open>\<open>str::find\<close>: the offset of the first occurrence.\<close>

fun str_find :: "string \<Rightarrow> string \<Rightarrow> nat option" where
  "str_find p [] = (if p = [] then Some 0 else None)"
| "str_find p (c # cs) =
     (if starts_with p (c # cs) then Some 0 else map_option Suc (str_find p cs))"

definition contains :: "string \<Rightarrow> string \<Rightarrow> bool" where
  "contains p s \<longleftrightarrow> str_find p s \<noteq> None"

lemma str_find_Some: "str_find p s = Some i \<Longrightarrow> i + length p \<le> length s \<and> starts_with p (drop i s)"
proof (induction s arbitrary: i)
  case Nil
  then show ?case by (auto simp: starts_with_def split: if_splits)
next
  case (Cons c cs)
  show ?case
  proof (cases "starts_with p (c # cs)")
    case True
    then have "length p \<le> length (c # cs)"
      by (metis length_take min.cobounded1 starts_with_def)
    with True Cons.prems show ?thesis by simp
  next
    case False
    with Cons show ?thesis by auto
  qed
qed

lemma str_find_None: "str_find p s = None \<longleftrightarrow> (\<forall>i\<le>length s. \<not> starts_with p (drop i s))"
proof (induction s)
  case Nil
  then show ?case by (auto simp: starts_with_def)
next
  case (Cons c cs)
  have "(\<forall>i\<le>length (c # cs). \<not> starts_with p (drop i (c # cs))) \<longleftrightarrow>
    \<not> starts_with p (c # cs) \<and> (\<forall>i\<le>length cs. \<not> starts_with p (drop i cs))"
    unfolding less_Suc_eq_le [symmetric] by (simp add: All_less_Suc2)
  with Cons show ?case by simp
qed

definition slice :: "string \<Rightarrow> nat \<Rightarrow> nat \<Rightarrow> string" where
  "slice s a b = take (b - a) (drop a s)"

text \<open>\<open>String::replace_range\<close> on an in-bounds range.\<close>

definition replace_range :: "nat \<Rightarrow> nat \<Rightarrow> string \<Rightarrow> string \<Rightarrow> string" where
  "replace_range a b r s = take a s @ r @ drop b s"

lemma slice_append_take: "a \<le> b \<Longrightarrow> take a s @ slice s a b = take b s"
  unfolding slice_def by (metis le_add_diff_inverse take_add)

lemma slice_0_length [simp]: "slice s 0 (length s) = s"
  by (simp add: slice_def)

lemma length_slice [simp]: "length (slice s a b) = min (b - a) (length s - a)"
  by (simp add: slice_def min.commute)

lemma slice_append_slice: "a \<le> b \<Longrightarrow> b \<le> c \<Longrightarrow> slice s a b @ slice s b c = slice s a c"
  using take_add [of "b - a" "c - b" "drop a s"] by (simp add: slice_def)

lemma slice_append_drop: "a \<le> b \<Longrightarrow> slice s a b @ drop b s = drop a s"
  unfolding slice_def by (metis append_take_drop_id drop_drop le_add_diff_inverse2)

section \<open>Case and substrings\<close>

text \<open>\<open>to_ascii_lowercase\<close>.\<close>

definition ascii_lower :: "string \<Rightarrow> string" where
  "ascii_lower s = map to_lower_byte s"

lemma to_lower_idem [simp]: "to_lower_byte (to_lower_byte c) = to_lower_byte c"
  by (auto simp: ascii_defs ord_char_of)

lemma ascii_lower_idem [simp]: "ascii_lower (ascii_lower s) = ascii_lower s"
  by (simp add: ascii_lower_def)

lemma contains_infix: "contains t (u @ t @ v)"
proof -
  have "starts_with t (drop (length u) (u @ t @ v))" by simp
  then show ?thesis unfolding contains_def str_find_None by (metis le_add1 length_append)
qed

lemma contains_split: "contains p t \<Longrightarrow> \<exists>u v. t = u @ p @ v"
proof -
  assume "contains p t"
  then obtain i where "str_find p t = Some i" by (auto simp: contains_def)
  from str_find_Some [OF this] obtain r where "t = take i t @ p @ r"
    by (metis append_take_drop_id starts_with_iff)
  then show ?thesis by blast
qed

lemma contains_trans: "contains p t \<Longrightarrow> contains p (u @ t @ v)"
  using contains_split [of p t] contains_infix by (metis append.assoc)

lemma contains_append: "contains p t \<Longrightarrow> contains p (u @ t)"
  using contains_split [of p t] contains_infix by (metis append.assoc)

lemma tl_suffix: "\<exists>u. xs = u @ tl xs"
  by (cases xs) auto

section \<open>Splitting at a character\<close>

text \<open>\<open>str::split\<close> and \<open>str::split_once\<close>.\<close>

fun split_on :: "char \<Rightarrow> string \<Rightarrow> string list" where
  "split_on c [] = [[]]"
| "split_on c (x # xs) =
     (if x = c then [] # split_on c xs
      else case split_on c xs of s # ss \<Rightarrow> (x # s) # ss | [] \<Rightarrow> [[x]])"

definition split_once_at :: "char \<Rightarrow> string \<Rightarrow> (string \<times> string) option" where
  "split_once_at c s =
     (if c \<in> set s then Some (takeWhile (\<lambda>x. x \<noteq> c) s, drop 1 (dropWhile (\<lambda>x. x \<noteq> c) s)) else None)"

end
