(* ===== verification/Scanner.thy ===== *)
theory Scanner
  imports Sordino_Prelude
begin

text \<open>
  Left-to-right scanning. \<open>scan\<close> is the iteration of \<open>Regex::find_iter\<close>: leftmost,
  non-overlapping matches as byte ranges, for a matcher that decides whether a match starts at the
  head of a string and how long it is. \<open>splice_hits\<close> is the copy loop the unmaskers run over those
  ranges, \<open>subst\<close> its position-free form, and \<open>str_replace\<close> is Rust's \<open>str::replace\<close>.
\<close>

section \<open>Definitions\<close>

fun scan :: "(string \<Rightarrow> nat option) \<Rightarrow> nat \<Rightarrow> string \<Rightarrow> (nat \<times> nat) list" where
  "scan m i [] = []"
| "scan m i (c # cs) =
     (case m (c # cs) of
        None \<Rightarrow> scan m (Suc i) cs
      | Some n \<Rightarrow> (i, i + n) # scan m (i + n) (drop (n - 1) cs))"

definition find_iter :: "(string \<Rightarrow> nat option) \<Rightarrow> string \<Rightarrow> (nat \<times> nat) list" where
  "find_iter m s = scan m 0 s"

text \<open>\<open>out.push_str(&text[last..start]); out.push_str(f(start, end)); last = end\<close>, and the final
  \<open>out.push_str(&text[last..])\<close>.\<close>

fun splice_hits :: "(nat \<Rightarrow> nat \<Rightarrow> string) \<Rightarrow> string \<Rightarrow> nat \<Rightarrow> (nat \<times> nat) list \<Rightarrow> string" where
  "splice_hits f text pos [] = drop pos text"
| "splice_hits f text pos ((a, b) # ms) =
     slice text pos a @ f a b @ splice_hits f text b ms"

fun subst :: "(string \<Rightarrow> nat option) \<Rightarrow> (string \<Rightarrow> string) \<Rightarrow> string \<Rightarrow> string" where
  "subst m g [] = []"
| "subst m g (c # cs) =
     (case m (c # cs) of
        None \<Rightarrow> c # subst m g cs
      | Some n \<Rightarrow> g (take n (c # cs)) @ subst m g (drop (n - 1) cs))"

definition lit_match :: "string \<Rightarrow> string \<Rightarrow> nat option" where
  "lit_match p s = (if p \<noteq> [] \<and> starts_with p s then Some (length p) else None)"

text \<open>The same, with ASCII case folded when \<open>ci\<close> is set.\<close>

definition lit_match_ci :: "bool \<Rightarrow> string \<Rightarrow> string \<Rightarrow> nat option" where
  "lit_match_ci ci p s =
     (if p \<noteq> [] \<and> length p \<le> length s
         \<and> (if ci then map to_lower_byte (take (length p) s) = map to_lower_byte p else take (length p) s = p)
      then Some (length p) else None)"

text \<open>\<open>str::replace\<close>; an empty pattern matches at every char boundary.\<close>

definition str_replace :: "string \<Rightarrow> string \<Rightarrow> string \<Rightarrow> string" where
  "str_replace p r s =
     (if p = [] then r @ concat (map (\<lambda>c. c @ r) (utf8_chars s))
      else subst (lit_match p) (\<lambda>_. r) s)"

text \<open>No match that starts in \<open>u\<close> reaches into or depends on \<open>v\<close>.\<close>

definition no_straddle :: "(string \<Rightarrow> nat option) \<Rightarrow> string \<Rightarrow> string \<Rightarrow> bool" where
  "no_straddle m u v \<longleftrightarrow> (\<forall>i<length u. m (drop i u @ v) = m (drop i u))"

section \<open>The contract of a matcher\<close>

locale matcher =
  fixes m :: "string \<Rightarrow> nat option"
  assumes bounded: "m s = Some n \<Longrightarrow> 0 < n \<and> n \<le> length s"
begin

text \<open>Induction along the scan: skip one byte, or jump over a match.\<close>

lemma match_induct [case_names Nil Skip Hit]:
  assumes "P []"
    and "\<And>c cs. m (c # cs) = None \<Longrightarrow> P cs \<Longrightarrow> P (c # cs)"
    and "\<And>s n. m s = Some n \<Longrightarrow> 0 < n \<Longrightarrow> n \<le> length s \<Longrightarrow> P (drop n s) \<Longrightarrow> P s"
  shows "P s"
proof (induction s rule: length_induct)
  case (1 s)
  show ?case
  proof (cases "m s")
    case None
    with 1 assms(1,2) show ?thesis by (cases s) auto
  next
    case (Some n)
    then have "0 < n" "n \<le> length s" by (auto dest: bounded)
    with 1 Some assms(3) show ?thesis by auto
  qed
qed

lemma drop_match:
  assumes "m (c # cs) = Some n"
  shows "drop (n - 1) cs = drop n (c # cs)"
  using bounded [OF assms] by (cases n) auto

lemma scan_hit: "m s = Some n \<Longrightarrow> scan m i s = (i, i + n) # scan m (i + n) (drop n s)"
  using bounded [of s n] drop_match by (cases s) auto

lemma subst_hit: "m s = Some n \<Longrightarrow> subst m g s = g (take n s) @ subst m g (drop n s)"
  using bounded [of s n] drop_match by (cases s) auto

lemma scan_in_bounds:
  "(a, b) \<in> set (scan m i s) \<Longrightarrow> i \<le> a \<and> a < b \<and> b \<le> i + length s"
proof (induction s arbitrary: i rule: match_induct)
  case (Skip c cs)
  then have "(a, b) \<in> set (scan m (Suc i) cs)" by simp
  with Skip.IH [of "Suc i"] show ?case by simp
next
  case (Hit s n)
  from Hit.prems Hit(1) consider "a = i" "b = i + n" | "(a, b) \<in> set (scan m (i + n) (drop n s))"
    by (auto simp: scan_hit)
  then show ?case
  proof cases
    case 2
    from Hit.IH [OF 2] Hit(2,3) show ?thesis by auto
  qed (use Hit(2,3) in auto)
qed simp

lemma scan_matches:
  "(a, b) \<in> set (scan m i s) \<Longrightarrow> m (drop (a - i) s) = Some (b - a)"
proof (induction s arbitrary: i rule: match_induct)
  case (Skip c cs)
  then have h: "(a, b) \<in> set (scan m (Suc i) cs)" by simp
  then have "Suc i \<le> a" using scan_in_bounds by blast
  then have "a - i = Suc (a - Suc i)" by simp
  with Skip.IH [OF h] show ?case by simp
next
  case (Hit s n)
  from Hit.prems Hit(1) consider "a = i" "b = i + n" | "(a, b) \<in> set (scan m (i + n) (drop n s))"
    by (auto simp: scan_hit)
  then show ?case
  proof cases
    case 2
    then have "i + n \<le> a" using scan_in_bounds by blast
    with Hit.IH [OF 2] show ?thesis by simp
  qed (use Hit(1) in auto)
qed simp

lemma scan_ordered: "sorted_wrt (\<lambda>x y. snd x \<le> fst y) (scan m i s)"
proof (induction s arbitrary: i rule: match_induct)
  case (Hit s n)
  have "\<forall>y\<in>set (scan m (i + n) (drop n s)). i + n \<le> fst y"
    using scan_in_bounds by fastforce
  with Hit.IH Hit(1) show ?case by (simp add: scan_hit)
qed simp_all

text \<open>Wherever a match could start, the scan has a hit that reaches over that position.\<close>

lemma scan_covers:
  "m (drop j s) \<noteq> None \<Longrightarrow> j < length s \<Longrightarrow> \<exists>(a, b)\<in>set (scan m i s). a \<le> i + j \<and> i + j < b"
proof (induction s arbitrary: i j rule: match_induct)
  case (Skip c cs)
  then obtain k where k: "j = Suc k" by (cases j) auto
  with Skip.prems have "m (drop k cs) \<noteq> None" "k < length cs" by simp_all
  from Skip.IH [OF this, of "Suc i"] k Skip(1) show ?case by simp
next
  case (Hit s n)
  show ?case
  proof (cases "j < n")
    case False
    then have "m (drop (j - n) (drop n s)) \<noteq> None" "j - n < length (drop n s)"
      using Hit.prems Hit(3) by (simp_all add: less_diff_conv2)
    from Hit.IH [OF this, of "i + n"] False Hit(1) show ?thesis by (auto simp: scan_hit)
  qed (use Hit(1) in \<open>auto simp: scan_hit\<close>)
qed simp

text \<open>The copy loop over the matched ranges is the position-free substitution.\<close>

lemma splice_scan:
  assumes "\<And>a b. (a, b) \<in> set (scan m (length u) s) \<Longrightarrow> f a b = g (slice (u @ s) a b)"
  shows "splice_hits f (u @ s) (length u) (scan m (length u) s) = subst m g s"
  using assms
proof (induction s arbitrary: u rule: match_induct)
  case (Skip c cs)
  let ?S = "scan m (Suc (length u)) cs"
  have "splice_hits f ((u @ [c]) @ cs) (length (u @ [c])) (scan m (length (u @ [c])) cs) = subst m g cs"
    by (rule Skip.IH) (use Skip.prems Skip(1) in simp)
  then have IH: "splice_hits f (u @ c # cs) (Suc (length u)) ?S = subst m g cs" by simp
  have "splice_hits f (u @ c # cs) (length u) ?S = c # splice_hits f (u @ c # cs) (Suc (length u)) ?S"
  proof (cases ?S)
    case (Cons p ps)
    obtain a b where p: "p = (a, b)" by force
    with Cons have "(a, b) \<in> set ?S" by simp
    then have "Suc (length u) \<le> a" using scan_in_bounds by blast
    then have "a - length u = Suc (a - Suc (length u))" by simp
    then have "slice (u @ c # cs) (length u) a = c # slice (u @ c # cs) (Suc (length u)) a"
      by (simp add: slice_def)
    with Cons p show ?thesis by simp
  qed simp
  with IH Skip(1) show ?case by simp
next
  case (Hit s n)
  let ?u = "u @ take n s"
  have len: "length ?u = length u + n" using Hit(3) by simp
  have "splice_hits f (?u @ drop n s) (length ?u) (scan m (length ?u) (drop n s)) = subst m g (drop n s)"
    by (rule Hit.IH) (use Hit.prems Hit(1) len in \<open>simp add: scan_hit\<close>)
  then have R: "splice_hits f (u @ s) (length u + n) (scan m (length u + n) (drop n s)) = subst m g (drop n s)"
    unfolding len by simp
  have "f (length u) (length u + n) = g (take n s)"
    using Hit.prems [of "length u" "length u + n"] Hit(1) by (simp add: scan_hit slice_def)
  with R Hit(1) show ?case by (simp add: scan_hit subst_hit slice_def)
qed simp

lemma splice_find_iter:
  assumes "\<And>a b. (a, b) \<in> set (find_iter m s) \<Longrightarrow> f a b = g (slice s a b)"
  shows "splice_hits f s 0 (find_iter m s) = subst m g s"
  using splice_scan [of "[]" s f g] assms by (simp add: find_iter_def)

lemma no_straddle_drop: "no_straddle m u v \<Longrightarrow> no_straddle m (drop k u) v"
  unfolding no_straddle_def by (simp add: add.commute less_diff_conv)

lemma subst_append:
  "no_straddle m u v \<Longrightarrow> subst m g (u @ v) = subst m g u @ subst m g v"
proof (induction u rule: match_induct)
  case (Skip c cs)
  have "m (c # cs @ v) = None"
    using Skip(1) Skip.prems unfolding no_straddle_def by (metis append_Cons drop0 length_greater_0_conv list.discI)
  with Skip.IH no_straddle_drop [OF Skip.prems, of 1] Skip(1) show ?case by simp
next
  case (Hit u n)
  have "m (u @ v) = Some n"
    using Hit(1,2,3) Hit.prems unfolding no_straddle_def by (metis drop0 less_le_trans)
  with Hit.IH [OF no_straddle_drop [OF Hit.prems]] Hit(1,3) show ?case by (simp add: subst_hit)
qed simp

lemma subst_no_match:
  "(\<And>i. i < length s \<Longrightarrow> m (drop i s) = None) \<Longrightarrow> subst m g s = s"
proof (induction s)
  case (Cons c cs)
  have "m (c # cs) = None" using Cons.prems [of 0] by simp
  moreover have "m (drop i cs) = None" if "i < length cs" for i
    using Cons.prems [of "Suc i"] that by simp
  ultimately show ?case using Cons.IH by simp
qed simp

lemma subst_identity: "subst m (\<lambda>t. t) s = s"
  by (induction s rule: match_induct) (simp_all add: subst_hit)

text \<open>A substitution only depends on the replacements of the matched pieces.\<close>

lemma subst_cong:
  assumes "\<And>u n v. s = u @ v \<Longrightarrow> m v = Some n \<Longrightarrow> g (take n v) = h (take n v)"
  shows "subst m g s = subst m h s"
  using assms
proof (induction s rule: match_induct)
  case (Skip c cs)
  have "subst m g cs = subst m h cs"
    by (rule Skip.IH) (use Skip.prems [of "c # _"] in auto)
  with Skip(1) show ?case by simp
next
  case (Hit s n)
  have "subst m g (drop n s) = subst m h (drop n s)"
  proof (rule Hit.IH)
    fix u k v assume "drop n s = u @ v" "m v = Some k"
    then show "g (take k v) = h (take k v)"
      using Hit.prems [of "take n s @ u" v k] by (metis append.assoc append_take_drop_id)
  qed
  moreover have "g (take n s) = h (take n s)" using Hit.prems [of "[]"] Hit(1) by simp
  ultimately show ?case using Hit(1) by (simp add: subst_hit)
qed simp

end

interpretation lit: matcher "lit_match p" for p
proof
  fix s n assume "lit_match p s = Some n"
  then show "0 < n \<and> n \<le> length s"
    by (auto simp: lit_match_def starts_with_iff split: if_splits)
qed

interpretation lit_ci: matcher "lit_match_ci ci p" for ci p
  by unfold_locales (auto simp: lit_match_ci_def split: if_splits)

text \<open>Replacing a needle that does not occur leaves the text as it is.\<close>

lemma str_replace_absent:
  assumes "p \<noteq> []" "\<not> contains p s"
  shows "str_replace p r s = s"
proof -
  have "lit_match p (drop i s) = None" if "i < length s" for i
    using assms(2) that str_find_None [of p s] by (auto simp: lit_match_def contains_def)
  with assms(1) show ?thesis by (simp add: str_replace_def lit.subst_no_match)
qed

end
