(* ===== verification/Token_Mint.thy ===== *)
theory Token_Mint
  imports Scanner
begin

text \<open>
  \<open>token.rs\<close> of \<open>sordino-engine\<close>: minting \<open>[ENTITY_xxxxxxxxxxxx]\<close> tokens from a salted blake3
  digest, the irreversible \<open>[ENTITY:xxxxxxxxxxxx]\<close> renderings, slugs, and the token grammar.

  Third-party primitives are the fields of \<open>prims\<close>: the blake3 digest, the Unicode case tables
  beyond ASCII, AES-256-GCM and the OS random source. \<open>digest_ok\<close> and the other \<open>_ok\<close>
  predicates state what their documentation promises.
\<close>

section \<open>Third-party primitives\<close>

record prims =
  blake3 :: "string \<Rightarrow> string"
  upper_char :: "string \<Rightarrow> string"
  lower_str :: "string \<Rightarrow> string"
  aes_seal :: "string \<Rightarrow> string \<Rightarrow> string \<Rightarrow> string option"
  aes_open :: "string \<Rightarrow> string \<Rightarrow> string \<Rightarrow> string option"
  os_rng :: "nat \<Rightarrow> string"

text \<open>A blake3 digest has 32 bytes.\<close>

definition digest_ok :: "prims \<Rightarrow> bool" where
  "digest_ok P \<longleftrightarrow> (\<forall>x. length (blake3 P x) = 32)"

text \<open>\<open>str::to_uppercase\<close>: exact on ASCII, the Unicode table elsewhere.\<close>

definition to_uppercase :: "prims \<Rightarrow> string \<Rightarrow> string" where
  "to_uppercase P s =
     concat (map (\<lambda>c. case c of [b] \<Rightarrow> if is_ascii b then [to_upper_byte b] else upper_char P c
                              | _ \<Rightarrow> upper_char P c) (utf8_chars s))"

lemma to_uppercase_ascii: "list_all is_ascii s \<Longrightarrow> to_uppercase P s = map to_upper_byte s"
  unfolding to_uppercase_def
  by (simp add: utf8_chars_ascii) (induction s; simp)

section \<open>Hex\<close>

definition hex_digit :: "nat \<Rightarrow> char" where
  "hex_digit n = (if n < 10 then char_of (48 + n) else char_of (87 + n))"

text \<open>\<open>blake3::Hash::to_hex\<close>: two lowercase digits per byte.\<close>

definition to_hex :: "string \<Rightarrow> string" where
  "to_hex bs = concat (map (\<lambda>b. [hex_digit (ord b div 16), hex_digit (ord b mod 16)]) bs)"

definition is_lower_hex :: "char \<Rightarrow> bool" where [ascii_defs]:
  "is_lower_hex c \<longleftrightarrow> is_digit c \<or> (97 \<le> ord c \<and> ord c \<le> 102)"

definition is_entity_char :: "char \<Rightarrow> bool" where [ascii_defs]:
  "is_entity_char c \<longleftrightarrow> is_upper c \<or> is_digit c \<or> ord c = 95"

lemma length_to_hex [simp]: "length (to_hex bs) = 2 * length bs"
  by (induction bs) (simp_all add: to_hex_def)

lemma to_hex_lower_hex: "list_all is_lower_hex (to_hex bs)"
proof -
  have "is_lower_hex (hex_digit n)" if "n < 16" for n
    using that by (auto simp: ascii_defs hex_digit_def ord_char_of)
  moreover have "ord b div 16 < 16" for b
    using ord_less_256 [of b] by linarith
  ultimately show ?thesis by (induction bs) (simp_all add: to_hex_def)
qed

section \<open>Minting\<close>

definition TOKEN_HASH_HEX_LEN :: nat where
  "TOKEN_HASH_HEX_LEN = 12"

definition make_token :: "prims \<Rightarrow> string \<Rightarrow> string \<Rightarrow> string \<Rightarrow> string" where
  "make_token P entity_type plaintext salt =
     (let hex = to_hex (blake3 P (salt @ entity_type @ '':'' @ plaintext));
          suffix = take TOKEN_HASH_HEX_LEN hex
      in ''['' @ to_uppercase P entity_type @ ''_'' @ suffix @ '']'')"

definition hash_value :: "prims \<Rightarrow> string \<Rightarrow> string \<Rightarrow> string" where
  "hash_value P entity_type plaintext =
     (let hex = to_hex (blake3 P plaintext); suffix = take TOKEN_HASH_HEX_LEN hex
      in ''['' @ to_uppercase P entity_type @ '':'' @ suffix @ '']'')"

definition make_hash_token :: "prims \<Rightarrow> string \<Rightarrow> string \<Rightarrow> string \<Rightarrow> string" where
  "make_hash_token P entity_type plaintext salt =
     (let hex = to_hex (blake3 P (salt @ entity_type @ '':'' @ plaintext));
          suffix = take TOKEN_HASH_HEX_LEN hex
      in ''['' @ to_uppercase P entity_type @ '':'' @ suffix @ '']'')"

definition BROKER_PREFIX :: string where
  "BROKER_PREFIX = ''BROKER__''"

definition is_broker_token :: "string \<Rightarrow> bool" where
  "is_broker_token token \<longleftrightarrow> starts_with ''[BROKER__'' token"

definition MAX_SLUG :: nat where
  "MAX_SLUG = 32"

definition slug_char :: "string \<Rightarrow> char" where
  "slug_char c = (case c of [b] \<Rightarrow> if is_alnum b then to_upper_byte b else CHR ''_'' | _ \<Rightarrow> CHR ''_'')"

definition slugify :: "string \<Rightarrow> string" where
  "slugify name =
     (let s = map slug_char (utf8_chars name);
          s = (if length s > MAX_SLUG then take MAX_SLUG s else s)
      in if s = [] then ''_'' else s)"

definition MAX_TOKEN_LEN :: nat where
  "MAX_TOKEN_LEN = 1 + 48 + 1 + TOKEN_HASH_HEX_LEN + 1"

section \<open>The token grammar\<close>

text \<open>
  The pattern \<open>\[[A-Z0-9_]+_[0-9a-f]{12}\]\<close>. None of its classes contains a bracket, so a match at a
  given start ends at the first closing bracket and there is at most one; \<open>token_match\<close> decides it
  and \<open>token_lang\<close> is the language itself.
\<close>

definition token_body :: "string \<Rightarrow> bool" where
  "token_body b \<longleftrightarrow>
     14 \<le> length b \<and> list_all is_entity_char (take (length b - 13) b)
     \<and> b ! (length b - 13) = CHR ''_'' \<and> list_all is_lower_hex (drop (length b - 12) b)"

definition token_match :: "string \<Rightarrow> nat option" where
  "token_match s =
     (case s of [] \<Rightarrow> None
      | c # cs \<Rightarrow>
          let b = takeWhile (\<lambda>x. x \<noteq> CHR '']'') cs in
          if c = CHR ''['' \<and> length b < length cs \<and> token_body b then Some (length b + 2) else None)"

definition token_lang :: "string set" where
  "token_lang = {''['' @ e @ ''_'' @ h @ '']'' | e h.
     e \<noteq> [] \<and> list_all is_entity_char e \<and> length h = 12 \<and> list_all is_lower_hex h}"

text \<open>\<open>token_regex().is_match(s)\<close>: a token occurs anywhere.\<close>

definition token_is_match :: "string \<Rightarrow> bool" where
  "token_is_match s \<longleftrightarrow> find_iter token_match s \<noteq> []"

definition token_entity_label :: "string \<Rightarrow> string option" where
  "token_entity_label tok =
     (if \<not> starts_with ''['' tok then None
      else let t = drop 1 tok in
        if \<not> ends_with '']'' t then None
        else let inner = take (length t - 1) t; tail = TOKEN_HASH_HEX_LEN + 1 in
          if length inner \<le> tail then None
          else let label = take (length inner - tail) inner;
                   sep_hash = drop (length inner - tail) inner in
            if \<not> starts_with ''_'' sep_hash then None else Some label)"

section \<open>The matcher decides the grammar\<close>

lemma bracket_classes [simp]:
  "\<not> is_entity_char (CHR ''['')" "\<not> is_entity_char (CHR '']'')" "\<not> is_entity_char (CHR '':'')"
  "\<not> is_lower_hex (CHR ''['')" "\<not> is_lower_hex (CHR '']'')" "\<not> is_lower_hex (CHR '':'')"
  "is_entity_char (CHR ''_'')"
  by (simp_all add: ascii_defs ord_def)

lemma ord_underscore: "ord (CHR ''_'') = 95"
  by (simp add: ord_def)

lemma entity_char_ascii: "is_entity_char c \<Longrightarrow> is_ascii c"
  by (auto simp: ascii_defs)

lemma lower_hex_ascii: "is_lower_hex c \<Longrightarrow> is_ascii c"
  by (auto simp: ascii_defs)

lemma token_body_iff:
  "token_body b \<longleftrightarrow>
     (\<exists>e h. b = e @ ''_'' @ h \<and> e \<noteq> [] \<and> list_all is_entity_char e \<and> length h = 12
            \<and> list_all is_lower_hex h)"
proof
  assume b: "token_body b"
  let ?k = "length b - 13"
  have "14 \<le> length b" using b by (simp add: token_body_def)
  then have "?k < length b" "Suc ?k = length b - 12" by linarith+
  from this(1) have "b = take ?k b @ b ! ?k # drop (Suc ?k) b" by (rule id_take_nth_drop)
  then have "b = take ?k b @ ''_'' @ drop (length b - 12) b"
    using b \<open>Suc ?k = _\<close> by (simp add: token_body_def)
  moreover have "take ?k b \<noteq> []" using b by (auto simp: token_body_def)
  moreover have "length (drop (length b - 12) b) = 12" using b by (auto simp: token_body_def)
  ultimately show "\<exists>e h. b = e @ ''_'' @ h \<and> e \<noteq> [] \<and> list_all is_entity_char e \<and> length h = 12
            \<and> list_all is_lower_hex h"
    using b unfolding token_body_def by blast
next
  assume "\<exists>e h. b = e @ ''_'' @ h \<and> e \<noteq> [] \<and> list_all is_entity_char e \<and> length h = 12
            \<and> list_all is_lower_hex h"
  then show "token_body b"
    by (auto simp: token_body_def nth_append Suc_le_eq)
qed

lemma token_body_no_bracket: "token_body b \<Longrightarrow> CHR ''['' \<notin> set b \<and> CHR '']'' \<notin> set b"
  unfolding token_body_iff list_all_iff using bracket_classes by (auto; blast)

lemma token_lang_iff: "t \<in> token_lang \<longleftrightarrow> (\<exists>b. t = ''['' @ b @ '']'' \<and> token_body b)"
  unfolding token_lang_def token_body_iff by (auto; metis append.assoc append_Cons append_Nil)

lemma token_match_iff: "token_match s = Some n \<longleftrightarrow> (\<exists>t r. t \<in> token_lang \<and> s = t @ r \<and> n = length t)"
proof
  assume m: "token_match s = Some n"
  then obtain cs where s: "s = CHR ''['' # cs" by (auto simp: token_match_def Let_def split: list.splits if_splits)
  let ?b = "takeWhile (\<lambda>x. x \<noteq> CHR '']'') cs" and ?d = "dropWhile (\<lambda>x. x \<noteq> CHR '']'') cs"
  from m s have b: "length ?b < length cs" "token_body ?b" "n = length ?b + 2"
    by (auto simp: token_match_def Let_def split: if_splits)
  have "?d \<noteq> []"
    using b(1) takeWhile_dropWhile_id [of "\<lambda>x. x \<noteq> CHR '']''" cs] by (metis append_Nil2 less_irrefl)
  then obtain r where r: "?d = CHR '']'' # r"
    using hd_dropWhile [of "\<lambda>x. x \<noteq> CHR '']''" cs] by (cases ?d) auto
  have "cs = ?b @ CHR '']'' # r" using r takeWhile_dropWhile_id [of "\<lambda>x. x \<noteq> CHR '']''" cs] by simp
  then have "s = (''['' @ ?b @ '']'') @ r" using s by simp
  moreover have "''['' @ ?b @ '']'' \<in> token_lang" using b(2) token_lang_iff by blast
  moreover have "n = length (''['' @ ?b @ '']'')" using b(3) by simp
  ultimately show "\<exists>t r. t \<in> token_lang \<and> s = t @ r \<and> n = length t" by blast
next
  assume "\<exists>t r. t \<in> token_lang \<and> s = t @ r \<and> n = length t"
  then obtain b r where b: "token_body b" "s = CHR ''['' # b @ CHR '']'' # r" "n = length b + 2"
    by (auto simp: token_lang_iff)
  have "takeWhile (\<lambda>x. x \<noteq> CHR '']'') (b @ CHR '']'' # r) = b"
    using token_body_no_bracket [OF b(1)] by (simp add: takeWhile_upto)
  with b show "token_match s = Some n" by (simp add: token_match_def Let_def)
qed

interpretation tok: matcher token_match
proof
  fix s n assume "token_match s = Some n"
  then obtain t r where "t \<in> token_lang" "s = t @ r" "n = length t" by (auto simp: token_match_iff)
  then show "0 < n \<and> n \<le> length s" by (auto simp: token_lang_def)
qed

lemma token_match_self: "t \<in> token_lang \<Longrightarrow> token_match (t @ r) = Some (length t)"
  using token_match_iff by blast

lemma token_match_open: "token_match (c # cs) \<noteq> None \<Longrightarrow> c = CHR ''[''"
  by (auto simp: token_match_def Let_def split: if_splits)

lemma token_match_no_open:
  assumes "CHR ''['' \<notin> set s"
  shows "token_match (drop i s) = None"
proof (cases "drop i s")
  case (Cons c cs)
  with assms have "c \<noteq> CHR ''[''" by (metis in_set_dropD list.set_intros(1))
  with Cons token_match_open show ?thesis by metis
qed (simp add: token_match_def)

text \<open>A token is decided by the text up to the next bracket of either kind.\<close>

lemma token_match_bracketed:
  assumes "\<exists>x\<in>set cs. x = CHR '']'' \<or> x = CHR ''[''"
  shows "token_match (c # cs @ v) = token_match (c # cs)"
proof (cases "CHR '']'' \<in> set cs")
  case True
  then obtain x y where cs: "cs = x @ CHR '']'' # y" "CHR '']'' \<notin> set x"
    using split_list_first by metis
  show ?thesis by (simp add: token_match_def Let_def cs takeWhile_upto)
next
  case False
  note tw = takeWhile_absent [OF False, of v] takeWhile_absent_all [OF False]
  have "\<not> token_body (cs @ w)" for w
    using assms False token_body_no_bracket [of "cs @ w"] by auto
  from this [of "takeWhile (\<lambda>x. x \<noteq> CHR '']'') v"] this [of "[]"] show ?thesis
    by (simp add: token_match_def Let_def tw)
qed

lemma find_iter_no_open:
  assumes "CHR ''['' \<notin> set s"
  shows "find_iter token_match s = []"
proof (rule ccontr)
  assume "find_iter token_match s \<noteq> []"
  then obtain a b where "(a, b) \<in> set (scan token_match 0 s)"
    by (cases "scan token_match 0 s") (auto simp: find_iter_def)
  then have "token_match (drop a s) = Some (b - a)" using tok.scan_matches by fastforce
  with token_match_no_open [OF assms] show False by simp
qed

section \<open>Properties of minted tokens\<close>

text \<open>An entity label is \<^emph>\<open>grammar-safe\<close> when its uppercased form is a non-empty entity part.\<close>

definition entity_safe :: "prims \<Rightarrow> string \<Rightarrow> bool" where
  "entity_safe P e \<longleftrightarrow> to_uppercase P e \<noteq> [] \<and> list_all is_entity_char (to_uppercase P e)"

lemma hash_suffix:
  assumes "digest_ok P"
  shows "length (take TOKEN_HASH_HEX_LEN (to_hex (blake3 P x))) = 12"
    and "list_all is_lower_hex (take TOKEN_HASH_HEX_LEN (to_hex (blake3 P x)))"
proof -
  show "length (take TOKEN_HASH_HEX_LEN (to_hex (blake3 P x))) = 12"
    using assms by (simp add: digest_ok_def TOKEN_HASH_HEX_LEN_def)
  show "list_all is_lower_hex (take TOKEN_HASH_HEX_LEN (to_hex (blake3 P x)))"
    using to_hex_lower_hex [of "blake3 P x"] by (auto simp: list_all_iff dest: in_set_takeD)
qed

lemma make_token_in_lang:
  assumes "digest_ok P" "entity_safe P e"
  shows "make_token P e pt salt \<in> token_lang"
  using assms(2) hash_suffix [OF assms(1)]
  unfolding make_token_def entity_safe_def token_lang_def Let_def by blast

text \<open>The bytes of a match: an opening bracket, then neither \<open>[\<close> nor \<open>:\<close>, then a closing one.\<close>

lemma token_match_bytes:
  assumes "token_match s = Some n"
  shows "s ! 0 = CHR ''[''" "0 < i \<Longrightarrow> i < n \<Longrightarrow> s ! i \<noteq> CHR ''[''"
    "i < n \<Longrightarrow> s ! i \<noteq> CHR '':''" "s ! (n - 1) = CHR '']''" "n \<le> length s" "15 < n"
proof -
  from assms obtain b r where b: "token_body b" "s = CHR ''['' # b @ CHR '']'' # r" "n = length b + 2"
    by (auto simp: token_match_iff token_lang_iff)
  have no: "CHR ''['' \<notin> set b" using token_body_no_bracket [OF b(1)] by simp
  have nc: "CHR '':'' \<notin> set b"
    using b(1) bracket_classes unfolding token_body_iff list_all_iff by (auto; blast)
  have mid: "s ! i = b ! (i - 1)" if "0 < i" "i < n - 1" for i
    using that b(2,3) by (cases i) (auto simp: nth_append)
  show "s ! 0 = CHR ''[''" using b(2) by simp
  show last: "s ! (n - 1) = CHR '']''" using b(2,3) by (simp add: nth_append)
  show "n \<le> length s" using b(2,3) by simp
  have "14 \<le> length b" using b(1) by (simp add: token_body_def)
  with b(3) show n: "15 < n" by linarith
  show "s ! i \<noteq> CHR ''[''" if i: "0 < i" "i < n" for i
  proof (cases "i = n - 1")
    case False
    with i have "s ! i = b ! (i - 1)" "i - 1 < length b" using mid b(3) by auto
    with no show ?thesis by (metis nth_mem)
  qed (use last in simp)
  show "s ! i \<noteq> CHR '':''" if i: "i < n" for i
  proof (cases "i = n - 1 \<or> i = 0")
    case False
    with i have "s ! i = b ! (i - 1)" "i - 1 < length b" using mid b(3) by auto
    with nc show ?thesis by (metis nth_mem)
  qed (use last b(2) in auto)
qed

lemma colon_form_unmatched:
  assumes E: "list_all is_entity_char E" and h: "list_all is_lower_hex h"
    and hit: "(a, b) \<in> set (find_iter token_match (u @ (''['' @ E @ '':'' @ h @ '']'') @ v))"
  shows "b \<le> length u \<or> length u + length (''['' @ E @ '':'' @ h @ '']'') \<le> a"
proof (rule ccontr)
  let ?t = "''['' @ E @ '':'' @ h @ '']''" and ?p = "length u + 1 + length E"
  let ?s = "u @ ?t @ v"
  assume "\<not> ?thesis"
  then have ov: "length u < b" "a < length u + length ?t" by auto
  from hit have ab: "a < b" "b \<le> length ?s" and m: "token_match (drop a ?s) = Some (b - a)"
    using tok.scan_in_bounds [of a b 0 ?s] tok.scan_matches [of a b 0 ?s] by (auto simp: find_iter_def)
  have nth: "drop a ?s ! i = ?s ! (a + i)" if "i < b - a" for i
    using that ab by (intro nth_drop) linarith
  note bytes = token_match_bytes [OF m]
  have colon: "?s ! ?p = CHR '':''" by (simp add: nth_append)
  have inner: "?s ! j \<noteq> CHR '']''" if "length u \<le> j" "j < ?p" for j
  proof (cases "j = length u")
    case False
    with that(1) have "length u < j" by simp
    then obtain k where k: "j = Suc (length u + k)" using less_imp_Suc_add by blast
    with that(2) have "k < length E" by simp
    with k have "?s ! j = E ! k" by (simp add: nth_append)
    with E \<open>k < length E\<close> show ?thesis using bracket_classes by (metis list_all_length)
  qed (simp add: nth_append)
  have tail: "?s ! j \<noteq> CHR ''[''" if "length u < j" "j < length u + length ?t" for j
  proof -
    have "?s ! j = ?t ! (j - length u)" by (rule nth_middle) (use that in simp_all)
    moreover have "?t ! (j - length u) \<in> set (E @ '':'' @ h @ '']'')"
    proof -
      from less_imp_Suc_add [OF \<open>length u < j\<close>] obtain k where "j - length u = Suc k" by auto
      moreover from this that have "k < length (E @ '':'' @ h @ '']'')" by simp
      then have "(E @ '':'' @ h @ '']'') ! k \<in> set (E @ '':'' @ h @ '']'')" by (rule nth_mem)
      moreover have "?t ! Suc k = (E @ '':'' @ h @ '']'') ! k" by simp
      ultimately show ?thesis by metis
    qed
    moreover have "CHR ''['' \<notin> set (E @ '':'' @ h @ '']'')"
      using E h bracket_classes unfolding list_all_iff by auto
    ultimately show ?thesis by metis
  qed
  show False
  proof (cases "a \<le> length u")
    case True
    show False
    proof (cases "?p < b")
      case True
      with \<open>a \<le> length u\<close> have "drop a ?s ! (?p - a) = CHR '':''" "?p - a < b - a"
        using nth [of "?p - a"] colon by auto
      with bytes(3) show False by blast
    next
      case False
      have "drop a ?s ! (b - a - 1) = ?s ! (b - 1)" using nth [of "b - a - 1"] ab by simp
      with bytes(4) have "?s ! (b - 1) = CHR '']''" by simp
      moreover have "length u \<le> b - 1" "b - 1 < ?p" using ov False ab by auto
      ultimately show False using inner by blast
    qed
  next
    case False
    have "?s ! a = CHR ''[''" using bytes(1) nth [of 0] ab by simp
    with tail False ov(2) show False by simp
  qed
qed

section \<open>Slugs\<close>

lemma slug_char_entity: "is_entity_char (slug_char c)"
proof -
  have "is_entity_char (to_upper_byte b)" if "is_alnum b" for b
    using to_upper_byte_alnum [OF that] by (auto simp: is_entity_char_def)
  then show ?thesis by (auto simp: slug_char_def split: list.split)
qed

lemma slugify_entity: "slugify name \<noteq> [] \<and> list_all is_entity_char (slugify name)"
proof -
  have "list_all is_entity_char (map slug_char (utf8_chars name))"
    by (simp add: list_all_iff slug_char_entity)
  then have "list_all is_entity_char (take MAX_SLUG (map slug_char (utf8_chars name)))"
    by (meson in_set_takeD list_all_iff)
  with \<open>list_all is_entity_char (map slug_char (utf8_chars name))\<close> show ?thesis
    by (simp add: slugify_def Let_def MAX_SLUG_def)
qed

lemma slugify_length: "length (slugify name) \<le> MAX_SLUG"
  by (auto simp: slugify_def Let_def MAX_SLUG_def)

lemma entity_char_upper_id: "is_entity_char c \<Longrightarrow> to_upper_byte c = c"
  by (auto simp: ascii_defs)

lemma to_uppercase_entity: "list_all is_entity_char e \<Longrightarrow> to_uppercase P e = e"
proof -
  assume e: "list_all is_entity_char e"
  then have "list_all is_ascii e" by (auto simp: list_all_iff entity_char_ascii)
  with e show ?thesis
    by (simp add: to_uppercase_ascii list_all_iff entity_char_upper_id map_idI)
qed

lemma slugify_idem: "slugify (slugify name) = slugify name"
proof -
  let ?e = "slugify name"
  have e: "list_all is_entity_char ?e" "?e \<noteq> []" using slugify_entity by auto
  have asc: "list_all is_ascii ?e" using e(1) by (auto simp: list_all_iff entity_char_ascii)
  have "slug_char [c] = c" if "is_entity_char c" for c
  proof (cases "is_alnum c")
    case False
    with that have "ord c = ord (CHR ''_'')" by (auto simp: ascii_defs ord_underscore)
    then have "c = CHR ''_''" by simp
    with False show ?thesis by (simp add: slug_char_def)
  qed (simp add: slug_char_def entity_char_upper_id that)
  then have "map slug_char (utf8_chars ?e) = ?e"
    using e(1) by (simp add: utf8_chars_ascii [OF asc] o_def list_all_iff map_idI)
  with e(2) slugify_length [of name] show ?thesis
    unfolding slugify_def [of ?e] by (simp add: Let_def)
qed

lemma entity_safe_slug: "entity_safe P (BROKER_PREFIX @ slugify name)" "entity_safe P (slugify name)"
proof -
  have "list_all is_entity_char (BROKER_PREFIX @ slugify name)"
    using slugify_entity by (simp add: BROKER_PREFIX_def ascii_defs ord_def)
  then show "entity_safe P (BROKER_PREFIX @ slugify name)"
    by (simp add: entity_safe_def to_uppercase_entity BROKER_PREFIX_def)
  show "entity_safe P (slugify name)"
    using slugify_entity by (simp add: entity_safe_def to_uppercase_entity)
qed

lemma length_make_token:
  "digest_ok P \<Longrightarrow> length (make_token P e pt salt) = length (to_uppercase P e) + 15"
  by (simp add: make_token_def Let_def digest_ok_def TOKEN_HASH_HEX_LEN_def)

lemma token_entity_label_lang:
  "list_all is_entity_char e \<Longrightarrow> e \<noteq> [] \<Longrightarrow> length h = 12 \<Longrightarrow>
   token_entity_label (''['' @ e @ ''_'' @ h @ '']'') = Some e"
  by (simp add: token_entity_label_def Let_def starts_with_def ends_with_def TOKEN_HASH_HEX_LEN_def)

lemma token_entity_label_mint:
  assumes "digest_ok P" "entity_safe P e"
  shows "token_entity_label (make_token P e pt salt) = Some (to_uppercase P e)"
  using assms(2) token_entity_label_lang hash_suffix [OF assms(1)]
  unfolding make_token_def entity_safe_def Let_def by blast

lemma is_broker_mint: "is_broker_token (make_token P (BROKER_PREFIX @ slugify name) pt salt)"
proof -
  have "list_all is_entity_char (BROKER_PREFIX @ slugify name)"
    using slugify_entity by (simp add: BROKER_PREFIX_def ascii_defs ord_def)
  then show ?thesis
    by (simp add: make_token_def Let_def is_broker_token_def to_uppercase_entity BROKER_PREFIX_def starts_with_def)
qed

text \<open>A concrete choice of the primitives, for evaluating the model on examples.\<close>

definition sample_prims :: prims where
  "sample_prims =
     \<lparr>blake3 = (\<lambda>x. take 32 (rev x @ replicate 32 (CHR ''0''))), upper_char = (\<lambda>c. c), lower_str = (\<lambda>s. s),
      aes_seal = (\<lambda>k n pt. Some (n @ pt)), aes_open = (\<lambda>k n ct. Some (drop (length n) ct)),
      os_rng = (\<lambda>i. replicate 12 (CHR ''k''))\<rparr>"

lemma sample_digest_ok [simp]: "digest_ok sample_prims"
  by (auto simp: digest_ok_def sample_prims_def)

section \<open>Properties of tokens\<close>

text \<open>
  Every token minted for a grammar-safe entity label is recognised by the token pattern, as
  exactly one match that spans it, whatever text follows it in the stream.
\<close>

theorem make_token_recognised:
  assumes "digest_ok P" "entity_safe P e"
  shows "find_iter token_match (make_token P e pt salt @ rest) =
     (0, length (make_token P e pt salt)) # scan token_match (length (make_token P e pt salt)) rest"
  using tok.scan_hit [OF token_match_self [OF make_token_in_lang [OF assms]]]
  by (simp add: find_iter_def)

lemma make_token_recognised_witness:
  "find_iter token_match (make_token sample_prims ''iban'' ''DE89'' ''s'' @ ''] ok'') = [(0, 19)]"
proof -
  have e: "entity_safe sample_prims ''iban''" by code_simp
  have "length (make_token sample_prims ''iban'' ''DE89'' ''s'') = 19"
    "scan token_match 19 ''] ok'' = []" by code_simp+
  then show ?thesis using make_token_recognised [OF sample_digest_ok e] by simp
qed

text \<open>
  The irreversible renderings are never touched by unmasking: wherever a salted or unsalted
  hash rendering of a grammar-safe label stands in a text, no match of the token pattern overlaps it.
\<close>

theorem hash_forms_unmatched:
  assumes "digest_ok P" "entity_safe P e" "t \<in> {hash_value P e pt, make_hash_token P e pt salt}"
    and "(a, b) \<in> set (find_iter token_match (u @ t @ v))"
  shows "b \<le> length u \<or> length u + length t \<le> a"
proof -
  obtain x where t: "t = ''['' @ to_uppercase P e @ '':'' @ take TOKEN_HASH_HEX_LEN (to_hex (blake3 P x)) @ '']''"
    using assms(3) by (auto simp: hash_value_def make_hash_token_def Let_def)
  show ?thesis
    using colon_form_unmatched [OF _ hash_suffix(2) [OF assms(1)]] assms(2,4)
    unfolding t entity_safe_def by blast
qed

lemma hash_forms_unmatched_witness:
  "(20, 39) \<in> set (find_iter token_match (''x'' @ hash_value sample_prims ''iban'' ''DE89'' @ ''[IBAN_0123456789ab]''))
   \<and> (39 \<le> length ''x'' \<or> length ''x'' + length (hash_value sample_prims ''iban'' ''DE89'') \<le> 20)"
proof -
  let ?s = "''x'' @ hash_value sample_prims ''iban'' ''DE89'' @ ''[IBAN_0123456789ab]''"
  have e: "entity_safe sample_prims ''iban''" by code_simp
  have hit: "(20, 39) \<in> set (find_iter token_match ?s)" by code_simp
  from hit hash_forms_unmatched [OF sample_digest_ok e insertI1 hit] show ?thesis by blast
qed

text \<open>
  A token minted for a registered secret, whatever its name, is in the token grammar, carries the
  broker prefix, and is at most \<open>MAX_TOKEN_LEN\<close> bytes, the bound the streaming unmaskers hold
  back; its label reads back as the broker prefix and the slug, and the slug is a fixed point.
\<close>

theorem broker_token_bounded:
  assumes "digest_ok P"
  shows "make_token P (BROKER_PREFIX @ slugify name) pt salt \<in> token_lang
    \<and> is_broker_token (make_token P (BROKER_PREFIX @ slugify name) pt salt)
    \<and> length (make_token P (BROKER_PREFIX @ slugify name) pt salt) \<le> MAX_TOKEN_LEN
    \<and> token_entity_label (make_token P (BROKER_PREFIX @ slugify name) pt salt) = Some (BROKER_PREFIX @ slugify name)
    \<and> slugify (slugify name) = slugify name"
proof (intro conjI)
  let ?e = "BROKER_PREFIX @ slugify name"
  have up: "to_uppercase P ?e = ?e"
    using to_uppercase_entity [of ?e] slugify_entity [of name]
    by (simp add: BROKER_PREFIX_def ascii_defs ord_def)
  show "make_token P ?e pt salt \<in> token_lang" using make_token_in_lang [OF assms entity_safe_slug(1)] .
  show "is_broker_token (make_token P ?e pt salt)" by (rule is_broker_mint)
  show "length (make_token P ?e pt salt) \<le> MAX_TOKEN_LEN"
  proof -
    have "length ?e \<le> 40" using slugify_length [of name] by (simp add: BROKER_PREFIX_def MAX_SLUG_def)
    then show ?thesis
      by (simp add: length_make_token [OF assms] up MAX_TOKEN_LEN_def TOKEN_HASH_HEX_LEN_def del: length_append)
  qed
  show "token_entity_label (make_token P ?e pt salt) = Some ?e"
    using token_entity_label_mint [OF assms entity_safe_slug(1)] up by simp
  show "slugify (slugify name) = slugify name" by (rule slugify_idem)
qed

lemma broker_token_bounded_witness:
  "length (make_token sample_prims (BROKER_PREFIX @ slugify ''db pass'') ''v'' ''s'') \<le> 63"
  using broker_token_bounded [OF sample_digest_ok, of "''db pass''" "''v''" "''s''"]
  by (simp add: MAX_TOKEN_LEN_def TOKEN_HASH_HEX_LEN_def)

end
