(* ===== verification/Manifest_Model.thy ===== *)
theory Manifest_Model
  imports Token_Mint
begin

text \<open>
  \<open>surface.rs\<close>, \<open>error.rs\<close> and \<open>manifest.rs\<close> of \<open>sordino-engine\<close>: the five surfaces of the four
  arrows, the engine's errors, the per-call unmask manifest and the detection statistics.

  A manifest is its list of entries; the random \<open>call_id\<close> of the Rust struct is an audit label
  that no operation reads and is left out. Error messages are reduced to the data they quote.
\<close>

section \<open>Surfaces\<close>

datatype surface = UserMessage | SystemPrompt | ToolResult | AssistantText | ToolUseInput

datatype direction = Mask | Unmask

fun surface_direction :: "surface \<Rightarrow> direction" where
  "surface_direction UserMessage = Mask"
| "surface_direction SystemPrompt = Mask"
| "surface_direction ToolResult = Mask"
| "surface_direction AssistantText = Unmask"
| "surface_direction ToolUseInput = Unmask"

fun surface_tag :: "surface \<Rightarrow> nat" where
  "surface_tag UserMessage = 0"
| "surface_tag SystemPrompt = 1"
| "surface_tag ToolResult = 2"
| "surface_tag AssistantText = 3"
| "surface_tag ToolUseInput = 4"

lemma surface_tag_inject [simp]: "surface_tag a = surface_tag b \<longleftrightarrow> a = b"
  by (cases a; cases b) simp_all

instantiation surface :: linorder
begin

definition less_eq_surface :: "surface \<Rightarrow> surface \<Rightarrow> bool" where
  "less_eq_surface a b \<longleftrightarrow> surface_tag a \<le> surface_tag b"

definition less_surface :: "surface \<Rightarrow> surface \<Rightarrow> bool" where
  "less_surface a b \<longleftrightarrow> surface_tag a < surface_tag b"

instance
  by standard (auto simp: less_eq_surface_def less_surface_def)

end

section \<open>Operators and errors\<close>

datatype operator =
    OpToken
  | OpRedact
  | OpMask string nat
  | OpHash
  | OpBroker
  | OpLocal
  | OpKeep

datatype secret_fault =
    BadSecretOperator string operator
  | EmptySecretValue string
  | BrokerSlugCollision string
  | SecretOnlyOperator
  | BadBrokerGlob string
  | MatcherBuildFailed string

datatype engine_error =
    EncryptionFailed
  | DecryptionFailed
  | WrongDirection surface
  | DetectionFailed string
  | BadCustomRegex string
  | MlError string
  | InvalidSecret secret_fault
  | RegisteredSecretInCarveOut string

section \<open>Manifest\<close>

record manifest_entry =
  canonical_form :: string
  token_handle :: string
  entity_kind :: string
  arrow_origin :: surface
  exposed_at :: "(nat \<times> nat) option"
  broker :: bool
  local :: bool

type_synonym unmask_manifest = "manifest_entry list"

definition manifest_new :: unmask_manifest where
  "manifest_new = []"

definition manifest_merge :: "unmask_manifest \<Rightarrow> unmask_manifest \<Rightarrow> unmask_manifest" where
  "manifest_merge m other = m @ other"

definition manifest_push :: "unmask_manifest \<Rightarrow> manifest_entry \<Rightarrow> unmask_manifest" where
  "manifest_push m e = m @ [e]"

definition find_entry :: "unmask_manifest \<Rightarrow> string \<Rightarrow> manifest_entry option" where
  "find_entry m token = find (\<lambda>e. token_handle e = token) m"

definition manifest_lookup :: "unmask_manifest \<Rightarrow> string \<Rightarrow> string option" where
  "manifest_lookup m token = map_option canonical_form (find_entry m token)"

text \<open>The first entry registered for a handle keeps answering after any later merge.\<close>

lemma find_entry_append:
  "find_entry (m @ m') t = (case find_entry m t of Some e \<Rightarrow> Some e | None \<Rightarrow> find_entry m' t)"
  by (induction m) (simp_all add: find_entry_def)

lemma find_entry_Some: "find_entry m t = Some e \<Longrightarrow> e \<in> set m \<and> token_handle e = t"
  by (auto simp: find_entry_def find_Some_iff)

lemma find_entry_None: "find_entry m t = None \<longleftrightarrow> (\<forall>e\<in>set m. token_handle e \<noteq> t)"
  by (auto simp: find_entry_def find_None_iff)

section \<open>Statistics\<close>

record mask_stats =
  leaves :: nat
  hit :: nat
  fresh_miss :: nat
  ml_ran :: nat
  fail_open :: nat
  disabled :: nat

definition stats_default :: mask_stats where
  "stats_default = \<lparr>leaves = 0, hit = 0, fresh_miss = 0, ml_ran = 0, fail_open = 0, disabled = 0\<rparr>"

definition stats_disabled :: mask_stats where
  "stats_disabled = stats_default\<lparr>leaves := 1, disabled := 1\<rparr>"

definition stats_merge :: "mask_stats \<Rightarrow> mask_stats \<Rightarrow> mask_stats" where
  "stats_merge s t =
     \<lparr>leaves = leaves s + leaves t, hit = hit s + hit t, fresh_miss = fresh_miss s + fresh_miss t,
      ml_ran = ml_ran s + ml_ran t, fail_open = fail_open s + fail_open t,
      disabled = disabled s + disabled t\<rparr>"

record mask_outcome =
  masked_text :: string
  outcome_manifest :: unmask_manifest
  stats :: mask_stats

definition passthrough :: "string \<Rightarrow> mask_stats \<Rightarrow> mask_outcome" where
  "passthrough text st = \<lparr>masked_text = text, outcome_manifest = manifest_new, stats = st\<rparr>"

text \<open>Every leaf is served from the cache, freshly detected, or passed with masking off.\<close>

definition stats_balanced :: "mask_stats \<Rightarrow> bool" where
  "stats_balanced s \<longleftrightarrow> leaves s = hit s + fresh_miss s + disabled s \<and> ml_ran s \<le> fresh_miss s \<and> fail_open s = 0"

lemma stats_balanced_default [simp]: "stats_balanced stats_default" "stats_balanced stats_disabled"
  by (simp_all add: stats_balanced_def stats_default_def stats_disabled_def)

lemma stats_balanced_merge:
  "stats_balanced s \<Longrightarrow> stats_balanced t \<Longrightarrow> stats_balanced (stats_merge s t)"
  by (simp add: stats_balanced_def stats_merge_def)

end
