(* ===== verification/Prefix_Code.thy ===== *)
theory Prefix_Code
  imports Token_Mint "HOL-Library.List_Lexorder" "HOL-Library.Char_ord"
begin

text \<open>
  Self-delimiting encodings. The engine keys its detection cache by hashes of byte strings it builds
  field by field; a change of any field must change the string. The locale \<open>prefix_code\<close> is that
  contract (an encoding can be read off the front of any input in one way), \<open>listed_code\<close> adds what
  a terminated list of codes needs; both are interpreted on the encoders the fingerprints use.
\<close>

section \<open>Encoders\<close>

definition byte :: "nat \<Rightarrow> char" where
  "byte n = char_of n"

lemma ord_byte [simp]: "n < 256 \<Longrightarrow> ord (byte n) = n"
  by (simp add: byte_def ord_char_of)

lemma byte_inject: "m < 256 \<Longrightarrow> n < 256 \<Longrightarrow> byte m = byte n \<longleftrightarrow> m = n"
  by (metis ord_byte)

text \<open>\<open>to_le_bytes\<close> and \<open>from_le_bytes\<close>.\<close>

fun le_bytes :: "nat \<Rightarrow> nat \<Rightarrow> string" where
  "le_bytes 0 x = []"
| "le_bytes (Suc w) x = byte (x mod 256) # le_bytes w (x div 256)"

fun le_value :: "string \<Rightarrow> nat" where
  "le_value [] = 0"
| "le_value (c # cs) = ord c + 256 * le_value cs"

definition nul :: "string \<Rightarrow> string" where
  "nul s = s @ [byte 0]"

definition flag :: "bool \<Rightarrow> char" where
  "flag b = byte (if b then 1 else 0)"

text \<open>A hashed string: valid UTF-8 without NUL.\<close>

definition plain :: "string \<Rightarrow> bool" where
  "plain s \<longleftrightarrow> utf8_valid s \<and> byte 0 \<notin> set s"

definition until_stop :: "char \<Rightarrow> string list \<Rightarrow> string" where
  "until_stop stop es = concat es @ [stop]"

lemma length_le_bytes [simp]: "length (le_bytes w x) = w"
  by (induction w arbitrary: x) simp_all

lemma le_value_bytes: "x < 256 ^ w \<Longrightarrow> le_value (le_bytes w x) = x"
proof (induction w arbitrary: x)
  case (Suc w)
  then have "x div 256 < 256 ^ w" by (simp add: less_mult_imp_div_less mult.commute)
  with Suc.IH show ?case by simp
qed simp

lemma flag_inject [simp]: "flag a = flag b \<longleftrightarrow> a = b"
  by (simp add: flag_def byte_inject)

lemma utf8_valid_bytes: "utf8_valid s \<Longrightarrow> c \<in> set s \<Longrightarrow> ord c < 245"
proof (induction s rule: utf8_valid.induct)
  case (2 a s)
  consider "ord a < 128" | "194 \<le> ord a" "ord a \<le> 223" | "224 \<le> ord a" "ord a \<le> 239" | "240 \<le> ord a" "ord a \<le> 244"
    using "2.prems"(1) by (force split: if_splits)
  then show ?case
  proof cases
    case 1
    with 2 show ?thesis by (auto split: if_splits)
  next
    case 2
    with "2.prems" "2.IH"(2) show ?thesis by (auto simp: is_cont_def split: list.splits)
  next
    case 3
    with "2.prems" "2.IH"(3) show ?thesis by (auto simp: is_cont_def split: list.splits)
  next
    case 4
    with "2.prems" "2.IH"(4) show ?thesis by (auto simp: is_cont_def split: list.splits)
  qed
qed simp

section \<open>The contract\<close>

locale prefix_code =
  fixes enc :: "'a \<Rightarrow> string" and valid :: "'a \<Rightarrow> bool"
  assumes unique: "valid a \<Longrightarrow> valid b \<Longrightarrow> enc a @ r = enc b @ s \<Longrightarrow> a = b \<and> r = s"
begin

lemma inject: "valid a \<Longrightarrow> valid b \<Longrightarrow> enc a = enc b \<longleftrightarrow> a = b"
  using unique [of a b "[]" "[]"] by auto

end

locale listed_code = prefix_code +
  fixes stop :: char
  assumes starts: "valid a \<Longrightarrow> \<exists>c cs. enc a = c # cs \<and> c \<noteq> stop"
begin

lemma list_unique:
  assumes "list_all valid xs" "list_all valid ys"
    "until_stop stop (map enc xs) @ r = until_stop stop (map enc ys) @ s"
  shows "xs = ys \<and> r = s"
  using assms
proof (induction xs arbitrary: ys)
  case Nil
  then show ?case
    using starts by (cases ys) (fastforce simp: until_stop_def)+
next
  case (Cons x xs)
  show ?case
  proof (cases ys)
    case Nil
    with Cons.prems starts [of x] show ?thesis by (auto simp: until_stop_def)
  next
    case (Cons y zs)
    from Cons.prems Cons have v: "valid x" "valid y" "list_all valid xs" "list_all valid zs" by simp_all
    from Cons.prems(3) Cons
    have "enc x @ (until_stop stop (map enc xs) @ r) = enc y @ (until_stop stop (map enc zs) @ s)"
      by (simp add: until_stop_def)
    from unique [OF v(1,2) this] Cons.IH [OF v(3,4)] Cons show ?thesis by blast
  qed
qed

end

section \<open>The encoders satisfy it\<close>

lemma stopped_unique:
  assumes "u @ x # r = v @ y # s" "x \<notin> set v" "y \<notin> set u" "\<And>z. z \<in> set u \<Longrightarrow> z \<noteq> x"
    "\<And>z. z \<in> set v \<Longrightarrow> z \<noteq> y"
  shows "u = v \<and> x = y \<and> r = s"
  using assms
proof (induction u arbitrary: v)
  case Nil
  then show ?case by (cases v) auto
next
  case (Cons c u)
  then show ?case by (cases v) auto
qed

lemma nul_unique: "byte 0 \<notin> set a \<Longrightarrow> byte 0 \<notin> set b \<Longrightarrow> nul a @ r = nul b @ s \<Longrightarrow> a = b \<and> r = s"
  unfolding nul_def using stopped_unique [of a "byte 0" r b "byte 0" s] by fastforce

lemma le_bytes_unique:
  "x < 256 ^ w \<Longrightarrow> y < 256 ^ w \<Longrightarrow> le_bytes w x @ r = le_bytes w y @ s \<Longrightarrow> x = y \<and> r = s"
  by (metis append_eq_append_conv le_value_bytes length_le_bytes)

lemma plain_high: "plain s \<Longrightarrow> 245 \<le> n \<Longrightarrow> n < 256 \<Longrightarrow> byte n \<notin> set s"
  using utf8_valid_bytes [of s "byte n"] by (auto simp: plain_def)

lemma nul_starts: "plain s \<Longrightarrow> 245 \<le> n \<Longrightarrow> n < 256 \<Longrightarrow> \<exists>c cs. nul s = c # cs \<and> c \<noteq> byte n"
  using plain_high [of s n] by (cases s) (auto simp: nul_def byte_inject)

interpretation keys: listed_code nul plain "byte 255"
proof unfold_locales
  fix a b r s assume "plain a" "plain b" "nul a @ r = nul b @ s"
  then show "a = b \<and> r = s" using nul_unique [of a b r s] by (simp add: plain_def)
next
  fix a assume "plain a"
  then show "\<exists>c cs. nul a = c # cs \<and> c \<noteq> byte 255" by (rule nul_starts) simp_all
qed

interpretation words: listed_code nul plain "byte 254"
proof unfold_locales
  fix a assume "plain a"
  then show "\<exists>c cs. nul a = c # cs \<and> c \<noteq> byte 254" by (rule nul_starts) simp_all
qed

end
