(* ===== verification/Engine_Config.thy ===== *)
theory Engine_Config
  imports Manifest_Model Prefix_Code Complex_Main "HOL-Library.Multiset"
begin

text \<open>
  \<open>config.rs\<close> of \<open>sordino-engine\<close>: profiles, categories and their entity labels, the allow-list,
  the display marker, custom replacements, the ML parameters, the engine configuration with its
  gates and operator precedence, and the detection fingerprint that keys the cache.

  \<open>f32\<close> scores are rationals (every finite \<open>f32\<close> is one); the bit pattern of a score and the regex
  engine are the fields of \<open>text_api\<close>. A hash set is a set, a hash map an association list. serde's
  parse of a document is outside the model: the shadow record it fills is the input.
\<close>

section \<open>Entity labels\<close>

definition ENTITY_DATE_OF_BIRTH :: string where "ENTITY_DATE_OF_BIRTH = ''DATE_OF_BIRTH''"
definition ENTITY_CREDIT_CARD_EXPIRATION :: string where "ENTITY_CREDIT_CARD_EXPIRATION = ''CREDIT_CARD_EXPIRATION''"
definition ENTITY_EXPIRATION_DATE :: string where "ENTITY_EXPIRATION_DATE = ''EXPIRATION_DATE''"
definition ENTITY_CVV :: string where "ENTITY_CVV = ''CVV''"
definition ENTITY_PRIVATE_DATE :: string where "ENTITY_PRIVATE_DATE = ''PRIVATE_DATE''"
definition ENTITY_URL_CREDENTIAL :: string where "ENTITY_URL_CREDENTIAL = ''URL_CREDENTIAL''"

lemmas entity_labels =
  ENTITY_DATE_OF_BIRTH_def ENTITY_CREDIT_CARD_EXPIRATION_def ENTITY_EXPIRATION_DATE_def ENTITY_CVV_def
  ENTITY_PRIVATE_DATE_def ENTITY_URL_CREDENTIAL_def

section \<open>Profiles and categories\<close>

datatype profile = Strict | Balanced | Minimal | SecretsOnly

datatype category = Secrets | Financial | Identity | Contact | Network | Personal

fun default_threshold :: "profile \<Rightarrow> rat" where
  "default_threshold Strict = 4/10"
| "default_threshold Balanced = 5/10"
| "default_threshold SecretsOnly = 6/10"
| "default_threshold Minimal = 6/10"

fun default_categories :: "profile \<Rightarrow> category set" where
  "default_categories Strict = {Secrets, Financial, Identity, Contact, Network, Personal}"
| "default_categories Balanced = {Secrets, Financial, Identity, Contact}"
| "default_categories Minimal = {Secrets, Financial}"
| "default_categories SecretsOnly = {Secrets}"

definition profile_default_operator :: "profile \<Rightarrow> operator" where
  "profile_default_operator p = OpToken"

definition ALL_CATEGORIES :: "category list" where
  "ALL_CATEGORIES = [Secrets, Financial, Identity, Contact, Network, Personal]"

fun entity_types :: "category \<Rightarrow> string list" where
  "entity_types Secrets =
     [''API_KEY'', ''AWS_ACCESS_KEY'', ''AWS_SECRET_KEY'', ''AZURE_KEY'', ''GCP_API_KEY'', ''PRIVATE_KEY'',
      ''JWT'', ENTITY_URL_CREDENTIAL]"
| "entity_types Financial =
     [''CREDIT_CARD'', ''IBAN_CODE'', ''CRYPTO'', ''US_BANK_NUMBER'', ''ABA_ROUTING_NUMBER'',
      ENTITY_CREDIT_CARD_EXPIRATION, ENTITY_EXPIRATION_DATE, ENTITY_CVV]"
| "entity_types Identity =
     [''US_SSN'', ''US_ITIN'', ''NATIONAL_ID'', ''PASSPORT'', ''US_PASSPORT'', ''UK_PASSPORT'',
      ''DRIVER_LICENSE'', ''US_DRIVER_LICENSE'', ''UK_DRIVING_LICENCE'', ''MEDICAL_LICENSE'', ''US_NPI'',
      ''US_MBI'', ''UK_NHS'', ''UK_NINO'', ENTITY_DATE_OF_BIRTH, ENTITY_PRIVATE_DATE, ENTITY_EXPIRATION_DATE]"
| "entity_types Contact = [''EMAIL_ADDRESS'', ''PHONE_NUMBER'']"
| "entity_types Network = [''IP_ADDRESS'', ''URL'', ''MAC_ADDRESS'', ''DOMAIN'']"
| "entity_types Personal = [''PERSON'', ''LOCATION'', ''ORGANIZATION'']"

definition canonical_entity_types :: "string set" where
  "canonical_entity_types = set (concat (map entity_types ALL_CATEGORIES))"

fun category_tag :: "category \<Rightarrow> nat" where
  "category_tag Secrets = 0"
| "category_tag Financial = 1"
| "category_tag Identity = 2"
| "category_tag Contact = 3"
| "category_tag Network = 4"
| "category_tag Personal = 5"

section \<open>Allow-list\<close>

text \<open>
  The text-search crates. A compiled regex is its case-insensitivity flag and its source: whether
  it compiles, whether it matches somewhere, and the ranges of its leftmost non-overlapping matches;
  \<open>re_escape\<close> is \<open>regex::escape\<close>. Aho-Corasick takes the case-insensitivity flag and the needles.
  \<open>uni_alnum\<close> is the Unicode table behind \<open>char::is_alphanumeric\<close>, \<open>f32_bits\<close> the IEEE bytes of a
  score.
\<close>

record text_api =
  re_compiles :: "bool \<Rightarrow> string \<Rightarrow> bool"
  re_is_match :: "bool \<Rightarrow> string \<Rightarrow> string \<Rightarrow> bool"
  re_find_iter :: "bool \<Rightarrow> string \<Rightarrow> string \<Rightarrow> (nat \<times> nat) list"
  re_escape :: "string \<Rightarrow> string"
  ac_builds :: "bool \<Rightarrow> string list \<Rightarrow> bool"
  ac_find_iter :: "bool \<Rightarrow> string list \<Rightarrow> string \<Rightarrow> (nat \<times> nat) list"
  ac_is_match :: "bool \<Rightarrow> string list \<Rightarrow> string \<Rightarrow> bool"
  uni_alnum :: "string \<Rightarrow> bool"
  f32_bits :: "rat \<Rightarrow> string"

record allow_list =
  exact :: "string set"
  exact_ci :: "string set"
  patterns :: "string list"

definition allow_list_empty :: allow_list where
  "allow_list_empty = \<lparr>exact = {}, exact_ci = {}, patterns = []\<rparr>"

definition add_exact :: "string \<Rightarrow> allow_list \<Rightarrow> allow_list" where
  "add_exact v al = al\<lparr>exact := insert v (exact al)\<rparr>"

definition add_exact_ci :: "prims \<Rightarrow> string \<Rightarrow> allow_list \<Rightarrow> allow_list" where
  "add_exact_ci P v al = al\<lparr>exact_ci := insert (lower_str P v) (exact_ci al)\<rparr>"

definition add_pattern :: "string \<Rightarrow> allow_list \<Rightarrow> allow_list" where
  "add_pattern p al = al\<lparr>patterns := patterns al @ [p]\<rparr>"

text \<open>Pattern sources are written with \<open>%\<close> for the backslash.\<close>

definition pat :: "string \<Rightarrow> string" where
  "pat s = map (\<lambda>c. if c = CHR ''%'' then CHR 0x5C else c) s"

definition common_patterns :: "string list" where
  "common_patterns = map pat
    [''(?i)^claude(%s+(sonnet|opus|haiku))?(%s+%d+(%.%d+)*)?$'',
     ''(?i)^(sonnet|opus|haiku)(%s+%d+(%.%d+)*)?$'',
     ''(?i)^https?://(www%.)?claude%.ai(/%S*)?$'',
     ''(?i)^https?://(www%.)?claude%.com(/%S*)?$'',
     ''(?i)^https?://(www%.)?w3%.org(/%S*)?$'',
     ''(?i)^https?://(www%.)?schema%.org(/%S*)?$'',
     ''(?i)^https?://(www%.)?json-schema%.org(/%S*)?$'',
     ''(?i)^https?://(www%.)?purl%.org(/%S*)?$'',
     ''(?i)^https?://(www%.)?xmlns%.com(/%S*)?$'',
     ''(?i)^https?://(www%.)?apache%.org/licenses(/%S*)?$'',
     ''(?i)^https?://(www%.)?opengis%.net(/%S*)?$'',
     ''(?i)^https?://(www%.)?docbook%.org(/%S*)?$'',
     ''(?i)^https?://(www%.)?opensource%.org(/%S*)?$'',
     ''(?i)^https?://(www%.)?gnu%.org(/%S*)?$'']"

definition with_common_words :: "prims \<Rightarrow> allow_list" where
  "with_common_words P =
     (let al = fold add_exact [''Anthropic'', ''Claude'', ''127.0.0.1''] allow_list_empty;
          al = add_exact_ci P ''localhost'' al;
          al = add_exact_ci P ''sordino'' al;
          al = fold add_exact [''API_KEY_a1b2c3'', ''[API_KEY_a1b2c3'', ''\"[API_KEY_a1b2c3]\"''] al;
          al = add_exact_ci P ''noreply@anthropic.com'' al
      in fold add_pattern common_patterns al)"

definition is_allowed :: "prims \<Rightarrow> text_api \<Rightarrow> allow_list \<Rightarrow> string \<Rightarrow> bool" where
  "is_allowed P R al value =
     (if value \<in> exact al then True
      else if lower_str P value \<in> exact_ci al then True
      else list_ex (\<lambda>p. re_is_match R False p value) (patterns al))"

text \<open>The first pattern that does not compile is the error.\<close>

fun add_patterns :: "text_api \<Rightarrow> string list \<Rightarrow> allow_list \<Rightarrow> string + allow_list" where
  "add_patterns R [] al = Inr al"
| "add_patterns R (p # ps) al = (if re_compiles R False p then add_patterns R ps (add_pattern p al) else Inl p)"

definition from_specs :: "prims \<Rightarrow> text_api \<Rightarrow> string list \<Rightarrow> string list \<Rightarrow> string list \<Rightarrow> string + allow_list" where
  "from_specs P R ex ci ps =
     add_patterns R ps (fold (add_exact_ci P) ci (fold add_exact ex (with_common_words P)))"

section \<open>Display marker\<close>

record reveal_marker =
  rm_enabled :: bool
  rm_prefix :: string
  rm_suffix :: string

definition default_marker_prefix :: string where
  "default_marker_prefix = CHR 0x1B # ''[97;44m''"

definition default_marker_suffix :: string where
  "default_marker_suffix = CHR 0x1B # ''[0m''"

definition reveal_marker_default :: reveal_marker where
  "reveal_marker_default =
     \<lparr>rm_enabled = True, rm_prefix = default_marker_prefix, rm_suffix = default_marker_suffix\<rparr>"

definition marker_is_active :: "reveal_marker \<Rightarrow> bool" where
  "marker_is_active k \<longleftrightarrow> rm_enabled k \<and> (rm_prefix k \<noteq> [] \<or> rm_suffix k \<noteq> [])"

definition marker_wrap :: "reveal_marker \<Rightarrow> string \<Rightarrow> string" where
  "marker_wrap k value = rm_prefix k @ value @ rm_suffix k"

definition marker_contained_in :: "reveal_marker \<Rightarrow> string \<Rightarrow> bool" where
  "marker_contained_in k text \<longleftrightarrow>
     (rm_prefix k \<noteq> [] \<and> contains (rm_prefix k) text) \<or> (rm_suffix k \<noteq> [] \<and> contains (rm_suffix k) text)"

definition marker_strip :: "reveal_marker \<Rightarrow> string \<Rightarrow> string" where
  "marker_strip k text =
     (let out = (if rm_prefix k = [] then text else str_replace (rm_prefix k) [] text)
      in if rm_suffix k \<noteq> [] \<and> rm_suffix k \<noteq> rm_prefix k then str_replace (rm_suffix k) [] out else out)"

section \<open>Custom rules and ML parameters\<close>

record custom_replacement =
  pattern :: string
  cr_entity_type :: string
  is_regex :: bool
  case_sensitive :: bool
  priority :: nat
  literal_token :: bool
  cr_token :: "string option"
  apply_to_surfaces :: "surface set option"

datatype ml_backend = LocalBackend | HttpBackend | SidecarBackend

fun backend_tag :: "ml_backend \<Rightarrow> nat" where
  "backend_tag LocalBackend = 0"
| "backend_tag HttpBackend = 1"
| "backend_tag SidecarBackend = 2"

datatype quantization = QNone | Q8_0 | Bf16 | Bf16Vnni

fun quant_tag :: "quantization \<Rightarrow> nat" where
  "quant_tag QNone = 0"
| "quant_tag Q8_0 = 1"
| "quant_tag Bf16 = 2"
| "quant_tag Bf16Vnni = 3"

datatype compute_precision = F32 | F16

fun precision_tag :: "compute_precision \<Rightarrow> nat" where
  "precision_tag F32 = 0"
| "precision_tag F16 = 1"

record ml_config =
  ml_enabled :: bool
  required :: "bool option"
  backend :: ml_backend
  model :: string
  endpoint :: "string option"
  allow_remote_ml_endpoint :: bool
  auth_token_env :: "string option"
  http_timeout_secs :: nat
  sidecar_path :: "string option"
  revision :: "string option"
  min_score :: "rat option"
  prefer_gpu :: bool
  compute_prec :: compute_precision
  quant :: quantization
  banded_attention :: bool

definition AUTHORIZED_ML_MODELS :: "string list" where
  "AUTHORIZED_ML_MODELS = [''openai/privacy-filter'']"

definition is_authorized_model :: "string \<Rightarrow> bool" where
  "is_authorized_model repo \<longleftrightarrow> repo \<in> set AUTHORIZED_ML_MODELS"

definition ml_config_default :: ml_config where
  "ml_config_default =
     \<lparr>ml_enabled = False, required = None, backend = LocalBackend, model = AUTHORIZED_ML_MODELS ! 0,
      endpoint = None, allow_remote_ml_endpoint = False, auth_token_env = None, http_timeout_secs = 30,
      sidecar_path = None, revision = None, min_score = None, prefer_gpu = False, compute_prec = F32,
      quant = Bf16, banded_attention = True\<rparr>"

definition required_effective :: "ml_config \<Rightarrow> bool" where
  "required_effective m =
     (case required m of Some r \<Rightarrow> r | None \<Rightarrow> backend m = HttpBackend \<or> backend m = SidecarBackend)"

definition same_model_params :: "ml_config \<Rightarrow> ml_config \<Rightarrow> bool" where
  "same_model_params m n =
     (if backend m \<noteq> backend n then False
      else let common = (min_score m = min_score n) in
        case backend m of
          LocalBackend \<Rightarrow>
            common \<and> model m = model n \<and> revision m = revision n \<and> prefer_gpu m = prefer_gpu n
            \<and> compute_prec m = compute_prec n \<and> quant m = quant n
            \<and> banded_attention m = banded_attention n
        | HttpBackend \<Rightarrow>
            common \<and> endpoint m = endpoint n \<and> auth_token_env m = auth_token_env n
            \<and> http_timeout_secs m = http_timeout_secs n
            \<and> allow_remote_ml_endpoint m = allow_remote_ml_endpoint n
        | SidecarBackend \<Rightarrow>
            common \<and> model m = model n \<and> revision m = revision n
            \<and> sidecar_path m = sidecar_path n \<and> banded_attention m = banded_attention n)"

section \<open>The engine configuration\<close>

datatype salt_scope = ProjectSalt | ConversationSalt
datatype exposure_scope = LeafScope | ValueScope

record engine_config =
  cfg_enabled :: bool
  cfg_profile :: profile
  score_threshold :: rat
  enabled_categories :: "category set"
  default_operator :: operator
  entity_operators :: "(string \<times> operator) list"
  language :: string
  fail_closed :: bool
  disabled_surfaces :: "surface set"
  cfg_allow_list :: allow_list
  custom_replacements :: "custom_replacement list"
  ml :: ml_config
  preserve_current_date :: bool
  cfg_reveal_marker :: reveal_marker
  detection_cache_cap :: nat
  detection_cache_persist :: bool
  detection_cache_path :: "string option"
  redact_exposed_on_ml :: bool
  exposure_redaction_scope :: exposure_scope
  cfg_salt_scope :: salt_scope
  drop_contaminated_thinking :: bool

definition engine_config_default :: "prims \<Rightarrow> engine_config" where
  "engine_config_default P =
     \<lparr>cfg_enabled = True, cfg_profile = Balanced, score_threshold = 5/10,
      enabled_categories = default_categories Balanced, default_operator = OpToken,
      entity_operators = [], language = ''en'', fail_closed = True, disabled_surfaces = {},
      cfg_allow_list = with_common_words P, custom_replacements = [], ml = ml_config_default,
      preserve_current_date = True, cfg_reveal_marker = reveal_marker_default,
      detection_cache_cap = 50000, detection_cache_persist = False, detection_cache_path = None,
      redact_exposed_on_ml = False, exposure_redaction_scope = LeafScope, cfg_salt_scope = ProjectSalt,
      drop_contaminated_thinking = False\<rparr>"

definition for_profile :: "prims \<Rightarrow> profile \<Rightarrow> engine_config" where
  "for_profile P p =
     (engine_config_default P)\<lparr>cfg_profile := p, score_threshold := default_threshold p,
        enabled_categories := default_categories p, default_operator := profile_default_operator p\<rparr>"

text \<open>What serde fills in: the three profile-derived fields may be absent.\<close>

record engine_config_shadow =
  sh_enabled :: bool
  sh_profile :: profile
  sh_score_threshold :: "rat option"
  sh_enabled_categories :: "category set option"
  sh_default_operator :: "operator option"
  sh_entity_operators :: "(string \<times> operator) list"
  sh_language :: string
  sh_fail_closed :: bool
  sh_disabled_surfaces :: "surface set"
  sh_custom_replacements :: "custom_replacement list"
  sh_ml :: ml_config
  sh_preserve_current_date :: bool
  sh_reveal_marker :: reveal_marker
  sh_detection_cache_cap :: nat
  sh_detection_cache_persist :: bool
  sh_detection_cache_path :: "string option"
  sh_redact_exposed_on_ml :: bool
  sh_exposure_redaction_scope :: exposure_scope
  sh_salt_scope :: salt_scope
  sh_drop_contaminated_thinking :: bool

definition unwrap_or :: "'a \<Rightarrow> 'a option \<Rightarrow> 'a" where
  "unwrap_or d v = (case v of Some x \<Rightarrow> x | None \<Rightarrow> d)"

definition from_shadow :: "prims \<Rightarrow> engine_config_shadow \<Rightarrow> engine_config" where
  "from_shadow P s =
     \<lparr>cfg_enabled = sh_enabled s, cfg_profile = sh_profile s,
      score_threshold = unwrap_or (default_threshold (sh_profile s)) (sh_score_threshold s),
      enabled_categories = unwrap_or (default_categories (sh_profile s)) (sh_enabled_categories s),
      default_operator = unwrap_or (profile_default_operator (sh_profile s)) (sh_default_operator s),
      entity_operators = sh_entity_operators s, language = sh_language s,
      fail_closed = sh_fail_closed s, disabled_surfaces = sh_disabled_surfaces s,
      cfg_allow_list = with_common_words P, custom_replacements = sh_custom_replacements s,
      ml = sh_ml s, preserve_current_date = sh_preserve_current_date s,
      cfg_reveal_marker = sh_reveal_marker s, detection_cache_cap = sh_detection_cache_cap s,
      detection_cache_persist = sh_detection_cache_persist s,
      detection_cache_path = sh_detection_cache_path s,
      redact_exposed_on_ml = sh_redact_exposed_on_ml s,
      exposure_redaction_scope = sh_exposure_redaction_scope s, cfg_salt_scope = sh_salt_scope s,
      drop_contaminated_thinking = sh_drop_contaminated_thinking s\<rparr>"

text \<open>\<open>canon\<close> stands for \<open>presidio_core::EntityType\<close>: the canonical name of a label it knows, by any
  alias, and \<open>None\<close> for a label that becomes \<open>Custom\<close>.\<close>

definition unknown_entity_types :: "(string \<Rightarrow> string option) \<Rightarrow> engine_config \<Rightarrow> string list" where
  "unknown_entity_types canon c =
     filter (\<lambda>k. if k \<in> cr_entity_type ` set (custom_replacements c) then False
                 else if k \<in> canonical_entity_types then False
                 else (case canon k of None \<Rightarrow> True | Some name \<Rightarrow> name \<noteq> k))
       (map fst (entity_operators c))"

definition entity_enabled :: "engine_config \<Rightarrow> string \<Rightarrow> bool" where
  "entity_enabled c e =
     (if map_of (entity_operators c) e \<noteq> None then True
      else (\<exists>k\<in>enabled_categories c. e \<in> set (entity_types k)))"

definition operator_for :: "engine_config \<Rightarrow> string \<Rightarrow> operator" where
  "operator_for c e =
     (case map_of (entity_operators c) e of
        Some op \<Rightarrow> op
      | None \<Rightarrow>
          if e = ENTITY_CVV then OpRedact
          else if e = ''CREDIT_CARD'' then OpMask ''*'' 4
          else default_operator c)"

definition surface_enabled :: "engine_config \<Rightarrow> surface \<Rightarrow> bool" where
  "surface_enabled c s \<longleftrightarrow> s \<notin> disabled_surfaces c"

section \<open>The detection fingerprint\<close>

definition DETECTOR_VERSION :: nat where
  "DETECTOR_VERSION = 17"

definition fp_token :: "string option \<Rightarrow> string" where
  "fp_token t = (case t of Some x \<Rightarrow> byte 1 # x | None \<Rightarrow> [byte 0])"

definition fp_surfaces :: "surface set option \<Rightarrow> string" where
  "fp_surfaces ss =
     (case ss of None \<Rightarrow> [byte 0]
      | Some S \<Rightarrow> byte 1 # map byte (sorted_list_of_set (surface_tag ` S)))"

definition fp_custom :: "custom_replacement \<Rightarrow> string" where
  "fp_custom c =
     nul (pattern c) @ nul (cr_entity_type c)
     @ [flag (is_regex c), flag (case_sensitive c), flag (literal_token c)]
     @ le_bytes 4 (priority c) @ fp_token (cr_token c) @ [byte 0]
     @ fp_surfaces (apply_to_surfaces c) @ [byte 254]"

definition fp_allow_list :: "allow_list \<Rightarrow> string" where
  "fp_allow_list al =
     until_stop (byte 254) (map nul (sorted_list_of_set (exact al)))
     @ until_stop (byte 254) (map nul (sorted_list_of_set (exact_ci al)))
     @ concat (map nul (patterns al))"

definition fp_input :: "text_api \<Rightarrow> engine_config \<Rightarrow> string" where
  "fp_input R c =
     ''sordino-policy-fp-v1'' @ le_bytes 8 DETECTOR_VERSION @ f32_bits R (score_threshold c)
     @ language c @ [byte 255]
     @ map byte (sorted_list_of_set (category_tag ` enabled_categories c)) @ [byte 255]
     @ until_stop (byte 255) (map nul (sort (map fst (entity_operators c))))
     @ until_stop (byte 255) (map fp_custom (custom_replacements c))
     @ fp_allow_list (cfg_allow_list c) @ [flag (preserve_current_date c)]"

definition detection_fingerprint :: "prims \<Rightarrow> text_api \<Rightarrow> engine_config \<Rightarrow> nat" where
  "detection_fingerprint P R c = le_value (take 8 (blake3 P (fp_input R c)))"

subsection \<open>It moves with every detection input\<close>

text \<open>The 32 bits of the finite scores in use tell them apart.\<close>

definition f32_ok :: "text_api \<Rightarrow> rat set \<Rightarrow> bool" where
  "f32_ok R S \<longleftrightarrow> (\<forall>x\<in>S. length (f32_bits R x) = 4) \<and> inj_on (f32_bits R) S"

definition custom_plain :: "custom_replacement \<Rightarrow> bool" where
  "custom_plain c \<longleftrightarrow>
     plain (pattern c) \<and> plain (cr_entity_type c) \<and> priority c < 2 ^ 32
     \<and> (case cr_token c of None \<Rightarrow> True | Some t \<Rightarrow> plain t)"

definition config_plain :: "engine_config \<Rightarrow> bool" where
  "config_plain c \<longleftrightarrow>
     plain (language c) \<and> list_all plain (map fst (entity_operators c))
     \<and> list_all custom_plain (custom_replacements c)
     \<and> finite (exact (cfg_allow_list c)) \<and> (\<forall>w\<in>exact (cfg_allow_list c). plain w)
     \<and> finite (exact_ci (cfg_allow_list c)) \<and> (\<forall>w\<in>exact_ci (cfg_allow_list c). plain w)
     \<and> list_all plain (patterns (cfg_allow_list c))"

text \<open>The part of a configuration that decides what is detected.\<close>

definition same_detection :: "engine_config \<Rightarrow> engine_config \<Rightarrow> bool" where
  "same_detection c d \<longleftrightarrow>
     score_threshold c = score_threshold d \<and> language c = language d
     \<and> enabled_categories c = enabled_categories d
     \<and> mset (map fst (entity_operators c)) = mset (map fst (entity_operators d))
     \<and> custom_replacements c = custom_replacements d \<and> cfg_allow_list c = cfg_allow_list d
     \<and> preserve_current_date c = preserve_current_date d"

lemma tags_unique:
  assumes "inj f" "\<And>x. f x < 254" "254 \<le> m" "m < 256"
    and "map byte (sorted_list_of_set (f ` (S :: 'a::finite set))) @ byte m # r =
         map byte (sorted_list_of_set (f ` T)) @ byte m # s"
  shows "S = T \<and> r = s"
proof -
  have el: "set (sorted_list_of_set (f ` U)) = f ` U" for U :: "'a set" by simp
  have tag: "byte (f x) = byte n \<longleftrightarrow> f x = n" if "n < 256" for x n
    using that assms(2) [of x] by (intro byte_inject) linarith+
  have low: "byte m \<notin> set (map byte (sorted_list_of_set (f ` U)))" for U
  proof
    assume "byte m \<in> set (map byte (sorted_list_of_set (f ` U)))"
    then obtain x where "byte (f x) = byte m" unfolding set_map el by force
    with tag [OF assms(4)] assms(2) [of x] assms(3) show False by simp
  qed
  have "map byte (sorted_list_of_set (f ` S)) = map byte (sorted_list_of_set (f ` T)) \<and> r = s"
    using stopped_unique [OF assms(5) low low] low by metis
  then have eq: "byte ` f ` S = byte ` f ` T" and "r = s" by (metis el set_map)+
  have "f x < 256" for x using assms(2) [of x] by linarith
  then have "inj (\<lambda>x. byte (f x))" using tag assms(1) by (metis injD injI)
  with eq show ?thesis using \<open>r = s\<close> by (metis image_image inj_image_eq_iff)
qed

instance surface :: finite
proof
  have "(UNIV :: surface set) = {UserMessage, SystemPrompt, ToolResult, AssistantText, ToolUseInput}"
    using surface.exhaust by blast
  then show "finite (UNIV :: surface set)" by (metis finite.intros)
qed

instance category :: finite
proof
  have "(UNIV :: category set) = {Secrets, Financial, Identity, Contact, Network, Personal}"
    using category.exhaust by blast
  then show "finite (UNIV :: category set)" by (metis finite.intros)
qed

lemma surface_tag_bound: "surface_tag x < 254"
  by (cases x) simp_all

lemma category_tag_bound: "category_tag x < 254"
  by (cases x) simp_all

lemma category_tag_inj: "inj category_tag"
proof
  fix x y :: category assume "category_tag x = category_tag y"
  then show "x = y" by (cases x; cases y) simp_all
qed

lemma fp_token_unique:
  assumes "case t of None \<Rightarrow> True | Some x \<Rightarrow> plain x" "case u of None \<Rightarrow> True | Some x \<Rightarrow> plain x"
    and "fp_token t @ byte 0 # r = fp_token u @ byte 0 # s"
  shows "t = u \<and> r = s"
proof (cases t)
  case None
  with assms(3) show ?thesis by (cases u) (auto simp: fp_token_def byte_inject)
next
  case (Some x)
  with assms(3) obtain y where u: "u = Some y" by (cases u) (auto simp: fp_token_def byte_inject)
  from assms(3) Some u have "nul x @ r = nul y @ s" by (simp add: fp_token_def nul_def)
  with nul_unique [of x y r s] assms(1,2) Some u show ?thesis by (simp add: plain_def)
qed

lemma fp_surfaces_unique:
  assumes "fp_surfaces a @ byte 254 # r = fp_surfaces b @ byte 254 # s"
  shows "a = b \<and> r = s"
proof (cases a)
  case None
  with assms show ?thesis by (cases b) (auto simp: fp_surfaces_def byte_inject)
next
  case (Some S)
  with assms obtain T where b: "b = Some T" by (cases b) (auto simp: fp_surfaces_def byte_inject)
  have "inj surface_tag" by (simp add: inj_def)
  from assms Some b have "map byte (sorted_list_of_set (surface_tag ` S)) @ byte 254 # r =
      map byte (sorted_list_of_set (surface_tag ` T)) @ byte 254 # s"
    by (simp add: fp_surfaces_def)
  from tags_unique [OF \<open>inj surface_tag\<close> surface_tag_bound _ _ this] Some b show ?thesis by simp
qed

lemma fp_custom_unique:
  assumes "custom_plain a" "custom_plain b" "fp_custom a @ r = fp_custom b @ s"
  shows "a = b \<and> r = s"
proof -
  from assms(3) have "nul (pattern a) @ nul (cr_entity_type a)
     @ [flag (is_regex a), flag (case_sensitive a), flag (literal_token a)]
     @ le_bytes 4 (priority a) @ fp_token (cr_token a) @ byte 0 # fp_surfaces (apply_to_surfaces a) @ byte 254 # r
   = nul (pattern b) @ nul (cr_entity_type b)
     @ [flag (is_regex b), flag (case_sensitive b), flag (literal_token b)]
     @ le_bytes 4 (priority b) @ fp_token (cr_token b) @ byte 0 # fp_surfaces (apply_to_surfaces b) @ byte 254 # s"
    (is "_ @ ?x = _ @ ?y")
    by (simp add: fp_custom_def)
  note 1 = keys.unique [OF _ _ this]
  have pl: "plain (pattern a)" "plain (pattern b)" "plain (cr_entity_type a)" "plain (cr_entity_type b)"
    using assms(1,2) by (auto simp: custom_plain_def)
  note 2 = keys.unique [OF pl(3,4) 1 [OF pl(1,2), THEN conjunct2]]
  from 2 have 3: "is_regex a = is_regex b" "case_sensitive a = case_sensitive b" "literal_token a = literal_token b"
    "le_bytes 4 (priority a) @ fp_token (cr_token a) @ byte 0 # fp_surfaces (apply_to_surfaces a) @ byte 254 # r
     = le_bytes 4 (priority b) @ fp_token (cr_token b) @ byte 0 # fp_surfaces (apply_to_surfaces b) @ byte 254 # s"
    by simp_all
  have "priority a < 256 ^ 4" "priority b < 256 ^ 4" using assms(1,2) by (auto simp: custom_plain_def)
  note 4 = le_bytes_unique [OF this 3(4)]
  note 5 = fp_token_unique [OF _ _ 4 [THEN conjunct2]]
  have "cr_token a = cr_token b \<and> fp_surfaces (apply_to_surfaces a) @ byte 254 # r = fp_surfaces (apply_to_surfaces b) @ byte 254 # s"
    by (rule 5) (use assms(1,2) in \<open>auto simp: custom_plain_def\<close>)
  with fp_surfaces_unique have 6: "cr_token a = cr_token b" "apply_to_surfaces a = apply_to_surfaces b" "r = s"
    by blast+
  have "pattern a = pattern b" "cr_entity_type a = cr_entity_type b" "priority a = priority b"
    by (rule 1 [OF pl(1,2), THEN conjunct1], rule 2 [THEN conjunct1], rule 4 [THEN conjunct1])
  with 3(1-3) 6 show ?thesis by (intro conjI custom_replacement.equality) simp_all
qed

interpretation rules: listed_code fp_custom custom_plain "byte 255"
proof unfold_locales
  fix a b r s assume "custom_plain a" "custom_plain b" "fp_custom a @ r = fp_custom b @ s"
  then show "a = b \<and> r = s" by (rule fp_custom_unique)
next
  fix a assume "custom_plain a"
  then have "plain (pattern a)" by (simp add: custom_plain_def)
  then obtain c cs where "nul (pattern a) = c # cs" "c \<noteq> byte 255"
    using nul_starts [of "pattern a" 255] by auto
  then show "\<exists>c cs. fp_custom a = c # cs \<and> c \<noteq> byte 255" by (simp add: fp_custom_def)
qed

lemma concat_nul_unique:
  "list_all plain xs \<Longrightarrow> list_all plain ys \<Longrightarrow> concat (map nul xs) = concat (map nul ys) \<Longrightarrow> xs = ys"
  using words.list_unique [of xs ys "[]" "[]"] by (simp add: until_stop_def)

lemma word_set_unique:
  assumes "finite A" "finite B" "\<forall>w\<in>A. plain w" "\<forall>w\<in>B. plain w"
    and "until_stop (byte 254) (map nul (sorted_list_of_set A)) @ r = until_stop (byte 254) (map nul (sorted_list_of_set B)) @ s"
  shows "A = B \<and> r = s"
proof -
  have "list_all plain (sorted_list_of_set A)" "list_all plain (sorted_list_of_set B)"
    using assms(1-4) by (simp_all add: list_all_iff)
  from words.list_unique [OF this assms(5)] show ?thesis
    by (metis assms(1,2) set_sorted_list_of_set)
qed

lemma fp_input_same_detection:
  assumes pc: "config_plain c" "config_plain d" and f: "f32_ok R {score_threshold c, score_threshold d}"
    and eq: "fp_input R c = fp_input R d"
  shows "same_detection c d"
proof -
  have len: "length (f32_bits R (score_threshold c)) = length (f32_bits R (score_threshold d))"
    using f by (simp add: f32_ok_def)
  let ?cats = "\<lambda>c. map byte (sorted_list_of_set (category_tag ` enabled_categories c))"
  let ?keys = "\<lambda>c. until_stop (byte 255) (map nul (sort (map fst (entity_operators c))))"
  let ?rules = "\<lambda>c. until_stop (byte 255) (map fp_custom (custom_replacements c))"
  let ?al = "\<lambda>c. fp_allow_list (cfg_allow_list c) @ [flag (preserve_current_date c)]"
  have 0: "f32_bits R (score_threshold c) @ language c @ byte 255 # ?cats c @ byte 255 # ?keys c @ ?rules c @ ?al c
    = f32_bits R (score_threshold d) @ language d @ byte 255 # ?cats d @ byte 255 # ?keys d @ ?rules d @ ?al d"
    using eq by (simp add: fp_input_def)
  note ap = append_eq_append_conv [OF disjI1 [OF len], THEN iffD1, OF 0]
  have bits: "f32_bits R (score_threshold c) = f32_bits R (score_threshold d)"
    and 1: "language c @ byte 255 # ?cats c @ byte 255 # ?keys c @ ?rules c @ ?al c
          = language d @ byte 255 # ?cats d @ byte 255 # ?keys d @ ?rules d @ ?al d"
    by (rule ap [THEN conjunct1], rule ap [THEN conjunct2])
  have "inj_on (f32_bits R) {score_threshold c, score_threshold d}" using f by (simp add: f32_ok_def)
  from inj_onD [OF this bits] have score: "score_threshold c = score_threshold d" by simp
  have lang: "byte 255 \<notin> set (language c)" "byte 255 \<notin> set (language d)"
    using pc plain_high [of _ 255] by (auto simp: config_plain_def)
  from stopped_unique [OF 1 lang(2,1)] lang have 2: "language c = language d"
    "?cats c @ byte 255 # ?keys c @ ?rules c @ ?al c = ?cats d @ byte 255 # ?keys d @ ?rules d @ ?al d"
    by metis+
  have 3: "enabled_categories c = enabled_categories d" "?keys c @ ?rules c @ ?al c = ?keys d @ ?rules d @ ?al d"
    using tags_unique [OF category_tag_inj category_tag_bound _ _ 2(2)] by simp_all
  have "list_all plain (sort (map fst (entity_operators c)))" "list_all plain (sort (map fst (entity_operators d)))"
    using pc by (auto simp: config_plain_def list_all_iff)
  from keys.list_unique [OF this 3(2)] have 4: "sort (map fst (entity_operators c)) = sort (map fst (entity_operators d))"
    "?rules c @ ?al c = ?rules d @ ?al d" by simp_all
  have "list_all custom_plain (custom_replacements c)" "list_all custom_plain (custom_replacements d)"
    using pc by (auto simp: config_plain_def)
  from rules.list_unique [OF this 4(2)] have 5: "custom_replacements c = custom_replacements d" "?al c = ?al d" by simp_all
  from 5(2) have pd: "preserve_current_date c = preserve_current_date d"
    and al: "fp_allow_list (cfg_allow_list c) = fp_allow_list (cfg_allow_list d)" by simp_all
  have 6: "cfg_allow_list c = cfg_allow_list d"
  proof -
    note w = word_set_unique [OF _ _ _ _ al [unfolded fp_allow_list_def]]
    have e: "exact (cfg_allow_list c) = exact (cfg_allow_list d)"
      and r1: "until_stop (byte 254) (map nul (sorted_list_of_set (exact_ci (cfg_allow_list c)))) @ concat (map nul (patterns (cfg_allow_list c)))
       = until_stop (byte 254) (map nul (sorted_list_of_set (exact_ci (cfg_allow_list d)))) @ concat (map nul (patterns (cfg_allow_list d)))"
      using w pc by (simp_all add: config_plain_def)
    have ci: "exact_ci (cfg_allow_list c) = exact_ci (cfg_allow_list d)"
      and r2: "concat (map nul (patterns (cfg_allow_list c))) = concat (map nul (patterns (cfg_allow_list d)))"
      using word_set_unique [OF _ _ _ _ r1] pc by (simp_all add: config_plain_def)
    from concat_nul_unique [OF _ _ r2] e ci pc show ?thesis by (simp add: config_plain_def)
  qed
  have "mset (map fst (entity_operators c)) = mset (map fst (entity_operators d))"
    using 4(1) by (metis mset_sort)
  with score 2 3 5 6 pd show ?thesis by (simp add: same_detection_def)
qed

section \<open>Stripping the display marker\<close>

lemma subst_lit_skip:
  "c \<notin> set u \<Longrightarrow> subst (lit_match (c # q)) g (u @ v) = u @ subst (lit_match (c # q)) g v"
  by (induction u) (auto simp: lit_match_def starts_with_def)

lemma subst_lit_hit: "p \<noteq> [] \<Longrightarrow> subst (lit_match p) g (p @ v) = g p @ subst (lit_match p) g v"
  using lit.subst_hit [of p "p @ v" "length p" g] by (simp add: lit_match_def)

text \<open>A displayed reply: pieces of prose, each followed by a wrapped value.\<close>

definition displayed :: "reveal_marker \<Rightarrow> (string \<times> string) list \<Rightarrow> string" where
  "displayed k ps = concat (map (\<lambda>(t, v). t @ marker_wrap k v) ps)"

lemma strip_default_prefix:
  assumes "CHR 0x1B \<notin> set u" "list_all (\<lambda>(t, v). CHR 0x1B \<notin> set t \<and> CHR 0x1B \<notin> set v) ps"
  shows "subst (lit_match default_marker_prefix) (\<lambda>_. []) (displayed reveal_marker_default ps @ u)
    = concat (map (\<lambda>(t, v). t @ v @ default_marker_suffix) ps) @ u"
  using assms(2)
proof (induction ps)
  case Nil
  then show ?case
    using subst_lit_skip [OF assms(1), of _ _ "[]"] by (simp add: displayed_def default_marker_prefix_def)
next
  case (Cons p ps)
  obtain t v where p: "p = (t, v)" by force
  with Cons.prems have no: "CHR 0x1B \<notin> set t" "CHR 0x1B \<notin> set v" by simp_all
  let ?S = "subst (lit_match default_marker_prefix) (\<lambda>_. [])"
  have skip: "?S (x @ y) = x @ ?S y" if "CHR 0x1B \<notin> set x" for x y
    unfolding default_marker_prefix_def by (rule subst_lit_skip [OF that])
  have hit: "?S (default_marker_prefix @ y) = ?S y" for y
    by (subst subst_lit_hit) (simp_all add: default_marker_prefix_def)
  have suf: "?S (default_marker_suffix @ y) = default_marker_suffix @ ?S y" for y
  proof -
    have "lit_match default_marker_prefix (default_marker_suffix @ y) = None"
      by (simp add: lit_match_def starts_with_def default_marker_prefix_def default_marker_suffix_def)
    then have "?S (default_marker_suffix @ y) = CHR 0x1B # ?S (''[0m'' @ y)"
      by (simp add: default_marker_suffix_def)
    also have "\<dots> = default_marker_suffix @ ?S y"
      by (subst skip) (simp_all add: default_marker_suffix_def)
    finally show ?thesis .
  qed
  have "displayed reveal_marker_default (p # ps) @ u
    = t @ default_marker_prefix @ v @ default_marker_suffix @ displayed reveal_marker_default ps @ u"
    by (simp add: displayed_def p marker_wrap_def reveal_marker_default_def)
  then show ?case using Cons.IH Cons.prems no p by (simp add: skip hit suf)
qed

lemma strip_default_suffix:
  assumes "CHR 0x1B \<notin> set u" "list_all (\<lambda>(t, v). CHR 0x1B \<notin> set t \<and> CHR 0x1B \<notin> set v) ps"
  shows "subst (lit_match default_marker_suffix) (\<lambda>_. []) (concat (map (\<lambda>(t, v). t @ v @ default_marker_suffix) ps) @ u)
    = concat (map (\<lambda>(t, v). t @ v) ps) @ u"
  using assms(2)
proof (induction ps)
  case Nil
  then show ?case
    using subst_lit_skip [OF assms(1), of _ _ "[]"] by (simp add: default_marker_suffix_def)
next
  case (Cons p ps)
  obtain t v where p: "p = (t, v)" by force
  with Cons.prems have no: "CHR 0x1B \<notin> set t" "CHR 0x1B \<notin> set v" by simp_all
  let ?S = "subst (lit_match default_marker_suffix) (\<lambda>_. [])"
  have skip: "?S (x @ y) = x @ ?S y" if "CHR 0x1B \<notin> set x" for x y
    unfolding default_marker_suffix_def by (rule subst_lit_skip [OF that])
  have hit: "?S (default_marker_suffix @ y) = ?S y" for y
    by (subst subst_lit_hit) (simp_all add: default_marker_suffix_def)
  show ?case using Cons.IH Cons.prems no p by (simp add: skip hit)
qed

section \<open>Properties of the configuration\<close>

text \<open>
  The bytes hashed into the detection fingerprint are equal exactly when the two configurations
  detect alike: threshold, language, categories, operator keys (not their values), custom rules in
  order, allow-list and the current-date switch. Strings are valid UTF-8 without NUL.
\<close>

theorem fingerprint_separates:
  assumes "config_plain c" "config_plain d" "f32_ok R {score_threshold c, score_threshold d}"
  shows "fp_input R c = fp_input R d \<longleftrightarrow> same_detection c d"
proof
  show "fp_input R c = fp_input R d \<Longrightarrow> same_detection c d"
    using fp_input_same_detection [OF assms] .
next
  assume sd: "same_detection c d"
  then have "sort (map fst (entity_operators c)) = sort (map fst (entity_operators d))"
    by (intro properties_for_sort) (simp_all add: same_detection_def)
  with sd show "fp_input R c = fp_input R d" by (simp add: fp_input_def same_detection_def)
qed

text \<open>A concrete regex and score interface, for evaluating the model on examples: a pattern
  matches the texts that contain it literally.\<close>

definition sample_text :: text_api where
  "sample_text =
     \<lparr>re_compiles = (\<lambda>_ p. p \<noteq> ''(''), re_is_match = (\<lambda>_. contains),
      re_find_iter = (\<lambda>_ p. find_iter (lit_match p)), re_escape = (\<lambda>p. p), ac_builds = (\<lambda>_ _. True),
      ac_find_iter = (\<lambda>ci ps t. case ps of p # _ \<Rightarrow> find_iter (lit_match_ci ci p) t | _ \<Rightarrow> []),
      ac_is_match = (\<lambda>ci ps t. list_ex (\<lambda>p. list_ex (\<lambda>i. lit_match_ci ci p (drop i t) \<noteq> None) [0..<length t]) ps), uni_alnum = (\<lambda>_. True),
      f32_bits = (\<lambda>x. if x = 5/10 then ''half'' else ''othr'')\<rparr>"

lemma plain_code: "plain s \<longleftrightarrow> utf8_valid s \<and> list_all (\<lambda>c. c \<noteq> byte 0) s"
  by (auto simp: plain_def list_all_iff)

lemma default_plain: "config_plain (engine_config_default sample_prims)"
proof -
  have w: "finite (exact (with_common_words sample_prims))" "finite (exact_ci (with_common_words sample_prims))"
    by (simp_all add: with_common_words_def Let_def add_exact_def add_exact_ci_def add_pattern_def
        allow_list_empty_def common_patterns_def)
  have p: "plain ''en''" "list_all plain (patterns (with_common_words sample_prims))"
    "\<forall>w\<in>exact (with_common_words sample_prims). plain w" "\<forall>w\<in>exact_ci (with_common_words sample_prims). plain w"
    unfolding plain_code by code_simp+
  show ?thesis using w p by (simp add: config_plain_def engine_config_default_def)
qed

lemma fingerprint_separates_witness:
  "fp_input sample_text ((engine_config_default sample_prims)\<lparr>language := ''de''\<rparr>)
     \<noteq> fp_input sample_text (engine_config_default sample_prims)"
proof -
  let ?d = "engine_config_default sample_prims"
  have "plain ''de''" unfolding plain_code by code_simp
  with default_plain have pl: "config_plain (?d\<lparr>language := ''de''\<rparr>)" by (simp add: config_plain_def)
  have f: "f32_ok sample_text {score_threshold (?d\<lparr>language := ''de''\<rparr>), score_threshold ?d}"
    by (simp add: f32_ok_def engine_config_default_def sample_text_def)
  have "\<not> same_detection (?d\<lparr>language := ''de''\<rparr>) ?d"
    by (simp add: same_detection_def engine_config_default_def)
  with fingerprint_separates [OF pl default_plain f] show ?thesis by blast
qed

text \<open>
  The mask path peels the display decoration off exactly: stripping a displayed reply whose
  prose and values contain no escape byte gives the reply with the bare values.
\<close>

theorem strip_displayed:
  assumes "CHR 0x1B \<notin> set u" "list_all (\<lambda>(t, v). CHR 0x1B \<notin> set t \<and> CHR 0x1B \<notin> set v) ps"
  shows "marker_strip reveal_marker_default (displayed reveal_marker_default ps @ u)
    = concat (map (\<lambda>(t, v). t @ v) ps) @ u"
proof -
  have p: "default_marker_prefix \<noteq> []" "default_marker_suffix \<noteq> []" "default_marker_suffix \<noteq> default_marker_prefix"
    by (simp_all add: default_marker_prefix_def default_marker_suffix_def)
  then have "marker_strip reveal_marker_default x
      = subst (lit_match default_marker_suffix) (\<lambda>_. []) (subst (lit_match default_marker_prefix) (\<lambda>_. []) x)" for x
    by (simp add: marker_strip_def Let_def reveal_marker_default_def str_replace_def)
  with strip_default_prefix [OF assms] strip_default_suffix [OF assms] show ?thesis by simp
qed

lemma strip_displayed_witness:
  "marker_strip reveal_marker_default (''key '' @ marker_wrap reveal_marker_default ''v1'' @ '' ok'') = ''key v1 ok''"
  using strip_displayed [of "'' ok''" "[(''key '', ''v1'')]"] by (simp add: displayed_def)

end
