(* ===== verification/Detect_Cache.thy ===== *)
theory Detect_Cache
  imports Engine_Config
begin

text \<open>
  \<open>cache.rs\<close> of \<open>sordino-engine\<close>: detections, the cache key, and the bounded detection cache.

  The \<open>lru\<close> crate is the record \<open>lru_api\<close> over an abstract cache value, with its documented laws in
  \<open>lru_ok\<close>; \<open>lru_peek\<close> (a lookup without a recency update) states them. The locale \<open>memo\<close> is the
  contract the engine relies on: a cache that only ever returns what was inserted under exactly that
  key keeps every property its inserts have. It is interpreted on \<open>DetectionCache\<close>.
\<close>

section \<open>Detections\<close>

datatype det_source = SrcRegex | SrcMl | SrcCustom | SrcSecret

record cached_detection =
  d_start :: nat
  d_end :: nat
  d_entity :: string
  d_score :: rat
  d_source :: det_source
  d_literal :: bool
  d_fixed_token :: "string option"
  d_secret_op :: "operator option"

record cache_key =
  k_text_hash :: string
  k_surface :: surface
  k_policy_fp :: nat
  k_ml_fp :: nat
  k_secrets_fp :: nat
  k_today_bucket :: int

definition HASH_TEXT_DOMAIN :: string where
  "HASH_TEXT_DOMAIN = ''sordino-detection-cache-key-v1''"

definition hash_text :: "prims \<Rightarrow> string \<Rightarrow> string" where
  "hash_text P text = blake3 P (HASH_TEXT_DOMAIN @ text)"

definition MAX_CACHED_DETECTIONS :: nat where
  "MAX_CACHED_DETECTIONS = 8192"

section \<open>The lru crate\<close>

record 'c lru_api =
  lru_new :: "nat \<Rightarrow> 'c"
  lru_get :: "cache_key \<Rightarrow> 'c \<Rightarrow> cached_detection list option \<times> 'c"
  lru_put :: "cache_key \<Rightarrow> cached_detection list \<Rightarrow> 'c \<Rightarrow> 'c"
  lru_resize :: "nat \<Rightarrow> 'c \<Rightarrow> 'c"
  lru_clear :: "'c \<Rightarrow> 'c"
  lru_cap :: "'c \<Rightarrow> nat"
  lru_peek :: "cache_key \<Rightarrow> 'c \<Rightarrow> cached_detection list option"

definition lru_ok :: "'c lru_api \<Rightarrow> bool" where
  "lru_ok L \<longleftrightarrow>
     (\<forall>n k. lru_peek L k (lru_new L n) = None)
     \<and> (\<forall>k c. fst (lru_get L k c) = lru_peek L k c)
     \<and> (\<forall>k j c. lru_peek L j (snd (lru_get L k c)) = lru_peek L j c)
     \<and> (\<forall>k v c. lru_peek L k (lru_put L k v c) = Some v)
     \<and> (\<forall>k j v c w. lru_peek L j (lru_put L k v c) = Some w \<longrightarrow> j \<noteq> k \<longrightarrow> lru_peek L j c = Some w)
     \<and> (\<forall>n j c w. lru_peek L j (lru_resize L n c) = Some w \<longrightarrow> lru_peek L j c = Some w)
     \<and> (\<forall>j c. lru_peek L j (lru_clear L c) = None)"

lemma lru_laws:
  assumes "lru_ok L"
  shows "lru_peek L k (lru_new L n) = None"
    and "fst (lru_get L k c) = lru_peek L k c"
    and "lru_peek L j (snd (lru_get L k c)) = lru_peek L j c"
    and "lru_peek L k (lru_put L k v c) = Some v"
    and "lru_peek L j (lru_put L k v c) = Some w \<Longrightarrow> j \<noteq> k \<Longrightarrow> lru_peek L j c = Some w"
    and "lru_peek L j (lru_resize L n c) = Some w \<Longrightarrow> lru_peek L j c = Some w"
    and "lru_peek L j (lru_clear L c) = None"
proof -
  note l = assms [unfolded lru_ok_def, THEN conjunct1, rule_format]
    assms [unfolded lru_ok_def, THEN conjunct2, THEN conjunct1, rule_format]
    assms [unfolded lru_ok_def, THEN conjunct2, THEN conjunct2, THEN conjunct1, rule_format]
    assms [unfolded lru_ok_def, THEN conjunct2, THEN conjunct2, THEN conjunct2, THEN conjunct1, rule_format]
    assms [unfolded lru_ok_def, THEN conjunct2, THEN conjunct2, THEN conjunct2, THEN conjunct2, THEN conjunct1, rule_format]
    assms [unfolded lru_ok_def, THEN conjunct2, THEN conjunct2, THEN conjunct2, THEN conjunct2, THEN conjunct2, THEN conjunct1, rule_format]
    assms [unfolded lru_ok_def, THEN conjunct2, THEN conjunct2, THEN conjunct2, THEN conjunct2, THEN conjunct2, THEN conjunct2, rule_format]
  show "lru_peek L k (lru_new L n) = None" by (rule l(1))
  show "fst (lru_get L k c) = lru_peek L k c" by (rule l(2))
  show "lru_peek L j (snd (lru_get L k c)) = lru_peek L j c" by (rule l(3))
  show "lru_peek L k (lru_put L k v c) = Some v" by (rule l(4))
  show "lru_peek L j (lru_put L k v c) = Some w \<Longrightarrow> j \<noteq> k \<Longrightarrow> lru_peek L j c = Some w" by (rule l(5))
  show "lru_peek L j (lru_resize L n c) = Some w \<Longrightarrow> lru_peek L j c = Some w" by (rule l(6))
  show "lru_peek L j (lru_clear L c) = None" by (rule l(7))
qed

section \<open>The detection cache\<close>

record 'c detection_cache =
  dc_inner :: 'c
  dc_cap :: nat

definition cache_new :: "'c lru_api \<Rightarrow> nat \<Rightarrow> 'c detection_cache" where
  "cache_new L cap = \<lparr>dc_inner = lru_new L (max cap 1), dc_cap = cap\<rparr>"

definition cache_get ::
  "'c lru_api \<Rightarrow> cache_key \<Rightarrow> 'c detection_cache \<Rightarrow> cached_detection list option \<times> 'c detection_cache" where
  "cache_get L k c =
     (if dc_cap c = 0 then (None, c)
      else case lru_get L k (dc_inner c) of (v, i) \<Rightarrow> (v, c\<lparr>dc_inner := i\<rparr>))"

definition cache_insert ::
  "'c lru_api \<Rightarrow> cache_key \<Rightarrow> cached_detection list \<Rightarrow> 'c detection_cache \<Rightarrow> 'c detection_cache" where
  "cache_insert L k v c =
     (if length v > MAX_CACHED_DETECTIONS then c
      else if dc_cap c = 0 then c
      else let i = (if lru_cap L (dc_inner c) \<noteq> dc_cap c then lru_resize L (dc_cap c) (dc_inner c)
                    else dc_inner c)
        in c\<lparr>dc_inner := lru_put L k v i\<rparr>)"

definition cache_set_cap :: "'c lru_api \<Rightarrow> nat \<Rightarrow> 'c detection_cache \<Rightarrow> 'c detection_cache" where
  "cache_set_cap L n c =
     c\<lparr>dc_cap := n, dc_inner := (if n = 0 then lru_clear L (dc_inner c) else lru_resize L n (dc_inner c))\<rparr>"

definition cache_content :: "'c lru_api \<Rightarrow> 'c detection_cache \<Rightarrow> cache_key \<Rightarrow> cached_detection list option" where
  "cache_content L c k = lru_peek L k (dc_inner c)"

section \<open>The memo contract\<close>

locale memo =
  fixes inv :: bool
    and new :: "nat \<Rightarrow> 's"
    and get :: "'k \<Rightarrow> 's \<Rightarrow> 'v option \<times> 's"
    and put :: "'k \<Rightarrow> 'v \<Rightarrow> 's \<Rightarrow> 's"
    and set_cap :: "nat \<Rightarrow> 's \<Rightarrow> 's"
    and content :: "'s \<Rightarrow> 'k \<Rightarrow> 'v option"
  assumes new_content: "inv \<Longrightarrow> content (new n) k = None"
    and get_value: "inv \<Longrightarrow> get k c = (Some v, c') \<Longrightarrow> content c k = Some v"
    and get_content: "inv \<Longrightarrow> get k c = (r, c') \<Longrightarrow> content c' j = content c j"
    and put_content: "inv \<Longrightarrow> content (put k v c) j = Some w \<Longrightarrow> (j = k \<and> w = v) \<or> content c j = Some w"
    and set_cap_content: "inv \<Longrightarrow> content (set_cap n c) j = Some w \<Longrightarrow> content c j = Some w"
begin

text \<open>A cache is sound for \<open>good\<close> when every entry it holds is good under its key.\<close>

definition sound :: "('k \<Rightarrow> 'v \<Rightarrow> bool) \<Rightarrow> 's \<Rightarrow> bool" where
  "sound good c \<longleftrightarrow> (\<forall>k v. content c k = Some v \<longrightarrow> good k v)"

lemma sound_new: "inv \<Longrightarrow> sound good (new n)"
  by (simp add: sound_def new_content)

lemma sound_get: "inv \<Longrightarrow> sound good c \<Longrightarrow> get k c = (r, c') \<Longrightarrow> sound good c' \<and> (\<forall>v. r = Some v \<longrightarrow> good k v)"
  using get_value get_content unfolding sound_def by metis

lemma sound_put: "inv \<Longrightarrow> sound good c \<Longrightarrow> good k v \<Longrightarrow> sound good (put k v c)"
  using put_content unfolding sound_def by metis

lemma sound_set_cap: "inv \<Longrightarrow> sound good c \<Longrightarrow> sound good (set_cap n c)"
  using set_cap_content unfolding sound_def by metis

end

interpretation dcache: memo "lru_ok L" "cache_new L" "cache_get L" "cache_insert L" "cache_set_cap L" "cache_content L"
  for L :: "'c lru_api"
proof unfold_locales
  fix n k assume l: "lru_ok L"
  show "cache_content L (cache_new L n) k = None"
    by (simp add: cache_content_def cache_new_def lru_laws(1) [OF l])
next
  fix k v and c c' :: "'c detection_cache" assume l: "lru_ok L" and g: "cache_get L k c = (Some v, c')"
  from g have "fst (lru_get L k (dc_inner c)) = Some v"
    by (auto simp: cache_get_def split: if_splits prod.splits)
  then show "cache_content L c k = Some v" by (simp add: cache_content_def lru_laws(2) [OF l])
next
  fix k j r and c c' :: "'c detection_cache" assume l: "lru_ok L" and g: "cache_get L k c = (r, c')"
  have "c' = c \<or> c' = c\<lparr>dc_inner := snd (lru_get L k (dc_inner c))\<rparr>"
    using g by (auto simp: cache_get_def split: if_splits prod.splits)
  then show "cache_content L c' j = cache_content L c j"
    by (auto simp: cache_content_def lru_laws(3) [OF l])
next
  fix k j v w and c :: "'c detection_cache"
  assume l: "lru_ok L" and p: "cache_content L (cache_insert L k v c) j = Some w"
  note sub = lru_laws(6) [OF l]
  have put: "lru_peek L j (lru_put L k v i) = Some w \<Longrightarrow> (j = k \<and> w = v) \<or> lru_peek L j i = Some w" for i
    by (cases "j = k") (auto simp: lru_laws(4) [OF l] dest: lru_laws(5) [OF l])
  show "(j = k \<and> w = v) \<or> cache_content L c j = Some w"
    using p by (auto simp: cache_content_def cache_insert_def Let_def split: if_splits dest!: put dest: sub)
next
  fix n j w and c :: "'c detection_cache"
  assume l: "lru_ok L" and "cache_content L (cache_set_cap L n c) j = Some w"
  then show "cache_content L c j = Some w"
    by (auto simp: cache_content_def cache_set_cap_def lru_laws(7) [OF l] split: if_splits dest: lru_laws(6) [OF l])
qed

text \<open>Turning the cache off clears it and keeps it empty until a new cap.\<close>

lemma cache_off:
  "cache_get L k (cache_set_cap L 0 c) = (None, cache_set_cap L 0 c)"
  "cache_insert L k v (cache_set_cap L 0 c) = cache_set_cap L 0 c"
  by (simp_all add: cache_get_def cache_insert_def cache_set_cap_def)

end
