(* ===== verification/Secret_Rules.thy ===== *)
theory Secret_Rules
  imports Detect_Cache
begin

text \<open>
  \<open>secrets.rs\<close> of \<open>sordino-engine\<close>: registered secrets, their compilation into matchers, the set
  fingerprint, Pass-0 detection, the byte-scan tripwire, and the base64 needles of its second tier.

  An Aho-Corasick automaton is its case-insensitivity flag and its needles; \<open>ac_ok\<close> states what the
  crate documents of it (leftmost non-overlapping matches of one needle, and whether any needle
  occurs). Zeroizing is not modelled.
\<close>

section \<open>Rules\<close>

record secret_rule =
  sr_name :: string
  sr_value :: string
  sr_operator :: operator
  sr_case_sensitive :: bool
  sr_surfaces :: "surface set option"

record compiled_secret =
  cs_name :: string
  cs_operator :: operator
  cs_value_hash :: string
  cs_matcher :: "bool \<times> string list"
  cs_encoded :: "(bool \<times> string list) option"
  cs_value :: string
  cs_surfaces :: "surface set option"

record secret_set =
  ss_compiled :: "compiled_secret list"
  ss_fp :: nat

section \<open>Base64 needles\<close>

definition MIN_NEEDLE_CHARS :: nat where
  "MIN_NEEDLE_CHARS = 16"

definition B64_STD :: string where
  "B64_STD = ''ABCDEFGHIJKLMNOPQRSTUVWXYZabcdefghijklmnopqrstuvwxyz0123456789+/''"

definition B64_URL :: string where
  "B64_URL = ''ABCDEFGHIJKLMNOPQRSTUVWXYZabcdefghijklmnopqrstuvwxyz0123456789-_''"

text \<open>The shifts and masks \<open>(n >> s) & 0x3f\<close> of the 24-bit group, as divisions.\<close>

fun b64_encode_nopad :: "string \<Rightarrow> string \<Rightarrow> string" where
  "b64_encode_nopad al (a # b # c # rest) =
     (let n = ord a * 65536 + ord b * 256 + ord c in
      [al ! (n div 262144 mod 64), al ! (n div 4096 mod 64), al ! (n div 64 mod 64), al ! (n mod 64)]
      @ b64_encode_nopad al rest)"
| "b64_encode_nopad al [a, b] =
     (let n = ord a * 65536 + ord b * 256 in
      [al ! (n div 262144 mod 64), al ! (n div 4096 mod 64), al ! (n div 64 mod 64)])"
| "b64_encode_nopad al [a] =
     (let n = ord a * 65536 in [al ! (n div 262144 mod 64), al ! (n div 4096 mod 64)])"
| "b64_encode_nopad al [] = []"

definition needle_lead :: "nat \<Rightarrow> nat" where
  "needle_lead p = (8 * p + 5) div 6"

definition needle_trail :: "nat \<Rightarrow> nat" where
  "needle_trail n = (if 8 * n mod 6 = 0 then 0 else 1)"

definition needle_for :: "string \<Rightarrow> nat \<Rightarrow> string \<Rightarrow> string option" where
  "needle_for al p value =
     (let encoded = b64_encode_nopad al (replicate p (byte 0) @ value);
          lead = needle_lead p; trail = needle_trail (p + length value)
      in if length encoded < lead + trail then None
         else let trimmed = slice encoded lead (length encoded - trail) in
           if MIN_NEEDLE_CHARS \<le> length trimmed then Some trimmed else None)"

definition push_needle :: "string \<Rightarrow> string \<times> nat \<Rightarrow> string list \<Rightarrow> string list" where
  "push_needle value k out =
     (case needle_for (fst k) (snd k) value of
        Some t \<Rightarrow> if t \<in> set out then out else out @ [t]
      | None \<Rightarrow> out)"

definition base64_needles :: "string \<Rightarrow> string list" where
  "base64_needles value = fold (push_needle value) (List.product [B64_STD, B64_URL] [0, 1, 2]) []"

section \<open>Compilation\<close>

fun compile_loop :: "prims \<Rightarrow> text_api \<Rightarrow> string set \<Rightarrow> secret_rule list \<Rightarrow> secret_fault + compiled_secret list" where
  "compile_loop P R seen [] = Inr []"
| "compile_loop P R seen (r # rs) =
     (if sr_operator r = OpToken \<or> sr_operator r = OpKeep then Inl (BadSecretOperator (sr_name r) (sr_operator r))
      else if sr_value r = [] then Inl (EmptySecretValue (sr_name r))
      else if sr_operator r = OpBroker \<and> slugify (sr_name r) \<in> seen then Inl (BrokerSlugCollision (sr_name r))
      else
        let seen' = (if sr_operator r = OpBroker then insert (slugify (sr_name r)) seen else seen);
            matcher = (\<not> sr_case_sensitive r, [sr_value r]);
            needles = base64_needles (sr_value r);
            encoded = (if needles = [] then None else Some (False, needles))
        in if \<not> ac_builds R (\<not> sr_case_sensitive r) [sr_value r] then Inl (MatcherBuildFailed (sr_name r))
           else if needles \<noteq> [] \<and> \<not> ac_builds R False needles then Inl (MatcherBuildFailed (sr_name r))
           else case compile_loop P R seen' rs of
               Inl e \<Rightarrow> Inl e
             | Inr out \<Rightarrow>
                 Inr (\<lparr>cs_name = sr_name r, cs_operator = sr_operator r,
                       cs_value_hash = blake3 P (sr_value r), cs_matcher = matcher,
                       cs_encoded = encoded, cs_value = sr_value r, cs_surfaces = sr_surfaces r\<rparr> # out))"

definition compile_secrets :: "prims \<Rightarrow> text_api \<Rightarrow> secret_rule list \<Rightarrow> engine_error + compiled_secret list" where
  "compile_secrets P R rules =
     (case compile_loop P R {} rules of Inl f \<Rightarrow> Inl (InvalidSecret f) | Inr out \<Rightarrow> Inr out)"

section \<open>Fingerprint\<close>

fun operator_tag :: "operator \<Rightarrow> nat" where
  "operator_tag OpToken = 0"
| "operator_tag OpRedact = 1"
| "operator_tag (OpMask _ _) = 2"
| "operator_tag OpHash = 3"
| "operator_tag OpBroker = 4"
| "operator_tag OpKeep = 5"
| "operator_tag OpLocal = 6"

definition fp_secret :: "compiled_secret \<Rightarrow> string" where
  "fp_secret c =
     nul (cs_name c) @ [byte (operator_tag (cs_operator c))] @ cs_value_hash c
     @ fp_surfaces (cs_surfaces c) @ [byte 255]"

definition secrets_fp_input :: "compiled_secret list \<Rightarrow> string" where
  "secrets_fp_input cs = ''sordino-secrets-fp-v1'' @ concat (map fp_secret cs)"

definition secrets_fingerprint :: "prims \<Rightarrow> compiled_secret list \<Rightarrow> nat" where
  "secrets_fingerprint P cs = le_value (take 8 (blake3 P (secrets_fp_input cs)))"

definition secret_set_empty :: "prims \<Rightarrow> secret_set" where
  "secret_set_empty P = \<lparr>ss_compiled = [], ss_fp = secrets_fingerprint P []\<rparr>"

section \<open>Detection\<close>

definition in_surfaces :: "surface set option \<Rightarrow> surface \<Rightarrow> bool" where
  "in_surfaces ss s = (case ss of None \<Rightarrow> True | Some S \<Rightarrow> s \<in> S)"

definition secret_hits :: "text_api \<Rightarrow> compiled_secret \<Rightarrow> string \<Rightarrow> cached_detection list" where
  "secret_hits R c text =
     map (\<lambda>(a, b). \<lparr>d_start = a, d_end = b, d_entity = cs_name c, d_score = 1, d_source = SrcSecret,
                    d_literal = False, d_fixed_token = None, d_secret_op = Some (cs_operator c)\<rparr>)
       (ac_find_iter R (fst (cs_matcher c)) (snd (cs_matcher c)) text)"

definition detect_secrets :: "text_api \<Rightarrow> compiled_secret list \<Rightarrow> string \<Rightarrow> surface \<Rightarrow> cached_detection list" where
  "detect_secrets R cs text s =
     concat (map (\<lambda>c. if in_surfaces (cs_surfaces c) s then secret_hits R c text else []) cs)"

definition detect_secrets_unscoped :: "text_api \<Rightarrow> compiled_secret list \<Rightarrow> string \<Rightarrow> cached_detection list" where
  "detect_secrets_unscoped R cs text = concat (map (\<lambda>c. secret_hits R c text) cs)"

definition matcher_hit :: "text_api \<Rightarrow> bool \<times> string list \<Rightarrow> string \<Rightarrow> bool" where
  "matcher_hit R m bytes = ac_is_match R (fst m) (snd m) bytes"

definition secret_hit_bytes :: "text_api \<Rightarrow> secret_set \<Rightarrow> string \<Rightarrow> bool \<Rightarrow> bool" where
  "secret_hit_bytes R s bytes include_encoded =
     list_ex (\<lambda>c. matcher_hit R (cs_matcher c) bytes
                  \<or> (include_encoded \<and> (case cs_encoded c of None \<Rightarrow> False | Some e \<Rightarrow> matcher_hit R e bytes)))
       (ss_compiled s)"

section \<open>What the crate documents\<close>

definition ac_ok :: "text_api \<Rightarrow> bool" where
  "ac_ok R \<longleftrightarrow>
     (\<forall>ci p t. p \<noteq> [] \<longrightarrow> ac_find_iter R ci [p] t = find_iter (lit_match_ci ci p) t)
     \<and> (\<forall>ci ps t. [] \<notin> set ps \<longrightarrow>
          ac_is_match R ci ps t \<longleftrightarrow> (\<exists>p\<in>set ps. \<exists>i<length t. lit_match_ci ci p (drop i t) \<noteq> None))"

lemma sample_ac_ok [simp]: "ac_ok sample_text"
  by (simp add: ac_ok_def sample_text_def list_ex_iff atLeast0LessThan Bex_def)

section \<open>Base64 at any alignment\<close>

lemma b64_append: "length x mod 3 = 0 \<Longrightarrow> b64_encode_nopad al (x @ y) = b64_encode_nopad al x @ b64_encode_nopad al y"
  by (induction al x rule: b64_encode_nopad.induct) (auto simp: Let_def)

lemma length_b64: "length (b64_encode_nopad al x) = (8 * length x + 5) div 6"
  by (induction al x rule: b64_encode_nopad.induct) (auto simp: Let_def)

lemma div_low: "c < d \<Longrightarrow> (d * k + c) div (d * e) = k div (e :: nat)"
  by (simp add: div_mult2_eq)

lemma take4: "take (Suc (Suc (Suc (Suc n)))) (a#b#c#d#xs) = a#b#c#d#take n xs" by simp
text \<open>The first \<open>8n/6\<close> characters only depend on the first \<open>n\<close> bytes.\<close>

lemma b64_prefix:
  "take (8 * length x div 6) (b64_encode_nopad al (x @ y)) = take (8 * length x div 6) (b64_encode_nopad al x)"
proof (induction al x rule: b64_encode_nopad.induct)
  case (1 al a b c rest)
  have "8 * length (a # b # c # rest) div 6 = Suc (Suc (Suc (Suc (8 * length rest div 6))))" by simp
  with 1 show ?case by (simp only: append_Cons b64_encode_nopad.simps Let_def append_Nil take4)
next
  case (2 al a b)
  have l: "8 * length [a, b] div 6 = Suc (Suc 0)" by simp
  show ?case
  proof (cases y)
    case (Cons c z)
    let ?k = "ord a * 256 + ord b"
    have n: "ord a * 65536 + ord b * 256 = 256 * ?k" by simp
    have "(256 * ?k + ord c) div 262144 = (256 * ?k) div 262144" "(256 * ?k + ord c) div 4096 = (256 * ?k) div 4096"
      using div_low [of "ord c" 256 ?k 1024] div_low [of 0 256 ?k 1024] div_low [of "ord c" 256 ?k 16]
        div_low [of 0 256 ?k 16] by simp_all
    then have "(ord a * 65536 + ord b * 256 + ord c) div 262144 = (ord a * 65536 + ord b * 256) div 262144"
      "(ord a * 65536 + ord b * 256 + ord c) div 4096 = (ord a * 65536 + ord b * 256) div 4096"
      unfolding n .
    then show ?thesis unfolding l Cons by (simp only: append_Cons append_Nil b64_encode_nopad.simps Let_def take_Suc_Cons take_0)
  qed simp
next
  case (3 al a)
  have l: "8 * length [a] div 6 = Suc 0" by simp
  have low: "(ord a * 65536 + k) div 262144 = ord a * 65536 div 262144" if "k < 65536" for k
    using div_low [OF that, of "ord a" 4] div_low [of 0 65536 "ord a" 4] by (simp add: mult.commute)
  have 1: "ord b * 256 + ord c < 65536" "ord b * 256 < 65536" for b c
    using ord_less_256 [of b] ord_less_256 [of c] by linarith+
  consider "y = []" | b where "y = [b]" | b c z where "y = b # c # z" by (metis list.exhaust)
  then show ?case
  proof cases
    case 1 then show ?thesis by simp
  next
    case 2
    with low[OF 1(2)] show ?thesis unfolding l 2 by (simp only: append_Cons append_Nil b64_encode_nopad.simps Let_def take_Suc_Cons take_0)
  next
    case (3 b c z)
    with low[OF 1(1)] show ?thesis unfolding l 3 by (simp only: append_Cons append_Nil b64_encode_nopad.simps Let_def take_Suc_Cons take_0 add.assoc)
  qed
qed simp

text \<open>From the lead on, the bytes before the value do not matter.\<close>

lemma b64_lead1: "drop 2 (b64_encode_nopad al (x # v)) = drop 2 (b64_encode_nopad al (byte 0 # v))"
proof -
  have m: "(ord x * 65536 + r) div 64 mod 64 = r div 64 mod 64" "(ord x * 65536 + r) mod 64 = r mod 64" for r
  proof -
    have n: "ord x * 65536 + r = r + (ord x * 1024) * 64" by simp
    show "(ord x * 65536 + r) mod 64 = r mod 64" unfolding n by (rule mod_mult_self1)
    have "(r + (ord x * 1024) * 64) div 64 = r div 64 + (ord x * 16) * 64" by simp
    then show "(ord x * 65536 + r) div 64 mod 64 = r div 64 mod 64" unfolding n using mod_mult_self1 by metis
  qed
  have z: "ord (byte 0) = 0" by simp
  have d2: "drop 2 (a # b # xs) = xs" for a b :: char and xs by simp
  consider "v = []" | b where "v = [b]" | b c z where "v = b # c # z" by (metis list.exhaust)
  then show ?thesis
    by cases (simp_all only: b64_encode_nopad.simps Let_def append_Cons append_Nil d2 z mult_0 add_0 m add.assoc)
qed

lemma b64_lead2: "drop 3 (b64_encode_nopad al (x # y # v)) = drop 3 (b64_encode_nopad al (byte 0 # byte 0 # v))"
proof -
  have m: "(ord x * 65536 + (ord y * 256 + r)) mod 64 = r mod 64" for r
  proof -
    have n: "ord x * 65536 + (ord y * 256 + r) = r + (ord x * 1024 + ord y * 4) * 64" by simp
    show ?thesis unfolding n by (rule mod_mult_self1)
  qed
  have z: "ord (byte 0) = 0" by simp
  have d3: "drop 3 (a # b # c # xs) = xs" for a b c :: char and xs by simp
  show ?thesis by (cases v) (simp_all only: b64_encode_nopad.simps Let_def append_Cons append_Nil d3 z mult_0 add_0 m add.assoc)
qed

lemma b64_lead:
  assumes "length q < 3"
  shows "drop (needle_lead (length q)) (b64_encode_nopad al (q @ v))
    = drop (needle_lead (length q)) (b64_encode_nopad al (replicate (length q) (byte 0) @ v))"
proof -
  consider "q = []" | x where "q = [x]" | x y where "q = [x, y]"
    using assms by (cases "(al, q)" rule: b64_encode_nopad.cases) auto
  then show ?thesis
  proof cases
    case 2
    have "needle_lead (length q) = 2" by (simp add: needle_lead_def 2)
    with b64_lead1 2 show ?thesis by (simp del: b64_encode_nopad.simps)
  next
    case 3
    have "needle_lead (length q) = 3" by (simp add: needle_lead_def 3)
    with b64_lead2 3 show ?thesis by (simp del: b64_encode_nopad.simps add: numeral_2_eq_2)
  qed simp
qed

lemma needle_end: "(8 * n + 5) div 6 - (if 8 * n mod 6 = 0 then 0 else 1) = 8 * n div (6 :: nat)"
proof -
  obtain m j where n: "n = 3 * m + j" "j < 3" by (metis mod_less_divisor mult_div_mod_eq zero_less_numeral)
  then consider "j = 0" | "j = 1" | "j = 2" by linarith
  moreover have "(c + 24 * m) div 6 = c div 6 + 4 * m" "(c + 24 * m) mod 6 = c mod 6" for c
    using div_mult_self1 [of 6 c "4 * m"] mod_mult_self1 [of c "4 * m" 6] by simp_all
  from this [of 8] this [of 13] this [of 16] this [of 21]
  have "(8 + 24 * m) div 6 = 1 + 4 * m" "(8 + 24 * m) mod 6 = 2" "(13 + 24 * m) div 6 = 2 + 4 * m"
    "(16 + 24 * m) div 6 = 2 + 4 * m" "(16 + 24 * m) mod 6 = 4" "(21 + 24 * m) div 6 = 3 + 4 * m" by simp_all
  ultimately show ?thesis by cases (simp_all add: n)
qed

lemma needle_occurs:
  assumes "needle_for al (length pre mod 3) value = Some t"
  shows "contains t (b64_encode_nopad al (pre @ value @ post))"
proof -
  let ?p = "length pre mod 3"
  define q where "q = drop (length pre - ?p) pre"
  have lq: "length q = ?p" unfolding q_def by simp
  let ?E = "b64_encode_nopad al (q @ value @ post)" and ?Z = "b64_encode_nopad al (replicate ?p (byte 0) @ value)"
  let ?K = "8 * length (q @ value) div 6" and ?l = "needle_lead ?p" and ?pre = "take (length pre - ?p) pre"
  have "length ?pre mod 3 = 0" by (simp add: minus_mod_eq_div_mult)
  from b64_append [OF this, of al "q @ value @ post"]
  have whole: "b64_encode_nopad al (pre @ value @ post) = b64_encode_nopad al ?pre @ ?E"
    unfolding q_def by (metis append.assoc append_take_drop_id)
  have stop: "length ?Z - needle_trail (?p + length value) = ?K"
    using needle_end [of "?p + length value"] by (simp only: length_b64 needle_trail_def lq length_append length_replicate)
  have t: "t = slice ?Z ?l ?K" "?l + needle_trail (?p + length value) \<le> length ?Z"
    using assms stop by (auto simp: needle_for_def Let_def split: if_splits)
  have "slice ?Z ?l ?K = take (?K - ?l) (drop ?l (b64_encode_nopad al (q @ value)))"
    using b64_lead [of q al "value"] lq by (simp add: slice_def)
  also have "\<dots> = drop ?l (take ?K (b64_encode_nopad al (q @ value)))" by (simp add: drop_take)
  also have "\<dots> = drop ?l (take ?K ?E)" using b64_prefix [of "q @ value" al post] by simp
  also have "\<dots> = slice ?E ?l ?K" by (simp add: slice_def drop_take)
  finally have te: "t = slice ?E ?l ?K" using t(1) by simp
  have "?l \<le> ?K" using t(2) stop by linarith
  then have "?E = take ?l ?E @ t @ drop ?K ?E"
    using slice_append_drop [of ?l ?K ?E] by (simp add: te)
  with whole have "b64_encode_nopad al (pre @ value @ post) = (b64_encode_nopad al ?pre @ take ?l ?E) @ t @ drop ?K ?E"
    by simp
  then show ?thesis using contains_infix by metis
qed

section \<open>Compiled sets\<close>

definition compiled_from :: "prims \<Rightarrow> secret_rule \<Rightarrow> compiled_secret \<Rightarrow> bool" where
  "compiled_from P r c \<longleftrightarrow>
     sr_operator r \<noteq> OpToken \<and> sr_operator r \<noteq> OpKeep \<and> sr_value r \<noteq> []
     \<and> c = \<lparr>cs_name = sr_name r, cs_operator = sr_operator r, cs_value_hash = blake3 P (sr_value r),
            cs_matcher = (\<not> sr_case_sensitive r, [sr_value r]),
            cs_encoded = (if base64_needles (sr_value r) = [] then None else Some (False, base64_needles (sr_value r))),
            cs_value = sr_value r, cs_surfaces = sr_surfaces r\<rparr>"

definition broker_slugs :: "secret_rule list \<Rightarrow> string list" where
  "broker_slugs rules = map (\<lambda>r. slugify (sr_name r)) (filter (\<lambda>r. sr_operator r = OpBroker) rules)"

lemma broker_slugs_step:
  assumes "\<not> (sr_operator r = OpBroker \<and> slugify (sr_name r) \<in> seen)"
    and "list_all2 Q rs out \<and> distinct (broker_slugs rs) \<and>
      set (broker_slugs rs) \<inter> (if sr_operator r = OpBroker then insert (slugify (sr_name r)) seen else seen) = {}"
    and "Q r c" "cs = c # out"
  shows "list_all2 Q (r # rs) cs \<and> distinct (broker_slugs (r # rs)) \<and> set (broker_slugs (r # rs)) \<inter> seen = {}"
  using assms by (auto simp: broker_slugs_def split: if_splits)

lemma compile_loop_Inr:
  "compile_loop P R seen rules = Inr cs \<Longrightarrow>
   list_all2 (compiled_from P) rules cs \<and> distinct (broker_slugs rules) \<and> set (broker_slugs rules) \<inter> seen = {}"
proof (induction P R seen rules arbitrary: cs rule: compile_loop.induct)
  case (2 P R seen r rs)
  let ?seen = "if sr_operator r = OpBroker then insert (slugify (sr_name r)) seen else seen"
  from "2.prems" obtain out where
    ok: "sr_operator r \<noteq> OpToken" "sr_operator r \<noteq> OpKeep" "sr_value r \<noteq> []"
      "\<not> (sr_operator r = OpBroker \<and> slugify (sr_name r) \<in> seen)"
    and rest: "compile_loop P R ?seen rs = Inr out"
    and cs: "cs = \<lparr>cs_name = sr_name r, cs_operator = sr_operator r, cs_value_hash = blake3 P (sr_value r),
            cs_matcher = (\<not> sr_case_sensitive r, [sr_value r]),
            cs_encoded = (if base64_needles (sr_value r) = [] then None else Some (False, base64_needles (sr_value r))),
            cs_value = sr_value r, cs_surfaces = sr_surfaces r\<rparr> # out"
    unfolding compile_loop.simps Let_def by (simp split: if_splits sum.splits)
  have builds: "ac_builds R (\<not> sr_case_sensitive r) [sr_value r]"
    "\<not> (base64_needles (sr_value r) \<noteq> [] \<and> \<not> ac_builds R False (base64_needles (sr_value r)))"
    using "2.prems" ok unfolding compile_loop.simps Let_def by (simp_all split: if_splits)
  have "list_all2 (compiled_from P) rs out \<and> distinct (broker_slugs rs) \<and> set (broker_slugs rs) \<inter> ?seen = {}"
  proof (rule "2.IH" [OF _ _ _ refl refl refl refl _ _ rest])
    show "\<not> (sr_operator r = OpToken \<or> sr_operator r = OpKeep)" using ok by simp
  qed (use ok builds in simp_all)
  moreover have "compiled_from P r (hd cs)" "cs = hd cs # out"
    using ok cs by (simp_all add: compiled_from_def)
  ultimately show ?case by (intro broker_slugs_step [OF ok(4)])
qed (simp add: broker_slugs_def)

lemma compile_secrets_Inr:
  "compile_secrets P R rules = Inr cs \<Longrightarrow> list_all2 (compiled_from P) rules cs \<and> distinct (broker_slugs rules)"
  by (auto simp: compile_secrets_def split: sum.splits dest: compile_loop_Inr)

lemma compiled_member:
  assumes "compile_secrets P R rules = Inr cs" "c \<in> set cs"
  obtains r where "r \<in> set rules" "compiled_from P r c"
proof -
  from assms(2) obtain i where i: "i < length cs" "c = cs ! i" by (metis in_set_conv_nth)
  from compile_secrets_Inr [OF assms(1)] have l: "list_all2 (compiled_from P) rules cs" by simp
  then have "i < length rules" using i(1) by (simp add: list_all2_lengthD)
  then have "rules ! i \<in> set rules" "compiled_from P (rules ! i) c"
    using list_all2_nthD [OF l] i by simp_all
  then show ?thesis by (rule that)
qed

section \<open>Needle membership\<close>

lemma push_needle_mono: "t \<in> set out \<Longrightarrow> t \<in> set (push_needle v k out)"
  by (auto simp: push_needle_def split: option.split)

lemma push_needles_mono: "t \<in> set out \<Longrightarrow> t \<in> set (fold (push_needle v) ks out)"
  by (induction ks arbitrary: out) (simp_all add: push_needle_mono)

lemma push_needles_hit:
  "(al, p) \<in> set ks \<Longrightarrow> needle_for al p v = Some t \<Longrightarrow> t \<in> set (fold (push_needle v) ks out)"
proof (induction ks arbitrary: out)
  case (Cons k ks)
  show ?case
  proof (cases "k = (al, p)")
    case True
    then have "t \<in> set (push_needle v k out)" using Cons.prems(2) by (simp add: push_needle_def)
    then show ?thesis using push_needles_mono by simp
  qed (use Cons in simp)
qed simp

lemma needle_member:
  assumes "al = B64_STD \<or> al = B64_URL" "p < 3" "needle_for al p v = Some t"
  shows "t \<in> set (base64_needles v)"
proof -
  have "p \<in> {0, 1, 2}" using assms(2) by auto
  then have "(al, p) \<in> set (List.product [B64_STD, B64_URL] [0, 1, 2])" using assms(1) by auto
  then show ?thesis unfolding base64_needles_def using assms(3) by (rule push_needles_hit)
qed

lemma needle_length: "needle_for al p v = Some t \<Longrightarrow> MIN_NEEDLE_CHARS \<le> length t"
  by (auto simp: needle_for_def Let_def simp del: length_slice split: if_splits)

lemma short_no_needles:
  assumes "length v < 10"
  shows "base64_needles v = []"
proof -
  have "needle_for al p v = None" if "p < 3" for al p
  proof (rule ccontr)
    assume "needle_for al p v \<noteq> None"
    then obtain t where t: "needle_for al p v = Some t" by blast
    then have "length t \<le> length (b64_encode_nopad al (replicate p (byte 0) @ v))"
      by (auto simp: needle_for_def Let_def split: if_splits)
    with needle_length [OF t] assms that show False by (simp add: length_b64 MIN_NEEDLE_CHARS_def)
  qed
  then have "push_needle v (al, p) out = out" if "p < 3" for al p out
    using that by (simp add: push_needle_def)
  then show ?thesis by (simp add: base64_needles_def)
qed

lemma needles_nonempty: "[] \<notin> set (base64_needles v)"
proof -
  have "[] \<notin> set (push_needle v k out)" if "[] \<notin> set out" for k out
    using that needle_length [of "fst k" "snd k" v "[]"]
    by (auto simp: push_needle_def MIN_NEEDLE_CHARS_def split: option.split)
  then have "[] \<notin> set (fold (push_needle v) ks out)" if "[] \<notin> set out" for ks out
    using that by (induction ks arbitrary: out) simp_all
  then have "[] \<notin> set (fold (push_needle v) ks [])" for ks by (metis empty_iff empty_set)
  then show ?thesis unfolding base64_needles_def .
qed

text \<open>A literal occurrence is a place where the literal matcher matches.\<close>

lemma occurs_match:
  assumes "contains p t" "p \<noteq> []"
  obtains i where "i < length t" "lit_match_ci ci p (drop i t) \<noteq> None"
proof -
  obtain i where i: "str_find p t = Some i" using assms(1) by (auto simp: contains_def)
  from str_find_Some [OF i] have "i + length p \<le> length t" "take (length p) (drop i t) = p"
    by (simp_all add: starts_with_def)
  then have "i < length t" using assms(2) by (cases p) auto
  moreover have "lit_match_ci ci p (drop i t) \<noteq> None"
    using assms(2) \<open>i + length p \<le> length t\<close> \<open>take (length p) (drop i t) = p\<close> by (simp add: lit_match_ci_def)
  ultimately show ?thesis by (rule that)
qed

lemma ac_is_match_occurs:
  assumes "ac_ok R" "[] \<notin> set ps" "p \<in> set ps" "contains p t"
  shows "ac_is_match R ci ps t"
proof -
  have "p \<noteq> []" using assms(2,3) by metis
  from occurs_match [OF assms(4) this, of ci] obtain i where
    i: "i < length t" "lit_match_ci ci p (drop i t) \<noteq> None" by blast
  have "ac_is_match R ci ps t \<longleftrightarrow> (\<exists>p\<in>set ps. \<exists>i<length t. lit_match_ci ci p (drop i t) \<noteq> None)"
    using assms(1,2) unfolding ac_ok_def by blast
  with i assms(3) show ?thesis by blast
qed

section \<open>The two tiers of the byte scan\<close>

lemma plain_tier:
  assumes "ac_ok R" "compile_secrets P R rules = Inr cs" "r \<in> set rules"
  shows "secret_hit_bytes R \<lparr>ss_compiled = cs, ss_fp = f\<rparr> (u @ sr_value r @ v) enc"
proof -
  from compile_secrets_Inr [OF assms(2)] assms(3) obtain c where c: "c \<in> set cs" "compiled_from P r c"
    by (metis (no_types, lifting) in_set_conv_nth list_all2_conv_all_nth)
  from c(2) have m: "cs_matcher c = (\<not> sr_case_sensitive r, [sr_value r])" "sr_value r \<noteq> []"
    by (simp_all add: compiled_from_def)
  have "[] \<notin> set [sr_value r]" "sr_value r \<in> set [sr_value r]" using m(2) by auto
  from ac_is_match_occurs [OF assms(1) this contains_infix]
  have "matcher_hit R (cs_matcher c) (u @ sr_value r @ v)" by (simp add: matcher_hit_def m(1))
  with c(1) show ?thesis by (auto simp: secret_hit_bytes_def list_ex_iff)
qed

lemma encoded_tier:
  assumes "ac_ok R" "compile_secrets P R rules = Inr cs" "r \<in> set rules" "al \<in> {B64_STD, B64_URL}"
    "needle_for al (length pre mod 3) (sr_value r) = Some t"
  shows "secret_hit_bytes R \<lparr>ss_compiled = cs, ss_fp = f\<rparr> (u @ b64_encode_nopad al (pre @ sr_value r @ post) @ v) True"
proof -
  let ?b = "u @ b64_encode_nopad al (pre @ sr_value r @ post) @ v"
  from compile_secrets_Inr [OF assms(2)] assms(3) obtain c where c: "c \<in> set cs" "compiled_from P r c"
    by (metis (no_types, lifting) in_set_conv_nth list_all2_conv_all_nth)
  have mem: "t \<in> set (base64_needles (sr_value r))" by (rule needle_member [OF _ _ assms(5)]) (use assms(4) in simp_all)
  then have e: "cs_encoded c = Some (False, base64_needles (sr_value r))"
    using c(2) by (auto simp: compiled_from_def)
  have "contains t ?b" using needle_occurs [OF assms(5)] contains_trans by blast
  then have "matcher_hit R (False, base64_needles (sr_value r)) ?b"
    using ac_is_match_occurs [OF assms(1) needles_nonempty mem] by (simp add: matcher_hit_def)
  then have "case cs_encoded c of None \<Rightarrow> False | Some e \<Rightarrow> matcher_hit R e ?b" by (simp add: e)
  with c(1) show ?thesis unfolding secret_hit_bytes_def list_ex_iff by auto
qed

section \<open>Properties of the secret channel\<close>



text \<open>
  A secret set that compiles has one matcher per rule, in order, over exactly the registered
  value; none of its operators is \<open>Token\<close> or \<open>Keep\<close>, none of its values is empty, and no two broker
  secrets share a slug. When the matchers build, these conditions are also enough.
\<close>

theorem compile_secrets_iff:
  "is_ok (compile_secrets P R rules) \<longleftrightarrow>
     list_all (\<lambda>r. sr_operator r \<noteq> OpToken \<and> sr_operator r \<noteq> OpKeep \<and> sr_value r \<noteq> []
        \<and> ac_builds R (\<not> sr_case_sensitive r) [sr_value r]
        \<and> (base64_needles (sr_value r) = [] \<or> ac_builds R False (base64_needles (sr_value r)))) rules
     \<and> distinct (broker_slugs rules)"
proof -
  let ?ok = "\<lambda>r. sr_operator r \<noteq> OpToken \<and> sr_operator r \<noteq> OpKeep \<and> sr_value r \<noteq> []
        \<and> ac_builds R (\<not> sr_case_sensitive r) [sr_value r]
        \<and> (base64_needles (sr_value r) = [] \<or> ac_builds R False (base64_needles (sr_value r)))"
  have "is_ok (compile_loop P R seen rules) \<longleftrightarrow>
      list_all ?ok rules \<and> distinct (broker_slugs rules) \<and> set (broker_slugs rules) \<inter> seen = {}" for seen
  proof (induction rules arbitrary: seen)
    case (Cons r rs)
    let ?seen = "if sr_operator r = OpBroker then insert (slugify (sr_name r)) seen else seen"
    have "is_ok (compile_loop P R seen (r # rs)) \<longleftrightarrow>
        ?ok r \<and> \<not> (sr_operator r = OpBroker \<and> slugify (sr_name r) \<in> seen) \<and> is_ok (compile_loop P R ?seen rs)"
      by (auto simp: is_ok_def Let_def split: sum.split)
    also have "\<dots> \<longleftrightarrow> list_all ?ok (r # rs) \<and> distinct (broker_slugs (r # rs)) \<and> set (broker_slugs (r # rs)) \<inter> seen = {}"
      unfolding Cons.IH by (auto simp: broker_slugs_def)
    finally show ?case .
  qed (simp add: broker_slugs_def)
  from this [of "{}"] show ?thesis
    by (cases "compile_loop P R {} rules") (simp_all add: compile_secrets_def)
qed

lemma secret_hit_in:
  assumes "ac_ok R" "compile_secrets P R rules = Inr cs" "r \<in> set rules"
  shows "\<exists>c\<in>set cs. cs_surfaces c = sr_surfaces r \<and> (\<exists>d\<in>set (secret_hits R c (u @ sr_value r @ v)).
     d_start d \<le> length u \<and> length u < d_end d \<and> d_entity d = sr_name r
     \<and> d_secret_op d = Some (sr_operator r) \<and> d_source d = SrcSecret)"
proof -
  let ?t = "u @ sr_value r @ v"
  from compile_secrets_Inr [OF assms(2)] assms(3) obtain c where c: "c \<in> set cs" "compiled_from P r c"
    by (metis (no_types, lifting) in_set_conv_nth list_all2_conv_all_nth)
  then have v: "sr_value r \<noteq> []" and f: "cs_matcher c = (\<not> sr_case_sensitive r, [sr_value r])"
      "cs_name c = sr_name r" "cs_operator c = sr_operator r" "cs_surfaces c = sr_surfaces r"
    by (simp_all add: compiled_from_def)
  let ?m = "lit_match_ci (\<not> sr_case_sensitive r) (sr_value r)"
  have "?m (drop (length u) ?t) \<noteq> None" "length u < length ?t"
    using v by (simp_all add: lit_match_ci_def)
  from lit_ci.scan_covers [OF this, of 0] obtain a b where
    ab: "(a, b) \<in> set (find_iter ?m ?t)" "a \<le> length u" "length u < b" by (auto simp: find_iter_def)
  have "ac_find_iter R (\<not> sr_case_sensitive r) [sr_value r] ?t = find_iter ?m ?t"
    using assms(1) v unfolding ac_ok_def by blast
  with ab(1) have d: "\<lparr>d_start = a, d_end = b, d_entity = cs_name c, d_score = 1, d_source = SrcSecret,
      d_literal = False, d_fixed_token = None, d_secret_op = Some (cs_operator c)\<rparr> \<in> set (secret_hits R c ?t)"
    by (force simp: secret_hits_def f(1))
  show ?thesis by (rule bexI [OF _ c(1)], rule conjI [OF f(4)], rule bexI [OF _ d]) (simp add: ab f)
qed

lemma secret_hit_over:
  assumes "ac_ok R" "compile_secrets P R rules = Inr cs" "r \<in> set rules" "in_surfaces (sr_surfaces r) s"
  shows "\<exists>d\<in>set (detect_secrets R cs (u @ sr_value r @ v) s).
     d_start d \<le> length u \<and> length u < d_end d \<and> d_entity d = sr_name r
     \<and> d_secret_op d = Some (sr_operator r) \<and> d_source d = SrcSecret"
proof -
  obtain c d where c: "c \<in> set cs" "cs_surfaces c = sr_surfaces r" "d \<in> set (secret_hits R c (u @ sr_value r @ v))"
    and d: "d_start d \<le> length u \<and> length u < d_end d \<and> d_entity d = sr_name r
     \<and> d_secret_op d = Some (sr_operator r) \<and> d_source d = SrcSecret"
    using secret_hit_in [OF assms(1-3)] by blast
  have "d \<in> set (detect_secrets R cs (u @ sr_value r @ v) s)"
    using c assms(4) by (auto simp: detect_secrets_def)
  with d show ?thesis by blast
qed

text \<open>The scan without surfaces, for the fields that belong to none.\<close>

lemma unscoped_hit:
  assumes "ac_ok R" "compile_secrets P R rules = Inr cs" "r \<in> set rules"
  shows "cs \<noteq> [] \<and> detect_secrets_unscoped R cs (u @ sr_value r @ v) \<noteq> []"
proof -
  obtain c d where "c \<in> set cs" "d \<in> set (secret_hits R c (u @ sr_value r @ v))"
    using secret_hit_in [OF assms] by blast
  then have "cs \<noteq> []" "d \<in> set (detect_secrets_unscoped R cs (u @ sr_value r @ v))"
    by (auto simp: detect_secrets_unscoped_def)
  then show ?thesis by (metis empty_iff empty_set)
qed

text \<open>
  Pass-0 misses nothing: wherever a registered value stands in a text on a surface its rule
  covers, a secret detection with the rule's name and operator reaches over its first byte.
\<close>

theorem detect_secrets_covers:
  assumes "ac_ok R" "compile_secrets P R rules = Inr cs" "r \<in> set rules" "in_surfaces (sr_surfaces r) s"
  shows "\<exists>d\<in>set (detect_secrets R cs (u @ sr_value r @ v) s).
     d_start d \<le> length u \<and> length u < d_end d \<and> d_entity d = sr_name r
     \<and> d_secret_op d = Some (sr_operator r) \<and> d_source d = SrcSecret"
  by (rule secret_hit_over [OF assms])

lemma detect_secrets_covers_witness:
  "\<exists>cs. \<exists>d\<in>set (detect_secrets sample_text cs (''pw: '' @ ''hunter2'' @ ''!'') ToolResult).
      d_start d \<le> 4 \<and> 4 < d_end d \<and> d_secret_op d = Some OpBroker"
proof -
  let ?r = "\<lparr>sr_name = ''db'', sr_value = ''hunter2'', sr_operator = OpBroker,
         sr_case_sensitive = True, sr_surfaces = Some {ToolResult}\<rparr>"
  have "is_ok (compile_secrets sample_prims sample_text [?r])"
    by (simp add: compile_secrets_def sample_text_def is_ok_def Let_def)
  then obtain cs where cs: "compile_secrets sample_prims sample_text [?r] = Inr cs" by blast
  have "?r \<in> set [?r]" "in_surfaces (sr_surfaces ?r) ToolResult" by (simp_all add: in_surfaces_def)
  from detect_secrets_covers [OF sample_ac_ok cs this, of "''pw: ''" "''!''"] obtain d where
    "d \<in> set (detect_secrets sample_text cs (''pw: '' @ ''hunter2'' @ ''!'') ToolResult)"
    "d_start d \<le> 4" "4 < d_end d" "d_secret_op d = Some OpBroker" by auto
  then show ?thesis by blast
qed

text \<open>
  The fingerprint of a secret set, which keys the detection cache, does not see everything a
  detection caches: two sets that differ only in case sensitivity or in how many characters a
  \<open>Mask\<close> operator keeps have the same fingerprint input, although the detections differ.
\<close>

theorem secrets_fp_blind:
  assumes "compile_secrets P R [r] = Inr cs"
    and "compile_secrets P R [r\<lparr>sr_operator := OpMask c' n', sr_case_sensitive := b\<rparr>] = Inr cs'"
    and "sr_operator r = OpMask c n"
  shows "secrets_fingerprint P cs' = secrets_fingerprint P cs
    \<and> map cs_operator cs = [OpMask c n] \<and> map cs_operator cs' = [OpMask c' n']
    \<and> map (fst \<circ> cs_matcher) cs = [\<not> sr_case_sensitive r] \<and> map (fst \<circ> cs_matcher) cs' = [\<not> b]"
proof -
  from compile_secrets_Inr [OF assms(1)] obtain x where x: "cs = [x]" "compiled_from P r x"
    by (auto simp: list_all2_Cons1)
  from compile_secrets_Inr [OF assms(2)] obtain y where
    y: "cs' = [y]" "compiled_from P (r\<lparr>sr_operator := OpMask c' n', sr_case_sensitive := b\<rparr>) y"
    by (auto simp: list_all2_Cons1)
  from x y assms(3) show ?thesis
    by (simp add: compiled_from_def secrets_fingerprint_def secrets_fp_input_def fp_secret_def)
qed

lemma secrets_fp_blind_witness:
  "\<exists>cs cs'. secrets_fingerprint sample_prims cs = secrets_fingerprint sample_prims cs'
     \<and> detect_secrets sample_text cs ''ABCD'' UserMessage = []
     \<and> detect_secrets sample_text cs' ''ABCD'' UserMessage \<noteq> []"
proof -
  let ?r = "\<lparr>sr_name = ''pin'', sr_value = ''abcd'', sr_operator = OpMask ''*'' 2,
         sr_case_sensitive = True, sr_surfaces = None\<rparr>"
  let ?q = "?r\<lparr>sr_operator := OpMask ''*'' 0, sr_case_sensitive := False\<rparr>"
  let ?c = "\<lambda>ci op. \<lparr>cs_name = ''pin'', cs_operator = op, cs_value_hash = blake3 sample_prims ''abcd'',
            cs_matcher = (ci, [''abcd'']), cs_encoded = None, cs_value = ''abcd'', cs_surfaces = None\<rparr>"
  have "base64_needles ''abcd'' = []" by (rule short_no_needles) simp
  then have cs: "compile_secrets sample_prims sample_text [?r] = Inr [?c False (OpMask ''*'' 2)]"
    "compile_secrets sample_prims sample_text [?q] = Inr [?c True (OpMask ''*'' 0)]"
    by (simp_all add: compile_secrets_def sample_text_def Let_def)
  have "secrets_fingerprint sample_prims [?c True (OpMask ''*'' 0)] = secrets_fingerprint sample_prims [?c False (OpMask ''*'' 2)]"
    using secrets_fp_blind [OF cs] by simp
  moreover have "detect_secrets sample_text [?c False (OpMask ''*'' 2)] ''ABCD'' UserMessage = []"
    "detect_secrets sample_text [?c True (OpMask ''*'' 0)] ''ABCD'' UserMessage \<noteq> []" by code_simp+
  ultimately show ?thesis by metis
qed

end
