(* ===== verification/Precision_Gates.thy ===== *)
theory Precision_Gates
  imports Engine_Config "HOL-Library.Signed_Division"
begin

text \<open>
  The precision gates of \<open>detect.rs\<close>: the near-now calendar date, reserved network addresses, keys
  that declare a namespace, file names shaped like domains, and the plausibility gate on generic
  high-entropy tokens. Rust's integer division truncates (\<open>sdiv\<close>) where an operand can be negative;
  the standard library's address parser is modelled as a parser on strings.
\<close>

section \<open>Calendar dates\<close>

definition days_from_civil :: "int \<Rightarrow> int \<Rightarrow> int \<Rightarrow> int" where
  "days_from_civil year month day =
     (let y = (if month \<le> 2 then year - 1 else year);
          era = (if y \<ge> 0 then y else y - 399) sdiv 400;
          yoe = y - era * 400;
          mp = (month + 9) mod 12;
          doy = (153 * mp + 2) div 5 + day - 1;
          doe = yoe * 365 + yoe div 4 - yoe div 100 + doy
      in era * 146097 + doe - 719468)"

definition days_in_month :: "int \<Rightarrow> int \<Rightarrow> int" where
  "days_in_month year month =
     (if month \<in> {1, 3, 5, 7, 8, 10, 12} then 31
      else if month \<in> {4, 6, 9, 11} then 30
      else if month = 2 then
        (if year mod 4 = 0 \<and> (year mod 100 \<noteq> 0 \<or> year mod 400 = 0) then 29 else 28)
      else 0)"

definition digits_value :: "string \<Rightarrow> int" where
  "digits_value ds = foldl (\<lambda>v c. 10 * v + int (ord c - 48)) 0 ds"

definition parse_calendar_date :: "string \<Rightarrow> int option" where
  "parse_calendar_date b =
     (if length b \<noteq> 10 then None
      else let sep = b ! 4 in
        if (sep \<noteq> CHR ''-'' \<and> sep \<noteq> CHR ''/'') \<or> b ! 7 \<noteq> sep then None
        else if \<not> (list_all is_digit (slice b 0 4) \<and> list_all is_digit (slice b 5 7)
                   \<and> list_all is_digit (slice b 8 10)) then None
        else let year = digits_value (slice b 0 4); month = digits_value (slice b 5 7);
                 day = digits_value (slice b 8 10) in
          if \<not> (1 \<le> month \<and> month \<le> 12) \<or> day < 1 \<or> day > days_in_month year month then None
          else Some (days_from_civil year month day))"

definition NEAR_NOW_WINDOW_DAYS :: int where
  "NEAR_NOW_WINDOW_DAYS = 1"

definition is_near_now_date :: "string \<Rightarrow> int \<Rightarrow> bool" where
  "is_near_now_date s today =
     (case parse_calendar_date s of None \<Rightarrow> False | Some d \<Rightarrow> \<bar>d - today\<bar> \<le> NEAR_NOW_WINDOW_DAYS)"

definition is_suppressed :: "prims \<Rightarrow> text_api \<Rightarrow> engine_config \<Rightarrow> string \<Rightarrow> int \<Rightarrow> bool" where
  "is_suppressed P R c s today \<longleftrightarrow>
     is_allowed P R (cfg_allow_list c) s \<or> (preserve_current_date c \<and> is_near_now_date s today)"

section \<open>Network addresses\<close>

text \<open>The address parser of the standard library: each reader returns its value and the rest.\<close>

definition radix_digit :: "nat \<Rightarrow> char \<Rightarrow> nat option" where
  "radix_digit radix c =
     (let v = (if is_digit c then ord c - 48
               else if is_lower c then ord c - 87 else if is_upper c then ord c - 55 else 99)
      in if v < radix then Some v else None)"

definition read_number :: "nat \<Rightarrow> nat \<Rightarrow> bool \<Rightarrow> nat \<Rightarrow> string \<Rightarrow> (nat \<times> string) option" where
  "read_number radix max_digits allow_zero_prefix bound s =
     (let ds = takeWhile (\<lambda>c. radix_digit radix c \<noteq> None) s;
          rest = dropWhile (\<lambda>c. radix_digit radix c \<noteq> None) s;
          v = foldl (\<lambda>v c. v * radix + the (radix_digit radix c)) 0 ds
      in if length ds > max_digits then None
         else if ds = [] then None
         else if \<not> allow_zero_prefix \<and> hd ds = CHR ''0'' \<and> length ds > 1 then None
         else if v < bound then Some (v, rest) else None)"

definition read_separator :: "char \<Rightarrow> nat \<Rightarrow> (string \<Rightarrow> ('a \<times> string) option) \<Rightarrow> string \<Rightarrow> ('a \<times> string) option" where
  "read_separator sep index inner s =
     (if index = 0 then inner s
      else case s of [] \<Rightarrow> None | c # cs \<Rightarrow> if c = sep then inner cs else None)"

fun read_octets :: "nat \<Rightarrow> nat \<Rightarrow> string \<Rightarrow> (nat list \<times> string) option" where
  "read_octets 0 i s = Some ([], s)"
| "read_octets (Suc k) i s =
     (case read_separator (CHR ''.'') i (read_number 10 3 False 256) s of
        None \<Rightarrow> None
      | Some (v, r) \<Rightarrow> map_option (\<lambda>(vs, r'). (v # vs, r')) (read_octets k (Suc i) r))"

definition read_ipv4_addr :: "string \<Rightarrow> (nat list \<times> string) option" where
  "read_ipv4_addr s = read_octets 4 0 s"

function read_groups :: "nat \<Rightarrow> nat \<Rightarrow> string \<Rightarrow> nat list \<times> bool \<times> string" where
  "read_groups limit i s =
     (if limit \<le> i then ([], False, s)
      else case (if i + 1 < limit then read_separator (CHR '':'') i read_ipv4_addr s else None) of
          Some (os, r) \<Rightarrow> ([os ! 0 * 256 + os ! 1, os ! 2 * 256 + os ! 3], True, r)
        | None \<Rightarrow>
            (case read_separator (CHR '':'') i (read_number 16 4 True 65536) s of
               None \<Rightarrow> ([], False, s)
             | Some (g, r) \<Rightarrow> (case read_groups limit (Suc i) r of (gs, v4, r') \<Rightarrow> (g # gs, v4, r'))))"
  by pat_completeness auto
termination
  by (relation "measure (\<lambda>(limit, i, s). limit - i)") auto

declare read_groups.simps [simp del]

definition read_ipv6_addr :: "string \<Rightarrow> (nat list \<times> string) option" where
  "read_ipv6_addr s =
     (case read_groups 8 0 s of (front, v4, r) \<Rightarrow>
        if length front = 8 then Some (front, r)
        else if v4 then None
        else case r of
          c # d # r' \<Rightarrow>
            if c = CHR '':'' \<and> d = CHR '':'' then
              (case read_groups (8 - (length front + 1)) 0 r' of (back, _, r'') \<Rightarrow>
                 Some (front @ replicate (8 - length front - length back) 0 @ back, r''))
            else None
        | _ \<Rightarrow> None)"

datatype ip_addr = V4 "nat list" | V6 "nat list"

definition parse_ip :: "string \<Rightarrow> ip_addr option" where
  "parse_ip s =
     (case (case read_ipv4_addr s of
              Some (os, r) \<Rightarrow> Some (V4 os, r)
            | None \<Rightarrow> map_option (\<lambda>(gs, r). (V6 gs, r)) (read_ipv6_addr s)) of
        Some (a, []) \<Rightarrow> Some a
      | _ \<Rightarrow> None)"

text \<open>\<open>is_loopback\<close>, \<open>is_private\<close>, \<open>is_link_local\<close>, \<open>is_unspecified\<close> of \<open>Ipv4Addr\<close>.\<close>

definition v4_reserved :: "nat list \<Rightarrow> bool" where
  "v4_reserved os \<longleftrightarrow>
     os ! 0 = 127
     \<or> os ! 0 = 10 \<or> (os ! 0 = 172 \<and> 16 \<le> os ! 1 \<and> os ! 1 \<le> 31) \<or> (os ! 0 = 192 \<and> os ! 1 = 168)
     \<or> (os ! 0 = 169 \<and> os ! 1 = 254)
     \<or> os = [0, 0, 0, 0]"

text \<open>\<open>seg[0] & 0xffc0 == 0xfe80\<close> compares the upper ten bits of a 16-bit group.\<close>

definition v6_reserved :: "nat list \<Rightarrow> bool" where
  "v6_reserved gs \<longleftrightarrow>
     gs = [0, 0, 0, 0, 0, 0, 0, 1] \<or> gs = [0, 0, 0, 0, 0, 0, 0, 0]
     \<or> gs ! 0 div 64 = 65152 div 64
     \<or> (gs ! 0 = 8193 \<and> gs ! 1 = 3512)"

definition is_reserved_net_id :: "string \<Rightarrow> bool" where
  "is_reserved_net_id s0 =
     (let s = takeWhile (\<lambda>c. c \<noteq> CHR ''/'') s0; s = takeWhile (\<lambda>c. c \<noteq> CHR ''%'') s
      in case parse_ip s of Some (V4 os) \<Rightarrow> v4_reserved os | Some (V6 gs) \<Rightarrow> v6_reserved gs | None \<Rightarrow> False)"

section \<open>Namespace keys and file names\<close>

definition is_separator_char :: "string \<Rightarrow> bool" where
  "is_separator_char c \<longleftrightarrow> is_ws_char c \<or> c \<in> {''\"'', [CHR 0x27], '':'', ''=''}"

definition is_key_char :: "string \<Rightarrow> bool" where
  "is_key_char c = (case c of [b] \<Rightarrow> is_alnum b \<or> b \<in> {CHR ''_'', CHR ''$'', CHR '':'', CHR ''-''} | _ \<Rightarrow> False)"

definition preceding_key :: "string \<Rightarrow> nat \<Rightarrow> string" where
  "preceding_key text start =
     (let rev_chars = rev (utf8_chars (take start text));
          trimmed = dropWhile is_separator_char rev_chars
      in concat (rev (takeWhile is_key_char trimmed)))"

definition preceding_key_is_namespace :: "string \<Rightarrow> nat \<Rightarrow> bool" where
  "preceding_key_is_namespace text start =
     (let key = preceding_key text start in
      key = ''xmlns'' \<or> starts_with ''xmlns:'' key \<or> key = ''$schema'' \<or> key = ''$id'' \<or> key = ''$ref''
      \<or> key = ''targetNamespace'' \<or> key = ''schemaLocation'' \<or> ends_with '':schemaLocation'' key)"

definition FILE_EXTENSIONS :: "string list" where
  "FILE_EXTENSIONS = [''cc'', ''go'', ''la'', ''md'', ''ml'', ''pl'', ''py'', ''rb'', ''rs'', ''sh'', ''so'']"

definition last_label :: "string \<Rightarrow> string" where
  "last_label s = rev (takeWhile (\<lambda>c. c \<noteq> CHR ''.'') (rev s))"

definition is_filename_shaped_domain :: "string \<Rightarrow> bool" where
  "is_filename_shaped_domain s =
     (if CHR ''/'' \<in> set s \<or> CHR '':'' \<in> set s then False
      else if starts_with ''www.'' s then False
      else map to_lower_byte (last_label s) \<in> set FILE_EXTENSIONS)"

section \<open>Plausible generic secrets\<close>

text \<open>Byte-level Shannon entropy below four bits per byte, in exact integer arithmetic: see
  \<open>entropy_below_4\<close> below for the logarithmic form the code computes.\<close>

definition entropy_below_4 :: "string \<Rightarrow> bool" where
  "entropy_below_4 s \<longleftrightarrow>
     s = [] \<or> length s ^ length s < 16 ^ length s * prod_list (map (\<lambda>c. count_list s c ^ count_list s c) (remdups s))"

definition is_vowel :: "char \<Rightarrow> bool" where
  "is_vowel b \<longleftrightarrow> to_lower_byte b \<in> {CHR ''a'', CHR ''e'', CHR ''i'', CHR ''o'', CHR ''u''}"

text \<open>\<open>vowel_ratio(t) >= 0.30\<close>; no letters give the ratio zero.\<close>

definition vowel_heavy :: "string \<Rightarrow> bool" where
  "vowel_heavy s \<longleftrightarrow>
     (let letters = length (filter is_alpha s); vowels = length (filter (\<lambda>b. is_alpha b \<and> is_vowel b) s)
      in letters \<noteq> 0 \<and> 3 * letters \<le> 10 * vowels)"

definition run_step :: "char \<Rightarrow> nat \<times> nat \<Rightarrow> nat \<times> nat" where
  "run_step b st = (case st of (best, cur) \<Rightarrow> if is_lower b then (max best (cur + 1), cur + 1) else (best, 0))"

definition max_lowercase_run :: "string \<Rightarrow> nat" where
  "max_lowercase_run s = fst (fold run_step s (0, 0))"

definition plausible_generic_secret :: "string \<Rightarrow> bool" where
  "plausible_generic_secret t =
     (if list_all is_hexdigit t then False
      else if entropy_below_4 t then False
      else if \<not> (list_ex is_alpha t \<and> list_ex is_digit t) then False
      else if vowel_heavy t \<and> max_lowercase_run t \<ge> 6 then False
      else True)"

section \<open>The calendar\<close>

text \<open>The calendar, as the reference: what a valid date is, and the day after it.\<close>

definition valid_date :: "int \<Rightarrow> int \<Rightarrow> int \<Rightarrow> bool" where
  "valid_date y m d \<longleftrightarrow> 1 \<le> m \<and> m \<le> 12 \<and> 1 \<le> d \<and> d \<le> days_in_month y m"

definition next_date :: "int \<Rightarrow> int \<Rightarrow> int \<Rightarrow> int \<times> int \<times> int" where
  "next_date y m d =
     (if d < days_in_month y m then (y, m, d + 1)
      else if m < 12 then (y, m + 1, 1) else (y + 1, 1, 1))"

definition leap_days :: "int \<Rightarrow> int" where
  "leap_days y = y div 4 - y div 100 + y div 400"

lemma div_step:
  assumes "n > (0 :: int)"
  shows "y div n - (y - 1) div n = (if y mod n = 0 then 1 else 0)"
proof -
  define q r where "q = y div n" and "r = y mod n"
  then have y: "y = n * q + r" "0 \<le> r" "r < n" using assms by simp_all
  show ?thesis
  proof (cases "r = 0")
    case True
    have "(y - 1) div n = q - 1"
      by (rule int_div_pos_eq [of _ n _ "n - 1"]) (use y True assms in \<open>simp_all add: algebra_simps\<close>)
    with True show ?thesis unfolding q_def r_def by simp
  next
    case False
    have "(y - 1) div n = q"
      by (rule int_div_pos_eq [of _ n _ "r - 1"]) (use y False assms in simp_all)
    with False show ?thesis unfolding q_def r_def by simp
  qed
qed

lemma era_floor: "(if y \<ge> 0 then y else y - 399) sdiv 400 = y div (400 :: int)"
proof (cases "y \<ge> 0")
  case True
  then show ?thesis by (simp add: signed_divide_int_def sgn_if abs_if)
next
  case False
  have "(399 - y) div 400 = - (y div 400)"
    by (rule int_div_pos_eq [of _ 400 _ "399 - y mod 400"])
      (use mult_div_mod_eq [of 400 y] pos_mod_bound [of 400 y] in \<open>linarith+\<close>)
  with False show ?thesis by (simp add: signed_divide_int_def sgn_if abs_if)
qed

lemma days_from_civil_floor:
  "days_from_civil year month day =
     (let y = (if month \<le> 2 then year - 1 else year) in
      365 * y + leap_days y + (153 * ((month + 9) mod 12) + 2) div 5 + day - 719469)"
proof -
  have "era * 146097 + ((y - era * 400) * 365 + (y - era * 400) div 4 - (y - era * 400) div 100) =
     365 * y + leap_days y" if "era = y div 400" for y era :: int
  proof -
    have "(y + 4 * (- 100 * era)) div 4 = - 100 * era + y div 4" "(y + 100 * (- 4 * era)) div 100 = - 4 * era + y div 100"
      by (rule div_mult_self2; simp)+
    then have "(y - era * 400) div 4 = y div 4 - era * 100" "(y - era * 400) div 100 = y div 100 - era * 4"
      by (simp_all add: algebra_simps)
    then show ?thesis using that by (simp add: leap_days_def)
  qed
  then show ?thesis
    unfolding days_from_civil_def Let_def era_floor by (simp add: algebra_simps)
qed

lemma leap_days_step:
  "leap_days y - leap_days (y - 1) = (if y mod 4 = 0 \<and> (y mod 100 \<noteq> 0 \<or> y mod 400 = 0) then 1 else 0)"
proof -
  note step = div_step [of _ y]
  have "y mod 100 = 0 \<Longrightarrow> y mod 4 = 0" "y mod 400 = 0 \<Longrightarrow> y mod 100 = 0"
    using mod_mod_cancel [of 4 100 y] mod_mod_cancel [of 100 400 y] by simp_all
  moreover have "leap_days y - leap_days (y - 1) =
      (y div 4 - (y - 1) div 4) - (y div 100 - (y - 1) div 100) + (y div 400 - (y - 1) div 400)"
    by (simp add: leap_days_def)
  ultimately show ?thesis
    by (simp only: step [of 4, simplified] step [of 100, simplified] step [of 400, simplified])
      (cases "y mod 4 = 0"; cases "y mod 100 = 0"; cases "y mod 400 = 0"; simp)
qed

lemma days_from_civil_next:
  assumes "valid_date y m d"
  shows "(case next_date y m d of (y', m', d') \<Rightarrow> days_from_civil y' m' d') = days_from_civil y m d + 1"
proof (cases "d < days_in_month y m")
  case True
  then show ?thesis by (simp add: next_date_def days_from_civil_floor Let_def)
next
  case False
  with assms have d: "d = days_in_month y m" by (simp add: valid_date_def)
  have "m = 1 \<or> m = 2 \<or> m = 3 \<or> m = 4 \<or> m = 5 \<or> m = 6 \<or> m = 7 \<or> m = 8 \<or> m = 9 \<or> m = 10 \<or> m = 11 \<or> m = 12"
  proof -
    have "1 \<le> m" "m \<le> 12" using assms by (simp_all add: valid_date_def)
    then show ?thesis by presburger
  qed
  moreover have "days_in_month y 2 = 28 + (leap_days y - leap_days (y - 1))"
    unfolding leap_days_step by (simp add: days_in_month_def)
  moreover have "days_in_month y 1 = 31" "days_in_month y 3 = 31" "days_in_month y 4 = 30" "days_in_month y 5 = 31"
    "days_in_month y 6 = 30" "days_in_month y 7 = 31" "days_in_month y 8 = 31" "days_in_month y 9 = 30"
    "days_in_month y 10 = 31" "days_in_month y 11 = 30" "days_in_month y 12 = 31"
    by (simp_all add: days_in_month_def)
  ultimately show ?thesis
    unfolding d next_date_def days_from_civil_floor Let_def by (elim disjE) simp_all
qed
text \<open>A date as ten bytes, year first.\<close>

fun fmt :: "nat \<Rightarrow> nat \<Rightarrow> string" where
  "fmt 0 n = []"
| "fmt (Suc w) n = fmt w (n div 10) @ [char_of (48 + n mod 10)]"

lemma digits_value_snoc: "digits_value (ds @ [c]) = 10 * digits_value ds + int (ord c - 48)"
  by (simp add: digits_value_def)

lemma length_fmt [simp]: "length (fmt w n) = w"
  by (induction w arbitrary: n) simp_all

lemma ord_digit: "n < 10 \<Longrightarrow> ord (char_of (48 + n)) = 48 + n"
  by (rule ord_char_of) simp

lemma fmt_digits: "list_all is_digit (fmt w n)"
  by (induction w arbitrary: n) (simp_all add: is_digit_def ord_digit)

lemma digits_value_fmt: "n < 10 ^ w \<Longrightarrow> digits_value (fmt w n) = int n"
proof (induction w arbitrary: n)
  case (Suc w)
  then have "n div 10 < 10 ^ w" by (simp add: less_mult_imp_div_less mult.commute)
  from Suc.IH [OF this] show ?case
    using mult_div_mod_eq [of 10 "int n"] by (simp add: digits_value_snoc ord_digit of_nat_div of_nat_mod)
qed (simp add: digits_value_def)

lemma digits_fmt:
  assumes "list_all is_digit ds"
  obtains n where "n < 10 ^ length ds" "ds = fmt (length ds) n" "digits_value ds = int n"
  using assms
proof (induction ds arbitrary: thesis rule: rev_induct)
  case Nil
  show ?case by (rule Nil(1) [of 0]) (simp_all add: digits_value_def)
next
  case (snoc c ds)
  then obtain n where n: "n < 10 ^ length ds" "ds = fmt (length ds) n" "digits_value ds = int n"
    by (metis list_all_append)
  have c: "48 \<le> ord c" "ord c \<le> 57" using snoc.prems(2) by (simp_all add: is_digit_def)
  define k where "k = ord c - 48"
  then have k: "k < 10" "ord c = 48 + k" using c by auto
  then have cd: "c = char_of (48 + k)" by (metis char_of_ord)
  let ?m = "10 * n + k"
  have "?m div 10 = n" "?m mod 10 = k" using k by simp_all
  moreover have "?m < 10 ^ Suc (length ds)" using n(1) k by simp
  ultimately show ?case
    by (intro snoc.prems(1) [of ?m]) (use n k cd in \<open>simp_all add: digits_value_snoc\<close>)
qed

definition fmt_date :: "char \<Rightarrow> nat \<Rightarrow> nat \<Rightarrow> nat \<Rightarrow> string" where
  "fmt_date sep y m d = fmt 4 y @ [sep] @ fmt 2 m @ [sep] @ fmt 2 d"

lemma parse_fmt_date:
  assumes "sep = CHR ''-'' \<or> sep = CHR ''/''" "y < 10000" "m < 100" "d < 100"
  shows "parse_calendar_date (fmt_date sep y m d) =
    (if valid_date (int y) (int m) (int d) then Some (days_from_civil (int y) (int m) (int d)) else None)"
proof -
  let ?b = "fmt_date sep y m d"
  have sl: "slice ?b 0 4 = fmt 4 y" "slice ?b 5 7 = fmt 2 m" "slice ?b 8 10 = fmt 2 d" "length ?b = 10"
    "?b ! 4 = sep" "?b ! 7 = sep"
    by (simp_all add: fmt_date_def slice_def nth_append)
  have v: "digits_value (fmt 4 y) = int y" "digits_value (fmt 2 m) = int m" "digits_value (fmt 2 d) = int d"
    using assms by (simp_all add: digits_value_fmt)
  show ?thesis
    using assms(1) unfolding parse_calendar_date_def sl v
    by (auto simp: fmt_digits valid_date_def Let_def)
qed

lemma parse_calendar_date_shape:
  assumes "parse_calendar_date b = Some n"
  obtains sep y m d where "b = fmt_date sep y m d" "sep = CHR ''-'' \<or> sep = CHR ''/''" "y < 10000" "m < 100" "d < 100"
proof -
  from assms have l: "length b = 10" and sep: "b ! 4 = CHR ''-'' \<or> b ! 4 = CHR ''/''" "b ! 7 = b ! 4"
    and d: "list_all is_digit (slice b 0 4)" "list_all is_digit (slice b 5 7)" "list_all is_digit (slice b 8 10)"
    by (auto simp: parse_calendar_date_def Let_def split: if_splits)
  have ls: "length (slice b 0 4) = 4" "length (slice b 5 7) = 2" "length (slice b 8 10) = 2" using l by simp_all
  from digits_fmt [OF d(1)] ls obtain y where y: "y < 10 ^ 4" "slice b 0 4 = fmt 4 y" by metis
  from digits_fmt [OF d(2)] ls obtain m where m: "m < 10 ^ 2" "slice b 5 7 = fmt 2 m" by metis
  from digits_fmt [OF d(3)] ls obtain k where k: "k < 10 ^ 2" "slice b 8 10 = fmt 2 k" by metis
  have one: "slice b i (Suc i) = [b ! i]" if "i < 10" for i
    using that l by (simp add: slice_def take_Suc hd_drop_conv_nth)
  have "b = slice b 0 10" using l by (simp add: slice_def)
  also have "\<dots> = slice b 0 4 @ slice b 4 5 @ slice b 5 7 @ slice b 7 8 @ slice b 8 10"
    using slice_append_slice [of 0 4 10 b] slice_append_slice [of 4 5 10 b] slice_append_slice [of 5 7 10 b]
      slice_append_slice [of 7 8 10 b] by simp
  also have "\<dots> = fmt_date (b ! 4) y m k"
    using one [of 4] one [of 7] y(2) m(2) k(2) sep(2) by (simp add: fmt_date_def)
  finally show ?thesis using that sep(1) y(1) m(1) k(1) by simp
qed

section \<open>Properties of the date gate\<close>

text \<open>
  \<open>days_from_civil\<close> counts days: it is zero on 1970-01-01 and goes up by exactly one from every
  valid date of any year, negative years included, to the next day of the Gregorian calendar.
\<close>

theorem days_from_civil_counts:
  assumes "valid_date y m d" "next_date y m d = (y', m', d')"
  shows "days_from_civil y' m' d' = days_from_civil y m d + 1 \<and> valid_date y' m' d' \<and> days_from_civil 1970 1 1 = 0"
proof (intro conjI)
  show "days_from_civil y' m' d' = days_from_civil y m d + 1" using days_from_civil_next [OF assms(1)] assms(2) by simp
  have "1 \<le> days_in_month y k" if "1 \<le> k" "k \<le> 12" for y k
  proof -
    from that have "k = 1 \<or> k = 2 \<or> k = 3 \<or> k = 4 \<or> k = 5 \<or> k = 6 \<or> k = 7 \<or> k = 8 \<or> k = 9 \<or> k = 10 \<or> k = 11 \<or> k = 12"
      by presburger
    then show ?thesis by (auto simp: days_in_month_def)
  qed
  then show "valid_date y' m' d'"
    using assms by (auto simp: next_date_def valid_date_def split: if_splits)
  show "days_from_civil 1970 1 1 = 0" by (simp add: days_from_civil_floor leap_days_def)
qed

lemma days_from_civil_counts_witness:
  "days_from_civil 2024 3 1 = days_from_civil 2024 2 29 + 1"
proof -
  have "valid_date 2024 2 29" "next_date 2024 2 29 = (2024, 3, 1)"
    by (simp_all add: valid_date_def next_date_def days_in_month_def)
  from days_from_civil_counts [OF this] show ?thesis by simp
qed

text \<open>
  The near-now gate lets through exactly the year-first dates of the calendar, with one of the
  two separators twice, that lie at most one day from today; no other text is ever suppressed by it.
\<close>

theorem is_near_now_date_iff:
  "is_near_now_date s today \<longleftrightarrow>
     (\<exists>sep y m d. s = fmt_date sep y m d \<and> (sep = CHR ''-'' \<or> sep = CHR ''/'') \<and> y < 10000 \<and> m < 100 \<and> d < 100
        \<and> valid_date (int y) (int m) (int d) \<and> \<bar>days_from_civil (int y) (int m) (int d) - today\<bar> \<le> 1)"
  (is "_ \<longleftrightarrow> ?R")
proof
  assume "is_near_now_date s today"
  then obtain n where n: "parse_calendar_date s = Some n" "\<bar>n - today\<bar> \<le> 1"
    by (auto simp: is_near_now_date_def NEAR_NOW_WINDOW_DAYS_def split: option.splits)
  from parse_calendar_date_shape [OF n(1)] obtain sep y m d where
    s: "s = fmt_date sep y m d" "sep = CHR ''-'' \<or> sep = CHR ''/''" "y < 10000" "m < 100" "d < 100" by metis
  with n parse_fmt_date [OF s(2-5)]
  have "valid_date (int y) (int m) (int d)" "\<bar>days_from_civil (int y) (int m) (int d) - today\<bar> \<le> 1"
    by (auto split: if_splits)
  with s show ?R by blast
next
  assume ?R
  then obtain sep y m d where
    s: "s = fmt_date sep y m d" "sep = CHR ''-'' \<or> sep = CHR ''/''" "y < 10000" "m < 100" "d < 100"
    and v: "valid_date (int y) (int m) (int d)" "\<bar>days_from_civil (int y) (int m) (int d) - today\<bar> \<le> 1" by blast
  from parse_fmt_date [OF s(2-5)] s(1) v show "is_near_now_date s today"
    by (simp add: is_near_now_date_def NEAR_NOW_WINDOW_DAYS_def)
qed

section \<open>Dotted quads\<close>

text \<open>A number below 1000 in decimal, without leading zeros.\<close>

definition dec3 :: "nat \<Rightarrow> string" where
  "dec3 n = (if n < 10 then fmt 1 n else if n < 100 then fmt 2 n else fmt 3 n)"

definition dotted :: "nat \<Rightarrow> nat \<Rightarrow> nat \<Rightarrow> nat \<Rightarrow> string" where
  "dotted a b c d = dec3 a @ ''.'' @ dec3 b @ ''.'' @ dec3 c @ ''.'' @ dec3 d"

lemma radix_digit_dec: "n < 10 \<Longrightarrow> radix_digit 10 (char_of (48 + n)) = Some n"
  by (simp add: radix_digit_def is_digit_def ord_digit)

lemma fmt_numerals: "fmt 1 n = [char_of (48 + n mod 10)]"
  "fmt 2 n = [char_of (48 + n div 10 mod 10), char_of (48 + n mod 10)]"
  "fmt 3 n = [char_of (48 + n div 100 mod 10), char_of (48 + n div 10 mod 10), char_of (48 + n mod 10)]"
  by (simp_all add: numeral_2_eq_2 numeral_3_eq_3 div_mult2_eq [symmetric])

lemma read_number_run:
  assumes "\<forall>c\<in>set ds. radix_digit 10 c \<noteq> None" "rest = [] \<or> radix_digit 10 (hd rest) = None"
  shows "takeWhile (\<lambda>c. radix_digit 10 c \<noteq> None) (ds @ rest) = ds"
    "dropWhile (\<lambda>c. radix_digit 10 c \<noteq> None) (ds @ rest) = rest"
  using assms by (cases rest; simp add: takeWhile_append dropWhile_append)+

lemma digit_zero: "(n :: nat) < 10 \<Longrightarrow> char_of (48 + n) = CHR ''0'' \<longleftrightarrow> n = 0"
proof -
  assume "n < 10"
  have "char_of (48 + n) = CHR ''0'' \<longleftrightarrow> ord (char_of (48 + n)) = ord (CHR ''0'')" by (simp only: ord_inject)
  also have "ord (CHR ''0'') = 48" by (simp add: ord_def)
  finally show ?thesis using \<open>n < 10\<close> by (simp add: ord_digit)
qed

lemma read_dec3:
  assumes "n < 256" "rest = [] \<or> radix_digit 10 (hd rest) = None"
  shows "read_number 10 3 False 256 (dec3 n @ rest) = Some (n, rest)"
proof -
  have m: "n mod 10 < 10" "n div 10 mod 10 < 10" "n div 100 mod 10 < 10" by simp_all
  have all: "\<forall>c\<in>set (dec3 n). radix_digit 10 c \<noteq> None"
    by (simp add: dec3_def fmt_numerals radix_digit_dec)
  have dig: "n = 10 * (n div 10) + n mod 10" "n div 10 = 10 * (n div 100) + n div 10 mod 10"
    using mult_div_mod_eq [of 10 n] mult_div_mod_eq [of 10 "n div 10"] div_mult2_eq [of n 10 10] by simp_all
  have small: "n div 100 mod 10 = n div 100" "n < 100 \<Longrightarrow> n div 10 mod 10 = n div 10" "n < 10 \<Longrightarrow> n mod 10 = n"
    using assms(1) by simp_all
  have v: "foldl (\<lambda>v c. v * 10 + the (radix_digit 10 c)) 0 (dec3 n) = n"
  proof -
    have "100 * (n div 100) + n div 10 mod 10 * 10 + n mod 10 = n" using dig by linarith
    then show ?thesis using small by (simp add: dec3_def fmt_numerals radix_digit_dec)
  qed
  have z: "hd (dec3 n) = CHR ''0'' \<Longrightarrow> length (dec3 n) \<le> 1"
  proof -
    have "n < 100 \<Longrightarrow> \<not> n < 10 \<Longrightarrow> n div 10 \<noteq> 0" "\<not> n < 100 \<Longrightarrow> n div 100 \<noteq> 0" by (simp_all add: div_eq_0_iff)
    moreover have "n div 100 < 10" using m(3) small(1) by simp
    ultimately show "hd (dec3 n) = CHR ''0'' \<Longrightarrow> length (dec3 n) \<le> 1"
      by (simp add: dec3_def fmt_numerals digit_zero m small split: if_splits)
  qed
  have l: "length (dec3 n) \<le> 3" "dec3 n \<noteq> []" by (simp_all add: dec3_def fmt_numerals)
  show ?thesis
    unfolding read_number_def Let_def read_number_run [OF all assms(2)] v
    using l z assms(1) by auto
qed

lemma four: "4 = Suc (Suc (Suc (Suc 0)))" by simp

lemma read_dotted:
  assumes "a < 256" "b < 256" "c < 256" "d < 256"
  shows "read_ipv4_addr (dotted a b c d) = Some ([a, b, c, d], [])"
proof -
  have dot: "radix_digit 10 (CHR ''.'') = None" by code_simp
  have r: "read_number 10 3 False 256 (dec3 n @ CHR ''.'' # r) = Some (n, CHR ''.'' # r)"
    "read_number 10 3 False 256 (dec3 n) = Some (n, [])" if "n < 256" for n r
    using read_dec3 [OF that, of "CHR ''.'' # r"] read_dec3 [OF that, of "[]"] dot by simp_all
  show ?thesis
    unfolding read_ipv4_addr_def four dotted_def by (simp add: read_separator_def r assms)
qed



lemma dec3_chars: "set (dec3 n) \<subseteq> {c. is_digit c}"
  using fmt_digits [of 1 n] fmt_digits [of 2 n] fmt_digits [of 3 n]
  unfolding dec3_def list_all_iff by (auto simp del: fmt.simps)

text \<open>
  A dotted-quad address, with or without a CIDR suffix, is passed as infrastructure exactly when it
  is loopback, private, link-local or unspecified: every other address stays masked.
\<close>

theorem reserved_v4:
  assumes "a < 256" "b < 256" "c < 256" "d < 256" "cidr = [] \<or> hd cidr = CHR ''/''"
  shows "is_reserved_net_id (dotted a b c d @ cidr) \<longleftrightarrow>
    a = 127 \<or> a = 10 \<or> (a = 172 \<and> 16 \<le> b \<and> b \<le> 31) \<or> (a = 192 \<and> b = 168) \<or> (a = 169 \<and> b = 254)
    \<or> (a = 0 \<and> b = 0 \<and> c = 0 \<and> d = 0)"
proof -
  have "\<not> is_digit (CHR ''/'')" "\<not> is_digit (CHR ''%'')" by code_simp+
  then have no: "CHR ''/'' \<notin> set (dotted a b c d)" "CHR ''%'' \<notin> set (dotted a b c d)"
    using dec3_chars by (auto simp: dotted_def)
  have s: "takeWhile (\<lambda>x. x \<noteq> CHR ''/'') (dotted a b c d @ cidr) = dotted a b c d"
    using assms(5) takeWhile_upto [OF no(1)] takeWhile_absent_all [OF no(1)] by (cases cidr) auto
  have p: "takeWhile (\<lambda>x. x \<noteq> CHR ''%'') (dotted a b c d) = dotted a b c d"
    using takeWhile_absent_all [OF no(2)] .
  show ?thesis
    unfolding is_reserved_net_id_def Let_def s p parse_ip_def read_dotted [OF assms(1-4)]
    by (simp add: v4_reserved_def)
qed

lemma reserved_v4_witness:
  "is_reserved_net_id (dotted 172 31 0 1 @ ''/16'') \<and> \<not> is_reserved_net_id (dotted 8 8 8 8 @ [])"
  using reserved_v4 [of 172 31 0 1 "''/16''"] reserved_v4 [of 8 8 8 8 "[]"] by simp

section \<open>Entropy\<close>

text \<open>What the code computes, over the reals.\<close>

definition shannon_entropy :: "string \<Rightarrow> real" where
  "shannon_entropy s =
     (if s = [] then 0
      else - (\<Sum>c\<in>set s. (let p = real (count_list s c) / real (length s) in p * log 2 p)))"

lemma prod_powers_pos: "(\<And>c. c \<in> set cs \<Longrightarrow> 0 < f c) \<Longrightarrow> 0 < prod_list (map (\<lambda>c. f c ^ f c) cs)" for f :: "'a \<Rightarrow> nat"
  by (induction cs) auto

lemma log_prod_powers:
  "(\<And>c. c \<in> set cs \<Longrightarrow> 0 < f c) \<Longrightarrow> log 2 (real (prod_list (map (\<lambda>c. f c ^ f c) cs))) = (\<Sum>c\<leftarrow>cs. real (f c) * log 2 (real (f c)))"
proof (induction cs)
  case (Cons c cs)
  have "0 < real (prod_list (map (\<lambda>c. f c ^ f c) cs))"
    using prod_powers_pos [of cs f] Cons.prems by simp
  moreover have "0 < real (f c ^ f c)" using Cons.prems by simp
  ultimately show ?case using Cons by (simp add: log_mult log_nat_power)
qed simp

lemma shannon_entropy_logs:
  assumes "s \<noteq> []"
  shows "shannon_entropy s * real (length s) =
    log 2 (real (length s ^ length s)) - log 2 (real (prod_list (map (\<lambda>c. count_list s c ^ count_list s c) (remdups s))))"
proof -
  let ?n = "length s" and ?f = "count_list s"
  have n: "0 < ?n" using assms by simp
  have f: "0 < ?f c" if "c \<in> set (remdups s)" for c
    using that by (metis count_list_0_iff neq0_conv set_remdups)
  have total: "(\<Sum>c\<in>set s. ?f c) = ?n" by (simp add: sum_count_set)
  let ?W = "\<Sum>c\<in>set s. real (?f c) * log 2 (real (?f c))"
  have W: "log 2 (real (prod_list (map (\<lambda>c. ?f c ^ ?f c) (remdups s)))) = ?W"
    using log_prod_powers [of "remdups s" ?f, OF f] by (simp add: sum_list_distinct_conv_sum_set)
  have "(\<Sum>c\<in>set s. real (?f c) / real ?n * log 2 (real (?f c) / real ?n)) =
      (\<Sum>c\<in>set s. (real (?f c) * log 2 (real (?f c)) - real (?f c) * log 2 (real ?n)) / real ?n)"
  proof (rule sum.cong)
    fix c assume "c \<in> set s"
    then have "0 < ?f c" using f by simp
    then show "real (?f c) / real ?n * log 2 (real (?f c) / real ?n) =
        (real (?f c) * log 2 (real (?f c)) - real (?f c) * log 2 (real ?n)) / real ?n"
      using n by (simp add: log_divide right_diff_distrib diff_divide_distrib)
  qed simp
  also have "\<dots> = (?W - real ?n * log 2 (real ?n)) / real ?n"
    using total by (simp add: sum_divide_distrib [symmetric] sum_subtractf sum_distrib_right [symmetric] of_nat_sum [symmetric])
  finally have "shannon_entropy s = (real ?n * log 2 (real ?n) - ?W) / real ?n"
    using assms by (simp add: shannon_entropy_def Let_def field_simps)
  then show ?thesis using n W by (simp add: log_nat_power)
qed

text \<open>Entropy below a bound of \<open>k / m\<close> bits, as a comparison of integers.\<close>

lemma entropy_below_integers:
  assumes "s \<noteq> []" "0 < m"
  shows "shannon_entropy s < real k / real m \<longleftrightarrow>
    length s ^ (m * length s) < 2 ^ (k * length s) * prod_list (map (\<lambda>c. count_list s c ^ count_list s c) (remdups s)) ^ m"
proof -
  let ?n = "length s" and ?p = "prod_list (map (\<lambda>c. count_list s c ^ count_list s c) (remdups s))"
  have n: "0 < real ?n" and m: "0 < real m" using assms by simp_all
  have p: "0 < ?p"
    by (rule prod_powers_pos) (metis count_list_0_iff neq0_conv set_remdups)
  have "shannon_entropy s < real k / real m \<longleftrightarrow> (shannon_entropy s * real ?n) * real m < real k * real ?n"
    using n m by (simp add: pos_less_divide_eq mult.commute mult.left_commute)
  also have "\<dots> \<longleftrightarrow> real m * log 2 (real (?n ^ ?n)) < real k * real ?n + real m * log 2 (real ?p)"
    unfolding shannon_entropy_logs [OF assms(1)] by (simp add: algebra_simps)
  also have "\<dots> \<longleftrightarrow> log 2 (real (?n ^ (m * ?n))) < log 2 (real (2 ^ (k * ?n) * ?p ^ m))"
  proof -
    have "log 2 (real (?n ^ (m * ?n))) = real m * log 2 (real (?n ^ ?n))"
      using n by (simp add: log_nat_power mult.assoc)
    moreover have "log 2 (real (2 ^ (k * ?n) * ?p ^ m)) = real k * real ?n + real m * log 2 (real ?p)"
      using p by (simp add: log_mult log_nat_power)
    ultimately show ?thesis by simp
  qed
  also have "\<dots> \<longleftrightarrow> real (?n ^ (m * ?n)) < real (2 ^ (k * ?n) * ?p ^ m)"
    using n p by (intro log_less_cancel_iff) simp_all
  finally show ?thesis unfolding of_nat_less_iff .
qed

lemma entropy_below_4_real: "entropy_below_4 s \<longleftrightarrow> shannon_entropy s < 4"
proof (cases "s = []")
  case False
  have "(16 :: nat) ^ length s = 2 ^ (4 * length s)" by (simp add: power_mult)
  then show ?thesis
    using entropy_below_integers [OF False, of 1 4] False by (simp add: entropy_below_4_def)
qed (simp add: entropy_below_4_def shannon_entropy_def)

text \<open>
  A generic high-entropy hit is kept exactly when it is not pure hex, has at least four bits of
  Shannon entropy per byte, mixes letters and digits, and does not read like prose.
\<close>

theorem plausible_generic_secret_iff:
  "plausible_generic_secret t \<longleftrightarrow>
     list_ex (\<lambda>b. \<not> is_hexdigit b) t \<and> 4 \<le> shannon_entropy t \<and> list_ex is_alpha t \<and> list_ex is_digit t
     \<and> \<not> (vowel_heavy t \<and> 6 \<le> max_lowercase_run t)"
  unfolding plausible_generic_secret_def entropy_below_4_real
  by (auto simp: list_ex_iff list_all_iff)

end
