(* ===== verification/Detection.thy ===== *)
theory Detection
  imports Secret_Rules Precision_Gates "HOL-Library.Product_Lexorder"
begin

text \<open>
  \<open>detect.rs\<close> of \<open>sordino-engine\<close>: compilation of custom rules, the three detection passes over one
  leaf, the ingest policy, allow-span suppression and overlap resolution.

  presidio's analyzer is the record \<open>analyzer_api\<close>, an ML recognizer \<open>ml_recognizer\<close>; today's day
  number is an argument. Scores and the score constants are rationals (a decimal literal denotes
  that decimal), so comparisons are exact.
\<close>

section \<open>Data\<close>

record recognizer_result =
  rr_start :: nat
  rr_end :: nat
  rr_score :: rat
  rr_entity :: string
  rr_pattern :: "string option"

record nlp_artifacts =
  na_language :: string
  na_tokens :: "(string \<times> nat \<times> nat) list"
  na_lemmas :: "string list"

record analyzer_api =
  an_analyze :: "string \<Rightarrow> string \<Rightarrow> nlp_artifacts \<Rightarrow> rat \<Rightarrow> recognizer_result list"
  an_text :: "recognizer_result \<Rightarrow> string \<Rightarrow> string option"
  an_generic_pattern :: string

record ml_recognizer =
  ml_analyze :: "string \<Rightarrow> engine_error + recognizer_result list"
  ml_analyze_batch :: "string list \<Rightarrow> engine_error + recognizer_result list list"

text \<open>\<open>RecognizerResult::text\<close> is the slice of its range, on character boundaries.\<close>

definition analyzer_ok :: "analyzer_api \<Rightarrow> bool" where
  "analyzer_ok A \<longleftrightarrow>
     (\<forall>r t s. an_text A r t = Some s \<longrightarrow>
        rr_start r \<le> rr_end r \<and> rr_end r \<le> length t \<and> is_boundary t (rr_start r) \<and> is_boundary t (rr_end r)
        \<and> s = slice t (rr_start r) (rr_end r))"

definition CONTEXT_BOOST :: rat where
  "CONTEXT_BOOST = 35/100"

definition PHONE_BASE_SCORE :: rat where
  "PHONE_BASE_SCORE = 4/10"

section \<open>Custom rules\<close>

record compiled_custom =
  cc_re :: "bool \<times> string"
  cc_entity :: string
  cc_literal :: bool
  cc_token :: "string option"
  cc_priority :: nat
  cc_surfaces :: "surface set option"

definition custom_source :: "text_api \<Rightarrow> custom_replacement \<Rightarrow> string" where
  "custom_source R r = (if is_regex r then pattern r else re_escape R (pattern r))"

fun compile_customs_loop :: "text_api \<Rightarrow> custom_replacement list \<Rightarrow> engine_error + compiled_custom list" where
  "compile_customs_loop R [] = Inr []"
| "compile_customs_loop R (r # rs) =
     (if \<not> re_compiles R (\<not> case_sensitive r) (custom_source R r) then Inl (BadCustomRegex (pattern r))
      else case compile_customs_loop R rs of
          Inl e \<Rightarrow> Inl e
        | Inr out \<Rightarrow>
            Inr (\<lparr>cc_re = (\<not> case_sensitive r, custom_source R r), cc_entity = cr_entity_type r,
                  cc_literal = literal_token r, cc_token = cr_token r, cc_priority = priority r,
                  cc_surfaces = apply_to_surfaces r\<rparr> # out))"

definition compile_customs :: "text_api \<Rightarrow> custom_replacement list \<Rightarrow> engine_error + compiled_custom list" where
  "compile_customs R rules =
     (case compile_customs_loop R rules of Inl e \<Rightarrow> Inl e | Inr out \<Rightarrow> Inr (sort_key cc_priority out))"

definition resolve_operator :: "engine_config \<Rightarrow> cached_detection \<Rightarrow> operator" where
  "resolve_operator c d =
     (case d_secret_op d of
        Some op \<Rightarrow> op
      | None \<Rightarrow> if d_literal d then OpToken else operator_for c (d_entity d))"

section \<open>Context artifacts\<close>

definition char_alnum :: "text_api \<Rightarrow> string \<Rightarrow> bool" where
  "char_alnum R c = (case c of [b] \<Rightarrow> if is_ascii b then is_alnum b else uni_alnum R c | _ \<Rightarrow> uni_alnum R c)"

text \<open>\<open>cur\<close> is the word being read: its first offset and its bytes so far.\<close>

fun word_runs :: "text_api \<Rightarrow> nat \<Rightarrow> (nat \<times> string) option \<Rightarrow> string list \<Rightarrow> (string \<times> nat \<times> nat) list" where
  "word_runs R i cur [] = (case cur of Some (s, w) \<Rightarrow> [(w, s, i)] | None \<Rightarrow> [])"
| "word_runs R i cur (c # cs) =
     (if char_alnum R c then
        word_runs R (i + length c) (case cur of Some (s, w) \<Rightarrow> Some (s, w @ c) | None \<Rightarrow> Some (i, c)) cs
      else (case cur of Some (s, w) \<Rightarrow> [(w, s, i)] | None \<Rightarrow> []) @ word_runs R (i + length c) None cs)"

definition context_artifacts :: "prims \<Rightarrow> text_api \<Rightarrow> string \<Rightarrow> string \<Rightarrow> nlp_artifacts" where
  "context_artifacts P R text lang =
     (let ws = word_runs R 0 None (utf8_chars text) in
      \<lparr>na_language = lang, na_tokens = ws, na_lemmas = map (\<lambda>(w, _, _). lower_str P w) ws\<rparr>)"

section \<open>Ingesting recognizer results\<close>

text \<open>The detections so far and the allow-listed spans.\<close>

type_synonym ingest_state = "cached_detection list \<times> (nat \<times> nat) list"

definition trim_quotes :: "string \<Rightarrow> string \<Rightarrow> nat \<Rightarrow> nat \<Rightarrow> nat \<times> nat" where
  "trim_quotes e s a b =
     (if (e = ''URL'' \<or> e = ''DOMAIN'') \<and> length s \<ge> 3 \<and> (s ! 0 = CHR 0x22 \<or> s ! 0 = CHR 0x27)
         \<and> s ! (length s - 1) = s ! 0
      then (a + 1, b - 1) else (a, b))"

definition ingest_one ::
  "prims \<Rightarrow> text_api \<Rightarrow> analyzer_api \<Rightarrow> engine_config \<Rightarrow> string \<Rightarrow> det_source \<Rightarrow> int
   \<Rightarrow> recognizer_result \<Rightarrow> ingest_state \<Rightarrow> ingest_state" where
  "ingest_one P R A c text src today r st =
     (if rr_score r < score_threshold c then st
      else let e = rr_entity r in
        if e = ''PHONE_NUMBER'' \<and> rr_score r \<le> PHONE_BASE_SCORE then st
        else if \<not> entity_enabled c e then st
        else case an_text A r text of
          None \<Rightarrow> st
        | Some s \<Rightarrow>
            if s = [] then st
            else if e = ''API_KEY'' \<and> rr_pattern r = Some (an_generic_pattern A) \<and> \<not> plausible_generic_secret s then st
            else if e = ''IP_ADDRESS'' \<and> is_reserved_net_id s then st
            else if e = ''URL'' \<and> preceding_key_is_namespace text (rr_start r) then st
            else if e = ''DOMAIN'' \<and> is_filename_shaped_domain s then st
            else if is_suppressed P R c s today then (fst st, snd st @ [(rr_start r, rr_end r)])
            else case trim_quotes e s (rr_start r) (rr_end r) of (a, b) \<Rightarrow>
              (fst st @ [\<lparr>d_start = a, d_end = b, d_entity = e, d_score = rr_score r, d_source = src,
                          d_literal = False, d_fixed_token = None, d_secret_op = None\<rparr>], snd st))"

definition ingest_results ::
  "prims \<Rightarrow> text_api \<Rightarrow> analyzer_api \<Rightarrow> engine_config \<Rightarrow> string \<Rightarrow> det_source \<Rightarrow> int
   \<Rightarrow> recognizer_result list \<Rightarrow> ingest_state \<Rightarrow> ingest_state" where
  "ingest_results P R A c text src today rs st = fold (ingest_one P R A c text src today) rs st"

section \<open>The passes over one leaf\<close>

definition custom_match ::
  "prims \<Rightarrow> text_api \<Rightarrow> engine_config \<Rightarrow> string \<Rightarrow> int \<Rightarrow> compiled_custom \<Rightarrow> nat \<times> nat \<Rightarrow> ingest_state \<Rightarrow> ingest_state" where
  "custom_match P R c text today cc m st =
     (if is_suppressed P R c (slice text (fst m) (snd m)) today then (fst st, snd st @ [m])
      else (fst st @ [\<lparr>d_start = fst m, d_end = snd m, d_entity = cc_entity cc, d_score = 1,
                      d_source = SrcCustom, d_literal = cc_literal cc,
                      d_fixed_token = (if cc_literal cc then cc_token cc else None), d_secret_op = None\<rparr>], snd st))"

definition custom_pass ::
  "prims \<Rightarrow> text_api \<Rightarrow> engine_config \<Rightarrow> compiled_custom list \<Rightarrow> string \<Rightarrow> surface \<Rightarrow> int \<Rightarrow> ingest_state \<Rightarrow> ingest_state" where
  "custom_pass P R c customs text s today st =
     fold (\<lambda>cc st. if in_surfaces (cc_surfaces cc) s
                   then fold (custom_match P R c text today cc) (re_find_iter R (fst (cc_re cc)) (snd (cc_re cc)) text) st
                   else st) customs st"

definition detect_base ::
  "prims \<Rightarrow> text_api \<Rightarrow> analyzer_api \<Rightarrow> engine_config \<Rightarrow> compiled_custom list \<Rightarrow> compiled_secret list
   \<Rightarrow> int \<Rightarrow> string \<Rightarrow> surface \<Rightarrow> ingest_state" where
  "detect_base P R A c customs secrets today text s =
     (let st = (detect_secrets R secrets text s, []);
          st = custom_pass P R c customs text s today st;
          artifacts = context_artifacts P R text (language c);
          pre_floor = max (score_threshold c - CONTEXT_BOOST) 0
      in ingest_results P R A c text SrcRegex today (an_analyze A text (language c) artifacts pre_floor) st)"

section \<open>Overlap resolution\<close>

fun tier :: "det_source \<Rightarrow> nat" where
  "tier SrcSecret = 0"
| "tier SrcCustom = 1"
| "tier SrcRegex = 2"
| "tier SrcMl = 2"

text \<open>The comparator of the sort, as a key: lower is better.\<close>

definition rank :: "cached_detection \<Rightarrow> nat \<times> rat \<times> int" where
  "rank d = (tier (d_source d), - d_score d, int (d_start d) - int (d_end d))"

definition overlaps :: "cached_detection \<Rightarrow> cached_detection \<Rightarrow> bool" where
  "overlaps d k \<longleftrightarrow> d_start d < d_end k \<and> d_start k < d_end d"

definition keep_free :: "cached_detection \<Rightarrow> cached_detection list \<Rightarrow> cached_detection list" where
  "keep_free d kept = (if list_ex (overlaps d) kept then kept else kept @ [d])"

definition resolve_overlaps :: "cached_detection list \<Rightarrow> cached_detection list" where
  "resolve_overlaps dets = sort_key d_start (fold keep_free (sort_key rank dets) [])"

definition keeps_span :: "(nat \<times> nat) list \<Rightarrow> cached_detection \<Rightarrow> bool" where
  "keeps_span allowed d \<longleftrightarrow>
     d_source d = SrcSecret \<or> d_entity d \<in> set (entity_types Secrets)
     \<or> \<not> list_ex (\<lambda>(s, e). s \<le> d_start d \<and> d_end d \<le> e) allowed"

definition finish :: "ingest_state \<Rightarrow> cached_detection list" where
  "finish st =
     (let dets = (if snd st \<noteq> [] then filter (keeps_span (snd st)) (fst st) else fst st)
      in resolve_overlaps dets)"

section \<open>Detection\<close>

definition run_detection ::
  "prims \<Rightarrow> text_api \<Rightarrow> analyzer_api \<Rightarrow> engine_config \<Rightarrow> compiled_custom list \<Rightarrow> compiled_secret list
   \<Rightarrow> ml_recognizer option \<Rightarrow> int \<Rightarrow> string \<Rightarrow> surface \<Rightarrow> engine_error + cached_detection list" where
  "run_detection P R A c customs secrets mlr today text s =
     (let st = detect_base P R A c customs secrets today text s in
      case mlr of
        None \<Rightarrow> Inr (finish st)
      | Some rec \<Rightarrow>
          (case ml_analyze rec text of
             Inl e \<Rightarrow> Inl e
           | Inr rs \<Rightarrow> Inr (finish (ingest_results P R A c text SrcMl today rs st))))"

definition run_detection_batch ::
  "prims \<Rightarrow> text_api \<Rightarrow> analyzer_api \<Rightarrow> engine_config \<Rightarrow> compiled_custom list \<Rightarrow> compiled_secret list
   \<Rightarrow> ml_recognizer \<Rightarrow> int \<Rightarrow> (string \<times> surface) list \<Rightarrow> engine_error + cached_detection list list" where
  "run_detection_batch P R A c customs secrets rec today lvs =
     (case ml_analyze_batch rec (map fst lvs) of
        Inl e \<Rightarrow> Inl e
      | Inr batch \<Rightarrow>
          if length batch \<noteq> length lvs then Inl (MlError ''analyze_batch length'')
          else Inr (map2 (\<lambda>(text, s) rs.
                 finish (ingest_results P R A c text SrcMl today rs
                   (detect_base P R A c customs secrets today text s))) lvs batch))"

section \<open>Overlap resolution is a maximal choice by rank\<close>

lemma overlaps_sym: "overlaps a b \<longleftrightarrow> overlaps b a"
  by (auto simp: overlaps_def)

text \<open>The keep loop: what is kept is free of overlaps, and what is dropped meets something kept
  before it.\<close>

lemma keep_fold:
  assumes "sorted_wrt (\<lambda>a b. \<not> overlaps a b) kept"
  shows "\<exists>new. fold keep_free ds kept = kept @ new \<and> set new \<subseteq> set ds
    \<and> sorted_wrt (\<lambda>a b. \<not> overlaps a b) (kept @ new) \<and> length new \<le> length ds"
  using assms
proof (induction ds arbitrary: kept)
  case (Cons d ds)
  show ?case
  proof (cases "list_ex (overlaps d) kept")
    case True
    from Cons.IH [OF Cons.prems] True show ?thesis by (auto simp: keep_free_def)
  next
    case False
    have "sorted_wrt (\<lambda>a b. \<not> overlaps a b) (kept @ [d])"
      using Cons.prems False overlaps_sym by (auto simp: sorted_wrt_append list_ex_iff)
    from Cons.IH [OF this] obtain new where
      "fold keep_free ds (kept @ [d]) = (kept @ [d]) @ new" "set new \<subseteq> set ds" "length new \<le> length ds"
      "sorted_wrt (\<lambda>a b. \<not> overlaps a b) ((kept @ [d]) @ new)" by blast
    moreover have "keep_free d kept = kept @ [d]" using False by (simp add: keep_free_def)
    ultimately show ?thesis by (intro exI [of _ "d # new"]) auto
  qed
qed simp

lemma keep_fold_mono: "set kept \<subseteq> set (fold keep_free ds kept)"
proof (induction ds arbitrary: kept)
  case (Cons d ds)
  have "set kept \<subseteq> set (keep_free d kept)" by (auto simp: keep_free_def)
  with Cons.IH [of "keep_free d kept"] show ?case by auto
qed simp

lemma keep_fold_dropped:
  assumes "d \<in> set ds" "sorted_wrt (\<lambda>a b. R a b) ds" "\<forall>k\<in>set kept. \<forall>d\<in>set ds. R k d"
  shows "d \<in> set (fold keep_free ds kept) \<or> (\<exists>k\<in>set (fold keep_free ds kept). overlaps d k \<and> R k d)"
  using assms
proof (induction ds arbitrary: kept)
  case (Cons x ds)
  show ?case
  proof (cases "d = x")
    case True
    show ?thesis
    proof (cases "list_ex (overlaps x) kept")
      case True
      then obtain k where "k \<in> set kept" "overlaps x k" by (auto simp: list_ex_iff)
      with keep_fold_mono [of kept "x # ds"] Cons.prems(3) \<open>d = x\<close> show ?thesis by auto
    next
      case False
      then have "keep_free x kept = kept @ [x]" by (simp add: keep_free_def)
      with keep_fold_mono [of "kept @ [x]" ds] \<open>d = x\<close> show ?thesis by simp
    qed
  next
    case False
    have "\<forall>k\<in>set (keep_free x kept). \<forall>d\<in>set ds. R k d"
      using Cons.prems(2,3) by (auto simp: keep_free_def)
    from Cons.IH [OF _ _ this] Cons.prems False show ?thesis by simp
  qed
qed simp

lemma resolve_subset: "set (resolve_overlaps dets) \<subseteq> set dets"
  using keep_fold [of "[]" "sort_key rank dets"] by (auto simp: resolve_overlaps_def)

lemma sort_key_free:
  assumes "sorted_wrt (\<lambda>a b. \<not> overlaps a b) ds" "\<forall>d\<in>set ds. d_start d < d_end d"
  shows "sorted_wrt (\<lambda>a b. d_end a \<le> d_start b) (sort_key d_start ds)"
proof -
  have "\<not> overlaps a b" if "a \<in> set ds" "b \<in> set ds" "a \<noteq> b" for a b
    using assms(1) that overlaps_sym by (metis sorted_wrt_iff_nth_less in_set_conv_nth linorder_neqE_nat)
  moreover have "distinct ds"
    using assms by (induction ds) (auto simp: overlaps_def)
  ultimately have free: "\<not> overlaps a b" if "a \<in> set ds" "b \<in> set ds" "a \<noteq> b" for a b using that by blast
  have d: "distinct (sort_key d_start ds)" using \<open>distinct ds\<close> by (simp add: distinct_sort)
  have s: "sorted (map d_start (sort_key d_start ds))" by simp
  show ?thesis
    unfolding sorted_wrt_iff_nth_less
  proof (intro allI impI)
    fix i j assume ij: "i < j" "j < length (sort_key d_start ds)"
    let ?l = "sort_key d_start ds"
    have m: "?l ! i \<in> set ds" "?l ! j \<in> set ds" using ij by (metis nth_mem set_sort less_trans)+
    have "?l ! i \<noteq> ?l ! j" using d ij by (simp add: nth_eq_iff_index_eq)
    with free m have "\<not> overlaps (?l ! i) (?l ! j)" by blast
    moreover have "d_start (?l ! i) \<le> d_start (?l ! j)"
      using s ij by (simp add: sorted_iff_nth_mono)
    moreover have "d_start (?l ! j) < d_end (?l ! j)" using assms(2) m by blast
    ultimately show "d_end (?l ! i) \<le> d_start (?l ! j)" by (auto simp: overlaps_def)
  qed
qed

lemma resolve_disjoint:
  assumes "\<forall>d\<in>set dets. d_start d < d_end d"
  shows "sorted_wrt (\<lambda>a b. d_end a \<le> d_start b) (resolve_overlaps dets)"
proof -
  from keep_fold [of "[]" "sort_key rank dets"] obtain new where
    n: "fold keep_free (sort_key rank dets) [] = new" "set new \<subseteq> set dets" "sorted_wrt (\<lambda>a b. \<not> overlaps a b) new"
    by auto
  then show ?thesis using sort_key_free [OF n(3)] assms by (auto simp: resolve_overlaps_def)
qed

lemma resolve_dropped:
  assumes "d \<in> set dets"
  shows "d \<in> set (resolve_overlaps dets) \<or> (\<exists>k\<in>set (resolve_overlaps dets). overlaps d k \<and> rank k \<le> rank d)"
proof -
  have "sorted (map rank (sort_key rank dets))" by simp
  then have s: "sorted_wrt (\<lambda>a b. rank a \<le> rank b) (sort_key rank dets)" by (simp add: sorted_map)
  have "d \<in> set (sort_key rank dets)" using assms by simp
  from keep_fold_dropped [OF this s, of "[]"] show ?thesis by (simp add: resolve_overlaps_def)
qed

lemma finish_subset: "set (finish st) \<subseteq> set (fst st)"
  using resolve_subset by (auto simp: finish_def Let_def split: if_splits dest!: subsetD [OF resolve_subset])

lemma finish_dropped:
  assumes "d \<in> set (fst st)" "keeps_span (snd st) d"
  shows "d \<in> set (finish st) \<or> (\<exists>k\<in>set (finish st). overlaps d k \<and> rank k \<le> rank d)"
  using assms resolve_dropped [of d] by (auto simp: finish_def Let_def)

lemma rank_secret: "rank k \<le> rank d \<Longrightarrow> d_source d = SrcSecret \<Longrightarrow> d_source k = SrcSecret"
  by (cases "d_source k") (auto simp: rank_def)

section \<open>What the passes add\<close>

lemma ingest_one_extends: "\<exists>new. fst (ingest_one P R A c text src today r st) = fst st @ new"
  by (auto simp: ingest_one_def Let_def split: option.split prod.split)

lemma fold_extends:
  assumes "\<And>x st. \<exists>new. fst (f x st) = fst st @ new"
  shows "\<exists>new. fst (fold f xs st) = fst st @ new"
proof (induction xs arbitrary: st)
  case (Cons x xs)
  obtain n1 where "fst (f x st) = fst st @ n1" using assms by blast
  moreover obtain n2 where "fst (fold f xs (f x st)) = fst (f x st) @ n2" using Cons.IH by blast
  ultimately show ?case by simp
qed simp

lemma ingest_extends: "\<exists>new. fst (ingest_results P R A c text src today rs st) = fst st @ new"
  unfolding ingest_results_def by (rule fold_extends) (rule ingest_one_extends)

lemma custom_pass_extends: "\<exists>new. fst (custom_pass P R c customs text s today st) = fst st @ new"
  unfolding custom_pass_def
proof (rule fold_extends)
  fix cc :: compiled_custom and st :: ingest_state
  have "\<exists>new. fst (custom_match P R c text today cc m st) = fst st @ new" for m st
    by (auto simp: custom_match_def)
  then have "\<exists>new. fst (fold (custom_match P R c text today cc) ms st) = fst st @ new" for ms
    by (rule fold_extends)
  then show "\<exists>new. fst (if in_surfaces (cc_surfaces cc) s
        then fold (custom_match P R c text today cc) (re_find_iter R (fst (cc_re cc)) (snd (cc_re cc)) text) st else st)
      = fst st @ new" by simp
qed

lemma base_has_secrets:
  "set (detect_secrets R secrets text s) \<subseteq> set (fst (detect_base P R A c customs secrets today text s))"
proof -
  obtain n1 where n1: "fst (custom_pass P R c customs text s today (detect_secrets R secrets text s, [])) = detect_secrets R secrets text s @ n1"
    using custom_pass_extends by (metis fst_conv)
  let ?st = "custom_pass P R c customs text s today (detect_secrets R secrets text s, [])"
  obtain n2 where "fst (detect_base P R A c customs secrets today text s) = fst ?st @ n2"
    using ingest_extends unfolding detect_base_def Let_def by metis
  with n1 show ?thesis by simp
qed

lemma run_detection_cases:
  assumes "run_detection P R A c customs secrets mlr today text s = Inr dets"
  obtains st where "dets = finish st" "set (detect_secrets R secrets text s) \<subseteq> set (fst st)"
proof (cases mlr)
  case None
  with assms have "dets = finish (detect_base P R A c customs secrets today text s)"
    by (simp add: run_detection_def)
  then show ?thesis using base_has_secrets by (rule that)
next
  case (Some rec)
  with assms obtain rs where
    d: "dets = finish (ingest_results P R A c text SrcMl today rs (detect_base P R A c customs secrets today text s))"
    by (auto simp: run_detection_def Let_def split: sum.splits)
  obtain n where "fst (ingest_results P R A c text SrcMl today rs (detect_base P R A c customs secrets today text s))
      = fst (detect_base P R A c customs secrets today text s) @ n" using ingest_extends by metis
  then have "set (detect_secrets R secrets text s)
      \<subseteq> set (fst (ingest_results P R A c text SrcMl today rs (detect_base P R A c customs secrets today text s)))"
    using base_has_secrets [of R secrets "text" s P A c customs today] by auto
  with d show ?thesis by (rule that)
qed

section \<open>Detection reads only the fingerprinted configuration\<close>

lemma same_detection_keys:
  assumes "same_detection c d"
  shows "map_of (entity_operators c) e \<noteq> None \<longleftrightarrow> map_of (entity_operators d) e \<noteq> None"
proof -
  have "mset (map fst (entity_operators c)) = mset (map fst (entity_operators d))"
    using assms by (simp add: same_detection_def)
  then have "set (map fst (entity_operators c)) = set (map fst (entity_operators d))" by (rule mset_eq_setD)
  then show ?thesis by (simp add: map_of_eq_None_iff)
qed

lemma same_detection_cong:
  assumes "same_detection c d"
  shows "entity_enabled c = entity_enabled d" "is_suppressed P R c = is_suppressed P R d"
    "score_threshold c = score_threshold d" "language c = language d"
proof -
  show "entity_enabled c = entity_enabled d"
    using same_detection_keys [OF assms] assms by (intro ext) (simp add: entity_enabled_def same_detection_def)
  show "is_suppressed P R c = is_suppressed P R d"
    using assms by (intro ext) (simp add: is_suppressed_def same_detection_def)
  show "score_threshold c = score_threshold d" "language c = language d"
    using assms by (simp_all add: same_detection_def)
qed

lemma ingest_cong:
  assumes "same_detection c d"
  shows "ingest_results P R A c = ingest_results P R A d"
proof -
  have "ingest_one P R A c = ingest_one P R A d"
    by (intro ext) (simp only: ingest_one_def same_detection_cong [OF assms])
  then show ?thesis by (intro ext) (simp only: ingest_results_def)
qed

lemma custom_pass_cong:
  assumes "same_detection c d"
  shows "custom_pass P R c = custom_pass P R d"
proof -
  have "custom_match P R c = custom_match P R d"
    by (intro ext) (simp only: custom_match_def same_detection_cong [OF assms])
  then show ?thesis by (intro ext) (simp only: custom_pass_def)
qed

lemma run_detection_cong:
  assumes "same_detection c d"
  shows "run_detection P R A c = run_detection P R A d"
proof -
  have "detect_base P R A c = detect_base P R A d"
    by (intro ext) (simp only: detect_base_def ingest_cong [OF assms] custom_pass_cong [OF assms]
        same_detection_cong [OF assms])
  then show ?thesis by (intro ext) (simp only: run_detection_def ingest_cong [OF assms])
qed

section \<open>Properties of detection\<close>

text \<open>A concrete analyzer with no recognizers, and a recognizer that flags the first two bytes.\<close>

definition sample_analyzer :: analyzer_api where
  "sample_analyzer =
     \<lparr>an_analyze = (\<lambda>_ _ _ _. []),
      an_text = (\<lambda>r t. if rr_start r \<le> rr_end r \<and> rr_end r \<le> length t \<and> is_boundary t (rr_start r)
                   \<and> is_boundary t (rr_end r) then Some (slice t (rr_start r) (rr_end r)) else None),
      an_generic_pattern = ''generic''\<rparr>"

lemma sample_analyzer_ok [simp]: "analyzer_ok sample_analyzer"
  by (simp add: analyzer_ok_def sample_analyzer_def)

definition sample_ml :: ml_recognizer where
  "sample_ml =
     (let hit = \<lambda>t. [\<lparr>rr_start = 0, rr_end = 2, rr_score = 9/10, rr_entity = ''PERSON'', rr_pattern = None\<rparr>] in
      \<lparr>ml_analyze = (\<lambda>t. Inr (hit t)), ml_analyze_batch = (\<lambda>ts. Inr (map hit ts))\<rparr>)"

text \<open>
  Overlap resolution returns detections of its input in text order with no two overlapping, and
  is maximal by rank: each detection it drops overlaps a kept one of a tier, score and length that
  the comparator puts no later.
\<close>

theorem resolve_overlaps_maximal:
  assumes "\<forall>d\<in>set dets. d_start d < d_end d"
  shows "set (resolve_overlaps dets) \<subseteq> set dets
    \<and> sorted_wrt (\<lambda>a b. d_end a \<le> d_start b) (resolve_overlaps dets)
    \<and> (\<forall>d\<in>set dets. d \<in> set (resolve_overlaps dets)
         \<or> (\<exists>k\<in>set (resolve_overlaps dets). overlaps d k \<and> rank k \<le> rank d))"
  using resolve_subset resolve_disjoint [OF assms] resolve_dropped by blast

lemma resolve_overlaps_maximal_witness:
  "sorted_wrt (\<lambda>a b. d_end a \<le> d_start b) (resolve_overlaps
     [\<lparr>d_start = 3, d_end = 9, d_entity = ''URL'', d_score = 1/2, d_source = SrcRegex, d_literal = False,
       d_fixed_token = None, d_secret_op = None\<rparr>,
      \<lparr>d_start = 1, d_end = 4, d_entity = ''db'', d_score = 1, d_source = SrcSecret, d_literal = False,
       d_fixed_token = None, d_secret_op = Some OpBroker\<rparr>])"
  by (rule resolve_overlaps_maximal [THEN conjunct2, THEN conjunct1]) simp



lemma run_batch_single:
  assumes "\<And>ts bs. ml_analyze_batch rec ts = Inr bs \<Longrightarrow> map Inr bs = map (ml_analyze rec) ts"
    and "run_detection_batch P R A c customs secrets rec today lvs = Inr res"
  shows "map (\<lambda>(t, s). run_detection P R A c customs secrets (Some rec) today t s) lvs = map Inr res"
proof -
  obtain bs where bs: "ml_analyze_batch rec (map fst lvs) = Inr bs" "length bs = length lvs"
    "res = map2 (\<lambda>(text, s) rs. finish (ingest_results P R A c text SrcMl today rs
        (detect_base P R A c customs secrets today text s))) lvs bs"
    using assms(2) by (auto simp: run_detection_batch_def split: sum.splits if_splits)
  from assms(1) [OF bs(1)] have an: "ml_analyze rec (fst (lvs ! i)) = Inr (bs ! i)" if "i < length lvs" for i
    using that bs(2) by (metis length_map nth_map)
  show ?thesis
  proof (rule nth_equalityI)
    fix i assume "i < length (map (\<lambda>(t, s). run_detection P R A c customs secrets (Some rec) today t s) lvs)"
    then have i: "i < length lvs" by simp
    obtain t s where ts: "lvs ! i = (t, s)" by (cases "lvs ! i")
    with an [OF i] show "map (\<lambda>(t, s). run_detection P R A c customs secrets (Some rec) today t s) lvs ! i = map Inr res ! i"
      using i bs(2,3) by (simp add: run_detection_def Let_def)
  qed (simp add: bs)
qed

text \<open>
  One batched detection is the single detections side by side: where the recognizer's batch call
  returns what its single calls return, the batch returns the result of each leaf in order.
\<close>

theorem batch_is_pointwise:
  assumes "\<And>ts bs. ml_analyze_batch rec ts = Inr bs \<Longrightarrow> map Inr bs = map (ml_analyze rec) ts"
    and "run_detection_batch P R A c customs secrets rec today lvs = Inr res"
  shows "map (\<lambda>(t, s). run_detection P R A c customs secrets (Some rec) today t s) lvs = map Inr res"
  by (rule run_batch_single [OF assms])

lemma batch_is_pointwise_witness:
  "\<exists>res. run_detection_batch sample_prims sample_text sample_analyzer (engine_config_default sample_prims) [] []
      sample_ml 0 [(''Bo ran'', UserMessage), (''Al'', ToolResult)] = Inr res
    \<and> run_detection sample_prims sample_text sample_analyzer (engine_config_default sample_prims) [] []
      (Some sample_ml) 0 ''Bo ran'' UserMessage = Inr (res ! 0)"
proof -
  have a: "map Inr bs = map (ml_analyze sample_ml) ts" if "ml_analyze_batch sample_ml ts = Inr bs" for ts bs
    using that by (auto simp: sample_ml_def Let_def)
  obtain res where r: "run_detection_batch sample_prims sample_text sample_analyzer (engine_config_default sample_prims)
      [] [] sample_ml 0 [(''Bo ran'', UserMessage), (''Al'', ToolResult)] = Inr res"
    by (simp add: run_detection_batch_def sample_ml_def Let_def)
  have "map Inr res = [run_detection sample_prims sample_text sample_analyzer (engine_config_default sample_prims) [] []
      (Some sample_ml) 0 ''Bo ran'' UserMessage, run_detection sample_prims sample_text sample_analyzer
      (engine_config_default sample_prims) [] [] (Some sample_ml) 0 ''Al'' ToolResult]"
    using batch_is_pointwise [OF a r] by simp
  then have "run_detection sample_prims sample_text sample_analyzer (engine_config_default sample_prims) [] []
      (Some sample_ml) 0 ''Bo ran'' UserMessage = Inr (res ! 0)"
    by (cases res) auto
  with r show ?thesis by blast
qed

text \<open>
  What the detection cache is keyed on is enough: two configurations whose fingerprint bytes are
  equal compile the same custom rules and give the same detections on every leaf and surface.
\<close>

theorem fingerprint_sound:
  assumes "config_plain c" "config_plain d" "f32_ok R {score_threshold c, score_threshold d}"
    and "fp_input R c = fp_input R d"
  shows "compile_customs R (custom_replacements c) = compile_customs R (custom_replacements d)
    \<and> run_detection P R A c = run_detection P R A d"
proof -
  have sd: "same_detection c d" using fp_input_same_detection [OF assms] .
  then have "custom_replacements c = custom_replacements d" by (simp add: same_detection_def)
  with run_detection_cong [OF sd] show ?thesis by simp
qed

lemma fingerprint_sound_witness:
  "run_detection sample_prims sample_text sample_analyzer
       ((engine_config_default sample_prims)\<lparr>default_operator := OpRedact\<rparr>)
     = run_detection sample_prims sample_text sample_analyzer (engine_config_default sample_prims)"
proof -
  let ?d = "engine_config_default sample_prims"
  have "config_plain (?d\<lparr>default_operator := OpRedact\<rparr>)" "config_plain ?d"
    using default_plain by (simp_all add: config_plain_def)
  moreover have "f32_ok sample_text {score_threshold (?d\<lparr>default_operator := OpRedact\<rparr>), score_threshold ?d}"
    by (simp add: f32_ok_def engine_config_default_def sample_text_def)
  moreover have "fp_input sample_text (?d\<lparr>default_operator := OpRedact\<rparr>) = fp_input sample_text ?d"
    by (simp add: fp_input_def)
  ultimately show ?thesis by (rule fingerprint_sound [THEN conjunct2])
qed

end
