(* ===== verification/Ml_Slot.thy ===== *)
theory Ml_Slot
  imports Detection
begin

text \<open>
  The live ML slot of \<open>lib.rs\<close>: status, recognizer and load generation, the fingerprint that keys the
  detection cache, the transitions and the snapshot a mask call takes.

  Each transition holds the slot's write lock, so it is one atomic step. The \<open>u64\<close> generation and
  failure counters are naturals. A note of a runtime failure keeps the error instead of its text.
\<close>

section \<open>The slot\<close>

datatype ml_status = MlDisabled | MlLoading | MlReady | MlFailed

record ml_runtime =
  ml_st :: ml_status
  recognizer :: "ml_recognizer option"
  load_error :: "string option"
  last_runtime_error :: "engine_error option"
  runtime_failures :: nat
  desired :: "ml_config option"
  generation :: nat
  slot_fp :: nat

definition opt_code :: "string option \<Rightarrow> string" where
  "opt_code x = (case x of Some s \<Rightarrow> byte 1 # s | None \<Rightarrow> [byte 0])"

definition ml_params_code :: "text_api \<Rightarrow> ml_config \<Rightarrow> string" where
  "ml_params_code R d =
     byte (backend_tag (backend d))
     # (case min_score d of Some s \<Rightarrow> byte 1 # f32_bits R s | None \<Rightarrow> [byte 0])
     @ (case backend d of
          LocalBackend \<Rightarrow>
            model d @ [byte 0] @ opt_code (revision d)
            @ [flag (prefer_gpu d), byte (precision_tag (compute_prec d)), byte (quant_tag (quant d)), flag (banded_attention d)]
        | HttpBackend \<Rightarrow>
            opt_code (endpoint d) @ [byte 0] @ opt_code (auth_token_env d)
            @ le_bytes 8 (http_timeout_secs d) @ [flag (allow_remote_ml_endpoint d)]
        | SidecarBackend \<Rightarrow>
            model d @ [byte 0] @ opt_code (revision d) @ opt_code (sidecar_path d) @ [flag (banded_attention d)])"

definition slot_active :: "ml_runtime \<Rightarrow> bool" where
  "slot_active rt \<longleftrightarrow> ml_st rt = MlReady \<and> recognizer rt \<noteq> None"

definition ml_fp_input :: "text_api \<Rightarrow> ml_runtime \<Rightarrow> string" where
  "ml_fp_input R rt =
     ''sordino-ml-fp-v1''
     @ (if slot_active rt
        then byte 1 # (case desired rt of Some d \<Rightarrow> ml_params_code R d | None \<Rightarrow> [])
        else [byte 0])"

definition compute_ml_fp :: "prims \<Rightarrow> text_api \<Rightarrow> ml_runtime \<Rightarrow> nat" where
  "compute_ml_fp P R rt = le_value (take 8 (blake3 P (ml_fp_input R rt)))"

definition refresh_fp :: "prims \<Rightarrow> text_api \<Rightarrow> ml_runtime \<Rightarrow> ml_runtime" where
  "refresh_fp P R rt = rt\<lparr>slot_fp := compute_ml_fp P R rt\<rparr>"

definition ml_runtime_default :: "prims \<Rightarrow> text_api \<Rightarrow> ml_runtime" where
  "ml_runtime_default P R =
     refresh_fp P R \<lparr>ml_st = MlDisabled, recognizer = None, load_error = None, last_runtime_error = None,
       runtime_failures = 0, desired = None, generation = 0, slot_fp = 0\<rparr>"

section \<open>Transitions\<close>

definition ml_begin_load :: "prims \<Rightarrow> text_api \<Rightarrow> ml_config \<Rightarrow> ml_runtime \<Rightarrow> nat \<times> ml_runtime" where
  "ml_begin_load P R d rt =
     (let rt' = refresh_fp P R (rt\<lparr>generation := generation rt + 1, ml_st := MlLoading, recognizer := None,
                load_error := None, last_runtime_error := None, runtime_failures := 0, desired := Some d\<rparr>)
      in (generation rt', rt'))"

definition ml_set_ready :: "prims \<Rightarrow> text_api \<Rightarrow> nat \<Rightarrow> ml_recognizer \<Rightarrow> ml_runtime \<Rightarrow> ml_runtime" where
  "ml_set_ready P R gen rec rt =
     (if generation rt \<noteq> gen then rt
      else refresh_fp P R (rt\<lparr>ml_st := MlReady, recognizer := Some rec, load_error := None,
             last_runtime_error := None, runtime_failures := 0\<rparr>))"

definition ml_set_failed :: "prims \<Rightarrow> text_api \<Rightarrow> nat \<Rightarrow> string \<Rightarrow> ml_runtime \<Rightarrow> ml_runtime" where
  "ml_set_failed P R gen e rt =
     (if generation rt \<noteq> gen then rt
      else refresh_fp P R (rt\<lparr>ml_st := MlFailed, recognizer := None, load_error := Some e\<rparr>))"

definition ml_disable :: "prims \<Rightarrow> text_api \<Rightarrow> ml_runtime \<Rightarrow> ml_runtime" where
  "ml_disable P R rt =
     refresh_fp P R (rt\<lparr>generation := generation rt + 1, ml_st := MlDisabled, recognizer := None,
       load_error := None, last_runtime_error := None, runtime_failures := 0, desired := None\<rparr>)"

definition ml_update_required :: "bool option \<Rightarrow> ml_runtime \<Rightarrow> ml_runtime" where
  "ml_update_required r rt = rt\<lparr>desired := map_option (\<lambda>d. d\<lparr>required := r\<rparr>) (desired rt)\<rparr>"

definition ml_note_runtime_failure :: "nat \<Rightarrow> engine_error \<Rightarrow> ml_runtime \<Rightarrow> ml_runtime" where
  "ml_note_runtime_failure gen e rt =
     (if generation rt \<noteq> gen then rt
      else rt\<lparr>runtime_failures := runtime_failures rt + 1, last_runtime_error := Some e\<rparr>)"

definition ml_clear_runtime_failure :: "nat \<Rightarrow> ml_runtime \<Rightarrow> ml_runtime" where
  "ml_clear_runtime_failure gen rt =
     (if generation rt \<noteq> gen \<or> last_runtime_error rt = None then rt
      else if generation rt = gen then rt\<lparr>last_runtime_error := None\<rparr> else rt)"

record ml_snap =
  snap_status :: ml_status
  snap_error :: "string option"
  snap_last_runtime_error :: "engine_error option"
  snap_runtime_failures :: nat
  snap_desired :: "ml_config option"

definition ml_snapshot :: "ml_runtime \<Rightarrow> ml_snap" where
  "ml_snapshot rt =
     \<lparr>snap_status = ml_st rt, snap_error = load_error rt, snap_last_runtime_error = last_runtime_error rt,
      snap_runtime_failures = runtime_failures rt, snap_desired = desired rt\<rparr>"

definition ml_active :: "ml_runtime \<Rightarrow> bool" where
  "ml_active rt \<longleftrightarrow> ml_st rt = MlReady"

definition ml_should_offload :: "ml_runtime \<Rightarrow> bool" where
  "ml_should_offload rt \<longleftrightarrow> ml_st rt \<in> {MlLoading, MlReady}"

section \<open>The snapshot of a mask call\<close>

fun status_debug :: "ml_status \<Rightarrow> string" where
  "status_debug MlDisabled = ''Disabled''"
| "status_debug MlLoading = ''Loading''"
| "status_debug MlReady = ''Ready''"
| "status_debug MlFailed = ''Failed''"

text \<open>The UTF-8 bytes of the em dash.\<close>

definition em_dash :: string where
  "em_dash = map byte [226, 128, 148]"

fun escape_hint :: "ml_backend \<Rightarrow> string" where
  "escape_hint HttpBackend =
     '' '' @ em_dash @ '' set [engine.ml] required = false to degrade to regex-only, or backend = '' @ [CHR 0x22]
     @ ''local'' @ [CHR 0x22]"
| "escape_hint LocalBackend = []"
| "escape_hint SidecarBackend =
     '' '' @ em_dash @ '' set [engine.ml] required = false to degrade to regex-only, or verify the burn-server ''
     @ ''binary path and GPU availability (see /sordino:doctor)''"

definition refusal_text :: "ml_config \<Rightarrow> ml_runtime \<Rightarrow> string" where
  "refusal_text d rt =
     ''ml required but not ready (status: '' @ status_debug (ml_st rt)
     @ (case load_error rt of Some e \<Rightarrow> '', load error: '' @ e | None \<Rightarrow> [])
     @ '') '' @ em_dash @ '' refusing to send text with regex-only scanning'' @ escape_hint (backend d)"

definition ml_for_mask :: "ml_runtime \<Rightarrow> ml_recognizer option \<times> nat \<times> nat \<times> string option" where
  "ml_for_mask rt =
     (let rec = (if ml_st rt = MlReady then recognizer rt else None);
          refusal = (case desired rt of
              Some d \<Rightarrow> if ml_enabled d \<and> required_effective d \<and> ml_st rt \<noteq> MlReady then Some (refusal_text d rt) else None
            | None \<Rightarrow> None)
      in (rec, slot_fp rt, generation rt, refusal))"

section \<open>The fingerprint is the model identity\<close>

definition clean :: "string \<Rightarrow> bool" where
  "clean s \<longleftrightarrow> byte 0 \<notin> set s \<and> byte 1 \<notin> set s"

definition opt_clean :: "string option \<Rightarrow> bool" where
  "opt_clean x \<longleftrightarrow> (case x of Some s \<Rightarrow> clean s | None \<Rightarrow> True)"

text \<open>Names, revisions, URLs and paths without the two separator bytes; a \<open>u64\<close> timeout.\<close>

definition params_clean :: "ml_config \<Rightarrow> bool" where
  "params_clean d \<longleftrightarrow>
     clean (model d) \<and> opt_clean (revision d) \<and> opt_clean (endpoint d) \<and> opt_clean (auth_token_env d)
     \<and> opt_clean (sidecar_path d) \<and> http_timeout_secs d < 256 ^ 8"

lemma byte01 [simp]: "byte (Suc 0) \<noteq> byte 0" "byte 0 \<noteq> byte (Suc 0)"
  by (simp_all add: byte_inject)

lemma clean_stop:
  assumes "clean a" "clean b" "c \<in> {byte 0, byte 1}" "d \<in> {byte 0, byte 1}" "a @ c # r = b @ d # s"
  shows "a = b \<and> c = d \<and> r = s"
proof -
  have no: "z \<noteq> byte 0 \<and> z \<noteq> byte 1" if "z \<in> set a \<or> z \<in> set b" for z
    using that assms(1,2) by (auto simp: clean_def)
  show ?thesis
  proof (rule stopped_unique [OF assms(5)])
    show "c \<notin> set b" "d \<notin> set a" using assms(3,4) no by auto
    show "z \<noteq> c" if "z \<in> set a" for z using assms(3) no that by auto
    show "z \<noteq> d" if "z \<in> set b" for z using assms(4) no that by auto
  qed
qed

lemma opt_code_stop:
  assumes "opt_clean a" "opt_clean b" "c \<in> {byte 0, byte 1}" "d \<in> {byte 0, byte 1}"
    "opt_code a @ c # r = opt_code b @ d # s"
  shows "a = b \<and> c = d \<and> r = s"
proof (cases a)
  case None
  then show ?thesis using assms by (cases b) (auto simp: opt_code_def)
next
  case (Some x)
  with assms(5) obtain y where y: "b = Some y" by (cases b) (auto simp: opt_code_def)
  have "clean x" "clean y" using assms(1,2) Some y by (simp_all add: opt_clean_def)
  from clean_stop [OF this assms(3,4), of r s] assms(5) Some y show ?thesis by (simp add: opt_code_def)
qed

lemma opt_code_tail:
  assumes "length u = length v" "opt_code a @ u = opt_code b @ v"
  shows "a = b \<and> u = v"
  using assms by (cases a; cases b) (auto simp: opt_code_def)

lemma opt_code_head: "\<exists>c r. opt_code x = c # r \<and> c \<in> {byte 0, byte 1}"
  by (cases x) (auto simp: opt_code_def)

lemma opt_code_opt:
  assumes "opt_clean a" "opt_clean b" "length u = length v"
    "opt_code a @ opt_code p @ u = opt_code b @ opt_code q @ v"
  shows "a = b \<and> p = q \<and> u = v"
proof -
  obtain c r d s where h: "opt_code p = c # r" "c \<in> {byte 0, byte 1}" "opt_code q = d # s" "d \<in> {byte 0, byte 1}"
    using opt_code_head by metis
  from opt_code_stop [OF assms(1,2) h(2,4), of "r @ u" "s @ v"] assms(4) h(1,3)
  have e: "a = b" "c = d" "r @ u = s @ v" by simp_all
  then have "opt_code p @ u = opt_code q @ v" using h by simp
  from opt_code_tail [OF assms(3) this] e show ?thesis by simp
qed

lemma score_code_unique:
  assumes "f32_ok R (set_option x \<union> set_option y)"
    "(case x of Some s \<Rightarrow> byte 1 # f32_bits R s | None \<Rightarrow> [byte 0]) @ r
     = (case y of Some s \<Rightarrow> byte 1 # f32_bits R s | None \<Rightarrow> [byte 0]) @ s"
  shows "x = y \<and> r = s"
proof (cases x; cases y)
  fix p q assume xy: "x = Some p" "y = Some q"
  with assms(1) have "length (f32_bits R p) = length (f32_bits R q)" "f32_bits R p = f32_bits R q \<longrightarrow> p = q"
    by (auto simp: f32_ok_def inj_on_def)
  with assms(2) xy show ?thesis by simp
qed (use assms(2) in auto)

lemma tag_bytes [simp]:
  "byte (backend_tag x) = byte (backend_tag y) \<longleftrightarrow> x = y" "byte (quant_tag q) = byte (quant_tag q') \<longleftrightarrow> q = q'"
  "byte (precision_tag k) = byte (precision_tag k') \<longleftrightarrow> k = k'"
proof -
  show "byte (backend_tag x) = byte (backend_tag y) \<longleftrightarrow> x = y" by (cases x; cases y) (simp_all add: byte_inject)
  show "byte (quant_tag q) = byte (quant_tag q') \<longleftrightarrow> q = q'" by (cases q; cases q') (simp_all add: byte_inject)
  show "byte (precision_tag k) = byte (precision_tag k') \<longleftrightarrow> k = k'" by (cases k; cases k') (simp_all add: byte_inject)
qed

lemma params_code_same:
  assumes "params_clean m" "params_clean n" "f32_ok R (set_option (min_score m) \<union> set_option (min_score n))"
    and "ml_params_code R m = ml_params_code R n"
  shows "same_model_params m n"
proof -
  from assms(4) have b: "backend m = backend n" by (simp add: ml_params_code_def)
  have sc: "min_score m = min_score n"
    and rest: "(case backend m of
          LocalBackend \<Rightarrow>
            model m @ [byte 0] @ opt_code (revision m)
            @ [flag (prefer_gpu m), byte (precision_tag (compute_prec m)), byte (quant_tag (quant m)), flag (banded_attention m)]
        | HttpBackend \<Rightarrow>
            opt_code (endpoint m) @ [byte 0] @ opt_code (auth_token_env m)
            @ le_bytes 8 (http_timeout_secs m) @ [flag (allow_remote_ml_endpoint m)]
        | SidecarBackend \<Rightarrow>
            model m @ [byte 0] @ opt_code (revision m) @ opt_code (sidecar_path m) @ [flag (banded_attention m)])
      = (case backend m of
          LocalBackend \<Rightarrow>
            model n @ [byte 0] @ opt_code (revision n)
            @ [flag (prefer_gpu n), byte (precision_tag (compute_prec n)), byte (quant_tag (quant n)), flag (banded_attention n)]
        | HttpBackend \<Rightarrow>
            opt_code (endpoint n) @ [byte 0] @ opt_code (auth_token_env n)
            @ le_bytes 8 (http_timeout_secs n) @ [flag (allow_remote_ml_endpoint n)]
        | SidecarBackend \<Rightarrow>
            model n @ [byte 0] @ opt_code (revision n) @ opt_code (sidecar_path n) @ [flag (banded_attention n)])"
    using score_code_unique [OF assms(3)] assms(4) b by (simp_all add: ml_params_code_def)
  have cl: "clean (model m)" "clean (model n)" "opt_clean (revision m)" "opt_clean (revision n)"
      "opt_clean (endpoint m)" "opt_clean (endpoint n)"
    using assms(1,2) by (simp_all add: params_clean_def)
  show ?thesis
  proof (cases "backend m")
    case LocalBackend
    let ?t = "\<lambda>d. [flag (prefer_gpu d), byte (precision_tag (compute_prec d)), byte (quant_tag (quant d)),
                  flag (banded_attention d)]"
    have "model m @ byte 0 # opt_code (revision m) @ ?t m = model n @ byte 0 # opt_code (revision n) @ ?t n"
      using rest unfolding LocalBackend by (simp only: ml_backend.case append_Cons append_Nil)
    from clean_stop [OF cl(1,2) _ _ this] have e: "model m = model n"
      "opt_code (revision m) @ ?t m = opt_code (revision n) @ ?t n" by blast+
    have "length (?t m) = length (?t n)" by simp
    from opt_code_tail [OF this e(2)] e(1) b sc LocalBackend show ?thesis by (simp add: same_model_params_def)
  next
    case HttpBackend
    let ?t = "\<lambda>d. le_bytes 8 (http_timeout_secs d) @ [flag (allow_remote_ml_endpoint d)]"
    have "opt_code (endpoint m) @ byte 0 # opt_code (auth_token_env m) @ ?t m
        = opt_code (endpoint n) @ byte 0 # opt_code (auth_token_env n) @ ?t n"
      using rest unfolding HttpBackend by (simp only: ml_backend.case append_Cons append_Nil)
    from opt_code_stop [OF cl(5,6) _ _ this] have e: "endpoint m = endpoint n"
      "opt_code (auth_token_env m) @ ?t m = opt_code (auth_token_env n) @ ?t n" by blast+
    have "length (?t m) = length (?t n)" by simp
    from opt_code_tail [OF this e(2)] have a: "auth_token_env m = auth_token_env n" "?t m = ?t n" by blast+
    have "http_timeout_secs m < 256 ^ 8" "http_timeout_secs n < 256 ^ 8"
      using assms(1,2) by (simp_all only: params_clean_def)
    from le_bytes_unique [OF this a(2)] e(1) a(1) b sc HttpBackend
    show ?thesis by (simp add: same_model_params_def)
  next
    case SidecarBackend
    let ?t = "\<lambda>d. opt_code (revision d) @ opt_code (sidecar_path d) @ [flag (banded_attention d)]"
    have "model m @ byte 0 # ?t m = model n @ byte 0 # ?t n"
      using rest unfolding SidecarBackend by (simp only: ml_backend.case append_Cons append_Nil)
    from clean_stop [OF cl(1,2) _ _ this] have e: "model m = model n" "?t m = ?t n" by blast+
    have "length [flag (banded_attention m)] = length [flag (banded_attention n)]" by simp
    from opt_code_opt [OF cl(3,4) this e(2)] e(1) b sc SidecarBackend show ?thesis
      by (simp add: same_model_params_def)
  qed
qed

lemma same_params_code: "same_model_params m n \<Longrightarrow> ml_params_code R m = ml_params_code R n"
  by (auto simp: same_model_params_def ml_params_code_def Let_def split: if_splits ml_backend.splits)

section \<open>The slot as a state machine\<close>

text \<open>
  The state is the slot and the load generations handed out so far. A load task reports with a
  generation it was given; a mask call reports a failure or a recovery with the generation it read.
\<close>

inductive ml_step :: "prims \<Rightarrow> text_api \<Rightarrow> nat set \<times> ml_runtime \<Rightarrow> nat set \<times> ml_runtime \<Rightarrow> bool" for P R where
  step_begin: "ml_begin_load P R d rt = (g, rt') \<Longrightarrow> ml_step P R (I, rt) (insert g I, rt')"
| step_ready: "g \<in> I \<Longrightarrow> ml_step P R (I, rt) (I, ml_set_ready P R g rec rt)"
| step_failed: "g \<in> I \<Longrightarrow> ml_step P R (I, rt) (I, ml_set_failed P R g e rt)"
| step_disable: "ml_step P R (I, rt) (I, ml_disable P R rt)"
| step_required: "ml_step P R (I, rt) (I, ml_update_required r rt)"
| step_note: "ml_step P R (I, rt) (I, ml_note_runtime_failure g err rt)"
| step_clear: "ml_step P R (I, rt) (I, ml_clear_runtime_failure g rt)"

inductive_cases ml_stepE: "ml_step P R s s'"

lemmas slot_defs = ml_begin_load_def ml_set_ready_def ml_set_failed_def ml_disable_def ml_update_required_def
  ml_note_runtime_failure_def ml_clear_runtime_failure_def refresh_fp_def Let_def

definition slot_ok :: "prims \<Rightarrow> text_api \<Rightarrow> nat set \<times> ml_runtime \<Rightarrow> bool" where
  "slot_ok P R s \<longleftrightarrow>
     (case s of (I, rt) \<Rightarrow>
        (recognizer rt \<noteq> None \<longleftrightarrow> ml_st rt = MlReady) \<and> (desired rt = None \<longleftrightarrow> ml_st rt = MlDisabled)
        \<and> (load_error rt \<noteq> None \<longleftrightarrow> ml_st rt = MlFailed)
        \<and> slot_fp rt = compute_ml_fp P R rt \<and> (\<forall>g\<in>I. g \<le> generation rt)
        \<and> (ml_st rt = MlDisabled \<longrightarrow> generation rt \<notin> I))"

text \<open>The fingerprint reads the status, the recognizer's presence and the model parameters only.\<close>

lemma slot_active_update [simp]:
  "slot_active (rt\<lparr>runtime_failures := n, last_runtime_error := x\<rparr>) = slot_active rt"
  "slot_active (rt\<lparr>last_runtime_error := x\<rparr>) = slot_active rt" "slot_active (rt\<lparr>slot_fp := f\<rparr>) = slot_active rt"
  "slot_active (rt\<lparr>runtime_failures := n\<rparr>) = slot_active rt" "slot_active (rt\<lparr>desired := c\<rparr>) = slot_active rt"
  by (simp_all add: slot_active_def)

lemma fp_irrelevant [simp]:
  "compute_ml_fp P R (rt\<lparr>last_runtime_error := x\<rparr>) = compute_ml_fp P R rt"
  "compute_ml_fp P R (rt\<lparr>runtime_failures := n\<rparr>) = compute_ml_fp P R rt"
  "compute_ml_fp P R (rt\<lparr>last_runtime_error := x, runtime_failures := n\<rparr>) = compute_ml_fp P R rt"
  "compute_ml_fp P R (rt\<lparr>slot_fp := f\<rparr>) = compute_ml_fp P R rt"
  "compute_ml_fp P R (rt\<lparr>runtime_failures := n, last_runtime_error := x\<rparr>) = compute_ml_fp P R rt"
  by (simp_all add: compute_ml_fp_def ml_fp_input_def)

lemma fp_required: "compute_ml_fp P R (ml_update_required r rt) = compute_ml_fp P R rt"
proof -
  have "ml_params_code R (d\<lparr>required := r\<rparr>) = ml_params_code R d" for d
    by (simp add: ml_params_code_def split: ml_backend.split)
  then show ?thesis
    by (cases "desired rt") (simp_all add: compute_ml_fp_def ml_fp_input_def ml_update_required_def)
qed

lemma slot_ok_default: "slot_ok P R ({}, ml_runtime_default P R)"
  by (simp add: slot_ok_def ml_runtime_default_def refresh_fp_def compute_ml_fp_def ml_fp_input_def slot_active_def)

lemma slot_ok_step:
  assumes "ml_step P R s s'" "slot_ok P R s"
  shows "slot_ok P R s'"
  using assms
proof cases
  case (step_required I rt r)
  then show ?thesis using assms(2) fp_required [of P R r rt]
    by (auto simp: slot_ok_def ml_update_required_def)
next
  case (step_begin d rt g rt' I)
  then show ?thesis using assms(2) by (auto simp: slot_ok_def slot_defs intro: le_SucI)
next
  case (step_disable I rt)
  then show ?thesis using assms(2) by (auto simp: slot_ok_def slot_defs intro: le_SucI)
qed (auto simp: slot_ok_def slot_defs)

lemma slot_ok_run: "(ml_step P R)\<^sup>*\<^sup>* s s' \<Longrightarrow> slot_ok P R s \<Longrightarrow> slot_ok P R s'"
  by (induction rule: rtranclp_induct) (auto intro: slot_ok_step)

text \<open>One step either stays in the current load or starts a later generation.\<close>

lemma ml_step_generation:
  assumes "ml_step P R s s'"
  shows "generation (snd s) < generation (snd s')
    \<or> generation (snd s) = generation (snd s')
      \<and> (\<forall>d. desired (snd s) = Some d \<longrightarrow> (\<exists>r. desired (snd s') = Some (d\<lparr>required := r\<rparr>)))"
proof -
  have same: "\<exists>r. d = d\<lparr>required := r\<rparr>" for d :: ml_config
    by (rule exI [of _ "required d"]) simp
  from assms show ?thesis by cases (auto simp: slot_defs same)
qed

lemma ml_run_generation:
  assumes "(ml_step P R)\<^sup>*\<^sup>* s s'" "desired (snd s) = Some d"
  shows "generation (snd s) < generation (snd s')
    \<or> generation (snd s) = generation (snd s') \<and> (\<exists>r. desired (snd s') = Some (d\<lparr>required := r\<rparr>))"
  using assms
proof (induction rule: rtranclp_induct)
  case base
  have "d = d\<lparr>required := required d\<rparr>" by simp
  with base show ?case by metis
next
  case (step y z)
  from step.IH [OF step.prems] show ?case
  proof (elim disjE conjE exE)
    assume "generation (snd s) < generation (snd y)"
    with ml_step_generation [OF step.hyps(2)] show ?thesis by auto
  next
    fix r assume g: "generation (snd s) = generation (snd y)" and d: "desired (snd y) = Some (d\<lparr>required := r\<rparr>)"
    from ml_step_generation [OF step.hyps(2)] g show ?thesis
    proof (elim disjE conjE)
      assume "\<forall>e. desired (snd y) = Some e \<longrightarrow> (\<exists>r. desired (snd z) = Some (e\<lparr>required := r\<rparr>))"
        and eq: "generation (snd y) = generation (snd z)"
      with d obtain r' where "desired (snd z) = Some (d\<lparr>required := r'\<rparr>)" by fastforce
      with g eq show ?thesis by auto
    qed simp
  qed
qed

section \<open>Properties of the slot\<close>

text \<open>What the fingerprint sees of a slot: the parameters of an active recognizer.\<close>

definition active_params :: "ml_runtime \<Rightarrow> ml_config option" where
  "active_params rt = (if slot_active rt then desired rt else None)"

text \<open>
  The slot fingerprint is the identity of the active model: for slots a run can reach, the hashed
  bytes are equal exactly when both have no active recognizer, or both have one with the parameters
  that the reload decision compares.
\<close>

theorem ml_fp_identity:
  assumes "slot_ok P R (I, rt)" "slot_ok P R (J, rt')"
    and "\<And>d. desired rt = Some d \<Longrightarrow> params_clean d \<and> set_option (min_score d) \<subseteq> S"
    and "\<And>d. desired rt' = Some d \<Longrightarrow> params_clean d \<and> set_option (min_score d) \<subseteq> S"
    and "f32_ok R S"
  shows "ml_fp_input R rt = ml_fp_input R rt' \<longleftrightarrow>
    rel_option same_model_params (active_params rt) (active_params rt')"
proof -
  have f: "f32_ok R T" if "T \<subseteq> S" for T using assms(5) that by (auto simp: f32_ok_def intro: inj_on_subset)
  have des: "desired rt \<noteq> None" if "ml_st rt = MlReady" using assms(1) that by (auto simp: slot_ok_def)
  have des': "desired rt' \<noteq> None" if "ml_st rt' = MlReady" using assms(2) that by (auto simp: slot_ok_def)
  have *: "ml_params_code R d = ml_params_code R e \<longleftrightarrow> same_model_params d e"
    if "desired rt = Some d" "desired rt' = Some e" for d e
    using params_code_same [of d e R] assms(3) [OF that(1)] assms(4) [OF that(2)]
      f [of "set_option (min_score d) \<union> set_option (min_score e)"] same_params_code by blast
  show ?thesis
    using des des' by (auto simp: ml_fp_input_def active_params_def slot_active_def * )
qed

text \<open>The default parameters, enabled and required.\<close>

definition sample_params :: ml_config where
  "sample_params = ml_config_default\<lparr>ml_enabled := True, required := Some True\<rparr>"

lemma sample_params_clean: "params_clean sample_params" "min_score sample_params = None"
proof -
  have "clean ''openai/privacy-filter''"
    by (simp add: clean_def byte_def char_of_def)
  then show "params_clean sample_params"
    by (simp add: params_clean_def sample_params_def ml_config_default_def AUTHORIZED_ML_MODELS_def opt_clean_def)
  show "min_score sample_params = None" by (simp add: sample_params_def ml_config_default_def)
qed

abbreviation sample_slot :: ml_runtime where
  "sample_slot \<equiv> ml_runtime_default sample_prims sample_text"

abbreviation sample_loading :: ml_runtime where
  "sample_loading \<equiv> snd (ml_begin_load sample_prims sample_text sample_params sample_slot)"

lemma sample_begin: "ml_begin_load sample_prims sample_text sample_params sample_slot = (1, sample_loading)"
  by (simp add: slot_defs ml_runtime_default_def)

lemma ml_fp_identity_witness:
  "ml_fp_input sample_text (ml_set_ready sample_prims sample_text 1 sample_ml sample_loading)
     \<noteq> ml_fp_input sample_text sample_loading"
proof -
  let ?rt = "ml_set_ready sample_prims sample_text 1 sample_ml sample_loading"
  have l: "slot_ok sample_prims sample_text ({1}, sample_loading)"
    using slot_ok_step [OF step_begin [OF sample_begin] slot_ok_default] by simp
  then have r: "slot_ok sample_prims sample_text ({1}, ?rt)"
    using slot_ok_step [OF step_ready] by blast
  have d: "desired ?rt = Some sample_params" "desired sample_loading = Some sample_params"
    by (simp_all add: slot_defs ml_runtime_default_def)
  have "active_params ?rt = Some sample_params" "active_params sample_loading = None"
    by (simp_all add: slot_defs ml_runtime_default_def active_params_def slot_active_def)
  then show ?thesis
    using ml_fp_identity [OF r l, of "{}"] d sample_params_clean by (simp add: f32_ok_def)
qed

text \<open>
  A load generation is good for exactly its own load. After \<open>ml_begin_load\<close> returns \<open>g\<close>, whatever
  steps follow, either \<open>g\<close> is still current, the desired parameters are the ones of this load up to the
  required flag, and reporting ready installs the recognizer; or the load was superseded and every
  report with \<open>g\<close> leaves the slot as it is.
\<close>

theorem load_token_exact:
  assumes "slot_ok P R (I, rt)" "ml_begin_load P R d rt = (g, rt1)"
    and "(ml_step P R)\<^sup>*\<^sup>* (insert g I, rt1) (J, rt2)"
  shows "(generation rt2 = g \<and> (\<exists>r. desired rt2 = Some (d\<lparr>required := r\<rparr>))
            \<and> ml_st (ml_set_ready P R g rec rt2) = MlReady \<and> recognizer (ml_set_ready P R g rec rt2) = Some rec)
    \<or> (g < generation rt2 \<and> ml_set_ready P R g rec rt2 = rt2 \<and> ml_set_failed P R g e rt2 = rt2
        \<and> ml_note_runtime_failure g err rt2 = rt2 \<and> ml_clear_runtime_failure g rt2 = rt2)"
proof -
  have "desired rt1 = Some d" "generation rt1 = g" using assms(2) by (auto simp: slot_defs)
  with ml_run_generation [OF assms(3), of d]
  have "g < generation rt2 \<or> generation rt2 = g \<and> (\<exists>r. desired rt2 = Some (d\<lparr>required := r\<rparr>))" by auto
  then show ?thesis by (auto simp: slot_defs)
qed

lemma load_token_exact_witness:
  "ml_set_ready sample_prims sample_text 1 sample_ml (ml_disable sample_prims sample_text sample_loading)
     = ml_disable sample_prims sample_text sample_loading"
proof -
  have run: "(ml_step sample_prims sample_text)\<^sup>*\<^sup>* (insert 1 {}, sample_loading)
      ({1}, ml_disable sample_prims sample_text sample_loading)"
    by (rule r_into_rtranclp) (rule step_disable)
  have gen: "generation (ml_disable sample_prims sample_text sample_loading) \<noteq> 1"
    by (simp add: slot_defs ml_runtime_default_def)
  from load_token_exact [OF slot_ok_default sample_begin run,
      where rec = sample_ml and e = "[]" and err = DecryptionFailed] show ?thesis
    by (elim disjE conjE) (use gen in \<open>iprover\<close>)+
qed

text \<open>
  What a mask call sees is consistent along every history of the slot: the recognizer is the one
  of a \<open>Ready\<close> slot, the fingerprint is the one of that very slot, and when the wanted model is enabled
  and required the call is refused exactly when there is no recognizer.
\<close>

theorem mask_snapshot_consistent:
  assumes "(ml_step P R)\<^sup>*\<^sup>* ({}, ml_runtime_default P R) (I, rt)" "ml_for_mask rt = (rec, fp, gen, refusal)"
  shows "rec = recognizer rt \<and> fp = compute_ml_fp P R rt \<and> (rec \<noteq> None \<longleftrightarrow> ml_st rt = MlReady)
    \<and> (refusal \<noteq> None \<longleftrightarrow>
         rec = None \<and> (case desired rt of Some d \<Rightarrow> ml_enabled d \<and> required_effective d | None \<Rightarrow> False))"
proof -
  have "slot_ok P R (I, rt)" using slot_ok_run [OF assms(1) slot_ok_default] .
  then show ?thesis using assms(2)
    by (auto simp: slot_ok_def ml_for_mask_def Let_def split: option.splits if_splits)
qed

lemma mask_snapshot_consistent_witness:
  "fst (ml_for_mask sample_loading) = None \<and> snd (snd (snd (ml_for_mask sample_loading))) \<noteq> None"
proof -
  have run: "(ml_step sample_prims sample_text)\<^sup>*\<^sup>* ({}, sample_slot) ({1}, sample_loading)"
    using step_begin [OF sample_begin] by (rule r_into_rtranclp)
  obtain rec fp gen refusal where m: "ml_for_mask sample_loading = (rec, fp, gen, refusal)"
    using prod_cases4 by blast
  have "recognizer sample_loading = None" "desired sample_loading = Some sample_params"
    by (simp_all add: slot_defs ml_runtime_default_def)
  with mask_snapshot_consistent [OF run m] m show ?thesis
    by (simp add: sample_params_def required_effective_def)
qed

end
