(* ===== verification/Session_Store.thy ===== *)
theory Session_Store
  imports Manifest_Model
begin

text \<open>
  \<open>store.rs\<close> of \<open>sordino-engine\<close>: the reversible session store. The token map is an association
  list with distinct handles; \<open>Instant\<close> is a natural number and the clock reading is an argument of
  every operation that takes one. \<open>os_draws\<close> counts the nonces taken from the OS random source,
  so that the source is an explicit stream.

  The locale \<open>token_vault\<close> is the contract the masking and unmasking engine relies on (what a
  lookup returns after an insert, and that nothing is ever overwritten); it is interpreted here on
  the session store.
\<close>

section \<open>Data\<close>

datatype token_kind = Pii | Broker | Local

record revealed =
  rv_value :: string
  rv_secret_name :: "string option"

record store_entry =
  original_encrypted :: string
  nonce :: string
  kind :: token_kind
  secret_name :: "string option"
  expires_at :: "nat option"

record session_store =
  session_key :: string
  salt :: string
  token_map :: "(string \<times> store_entry) list"
  tombstoned :: "string set"
  tool_promoted :: "string set"
  os_draws :: nat

definition with_key_and_salt :: "string \<Rightarrow> string \<Rightarrow> session_store" where
  "with_key_and_salt k s =
     \<lparr>session_key = k, salt = s, token_map = [], tombstoned = {}, tool_promoted = {}, os_draws = 0\<rparr>"

text \<open>A fresh key is the first draw from the OS random source.\<close>

definition with_salt :: "prims \<Rightarrow> string \<Rightarrow> session_store" where
  "with_salt P s =
     \<lparr>session_key = os_rng P 0, salt = s, token_map = [], tombstoned = {}, tool_promoted = {},
      os_draws = 1\<rparr>"

definition store_new :: "prims \<Rightarrow> session_store" where
  "store_new P =
     \<lparr>session_key = os_rng P 0, salt = os_rng P 1, token_map = [], tombstoned = {},
      tool_promoted = {}, os_draws = 2\<rparr>"

section \<open>Encryption\<close>

definition encrypt :: "prims \<Rightarrow> string \<Rightarrow> session_store \<Rightarrow> (engine_error + string \<times> string) \<times> session_store" where
  "encrypt P value s =
     (let nonce_bytes = os_rng P (os_draws s); s' = s\<lparr>os_draws := Suc (os_draws s)\<rparr>
      in (case aes_seal P (session_key s) nonce_bytes value of
            None \<Rightarrow> Inl EncryptionFailed
          | Some ct \<Rightarrow> Inr (ct, nonce_bytes), s'))"

definition decrypt :: "prims \<Rightarrow> session_store \<Rightarrow> string \<Rightarrow> string \<Rightarrow> engine_error + string" where
  "decrypt P s ct nonce_bytes =
     (case aes_open P (session_key s) nonce_bytes ct of
        None \<Rightarrow> Inl DecryptionFailed
      | Some pt \<Rightarrow> if utf8_valid pt then Inr pt else Inl DecryptionFailed)"

section \<open>Interning\<close>

definition insert_if_absent ::
  "prims \<Rightarrow> string \<Rightarrow> string \<Rightarrow> token_kind \<Rightarrow> string option \<Rightarrow> nat option \<Rightarrow> session_store
   \<Rightarrow> (engine_error + unit) \<times> session_store" where
  "insert_if_absent P token plaintext k name expiry s =
     (if token \<in> tombstoned s \<or> map_of (token_map s) token \<noteq> None then (Inr (), s)
      else case encrypt P plaintext s of
        (Inl e, s') \<Rightarrow> (Inl e, s')
      | (Inr (ct, nb), s') \<Rightarrow>
          (Inr (), s'\<lparr>token_map :=
             (token, \<lparr>original_encrypted = ct, nonce = nb, kind = k, secret_name = name,
                      expires_at = expiry\<rparr>) # token_map s'\<rparr>))"

definition returning :: "'a \<Rightarrow> ('e + unit) \<times> 's \<Rightarrow> ('e + 'a) \<times> 's" where
  "returning x r = (case r of (Inl e, s) \<Rightarrow> (Inl e, s) | (Inr _, s) \<Rightarrow> (Inr x, s))"

definition intern :: "prims \<Rightarrow> string \<Rightarrow> string \<Rightarrow> session_store \<Rightarrow> (engine_error + string) \<times> session_store" where
  "intern P entity_type plaintext s =
     (let token = make_token P entity_type plaintext (salt s)
      in returning token (insert_if_absent P token plaintext Pii None None s))"

definition intern_fixed :: "prims \<Rightarrow> string \<Rightarrow> string \<Rightarrow> session_store \<Rightarrow> (engine_error + unit) \<times> session_store" where
  "intern_fixed P token plaintext s = insert_if_absent P token plaintext Pii None None s"

definition intern_broker ::
  "prims \<Rightarrow> nat \<Rightarrow> string \<Rightarrow> string \<Rightarrow> nat option \<Rightarrow> session_store \<Rightarrow> (engine_error + string) \<times> session_store" where
  "intern_broker P now name plaintext ttl s =
     (let entity = BROKER_PREFIX @ slugify name;
          token = make_token P entity plaintext (salt s);
          expiry = map_option (\<lambda>d. now + d) ttl
      in returning token (insert_if_absent P token plaintext Broker (Some name) expiry s))"

definition intern_local :: "prims \<Rightarrow> string \<Rightarrow> string \<Rightarrow> session_store \<Rightarrow> (engine_error + string) \<times> session_store" where
  "intern_local P name plaintext s =
     (let token = make_token P (slugify name) plaintext (salt s)
      in returning token (insert_if_absent P token plaintext Local None None s))"

section \<open>Revealing\<close>

definition live :: "nat \<Rightarrow> store_entry \<Rightarrow> bool" where
  "live now e = (case expires_at e of Some deadline \<Rightarrow> now < deadline | None \<Rightarrow> True)"

definition ok_option :: "'e + 'a \<Rightarrow> 'a option" where
  "ok_option r = (case r of Inl _ \<Rightarrow> None | Inr x \<Rightarrow> Some x)"

definition reveal :: "prims \<Rightarrow> nat \<Rightarrow> session_store \<Rightarrow> string \<Rightarrow> string option" where
  "reveal P now s token =
     (case map_of (token_map s) token of
        None \<Rightarrow> None
      | Some e \<Rightarrow> if kind e \<noteq> Pii \<or> \<not> live now e then None
                  else ok_option (decrypt P s (original_encrypted e) (nonce e)))"

definition reveal_for :: "prims \<Rightarrow> nat \<Rightarrow> session_store \<Rightarrow> string \<Rightarrow> token_kind \<Rightarrow> revealed option" where
  "reveal_for P now s token want =
     (case map_of (token_map s) token of
        None \<Rightarrow> None
      | Some e \<Rightarrow> if kind e \<noteq> want \<or> \<not> live now e then None
                  else map_option (\<lambda>v. \<lparr>rv_value = v, rv_secret_name = secret_name e\<rparr>)
                         (ok_option (decrypt P s (original_encrypted e) (nonce e))))"

definition class_of :: "nat \<Rightarrow> session_store \<Rightarrow> string \<Rightarrow> (token_kind \<times> string option) option" where
  "class_of now s token =
     (case map_of (token_map s) token of
        None \<Rightarrow> None
      | Some e \<Rightarrow> if live now e then Some (kind e, secret_name e) else None)"

text \<open>The order of a hash map's iteration is not fixed; the list is one such order.\<close>

definition local_pairs :: "prims \<Rightarrow> nat \<Rightarrow> session_store \<Rightarrow> (string \<times> string) list" where
  "local_pairs P now s =
     List.map_filter (\<lambda>(handle, e).
        if kind e = Local \<and> live now e
        then map_option (\<lambda>plain. (plain, handle)) (ok_option (decrypt P s (original_encrypted e) (nonce e)))
        else None) (token_map s)"

definition is_local :: "session_store \<Rightarrow> string \<Rightarrow> bool" where
  "is_local s token = (case map_of (token_map s) token of None \<Rightarrow> False | Some e \<Rightarrow> kind e = Local)"

section \<open>Promotion and deletion\<close>

definition promote :: "string \<Rightarrow> session_store \<Rightarrow> session_store" where
  "promote token s =
     (case map_of (token_map s) token of
        Some e \<Rightarrow> if kind e = Local then s\<lparr>tool_promoted := insert token (tool_promoted s)\<rparr> else s
      | None \<Rightarrow> s)"

definition is_tool_promoted :: "session_store \<Rightarrow> string \<Rightarrow> bool" where
  "is_tool_promoted s token \<longleftrightarrow> token \<in> tool_promoted s"

definition map_remove :: "string \<Rightarrow> (string \<times> 'v) list \<Rightarrow> (string \<times> 'v) list" where
  "map_remove k m = filter (\<lambda>(h, _). h \<noteq> k) m"

definition store_delete :: "string \<Rightarrow> session_store \<Rightarrow> bool \<times> session_store" where
  "store_delete token s =
     (map_of (token_map s) token \<noteq> None,
      s\<lparr>token_map := map_remove token (token_map s), tombstoned := insert token (tombstoned s)\<rparr>)"

definition tombstone :: "string \<Rightarrow> session_store \<Rightarrow> session_store" where
  "tombstone token s =
     s\<lparr>token_map := map_remove token (token_map s), tombstoned := insert token (tombstoned s)\<rparr>"

definition store_len :: "session_store \<Rightarrow> nat" where
  "store_len s = length (token_map s)"

section \<open>What the store relies on and keeps\<close>

text \<open>AES-256-GCM opens what it sealed under the same key and nonce.\<close>

definition seal_ok :: "prims \<Rightarrow> bool" where
  "seal_ok P \<longleftrightarrow> (\<forall>k n pt ct. aes_seal P k n pt = Some ct \<longrightarrow> aes_open P k n ct = Some pt)"

definition entry_plain :: "prims \<Rightarrow> session_store \<Rightarrow> store_entry \<Rightarrow> string option" where
  "entry_plain P s e = ok_option (decrypt P s (original_encrypted e) (nonce e))"

text \<open>
  Handles are unique, a tombstoned handle has no entry, every entry opens to valid UTF-8, exactly
  the broker entries carry a registered name, and only local or deleted handles are promoted.
\<close>

definition store_ok :: "prims \<Rightarrow> session_store \<Rightarrow> bool" where
  "store_ok P s \<longleftrightarrow>
     distinct (map fst (token_map s))
     \<and> (\<forall>h\<in>tombstoned s. map_of (token_map s) h = None)
     \<and> (\<forall>(h, e)\<in>set (token_map s). entry_plain P s e \<noteq> None \<and> (kind e = Broker \<longleftrightarrow> secret_name e \<noteq> None))
     \<and> (\<forall>h\<in>tool_promoted s. h \<in> tombstoned s \<or> is_local s h)"

lemma store_ok_new [simp]:
  "store_ok P (store_new P)" "store_ok P (with_salt P sl)" "store_ok P (with_key_and_salt k sl)"
  by (simp_all add: store_ok_def store_new_def with_salt_def with_key_and_salt_def)

lemma fresh_store [simp]:
  "token_map (store_new P) = []" "tombstoned (store_new P) = {}" "tool_promoted (store_new P) = {}"
  "token_map (with_key_and_salt k sl) = []" "tombstoned (with_key_and_salt k sl) = {}"
  by (simp_all add: store_new_def with_key_and_salt_def)

lemma map_of_remove: "map_of (map_remove k m) h = (if h = k then None else map_of m h)"
  by (induction m) (auto simp: map_remove_def)

lemma distinct_remove: "distinct (map fst m) \<Longrightarrow> distinct (map fst (map_remove k m))"
  by (simp add: map_remove_def distinct_map_filter)

lemma insert_cases [consumes 1, case_names Present Failed Added]:
  assumes "insert_if_absent P t pt k n x s = (r, s')"
  obtains "t \<in> tombstoned s \<or> map_of (token_map s) t \<noteq> None" "r = Inr ()" "s' = s"
  | "t \<notin> tombstoned s" "map_of (token_map s) t = None" "r = Inl EncryptionFailed"
      "s' = s\<lparr>os_draws := Suc (os_draws s)\<rparr>"
  | ct where "t \<notin> tombstoned s" "map_of (token_map s) t = None" "r = Inr ()"
      "aes_seal P (session_key s) (os_rng P (os_draws s)) pt = Some ct"
      "s' = s\<lparr>os_draws := Suc (os_draws s),
              token_map := (t, \<lparr>original_encrypted = ct, nonce = os_rng P (os_draws s), kind = k,
                               secret_name = n, expires_at = x\<rparr>) # token_map s\<rparr>"
proof (cases "t \<in> tombstoned s \<or> map_of (token_map s) t \<noteq> None")
  case True
  then have "insert_if_absent P t pt k n x s = (Inr (), s)" by (simp add: insert_if_absent_def)
  with assms have "r = Inr ()" "s' = s" by simp_all
  with True show ?thesis by (rule that(1))
next
  case False
  then have absent: "t \<notin> tombstoned s" "map_of (token_map s) t = None" by auto
  show ?thesis
  proof (cases "aes_seal P (session_key s) (os_rng P (os_draws s)) pt")
    case None
    with absent have "insert_if_absent P t pt k n x s = (Inl EncryptionFailed, s\<lparr>os_draws := Suc (os_draws s)\<rparr>)"
      by (simp add: insert_if_absent_def encrypt_def Let_def)
    with assms have "r = Inl EncryptionFailed" "s' = s\<lparr>os_draws := Suc (os_draws s)\<rparr>" by simp_all
    with absent show ?thesis by (rule that(2))
  next
    case (Some ct)
    let ?s = "s\<lparr>os_draws := Suc (os_draws s),
              token_map := (t, \<lparr>original_encrypted = ct, nonce = os_rng P (os_draws s), kind = k,
                               secret_name = n, expires_at = x\<rparr>) # token_map s\<rparr>"
    from Some absent have "insert_if_absent P t pt k n x s = (Inr (), ?s)"
      by (simp add: insert_if_absent_def encrypt_def Let_def)
    with assms have "r = Inr ()" "s' = ?s" by simp_all
    then show ?thesis by (rule that(3) [OF absent _ Some])
  qed
qed

lemma entry_plain_cong: "session_key s' = session_key s \<Longrightarrow> entry_plain P s' e = entry_plain P s e"
  by (simp add: entry_plain_def decrypt_def)

lemma entry_plain_update [simp]:
  "entry_plain P (s\<lparr>os_draws := d, token_map := m\<rparr>) e = entry_plain P s e"
  "entry_plain P (s\<lparr>token_map := m\<rparr>) e = entry_plain P s e"
  "entry_plain P (s\<lparr>token_map := m, tombstoned := T\<rparr>) e = entry_plain P s e"
  "entry_plain P (s\<lparr>tool_promoted := Q\<rparr>) e = entry_plain P s e"
  "entry_plain P (s\<lparr>os_draws := d\<rparr>) e = entry_plain P s e"
  by (simp_all add: entry_plain_def decrypt_def)

lemma sealed_plain:
  assumes "seal_ok P" "utf8_valid pt" "aes_seal P (session_key s) nb pt = Some ct"
  shows "entry_plain P s \<lparr>original_encrypted = ct, nonce = nb, kind = k, secret_name = n, expires_at = x\<rparr> = Some pt"
  using assms by (simp add: entry_plain_def decrypt_def seal_ok_def ok_option_def)

lemma insert_ok:
  assumes "insert_if_absent P t pt k n x s = (r, s')" "store_ok P s" "seal_ok P" "utf8_valid pt"
    "k = Broker \<longleftrightarrow> n \<noteq> None"
  shows "store_ok P s'"
  using assms(1)
proof (cases rule: insert_cases)
  case (Added ct)
  let ?e = "\<lparr>original_encrypted = ct, nonce = os_rng P (os_draws s), kind = k, secret_name = n, expires_at = x\<rparr>"
  have "entry_plain P s ?e = Some pt" using sealed_plain assms(3,4) Added(4) by blast
  moreover have "t \<notin> fst ` set (token_map s)" using Added(2) by (simp add: map_of_eq_None_iff)
  moreover have "is_local s' h" if "is_local s h" for h
    using that Added by (auto simp: is_local_def split: option.splits)
  ultimately show ?thesis
    using assms(2,5) Added unfolding store_ok_def by auto
qed (use assms(2) in \<open>auto simp: store_ok_def is_local_def entry_plain_def decrypt_def\<close>)

section \<open>The vault contract\<close>

fun put_all :: "('h \<Rightarrow> 'v \<Rightarrow> 's \<Rightarrow> 's option) \<Rightarrow> ('h \<times> 'v) list \<Rightarrow> 's \<Rightarrow> 's option" where
  "put_all put [] s = Some s"
| "put_all put ((h, v) # r) s = (case put h v s of None \<Rightarrow> None | Some s' \<Rightarrow> put_all put r s')"

locale token_vault =
  fixes inv :: "'s \<Rightarrow> bool"
    and valid :: "'v \<Rightarrow> bool"
    and get :: "'s \<Rightarrow> 'h \<Rightarrow> 'v option"
    and put :: "'h \<Rightarrow> 'v \<Rightarrow> 's \<Rightarrow> 's option"
    and dead :: "'s \<Rightarrow> 'h set"
  assumes put_inv: "inv s \<Longrightarrow> valid v \<Longrightarrow> put h v s = Some s' \<Longrightarrow> inv s'"
    and put_dead: "put h v s = Some s' \<Longrightarrow> dead s' = dead s"
    and get_put_new: "inv s \<Longrightarrow> valid v \<Longrightarrow> get s h = None \<Longrightarrow> h \<notin> dead s \<Longrightarrow> put h v s = Some s' \<Longrightarrow> get s' h = Some v"
    and get_put_kept: "inv s \<Longrightarrow> get s h = Some w \<Longrightarrow> put k v s = Some s' \<Longrightarrow> get s' h = Some w"
    and get_put_other: "inv s \<Longrightarrow> h \<noteq> k \<Longrightarrow> put k v s = Some s' \<Longrightarrow> get s' h = get s h"
    and get_dead: "inv s \<Longrightarrow> h \<in> dead s \<Longrightarrow> get s h = None"
begin

lemma put_all_inv: "inv s \<Longrightarrow> \<forall>(h, v)\<in>set l. valid v \<Longrightarrow> put_all put l s = Some s' \<Longrightarrow> inv s' \<and> dead s' = dead s"
proof (induction l arbitrary: s)
  case (Cons a l)
  obtain k v where a: "a = (k, v)" by force
  with Cons.prems obtain s1 where s1: "put k v s = Some s1" "put_all put l s1 = Some s'"
    by (auto split: option.splits)
  have "inv s1" using put_inv [OF Cons.prems(1) _ s1(1)] Cons.prems(2) a by simp
  then have "inv s' \<and> dead s' = dead s1" using Cons.IH [OF _ _ s1(2)] Cons.prems(2) a by simp
  with put_dead [OF s1(1)] show ?case by simp
qed simp

lemma put_all_kept:
  "inv s \<Longrightarrow> \<forall>(h, v)\<in>set l. valid v \<Longrightarrow> get s h = Some w \<Longrightarrow> put_all put l s = Some s' \<Longrightarrow> get s' h = Some w"
proof (induction l arbitrary: s)
  case (Cons a l)
  then show ?case by (cases a) (auto split: option.splits dest: put_inv get_put_kept)
qed simp

lemma put_all_other:
  "inv s \<Longrightarrow> \<forall>(h, v)\<in>set l. valid v \<Longrightarrow> h \<notin> fst ` set l \<Longrightarrow> put_all put l s = Some s' \<Longrightarrow> get s' h = get s h"
proof (induction l arbitrary: s)
  case (Cons a l)
  obtain k v where a: "a = (k, v)" by force
  with Cons.prems obtain s1 where s1: "put k v s = Some s1" "put_all put l s1 = Some s'"
    by (auto split: option.splits)
  have "inv s1" using put_inv [OF Cons.prems(1) _ s1(1)] Cons.prems(2) a by simp
  then have "get s' h = get s1 h" using Cons.IH [OF _ _ _ s1(2)] Cons.prems(2,3) a by simp
  also have "\<dots> = get s h" using get_put_other [OF Cons.prems(1) _ s1(1), of h] Cons.prems(3) a by auto
  finally show ?case .
qed simp

text \<open>Whatever was put under a handle answers afterwards, if every put to that handle agrees.\<close>

lemma put_all_get:
  assumes "inv s" "\<forall>(h, v)\<in>set l. valid v" "put_all put l s = Some s'"
    and "(h, v) \<in> set l" "h \<notin> dead s" "get s h = None \<or> get s h = Some v"
    and "\<And>v'. (h, v') \<in> set l \<Longrightarrow> v' = v"
  shows "get s' h = Some v"
  using assms
proof (induction l arbitrary: s)
  case (Cons a l)
  obtain k u where a: "a = (k, u)" by force
  from Cons.prems(3) a obtain s1 where s1: "put k u s = Some s1" "put_all put l s1 = Some s'"
    by (auto split: option.splits)
  have val: "\<forall>(h, v)\<in>set l. valid v" "valid u" using Cons.prems(2) a by auto
  have inv1: "inv s1" using put_inv Cons.prems(1) val s1 by blast
  show ?case
  proof (cases "k = h")
    case True
    have "u = v" by (rule Cons.prems(7)) (use a True in simp)
    have "get s1 h = Some v"
    proof (cases "get s h")
      case None
      with get_put_new [OF Cons.prems(1) val(2)] s1(1) True \<open>u = v\<close> Cons.prems(5) show ?thesis by blast
    next
      case (Some w)
      with get_put_kept [OF Cons.prems(1) _ s1(1)] Cons.prems(6) show ?thesis by auto
    qed
    then show ?thesis using put_all_kept inv1 val s1 by blast
  next
    case False
    have "get s1 h = get s h" using get_put_other [OF Cons.prems(1) _ s1(1)] False by simp
    with Cons.prems(6) have gs: "get s1 h = None \<or> get s1 h = Some v" by simp
    have nd: "h \<notin> dead s1" using put_dead [OF s1(1)] Cons.prems(5) by simp
    have mem: "(h, v) \<in> set l" using Cons.prems(4) a False by simp
    have agree: "v' = v" if "(h, v') \<in> set l" for v'
      by (rule Cons.prems(7)) (simp add: that)
    show ?thesis by (rule Cons.IH [OF inv1 val(1) s1(2) mem nd gs agree])
  qed
qed simp

end

section \<open>The session store is a vault\<close>

type_synonym vault_value = "string \<times> token_kind \<times> string option \<times> nat option"

definition vault_get :: "prims \<Rightarrow> session_store \<Rightarrow> string \<Rightarrow> vault_value option" where
  "vault_get P s h =
     (case map_of (token_map s) h of
        None \<Rightarrow> None
      | Some e \<Rightarrow> map_option (\<lambda>pt. (pt, kind e, secret_name e, expires_at e)) (entry_plain P s e))"

definition vault_put :: "prims \<Rightarrow> string \<Rightarrow> vault_value \<Rightarrow> session_store \<Rightarrow> session_store option" where
  "vault_put P h v s =
     (case v of (pt, k, n, x) \<Rightarrow>
        (case insert_if_absent P h pt k n x s of (Inl _, _) \<Rightarrow> None | (Inr _, s') \<Rightarrow> Some s'))"

fun vault_valid :: "vault_value \<Rightarrow> bool" where
  "vault_valid (pt, k, n, x) \<longleftrightarrow> utf8_valid pt \<and> (k = Broker \<longleftrightarrow> n \<noteq> None)"

lemma vault_put_Some:
  "vault_put P h (pt, k, n, x) s = Some s' \<longleftrightarrow> insert_if_absent P h pt k n x s = (Inr (), s')"
  by (auto simp: vault_put_def split: prod.splits sum.splits)

lemma store_get_Some:
  assumes "store_ok P s" "map_of (token_map s) h = Some e"
  shows "\<exists>pt. entry_plain P s e = Some pt"
  using assms map_of_SomeD unfolding store_ok_def by fastforce

interpretation vault: token_vault
  "\<lambda>s. seal_ok P \<and> store_ok P s" vault_valid "vault_get P" "vault_put P" tombstoned for P
proof unfold_locales
  fix s :: session_store and v :: vault_value and h s'
  assume "seal_ok P \<and> store_ok P s" "vault_valid v" "vault_put P h v s = Some s'"
  then show "seal_ok P \<and> store_ok P s'"
    by (cases v) (auto simp: vault_put_Some dest: insert_ok)
next
  fix h v s s' assume "vault_put P h v s = Some s'"
  then show "tombstoned s' = tombstoned s"
    by (cases v) (auto simp: vault_put_Some elim: insert_cases)
next
  fix s v h s'
  assume a: "seal_ok P \<and> store_ok P s" "vault_valid v" "vault_get P s h = None" "h \<notin> tombstoned s"
    "vault_put P h v s = Some s'"
  obtain pt k n x where v: "v = (pt, k, n, x)" by (cases v)
  have absent: "map_of (token_map s) h = None"
    using a(1,3) store_get_Some by (fastforce simp: vault_get_def split: option.splits)
  from a(5) v have "insert_if_absent P h pt k n x s = (Inr (), s')" by (simp add: vault_put_Some)
  then show "vault_get P s' h = Some v"
  proof (cases rule: insert_cases)
    case (Added ct)
    with Added sealed_plain a(1,2) v show ?thesis by (simp add: vault_get_def)
  qed (use absent a(4) in auto)
next
  fix s h w k v s'
  assume a: "seal_ok P \<and> store_ok P s" "vault_get P s h = Some w" "vault_put P k v s = Some s'"
  obtain pt kd n x where v: "v = (pt, kd, n, x)" by (cases v)
  from a(3) v have "insert_if_absent P k pt kd n x s = (Inr (), s')" by (simp add: vault_put_Some)
  then show "vault_get P s' h = Some w"
  proof (cases rule: insert_cases)
    case (Added ct)
    with Added a(2) show ?thesis by (auto simp: vault_get_def split: option.splits)
  qed (use a(2) in auto)
next
  fix s h k v s'
  assume a: "seal_ok P \<and> store_ok P s" "h \<noteq> k" "vault_put P k v s = Some s'"
  obtain pt kd n x where v: "v = (pt, kd, n, x)" by (cases v)
  from a(3) v have "insert_if_absent P k pt kd n x s = (Inr (), s')" by (simp add: vault_put_Some)
  then show "vault_get P s' h = vault_get P s h"
  proof (cases rule: insert_cases)
    case (Added ct)
    with Added a(2) show ?thesis by (simp add: vault_get_def split: option.split)
  qed auto
next
  fix s h assume "seal_ok P \<and> store_ok P s" "h \<in> tombstoned s"
  then show "vault_get P s h = None" by (simp add: vault_get_def store_ok_def)
qed

text \<open>The reveals read the vault.\<close>

lemma reveal_vault:
  "reveal P now s t =
     (case vault_get P s t of
        Some (pt, Pii, n, x) \<Rightarrow> if (case x of None \<Rightarrow> True | Some d \<Rightarrow> now < d) then Some pt else None
      | _ \<Rightarrow> None)"
  by (simp add: reveal_def vault_get_def live_def entry_plain_def split: option.split token_kind.split)

lemma reveal_for_vault:
  "reveal_for P now s t w =
     (case vault_get P s t of
        Some (pt, k, n, x) \<Rightarrow>
          if k = w \<and> (case x of None \<Rightarrow> True | Some d \<Rightarrow> now < d)
          then Some \<lparr>rv_value = pt, rv_secret_name = n\<rparr> else None
      | None \<Rightarrow> None)"
  by (simp add: reveal_for_def vault_get_def live_def entry_plain_def split: option.split)

section \<open>The store as a state machine\<close>

text \<open>One step is one call of a mutating operation, with any arguments and at any time.\<close>

inductive store_step :: "prims \<Rightarrow> session_store \<Rightarrow> session_store \<Rightarrow> bool" for P where
  step_intern: "utf8_valid p \<Longrightarrow> intern P e p s = (r, s') \<Longrightarrow> store_step P s s'"
| step_fixed: "utf8_valid p \<Longrightarrow> intern_fixed P t p s = (u, s') \<Longrightarrow> store_step P s s'"
| step_broker: "utf8_valid p \<Longrightarrow> intern_broker P now n p ttl s = (r, s') \<Longrightarrow> store_step P s s'"
| step_local: "utf8_valid p \<Longrightarrow> intern_local P n p s = (r, s') \<Longrightarrow> store_step P s s'"
| step_promote: "store_step P s (promote t s)"
| step_delete: "store_delete t s = (b, s') \<Longrightarrow> store_step P s s'"
| step_tombstone: "store_step P s (tombstone t s)"

text \<open>Every interning step is one insertion.\<close>

lemma returning_snd: "returning x r = (q, s') \<Longrightarrow> \<exists>u. r = (u, s')"
  by (auto simp: returning_def split: prod.splits sum.splits)

lemma store_step_cases [consumes 1, case_names Insert Promote Bury]:
  assumes "store_step P s s'"
  obtains t p k n x u where "insert_if_absent P t p k n x s = (u, s')" "utf8_valid p" "k = Broker \<longleftrightarrow> n \<noteq> None"
  | t where "s' = promote t s"
  | t where "s' = tombstone t s"
  using assms
proof cases
  case (step_intern p e r)
  from returning_snd [OF step_intern(2) [unfolded intern_def Let_def]]
  obtain u where "insert_if_absent P (make_token P e p (salt s)) p Pii None None s = (u, s')"
    by blast
  then show ?thesis by (rule that(1)) (simp_all add: step_intern(1))
next
  case (step_fixed p t u)
  with that(1) [of t p Pii None None u] show ?thesis by (simp add: intern_fixed_def)
next
  case (step_broker p now n ttl r)
  from returning_snd [OF step_broker(2) [unfolded intern_broker_def Let_def]]
  obtain u where "insert_if_absent P (make_token P (BROKER_PREFIX @ slugify n) p (salt s)) p Broker (Some n)
      (map_option (\<lambda>d. now + d) ttl) s = (u, s')"
    by blast
  then show ?thesis by (rule that(1)) (simp_all add: step_broker(1))
next
  case (step_local p n r)
  from returning_snd [OF step_local(2) [unfolded intern_local_def Let_def]]
  obtain u where "insert_if_absent P (make_token P (slugify n) p (salt s)) p Local None None s = (u, s')"
    by blast
  then show ?thesis by (rule that(1)) (simp_all add: step_local(1))
next
  case (step_promote t)
  then show ?thesis by (rule that(2))
next
  case (step_delete t b)
  then have "s' = tombstone t s" by (simp add: store_delete_def tombstone_def)
  then show ?thesis by (rule that(3))
next
  case (step_tombstone t)
  then show ?thesis by (rule that(3))
qed

lemma promote_ok: "store_ok P s \<Longrightarrow> store_ok P (promote t s)"
  by (auto simp: store_ok_def promote_def is_local_def split: option.splits)

lemma tombstone_ok:
  assumes "store_ok P s"
  shows "store_ok P (tombstone t s)"
proof -
  have "is_local (tombstone t s) h \<or> h = t" if "is_local s h" for h
    using that by (auto simp: is_local_def tombstone_def map_of_remove split: option.splits)
  then have "\<forall>h\<in>tool_promoted s. h = t \<or> h \<in> tombstoned s \<or> is_local (tombstone t s) h"
    using assms unfolding store_ok_def by blast
  moreover have "x \<in> set (map_remove t m) \<Longrightarrow> x \<in> set m" for m :: "(string \<times> store_entry) list" and x
    by (auto simp: map_remove_def)
  ultimately show ?thesis
    using assms unfolding store_ok_def
    by (simp add: tombstone_def map_of_remove distinct_remove)
qed

lemma store_step_ok: "store_step P s s' \<Longrightarrow> seal_ok P \<Longrightarrow> store_ok P s \<Longrightarrow> store_ok P s'"
  by (auto elim!: store_step_cases intro: insert_ok promote_ok tombstone_ok)

lemma store_step_tombstoned:
  assumes "store_step P s s'"
  shows "tombstoned s \<subseteq> tombstoned s'"
  using assms
proof (cases rule: store_step_cases)
  case (Insert t p k n x u)
  from Insert(1) show ?thesis by (cases rule: insert_cases) auto
qed (auto simp: promote_def tombstone_def split: option.split)

lemma store_step_entry:
  assumes "store_step P s s'" "map_of (token_map s) t = Some e"
  shows "map_of (token_map s') t = Some e \<or> t \<in> tombstoned s'"
  using assms(1)
proof (cases rule: store_step_cases)
  case (Insert t p k n x u)
  from Insert(1) show ?thesis by (cases rule: insert_cases) (use assms(2) in auto)
qed (use assms(2) in \<open>auto simp: promote_def tombstone_def map_of_remove split: option.split\<close>)

lemma store_step_key:
  assumes "store_step P s s'"
  shows "session_key s' = session_key s \<and> salt s' = salt s"
  using assms
proof (cases rule: store_step_cases)
  case (Insert t p k n x u)
  from Insert(1) show ?thesis by (cases rule: insert_cases) auto
qed (auto simp: promote_def tombstone_def split: option.split)

lemma store_run_ok:
  "(store_step P)\<^sup>*\<^sup>* s s' \<Longrightarrow> seal_ok P \<Longrightarrow> store_ok P s \<Longrightarrow> store_ok P s' \<and> tombstoned s \<subseteq> tombstoned s'"
  by (induction rule: rtranclp_induct) (use store_step_ok store_step_tombstoned in blast)+

lemma store_run_entry:
  assumes "(store_step P)\<^sup>*\<^sup>* s s'" "seal_ok P" "store_ok P s" "vault_get P s t = Some v"
  shows "vault_get P s' t = Some v \<or> t \<in> tombstoned s'"
  using assms
proof (induction rule: rtranclp_induct)
  case (step y z)
  from step.IH step.prems consider "vault_get P y t = Some v" | "t \<in> tombstoned y" by blast
  then show ?case
  proof cases
    case 1
    then obtain e where "map_of (token_map y) t = Some e" by (auto simp: vault_get_def split: option.splits)
    with store_step_entry [OF step.hyps(2)] have "map_of (token_map z) t = Some e \<or> t \<in> tombstoned z" by blast
    moreover have "entry_plain P z e = entry_plain P y e"
      using store_step_key [OF step.hyps(2)] by (intro entry_plain_cong) simp
    ultimately show ?thesis using 1 \<open>map_of (token_map y) t = Some e\<close> by (auto simp: vault_get_def)
  qed (use store_step_tombstoned [OF step.hyps(2)] in blast)
qed simp

lemma tombstoned_hidden:
  assumes "store_ok P s" "t \<in> tombstoned s"
  shows "reveal P now s t = None" "reveal_for P now s t k = None" "class_of now s t = None" "\<not> is_local s t"
  using assms by (simp_all add: store_ok_def reveal_def reveal_for_def class_of_def is_local_def)

section \<open>Interning and revealing\<close>

lemma returning_Inr: "returning t r = (Inr t', s') \<longleftrightarrow> t' = t \<and> (\<exists>u. r = (Inr u, s'))"
  by (auto simp: returning_def split: prod.splits sum.splits)

lemma insert_again:
  assumes "insert_if_absent P t pt k n x s = (Inr (), s')"
  shows "insert_if_absent P t pt' k' n' x' s' = (Inr (), s')"
proof -
  have "t \<in> tombstoned s' \<or> map_of (token_map s') t \<noteq> None"
    using assms by (cases rule: insert_cases) auto
  then show ?thesis by (simp add: insert_if_absent_def)
qed

lemma insert_vault_get:
  assumes "insert_if_absent P t pt k n x s = (Inr (), s')" "seal_ok P" "store_ok P s" "utf8_valid pt"
    "k = Broker \<longleftrightarrow> n \<noteq> None" "t \<notin> tombstoned s" "vault_get P s t = None \<or> vault_get P s t = Some (pt, k, n, x)"
  shows "vault_get P s' t = Some (pt, k, n, x)"
  using vault.put_all_get [of P s "[(t, (pt, k, n, x))]" s' t "(pt, k, n, x)"] assms
  by (simp add: vault_put_Some [THEN iffD2])

lemma vault_get_absent: "store_ok P s \<Longrightarrow> map_of (token_map s) t = None \<Longrightarrow> vault_get P s t = None"
  by (simp add: vault_get_def)

lemma intern_insert:
  "intern P e p s = (Inr t, s') \<Longrightarrow> t = make_token P e p (salt s) \<and> insert_if_absent P t p Pii None None s = (Inr (), s')"
  by (auto simp: intern_def Let_def returning_Inr)

lemma intern_broker_insert:
  "intern_broker P now n p ttl s = (Inr t, s') \<Longrightarrow>
   t = make_token P (BROKER_PREFIX @ slugify n) p (salt s)
   \<and> insert_if_absent P t p Broker (Some n) (map_option (\<lambda>d. now + d) ttl) s = (Inr (), s')"
  by (auto simp: intern_broker_def Let_def returning_Inr)

lemma intern_local_insert:
  "intern_local P n p s = (Inr t, s') \<Longrightarrow>
   t = make_token P (slugify n) p (salt s) \<and> insert_if_absent P t p Local None None s = (Inr (), s')"
  by (auto simp: intern_local_def Let_def returning_Inr)

lemma insert_salt: "insert_if_absent P t p k n x s = (r, s') \<Longrightarrow> salt s' = salt s \<and> session_key s' = session_key s"
  by (erule insert_cases) simp_all

lemma sample_prims_ok [simp]: "digest_ok sample_prims" "seal_ok sample_prims"
  by (rule sample_digest_ok) (auto simp: seal_ok_def sample_prims_def)

section \<open>Properties of the store\<close>

text \<open>
  Interning a value and revealing the returned token gives the value back, at any later time;
  interning the same value again returns the same token and leaves the store as it is; the token
  never answers as a broker or local token. The handle must not be deleted, and an entry already
  under it must be this value's (no 48-bit collision).
\<close>

theorem intern_reveal:
  assumes "seal_ok P" "store_ok P s" "utf8_valid p" "intern P e p s = (Inr t, s')"
    and "t \<notin> tombstoned s" "map_of (token_map s) t = None \<or> vault_get P s t = Some (p, Pii, None, None)"
  shows "reveal P now s' t = Some p \<and> intern P e p s' = (Inr t, s')
    \<and> reveal_for P now s' t Broker = None \<and> \<not> is_local s' t \<and> store_ok P s'"
proof (intro conjI)
  note i = intern_insert [OF assms(4)]
  have "vault_get P s t = None \<or> vault_get P s t = Some (p, Pii, None, None)"
    using assms(2,6) vault_get_absent by blast
  with i assms have g: "vault_get P s' t = Some (p, Pii, None, None)"
    by (intro insert_vault_get [of P t p Pii None None s s']) auto
  show "reveal P now s' t = Some p" "reveal_for P now s' t Broker = None"
    by (simp_all add: reveal_vault reveal_for_vault g)
  show "\<not> is_local s' t"
    using g by (auto simp: vault_get_def is_local_def split: option.splits)
  show "store_ok P s'" using i assms insert_ok by blast
  have "salt s' = salt s" using i insert_salt by blast
  with i have "insert_if_absent P t p Pii None None s' = (Inr (), s')" using insert_again by blast
  with i \<open>salt s' = salt s\<close> show "intern P e p s' = (Inr t, s')"
    by (simp add: intern_def Let_def returning_Inr)
qed

lemma intern_reveal_witness:
  "\<exists>s'. intern sample_prims ''email_address'' ''a@b.c'' (store_new sample_prims)
          = (Inr ''[EMAIL_ADDRESS_632e6240613a]'', s')
        \<and> reveal sample_prims 7 s' ''[EMAIL_ADDRESS_632e6240613a]'' = Some ''a@b.c''"
proof -
  let ?t = "''[EMAIL_ADDRESS_632e6240613a]''"
  have "fst (intern sample_prims ''email_address'' ''a@b.c'' (store_new sample_prims)) = Inr ?t"
    by code_simp
  then obtain s' where s': "intern sample_prims ''email_address'' ''a@b.c'' (store_new sample_prims) = (Inr ?t, s')"
    by (metis prod.collapse)
  have "reveal sample_prims 7 s' ?t = Some ''a@b.c''"
  proof (rule intern_reveal [OF _ _ _ s', THEN conjunct1])
    show "utf8_valid ''a@b.c''" by code_simp
  qed simp_all
  with s' show ?thesis by blast
qed

text \<open>
  A broker token answers only the broker gate: the display reveal refuses it at every time, the
  broker reveal gives the value with the exact registered name until the TTL deadline and nothing
  from then on, and its handle carries the broker prefix.
\<close>

theorem intern_broker_gated:
  assumes "seal_ok P" "store_ok P s" "utf8_valid p" "intern_broker P now n p ttl s = (Inr t, s')"
    and "t \<notin> tombstoned s" "map_of (token_map s) t = None"
  shows "(\<forall>later. reveal P later s' t = None \<and> reveal_for P later s' t Pii = None
            \<and> reveal_for P later s' t Local = None)
    \<and> (\<forall>later. reveal_for P later s' t Broker =
          (if (case ttl of None \<Rightarrow> True | Some d \<Rightarrow> later < now + d)
           then Some \<lparr>rv_value = p, rv_secret_name = Some n\<rparr> else None))
    \<and> is_broker_token t \<and> store_ok P s'"
proof (intro conjI)
  note i = intern_broker_insert [OF assms(4)]
  let ?v = "(p, Broker, Some n, map_option (\<lambda>d. now + d) ttl)"
  have g: "vault_get P s' t = Some ?v"
    using insert_vault_get [OF i [THEN conjunct2] assms(1,2,3)] assms(2,5,6) vault_get_absent by blast
  show "\<forall>later. reveal P later s' t = None \<and> reveal_for P later s' t Pii = None
            \<and> reveal_for P later s' t Local = None"
    by (simp add: reveal_vault reveal_for_vault g)
  show "\<forall>later. reveal_for P later s' t Broker =
          (if (case ttl of None \<Rightarrow> True | Some d \<Rightarrow> later < now + d)
           then Some \<lparr>rv_value = p, rv_secret_name = Some n\<rparr> else None)"
    by (simp add: reveal_for_vault g split: option.split)
  show "is_broker_token t" using i is_broker_mint by simp
  show "store_ok P s'" using i assms insert_ok by blast
qed

lemma intern_broker_gated_witness:
  "\<exists>t s'. intern_broker sample_prims 10 ''db password'' ''hunter2'' (Some 5) (store_new sample_prims) = (Inr t, s')
     \<and> reveal sample_prims 11 s' t = None
     \<and> reveal_for sample_prims 14 s' t Broker = Some \<lparr>rv_value = ''hunter2'', rv_secret_name = Some ''db password''\<rparr>
     \<and> reveal_for sample_prims 15 s' t Broker = None"
proof -
  let ?i = "intern_broker sample_prims 10 ''db password'' ''hunter2'' (Some 5) (store_new sample_prims)"
  have "is_ok (fst ?i)" by code_simp
  then obtain t s' where i: "?i = (Inr t, s')" by (cases ?i) auto
  have v: "utf8_valid ''hunter2''" by code_simp
  show ?thesis
    using intern_broker_gated [OF _ _ v i] i by auto
qed

text \<open>
  Deletion is permanent: after a delete or a replayed tombstone, no sequence of store calls
  makes the handle answer again, on any path and at any time.
\<close>

theorem tombstone_permanent:
  assumes "seal_ok P" "store_ok P s" "(store_step P)\<^sup>*\<^sup>* (tombstone t s) s'"
  shows "reveal P now s' t = None \<and> reveal_for P now s' t k = None \<and> class_of now s' t = None
    \<and> \<not> is_local s' t \<and> (\<forall>pt k n x. insert_if_absent P t pt k n x s' = (Inr (), s'))"
proof -
  have "store_ok P s'" "t \<in> tombstoned s'"
    using store_run_ok [OF assms(3,1) tombstone_ok [OF assms(2)]] by (auto simp: tombstone_def)
  then show ?thesis using tombstoned_hidden by (simp add: insert_if_absent_def)
qed

lemma tombstone_permanent_witness:
  "reveal sample_prims 3
     (snd (intern_fixed sample_prims ''[X]'' ''v'' (tombstone ''[X]'' (store_new sample_prims)))) ''[X]'' = None"
proof -
  have v: "utf8_valid ''v''" by code_simp
  let ?r = "intern_fixed sample_prims ''[X]'' ''v'' (tombstone ''[X]'' (store_new sample_prims))"
  have "store_step sample_prims (tombstone ''[X]'' (store_new sample_prims)) (snd ?r)"
    by (rule step_fixed [OF v]) (rule prod.collapse [symmetric])
  then have "(store_step sample_prims)\<^sup>*\<^sup>* (tombstone ''[X]'' (store_new sample_prims)) (snd ?r)"
    by (rule r_into_rtranclp)
  then show ?thesis using tombstone_permanent [of sample_prims "store_new sample_prims"] by simp
qed

text \<open>
  Nothing is overwritten: from a fresh store, whatever calls follow, a handle that once
  answered keeps its value, kind, registered name and deadline until it is deleted, and every
  store on the way keeps the store invariant.
\<close>

theorem store_history:
  assumes "seal_ok P" "(store_step P)\<^sup>*\<^sup>* (store_new P) s" "vault_get P s t = Some v"
    and "(store_step P)\<^sup>*\<^sup>* s s'"
  shows "store_ok P s' \<and> (vault_get P s' t = Some v \<or> (t \<in> tombstoned s' \<and> vault_get P s' t = None))"
proof -
  have s: "store_ok P s" using store_run_ok [OF assms(2,1)] by simp
  then have s': "store_ok P s'" using store_run_ok [OF assms(4,1)] by simp
  have "vault_get P s' t = Some v \<or> t \<in> tombstoned s'"
    using store_run_entry [OF assms(4,1) s assms(3)] .
  with s' vault.get_dead [of P s' t] assms(1) show ?thesis by blast
qed

lemma store_history_witness:
  "\<exists>s v. vault_get sample_prims s ''[X]'' = Some v \<and> store_ok sample_prims (tombstone ''[X]'' s)
     \<and> vault_get sample_prims (promote ''[X]'' s) ''[X]'' = Some v"
proof -
  let ?s = "snd (intern_fixed sample_prims ''[X]'' ''v'' (store_new sample_prims))"
  have v: "utf8_valid ''v''" by code_simp
  have "store_step sample_prims (store_new sample_prims) ?s"
    by (rule step_fixed [OF v]) (rule prod.collapse [symmetric])
  then have run: "(store_step sample_prims)\<^sup>*\<^sup>* (store_new sample_prims) ?s" by (rule r_into_rtranclp)
  have g: "vault_get sample_prims ?s ''[X]'' = Some (''v'', Pii, None, None)" by code_simp
  note h = store_history [OF sample_prims_ok(2) run g r_into_rtranclp]
  have "''[X]'' \<notin> tombstoned (promote ''[X]'' ?s)" by code_simp
  with h [OF step_promote] h [OF step_tombstone] g show ?thesis by blast
qed

end
