(* ===== verification/Mask_Apply.thy ===== *)
theory Mask_Apply
  imports Detection Session_Store
begin

text \<open>
  The splice side of \<open>lib.rs\<close>: character-boundary snapping, the \<open>Mask\<close> operator, the user-bypass
  segments and \<open>apply\<close>, which mints or renders each detection back to front, builds the per-call
  manifest and fills the session store. A broker token is minted without a TTL, so no clock is read.

  \<open>apply_spec\<close> gives \<open>apply\<close> in closed form: text and manifest are functions of the salt, the
  configuration and the detections, and the store is the fold of the vault's \<open>put\<close> over what was
  minted, so the lemmas of \<open>token_vault\<close> speak about it.
\<close>

section \<open>Operations\<close>

fun snap_down :: "string \<Rightarrow> nat \<Rightarrow> nat" where
  "snap_down t 0 = 0"
| "snap_down t (Suc n) = (if is_boundary t (Suc n) then Suc n else snap_down t n)"

function snap_up :: "string \<Rightarrow> nat \<Rightarrow> nat" where
  "snap_up t e = (if e < length t \<and> \<not> is_boundary t e then snap_up t (Suc e) else e)"
  by pat_completeness auto
termination by (relation "measure (\<lambda>(t, e). length t - e)") auto

declare snap_up.simps [simp del]

definition snap_to_char_boundary :: "string \<Rightarrow> nat \<Rightarrow> nat \<Rightarrow> nat \<times> nat" where
  "snap_to_char_boundary t start stop =
     (let s = min start (length t); e = max (min stop (length t)) s in (snap_down t s, snap_up t e))"

definition mask_value :: "string \<Rightarrow> string \<Rightarrow> nat \<Rightarrow> string" where
  "mask_value s ch from_end =
     (let chars = utf8_chars s; n = length chars; keep = min from_end n
      in concat (replicate (n - keep) ch) @ concat (drop (n - keep) chars))"

datatype bypass_segment = MaskSeg string | BypassSeg string

text \<open>The argument is the text from the cursor on; the last segment is the rest.\<close>

function bypass_loop :: "string \<Rightarrow> bypass_segment list" where
  "bypass_loop t =
     (case str_find ''>>'' t of
        None \<Rightarrow> [MaskSeg t]
      | Some i \<Rightarrow>
          (let inner = drop (i + 2) t in
           case str_find ''<<'' inner of
             None \<Rightarrow> [MaskSeg t]
           | Some j \<Rightarrow> MaskSeg (take i t) # BypassSeg (take j inner) # bypass_loop (drop (j + 2) inner)))"
  by pat_completeness auto
termination
proof (relation "measure length")
  fix t i inner j assume "str_find ''>>'' t = Some i" "inner = drop (i + 2) t"
  then show "(drop (j + 2) inner, t) \<in> measure length" using str_find_Some [of "''>>''" t i] by auto
qed simp

declare bypass_loop.simps [simp del]

definition user_bypass_segments :: "string \<Rightarrow> bypass_segment list option" where
  "user_bypass_segments t =
     (case bypass_loop t of [] \<Rightarrow> None | [_] \<Rightarrow> None | segs \<Rightarrow> Some segs)"

section \<open>Apply\<close>

definition minted ::
  "surface \<Rightarrow> cached_detection \<Rightarrow> nat \<Rightarrow> string \<Rightarrow> token_kind \<Rightarrow> (engine_error + string) \<times> session_store
   \<Rightarrow> (engine_error + (string \<times> manifest_entry option) option) \<times> session_store" where
  "minted surface d a s k r =
     (case r of
        (Inl e, st) \<Rightarrow> (Inl e, st)
      | (Inr tok, st) \<Rightarrow>
          (Inr (Some (tok, Some \<lparr>canonical_form = s, token_handle = tok, entity_kind = d_entity d,
               arrow_origin = surface, exposed_at = Some (a, a + length tok), broker = (k = Broker),
               local = (k = Local)\<rparr>)), st))"

text \<open>No replacement (\<open>Keep\<close>), or the replacement and the manifest entry it pushes.\<close>

definition render_op ::
  "prims \<Rightarrow> engine_config \<Rightarrow> surface \<Rightarrow> string \<Rightarrow> cached_detection \<Rightarrow> nat \<Rightarrow> string \<Rightarrow> session_store
   \<Rightarrow> (engine_error + (string \<times> manifest_entry option) option) \<times> session_store" where
  "render_op P c surface sl d a s st =
     (case resolve_operator c d of
        OpKeep \<Rightarrow> (Inr None, st)
      | OpRedact \<Rightarrow> (Inr (Some (''[REDACTED]'', None)), st)
      | OpMask ch n \<Rightarrow> (Inr (Some (mask_value s ch n, None)), st)
      | OpHash \<Rightarrow>
          (Inr (Some (if d_secret_op d \<noteq> None then make_hash_token P (d_entity d) s sl
                      else hash_value P (d_entity d) s, None)), st)
      | OpToken \<Rightarrow>
          minted surface d a s Pii
            (case d_fixed_token d of
               Some fixed \<Rightarrow> returning fixed (intern_fixed P fixed s st)
             | None \<Rightarrow> intern P (d_entity d) s st)
      | OpLocal \<Rightarrow> minted surface d a s Local (intern_local P (d_entity d) s st)
      | OpBroker \<Rightarrow> minted surface d a s Broker (intern_broker P 0 (d_entity d) s None st))"

fun apply_loop ::
  "prims \<Rightarrow> engine_config \<Rightarrow> surface \<Rightarrow> string \<Rightarrow> string \<Rightarrow> cached_detection list \<Rightarrow> string \<Rightarrow> unmask_manifest
   \<Rightarrow> session_store \<Rightarrow> (engine_error + string \<times> unmask_manifest) \<times> session_store" where
  "apply_loop P c surface sl t [] out man st = (Inr (out, man), st)"
| "apply_loop P c surface sl t (d # ds) out man st =
     (case snap_to_char_boundary t (d_start d) (d_end d) of (a, b) \<Rightarrow>
        (case render_op P c surface sl d a (slice t a b) st of
           (Inl e, st') \<Rightarrow> (Inl e, st')
         | (Inr None, st') \<Rightarrow> apply_loop P c surface sl t ds out man st'
         | (Inr (Some (r, me)), st') \<Rightarrow>
             apply_loop P c surface sl t ds (replace_range a b r out)
               (case me of None \<Rightarrow> man | Some e \<Rightarrow> manifest_push man e) st'))"

definition apply_dets ::
  "prims \<Rightarrow> string \<Rightarrow> surface \<Rightarrow> engine_config \<Rightarrow> cached_detection list \<Rightarrow> session_store
   \<Rightarrow> (engine_error + string \<times> unmask_manifest) \<times> session_store" where
  "apply_dets P t surface c dets st = apply_loop P c surface (salt st) t (rev dets) t manifest_new st"

section \<open>The closed form\<close>

definition minted_token :: "prims \<Rightarrow> engine_config \<Rightarrow> string \<Rightarrow> cached_detection \<Rightarrow> string \<Rightarrow> (string \<times> token_kind) option" where
  "minted_token P c sl d s =
     (case resolve_operator c d of
        OpToken \<Rightarrow> Some (case d_fixed_token d of Some f \<Rightarrow> f | None \<Rightarrow> make_token P (d_entity d) s sl, Pii)
      | OpLocal \<Rightarrow> Some (make_token P (slugify (d_entity d)) s sl, Local)
      | OpBroker \<Rightarrow> Some (make_token P (BROKER_PREFIX @ slugify (d_entity d)) s sl, Broker)
      | _ \<Rightarrow> None)"

definition rendering :: "prims \<Rightarrow> engine_config \<Rightarrow> string \<Rightarrow> cached_detection \<Rightarrow> string \<Rightarrow> string" where
  "rendering P c sl d s =
     (case minted_token P c sl d s of
        Some (t, _) \<Rightarrow> t
      | None \<Rightarrow>
          (case resolve_operator c d of
             OpRedact \<Rightarrow> ''[REDACTED]''
           | OpMask ch n \<Rightarrow> mask_value s ch n
           | OpHash \<Rightarrow> if d_secret_op d \<noteq> None then make_hash_token P (d_entity d) s sl else hash_value P (d_entity d) s
           | _ \<Rightarrow> s))"

definition entry_of :: "prims \<Rightarrow> engine_config \<Rightarrow> surface \<Rightarrow> string \<Rightarrow> string \<Rightarrow> cached_detection \<Rightarrow> manifest_entry option" where
  "entry_of P c surface sl t d =
     (let s = slice t (d_start d) (d_end d) in
      map_option (\<lambda>(tok, k). \<lparr>canonical_form = s, token_handle = tok, entity_kind = d_entity d,
         arrow_origin = surface, exposed_at = Some (d_start d, d_start d + length tok),
         broker = (k = Broker), local = (k = Local)\<rparr>) (minted_token P c sl d s))"

definition put_of :: "prims \<Rightarrow> engine_config \<Rightarrow> string \<Rightarrow> string \<Rightarrow> cached_detection \<Rightarrow> (string \<times> vault_value) option" where
  "put_of P c sl t d =
     (let s = slice t (d_start d) (d_end d) in
      map_option (\<lambda>(tok, k). (tok, s, k, if k = Broker then Some (d_entity d) else None, None)) (minted_token P c sl d s))"

text \<open>The text between the detections, and each detection's rendering.\<close>

fun masked :: "(cached_detection \<Rightarrow> string \<Rightarrow> string) \<Rightarrow> string \<Rightarrow> nat \<Rightarrow> cached_detection list \<Rightarrow> string" where
  "masked g t p [] = drop p t"
| "masked g t p (d # ds) =
     slice t p (d_start d) @ g d (slice t (d_start d) (d_end d)) @ masked g t (d_end d) ds"

text \<open>Detections in order, without overlaps and on character boundaries.\<close>

definition aligned :: "string \<Rightarrow> cached_detection list \<Rightarrow> bool" where
  "aligned t dets \<longleftrightarrow>
     sorted_wrt (\<lambda>a b. d_end a \<le> d_start b) dets
     \<and> (\<forall>d\<in>set dets. d_start d < d_end d \<and> d_end d \<le> length t \<and> is_boundary t (d_start d) \<and> is_boundary t (d_end d))"

lemma snap_aligned:
  assumes "a \<le> b" "b \<le> length t" "is_boundary t a" "is_boundary t b"
  shows "snap_to_char_boundary t a b = (a, b)"
proof -
  have "snap_down t a = a" using assms(3) by (cases a) auto
  moreover have "snap_up t b = b" using assms(4) by (subst snap_up.simps) simp
  ultimately show ?thesis using assms(1,2) by (simp add: snap_to_char_boundary_def)
qed

lemma insert_put:
  "insert_if_absent P tok s k n x st = (r, st') \<Longrightarrow>
   (r = Inl EncryptionFailed) \<or> (r = Inr () \<and> vault_put P tok (s, k, n, x) st = Some st')"
  by (auto simp: vault_put_Some elim: insert_cases)

lemma minted_spec:
  assumes "minted surface d a s k (returning tok (insert_if_absent P tok s k n x st)) = (r, st')"
  shows "salt st' = salt st \<and>
    (r = Inl EncryptionFailed
     \<or> (r = Inr (Some (tok, Some \<lparr>canonical_form = s, token_handle = tok, entity_kind = d_entity d,
             arrow_origin = surface, exposed_at = Some (a, a + length tok), broker = (k = Broker),
             local = (k = Local)\<rparr>))
        \<and> vault_put P tok (s, k, n, x) st = Some st'))"
proof -
  obtain q st1 where i: "insert_if_absent P tok s k n x st = (q, st1)" by force
  have "st' = st1" using assms i by (cases q) (simp_all add: minted_def returning_def)
  with insert_salt [OF i] have "salt st' = salt st" by simp
  moreover from insert_put [OF i] assms i
  have "r = Inl EncryptionFailed
     \<or> (r = Inr (Some (tok, Some \<lparr>canonical_form = s, token_handle = tok, entity_kind = d_entity d,
             arrow_origin = surface, exposed_at = Some (a, a + length tok), broker = (k = Broker),
             local = (k = Local)\<rparr>))
        \<and> vault_put P tok (s, k, n, x) st = Some st')"
    by (auto simp: minted_def returning_def)
  ultimately show ?thesis by blast
qed

lemma intern_forms:
  "intern P e p st = returning (make_token P e p (salt st)) (insert_if_absent P (make_token P e p (salt st)) p Pii None None st)"
  "intern_local P e p st = returning (make_token P (slugify e) p (salt st))
     (insert_if_absent P (make_token P (slugify e) p (salt st)) p Local None None st)"
  "intern_broker P 0 e p None st = returning (make_token P (BROKER_PREFIX @ slugify e) p (salt st))
     (insert_if_absent P (make_token P (BROKER_PREFIX @ slugify e) p (salt st)) p Broker (Some e) None st)"
  by (simp_all add: intern_def intern_local_def intern_broker_def Let_def)

text \<open>One rendering, in terms of the closed form.\<close>

lemma render_op_spec:
  assumes "render_op P c surface (salt st) d a s st = (r, st')"
  shows "salt st' = salt st \<and>
    (r = Inl EncryptionFailed
    \<or> (minted_token P c (salt st) d s = None \<and> st' = st
        \<and> (r = Inr None \<and> rendering P c (salt st) d s = s \<or> r = Inr (Some (rendering P c (salt st) d s, None))))
    \<or> (\<exists>tok k. minted_token P c (salt st) d s = Some (tok, k)
        \<and> r = Inr (Some (tok, Some \<lparr>canonical_form = s, token_handle = tok, entity_kind = d_entity d,
             arrow_origin = surface, exposed_at = Some (a, a + length tok), broker = (k = Broker),
             local = (k = Local)\<rparr>))
        \<and> vault_put P tok (s, k, if k = Broker then Some (d_entity d) else None, None) st = Some st'))"
proof (cases "resolve_operator c d")
  case OpToken
  show ?thesis
  proof (cases "d_fixed_token d")
    case None
    with assms OpToken minted_spec [of surface d a s Pii "make_token P (d_entity d) s (salt st)" P None None st r st']
    show ?thesis by (simp add: render_op_def intern_forms minted_token_def; blast?)
  next
    case (Some f)
    with assms OpToken minted_spec [of surface d a s Pii f P None None st r st']
    show ?thesis by (simp add: render_op_def intern_fixed_def minted_token_def; blast?)
  qed
next
  case OpLocal
  with assms minted_spec [of surface d a s Local "make_token P (slugify (d_entity d)) s (salt st)" P None None st r st']
  show ?thesis by (simp add: render_op_def intern_forms minted_token_def; blast?)
next
  case OpBroker
  with assms minted_spec [of surface d a s Broker "make_token P (BROKER_PREFIX @ slugify (d_entity d)) s (salt st)" P
      "Some (d_entity d)" None st r st']
  show ?thesis by (simp add: render_op_def intern_forms minted_token_def; blast?)
qed (use assms in \<open>auto simp: render_op_def minted_token_def rendering_def\<close>)

lemma map_filter_append: "List.map_filter f (xs @ ys) = List.map_filter f xs @ List.map_filter f ys"
  by (simp add: List.map_filter_def)

lemma set_map_filter: "x \<in> set (List.map_filter f xs) \<longleftrightarrow> (\<exists>e\<in>set xs. f e = Some x)"
  by (induction xs) (auto split: option.split)

lemma put_all_append:
  "put_all put (xs @ ys) s = (case put_all put xs s of None \<Rightarrow> None | Some s' \<Rightarrow> put_all put ys s')"
  by (induction xs arbitrary: s) (auto split: option.split)

lemma apply_loop_append:
  "apply_loop P c surface sl t (xs @ ys) out man st =
     (case apply_loop P c surface sl t xs out man st of
        (Inl e, st') \<Rightarrow> (Inl e, st') | (Inr (out', man'), st') \<Rightarrow> apply_loop P c surface sl t ys out' man' st')"
  by (induction xs arbitrary: out man st) (auto split: prod.split sum.split option.split)

lemma aligned_Cons:
  "aligned t (d # ds) \<longleftrightarrow>
     aligned t ds \<and> (\<forall>x\<in>set ds. d_end d \<le> d_start x) \<and> d_start d < d_end d \<and> d_end d \<le> length t
     \<and> is_boundary t (d_start d) \<and> is_boundary t (d_end d)"
  by (auto simp: aligned_def)

lemma masked_replace:
  assumes "p \<le> a" "a \<le> b" "b \<le> length t"
  shows "replace_range a b r (take b t @ x) = take p t @ slice t p a @ r @ x"
proof -
  have "take a (take b t @ x) = take p t @ slice t p a" "drop b (take b t @ x) = x"
    using assms slice_append_take [of p a t] by (simp_all add: min_def)
  then show ?thesis by (simp add: replace_range_def)
qed

lemma masked_keep:
  assumes "p \<le> a" "a \<le> b"
  shows "take b t @ x = take p t @ slice t p a @ slice t a b @ x"
  using assms slice_append_take [of p a t] slice_append_take [of a b t] by (metis append_assoc)

text \<open>The loop over a suffix of the detections leaves the text up to any earlier offset as it is.\<close>

lemma apply_loop_spec:
  assumes "apply_loop P c surface (salt st) t (rev dets) t man st = (r, st')" "aligned t dets"
    and "\<forall>d\<in>set dets. p \<le> d_start d" "p \<le> length t"
  shows "salt st' = salt st \<and>
    (r = Inl EncryptionFailed
     \<or> (r = Inr (take p t @ masked (rendering P c (salt st)) t p dets,
                man @ List.map_filter (entry_of P c surface (salt st) t) (rev dets))
        \<and> put_all (vault_put P) (List.map_filter (put_of P c (salt st) t) (rev dets)) st = Some st'))"
  using assms
proof (induction dets arbitrary: p r st')
  case Nil
  then show ?case by (simp add: map_filter_simps)
next
  case (Cons d ds)
  let ?a = "d_start d" and ?b = "d_end d" and ?sl = "salt st"
  let ?s = "slice t ?a ?b"
  have al: "aligned t ds" "\<forall>x\<in>set ds. ?b \<le> d_start x" "?a < ?b" "?b \<le> length t"
      "is_boundary t ?a" "is_boundary t ?b" using Cons.prems(2) by (simp_all add: aligned_Cons)
  have pa: "p \<le> ?a" using Cons.prems(3) by simp
  have snap: "snap_to_char_boundary t ?a ?b = (?a, ?b)" using al by (intro snap_aligned) simp_all
  obtain r1 st1 where l1: "apply_loop P c surface ?sl t (rev ds) t man st = (r1, st1)" by force
  note IH = Cons.IH [OF l1 al(1,2,4)]
  show ?case
  proof (cases r1)
    case (Inl e)
    with l1 Cons.prems(1) IH show ?thesis by (auto simp: apply_loop_append)
  next
    case (Inr om)
    let ?out = "take ?b t @ masked (rendering P c ?sl) t ?b ds"
    let ?man = "man @ List.map_filter (entry_of P c surface ?sl t) (rev ds)"
    let ?puts = "List.map_filter (put_of P c ?sl t) (rev ds)"
    from IH Inr have om: "om = (?out, ?man)" and puts: "put_all (vault_put P) ?puts st = Some st1"
      and sl1: "salt st1 = ?sl" by auto
    obtain q st2 where q: "render_op P c surface ?sl d ?a ?s st1 = (q, st2)" by force
    from Cons.prems(1) l1 Inr om snap q
    have r: "(r, st') = (case q of Inl e \<Rightarrow> (Inl e, st2) | Inr None \<Rightarrow> (Inr (?out, ?man), st2)
        | Inr (Some (x, me)) \<Rightarrow> (Inr (replace_range ?a ?b x ?out,
             (case me of None \<Rightarrow> ?man | Some e \<Rightarrow> manifest_push ?man e)), st2))"
      by (auto simp: apply_loop_append split: sum.splits option.splits)
    have s2: "salt st2 = ?sl" using render_op_spec [of P c surface st1 d ?a ?s q st2] q sl1 by simp
    have keep: "?out = take p t @ slice t p ?a @ ?s @ masked (rendering P c ?sl) t ?b ds"
      using masked_keep [OF pa] al(3) by simp
    have repl: "replace_range ?a ?b x ?out = take p t @ slice t p ?a @ x @ masked (rendering P c ?sl) t ?b ds" for x
      using masked_replace [OF pa _ al(4)] al(3) by simp
    from render_op_spec [of P c surface st1 d ?a ?s q st2] q sl1
    consider "q = Inl EncryptionFailed"
      | "minted_token P c ?sl d ?s = None" "st2 = st1" "q = Inr None" "rendering P c ?sl d ?s = ?s"
      | "minted_token P c ?sl d ?s = None" "st2 = st1" "q = Inr (Some (rendering P c ?sl d ?s, None))"
      | tok k where "minted_token P c ?sl d ?s = Some (tok, k)"
          "q = Inr (Some (tok, Some \<lparr>canonical_form = ?s, token_handle = tok, entity_kind = d_entity d,
             arrow_origin = surface, exposed_at = Some (?a, ?a + length tok), broker = (k = Broker),
             local = (k = Local)\<rparr>))"
          "vault_put P tok (?s, k, if k = Broker then Some (d_entity d) else None, None) st1 = Some st2"
      by auto
    then show ?thesis
    proof cases
      case 1
      with r s2 show ?thesis by simp
    next
      case 2
      then have "entry_of P c surface ?sl t d = None" "put_of P c ?sl t d = None"
        by (simp_all add: entry_of_def put_of_def)
      with 2 r s2 puts keep show ?thesis by (simp add: map_filter_append map_filter_simps)
    next
      case 3
      then have "entry_of P c surface ?sl t d = None" "put_of P c ?sl t d = None"
        by (simp_all add: entry_of_def put_of_def)
      with 3 r s2 puts repl show ?thesis by (simp add: map_filter_append map_filter_simps)
    next
      case (4 tok k)
      let ?v = "(?s, k, if k = Broker then Some (d_entity d) else None, None)"
      have f: "rendering P c ?sl d ?s = tok" "put_of P c ?sl t d = Some (tok, ?v)"
        "entry_of P c surface ?sl t d = Some \<lparr>canonical_form = ?s, token_handle = tok, entity_kind = d_entity d,
             arrow_origin = surface, exposed_at = Some (?a, ?a + length tok), broker = (k = Broker),
             local = (k = Local)\<rparr>"
        using 4(1) by (simp_all add: rendering_def entry_of_def put_of_def)
      have "put_all (vault_put P) (?puts @ [(tok, ?v)]) st = Some st2"
        unfolding put_all_append puts by (simp add: 4(3))
      with f 4(2) r s2 repl show ?thesis
        by (simp add: map_filter_append map_filter_simps manifest_push_def)
    qed
  qed
qed

lemma apply_spec:
  assumes "apply_dets P t surface c dets st = (r, st')" "aligned t dets"
  shows "salt st' = salt st \<and>
    (r = Inl EncryptionFailed
     \<or> (r = Inr (masked (rendering P c (salt st)) t 0 dets,
                List.map_filter (entry_of P c surface (salt st) t) (rev dets))
        \<and> put_all (vault_put P) (List.map_filter (put_of P c (salt st) t) (rev dets)) st = Some st'))"
  using apply_loop_spec [OF assms(1) [unfolded apply_dets_def] assms(2), of 0]
  by (simp add: manifest_new_def)

section \<open>Pieces of valid text\<close>

text \<open>Valid UTF-8 cut at a character boundary is valid on both sides.\<close>

lemma boundary_tail: "is_boundary (a # s) (Suc i) \<Longrightarrow> is_boundary s i"
  by (auto simp: is_boundary_def)

lemma boundary_cont: "is_boundary (a # b # s) (Suc 0) \<Longrightarrow> \<not> is_cont b"
  by (auto simp: is_boundary_def)

lemma utf8_cut: "utf8_valid s \<Longrightarrow> is_boundary s i \<Longrightarrow> utf8_valid (take i s) \<and> utf8_valid (drop i s)"
proof (induction s arbitrary: i rule: utf8_valid.induct)
  case (2 a s)
  show ?case
  proof (cases i)
    case (Suc j)
    consider "ord a < 128" | "194 \<le> ord a" "ord a \<le> 223" | "224 \<le> ord a" "ord a \<le> 239" | "240 \<le> ord a" "ord a \<le> 244"
      using "2.prems"(1) by (force split: if_splits)
    then show ?thesis
    proof cases
      case 1
      with "2.IH"(1) [of j] "2.prems" Suc boundary_tail [of a s j] show ?thesis by auto
    next
      case b2: 2
      with "2.prems"(1) obtain b s' where s: "s = b # s'" "is_cont b" "utf8_valid s'" by (auto split: list.splits)
      with "2.prems"(2) Suc boundary_cont obtain k where k: "j = Suc k" by (cases j) auto
      have "is_boundary s' k" using "2.prems"(2) Suc s k boundary_tail by blast
      with "2.IH"(2) [of b s' k] b2 s have "utf8_valid (take k s') \<and> utf8_valid (drop k s')" by auto
      with b2 s k Suc show ?thesis by simp
    next
      case b3: 3
      with "2.prems"(1) obtain b c s' where s: "s = b # c # s'" "is_cont b" "is_cont c" "utf8_valid s'"
          "ord a = 224 \<longrightarrow> 160 \<le> ord b" "ord a = 237 \<longrightarrow> ord b < 160" by (auto split: list.splits)
      with "2.prems"(2) Suc boundary_cont obtain j1 where j1: "j = Suc j1" by (cases j) auto
      with "2.prems"(2) Suc s boundary_cont boundary_tail obtain k where k: "j1 = Suc k" by (cases j1) blast+
      have "is_boundary s' k" using "2.prems"(2) Suc s j1 k boundary_tail by blast
      with "2.IH"(3) [of b "c # s'" c s' k] b3 s have "utf8_valid (take k s') \<and> utf8_valid (drop k s')" by auto
      with b3 s k j1 Suc show ?thesis by simp
    next
      case b4: 4
      with "2.prems"(1) obtain b c d s' where s: "s = b # c # d # s'" "is_cont b" "is_cont c" "is_cont d" "utf8_valid s'"
          "ord a = 240 \<longrightarrow> 144 \<le> ord b" "ord a = 244 \<longrightarrow> ord b < 144" by (auto split: list.splits)
      with "2.prems"(2) Suc boundary_cont obtain j1 where j1: "j = Suc j1" by (cases j) auto
      with "2.prems"(2) Suc s boundary_cont boundary_tail obtain j2 where j2: "j1 = Suc j2" by (cases j1) blast+
      with "2.prems"(2) Suc s j1 boundary_cont boundary_tail obtain k where k: "j2 = Suc k" by (cases j2) blast+
      have "is_boundary s' k" using "2.prems"(2) Suc s j1 j2 k boundary_tail by blast
      with "2.IH"(4) [of b "c # d # s'" c "d # s'" d s' k] b4 s
      have "utf8_valid (take k s') \<and> utf8_valid (drop k s')" by auto
      with b4 s k j1 j2 Suc show ?thesis by simp
    qed
  qed (use 2 in simp)
qed simp

lemma boundary_take:
  assumes "is_boundary s i" "i \<le> j" "j \<le> length s"
  shows "is_boundary (take j s) i"
  using assms by (auto simp: is_boundary_def min_def)

lemma utf8_slice:
  assumes "utf8_valid t" "is_boundary t a" "is_boundary t b" "a \<le> b" "b \<le> length t"
  shows "utf8_valid (slice t a b)"
proof -
  have "utf8_valid (take b t)" using utf8_cut [OF assms(1,3)] by simp
  with utf8_cut [OF this boundary_take [OF assms(2,4,5)]] have "utf8_valid (drop a (take b t))" by simp
  then show ?thesis by (simp add: slice_def drop_take)
qed

section \<open>User-bypass segments\<close>

fun segment_text :: "bypass_segment \<Rightarrow> string" where
  "segment_text (MaskSeg s) = s"
| "segment_text (BypassSeg s) = ''>>'' @ s @ ''<<''"

text \<open>A marker pair: an opening marker with a closing marker somewhere after it.\<close>

definition marker_pair :: "string \<Rightarrow> bool" where
  "marker_pair t \<longleftrightarrow> (case str_find ''>>'' t of None \<Rightarrow> False | Some i \<Rightarrow> contains ''<<'' (drop (i + 2) t))"

fun segments_ok :: "bypass_segment list \<Rightarrow> bool" where
  "segments_ok [MaskSeg s] \<longleftrightarrow> \<not> marker_pair s"
| "segments_ok (MaskSeg s # BypassSeg b # r) \<longleftrightarrow> \<not> contains ''>>'' s \<and> \<not> contains ''<<'' b \<and> segments_ok r"
| "segments_ok _ \<longleftrightarrow> False"

lemma str_find_least: "str_find p t = Some i \<Longrightarrow> k < i \<Longrightarrow> \<not> starts_with p (drop k t)"
proof (induction t arbitrary: i k)
  case (Cons c t)
  then show ?case by (cases k) (auto split: if_splits)
qed (simp split: if_splits)

lemma before_first:
  assumes "str_find p t = Some i" "p \<noteq> []"
  shows "\<not> contains p (take i t)"
proof -
  have "\<not> starts_with p (drop k (take i t))" if "k \<le> length (take i t)" for k
  proof (cases "k < i")
    case True
    have "starts_with p (drop k t)" if h: "starts_with p (drop k (take i t))"
    proof -
      from h obtain r where "drop k (take i t) = p @ r" by (auto simp: starts_with_iff)
      then have "drop k t = p @ r @ drop i t"
        by (metis append.assoc append_take_drop_id drop_append length_take min.absorb2 drop_drop
            True less_imp_le_nat str_find_Some [OF assms(1)] add_leD1 diff_is_0_eq drop0)
      then show ?thesis by (simp add: starts_with_iff)
    qed
    with str_find_least [OF assms(1) True] show ?thesis by blast
  next
    case False
    with assms(2) show ?thesis by (auto simp: starts_with_def)
  qed
  then show ?thesis using str_find_None by (auto simp: contains_def)
qed

lemma find_cut: "str_find p t = Some i \<Longrightarrow> t = take i t @ p @ drop (i + length p) t"
  by (metis add.commute append_take_drop_id drop_drop append_eq_conv_conj starts_with_iff str_find_Some)

lemma bypass_loop_ok: "concat (map segment_text (bypass_loop t)) = t \<and> segments_ok (bypass_loop t)"
proof (induction t rule: bypass_loop.induct)
  case (1 t)
  show ?case
  proof (cases "str_find ''>>'' t")
    case None
    then show ?thesis by (subst (1 2) bypass_loop.simps) (simp add: marker_pair_def)
  next
    case (Some i)
    let ?inner = "drop (i + 2) t"
    show ?thesis
    proof (cases "str_find ''<<'' ?inner")
      case None
      with Some show ?thesis by (subst (1 2) bypass_loop.simps) (simp add: marker_pair_def contains_def)
    next
      case j: (Some j)
      have b: "bypass_loop t = MaskSeg (take i t) # BypassSeg (take j ?inner) # bypass_loop (drop (j + 2) ?inner)"
        using Some j by (subst bypass_loop.simps) (simp add: Let_def)
      from find_cut [OF Some] find_cut [OF j]
      have cut: "t = take i t @ ''>>'' @ ?inner" "?inner = take j ?inner @ ''<<'' @ drop (j + 2) ?inner" by simp_all
      note IH = "1.IH" [OF Some refl j]
      have "concat (map segment_text (bypass_loop t)) = take i t @ ''>>'' @ take j ?inner @ ''<<'' @ drop (j + 2) ?inner"
        unfolding b using IH by simp
      also have "\<dots> = t" using cut by metis
      finally show ?thesis using IH before_first [OF Some] before_first [OF j] b by simp
    qed
  qed
qed

lemma user_bypass_cases:
  "case user_bypass_segments t of
     None \<Rightarrow> \<not> marker_pair t
   | Some segs \<Rightarrow> concat (map segment_text segs) = t \<and> segments_ok segs \<and> marker_pair t"
proof -
  note ok = bypass_loop_ok [of t]
  show ?thesis
  proof (cases "marker_pair t")
    case True
    then obtain i j where "str_find ''>>'' t = Some i" "str_find ''<<'' (drop (i + 2) t) = Some j"
      by (auto simp: marker_pair_def contains_def split: option.splits)
    then have "bypass_loop t = MaskSeg (take i t) # BypassSeg (take j (drop (i + 2) t))
        # bypass_loop (drop (j + 2) (drop (i + 2) t))"
      by (subst bypass_loop.simps) (simp add: Let_def)
    with ok True show ?thesis by (simp add: user_bypass_segments_def)
  next
    case False
    then have "bypass_loop t = [MaskSeg t]"
      by (subst bypass_loop.simps) (auto simp: marker_pair_def contains_def Let_def split: option.splits)
    with False show ?thesis by (simp add: user_bypass_segments_def)
  qed
qed

section \<open>Properties of the splice\<close>

text \<open>
  The bypass markers are read exactly: with no opening marker followed by a closing one there are no
  segments; otherwise the segments put back together with their markers are the text, masked and
  bypassed parts alternate, no bypassed part holds a closing marker, no masked part but the last an
  opening one, and the last part holds no further pair.
\<close>

theorem user_bypass_exact:
  "case user_bypass_segments t of
     None \<Rightarrow> \<not> marker_pair t
   | Some segs \<Rightarrow> concat (map segment_text segs) = t \<and> segments_ok segs \<and> marker_pair t"
  by (rule user_bypass_cases)

text \<open>
  \<open>apply\<close> in closed form: for detections in order, disjoint and on character boundaries it either
  fails in the cipher, or returns the text between the detections unchanged with each detection's
  rendering in place and one manifest entry per minted token, back to front. Both depend on the salt,
  the configuration and the detections only, never on what the store already holds.
\<close>

theorem apply_closed_form:
  assumes "apply_dets P t surface c dets st = (r, st')" "aligned t dets"
  shows "salt st' = salt st \<and>
    (r = Inl EncryptionFailed
     \<or> r = Inr (masked (rendering P c (salt st)) t 0 dets,
                List.map_filter (entry_of P c surface (salt st) t) (rev dets)))"
  using apply_spec [OF assms] by blast

lemma apply_closed_form_witness:
  "\<exists>st'. apply_dets sample_prims ''to a@b.c now'' UserMessage (engine_config_default sample_prims)
     [\<lparr>d_start = 3, d_end = 8, d_entity = ''EMAIL_ADDRESS'', d_score = 1, d_source = SrcRegex, d_literal = False,
       d_fixed_token = None, d_secret_op = Some OpRedact\<rparr>] (store_new sample_prims)
     = (Inr (''to [REDACTED] now'', []), st')"
proof -
  let ?d = "\<lparr>d_start = 3, d_end = 8, d_entity = ''EMAIL_ADDRESS'', d_score = 1, d_source = SrcRegex, d_literal = False,
       d_fixed_token = None, d_secret_op = Some OpRedact\<rparr>"
  let ?c = "engine_config_default sample_prims"
  obtain r st' where a: "apply_dets sample_prims ''to a@b.c now'' UserMessage ?c [?d] (store_new sample_prims) = (r, st')"
    by force
  have b: "is_boundary ''to a@b.c now'' 3" "is_boundary ''to a@b.c now'' 8" by code_simp+
  have al: "aligned ''to a@b.c now'' [?d]" using b by (simp add: aligned_def)
  have op: "resolve_operator ?c ?d = OpRedact" by (simp add: resolve_operator_def)
  have "r \<noteq> Inl EncryptionFailed"
    using a snap_aligned [of 3 8 "''to a@b.c now''"] b by (auto simp: apply_dets_def render_op_def op)
  moreover have "masked (rendering sample_prims ?c (salt (store_new sample_prims))) ''to a@b.c now'' 0 [?d] = ''to [REDACTED] now''"
    by (simp add: rendering_def minted_token_def resolve_operator_def slice_def eval_nat_numeral)
  moreover have "entry_of sample_prims ?c UserMessage (salt (store_new sample_prims)) ''to a@b.c now'' ?d = None"
    by (simp add: entry_of_def minted_token_def op)
  ultimately show ?thesis using apply_closed_form [OF a al] a by (auto simp: map_filter_simps)
qed

text \<open>
  What \<open>apply\<close> mints can be given back by the right gate and by no other: when it succeeds on a valid
  text, every token it minted is in the vault with the sliced plaintext, its class and, for a broker
  token, the registered name. The handles must not be deleted, and neither an entry already under a
  handle nor another detection of this text may hold a different value (no 48-bit collision).
\<close>

theorem apply_fills_vault:
  assumes "apply_dets P t surface c dets st = (Inr om, st')" "aligned t dets" "utf8_valid t"
    and "seal_ok P" "store_ok P st" "d \<in> set dets" "put_of P c (salt st) t d = Some (tok, v)"
    and "tok \<notin> tombstoned st" "vault_get P st tok = None \<or> vault_get P st tok = Some v"
    and "\<And>d' v'. d' \<in> set dets \<Longrightarrow> put_of P c (salt st) t d' = Some (tok, v') \<Longrightarrow> v' = v"
  shows "vault_get P st' tok = Some v \<and> store_ok P st' \<and> tombstoned st' = tombstoned st
    \<and> fst v = slice t (d_start d) (d_end d)"
proof -
  let ?l = "List.map_filter (put_of P c (salt st) t) (rev dets)"
  from apply_spec [OF assms(1,2)] have put: "put_all (vault_put P) ?l st = Some st'" by simp
  have mem: "x \<in> set ?l \<longleftrightarrow> (\<exists>e\<in>set dets. put_of P c (salt st) t e = Some x)" for x
    by (simp add: set_map_filter)
  have valid: "vault_valid w" if m: "(h, w) \<in> set ?l" for h w
  proof -
    obtain e where e: "e \<in> set dets" "put_of P c (salt st) t e = Some (h, w)" using m mem by blast
    have "utf8_valid (slice t (d_start e) (d_end e))"
      using assms(2) e(1) by (intro utf8_slice [OF assms(3)]) (auto simp: aligned_def)
    with e(2) show ?thesis by (auto simp: put_of_def Let_def)
  qed
  have inv: "seal_ok P \<and> store_ok P st" using assms(4,5) by simp
  have vs: "\<forall>(h, w)\<in>set ?l. vault_valid w" using valid by blast
  have m: "(tok, v) \<in> set ?l" using mem assms(6,7) by blast
  have agree: "v' = v" if "(tok, v') \<in> set ?l" for v' using that mem assms(10) by blast
  have "vault_get P st' tok = Some v"
    by (rule vault.put_all_get [OF inv vs put m assms(8,9) agree])
  moreover have "store_ok P st' \<and> tombstoned st' = tombstoned st"
    using vault.put_all_inv [OF inv vs put] by simp
  moreover have "fst v = slice t (d_start d) (d_end d)" using assms(7) by (auto simp: put_of_def Let_def)
  ultimately show ?thesis by blast
qed

lemma apply_fills_vault_witness:
  "\<exists>om st'. apply_dets sample_prims ''to a@b.c now'' UserMessage (engine_config_default sample_prims)
     [\<lparr>d_start = 3, d_end = 8, d_entity = ''EMAIL_ADDRESS'', d_score = 1, d_source = SrcRegex, d_literal = False,
       d_fixed_token = None, d_secret_op = None\<rparr>] (store_new sample_prims) = (Inr om, st')
     \<and> reveal sample_prims 9 st' (make_token sample_prims ''EMAIL_ADDRESS'' ''a@b.c'' (salt (store_new sample_prims)))
        = Some ''a@b.c''"
proof -
  let ?d = "\<lparr>d_start = 3, d_end = 8, d_entity = ''EMAIL_ADDRESS'', d_score = 1, d_source = SrcRegex, d_literal = False,
       d_fixed_token = None, d_secret_op = None\<rparr>"
  let ?c = "engine_config_default sample_prims" and ?st = "store_new sample_prims" and ?t = "''to a@b.c now''"
  let ?tok = "make_token sample_prims ''EMAIL_ADDRESS'' ''a@b.c'' (salt ?st)"
  obtain r st' where a: "apply_dets sample_prims ?t UserMessage ?c [?d] ?st = (r, st')" by force
  have b: "is_boundary ?t 3" "is_boundary ?t 8" "utf8_valid ?t" by code_simp+
  have al: "aligned ?t [?d]" using b by (simp add: aligned_def)
  have sl: "slice ?t 3 8 = ''a@b.c''" by code_simp
  have op: "resolve_operator ?c ?d = OpToken"
    by (simp add: resolve_operator_def operator_for_def engine_config_default_def entity_labels)
  have put: "put_of sample_prims ?c (salt ?st) ?t ?d = Some (?tok, ''a@b.c'', Pii, None, None)"
    by (simp add: put_of_def minted_token_def op sl Let_def)
  have "is_ok (fst (intern sample_prims ''EMAIL_ADDRESS'' ''a@b.c'' ?st))"
    by (simp add: intern_def returning_def insert_if_absent_def encrypt_def sample_prims_def Let_def)
  then have "is_ok r"
    using a snap_aligned [of 3 8 ?t] b sl
    by (auto simp: apply_dets_def render_op_def op minted_def split: prod.splits sum.splits)
  then obtain om where r: "r = Inr om" by (cases r) auto
  have g: "vault_get sample_prims st' ?tok = Some (''a@b.c'', Pii, None, None)"
  proof (rule apply_fills_vault [OF a [unfolded r] al b(3) _ _ _ put, THEN conjunct1])
    show "vault_get sample_prims ?st ?tok = None \<or> vault_get sample_prims ?st ?tok = Some (''a@b.c'', Pii, None, None)"
      by (simp add: vault_get_def)
  qed (use put in auto)
  then have "reveal sample_prims 9 st' ?tok = Some ''a@b.c''" by (simp add: reveal_vault)
  with a r show ?thesis by blast
qed

end
