(* ===== verification/Engine_Mask.thy ===== *)
theory Engine_Mask
  imports Ml_Slot Mask_Apply Broker_Policy
begin

text \<open>
  The masking engine of \<open>lib.rs\<close>: the policy, the engine state with its hot-swappable slots, and the
  whole mask path (master switch, disabled surfaces, per-conversation disable, user bypass, marker
  strip, required-mode refusal, cache, detection, apply) with the batched prewarm.

  The environment record holds what the engine calls but does not define (digests, regex engine,
  analyzer, lru). One call is one step: it reads the day number once and no other call runs between
  its reads and writes; the second cache lookup under the inference gate is kept.
\<close>

section \<open>Environment, policy and engine\<close>

record 'c env =
  prims_of :: prims
  text_of :: text_api
  analyzer_of :: analyzer_api
  lru_of :: "'c lru_api"

record policy =
  p_config :: engine_config
  p_customs :: "compiled_custom list"
  p_fp :: nat

definition secret_only_operator :: "operator \<Rightarrow> bool" where
  "secret_only_operator op \<longleftrightarrow> op = OpBroker \<or> op = OpLocal"

definition policy_new :: "'c env \<Rightarrow> engine_config \<Rightarrow> engine_error + policy" where
  "policy_new W config =
     (let c = config\<lparr>fail_closed := True\<rparr> in
      if secret_only_operator (default_operator c) \<or> list_ex secret_only_operator (map snd (entity_operators c))
      then Inl (InvalidSecret SecretOnlyOperator)
      else case compile_customs (text_of W) (custom_replacements c) of
          Inl e \<Rightarrow> Inl e
        | Inr customs \<Rightarrow>
            Inr \<lparr>p_config = c, p_customs = customs, p_fp = detection_fingerprint (prims_of W) (text_of W) c\<rparr>)"

record 'c mask_engine =
  e_policy :: policy
  e_ml :: ml_runtime
  e_store :: session_store
  e_cache :: "'c detection_cache"
  e_secrets :: secret_set
  e_broker_policy :: broker_policy

definition from_parts :: "'c env \<Rightarrow> engine_config \<Rightarrow> session_store \<Rightarrow> engine_error + 'c mask_engine" where
  "from_parts W config st =
     (case policy_new W config of
        Inl e \<Rightarrow> Inl e
      | Inr pol \<Rightarrow>
          Inr \<lparr>e_policy = pol, e_ml = ml_runtime_default (prims_of W) (text_of W), e_store = st,
               e_cache = cache_new (lru_of W) (detection_cache_cap config),
               e_secrets = secret_set_empty (prims_of W), e_broker_policy = broker_policy_default\<rparr>)"

definition engine_new :: "'c env \<Rightarrow> engine_config \<Rightarrow> engine_error + 'c mask_engine" where
  "engine_new W config = from_parts W config (store_new (prims_of W))"

definition engine_with_session :: "'c env \<Rightarrow> engine_config \<Rightarrow> string \<Rightarrow> string \<Rightarrow> engine_error + 'c mask_engine" where
  "engine_with_session W config key sl = from_parts W config (with_key_and_salt key sl)"

definition engine_with_salt :: "'c env \<Rightarrow> engine_config \<Rightarrow> string \<Rightarrow> engine_error + 'c mask_engine" where
  "engine_with_salt W config sl = from_parts W config (with_salt (prims_of W) sl)"

section \<open>Control operations\<close>

definition control_token :: "'c env \<Rightarrow> 'c mask_engine \<Rightarrow> string" where
  "control_token W e = to_hex (blake3 (prims_of W) (''sordino-control-token-v1'' @ session_key (e_store e)))"

definition config_snapshot :: "'c mask_engine \<Rightarrow> engine_config" where
  "config_snapshot e = p_config (e_policy e)"

definition is_enabled :: "'c mask_engine \<Rightarrow> bool" where
  "is_enabled e = cfg_enabled (p_config (e_policy e))"

definition set_enabled :: "bool \<Rightarrow> 'c mask_engine \<Rightarrow> 'c mask_engine" where
  "set_enabled b e =
     (if cfg_enabled (p_config (e_policy e)) = b then e
      else e\<lparr>e_policy := (e_policy e)\<lparr>p_config := (p_config (e_policy e))\<lparr>cfg_enabled := b\<rparr>\<rparr>\<rparr>)"

definition set_config :: "'c env \<Rightarrow> engine_config \<Rightarrow> 'c mask_engine \<Rightarrow> (engine_error + unit) \<times> 'c mask_engine" where
  "set_config W config e =
     (case policy_new W config of
        Inl err \<Rightarrow> (Inl err, e)
      | Inr pol \<Rightarrow>
          (Inr (), e\<lparr>e_policy := pol, e_cache := cache_set_cap (lru_of W) (detection_cache_cap config) (e_cache e)\<rparr>))"

fun intern_locals :: "prims \<Rightarrow> compiled_secret list \<Rightarrow> session_store \<Rightarrow> (engine_error + unit) \<times> session_store" where
  "intern_locals P [] st = (Inr (), st)"
| "intern_locals P (c # cs) st =
     (if cs_operator c = OpLocal then
        (case intern_local P (cs_name c) (cs_value c) st of
           (Inl err, st') \<Rightarrow> (Inl err, st')
         | (Inr _, st') \<Rightarrow> intern_locals P cs st')
      else intern_locals P cs st)"

definition set_secret_rules ::
  "'c env \<Rightarrow> secret_rule list \<Rightarrow> 'c mask_engine \<Rightarrow> (engine_error + unit) \<times> 'c mask_engine" where
  "set_secret_rules W rules e =
     (case compile_secrets (prims_of W) (text_of W) rules of
        Inl err \<Rightarrow> (Inl err, e)
      | Inr compiled \<Rightarrow>
          (case intern_locals (prims_of W) compiled (e_store e) of
             (Inl err, st) \<Rightarrow> (Inl err, e\<lparr>e_store := st\<rparr>)
           | (Inr _, st) \<Rightarrow>
               (Inr (), e\<lparr>e_store := st,
                  e_secrets := \<lparr>ss_compiled = compiled, ss_fp = secrets_fingerprint (prims_of W) compiled\<rparr>\<rparr>)))"

definition secret_count :: "'c mask_engine \<Rightarrow> nat" where
  "secret_count e = length (ss_compiled (e_secrets e))"

definition registered_secret_hit :: "'c env \<Rightarrow> 'c mask_engine \<Rightarrow> string \<Rightarrow> string option" where
  "registered_secret_hit W e text =
     (if ss_compiled (e_secrets e) = [] then None
      else case detect_secrets_unscoped (text_of W) (ss_compiled (e_secrets e)) text of
          [] \<Rightarrow> None
        | d # _ \<Rightarrow> Some (d_entity d))"

definition registered_secret_in_bytes :: "'c env \<Rightarrow> 'c mask_engine \<Rightarrow> string \<Rightarrow> bool" where
  "registered_secret_in_bytes W e bytes = secret_hit_bytes (text_of W) (e_secrets e) bytes True"

definition registered_secret_in_header_value :: "'c env \<Rightarrow> 'c mask_engine \<Rightarrow> string \<Rightarrow> bool" where
  "registered_secret_in_header_value W e bytes = secret_hit_bytes (text_of W) (e_secrets e) bytes False"

definition set_broker_policy :: "broker_policy \<Rightarrow> 'c mask_engine \<Rightarrow> 'c mask_engine" where
  "set_broker_policy p e = e\<lparr>e_broker_policy := p\<rparr>"

definition token_count :: "'c mask_engine \<Rightarrow> nat" where
  "token_count e = store_len (e_store e)"

section \<open>The disabled path\<close>

definition run_apply ::
  "'c env \<Rightarrow> string \<Rightarrow> surface \<Rightarrow> engine_config \<Rightarrow> cached_detection list \<Rightarrow> 'c mask_engine
   \<Rightarrow> (engine_error + string \<times> unmask_manifest) \<times> 'c mask_engine" where
  "run_apply W text s c dets e =
     (case apply_dets (prims_of W) text s c dets (e_store e) of (r, st) \<Rightarrow> (r, e\<lparr>e_store := st\<rparr>))"

text \<open>The outcome of a call that applied its detections.\<close>

definition outcome_of ::
  "mask_stats \<Rightarrow> (engine_error + string \<times> unmask_manifest) \<times> 'e \<Rightarrow> (engine_error + mask_outcome) \<times> 'e" where
  "outcome_of st r =
     (case r of
        (Inl err, e) \<Rightarrow> (Inl err, e)
      | (Inr (out, man), e) \<Rightarrow> (Inr \<lparr>masked_text = out, outcome_manifest = man, stats = st\<rparr>, e))"

definition mask_disabled_path ::
  "'c env \<Rightarrow> string \<Rightarrow> surface \<Rightarrow> engine_config \<Rightarrow> secret_set \<Rightarrow> 'c mask_engine
   \<Rightarrow> (engine_error + mask_outcome) \<times> 'c mask_engine" where
  "mask_disabled_path W text s c secrets e =
     (if ss_compiled secrets = [] then (Inr (passthrough text stats_disabled), e)
      else let dets = resolve_overlaps (detect_secrets (text_of W) (ss_compiled secrets) text s) in
        if dets = [] then (Inr (passthrough text stats_disabled), e)
        else outcome_of stats_disabled (run_apply W text s c dets e))"

fun segment_body :: "bypass_segment \<Rightarrow> string" where
  "segment_body (MaskSeg s) = s"
| "segment_body (BypassSeg s) = s"

definition mask_when_disabled ::
  "'c env \<Rightarrow> string \<Rightarrow> surface \<Rightarrow> 'c mask_engine \<Rightarrow> (engine_error + mask_outcome) \<times> 'c mask_engine" where
  "mask_when_disabled W text s e =
     (case (if s = UserMessage then user_bypass_segments text else None) of
        Some segs \<Rightarrow>
          mask_disabled_path W (concat (map segment_body segs)) s (p_config (e_policy e)) (e_secrets e) e
      | None \<Rightarrow> mask_disabled_path W text s (p_config (e_policy e)) (e_secrets e) e)"

section \<open>Detection behind the cache\<close>

definition stripped_for_key :: "policy \<Rightarrow> string \<Rightarrow> surface \<Rightarrow> string" where
  "stripped_for_key pol text s =
     (let k = cfg_reveal_marker (p_config pol) in
      if s = AssistantText \<and> marker_is_active k \<and> marker_contained_in k text then marker_strip k text else text)"

definition leaf_key :: "'c env \<Rightarrow> int \<Rightarrow> policy \<Rightarrow> nat \<Rightarrow> nat \<Rightarrow> string \<Rightarrow> surface \<Rightarrow> cache_key" where
  "leaf_key W today pol mlfp secfp text s =
     \<lparr>k_text_hash = hash_text (prims_of W) text, k_surface = s, k_policy_fp = p_fp pol, k_ml_fp = mlfp,
      k_secrets_fp = secfp, k_today_bucket = (if preserve_current_date (p_config pol) then today else 0)\<rparr>"

definition detect_and_cache ::
  "'c env \<Rightarrow> int \<Rightarrow> policy \<Rightarrow> compiled_secret list \<Rightarrow> ml_recognizer option \<Rightarrow> nat \<Rightarrow> string \<Rightarrow> surface
   \<Rightarrow> cache_key \<Rightarrow> mask_stats \<Rightarrow> 'c mask_engine
   \<Rightarrow> (engine_error + cached_detection list \<times> mask_stats) \<times> 'c mask_engine" where
  "detect_and_cache W today pol secrets mlr gen text s key st e =
     (let st = (if mlr \<noteq> None then st\<lparr>ml_ran := 1\<rparr> else st) in
      case run_detection (prims_of W) (text_of W) (analyzer_of W) (p_config pol) (p_customs pol) secrets mlr today text s of
        Inr d \<Rightarrow>
          (let e = (if mlr \<noteq> None then e\<lparr>e_ml := ml_clear_runtime_failure gen (e_ml e)\<rparr> else e)
           in (Inr (d, st\<lparr>fresh_miss := 1\<rparr>), e\<lparr>e_cache := cache_insert (lru_of W) key d (e_cache e)\<rparr>))
      | Inl err \<Rightarrow>
          (Inl err, if mlr \<noteq> None then e\<lparr>e_ml := ml_note_runtime_failure gen err (e_ml e)\<rparr> else e))"

text \<open>A cache hit, or a miss; with a recognizer the cache is read again under the inference gate.\<close>

definition cached_dets ::
  "'c env \<Rightarrow> int \<Rightarrow> policy \<Rightarrow> compiled_secret list \<Rightarrow> ml_recognizer option \<Rightarrow> nat \<Rightarrow> string \<Rightarrow> surface
   \<Rightarrow> cache_key \<Rightarrow> 'c mask_engine \<Rightarrow> (engine_error + cached_detection list \<times> mask_stats) \<times> 'c mask_engine" where
  "cached_dets W today pol secrets mlr gen text s key e =
     (let st = stats_default\<lparr>leaves := 1\<rparr> in
      case cache_get (lru_of W) key (e_cache e) of
        (Some h, c) \<Rightarrow> (Inr (h, st\<lparr>hit := 1\<rparr>), e\<lparr>e_cache := c\<rparr>)
      | (None, c) \<Rightarrow>
          (let e = e\<lparr>e_cache := c\<rparr> in
           if mlr \<noteq> None then
             (case cache_get (lru_of W) key (e_cache e) of
                (Some h, c) \<Rightarrow> (Inr (h, st\<lparr>hit := 1\<rparr>), e\<lparr>e_cache := c\<rparr>)
              | (None, c) \<Rightarrow> detect_and_cache W today pol secrets mlr gen text s key st (e\<lparr>e_cache := c\<rparr>))
           else detect_and_cache W today pol secrets None gen text s key st e))"

section \<open>Masking\<close>

text \<open>\<open>mask\<close> after its user-bypass test.\<close>

definition mask_leaf ::
  "'c env \<Rightarrow> int \<Rightarrow> string \<Rightarrow> surface \<Rightarrow> 'c mask_engine \<Rightarrow> (engine_error + mask_outcome) \<times> 'c mask_engine" where
  "mask_leaf W today text s e =
     (let pol = e_policy e; secrets = e_secrets e in
      if \<not> cfg_enabled (p_config pol) \<or> \<not> surface_enabled (p_config pol) s
      then mask_disabled_path W text s (p_config pol) secrets e
      else let text = stripped_for_key pol text s in
        case ml_for_mask (e_ml e) of (mlr, mlfp, gen, refusal) \<Rightarrow>
          (case refusal of
             Some reason \<Rightarrow> (Inl (MlError reason), e)
           | None \<Rightarrow>
               (case cached_dets W today pol (ss_compiled secrets) mlr gen text s
                       (leaf_key W today pol mlfp (ss_fp secrets) text s) e of
                  (Inl err, e) \<Rightarrow> (Inl err, e)
                | (Inr (dets, st), e) \<Rightarrow> outcome_of st (run_apply W text s (p_config pol) dets e))))"

text \<open>What \<open>mask_user_bypass\<close> does with its segments; \<open>f\<close> is the call it makes for a masked one.\<close>

definition bypass_part ::
  "'c env \<Rightarrow> engine_config \<Rightarrow> secret_set \<Rightarrow> string \<Rightarrow> 'c mask_engine
   \<Rightarrow> (engine_error + string \<times> unmask_manifest) \<times> 'c mask_engine" where
  "bypass_part W c secrets s e =
     (let dets = (if ss_compiled secrets = [] then []
                  else resolve_overlaps (detect_secrets_unscoped (text_of W) (ss_compiled secrets) s))
      in if dets = [] then (Inr (s, manifest_new), e) else run_apply W s UserMessage c dets e)"

fun bypass_run ::
  "'c env \<Rightarrow> engine_config \<Rightarrow> secret_set
   \<Rightarrow> (string \<Rightarrow> 'c mask_engine \<Rightarrow> (engine_error + mask_outcome) \<times> 'c mask_engine)
   \<Rightarrow> bypass_segment list \<Rightarrow> mask_outcome \<Rightarrow> 'c mask_engine \<Rightarrow> (engine_error + mask_outcome) \<times> 'c mask_engine" where
  "bypass_run W c secrets f [] acc e = (Inr acc, e)"
| "bypass_run W c secrets f (MaskSeg s # segs) acc e =
     (if s = [] then bypass_run W c secrets f segs acc e
      else case f s e of
          (Inl err, e) \<Rightarrow> (Inl err, e)
        | (Inr o1, e) \<Rightarrow>
            bypass_run W c secrets f segs
              \<lparr>masked_text = masked_text acc @ masked_text o1,
               outcome_manifest = manifest_merge (outcome_manifest acc) (outcome_manifest o1),
               stats = stats_merge (stats acc) (stats o1)\<rparr> e)"
| "bypass_run W c secrets f (BypassSeg s # segs) acc e =
     (case bypass_part W c secrets s e of
        (Inl err, e) \<Rightarrow> (Inl err, e)
      | (Inr (out, m), e) \<Rightarrow>
          bypass_run W c secrets f segs
            (acc\<lparr>masked_text := masked_text acc @ out, outcome_manifest := manifest_merge (outcome_manifest acc) m\<rparr>) e)"

lemma bypass_run_cong [fundef_cong]:
  "W = W' \<Longrightarrow> c = c' \<Longrightarrow> secrets = secrets' \<Longrightarrow> segs = segs' \<Longrightarrow> acc = acc' \<Longrightarrow> e = e' \<Longrightarrow>
   (\<And>s x. MaskSeg s \<in> set segs' \<Longrightarrow> f s x = g s x) \<Longrightarrow>
   bypass_run W c secrets f segs acc e = bypass_run W' c' secrets' g segs' acc' e'"
proof -
  have "(\<And>s x. MaskSeg s \<in> set segs \<Longrightarrow> f s x = g s x) \<Longrightarrow>
      bypass_run W c secrets f segs acc e = bypass_run W c secrets g segs acc e"
    by (induction W c secrets f segs acc e rule: bypass_run.induct) (auto split: sum.split prod.split)
  then show "W = W' \<Longrightarrow> c = c' \<Longrightarrow> secrets = secrets' \<Longrightarrow> segs = segs' \<Longrightarrow> acc = acc' \<Longrightarrow> e = e' \<Longrightarrow>
   (\<And>s x. MaskSeg s \<in> set segs' \<Longrightarrow> f s x = g s x) \<Longrightarrow>
   bypass_run W c secrets f segs acc e = bypass_run W' c' secrets' g segs' acc' e'" by simp
qed

lemma segments_shorter:
  assumes "user_bypass_segments t = Some segs" "MaskSeg s \<in> set segs"
  shows "length s < length t \<and> user_bypass_segments s = None"
proof -
  have x: "concat (map segment_text segs) = t" "segments_ok segs" "length segs \<noteq> 1"
    using user_bypass_cases [of t] assms(1) by (auto simp: user_bypass_segments_def split: list.splits)
  have "\<not> marker_pair s \<and> (length segs = 1 \<or> length s < length (concat (map segment_text segs)))"
    using x(2) assms(2)
  proof (induction segs rule: segments_ok.induct)
    case (2 u b r)
    from 2 consider "s = u" | "MaskSeg s \<in> set r" by auto
    then show ?case
    proof cases
      case 1
      with 2(2) have "\<not> marker_pair s" by (auto simp: marker_pair_def contains_def split: option.splits)
      with 1 show ?thesis by simp
    next
      case mem: 2
      have "MaskSeg s \<in> set r \<Longrightarrow> length s \<le> length (concat (map segment_text r))"
        by (induction r) auto
      with mem 2 show ?thesis by auto
    qed
  qed auto
  with x user_bypass_cases [of s] show ?thesis by (auto split: option.splits)
qed

function mask ::
  "'c env \<Rightarrow> int \<Rightarrow> string \<Rightarrow> surface \<Rightarrow> 'c mask_engine \<Rightarrow> (engine_error + mask_outcome) \<times> 'c mask_engine" where
  "mask W today text s e =
     (case (if s = UserMessage then user_bypass_segments text else None) of
        Some segs \<Rightarrow>
          bypass_run W (p_config (e_policy e)) (e_secrets e) (\<lambda>t. mask W today t UserMessage) segs
            (passthrough [] stats_default) e
      | None \<Rightarrow> mask_leaf W today text s e)"
  by pat_completeness auto
termination
  by (relation "measure (\<lambda>(_, _, t, _, _). length t)") (auto dest: segments_shorter split: if_splits)

declare mask.simps [simp del]

lemma mask_plain: "s \<noteq> UserMessage \<or> user_bypass_segments t = None \<Longrightarrow> mask W today t s e = mask_leaf W today t s e"
  by (subst mask.simps) auto

text \<open>The inner calls of a bypass never split again.\<close>

lemma mask_bypass:
  assumes "user_bypass_segments t = Some segs"
  shows "mask W today t UserMessage e =
    bypass_run W (p_config (e_policy e)) (e_secrets e) (\<lambda>u. mask_leaf W today u UserMessage) segs
      (passthrough [] stats_default) e"
proof -
  have "mask W today u UserMessage x = mask_leaf W today u UserMessage x" if "MaskSeg u \<in> set segs" for u x
    using segments_shorter [OF assms that] by (simp add: mask_plain)
  then show ?thesis
    by (subst mask.simps) (simp add: assms cong: bypass_run_cong)
qed

section \<open>Batched prewarm\<close>

type_synonym planned_leaf = "cache_key \<times> string \<times> surface"

fun plan_leaves ::
  "'c env \<Rightarrow> int \<Rightarrow> policy \<Rightarrow> nat \<Rightarrow> nat \<Rightarrow> (string \<times> surface) list \<Rightarrow> cache_key set \<Rightarrow> 'c detection_cache
   \<Rightarrow> planned_leaf list \<times> 'c detection_cache" where
  "plan_leaves W today pol mlfp secfp [] seen c = ([], c)"
| "plan_leaves W today pol mlfp secfp ((raw, s) # ls) seen c =
     (if \<not> surface_enabled (p_config pol) s then plan_leaves W today pol mlfp secfp ls seen c
      else if s = UserMessage \<and> user_bypass_segments raw \<noteq> None then plan_leaves W today pol mlfp secfp ls seen c
      else let text = stripped_for_key pol raw s; key = leaf_key W today pol mlfp secfp text s in
        case cache_get (lru_of W) key c of
          (Some _, c) \<Rightarrow> plan_leaves W today pol mlfp secfp ls seen c
        | (None, c) \<Rightarrow>
            if key \<in> seen then plan_leaves W today pol mlfp secfp ls seen c
            else case plan_leaves W today pol mlfp secfp ls (insert key seen) c of
                (ps, c) \<Rightarrow> ((key, text, s) # ps, c))"

fun recheck_leaves :: "'c env \<Rightarrow> planned_leaf list \<Rightarrow> 'c detection_cache \<Rightarrow> planned_leaf list \<times> 'c detection_cache" where
  "recheck_leaves W [] c = ([], c)"
| "recheck_leaves W ((k, t, s) # ps) c =
     (case cache_get (lru_of W) k c of
        (Some _, c) \<Rightarrow> recheck_leaves W ps c
      | (None, c) \<Rightarrow> (case recheck_leaves W ps c of (qs, c) \<Rightarrow> ((k, t, s) # qs, c)))"

fun insert_all :: "'c env \<Rightarrow> (planned_leaf \<times> cached_detection list) list \<Rightarrow> 'c detection_cache \<Rightarrow> 'c detection_cache" where
  "insert_all W [] c = c"
| "insert_all W (((k, _, _), dets) # r) c = insert_all W r (cache_insert (lru_of W) k dets c)"

definition prewarm_batch :: "'c env \<Rightarrow> int \<Rightarrow> (string \<times> surface) list \<Rightarrow> 'c mask_engine \<Rightarrow> 'c mask_engine" where
  "prewarm_batch W today lvs e =
     (let pol = e_policy e; secrets = e_secrets e in
      if lvs = [] then e
      else if \<not> cfg_enabled (p_config pol) then e
      else case ml_for_mask (e_ml e) of
          (Some mlr, mlfp, _, None) \<Rightarrow>
            (case plan_leaves W today pol mlfp (ss_fp secrets) lvs {} (e_cache e) of
               ([], c) \<Rightarrow> e\<lparr>e_cache := c\<rparr>
             | (plan, c) \<Rightarrow>
                 (case recheck_leaves W plan c of
                    ([], c) \<Rightarrow> e\<lparr>e_cache := c\<rparr>
                  | (pending, c) \<Rightarrow>
                      (case run_detection_batch (prims_of W) (text_of W) (analyzer_of W) (p_config pol) (p_customs pol)
                              (ss_compiled secrets) mlr today (map snd pending) of
                         Inr dets \<Rightarrow> e\<lparr>e_cache := insert_all W (zip pending dets) c\<rparr>
                       | Inl _ \<Rightarrow> e\<lparr>e_cache := c\<rparr>)))
        | _ \<Rightarrow> e)"

end
