(* ===== verification/Mask_Cache.thy ===== *)
theory Mask_Cache
  imports Engine_Mask
begin

text \<open>
  The detection cache does not show: masking behind the cache is masking without one, and the batched
  prewarm changes no later outcome.

  A leaf context is everything a detection reads. \<open>collision_free\<close> says of a set of contexts what the
  hashed key relies on: no two of them collide in a digest, sets with one secret fingerprint are the
  same set, one slot fingerprint belongs to one recognizer. Under it the key determines the
  detections, so a cache that is sound in the sense of the locale \<open>memo\<close> answers as detection does.
\<close>

section \<open>Leaf contexts\<close>

definition policy_ok :: "'c env \<Rightarrow> policy \<Rightarrow> bool" where
  "policy_ok W pol \<longleftrightarrow>
     fail_closed (p_config pol)
     \<and> \<not> secret_only_operator (default_operator (p_config pol))
     \<and> \<not> list_ex secret_only_operator (map snd (entity_operators (p_config pol)))
     \<and> compile_customs (text_of W) (custom_replacements (p_config pol)) = Inr (p_customs pol)
     \<and> p_fp pol = detection_fingerprint (prims_of W) (text_of W) (p_config pol)"

record leaf_ctx =
  cx_policy :: policy
  cx_secrets :: secret_set
  cx_ml :: "ml_recognizer option"
  cx_ml_fp :: nat
  cx_today :: int
  cx_text :: string
  cx_surface :: surface

definition ctx_key :: "'c env \<Rightarrow> leaf_ctx \<Rightarrow> cache_key" where
  "ctx_key W x = leaf_key W (cx_today x) (cx_policy x) (cx_ml_fp x) (ss_fp (cx_secrets x)) (cx_text x) (cx_surface x)"

definition ctx_dets :: "'c env \<Rightarrow> leaf_ctx \<Rightarrow> engine_error + cached_detection list" where
  "ctx_dets W x =
     run_detection (prims_of W) (text_of W) (analyzer_of W) (p_config (cx_policy x)) (p_customs (cx_policy x))
       (ss_compiled (cx_secrets x)) (cx_ml x) (cx_today x) (cx_text x) (cx_surface x)"

definition ctx_ok :: "'c env \<Rightarrow> rat set \<Rightarrow> leaf_ctx \<Rightarrow> bool" where
  "ctx_ok W S x \<longleftrightarrow>
     policy_ok W (cx_policy x) \<and> config_plain (p_config (cx_policy x)) \<and> score_threshold (p_config (cx_policy x)) \<in> S"

definition collision_free :: "'c env \<Rightarrow> leaf_ctx set \<Rightarrow> bool" where
  "collision_free W K \<longleftrightarrow>
     (\<forall>x\<in>K. \<forall>y\<in>K.
        (hash_text (prims_of W) (cx_text x) = hash_text (prims_of W) (cx_text y) \<longrightarrow> cx_text x = cx_text y)
        \<and> (p_fp (cx_policy x) = p_fp (cx_policy y) \<longrightarrow>
             fp_input (text_of W) (p_config (cx_policy x)) = fp_input (text_of W) (p_config (cx_policy y)))
        \<and> (ss_fp (cx_secrets x) = ss_fp (cx_secrets y) \<longrightarrow> ss_compiled (cx_secrets x) = ss_compiled (cx_secrets y))
        \<and> (cx_ml_fp x = cx_ml_fp y \<longrightarrow> cx_ml x = cx_ml y))"

text \<open>With the current-date switch off, the day number is not read.\<close>

lemma suppressed_today:
  "\<not> preserve_current_date c \<Longrightarrow> is_suppressed P R c s d = is_suppressed P R c s d'"
  by (simp add: is_suppressed_def)

lemma detection_today:
  assumes "\<not> preserve_current_date c"
  shows "run_detection P R A c customs secrets mlr d t s = run_detection P R A c customs secrets mlr d' t s"
proof -
  have sup: "is_suppressed P R c u d = is_suppressed P R c u d'" for u
    using suppressed_today [OF assms] .
  have one: "ingest_one P R A c t src d = ingest_one P R A c t src d'" for src
    by (intro ext) (simp only: ingest_one_def sup)
  have ing: "ingest_results P R A c t src d rs st = ingest_results P R A c t src d' rs st" for src rs st
    by (simp only: ingest_results_def one)
  have cm: "custom_match P R c t d cc = custom_match P R c t d' cc" for cc
    by (intro ext) (simp only: custom_match_def sup)
  have "custom_pass P R c customs t s d st = custom_pass P R c customs t s d' st" for st
    by (simp only: custom_pass_def cm)
  then have "detect_base P R A c customs secrets d t s = detect_base P R A c customs secrets d' t s"
    by (simp only: detect_base_def ing)
  then show ?thesis by (simp only: run_detection_def ing)
qed

lemma key_determines:
  assumes "collision_free W K" "x \<in> K" "y \<in> K" "ctx_ok W S x" "ctx_ok W S y" "f32_ok (text_of W) S"
    and "ctx_key W x = ctx_key W y"
  shows "ctx_dets W x = ctx_dets W y"
proof -
  let ?c = "p_config (cx_policy x)" and ?d = "p_config (cx_policy y)"
  from assms(7) have k: "hash_text (prims_of W) (cx_text x) = hash_text (prims_of W) (cx_text y)"
    "cx_surface x = cx_surface y" "p_fp (cx_policy x) = p_fp (cx_policy y)" "cx_ml_fp x = cx_ml_fp y"
    "ss_fp (cx_secrets x) = ss_fp (cx_secrets y)"
    "(if preserve_current_date ?c then cx_today x else 0) = (if preserve_current_date ?d then cx_today y else 0)"
    by (simp_all add: ctx_key_def leaf_key_def)
  with assms(1-3) have e: "cx_text x = cx_text y" "fp_input (text_of W) ?c = fp_input (text_of W) ?d"
    "ss_compiled (cx_secrets x) = ss_compiled (cx_secrets y)" "cx_ml x = cx_ml y"
    unfolding collision_free_def by blast+
  have "f32_ok (text_of W) {score_threshold ?c, score_threshold ?d}"
    using assms(4-6) by (auto simp: f32_ok_def ctx_ok_def inj_on_def)
  then have sd: "same_detection ?c ?d"
    using assms(4,5) fp_input_same_detection e(2) by (simp add: ctx_ok_def)
  then have cust: "p_customs (cx_policy x) = p_customs (cx_policy y)"
    using assms(4,5) by (simp add: ctx_ok_def policy_ok_def same_detection_def)
  have "preserve_current_date ?c = preserve_current_date ?d" using sd by (simp add: same_detection_def)
  with k(6) have "cx_today x = cx_today y \<or> \<not> preserve_current_date ?d" by (auto split: if_splits)
  then have "run_detection (prims_of W) (text_of W) (analyzer_of W) ?d cu se mlr (cx_today x) t s
      = run_detection (prims_of W) (text_of W) (analyzer_of W) ?d cu se mlr (cx_today y) t s" for cu se mlr t s
    using detection_today by metis
  then show ?thesis
    by (simp add: ctx_dets_def run_detection_cong [OF sd] cust e k(2))
qed

section \<open>Sound caches\<close>

text \<open>What may be stored under a key: the detections of every context with that key.\<close>

definition fits :: "'c env \<Rightarrow> leaf_ctx set \<Rightarrow> cache_key \<Rightarrow> cached_detection list \<Rightarrow> bool" where
  "fits W K k v \<longleftrightarrow> (\<forall>x\<in>K. ctx_key W x = k \<longrightarrow> ctx_dets W x = Inr v)"

text \<open>The contexts in play and a cache whose entries fit them.\<close>

definition cache_sound :: "'c env \<Rightarrow> rat set \<Rightarrow> leaf_ctx set \<Rightarrow> 'c detection_cache \<Rightarrow> bool" where
  "cache_sound W S K c \<longleftrightarrow>
     lru_ok (lru_of W) \<and> f32_ok (text_of W) S \<and> collision_free W K \<and> (\<forall>x\<in>K. ctx_ok W S x)
     \<and> dcache.sound (lru_of W) (fits W K) c"

lemma fits_self: "cache_sound W S K c \<Longrightarrow> x \<in> K \<Longrightarrow> ctx_dets W x = Inr v \<Longrightarrow> fits W K (ctx_key W x) v"
  using key_determines [of W K _ x S] unfolding fits_def cache_sound_def by metis

lemma sound_lookup:
  assumes "cache_sound W S K c" "cache_get (lru_of W) k c = (r, c')"
  shows "cache_sound W S K c' \<and> (\<forall>v. r = Some v \<longrightarrow> fits W K k v)"
  using assms dcache.sound_get [of "lru_of W" "fits W K" c k r c'] by (auto simp: cache_sound_def)

lemma sound_insert:
  "cache_sound W S K c \<Longrightarrow> fits W K k v \<Longrightarrow> cache_sound W S K (cache_insert (lru_of W) k v c)"
  using dcache.sound_put [of "lru_of W" "fits W K" c k v] by (simp add: cache_sound_def)

lemma sound_resize: "cache_sound W S K c \<Longrightarrow> cache_sound W S K (cache_set_cap (lru_of W) n c)"
  using dcache.sound_set_cap [of "lru_of W" "fits W K" c n] by (simp add: cache_sound_def)

section \<open>The mask path without a cache\<close>

text \<open>The context of a leaf in an engine.\<close>

definition ctx_of :: "int \<Rightarrow> 'c mask_engine \<Rightarrow> string \<Rightarrow> surface \<Rightarrow> leaf_ctx" where
  "ctx_of today e t s =
     \<lparr>cx_policy = e_policy e, cx_secrets = e_secrets e, cx_ml = fst (ml_for_mask (e_ml e)),
      cx_ml_fp = fst (snd (ml_for_mask (e_ml e))), cx_today = today,
      cx_text = stripped_for_key (e_policy e) t s, cx_surface = s\<rparr>"

text \<open>What a call shows: text and manifest or error, and the session store.\<close>

definition view :: "(engine_error + mask_outcome) \<times> 'c mask_engine \<Rightarrow> (engine_error + string \<times> unmask_manifest) \<times> session_store" where
  "view r =
     (case r of
        (Inl err, e) \<Rightarrow> (Inl err, e_store e)
      | (Inr out, e) \<Rightarrow> (Inr (masked_text out, outcome_manifest out), e_store e))"

text \<open>The abstract mask of one leaf: detect, then apply; the cache and the statistics do not occur.\<close>

definition mask_spec ::
  "'c env \<Rightarrow> int \<Rightarrow> string \<Rightarrow> surface \<Rightarrow> 'c mask_engine \<Rightarrow> (engine_error + string \<times> unmask_manifest) \<times> session_store" where
  "mask_spec W today t s e =
     (if \<not> cfg_enabled (p_config (e_policy e)) \<or> \<not> surface_enabled (p_config (e_policy e)) s
      then view (mask_disabled_path W t s (p_config (e_policy e)) (e_secrets e) e)
      else case snd (snd (snd (ml_for_mask (e_ml e)))) of
          Some reason \<Rightarrow> (Inl (MlError reason), e_store e)
        | None \<Rightarrow>
            (case ctx_dets W (ctx_of today e t s) of
               Inl err \<Rightarrow> (Inl err, e_store e)
             | Inr dets \<Rightarrow>
                 apply_dets (prims_of W) (stripped_for_key (e_policy e) t s) s (p_config (e_policy e)) dets (e_store e)))"

text \<open>What a call leaves alone: everything but the store, the cache and the failure note of the slot.\<close>

definition same_slots :: "'c mask_engine \<Rightarrow> 'c mask_engine \<Rightarrow> bool" where
  "same_slots e e' \<longleftrightarrow>
     e_policy e' = e_policy e \<and> e_secrets e' = e_secrets e \<and> e_broker_policy e' = e_broker_policy e
     \<and> ml_for_mask (e_ml e') = ml_for_mask (e_ml e)"

lemma ml_for_mask_cong:
  "ml_st a = ml_st b \<Longrightarrow> recognizer a = recognizer b \<Longrightarrow> desired a = desired b \<Longrightarrow> load_error a = load_error b \<Longrightarrow>
   slot_fp a = slot_fp b \<Longrightarrow> generation a = generation b \<Longrightarrow> ml_for_mask a = ml_for_mask b"
  by (cases "desired b") (simp_all add: ml_for_mask_def refusal_text_def)

lemma note_mask [simp]:
  "ml_for_mask (ml_note_runtime_failure g err rt) = ml_for_mask rt"
  "ml_for_mask (ml_clear_runtime_failure g rt) = ml_for_mask rt"
  by (rule ml_for_mask_cong; simp add: ml_note_runtime_failure_def ml_clear_runtime_failure_def)+

lemma view_outcome [simp]: "view (outcome_of st (run_apply W t s c dets e)) = apply_dets (prims_of W) t s c dets (e_store e)"
  by (simp add: view_def outcome_of_def run_apply_def split: prod.split sum.split)

lemma outcome_slots: "outcome_of st (run_apply W t s c dets e) = (r, e') \<Longrightarrow> same_slots e e' \<and> e_cache e' = e_cache e"
  by (auto simp: outcome_of_def run_apply_def same_slots_def split: prod.splits sum.splits)

lemma disabled_slots: "mask_disabled_path W t s c secrets e = (r, e') \<Longrightarrow> same_slots e e' \<and> e_cache e' = e_cache e"
  using outcome_slots [of stats_disabled W t s c _ e r e']
  by (auto simp: mask_disabled_path_def Let_def same_slots_def split: if_splits)

text \<open>A lookup, hit or miss, gives what detection gives, and keeps the cache sound.\<close>

lemma detect_and_cache_sound:
  assumes "cache_sound W S K (e_cache e)" "x \<in> K"
    and "x = \<lparr>cx_policy = pol, cx_secrets = sec, cx_ml = mlr, cx_ml_fp = mlfp, cx_today = today, cx_text = t, cx_surface = s\<rparr>"
    and "detect_and_cache W today pol (ss_compiled sec) mlr gen t s (ctx_key W x) st e = (r, e')"
  shows "cache_sound W S K (e_cache e') \<and> e_store e' = e_store e \<and> same_slots e e'
    \<and> (case ctx_dets W x of Inl err \<Rightarrow> r = Inl err | Inr d \<Rightarrow> (\<exists>st'. r = Inr (d, st')))"
proof -
  have d: "run_detection (prims_of W) (text_of W) (analyzer_of W) (p_config pol) (p_customs pol)
      (ss_compiled sec) mlr today t s = ctx_dets W x" by (simp add: assms(3) ctx_dets_def)
  show ?thesis
  proof (cases "ctx_dets W x")
    case (Inl err)
    with assms(1,4) show ?thesis
      unfolding detect_and_cache_def Let_def d by (auto simp: same_slots_def split: if_splits)
  next
    case (Inr v)
    note fit = fits_self [OF assms(1,2) Inr]
    from assms(4) Inr have "e_cache e' = cache_insert (lru_of W) (ctx_key W x) v (e_cache e)"
      "e_store e' = e_store e" "same_slots e e'" "\<exists>st'. r = Inr (v, st')"
      unfolding detect_and_cache_def Let_def d by (auto simp: same_slots_def split: if_splits)
    with sound_insert [OF assms(1) fit] Inr show ?thesis by simp
  qed
qed

lemma same_slots_trans: "same_slots a b \<Longrightarrow> same_slots b c \<Longrightarrow> same_slots a c"
  by (simp add: same_slots_def)

lemma same_slots_cache [simp]: "same_slots e (e\<lparr>e_cache := c\<rparr>)" "same_slots (e\<lparr>e_cache := c\<rparr>) e' = same_slots e e'"
  by (simp_all add: same_slots_def)

text \<open>Dropping the recognizer is harmless where there is none.\<close>

lemma cached_dets_sound:
  assumes "cache_sound W S K (e_cache e)" "x \<in> K"
    and "x = \<lparr>cx_policy = pol, cx_secrets = sec, cx_ml = mlr, cx_ml_fp = mlfp, cx_today = today, cx_text = t, cx_surface = s\<rparr>"
    and "cached_dets W today pol (ss_compiled sec) mlr gen t s (ctx_key W x) e = (r, e')"
  shows "cache_sound W S K (e_cache e') \<and> e_store e' = e_store e \<and> same_slots e e'
    \<and> (case ctx_dets W x of Inl err \<Rightarrow> r = Inl err | Inr d \<Rightarrow> (\<exists>st'. r = Inr (d, st')))"
proof -
  have fit: "ctx_dets W x = Inr v" if "fits W K (ctx_key W x) v" for v
    using that assms(2) by (simp add: fits_def)
  obtain g1 c1 where g1: "cache_get (lru_of W) (ctx_key W x) (e_cache e) = (g1, c1)" by force
  note s1 = sound_lookup [OF assms(1) g1]
  show ?thesis
  proof (cases g1)
    case (Some h)
    with assms(4) g1 have "r = Inr (h, stats_default\<lparr>leaves := 1, hit := 1\<rparr>)" "e' = e\<lparr>e_cache := c1\<rparr>"
      by (simp_all add: cached_dets_def Let_def)
    with s1 Some fit [of h] show ?thesis by simp
  next
    case None
    let ?e1 = "e\<lparr>e_cache := c1\<rparr>"
    have s1': "cache_sound W S K (e_cache ?e1)" using s1 by simp
    show ?thesis
    proof (cases "mlr = None")
      case True
      with assms(4) g1 None
      have "detect_and_cache W today pol (ss_compiled sec) mlr gen t s (ctx_key W x) (stats_default\<lparr>leaves := 1\<rparr>) ?e1 = (r, e')"
        by (simp add: cached_dets_def Let_def)
      from detect_and_cache_sound [OF s1' assms(2,3) this] show ?thesis by simp
    next
      case False
      obtain g2 c2 where g2: "cache_get (lru_of W) (ctx_key W x) c1 = (g2, c2)" by force
      note s2 = sound_lookup [OF s1' [simplified] g2]
      show ?thesis
      proof (cases g2)
        case (Some h)
        with False assms(4) g1 g2 None
        have "r = Inr (h, stats_default\<lparr>leaves := 1, hit := 1\<rparr>)" "e' = e\<lparr>e_cache := c2\<rparr>"
          by (auto simp: cached_dets_def Let_def)
        with s2 Some fit [of h] show ?thesis by simp
      next
        case None2: None
        have s2': "cache_sound W S K (e_cache (e\<lparr>e_cache := c2\<rparr>))" using s2 by simp
        from False assms(4) g1 g2 None None2
        have "detect_and_cache W today pol (ss_compiled sec) mlr gen t s (ctx_key W x) (stats_default\<lparr>leaves := 1\<rparr>)
            (e\<lparr>e_cache := c2\<rparr>) = (r, e')"
          by (auto simp: cached_dets_def Let_def)
        from detect_and_cache_sound [OF s2' assms(2,3) this] show ?thesis by simp
      qed
    qed
  qed
qed

lemma mask_leaf_sound:
  assumes "cache_sound W S K (e_cache e)" "ctx_of today e t s \<in> K" "mask_leaf W today t s e = (r, e')"
  shows "view (r, e') = mask_spec W today t s e \<and> cache_sound W S K (e_cache e') \<and> same_slots e e'"
proof (cases "\<not> cfg_enabled (p_config (e_policy e)) \<or> \<not> surface_enabled (p_config (e_policy e)) s")
  case True
  then have m: "mask_leaf W today t s e = mask_disabled_path W t s (p_config (e_policy e)) (e_secrets e) e"
    by (simp add: mask_leaf_def Let_def)
  with disabled_slots [of W t s _ _ e r e'] assms True show ?thesis
    by (simp add: mask_spec_def)
next
  case False
  obtain mlr mlfp gen refusal where q: "ml_for_mask (e_ml e) = (mlr, mlfp, gen, refusal)" using prod_cases4 by blast
  let ?t = "stripped_for_key (e_policy e) t s" and ?x = "ctx_of today e t s"
  have x: "?x = \<lparr>cx_policy = e_policy e, cx_secrets = e_secrets e, cx_ml = mlr, cx_ml_fp = mlfp, cx_today = today,
      cx_text = ?t, cx_surface = s\<rparr>" by (simp add: ctx_of_def q)
  have key: "leaf_key W today (e_policy e) mlfp (ss_fp (e_secrets e)) ?t s = ctx_key W ?x"
    by (simp add: x ctx_key_def)
  show ?thesis
  proof (cases refusal)
    case (Some reason)
    with assms(1,3) False q show ?thesis
      by (auto simp: mask_leaf_def mask_spec_def view_def same_slots_def Let_def)
  next
    case None
    obtain q1 e1 where q1: "cached_dets W today (e_policy e) (ss_compiled (e_secrets e)) mlr gen ?t s (ctx_key W ?x) e = (q1, e1)"
      by force
    note c = cached_dets_sound [OF assms(1,2) x q1]
    have m: "mask_leaf W today t s e = (case q1 of Inl err \<Rightarrow> (Inl err, e1)
        | Inr (dets, st) \<Rightarrow> outcome_of st (run_apply W ?t s (p_config (e_policy e)) dets e1))"
      using False q None q1 key by (simp add: mask_leaf_def Let_def split: sum.split)
    show ?thesis
    proof (cases "ctx_dets W ?x")
      case (Inl err)
      with c have "q1 = Inl err" by simp
      with m assms(3) c False q None Inl show ?thesis by (auto simp: mask_spec_def view_def)
    next
      case (Inr d)
      with c obtain st where "q1 = Inr (d, st)" by auto
      with m assms(3) have o: "outcome_of st (run_apply W ?t s (p_config (e_policy e)) d e1) = (r, e')" by simp
      from outcome_slots [OF o] c have "same_slots e e'" "cache_sound W S K (e_cache e')"
        using same_slots_trans by auto
      moreover have "view (r, e') = apply_dets (prims_of W) ?t s (p_config (e_policy e)) d (e_store e)"
        using view_outcome [of st W ?t s "p_config (e_policy e)" d e1] o c by simp
      ultimately show ?thesis using False q None Inr by (simp add: mask_spec_def)
    qed
  qed
qed

section \<open>User bypass without a cache\<close>

definition bypass_apply ::
  "'c env \<Rightarrow> engine_config \<Rightarrow> secret_set \<Rightarrow> string \<Rightarrow> session_store \<Rightarrow> (engine_error + string \<times> unmask_manifest) \<times> session_store" where
  "bypass_apply W c secrets s st =
     (let dets = (if ss_compiled secrets = [] then []
                  else resolve_overlaps (detect_secrets_unscoped (text_of W) (ss_compiled secrets) s))
      in if dets = [] then (Inr (s, manifest_new), st) else apply_dets (prims_of W) s UserMessage c dets st)"

fun bypass_spec ::
  "'c env \<Rightarrow> engine_config \<Rightarrow> secret_set
   \<Rightarrow> (string \<Rightarrow> session_store \<Rightarrow> (engine_error + string \<times> unmask_manifest) \<times> session_store)
   \<Rightarrow> bypass_segment list \<Rightarrow> string \<times> unmask_manifest \<Rightarrow> session_store
   \<Rightarrow> (engine_error + string \<times> unmask_manifest) \<times> session_store" where
  "bypass_spec W c secrets g [] acc st = (Inr acc, st)"
| "bypass_spec W c secrets g (MaskSeg s # segs) acc st =
     (if s = [] then bypass_spec W c secrets g segs acc st
      else case g s st of
          (Inl err, st) \<Rightarrow> (Inl err, st)
        | (Inr (out, m), st) \<Rightarrow> bypass_spec W c secrets g segs (fst acc @ out, manifest_merge (snd acc) m) st)"
| "bypass_spec W c secrets g (BypassSeg s # segs) acc st =
     (case bypass_apply W c secrets s st of
        (Inl err, st) \<Rightarrow> (Inl err, st)
      | (Inr (out, m), st) \<Rightarrow> bypass_spec W c secrets g segs (fst acc @ out, manifest_merge (snd acc) m) st)"

definition mask_full_spec ::
  "'c env \<Rightarrow> int \<Rightarrow> string \<Rightarrow> surface \<Rightarrow> 'c mask_engine \<Rightarrow> (engine_error + string \<times> unmask_manifest) \<times> session_store" where
  "mask_full_spec W today t s e =
     (case (if s = UserMessage then user_bypass_segments t else None) of
        Some segs \<Rightarrow>
          bypass_spec W (p_config (e_policy e)) (e_secrets e) (\<lambda>u st. mask_spec W today u UserMessage (e\<lparr>e_store := st\<rparr>))
            segs ([], []) (e_store e)
      | None \<Rightarrow> mask_spec W today t s e)"

text \<open>The leaves a call masks behind the cache.\<close>

definition leaves_of :: "string \<Rightarrow> surface \<Rightarrow> string set" where
  "leaves_of t s =
     (case (if s = UserMessage then user_bypass_segments t else None) of
        Some segs \<Rightarrow> {u. MaskSeg u \<in> set segs} | None \<Rightarrow> {t})"

lemma slots_ctx: "same_slots e e' \<Longrightarrow> ctx_of today e' t s = ctx_of today e t s"
  by (simp add: same_slots_def ctx_of_def)

lemma disabled_view_cong:
  "e_store e' = e_store e \<Longrightarrow> view (mask_disabled_path W t s c secrets e') = view (mask_disabled_path W t s c secrets e)"
  by (simp add: mask_disabled_path_def Let_def) (simp add: view_def passthrough_def)

lemma slots_spec:
  assumes "same_slots e e'" "e_store e' = st"
  shows "mask_spec W today t s e' = mask_spec W today t s (e\<lparr>e_store := st\<rparr>)"
proof -
  have f: "e_policy e' = e_policy e" "e_secrets e' = e_secrets e" "ml_for_mask (e_ml e') = ml_for_mask (e_ml e)"
    "e_store e' = st"
    using assms by (simp_all add: same_slots_def)
  have "ctx_of today e' t s = ctx_of today (e\<lparr>e_store := st\<rparr>) t s" by (simp add: ctx_of_def f)
  moreover have "view (mask_disabled_path W t s c sec e') = view (mask_disabled_path W t s c sec (e\<lparr>e_store := st\<rparr>))" for c sec
    by (rule disabled_view_cong) (simp add: f)
  moreover have "e_policy (e\<lparr>e_store := st\<rparr>) = e_policy e" "e_secrets (e\<lparr>e_store := st\<rparr>) = e_secrets e"
    "e_ml (e\<lparr>e_store := st\<rparr>) = e_ml e" "e_store (e\<lparr>e_store := st\<rparr>) = st" by simp_all
  ultimately show ?thesis by (simp only: mask_spec_def f)
qed

lemma bypass_part_view:
  assumes "bypass_part W c secrets s e = (r, e')"
  shows "same_slots e e' \<and> e_cache e' = e_cache e \<and> bypass_apply W c secrets s (e_store e) = (r, e_store e')"
proof -
  let ?dets = "if ss_compiled secrets = [] then [] else resolve_overlaps (detect_secrets_unscoped (text_of W) (ss_compiled secrets) s)"
  show ?thesis
  proof (cases "?dets = []")
    case True
    with assms have "r = Inr (s, manifest_new)" "e' = e" unfolding bypass_part_def Let_def by simp_all
    with True show ?thesis unfolding bypass_apply_def Let_def by (simp add: same_slots_def)
  next
    case False
    with assms have "run_apply W s UserMessage c ?dets e = (r, e')" unfolding bypass_part_def Let_def by simp
    with False show ?thesis unfolding bypass_apply_def Let_def
      by (auto simp: run_apply_def same_slots_def split: prod.splits)
  qed
qed

lemma bypass_run_sound:
  assumes "cache_sound W S K (e_cache e)" "same_slots e0 e"
    and "\<forall>u. MaskSeg u \<in> set segs \<longrightarrow> ctx_of today e0 u UserMessage \<in> K"
    and "bypass_run W (p_config (e_policy e0)) (e_secrets e0) (\<lambda>u. mask_leaf W today u UserMessage) segs acc e = (r, e')"
  shows "view (r, e') = bypass_spec W (p_config (e_policy e0)) (e_secrets e0)
        (\<lambda>u st. mask_spec W today u UserMessage (e0\<lparr>e_store := st\<rparr>)) segs
        (masked_text acc, outcome_manifest acc) (e_store e)
    \<and> cache_sound W S K (e_cache e') \<and> same_slots e0 e'"
  using assms
proof (induction segs arbitrary: acc e)
  case Nil
  then show ?case by (auto simp: view_def)
next
  case (Cons a segs)
  let ?g = "\<lambda>u st. mask_spec W today u UserMessage (e0\<lparr>e_store := st\<rparr>)"
  let ?c = "p_config (e_policy e0)" and ?sec = "e_secrets e0"
  have ctx: "\<forall>u. MaskSeg u \<in> set segs \<longrightarrow> ctx_of today e0 u UserMessage \<in> K" using Cons.prems(3) by simp
  show ?case
  proof (cases a)
    case (MaskSeg u)
    show ?thesis
    proof (cases "u = []")
      case True
      with Cons.IH [OF Cons.prems(1,2) ctx] Cons.prems(4) MaskSeg show ?thesis by simp
    next
      case False
      obtain q e1 where q: "mask_leaf W today u UserMessage e = (q, e1)" by force
      have "ctx_of today e u UserMessage \<in> K"
        using Cons.prems(3) MaskSeg slots_ctx [OF Cons.prems(2)] by simp
      note m = mask_leaf_sound [OF Cons.prems(1) this q]
      have s1: "same_slots e0 e1" using m Cons.prems(2) same_slots_trans by blast
      have sp: "?g u (e_store e) = view (q, e1)" using m slots_spec [OF Cons.prems(2) refl] by simp
      show ?thesis
      proof (cases q)
        case (Inl err)
        have g: "?g u (e_store e) = (Inl err, e_store e1)" using sp Inl by (simp add: view_def)
        have "r = Inl err" "e' = e1" using Cons.prems(4) MaskSeg False q Inl by simp_all
        with MaskSeg False g s1 m [THEN conjunct2, THEN conjunct1] show ?thesis by (simp add: view_def)
      next
        case (Inr o1)
        let ?acc = "\<lparr>masked_text = masked_text acc @ masked_text o1,
           outcome_manifest = manifest_merge (outcome_manifest acc) (outcome_manifest o1),
           stats = stats_merge (stats acc) (stats o1)\<rparr>"
        have c1: "cache_sound W S K (e_cache e1)" using m by simp
        have "bypass_run W ?c ?sec (\<lambda>u. mask_leaf W today u UserMessage) segs ?acc e1 = (r, e')"
          using Cons.prems(4) MaskSeg False q Inr by simp
        from Cons.IH [OF c1 s1 ctx this] MaskSeg False sp Inr show ?thesis by (simp add: view_def)
      qed
    qed
  next
    case (BypassSeg u)
    obtain q e1 where q: "bypass_part W ?c ?sec u e = (q, e1)" by force
    note b = bypass_part_view [OF q]
    have s1: "same_slots e0 e1" using b Cons.prems(2) same_slots_trans by blast
    have c1: "cache_sound W S K (e_cache e1)" using b Cons.prems(1) by simp
    show ?thesis
    proof (cases q)
      case (Inl err)
      with Cons.prems(4) BypassSeg q b c1 s1 show ?thesis by (auto simp: view_def)
    next
      case (Inr om)
      obtain out m where om: "om = (out, m)" by force
      have "bypass_run W ?c ?sec (\<lambda>u. mask_leaf W today u UserMessage) segs
          (acc\<lparr>masked_text := masked_text acc @ out, outcome_manifest := manifest_merge (outcome_manifest acc) m\<rparr>) e1 = (r, e')"
        using Cons.prems(4) BypassSeg q Inr om by simp
      from Cons.IH [OF c1 s1 ctx this] BypassSeg b Inr om show ?thesis by simp
    qed
  qed
qed

lemma mask_sound:
  assumes "cache_sound W S K (e_cache e)" "\<forall>u\<in>leaves_of t s. ctx_of today e u s \<in> K" "mask W today t s e = (r, e')"
  shows "view (r, e') = mask_full_spec W today t s e \<and> cache_sound W S K (e_cache e') \<and> same_slots e e'"
proof (cases "if s = UserMessage then user_bypass_segments t else None")
  case None
  then have "mask W today t s e = mask_leaf W today t s e" by (subst mask.simps) simp
  with mask_leaf_sound [OF assms(1), of today t s r e'] assms(2,3) None show ?thesis
    by (simp add: leaves_of_def mask_full_spec_def)
next
  case (Some segs)
  then have s: "s = UserMessage" "user_bypass_segments t = Some segs" by (auto split: if_splits)
  have refl: "same_slots e e" by (simp add: same_slots_def)
  from assms(2) s have "\<forall>u. MaskSeg u \<in> set segs \<longrightarrow> ctx_of today e u UserMessage \<in> K" by (simp add: leaves_of_def)
  note b = bypass_run_sound [OF assms(1) refl this, of "passthrough [] stats_default" r e']
  have "bypass_run W (p_config (e_policy e)) (e_secrets e) (\<lambda>u. mask_leaf W today u UserMessage) segs
      (passthrough [] stats_default) e = (r, e')"
    using assms(3) mask_bypass [OF s(2), of W today e] s(1) by simp
  from b [OF this] s show ?thesis by (simp add: mask_full_spec_def passthrough_def manifest_new_def)
qed

section \<open>Prewarm\<close>

text \<open>A planned leaf carries the key and the text of one of the leaf contexts.\<close>

definition plans :: "'c env \<Rightarrow> leaf_ctx set \<Rightarrow> planned_leaf \<Rightarrow> leaf_ctx \<Rightarrow> bool" where
  "plans W K p x \<longleftrightarrow> x \<in> K \<and> p = (ctx_key W x, cx_text x, cx_surface x)"

lemma plan_sound:
  assumes "plan_leaves W today pol mlfp (ss_fp sec) ls seen c = (ps, c')" "cache_sound W S K c"
    and "\<And>raw s. (raw, s) \<in> set ls \<Longrightarrow>
      \<lparr>cx_policy = pol, cx_secrets = sec, cx_ml = mlr, cx_ml_fp = mlfp, cx_today = today,
       cx_text = stripped_for_key pol raw s, cx_surface = s\<rparr> \<in> K"
  shows "cache_sound W S K c' \<and> (\<forall>p\<in>set ps. \<exists>t s. plans W K p
     \<lparr>cx_policy = pol, cx_secrets = sec, cx_ml = mlr, cx_ml_fp = mlfp, cx_today = today, cx_text = t, cx_surface = s\<rparr>)"
  using assms
proof (induction ls arbitrary: seen c ps c')
  case (Cons a ls)
  obtain raw s where a: "a = (raw, s)" by force
  let ?t = "stripped_for_key pol raw s"
  let ?x = "\<lparr>cx_policy = pol, cx_secrets = sec, cx_ml = mlr, cx_ml_fp = mlfp, cx_today = today, cx_text = ?t, cx_surface = s\<rparr>"
  let ?k = "leaf_key W today pol mlfp (ss_fp sec) ?t s"
  have key: "?k = ctx_key W ?x" by (simp add: ctx_key_def)
  have K: "?x \<in> K" using Cons.prems(3) a by simp
  note IH = Cons.IH [OF _ _ Cons.prems(3)]
  show ?case
  proof (cases "surface_enabled (p_config pol) s \<and> \<not> (s = UserMessage \<and> user_bypass_segments raw \<noteq> None)")
    case False
    with Cons.prems(1) a have "plan_leaves W today pol mlfp (ss_fp sec) ls seen c = (ps, c')" by (auto split: if_splits)
    from IH [OF this Cons.prems(2)] a show ?thesis by simp
  next
    case True
    obtain g c1 where g: "cache_get (lru_of W) ?k c = (g, c1)" by force
    have s1: "cache_sound W S K c1" using sound_lookup [OF Cons.prems(2) g] by simp
    show ?thesis
    proof (cases "g \<noteq> None \<or> ?k \<in> seen")
      case skip: True
      with Cons.prems(1) a True g have "plan_leaves W today pol mlfp (ss_fp sec) ls seen c1 = (ps, c')"
        by (auto simp: Let_def split: option.splits if_splits)
      from IH [OF this s1] a show ?thesis by simp
    next
      case False
      obtain qs c2 where q: "plan_leaves W today pol mlfp (ss_fp sec) ls (insert ?k seen) c1 = (qs, c2)" by force
      from False Cons.prems(1) a True g q have "ps = (?k, ?t, s) # qs" "c' = c2"
        by (auto simp: Let_def split: option.splits if_splits)
      moreover have "plans W K (?k, ?t, s) ?x" using K key by (simp add: plans_def)
      ultimately show ?thesis using IH [OF q s1] a by auto
    qed
  qed
qed simp

lemma recheck_sound:
  assumes "recheck_leaves W ps c = (qs, c')" "cache_sound W S K c"
  shows "cache_sound W S K c' \<and> set qs \<subseteq> set ps"
  using assms
proof (induction ps arbitrary: c qs c')
  case (Cons a ps)
  obtain k t s where a: "a = (k, t, s)" using prod_cases3 by blast
  obtain g c1 where g: "cache_get (lru_of W) k c = (g, c1)" by force
  have s1: "cache_sound W S K c1" using sound_lookup [OF Cons.prems(2) g] by simp
  obtain rs c2 where r: "recheck_leaves W ps c1 = (rs, c2)" by force
  from Cons.IH [OF r s1] Cons.prems(1) a g r show ?case by (auto split: option.splits)
qed simp

lemma insert_all_sound:
  assumes "cache_sound W S K c" "\<And>p d. (p, d) \<in> set l \<Longrightarrow> fits W K (fst p) d"
  shows "cache_sound W S K (insert_all W l c)"
  using assms
proof (induction l arbitrary: c)
  case (Cons a l)
  obtain k t s d where a: "a = ((k, t, s), d)" using prod.exhaust by metis
  with Cons.prems(2) [of "(k, t, s)" d] sound_insert [OF Cons.prems(1)] have "cache_sound W S K (cache_insert (lru_of W) k d c)"
    by simp
  from Cons.IH [OF this] Cons.prems(2) a show ?case by simp
qed simp

text \<open>The prewarm touches only the cache, and keeps it sound.\<close>

lemma prewarm_sound:
  assumes "cache_sound W S K (e_cache e)"
    and "\<And>raw s. (raw, s) \<in> set lvs \<Longrightarrow> ctx_of today e raw s \<in> K"
    and batch: "\<And>mlr ts bs. fst (ml_for_mask (e_ml e)) = Some mlr \<Longrightarrow> ml_analyze_batch mlr ts = Inr bs \<Longrightarrow>
      map Inr bs = map (ml_analyze mlr) ts"
  shows "\<exists>c. prewarm_batch W today lvs e = e\<lparr>e_cache := c\<rparr> \<and> cache_sound W S K c"
proof -
  have stay: "\<exists>c. e = e\<lparr>e_cache := c\<rparr> \<and> cache_sound W S K c"
    by (rule exI [of _ "e_cache e"]) (simp add: assms(1))
  obtain mlro mlfp gen refusal where q: "ml_for_mask (e_ml e) = (mlro, mlfp, gen, refusal)" using prod_cases4 by blast
  show ?thesis
  proof (cases "lvs \<noteq> [] \<and> cfg_enabled (p_config (e_policy e)) \<and> mlro \<noteq> None \<and> refusal = None")
    case False
    with q have "prewarm_batch W today lvs e = e"
      by (auto simp: prewarm_batch_def Let_def split: option.split)
    with stay show ?thesis by simp
  next
    case True
    then obtain mlr where mlr: "mlro = Some mlr" by blast
    let ?pol = "e_policy e" and ?sec = "e_secrets e"
    let ?x = "\<lambda>t s. \<lparr>cx_policy = ?pol, cx_secrets = ?sec, cx_ml = Some mlr, cx_ml_fp = mlfp, cx_today = today,
        cx_text = t, cx_surface = s\<rparr>"
    obtain plan c1 where p: "plan_leaves W today ?pol mlfp (ss_fp ?sec) lvs {} (e_cache e) = (plan, c1)" by force
    obtain pend c2 where r: "recheck_leaves W plan c1 = (pend, c2)" by force
    have ctx: "?x (stripped_for_key ?pol raw s) s \<in> K" if "(raw, s) \<in> set lvs" for raw s
      using assms(2) [OF that] by (simp add: ctx_of_def q mlr)
    from plan_sound [OF p assms(1) ctx] have c1: "cache_sound W S K c1" "\<forall>p\<in>set plan. \<exists>t s. plans W K p (?x t s)" by blast+
    from recheck_sound [OF r c1(1)] c1(2) have c2: "cache_sound W S K c2" "\<forall>p\<in>set pend. \<exists>t s. plans W K p (?x t s)" by auto
    show ?thesis
    proof (cases "plan = [] \<or> pend = []")
      case nil: True
      with True q mlr p r have "prewarm_batch W today lvs e = e\<lparr>e_cache := c1\<rparr> \<or> prewarm_batch W today lvs e = e\<lparr>e_cache := c2\<rparr>"
        by (auto simp: prewarm_batch_def Let_def split: list.split)
      with c1 c2 show ?thesis by blast
    next
      case False
      let ?b = "run_detection_batch (prims_of W) (text_of W) (analyzer_of W) (p_config ?pol) (p_customs ?pol)
          (ss_compiled ?sec) mlr today (map snd pend)"
      from False True q mlr p r
      have e': "prewarm_batch W today lvs e
          = e\<lparr>e_cache := (case ?b of Inr dets \<Rightarrow> insert_all W (zip pend dets) c2 | Inl _ \<Rightarrow> c2)\<rparr>"
        by (cases plan; cases pend) (auto simp: prewarm_batch_def Let_def split: sum.split)
      show ?thesis
      proof (cases ?b)
        case (Inl err)
        with e' c2(1) show ?thesis by (intro exI [of _ c2]) simp
      next
        case (Inr dets)
        have "fst (ml_for_mask (e_ml e)) = Some mlr" by (simp add: q mlr)
        note b = run_batch_single [OF batch [OF this] Inr]
        have "fits W K (fst pl) d" if m: "(pl, d) \<in> set (zip pend dets)" for pl d
        proof -
          obtain i where i: "i < length pend" "i < length dets" "pl = pend ! i" "d = dets ! i"
            using m by (auto simp: set_zip)
          obtain t s where x: "plans W K pl (?x t s)" using c2(2) i nth_mem by blast
          then have "snd pl = (t, s)" by (simp add: plans_def)
          then have "ctx_dets W (?x t s) = Inr d"
            using arg_cong [OF b, of "\<lambda>l. l ! i"] i by (simp add: ctx_dets_def)
          with fits_self [OF c2(1)] x show ?thesis by (simp add: plans_def)
        qed
        then have "cache_sound W S K (insert_all W (zip pend dets) c2)" using insert_all_sound [OF c2(1)] by blast
        with e' Inr show ?thesis by auto
      qed
    qed
  qed
qed

section \<open>Properties of the cached mask path\<close>

lemma spec_cache: "mask_spec W today t s (e\<lparr>e_cache := c\<rparr>) = mask_spec W today t s e"
proof -
  have "view (mask_disabled_path W t s k sec (e\<lparr>e_cache := c\<rparr>)) = view (mask_disabled_path W t s k sec e)" for k sec
    by (rule disabled_view_cong) simp
  moreover have "e_policy (e\<lparr>e_cache := c\<rparr>) = e_policy e" "e_secrets (e\<lparr>e_cache := c\<rparr>) = e_secrets e"
    "e_ml (e\<lparr>e_cache := c\<rparr>) = e_ml e" "e_store (e\<lparr>e_cache := c\<rparr>) = e_store e"
    "ctx_of today (e\<lparr>e_cache := c\<rparr>) t s = ctx_of today e t s" by (simp_all add: ctx_of_def)
  ultimately show ?thesis by (simp only: mask_spec_def)
qed

lemma full_spec_cache: "mask_full_spec W today t s (e\<lparr>e_cache := c\<rparr>) = mask_full_spec W today t s e"
proof -
  have upd: "(e\<lparr>e_cache := c\<rparr>)\<lparr>e_store := st\<rparr> = (e\<lparr>e_store := st\<rparr>)\<lparr>e_cache := c\<rparr>" for st by simp
  have "mask_spec W today u UserMessage ((e\<lparr>e_cache := c\<rparr>)\<lparr>e_store := st\<rparr>)
      = mask_spec W today u UserMessage (e\<lparr>e_store := st\<rparr>)" for u st
    unfolding upd by (rule spec_cache)
  moreover have "e_policy (e\<lparr>e_cache := c\<rparr>) = e_policy e" "e_secrets (e\<lparr>e_cache := c\<rparr>) = e_secrets e"
    "e_store (e\<lparr>e_cache := c\<rparr>) = e_store e" by simp_all
  ultimately show ?thesis by (simp only: mask_full_spec_def spec_cache)
qed


text \<open>
  The batched prewarm is additive: whatever leaves it is given, it changes no slot but the cache, and
  every later mask shows the same text, manifest, error and store as without it. The recognizer's
  batch call must return what its single calls return.
\<close>

theorem prewarm_transparent:
  assumes "cache_sound W S K (e_cache e)"
    and "\<And>raw s. (raw, s) \<in> set lvs \<Longrightarrow> ctx_of today e raw s \<in> K"
    and "\<And>mlr ts bs. fst (ml_for_mask (e_ml e)) = Some mlr \<Longrightarrow> ml_analyze_batch mlr ts = Inr bs \<Longrightarrow>
      map Inr bs = map (ml_analyze mlr) ts"
    and "\<forall>u\<in>leaves_of t s. ctx_of today e u s \<in> K"
  shows "view (mask W today t s (prewarm_batch W today lvs e)) = view (mask W today t s e)
    \<and> same_slots e (prewarm_batch W today lvs e) \<and> e_store (prewarm_batch W today lvs e) = e_store e"
proof -
  obtain c where c: "prewarm_batch W today lvs e = e\<lparr>e_cache := c\<rparr>" "cache_sound W S K c"
    using prewarm_sound [OF assms(1-3)] by blast
  have ctx: "ctx_of today (e\<lparr>e_cache := c\<rparr>) u s = ctx_of today e u s" for u by (simp add: ctx_of_def)
  obtain r1 e1 r2 e2 where m: "mask W today t s (e\<lparr>e_cache := c\<rparr>) = (r1, e1)" "mask W today t s e = (r2, e2)"
    by fastforce
  have "view (r1, e1) = mask_full_spec W today t s (e\<lparr>e_cache := c\<rparr>)"
    using mask_sound [of W S K "e\<lparr>e_cache := c\<rparr>" t s today r1 e1] c(2) assms(4) m(1) ctx by simp
  moreover have "view (r2, e2) = mask_full_spec W today t s e"
    using mask_sound [OF assms(1,4) m(2)] by simp
  ultimately show ?thesis using c(1) m full_spec_cache [where e = e and c = c] by (simp add: same_slots_def)
qed

text \<open>A concrete environment: a cache that never evicts, the sample primitives, no recognizers.\<close>

definition sample_lru :: "(cache_key \<Rightarrow> cached_detection list option) lru_api" where
  "sample_lru =
     \<lparr>lru_new = (\<lambda>_ _. None), lru_get = (\<lambda>k c. (c k, c)), lru_put = (\<lambda>k v c. c(k \<mapsto> v)), lru_resize = (\<lambda>_ c. c),
      lru_clear = (\<lambda>_ _. None), lru_cap = (\<lambda>_. 50000), lru_peek = (\<lambda>k c. c k)\<rparr>"

lemma sample_lru_ok: "lru_ok sample_lru"
  by (simp add: lru_ok_def sample_lru_def)

definition sample_env :: "(cache_key \<Rightarrow> cached_detection list option) env" where
  "sample_env = \<lparr>prims_of = sample_prims, text_of = sample_text, analyzer_of = sample_analyzer, lru_of = sample_lru\<rparr>"

lemma policy_new_ok:
  assumes "policy_new W config = Inr pol"
  shows "policy_ok W pol \<and> p_config pol = config\<lparr>fail_closed := True\<rparr>"
  using assms by (auto simp: policy_new_def policy_ok_def Let_def split: if_splits sum.splits)

lemma sample_engine:
  obtains e where "engine_new sample_env (engine_config_default sample_prims) = Inr e"
    "policy_ok sample_env (e_policy e)" "p_config (e_policy e) = engine_config_default sample_prims"
    "e_cache e = cache_new sample_lru 50000" "e_store e = store_new sample_prims"
    "e_ml e = ml_runtime_default sample_prims sample_text"
proof -
  let ?c = "engine_config_default sample_prims"
  have fc: "?c\<lparr>fail_closed := True\<rparr> = ?c" by (simp add: engine_config_default_def)
  have "is_ok (policy_new sample_env ?c)"
    by (simp add: policy_new_def engine_config_default_def compile_customs_def secret_only_operator_def Let_def)
  then obtain pol where pol: "policy_new sample_env ?c = Inr pol" by blast
  from policy_new_ok [OF pol] fc have "policy_ok sample_env pol" "p_config pol = ?c" by simp_all
  moreover have "detection_cache_cap ?c = 50000" by (simp add: engine_config_default_def)
  ultimately show ?thesis
    using that pol by (simp add: engine_new_def from_parts_def sample_env_def)
qed

lemma sample_sound:
  assumes "policy_ok sample_env (e_policy e)" "p_config (e_policy e) = engine_config_default sample_prims"
  shows "cache_sound sample_env {5/10} {ctx_of 0 e t s} (cache_new sample_lru 50000)"
proof -
  have "dcache.sound sample_lru g (cache_new sample_lru n)" for g n
    using dcache.sound_new [of sample_lru] sample_lru_ok .
  moreover have "ctx_ok sample_env {5/10} (ctx_of 0 e t s)"
    using assms default_plain by (simp add: ctx_ok_def ctx_of_def engine_config_default_def)
  ultimately show ?thesis
    using sample_lru_ok
    by (simp add: cache_sound_def sample_env_def f32_ok_def collision_free_def sample_text_def)
qed


lemma prewarm_transparent_witness:
  "\<exists>e. fst (ml_for_mask (e_ml e)) = Some sample_ml
     \<and> view (mask sample_env 0 ''Bo ran'' ToolResult (prewarm_batch sample_env 0 [(''Bo ran'', ToolResult)] e))
       = view (mask sample_env 0 ''Bo ran'' ToolResult e)"
proof -
  obtain e0 where "engine_new sample_env (engine_config_default sample_prims) = Inr e0"
    and e0: "policy_ok sample_env (e_policy e0)" "p_config (e_policy e0) = engine_config_default sample_prims"
      "e_cache e0 = cache_new sample_lru 50000"
    by (rule sample_engine)
  let ?e = "e0\<lparr>e_ml := ml_set_ready sample_prims sample_text 1 sample_ml sample_loading\<rparr>"
  have rec: "fst (ml_for_mask (e_ml ?e)) = Some sample_ml"
    by (simp add: ml_for_mask_def slot_defs ml_runtime_default_def)
  have snd: "cache_sound sample_env {5/10} {ctx_of 0 ?e ''Bo ran'' ToolResult} (e_cache ?e)"
    using sample_sound [of ?e] e0 by simp
  have batch: "map Inr bs = map (ml_analyze sample_ml) ts" if "ml_analyze_batch sample_ml ts = Inr bs" for ts bs
    using that by (auto simp: sample_ml_def Let_def)
  have "view (mask sample_env 0 ''Bo ran'' ToolResult (prewarm_batch sample_env 0 [(''Bo ran'', ToolResult)] ?e))
       = view (mask sample_env 0 ''Bo ran'' ToolResult ?e)"
    by (rule prewarm_transparent [OF snd, THEN conjunct1]) (use rec batch in \<open>auto simp: leaves_of_def\<close>)
  with rec show ?thesis by blast
qed

end
