(* ===== verification/Engine_Unmask.thy ===== *)
theory Engine_Unmask
  imports Engine_Mask
begin

text \<open>
  The unmasking half of \<open>lib.rs\<close>: the tool-input restore policy, the whole-value test, the shared
  unmask loop and its four entry points, the audit reveals, and the resolution of broker handles in a
  tool-input JSON value.

  \<open>js_quote\<close> is \<open>serde_json::to_string\<close> on a string. One call is one step with one clock reading, since
  the store's lock is held throughout. A JSON value is the datatype \<open>json\<close>; the members of an object
  are listed in serde's iteration order.
\<close>

section \<open>JSON values\<close>

datatype json =
    JNull
  | JBool bool
  | JNum string
  | JStr string
  | JArr "json list"
  | JObj "(string \<times> json) list"

record json_api =
  js_quote :: "string \<Rightarrow> string option"

section \<open>The tool-input gate\<close>

datatype unmask_context = Display | ToolInput | OtherPath
datatype whole_value_mode = Bare | JsonQuoted
datatype whole_value_source = RawJsonSource | DecodedLeaf
datatype tool_input_restore = Gated | WholeValueOnly | Embedded

definition tool_input_restore_policy :: "string \<Rightarrow> tool_input_restore" where
  "tool_input_restore_policy entity =
     (if list_ex (\<lambda>c. entity \<in> set (entity_types c)) [Secrets, Financial, Identity, Contact] then Gated
      else if entity \<in> {''URL'', ''DOMAIN'', ''IP_ADDRESS''} then Embedded
      else if entity = ''MAC_ADDRESS'' \<or> entity \<in> set (entity_types Personal) then WholeValueOnly
      else Gated)"

fun backslashes_before :: "string \<Rightarrow> nat \<Rightarrow> nat" where
  "backslashes_before s 0 = 0"
| "backslashes_before s (Suc k) = (if s ! k = CHR 0x5C then Suc (backslashes_before s k) else 0)"

definition is_unescaped_quote :: "string \<Rightarrow> nat \<Rightarrow> bool" where
  "is_unescaped_quote s q \<longleftrightarrow> even (backslashes_before s q)"

definition tool_input_whole_value_mode ::
  "string \<Rightarrow> nat \<Rightarrow> nat \<Rightarrow> whole_value_source \<Rightarrow> whole_value_mode option" where
  "tool_input_whole_value_mode text a b src =
     (if trim (take a text) = [] \<and> trim (drop b text) = [] then Some Bare
      else if src = DecodedLeaf then None
      else let left_quote = 1 \<le> a \<and> text ! (a - 1) = CHR 0x22 \<and> is_unescaped_quote text (a - 1);
               right_quote = b < length text \<and> text ! b = CHR 0x22
        in if \<not> (left_quote \<and> right_quote) then None
           else if starts_with '':'' (dropWhile is_ascii_ws (drop (b + 1) text)) then None
           else Some JsonQuoted)"

definition json_escape_body :: "json_api \<Rightarrow> string \<Rightarrow> string" where
  "json_escape_body J s =
     (case js_quote J s of
        Some q \<Rightarrow> if 2 \<le> length q then slice q 1 (length q - 1) else s
      | None \<Rightarrow> s)"

section \<open>The unmask loop\<close>

text \<open>The plaintext a handle stands for: the manifest first, then the session store.\<close>

definition resolve_plain :: "prims \<Rightarrow> nat \<Rightarrow> session_store \<Rightarrow> unmask_manifest \<Rightarrow> string \<Rightarrow> string option" where
  "resolve_plain P now st mf tok =
     (case find_entry mf tok of
        Some e \<Rightarrow> Some (canonical_form e)
      | None \<Rightarrow>
          (case reveal P now st tok of
             Some v \<Rightarrow> Some v
           | None \<Rightarrow> map_option rv_value (reveal_for P now st tok Local)))"

definition handle_is_local :: "session_store \<Rightarrow> unmask_manifest \<Rightarrow> string \<Rightarrow> bool" where
  "handle_is_local st mf tok = (case find_entry mf tok of Some e \<Rightarrow> local e | None \<Rightarrow> is_local st tok)"

definition handle_policy :: "unmask_manifest \<Rightarrow> string \<Rightarrow> tool_input_restore" where
  "handle_policy mf tok =
     (case (case find_entry mf tok of Some e \<Rightarrow> Some (entity_kind e) | None \<Rightarrow> token_entity_label tok) of
        Some label \<Rightarrow> tool_input_restore_policy label
      | None \<Rightarrow> Gated)"

definition restore_in_tool ::
  "json_api \<Rightarrow> whole_value_source \<Rightarrow> string \<Rightarrow> nat \<Rightarrow> nat \<Rightarrow> tool_input_restore \<Rightarrow> string \<Rightarrow> string option \<Rightarrow> string" where
  "restore_in_tool J src text a b policy tok pt =
     (case policy of
        Gated \<Rightarrow> tok
      | WholeValueOnly \<Rightarrow>
          (case tool_input_whole_value_mode text a b src of
             Some JsonQuoted \<Rightarrow> (case pt of Some p \<Rightarrow> json_escape_body J p | None \<Rightarrow> tok)
           | Some Bare \<Rightarrow> (case pt of Some p \<Rightarrow> p | None \<Rightarrow> tok)
           | None \<Rightarrow> tok)
      | Embedded \<Rightarrow>
          (case pt of
             Some p \<Rightarrow> (case src of RawJsonSource \<Rightarrow> json_escape_body J p | DecodedLeaf \<Rightarrow> p)
           | None \<Rightarrow> tok))"

definition unmask_token ::
  "prims \<Rightarrow> json_api \<Rightarrow> nat \<Rightarrow> session_store \<Rightarrow> unmask_manifest \<Rightarrow> reveal_marker option \<Rightarrow> unmask_context
   \<Rightarrow> whole_value_source \<Rightarrow> string \<Rightarrow> nat \<Rightarrow> nat \<Rightarrow> string" where
  "unmask_token P J now st mf marker ctx src text a b =
     (let tok = slice text a b in
      if is_broker_token tok then tok
      else if handle_is_local st mf tok \<and> ctx \<noteq> Display \<and> \<not> is_tool_promoted st tok then tok
      else if ctx = ToolInput \<and> \<not> handle_is_local st mf tok
        then restore_in_tool J src text a b (handle_policy mf tok) tok (resolve_plain P now st mf tok)
      else case (resolve_plain P now st mf tok, marker) of
          (Some p, Some mk) \<Rightarrow> marker_wrap mk p
        | (Some p, None) \<Rightarrow> p
        | (None, _) \<Rightarrow> tok)"

text \<open>The handles outside the token grammar, replaced one after the other in the unmasked text.\<close>

definition unmask_literal :: "reveal_marker option \<Rightarrow> unmask_context \<Rightarrow> manifest_entry \<Rightarrow> string \<Rightarrow> string" where
  "unmask_literal marker ctx e out =
     (if broker e \<or> local e \<or> ctx = ToolInput then out
      else if token_is_match (token_handle e) then out
      else str_replace (token_handle e)
             (case marker of Some mk \<Rightarrow> marker_wrap mk (canonical_form e) | None \<Rightarrow> canonical_form e) out)"

definition unmask_inner ::
  "prims \<Rightarrow> json_api \<Rightarrow> nat \<Rightarrow> session_store \<Rightarrow> string \<Rightarrow> unmask_manifest \<Rightarrow> reveal_marker option
   \<Rightarrow> unmask_context \<Rightarrow> whole_value_source \<Rightarrow> string" where
  "unmask_inner P J now st text mf marker ctx src =
     (let out = splice_hits (unmask_token P J now st mf marker ctx src text) text 0 (find_iter token_match text)
      in fold (unmask_literal marker ctx) mf out)"

text \<open>The \<open>Result\<close> of the entry points is always \<open>Ok\<close>.\<close>

definition unmask :: "'c env \<Rightarrow> json_api \<Rightarrow> nat \<Rightarrow> string \<Rightarrow> unmask_manifest \<Rightarrow> 'c mask_engine \<Rightarrow> engine_error + string" where
  "unmask W J now text mf e =
     Inr (unmask_inner (prims_of W) J now (e_store e) text mf None OtherPath RawJsonSource)"

definition unmask_tool_input ::
  "'c env \<Rightarrow> json_api \<Rightarrow> nat \<Rightarrow> string \<Rightarrow> unmask_manifest \<Rightarrow> 'c mask_engine \<Rightarrow> engine_error + string" where
  "unmask_tool_input W J now text mf e =
     Inr (unmask_inner (prims_of W) J now (e_store e) text mf None ToolInput RawJsonSource)"

definition unmask_tool_input_decoded_leaf ::
  "'c env \<Rightarrow> json_api \<Rightarrow> nat \<Rightarrow> string \<Rightarrow> unmask_manifest \<Rightarrow> 'c mask_engine \<Rightarrow> engine_error + string" where
  "unmask_tool_input_decoded_leaf W J now text mf e =
     Inr (unmask_inner (prims_of W) J now (e_store e) text mf None ToolInput DecodedLeaf)"

definition unmask_assistant ::
  "'c env \<Rightarrow> json_api \<Rightarrow> nat \<Rightarrow> string \<Rightarrow> unmask_manifest \<Rightarrow> 'c mask_engine \<Rightarrow> engine_error + string" where
  "unmask_assistant W J now text mf e =
     (let mk = cfg_reveal_marker (p_config (e_policy e))
      in Inr (unmask_inner (prims_of W) J now (e_store e) text mf
                (if marker_is_active mk then Some mk else None) Display RawJsonSource))"

definition strip_reveal_marker :: "'c mask_engine \<Rightarrow> string \<Rightarrow> string" where
  "strip_reveal_marker e text =
     (let mk = cfg_reveal_marker (p_config (e_policy e))
      in if marker_is_active mk \<and> marker_contained_in mk text then marker_strip mk text else text)"

section \<open>Audit reveals, promotion, session export\<close>

definition engine_reveal :: "'c env \<Rightarrow> nat \<Rightarrow> string \<Rightarrow> 'c mask_engine \<Rightarrow> string option" where
  "engine_reveal W now tok e = reveal (prims_of W) now (e_store e) tok"

datatype reveal_audit_result =
    AuditUnknown
  | AuditBroker "string option"
  | AuditPii string
  | AuditLocal string

definition reveal_audit :: "'c env \<Rightarrow> nat \<Rightarrow> string \<Rightarrow> 'c mask_engine \<Rightarrow> reveal_audit_result" where
  "reveal_audit W now tok e =
     (case class_of now (e_store e) tok of
        None \<Rightarrow> AuditUnknown
      | Some (Broker, name) \<Rightarrow> AuditBroker name
      | Some (Pii, _) \<Rightarrow>
          (case reveal (prims_of W) now (e_store e) tok of None \<Rightarrow> AuditUnknown | Some v \<Rightarrow> AuditPii v)
      | Some (Local, _) \<Rightarrow>
          (case reveal_for (prims_of W) now (e_store e) tok Local of
             None \<Rightarrow> AuditUnknown | Some r \<Rightarrow> AuditLocal (rv_value r)))"

definition is_unresolvable_handle ::
  "'c env \<Rightarrow> nat \<Rightarrow> string \<Rightarrow> unmask_manifest \<Rightarrow> 'c mask_engine \<Rightarrow> bool" where
  "is_unresolvable_handle W now handle mf e \<longleftrightarrow>
     manifest_lookup mf handle = None \<and> reveal_audit W now handle e = AuditUnknown"

definition promote_token :: "string \<Rightarrow> 'c mask_engine \<Rightarrow> 'c mask_engine" where
  "promote_token tok e = e\<lparr>e_store := promote tok (e_store e)\<rparr>"

definition local_redaction_pairs :: "'c env \<Rightarrow> nat \<Rightarrow> 'c mask_engine \<Rightarrow> (string \<times> string) list" where
  "local_redaction_pairs W now e = local_pairs (prims_of W) now (e_store e)"

definition session_handle :: "'c mask_engine \<Rightarrow> string \<times> string" where
  "session_handle e = (session_key (e_store e), salt (e_store e))"

section \<open>Broker handles in a tool-input value\<close>

record broker_resolve_report =
  br_resolved :: nat
  br_denied :: "(string \<times> deny_reason) list"

definition report_new :: broker_resolve_report where
  "report_new = \<lparr>br_resolved = 0, br_denied = []\<rparr>"

definition rfc6901_escape :: "string \<Rightarrow> string" where
  "rfc6901_escape k = str_replace ''/'' ''~1'' (str_replace ''~'' ''~0'' k)"

fun show_nat :: "nat \<Rightarrow> string" where
  "show_nat n = (if n < 10 then [char_of (48 + n)] else show_nat (n div 10) @ [char_of (48 + n mod 10)])"

declare show_nat.simps [simp del]

text \<open>One match of the loop: the substitution it adds, if any, and the report it leaves.\<close>

definition broker_hit ::
  "prims \<Rightarrow> broker_api \<Rightarrow> nat \<Rightarrow> string \<Rightarrow> string \<Rightarrow> string \<Rightarrow> broker_policy \<Rightarrow> session_store \<Rightarrow> nat \<times> nat
   \<Rightarrow> ((nat \<times> nat) \<times> string) list \<times> bool \<times> broker_resolve_report
   \<Rightarrow> ((nat \<times> nat) \<times> string) list \<times> bool \<times> broker_resolve_report" where
  "broker_hit P B now leaf tool pointer policy st m acc =
     (let (subs, saw, report) = acc; tok = slice leaf (fst m) (snd m) in
      if \<not> is_broker_token tok then (subs, saw, report)
      else case reveal_for P now st tok Broker of
          Some rv \<Rightarrow>
            (case decide B policy (case rv_secret_name rv of Some n \<Rightarrow> n | None \<Rightarrow> []) tool pointer leaf of
               Resolve \<Rightarrow> (subs @ [(m, rv_value rv)], True, report\<lparr>br_resolved := br_resolved report + 1\<rparr>)
             | Deny reason \<Rightarrow> (subs, True, report\<lparr>br_denied := br_denied report @ [(pointer, reason)]\<rparr>))
        | None \<Rightarrow> (subs, True, report\<lparr>br_denied := br_denied report @ [(pointer, NoRule)]\<rparr>))"

definition broker_resolve_leaf ::
  "prims \<Rightarrow> broker_api \<Rightarrow> nat \<Rightarrow> string \<Rightarrow> string \<Rightarrow> string \<Rightarrow> broker_policy \<Rightarrow> session_store
   \<Rightarrow> broker_resolve_report \<Rightarrow> string option \<times> broker_resolve_report" where
  "broker_resolve_leaf P B now leaf tool pointer policy st report =
     (let (subs, saw, report) =
            fold (broker_hit P B now leaf tool pointer policy st) (find_iter token_match leaf) ([], False, report)
      in if \<not> saw \<or> subs = [] then (None, report)
         else (Some (fold (\<lambda>((a, b), value) out. replace_range a b value out)
                       (rev (sort_key (\<lambda>s. fst (fst s)) subs)) leaf), report))"

fun broker_walk ::
    "prims \<Rightarrow> broker_api \<Rightarrow> nat \<Rightarrow> string \<Rightarrow> broker_policy \<Rightarrow> session_store \<Rightarrow> string \<Rightarrow> json
     \<Rightarrow> broker_resolve_report \<Rightarrow> json \<times> broker_resolve_report"
  and broker_walk_items ::
    "prims \<Rightarrow> broker_api \<Rightarrow> nat \<Rightarrow> string \<Rightarrow> broker_policy \<Rightarrow> session_store \<Rightarrow> string \<Rightarrow> nat \<Rightarrow> json list
     \<Rightarrow> broker_resolve_report \<Rightarrow> json list \<times> broker_resolve_report"
  and broker_walk_members ::
    "prims \<Rightarrow> broker_api \<Rightarrow> nat \<Rightarrow> string \<Rightarrow> broker_policy \<Rightarrow> session_store \<Rightarrow> string \<Rightarrow> (string \<times> json) list
     \<Rightarrow> broker_resolve_report \<Rightarrow> (string \<times> json) list \<times> broker_resolve_report"
where
  "broker_walk P B now tool policy st pointer (JStr s) report =
     (case broker_resolve_leaf P B now s tool pointer policy st report of
        (Some s', report) \<Rightarrow> (JStr s', report)
      | (None, report) \<Rightarrow> (JStr s, report))"
| "broker_walk P B now tool policy st pointer (JArr xs) report =
     (let (xs', report) = broker_walk_items P B now tool policy st pointer 0 xs report in (JArr xs', report))"
| "broker_walk P B now tool policy st pointer (JObj ms) report =
     (let (ms', report) = broker_walk_members P B now tool policy st pointer ms report in (JObj ms', report))"
| "broker_walk P B now tool policy st pointer v report = (v, report)"
| "broker_walk_items P B now tool policy st pointer i [] report = ([], report)"
| "broker_walk_items P B now tool policy st pointer i (x # xs) report =
     (let (x', report) = broker_walk P B now tool policy st (pointer @ ''/'' @ show_nat i) x report;
          (xs', report) = broker_walk_items P B now tool policy st pointer (Suc i) xs report
      in (x' # xs', report))"
| "broker_walk_members P B now tool policy st pointer [] report = ([], report)"
| "broker_walk_members P B now tool policy st pointer ((k, x) # ms) report =
     (let (x', report) = broker_walk P B now tool policy st (pointer @ ''/'' @ rfc6901_escape k) x report;
          (ms', report) = broker_walk_members P B now tool policy st pointer ms report
      in ((k, x') # ms', report))"

definition broker_resolve_pointers ::
  "'c env \<Rightarrow> broker_api \<Rightarrow> nat \<Rightarrow> string \<Rightarrow> json \<Rightarrow> 'c mask_engine \<Rightarrow> json \<times> broker_resolve_report" where
  "broker_resolve_pointers W B now tool input e =
     broker_walk (prims_of W) B now tool (e_broker_policy e) (e_store e) [] input report_new"

end
