(* ===== verification/Unmask_Laws.thy ===== *)
theory Unmask_Laws
  imports Engine_Unmask Mask_Cache
begin

text \<open>
  What the unmasking entry points promise: which handles are sealed on which path (as
  non-interference: the output does not depend on the sealed plaintext), what a tool input gets by
  entity class, and the round trip with \<open>apply\<close>.
\<close>

section \<open>Sealed handles\<close>

text \<open>A handle whose plaintext the given path refuses.\<close>

definition sealed_handle :: "unmask_context \<Rightarrow> session_store \<Rightarrow> unmask_manifest \<Rightarrow> string \<Rightarrow> bool" where
  "sealed_handle ctx st mf tok \<longleftrightarrow>
     is_broker_token tok
     \<or> (ctx \<noteq> Display \<and> handle_is_local st mf tok \<and> \<not> is_tool_promoted st tok)
     \<or> (ctx = ToolInput \<and> \<not> handle_is_local st mf tok \<and> handle_policy mf tok = Gated)"

definition same_store :: "string set \<Rightarrow> session_store \<Rightarrow> session_store \<Rightarrow> bool" where
  "same_store H s s' \<longleftrightarrow>
     session_key s = session_key s' \<and> tool_promoted s = tool_promoted s'
     \<and> (\<forall>h. rel_option (\<lambda>x y. kind x = kind y \<and> (h \<notin> H \<longrightarrow> x = y)) (map_of (token_map s) h) (map_of (token_map s') h))"

definition same_entry :: "string set \<Rightarrow> manifest_entry \<Rightarrow> manifest_entry \<Rightarrow> bool" where
  "same_entry H x y \<longleftrightarrow>
     token_handle x = token_handle y \<and> entity_kind x = entity_kind y \<and> broker x = broker y \<and> local x = local y
     \<and> (token_handle x \<notin> H \<longrightarrow> canonical_form x = canonical_form y)"

lemma same_find:
  "list_all2 (same_entry H) mf mf' \<Longrightarrow> rel_option (same_entry H) (find_entry mf t) (find_entry mf' t)"
  unfolding find_entry_def by (induction mf mf' rule: list_all2_induct) (auto simp: same_entry_def)

lemma same_local:
  assumes "same_store H s s'" "list_all2 (same_entry H) mf mf'"
  shows "handle_is_local s mf t = handle_is_local s' mf' t"
proof -
  have "is_local s t = is_local s' t"
    using assms(1) unfolding same_store_def is_local_def
    by (auto elim!: allE [of _ t] option.rel_cases)
  then show ?thesis
    using same_find [OF assms(2), of t] unfolding handle_is_local_def
    by (auto elim!: option.rel_cases simp: same_entry_def)
qed

lemma same_policy: "list_all2 (same_entry H) mf mf' \<Longrightarrow> handle_policy mf t = handle_policy mf' t"
  using same_find [of H mf mf' t] unfolding handle_policy_def
  by (auto elim!: option.rel_cases simp: same_entry_def)

lemma same_resolve:
  assumes "same_store H s s'" "list_all2 (same_entry H) mf mf'" "t \<notin> H"
  shows "resolve_plain P now s mf t = resolve_plain P now s' mf' t"
proof -
  have "map_of (token_map s) t = map_of (token_map s') t" "session_key s = session_key s'"
    using assms(1,3) unfolding same_store_def by (auto elim!: allE [of _ t] option.rel_cases)
  then have "reveal P now s t = reveal P now s' t" "reveal_for P now s t Local = reveal_for P now s' t Local"
    by (simp_all add: reveal_def reveal_for_def decrypt_def split: option.splits)
  then show ?thesis
    using same_find [OF assms(2), of t] assms(3) find_entry_Some [of mf t] unfolding resolve_plain_def
    by (auto elim!: option.rel_cases simp: same_entry_def split: option.splits)
qed

lemma splice_cong:
  "(\<And>a b. (a, b) \<in> set ms \<Longrightarrow> f a b = g a b) \<Longrightarrow> splice_hits f s i ms = splice_hits g s i ms"
  by (induction ms arbitrary: i) auto

lemma fold_literal_same:
  assumes "list_all2 (same_entry H) mf mf'"
    and "\<And>x. x \<in> set mf \<Longrightarrow> token_handle x \<in> H \<Longrightarrow>
           broker x \<or> local x \<or> ctx = ToolInput \<or> token_is_match (token_handle x)"
  shows "fold (unmask_literal mk ctx) mf out = fold (unmask_literal mk ctx) mf' out"
  using assms
proof (induction mf mf' arbitrary: out rule: list_all2_induct)
  case (Cons x xs y ys)
  have "unmask_literal mk ctx x out = unmask_literal mk ctx y out"
    using Cons.hyps(1) Cons.prems [of x] unfolding same_entry_def unmask_literal_def
    by (auto split: option.splits)
  with Cons.IH Cons.prems show ?case by simp
qed simp

lemma sealed_token:
  assumes "sealed_handle ctx st mf (slice text a b)"
  shows "unmask_token P J now st mf mk ctx src text a b = slice text a b"
  using assms unfolding sealed_handle_def unmask_token_def Let_def restore_in_tool_def by auto

lemma unmask_independent:
  assumes "same_store H s s'" "list_all2 (same_entry H) mf mf'"
    and "\<And>h. h \<in> H \<Longrightarrow> sealed_handle ctx s mf h"
    and "\<And>x. x \<in> set mf \<Longrightarrow> token_handle x \<in> H \<Longrightarrow>
           broker x \<or> local x \<or> ctx = ToolInput \<or> token_is_match (token_handle x)"
  shows "unmask_inner P J now s text mf mk ctx src = unmask_inner P J now s' text mf' mk ctx src"
proof -
  have prom: "is_tool_promoted s = is_tool_promoted s'"
    using assms(1) by (simp add: same_store_def is_tool_promoted_def fun_eq_iff)
  have "unmask_token P J now s mf mk ctx src text a b = unmask_token P J now s' mf' mk ctx src text a b" for a b
  proof (cases "slice text a b \<in> H")
    case True
    have "sealed_handle ctx s' mf' (slice text a b)"
      using assms(3) [OF True] same_local [OF assms(1,2)] same_policy [OF assms(2)] prom
      by (simp add: sealed_handle_def)
    then show ?thesis using assms(3) [OF True] by (simp add: sealed_token)
  next
    case False
    then show ?thesis
      unfolding unmask_token_def Let_def
      by (simp add: same_local [OF assms(1,2)] same_policy [OF assms(2)] prom same_resolve [OF assms(1,2)])
  qed
  then have "splice_hits (unmask_token P J now s mf mk ctx src text) text 0 ms
      = splice_hits (unmask_token P J now s' mf' mk ctx src text) text 0 ms" for ms
    by (intro splice_cong)
  then show ?thesis
    unfolding unmask_inner_def Let_def using fold_literal_same [OF assms(2,4)] by simp
qed

section \<open>Token scans of composed texts\<close>

lemma scan_skip_plain: "CHR ''['' \<notin> set u \<Longrightarrow> scan token_match i (u @ s) = scan token_match (i + length u) s"
proof (induction u arbitrary: i)
  case (Cons c cs)
  have "token_match (c # cs @ s) = None" using Cons.prems token_match_open [of c "cs @ s"] by fastforce
  with Cons show ?case by simp
qed simp

lemma single_token:
  assumes "t \<in> token_lang" "CHR ''['' \<notin> set u" "CHR ''['' \<notin> set v"
  shows "find_iter token_match (u @ t @ v) = [(length u, length u + length t)]"
proof -
  have "scan token_match k v = []" for k using scan_skip_plain [OF assms(3), of k "[]"] by simp
  then show ?thesis
    unfolding find_iter_def scan_skip_plain [OF assms(2)] tok.scan_hit [OF token_match_self [OF assms(1)]] by simp
qed

lemma slice_middle: "slice (u @ t @ v) (length u) (length u + length t) = t"
  by (simp add: slice_def)

lemma slice_prefix: "slice (u @ x) 0 (length u) = u"
  by (simp add: slice_def)

lemma splice_single:
  "splice_hits f (u @ t @ v) 0 [(length u, length u + length t)] = u @ f (length u) (length u + length t) @ v"
  by (simp add: slice_prefix)

lemma subst_skip_plain: "CHR ''['' \<notin> set u \<Longrightarrow> subst token_match h (u @ s) = u @ subst token_match h s"
proof (induction u)
  case (Cons c cs)
  have "token_match (c # cs @ s) = None" using Cons.prems token_match_open [of c "cs @ s"] by fastforce
  with Cons show ?case by simp
qed simp

text \<open>Substituting in a masked text whose renderings are tokens and whose kept parts hold no bracket.\<close>

lemma subst_masked:
  assumes "\<And>d. d \<in> set dets \<Longrightarrow> g d (slice t (d_start d) (d_end d)) \<in> token_lang"
    and "CHR ''['' \<notin> set (masked (\<lambda>_ _. []) t p dets)"
  shows "subst token_match h (masked g t p dets) = masked (\<lambda>d s. h (g d s)) t p dets"
  using assms
proof (induction dets arbitrary: p)
  case Nil
  then show ?case using subst_skip_plain [of "drop p t" h "[]"] by simp
next
  case (Cons d ds)
  let ?x = "g d (slice t (d_start d) (d_end d))"
  have "subst token_match h (?x @ masked g t (d_end d) ds) = h ?x @ subst token_match h (masked g t (d_end d) ds)"
    using tok.subst_hit [OF token_match_self [OF Cons.prems(1) [of d]]] by simp
  with Cons show ?case by (simp add: subst_skip_plain)
qed

lemma masked_cong:
  "(\<And>d. d \<in> set dets \<Longrightarrow> g d (slice t (d_start d) (d_end d)) = h d (slice t (d_start d) (d_end d)))
     \<Longrightarrow> masked g t p dets = masked h t p dets"
  by (induction dets arbitrary: p) auto

lemma masked_same:
  "p \<le> length t \<Longrightarrow> sorted_wrt (\<lambda>a b. d_end a \<le> d_start b) dets
     \<Longrightarrow> (\<And>d. d \<in> set dets \<Longrightarrow> p \<le> d_start d \<and> d_start d \<le> d_end d \<and> d_end d \<le> length t)
     \<Longrightarrow> masked (\<lambda>_ s. s) t p dets = drop p t"
proof (induction dets arbitrary: p)
  case (Cons d ds)
  have d: "p \<le> d_start d" "d_start d \<le> d_end d" "d_end d \<le> length t" using Cons.prems(3) [of d] by simp_all
  have "masked (\<lambda>_ s. s) t (d_end d) ds = drop (d_end d) t"
    by (rule Cons.IH) (use Cons.prems d in \<open>auto\<close>)
  with d show ?case by (simp add: slice_append_drop)
qed simp

section \<open>The round trip with apply\<close>

lemma find_entry_member: "x \<in> set mf \<Longrightarrow> \<exists>y. find_entry mf (token_handle x) = Some y"
  unfolding find_entry_def by (cases "find (\<lambda>e. token_handle e = token_handle x) mf") (auto simp: find_None_iff)

lemma fold_literal_tokens:
  "(\<And>x. x \<in> set mf \<Longrightarrow> token_is_match (token_handle x)) \<Longrightarrow> fold (unmask_literal mk ctx) mf out = out"
  by (induction mf) (simp_all add: unmask_literal_def)

lemma unmask_masked:
  fixes c surface sl t dets P
  defines "mf \<equiv> List.map_filter (entry_of P c surface sl t) (rev dets)"
  assumes al: "aligned t dets" and dg: "digest_ok P"
    and op: "\<And>d. d \<in> set dets \<Longrightarrow> resolve_operator c d = OpToken \<and> d_fixed_token d = None
           \<and> entity_safe P (d_entity d)
           \<and> \<not> is_broker_token (make_token P (d_entity d) (slice t (d_start d) (d_end d)) sl)"
    and gaps: "CHR ''['' \<notin> set (masked (\<lambda>_ _. []) t 0 dets)"
    and inj: "\<And>d d'. d \<in> set dets \<Longrightarrow> d' \<in> set dets \<Longrightarrow>
           make_token P (d_entity d) (slice t (d_start d) (d_end d)) sl
             = make_token P (d_entity d') (slice t (d_start d') (d_end d')) sl
           \<Longrightarrow> slice t (d_start d) (d_end d) = slice t (d_start d') (d_end d')"
    and ctx: "ctx \<noteq> ToolInput"
  shows "unmask_inner P J now st (masked (rendering P c sl) t 0 dets) mf mk ctx src
     = masked (\<lambda>_ s. case mk of Some k \<Rightarrow> marker_wrap k s | None \<Rightarrow> s) t 0 dets"
proof -
  let ?w = "\<lambda>s. case mk of Some k \<Rightarrow> marker_wrap k s | None \<Rightarrow> s"
  let ?v = "\<lambda>d. slice t (d_start d) (d_end d)"
  let ?tk = "\<lambda>d. make_token P (d_entity d) (?v d) sl"
  have mt: "minted_token P c sl d (?v d) = Some (?tk d, Pii)" if "d \<in> set dets" for d
    using op [OF that] by (simp add: minted_token_def)
  have lang: "rendering P c sl d (?v d) = ?tk d \<and> ?tk d \<in> token_lang" if "d \<in> set dets" for d
    using op [OF that] mt [OF that] make_token_in_lang [OF dg] by (simp add: rendering_def)
  have mem: "x \<in> set mf \<longleftrightarrow> (\<exists>d\<in>set dets. entry_of P c surface sl t d = Some x)" for x
    by (simp add: mf_def set_map_filter)
  have ent: "token_is_match (token_handle x) \<and> \<not> local x \<and> (\<exists>d\<in>set dets. token_handle x = ?tk d \<and> canonical_form x = ?v d)"
    if x: "x \<in> set mf" for x
  proof -
    obtain d where d: "d \<in> set dets" "entry_of P c surface sl t d = Some x" using x mem by blast
    have h: "token_handle x = ?tk d" "canonical_form x = ?v d" "\<not> local x"
      using d(2) mt [OF d(1)] by (auto simp: entry_of_def Let_def)
    have "find_iter token_match (?tk d) \<noteq> []"
      using tok.scan_hit [OF token_match_self [of "?tk d" "[]"]] lang [OF d(1)] by (simp add: find_iter_def)
    with h d(1) show ?thesis by (auto simp: token_is_match_def)
  qed
  have hit: "find_entry mf (?tk d) \<noteq> None \<and> (\<forall>x. find_entry mf (?tk d) = Some x \<longrightarrow> canonical_form x = ?v d \<and> \<not> local x)"
    if d: "d \<in> set dets" for d
  proof (intro conjI allI impI)
    obtain x where x: "entry_of P c surface sl t d = Some x" "token_handle x = ?tk d"
      using mt [OF d] by (simp add: entry_of_def Let_def)
    then have "x \<in> set mf" using d mem by blast
    with x show "find_entry mf (?tk d) \<noteq> None" using find_entry_member by fastforce
  next
    fix x assume f: "find_entry mf (?tk d) = Some x"
    then have x: "x \<in> set mf" "token_handle x = ?tk d" using find_entry_Some [OF f] by simp_all
    then obtain d' where "d' \<in> set dets" "?tk d = ?tk d'" "canonical_form x = ?v d'" using ent by fastforce
    with inj [OF d] show "canonical_form x = ?v d" by simp
    from ent x(1) show "\<not> local x" by blast
  qed
  define h where "h tk = (if is_broker_token tk then tk
      else if handle_is_local st mf tk \<and> ctx \<noteq> Display \<and> \<not> is_tool_promoted st tk then tk
      else case resolve_plain P now st mf tk of Some p \<Rightarrow> ?w p | None \<Rightarrow> tk)" for tk
  have "unmask_token P J now st mf mk ctx src s a b = h (slice s a b)" for s a b
    using ctx by (auto simp: unmask_token_def Let_def h_def split: option.splits)
  then have "unmask_inner P J now st (masked (rendering P c sl) t 0 dets) mf mk ctx src
      = fold (unmask_literal mk ctx) mf (subst token_match h (masked (rendering P c sl) t 0 dets))"
    unfolding unmask_inner_def Let_def by (subst tok.splice_find_iter [where g = h]) simp_all
  also have "\<dots> = subst token_match h (masked (rendering P c sl) t 0 dets)"
    by (rule fold_literal_tokens) (use ent in blast)
  also have "\<dots> = masked (\<lambda>d s. h (rendering P c sl d s)) t 0 dets"
    by (rule subst_masked) (use lang gaps in auto)
  also have "\<dots> = masked (\<lambda>_ s. ?w s) t 0 dets"
  proof (rule masked_cong)
    fix d assume d: "d \<in> set dets"
    have "\<not> is_broker_token (?tk d)" using op [OF d] by simp
    moreover obtain x where "find_entry mf (?tk d) = Some x" "canonical_form x = ?v d" "\<not> local x" using hit [OF d] by blast
    ultimately show "h (rendering P c sl d (?v d)) = ?w (?v d)"
      using lang [OF d] by (simp add: h_def handle_is_local_def resolve_plain_def)
  qed
  finally show ?thesis .
qed

section \<open>Properties\<close>

text \<open>
  C13. A sealed handle gives nothing away: on any path, the unmasked text is the same whatever plaintext
  the manifest or the store holds under handles that path seals. Broker handles are sealed on every
  path, unpromoted local ones everywhere but on the display, and in a tool input also every handle of a
  sensitive or unknown class. A manifest entry of such a handle must be flagged broker or local, or its
  handle be in the token grammar, as the handles \<open>apply\<close> mints are (tool inputs need neither).
\<close>

theorem sealed_values_unobservable:
  assumes "\<And>h. h \<in> H \<Longrightarrow> sealed_handle ctx st mf h"
    and "same_store H st st'" "list_all2 (same_entry H) mf mf'"
    and "\<And>x. x \<in> set mf \<Longrightarrow> token_handle x \<in> H \<Longrightarrow>
           broker x \<or> local x \<or> ctx = ToolInput \<or> token_is_match (token_handle x)"
  shows "unmask_inner P J now st text mf mk ctx src = unmask_inner P J now st' text mf' mk ctx src"
  using assms(2,3,1,4) by (rule unmask_independent)

definition sample_entry :: "string \<Rightarrow> string \<Rightarrow> string \<Rightarrow> manifest_entry" where
  "sample_entry value handle entity =
     \<lparr>canonical_form = value, token_handle = handle, entity_kind = entity, arrow_origin = UserMessage,
      exposed_at = None, broker = False, local = False\<rparr>"

definition sample_json :: json_api where
  "sample_json = \<lparr>js_quote = (\<lambda>s. Some ([CHR 0x22] @ s @ [CHR 0x22]))\<rparr>"

lemma sealed_values_unobservable_witness:
  "unmask_inner sample_prims sample_json 0 (store_new sample_prims) ''mail [EMAIL_ADDRESS_0123456789ab] now''
       [sample_entry ''a@b.c'' ''[EMAIL_ADDRESS_0123456789ab]'' ''EMAIL_ADDRESS''] None ToolInput RawJsonSource
     = unmask_inner sample_prims sample_json 0 (store_new sample_prims) ''mail [EMAIL_ADDRESS_0123456789ab] now''
       [sample_entry ''x@y.z'' ''[EMAIL_ADDRESS_0123456789ab]'' ''EMAIL_ADDRESS''] None ToolInput RawJsonSource"
proof (rule sealed_values_unobservable [where H = "{''[EMAIL_ADDRESS_0123456789ab]''}"])
  fix h assume "h \<in> {''[EMAIL_ADDRESS_0123456789ab]''}"
  then show "sealed_handle ToolInput (store_new sample_prims)
       [sample_entry ''a@b.c'' ''[EMAIL_ADDRESS_0123456789ab]'' ''EMAIL_ADDRESS''] h"
    by (simp add: sealed_handle_def handle_is_local_def handle_policy_def find_entry_def sample_entry_def
        tool_input_restore_policy_def)
next
  have "rel_option (\<lambda>x y. kind x = kind y \<and> (h \<notin> {''[EMAIL_ADDRESS_0123456789ab]''} \<longrightarrow> x = y)) z z" for h z
    by (cases z) simp_all
  then show "same_store {''[EMAIL_ADDRESS_0123456789ab]''} (store_new sample_prims) (store_new sample_prims)"
    by (simp add: same_store_def)
qed (simp_all add: sample_entry_def same_entry_def)

text \<open>
  What a decoded tool-input leaf gets, by class: with one handle in the leaf that is neither a
  broker nor a local one, a gated class leaves the leaf as it is; a whole-value class is restored
  exactly when nothing but white space surrounds the handle, quotes included; an embedded class is
  restored anywhere. The restored value is spliced as it is, and an unknown handle stays.
\<close>

theorem decoded_leaf_by_class:
  assumes "tok \<in> token_lang" "\<not> is_broker_token tok" "\<not> handle_is_local (e_store e) mf tok"
    and "CHR ''['' \<notin> set u" "CHR ''['' \<notin> set v"
  shows "unmask_tool_input_decoded_leaf W J now (u @ tok @ v) mf e =
    Inr (case handle_policy mf tok of
           Gated \<Rightarrow> u @ tok @ v
         | WholeValueOnly \<Rightarrow>
             if trim u = [] \<and> trim v = []
             then u @ (case resolve_plain (prims_of W) now (e_store e) mf tok of Some p \<Rightarrow> p | None \<Rightarrow> tok) @ v
             else u @ tok @ v
         | Embedded \<Rightarrow>
             u @ (case resolve_plain (prims_of W) now (e_store e) mf tok of Some p \<Rightarrow> p | None \<Rightarrow> tok) @ v)"
proof -
  have "fold (unmask_literal None ToolInput) mf out = out" for out
    by (induction mf) (simp_all add: unmask_literal_def)
  then show ?thesis
    using assms(2,3)
    by (simp add: unmask_tool_input_decoded_leaf_def unmask_inner_def single_token [OF assms(1,4,5)]
        splice_single [simplified] unmask_token_def slice_middle [simplified] restore_in_tool_def
        tool_input_whole_value_mode_def slice_prefix split: tool_input_restore.split option.split)
qed

lemma decoded_leaf_by_class_witness:
  "\<exists>e. engine_new sample_env (engine_config_default sample_prims) = Inr e
     \<and> unmask_tool_input_decoded_leaf sample_env sample_json 0 ('' '' @ ''[PERSON_0123456789ab]'' @ [])
         [sample_entry ''Bo'' ''[PERSON_0123456789ab]'' ''PERSON''] e = Inr '' Bo''
     \<and> unmask_tool_input_decoded_leaf sample_env sample_json 0 (''echo '' @ ''[PERSON_0123456789ab]'' @ [])
         [sample_entry ''Bo'' ''[PERSON_0123456789ab]'' ''PERSON''] e = Inr ''echo [PERSON_0123456789ab]''"
proof -
  let ?t = "''[PERSON_0123456789ab]''" and ?mf = "[sample_entry ''Bo'' ''[PERSON_0123456789ab]'' ''PERSON'']"
  obtain e where e: "engine_new sample_env (engine_config_default sample_prims) = Inr e" by (rule sample_engine)
  have t: "?t \<in> token_lang" unfolding token_lang_iff
    by (rule exI [of _ "''PERSON_0123456789ab''"]) code_simp
  have f: "find_entry ?mf ?t = Some (sample_entry ''Bo'' ?t ''PERSON'')" by (simp add: find_entry_def sample_entry_def)
  have l: "\<not> handle_is_local (e_store e) ?mf ?t" by (simp add: handle_is_local_def f) (simp add: sample_entry_def)
  have g: "handle_policy ?mf ?t = WholeValueOnly"
    by (simp add: handle_policy_def f) (simp add: sample_entry_def tool_input_restore_policy_def entity_labels)
  have r: "resolve_plain P now st ?mf ?t = Some ''Bo''" for P now st
    by (simp add: resolve_plain_def f) (simp add: sample_entry_def)
  have b: "\<not> is_broker_token ?t" by (simp add: is_broker_token_def starts_with_def)
  have w: "trim '' '' = []" "trim [] = []" "trim ''echo '' \<noteq> []" by code_simp+
  from decoded_leaf_by_class [OF t b l, of "'' ''" "[]" sample_env sample_json 0]
    decoded_leaf_by_class [OF t b l, of "''echo ''" "[]" sample_env sample_json 0] e w
  show ?thesis by (simp add: g r)
qed



end
