(* ===== verification/Broker_Resolve.thy ===== *)
theory Broker_Resolve
  imports Engine_Unmask Mask_Cache
begin

text \<open>
  The resolution of broker handles in a tool-input value against its reference: the walk that threads
  pointer and report and splices back to front is one pass that rewrites every string leaf by itself,
  and the pointers it hands to the policy name the leaves uniquely.
\<close>

section \<open>Reference\<close>

definition verdict ::
  "prims \<Rightarrow> broker_api \<Rightarrow> nat \<Rightarrow> string \<Rightarrow> broker_policy \<Rightarrow> session_store \<Rightarrow> string \<Rightarrow> string \<Rightarrow> string \<Rightarrow> deny_reason + string" where
  "verdict P B now tool policy st pointer leaf tok =
     (case reveal_for P now st tok Broker of
        None \<Rightarrow> Inl NoRule
      | Some rv \<Rightarrow>
          (case decide B policy (case rv_secret_name rv of Some n \<Rightarrow> n | None \<Rightarrow> []) tool pointer leaf of
             Resolve \<Rightarrow> Inr (rv_value rv)
           | Deny reason \<Rightarrow> Inl reason))"

definition resolved_leaf ::
  "prims \<Rightarrow> broker_api \<Rightarrow> nat \<Rightarrow> string \<Rightarrow> broker_policy \<Rightarrow> session_store \<Rightarrow> string \<Rightarrow> string \<Rightarrow> string" where
  "resolved_leaf P B now tool policy st pointer leaf =
     subst token_match
       (\<lambda>tok. if is_broker_token tok
              then case verdict P B now tool policy st pointer leaf tok of Inr value \<Rightarrow> value | Inl _ \<Rightarrow> tok
              else tok) leaf"

definition broker_handles :: "string \<Rightarrow> string list" where
  "broker_handles leaf = filter is_broker_token (map (\<lambda>(a, b). slice leaf a b) (find_iter token_match leaf))"

text \<open>Every string leaf with its RFC 6901 pointer, in walk order, and the rewriting of all leaves.\<close>

fun json_leaves :: "string \<Rightarrow> json \<Rightarrow> (string \<times> string) list"
  and json_leaves_items :: "string \<Rightarrow> nat \<Rightarrow> json list \<Rightarrow> (string \<times> string) list"
  and json_leaves_members :: "string \<Rightarrow> (string \<times> json) list \<Rightarrow> (string \<times> string) list"
where
  "json_leaves p (JStr s) = [(p, s)]"
| "json_leaves p (JArr xs) = json_leaves_items p 0 xs"
| "json_leaves p (JObj ms) = json_leaves_members p ms"
| "json_leaves p v = []"
| "json_leaves_items p i [] = []"
| "json_leaves_items p i (x # xs) = json_leaves (p @ ''/'' @ show_nat i) x @ json_leaves_items p (Suc i) xs"
| "json_leaves_members p [] = []"
| "json_leaves_members p ((k, x) # ms) = json_leaves (p @ ''/'' @ rfc6901_escape k) x @ json_leaves_members p ms"

fun json_map :: "(string \<Rightarrow> string \<Rightarrow> string) \<Rightarrow> string \<Rightarrow> json \<Rightarrow> json"
  and json_map_items :: "(string \<Rightarrow> string \<Rightarrow> string) \<Rightarrow> string \<Rightarrow> nat \<Rightarrow> json list \<Rightarrow> json list"
  and json_map_members :: "(string \<Rightarrow> string \<Rightarrow> string) \<Rightarrow> string \<Rightarrow> (string \<times> json) list \<Rightarrow> (string \<times> json) list"
where
  "json_map g p (JStr s) = JStr (g p s)"
| "json_map g p (JArr xs) = JArr (json_map_items g p 0 xs)"
| "json_map g p (JObj ms) = JObj (json_map_members g p ms)"
| "json_map g p v = v"
| "json_map_items g p i [] = []"
| "json_map_items g p i (x # xs) = json_map g (p @ ''/'' @ show_nat i) x # json_map_items g p (Suc i) xs"
| "json_map_members g p [] = []"
| "json_map_members g p ((k, x) # ms) = (k, json_map g (p @ ''/'' @ rfc6901_escape k) x) # json_map_members g p ms"

section \<open>One leaf\<close>

fun splice_subs :: "string \<Rightarrow> nat \<Rightarrow> ((nat \<times> nat) \<times> string) list \<Rightarrow> string" where
  "splice_subs s p [] = drop p s"
| "splice_subs s p (((a, b), v) # xs) = slice s p a @ v @ splice_subs s b xs"

lemma take_slice_more: "a \<le> b \<Longrightarrow> take a s @ slice s a b @ r = take b s @ r"
  by (metis append.assoc slice_append_take)

lemma slice_slice_more: "a \<le> b \<Longrightarrow> b \<le> c \<Longrightarrow> slice s a b @ slice s b c @ r = slice s a c @ r"
  by (metis append.assoc slice_append_slice)

lemma replace_back_to_front:
  assumes "sorted_wrt (\<lambda>x y. snd (fst x) \<le> fst (fst y)) xs" "p \<le> length s"
    and "\<And>x. x \<in> set xs \<Longrightarrow> p \<le> fst (fst x) \<and> fst (fst x) \<le> snd (fst x) \<and> snd (fst x) \<le> length s"
  shows "foldr (\<lambda>((a, b), v). replace_range a b v) xs s = take p s @ splice_subs s p xs"
  using assms
proof (induction xs arbitrary: p)
  case (Cons x xs)
  obtain a b v where x: "x = ((a, b), v)" by (metis prod.exhaust)
  have ab: "p \<le> a" "a \<le> b" "b \<le> length s" using Cons.prems(3) [of x] x by simp_all
  have "foldr (\<lambda>((a, b), v). replace_range a b v) xs s = take b s @ splice_subs s b xs"
    by (rule Cons.IH) (use Cons.prems x ab in auto)
  then show ?case
    by (simp add: x replace_range_def [of a b v] ab take_slice_more)
qed simp

lemma splice_subs_skip:
  assumes "p \<le> q" "\<And>x. x \<in> set xs \<Longrightarrow> q \<le> fst (fst x)"
  shows "slice s p q @ splice_subs s q xs = splice_subs s p xs"
proof (cases xs)
  case Nil
  with assms(1) show ?thesis by (simp add: slice_append_drop)
next
  case (Cons x ys)
  obtain a b v where "x = ((a, b), v)" by (metis prod.exhaust)
  with Cons assms slice_append_slice [of p q a s] assms(2) [of x] show ?thesis by simp
qed

definition hit_subs ::
  "prims \<Rightarrow> broker_api \<Rightarrow> nat \<Rightarrow> string \<Rightarrow> broker_policy \<Rightarrow> session_store \<Rightarrow> string \<Rightarrow> string \<Rightarrow> nat \<times> nat
   \<Rightarrow> ((nat \<times> nat) \<times> string) option" where
  "hit_subs P B now tool policy st pointer leaf m =
     (if is_broker_token (slice leaf (fst m) (snd m))
      then case verdict P B now tool policy st pointer leaf (slice leaf (fst m) (snd m)) of
          Inr value \<Rightarrow> Some (m, value) | Inl _ \<Rightarrow> None
      else None)"

lemma splice_hit_subs:
  assumes "sorted_wrt (\<lambda>x y. snd x \<le> fst y) ms" "\<And>m. m \<in> set ms \<Longrightarrow> p \<le> fst m \<and> fst m \<le> snd m"
    and "\<And>a b. f a b = (case hit_subs P B now tool policy st pointer leaf (a, b) of Some (_, v) \<Rightarrow> v | None \<Rightarrow> slice leaf a b)"
  shows "splice_hits f leaf p ms = splice_subs leaf p (List.map_filter (hit_subs P B now tool policy st pointer leaf) ms)"
  using assms(1,2)
proof (induction ms arbitrary: p)
  case (Cons m ms)
  let ?h = "hit_subs P B now tool policy st pointer leaf"
  obtain a b where m: "m = (a, b)" by force
  have ab: "p \<le> a" "a \<le> b" using Cons.prems(2) [of m] m by simp_all
  have IH: "splice_hits f leaf b ms = splice_subs leaf b (List.map_filter ?h ms)"
    by (rule Cons.IH) (use Cons.prems m in auto)
  have fst_h: "?h x = Some y \<Longrightarrow> fst y = x" for x y
    by (auto simp: hit_subs_def split: if_splits sum.splits)
  show ?case
  proof (cases "?h m")
    case None
    have later: "b \<le> fst (fst x)" if x: "x \<in> set (List.map_filter ?h ms)" for x
    proof -
      obtain y where "y \<in> set ms" "?h y = Some x" using x unfolding set_map_filter by blast
      with Cons.prems(1) m fst_h [of y x] show ?thesis by simp
    qed
    have "slice leaf p a @ slice leaf a b @ splice_subs leaf b (List.map_filter ?h ms)
        = splice_subs leaf p (List.map_filter ?h ms)"
      using splice_subs_skip [OF _ later, where p = p and s = leaf] ab by (simp add: slice_slice_more)
    with None m IH assms(3) [of a b] show ?thesis by (simp add: map_filter_simps)
  next
    case (Some y)
    then obtain v where "?h m = Some (m, v)" using fst_h [OF Some] by (metis prod.collapse)
    with m IH assms(3) [of a b] show ?thesis by (simp add: map_filter_simps)
  qed
qed (simp add: map_filter_simps)

lemma hits_ordered:
  "sorted_wrt (\<lambda>x y. snd x \<le> fst y) (find_iter token_match leaf)"
  "(a, b) \<in> set (find_iter token_match leaf) \<Longrightarrow> a < b \<and> b \<le> length leaf"
  using tok.scan_ordered [of 0 leaf] tok.scan_in_bounds [where a = a and b = b and i = 0 and s = leaf] by (simp_all add: find_iter_def)

definition leaf_report ::
  "prims \<Rightarrow> broker_api \<Rightarrow> nat \<Rightarrow> string \<Rightarrow> broker_policy \<Rightarrow> session_store \<Rightarrow> string \<Rightarrow> string
   \<Rightarrow> broker_resolve_report \<Rightarrow> broker_resolve_report" where
  "leaf_report P B now tool policy st pointer leaf rep =
     (let vs = map (verdict P B now tool policy st pointer leaf) (broker_handles leaf)
      in rep\<lparr>br_resolved := br_resolved rep + length (filter is_ok vs),
             br_denied := br_denied rep
               @ List.map_filter (\<lambda>v. case v of Inl reason \<Rightarrow> Some (pointer, reason) | Inr _ \<Rightarrow> None) vs\<rparr>)"

lemma fold_hits:
  "fold (broker_hit P B now leaf tool pointer policy st) ms (subs, saw, rep) =
    (let tks = filter is_broker_token (map (\<lambda>(a, b). slice leaf a b) ms);
         vs = map (verdict P B now tool policy st pointer leaf) tks
     in (subs @ List.map_filter (hit_subs P B now tool policy st pointer leaf) ms,
         saw \<or> tks \<noteq> [],
         rep\<lparr>br_resolved := br_resolved rep + length (filter is_ok vs),
             br_denied := br_denied rep
               @ List.map_filter (\<lambda>v. case v of Inl reason \<Rightarrow> Some (pointer, reason) | Inr _ \<Rightarrow> None) vs\<rparr>))"
proof (induction ms arbitrary: subs saw rep)
  case Nil
  then show ?case by (simp add: map_filter_simps)
next
  case (Cons m ms)
  obtain a b where m: "m = (a, b)" by force
  show ?case
  proof (cases "is_broker_token (slice leaf a b)")
    case False
    then show ?thesis using Cons m by (simp add: broker_hit_def hit_subs_def map_filter_simps Let_def)
  next
    case True
    then show ?thesis
      using Cons m
      by (cases "reveal_for P now st (slice leaf a b) Broker")
        (auto simp: broker_hit_def hit_subs_def map_filter_simps Let_def verdict_def split: broker_decision.splits)
  qed
qed

lemma resolve_leaf_exact:
  "broker_resolve_leaf P B now leaf tool pointer policy st rep = (r, rep')
    \<Longrightarrow> (case r of Some s \<Rightarrow> s | None \<Rightarrow> leaf) = resolved_leaf P B now tool policy st pointer leaf
      \<and> rep' = leaf_report P B now tool policy st pointer leaf rep"
proof -
  assume r: "broker_resolve_leaf P B now leaf tool pointer policy st rep = (r, rep')"
  let ?ms = "find_iter token_match leaf" and ?h = "hit_subs P B now tool policy st pointer leaf"
  let ?subs = "List.map_filter ?h ?ms"
  have fst_h: "?h x = Some y \<Longrightarrow> fst y = x" for x y
    by (auto simp: hit_subs_def split: if_splits sum.splits)
  have mem: "x \<in> set ?subs \<Longrightarrow> fst x \<in> set ?ms" for x
    using fst_h unfolding set_map_filter by blast
  have sub_sorted: "sorted_wrt (\<lambda>x y. snd x \<le> fst y) ms \<Longrightarrow>
      sorted_wrt (\<lambda>x y. snd (fst x) \<le> fst (fst y)) (List.map_filter ?h ms)" for ms
  proof (induction ms)
    case (Cons m ms)
    have "snd m \<le> fst (fst y)" if y: "y \<in> set (List.map_filter ?h ms)" for y
    proof -
      obtain z where "z \<in> set ms" "?h z = Some y" using y unfolding set_map_filter by blast
      with Cons.prems fst_h [of z y] show ?thesis by simp
    qed
    with Cons fst_h [of m] show ?case by (cases "?h m") (auto simp: map_filter_simps)
  qed (simp add: map_filter_simps)
  have ord: "sorted_wrt (\<lambda>x y. snd (fst x) \<le> fst (fst y)) ?subs" using sub_sorted hits_ordered(1) by blast
  have bounds: "0 \<le> fst (fst x) \<and> fst (fst x) \<le> snd (fst x) \<and> snd (fst x) \<le> length leaf" if x: "x \<in> set ?subs" for x
    using hits_ordered(2) [of "fst (fst x)" "snd (fst x)" leaf] mem [OF x] by simp
  have "sorted_wrt (\<lambda>x y. fst (fst x) \<le> fst (fst y)) ?subs"
    by (rule sorted_wrt_mono_rel [OF _ ord]) (use bounds in fastforce)
  then have sk: "sort_key (\<lambda>s. fst (fst s)) ?subs = ?subs"
    by (intro sort_key_id_if_sorted) (simp add: sorted_map)
  have fold: "fold (\<lambda>((a, b), value) out. replace_range a b value out) (rev ?subs) leaf = splice_subs leaf 0 ?subs"
    using replace_back_to_front [OF ord, of 0 leaf] bounds by (simp add: foldr_conv_fold case_prod_unfold)
  define g where "g tok = (if is_broker_token tok
      then case verdict P B now tool policy st pointer leaf tok of Inr value \<Rightarrow> value | Inl _ \<Rightarrow> tok else tok)" for tok
  have "splice_hits (\<lambda>a b. g (slice leaf a b)) leaf 0 ?ms = splice_subs leaf 0 ?subs"
    by (rule splice_hit_subs [OF hits_ordered(1)])
      (use hits_ordered(2) in \<open>auto simp: g_def hit_subs_def less_imp_le split: sum.splits\<close>)
  then have eq: "splice_subs leaf 0 ?subs = resolved_leaf P B now tool policy st pointer leaf"
    unfolding resolved_leaf_def g_def [symmetric] using tok.splice_find_iter [of leaf "\<lambda>a b. g (slice leaf a b)" g] by simp
  have none: "?subs = [] \<Longrightarrow> resolved_leaf P B now tool policy st pointer leaf = leaf" using eq by simp
  have saw: "filter is_broker_token (map (\<lambda>(a, b). slice leaf a b) ?ms) = [] \<Longrightarrow> ?subs = []"
  proof -
    assume e: "filter is_broker_token (map (\<lambda>(a, b). slice leaf a b) ?ms) = []"
    have "?h m = None" if "m \<in> set ?ms" for m
      using e that by (cases m) (auto simp: filter_empty_conv hit_subs_def)
    then show ?thesis by (metis (no_types, lifting) list.set_intros(1) neq_Nil_conv option.discI set_map_filter)
  qed
  from r show ?thesis
    unfolding broker_resolve_leaf_def fold_hits Let_def leaf_report_def broker_handles_def
    using fold sk eq none saw by (auto split: if_splits)
qed

section \<open>The whole value\<close>

definition leaves_report ::
  "prims \<Rightarrow> broker_api \<Rightarrow> nat \<Rightarrow> string \<Rightarrow> broker_policy \<Rightarrow> session_store \<Rightarrow> (string \<times> string) list
   \<Rightarrow> broker_resolve_report \<Rightarrow> broker_resolve_report" where
  "leaves_report P B now tool policy st = fold (\<lambda>(ptr, leaf). leaf_report P B now tool policy st ptr leaf)"

lemma leaves_report_simps [simp]:
  "leaves_report P B now tool policy st [] rep = rep"
  "leaves_report P B now tool policy st [(ptr, leaf)] rep = leaf_report P B now tool policy st ptr leaf rep"
  "leaves_report P B now tool policy st (xs @ ys) rep
     = leaves_report P B now tool policy st ys (leaves_report P B now tool policy st xs rep)"
  by (simp_all add: leaves_report_def)

lemma walk_exact:
  "broker_walk P B now tool policy st p v rep =
     (json_map (resolved_leaf P B now tool policy st) p v,
      leaves_report P B now tool policy st (json_leaves p v) rep)"
  "broker_walk_items P B now tool policy st p i xs rep =
     (json_map_items (resolved_leaf P B now tool policy st) p i xs,
      leaves_report P B now tool policy st (json_leaves_items p i xs) rep)"
  "broker_walk_members P B now tool policy st p ms rep =
     (json_map_members (resolved_leaf P B now tool policy st) p ms,
      leaves_report P B now tool policy st (json_leaves_members p ms) rep)"
proof (induction P B now tool policy st p v rep and P B now tool policy st p i xs rep
    and P B now tool policy st p ms rep rule: broker_walk_broker_walk_items_broker_walk_members.induct)
  case (1 P B now tool policy st pointer s report)
  obtain r rep' where r: "broker_resolve_leaf P B now s tool pointer policy st report = (r, rep')" by force
  with resolve_leaf_exact [OF r] show ?case by (cases r) simp_all
qed (simp_all)

text \<open>Every broker handle of the value with the pointer it stands at and the policy's verdict.\<close>

definition json_verdicts ::
  "prims \<Rightarrow> broker_api \<Rightarrow> nat \<Rightarrow> string \<Rightarrow> broker_policy \<Rightarrow> session_store \<Rightarrow> (string \<times> string) list
   \<Rightarrow> (string \<times> (deny_reason + string)) list" where
  "json_verdicts P B now tool policy st ls =
     concat (map (\<lambda>(ptr, leaf). map (\<lambda>tok. (ptr, verdict P B now tool policy st ptr leaf tok)) (broker_handles leaf)) ls)"

definition denial :: "string \<times> (deny_reason + string) \<Rightarrow> (string \<times> deny_reason) option" where
  "denial v = (case snd v of Inl reason \<Rightarrow> Some (fst v, reason) | Inr _ \<Rightarrow> None)"

lemma leaves_report_exact:
  "leaves_report P B now tool policy st ls rep =
     rep\<lparr>br_resolved := br_resolved rep + length (filter (is_ok \<circ> snd) (json_verdicts P B now tool policy st ls)),
         br_denied := br_denied rep @ List.map_filter denial (json_verdicts P B now tool policy st ls)\<rparr>"
proof (induction ls arbitrary: rep)
  case (Cons l ls)
  obtain ptr leaf where l: "l = (ptr, leaf)" by force
  let ?vs = "map (\<lambda>tok. (ptr, verdict P B now tool policy st ptr leaf tok)) (broker_handles leaf)"
  have d: "(case v of Inl reason \<Rightarrow> Some (ptr, reason) | Inr _ \<Rightarrow> None) = denial (ptr, v)" for v
    by (cases v) (simp_all add: denial_def)
  have "leaf_report P B now tool policy st ptr leaf rep =
      rep\<lparr>br_resolved := br_resolved rep + length (filter (is_ok \<circ> snd) ?vs),
          br_denied := br_denied rep @ List.map_filter denial ?vs\<rparr>"
    by (simp add: leaf_report_def Let_def filter_map comp_def map_filter_def d)
  then show ?case
    using Cons.IH [of "leaf_report P B now tool policy st ptr leaf rep"]
    by (simp add: leaves_report_def l json_verdicts_def map_filter_append filter_map comp_def)
qed (simp add: json_verdicts_def map_filter_simps)

section \<open>Pointers\<close>

lemma str_replace_char: "str_replace [c] r s = concat (map (\<lambda>x. if x = c then r else [x]) s)"
  by (induction s) (auto simp: str_replace_def lit_match_def starts_with_def)

lemma escape_simps:
  "rfc6901_escape [] = []"
  "rfc6901_escape (c # k) =
     (if c = CHR ''~'' then ''~0'' else if c = CHR ''/'' then ''~1'' else [c]) @ rfc6901_escape k"
  by (simp_all add: rfc6901_escape_def str_replace_char)

lemma escape_no_slash: "CHR ''/'' \<notin> set (rfc6901_escape k)"
  by (induction k) (auto simp: escape_simps)

lemma escape_inject: "rfc6901_escape k = rfc6901_escape k' \<longleftrightarrow> k = k'"
proof (induction k arbitrary: k')
  case Nil
  then show ?case by (cases k') (auto simp: escape_simps)
next
  case (Cons c k)
  then show ?case by (cases k') (auto simp: escape_simps split: if_splits)
qed

definition nat_value :: "string \<Rightarrow> nat" where
  "nat_value s = foldl (\<lambda>n c. 10 * n + (ord c - 48)) 0 s"

lemma show_nat_value: "nat_value (show_nat n) = n"
proof (induction n rule: show_nat.induct)
  case (1 n)
  show ?case
  proof (cases "n < 10")
    case True
    then show ?thesis by (subst show_nat.simps) (simp add: nat_value_def ord_char_of)
  next
    case False
    with 1 show ?thesis by (subst show_nat.simps) (simp add: nat_value_def ord_char_of)
  qed
qed

lemma show_nat_no_slash: "CHR ''/'' \<notin> set (show_nat n)"
proof (induction n rule: show_nat.induct)
  case (1 n)
  have "CHR ''/'' \<noteq> char_of (48 + d)" if "d < 10" for d :: nat
  proof
    assume "CHR ''/'' = char_of (48 + d)"
    then have "ord (CHR ''/'') = 48 + d" using that by (simp add: ord_char_of)
    then show False by (simp add: ord_def)
  qed
  with 1 show ?case by (subst show_nat.simps) auto
qed

fun json_keys_ok :: "json \<Rightarrow> bool" where
  "json_keys_ok (JArr xs) \<longleftrightarrow> (\<forall>x\<in>set xs. json_keys_ok x)"
| "json_keys_ok (JObj ms) \<longleftrightarrow> distinct (map fst ms) \<and> (\<forall>m\<in>set ms. json_keys_ok (snd m))"
| "json_keys_ok v \<longleftrightarrow> True"

definition rooted :: "string \<Rightarrow> bool" where
  "rooted r \<longleftrightarrow> r = [] \<or> hd r = CHR ''/''"

lemma rooted_step: "rooted (''/'' @ r)"
  by (simp add: rooted_def)

lemma step_unique:
  assumes "k @ r = k' @ r'" "CHR ''/'' \<notin> set k" "CHR ''/'' \<notin> set k'" "rooted r" "rooted r'"
  shows "k = k' \<and> r = r'"
proof -
  have tw: "takeWhile (\<lambda>c. c \<noteq> CHR ''/'') (k @ r) = k" if "CHR ''/'' \<notin> set k" "rooted r" for k r
    using that by (cases r) (auto simp: rooted_def takeWhile_absent takeWhile_absent_all)
  from tw [OF assms(2,4)] tw [OF assms(3,5)] assms(1) show ?thesis by auto
qed

lemma leaf_pointers:
  "(q, s) \<in> set (json_leaves p v) \<Longrightarrow> \<exists>r. q = p @ r \<and> rooted r"
  "(q, s) \<in> set (json_leaves_items p i xs) \<Longrightarrow> \<exists>j r. i \<le> j \<and> q = p @ ''/'' @ show_nat j @ r \<and> rooted r"
  "(q, s) \<in> set (json_leaves_members p ms) \<Longrightarrow>
     \<exists>k r. k \<in> fst ` set ms \<and> q = p @ ''/'' @ rfc6901_escape k @ r \<and> rooted r"
proof (induction p v and p i xs and p ms rule: json_leaves_json_leaves_items_json_leaves_members.induct)
  case (6 p i x xs)
  from 6(3) consider "(q, s) \<in> set (json_leaves (p @ ''/'' @ show_nat i) x)" | "(q, s) \<in> set (json_leaves_items p (Suc i) xs)"
    by auto
  then show ?case
  proof cases
    case 1
    from 6(1) [OF 1] show ?thesis by auto
  next
    case 2
    from 6(2) [OF 2] show ?thesis using Suc_leD by blast
  qed
next
  case (8 p k x ms)
  from 8(3) consider "(q, s) \<in> set (json_leaves (p @ ''/'' @ rfc6901_escape k) x)" | "(q, s) \<in> set (json_leaves_members p ms)"
    by auto
  then show ?case
  proof cases
    case 1
    from 8(1) [OF 1] show ?thesis by auto
  next
    case 2
    from 8(2) [OF 2] show ?thesis by auto
  qed
qed (auto simp: rooted_def)

lemma leaves_distinct:
  "json_keys_ok v \<Longrightarrow> distinct (map fst (json_leaves p v))"
  "\<forall>x\<in>set xs. json_keys_ok x \<Longrightarrow> distinct (map fst (json_leaves_items p i xs))"
  "distinct (map fst ms) \<Longrightarrow> \<forall>m\<in>set ms. json_keys_ok (snd m) \<Longrightarrow> distinct (map fst (json_leaves_members p ms))"
proof (induction p v and p i xs and p ms rule: json_leaves_json_leaves_items_json_leaves_members.induct)
  case (6 p i x xs)
  have "q \<noteq> q'" if l: "(q, s) \<in> set (json_leaves (p @ ''/'' @ show_nat i) x)"
    and l': "(q', s') \<in> set (json_leaves_items p (Suc i) xs)" for q q' s s'
  proof
    assume eq: "q = q'"
    obtain r where r: "q = p @ ''/'' @ show_nat i @ r" "rooted r" using leaf_pointers(1) [OF l] by auto
    obtain j r' where r': "Suc i \<le> j" "q' = p @ ''/'' @ show_nat j @ r'" "rooted r'"
      using leaf_pointers(2) [OF l'] by blast
    have "show_nat i = show_nat j"
      using step_unique [OF _ show_nat_no_slash show_nat_no_slash r(2) r'(3)] r(1) r'(2) eq by simp
    then show False using show_nat_value r'(1) by (metis not_less_eq_eq order_refl)
  qed
  then have "set (map fst (json_leaves (p @ ''/'' @ show_nat i) x)) \<inter> set (map fst (json_leaves_items p (Suc i) xs)) = {}"
    by fastforce
  with 6 show ?case by simp
next
  case (8 p k x ms)
  have "q \<noteq> q'" if l: "(q, s) \<in> set (json_leaves (p @ ''/'' @ rfc6901_escape k) x)"
    and l': "(q', s') \<in> set (json_leaves_members p ms)" for q q' s s'
  proof
    assume eq: "q = q'"
    obtain r where r: "q = p @ ''/'' @ rfc6901_escape k @ r" "rooted r" using leaf_pointers(1) [OF l] by auto
    obtain l r' where r': "l \<in> fst ` set ms" "q' = p @ ''/'' @ rfc6901_escape l @ r'" "rooted r'"
      using leaf_pointers(3) [OF l'] by blast
    have "rfc6901_escape k = rfc6901_escape l"
      using step_unique [OF _ escape_no_slash escape_no_slash r(2) r'(3)] r(1) r'(2) eq by simp
    then show False using 8(3) r'(1) by (simp add: escape_inject)
  qed
  then have "set (map fst (json_leaves (p @ ''/'' @ rfc6901_escape k) x)) \<inter> set (map fst (json_leaves_members p ms)) = {}"
    by fastforce
  with 8 show ?case by simp
qed simp_all

lemma leaves_of_map:
  "json_leaves p (json_map f p v) = map (\<lambda>(q, s). (q, f q s)) (json_leaves p v)"
  "json_leaves_items p i (json_map_items f p i xs) = map (\<lambda>(q, s). (q, f q s)) (json_leaves_items p i xs)"
  "json_leaves_members p (json_map_members f p ms) = map (\<lambda>(q, s). (q, f q s)) (json_leaves_members p ms)"
  by (induction p v and p i xs and p ms rule: json_leaves_json_leaves_items_json_leaves_members.induct) simp_all

section \<open>Properties\<close>

text \<open>
  C35. Broker handles are resolved one by one and nothing else moves: the value keeps its shape and its
  leaves their pointers, in every string leaf each broker handle the policy resolves (for the registered
  name, the tool, the pointer and the leaf as it was) is replaced by its secret and every other byte is
  kept, and the report counts the resolved handles and lists every denied one with its pointer, in walk
  order. A handle without a live broker entry is denied.
\<close>

theorem broker_resolve_exact:
  "broker_resolve_pointers W B now tool v e =
     (json_map (resolved_leaf (prims_of W) B now tool (e_broker_policy e) (e_store e)) [] v,
      let vs = json_verdicts (prims_of W) B now tool (e_broker_policy e) (e_store e) (json_leaves [] v)
      in \<lparr>br_resolved = length (filter (is_ok \<circ> snd) vs), br_denied = List.map_filter denial vs\<rparr>)
   \<and> json_leaves [] (json_map f [] v) = map (\<lambda>(ptr, s). (ptr, f ptr s)) (json_leaves [] v)"
  by (simp_all add: broker_resolve_pointers_def walk_exact leaves_report_exact report_new_def Let_def leaves_of_map)

text \<open>
  The pointer a rule is written for names one leaf: in a value whose objects have distinct keys, no
  two string leaves are handed to the policy under the same pointer, whatever slashes and tildes the
  keys hold.
\<close>

theorem pointers_name_leaves:
  assumes "json_keys_ok v"
  shows "distinct (map fst (json_leaves [] v))"
  using assms by (rule leaves_distinct)

lemma pointers_name_leaves_witness:
  "distinct (map fst (json_leaves [] (JObj [(''a/b'', JArr [JStr ''x'', JStr ''y'']), (''a'', JObj [(''b'', JStr ''z'')])])))
   \<and> map fst (json_leaves [] (JObj [(''a/b'', JArr [JStr ''x'', JStr ''y'']), (''a'', JObj [(''b'', JStr ''z'')])]))
     = [''/a~1b/0'', ''/a~1b/1'', ''/a/b'']"
proof -
  have "json_keys_ok (JObj [(''a/b'', JArr [JStr ''x'', JStr ''y'']), (''a'', JObj [(''b'', JStr ''z'')])])" by simp
  moreover have "map fst (json_leaves [] (JObj [(''a/b'', JArr [JStr ''x'', JStr ''y'']), (''a'', JObj [(''b'', JStr ''z'')])]))
     = [''/a~1b/0'', ''/a~1b/1'', ''/a/b'']" by code_simp
  ultimately show ?thesis by (intro conjI pointers_name_leaves)
qed

end
