(* ===== verification/Wire_Walk.thy ===== *)
theory Wire_Walk
  imports Engine_Unmask
begin

text \<open>
  \<open>walk.rs\<close> and \<open>tripwire.rs\<close> of \<open>sordino-proxy\<close>: the walk that masks every text-bearing field of a
  request, the fail-safe walk over a request of unknown shape, the registered-secret scan of the fields
  that are never rewritten, and the walks that unmask a response.

  The wire types belong to other crates: an \<open>api_request\<close> holds the fields the walk reads, every field
  it does not touch is the opaque \<open>rest\<close> of its record or constructor, and parsing and printing are
  fields of \<open>wire_api\<close>. The log lines are left out.
\<close>

section \<open>Wire types\<close>

record unknown_block =
  sb_text :: string
  sb_extra :: "(string \<times> json) list"

datatype system_content = SysText string | SysBlocks "unknown_block list" | SysOther

datatype image_source = ImageUrl string | ImageOther string
datatype document_source = DocUrl string | DocOther string

datatype tool_result_block = TrText string | TrImage image_source | TrDocument document_source string | TrOther string
datatype tool_result_content = TrcText string | TrcBlocks "tool_result_block list" | TrcOther

datatype content_block =
    CbText string string
  | CbToolUse json string
  | CbToolResult tool_result_content string
  | CbImage image_source
  | CbDocument document_source string
  | CbCompaction string string
  | CbThinking string
  | CbRedactedThinking string
  | CbOther string

record api_message =
  m_role :: string
  m_content :: "content_block list"
  m_extra :: "(string \<times> json) list"

record api_tool =
  t_description :: string
  t_input_schema :: json
  t_extra :: "(string \<times> json) list"
  t_rest :: string

record api_request =
  rq_system :: "system_content option"
  rq_messages :: "api_message list"
  rq_tools :: "api_tool list option"
  rq_output_config :: "string option"
  rq_metadata :: "json option"
  rq_context_management :: "json option"
  rq_extra :: "(string \<times> json) list"
  rq_rest :: string

record api_response =
  rs_content :: "content_block list"
  rs_extra :: "(string \<times> json) list"
  rs_rest :: string

record wire_api =
  parse_request :: "string \<Rightarrow> api_request option"
  print_request :: "api_request \<Rightarrow> string option"
  parse_response :: "string \<Rightarrow> api_response option"
  print_response :: "api_response \<Rightarrow> string option"
  parse_value :: "string \<Rightarrow> json option"
  print_value :: "json \<Rightarrow> string option"
  output_config_value :: "string \<Rightarrow> json option"

section \<open>The registered-secret tripwire\<close>

definition MAX_SCAN_DEPTH :: nat where
  "MAX_SCAN_DEPTH = 256"

fun scan_value :: "'c env \<Rightarrow> 'c mask_engine \<Rightarrow> json \<Rightarrow> nat \<Rightarrow> string option"
  and scan_items :: "'c env \<Rightarrow> 'c mask_engine \<Rightarrow> json list \<Rightarrow> nat \<Rightarrow> string option"
  and scan_members :: "'c env \<Rightarrow> 'c mask_engine \<Rightarrow> (string \<times> json) list \<Rightarrow> nat \<Rightarrow> string option"
where
  "scan_value W e (JStr s) d = (if d > MAX_SCAN_DEPTH then None else registered_secret_hit W e s)"
| "scan_value W e (JArr xs) d = (if d > MAX_SCAN_DEPTH then None else scan_items W e xs (d + 1))"
| "scan_value W e (JObj ms) d = (if d > MAX_SCAN_DEPTH then None else scan_members W e ms (d + 1))"
| "scan_value W e v d = None"
| "scan_items W e [] d = None"
| "scan_items W e (x # xs) d = (case scan_value W e x d of Some n \<Rightarrow> Some n | None \<Rightarrow> scan_items W e xs d)"
| "scan_members W e [] d = None"
| "scan_members W e ((k, x) # ms) d =
     (case registered_secret_hit W e k of Some n \<Rightarrow> Some n
      | None \<Rightarrow> (case scan_value W e x d of Some n \<Rightarrow> Some n | None \<Rightarrow> scan_members W e ms d))"

definition scan_map :: "'c env \<Rightarrow> 'c mask_engine \<Rightarrow> (string \<times> json) list \<Rightarrow> string option" where
  "scan_map W e m = scan_members W e m 0"

section \<open>The mask walker\<close>

record 'c mask_walker =
  w_engine :: "'c mask_engine"
  w_manifest :: unmask_manifest
  w_stats :: mask_stats
  w_collect :: "(string \<times> surface) list option"
  w_force_disabled :: bool

type_synonym ('c, 'v) walk = "'c mask_walker \<Rightarrow> (engine_error + 'v) \<times> 'c mask_walker"

text \<open>Sequencing with the \<open>?\<close> operator: an error stops the walk and keeps the state reached.\<close>

definition bnd :: "(engine_error + 'a) \<times> 's \<Rightarrow> ('a \<Rightarrow> 's \<Rightarrow> (engine_error + 'b) \<times> 's) \<Rightarrow> (engine_error + 'b) \<times> 's" where
  "bnd r k = (case r of (Inl e, s) \<Rightarrow> (Inl e, s) | (Inr x, s) \<Rightarrow> k x s)"

definition walk_str :: "'c env \<Rightarrow> int \<Rightarrow> surface \<Rightarrow> string \<Rightarrow> ('c, string) walk" where
  "walk_str W today surface t w =
     (case w_collect w of
        Some ls \<Rightarrow> (Inr t, w\<lparr>w_collect := Some (ls @ [(t, surface)])\<rparr>)
      | None \<Rightarrow>
          (case (if w_force_disabled w then mask_when_disabled W t surface (w_engine w)
                 else mask W today t surface (w_engine w)) of
             (Inl err, e) \<Rightarrow> (Inl err, w\<lparr>w_engine := e\<rparr>)
           | (Inr out, e) \<Rightarrow>
               (Inr (masked_text out),
                w\<lparr>w_engine := e, w_manifest := manifest_merge (w_manifest w) (outcome_manifest out),
                  w_stats := stats_merge (w_stats w) (stats out)\<rparr>)))"

fun walk_each :: "('a \<Rightarrow> ('c, 'a) walk) \<Rightarrow> 'a list \<Rightarrow> ('c, 'a list) walk" where
  "walk_each f [] w = (Inr [], w)"
| "walk_each f (x # xs) w = bnd (f x w) (\<lambda>x' w. bnd (walk_each f xs w) (\<lambda>xs' w. (Inr (x' # xs'), w)))"

definition walk_opt :: "('a \<Rightarrow> ('c, 'a) walk) \<Rightarrow> 'a option \<Rightarrow> ('c, 'a option) walk" where
  "walk_opt f x w = (case x of None \<Rightarrow> (Inr None, w) | Some y \<Rightarrow> bnd (f y w) (\<lambda>y' w. (Inr (Some y'), w)))"

text \<open>A scanned subtree that is left verbatim: the walk goes on or refuses.\<close>

definition refuse_hit :: "string option \<Rightarrow> 'v \<Rightarrow> ('c, 'v) walk" where
  "refuse_hit found v w = (case found of Some name \<Rightarrow> (Inl (RegisteredSecretInCarveOut name), w) | None \<Rightarrow> (Inr v, w))"

definition check_unknown_map :: "'c env \<Rightarrow> (string \<times> json) list \<Rightarrow> ('c, (string \<times> json) list) walk" where
  "check_unknown_map W m w = refuse_hit (if m = [] then None else scan_map W (w_engine w) m) m w"

definition walk_schema :: "'c env \<Rightarrow> json \<Rightarrow> ('c, json) walk" where
  "walk_schema W v w = refuse_hit (scan_value W (w_engine w) v 0) v w"

subsection \<open>JSON values\<close>

fun walk_value :: "'c env \<Rightarrow> int \<Rightarrow> surface \<Rightarrow> json \<Rightarrow> ('c, json) walk"
  and walk_items :: "'c env \<Rightarrow> int \<Rightarrow> surface \<Rightarrow> json list \<Rightarrow> ('c, json list) walk"
  and walk_members :: "'c env \<Rightarrow> int \<Rightarrow> surface \<Rightarrow> (string \<times> json) list \<Rightarrow> ('c, (string \<times> json) list) walk"
where
  "walk_value W today s (JStr t) w = bnd (walk_str W today s t w) (\<lambda>t w. (Inr (JStr t), w))"
| "walk_value W today s (JArr xs) w = bnd (walk_items W today s xs w) (\<lambda>xs w. (Inr (JArr xs), w))"
| "walk_value W today s (JObj ms) w = bnd (walk_members W today s ms w) (\<lambda>ms w. (Inr (JObj ms), w))"
| "walk_value W today s v w = (Inr v, w)"
| "walk_items W today s [] w = (Inr [], w)"
| "walk_items W today s (x # xs) w =
     bnd (walk_value W today s x w) (\<lambda>x w. bnd (walk_items W today s xs w) (\<lambda>xs w. (Inr (x # xs), w)))"
| "walk_members W today s [] w = (Inr [], w)"
| "walk_members W today s ((k, x) # ms) w =
     bnd (walk_value W today s x w) (\<lambda>x w. bnd (walk_members W today s ms w) (\<lambda>ms w. (Inr ((k, x) # ms), w)))"

definition is_context_management_protocol_key :: "string \<Rightarrow> bool" where
  "is_context_management_protocol_key k \<longleftrightarrow>
     k \<in> set [''type'', ''keep'', ''trigger'', ''clear_at_least'', ''clear_tool_inputs'', ''exclude_tools'']"

fun walk_protocol :: "'c env \<Rightarrow> int \<Rightarrow> surface \<Rightarrow> json \<Rightarrow> ('c, json) walk"
  and walk_protocol_items :: "'c env \<Rightarrow> int \<Rightarrow> surface \<Rightarrow> json list \<Rightarrow> ('c, json list) walk"
  and walk_protocol_members ::
    "'c env \<Rightarrow> int \<Rightarrow> surface \<Rightarrow> (string \<times> json) list \<Rightarrow> ('c, (string \<times> json) list) walk"
where
  "walk_protocol W today s (JStr t) w = bnd (walk_str W today s t w) (\<lambda>t w. (Inr (JStr t), w))"
| "walk_protocol W today s (JArr xs) w = bnd (walk_protocol_items W today s xs w) (\<lambda>xs w. (Inr (JArr xs), w))"
| "walk_protocol W today s (JObj ms) w = bnd (walk_protocol_members W today s ms w) (\<lambda>ms w. (Inr (JObj ms), w))"
| "walk_protocol W today s v w = (Inr v, w)"
| "walk_protocol_items W today s [] w = (Inr [], w)"
| "walk_protocol_items W today s (x # xs) w =
     bnd (walk_protocol W today s x w) (\<lambda>x w. bnd (walk_protocol_items W today s xs w) (\<lambda>xs w. (Inr (x # xs), w)))"
| "walk_protocol_members W today s [] w = (Inr [], w)"
| "walk_protocol_members W today s ((k, x) # ms) w =
     bnd (if is_context_management_protocol_key k then (Inr x, w) else walk_protocol W today s x w)
       (\<lambda>x w. bnd (walk_protocol_members W today s ms w) (\<lambda>ms w. (Inr ((k, x) # ms), w)))"

definition context_management :: "'c env \<Rightarrow> int \<Rightarrow> json \<Rightarrow> ('c, json) walk" where
  "context_management W today v w = walk_protocol W today SystemPrompt v w"

subsection \<open>The fail-safe walk\<close>

definition preserves_contract_key :: "string \<Rightarrow> bool" where
  "preserves_contract_key k \<longleftrightarrow>
     k \<in> set [''model'', ''tool_choice'', ''thinking'', ''output_config'', ''format'', ''json_schema'', ''schema'',
       ''input_schema'', ''cache_control'', ''id'', ''tool_use_id'', ''signature'', ''data'', ''media_type'', ''type'']"

definition is_base64_object :: "(string \<times> json) list \<Rightarrow> bool" where
  "is_base64_object ms \<longleftrightarrow> map_of ms ''type'' = Some (JStr ''base64'')"

text \<open>
  The three functions of the fallback (\<open>value_safe\<close> at a surface, \<open>tools_value_safe\<close>, \<open>tool_value_safe\<close>)
  call each other on the members of one value; \<open>safe_mode\<close> says which of them a value is given to.
  \<open>member_rule\<close> is their key dispatch, in the order of their arms.
\<close>

datatype safe_mode = SafeAt surface | ToolsField | ToolObject

datatype member_action = Verbatim | ProtocolWalk | ScanOnly | SafeWalk safe_mode

definition member_rule :: "safe_mode \<Rightarrow> bool \<Rightarrow> string \<Rightarrow> member_action" where
  "member_rule m b64 k =
     (case m of
        ToolObject \<Rightarrow>
          (if k = ''description'' then SafeWalk (SafeAt SystemPrompt)
           else if k = ''input_schema'' then ScanOnly
           else if k \<in> set [''cache_control'', ''name'', ''type''] then Verbatim
           else if preserves_contract_key k then ScanOnly
           else SafeWalk (SafeAt SystemPrompt))
      | _ \<Rightarrow>
          (if b64 \<and> k = ''data'' then Verbatim
           else if k = ''context_management'' then ProtocolWalk
           else if k = ''tools'' then SafeWalk ToolsField
           else if preserves_contract_key k then ScanOnly
           else SafeWalk m))"

fun mode_surface :: "safe_mode \<Rightarrow> surface" where
  "mode_surface (SafeAt s) = s"
| "mode_surface ToolsField = SystemPrompt"
| "mode_surface ToolObject = SystemPrompt"

fun item_mode :: "safe_mode \<Rightarrow> safe_mode" where
  "item_mode (SafeAt s) = SafeAt s"
| "item_mode ToolsField = ToolObject"
| "item_mode ToolObject = SafeAt SystemPrompt"

fun object_mode :: "safe_mode \<Rightarrow> safe_mode" where
  "object_mode (SafeAt s) = SafeAt s"
| "object_mode ToolsField = SafeAt SystemPrompt"
| "object_mode ToolObject = ToolObject"

fun walk_safe :: "'c env \<Rightarrow> int \<Rightarrow> safe_mode \<Rightarrow> json \<Rightarrow> ('c, json) walk"
  and walk_safe_items :: "'c env \<Rightarrow> int \<Rightarrow> safe_mode \<Rightarrow> json list \<Rightarrow> ('c, json list) walk"
  and walk_safe_members ::
    "'c env \<Rightarrow> int \<Rightarrow> safe_mode \<Rightarrow> bool \<Rightarrow> (string \<times> json) list \<Rightarrow> ('c, (string \<times> json) list) walk"
where
  "walk_safe W today m (JStr t) w = bnd (walk_str W today (mode_surface m) t w) (\<lambda>t w. (Inr (JStr t), w))"
| "walk_safe W today m (JArr xs) w = bnd (walk_safe_items W today (item_mode m) xs w) (\<lambda>xs w. (Inr (JArr xs), w))"
| "walk_safe W today m (JObj ms) w =
     bnd (walk_safe_members W today (object_mode m) (is_base64_object ms) ms w) (\<lambda>ms w. (Inr (JObj ms), w))"
| "walk_safe W today m v w = (Inr v, w)"
| "walk_safe_items W today m [] w = (Inr [], w)"
| "walk_safe_items W today m (x # xs) w =
     bnd (walk_safe W today m x w) (\<lambda>x w. bnd (walk_safe_items W today m xs w) (\<lambda>xs w. (Inr (x # xs), w)))"
| "walk_safe_members W today m b64 [] w = (Inr [], w)"
| "walk_safe_members W today m b64 ((k, x) # ms) w =
     bnd (case member_rule m b64 k of
            Verbatim \<Rightarrow> (Inr x, w)
          | ProtocolWalk \<Rightarrow> context_management W today x w
          | ScanOnly \<Rightarrow> walk_schema W x w
          | SafeWalk m' \<Rightarrow> walk_safe W today m' x w)
       (\<lambda>x w. bnd (walk_safe_members W today m b64 ms w) (\<lambda>ms w. (Inr ((k, x) # ms), w)))"

subsection \<open>The typed request\<close>

definition surface_for_role :: "string \<Rightarrow> surface" where
  "surface_for_role role = (if role = ''assistant'' then AssistantText else UserMessage)"

definition walk_image :: "'c env \<Rightarrow> int \<Rightarrow> surface \<Rightarrow> image_source \<Rightarrow> ('c, image_source) walk" where
  "walk_image W today s src w =
     (case src of ImageUrl url \<Rightarrow> bnd (walk_str W today s url w) (\<lambda>url w. (Inr (ImageUrl url), w)) | _ \<Rightarrow> (Inr src, w))"

definition walk_document :: "'c env \<Rightarrow> int \<Rightarrow> surface \<Rightarrow> document_source \<Rightarrow> ('c, document_source) walk" where
  "walk_document W today s src w =
     (case src of DocUrl url \<Rightarrow> bnd (walk_str W today s url w) (\<lambda>url w. (Inr (DocUrl url), w)) | _ \<Rightarrow> (Inr src, w))"

definition walk_result_block :: "'c env \<Rightarrow> int \<Rightarrow> tool_result_block \<Rightarrow> ('c, tool_result_block) walk" where
  "walk_result_block W today b w =
     (case b of
        TrText t \<Rightarrow> bnd (walk_str W today ToolResult t w) (\<lambda>t w. (Inr (TrText t), w))
      | TrImage src \<Rightarrow> bnd (walk_image W today ToolResult src w) (\<lambda>src w. (Inr (TrImage src), w))
      | TrDocument src r \<Rightarrow> bnd (walk_document W today ToolResult src w) (\<lambda>src w. (Inr (TrDocument src r), w))
      | TrOther r \<Rightarrow> (Inr b, w))"

definition walk_tool_result :: "'c env \<Rightarrow> int \<Rightarrow> tool_result_content \<Rightarrow> ('c, tool_result_content) walk" where
  "walk_tool_result W today c w =
     (case c of
        TrcText t \<Rightarrow> bnd (walk_str W today ToolResult t w) (\<lambda>t w. (Inr (TrcText t), w))
      | TrcBlocks bs \<Rightarrow> bnd (walk_each (walk_result_block W today) bs w) (\<lambda>bs w. (Inr (TrcBlocks bs), w))
      | TrcOther \<Rightarrow> (Inr c, w))"

definition walk_block :: "'c env \<Rightarrow> int \<Rightarrow> string \<Rightarrow> content_block \<Rightarrow> ('c, content_block) walk" where
  "walk_block W today role b w =
     (case b of
        CbText t r \<Rightarrow> bnd (walk_str W today (surface_for_role role) t w) (\<lambda>t w. (Inr (CbText t r), w))
      | CbToolUse v r \<Rightarrow> bnd (walk_value W today ToolUseInput v w) (\<lambda>v w. (Inr (CbToolUse v r), w))
      | CbToolResult c r \<Rightarrow> bnd (walk_tool_result W today c w) (\<lambda>c w. (Inr (CbToolResult c r), w))
      | CbImage src \<Rightarrow> bnd (walk_image W today UserMessage src w) (\<lambda>src w. (Inr (CbImage src), w))
      | CbDocument src r \<Rightarrow> bnd (walk_document W today UserMessage src w) (\<lambda>src w. (Inr (CbDocument src r), w))
      | CbCompaction t r \<Rightarrow> bnd (walk_str W today AssistantText t w) (\<lambda>t w. (Inr (CbCompaction t r), w))
      | _ \<Rightarrow> (Inr b, w))"

definition walk_system_block :: "'c env \<Rightarrow> int \<Rightarrow> unknown_block \<Rightarrow> ('c, unknown_block) walk" where
  "walk_system_block W today b w =
     bnd (walk_str W today SystemPrompt (sb_text b) w)
       (\<lambda>t w. bnd (check_unknown_map W (sb_extra b) w) (\<lambda>x w. (Inr \<lparr>sb_text = t, sb_extra = x\<rparr>, w)))"

definition walk_system :: "'c env \<Rightarrow> int \<Rightarrow> system_content \<Rightarrow> ('c, system_content) walk" where
  "walk_system W today sys w =
     (case sys of
        SysText t \<Rightarrow> bnd (walk_str W today SystemPrompt t w) (\<lambda>t w. (Inr (SysText t), w))
      | SysBlocks bs \<Rightarrow> bnd (walk_each (walk_system_block W today) bs w) (\<lambda>bs w. (Inr (SysBlocks bs), w))
      | SysOther \<Rightarrow> (Inr SysOther, w))"

definition walk_message :: "'c env \<Rightarrow> int \<Rightarrow> api_message \<Rightarrow> ('c, api_message) walk" where
  "walk_message W today msg w =
     bnd (walk_each (walk_block W today (m_role msg)) (m_content msg) w)
       (\<lambda>bs w. bnd (check_unknown_map W (m_extra msg) w)
          (\<lambda>x w. (Inr \<lparr>m_role = m_role msg, m_content = bs, m_extra = x\<rparr>, w)))"

definition walk_tool :: "'c env \<Rightarrow> int \<Rightarrow> api_tool \<Rightarrow> ('c, api_tool) walk" where
  "walk_tool W today t w =
     bnd (walk_str W today SystemPrompt (t_description t) w)
       (\<lambda>d w. bnd (walk_schema W (t_input_schema t) w)
          (\<lambda>sch w. bnd (check_unknown_map W (t_extra t) w)
             (\<lambda>x w. (Inr \<lparr>t_description = d, t_input_schema = sch, t_extra = x, t_rest = t_rest t\<rparr>, w))))"

definition walk_output_config :: "'c env \<Rightarrow> wire_api \<Rightarrow> string \<Rightarrow> ('c, string) walk" where
  "walk_output_config W K oc w =
     (case output_config_value K oc of
        Some v \<Rightarrow> refuse_hit (scan_value W (w_engine w) v 0) oc w
      | None \<Rightarrow> (Inr oc, w))"

definition walk_metadata_member :: "'c env \<Rightarrow> int \<Rightarrow> string \<times> json \<Rightarrow> ('c, string \<times> json) walk" where
  "walk_metadata_member W today kv w =
     (if fst kv = ''user_id'' then (Inr kv, w)
      else bnd (walk_value W today UserMessage (snd kv) w) (\<lambda>v w. (Inr (fst kv, v), w)))"

definition walk_metadata :: "'c env \<Rightarrow> int \<Rightarrow> json \<Rightarrow> ('c, json) walk" where
  "walk_metadata W today v w =
     (case v of
        JObj ms \<Rightarrow> bnd (walk_each (walk_metadata_member W today) ms w) (\<lambda>ms w. (Inr (JObj ms), w))
      | _ \<Rightarrow> walk_value W today UserMessage v w)"

definition walk_request :: "'c env \<Rightarrow> wire_api \<Rightarrow> int \<Rightarrow> api_request \<Rightarrow> ('c, api_request) walk" where
  "walk_request W K today rq w =
     bnd (walk_opt (walk_system W today) (rq_system rq) w) (\<lambda>sys w.
     bnd (walk_each (walk_message W today) (rq_messages rq) w) (\<lambda>msgs w.
     bnd (walk_opt (walk_each (walk_tool W today)) (rq_tools rq) w) (\<lambda>tools w.
     bnd (walk_opt (walk_output_config W K) (rq_output_config rq) w) (\<lambda>oc w.
     bnd (walk_opt (walk_metadata W today) (rq_metadata rq) w) (\<lambda>meta w.
     bnd (walk_opt (context_management W today) (rq_context_management rq) w) (\<lambda>ctx w.
     bnd (check_unknown_map W (rq_extra rq) w) (\<lambda>x w.
       (Inr \<lparr>rq_system = sys, rq_messages = msgs, rq_tools = tools, rq_output_config = oc, rq_metadata = meta,
             rq_context_management = ctx, rq_extra = x, rq_rest = rq_rest rq\<rparr>, w))))))))"

subsection \<open>Masking a body\<close>

datatype mask_fault = JsonFault | EngineFault engine_error

definition walker_new :: "bool \<Rightarrow> (string \<times> surface) list option \<Rightarrow> 'c mask_engine \<Rightarrow> 'c mask_walker" where
  "walker_new force coll e =
     \<lparr>w_engine = e, w_manifest = manifest_new, w_stats = stats_default, w_collect = coll, w_force_disabled = force\<rparr>"

definition prewarm_request :: "'c env \<Rightarrow> wire_api \<Rightarrow> int \<Rightarrow> api_request \<Rightarrow> 'c mask_engine \<Rightarrow> 'c mask_engine" where
  "prewarm_request W K today rq e =
     (if \<not> ml_active (e_ml e) then e
      else case walk_request W K today rq (walker_new False (Some []) e) of
          (Inl _, w) \<Rightarrow> e
        | (Inr _, w) \<Rightarrow> (case w_collect w of None \<Rightarrow> e | Some ls \<Rightarrow> prewarm_batch W today ls e))"

definition mask_request_inner ::
  "'c env \<Rightarrow> wire_api \<Rightarrow> int \<Rightarrow> string \<Rightarrow> bool \<Rightarrow> 'c mask_engine
   \<Rightarrow> (mask_fault + string \<times> unmask_manifest) \<times> 'c mask_engine" where
  "mask_request_inner W K today body force e =
     (case parse_request K body of
        Some rq \<Rightarrow>
          (let e = (if force then e else prewarm_request W K today rq e) in
           case walk_request W K today rq (walker_new force None e) of
             (Inl err, w) \<Rightarrow> (Inl (EngineFault err), w_engine w)
           | (Inr rq', w) \<Rightarrow>
               (case print_request K rq' of
                  None \<Rightarrow> (Inl JsonFault, w_engine w)
                | Some bytes \<Rightarrow> (Inr (bytes, w_manifest w), w_engine w)))
      | None \<Rightarrow>
          (case parse_value K body of
             None \<Rightarrow> (Inl JsonFault, e)
           | Some v \<Rightarrow>
               (case walk_safe W today (SafeAt UserMessage) v (walker_new force None e) of
                  (Inl err, w) \<Rightarrow> (Inl (EngineFault err), w_engine w)
                | (Inr v', w) \<Rightarrow>
                    (case print_value K v' of
                       None \<Rightarrow> (Inl JsonFault, w_engine w)
                     | Some bytes \<Rightarrow> (Inr (bytes, w_manifest w), w_engine w)))))"

definition mask_request ::
  "'c env \<Rightarrow> wire_api \<Rightarrow> int \<Rightarrow> string \<Rightarrow> 'c mask_engine \<Rightarrow> (mask_fault + string \<times> unmask_manifest) \<times> 'c mask_engine" where
  "mask_request W K today body e = mask_request_inner W K today body False e"

definition mask_request_disabled ::
  "'c env \<Rightarrow> wire_api \<Rightarrow> int \<Rightarrow> string \<Rightarrow> 'c mask_engine \<Rightarrow> (mask_fault + string \<times> unmask_manifest) \<times> 'c mask_engine" where
  "mask_request_disabled W K today body e = mask_request_inner W K today body True e"

section \<open>Responses\<close>

text \<open>\<open>if let Ok(out) = ... { *text = out; }\<close>\<close>

definition ok_or :: "'a \<Rightarrow> 'e + 'a \<Rightarrow> 'a" where
  "ok_or d r = (case r of Inl _ \<Rightarrow> d | Inr x \<Rightarrow> x)"

definition unmask_str :: "'c env \<Rightarrow> json_api \<Rightarrow> nat \<Rightarrow> unmask_manifest \<Rightarrow> 'c mask_engine \<Rightarrow> string \<Rightarrow> string" where
  "unmask_str W J now mf e t = ok_or t (unmask W J now t mf e)"

definition unmask_str_assistant :: "'c env \<Rightarrow> json_api \<Rightarrow> nat \<Rightarrow> unmask_manifest \<Rightarrow> 'c mask_engine \<Rightarrow> string \<Rightarrow> string" where
  "unmask_str_assistant W J now mf e t = ok_or t (unmask_assistant W J now t mf e)"

definition unmask_str_tool_input :: "'c env \<Rightarrow> json_api \<Rightarrow> nat \<Rightarrow> unmask_manifest \<Rightarrow> 'c mask_engine \<Rightarrow> string \<Rightarrow> string" where
  "unmask_str_tool_input W J now mf e t = ok_or t (unmask_tool_input W J now t mf e)"

fun unmask_value :: "'c env \<Rightarrow> json_api \<Rightarrow> nat \<Rightarrow> unmask_manifest \<Rightarrow> 'c mask_engine \<Rightarrow> json \<Rightarrow> json" where
  "unmask_value W J now mf e (JStr s) = JStr (ok_or s (unmask W J now s mf e))"
| "unmask_value W J now mf e (JArr xs) = JArr (map (unmask_value W J now mf e) xs)"
| "unmask_value W J now mf e (JObj ms) = JObj (map (\<lambda>(k, x). (k, unmask_value W J now mf e x)) ms)"
| "unmask_value W J now mf e v = v"

definition unmask_map ::
  "'c env \<Rightarrow> json_api \<Rightarrow> nat \<Rightarrow> unmask_manifest \<Rightarrow> 'c mask_engine \<Rightarrow> (string \<times> json) list \<Rightarrow> (string \<times> json) list" where
  "unmask_map W J now mf e m = map (\<lambda>(k, x). (k, unmask_value W J now mf e x)) m"

fun unmask_value_tool_input :: "'c env \<Rightarrow> json_api \<Rightarrow> nat \<Rightarrow> unmask_manifest \<Rightarrow> 'c mask_engine \<Rightarrow> json \<Rightarrow> json" where
  "unmask_value_tool_input W J now mf e (JStr s) = JStr (ok_or s (unmask_tool_input_decoded_leaf W J now s mf e))"
| "unmask_value_tool_input W J now mf e (JArr xs) = JArr (map (unmask_value_tool_input W J now mf e) xs)"
| "unmask_value_tool_input W J now mf e (JObj ms) =
     JObj (map (\<lambda>(k, x). (k, unmask_value_tool_input W J now mf e x)) ms)"
| "unmask_value_tool_input W J now mf e v = v"

definition unmask_map_tool_input ::
  "'c env \<Rightarrow> json_api \<Rightarrow> nat \<Rightarrow> unmask_manifest \<Rightarrow> 'c mask_engine \<Rightarrow> (string \<times> json) list \<Rightarrow> (string \<times> json) list" where
  "unmask_map_tool_input W J now mf e m = map (\<lambda>(k, x). (k, unmask_value_tool_input W J now mf e x)) m"

definition unmask_block :: "'c env \<Rightarrow> json_api \<Rightarrow> nat \<Rightarrow> unmask_manifest \<Rightarrow> 'c mask_engine \<Rightarrow> content_block \<Rightarrow> content_block" where
  "unmask_block W J now mf e b =
     (case b of
        CbText t r \<Rightarrow> CbText (unmask_str_assistant W J now mf e t) r
      | CbToolUse v r \<Rightarrow> CbToolUse (unmask_value_tool_input W J now mf e v) r
      | CbCompaction t r \<Rightarrow> CbCompaction (unmask_str W J now mf e t) r
      | _ \<Rightarrow> b)"

definition unmask_response ::
  "'c env \<Rightarrow> wire_api \<Rightarrow> json_api \<Rightarrow> nat \<Rightarrow> unmask_manifest \<Rightarrow> string \<Rightarrow> 'c mask_engine \<Rightarrow> mask_fault + string" where
  "unmask_response W K J now mf body e =
     (case parse_response K body of
        None \<Rightarrow> Inl JsonFault
      | Some rs \<Rightarrow>
          (case print_response K \<lparr>rs_content = map (unmask_block W J now mf e) (rs_content rs),
                 rs_extra = unmask_map W J now mf e (rs_extra rs), rs_rest = rs_rest rs\<rparr> of
             None \<Rightarrow> Inl JsonFault
           | Some bytes \<Rightarrow> Inr bytes))"

text \<open>The handles \<open>warn_fabricated_handles\<close> logs.\<close>

definition fabricated_handles ::
  "'c env \<Rightarrow> nat \<Rightarrow> unmask_manifest \<Rightarrow> string \<Rightarrow> 'c mask_engine \<Rightarrow> string list" where
  "fabricated_handles W now mf t e =
     (if \<not> contains ''['' t then []
      else filter (\<lambda>h. is_unresolvable_handle W now h mf e)
             (map (\<lambda>(a, b). slice t a b) (find_iter token_match t)))"

end
