(* ===== verification/Walk_Laws.thy ===== *)
theory Walk_Laws
  imports Wire_Walk Mask_Cache
begin

text \<open>
  What the request walk guarantees: which leaves it visits, in which order and on which surface, that
  the collecting pass visits exactly the leaves the masking pass masks, and that a secret standing in a
  field that is never rewritten stops the request. Afterwards: the response walks.
\<close>

section \<open>The leaves of a value\<close>

type_synonym leaf = "string \<times> surface"

fun value_leaves :: "surface \<Rightarrow> json \<Rightarrow> leaf list"
  and item_leaves :: "surface \<Rightarrow> json list \<Rightarrow> leaf list"
  and member_leaves :: "surface \<Rightarrow> (string \<times> json) list \<Rightarrow> leaf list"
where
  "value_leaves s (JStr t) = [(t, s)]"
| "value_leaves s (JArr xs) = item_leaves s xs"
| "value_leaves s (JObj ms) = member_leaves s ms"
| "value_leaves s v = []"
| "item_leaves s [] = []"
| "item_leaves s (x # xs) = value_leaves s x @ item_leaves s xs"
| "member_leaves s [] = []"
| "member_leaves s ((k, x) # ms) = value_leaves s x @ member_leaves s ms"

fun protocol_leaves :: "surface \<Rightarrow> json \<Rightarrow> leaf list"
  and protocol_item_leaves :: "surface \<Rightarrow> json list \<Rightarrow> leaf list"
  and protocol_member_leaves :: "surface \<Rightarrow> (string \<times> json) list \<Rightarrow> leaf list"
where
  "protocol_leaves s (JStr t) = [(t, s)]"
| "protocol_leaves s (JArr xs) = protocol_item_leaves s xs"
| "protocol_leaves s (JObj ms) = protocol_member_leaves s ms"
| "protocol_leaves s v = []"
| "protocol_item_leaves s [] = []"
| "protocol_item_leaves s (x # xs) = protocol_leaves s x @ protocol_item_leaves s xs"
| "protocol_member_leaves s [] = []"
| "protocol_member_leaves s ((k, x) # ms) =
     (if is_context_management_protocol_key k then [] else protocol_leaves s x) @ protocol_member_leaves s ms"

fun safe_leaves :: "safe_mode \<Rightarrow> json \<Rightarrow> leaf list"
  and safe_item_leaves :: "safe_mode \<Rightarrow> json list \<Rightarrow> leaf list"
  and safe_member_leaves :: "safe_mode \<Rightarrow> bool \<Rightarrow> (string \<times> json) list \<Rightarrow> leaf list"
where
  "safe_leaves m (JStr t) = [(t, mode_surface m)]"
| "safe_leaves m (JArr xs) = safe_item_leaves (item_mode m) xs"
| "safe_leaves m (JObj ms) = safe_member_leaves (object_mode m) (is_base64_object ms) ms"
| "safe_leaves m v = []"
| "safe_item_leaves m [] = []"
| "safe_item_leaves m (x # xs) = safe_leaves m x @ safe_item_leaves m xs"
| "safe_member_leaves m b64 [] = []"
| "safe_member_leaves m b64 ((k, x) # ms) =
     (case member_rule m b64 k of
        ProtocolWalk \<Rightarrow> protocol_leaves SystemPrompt x
      | SafeWalk m' \<Rightarrow> safe_leaves m' x
      | _ \<Rightarrow> []) @ safe_member_leaves m b64 ms"

section \<open>The leaves of a request\<close>

fun opt_leaves :: "('a \<Rightarrow> leaf list) \<Rightarrow> 'a option \<Rightarrow> leaf list" where
  "opt_leaves f None = []"
| "opt_leaves f (Some x) = f x"

definition each_leaves :: "('a \<Rightarrow> leaf list) \<Rightarrow> 'a list \<Rightarrow> leaf list" where
  "each_leaves f xs = concat (map f xs)"

fun image_leaves :: "surface \<Rightarrow> image_source \<Rightarrow> leaf list" where
  "image_leaves s (ImageUrl u) = [(u, s)]"
| "image_leaves s (ImageOther _) = []"

fun document_leaves :: "surface \<Rightarrow> document_source \<Rightarrow> leaf list" where
  "document_leaves s (DocUrl u) = [(u, s)]"
| "document_leaves s (DocOther _) = []"

fun result_block_leaves :: "tool_result_block \<Rightarrow> leaf list" where
  "result_block_leaves (TrText t) = [(t, ToolResult)]"
| "result_block_leaves (TrImage i) = image_leaves ToolResult i"
| "result_block_leaves (TrDocument d _) = document_leaves ToolResult d"
| "result_block_leaves (TrOther _) = []"

fun result_leaves :: "tool_result_content \<Rightarrow> leaf list" where
  "result_leaves (TrcText t) = [(t, ToolResult)]"
| "result_leaves (TrcBlocks bs) = each_leaves result_block_leaves bs"
| "result_leaves TrcOther = []"

fun block_leaves :: "string \<Rightarrow> content_block \<Rightarrow> leaf list" where
  "block_leaves role (CbText t _) = [(t, surface_for_role role)]"
| "block_leaves role (CbToolUse v _) = value_leaves ToolUseInput v"
| "block_leaves role (CbToolResult c _) = result_leaves c"
| "block_leaves role (CbImage i) = image_leaves UserMessage i"
| "block_leaves role (CbDocument d _) = document_leaves UserMessage d"
| "block_leaves role (CbCompaction t _) = [(t, AssistantText)]"
| "block_leaves role b = []"

fun system_leaves :: "system_content \<Rightarrow> leaf list" where
  "system_leaves (SysText t) = [(t, SystemPrompt)]"
| "system_leaves (SysBlocks bs) = each_leaves (\<lambda>b. [(sb_text b, SystemPrompt)]) bs"
| "system_leaves SysOther = []"

definition message_leaves :: "api_message \<Rightarrow> leaf list" where
  "message_leaves m = each_leaves (block_leaves (m_role m)) (m_content m)"

definition tool_leaves :: "api_tool \<Rightarrow> leaf list" where
  "tool_leaves t = [(t_description t, SystemPrompt)]"

definition metadata_member_leaves :: "string \<times> json \<Rightarrow> leaf list" where
  "metadata_member_leaves kv = (if fst kv = ''user_id'' then [] else value_leaves UserMessage (snd kv))"

definition metadata_leaves :: "json \<Rightarrow> leaf list" where
  "metadata_leaves v = (case v of JObj ms \<Rightarrow> each_leaves metadata_member_leaves ms | _ \<Rightarrow> value_leaves UserMessage v)"

definition request_leaves :: "api_request \<Rightarrow> leaf list" where
  "request_leaves rq =
     opt_leaves system_leaves (rq_system rq) @ each_leaves message_leaves (rq_messages rq)
     @ opt_leaves (each_leaves tool_leaves) (rq_tools rq) @ opt_leaves metadata_leaves (rq_metadata rq)
     @ opt_leaves (protocol_leaves SystemPrompt) (rq_context_management rq)"

section \<open>Masking a list of leaves\<close>

definition mask_one :: "'c env \<Rightarrow> int \<Rightarrow> bool \<Rightarrow> leaf \<Rightarrow> 'c mask_engine \<Rightarrow> (engine_error + mask_outcome) \<times> 'c mask_engine" where
  "mask_one W today force l e =
     (if force then mask_when_disabled W (fst l) (snd l) e else mask W today (fst l) (snd l) e)"

fun mask_all :: "'c env \<Rightarrow> int \<Rightarrow> bool \<Rightarrow> leaf list \<Rightarrow> 'c mask_engine \<Rightarrow> (engine_error + mask_outcome list) \<times> 'c mask_engine" where
  "mask_all W today force [] e = (Inr [], e)"
| "mask_all W today force (l # ls) e =
     bnd (mask_one W today force l e) (\<lambda>o1 e. bnd (mask_all W today force ls e) (\<lambda>os e. (Inr (o1 # os), e)))"

definition relabel :: "leaf list \<Rightarrow> mask_outcome list \<Rightarrow> leaf list" where
  "relabel ls outs = map2 (\<lambda>l out. (masked_text out, snd l)) ls outs"

definition absorb :: "'c mask_walker \<Rightarrow> mask_outcome list \<Rightarrow> 'c mask_engine \<Rightarrow> 'c mask_walker" where
  "absorb w outs e =
     w\<lparr>w_engine := e, w_manifest := w_manifest w @ concat (map outcome_manifest outs),
       w_stats := foldl (\<lambda>s out. stats_merge s (stats out)) (w_stats w) outs\<rparr>"

lemma bnd_simps [simp]:
  "bnd (Inr x, s) k = k x s" "bnd (Inl e, s) k = (Inl e, s)"
  by (simp_all add: bnd_def)

lemma bnd_Inr: "bnd r k = (Inr y, s') \<longleftrightarrow> (\<exists>x s. r = (Inr x, s) \<and> k x s = (Inr y, s'))"
  by (auto simp: bnd_def split: prod.splits sum.splits)

lemma mask_all_length: "mask_all W today force ls e = (Inr outs, e') \<Longrightarrow> length outs = length ls"
  by (induction ls arbitrary: e outs) (auto simp: bnd_Inr)

lemma mask_all_append:
  "mask_all W today force a e = (Inr x, e1) \<Longrightarrow> mask_all W today force b e1 = (Inr y, e2)
    \<Longrightarrow> mask_all W today force (a @ b) e = (Inr (x @ y), e2)"
  by (induction a arbitrary: e x) (auto simp: bnd_Inr)

lemma relabel_append: "length x = length a \<Longrightarrow> relabel (a @ b) (x @ y) = relabel a x @ relabel b y"
  by (simp add: relabel_def)

lemma absorb_append: "absorb (absorb w x e1) y e2 = absorb w (x @ y) e2"
  by (simp add: absorb_def)

section \<open>Walks that visit leaves\<close>

text \<open>
  \<open>visits act v pre ls L\<close>: in masking mode a successful \<open>act\<close> has masked exactly the leaves \<open>ls\<close>, in
  order, and the leaves of its result (after \<open>pre\<close>) are the masked ones; in collecting mode it leaves
  \<open>v\<close> and everything but the collection as they are, and has collected exactly \<open>ls\<close>.
\<close>

definition visits ::
  "'c env \<Rightarrow> int \<Rightarrow> ('c, 'v) walk \<Rightarrow> 'v \<Rightarrow> leaf list \<Rightarrow> leaf list \<Rightarrow> ('v \<Rightarrow> leaf list) \<Rightarrow> bool" where
  "visits W today act v pre ls L \<longleftrightarrow>
     (\<forall>w v' w'. w_collect w = None \<longrightarrow> act w = (Inr v', w') \<longrightarrow>
        (\<exists>outs e'. mask_all W today (w_force_disabled w) ls (w_engine w) = (Inr outs, e')
           \<and> w' = absorb w outs e' \<and> L v' = pre @ relabel ls outs))
     \<and> (\<forall>w v' w' ls0. w_collect w = Some ls0 \<longrightarrow> act w = (Inr v', w') \<longrightarrow>
        v' = v \<and> w' = w\<lparr>w_collect := Some (ls0 @ ls)\<rparr>)"

lemma visits_cong:
  assumes "visits W today act' v' pre ls' L" "\<And>w. act w = act' w" "v = v'" "ls = ls'"
  shows "visits W today act v pre ls L"
proof -
  have "act = act'" using assms(2) by (rule ext)
  with assms(1,3,4) show ?thesis by simp
qed

lemma visits_ret: "L v = pre \<Longrightarrow> visits W today (\<lambda>w. (Inr v, w)) v pre [] L"
  by (auto simp: visits_def absorb_def relabel_def)

lemma visits_refuse: "L v = pre \<Longrightarrow> visits W today (\<lambda>w. refuse_hit (f w) v w) v pre [] L"
  by (auto simp: visits_def absorb_def relabel_def refuse_hit_def split: option.splits)

lemma absorb_one:
  "absorb w [out] e = w\<lparr>w_engine := e, w_manifest := manifest_merge (w_manifest w) (outcome_manifest out),
     w_stats := stats_merge (w_stats w) (stats out)\<rparr>"
  by (simp add: absorb_def manifest_merge_def)

lemma walk_str_mask:
  "w_collect w = None \<Longrightarrow> walk_str W today s t w =
     (case mask_one W today (w_force_disabled w) (t, s) (w_engine w) of
        (Inl err, e) \<Rightarrow> (Inl err, w\<lparr>w_engine := e\<rparr>)
      | (Inr out, e) \<Rightarrow> (Inr (masked_text out), absorb w [out] e))"
  by (simp only: walk_str_def mask_one_def absorb_one option.case fst_conv snd_conv)

lemma visits_str: "visits W today (walk_str W today s t) t [] [(t, s)] (\<lambda>t. [(t, s)])"
  unfolding visits_def
proof (intro conjI allI impI)
  fix w v' w' assume n: "w_collect w = None" and r: "walk_str W today s t w = (Inr v', w')"
  obtain q e where q: "mask_one W today (w_force_disabled w) (t, s) (w_engine w) = (q, e)" by force
  have "(case (q, e) of (Inl err, e) \<Rightarrow> (Inl err, w\<lparr>w_engine := e\<rparr>)
      | (Inr out, e) \<Rightarrow> (Inr (masked_text out), absorb w [out] e)) = (Inr v', w')"
    using r unfolding walk_str_mask [OF n] q .
  then obtain out where "q = Inr out" "v' = masked_text out" "w' = absorb w [out] e" by (cases q) auto
  with q show "\<exists>outs e'. mask_all W today (w_force_disabled w) [(t, s)] (w_engine w) = (Inr outs, e')
      \<and> w' = absorb w outs e' \<and> [(v', s)] = [] @ relabel [(t, s)] outs"
    by (intro exI [of _ "[out]"] exI [of _ e]) (simp add: relabel_def)
next
  fix w v' w' ls0 assume "w_collect w = Some ls0" "walk_str W today s t w = (Inr v', w')"
  then have "(Inr t, w\<lparr>w_collect := Some (ls0 @ [(t, s)])\<rparr>) = (Inr v' :: engine_error + string, w')"
    by (simp only: walk_str_def option.case)
  then show "v' = t" "w' = w\<lparr>w_collect := Some (ls0 @ [(t, s)])\<rparr>" by blast+
qed

lemma visits_maskE:
  assumes "visits W today act v pre ls L" "w_collect w = None" "act w = (Inr v', w')"
  obtains outs e' where "mask_all W today (w_force_disabled w) ls (w_engine w) = (Inr outs, e')"
    "w' = absorb w outs e'" "L v' = pre @ relabel ls outs"
  using assms unfolding visits_def by blast

lemma visits_collectD:
  assumes "visits W today act v pre ls L" "w_collect w = Some ls0" "act w = (Inr v', w')"
  shows "v' = v \<and> w' = w\<lparr>w_collect := Some (ls0 @ ls)\<rparr>"
  using assms unfolding visits_def by blast

lemma visits_bnd:
  assumes a: "visits W today a x [] ls1 L1"
    and b: "\<And>x'. visits W today (B x') (D x') (pre @ L1 x') ls2 L"
  shows "visits W today (\<lambda>w. bnd (a w) B) (D x) pre (ls1 @ ls2) L"
  unfolding visits_def
proof (intro conjI allI impI)
  fix w v' w' assume n: "w_collect w = None" and r: "bnd (a w) B = (Inr v', w')"
  obtain x' w1 where s: "a w = (Inr x', w1)" "B x' w1 = (Inr v', w')" using r unfolding bnd_Inr by blast
  obtain o1 e1 where o1: "mask_all W today (w_force_disabled w) ls1 (w_engine w) = (Inr o1, e1)"
    "w1 = absorb w o1 e1" "L1 x' = [] @ relabel ls1 o1" by (rule visits_maskE [OF a n s(1)])
  have w1: "w_collect w1 = None" "w_force_disabled w1 = w_force_disabled w" "w_engine w1 = e1"
    using n unfolding o1(2) by (simp_all add: absorb_def)
  obtain o2 e2 where o2: "mask_all W today (w_force_disabled w1) ls2 (w_engine w1) = (Inr o2, e2)"
    "w' = absorb w1 o2 e2" "L v' = (pre @ L1 x') @ relabel ls2 o2" by (rule visits_maskE [OF b w1(1) s(2)])
  have "mask_all W today (w_force_disabled w) (ls1 @ ls2) (w_engine w) = (Inr (o1 @ o2), e2)"
    by (rule mask_all_append [OF o1(1)]) (use o2(1) w1 in simp)
  moreover have "w' = absorb w (o1 @ o2) e2" unfolding o2(2) o1(2) by (rule absorb_append)
  moreover have "L v' = pre @ relabel (ls1 @ ls2) (o1 @ o2)"
    using o1(3) o2(3) relabel_append [OF mask_all_length [OF o1(1)]] by simp
  ultimately show "\<exists>outs e'. mask_all W today (w_force_disabled w) (ls1 @ ls2) (w_engine w) = (Inr outs, e')
      \<and> w' = absorb w outs e' \<and> L v' = pre @ relabel (ls1 @ ls2) outs" by blast
next
  fix w v' w' ls0 assume n: "w_collect w = Some ls0" and r: "bnd (a w) B = (Inr v', w')"
  obtain x' w1 where s: "a w = (Inr x', w1)" "B x' w1 = (Inr v', w')" using r unfolding bnd_Inr by blast
  have w1: "x' = x" "w1 = w\<lparr>w_collect := Some (ls0 @ ls1)\<rparr>" using visits_collectD [OF a n s(1)] by simp_all
  have "w_collect w1 = Some (ls0 @ ls1)" unfolding w1 by simp
  from visits_collectD [OF b this s(2)] show "v' = D x" "w' = w\<lparr>w_collect := Some (ls0 @ ls1 @ ls2)\<rparr>"
    unfolding w1 by simp_all
qed

lemma visits_map:
  assumes "visits W today a x [] ls L1" "\<And>x'. L (C x') = L1 x'"
  shows "visits W today (\<lambda>w. bnd (a w) (\<lambda>x' w. (Inr (C x'), w))) (C x) [] ls L"
proof -
  have "visits W today (\<lambda>w. bnd (a w) (\<lambda>x' w. (Inr (C x'), w))) (C x) [] (ls @ []) L"
    by (rule visits_bnd [OF assms(1)], rule visits_ret) (simp add: assms(2))
  then show ?thesis by simp
qed

lemma visits_pair:
  assumes "visits W today a x [] l1 L1" "visits W today b y [] l2 L2" "\<And>x' y'. L (C x' y') = L1 x' @ L2 y'"
  shows "visits W today (\<lambda>w. bnd (a w) (\<lambda>x' w. bnd (b w) (\<lambda>y' w. (Inr (C x' y'), w)))) (C x y) [] (l1 @ l2) L"
proof (rule visits_bnd [OF assms(1)])
  fix x'
  have "visits W today (\<lambda>w. bnd (b w) (\<lambda>y' w. (Inr (C x' y'), w))) (C x' y) ([] @ L1 x') (l2 @ []) L"
    by (rule visits_bnd [OF assms(2)], rule visits_ret) (simp add: assms(3))
  then show "visits W today (\<lambda>w. bnd (b w) (\<lambda>y' w. (Inr (C x' y'), w))) (C x' y) ([] @ L1 x') l2 L" by simp
qed

subsection \<open>JSON values\<close>

lemma value_visits:
  "visits W today (walk_value W today s v) v [] (value_leaves s v) (value_leaves s)"
  "visits W today (walk_items W today s xs) xs [] (item_leaves s xs) (item_leaves s)"
  "visits W today (walk_members W today s ms) ms [] (member_leaves s ms) (member_leaves s)"
proof (induction s v and s xs and s ms rule: value_leaves_item_leaves_member_leaves.induct)
  case (1 s t)
  show ?case
    by (rule visits_cong [OF visits_map [OF visits_str, where C = JStr and L = "value_leaves s"]]) simp_all
next
  case (2 s xs)
  show ?case
    by (rule visits_cong [OF visits_map [OF 2, where C = JArr and L = "value_leaves s"]]) simp_all
next
  case (3 s ms)
  show ?case
    by (rule visits_cong [OF visits_map [OF 3, where C = JObj and L = "value_leaves s"]]) simp_all
next
  case (5 s)
  show ?case by (rule visits_cong [OF visits_ret [where L = "item_leaves s" and v = "[]"]]) simp_all
next
  case (6 s x xs)
  show ?case
    by (rule visits_cong [OF visits_pair [OF 6, where C = Cons and L = "item_leaves s"]]) simp_all
next
  case (7 s)
  show ?case by (rule visits_cong [OF visits_ret [where L = "member_leaves s" and v = "[]"]]) simp_all
next
  case (8 s k x ms)
  show ?case
    by (rule visits_cong [OF visits_pair [OF 8, where C = "\<lambda>x ms. (k, x) # ms" and L = "member_leaves s"]]) simp_all
qed (rule visits_cong [OF visits_ret [where L = "value_leaves s" for s]]; simp)+

lemma protocol_visits:
  "visits W today (walk_protocol W today s v) v [] (protocol_leaves s v) (protocol_leaves s)"
  "visits W today (walk_protocol_items W today s xs) xs [] (protocol_item_leaves s xs) (protocol_item_leaves s)"
  "visits W today (walk_protocol_members W today s ms) ms [] (protocol_member_leaves s ms) (protocol_member_leaves s)"
proof (induction s v and s xs and s ms rule: protocol_leaves_protocol_item_leaves_protocol_member_leaves.induct)
  case (1 s t)
  show ?case
    by (rule visits_cong [OF visits_map [OF visits_str, where C = JStr and L = "protocol_leaves s"]]) simp_all
next
  case (2 s xs)
  show ?case
    by (rule visits_cong [OF visits_map [OF 2, where C = JArr and L = "protocol_leaves s"]]) simp_all
next
  case (3 s ms)
  show ?case
    by (rule visits_cong [OF visits_map [OF 3, where C = JObj and L = "protocol_leaves s"]]) simp_all
next
  case (5 s)
  show ?case by (rule visits_cong [OF visits_ret [where L = "protocol_item_leaves s" and v = "[]"]]) simp_all
next
  case (6 s x xs)
  show ?case
    by (rule visits_cong [OF visits_pair [OF 6, where C = Cons and L = "protocol_item_leaves s"]]) simp_all
next
  case (7 s)
  show ?case by (rule visits_cong [OF visits_ret [where L = "protocol_member_leaves s" and v = "[]"]]) simp_all
next
  case (8 s k x ms)
  let ?p = "is_context_management_protocol_key k"
  have "visits W today (\<lambda>w. if ?p then (Inr x, w) else walk_protocol W today s x w) x []
      (if ?p then [] else protocol_leaves s x) (\<lambda>x. if ?p then [] else protocol_leaves s x)"
    using 8(1) by (cases ?p) (simp_all add: visits_ret)
  from visits_pair [OF this 8(2), where C = "\<lambda>x ms. (k, x) # ms" and L = "protocol_member_leaves s"]
  show ?case by (rule visits_cong) simp_all
qed (rule visits_cong [OF visits_ret [where L = "protocol_leaves s" for s]]; simp)+

subsection \<open>The fail-safe walk\<close>

lemma refuse_Inr: "refuse_hit f v w = (Inr v', w') \<longleftrightarrow> f = None \<and> v' = v \<and> w' = w"
  by (auto simp: refuse_hit_def split: option.splits)

lemma type_member_kept: "member_rule m b64 ''type'' \<in> {Verbatim, ScanOnly}"
  by (simp add: member_rule_def preserves_contract_key_def split: safe_mode.split)

lemma members_keep_type:
  "walk_safe_members W today m b64 ms w = (Inr ms', w') \<Longrightarrow> map_of ms' ''type'' = map_of ms ''type''"
proof (induction ms arbitrary: w ms' w')
  case (Cons kx ms)
  obtain k x where kx: "kx = (k, x)" by force
  from Cons.prems obtain x' ms1 w1 w2 where
    h: "(case member_rule m b64 k of Verbatim \<Rightarrow> (Inr x, w) | ProtocolWalk \<Rightarrow> context_management W today x w
          | ScanOnly \<Rightarrow> walk_schema W x w | SafeWalk m' \<Rightarrow> walk_safe W today m' x w) = (Inr x', w1)"
    and t: "walk_safe_members W today m b64 ms w1 = (Inr ms1, w2)" and ms': "ms' = (k, x') # ms1"
    by (auto simp: kx bnd_Inr)
  have "k = ''type'' \<Longrightarrow> x' = x"
    using h type_member_kept [of m b64] by (auto simp: walk_schema_def refuse_Inr)
  with Cons.IH [OF t] kx ms' show ?case by auto
qed simp

lemma protocol_eta: "context_management W today x = walk_protocol W today SystemPrompt x"
  by (simp add: context_management_def fun_eq_iff)

lemma schema_eta: "walk_schema W x = (\<lambda>w. refuse_hit (scan_value W (w_engine w) x 0) x w)"
  by (simp add: walk_schema_def fun_eq_iff)

lemma visits_map_on:
  assumes a: "visits W today a x [] ls L1" and q: "\<And>w x' w'. a w = (Inr x', w') \<Longrightarrow> L (C x') = L1 x'"
  shows "visits W today (\<lambda>w. bnd (a w) (\<lambda>x' w. (Inr (C x'), w))) (C x) [] ls L"
  unfolding visits_def
proof (intro conjI allI impI)
  fix w v' w' assume n: "w_collect w = None" and "bnd (a w) (\<lambda>x' w. (Inr (C x'), w)) = (Inr v', w')"
  then obtain x' where r: "a w = (Inr x', w')" "v' = C x'" unfolding bnd_Inr by blast
  from visits_maskE [OF a n r(1)] q [OF r(1)] r(2) show "\<exists>outs e'.
      mask_all W today (w_force_disabled w) ls (w_engine w) = (Inr outs, e') \<and> w' = absorb w outs e' \<and> L v' = [] @ relabel ls outs"
    by metis
next
  fix w v' w' ls0 assume n: "w_collect w = Some ls0" and "bnd (a w) (\<lambda>x' w. (Inr (C x'), w)) = (Inr v', w')"
  then obtain x' where r: "a w = (Inr x', w')" "v' = C x'" unfolding bnd_Inr by blast
  from visits_collectD [OF a n r(1)] r(2) show "v' = C x" "w' = w\<lparr>w_collect := Some (ls0 @ ls)\<rparr>" by blast+
qed

lemma safe_visits:
  "visits W today (walk_safe W today m v) v [] (safe_leaves m v) (safe_leaves m)"
  "visits W today (walk_safe_items W today m xs) xs [] (safe_item_leaves m xs) (safe_item_leaves m)"
  "visits W today (walk_safe_members W today m b64 ms) ms [] (safe_member_leaves m b64 ms) (safe_member_leaves m b64)"
proof (induction m v and m xs and m b64 ms rule: safe_leaves_safe_item_leaves_safe_member_leaves.induct)
  case (1 m t)
  show ?case
    by (rule visits_cong [OF visits_map [OF visits_str, where C = JStr and L = "safe_leaves m"]]) simp_all
next
  case (2 m xs)
  show ?case
    by (rule visits_cong [OF visits_map [OF 2, where C = JArr and L = "safe_leaves m"]]) simp_all
next
  case (3 m ms)
  have "visits W today (\<lambda>w. bnd (walk_safe_members W today (object_mode m) (is_base64_object ms) ms w)
      (\<lambda>ms w. (Inr (JObj ms), w))) (JObj ms) [] (safe_member_leaves (object_mode m) (is_base64_object ms) ms) (safe_leaves m)"
    by (rule visits_map_on [OF 3]) (simp add: is_base64_object_def members_keep_type)
  then show ?case by (rule visits_cong) simp_all
next
  case (5 m)
  show ?case by (rule visits_cong [OF visits_ret [where L = "safe_item_leaves m" and v = "[]"]]) simp_all
next
  case (6 m x xs)
  show ?case
    by (rule visits_cong [OF visits_pair [OF 6, where C = Cons and L = "safe_item_leaves m"]]) simp_all
next
  case (7 m b64)
  show ?case by (rule visits_cong [OF visits_ret [where L = "safe_member_leaves m b64" and v = "[]"]]) simp_all
next
  case (8 m b64 k x ms)
  let ?L = "\<lambda>x. case member_rule m b64 k of ProtocolWalk \<Rightarrow> protocol_leaves SystemPrompt x
      | SafeWalk m' \<Rightarrow> safe_leaves m' x | _ \<Rightarrow> []"
  have "visits W today (\<lambda>w. case member_rule m b64 k of Verbatim \<Rightarrow> (Inr x, w)
      | ProtocolWalk \<Rightarrow> context_management W today x w | ScanOnly \<Rightarrow> walk_schema W x w
      | SafeWalk m' \<Rightarrow> walk_safe W today m' x w) x [] (?L x) ?L"
    using 8(1) protocol_visits(1) [of W today SystemPrompt x]
    by (cases "member_rule m b64 k")
      (simp_all add: visits_ret schema_eta visits_refuse protocol_eta)
  from visits_pair [OF this 8(2), where C = "\<lambda>x ms. (k, x) # ms" and L = "safe_member_leaves m b64"]
  show ?case by (rule visits_cong) simp_all
qed (rule visits_cong [OF visits_ret [where L = "safe_leaves m" for m]]; simp)+

subsection \<open>The typed request\<close>

lemma visits_each:
  assumes "\<And>x. x \<in> set xs \<Longrightarrow> visits W today (f x) x [] (g x) g"
  shows "visits W today (walk_each f xs) xs [] (each_leaves g xs) (each_leaves g)"
  using assms
proof (induction xs)
  case Nil
  show ?case
    by (rule visits_cong [OF visits_ret [where L = "each_leaves g" and v = "[]"]]) (simp_all add: each_leaves_def)
next
  case (Cons x xs)
  have x: "visits W today (f x) x [] (g x) g" and xs: "visits W today (walk_each f xs) xs [] (each_leaves g xs) (each_leaves g)"
    using Cons by simp_all
  show ?case
    by (rule visits_cong [OF visits_pair [OF x xs, where C = Cons and L = "each_leaves g"]])
      (simp_all add: each_leaves_def)
qed

lemma visits_opt:
  assumes "\<And>x. visits W today (f x) x [] (g x) g"
  shows "visits W today (walk_opt f v) v [] (opt_leaves g v) (opt_leaves g)"
proof (cases v)
  case None
  then show ?thesis
    by (intro visits_cong [OF visits_ret [where L = "opt_leaves g" and v = None]]) (simp_all add: walk_opt_def)
next
  case (Some y)
  then show ?thesis
    by (intro visits_cong [OF visits_map [OF assms [of y], where C = Some and L = "opt_leaves g"]])
      (simp_all add: walk_opt_def)
qed

lemma image_visits: "visits W today (walk_image W today s i) i [] (image_leaves s i) (image_leaves s)"
proof (cases i)
  case (ImageUrl u)
  then show ?thesis
    by (intro visits_cong [OF visits_map [OF visits_str, where C = ImageUrl and L = "image_leaves s"]])
      (simp_all add: walk_image_def)
next
  case (ImageOther r)
  then show ?thesis
    by (intro visits_cong [OF visits_ret [where L = "image_leaves s" and v = i]]) (simp_all add: walk_image_def)
qed

lemma document_visits: "visits W today (walk_document W today s d) d [] (document_leaves s d) (document_leaves s)"
proof (cases d)
  case (DocUrl u)
  then show ?thesis
    by (intro visits_cong [OF visits_map [OF visits_str, where C = DocUrl and L = "document_leaves s"]])
      (simp_all add: walk_document_def)
next
  case (DocOther r)
  then show ?thesis
    by (intro visits_cong [OF visits_ret [where L = "document_leaves s" and v = d]]) (simp_all add: walk_document_def)
qed

lemma result_block_visits:
  "visits W today (walk_result_block W today b) b [] (result_block_leaves b) result_block_leaves"
proof (cases b)
  case (TrText t)
  then show ?thesis
    by (intro visits_cong [OF visits_map [OF visits_str, where C = TrText and L = result_block_leaves]])
      (simp_all add: walk_result_block_def)
next
  case (TrImage i)
  then show ?thesis
    by (intro visits_cong [OF visits_map [OF image_visits, where C = TrImage and L = result_block_leaves]])
      (simp_all add: walk_result_block_def)
next
  case (TrDocument d r)
  then show ?thesis
    by (intro visits_cong [OF visits_map [OF document_visits, where C = "\<lambda>d. TrDocument d r" and L = result_block_leaves]])
      (simp_all add: walk_result_block_def)
next
  case (TrOther r)
  then show ?thesis
    by (intro visits_cong [OF visits_ret [where L = result_block_leaves and v = b]]) (simp_all add: walk_result_block_def)
qed

lemma result_visits: "visits W today (walk_tool_result W today c) c [] (result_leaves c) result_leaves"
proof (cases c)
  case (TrcText t)
  then show ?thesis
    by (intro visits_cong [OF visits_map [OF visits_str, where C = TrcText and L = result_leaves]])
      (simp_all add: walk_tool_result_def)
next
  case (TrcBlocks bs)
  then show ?thesis
    by (intro visits_cong [OF visits_map [OF visits_each [OF result_block_visits], where C = TrcBlocks and L = result_leaves]])
      (simp_all add: walk_tool_result_def)
next
  case TrcOther
  then show ?thesis
    by (intro visits_cong [OF visits_ret [where L = result_leaves and v = c]]) (simp_all add: walk_tool_result_def)
qed

lemma block_visits: "visits W today (walk_block W today role b) b [] (block_leaves role b) (block_leaves role)"
proof (cases b)
  case (CbText t r)
  then show ?thesis
    by (intro visits_cong [OF visits_map [OF visits_str, where C = "\<lambda>t. CbText t r" and L = "block_leaves role"]])
      (simp_all add: walk_block_def)
next
  case (CbToolUse v r)
  then show ?thesis
    by (intro visits_cong [OF visits_map [OF value_visits(1), where C = "\<lambda>t. CbToolUse t r" and L = "block_leaves role"]])
      (simp_all add: walk_block_def)
next
  case (CbToolResult c r)
  then show ?thesis
    by (intro visits_cong [OF visits_map [OF result_visits, where C = "\<lambda>t. CbToolResult t r" and L = "block_leaves role"]])
      (simp_all add: walk_block_def)
next
  case (CbImage i)
  then show ?thesis
    by (intro visits_cong [OF visits_map [OF image_visits, where C = CbImage and L = "block_leaves role"]])
      (simp_all add: walk_block_def)
next
  case (CbDocument d r)
  then show ?thesis
    by (intro visits_cong [OF visits_map [OF document_visits, where C = "\<lambda>t. CbDocument t r" and L = "block_leaves role"]])
      (simp_all add: walk_block_def)
next
  case (CbCompaction t r)
  then show ?thesis
    by (intro visits_cong [OF visits_map [OF visits_str, where C = "\<lambda>t. CbCompaction t r" and L = "block_leaves role"]])
      (simp_all add: walk_block_def)
qed (intro visits_cong [OF visits_ret [where L = "block_leaves role" and v = b]]; simp add: walk_block_def)+

lemma unknown_visits: "visits W today (check_unknown_map W x) x [] [] (\<lambda>_. [])"
  by (rule visits_cong [OF visits_refuse [where L = "\<lambda>_. []" and f = "\<lambda>w. if x = [] then None else scan_map W (w_engine w) x"]])
    (simp_all add: check_unknown_map_def)

lemma schema_visits: "visits W today (walk_schema W x) x [] [] (\<lambda>_. [])"
  unfolding schema_eta by (rule visits_refuse) simp

lemma output_config_visits: "visits W today (walk_output_config W K x) x [] [] (\<lambda>_. [])"
proof (cases "output_config_value K x")
  case None
  then show ?thesis
    by (intro visits_cong [OF visits_ret [where L = "\<lambda>_. []" and v = x]]) (simp_all add: walk_output_config_def)
next
  case (Some v)
  then show ?thesis
    by (intro visits_cong [OF visits_refuse [where L = "\<lambda>_. []" and f = "\<lambda>w. scan_value W (w_engine w) v 0"]])
      (simp_all add: walk_output_config_def)
qed

lemma wire_eta:
  "\<lparr>sb_text = sb_text b, sb_extra = sb_extra b\<rparr> = b"
  "\<lparr>m_role = m_role m, m_content = m_content m, m_extra = m_extra m\<rparr> = m"
  "\<lparr>rq_system = rq_system rq, rq_messages = rq_messages rq, rq_tools = rq_tools rq,
     rq_output_config = rq_output_config rq, rq_metadata = rq_metadata rq,
     rq_context_management = rq_context_management rq, rq_extra = rq_extra rq, rq_rest = rq_rest rq\<rparr> = rq"
  by (cases b, simp) (cases m, simp, cases rq, simp)

lemma opt_leaves_none [simp]: "opt_leaves (\<lambda>_. []) x = []"
  by (cases x) simp_all

lemma context_visits:
  "visits W today (context_management W today v) v [] (protocol_leaves SystemPrompt v) (protocol_leaves SystemPrompt)"
  unfolding protocol_eta by (rule protocol_visits)

lemma system_block_visits:
  "visits W today (walk_system_block W today b) b [] [(sb_text b, SystemPrompt)] (\<lambda>b. [(sb_text b, SystemPrompt)])"
  by (rule visits_cong [OF visits_pair [OF visits_str unknown_visits, where C = "\<lambda>t x. \<lparr>sb_text = t, sb_extra = x\<rparr>"
        and L = "\<lambda>b. [(sb_text b, SystemPrompt)]"]])
    (simp_all add: walk_system_block_def, cases b, simp)

lemma system_visits: "visits W today (walk_system W today x) x [] (system_leaves x) system_leaves"
proof (cases x)
  case (SysText t)
  then show ?thesis
    by (intro visits_cong [OF visits_map [OF visits_str, where C = SysText and L = system_leaves]])
      (simp_all add: walk_system_def)
next
  case (SysBlocks bs)
  then show ?thesis
    by (intro visits_cong [OF visits_map [OF visits_each [OF system_block_visits], where C = SysBlocks and L = system_leaves]])
      (simp_all add: walk_system_def)
next
  case SysOther
  then show ?thesis
    by (intro visits_cong [OF visits_ret [where L = system_leaves and v = x]]) (simp_all add: walk_system_def)
qed

lemma message_visits: "visits W today (walk_message W today m) m [] (message_leaves m) message_leaves"
  by (rule visits_cong [OF visits_pair [OF visits_each [OF block_visits [of _ _ "m_role m"]] unknown_visits,
        where C = "\<lambda>bs x. \<lparr>m_role = m_role m, m_content = bs, m_extra = x\<rparr>" and L = message_leaves]])
    (simp_all add: walk_message_def message_leaves_def, cases m, simp)

lemma tool_visits: "visits W today (walk_tool W today t) t [] (tool_leaves t) tool_leaves"
proof -
  have "visits W today (\<lambda>w. bnd (walk_str W today SystemPrompt (t_description t) w)
       (\<lambda>d w. bnd (walk_schema W (t_input_schema t) w)
          (\<lambda>sch w. bnd (check_unknown_map W (t_extra t) w)
             (\<lambda>x w. (Inr \<lparr>t_description = d, t_input_schema = sch, t_extra = x, t_rest = t_rest t\<rparr>, w)))))
      \<lparr>t_description = t_description t, t_input_schema = t_input_schema t, t_extra = t_extra t, t_rest = t_rest t\<rparr> []
      ([(t_description t, SystemPrompt)] @ [] @ [] @ []) tool_leaves"
    by (rule visits_bnd [OF visits_str], rule visits_bnd [OF schema_visits], rule visits_bnd [OF unknown_visits],
        rule visits_ret) (simp add: tool_leaves_def)
  then show ?thesis by (rule visits_cong) (simp_all add: walk_tool_def tool_leaves_def)
qed

lemma metadata_member_visits:
  "visits W today (walk_metadata_member W today kv) kv [] (metadata_member_leaves kv) metadata_member_leaves"
proof (cases "fst kv = ''user_id''")
  case True
  then show ?thesis
    by (intro visits_cong [OF visits_ret [where L = metadata_member_leaves and v = kv]])
      (simp_all add: walk_metadata_member_def metadata_member_leaves_def)
next
  case False
  then show ?thesis
    by (intro visits_cong [OF visits_map [OF value_visits(1), where C = "\<lambda>v. (fst kv, v)" and L = metadata_member_leaves]])
      (simp_all add: walk_metadata_member_def metadata_member_leaves_def)
qed

lemma metadata_visits: "visits W today (walk_metadata W today v) v [] (metadata_leaves v) metadata_leaves"
proof (cases v)
  case (JObj ms)
  then show ?thesis
    by (intro visits_cong [OF visits_map [OF visits_each [OF metadata_member_visits], where C = JObj and L = metadata_leaves]])
      (simp_all add: walk_metadata_def metadata_leaves_def)
next
  case (JArr xs)
  have "visits W today (\<lambda>w. bnd (walk_items W today UserMessage xs w) (\<lambda>ys w. (Inr (JArr ys), w))) (JArr xs) []
      (item_leaves UserMessage xs) metadata_leaves"
    by (rule visits_map [OF value_visits(2)]) (simp add: metadata_leaves_def)
  then show ?thesis by (rule visits_cong) (simp_all add: JArr walk_metadata_def metadata_leaves_def)
next
  case (JStr t)
  have "visits W today (\<lambda>w. bnd (walk_str W today UserMessage t w) (\<lambda>t w. (Inr (JStr t), w))) (JStr t) []
      [(t, UserMessage)] metadata_leaves"
    by (rule visits_map [OF visits_str]) (simp add: metadata_leaves_def)
  then show ?thesis by (rule visits_cong) (simp_all add: JStr walk_metadata_def metadata_leaves_def)
qed (intro visits_cong [OF visits_ret [where L = metadata_leaves and v = v]]; simp add: walk_metadata_def metadata_leaves_def)+

lemma request_visits: "visits W today (walk_request W K today rq) rq [] (request_leaves rq) request_leaves"
proof -
  let ?R = "\<lambda>sys msgs tools oc meta ctx x. \<lparr>rq_system = sys, rq_messages = msgs, rq_tools = tools, rq_output_config = oc,
    rq_metadata = meta, rq_context_management = ctx, rq_extra = x, rq_rest = rq_rest rq\<rparr>"
  have "visits W today (\<lambda>w.
     bnd (walk_opt (walk_system W today) (rq_system rq) w) (\<lambda>sys w.
     bnd (walk_each (walk_message W today) (rq_messages rq) w) (\<lambda>msgs w.
     bnd (walk_opt (walk_each (walk_tool W today)) (rq_tools rq) w) (\<lambda>tools w.
     bnd (walk_opt (walk_output_config W K) (rq_output_config rq) w) (\<lambda>oc w.
     bnd (walk_opt (walk_metadata W today) (rq_metadata rq) w) (\<lambda>meta w.
     bnd (walk_opt (context_management W today) (rq_context_management rq) w) (\<lambda>ctx w.
     bnd (check_unknown_map W (rq_extra rq) w) (\<lambda>x w. (Inr (?R sys msgs tools oc meta ctx x), w)))))))))
     (?R (rq_system rq) (rq_messages rq) (rq_tools rq) (rq_output_config rq) (rq_metadata rq)
        (rq_context_management rq) (rq_extra rq)) []
     (opt_leaves system_leaves (rq_system rq) @ each_leaves message_leaves (rq_messages rq)
      @ opt_leaves (each_leaves tool_leaves) (rq_tools rq) @ opt_leaves (\<lambda>_. []) (rq_output_config rq)
      @ opt_leaves metadata_leaves (rq_metadata rq)
      @ opt_leaves (protocol_leaves SystemPrompt) (rq_context_management rq) @ [] @ []) request_leaves"
    by (rule visits_bnd [OF visits_opt [OF system_visits]], rule visits_bnd [OF visits_each [OF message_visits]],
        rule visits_bnd [OF visits_opt [OF visits_each [OF tool_visits]]],
        rule visits_bnd [OF visits_opt [OF output_config_visits]], rule visits_bnd [OF visits_opt [OF metadata_visits]],
        rule visits_bnd [OF visits_opt [OF context_visits]], rule visits_bnd [OF unknown_visits], rule visits_ret)
      (simp add: request_leaves_def)
  then show ?thesis by (rule visits_cong) (simp_all add: walk_request_def request_leaves_def wire_eta)
qed

section \<open>The tripwire\<close>

text \<open>Masking never touches the policy, the registered secrets, the broker policy or the state of the
  model slot.\<close>

definition frame :: "'c mask_engine \<Rightarrow> policy \<times> secret_set \<times> broker_policy \<times> ml_status" where
  "frame e = (e_policy e, e_secrets e, e_broker_policy e, ml_st (e_ml e))"

lemma frame_updates [simp]:
  "frame (e\<lparr>e_store := s\<rparr>) = frame e" "frame (e\<lparr>e_cache := c\<rparr>) = frame e"
  "frame (e\<lparr>e_ml := ml_note_runtime_failure g x (e_ml e)\<rparr>) = frame e"
  "frame (e\<lparr>e_ml := ml_clear_runtime_failure g (e_ml e)\<rparr>) = frame e"
  by (simp_all add: frame_def ml_note_runtime_failure_def ml_clear_runtime_failure_def)

lemma outcome_frame: "frame (snd (outcome_of st (run_apply W t s c dets e))) = frame e"
  by (auto simp: outcome_of_def run_apply_def split: prod.splits sum.splits)

lemma disabled_frame: "frame (snd (mask_disabled_path W t s c sec e)) = frame e"
  by (simp add: mask_disabled_path_def Let_def outcome_frame)

lemma detect_frame: "frame (snd (detect_and_cache W today pol sec mlr gen t s key st e)) = frame e"
  by (simp add: detect_and_cache_def Let_def split: sum.split)

lemma cached_frame: "frame (snd (cached_dets W today pol sec mlr gen t s key e)) = frame e"
  by (simp add: cached_dets_def Let_def detect_frame split: prod.split option.split)

lemma mask_leaf_frame: "frame (snd (mask_leaf W today t s e)) = frame e"
proof -
  obtain mlr mlfp gen refusal where m: "ml_for_mask (e_ml e) = (mlr, mlfp, gen, refusal)" by (metis prod.exhaust)
  let ?t = "stripped_for_key (e_policy e) t s"
  obtain q e1 where q: "cached_dets W today (e_policy e) (ss_compiled (e_secrets e)) mlr gen ?t s
      (leaf_key W today (e_policy e) mlfp (ss_fp (e_secrets e)) ?t s) e = (q, e1)" by force
  then have "frame e1 = frame e" using cached_frame by (metis snd_conv)
  then show ?thesis
    unfolding mask_leaf_def Let_def m
    by (cases refusal; cases q) (auto simp: q disabled_frame outcome_frame split: prod.split)
qed

lemma bypass_part_frame: "frame (snd (bypass_part W c sec s e)) = frame e"
  by (auto simp: bypass_part_def Let_def run_apply_def split: prod.splits)

lemma bypass_run_frame:
  assumes "\<And>t x. frame (snd (f t x)) = frame x"
  shows "frame (snd (bypass_run W c sec f segs acc e)) = frame e"
proof (induction segs arbitrary: acc e)
  case (Cons g segs)
  show ?case
  proof (cases g)
    case (MaskSeg t)
    obtain q e1 where q: "f t e = (q, e1)" by force
    then have "frame e1 = frame e" using assms by (metis snd_conv)
    with MaskSeg q Cons.IH show ?thesis by (cases q) simp_all
  next
    case (BypassSeg t)
    obtain q e1 where q: "bypass_part W c sec t e = (q, e1)" by force
    then have "frame e1 = frame e" using bypass_part_frame by (metis snd_conv)
    with BypassSeg q Cons.IH show ?thesis by (cases q) (simp_all split: prod.split)
  qed
qed simp

lemma mask_frame: "frame (snd (mask W today t s e)) = frame e"
proof (cases "if s = UserMessage then user_bypass_segments t else None")
  case None
  then show ?thesis by (subst mask.simps) (simp add: mask_leaf_frame)
next
  case (Some segs)
  then have s: "s = UserMessage" "user_bypass_segments t = Some segs" by (simp_all split: if_splits)
  show ?thesis unfolding s(1) mask_bypass [OF s(2)] by (rule bypass_run_frame) (rule mask_leaf_frame)
qed

lemma when_disabled_frame: "frame (snd (mask_when_disabled W t s e)) = frame e"
  by (simp add: mask_when_disabled_def disabled_frame split: option.split)

lemma mask_one_secrets: "e_secrets (snd (mask_one W today force l e)) = e_secrets e"
  using mask_frame [of W today "fst l" "snd l" e] when_disabled_frame [of W "fst l" "snd l" e]
  by (simp add: mask_one_def frame_def)

lemma walk_str_secrets: "e_secrets (w_engine (snd (walk_str W today s t w))) = e_secrets (w_engine w)"
proof (cases "w_collect w")
  case None
  obtain q e where q: "mask_one W today (w_force_disabled w) (t, s) (w_engine w) = (q, e)" by force
  then have "e_secrets e = e_secrets (w_engine w)" using mask_one_secrets by (metis snd_conv)
  then show ?thesis unfolding walk_str_mask [OF None] q by (cases q) (simp_all add: absorb_def)
next
  case (Some ls)
  then show ?thesis by (simp only: walk_str_def option.case snd_conv) simp
qed

text \<open>The texts of a value, keys included, and nesting of at most \<open>n\<close> levels.\<close>

fun json_texts :: "json \<Rightarrow> string list"
  and item_texts :: "json list \<Rightarrow> string list"
  and member_texts :: "(string \<times> json) list \<Rightarrow> string list"
where
  "json_texts (JStr s) = [s]"
| "json_texts (JArr xs) = item_texts xs"
| "json_texts (JObj ms) = member_texts ms"
| "json_texts v = []"
| "item_texts [] = []"
| "item_texts (x # xs) = json_texts x @ item_texts xs"
| "member_texts [] = []"
| "member_texts ((k, x) # ms) = k # json_texts x @ member_texts ms"

fun json_within :: "nat \<Rightarrow> json \<Rightarrow> bool"
  and items_within :: "nat \<Rightarrow> json list \<Rightarrow> bool"
  and members_within :: "nat \<Rightarrow> (string \<times> json) list \<Rightarrow> bool"
where
  "json_within n (JArr xs) \<longleftrightarrow> 0 < n \<and> items_within (n - 1) xs"
| "json_within n (JObj ms) \<longleftrightarrow> 0 < n \<and> members_within (n - 1) ms"
| "json_within n v \<longleftrightarrow> True"
| "items_within n [] \<longleftrightarrow> True"
| "items_within n (x # xs) \<longleftrightarrow> json_within n x \<and> items_within n xs"
| "members_within n [] \<longleftrightarrow> True"
| "members_within n ((k, x) # ms) \<longleftrightarrow> json_within n x \<and> members_within n ms"

lemma scan_clean:
  "scan_value W e v d = None \<Longrightarrow> json_within n v \<Longrightarrow> d + n \<le> MAX_SCAN_DEPTH \<Longrightarrow>
     list_all (\<lambda>s. registered_secret_hit W e s = None) (json_texts v)"
  "scan_items W e xs d = None \<Longrightarrow> items_within n xs \<Longrightarrow> d + n \<le> MAX_SCAN_DEPTH \<Longrightarrow>
     list_all (\<lambda>s. registered_secret_hit W e s = None) (item_texts xs)"
  "scan_members W e ms d = None \<Longrightarrow> members_within n ms \<Longrightarrow> d + n \<le> MAX_SCAN_DEPTH \<Longrightarrow>
     list_all (\<lambda>s. registered_secret_hit W e s = None) (member_texts ms)"
proof (induction W e v d and W e xs d and W e ms d arbitrary: n and n and n
    rule: scan_value_scan_items_scan_members.induct)
  case (2 W e xs d)
  from 2(1) [of "n - 1"] 2(2-) show ?case by (simp split: if_splits)
next
  case (3 W e ms d)
  from 3(1) [of "n - 1"] 3(2-) show ?case by (simp split: if_splits)
qed (simp_all split: option.splits if_splits)

lemma hit_complete:
  assumes "ac_ok (text_of W)" "compile_secrets (prims_of W) (text_of W) rules = Inr (ss_compiled (e_secrets e))"
    "r \<in> set rules" "registered_secret_hit W e t = None"
  shows "\<not> contains (sr_value r) t"
proof
  assume "contains (sr_value r) t"
  then obtain u v where t: "t = u @ sr_value r @ v"
    using find_cut by (metis contains_def option.exhaust)
  from unscoped_hit [OF assms(1-3), of u v] assms(4) show False
    by (auto simp: registered_secret_hit_def t split: list.splits)
qed

lemma refused_or_clean:
  assumes "refuse_hit (scan_value W e v 0) y w = (Inr z, w')" "json_within MAX_SCAN_DEPTH v"
  shows "list_all (\<lambda>s. registered_secret_hit W e s = None) (json_texts v)"
  using assms scan_clean(1) [of W e v 0 MAX_SCAN_DEPTH] by (simp add: refuse_Inr)

lemma unknown_clean:
  assumes "check_unknown_map W x w = (Inr x', w')" "members_within MAX_SCAN_DEPTH x"
  shows "list_all (\<lambda>s. registered_secret_hit W (w_engine w) s = None) (member_texts x) \<and> w' = w"
  using assms scan_clean(3) [of W "w_engine w" x 0 MAX_SCAN_DEPTH]
  by (auto simp: check_unknown_map_def refuse_Inr scan_map_def split: if_splits)

text \<open>The tripwire reads the secrets only, which no leaf of the walk changes.\<close>

lemma hit_secrets: "e_secrets e = e_secrets e' \<Longrightarrow> registered_secret_hit W e s = registered_secret_hit W e' s"
  by (simp add: registered_secret_hit_def)

lemma mask_all_secrets: "mask_all W today force ls e = (r, e') \<Longrightarrow> e_secrets e' = e_secrets e"
proof (induction ls arbitrary: e r e')
  case (Cons l ls)
  obtain q e1 where q: "mask_one W today force l e = (q, e1)" by force
  then have e1: "e_secrets e1 = e_secrets e" using mask_one_secrets by (metis snd_conv)
  show ?case
  proof (cases q)
    case (Inl err)
    with Cons.prems q e1 show ?thesis by simp
  next
    case (Inr o1)
    obtain r2 e2 where r2: "mask_all W today force ls e1 = (r2, e2)" by force
    with Cons.IH [OF r2] Cons.prems q e1 Inr show ?thesis by (cases r2) simp_all
  qed
qed simp

lemma visits_secrets:
  assumes "visits W today act v pre ls L" "act w = (Inr v', w')"
  shows "e_secrets (w_engine w') = e_secrets (w_engine w)"
proof (cases "w_collect w")
  case None
  obtain outs e' where "mask_all W today (w_force_disabled w) ls (w_engine w) = (Inr outs, e')" "w' = absorb w outs e'"
    by (rule visits_maskE [OF assms(1) None assms(2)])
  then show ?thesis using mask_all_secrets by (simp add: absorb_def)
next
  case (Some ls0)
  then show ?thesis using visits_collectD [OF assms(1) Some assms(2)] by simp
qed

lemma walk_each_Inr:
  "walk_each f xs w = (Inr ys, w') \<Longrightarrow> (\<And>x. visits W today (f x) x [] (g x) g) \<Longrightarrow> x \<in> set xs \<Longrightarrow>
    \<exists>w1 y w2. f x w1 = (Inr y, w2) \<and> e_secrets (w_engine w1) = e_secrets (w_engine w)"
proof (induction xs arbitrary: w ys)
  case (Cons z zs)
  from Cons.prems(1) obtain z' w1 zs' where z: "f z w = (Inr z', w1)" "walk_each f zs w1 = (Inr zs', w')"
    by (auto simp: bnd_Inr)
  show ?case
  proof (cases "x = z")
    case True
    with z(1) show ?thesis by blast
  next
    case False
    with Cons.prems(3) have "x \<in> set zs" by simp
    from Cons.IH [OF z(2) Cons.prems(2) this] visits_secrets [OF Cons.prems(2) z(1)] show ?thesis by metis
  qed
qed simp

lemma walk_tool_clean:
  assumes "walk_tool W today t w = (Inr t', w')" "json_within MAX_SCAN_DEPTH (t_input_schema t)"
    "members_within MAX_SCAN_DEPTH (t_extra t)"
  shows "list_all (\<lambda>s. registered_secret_hit W (w_engine w) s = None)
     (json_texts (t_input_schema t) @ member_texts (t_extra t))"
proof -
  from assms(1) obtain d w1 sch w2 x w3 where r: "walk_str W today SystemPrompt (t_description t) w = (Inr d, w1)"
    "walk_schema W (t_input_schema t) w1 = (Inr sch, w2)" "check_unknown_map W (t_extra t) w2 = (Inr x, w3)"
    by (auto simp: walk_tool_def bnd_Inr)
  have w2: "w2 = w1" using r(2) by (simp add: walk_schema_def refuse_Inr)
  have sec: "e_secrets (w_engine w1) = e_secrets (w_engine w)" using visits_secrets [OF visits_str r(1)] .
  have "list_all (\<lambda>s. registered_secret_hit W (w_engine w1) s = None) (json_texts (t_input_schema t))"
    by (rule refused_or_clean [OF r(2) [unfolded walk_schema_def] assms(2)])
  moreover have "list_all (\<lambda>s. registered_secret_hit W (w_engine w1) s = None) (member_texts (t_extra t))"
    using unknown_clean [OF r(3) assms(3)] w2 by simp
  ultimately show ?thesis by (simp add: hit_secrets [OF sec])
qed

lemma request_parts:
  assumes "walk_request W K today rq w = (Inr rq', w')"
  obtains w1 r1 w2 w3 r3 w4 where
    "walk_opt (walk_each (walk_tool W today)) (rq_tools rq) w1 = (Inr r1, w2)"
    "check_unknown_map W (rq_extra rq) w3 = (Inr r3, w4)"
    "e_secrets (w_engine w1) = e_secrets (w_engine w)" "e_secrets (w_engine w3) = e_secrets (w_engine w)"
proof -
  obtain r1 w1 r2 w2 r3 w3 r4 w4 r5 w5 r6 w6 r7 where r:
    "walk_opt (walk_system W today) (rq_system rq) w = (Inr r1, w1)"
    "walk_each (walk_message W today) (rq_messages rq) w1 = (Inr r2, w2)"
    "walk_opt (walk_each (walk_tool W today)) (rq_tools rq) w2 = (Inr r3, w3)"
    "walk_opt (walk_output_config W K) (rq_output_config rq) w3 = (Inr r4, w4)"
    "walk_opt (walk_metadata W today) (rq_metadata rq) w4 = (Inr r5, w5)"
    "walk_opt (context_management W today) (rq_context_management rq) w5 = (Inr r6, w6)"
    "check_unknown_map W (rq_extra rq) w6 = (Inr r7, w')"
    using assms unfolding walk_request_def bnd_Inr by blast
  have s: "e_secrets (w_engine w1) = e_secrets (w_engine w)" "e_secrets (w_engine w2) = e_secrets (w_engine w1)"
    "e_secrets (w_engine w3) = e_secrets (w_engine w2)" "e_secrets (w_engine w4) = e_secrets (w_engine w3)"
    "e_secrets (w_engine w5) = e_secrets (w_engine w4)" "e_secrets (w_engine w6) = e_secrets (w_engine w5)"
    using visits_secrets [OF visits_opt [OF system_visits] r(1)] visits_secrets [OF visits_each [OF message_visits] r(2)]
      visits_secrets [OF visits_opt [OF visits_each [OF tool_visits]] r(3)]
      visits_secrets [OF visits_opt [OF output_config_visits] r(4)] visits_secrets [OF visits_opt [OF metadata_visits] r(5)]
      visits_secrets [OF visits_opt [OF context_visits] r(6)] by blast+
  show thesis by (rule that [OF r(3) r(7)]) (simp_all add: s)
qed

lemma verbatim_clean:
  assumes "walk_request W K today rq (walker_new force None e) = (Inr rq', w)"
    and "members_within MAX_SCAN_DEPTH (rq_extra rq)"
    and "\<And>tools t. rq_tools rq = Some tools \<Longrightarrow> t \<in> set tools \<Longrightarrow>
           json_within MAX_SCAN_DEPTH (t_input_schema t) \<and> members_within MAX_SCAN_DEPTH (t_extra t)"
    and "text \<in> set (member_texts (rq_extra rq))
      \<or> (\<exists>tools. rq_tools rq = Some tools
           \<and> (\<exists>t\<in>set tools. text \<in> set (json_texts (t_input_schema t) @ member_texts (t_extra t))))"
  shows "registered_secret_hit W e text = None"
proof -
  have we: "w_engine (walker_new force None e) = e" by (simp add: walker_new_def)
  obtain w1 r1 w2 w3 r3 w4 where
    p: "walk_opt (walk_each (walk_tool W today)) (rq_tools rq) w1 = (Inr r1, w2)"
    "check_unknown_map W (rq_extra rq) w3 = (Inr r3, w4)"
    "e_secrets (w_engine w1) = e_secrets e" "e_secrets (w_engine w3) = e_secrets e"
    by (rule request_parts [OF assms(1), unfolded we])
  from assms(4) show ?thesis
  proof
    assume "text \<in> set (member_texts (rq_extra rq))"
    then have "registered_secret_hit W (w_engine w3) text = None"
      using unknown_clean [OF p(2) assms(2)] by (simp add: list_all_iff)
    then show ?thesis using hit_secrets [OF p(4)] by metis
  next
    assume "\<exists>tools. rq_tools rq = Some tools
           \<and> (\<exists>t\<in>set tools. text \<in> set (json_texts (t_input_schema t) @ member_texts (t_extra t)))"
    then obtain tools t where t: "rq_tools rq = Some tools" "t \<in> set tools"
      "text \<in> set (json_texts (t_input_schema t) @ member_texts (t_extra t))" by blast
    obtain r w5 where "walk_each (walk_tool W today) tools w1 = (Inr r, w5)"
      using p(1) t(1) by (auto simp: walk_opt_def bnd_Inr)
    from walk_each_Inr [OF this tool_visits t(2)] obtain v y v' where
      v: "walk_tool W today t v = (Inr y, v')" "e_secrets (w_engine v) = e_secrets (w_engine w1)" by blast
    have "registered_secret_hit W (w_engine v) text = None"
      using walk_tool_clean [OF v(1)] assms(3) [OF t(1,2)] t(3) by (simp only: list_all_iff)
    moreover have "e_secrets (w_engine v) = e_secrets e" using v(2) p(3) by simp
    ultimately show ?thesis using hit_secrets by metis
  qed
qed

text \<open>No mode the fail-safe walk reaches from a user message has another surface.\<close>

lemma rule_surface:
  "member_rule m b64 k = SafeWalk m' \<Longrightarrow> mode_surface m \<in> {UserMessage, SystemPrompt} \<Longrightarrow>
     mode_surface m' \<in> {UserMessage, SystemPrompt}"
  by (cases m) (auto simp: member_rule_def split: if_splits)

lemma protocol_surface: "snd ` set (protocol_leaves s v) \<subseteq> {s}" "snd ` set (protocol_item_leaves s xs) \<subseteq> {s}"
  "snd ` set (protocol_member_leaves s ms) \<subseteq> {s}"
  by (induction s v and s xs and s ms rule: protocol_leaves_protocol_item_leaves_protocol_member_leaves.induct) auto

lemma mode_surface_more:
  "mode_surface m \<in> {UserMessage, SystemPrompt} \<Longrightarrow> mode_surface (item_mode m) \<in> {UserMessage, SystemPrompt}"
  "mode_surface m \<in> {UserMessage, SystemPrompt} \<Longrightarrow> mode_surface (object_mode m) \<in> {UserMessage, SystemPrompt}"
  by (cases m; simp)+

lemma safe_surfaces:
  "mode_surface m \<in> {UserMessage, SystemPrompt} \<Longrightarrow> snd ` set (safe_leaves m v) \<subseteq> {UserMessage, SystemPrompt}"
  "mode_surface m \<in> {UserMessage, SystemPrompt} \<Longrightarrow> snd ` set (safe_item_leaves m xs) \<subseteq> {UserMessage, SystemPrompt}"
  "mode_surface m \<in> {UserMessage, SystemPrompt} \<Longrightarrow> snd ` set (safe_member_leaves m b64 ms) \<subseteq> {UserMessage, SystemPrompt}"
proof (induction m v and m xs and m b64 ms rule: safe_leaves_safe_item_leaves_safe_member_leaves.induct)
  case (2 m xs)
  then show ?case using mode_surface_more(1) by simp
next
  case (3 m ms)
  then show ?case using mode_surface_more(2) by simp
next
  case (8 m b64 k x ms)
  have p: "snd ` set (protocol_leaves SystemPrompt x) \<subseteq> {SystemPrompt}" by (rule protocol_surface)
  have "snd ` set (safe_leaves m' x) \<subseteq> {UserMessage, SystemPrompt}" if "member_rule m b64 k = SafeWalk m'" for m'
    using 8(1) [OF that] rule_surface [OF that 8(3)] by simp
  with p 8(2) [OF 8(3)] show ?case by (cases "member_rule m b64 k") auto
qed auto

section \<open>Properties\<close>

text \<open>
  C33. One pass, two uses: a request that is masked has every text-bearing leaf masked, once each, in
  order and on its surface, by the engine's mask (or, with masking off for the conversation, by the
  disabled path), the leaves of the result are those outcomes, and its manifest is theirs in order. The
  collecting pass that feeds the batched prewarm changes nothing and collects exactly the same leaves.
\<close>

theorem request_walk_masks_leaves:
  assumes "walk_request W K today rq (walker_new force None e) = (Inr rq', w)"
  shows "(\<exists>outs. mask_all W today force (request_leaves rq) e = (Inr outs, w_engine w)
      \<and> request_leaves rq' = relabel (request_leaves rq) outs
      \<and> w_manifest w = concat (map outcome_manifest outs))
    \<and> (\<forall>f e2 rq2 w2. walk_request W K today rq (walker_new f (Some []) e2) = (Inr rq2, w2) \<longrightarrow>
         rq2 = rq \<and> w_collect w2 = Some (request_leaves rq) \<and> w_engine w2 = e2)"
proof -
  have c: "w_collect (walker_new force None e) = None" by (simp add: walker_new_def)
  obtain outs e' where o: "mask_all W today (w_force_disabled (walker_new force None e)) (request_leaves rq)
      (w_engine (walker_new force None e)) = (Inr outs, e')"
    "w = absorb (walker_new force None e) outs e'" "request_leaves rq' = [] @ relabel (request_leaves rq) outs"
    by (rule visits_maskE [OF request_visits c assms])
  have "rq2 = rq \<and> w_collect w2 = Some (request_leaves rq) \<and> w_engine w2 = e2"
    if r: "walk_request W K today rq (walker_new f (Some []) e2) = (Inr rq2, w2)" for f e2 rq2 w2
    using visits_collectD [OF request_visits _ r] by (simp add: walker_new_def)
  with o show ?thesis by (auto simp: absorb_def walker_new_def manifest_new_def)
qed


text \<open>
  The fail-safe walk reads every leaf outside \<open>tools\<close> and \<open>context_management\<close> as a user message: it
  masks exactly the leaves it visits, each once and in order, and no leaf of a tool result or of the
  assistant keeps its surface. In a body the typed wire cannot parse, the bypass markers are therefore
  honoured wherever they stand.
\<close>

theorem fallback_reads_user_messages:
  assumes "walk_safe W today (SafeAt UserMessage) v (walker_new force None e) = (Inr v', w)"
  shows "(\<exists>outs. mask_all W today force (safe_leaves (SafeAt UserMessage) v) e = (Inr outs, w_engine w)
      \<and> safe_leaves (SafeAt UserMessage) v' = relabel (safe_leaves (SafeAt UserMessage) v) outs
      \<and> w_manifest w = concat (map outcome_manifest outs))
    \<and> snd ` set (safe_leaves (SafeAt UserMessage) v) \<subseteq> {UserMessage, SystemPrompt}"
proof -
  have c: "w_collect (walker_new force None e) = None" by (simp add: walker_new_def)
  obtain outs e' where o: "mask_all W today (w_force_disabled (walker_new force None e)) (safe_leaves (SafeAt UserMessage) v)
      (w_engine (walker_new force None e)) = (Inr outs, e')"
    "w = absorb (walker_new force None e) outs e'"
    "safe_leaves (SafeAt UserMessage) v' = [] @ relabel (safe_leaves (SafeAt UserMessage) v) outs"
    by (rule visits_maskE [OF safe_visits(1) c assms])
  have "snd ` set (safe_leaves (SafeAt UserMessage) v) \<subseteq> {UserMessage, SystemPrompt}"
    by (rule safe_surfaces) simp
  with o show ?thesis by (auto simp: absorb_def walker_new_def manifest_new_def)
qed

lemma sample_off:
  obtains e where "e_secrets e = secret_set_empty sample_prims"
    "\<And>t s. user_bypass_segments t = None \<Longrightarrow> mask sample_env 0 t s e = (Inr (passthrough t stats_disabled), e)"
proof -
  obtain e0 where e0: "engine_new sample_env (engine_config_default sample_prims) = Inr e0"
    by (rule sample_engine)
  have "e_secrets e0 = secret_set_empty sample_prims"
    using e0 by (auto simp: engine_new_def from_parts_def sample_env_def split: sum.splits)
  moreover have "mask sample_env 0 t s (set_enabled False e0) = (Inr (passthrough t stats_disabled), set_enabled False e0)"
    if "user_bypass_segments t = None" for t s
    using that calculation
    by (simp add: mask_plain mask_leaf_def Let_def mask_disabled_path_def set_enabled_def secret_set_empty_def)
  ultimately show thesis by (intro that [of "set_enabled False e0"]) (simp_all add: set_enabled_def)
qed

definition sample_request :: "(string \<times> json) list \<Rightarrow> api_request" where
  "sample_request extra =
     \<lparr>rq_system = Some (SysText ''be brief''),
      rq_messages = [\<lparr>m_role = ''user'', m_content = [CbText ''hello'' [], CbThinking ''x''], m_extra = []\<rparr>],
      rq_tools = None, rq_output_config = None, rq_metadata = Some (JObj [(''user_id'', JStr ''u'')]),
      rq_context_management = None, rq_extra = extra, rq_rest = []\<rparr>"

definition sample_wire :: wire_api where
  "sample_wire =
     \<lparr>parse_request = (\<lambda>_. None), print_request = (\<lambda>_. None), parse_response = (\<lambda>_. None),
      print_response = (\<lambda>_. None), parse_value = (\<lambda>t. Some (JStr t)), print_value = (\<lambda>_. Some []),
      output_config_value = (\<lambda>_. None)\<rparr>"

lemma request_walk_masks_leaves_witness:
  "\<exists>e w. walk_request sample_env sample_wire 0 (sample_request []) (walker_new False None e) = (Inr (sample_request []), w)
     \<and> (\<exists>outs. mask_all sample_env 0 False [(''be brief'', SystemPrompt), (''hello'', UserMessage)] e = (Inr outs, w_engine w))"
proof -
  obtain e where e: "\<And>t s. user_bypass_segments t = None \<Longrightarrow> mask sample_env 0 t s e = (Inr (passthrough t stats_disabled), e)"
    by (rule sample_off) blast
  have b: "user_bypass_segments ''be brief'' = None" "user_bypass_segments ''hello'' = None" by code_simp+
  have m: "mask sample_env 0 ''be brief'' SystemPrompt e = (Inr (passthrough ''be brief'' stats_disabled), e)"
    "mask sample_env 0 ''hello'' UserMessage e = (Inr (passthrough ''hello'' stats_disabled), e)"
    using e b by blast+
  obtain w where w: "walk_request sample_env sample_wire 0 (sample_request []) (walker_new False None e) = (Inr (sample_request []), w)"
    by (simp add: walk_request_def sample_request_def walk_opt_def walk_system_def walk_message_def walk_block_def
        walk_str_def walker_new_def m surface_for_role_def check_unknown_map_def refuse_hit_def walk_metadata_def
        walk_metadata_member_def passthrough_def)
  have "request_leaves (sample_request []) = [(''be brief'', SystemPrompt), (''hello'', UserMessage)]"
    by (simp add: request_leaves_def sample_request_def each_leaves_def message_leaves_def surface_for_role_def
        metadata_leaves_def metadata_member_leaves_def)
  with request_walk_masks_leaves [OF w] w show ?thesis by auto
qed


lemma fallback_reads_user_messages_witness:
  "\<exists>e w. walk_safe sample_env 0 (SafeAt UserMessage) (JObj [(''content'', JStr ''hello'')]) (walker_new False None e)
       = (Inr (JObj [(''content'', JStr ''hello'')]), w)
     \<and> (\<exists>outs. mask_all sample_env 0 False [(''hello'', UserMessage)] e = (Inr outs, w_engine w))"
proof -
  obtain e where e: "\<And>t s. user_bypass_segments t = None \<Longrightarrow> mask sample_env 0 t s e = (Inr (passthrough t stats_disabled), e)"
    by (rule sample_off) blast
  have "user_bypass_segments ''hello'' = None" by code_simp
  then have m: "mask sample_env 0 ''hello'' UserMessage e = (Inr (passthrough ''hello'' stats_disabled), e)" by (rule e)
  have r: "member_rule (SafeAt UserMessage) b64 ''content'' = SafeWalk (SafeAt UserMessage)" for b64
    by (simp add: member_rule_def preserves_contract_key_def)
  obtain w where w: "walk_safe sample_env 0 (SafeAt UserMessage) (JObj [(''content'', JStr ''hello'')]) (walker_new False None e)
       = (Inr (JObj [(''content'', JStr ''hello'')]), w)"
    by (simp add: r walk_str_def walker_new_def m passthrough_def)
  from fallback_reads_user_messages [OF w] w show ?thesis by (auto simp: r)
qed

end
