(* ===== verification/Sse_Unmask.thy ===== *)
theory Sse_Unmask
  imports Wire_Walk
begin

text \<open>
  \<open>sse.rs\<close> of \<open>sordino-proxy\<close>: unmasking a streamed response. A token can be split across delta
  frames, so every content block has a carry buffer: the prefix that cannot hold a straddling token is
  unmasked and forwarded, the rest is held until the next delta or the end of the block.

  The stream types are the wire crate's; deltas and events the code passes on untouched are opaque. The
  two hash maps of the unmasker are association lists, listed in one of their iteration orders. The
  monitor capture is left out, its text cleaning is not.
\<close>

section \<open>Token boundaries\<close>

definition is_exactly_one_token :: "string \<Rightarrow> bool" where
  "is_exactly_one_token s \<longleftrightarrow> (case find_iter token_match s of [] \<Rightarrow> False | (a, b) # _ \<Rightarrow> a = 0 \<and> b = length s)"

definition is_unescaped_quote_at :: "string \<Rightarrow> nat \<Rightarrow> bool" where
  "is_unescaped_quote_at s q \<longleftrightarrow> even (backslashes_before s q)"

definition unescaped_quotes :: "string \<Rightarrow> nat list" where
  "unescaped_quotes s = filter (\<lambda>i. s ! i = CHR 0x22 \<and> is_unescaped_quote_at s i) [0..<length s]"

definition last_unescaped_quote :: "string \<Rightarrow> nat option" where
  "last_unescaped_quote s = (case rev (unescaped_quotes s) of [] \<Rightarrow> None | i # _ \<Rightarrow> Some i)"

definition unescaped_quote_count :: "string \<Rightarrow> nat" where
  "unescaped_quote_count s = length (unescaped_quotes s)"

datatype boundary = Complete | Partial | NoToken

definition possible_token_char :: "char \<Rightarrow> bool" where
  "possible_token_char c \<longleftrightarrow> is_upper c \<or> is_digit c \<or> c = CHR ''_'' \<or> is_hexdigit c"

definition classify :: "string \<Rightarrow> boundary" where
  "classify tail =
     (case find_iter token_match tail of
        (0, _) # _ \<Rightarrow> Complete
      | _ \<Rightarrow>
          (if length tail > MAX_TOKEN_LEN then NoToken
           else if \<not> list_all possible_token_char (drop 1 tail) then NoToken
           else Partial))"

definition is_whole_value_candidate :: "string \<Rightarrow> bool" where
  "is_whole_value_candidate v \<longleftrightarrow>
     (if v = [] then True
      else if \<not> starts_with ''['' v then False
      else case classify v of Complete \<Rightarrow> is_exactly_one_token v | Partial \<Rightarrow> True | NoToken \<Rightarrow> False)"

text \<open>\<open>str::rfind('[')\<close>.\<close>

definition last_bracket :: "string \<Rightarrow> nat option" where
  "last_bracket s = (case rev (filter (\<lambda>i. s ! i = CHR ''['') [0..<length s]) of [] \<Rightarrow> None | i # _ \<Rightarrow> Some i)"

definition split_safe :: "string \<Rightarrow> string \<times> string" where
  "split_safe buf =
     (case last_bracket buf of
        None \<Rightarrow> (buf, [])
      | Some i \<Rightarrow> (case classify (drop i buf) of Partial \<Rightarrow> (take i buf, drop i buf) | _ \<Rightarrow> (buf, [])))"

section \<open>The per-stream transform\<close>

datatype held_kind = HeldText | HeldCompaction | HeldInputJson

datatype block_delta =
    TextDelta string
  | CompactionDelta string
  | InputJsonDelta string
  | CitationsDelta json
  | OtherDelta string

datatype stream_event =
    BlockStart nat string
  | BlockStop nat
  | BlockDelta nat block_delta
  | OtherEvent string

fun held_delta :: "held_kind \<Rightarrow> string \<Rightarrow> block_delta" where
  "held_delta HeldText t = TextDelta t"
| "held_delta HeldCompaction t = CompactionDelta t"
| "held_delta HeldInputJson t = InputJsonDelta t"

record sse_unmasker =
  carry :: "(nat \<times> string) list"
  held_kinds :: "(nat \<times> held_kind) list"

definition sse_new :: sse_unmasker where
  "sse_new = \<lparr>carry = [], held_kinds = []\<rparr>"

text \<open>How the end of a block and the end of the stream unmask a held tail.\<close>

definition flush_held :: "'c env \<Rightarrow> json_api \<Rightarrow> nat \<Rightarrow> 'c mask_engine \<Rightarrow> unmask_manifest \<Rightarrow> held_kind \<Rightarrow> string \<Rightarrow> string" where
  "flush_held W J now e mf k held =
     ok_or held (if k = HeldInputJson then unmask_tool_input W J now held mf e else unmask W J now held mf e)"

definition kind_of :: "nat \<Rightarrow> sse_unmasker \<Rightarrow> held_kind" where
  "kind_of i u = (case map_of (held_kinds u) i of Some k \<Rightarrow> k | None \<Rightarrow> HeldText)"

text \<open>The part of the buffer that is forwarded and the part that is held.\<close>

definition split_held :: "held_kind \<Rightarrow> string \<Rightarrow> string \<times> string" where
  "split_held k buf =
     (case last_unescaped_quote buf of
        Some j \<Rightarrow>
          (if k = HeldInputJson \<and> odd (unescaped_quote_count buf) \<and> is_whole_value_candidate (drop (j + 1) buf)
           then (take j buf, drop j buf) else split_safe buf)
      | None \<Rightarrow> split_safe buf)"

definition unmask_kind :: "'c env \<Rightarrow> json_api \<Rightarrow> nat \<Rightarrow> 'c mask_engine \<Rightarrow> unmask_manifest \<Rightarrow> held_kind \<Rightarrow> string \<Rightarrow> string" where
  "unmask_kind W J now e mf k safe =
     ok_or safe
       (case k of
          HeldText \<Rightarrow> unmask_assistant W J now safe mf e
        | HeldCompaction \<Rightarrow> unmask W J now safe mf e
        | HeldInputJson \<Rightarrow> unmask_tool_input W J now safe mf e)"

definition buffered ::
  "'c env \<Rightarrow> json_api \<Rightarrow> nat \<Rightarrow> 'c mask_engine \<Rightarrow> unmask_manifest \<Rightarrow> nat \<Rightarrow> string \<Rightarrow> held_kind \<Rightarrow> sse_unmasker
   \<Rightarrow> stream_event list \<times> sse_unmasker" where
  "buffered W J now e mf i incoming k u =
     (let buf = (case map_of (carry u) i of Some c \<Rightarrow> c | None \<Rightarrow> []) @ incoming;
          (safe, held) = split_held k buf;
          emitted = unmask_kind W J now e mf k safe
      in (if emitted = [] then [] else [BlockDelta i (held_delta k emitted)],
          u\<lparr>carry := hm_insert i held (carry u), held_kinds := hm_insert i k (held_kinds u)\<rparr>))"

definition sse_delta ::
  "'c env \<Rightarrow> json_api \<Rightarrow> nat \<Rightarrow> 'c mask_engine \<Rightarrow> unmask_manifest \<Rightarrow> nat \<Rightarrow> block_delta \<Rightarrow> sse_unmasker
   \<Rightarrow> stream_event list \<times> sse_unmasker" where
  "sse_delta W J now e mf i d u =
     (case d of
        TextDelta t \<Rightarrow> buffered W J now e mf i t HeldText u
      | CompactionDelta t \<Rightarrow> buffered W J now e mf i t HeldCompaction u
      | InputJsonDelta t \<Rightarrow> buffered W J now e mf i t HeldInputJson u
      | CitationsDelta v \<Rightarrow> ([BlockDelta i (CitationsDelta (unmask_value W J now mf e v))], u)
      | OtherDelta _ \<Rightarrow> ([BlockDelta i d], u))"

definition sse_process ::
  "'c env \<Rightarrow> json_api \<Rightarrow> nat \<Rightarrow> 'c mask_engine \<Rightarrow> unmask_manifest \<Rightarrow> stream_event \<Rightarrow> sse_unmasker
   \<Rightarrow> stream_event list \<times> sse_unmasker" where
  "sse_process W J now e mf ev u =
     (case ev of
        BlockStart i _ \<Rightarrow> ([ev], u\<lparr>carry := hm_insert i [] (carry u)\<rparr>)
      | BlockStop i \<Rightarrow>
          (let held = (case map_of (carry u) i of Some h \<Rightarrow> h | None \<Rightarrow> []);
               k = kind_of i u;
               flushed = flush_held W J now e mf k held
           in ((if held = [] \<or> flushed = [] then [] else [BlockDelta i (held_delta k flushed)]) @ [BlockStop i],
               u\<lparr>carry := hm_remove i (carry u), held_kinds := hm_remove i (held_kinds u)\<rparr>))
      | BlockDelta i d \<Rightarrow> sse_delta W J now e mf i d u
      | OtherEvent _ \<Rightarrow> ([ev], u))"

fun sse_run ::
  "'c env \<Rightarrow> json_api \<Rightarrow> nat \<Rightarrow> 'c mask_engine \<Rightarrow> unmask_manifest \<Rightarrow> stream_event list \<Rightarrow> sse_unmasker
   \<Rightarrow> stream_event list \<times> sse_unmasker" where
  "sse_run W J now e mf [] u = ([], u)"
| "sse_run W J now e mf (ev # evs) u =
     (let (out, u) = sse_process W J now e mf ev u; (outs, u) = sse_run W J now e mf evs u in (out @ outs, u))"

definition sse_drain :: "sse_unmasker \<Rightarrow> (nat \<times> held_kind \<times> string) list \<times> sse_unmasker" where
  "sse_drain u =
     (map (\<lambda>(i, v). (i, kind_of i u, v)) (filter (\<lambda>(_, v). v \<noteq> []) (carry u)), u\<lparr>carry := []\<rparr>)"

text \<open>What the end of the upstream adds: every held tail, unmasked and tagged with its kind.\<close>

definition sse_finish :: "'c env \<Rightarrow> json_api \<Rightarrow> nat \<Rightarrow> 'c mask_engine \<Rightarrow> unmask_manifest \<Rightarrow> sse_unmasker \<Rightarrow> stream_event list" where
  "sse_finish W J now e mf u =
     concat (map (\<lambda>(i, k, held). let flushed = flush_held W J now e mf k held
                                 in if flushed = [] then [] else [BlockDelta i (held_delta k flushed)])
               (fst (sse_drain u)))"

section \<open>Frames\<close>

text \<open>A frame, and the name of an event; the payload of an event is printed by the wire crate.\<close>

definition sse_frame :: "string \<Rightarrow> string \<Rightarrow> string" where
  "sse_frame name data = ''event: '' @ name @ [CHR 0x0A] @ ''data: '' @ data @ [CHR 0x0A, CHR 0x0A]"

text \<open>\<open>strip_terminal_codes\<close> on the characters of the text, and the cleaning of a captured reply.\<close>

definition csi_final :: "string \<Rightarrow> bool" where
  "csi_final c = (case c of [b] \<Rightarrow> 64 \<le> ord b \<and> ord b \<le> 126 | _ \<Rightarrow> False)"

function strip_codes :: "string list \<Rightarrow> string list" where
  "strip_codes [] = []"
| "strip_codes (c # cs) =
     (if c \<noteq> [CHR 0x1B] then c # strip_codes cs
      else case cs of
          p # rest \<Rightarrow> if p = ''['' then strip_codes (drop 1 (dropWhile (\<lambda>x. \<not> csi_final x) rest)) else strip_codes cs
        | [] \<Rightarrow> [])"
  by pat_completeness auto
termination
  by (relation "measure length") (auto simp: less_Suc_eq_le intro: le_trans [OF diff_le_self] le_SucI length_dropWhile_le)

definition strip_terminal_codes :: "string \<Rightarrow> string" where
  "strip_terminal_codes t = (if \<not> contains [CHR 0x1B] t then t else concat (strip_codes (utf8_chars t)))"

definition clean_capture :: "'c mask_engine \<Rightarrow> string \<Rightarrow> string" where
  "clean_capture e t = strip_terminal_codes (strip_reveal_marker e t)"

end
