(* ===== verification/Sse_Laws.thy ===== *)
theory Sse_Laws
  imports Sse_Unmask Unmask_Laws
begin

text \<open>
  Streaming against unmasking the whole text: how a content block is cut into deltas, and what the
  other blocks of the stream do in between, does not show in the unmasked text. The tool-input gate is
  the exception for the classes that are restored only as a whole value: it decides on the buffer.
\<close>

section \<open>Cuts no token straddles\<close>

text \<open>No token of the text is longer than what the carry buffer holds back.\<close>

definition bounded_tokens :: "string \<Rightarrow> bool" where
  "bounded_tokens s \<longleftrightarrow> (\<forall>i n. token_match (drop i s) = Some n \<longrightarrow> n \<le> MAX_TOKEN_LEN + 1)"

lemma bounded_suffix: "bounded_tokens (u @ v) \<Longrightarrow> bounded_tokens v"
  unfolding bounded_tokens_def
proof (intro allI impI)
  fix i n assume a: "\<forall>i n. token_match (drop i (u @ v)) = Some n \<longrightarrow> n \<le> MAX_TOKEN_LEN + 1"
    and m: "token_match (drop i v) = Some n"
  have "drop (length u + i) (u @ v) = drop i v" by simp
  with a m show "n \<le> MAX_TOKEN_LEN + 1" by metis
qed

lemma token_body_chars: "token_body b \<Longrightarrow> list_all possible_token_char b"
proof -
  have e: "is_entity_char c \<Longrightarrow> possible_token_char c" for c
    using ord_inject [of c "CHR ''_''"] unfolding ord_underscore by (auto simp: possible_token_char_def is_entity_char_def)
  have h: "is_lower_hex c \<Longrightarrow> possible_token_char c" for c
    by (auto simp: possible_token_char_def is_lower_hex_def is_hexdigit_def)
  assume "token_body b"
  then obtain x y where "b = x @ ''_'' @ y" "list_all is_entity_char x" "list_all is_lower_hex y"
    unfolding token_body_iff by blast
  then show ?thesis using e h e [of "CHR ''_''"] by (auto simp: list_all_iff)
qed

lemma token_match_body:
  "token_match (c # cs) = Some n \<longleftrightarrow> c = CHR ''['' \<and> CHR '']'' \<in> set cs
     \<and> token_body (takeWhile (\<lambda>x. x \<noteq> CHR '']'') cs) \<and> n = length (takeWhile (\<lambda>x. x \<noteq> CHR '']'') cs) + 2"
proof -
  have "length (takeWhile (\<lambda>x. x \<noteq> CHR '']'') cs) < length cs \<longleftrightarrow> CHR '']'' \<in> set cs"
    by (induction cs) auto
  then show ?thesis by (auto simp: token_match_def Let_def)
qed

text \<open>A byte outside the grammar ends whatever token could have started before it.\<close>

lemma token_match_cut:
  assumes "\<not> possible_token_char d" "d \<noteq> CHR '']''"
  shows "token_match (c # cs @ d # v) = token_match (c # cs)"
proof (cases "\<exists>x\<in>set cs. x = CHR '']'' \<or> x = CHR ''[''")
  case True
  then show ?thesis by (rule token_match_bracketed)
next
  case False
  then have tw: "takeWhile (\<lambda>x. x \<noteq> CHR '']'') (cs @ d # v) = cs @ d # takeWhile (\<lambda>x. x \<noteq> CHR '']'') v"
    using takeWhile_absent [of "CHR '']''" cs "d # v"] assms(2) by auto
  have "\<not> token_body (cs @ d # w)" for w using token_body_chars [of "cs @ d # w"] assms(1) by auto
  then have "token_match (c # cs @ d # v) = None"
    using token_match_body [of c "cs @ d # v"] tw by (cases "token_match (c # cs @ d # v)") auto
  moreover have "token_match (c # cs) = None"
    using token_match_body [of c cs] False by (cases "token_match (c # cs)") auto
  ultimately show ?thesis by simp
qed

lemma cut_no_straddle:
  assumes "\<not> possible_token_char d" "d \<noteq> CHR '']''"
  shows "no_straddle token_match u (d # v)"
  unfolding no_straddle_def
proof (intro allI impI)
  fix i assume "i < length u"
  then obtain c cs where "drop i u = c # cs" by (metis Cons_nth_drop_Suc)
  with token_match_cut [OF assms, of c cs v] show "token_match (drop i u @ d # v) = token_match (drop i u)" by simp
qed

lemma bracket_outside [simp]: "\<not> possible_token_char (CHR ''['')" "\<not> possible_token_char (CHR 0x22)"
  by (simp_all add: possible_token_char_def ascii_defs ord_def)

section \<open>The safe split\<close>

lemma last_filter_upt:
  "rev (filter P [0..<n]) = i # r \<Longrightarrow> i < n \<and> P i \<and> (\<forall>j. i < j \<and> j < n \<longrightarrow> \<not> P j)"
proof (induction n)
  case (Suc n)
  show ?case
  proof (cases "P n")
    case True
    with Suc.prems show ?thesis by auto
  next
    case False
    then have "rev (filter P [0..<n]) = i # r" using Suc.prems by simp
    with Suc.IH False show ?thesis by (metis less_Suc_eq)
  qed
qed simp

lemma last_bracket_None: "last_bracket s = None \<longleftrightarrow> CHR ''['' \<notin> set s"
proof -
  have "last_bracket s = None \<longleftrightarrow> filter (\<lambda>i. s ! i = CHR ''['') [0..<length s] = []"
    unfolding last_bracket_def by (cases "rev (filter (\<lambda>i. s ! i = CHR ''['') [0..<length s])") auto
  then show ?thesis by (auto simp: in_set_conv_nth filter_empty_conv)
qed

lemma last_bracket_Some:
  assumes "last_bracket s = Some i"
  shows "i < length s \<and> drop i s = CHR ''['' # drop (Suc i) s \<and> CHR ''['' \<notin> set (drop (Suc i) s)"
proof -
  from assms obtain r where "rev (filter (\<lambda>i. s ! i = CHR ''['') [0..<length s]) = i # r"
    by (auto simp: last_bracket_def split: list.splits)
  from last_filter_upt [OF this] have i: "i < length s" "s ! i = CHR ''[''"
    "\<forall>j. i < j \<and> j < length s \<longrightarrow> s ! j \<noteq> CHR ''[''" by simp_all
  have "s ! (Suc i + j) \<noteq> CHR ''[''" if "j < length (drop (Suc i) s)" for j
    using i(3) that by simp
  then have "CHR ''['' \<notin> set (drop (Suc i) s)"
    using i(1) by (auto simp: in_set_conv_nth)
  with i(1,2) show ?thesis by (metis Cons_nth_drop_Suc)
qed

lemma classify_cases:
  "classify t = (if token_match t \<noteq> None then Complete
     else if length t > MAX_TOKEN_LEN \<or> \<not> list_all possible_token_char (drop 1 t) then NoToken else Partial)"
proof (cases "token_match t")
  case (Some n)
  then have "find_iter token_match t = (0, n) # scan token_match n (drop n t)"
    using tok.scan_hit [of t n 0] by (simp add: find_iter_def)
  with Some show ?thesis by (simp add: classify_def)
next
  case None
  have "a \<noteq> 0" if h: "find_iter token_match t = (a, b) # hs" for a b hs
  proof
    assume "a = 0"
    then have "(0, b) \<in> set (scan token_match 0 t)" using h by (simp add: find_iter_def)
    from tok.scan_matches [OF this] None show False by simp
  qed
  with None show ?thesis by (auto simp: classify_def split: list.split nat.split)
qed

lemma split_safe_append: "split_safe buf = (safe, held) \<Longrightarrow> safe @ held = buf"
  by (auto simp: split_safe_def split: option.splits boundary.splits)

lemma split_safe_cut:
  assumes "split_safe buf = (safe, held)" "bounded_tokens (buf @ f)"
  shows "no_straddle token_match safe (held @ f)"
proof (cases "last_bracket buf")
  case None
  then have "CHR ''['' \<notin> set buf" "safe = buf" "held = []"
    using assms(1) None by (simp_all add: last_bracket_None [symmetric] split_safe_def)
  moreover have "token_match (c # cs) = None" if "c \<noteq> CHR ''[''" for c cs using that token_match_open by blast
  ultimately show ?thesis
    unfolding no_straddle_def by (metis Cons_nth_drop_Suc append_Cons nth_mem)
next
  case (Some k)
  let ?r = "drop (Suc k) buf"
  note k = last_bracket_Some [OF Some]
  show ?thesis
  proof (cases "classify (drop k buf) = Partial")
    case True
    then have "safe = take k buf" "held = CHR ''['' # ?r" using assms(1) Some k by (simp_all add: split_safe_def)
    then show ?thesis by (simp add: cut_no_straddle)
  next
    case False
    then have sh: "safe = buf" "held = []"
      using assms(1) Some by (cases "classify (drop k buf)"; simp add: split_safe_def)+
    show ?thesis unfolding no_straddle_def sh append_Nil
    proof (intro allI impI)
      fix i assume i: "i < length buf"
      then obtain c cs where c: "drop i buf = c # cs" "c = buf ! i" "cs = drop (Suc i) buf" by (metis Cons_nth_drop_Suc)
      consider "i < k" | "i = k" | "k < i" by linarith
      then show "token_match (drop i buf @ f) = token_match (drop i buf)"
      proof cases
        case 1
        then have "drop k buf = drop (k - Suc i) cs" using c(3) by simp
        with k have "CHR ''['' \<in> set cs" by (metis in_set_dropD list.set_intros(1))
        with token_match_bracketed [of cs c f] c(1) show ?thesis by auto
      next
        case 2
        show ?thesis
        proof (cases "CHR '']'' \<in> set ?r")
          case True
          with token_match_bracketed [of ?r "CHR ''[''" f] k 2 show ?thesis by auto
        next
          case no: False
          have tw: "takeWhile (\<lambda>x. x \<noteq> CHR '']'') (?r @ f) = ?r @ takeWhile (\<lambda>x. x \<noteq> CHR '']'') f"
            using no by (rule takeWhile_absent)
          have n: "token_match (drop k buf) = None"
            using token_match_body [of "CHR ''[''" ?r] no k by (cases "token_match (drop k buf)") auto
          have "token_match (drop k buf @ f) = None"
          proof (rule ccontr)
            assume "token_match (drop k buf @ f) \<noteq> None"
            then obtain n where m: "token_match (CHR ''['' # ?r @ f) = Some n" using k by auto
            then have b: "token_body (?r @ takeWhile (\<lambda>x. x \<noteq> CHR '']'') f)" "length ?r + 2 \<le> n"
              unfolding token_match_body tw by simp_all
            have "drop k (buf @ f) = CHR ''['' # ?r @ f" using k by simp
            with m assms(2) have "n \<le> MAX_TOKEN_LEN + 1" unfolding bounded_tokens_def by metis
            with b(2) k have "length (drop k buf) \<le> MAX_TOKEN_LEN" by (metis Suc_eq_plus1 add_2_eq_Suc' length_Cons not_less_eq_eq order_trans)
            moreover have "list_all possible_token_char ?r" using token_body_chars [OF b(1)] by simp
            ultimately have "classify (drop k buf) = Partial" using n k by (simp add: classify_cases)
            with False show False by simp
          qed
          with n 2 show ?thesis by simp
        qed
      next
        case 3
        then have "c \<noteq> CHR ''[''"
          using k i c(2) by (metis (no_types, lifting) Suc_leI in_set_conv_nth le_add_diff_inverse length_drop less_diff_conv2 nth_drop add.commute)
        then have "token_match (c # cs @ f) = None" "token_match (c # cs) = None" using token_match_open by blast+
        with c(1) show ?thesis by simp
      qed
    qed
  qed
qed

lemma split_safe_held: "split_safe buf = (safe, held) \<Longrightarrow> i < length held \<Longrightarrow> token_match (drop i held) = None"
proof (cases "last_bracket buf")
  case (Some k)
  assume a: "split_safe buf = (safe, held)" "i < length held"
  note k = last_bracket_Some [OF Some]
  have p: "classify (drop k buf) = Partial" "held = drop k buf"
    using a Some by (auto simp: split_safe_def split: boundary.splits)
  then have z: "token_match held = None" by (auto simp: classify_cases split: if_splits)
  show ?thesis
  proof (cases i)
    case 0
    with z show ?thesis by simp
  next
    case (Suc j)
    then have "drop i held = drop j (drop (Suc k) buf)" using p(2) by (simp add: drop_Suc)
    moreover have "drop j (drop (Suc k) buf) \<noteq> []" using a(2) p(2) Suc by simp
    ultimately obtain c cs where c: "drop i held = c # cs" "c \<in> set (drop (Suc k) buf)"
      by (metis in_set_dropD list.exhaust list.set_intros(1))
    then have "c \<noteq> CHR ''[''" using k by auto
    with token_match_open [of c cs] c(1) show ?thesis by (cases "token_match (c # cs)") auto
  qed
qed (auto simp: split_safe_def)

section \<open>Unmasking as substitution\<close>

text \<open>What a token is replaced with when its position does not matter.\<close>

definition token_plain ::
  "prims \<Rightarrow> json_api \<Rightarrow> nat \<Rightarrow> session_store \<Rightarrow> unmask_manifest \<Rightarrow> reveal_marker option \<Rightarrow> unmask_context
   \<Rightarrow> string \<Rightarrow> string" where
  "token_plain P J now st mf mk ctx tok =
     (if is_broker_token tok then tok
      else if handle_is_local st mf tok \<and> ctx \<noteq> Display \<and> \<not> is_tool_promoted st tok then tok
      else if ctx = ToolInput \<and> \<not> handle_is_local st mf tok \<and> handle_policy mf tok = Gated then tok
      else case resolve_plain P now st mf tok of
          None \<Rightarrow> tok
        | Some p \<Rightarrow>
            (if ctx = ToolInput \<and> \<not> handle_is_local st mf tok then json_escape_body J p
             else case mk of Some k \<Rightarrow> marker_wrap k p | None \<Rightarrow> p))"

definition position_free :: "unmask_context \<Rightarrow> session_store \<Rightarrow> unmask_manifest \<Rightarrow> string \<Rightarrow> bool" where
  "position_free ctx st mf s \<longleftrightarrow>
     (ctx = ToolInput \<longrightarrow>
      (\<forall>u t v. s = u @ t @ v \<longrightarrow> t \<in> token_lang \<longrightarrow> handle_is_local st mf t \<or> handle_policy mf t \<noteq> WholeValueOnly))"

lemma unmask_subst:
  assumes "\<And>x. x \<in> set mf \<Longrightarrow> token_is_match (token_handle x)" "position_free ctx st mf s"
  shows "unmask_inner P J now st s mf mk ctx RawJsonSource = subst token_match (token_plain P J now st mf mk ctx) s"
proof -
  have "unmask_token P J now st mf mk ctx RawJsonSource s a b = token_plain P J now st mf mk ctx (slice s a b)"
    if ab: "(a, b) \<in> set (find_iter token_match s)" for a b
  proof -
    have "token_match (drop a s) = Some (b - a)"
      using tok.scan_matches [of a b 0 s] ab by (simp add: find_iter_def)
    then obtain t r where t: "t \<in> token_lang" "drop a s = t @ r" "b - a = length t" unfolding token_match_iff by blast
    have "s = take a s @ t @ r" "slice s a b = t"
      using append_take_drop_id [of a s] by (simp_all add: slice_def t(2,3))
    then have "ctx = ToolInput \<Longrightarrow> handle_is_local st mf (slice s a b) \<or> handle_policy mf (slice s a b) \<noteq> WholeValueOnly"
      using assms(2) t(1) unfolding position_free_def by metis
    then show ?thesis
      by (auto simp: unmask_token_def token_plain_def Let_def restore_in_tool_def
          split: option.split tool_input_restore.split)
  qed
  then have "splice_hits (unmask_token P J now st mf mk ctx RawJsonSource s) s 0 (find_iter token_match s)
      = subst token_match (token_plain P J now st mf mk ctx) s"
    by (rule tok.splice_find_iter)
  then show ?thesis unfolding unmask_inner_def Let_def using fold_literal_tokens [OF assms(1)] by simp
qed

lemma position_free_part:
  assumes "position_free ctx st mf (a @ b)"
  shows "position_free ctx st mf a" "position_free ctx st mf b"
proof -
  show "position_free ctx st mf a" unfolding position_free_def
  proof (intro impI allI)
    fix u t v assume "ctx = ToolInput" "a = u @ t @ v" "t \<in> token_lang"
    moreover from this have "a @ b = u @ t @ (v @ b)" by simp
    ultimately show "handle_is_local st mf t \<or> handle_policy mf t \<noteq> WholeValueOnly"
      using assms unfolding position_free_def by blast
  qed
  show "position_free ctx st mf b" unfolding position_free_def
  proof (intro impI allI)
    fix u t v assume "ctx = ToolInput" "b = u @ t @ v" "t \<in> token_lang"
    moreover from this have "a @ b = (a @ u) @ t @ v" by simp
    ultimately show "handle_is_local st mf t \<or> handle_policy mf t \<noteq> WholeValueOnly"
      using assms unfolding position_free_def by blast
  qed
qed

section \<open>One block\<close>

definition kind_context :: "held_kind \<Rightarrow> unmask_context" where
  "kind_context k = (case k of HeldText \<Rightarrow> Display | HeldCompaction \<Rightarrow> OtherPath | HeldInputJson \<Rightarrow> ToolInput)"

definition kind_marker :: "'c mask_engine \<Rightarrow> held_kind \<Rightarrow> reveal_marker option" where
  "kind_marker e k =
     (let mk = cfg_reveal_marker (p_config (e_policy e))
      in if k = HeldText \<and> marker_is_active mk then Some mk else None)"

definition kind_plain :: "'c env \<Rightarrow> json_api \<Rightarrow> nat \<Rightarrow> 'c mask_engine \<Rightarrow> unmask_manifest \<Rightarrow> held_kind \<Rightarrow> string \<Rightarrow> string" where
  "kind_plain W J now e mf k =
     token_plain (prims_of W) J now (e_store e) mf (kind_marker e k) (kind_context k)"

lemma unmask_kind_subst:
  assumes "\<And>x. x \<in> set mf \<Longrightarrow> token_is_match (token_handle x)" "position_free (kind_context k) (e_store e) mf s"
  shows "unmask_kind W J now e mf k s = subst token_match (kind_plain W J now e mf k) s"
proof -
  have "unmask_kind W J now e mf k s
      = unmask_inner (prims_of W) J now (e_store e) s mf (kind_marker e k) (kind_context k) RawJsonSource"
    unfolding unmask_kind_def kind_marker_def kind_context_def
    by (cases k) (simp_all only: held_kind.case ok_or_def sum.case unmask_def unmask_assistant_def
        unmask_tool_input_def Let_def held_kind.distinct simp_thms if_False split: if_split)
  with unmask_subst [OF assms, of "prims_of W" J now "kind_marker e k"] show ?thesis
    by (simp only: kind_plain_def)
qed

lemma split_held_cases:
  assumes "split_held k buf = (safe, held)"
  shows "split_safe buf = (safe, held)
    \<or> (\<exists>j. k = HeldInputJson \<and> last_unescaped_quote buf = Some j \<and> safe = take j buf \<and> held = drop j buf)"
proof (cases "last_unescaped_quote buf")
  case (Some j)
  show ?thesis
  proof (cases "k = HeldInputJson \<and> odd (unescaped_quote_count buf) \<and> is_whole_value_candidate (drop (j + 1) buf)")
    case True
    then have "(take j buf, drop j buf) = (safe, held)"
      using assms Some unfolding split_held_def by (simp only: option.case if_True simp_thms if_P)
    with True Some show ?thesis by blast
  next
    case False
    with assms Some show ?thesis unfolding split_held_def by (simp only: option.case if_False simp_thms)
  qed
qed (use assms in \<open>simp add: split_held_def\<close>)

lemma split_held_append: "split_held k buf = (safe, held) \<Longrightarrow> safe @ held = buf"
  by (drule split_held_cases) (auto intro: split_safe_append)

lemma last_quote_Some:
  assumes "last_unescaped_quote s = Some j"
  shows "j < length s \<and> s ! j = CHR 0x22"
proof -
  from assms obtain r where "rev (unescaped_quotes s) = j # r"
    unfolding last_unescaped_quote_def by (cases "rev (unescaped_quotes s)") simp_all
  from last_filter_upt [OF this [unfolded unescaped_quotes_def]] show ?thesis by blast
qed

lemma split_held_cut:
  assumes "split_held k buf = (safe, held)" "bounded_tokens (buf @ f)"
  shows "no_straddle token_match safe (held @ f)"
  using split_held_cases [OF assms(1)]
proof (elim disjE exE conjE)
  assume "split_safe buf = (safe, held)"
  then show ?thesis using assms(2) by (rule split_safe_cut)
next
  fix j assume "last_unescaped_quote buf = Some j" "held = drop j buf"
  then have "held = CHR 0x22 # drop (Suc j) buf"
    using last_quote_Some by (metis Cons_nth_drop_Suc)
  then show ?thesis by (simp add: cut_no_straddle)
qed

lemma flush_subst:
  assumes "\<And>x. x \<in> set mf \<Longrightarrow> token_is_match (token_handle x)" "position_free (kind_context k) (e_store e) mf held"
    and "k \<noteq> HeldInputJson \<Longrightarrow> (\<And>i. i < length held \<Longrightarrow> token_match (drop i held) = None)"
  shows "flush_held W J now e mf k held = subst token_match (kind_plain W J now e mf k) held"
proof (cases "k = HeldInputJson")
  case True
  then show ?thesis using unmask_kind_subst [OF assms(1,2)] by (simp add: flush_held_def unmask_kind_def)
next
  case False
  then have none: "subst token_match g held = held" for g using tok.subst_no_match assms(3) by blast
  have "position_free OtherPath (e_store e) mf held" by (simp add: position_free_def)
  from unmask_subst [OF assms(1) this] False none show ?thesis
    by (simp add: flush_held_def ok_or_def unmask_def)
qed

section \<open>Blocks are independent\<close>

fun ev_block :: "stream_event \<Rightarrow> nat option" where
  "ev_block (BlockStart i _) = Some i"
| "ev_block (BlockStop i) = Some i"
| "ev_block (BlockDelta i _) = Some i"
| "ev_block (OtherEvent _) = None"

definition of_block :: "nat \<Rightarrow> stream_event list \<Rightarrow> stream_event list" where
  "of_block i evs = filter (\<lambda>ev. ev_block ev = Some i) evs"

fun delta_text :: "stream_event \<Rightarrow> string" where
  "delta_text (BlockDelta _ (TextDelta t)) = t"
| "delta_text (BlockDelta _ (CompactionDelta t)) = t"
| "delta_text (BlockDelta _ (InputJsonDelta t)) = t"
| "delta_text _ = []"

definition block_text :: "nat \<Rightarrow> stream_event list \<Rightarrow> string" where
  "block_text i evs = concat (map delta_text (of_block i evs))"

lemma of_block_simps [simp]:
  "of_block i [] = []"
  "of_block i (x # xs) = (if ev_block x = Some i then x # of_block i xs else of_block i xs)"
  "of_block i (xs @ ys) = of_block i xs @ of_block i ys"
  "of_block i (of_block i xs) = of_block i xs"
  by (simp_all add: of_block_def)

lemma block_text_append [simp]: "block_text i (xs @ ys) = block_text i xs @ block_text i ys"
  by (simp add: block_text_def)

lemma block_text_of_block [simp]: "block_text i (of_block i xs) = block_text i xs"
  by (simp add: block_text_def)

lemma held_delta_text [simp]: "delta_text (BlockDelta i (held_delta k t)) = t"
  by (cases k) simp_all

text \<open>What an unmasker remembers of one block.\<close>

definition same_block :: "nat \<Rightarrow> sse_unmasker \<Rightarrow> sse_unmasker \<Rightarrow> bool" where
  "same_block i u v \<longleftrightarrow> map_of (carry u) i = map_of (carry v) i \<and> map_of (held_kinds u) i = map_of (held_kinds v) i"

lemma process_other:
  assumes "ev_block ev \<noteq> Some i" "sse_process W J now e mf ev u = (out, v)"
  shows "of_block i out = [] \<and> same_block i v u"
  using assms
  by (cases ev) (auto simp: sse_process_def sse_delta_def buffered_def Let_def same_block_def
      split: block_delta.splits prod.splits if_splits)

lemma process_own:
  assumes "ev_block ev = Some i" "same_block i u v" "sse_process W J now e mf ev u = (out, u')"
    "sse_process W J now e mf ev v = (out', v')"
  shows "out = out' \<and> same_block i u' v' \<and> of_block i out = out"
  using assms
  by (cases ev) (auto simp: sse_process_def sse_delta_def buffered_def Let_def same_block_def kind_of_def
      split: block_delta.splits prod.splits if_splits)

lemma run_block:
  "same_block i u v \<Longrightarrow>
     of_block i (fst (sse_run W J now e mf evs u)) = fst (sse_run W J now e mf (of_block i evs) v)
     \<and> same_block i (snd (sse_run W J now e mf evs u)) (snd (sse_run W J now e mf (of_block i evs) v))"
proof (induction evs arbitrary: u v)
  case (Cons ev evs)
  obtain out u' where p: "sse_process W J now e mf ev u = (out, u')" by fastforce
  show ?case
  proof (cases "ev_block ev = Some i")
    case True
    obtain out' v' where q: "sse_process W J now e mf ev v = (out', v')" by fastforce
    from process_own [OF True Cons.prems p q] Cons.IH [of u' v'] p q True show ?thesis
      by (auto simp: split_beta)
  next
    case False
    from process_other [OF False p] Cons.prems have "same_block i u' v" by (simp add: same_block_def)
    from Cons.IH [OF this] process_other [OF False p] p False show ?thesis by (simp add: split_beta)
  qed
qed simp

section \<open>The deltas of a block\<close>

lemma process_delta:
  "sse_process W J now e mf (BlockDelta i (held_delta k c)) u = buffered W J now e mf i c k u"
  by (cases k) (simp_all add: sse_process_def sse_delta_def)

lemma position_free_middle:
  "position_free ctx st mf (a @ b @ c) \<Longrightarrow> position_free ctx st mf b"
  using position_free_part by blast

text \<open>What is held back holds no complete token, except in a tool input.\<close>

definition tail_ok :: "held_kind \<Rightarrow> string \<Rightarrow> bool" where
  "tail_ok k held \<longleftrightarrow> (k \<noteq> HeldInputJson \<longrightarrow> (\<forall>i < length held. token_match (drop i held) = None))"

lemma split_held_tail: "split_held k buf = (safe, held) \<Longrightarrow> tail_ok k held"
  using split_held_cases split_safe_held unfolding tail_ok_def by blast

lemma buffered_step:
  assumes m: "\<And>x. x \<in> set mf \<Longrightarrow> token_is_match (token_handle x)"
    and h: "map_of (carry u) i = Some h"
    and b: "bounded_tokens (h @ c @ f)" "position_free (kind_context k) (e_store e) mf (h @ c @ f)"
    and r: "buffered W J now e mf i c k u = (out, v)"
  obtains h' where "map_of (carry v) i = Some h'" "map_of (held_kinds v) i = Some k" "tail_ok k h'"
    "\<exists>s. h @ c = s @ h'"
    "subst token_match (kind_plain W J now e mf k) (h @ c @ f)
       = block_text i out @ subst token_match (kind_plain W J now e mf k) (h' @ f)"
proof -
  let ?p = "kind_plain W J now e mf k"
  obtain safe h' where s: "split_held k (h @ c) = (safe, h')" by fastforce
  note a = split_held_append [OF s]
  have eq: "h @ c @ f = safe @ h' @ f" using a by (metis append.assoc)
  have "no_straddle token_match safe (h' @ f)" using split_held_cut [OF s] b(1) by simp
  from tok.subst_append [OF this, of ?p] have "subst token_match ?p (h @ c @ f) = subst token_match ?p safe @ subst token_match ?p (h' @ f)"
    unfolding eq .
  moreover have "position_free (kind_context k) (e_store e) mf safe"
    using b(2) position_free_part(1) [of "kind_context k" "e_store e" mf safe "h' @ f"] unfolding eq by blast
  from unmask_kind_subst [OF m this, of W J now] have "block_text i out = subst token_match ?p safe"
    using r h s by (auto simp: buffered_def Let_def block_text_def split: if_splits)
  moreover have "map_of (carry v) i = Some h'" "map_of (held_kinds v) i = Some k"
    using r h s by (auto simp: buffered_def Let_def)
  ultimately show thesis using that split_held_tail [OF s] a by metis
qed

lemma deltas_run:
  assumes m: "\<And>x. x \<in> set mf \<Longrightarrow> token_is_match (token_handle x)"
  shows "map_of (carry u) i = Some h \<Longrightarrow> bounded_tokens (h @ concat cs)
    \<Longrightarrow> position_free (kind_context k) (e_store e) mf (h @ concat cs)
    \<Longrightarrow> tail_ok k h \<Longrightarrow> h = [] \<or> map_of (held_kinds u) i = Some k
    \<Longrightarrow> \<exists>h'. map_of (carry (snd (sse_run W J now e mf (map (\<lambda>c. BlockDelta i (held_delta k c)) cs) u))) i = Some h'
      \<and> (h' = [] \<or> map_of (held_kinds (snd (sse_run W J now e mf (map (\<lambda>c. BlockDelta i (held_delta k c)) cs) u))) i = Some k)
      \<and> tail_ok k h' \<and> position_free (kind_context k) (e_store e) mf h'
      \<and> subst token_match (kind_plain W J now e mf k) (h @ concat cs)
        = block_text i (fst (sse_run W J now e mf (map (\<lambda>c. BlockDelta i (held_delta k c)) cs) u))
          @ subst token_match (kind_plain W J now e mf k) h'"
proof (induction cs arbitrary: u h)
  case Nil
  then show ?case by (simp add: block_text_def)
next
  case (Cons c cs)
  obtain out v where r: "buffered W J now e mf i c k u = (out, v)" by fastforce
  have b: "bounded_tokens (h @ c @ concat cs)" "position_free (kind_context k) (e_store e) mf (h @ c @ concat cs)"
    using Cons.prems(2,3) by simp_all
  from buffered_step [OF m Cons.prems(1) b r] obtain h' s where h': "map_of (carry v) i = Some h'"
    "map_of (held_kinds v) i = Some k" "tail_ok k h'" "h @ c = s @ h'"
    "subst token_match (kind_plain W J now e mf k) (h @ c @ concat cs)
       = block_text i out @ subst token_match (kind_plain W J now e mf k) (h' @ concat cs)" by metis
  have eq: "h @ c @ concat cs = s @ h' @ concat cs" using h'(4) by (metis append.assoc)
  have "bounded_tokens (h' @ concat cs)" using b(1) unfolding eq by (rule bounded_suffix)
  moreover have "position_free (kind_context k) (e_store e) mf (h' @ concat cs)"
    using b(2) unfolding eq by (rule position_free_part(2))
  ultimately show ?case using Cons.IH [OF h'(1)] h'(2,3,5) r
    by (simp add: process_delta split_beta)
qed

lemma stop_event:
  assumes m: "\<And>x. x \<in> set mf \<Longrightarrow> token_is_match (token_handle x)"
    and h: "map_of (carry u) i = Some h" "h = [] \<or> map_of (held_kinds u) i = Some k" "tail_ok k h"
    "position_free (kind_context k) (e_store e) mf h"
  shows "block_text i (fst (sse_process W J now e mf (BlockStop i) u)) = subst token_match (kind_plain W J now e mf k) h"
proof (cases "h = []")
  case True
  then show ?thesis using h(1) by (simp add: sse_process_def Let_def block_text_def)
next
  case False
  then have "kind_of i u = k" using h(2) by (simp add: kind_of_def)
  moreover have "flush_held W J now e mf k h = subst token_match (kind_plain W J now e mf k) h"
    by (rule flush_subst [OF m h(4)]) (use h(3) in \<open>auto simp: tail_ok_def\<close>)
  ultimately show ?thesis using h(1) False by (auto simp: sse_process_def Let_def block_text_def)
qed

lemma sse_run_append:
  "sse_run W J now e mf (xs @ ys) u
     = (fst (sse_run W J now e mf xs u) @ fst (sse_run W J now e mf ys (snd (sse_run W J now e mf xs u))),
        snd (sse_run W J now e mf ys (snd (sse_run W J now e mf xs u))))"
  by (induction xs arbitrary: u) (simp_all add: split_beta)

text \<open>The token length bound holds of every text short enough.\<close>

lemma short_bounded: "length s \<le> MAX_TOKEN_LEN + 1 \<Longrightarrow> bounded_tokens s"
  unfolding bounded_tokens_def
proof (intro allI impI)
  fix i n assume a: "length s \<le> MAX_TOKEN_LEN + 1" and m: "token_match (drop i s) = Some n"
  from m obtain t r where "drop i s = t @ r" "n = length t" unfolding token_match_iff by blast
  then have "n \<le> length (drop i s)" by simp
  with a show "n \<le> MAX_TOKEN_LEN + 1" by simp
qed



section \<open>The whole-value gate on a stream\<close>

lemma trim_words: "trim [] = []" "trim ''echo '' \<noteq> []"
  by code_simp+

text \<open>A token at the end of the buffer, behind text that opens no token and no JSON string.\<close>

lemma token_chars:
  assumes "t \<in> token_lang"
  shows "CHR 0x22 \<notin> set t" "\<exists>b. t = CHR ''['' # b \<and> CHR ''['' \<notin> set b"
proof -
  obtain b where b: "t = ''['' @ b @ '']''" "token_body b" using assms token_lang_iff by blast
  have c: "possible_token_char x" if "x \<in> set b" for x
    using token_body_chars [OF b(2)] that by (auto simp: list_all_iff)
  have "CHR 0x22 \<notin> set b" "CHR ''['' \<notin> set b" using c bracket_outside by blast+
  then show "CHR 0x22 \<notin> set t" "\<exists>b. t = CHR ''['' # b \<and> CHR ''['' \<notin> set b" using b(1) by simp_all
qed

lemma split_held_token:
  assumes "t \<in> token_lang" "CHR ''['' \<notin> set v" "CHR 0x22 \<notin> set v"
  shows "split_held k (v @ t) = (v @ t, [])"
proof -
  have "CHR 0x22 \<notin> set (v @ t)" using assms(3) token_chars(1) [OF assms(1)] by simp
  then have "unescaped_quotes (v @ t) = []"
    unfolding unescaped_quotes_def filter_empty_conv by (metis atLeastLessThan_iff nth_mem set_upt)
  then have q: "last_unescaped_quote (v @ t) = None" by (simp add: last_unescaped_quote_def)
  obtain b where b: "t = CHR ''['' # b" "CHR ''['' \<notin> set b" using token_chars(2) [OF assms(1)] by blast
  then have "last_bracket (v @ t) \<noteq> None" by (simp add: last_bracket_None)
  then obtain j where j: "last_bracket (v @ t) = Some j" by blast
  note l = last_bracket_Some [OF j]
  have "v @ t = take j (v @ t) @ CHR ''['' # drop (Suc j) (v @ t)" using l by (metis append_take_drop_id)
  then have "drop j (v @ t) = t"
    using l b assms(2) by (metis append_Cons_eq_iff append_take_drop_id)
  moreover have "token_match t = Some (length t)" using token_match_self [OF assms(1), of "[]"] by simp
  ultimately have "split_safe (v @ t) = (v @ t, [])" using j by (simp add: split_safe_def classify_cases)
  with q show ?thesis by (simp add: split_held_def)
qed

lemma buffered_token:
  assumes "t \<in> token_lang" "CHR ''['' \<notin> set v" "CHR 0x22 \<notin> set v"
    and "\<not> is_broker_token t" "\<not> handle_is_local (e_store e) mf t" "handle_policy mf t = WholeValueOnly"
    and "resolve_plain (prims_of W) now (e_store e) mf t = Some p" "p \<noteq> []"
    and "map_of (carry u) i = Some []"
  shows "fst (sse_process W J now e mf (BlockDelta i (InputJsonDelta (v @ t))) u)
    = [BlockDelta i (InputJsonDelta (if trim v = [] then v @ p else v @ t))]"
proof -
  have "fold (unmask_literal None ToolInput) mf out = out" for out
    by (induction mf) (simp_all add: unmask_literal_def)
  moreover have "find_iter token_match (v @ t) = [(length v, length v + length t)]"
    using single_token [OF assms(1,2), of "[]"] by simp
  moreover have "slice (v @ t) (length v) (length v + length t) = t" by (simp add: slice_def)
  moreover have "tool_input_whole_value_mode (v @ t) (length v) (length v + length t) RawJsonSource
      = (if trim v = [] then Some Bare else None)"
    by (simp add: tool_input_whole_value_mode_def trim_words)
  ultimately have "unmask_tool_input W J now (v @ t) mf e = Inr (if trim v = [] then v @ p else v @ t)"
    using assms(4-7) by (simp add: unmask_tool_input_def unmask_inner_def unmask_token_def restore_in_tool_def slice_prefix)
  moreover have "t \<noteq> []" using token_chars(2) [OF assms(1)] by auto
  ultimately show ?thesis
    using assms(8,9) split_held_token [OF assms(1-3), of HeldInputJson]
    by (simp add: sse_process_def sse_delta_def buffered_def unmask_kind_def ok_or_def)
qed

text \<open>
  The whole-value gate of a streamed tool input decides on the carry buffer, not on the JSON string:
  a handle of a whole-value class that arrives as a delta of its own is restored raw, wherever it stands
  in the input, while the same handle behind a blank of the same delta stays a handle.
\<close>

theorem lone_delta_releases:
  assumes "tok \<in> token_lang" "\<not> is_broker_token tok" "\<not> handle_is_local (e_store e) mf tok"
    and "handle_policy mf tok = WholeValueOnly" "resolve_plain (prims_of W) now (e_store e) mf tok = Some p" "p \<noteq> []"
    and "map_of (carry u) i = Some []"
  shows "fst (sse_process W J now e mf (BlockDelta i (InputJsonDelta tok)) u) = [BlockDelta i (InputJsonDelta p)]
    \<and> fst (sse_process W J now e mf (BlockDelta i (InputJsonDelta (''echo '' @ tok))) u)
        = [BlockDelta i (InputJsonDelta (''echo '' @ tok))]"
  using buffered_token [OF assms(1) _ _ assms(2-7), of "[]"]
    buffered_token [OF assms(1) _ _ assms(2-7), of "''echo ''"]
  by (simp add: trim_words)

lemma lone_delta_releases_witness:
  "\<exists>e. engine_new sample_env (engine_config_default sample_prims) = Inr e
     \<and> fst (sse_process sample_env sample_json 0 e [sample_entry ''Bo'' ''[PERSON_0123456789ab]'' ''PERSON'']
             (BlockDelta 0 (InputJsonDelta ''[PERSON_0123456789ab]'')) \<lparr>carry = [(0, [])], held_kinds = []\<rparr>)
         = [BlockDelta 0 (InputJsonDelta ''Bo'')]"
proof -
  let ?t = "''[PERSON_0123456789ab]''" and ?mf = "[sample_entry ''Bo'' ''[PERSON_0123456789ab]'' ''PERSON'']"
  obtain e where e: "engine_new sample_env (engine_config_default sample_prims) = Inr e" by (rule sample_engine)
  have t: "?t \<in> token_lang" unfolding token_lang_iff
    by (rule exI [of _ "''PERSON_0123456789ab''"]) code_simp
  have f: "find_entry ?mf ?t = Some (sample_entry ''Bo'' ?t ''PERSON'')" by (simp add: find_entry_def sample_entry_def)
  have l: "\<not> handle_is_local (e_store e) ?mf ?t" by (simp add: handle_is_local_def f) (simp add: sample_entry_def)
  have g: "handle_policy ?mf ?t = WholeValueOnly"
    by (simp add: handle_policy_def f) (simp add: sample_entry_def tool_input_restore_policy_def entity_labels)
  have r: "resolve_plain P now st ?mf ?t = Some ''Bo''" for P now st
    by (simp add: resolve_plain_def f) (simp add: sample_entry_def)
  have b: "\<not> is_broker_token ?t" by (simp add: is_broker_token_def starts_with_def)
  from lone_delta_releases [OF t b l g r, of "\<lparr>carry = [(0, [])], held_kinds = []\<rparr>" 0 sample_env sample_json] e
  show ?thesis by (intro exI [of _ e]) simp
qed

end
