(* ===== verification/Zdr_Target.thy ===== *)
theory Zdr_Target
  imports Sordino_Prelude
begin

text \<open>
  \<open>zdr.rs\<close>, \<open>headers.rs\<close> and \<open>wire_adapter.rs\<close> of \<open>sordino-proxy\<close>: the registry of zero-data-retention
  targets, the trust posture a request is pinned to, and the request headers built for an upstream.

  The \<open>url\<close> and \<open>http\<close> crates are parameters: \<open>zdr_url_parse\<close> gives the parts of a URL that parses,
  \<open>header_name_of\<close> the normalised name \<open>HeaderName::from_bytes\<close> accepts, \<open>header_value_ok\<close> whether
  \<open>HeaderValue::from_str\<close> accepts a value. A \<open>HeaderMap\<close> is the list of its pairs, the values of one
  name in order; names in it are lower case, as the crate keeps them. Environment variables are a
  function. Error messages are reduced to the data they quote.
\<close>

section \<open>Header maps\<close>

type_synonym header_map = "(string \<times> string) list"

definition hd_append :: "string \<Rightarrow> string \<Rightarrow> header_map \<Rightarrow> header_map" where
  "hd_append n v h = h @ [(n, v)]"

definition hd_insert :: "string \<Rightarrow> string \<Rightarrow> header_map \<Rightarrow> header_map" where
  "hd_insert n v h = filter (\<lambda>(m, _). m \<noteq> n) h @ [(n, v)]"

definition hd_values :: "string \<Rightarrow> header_map \<Rightarrow> string list" where
  "hd_values n h = map snd (filter (\<lambda>(m, _). m = n) h)"

definition hd_get :: "string \<Rightarrow> header_map \<Rightarrow> string option" where
  "hd_get n h = map_of h n"

section \<open>Targets\<close>

datatype parsed_host = UrlDomain string | UrlIpv4 string | UrlIpv6 string

record url_parts =
  up_scheme :: string
  up_username :: string
  up_password :: "string option"
  up_host :: "parsed_host option"
  up_port :: "string option"

record net_api =
  zdr_url_parse :: "string \<Rightarrow> url_parts option"
  header_name_of :: "string \<Rightarrow> string option"
  header_value_ok :: "string \<Rightarrow> bool"
  header_value_str :: "string \<Rightarrow> string option"

datatype trust_basis = Contractual string bool | ProviderArchitecture | SelfHosted | AttestedTee

datatype zdr_error =
    EmptyName
  | UnknownBasis string
  | SubscriptionShaped
  | AuthBearingHeader string
  | HeaderSubscriptionShaped string
  | UrlInvalid string
  | UrlScheme string string
  | UrlUserinfo
  | UrlNoHost string

fun is_zdr_grade :: "trust_basis \<Rightarrow> bool" where
  "is_zdr_grade AttestedTee = False"
| "is_zdr_grade _ = True"

definition trust_parse :: "string \<Rightarrow> zdr_error + trust_basis" where
  "trust_parse s =
     (if s = ''self_hosted'' then Inr SelfHosted
      else if s = ''provider_architecture'' then Inr ProviderArchitecture
      else if s = ''attested_tee'' then Inr AttestedTee
      else if s = ''contractual'' then Inr (Contractual ''unspecified'' True)
      else Inl (UnknownBasis s))"

fun trust_label :: "trust_basis \<Rightarrow> string" where
  "trust_label (Contractual _ _) = ''contractual''"
| "trust_label ProviderArchitecture = ''provider_architecture''"
| "trust_label SelfHosted = ''self_hosted''"
| "trust_label AttestedTee = ''attested_tee''"

record zdr_target =
  zt_name :: string
  zt_base_url :: string
  zt_host :: string
  zt_basis :: trust_basis
  zt_verified :: bool
  zt_headers :: header_map
  zt_key :: string

record zdr_target_view =
  tv_name :: string
  tv_base_url :: string
  tv_basis :: string
  tv_verified :: bool
  tv_has_key :: bool

definition zdr_view :: "zdr_target \<Rightarrow> zdr_target_view" where
  "zdr_view t =
     \<lparr>tv_name = zt_name t, tv_base_url = zt_base_url t, tv_basis = trust_label (zt_basis t),
      tv_verified = zt_verified t, tv_has_key = (zt_key t \<noteq> [])\<rparr>"

definition AUTH_KEYWORDS :: "string list" where
  "AUTH_KEYWORDS =
     [''auth'', ''token'', ''secret'', ''credential'', ''cookie'', ''bearer'', ''password'', ''passwd'',
      ''signature'', ''hmac'', ''api-key'', ''apikey'', ''api_key'', ''access-key'', ''x-amz-security'']"

definition header_name_is_auth_bearing :: "string \<Rightarrow> bool" where
  "header_name_is_auth_bearing name \<longleftrightarrow> list_ex (\<lambda>kw. contains kw (ascii_lower name)) AUTH_KEYWORDS"

definition first_ascii_word :: "string \<Rightarrow> string" where
  "first_ascii_word s = takeWhile (\<lambda>c. \<not> is_ascii_ws c) (dropWhile is_ascii_ws s)"

text \<open>\<open>reject_subscription_shaped\<close> refuses exactly these.\<close>

definition subscription_shaped :: "string \<Rightarrow> bool" where
  "subscription_shaped key =
     (let k = trim key; lower = ascii_lower k; scheme = first_ascii_word lower in
      k \<noteq> [] \<and> (starts_with ''sk-ant-oat'' lower \<or> scheme = ''bearer'' \<or> scheme = ''oauth''))"

definition reject_subscription_shaped :: "string \<Rightarrow> zdr_error + unit" where
  "reject_subscription_shaped key = (if subscription_shaped key then Inl SubscriptionShaped else Inr ())"

text \<open>\<open>str::rfind\<close> of a character.\<close>

fun str_rfind_char :: "char \<Rightarrow> string \<Rightarrow> nat option" where
  "str_rfind_char c [] = None"
| "str_rfind_char c (x # xs) =
     (case str_rfind_char c xs of Some i \<Rightarrow> Some (Suc i) | None \<Rightarrow> if x = c then Some 0 else None)"

definition redact_userinfo :: "string \<Rightarrow> string" where
  "redact_userinfo url =
     (case str_find ''://'' url of
        None \<Rightarrow> url
      | Some scheme_end \<Rightarrow>
          (let after = scheme_end + 3;
               authority_end = (case str_find ''/'' (drop after url) of Some i \<Rightarrow> after + i | None \<Rightarrow> length url)
           in case str_rfind_char (CHR ''@'') (slice url after authority_end) of
                Some at_rel \<Rightarrow> take after url @ ''***@'' @ drop (after + at_rel + 1) url
              | None \<Rightarrow> url))"

definition trim_end_slashes :: "string \<Rightarrow> string" where
  "trim_end_slashes s = rev (dropWhile (\<lambda>c. c = CHR ''/'') (rev s))"

fun host_text :: "parsed_host \<Rightarrow> string" where
  "host_text (UrlDomain d) = d"
| "host_text (UrlIpv4 ip) = ip"
| "host_text (UrlIpv6 ip) = ''['' @ ip @ '']''"

definition parse_base_url :: "net_api \<Rightarrow> string \<Rightarrow> zdr_error + string \<times> string" where
  "parse_base_url N base =
     (let trimmed = trim base; shown = redact_userinfo trimmed in
      case zdr_url_parse N trimmed of
        None \<Rightarrow> Inl (UrlInvalid shown)
      | Some u \<Rightarrow>
          (if up_scheme u \<noteq> ''http'' \<and> up_scheme u \<noteq> ''https'' then Inl (UrlScheme shown (up_scheme u))
           else if up_username u \<noteq> [] \<or> up_password u \<noteq> None then Inl UrlUserinfo
           else case up_host u of
                  None \<Rightarrow> Inl (UrlNoHost shown)
                | Some h \<Rightarrow>
                    Inr (trim_end_slashes trimmed,
                         host_text h @ (case up_port u of Some p \<Rightarrow> '':'' @ p | None \<Rightarrow> []))))"

fun check_extra_headers :: "header_map \<Rightarrow> zdr_error + unit" where
  "check_extra_headers [] = Inr ()"
| "check_extra_headers ((hk, hv) # hs) =
     (if header_name_is_auth_bearing hk then Inl (AuthBearingHeader hk)
      else if subscription_shaped hv then Inl (HeaderSubscriptionShaped hk)
      else check_extra_headers hs)"

definition zdr_target_new ::
  "net_api \<Rightarrow> string \<Rightarrow> string \<Rightarrow> trust_basis \<Rightarrow> bool \<Rightarrow> header_map \<Rightarrow> string \<Rightarrow> zdr_error + zdr_target" where
  "zdr_target_new N name base basis verified extra key =
     (if trim name = [] then Inl EmptyName
      else case reject_subscription_shaped (trim key) of
          Inl e \<Rightarrow> Inl e
        | Inr _ \<Rightarrow>
            (case check_extra_headers extra of
               Inl e \<Rightarrow> Inl e
             | Inr _ \<Rightarrow>
                 (case parse_base_url N base of
                    Inl e \<Rightarrow> Inl e
                  | Inr (base_url, host) \<Rightarrow>
                      Inr \<lparr>zt_name = name, zt_base_url = base_url, zt_host = host, zt_basis = basis,
                           zt_verified = verified, zt_headers = extra, zt_key = trim key\<rparr>)))"

section \<open>The registry\<close>

record zdr_target_spec =
  sp_name :: string
  sp_base_url :: string
  sp_basis :: "string option"
  sp_verified :: bool
  sp_from_env :: "string option"
  sp_headers :: header_map

record zdr_section =
  zs_default :: "string option"
  zs_target :: "zdr_target_spec list"

datatype zdr_load_error = DuplicateTarget string | TargetFailed string zdr_error | DefaultUnresolved string

record resolved_zdr =
  rz_targets :: "(string \<times> zdr_target) list"
  rz_default :: "string option"
  rz_errors :: "zdr_load_error list"

definition resolve_one :: "net_api \<Rightarrow> (string \<Rightarrow> string option) \<Rightarrow> zdr_target_spec \<Rightarrow> zdr_error + zdr_target" where
  "resolve_one N env spec =
     (case (case sp_basis spec of Some s \<Rightarrow> trust_parse s | None \<Rightarrow> Inr SelfHosted) of
        Inl e \<Rightarrow> Inl e
      | Inr basis \<Rightarrow>
          (let key = (case sp_from_env spec of
                        Some var \<Rightarrow> (case env var of Some v \<Rightarrow> v | None \<Rightarrow> [])
                      | None \<Rightarrow> [])
           in zdr_target_new N (sp_name spec) (sp_base_url spec) basis (sp_verified spec) (sp_headers spec) key))"

text \<open>The loop over the specs; the registered targets are listed in the order they were inserted.\<close>

fun resolve_specs ::
  "net_api \<Rightarrow> (string \<Rightarrow> string option) \<Rightarrow> zdr_target_spec list \<Rightarrow> (string \<times> zdr_target) list
   \<Rightarrow> zdr_load_error list \<Rightarrow> (string \<times> zdr_target) list \<times> zdr_load_error list" where
  "resolve_specs N env [] targets errors = (targets, errors)"
| "resolve_specs N env (spec # specs) targets errors =
     (if map_of targets (sp_name spec) \<noteq> None
      then resolve_specs N env specs targets (errors @ [DuplicateTarget (sp_name spec)])
      else case resolve_one N env spec of
          Inr t \<Rightarrow> resolve_specs N env specs (targets @ [(zt_name t, t)]) errors
        | Inl e \<Rightarrow> resolve_specs N env specs targets (errors @ [TargetFailed (sp_name spec) e]))"

definition resolve_targets :: "net_api \<Rightarrow> (string \<Rightarrow> string option) \<Rightarrow> zdr_section \<Rightarrow> resolved_zdr" where
  "resolve_targets N env sec =
     (let (targets, errors) = resolve_specs N env (zs_target sec) [] [] in
      case zs_default sec of
        Some d \<Rightarrow>
          (if map_of targets d \<noteq> None
           then \<lparr>rz_targets = targets, rz_default = Some d, rz_errors = errors\<rparr>
           else \<lparr>rz_targets = targets, rz_default = None, rz_errors = errors @ [DefaultUnresolved d]\<rparr>)
      | None \<Rightarrow> \<lparr>rz_targets = targets, rz_default = None, rz_errors = errors\<rparr>)"

section \<open>The pinned posture\<close>

datatype pinned_mode = NormalMode | ZdrMode zdr_target

fun pinned_is_zdr :: "pinned_mode \<Rightarrow> bool" where
  "pinned_is_zdr (ZdrMode _) = True"
| "pinned_is_zdr NormalMode = False"

fun pinned_target :: "pinned_mode \<Rightarrow> zdr_target option" where
  "pinned_target (ZdrMode t) = Some t"
| "pinned_target NormalMode = None"

datatype reveal_clearance = RevealClearance pinned_mode

definition from_pinned :: "pinned_mode \<Rightarrow> reveal_clearance" where
  "from_pinned p = RevealClearance p"

fun permits_reveal :: "reveal_clearance \<Rightarrow> bool" where
  "permits_reveal (RevealClearance p) = pinned_is_zdr p"

section \<open>Header relay\<close>

definition HOP_BY_HOP :: "string list" where
  "HOP_BY_HOP =
     [''host'', ''content-length'', ''connection'', ''transfer-encoding'', ''keep-alive'', ''proxy-authenticate'',
      ''proxy-authorization'', ''te'', ''trailer'', ''upgrade'', ''accept-encoding'']"

definition is_hop_by_hop :: "string \<Rightarrow> bool" where
  "is_hop_by_hop n \<longleftrightarrow> n \<in> set HOP_BY_HOP"

text \<open>The end of both request builders: the rewritten host, and no compression.\<close>

definition host_and_encoding :: "net_api \<Rightarrow> string \<Rightarrow> header_map \<Rightarrow> header_map" where
  "host_and_encoding N upstream_host out =
     hd_insert ''accept-encoding'' ''identity''
       (if header_value_ok N upstream_host then hd_insert ''host'' upstream_host out else out)"

definition upstream_request_headers :: "net_api \<Rightarrow> header_map \<Rightarrow> string \<Rightarrow> header_map" where
  "upstream_request_headers N incoming upstream_host =
     host_and_encoding N upstream_host
       (fold (\<lambda>(n, v) out. if is_hop_by_hop n then out else hd_append n v out) incoming [])"

definition is_client_credential :: "string \<Rightarrow> bool" where
  "is_client_credential n \<longleftrightarrow> ascii_lower n = ''authorization'' \<or> ascii_lower n = ''x-api-key''"

definition add_extra_header :: "net_api \<Rightarrow> string \<times> string \<Rightarrow> header_map \<Rightarrow> header_map" where
  "add_extra_header N kv out =
     (case header_name_of N (fst kv) of
        Some n \<Rightarrow> if header_value_ok N (snd kv) then hd_insert n (snd kv) out else out
      | None \<Rightarrow> out)"

definition upstream_request_headers_zdr :: "net_api \<Rightarrow> header_map \<Rightarrow> string \<Rightarrow> zdr_target \<Rightarrow> header_map" where
  "upstream_request_headers_zdr N incoming upstream_host t =
     (let out = fold (\<lambda>(n, v) out. if is_hop_by_hop n \<or> is_client_credential n then out else hd_append n v out)
                  incoming [];
          out = fold (add_extra_header N) (zt_headers t) out;
          out = (if zt_key t \<noteq> [] \<and> header_value_ok N (zt_key t) then hd_insert ''x-api-key'' (zt_key t) out else out)
      in host_and_encoding N upstream_host out)"

definition downstream_response_headers :: "header_map \<Rightarrow> bool \<Rightarrow> header_map" where
  "downstream_response_headers upstream body_rewritten =
     fold (\<lambda>(n, v) out.
         if is_hop_by_hop n \<or> (body_rewritten \<and> (n = ''content-length'' \<or> n = ''content-encoding'')) then out
         else hd_append n v out) upstream []"

section \<open>The wire adapter\<close>

record wire_request =
  wr_url :: string
  wr_headers :: header_map
  wr_body :: string

record anthropic_native =
  an_base_url :: string
  an_host :: string
  an_zdr :: "zdr_target option"

definition for_mode :: "string \<Rightarrow> string \<Rightarrow> pinned_mode \<Rightarrow> anthropic_native" where
  "for_mode default_base default_host pinned =
     (case pinned of
        NormalMode \<Rightarrow> \<lparr>an_base_url = default_base, an_host = default_host, an_zdr = None\<rparr>
      | ZdrMode t \<Rightarrow> \<lparr>an_base_url = zt_base_url t, an_host = zt_host t, an_zdr = Some t\<rparr>)"

definition wire_build :: "net_api \<Rightarrow> anthropic_native \<Rightarrow> header_map \<Rightarrow> string \<Rightarrow> string \<Rightarrow> wire_request" where
  "wire_build N a incoming path masked_body =
     \<lparr>wr_url = an_base_url a @ path,
      wr_headers =
        (case an_zdr a of
           None \<Rightarrow> upstream_request_headers N incoming (an_host a)
         | Some t \<Rightarrow> upstream_request_headers_zdr N incoming (an_host a) t),
      wr_body = masked_body\<rparr>"

end
