(* ===== verification/Zdr_Laws.thy ===== *)
theory Zdr_Laws
  imports Zdr_Target
begin

text \<open>
  What the target registry and the request builders promise: which header values leave for a
  zero-data-retention target, what a registered target has passed, and what an error text shows of a
  rejected URL.
\<close>

section \<open>Header maps\<close>

lemma hd_values_insert [simp]: "hd_values n (hd_insert m v h) = (if n = m then [v] else hd_values n h)"
proof -
  have "filter (\<lambda>x. fst x = n \<and> fst x \<noteq> m) h = (if n = m then [] else filter (\<lambda>x. fst x = n) h)"
    by (auto intro: filter_cong)
  then show ?thesis by (simp add: hd_values_def hd_insert_def case_prod_unfold conj_commute)
qed

lemma hd_values_append [simp]: "hd_values n (hd_append m v h) = hd_values n h @ (if n = m then [v] else [])"
  by (simp add: hd_values_def hd_append_def)

lemma hd_values_mem: "(n, v) \<in> set h \<longleftrightarrow> v \<in> set (hd_values n h)"
  by (force simp: hd_values_def)

lemma relay_filter:
  "fold (\<lambda>(n, v) out. if P n then out else hd_append n v out) xs out = out @ filter (\<lambda>(n, _). \<not> P n) xs"
  by (induction xs arbitrary: out) (auto simp: hd_append_def)

lemma hd_values_filter [simp]: "hd_values n (filter (\<lambda>(m, _). P m) h) = (if P n then hd_values n h else [])"
  by (induction h) (auto simp: hd_values_def)

lemma hd_values_host_and_encoding:
  "hd_values n (host_and_encoding N host out) =
     (if n = ''accept-encoding'' then [''identity'']
      else if n = ''host'' \<and> header_value_ok N host then [host] else hd_values n out)"
  by (simp add: host_and_encoding_def)

text \<open>The value the extra headers give a name: the last valid one.\<close>

fun extra_value :: "net_api \<Rightarrow> string \<Rightarrow> header_map \<Rightarrow> string option" where
  "extra_value N n [] = None"
| "extra_value N n (kv # hs) =
     (case extra_value N n hs of
        Some v \<Rightarrow> Some v
      | None \<Rightarrow> if header_name_of N (fst kv) = Some n \<and> header_value_ok N (snd kv) then Some (snd kv) else None)"

lemma hd_values_extra:
  "hd_values n (fold (add_extra_header N) hs out) =
     (case extra_value N n hs of Some v \<Rightarrow> [v] | None \<Rightarrow> hd_values n out)"
  by (induction hs arbitrary: out) (auto simp: add_extra_header_def split: option.split)

lemma extra_value_mem:
  "extra_value N n hs = Some v \<Longrightarrow> \<exists>k. (k, v) \<in> set hs \<and> header_name_of N k = Some n"
  by (induction hs) (force split: option.splits if_splits)+

lemma zdr_headers_form:
  "hd_values n (upstream_request_headers_zdr N incoming host t) =
     (if n = ''accept-encoding'' then [''identity'']
      else if n = ''host'' \<and> header_value_ok N host then [host]
      else if n = ''x-api-key'' \<and> zt_key t \<noteq> [] \<and> header_value_ok N (zt_key t) then [zt_key t]
      else case extra_value N n (zt_headers t) of
          Some v \<Rightarrow> [v]
        | None \<Rightarrow> if is_hop_by_hop n \<or> is_client_credential n then [] else hd_values n incoming)"
  by (simp add: upstream_request_headers_zdr_def Let_def hd_values_host_and_encoding hd_values_extra
      relay_filter [where P = "\<lambda>n. is_hop_by_hop n \<or> is_client_credential n"] split: option.split)

lemma normal_headers_form:
  "hd_values n (upstream_request_headers N incoming host) =
     (if n = ''accept-encoding'' then [''identity'']
      else if n = ''host'' \<and> header_value_ok N host then [host]
      else if is_hop_by_hop n then [] else hd_values n incoming)"
  by (simp add: upstream_request_headers_def hd_values_host_and_encoding relay_filter)

section \<open>Targets\<close>

text \<open>\<open>HeaderName::from_bytes\<close> normalises to lower case.\<close>

definition names_normalised :: "net_api \<Rightarrow> bool" where
  "names_normalised N \<longleftrightarrow> (\<forall>s n. header_name_of N s = Some n \<longrightarrow> n = ascii_lower s)"

lemma credential_auth_bearing: "is_client_credential n \<Longrightarrow> header_name_is_auth_bearing n"
proof -
  have "contains ''auth'' ''authorization''" "contains ''api-key'' ''x-api-key''" by code_simp+
  then show "is_client_credential n \<Longrightarrow> header_name_is_auth_bearing n"
    by (auto simp: is_client_credential_def header_name_is_auth_bearing_def AUTH_KEYWORDS_def)
qed

lemma auth_bearing_lower [simp]: "header_name_is_auth_bearing (ascii_lower n) = header_name_is_auth_bearing n"
  by (simp add: header_name_is_auth_bearing_def)

text \<open>What a constructed target has passed.\<close>

definition target_ok :: "net_api \<Rightarrow> zdr_target \<Rightarrow> bool" where
  "target_ok N t \<longleftrightarrow>
     trim (zt_name t) \<noteq> [] \<and> \<not> subscription_shaped (zt_key t)
     \<and> (\<forall>(k, v) \<in> set (zt_headers t). \<not> header_name_is_auth_bearing k \<and> \<not> subscription_shaped v)
     \<and> (\<exists>base u h. zdr_url_parse N (trim base) = Some u \<and> up_scheme u \<in> {''http'', ''https''}
          \<and> up_username u = [] \<and> up_password u = None \<and> up_host u = Some h
          \<and> zt_base_url t = trim_end_slashes (trim base)
          \<and> zt_host t = host_text h @ (case up_port u of Some p \<Rightarrow> '':'' @ p | None \<Rightarrow> []))"

lemma check_extra_headers_Inr:
  "check_extra_headers hs = Inr x \<Longrightarrow>
     \<forall>(k, v) \<in> set hs. \<not> header_name_is_auth_bearing k \<and> \<not> subscription_shaped v"
  by (induction hs rule: check_extra_headers.induct) (auto split: if_splits)

lemma parse_base_url_Inr:
  "parse_base_url N base = Inr (b, host) \<Longrightarrow>
     \<exists>u h. zdr_url_parse N (trim base) = Some u \<and> up_scheme u \<in> {''http'', ''https''}
       \<and> up_username u = [] \<and> up_password u = None \<and> up_host u = Some h
       \<and> b = trim_end_slashes (trim base) \<and> host = host_text h @ (case up_port u of Some p \<Rightarrow> '':'' @ p | None \<Rightarrow> [])"
  by (auto simp: parse_base_url_def Let_def split: option.splits if_splits)

lemma target_new_ok: "zdr_target_new N name base basis verified extra key = Inr t \<Longrightarrow> target_ok N t \<and> zt_name t = name"
  by (auto simp: zdr_target_new_def target_ok_def reject_subscription_shaped_def
      dest!: check_extra_headers_Inr parse_base_url_Inr split: sum.splits if_splits prod.splits) blast+

lemma resolve_one_ok:
  "resolve_one N env spec = Inr t \<Longrightarrow> target_ok N t \<and> zt_name t = sp_name spec"
  by (auto simp: resolve_one_def Let_def dest: target_new_ok split: sum.splits)

lemma zdr_target_cred_free:
  assumes "names_normalised N" "target_ok N t" "is_client_credential n"
  shows "extra_value N n (zt_headers t) = None"
proof (rule ccontr)
  assume "extra_value N n (zt_headers t) \<noteq> None"
  then obtain v k where k: "(k, v) \<in> set (zt_headers t)" "header_name_of N k = Some n"
    using extra_value_mem by fastforce
  then have "n = ascii_lower k" using assms(1) by (simp add: names_normalised_def)
  then have "header_name_is_auth_bearing k" using credential_auth_bearing [OF assms(3)] by simp
  with k(1) assms(2) show False by (auto simp: target_ok_def)
qed

lemma is_client_credential_cases:
  "is_client_credential n \<Longrightarrow> n \<noteq> ''accept-encoding'' \<and> n \<noteq> ''host''"
proof -
  have "\<not> is_client_credential ''accept-encoding''" "\<not> is_client_credential ''host''" by code_simp+
  then show "is_client_credential n \<Longrightarrow> n \<noteq> ''accept-encoding'' \<and> n \<noteq> ''host''" by auto
qed

definition sample_net :: net_api where
  "sample_net =
     \<lparr>zdr_url_parse = (\<lambda>_. Some \<lparr>up_scheme = ''http'', up_username = [], up_password = None,
        up_host = Some (UrlDomain ''box''), up_port = Some ''8080''\<rparr>),
      header_name_of = (\<lambda>s. Some (ascii_lower s)), header_value_ok = (\<lambda>_. True), header_value_str = Some\<rparr>"

text \<open>
  C9. The client's credentials never reach a zero-data-retention target. Of the headers built for a
  constructed target the only one with a credential name is \<open>x-api-key\<close>, with the target's own key;
  everything else is the rewritten host, the fixed encoding, the target's extra headers and the client's
  remaining headers, unchanged. On the default path the client's headers pass, credentials included.
\<close>

theorem zdr_egress_credentials:
  assumes "names_normalised N" "target_ok N t"
    and "zdr = wr_headers (wire_build N (for_mode base host (ZdrMode t)) incoming path body)"
    and "normal = wr_headers (wire_build N (for_mode base host NormalMode) incoming path body)"
  shows "(\<forall>n v. (n, v) \<in> set zdr \<and> is_client_credential n \<longrightarrow> n = ''x-api-key'' \<and> v = zt_key t)
    \<and> (\<forall>n. \<not> is_client_credential n \<longrightarrow>
          hd_values n zdr =
            (if n = ''accept-encoding'' then [''identity'']
             else if n = ''host'' \<and> header_value_ok N (zt_host t) then [zt_host t]
             else case extra_value N n (zt_headers t) of
                 Some v \<Rightarrow> [v]
               | None \<Rightarrow> if is_hop_by_hop n then [] else hd_values n incoming))
    \<and> (\<forall>n. is_client_credential n \<longrightarrow> hd_values n normal = (if is_hop_by_hop n then [] else hd_values n incoming))"
proof (intro conjI allI impI)
  have z: "zdr = upstream_request_headers_zdr N incoming (zt_host t) t"
    by (simp add: assms(3) wire_build_def for_mode_def)
  fix n
  show "hd_values n zdr =
            (if n = ''accept-encoding'' then [''identity'']
             else if n = ''host'' \<and> header_value_ok N (zt_host t) then [zt_host t]
             else case extra_value N n (zt_headers t) of
                 Some v \<Rightarrow> [v]
               | None \<Rightarrow> if is_hop_by_hop n then [] else hd_values n incoming)" if nc: "\<not> is_client_credential n"
  proof -
    have "is_client_credential ''x-api-key''" by code_simp
    then have "n \<noteq> ''x-api-key''" using nc by auto
    with nc show ?thesis by (simp add: z zdr_headers_form)
  qed
  show "hd_values n normal = (if is_hop_by_hop n then [] else hd_values n incoming)" if "is_client_credential n"
    using is_client_credential_cases [OF that]
    by (simp add: assms(4) wire_build_def for_mode_def normal_headers_form)
  fix v assume a: "(n, v) \<in> set zdr \<and> is_client_credential n"
  then have "v \<in> set (hd_values n zdr)" by (simp add: hd_values_mem)
  then show "n = ''x-api-key''" "v = zt_key t"
    using a is_client_credential_cases [of n] zdr_target_cred_free [OF assms(1,2), of n]
    by (auto simp: z zdr_headers_form split: if_splits)
qed

lemma zdr_egress_credentials_witness:
  "\<exists>t. zdr_target_new sample_net ''box'' ''http://box:8080/'' SelfHosted True [(''X-Beta'', ''on'')] ''k1'' = Inr t
     \<and> (\<forall>n v. (n, v) \<in> set (wr_headers (wire_build sample_net (for_mode ''https://api'' ''api'' (ZdrMode t))
            [(''authorization'', ''Bearer x''), (''x-api-key'', ''sk''), (''accept'', ''a'')] ''/v1/messages'' ''{}''))
          \<and> is_client_credential n \<longrightarrow> n = ''x-api-key'' \<and> v = zt_key t)"
proof -
  have "is_ok (zdr_target_new sample_net ''box'' ''http://box:8080/'' SelfHosted True [(''X-Beta'', ''on'')] ''k1'')"
    by code_simp
  then obtain t where t: "zdr_target_new sample_net ''box'' ''http://box:8080/'' SelfHosted True [(''X-Beta'', ''on'')] ''k1'' = Inr t"
    by auto
  moreover have "names_normalised sample_net" by (simp add: names_normalised_def sample_net_def)
  ultimately show ?thesis
    using zdr_egress_credentials [OF _ _ refl refl, of sample_net t "''https://api''" "''api''"
        "[(''authorization'', ''Bearer x''), (''x-api-key'', ''sk''), (''accept'', ''a'')]" "''/v1/messages''" "''{}''"]
      target_new_ok [OF t] by blast
qed

section \<open>The registry\<close>

definition registry_inv :: "net_api \<Rightarrow> (string \<Rightarrow> string option) \<Rightarrow> zdr_target_spec list \<Rightarrow> (string \<times> zdr_target) list \<Rightarrow> bool" where
  "registry_inv N env specs ts \<longleftrightarrow>
     distinct (map fst ts)
     \<and> (\<forall>(n, t) \<in> set ts. n = zt_name t \<and> target_ok N t
          \<and> (\<exists>spec \<in> set specs. sp_name spec = n \<and> resolve_one N env spec = Inr t))"

lemma resolve_specs_inv:
  "registry_inv N env all ts \<Longrightarrow> set specs \<subseteq> set all \<Longrightarrow>
     registry_inv N env all (fst (resolve_specs N env specs ts es))"
proof (induction specs arbitrary: ts es)
  case (Cons spec specs)
  show ?case
  proof (cases "map_of ts (sp_name spec) \<noteq> None")
    case False
    then have new: "sp_name spec \<notin> fst ` set ts" by (simp add: map_of_eq_None_iff)
    have "registry_inv N env all (ts @ [(zt_name t, t)])" if r: "resolve_one N env spec = Inr t" for t
      using Cons.prems new resolve_one_ok [OF r] r unfolding registry_inv_def by auto
    then show ?thesis using Cons False by (auto split: sum.split)
  qed (use Cons in simp)
qed simp

text \<open>Nothing is dropped without a word: the specs that are not registered are in the error list.\<close>

lemma resolve_specs_complete:
  "(\<forall>spec \<in> set specs. map_of (fst (resolve_specs N env specs ts es)) (sp_name spec) \<noteq> None
      \<or> (\<exists>e. TargetFailed (sp_name spec) e \<in> set (snd (resolve_specs N env specs ts es))))
   \<and> (\<forall>n. map_of ts n \<noteq> None \<longrightarrow> map_of (fst (resolve_specs N env specs ts es)) n \<noteq> None)
   \<and> set es \<subseteq> set (snd (resolve_specs N env specs ts es))
   \<and> (snd (resolve_specs N env specs ts es) = [] \<longrightarrow>
        map fst (fst (resolve_specs N env specs ts es)) = map fst ts @ map sp_name specs)"
proof (induction specs arbitrary: ts es)
  case (Cons spec specs)
  show ?case
  proof (cases "map_of ts (sp_name spec) \<noteq> None")
    case True
    with Cons.IH [of ts "es @ [DuplicateTarget (sp_name spec)]"] show ?thesis by auto
  next
    case False
    show ?thesis
    proof (cases "resolve_one N env spec")
      case (Inl e)
      with False Cons.IH [of ts "es @ [TargetFailed (sp_name spec) e]"] show ?thesis by auto
    next
      case (Inr t)
      with resolve_one_ok [OF Inr] False Cons.IH [of "ts @ [(zt_name t, t)]" es] show ?thesis
        by (auto simp: map_add_def split: option.splits)
    qed
  qed
qed simp

text \<open>
  What the registry holds. After resolution every registered target passed the checks of its
  constructor (a web URL without user information, a key that is no subscription token, no credential
  among the extra headers) and is the resolution of one of the specs under its name, names are unique, a
  default names a registered target, and a spec that is not registered, or a default that is not, is reported.
\<close>

theorem registry_sound:
  assumes "r = resolve_targets N env sec"
  shows "registry_inv N env (zs_target sec) (rz_targets r)
    \<and> (\<forall>d. rz_default r = Some d \<longrightarrow> zs_default sec = Some d \<and> map_of (rz_targets r) d \<noteq> None)
    \<and> (\<forall>spec \<in> set (zs_target sec). map_of (rz_targets r) (sp_name spec) \<noteq> None
         \<or> (\<exists>e. TargetFailed (sp_name spec) e \<in> set (rz_errors r)))
    \<and> (rz_errors r = [] \<longrightarrow> map fst (rz_targets r) = map sp_name (zs_target sec) \<and> rz_default r = zs_default sec)"
proof -
  obtain ts es where t: "resolve_specs N env (zs_target sec) [] [] = (ts, es)" by fastforce
  have i: "registry_inv N env (zs_target sec) ts"
    using resolve_specs_inv [of N env "zs_target sec" "[]" "zs_target sec" "[]"] t by (simp add: registry_inv_def)
  show ?thesis using i resolve_specs_complete [of "zs_target sec" N env "[]" "[]"] t assms
    by (auto simp: resolve_targets_def split: option.splits if_splits)
qed

lemma registry_sound_witness:
  "\<exists>r. r = resolve_targets sample_net (\<lambda>_. None)
        \<lparr>zs_default = Some ''box'', zs_target = [\<lparr>sp_name = ''box'', sp_base_url = ''http://box:8080'', sp_basis = None,
           sp_verified = True, sp_from_env = None, sp_headers = []\<rparr>]\<rparr>
     \<and> rz_errors r = [] \<and> rz_default r = Some ''box'' \<and> map fst (rz_targets r) = [''box'']"
proof -
  let ?sec = "\<lparr>zs_default = Some ''box'', zs_target = [\<lparr>sp_name = ''box'', sp_base_url = ''http://box:8080'', sp_basis = None,
           sp_verified = True, sp_from_env = None, sp_headers = []\<rparr>]\<rparr>"
  have "rz_errors (resolve_targets sample_net (\<lambda>_. None) ?sec) = []" by code_simp
  then show ?thesis using registry_sound [OF refl, of sample_net "\<lambda>_. None" ?sec] by simp
qed

section \<open>Errors\<close>

lemma find_scheme: "str_find ''://'' (''ftp:///'' @ s) = Some 3"
  by (simp add: starts_with_def)

text \<open>
  The redaction of a rejected URL looks for user information only between the scheme's \<open>//\<close> and the
  next slash. A URL with a third slash, which the URL standard reads as if it had two, keeps it: an
  \<open>ftp:///\<close> base is refused with an error that quotes the text as it was given.
\<close>

theorem scheme_error_unredacted:
  assumes "zdr_url_parse N (''ftp:///'' @ s) = Some u" "up_scheme u = ''ftp''" "trim (''ftp:///'' @ s) = ''ftp:///'' @ s"
  shows "parse_base_url N (''ftp:///'' @ s) = Inl (UrlScheme (''ftp:///'' @ s) ''ftp'')"
proof -
  have "str_find ''/'' (drop 6 (''ftp:///'' @ s)) = Some 0" by (simp add: starts_with_def)
  then have "redact_userinfo (''ftp:///'' @ s) = ''ftp:///'' @ s"
    unfolding redact_userinfo_def find_scheme by (simp add: slice_def)
  then show ?thesis using assms unfolding parse_base_url_def Let_def by simp
qed

lemma scheme_error_unredacted_witness:
  "parse_base_url (sample_net\<lparr>zdr_url_parse := (\<lambda>_. Some \<lparr>up_scheme = ''ftp'', up_username = ''u'', up_password = Some ''pw'',
        up_host = Some (UrlDomain ''h''), up_port = None\<rparr>)\<rparr>) (''ftp:///'' @ ''u:pw@h/'')
     = Inl (UrlScheme (''ftp:///'' @ ''u:pw@h/'') ''ftp'')"
proof -
  have "trim (''ftp:///'' @ ''u:pw@h/'') = ''ftp:///'' @ ''u:pw@h/''" by code_simp
  then show ?thesis
    by (intro scheme_error_unredacted [where u = "\<lparr>up_scheme = ''ftp'', up_username = ''u'', up_password = Some ''pw'',
        up_host = Some (UrlDomain ''h''), up_port = None\<rparr>"]) (simp, simp, simp)
qed

end
