(* ===== verification/Proxy_State.thy ===== *)
theory Proxy_State
  imports Zdr_Target Token_Mint "HOL-Library.List_Lexorder" "HOL-Library.Char_ord"
begin

text \<open>
  \<open>state.rs\<close> of \<open>sordino-proxy\<close>: the per-conversation switches of the proxy. The masking-off windows
  with their deadlines, the zero-data-retention selections with their file, the re-validation of that
  file at boot, and the authorization of the control plane.

  Clock readings are arguments, in nanoseconds. A file write is atomic (temporary file and rename), so
  its environment is one Boolean, whether it succeeded; the bytes \<open>serde\<close> prints and reads back are the
  entries themselves. The writers of the selections file hold \<open>SELECTIONS_WRITE_LOCK\<close> for their whole
  section, so at most one is under way; requests read the map at any time. That interleaving is the step
  relation \<open>zdr_step\<close>, over the pieces the sequential operations are composed of.
\<close>

section \<open>Masking-off windows\<close>

definition DEFAULT_MASKING_OFF_TTL :: nat where
  "DEFAULT_MASKING_OFF_TTL = 30 * 60 * 10 ^ 9"

definition MAX_MASKING_OFF_TTL :: nat where
  "MAX_MASKING_OFF_TTL = 24 * 60 * 60 * 10 ^ 9"

definition RECENTLY_REVERTED_CAP :: nat where
  "RECENTLY_REVERTED_CAP = 16"

datatype revert_reason = Expired

record off_deadline =
  enforce :: nat
  display :: nat
  reason_secs :: nat

record masking_disabled =
  md_entries :: "(string \<times> off_deadline) list"
  recently_reverted :: "(string \<times> nat \<times> revert_reason) list"

definition masking_disabled_new :: masking_disabled where
  "masking_disabled_new = \<lparr>md_entries = [], recently_reverted = []\<rparr>"

text \<open>\<open>Instant\<close> and \<open>SystemTime\<close> hold signed 64-bit seconds.\<close>

definition checked_add :: "nat \<Rightarrow> nat \<Rightarrow> nat option" where
  "checked_add t d = (if t + d < 2 ^ 63 * 10 ^ 9 then Some (t + d) else None)"

definition push_reverted :: "string \<times> nat \<times> revert_reason \<Rightarrow> masking_disabled \<Rightarrow> masking_disabled" where
  "push_reverted x md =
     (let r = recently_reverted md @ [x] in md\<lparr>recently_reverted := drop (length r - RECENTLY_REVERTED_CAP) r\<rparr>)"

definition evict_entry :: "string \<Rightarrow> off_deadline \<Rightarrow> masking_disabled \<Rightarrow> masking_disabled" where
  "evict_entry c d md =
     push_reverted (c, display d, Expired) (md\<lparr>md_entries := hm_remove c (md_entries md)\<rparr>)"

definition is_masking_disabled :: "nat \<Rightarrow> string \<Rightarrow> masking_disabled \<Rightarrow> bool \<times> masking_disabled" where
  "is_masking_disabled now c md =
     (case map_of (md_entries md) c of
        Some d \<Rightarrow> if enforce d \<le> now then (False, evict_entry c d md) else (True, md)
      | None \<Rightarrow> (False, md))"

definition off_ttl :: "nat option \<Rightarrow> nat" where
  "off_ttl ttl = min (case ttl of Some t \<Rightarrow> t | None \<Rightarrow> DEFAULT_MASKING_OFF_TTL) MAX_MASKING_OFF_TTL"

definition set_masking_disabled ::
  "nat \<Rightarrow> nat \<Rightarrow> string \<Rightarrow> nat option \<Rightarrow> masking_disabled \<Rightarrow> bool \<times> masking_disabled" where
  "set_masking_disabled now wall c ttl md =
     (let t = off_ttl ttl;
          d = \<lparr>enforce = (case checked_add now t of Some x \<Rightarrow> x | None \<Rightarrow> now),
               display = (case checked_add wall t of Some x \<Rightarrow> x | None \<Rightarrow> wall),
               reason_secs = t div 10 ^ 9\<rparr>
      in (map_of (md_entries md) c = None, md\<lparr>md_entries := hm_insert c d (md_entries md)\<rparr>))"

definition clear_masking_disabled :: "string \<Rightarrow> masking_disabled \<Rightarrow> bool \<times> masking_disabled" where
  "clear_masking_disabled c md =
     (map_of (md_entries md) c \<noteq> None, md\<lparr>md_entries := hm_remove c (md_entries md)\<rparr>)"

definition masking_disabled_active :: "masking_disabled \<Rightarrow> string list" where
  "masking_disabled_active md = sort (map fst (md_entries md))"

definition sweep_expired_masking_disabled :: "nat \<Rightarrow> masking_disabled \<Rightarrow> nat \<times> masking_disabled" where
  "sweep_expired_masking_disabled now md =
     (let expired = map fst (filter (\<lambda>(_, d). enforce d \<le> now) (md_entries md))
      in (length expired,
          fold (\<lambda>c md. case map_of (md_entries md) c of Some d \<Rightarrow> evict_entry c d md | None \<Rightarrow> md) expired md))"

section \<open>Selections and their file\<close>

definition MAX_PERSISTED_SELECTIONS :: nat where
  "MAX_PERSISTED_SELECTIONS = 1000"

record persisted_selection =
  ps_conversation :: string
  ps_target :: string

type_synonym zdr_sessions = "(string \<times> string) list"

datatype persist_error = WriteFailed | SelectionCap

datatype selections_file = NoFile | Selections "persisted_selection list" | Unreadable string

datatype persisted_load = LoadAbsent | Loaded "persisted_selection list" | LoadCorrupt string

definition snapshot_persisted :: "zdr_sessions \<Rightarrow> persisted_selection list" where
  "snapshot_persisted m =
     sort_key ps_conversation (map (\<lambda>(c, t). \<lparr>ps_conversation = c, ps_target = t\<rparr>) m)"

definition snapshot_persisted_excluding :: "zdr_sessions \<Rightarrow> string \<Rightarrow> persisted_selection list" where
  "snapshot_persisted_excluding m conv =
     sort_key ps_conversation
       (map (\<lambda>(c, t). \<lparr>ps_conversation = c, ps_target = t\<rparr>) (filter (\<lambda>(c, _). c \<noteq> conv) m))"

text \<open>The file after a write that did or did not succeed.\<close>

definition write_selections :: "bool \<Rightarrow> persisted_selection list \<Rightarrow> selections_file \<Rightarrow> selections_file" where
  "write_selections ok entries f = (if ok then Selections entries else f)"

definition zdr_selection :: "string \<Rightarrow> zdr_sessions \<Rightarrow> string option" where
  "zdr_selection c m = map_of m c"

text \<open>Engaging: the cap, the insertion with the snapshot, and the rollback of a failed write.\<close>

definition engage_capped :: "string \<Rightarrow> zdr_sessions \<Rightarrow> bool" where
  "engage_capped c m \<longleftrightarrow> map_of m c = None \<and> MAX_PERSISTED_SELECTIONS \<le> length m"

definition engage_rollback :: "string \<Rightarrow> string option \<Rightarrow> zdr_sessions \<Rightarrow> zdr_sessions" where
  "engage_rollback c prior m = (case prior of Some old \<Rightarrow> hm_insert c old m | None \<Rightarrow> hm_remove c m)"

definition set_zdr_selection ::
  "bool \<Rightarrow> string \<Rightarrow> string \<Rightarrow> zdr_sessions \<times> selections_file
   \<Rightarrow> (persist_error + unit) \<times> zdr_sessions \<times> selections_file" where
  "set_zdr_selection ok c target s =
     (let (m, f) = s in
      if engage_capped c m then (Inl SelectionCap, m, f)
      else let prior = map_of m c; m' = hm_insert c target m in
        if ok then (Inr (), m', write_selections True (snapshot_persisted m') f)
        else (Inl WriteFailed, engage_rollback c prior m', f))"

definition clear_zdr_selection ::
  "bool \<Rightarrow> string \<Rightarrow> zdr_sessions \<times> selections_file \<Rightarrow> (persist_error + bool) \<times> zdr_sessions \<times> selections_file" where
  "clear_zdr_selection ok c s =
     (let (m, f) = s; entries = snapshot_persisted_excluding m c; was_present = (map_of m c \<noteq> None) in
      if ok then (Inr was_present, hm_remove c m, write_selections True entries f)
      else (Inl WriteFailed, m, f))"

text \<open>What the one writer is doing between the two critical sections on the map.\<close>

datatype zdr_writer =
    WriterIdle
  | Engaging string "string option" "persisted_selection list"
  | RollingBack string "string option"
  | Disengaging string "persisted_selection list"
  | Removing string

record zdr_world =
  zw_map :: zdr_sessions
  zw_file :: selections_file
  zw_writer :: zdr_writer

inductive zdr_step :: "zdr_world \<Rightarrow> zdr_world \<Rightarrow> bool" where
  engage_refused:
    "zw_writer w = WriterIdle \<Longrightarrow> engage_capped c (zw_map w) \<Longrightarrow> zdr_step w w"
| engage_insert:
    "zw_writer w = WriterIdle \<Longrightarrow> \<not> engage_capped c (zw_map w) \<Longrightarrow> m' = hm_insert c target (zw_map w)
     \<Longrightarrow> zdr_step w (w\<lparr>zw_map := m', zw_writer := Engaging c (map_of (zw_map w) c) (snapshot_persisted m')\<rparr>)"
| engage_write:
    "zw_writer w = Engaging c prior entries
     \<Longrightarrow> zdr_step w (w\<lparr>zw_file := write_selections True entries (zw_file w), zw_writer := WriterIdle\<rparr>)"
| engage_write_fails:
    "zw_writer w = Engaging c prior entries \<Longrightarrow> zdr_step w (w\<lparr>zw_writer := RollingBack c prior\<rparr>)"
| engage_undo:
    "zw_writer w = RollingBack c prior
     \<Longrightarrow> zdr_step w (w\<lparr>zw_map := engage_rollback c prior (zw_map w), zw_writer := WriterIdle\<rparr>)"
| disengage_snapshot:
    "zw_writer w = WriterIdle
     \<Longrightarrow> zdr_step w (w\<lparr>zw_writer := Disengaging c (snapshot_persisted_excluding (zw_map w) c)\<rparr>)"
| disengage_write:
    "zw_writer w = Disengaging c entries
     \<Longrightarrow> zdr_step w (w\<lparr>zw_file := write_selections True entries (zw_file w), zw_writer := Removing c\<rparr>)"
| disengage_write_fails:
    "zw_writer w = Disengaging c entries \<Longrightarrow> zdr_step w (w\<lparr>zw_writer := WriterIdle\<rparr>)"
| disengage_remove:
    "zw_writer w = Removing c
     \<Longrightarrow> zdr_step w (w\<lparr>zw_map := hm_remove c (zw_map w), zw_writer := WriterIdle\<rparr>)"

section \<open>Boot\<close>

definition load_persisted_selections :: "string option \<Rightarrow> selections_file \<Rightarrow> persisted_load" where
  "load_persisted_selections path_error f =
     (case path_error of
        Some e \<Rightarrow> LoadCorrupt e
      | None \<Rightarrow> (case f of NoFile \<Rightarrow> LoadAbsent | Selections es \<Rightarrow> Loaded es | Unreadable e \<Rightarrow> LoadCorrupt e))"

text \<open>The first-seen order of the conversations and the last target of each.\<close>

fun dedupe_scan :: "persisted_selection list \<Rightarrow> (string \<times> string) list \<Rightarrow> string list \<Rightarrow> (string \<times> string) list \<times> string list" where
  "dedupe_scan [] winner order = (winner, order)"
| "dedupe_scan (e # es) winner order =
     dedupe_scan es (hm_insert (ps_conversation e) (ps_target e) winner)
       (if map_of winner (ps_conversation e) = None then order @ [ps_conversation e] else order)"

definition dedupe_persisted_last_wins :: "persisted_selection list \<Rightarrow> persisted_selection list" where
  "dedupe_persisted_last_wins es =
     (let (winner, order) = dedupe_scan es [] [] in
      map (\<lambda>c. \<lparr>ps_conversation = c, ps_target = (case map_of winner c of Some t \<Rightarrow> t | None \<Rightarrow> [])\<rparr>) order)"

datatype revert_cause = NotVerified | NotConfigured | StateCorrupt string

datatype reload_outcome = Restored string string | Reverted string revert_cause

definition SANITIZE_COMPONENT_MAX :: nat where
  "SANITIZE_COMPONENT_MAX = 200"

definition sanitize_char :: "string \<Rightarrow> char" where
  "sanitize_char ch =
     (case ch of [b] \<Rightarrow> if is_alnum b \<or> b \<in> {CHR ''.'', CHR ''_'', CHR ''-''} then b else CHR ''_'' | _ \<Rightarrow> CHR ''_'')"

definition sanitize_component :: "prims \<Rightarrow> string \<Rightarrow> string" where
  "sanitize_component P s =
     (let out = map sanitize_char (utf8_chars s);
          out = (if out = [] \<or> list_all (\<lambda>c. c = CHR ''.'') out then CHR ''_'' # out else out)
      in if SANITIZE_COMPONENT_MAX < length out
         then take (SANITIZE_COMPONENT_MAX - 16 - 1) out @ ''-'' @ take 16 (to_hex (blake3 P out))
         else out)"

definition report_name :: "prims \<Rightarrow> string \<Rightarrow> string" where
  "report_name P conv = sanitize_component P conv @ ''.json''"

definition report_prunable :: "string \<Rightarrow> bool" where
  "report_prunable name \<longleftrightarrow>
     \<not> ends_with ''.json'' name \<and> (ends_with ''.global-seen'' name \<or> contains ''.json.corrupt-'' name)"

record zdr_disk =
  dk_file :: selections_file
  dk_reports :: "(string \<times> reload_outcome) list"
  dk_global :: "(nat \<times> string) option"
  dk_quarantined :: "selections_file list"

definition validate_selection :: "(string \<times> zdr_target) list \<Rightarrow> persisted_selection \<Rightarrow> reload_outcome" where
  "validate_selection targets e =
     (case map_of targets (ps_target e) of
        Some t \<Rightarrow> if zt_verified t then Restored (ps_conversation e) (ps_target e)
                  else Reverted (ps_conversation e) NotVerified
      | None \<Rightarrow> Reverted (ps_conversation e) NotConfigured)"

text \<open>The restore loop; \<open>oks\<close> is the outcome of the report write of each entry.\<close>

fun reload_loop ::
  "prims \<Rightarrow> (string \<times> zdr_target) list \<Rightarrow> (persisted_selection \<times> bool) list
   \<Rightarrow> zdr_sessions \<Rightarrow> persisted_selection list \<Rightarrow> (string \<times> reload_outcome) list \<Rightarrow> reload_outcome list
   \<Rightarrow> zdr_sessions \<times> persisted_selection list \<times> (string \<times> reload_outcome) list \<times> reload_outcome list" where
  "reload_loop P targets [] m survivors reports outcomes = (m, survivors, reports, outcomes)"
| "reload_loop P targets ((e, ok) # es) m survivors reports outcomes =
     (let outcome = validate_selection targets e;
          restored = (case outcome of Restored _ _ \<Rightarrow> True | Reverted _ _ \<Rightarrow> False);
          m = (if restored then hm_insert (ps_conversation e) (ps_target e) m else m);
          survivors = (if restored \<or> \<not> ok then survivors @ [e] else survivors);
          reports = (if ok then hm_insert (report_name P (ps_conversation e)) outcome reports else reports)
      in reload_loop P targets es m survivors reports (outcomes @ [outcome]))"

record boot_io =
  io_now_nanos :: nat
  io_global_ok :: bool
  io_quarantine_ok :: bool
  io_report_ok :: "nat \<Rightarrow> bool"
  io_rewrite_ok :: bool
  io_clear_ok :: bool

definition reload_zdr_sessions ::
  "prims \<Rightarrow> boot_io \<Rightarrow> (string \<times> zdr_target) list \<Rightarrow> persisted_load \<Rightarrow> zdr_sessions \<times> zdr_disk
   \<Rightarrow> (unit + reload_outcome list) \<times> zdr_sessions \<times> zdr_disk" where
  "reload_zdr_sessions P io targets load s =
     (let (m, dk) = s;
          cleared = (if io_clear_ok io then dk\<lparr>dk_global := None\<rparr> else dk)
      in case load of
           LoadAbsent \<Rightarrow> (Inr [], m, cleared)
         | LoadCorrupt why \<Rightarrow>
             (if \<not> io_global_ok io then (Inl (), m, dk)
              else let dk = dk\<lparr>dk_global := Some (io_now_nanos io, why)\<rparr>;
                       dk = (if io_quarantine_ok io
                             then dk\<lparr>dk_file := NoFile, dk_quarantined := dk_quarantined dk @ [dk_file dk]\<rparr> else dk)
                   in (Inr [Reverted ''*'' (StateCorrupt why)], m, dk))
         | Loaded entries \<Rightarrow>
             (let es = dedupe_persisted_last_wins entries;
                  (m, survivors, reports, outcomes) =
                    reload_loop P targets (zip es (map (io_report_ok io) [0..<length es])) m [] (dk_reports cleared) []
              in (Inr outcomes, m,
                  cleared\<lparr>dk_reports := reports,
                    dk_file := write_selections (io_rewrite_ok io) survivors (dk_file cleared)\<rparr>)))"

section \<open>Authorization\<close>

record app_identity =
  ai_admin_key :: string
  ai_project_root :: string

definition project_key :: "prims \<Rightarrow> string \<Rightarrow> string" where
  "project_key P root = to_hex (blake3 P root)"

definition header_str :: "net_api \<Rightarrow> string \<Rightarrow> header_map \<Rightarrow> string option" where
  "header_str N n h = (case hd_get n h of Some v \<Rightarrow> header_value_str N v | None \<Rightarrow> None)"

definition authed :: "net_api \<Rightarrow> app_identity \<Rightarrow> header_map \<Rightarrow> bool" where
  "authed N a h =
     (let provided = (case header_str N ''x-sordino-key'' h of Some v \<Rightarrow> v | None \<Rightarrow> [])
      in provided \<noteq> [] \<and> provided = ai_admin_key a)"

definition project_header_matches :: "prims \<Rightarrow> app_identity \<Rightarrow> string option \<Rightarrow> bool" where
  "project_header_matches P a provided = (provided = Some (project_key P (ai_project_root a)))"

definition authed_for_project :: "prims \<Rightarrow> net_api \<Rightarrow> app_identity \<Rightarrow> header_map \<Rightarrow> bool" where
  "authed_for_project P N a h \<longleftrightarrow>
     authed N a h \<and> project_header_matches P a (header_str N ''x-sordino-project'' h)"

text \<open>\<open>str::trim_start_matches\<close> of a text: every leading copy goes.\<close>

function strip_prefixes :: "string \<Rightarrow> string \<Rightarrow> string" where
  "strip_prefixes p s = (if p \<noteq> [] \<and> starts_with p s then strip_prefixes p (drop (length p) s) else s)"
  by pat_completeness auto
termination
  by (relation "measure (length \<circ> snd)") (auto simp: starts_with_iff)

declare strip_prefixes.simps [simp del]

definition upstream_host :: "string \<Rightarrow> string" where
  "upstream_host base =
     takeWhile (\<lambda>c. c \<noteq> CHR ''/'') (strip_prefixes ''http://'' (strip_prefixes ''https://'' base))"

end
