(* ===== verification/Proxy_State_Laws.thy ===== *)
theory Proxy_State_Laws
  imports Proxy_State "HOL-Library.Multiset"
begin

text \<open>
  What the switches of the proxy promise: a masking-off window ends by itself; a conversation that is
  durably pinned is pinned for every concurrent request; a selection that cannot be restored at boot is
  reported or kept; a report file name is one safe path component.
\<close>

section \<open>Masking-off windows\<close>

datatype masking_op = AskOff string | TurnOff nat string "nat option" | TurnOn string | SweepOff

fun masking_step :: "nat \<times> masking_op \<Rightarrow> masking_disabled \<Rightarrow> masking_disabled" where
  "masking_step (now, AskOff c) md = snd (is_masking_disabled now c md)"
| "masking_step (now, TurnOff wall c ttl) md = snd (set_masking_disabled now wall c ttl md)"
| "masking_step (now, TurnOn c) md = snd (clear_masking_disabled c md)"
| "masking_step (now, SweepOff) md = snd (sweep_expired_masking_disabled now md)"

definition masking_run :: "(nat \<times> masking_op) list \<Rightarrow> masking_disabled \<Rightarrow> masking_disabled" where
  "masking_run hist md = fold masking_step hist md"

text \<open>The deadline a history leaves a conversation with, whatever was evicted meanwhile.\<close>

definition off_deadline_of :: "nat \<Rightarrow> nat option \<Rightarrow> nat" where
  "off_deadline_of t ttl = (case checked_add t (off_ttl ttl) of Some x \<Rightarrow> x | None \<Rightarrow> t)"

fun off_until :: "string \<Rightarrow> (nat \<times> masking_op) list \<Rightarrow> nat option \<Rightarrow> nat option" where
  "off_until c [] d = d"
| "off_until c ((t, TurnOff wall c' ttl) # h) d =
     off_until c h (if c' = c then Some (off_deadline_of t ttl) else d)"
| "off_until c ((t, TurnOn c') # h) d = off_until c h (if c' = c then None else d)"
| "off_until c ((t, _) # h) d = off_until c h d"

lemma evict_entries [simp]: "md_entries (evict_entry c d md) = hm_remove c (md_entries md)"
  by (simp add: evict_entry_def push_reverted_def Let_def)

text \<open>How the entries at time \<open>now\<close> stand for the deadline: an entry is the deadline, a missing entry
  means there is none or it has passed.\<close>

definition window_rel :: "nat \<Rightarrow> nat option \<Rightarrow> off_deadline option \<Rightarrow> bool" where
  "window_rel now d e \<longleftrightarrow>
     (case e of Some x \<Rightarrow> d = Some (enforce x) | None \<Rightarrow> (case d of Some y \<Rightarrow> y \<le> now | None \<Rightarrow> True))"

lemma window_rel_mono: "window_rel now d e \<Longrightarrow> now \<le> now' \<Longrightarrow> window_rel now' d e"
  by (auto simp: window_rel_def split: option.splits)

lemma sweep_entries:
  assumes "keys_distinct (md_entries md)"
  shows "map_of (md_entries (snd (sweep_expired_masking_disabled now md))) c =
     (case map_of (md_entries md) c of Some d \<Rightarrow> if enforce d \<le> now then None else Some d | None \<Rightarrow> None)
   \<and> keys_distinct (md_entries (snd (sweep_expired_masking_disabled now md)))"
proof -
  let ?go = "fold (\<lambda>c md. case map_of (md_entries md) c of Some d \<Rightarrow> evict_entry c d md | None \<Rightarrow> md)"
  have f: "map_of (md_entries (?go xs m)) c = (if c \<in> set xs then None else map_of (md_entries m) c)
      \<and> (keys_distinct (md_entries m) \<longrightarrow> keys_distinct (md_entries (?go xs m)))" for xs m
    by (induction xs arbitrary: m) (auto split: option.split)
  have "c \<in> set (map fst (filter (\<lambda>(_, d). enforce d \<le> now) (md_entries md)))
      \<longleftrightarrow> (\<exists>d. map_of (md_entries md) c = Some d \<and> enforce d \<le> now)"
    using assms by (force simp: keys_distinct_def)
  then show ?thesis
    using f [of "map fst (filter (\<lambda>(_, d). enforce d \<le> now) (md_entries md))" md] assms
    by (simp add: sweep_expired_masking_disabled_def Let_def split: option.split)
qed

lemma masking_step_rel:
  assumes "keys_distinct (md_entries md)" "window_rel now d (map_of (md_entries md) c)"
  shows "keys_distinct (md_entries (masking_step (now, x) md))
    \<and> window_rel now (off_until c [(now, x)] d) (map_of (md_entries (masking_step (now, x) md)) c)"
proof (cases x)
  case (AskOff c')
  with assms show ?thesis
    by (auto simp: is_masking_disabled_def window_rel_def split: option.splits)
next
  case (TurnOff wall c' ttl)
  with assms show ?thesis
    by (auto simp: set_masking_disabled_def Let_def window_rel_def off_deadline_of_def split: option.splits)
next
  case (TurnOn c')
  with assms show ?thesis by (auto simp: clear_masking_disabled_def window_rel_def)
next
  case SweepOff
  with assms sweep_entries [OF assms(1), of now c] show ?thesis
    by (auto simp: window_rel_def split: option.splits if_splits)
qed

lemma off_until_append: "off_until c (h @ h') d = off_until c h' (off_until c h d)"
  by (induction c h d rule: off_until.induct) auto

lemma masking_run_rel:
  "sorted (map fst hist) \<Longrightarrow> \<forall>t \<in> set (map fst hist). start \<le> t \<and> t \<le> now \<Longrightarrow> start \<le> now
    \<Longrightarrow> keys_distinct (md_entries md) \<Longrightarrow> window_rel start d (map_of (md_entries md) c)
    \<Longrightarrow> window_rel now (off_until c hist d) (map_of (md_entries (masking_run hist md)) c)"
proof (induction hist arbitrary: md d start)
  case Nil
  then show ?case by (simp add: masking_run_def window_rel_mono)
next
  case (Cons x hist)
  obtain t y where x: "x = (t, y)" by fastforce
  have "window_rel t d (map_of (md_entries md) c)" using Cons.prems x by (auto intro: window_rel_mono)
  from masking_step_rel [OF Cons.prems(4) this, of y]
  have "window_rel now (off_until c hist (off_until c [(t, y)] d)) (map_of (md_entries (masking_run hist (masking_step (t, y) md))) c)"
    using Cons.prems x by (intro Cons.IH [of t]) auto
  then show ?case using off_until_append [of c "[(t, y)]" hist d] x by (simp add: masking_run_def)
qed

lemma off_until_bound:
  "off_until c hist d = Some x \<Longrightarrow> d \<noteq> Some x \<Longrightarrow>
     \<exists>t wall ttl. (t, TurnOff wall c ttl) \<in> set hist \<and> x \<le> t + off_ttl ttl"
proof (induction c hist d rule: off_until.induct)
  case (2 c t wall c' ttl h d)
  then show ?case
    by (fastforce simp: off_deadline_of_def checked_add_def split: if_splits)
qed (fastforce split: if_splits)+

lemma evict_ring: "length (recently_reverted (evict_entry c d md)) \<le> RECENTLY_REVERTED_CAP"
  by (simp add: evict_entry_def push_reverted_def Let_def)

lemma masking_step_ring:
  assumes "length (recently_reverted md) \<le> RECENTLY_REVERTED_CAP"
  shows "length (recently_reverted (masking_step x md)) \<le> RECENTLY_REVERTED_CAP"
proof -
  have f: "length (recently_reverted m) \<le> RECENTLY_REVERTED_CAP \<Longrightarrow>
     length (recently_reverted (fold (\<lambda>c md. case map_of (md_entries md) c of Some d \<Rightarrow> evict_entry c d md | None \<Rightarrow> md) xs m))
       \<le> RECENTLY_REVERTED_CAP" for xs m
    by (induction xs arbitrary: m) (auto simp: evict_ring split: option.split)
  show ?thesis using assms f
    by (cases x; cases "snd x")
      (auto simp: is_masking_disabled_def set_masking_disabled_def clear_masking_disabled_def
        sweep_expired_masking_disabled_def Let_def evict_ring split: option.split)
qed

lemma masking_run_ring:
  "length (recently_reverted md) \<le> RECENTLY_REVERTED_CAP \<Longrightarrow>
     length (recently_reverted (masking_run hist md)) \<le> RECENTLY_REVERTED_CAP"
  unfolding masking_run_def by (induction hist arbitrary: md) (simp_all add: masking_step_ring)

text \<open>
  Turning masking off is bounded. After any history of queries, switches and sweeps on a monotonic
  clock, a conversation counts as off exactly while the deadline of its last switch-off has not passed;
  in particular there is a switch-off less than its clamped duration, at most 24 hours, ago. The ring of
  expired windows never exceeds its cap.
\<close>

theorem masking_window_exact:
  assumes "sorted (map fst hist)" "\<forall>t \<in> set (map fst hist). t \<le> now"
  shows "fst (is_masking_disabled now c (masking_run hist masking_disabled_new))
      = (case off_until c hist None of Some d \<Rightarrow> now < d | None \<Rightarrow> False)
    \<and> (fst (is_masking_disabled now c (masking_run hist masking_disabled_new)) \<longrightarrow>
         (\<exists>t wall ttl. (t, TurnOff wall c ttl) \<in> set hist \<and> now < t + off_ttl ttl
            \<and> off_ttl ttl \<le> MAX_MASKING_OFF_TTL))
    \<and> length (recently_reverted (masking_run hist masking_disabled_new)) \<le> RECENTLY_REVERTED_CAP"
proof -
  let ?md = "masking_run hist masking_disabled_new"
  have r: "window_rel now (off_until c hist None) (map_of (md_entries ?md) c)"
    using masking_run_rel [of hist 0 now masking_disabled_new None c] assms
    by (simp add: masking_disabled_new_def window_rel_def)
  have e: "fst (is_masking_disabled now c ?md) = (case off_until c hist None of Some d \<Rightarrow> now < d | None \<Rightarrow> False)"
    using r by (auto simp: is_masking_disabled_def window_rel_def split: option.splits)
  moreover have "\<exists>t wall ttl. (t, TurnOff wall c ttl) \<in> set hist \<and> now < t + off_ttl ttl \<and> off_ttl ttl \<le> MAX_MASKING_OFF_TTL"
    if "fst (is_masking_disabled now c ?md)"
  proof -
    from that e obtain d where d: "off_until c hist None = Some d" "now < d" by (auto split: option.splits)
    from off_until_bound [OF d(1)] obtain t wall ttl where "(t, TurnOff wall c ttl) \<in> set hist" "d \<le> t + off_ttl ttl" by auto
    moreover from this d(2) have "now < t + off_ttl ttl" by linarith
    ultimately show ?thesis by (auto simp: off_ttl_def)
  qed
  ultimately show ?thesis using masking_run_ring [of masking_disabled_new hist] by (simp add: masking_disabled_new_def)
qed

lemma masking_window_exact_witness:
  "fst (is_masking_disabled 9 ''c1'' (masking_run [(5, TurnOff 0 ''c1'' (Some 7)), (6, SweepOff)] masking_disabled_new))
   \<and> \<not> fst (is_masking_disabled 12 ''c1'' (masking_run [(5, TurnOff 0 ''c1'' (Some 7)), (6, SweepOff)] masking_disabled_new))"
  using masking_window_exact [of "[(5, TurnOff 0 ''c1'' (Some 7)), (6, SweepOff)]" 9 "''c1''"]
    masking_window_exact [of "[(5, TurnOff 0 ''c1'' (Some 7)), (6, SweepOff)]" 12 "''c1''"]
  by (simp add: off_deadline_of_def checked_add_def off_ttl_def MAX_MASKING_OFF_TTL_def)

section \<open>Selections: map and file\<close>

definition selections_map :: "persisted_selection list \<Rightarrow> string \<Rightarrow> string option" where
  "selections_map es = map_of (map (\<lambda>e. (ps_conversation e, ps_target e)) es)"

definition durable :: "selections_file \<Rightarrow> string \<Rightarrow> string option" where
  "durable f = (case f of Selections es \<Rightarrow> selections_map es | _ \<Rightarrow> (\<lambda>_. None))"

lemma durable_write [simp]: "durable (write_selections True es f) = selections_map es"
  by (simp add: write_selections_def durable_def)

lemma map_of_mset:
  assumes "mset xs = mset ys" "distinct (map fst ys)"
  shows "map_of xs = map_of ys"
proof -
  have "mset (map fst xs) = mset (map fst ys)" unfolding mset_map assms(1) ..
  then have "distinct (map fst xs)" using assms(2) mset_eq_imp_distinct_iff by blast
  then show ?thesis using map_of_inject_set assms mset_eq_setD by blast
qed

lemma selections_map_sorted:
  assumes "keys_distinct m"
  shows "selections_map (sort_key ps_conversation (map (\<lambda>(c, t). \<lparr>ps_conversation = c, ps_target = t\<rparr>) m)) = map_of m"
proof -
  let ?p = "\<lambda>e. (ps_conversation e, ps_target e)"
  let ?es = "map (\<lambda>(c, t). \<lparr>ps_conversation = c, ps_target = t\<rparr>) m"
  have id: "map ?p ?es = m" by (induction m) auto
  have "mset (map ?p (sort_key ps_conversation ?es)) = mset (map ?p ?es)" by (simp only: mset_map mset_sort)
  then have "mset (map ?p (sort_key ps_conversation ?es)) = mset m" unfolding id .
  then show ?thesis unfolding selections_map_def
    by (rule map_of_mset) (use assms in \<open>simp add: keys_distinct_def\<close>)
qed

lemma snapshot_map: "keys_distinct m \<Longrightarrow> selections_map (snapshot_persisted m) = map_of m"
  unfolding snapshot_persisted_def by (rule selections_map_sorted)

lemma snapshot_excluding_map:
  assumes "keys_distinct m"
  shows "selections_map (snapshot_persisted_excluding m c) = (map_of m)(c := None)"
proof -
  have "map_of (hm_remove c m) = (map_of m)(c := None)" by (rule ext) simp
  then show ?thesis
    using selections_map_sorted [of "hm_remove c m"] assms
    unfolding snapshot_persisted_excluding_def hm_remove_def by (simp add: keys_distinct_def distinct_map_filter)
qed

text \<open>The invariant, by what the writer is doing.\<close>

fun writer_inv :: "(string \<Rightarrow> string option) \<Rightarrow> (string \<Rightarrow> string option) \<Rightarrow> zdr_writer \<Rightarrow> bool" where
  "writer_inv live dur WriterIdle \<longleftrightarrow> dur = live"
| "writer_inv live dur (Engaging c prior es) \<longleftrightarrow>
     live c \<noteq> None \<and> dur = live(c := prior) \<and> selections_map es = live"
| "writer_inv live dur (RollingBack c prior) \<longleftrightarrow> live c \<noteq> None \<and> dur = live(c := prior)"
| "writer_inv live dur (Disengaging c es) \<longleftrightarrow> dur = live \<and> selections_map es = live(c := None)"
| "writer_inv live dur (Removing c) \<longleftrightarrow> dur = live(c := None)"

definition world_inv :: "zdr_world \<Rightarrow> bool" where
  "world_inv w \<longleftrightarrow>
     keys_distinct (zw_map w) \<and> length (zw_map w) \<le> MAX_PERSISTED_SELECTIONS
     \<and> writer_inv (map_of (zw_map w)) (durable (zw_file w)) (zw_writer w)"

lemma hm_remove_count: "keys_distinct m \<Longrightarrow> length (hm_remove c m) + (if map_of m c = None then 0 else 1) = length m"
proof (induction m)
  case (Cons x m)
  obtain a b where x: "x = (a, b)" by fastforce
  have "a = c \<Longrightarrow> map_of m c = None" using Cons.prems x by (simp add: keys_distinct_def map_of_eq_None_iff)
  with Cons x show ?case by (auto simp: hm_remove_def keys_distinct_def split: if_splits)
qed (simp add: hm_remove_def)

lemma hm_insert_length: "keys_distinct m \<Longrightarrow> length (hm_insert c t m) = length m + (if map_of m c = None then 1 else 0)"
  using hm_remove_count [of m c] by (simp add: hm_insert_def split: if_splits)

lemma hm_remove_length: "length (hm_remove c m) \<le> length m"
  by (simp add: hm_remove_def)

lemma engage_rollback_map:
  "map_of (engage_rollback c prior m) = (map_of m)(c := prior)"
  by (rule ext) (auto simp: engage_rollback_def split: option.split)

lemma zdr_step_inv: "zdr_step w w' \<Longrightarrow> world_inv w \<Longrightarrow> world_inv w'"
proof (induction rule: zdr_step.induct)
  case (engage_insert w c m' target)
  have m: "map_of m' = (map_of (zw_map w))(c \<mapsto> target)" using engage_insert(3) by (intro ext) simp
  have d: "keys_distinct m'" "length m' \<le> MAX_PERSISTED_SELECTIONS"
    using engage_insert by (auto simp: world_inv_def hm_insert_length engage_capped_def split: if_splits)
  show ?case using engage_insert(1,4) d snapshot_map [OF d(1)]
    by (simp add: world_inv_def m fun_eq_iff)
next
  case (engage_undo w c prior)
  have "keys_distinct (engage_rollback c prior (zw_map w))"
    using engage_undo(2) by (auto simp: world_inv_def engage_rollback_def split: option.split)
  moreover have "length (engage_rollback c prior (zw_map w)) \<le> MAX_PERSISTED_SELECTIONS"
    using engage_undo hm_remove_length [of c "zw_map w"]
    by (auto simp: world_inv_def engage_rollback_def hm_insert_length split: option.split)
  ultimately show ?case using engage_undo by (auto simp: world_inv_def engage_rollback_map)
next
  case (disengage_remove w c)
  have "map_of (hm_remove c (zw_map w)) = (map_of (zw_map w))(c := None)" by (rule ext) simp
  then show ?case using disengage_remove hm_remove_length [of c "zw_map w"]
    by (auto simp: world_inv_def)
qed (auto simp: world_inv_def snapshot_excluding_map)

lemma zdr_steps_inv: "zdr_step\<^sup>*\<^sup>* w w' \<Longrightarrow> world_inv w \<Longrightarrow> world_inv w'"
  by (induction rule: rtranclp_induct) (auto intro: zdr_step_inv)

lemma world_inv_pins:
  assumes "world_inv w"
  shows "durable (zw_file w) c \<noteq> None \<Longrightarrow> map_of (zw_map w) c \<noteq> None"
  using assms by (cases "zw_writer w") (auto simp: world_inv_def split: if_splits)

text \<open>The sequential operations are runs of the step relation.\<close>

lemma set_zdr_selection_run:
  assumes "set_zdr_selection ok c t (m, f) = (r, m', f')"
  shows "zdr_step\<^sup>*\<^sup>* \<lparr>zw_map = m, zw_file = f, zw_writer = WriterIdle\<rparr> \<lparr>zw_map = m', zw_file = f', zw_writer = WriterIdle\<rparr>"
proof (cases "engage_capped c m")
  case True
  with assms show ?thesis by (simp add: set_zdr_selection_def)
next
  case False
  let ?w = "\<lparr>zw_map = m, zw_file = f, zw_writer = WriterIdle\<rparr>"
  let ?e = "\<lparr>zw_map = hm_insert c t m, zw_file = f, zw_writer = Engaging c (map_of m c) (snapshot_persisted (hm_insert c t m))\<rparr>"
  have 1: "zdr_step ?w ?e" using engage_insert [of ?w c _ t] False by simp
  show ?thesis
  proof (cases ok)
    case True
    have "zdr_step ?e \<lparr>zw_map = m', zw_file = f', zw_writer = WriterIdle\<rparr>"
      using engage_write [of ?e] True False assms by (auto simp: set_zdr_selection_def Let_def)
    with 1 show ?thesis by (meson converse_rtranclp_into_rtranclp r_into_rtranclp)
  next
    case no: False
    let ?r = "\<lparr>zw_map = hm_insert c t m, zw_file = f, zw_writer = RollingBack c (map_of m c)\<rparr>"
    have "zdr_step ?e ?r" using engage_write_fails [of ?e] by simp
    moreover have "zdr_step ?r \<lparr>zw_map = m', zw_file = f', zw_writer = WriterIdle\<rparr>"
      using engage_undo [of ?r] no False assms by (auto simp: set_zdr_selection_def Let_def)
    ultimately show ?thesis using 1 by (meson converse_rtranclp_into_rtranclp r_into_rtranclp)
  qed
qed

lemma clear_zdr_selection_run:
  assumes "clear_zdr_selection ok c (m, f) = (r, m', f')"
  shows "zdr_step\<^sup>*\<^sup>* \<lparr>zw_map = m, zw_file = f, zw_writer = WriterIdle\<rparr> \<lparr>zw_map = m', zw_file = f', zw_writer = WriterIdle\<rparr>"
proof -
  let ?w = "\<lparr>zw_map = m, zw_file = f, zw_writer = WriterIdle\<rparr>"
  let ?d = "\<lparr>zw_map = m, zw_file = f, zw_writer = Disengaging c (snapshot_persisted_excluding m c)\<rparr>"
  have 1: "zdr_step ?w ?d" using disengage_snapshot [of ?w c] by simp
  show ?thesis
  proof (cases ok)
    case True
    let ?r = "\<lparr>zw_map = m, zw_file = f', zw_writer = Removing c\<rparr>"
    have "zdr_step ?d ?r"
      using disengage_write [of ?d] True assms by (auto simp: clear_zdr_selection_def Let_def)
    moreover have "zdr_step ?r \<lparr>zw_map = m', zw_file = f', zw_writer = WriterIdle\<rparr>"
      using disengage_remove [of ?r] True assms by (auto simp: clear_zdr_selection_def Let_def)
    ultimately show ?thesis using 1 by (meson converse_rtranclp_into_rtranclp r_into_rtranclp)
  next
    case False
    have "zdr_step ?d \<lparr>zw_map = m', zw_file = f', zw_writer = WriterIdle\<rparr>"
      using disengage_write_fails [of ?d] False assms by (auto simp: clear_zdr_selection_def Let_def)
    with 1 show ?thesis by (meson converse_rtranclp_into_rtranclp r_into_rtranclp)
  qed
qed



section \<open>Boot\<close>

lemma dedupe_scan_spec:
  assumes "set order = dom (map_of winner)" "distinct order"
  shows "map_of (fst (dedupe_scan es winner order)) = map_of (rev (map (\<lambda>e. (ps_conversation e, ps_target e)) es) @ winner)
    \<and> set (snd (dedupe_scan es winner order)) = dom (map_of (fst (dedupe_scan es winner order)))
    \<and> distinct (snd (dedupe_scan es winner order))"
  using assms
proof (induction es arbitrary: winner order)
  case (Cons e es)
  let ?w = "hm_insert (ps_conversation e) (ps_target e) winner"
  let ?o = "if map_of winner (ps_conversation e) = None then order @ [ps_conversation e] else order"
  have w: "map_of ?w = (map_of winner)(ps_conversation e \<mapsto> ps_target e)" by (rule ext) simp
  have "set ?o = dom (map_of ?w)" "distinct ?o" using Cons.prems unfolding w by (auto simp: domIff)
  from Cons.IH [OF this] show ?case by (simp add: w map_add_def fun_eq_iff split: option.split)
qed simp

lemma dedupe_spec:
  "selections_map (dedupe_persisted_last_wins es) = map_of (rev (map (\<lambda>e. (ps_conversation e, ps_target e)) es))
   \<and> distinct (map ps_conversation (dedupe_persisted_last_wins es))"
proof -
  obtain w order where d: "dedupe_scan es [] [] = (w, order)" by fastforce
  from dedupe_scan_spec [of "[]" "[]" es] d
  have s: "map_of w = map_of (rev (map (\<lambda>e. (ps_conversation e, ps_target e)) es))" "set order = dom (map_of w)" "distinct order"
    by simp_all
  have m: "map_of (map (\<lambda>c. (c, f c)) xs) c = (if c \<in> set xs then Some (f c) else None)" for f :: "string \<Rightarrow> string" and xs c
    by (induction xs) auto
  have "selections_map (dedupe_persisted_last_wins es) c = map_of w c" for c
  proof -
    have "selections_map (dedupe_persisted_last_wins es) c
        = map_of (map (\<lambda>c. (c, case map_of w c of Some t \<Rightarrow> t | None \<Rightarrow> [])) order) c"
      by (simp add: dedupe_persisted_last_wins_def d selections_map_def comp_def)
    then show ?thesis using s(2) by (auto simp: m domIff split: option.split)
  qed
  then show ?thesis using s by (simp add: fun_eq_iff dedupe_persisted_last_wins_def d comp_def)
qed

definition verified_target :: "(string \<times> zdr_target) list \<Rightarrow> string \<Rightarrow> bool" where
  "verified_target targets t \<longleftrightarrow> (case map_of targets t of Some z \<Rightarrow> zt_verified z | None \<Rightarrow> False)"

lemma validate_cases:
  "validate_selection targets e =
     (if verified_target targets (ps_target e) then Restored (ps_conversation e) (ps_target e)
      else Reverted (ps_conversation e) (if map_of targets (ps_target e) = None then NotConfigured else NotVerified))"
  by (auto simp: validate_selection_def verified_target_def split: option.split)

lemma restored_iff:
  "(case validate_selection targets e of Restored _ _ \<Rightarrow> True | Reverted _ _ \<Rightarrow> False)
     = verified_target targets (ps_target e)"
  by (simp add: validate_cases)

lemma reload_loop_spec:
  assumes "distinct (map (ps_conversation \<circ> fst) xs)" "inj_on (report_name P) (set (map (ps_conversation \<circ> fst) xs))"
    and "reload_loop P targets xs m survivors reports outcomes = (m', survivors', reports', outcomes')"
  shows "(\<forall>c. map_of m' c = (case selections_map (map fst xs) c of
             Some t \<Rightarrow> if verified_target targets t then Some t else map_of m c | None \<Rightarrow> map_of m c))
    \<and> survivors' = survivors @ map fst (filter (\<lambda>(e, ok). verified_target targets (ps_target e) \<or> \<not> ok) xs)
    \<and> (\<forall>(e, ok) \<in> set xs. ok \<longrightarrow> map_of reports' (report_name P (ps_conversation e)) = Some (validate_selection targets e))
    \<and> (\<forall>n. n \<notin> report_name P ` set (map (ps_conversation \<circ> fst) xs) \<longrightarrow> map_of reports' n = map_of reports n)"
  using assms
proof (induction xs arbitrary: m survivors reports outcomes)
  case Nil
  then show ?case by (auto simp: selections_map_def)
next
  case (Cons x xs)
  obtain e ok where x: "x = (e, ok)" by fastforce
  let ?v = "verified_target targets (ps_target e)"
  let ?m = "if ?v then hm_insert (ps_conversation e) (ps_target e) m else m"
  let ?s = "if ?v \<or> \<not> ok then survivors @ [e] else survivors"
  let ?r = "if ok then hm_insert (report_name P (ps_conversation e)) (validate_selection targets e) reports else reports"
  have r: "reload_loop P targets xs ?m ?s ?r (outcomes @ [validate_selection targets e]) = (m', survivors', reports', outcomes')"
    using Cons.prems(3) x by (simp only: reload_loop.simps Let_def restored_iff)
  have d: "distinct (map (ps_conversation \<circ> fst) xs)" "inj_on (report_name P) (set (map (ps_conversation \<circ> fst) xs))"
    "ps_conversation e \<notin> set (map (ps_conversation \<circ> fst) xs)"
    "report_name P (ps_conversation e) \<notin> report_name P ` set (map (ps_conversation \<circ> fst) xs)"
    using Cons.prems(1,2) x by (auto simp: inj_on_def comp_def)
  note ih = Cons.IH [OF d(1,2) r]
  have none: "selections_map (map fst xs) (ps_conversation e) = None"
    using d(3) by (force simp: selections_map_def map_of_eq_None_iff)
  have 1: "map_of m' c = (case selections_map (map fst (x # xs)) c of
             Some t \<Rightarrow> if verified_target targets t then Some t else map_of m c | None \<Rightarrow> map_of m c)" for c
  proof (cases "c = ps_conversation e")
    case True
    have "map_of m' c = map_of ?m c" using ih none True by simp
    with True x show ?thesis by (simp add: selections_map_def)
  next
    case False
    have m: "map_of ?m c = map_of m c" using False by simp
    have sm: "selections_map (map fst (x # xs)) c = selections_map (map fst xs) c"
      using False x by (simp add: selections_map_def)
    from ih show ?thesis unfolding sm m [symmetric] by blast
  qed
  have "map_of reports' (report_name P (ps_conversation e)) = Some (validate_selection targets e)" if ok
    using ih d(4) that by simp
  moreover have "map_of reports' n = map_of reports n" if "n \<notin> report_name P ` set (map (ps_conversation \<circ> fst) (x # xs))" for n
    using ih that x by auto
  moreover have "survivors' = survivors @ map fst (filter (\<lambda>(e, ok). verified_target targets (ps_target e) \<or> \<not> ok) (x # xs))"
    using ih x by auto
  ultimately show ?case using 1 ih x by auto
qed

lemma selections_map_mem: "distinct (map ps_conversation es) \<Longrightarrow>
    selections_map es c = Some t \<longleftrightarrow> (\<exists>e \<in> set es. ps_conversation e = c \<and> ps_target e = t)"
  unfolding selections_map_def by (subst map_of_eq_Some_iff) (auto simp: comp_def)

text \<open>
  No pin is lost in silence at boot. From a selections file that parses (the last entry of a
  conversation counting), exactly the selections whose target is registered and verified are in force
  again; every other one has a revert report on disk, or is still in the file for the next boot. A file that
  does not parse is followed by a running proxy only with the global revert recorded.
\<close>

theorem reload_accounts:
  assumes "reload_zdr_sessions P io targets (Loaded entries) ([], dk) = (Inr outcomes, m, dk')"
    and "es = dedupe_persisted_last_wins entries" "inj_on (report_name P) (set (map ps_conversation es))"
  shows "(\<forall>c. zdr_selection c m =
             (case map_of (rev (map (\<lambda>e. (ps_conversation e, ps_target e)) entries)) c of
                Some t \<Rightarrow> if verified_target targets t then Some t else None | None \<Rightarrow> None))
    \<and> (\<forall>e \<in> set es. zdr_selection (ps_conversation e) m = None \<longrightarrow>
          (\<exists>cause. map_of (dk_reports dk') (report_name P (ps_conversation e)) = Some (Reverted (ps_conversation e) cause))
          \<or> dk_file dk' = dk_file dk \<or> durable (dk_file dk') (ps_conversation e) = Some (ps_target e))
    \<and> (\<forall>why outcomes2 m2 dk2. reload_zdr_sessions P io targets (LoadCorrupt why) ([], dk) = (Inr outcomes2, m2, dk2) \<longrightarrow>
          m2 = [] \<and> dk_global dk2 = Some (io_now_nanos io, why))"
proof -
  let ?xs = "zip es (map (io_report_ok io) [0..<length es])"
  let ?cl = "if io_clear_ok io then dk\<lparr>dk_global := None\<rparr> else dk"
  have f: "map fst ?xs = es" by simp
  have d: "distinct (map ps_conversation es)" "selections_map es = map_of (rev (map (\<lambda>e. (ps_conversation e, ps_target e)) entries))"
    using dedupe_spec [of entries] assms(2) by simp_all
  have cf: "map (ps_conversation \<circ> fst) ?xs = map ps_conversation es" using f by (metis map_map)
  obtain m' sv rp oc where l: "reload_loop P targets ?xs [] [] (dk_reports ?cl) [] = (m', sv, rp, oc)" by (metis prod_cases4)
  from reload_loop_spec [OF _ _ l] d(1) assms(3) have s:
    "\<forall>c. map_of m' c = (case selections_map es c of Some t \<Rightarrow> if verified_target targets t then Some t else None | None \<Rightarrow> None)"
    "sv = map fst (filter (\<lambda>(e, ok). verified_target targets (ps_target e) \<or> \<not> ok) ?xs)"
    "\<forall>(e, ok) \<in> set ?xs. ok \<longrightarrow> map_of rp (report_name P (ps_conversation e)) = Some (validate_selection targets e)"
    unfolding cf f map_of.simps by simp_all
  have o: "m = m'" "dk' = ?cl\<lparr>dk_reports := rp, dk_file := write_selections (io_rewrite_ok io) sv (dk_file ?cl)\<rparr>"
    using assms(1) l by (auto simp: reload_zdr_sessions_def Let_def assms(2) [symmetric])
  have "(\<exists>cause. map_of (dk_reports dk') (report_name P (ps_conversation e)) = Some (Reverted (ps_conversation e) cause))
          \<or> dk_file dk' = dk_file dk \<or> durable (dk_file dk') (ps_conversation e) = Some (ps_target e)"
    if e: "e \<in> set es" "zdr_selection (ps_conversation e) m = None" for e
  proof -
    have nv: "\<not> verified_target targets (ps_target e)"
    proof -
      have "selections_map es (ps_conversation e) = Some (ps_target e)" using selections_map_mem [OF d(1)] e(1) by blast
      with s(1) o(1) e(2) show ?thesis by (auto simp: zdr_selection_def)
    qed
    obtain ok where ok: "(e, ok) \<in> set ?xs" using e(1) f by (metis in_set_impl_in_set_zip1 length_map length_upt diff_zero)
    show ?thesis
    proof (cases ok)
      case True
      with s(3) ok nv show ?thesis using o(2) by (fastforce simp: validate_cases)
    next
      case False
      then have "e \<in> set sv" using ok s(2) by force
      moreover have "distinct (map ps_conversation sv)"
        unfolding s(2) using d(1) cf by (metis (no_types, lifting) distinct_map_filter map_map)
      ultimately have "selections_map sv (ps_conversation e) = Some (ps_target e)"
        using selections_map_mem by blast
      then show ?thesis using o(2) by (cases "io_rewrite_ok io") (simp_all add: write_selections_def durable_def)
    qed
  qed
  moreover have "m2 = [] \<and> dk_global dk2 = Some (io_now_nanos io, why)"
    if "reload_zdr_sessions P io targets (LoadCorrupt why) ([], dk) = (Inr outcomes2, m2, dk2)" for why outcomes2 m2 dk2
    using that by (auto simp: reload_zdr_sessions_def Let_def split: if_splits)
  ultimately show ?thesis using s(1) o(1) d(2) by (simp add: zdr_selection_def)
qed

definition sample_target :: zdr_target where
  "sample_target =
     \<lparr>zt_name = ''box'', zt_base_url = ''http://box:8080'', zt_host = ''box:8080'', zt_basis = SelfHosted,
      zt_verified = True, zt_headers = [], zt_key = []\<rparr>"

definition sample_io :: boot_io where
  "sample_io = \<lparr>io_now_nanos = 1, io_global_ok = True, io_quarantine_ok = True, io_report_ok = (\<lambda>_. True),
     io_rewrite_ok = True, io_clear_ok = True\<rparr>"

definition empty_disk :: zdr_disk where
  "empty_disk = \<lparr>dk_file = NoFile, dk_reports = [], dk_global = None, dk_quarantined = []\<rparr>"

lemma reload_accounts_witness:
  "\<exists>outcomes m dk'. reload_zdr_sessions sample_prims sample_io [(''box'', sample_target)]
        (Loaded [\<lparr>ps_conversation = ''c1'', ps_target = ''box''\<rparr>, \<lparr>ps_conversation = ''c2'', ps_target = ''gone''\<rparr>])
        ([], empty_disk) = (Inr outcomes, m, dk')
     \<and> zdr_selection ''c1'' m = Some ''box'' \<and> zdr_selection ''c2'' m = None"
proof -
  let ?es = "[\<lparr>ps_conversation = ''c1'', ps_target = ''box''\<rparr>, \<lparr>ps_conversation = ''c2'', ps_target = ''gone''\<rparr>]"
  obtain r m dk' where r: "reload_zdr_sessions sample_prims sample_io [(''box'', sample_target)] (Loaded ?es) ([], empty_disk) = (r, m, dk')"
    by (metis prod_cases3)
  have "is_ok (fst (reload_zdr_sessions sample_prims sample_io [(''box'', sample_target)] (Loaded ?es) ([], empty_disk)))"
    by (simp add: reload_zdr_sessions_def Let_def split_beta)
  with r obtain outcomes where o: "r = Inr outcomes" by auto
  have d: "dedupe_persisted_last_wins ?es = ?es" by code_simp
  have n: "report_name sample_prims ''c1'' = ''c1.json''" "report_name sample_prims ''c2'' = ''c2.json''" by code_simp+
  have i: "inj_on (report_name sample_prims) (set (map ps_conversation ?es))" by (simp add: n)
  have v: "verified_target [(''box'', sample_target)] ''box''" "\<not> verified_target [(''box'', sample_target)] ''gone''"
    by (simp_all add: verified_target_def sample_target_def)
  from reload_accounts [OF r [unfolded o] d [symmetric] i] v r o show ?thesis by simp
qed

text \<open>
  The retry of a failed revert report does not survive the next engagement. When the report of a selection
  that cannot be restored is not written, the boot keeps the selection in the file for another
  attempt; the file is then rewritten from the live map by the first engagement of any other conversation,
  which drops the selection for good, with no report on disk.
\<close>

theorem retained_revert_lost:
  assumes "reload_zdr_sessions P io targets (Loaded [\<lparr>ps_conversation = c, ps_target = t\<rparr>]) ([], dk) = (Inr outcomes, m, dk1)"
    and "\<not> verified_target targets t" "\<not> io_report_ok io 0" "io_rewrite_ok io" "c' \<noteq> c"
  shows "durable (dk_file dk1) c = Some t \<and> dk_reports dk1 = dk_reports dk
    \<and> durable (snd (snd (set_zdr_selection True c' t' (m, dk_file dk1)))) c = None"
proof -
  have d: "dedupe_persisted_last_wins [\<lparr>ps_conversation = c, ps_target = t\<rparr>] = [\<lparr>ps_conversation = c, ps_target = t\<rparr>]"
    by (simp add: dedupe_persisted_last_wins_def)
  have m: "m = []" "dk_reports dk1 = dk_reports dk" "dk_file dk1 = Selections [\<lparr>ps_conversation = c, ps_target = t\<rparr>]"
    using assms(1-4) by (auto simp: reload_zdr_sessions_def d Let_def restored_iff write_selections_def split: if_splits)
  then show ?thesis using assms(5)
    by (simp add: set_zdr_selection_def engage_capped_def MAX_PERSISTED_SELECTIONS_def durable_def selections_map_def
        snapshot_persisted_def write_selections_def hm_insert_def hm_remove_def Let_def)
qed

lemma retained_revert_lost_witness:
  "\<exists>outcomes m dk1. reload_zdr_sessions sample_prims (sample_io\<lparr>io_report_ok := (\<lambda>_. False)\<rparr>) []
        (Loaded [\<lparr>ps_conversation = ''c1'', ps_target = ''gone''\<rparr>]) ([], empty_disk) = (Inr outcomes, m, dk1)
     \<and> durable (dk_file dk1) ''c1'' = Some ''gone''
     \<and> durable (snd (snd (set_zdr_selection True ''c2'' ''box'' (m, dk_file dk1)))) ''c1'' = None"
proof -
  let ?io = "sample_io\<lparr>io_report_ok := (\<lambda>_. False)\<rparr>"
  obtain r m dk1 where r: "reload_zdr_sessions sample_prims ?io [] (Loaded [\<lparr>ps_conversation = ''c1'', ps_target = ''gone''\<rparr>]) ([], empty_disk) = (r, m, dk1)"
    by (metis prod_cases3)
  have "is_ok (fst (reload_zdr_sessions sample_prims ?io [] (Loaded [\<lparr>ps_conversation = ''c1'', ps_target = ''gone''\<rparr>]) ([], empty_disk)))"
    by (simp add: reload_zdr_sessions_def Let_def split_beta)
  with r obtain outcomes where o: "r = Inr outcomes" by auto
  from retained_revert_lost [OF r [unfolded o], of "''c2''" "''box''"] r o show ?thesis
    by (simp add: verified_target_def sample_io_def)
qed

section \<open>File names\<close>

definition safe_component_char :: "char \<Rightarrow> bool" where
  "safe_component_char b \<longleftrightarrow> is_alnum b \<or> b \<in> {CHR ''.'', CHR ''_'', CHR ''-''}"

lemma sanitize_char_safe: "safe_component_char (sanitize_char ch)"
  by (auto simp: sanitize_char_def safe_component_char_def split: list.split)

lemma hex_safe: "is_lower_hex c \<Longrightarrow> safe_component_char c"
  by (auto simp: safe_component_char_def ascii_defs)

lemma cut_component:
  assumes "list_all safe_component_char x" "list_all safe_component_char h"
  shows "list_all safe_component_char (take (SANITIZE_COMPONENT_MAX - 16 - 1) x @ ''-'' @ take 16 h)
    \<and> length (take (SANITIZE_COMPONENT_MAX - 16 - 1) x @ ''-'' @ take 16 h) \<le> SANITIZE_COMPONENT_MAX"
proof -
  have "safe_component_char (CHR ''-'')" by code_simp
  then show ?thesis using assms
    by (auto simp: list_all_iff SANITIZE_COMPONENT_MAX_def dest!: in_set_takeD)
qed

lemma no_separator: "list_all safe_component_char x \<Longrightarrow> CHR ''/'' \<notin> set x \<and> CHR 0x5C \<notin> set x"
proof -
  have "\<not> safe_component_char (CHR ''/'')" "\<not> safe_component_char (CHR 0x5C)" by code_simp+
  then show "list_all safe_component_char x \<Longrightarrow> CHR ''/'' \<notin> set x \<and> CHR 0x5C \<notin> set x"
    by (auto simp: list_all_iff)
qed

lemma sanitize_plain:
  assumes "list_all safe_component_char s"
  shows "map sanitize_char (utf8_chars s) = s"
proof -
  have "safe_component_char c \<Longrightarrow> is_ascii c" for c
    by (auto simp: safe_component_char_def ascii_defs ord_def)
  then have "list_all is_ascii s" using assms by (auto simp: list_all_iff)
  then have "map sanitize_char (utf8_chars s) = map (\<lambda>c. sanitize_char [c]) s" by (simp add: utf8_chars_ascii comp_def)
  also have "\<dots> = s" using assms
    by (induction s) (auto simp: sanitize_char_def safe_component_char_def)
  finally show ?thesis .
qed

text \<open>
  A report file name is one safe path component. Whatever the conversation id, its component is
  not empty, not made of dots, at most 200 bytes and free of path separators; an id that already is such
  a component is its own name, so distinct live ids never share a report.
\<close>

theorem sanitize_component_safe:
  "list_all safe_component_char (sanitize_component P s)
    \<and> CHR ''/'' \<notin> set (sanitize_component P s) \<and> CHR 0x5C \<notin> set (sanitize_component P s)
    \<and> sanitize_component P s \<noteq> [] \<and> (\<exists>c \<in> set (sanitize_component P s). c \<noteq> CHR ''.'')
    \<and> length (sanitize_component P s) \<le> SANITIZE_COMPONENT_MAX
    \<and> (list_all safe_component_char s \<and> (\<exists>c \<in> set s. c \<noteq> CHR ''.'') \<and> length s \<le> SANITIZE_COMPONENT_MAX \<longrightarrow>
         sanitize_component P s = s)"
proof -
  let ?m = "map sanitize_char (utf8_chars s)"
  let ?o = "if ?m = [] \<or> list_all (\<lambda>c. c = CHR ''.'') ?m then CHR ''_'' # ?m else ?m"
  let ?t = "take (SANITIZE_COMPONENT_MAX - 16 - 1) ?o @ ''-'' @ take 16 (to_hex (blake3 P ?o))"
  have f: "sanitize_component P s = (if SANITIZE_COMPONENT_MAX < length ?o then ?t else ?o)"
    by (simp only: sanitize_component_def Let_def)
  have o: "list_all safe_component_char ?o" "?o \<noteq> []" "\<exists>c \<in> set ?o. c \<noteq> CHR ''.''"
    by (auto simp: list_all_iff sanitize_char_safe) (simp_all add: safe_component_char_def)
  have h: "list_all safe_component_char (to_hex (blake3 P ?o))"
    using to_hex_lower_hex hex_safe by (auto simp: list_all_iff)
  have t: "list_all safe_component_char ?t" "length ?t \<le> SANITIZE_COMPONENT_MAX"
    using cut_component [OF o(1) h] by blast+
  have d: "?t \<noteq> []" "\<exists>c \<in> set ?t. c \<noteq> CHR ''.''" by simp_all
  have same: "sanitize_component P s = s"
    if "list_all safe_component_char s" "\<exists>c \<in> set s. c \<noteq> CHR ''.''" "length s \<le> SANITIZE_COMPONENT_MAX"
  proof -
    have "?o = s" using sanitize_plain [OF that(1)] that(2) by (auto simp: list_all_iff)
    then show ?thesis using that(3) f by simp
  qed
  show ?thesis
  proof (cases "SANITIZE_COMPONENT_MAX < length ?o")
    case True
    then have e: "sanitize_component P s = ?t" using f by (simp only: if_True)
    show ?thesis using t d no_separator [OF t(1)] same unfolding e by blast
  next
    case False
    then have e: "sanitize_component P s = ?o" using f by (simp only: if_False)
    show ?thesis using o no_separator [OF o(1)] same False unfolding e by (meson leI)
  qed
qed

lemma sanitize_component_safe_witness:
  "CHR ''/'' \<notin> set (sanitize_component sample_prims ''../../etc/x'') \<and> sanitize_component sample_prims ''c-1'' = ''c-1''"
proof -
  have "list_all safe_component_char ''c-1''" by code_simp
  then show ?thesis
    using sanitize_component_safe [of sample_prims "''../../etc/x''"] sanitize_component_safe [of sample_prims "''c-1''"]
    by (simp add: SANITIZE_COMPONENT_MAX_def)
qed

end
