(* ===== verification/Proxy_Routes.thy ===== *)
theory Proxy_Routes
  imports Wire_Walk Proxy_State
begin

text \<open>
  \<open>routes.rs\<close> of \<open>sordino-proxy\<close> (with the header lookup of \<open>monitor/mod.rs\<close>): what an intake request goes
  through before its masked body leaves, the verbatim relay, and the audit reveal.

  A handler runs against shared state that other requests and the control plane change between its
  awaits, so its stages take the state each of them reads; an egress is the built request, a refusal the
  reason of the error response (\<open>refusal_status\<close> is its status). A body that cannot be read is \<open>None\<close>.
  The approval of a held request and the upstream's answer are arguments; the monitor record is not
  modelled, the policy ledger is the list of its lines.
\<close>

section \<open>State and requests\<close>

record 'c app_state =
  as_engine :: "'c mask_engine"
  as_identity :: app_identity
  as_upstream_base :: string
  as_targets :: "(string \<times> zdr_target) list"
  as_default :: "string option"
  as_sessions :: zdr_sessions
  as_selections :: selections_file
  as_masking :: masking_disabled
  as_secrets_ready :: bool
  as_ledger :: "(string \<times> string) list option"

record http_request =
  rq_path :: string
  rq_query :: "string option"
  rq_headers :: header_map
  rq_body :: "string option"

definition path_and_query :: "http_request \<Rightarrow> string" where
  "path_and_query rq = rq_path rq @ (case rq_query rq of Some q \<Rightarrow> ''?'' @ q | None \<Rightarrow> [])"

datatype refusal =
    SecretsPending
  | BarePathPinned
  | TargetUnverified
  | TargetUnknown
  | BodyUnreadable
  | BodyUnparseable
  | CarveOutSecret string
  | MaskRefused engine_error
  | ApprovalRejected
  | SecretInBody
  | SecretInPathQuery
  | SecretInHeader
  | PathTraversal
  | BadPercentEncoding
  | RelayPinned
  | BatchesRefused
  | PinUnsupported

fun refusal_status :: "refusal \<Rightarrow> nat" where
  "refusal_status SecretsPending = 503"
| "refusal_status TargetUnverified = 403"
| "refusal_status BodyUnreadable = 400"
| "refusal_status BodyUnparseable = 400"
| "refusal_status PathTraversal = 400"
| "refusal_status BadPercentEncoding = 400"
| "refusal_status (MaskRefused _) = 500"
| "refusal_status ApprovalRejected = 403"
| "refusal_status PinUnsupported = 501"
| "refusal_status _ = 409"

text \<open>The ledger line of a refusal: the entity class and the channel, never a value.\<close>

fun ledger_line :: "refusal \<Rightarrow> (string \<times> string) option" where
  "ledger_line SecretInBody = Some (''registered_secret'', ''body'')"
| "ledger_line SecretInPathQuery = Some (''registered_secret'', ''path_query'')"
| "ledger_line SecretInHeader = Some (''registered_secret'', ''header'')"
| "ledger_line (CarveOutSecret name) = Some (name, ''carve_out'')"
| "ledger_line _ = None"

definition record_refusal :: "refusal \<Rightarrow> (string \<times> string) list option \<Rightarrow> (string \<times> string) list option" where
  "record_refusal r l =
     (case ledger_line r of Some line \<Rightarrow> map_option (\<lambda>ls. ls @ [line]) l | None \<Rightarrow> l)"

section \<open>Guards\<close>

definition secrets_gate :: "'c app_state \<Rightarrow> refusal option" where
  "secrets_gate st = (if as_secrets_ready st then None else Some SecretsPending)"

fun first_nonblank :: "net_api \<Rightarrow> string list \<Rightarrow> header_map \<Rightarrow> string option" where
  "first_nonblank N [] h = None"
| "first_nonblank N (n # ns) h =
     (case map_option trim (header_str N n h) of
        Some s \<Rightarrow> if s \<noteq> [] then Some s else first_nonblank N ns h
      | None \<Rightarrow> first_nonblank N ns h)"

definition conversation_from_headers :: "net_api \<Rightarrow> header_map \<Rightarrow> string option" where
  "conversation_from_headers N h =
     first_nonblank N [''x-sordino-conversation'', ''session-id'', ''thread-id''] h"

definition resolve_pinned_mode :: "'c app_state \<Rightarrow> string option \<Rightarrow> refusal + pinned_mode" where
  "resolve_pinned_mode st conversation =
     (case conversation of
        None \<Rightarrow> Inr NormalMode
      | Some conv \<Rightarrow>
          (case zdr_selection conv (as_sessions st) of
             None \<Rightarrow> Inr NormalMode
           | Some sel \<Rightarrow>
               (case map_of (as_targets st) sel of
                  Some t \<Rightarrow> if zt_verified t then Inr (ZdrMode t) else Inl TargetUnverified
                | None \<Rightarrow> Inl TargetUnknown)))"

definition bare_path_zdr_guard :: "net_api \<Rightarrow> 'c app_state \<Rightarrow> header_map \<Rightarrow> string option \<Rightarrow> refusal option" where
  "bare_path_zdr_guard N st h conversation =
     (if conversation \<noteq> None then None
      else case conversation_from_headers N h of
          None \<Rightarrow> None
        | Some conv \<Rightarrow> if zdr_selection conv (as_sessions st) \<noteq> None then Some BarePathPinned else None)"

definition header_tripwire :: "'c env \<Rightarrow> 'c mask_engine \<Rightarrow> header_map \<Rightarrow> bool" where
  "header_tripwire W e h \<longleftrightarrow>
     list_ex (\<lambda>(n, v). \<not> is_client_credential n \<and> registered_secret_in_header_value W e v) h"

section \<open>Intake\<close>

text \<open>Entry: the gate, the guards, the pinned posture and the masking switch, all before the body is read.\<close>

definition intake_entry ::
  "net_api \<Rightarrow> nat \<Rightarrow> http_request \<Rightarrow> string option \<Rightarrow> 'c app_state
   \<Rightarrow> (refusal + pinned_mode \<times> bool \<times> string) \<times> 'c app_state" where
  "intake_entry N now rq conversation st =
     (case secrets_gate st of
        Some r \<Rightarrow> (Inl r, st)
      | None \<Rightarrow>
          (case bare_path_zdr_guard N st (rq_headers rq) conversation of
             Some r \<Rightarrow> (Inl r, st)
           | None \<Rightarrow>
               (case resolve_pinned_mode st conversation of
                  Inl r \<Rightarrow> (Inl r, st)
                | Inr pinned \<Rightarrow>
                    (let (force_disabled, md) =
                           (case conversation of
                              Some c \<Rightarrow> is_masking_disabled now c (as_masking st)
                            | None \<Rightarrow> (False, as_masking st));
                         st = st\<lparr>as_masking := md\<rparr>
                     in case rq_body rq of
                          None \<Rightarrow> (Inl BodyUnreadable, st)
                        | Some body \<Rightarrow> (Inr (pinned, force_disabled, body), st)))))"

definition mask_fault_refusal :: "mask_fault \<Rightarrow> refusal" where
  "mask_fault_refusal f =
     (case f of
        JsonFault \<Rightarrow> BodyUnparseable
      | EngineFault (RegisteredSecretInCarveOut name) \<Rightarrow> CarveOutSecret name
      | EngineFault e \<Rightarrow> MaskRefused e)"

definition mask_body ::
  "'c env \<Rightarrow> wire_api \<Rightarrow> int \<Rightarrow> string \<Rightarrow> bool \<Rightarrow> 'c app_state
   \<Rightarrow> (refusal + string \<times> unmask_manifest) \<times> 'c app_state" where
  "mask_body W K today body force_disabled st =
     (case (if force_disabled then mask_request_disabled W K today body (as_engine st)
            else mask_request W K today body (as_engine st)) of
        (Inl f, e) \<Rightarrow>
          (let r = mask_fault_refusal f
           in (Inl r, st\<lparr>as_engine := e, as_ledger := record_refusal r (as_ledger st)\<rparr>))
      | (Inr x, e) \<Rightarrow> (Inr x, st\<lparr>as_engine := e\<rparr>))"

definition send_upstream ::
  "'c env \<Rightarrow> net_api \<Rightarrow> header_map \<Rightarrow> string \<Rightarrow> string \<Rightarrow> pinned_mode \<Rightarrow> 'c app_state
   \<Rightarrow> (refusal + wire_request) \<times> 'c app_state" where
  "send_upstream W N incoming body path pinned st =
     (let wire = wire_build N (for_mode (as_upstream_base st) (upstream_host (as_upstream_base st)) pinned) incoming path body
      in if header_tripwire W (as_engine st) (wr_headers wire)
         then (Inl SecretInHeader, st\<lparr>as_ledger := record_refusal SecretInHeader (as_ledger st)\<rparr>)
         else (Inr wire, st))"

text \<open>
  The whole way of an intake request, each stage on the state it finds: what leaves for the upstream, and
  the manifest its response is unmasked with. The path is \<open>/v1/messages\<close> or its \<open>count_tokens\<close>.
\<close>

definition messages_egress ::
  "'c env \<Rightarrow> wire_api \<Rightarrow> net_api \<Rightarrow> nat \<Rightarrow> int \<Rightarrow> string \<Rightarrow> http_request \<Rightarrow> string option \<Rightarrow> bool
   \<Rightarrow> 'c app_state \<Rightarrow> 'c app_state \<Rightarrow> 'c app_state \<Rightarrow> refusal + wire_request \<times> unmask_manifest" where
  "messages_egress W K N now today path rq conversation approved st_entry st_mask st_send =
     (case fst (intake_entry N now rq conversation st_entry) of
        Inl r \<Rightarrow> Inl r
      | Inr (pinned, force_disabled, body) \<Rightarrow>
          (case fst (mask_body W K today body force_disabled st_mask) of
             Inl r \<Rightarrow> Inl r
           | Inr (mbody, manifest) \<Rightarrow>
               (if \<not> approved then Inl ApprovalRejected
                else case fst (send_upstream W N (rq_headers rq) mbody path pinned st_send) of
                    Inl r \<Rightarrow> Inl r
                  | Inr wire \<Rightarrow> Inr (wire, manifest))))"

text \<open>Token counting takes the same way, without a record to approve; its answer is relayed as it is.\<close>

definition count_tokens_egress ::
  "'c env \<Rightarrow> wire_api \<Rightarrow> net_api \<Rightarrow> nat \<Rightarrow> int \<Rightarrow> http_request \<Rightarrow> string option
   \<Rightarrow> 'c app_state \<Rightarrow> 'c app_state \<Rightarrow> 'c app_state \<Rightarrow> refusal + wire_request \<times> unmask_manifest" where
  "count_tokens_egress W K N now today rq conversation st_entry st_mask st_send =
     messages_egress W K N now today ''/v1/messages/count_tokens'' rq conversation True st_entry st_mask st_send"

definition count_tokens_answer :: "header_map \<Rightarrow> string \<Rightarrow> header_map \<times> string" where
  "count_tokens_answer up_headers bytes = (downstream_response_headers up_headers False, bytes)"

text \<open>The non-streamed answer: the unmasked body, or the upstream's bytes when it does not parse.\<close>

definition messages_answer ::
  "'c env \<Rightarrow> wire_api \<Rightarrow> json_api \<Rightarrow> nat \<Rightarrow> unmask_manifest \<Rightarrow> header_map \<Rightarrow> string \<Rightarrow> 'c mask_engine \<Rightarrow> header_map \<times> string" where
  "messages_answer W K J now manifest up_headers bytes e =
     (downstream_response_headers up_headers True, ok_or bytes (unmask_response W K J now manifest bytes e))"

section \<open>Verbatim relay\<close>

definition SESSION_PREFIX :: string where
  "SESSION_PREFIX = ''/sordino/session/''"

definition parse_session_prefix :: "string \<Rightarrow> (string \<times> string) option" where
  "parse_session_prefix path =
     (if \<not> starts_with SESSION_PREFIX path then None
      else let after = drop (length SESSION_PREFIX) path;
               sid = takeWhile (\<lambda>c. c \<noteq> CHR ''/'') after;
               rest = drop (length sid + 1) after
        in if sid = [] then None else Some (sid, ''/'' @ rest))"

text \<open>\<open>char::to_digit(16)\<close>.\<close>

definition hex_value :: "char \<Rightarrow> nat option" where
  "hex_value c =
     (if is_digit c then Some (ord c - 48)
      else if 97 \<le> ord c \<and> ord c \<le> 102 then Some (ord c - 87)
      else if 65 \<le> ord c \<and> ord c \<le> 70 then Some (ord c - 55)
      else None)"

function percent_decode_bytes :: "string \<Rightarrow> string option" where
  "percent_decode_bytes [] = Some []"
| "percent_decode_bytes (b # bs) =
     (if b = CHR ''%'' then
        (case bs of
           h # l # rest \<Rightarrow>
             (case (hex_value h, hex_value l) of
                (Some x, Some y) \<Rightarrow> map_option ((#) (char_of (16 * x + y))) (percent_decode_bytes rest)
              | _ \<Rightarrow> None)
         | _ \<Rightarrow> None)
      else map_option ((#) b) (percent_decode_bytes bs))"
  by pat_completeness auto
termination by (relation "measure length") auto

definition percent_decode_segment :: "string \<Rightarrow> string option" where
  "percent_decode_segment seg =
     (case percent_decode_bytes seg of Some s \<Rightarrow> if utf8_valid s then Some s else None | None \<Rightarrow> None)"

definition is_batches :: "string \<Rightarrow> bool" where
  "is_batches path =
     (let p = takeWhile (\<lambda>c. c \<noteq> CHR ''?'') path
      in p = ''/v1/batches'' \<or> starts_with ''/v1/batches/'' p)"

definition has_traversal :: "string \<Rightarrow> bool" where
  "has_traversal rest = list_ex (\<lambda>seg. seg = ''..'') (split_on (CHR ''/'') rest)"

definition relay_built ::
  "'c env \<Rightarrow> wire_request \<Rightarrow> 'c app_state \<Rightarrow> (refusal + wire_request) \<times> 'c app_state" where
  "relay_built W wire st =
     (if header_tripwire W (as_engine st) (wr_headers wire)
      then (Inl SecretInHeader, st\<lparr>as_ledger := record_refusal SecretInHeader (as_ledger st)\<rparr>)
      else (Inr wire, st))"

definition normal_wire :: "net_api \<Rightarrow> 'c app_state \<Rightarrow> header_map \<Rightarrow> string \<Rightarrow> string \<Rightarrow> wire_request" where
  "normal_wire N st incoming path body =
     wire_build N (for_mode (as_upstream_base st) (upstream_host (as_upstream_base st)) NormalMode) incoming path body"

definition relay_session ::
  "'c env \<Rightarrow> net_api \<Rightarrow> http_request \<Rightarrow> string \<Rightarrow> string \<Rightarrow> string \<Rightarrow> 'c app_state
   \<Rightarrow> (refusal + wire_request) \<times> 'c app_state" where
  "relay_session W N rq body sid rest st =
     (if has_traversal rest then (Inl PathTraversal, st)
      else case percent_decode_segment sid of
          None \<Rightarrow> (Inl BadPercentEncoding, st)
        | Some decoded \<Rightarrow>
            (if zdr_selection decoded (as_sessions st) \<noteq> None then (Inl RelayPinned, st)
             else if is_batches rest then (Inl BatchesRefused, st)
             else relay_built W
                    (normal_wire N st (rq_headers rq)
                       (rest @ (case rq_query rq of Some q \<Rightarrow> ''?'' @ q | None \<Rightarrow> [])) body) st))"

definition relay_verbatim ::
  "'c env \<Rightarrow> net_api \<Rightarrow> http_request \<Rightarrow> 'c app_state \<Rightarrow> (refusal + wire_request) \<times> 'c app_state" where
  "relay_verbatim W N rq st =
     (case rq_body rq of
        None \<Rightarrow> (Inl BodyUnreadable, st)
      | Some body \<Rightarrow>
          (if registered_secret_in_bytes W (as_engine st) body
           then (Inl SecretInBody, st\<lparr>as_ledger := record_refusal SecretInBody (as_ledger st)\<rparr>)
           else if registered_secret_in_bytes W (as_engine st) (path_and_query rq)
           then (Inl SecretInPathQuery, st\<lparr>as_ledger := record_refusal SecretInPathQuery (as_ledger st)\<rparr>)
           else case parse_session_prefix (rq_path rq) of
               Some (sid, rest) \<Rightarrow> relay_session W N rq body sid rest st
             | None \<Rightarrow>
                 (if (case conversation_from_headers N (rq_headers rq) of
                        Some conv \<Rightarrow> zdr_selection conv (as_sessions st) \<noteq> None | None \<Rightarrow> False)
                  then (Inl RelayPinned, st)
                  else relay_built W (normal_wire N st (rq_headers rq) (path_and_query rq) body) st)))"

definition passthrough_route ::
  "'c env \<Rightarrow> net_api \<Rightarrow> http_request \<Rightarrow> 'c app_state \<Rightarrow> (refusal + wire_request) \<times> 'c app_state" where
  "passthrough_route W N rq st =
     (case secrets_gate st of Some r \<Rightarrow> (Inl r, st) | None \<Rightarrow> relay_verbatim W N rq st)"

section \<open>Audit reveal\<close>

datatype reveal_reply = RevealForbidden | RevealPlain string | RevealBroker "string option" | RevealUnknown

definition reveal_route ::
  "'c env \<Rightarrow> net_api \<Rightarrow> nat \<Rightarrow> header_map \<Rightarrow> string \<Rightarrow> 'c app_state \<Rightarrow> reveal_reply" where
  "reveal_route W N now h tok st =
     (if \<not> authed_for_project (prims_of W) N (as_identity st) h then RevealForbidden
      else case reveal_audit W now tok (as_engine st) of
          AuditPii v \<Rightarrow> RevealPlain v
        | AuditLocal v \<Rightarrow> RevealPlain v
        | AuditBroker name \<Rightarrow> RevealBroker name
        | AuditUnknown \<Rightarrow> RevealUnknown)"

end
