(* ===== verification/Proxy_Routes_Laws.thy ===== *)
theory Proxy_Routes_Laws
  imports Proxy_Routes Proxy_State_Laws Zdr_Laws Walk_Laws
begin

text \<open>
  What the routes promise: a request leaves exactly when every guard of its way accepts, a pinned
  conversation never reaches the default endpoint, no verbatim relay carries a registered value, and an
  audit reveal answers the project's key holder only.
\<close>

section \<open>When an intake request leaves\<close>

lemma resolve_pinned_mode_Inr:
  "resolve_pinned_mode st conv = Inr m \<longleftrightarrow>
     (case Option.bind conv (\<lambda>c. zdr_selection c (as_sessions st)) of
        None \<Rightarrow> m = NormalMode
      | Some sel \<Rightarrow> \<exists>t. map_of (as_targets st) sel = Some t \<and> zt_verified t \<and> m = ZdrMode t)"
  by (cases conv) (auto simp: resolve_pinned_mode_def split: option.splits)

lemma intake_entry_Inr:
  "fst (intake_entry N now rq conv st) = Inr (pinned, off, body) \<longleftrightarrow>
     secrets_gate st = None \<and> bare_path_zdr_guard N st (rq_headers rq) conv = None
     \<and> resolve_pinned_mode st conv = Inr pinned
     \<and> off = (case conv of Some c \<Rightarrow> fst (is_masking_disabled now c (as_masking st)) | None \<Rightarrow> False)
     \<and> rq_body rq = Some body"
  by (auto simp: intake_entry_def Let_def split: option.splits sum.splits prod.splits)

lemma messages_egress_Inr:
  "messages_egress W K N now today path rq conv approved s1 s2 s3 = Inr (wire, mf) \<longleftrightarrow>
     (\<exists>pinned off body mbody. fst (intake_entry N now rq conv s1) = Inr (pinned, off, body)
        \<and> fst (mask_body W K today body off s2) = Inr (mbody, mf) \<and> approved
        \<and> wire = wire_build N (for_mode (as_upstream_base s3) (upstream_host (as_upstream_base s3)) pinned)
                   (rq_headers rq) path mbody
        \<and> \<not> header_tripwire W (as_engine s3) (wr_headers wire))"
  by (auto simp: messages_egress_def send_upstream_def Let_def split: sum.splits prod.splits if_splits)

lemma relay_built_Inr:
  "fst (relay_built W wire st) = Inr w \<longleftrightarrow> w = wire \<and> \<not> header_tripwire W (as_engine st) (wr_headers wire)"
  by (auto simp: relay_built_def)

lemma relay_session_Inr:
  "fst (relay_session W N rq body sid rest st) = Inr wire \<longleftrightarrow>
     \<not> has_traversal rest \<and> \<not> is_batches rest
     \<and> (\<exists>d. percent_decode_segment sid = Some d \<and> zdr_selection d (as_sessions st) = None)
     \<and> wire = normal_wire N st (rq_headers rq) (rest @ (case rq_query rq of Some q \<Rightarrow> ''?'' @ q | None \<Rightarrow> [])) body
     \<and> \<not> header_tripwire W (as_engine st) (wr_headers wire)"
  by (auto simp: relay_session_def relay_built_Inr split: option.splits)

lemma relay_verbatim_Inr:
  "fst (relay_verbatim W N rq st) = Inr wire \<longleftrightarrow>
     (\<exists>body. rq_body rq = Some body \<and> \<not> registered_secret_in_bytes W (as_engine st) body
        \<and> \<not> registered_secret_in_bytes W (as_engine st) (path_and_query rq)
        \<and> (case parse_session_prefix (rq_path rq) of
             Some (sid, rest) \<Rightarrow> fst (relay_session W N rq body sid rest st) = Inr wire
           | None \<Rightarrow>
               Option.bind (conversation_from_headers N (rq_headers rq)) (\<lambda>c. zdr_selection c (as_sessions st)) = None
               \<and> wire = normal_wire N st (rq_headers rq) (path_and_query rq) body
               \<and> \<not> header_tripwire W (as_engine st) (wr_headers wire)))"
  by (auto simp: relay_verbatim_def relay_built_Inr bind_eq_None_conv split: option.splits prod.splits if_splits)

section \<open>Pinned conversations\<close>

text \<open>
  C4. A conversation with a live selection never reaches the default endpoint, whatever other requests
  change between the stages of its handling. A session-scoped request leaves only to the verified target
  its selection named on entry, with that target's header set; a bare request or relay whose headers name
  the conversation, and a relay under its session path however the id is percent-encoded, is refused.
\<close>

theorem pinned_never_default:
  assumes "zdr_selection conv (as_sessions st) = Some sel"
  shows "(\<forall>wire mf. messages_egress W K N now today path rq (Some conv) approved st s2 s3 = Inr (wire, mf) \<longrightarrow>
            (\<exists>t. map_of (as_targets st) sel = Some t \<and> zt_verified t \<and> wr_url wire = zt_base_url t @ path
               \<and> wr_headers wire = upstream_request_headers_zdr N (rq_headers rq) (zt_host t) t))
    \<and> (conversation_from_headers N (rq_headers rq) = Some conv \<longrightarrow>
         \<not> is_ok (messages_egress W K N now today path rq None approved st s2 s3)
         \<and> (parse_session_prefix (rq_path rq) = None \<longrightarrow> \<not> is_ok (fst (relay_verbatim W N rq st))))
    \<and> (\<forall>sid rest. parse_session_prefix (rq_path rq) = Some (sid, rest) \<and> percent_decode_segment sid = Some conv \<longrightarrow>
         \<not> is_ok (fst (relay_verbatim W N rq st)))"
proof (intro conjI allI impI; (elim conjE)?)
  fix wire mf
  assume "messages_egress W K N now today path rq (Some conv) approved st s2 s3 = Inr (wire, mf)"
  then show "\<exists>t. map_of (as_targets st) sel = Some t \<and> zt_verified t \<and> wr_url wire = zt_base_url t @ path
               \<and> wr_headers wire = upstream_request_headers_zdr N (rq_headers rq) (zt_host t) t"
    using assms by (auto simp: messages_egress_Inr intake_entry_Inr resolve_pinned_mode_Inr wire_build_def for_mode_def)
next
  assume "conversation_from_headers N (rq_headers rq) = Some conv"
  then show "\<not> is_ok (messages_egress W K N now today path rq None approved st s2 s3)"
    using assms by (auto simp: is_ok_ex split_paired_Ex messages_egress_Inr intake_entry_Inr bare_path_zdr_guard_def)
next
  assume "conversation_from_headers N (rq_headers rq) = Some conv" "parse_session_prefix (rq_path rq) = None"
  then show "\<not> is_ok (fst (relay_verbatim W N rq st))"
    using assms by (auto simp: is_ok_ex split_paired_Ex relay_verbatim_Inr)
next
  fix sid rest
  assume "parse_session_prefix (rq_path rq) = Some (sid, rest)" "percent_decode_segment sid = Some conv"
  then show "\<not> is_ok (fst (relay_verbatim W N rq st))"
    using assms by (auto simp: is_ok_ex split_paired_Ex relay_verbatim_Inr relay_session_Inr)
qed

text \<open>A state with an engine that registers no secret, one verified target and a selection of it.\<close>

definition sample_app :: "'c mask_engine \<Rightarrow> 'c app_state" where
  "sample_app e =
     \<lparr>as_engine = e, as_identity = \<lparr>ai_admin_key = ''k'', ai_project_root = ''/p''\<rparr>, as_upstream_base = ''https://up'',
      as_targets = [(''box'', sample_target)], as_default = None, as_sessions = [(''c1'', ''box'')],
      as_selections = NoFile, as_masking = masking_disabled_new, as_secrets_ready = True, as_ledger = None\<rparr>"

definition sample_rq :: "string \<Rightarrow> http_request" where
  "sample_rq path = \<lparr>rq_path = path, rq_query = None, rq_headers = [], rq_body = Some ''hi''\<rparr>"

lemma sample_mask_body:
  assumes "\<And>t s. user_bypass_segments t = None \<Longrightarrow> mask sample_env 0 t s e = (Inr (passthrough t stats_disabled), e)"
  shows "\<exists>mf. fst (mask_body sample_env sample_wire 0 ''hi'' False (sample_app e)) = Inr ([], mf)"
proof -
  have "user_bypass_segments ''hi'' = None" by code_simp
  then have "mask sample_env 0 ''hi'' s e = (Inr (passthrough ''hi'' stats_disabled), e)" for s using assms by blast
  then show ?thesis
    by (simp add: mask_body_def mask_request_def mask_request_inner_def sample_wire_def sample_app_def walk_str_def
        walker_new_def bnd_def)
qed

lemma no_secret_tripwire:
  "ss_compiled (e_secrets e) = [] \<Longrightarrow> \<not> header_tripwire W e h \<and> \<not> registered_secret_in_bytes W e b"
  by (auto simp: header_tripwire_def registered_secret_in_bytes_def registered_secret_in_header_value_def
      secret_hit_bytes_def list_ex_iff)

lemma pinned_never_default_witness:
  "\<exists>e wire mf. messages_egress sample_env sample_wire sample_net 0 0 ''/v1/messages''
        (sample_rq ''/sordino/session/c1/v1/messages'') (Some ''c1'') True (sample_app e) (sample_app e) (sample_app e) = Inr (wire, mf)
     \<and> wr_url wire = ''http://box:8080/v1/messages''
     \<and> \<not> is_ok (fst (relay_verbatim sample_env sample_net (sample_rq ''/sordino/session/c%31/v1/files'') (sample_app e)))"
proof -
  obtain e where e: "e_secrets e = secret_set_empty sample_prims"
    "\<And>t s. user_bypass_segments t = None \<Longrightarrow> mask sample_env 0 t s e = (Inr (passthrough t stats_disabled), e)"
    by (rule sample_off) blast
  let ?st = "sample_app e" and ?rq = "sample_rq ''/sordino/session/c1/v1/messages''"
  have sel: "zdr_selection ''c1'' (as_sessions ?st) = Some ''box''" by (simp add: zdr_selection_def sample_app_def)
  obtain mf where mf: "fst (mask_body sample_env sample_wire 0 ''hi'' False ?st) = Inr ([], mf)"
    using sample_mask_body [OF e(2)] by blast
  have entry: "fst (intake_entry sample_net 0 ?rq (Some ''c1'') ?st) = Inr (ZdrMode sample_target, False, ''hi'')"
    by (simp add: intake_entry_Inr secrets_gate_def bare_path_zdr_guard_def resolve_pinned_mode_Inr sel)
       (simp add: sample_app_def sample_target_def is_masking_disabled_def masking_disabled_new_def sample_rq_def)
  have clean: "\<not> header_tripwire sample_env (as_engine ?st) h" for h
    using no_secret_tripwire [of e] e(1) by (simp add: sample_app_def secret_set_empty_def)
  obtain wire where w: "messages_egress sample_env sample_wire sample_net 0 0 ''/v1/messages'' ?rq (Some ''c1'') True ?st ?st ?st
      = Inr (wire, mf)"
    using entry mf clean by (auto simp: messages_egress_Inr)
  have u: "wr_url wire = ''http://box:8080'' @ ''/v1/messages''"
    using pinned_never_default [OF sel, THEN conjunct1, rule_format, OF w] by (auto simp: sample_app_def sample_target_def)
  have "parse_session_prefix ''/sordino/session/c%31/v1/files'' = Some (''c%31'', ''/v1/files'')"
    "percent_decode_segment ''c%31'' = Some ''c1''" by code_simp+
  then have "\<not> is_ok (fst (relay_verbatim sample_env sample_net (sample_rq ''/sordino/session/c%31/v1/files'') ?st))"
    using pinned_never_default [OF sel, of sample_env sample_wire sample_net 0 0 "[]" "sample_rq ''/sordino/session/c%31/v1/files''" True ?st ?st]
    by (auto simp: sample_rq_def)
  with w u show ?thesis by (intro exI [of _ e] exI [of _ wire] exI [of _ mf]) simp
qed

section \<open>The relay carries no registered value\<close>

text \<open>An engine whose secret set was compiled from the given rules.\<close>

definition registers :: "'c env \<Rightarrow> 'c mask_engine \<Rightarrow> secret_rule list \<Rightarrow> bool" where
  "registers W e rules \<longleftrightarrow>
     ac_ok (text_of W) \<and> compile_secrets (prims_of W) (text_of W) rules = Inr (ss_compiled (e_secrets e))"

lemma secret_set_eta: "\<lparr>ss_compiled = ss_compiled S, ss_fp = ss_fp S\<rparr> = S"
  by simp

lemma registered_hit:
  assumes "registers W e rules" "r \<in> set rules" "contains (sr_value r) b"
  shows "secret_hit_bytes (text_of W) (e_secrets e) b enc"
proof -
  obtain u v where b: "b = u @ sr_value r @ v" using contains_split [OF assms(3)] by blast
  from plain_tier [of "text_of W" "prims_of W" rules "ss_compiled (e_secrets e)" r "ss_fp (e_secrets e)" u v enc]
  show ?thesis using assms(1,2) b by (simp add: registers_def secret_set_eta)
qed

lemma header_hit:
  assumes "registers W e rules" "r \<in> set rules" "\<not> header_tripwire W e h" "(n, v) \<in> set h" "\<not> is_client_credential n"
  shows "\<not> contains (sr_value r) v"
  using assms registered_hit [OF assms(1,2), of v False]
  by (auto simp: header_tripwire_def list_ex_iff registered_secret_in_header_value_def)

text \<open>What is relayed under a session path is, after its first slash, a suffix of what was scanned.\<close>

lemma session_path_suffix:
  assumes "parse_session_prefix (rq_path rq) = Some (sid, rest)"
  shows "\<exists>u tail. rest @ (case rq_query rq of Some q \<Rightarrow> ''?'' @ q | None \<Rightarrow> []) = CHR ''/'' # tail
    \<and> path_and_query rq = u @ tail"
proof -
  let ?after = "drop (length SESSION_PREFIX) (rq_path rq)"
  have r: "rest = CHR ''/'' # drop (length sid + 1) ?after"
    using assms by (auto simp: parse_session_prefix_def Let_def split: if_splits)
  have "rq_path rq = take (length SESSION_PREFIX + (length sid + 1)) (rq_path rq) @ drop (length sid + 1) ?after"
    by (simp add: drop_drop add.commute)
  then show ?thesis unfolding path_and_query_def r by (metis append.assoc append_Cons)
qed



section \<open>Batches\<close>

text \<open>
  The refusal of batches under a session path looks at the raw text. The plain path is refused; the
  same path behind a percent-encoded parent segment, which a URL parser resolves to it, is relayed as it
  stands.
\<close>

theorem batches_hidden:
  assumes "sid \<noteq> []" "CHR ''/'' \<notin> set sid" "percent_decode_segment sid = Some conv"
    and "zdr_selection conv (as_sessions st) = None" "ss_compiled (e_secrets (as_engine st)) = []"
    and "rq_query rq = None" "rq_body rq = Some body"
  shows "fst (relay_verbatim W N (rq\<lparr>rq_path := SESSION_PREFIX @ sid @ ''/v1/batches''\<rparr>) st) = Inl BatchesRefused
    \<and> (\<exists>wire. fst (relay_verbatim W N (rq\<lparr>rq_path := SESSION_PREFIX @ sid @ ''/v1/%2e%2e/v1/batches''\<rparr>) st) = Inr wire
           \<and> wr_url wire = as_upstream_base st @ ''/v1/%2e%2e/v1/batches'' \<and> wr_body wire = body)"
proof (rule conjI)
  have p: "parse_session_prefix (SESSION_PREFIX @ sid @ ''/'' @ rest) = Some (sid, ''/'' @ rest)" for rest
  proof -
    have "takeWhile (\<lambda>c. c \<noteq> CHR ''/'') (sid @ CHR ''/'' # rest) = sid"
      using assms(2) by (simp add: takeWhile_append)
    then show ?thesis using assms(1) by (simp add: parse_session_prefix_def Let_def)
  qed
  have clean: "\<not> header_tripwire W (as_engine st) h" "\<not> registered_secret_in_bytes W (as_engine st) b" for h b
    using no_secret_tripwire assms(5) by blast+
  have c: "\<not> has_traversal ''/v1/batches''" "is_batches ''/v1/batches''"
    "\<not> has_traversal ''/v1/%2e%2e/v1/batches''" "\<not> is_batches ''/v1/%2e%2e/v1/batches''" by code_simp+
  have "fst (relay_session W N rq' body sid ''/v1/batches'' st) = Inl BatchesRefused" for rq'
    using assms(3,4) c by (simp add: relay_session_def)
  then show "fst (relay_verbatim W N (rq\<lparr>rq_path := SESSION_PREFIX @ sid @ ''/v1/batches''\<rparr>) st) = Inl BatchesRefused"
    using p [of "''v1/batches''"] assms(7) clean by (simp add: relay_verbatim_def)
  show "\<exists>wire. fst (relay_verbatim W N (rq\<lparr>rq_path := SESSION_PREFIX @ sid @ ''/v1/%2e%2e/v1/batches''\<rparr>) st) = Inr wire
           \<and> wr_url wire = as_upstream_base st @ ''/v1/%2e%2e/v1/batches'' \<and> wr_body wire = body"
    using p [of "''v1/%2e%2e/v1/batches''"] assms(3,4,6,7) clean c
    by (simp add: relay_verbatim_Inr relay_session_Inr) (simp add: normal_wire_def wire_build_def for_mode_def)
qed

lemma batches_hidden_witness:
  "\<exists>e wire. fst (relay_verbatim sample_env sample_net (sample_rq ''/sordino/session/c2/v1/%2e%2e/v1/batches'') (sample_app e)) = Inr wire
     \<and> wr_url wire = ''https://up/v1/%2e%2e/v1/batches''"
proof -
  obtain e where e: "e_secrets e = secret_set_empty sample_prims"
    "\<And>t s. user_bypass_segments t = None \<Longrightarrow> mask sample_env 0 t s e = (Inr (passthrough t stats_disabled), e)"
    by (rule sample_off) blast
  have "percent_decode_segment ''c2'' = Some ''c2''" by code_simp
  from batches_hidden [of "''c2''", OF _ _ this, of "sample_app e" "sample_rq []" "''hi''" sample_env sample_net] e(1)
  show ?thesis
    by (auto simp: sample_app_def sample_rq_def zdr_selection_def secret_set_empty_def SESSION_PREFIX_def)
qed

section \<open>The audit reveal\<close>

text \<open>
  The audit reveal hands out a plaintext only to a caller that presents the admin key and this
  project's key, and only the decrypted value of a live entry that is not a broker secret; for everything
  else it answers without a value.
\<close>

theorem reveal_gated:
  assumes "reveal_route W N now h tok st = RevealPlain v"
  shows "ai_admin_key (as_identity st) \<noteq> [] \<and> header_str N ''x-sordino-key'' h = Some (ai_admin_key (as_identity st))
    \<and> header_str N ''x-sordino-project'' h = Some (project_key (prims_of W) (ai_project_root (as_identity st)))
    \<and> (\<exists>x. map_of (token_map (e_store (as_engine st))) tok = Some x \<and> live now x \<and> kind x \<noteq> Broker
         \<and> decrypt (prims_of W) (e_store (as_engine st)) (original_encrypted x) (nonce x) = Inr v)"
proof -
  have a: "authed_for_project (prims_of W) N (as_identity st) h"
    and r: "reveal_audit W now tok (as_engine st) \<in> {AuditPii v, AuditLocal v}"
    using assms by (auto simp: reveal_route_def split: if_splits reveal_audit_result.splits)
  from a have "ai_admin_key (as_identity st) \<noteq> [] \<and> header_str N ''x-sordino-key'' h = Some (ai_admin_key (as_identity st))
    \<and> header_str N ''x-sordino-project'' h = Some (project_key (prims_of W) (ai_project_root (as_identity st)))"
    by (auto simp: authed_for_project_def authed_def project_header_matches_def Let_def split: option.splits)
  moreover have "\<exists>x. map_of (token_map (e_store (as_engine st))) tok = Some x \<and> live now x \<and> kind x \<noteq> Broker
         \<and> decrypt (prims_of W) (e_store (as_engine st)) (original_encrypted x) (nonce x) = Inr v"
    using r by (auto simp: reveal_audit_def class_of_def reveal_def reveal_for_def ok_option_def
        split: option.splits if_splits token_kind.splits sum.splits)
  ultimately show ?thesis by blast
qed

lemma reveal_gated_witness:
  "\<exists>e h. reveal_route sample_env sample_net 0 h ''T'' (sample_app e) = RevealPlain ''a@b.c''
     \<and> header_str sample_net ''x-sordino-key'' h = Some ''k''"
proof -
  obtain e0 where "engine_new sample_env (engine_config_default sample_prims) = Inr e0"
    by (rule sample_engine)
  let ?x = "\<lparr>original_encrypted = ''kkka@b.c'', nonce = ''kkk'', kind = Pii, secret_name = None, expires_at = None\<rparr>"
  let ?e = "e0\<lparr>e_store := (store_new sample_prims)\<lparr>token_map := [(''T'', ?x)]\<rparr>\<rparr>"
  let ?h = "[(''x-sordino-key'', ''k''), (''x-sordino-project'', project_key sample_prims ''/p'')]"
  have "utf8_valid ''a@b.c''" by code_simp
  then have "decrypt sample_prims s ''kkka@b.c'' ''kkk'' = Inr ''a@b.c''" for s
    by (simp add: decrypt_def sample_prims_def)
  then have "reveal_route sample_env sample_net 0 ?h ''T'' (sample_app ?e) = RevealPlain ''a@b.c''"
    by (simp add: reveal_route_def authed_for_project_def authed_def header_str_def hd_get_def hd_values_def sample_net_def
        sample_env_def sample_app_def project_header_matches_def reveal_audit_def class_of_def live_def reveal_def ok_option_def)
  from this reveal_gated [OF this] show ?thesis by (intro exI [of _ ?e] exI [of _ ?h]) (simp add: sample_app_def)
qed

end
