(* ===== verification/Openai_Walk.thy ===== *)
theory Openai_Walk
  imports Wire_Walk
begin

text \<open>
  The request walks and the response walks of \<open>openai_chat.rs\<close> and \<open>openai_responses.rs\<close>. Both use the walker
  of \<open>walk.rs\<close> (engine, manifest, statistics, collecting mode, disabled mode) and the same walk over free JSON,
  which differs between them in the contract keys only.

  The wire types belong to another crate: the records hold the fields the walks read, the rest of each is
  opaque, and parsing and printing are fields of \<open>chat_api\<close> and \<open>responses_api\<close>.
\<close>

section \<open>Free JSON with contract keys\<close>

text \<open>
  \<open>value_safe\<close> and \<open>map_safe\<close> (the latter without the base64 rule). A contract key's subtree is scanned
  and left as it is, the data of a base64 object is neither scanned nor masked.
\<close>

fun carve_value :: "(string \<Rightarrow> bool) \<Rightarrow> 'c env \<Rightarrow> int \<Rightarrow> surface \<Rightarrow> json \<Rightarrow> ('c, json) walk"
  and carve_items :: "(string \<Rightarrow> bool) \<Rightarrow> 'c env \<Rightarrow> int \<Rightarrow> surface \<Rightarrow> json list \<Rightarrow> ('c, json list) walk"
  and carve_members ::
    "(string \<Rightarrow> bool) \<Rightarrow> 'c env \<Rightarrow> int \<Rightarrow> surface \<Rightarrow> bool \<Rightarrow> (string \<times> json) list \<Rightarrow> ('c, (string \<times> json) list) walk"
where
  "carve_value P W today s (JStr t) w = bnd (walk_str W today s t w) (\<lambda>t w. (Inr (JStr t), w))"
| "carve_value P W today s (JArr xs) w = bnd (carve_items P W today s xs w) (\<lambda>xs w. (Inr (JArr xs), w))"
| "carve_value P W today s (JObj ms) w =
     bnd (carve_members P W today s (is_base64_object ms) ms w) (\<lambda>ms w. (Inr (JObj ms), w))"
| "carve_value P W today s v w = (Inr v, w)"
| "carve_items P W today s [] w = (Inr [], w)"
| "carve_items P W today s (x # xs) w =
     bnd (carve_value P W today s x w) (\<lambda>x w. bnd (carve_items P W today s xs w) (\<lambda>xs w. (Inr (x # xs), w)))"
| "carve_members P W today s b64 [] w = (Inr [], w)"
| "carve_members P W today s b64 ((k, x) # ms) w =
     bnd (if b64 \<and> k = ''data'' then (Inr x, w)
          else if P k then walk_schema W x w
          else carve_value P W today s x w)
       (\<lambda>x w. bnd (carve_members P W today s b64 ms w) (\<lambda>ms w. (Inr ((k, x) # ms), w)))"

definition carve_map ::
  "(string \<Rightarrow> bool) \<Rightarrow> 'c env \<Rightarrow> int \<Rightarrow> surface \<Rightarrow> (string \<times> json) list \<Rightarrow> ('c, (string \<times> json) list) walk" where
  "carve_map P W today s m w = carve_members P W today s False m w"

fun first_some :: "('a \<Rightarrow> 'b option) \<Rightarrow> 'a list \<Rightarrow> 'b option" where
  "first_some f [] = None"
| "first_some f (x # xs) = (case f x of Some y \<Rightarrow> Some y | None \<Rightarrow> first_some f xs)"

text \<open>The roles of both wires.\<close>

definition openai_surface :: "string \<Rightarrow> surface" where
  "openai_surface role =
     (if role = ''assistant'' then AssistantText
      else if role = ''tool'' then ToolResult
      else if role = ''system'' \<or> role = ''developer'' then SystemPrompt
      else UserMessage)"

section \<open>Chat completions\<close>

definition chat_contract_key :: "string \<Rightarrow> bool" where
  "chat_contract_key k \<longleftrightarrow>
     k \<in> set [''model'', ''tools'', ''tool_choice'', ''response_format'', ''json_schema'', ''schema'', ''input_schema'',
       ''parameters'', ''guided_regex'', ''guided_grammar'', ''guided_choice'']"

datatype chat_part =
    CpText string string
  | CpImage string "(string \<times> json) list" string
  | CpOther string

datatype chat_content = CcText string | CcParts "chat_part list" | CcOther string

record chat_call =
  cl_arguments :: string
  cl_rest :: string

record chat_message =
  cm_role :: string
  cm_content :: "chat_content option"
  cm_tool_call_id :: "string option"
  cm_name :: "string option"
  cm_tool_calls :: "chat_call list option"
  cm_extra :: "(string \<times> json) list"
  cm_rest :: string

record chat_request =
  cr_messages :: "chat_message list"
  cr_tools :: "string list option"
  cr_response_format :: "json option"
  cr_tool_choice :: "json option"
  cr_guided_regex :: "string option"
  cr_guided_grammar :: "string option"
  cr_guided_choice :: "string list option"
  cr_extra_thinking :: "(string \<times> json) list option"
  cr_extra :: "(string \<times> json) list"
  cr_rest :: string

record chat_choice =
  ch_message :: chat_message
  ch_extra :: "(string \<times> json) list"
  ch_rest :: string

record chat_response =
  cs_choices :: "chat_choice list"
  cs_extra :: "(string \<times> json) list"
  cs_rest :: string

record chat_api =
  parse_chat :: "string \<Rightarrow> chat_request option"
  print_chat :: "chat_request \<Rightarrow> string option"
  chat_tool_value :: "string \<Rightarrow> json option"
  parse_chat_response :: "string \<Rightarrow> chat_response option"
  print_chat_response :: "chat_response \<Rightarrow> string option"

definition walk_chat_part :: "'c env \<Rightarrow> int \<Rightarrow> surface \<Rightarrow> chat_part \<Rightarrow> ('c, chat_part) walk" where
  "walk_chat_part W today s p w =
     (case p of
        CpText t r \<Rightarrow> bnd (walk_str W today s t w) (\<lambda>t w. (Inr (CpText t r), w))
      | CpImage u x r \<Rightarrow>
          bnd (if starts_with ''data:'' u then (Inr u, w) else walk_str W today s u w)
            (\<lambda>u w. bnd (carve_map chat_contract_key W today s x w) (\<lambda>x w. (Inr (CpImage u x r), w)))
      | CpOther r \<Rightarrow> (Inr p, w))"

definition walk_chat_content :: "'c env \<Rightarrow> int \<Rightarrow> surface \<Rightarrow> chat_content \<Rightarrow> ('c, chat_content) walk" where
  "walk_chat_content W today s c w =
     (case c of
        CcText t \<Rightarrow> bnd (walk_str W today s t w) (\<lambda>t w. (Inr (CcText t), w))
      | CcParts ps \<Rightarrow> bnd (walk_each (walk_chat_part W today s) ps w) (\<lambda>ps w. (Inr (CcParts ps), w))
      | CcOther r \<Rightarrow> (Inr c, w))"

definition walk_chat_call :: "'c env \<Rightarrow> int \<Rightarrow> chat_call \<Rightarrow> ('c, chat_call) walk" where
  "walk_chat_call W today c w =
     bnd (walk_str W today ToolUseInput (cl_arguments c) w) (\<lambda>a w. (Inr (c\<lparr>cl_arguments := a\<rparr>), w))"

definition walk_chat_message :: "'c env \<Rightarrow> int \<Rightarrow> chat_message \<Rightarrow> ('c, chat_message) walk" where
  "walk_chat_message W today m w =
     (let s = openai_surface (cm_role m) in
     bnd (walk_opt (walk_chat_content W today s) (cm_content m) w) (\<lambda>c w.
     bnd (if cm_role m = ''tool'' then walk_opt (walk_str W today ToolResult) (cm_tool_call_id m) w
          else (Inr (cm_tool_call_id m), w)) (\<lambda>i w.
     bnd (walk_opt (walk_str W today UserMessage) (cm_name m) w) (\<lambda>n w.
     bnd (walk_opt (walk_each (walk_chat_call W today)) (cm_tool_calls m) w) (\<lambda>calls w.
     bnd (carve_map chat_contract_key W today s (cm_extra m) w) (\<lambda>x w.
       (Inr (m\<lparr>cm_content := c, cm_tool_call_id := i, cm_name := n, cm_tool_calls := calls, cm_extra := x\<rparr>), w)))))))"

text \<open>The contract fields of the request: none is rewritten, each is scanned.\<close>

definition chat_contract_hit :: "'c env \<Rightarrow> chat_api \<Rightarrow> 'c mask_engine \<Rightarrow> chat_request \<Rightarrow> string option" where
  "chat_contract_hit W K e rq =
     first_some (\<lambda>h. h)
       [Option.bind (cr_tools rq)
          (first_some (\<lambda>t. Option.bind (chat_tool_value K t) (\<lambda>v. scan_value W e v 0))),
        Option.bind (cr_response_format rq) (\<lambda>v. scan_value W e v 0),
        Option.bind (cr_tool_choice rq) (\<lambda>v. scan_value W e v 0),
        Option.bind (cr_guided_regex rq) (registered_secret_hit W e),
        Option.bind (cr_guided_grammar rq) (registered_secret_hit W e),
        Option.bind (cr_guided_choice rq) (first_some (registered_secret_hit W e))]"

text \<open>\<open>extra_thinking\<close> is taken and its entries are added to \<open>extra\<close> where the key is free.\<close>

definition or_insert :: "string \<times> json \<Rightarrow> (string \<times> json) list \<Rightarrow> (string \<times> json) list" where
  "or_insert kv m = (if map_of m (fst kv) = None then m @ [kv] else m)"

definition fold_thinking :: "chat_request \<Rightarrow> chat_request" where
  "fold_thinking rq =
     (case cr_extra_thinking rq of
        None \<Rightarrow> rq
      | Some t \<Rightarrow> rq\<lparr>cr_extra_thinking := None, cr_extra := fold or_insert t (cr_extra rq)\<rparr>)"

definition walk_chat_request :: "'c env \<Rightarrow> chat_api \<Rightarrow> int \<Rightarrow> chat_request \<Rightarrow> ('c, chat_request) walk" where
  "walk_chat_request W K today rq0 w =
     (let rq = fold_thinking rq0 in
     bnd (walk_each (walk_chat_message W today) (cr_messages rq) w) (\<lambda>msgs w.
     bnd (refuse_hit (chat_contract_hit W K (w_engine w) rq) () w) (\<lambda>_ w.
     bnd (carve_map chat_contract_key W today UserMessage (cr_extra rq) w) (\<lambda>x w.
       (Inr (rq\<lparr>cr_messages := msgs, cr_extra := x\<rparr>), w)))))"

text \<open>The prewarm walks the request it is given in place, so the fold of \<open>extra_thinking\<close> stays.\<close>

definition chat_prewarm ::
  "'c env \<Rightarrow> chat_api \<Rightarrow> int \<Rightarrow> chat_request \<Rightarrow> 'c mask_engine \<Rightarrow> chat_request \<times> 'c mask_engine" where
  "chat_prewarm W K today rq e =
     (if \<not> ml_active (e_ml e) then (rq, e)
      else case walk_chat_request W K today rq (walker_new False (Some []) e) of
          (Inl _, w) \<Rightarrow> (fold_thinking rq, e)
        | (Inr rq', w) \<Rightarrow> (rq', case w_collect w of None \<Rightarrow> e | Some ls \<Rightarrow> prewarm_batch W today ls e))"

definition chat_mask_request_inner ::
  "'c env \<Rightarrow> chat_api \<Rightarrow> int \<Rightarrow> string \<Rightarrow> bool \<Rightarrow> 'c mask_engine
   \<Rightarrow> (mask_fault + string \<times> unmask_manifest) \<times> 'c mask_engine" where
  "chat_mask_request_inner W K today body force e =
     (case parse_chat K body of
        None \<Rightarrow> (Inl JsonFault, e)
      | Some rq \<Rightarrow>
          (let (rq, e) = (if force then (rq, e) else chat_prewarm W K today rq e)
           in case walk_chat_request W K today rq (walker_new force None e) of
             (Inl err, w) \<Rightarrow> (Inl (EngineFault err), w_engine w)
           | (Inr rq', w) \<Rightarrow>
               (case print_chat K rq' of
                  None \<Rightarrow> (Inl JsonFault, w_engine w)
                | Some bytes \<Rightarrow> (Inr (bytes, w_manifest w), w_engine w))))"

definition unmask_chat_message ::
  "'c env \<Rightarrow> json_api \<Rightarrow> nat \<Rightarrow> unmask_manifest \<Rightarrow> 'c mask_engine \<Rightarrow> chat_message \<Rightarrow> chat_message" where
  "unmask_chat_message W J now mf e m =
     m\<lparr>cm_content :=
         map_option (\<lambda>c. case c of
             CcText t \<Rightarrow> CcText (unmask_str_assistant W J now mf e t)
           | CcParts ps \<Rightarrow>
               CcParts (map (\<lambda>p. case p of CpText t r \<Rightarrow> CpText (unmask_str_assistant W J now mf e t) r | _ \<Rightarrow> p) ps)
           | CcOther r \<Rightarrow> c) (cm_content m),
       cm_tool_calls :=
         map_option (map (\<lambda>c. c\<lparr>cl_arguments := unmask_str_tool_input W J now mf e (cl_arguments c)\<rparr>)) (cm_tool_calls m),
       cm_extra := unmask_map W J now mf e (cm_extra m)\<rparr>"

definition chat_unmask_response ::
  "'c env \<Rightarrow> chat_api \<Rightarrow> json_api \<Rightarrow> nat \<Rightarrow> unmask_manifest \<Rightarrow> string \<Rightarrow> 'c mask_engine \<Rightarrow> mask_fault + string" where
  "chat_unmask_response W K J now mf body e =
     (case parse_chat_response K body of
        None \<Rightarrow> Inl JsonFault
      | Some rs \<Rightarrow>
          (case print_chat_response K
                  (rs\<lparr>cs_choices :=
                        map (\<lambda>c. c\<lparr>ch_message := unmask_chat_message W J now mf e (ch_message c),
                                   ch_extra := unmask_map W J now mf e (ch_extra c)\<rparr>) (cs_choices rs),
                      cs_extra := unmask_map W J now mf e (cs_extra rs)\<rparr>) of
             None \<Rightarrow> Inl JsonFault
           | Some bytes \<Rightarrow> Inr bytes))"

end
