(* ===== verification/Openai_Responses.thy ===== *)
theory Openai_Responses
  imports Openai_Walk
begin

text \<open>
  The request walk and the response walk of \<open>openai_responses.rs\<close>, over the records of the Responses wire.
\<close>

section \<open>Wire types\<close>

definition resp_contract_key :: "string \<Rightarrow> bool" where
  "resp_contract_key k \<longleftrightarrow>
     k \<in> set [''model'', ''tools'', ''tool_choice'', ''response_format'', ''text'', ''format'', ''json_schema'', ''schema'',
       ''input_schema'', ''parameters'', ''id'', ''item_id'', ''call_id'', ''file_id'', ''filename'', ''file_data'',
       ''image_file'', ''input_image'', ''encrypted_content'', ''signature'']"

text \<open>The last constructor of each type is the one the walks' default arm skips.\<close>

datatype resp_part =
    RpInputText string "(string \<times> json) list"
  | RpOutputText string "(string \<times> json) list" string
  | RpRefusal string "(string \<times> json) list"
  | RpInputImage "string option" "(string \<times> json) list" string
  | RpInputFile "(string \<times> json) list" string
  | RpOther json
  | RpSkipped string

datatype resp_content = RcText string | RcParts "resp_part list" | RcOther json | RcSkipped string

record resp_message =
  rm_role :: string
  rm_content :: "resp_content option"
  rm_extra :: "(string \<times> json) list"
  rm_rest :: string

record resp_call =
  rc_arguments :: string
  rc_extra :: "(string \<times> json) list"
  rc_rest :: string

record resp_call_output =
  ro_output :: string
  ro_extra :: "(string \<times> json) list"
  ro_rest :: string

datatype resp_item =
    RiMessage resp_message
  | RiCall resp_call
  | RiOutput resp_call_output
  | RiOther json
  | RiSkipped string

datatype resp_input = InText string | InItems "resp_item list" | InOther json | InSkipped string

record resp_request =
  rr_input :: "resp_input option"
  rr_instructions :: "string option"
  rr_metadata :: "json option"
  rr_tools :: "json list option"
  rr_text :: "json option"
  rr_response_format :: "json option"
  rr_tool_choice :: "json option"
  rr_reasoning :: "json option"
  rr_extra :: "(string \<times> json) list"
  rr_rest :: string

record resp_object =
  rb_output :: "resp_item list"
  rb_output_text :: "string option"
  rb_extra :: "(string \<times> json) list"
  rb_rest :: string

record responses_api =
  parse_resp :: "string \<Rightarrow> resp_request option"
  print_resp :: "resp_request \<Rightarrow> string option"
  parse_resp_object :: "string \<Rightarrow> resp_object option"
  print_resp_object :: "resp_object \<Rightarrow> string option"

section \<open>Requests\<close>

definition walk_resp_part :: "'c env \<Rightarrow> int \<Rightarrow> surface \<Rightarrow> resp_part \<Rightarrow> ('c, resp_part) walk" where
  "walk_resp_part W today s p w =
     (case p of
        RpInputText t x \<Rightarrow>
          bnd (walk_str W today s t w) (\<lambda>t w.
          bnd (carve_map resp_contract_key W today s x w) (\<lambda>x w. (Inr (RpInputText t x), w)))
      | RpOutputText t x r \<Rightarrow>
          bnd (walk_str W today s t w) (\<lambda>t w.
          bnd (carve_map resp_contract_key W today s x w) (\<lambda>x w. (Inr (RpOutputText t x r), w)))
      | RpRefusal t x \<Rightarrow>
          bnd (walk_str W today AssistantText t w) (\<lambda>t w.
          bnd (carve_map resp_contract_key W today AssistantText x w) (\<lambda>x w. (Inr (RpRefusal t x), w)))
      | RpInputImage u x r \<Rightarrow>
          bnd (walk_opt (\<lambda>u w. if starts_with ''data:'' u then (Inr u, w) else walk_str W today s u w) u w) (\<lambda>u w.
          bnd (carve_map resp_contract_key W today s x w) (\<lambda>x w. (Inr (RpInputImage u x r), w)))
      | RpInputFile x r \<Rightarrow>
          bnd (carve_map resp_contract_key W today s x w) (\<lambda>x w. (Inr (RpInputFile x r), w))
      | RpOther v \<Rightarrow> bnd (carve_value resp_contract_key W today s v w) (\<lambda>v w. (Inr (RpOther v), w))
      | RpSkipped r \<Rightarrow> (Inr p, w))"

definition walk_resp_content :: "'c env \<Rightarrow> int \<Rightarrow> surface \<Rightarrow> resp_content \<Rightarrow> ('c, resp_content) walk" where
  "walk_resp_content W today s c w =
     (case c of
        RcText t \<Rightarrow> bnd (walk_str W today s t w) (\<lambda>t w. (Inr (RcText t), w))
      | RcParts ps \<Rightarrow> bnd (walk_each (walk_resp_part W today s) ps w) (\<lambda>ps w. (Inr (RcParts ps), w))
      | RcOther v \<Rightarrow> bnd (carve_value resp_contract_key W today s v w) (\<lambda>v w. (Inr (RcOther v), w))
      | RcSkipped r \<Rightarrow> (Inr c, w))"

definition walk_resp_message :: "'c env \<Rightarrow> int \<Rightarrow> resp_message \<Rightarrow> ('c, resp_message) walk" where
  "walk_resp_message W today m w =
     (let s = openai_surface (rm_role m) in
     bnd (walk_opt (walk_resp_content W today s) (rm_content m) w) (\<lambda>c w.
     bnd (carve_map resp_contract_key W today s (rm_extra m) w) (\<lambda>x w.
       (Inr (m\<lparr>rm_content := c, rm_extra := x\<rparr>), w))))"

definition walk_resp_call :: "'c env \<Rightarrow> int \<Rightarrow> resp_call \<Rightarrow> ('c, resp_call) walk" where
  "walk_resp_call W today c w =
     bnd (walk_str W today ToolUseInput (rc_arguments c) w) (\<lambda>a w.
     bnd (carve_map resp_contract_key W today ToolUseInput (rc_extra c) w) (\<lambda>x w.
       (Inr (c\<lparr>rc_arguments := a, rc_extra := x\<rparr>), w)))"

definition walk_resp_output :: "'c env \<Rightarrow> int \<Rightarrow> resp_call_output \<Rightarrow> ('c, resp_call_output) walk" where
  "walk_resp_output W today c w =
     bnd (walk_str W today ToolResult (ro_output c) w) (\<lambda>a w.
     bnd (carve_map resp_contract_key W today ToolResult (ro_extra c) w) (\<lambda>x w.
       (Inr (c\<lparr>ro_output := a, ro_extra := x\<rparr>), w)))"

definition walk_resp_item :: "'c env \<Rightarrow> int \<Rightarrow> resp_item \<Rightarrow> ('c, resp_item) walk" where
  "walk_resp_item W today i w =
     (case i of
        RiMessage m \<Rightarrow> bnd (walk_resp_message W today m w) (\<lambda>m w. (Inr (RiMessage m), w))
      | RiCall c \<Rightarrow> bnd (walk_resp_call W today c w) (\<lambda>c w. (Inr (RiCall c), w))
      | RiOutput c \<Rightarrow> bnd (walk_resp_output W today c w) (\<lambda>c w. (Inr (RiOutput c), w))
      | RiOther v \<Rightarrow> bnd (carve_value resp_contract_key W today UserMessage v w) (\<lambda>v w. (Inr (RiOther v), w))
      | RiSkipped r \<Rightarrow> (Inr i, w))"

definition walk_resp_input :: "'c env \<Rightarrow> int \<Rightarrow> resp_input \<Rightarrow> ('c, resp_input) walk" where
  "walk_resp_input W today i w =
     (case i of
        InText t \<Rightarrow> bnd (walk_str W today UserMessage t w) (\<lambda>t w. (Inr (InText t), w))
      | InItems xs \<Rightarrow> bnd (walk_each (walk_resp_item W today) xs w) (\<lambda>xs w. (Inr (InItems xs), w))
      | InOther v \<Rightarrow> bnd (carve_value resp_contract_key W today UserMessage v w) (\<lambda>v w. (Inr (InOther v), w))
      | InSkipped r \<Rightarrow> (Inr i, w))"

definition resp_contract_hit :: "'c env \<Rightarrow> 'c mask_engine \<Rightarrow> resp_request \<Rightarrow> string option" where
  "resp_contract_hit W e rq =
     first_some (\<lambda>h. h)
       [Option.bind (rr_tools rq) (first_some (\<lambda>v. scan_value W e v 0)),
        first_some (\<lambda>f. Option.bind f (\<lambda>v. scan_value W e v 0))
          [rr_text rq, rr_response_format rq, rr_tool_choice rq, rr_reasoning rq]]"

definition walk_resp_request :: "'c env \<Rightarrow> int \<Rightarrow> resp_request \<Rightarrow> ('c, resp_request) walk" where
  "walk_resp_request W today rq w =
     bnd (walk_opt (walk_resp_input W today) (rr_input rq) w) (\<lambda>i w.
     bnd (walk_opt (walk_str W today SystemPrompt) (rr_instructions rq) w) (\<lambda>s w.
     bnd (walk_opt (carve_value resp_contract_key W today UserMessage) (rr_metadata rq) w) (\<lambda>md w.
     bnd (refuse_hit (resp_contract_hit W (w_engine w) rq) () w) (\<lambda>_ w.
     bnd (carve_map resp_contract_key W today UserMessage (rr_extra rq) w) (\<lambda>x w.
       (Inr (rq\<lparr>rr_input := i, rr_instructions := s, rr_metadata := md, rr_extra := x\<rparr>), w))))))"

definition resp_prewarm :: "'c env \<Rightarrow> int \<Rightarrow> resp_request \<Rightarrow> 'c mask_engine \<Rightarrow> 'c mask_engine" where
  "resp_prewarm W today rq e =
     (if \<not> ml_active (e_ml e) then e
      else case walk_resp_request W today rq (walker_new False (Some []) e) of
          (Inl _, w) \<Rightarrow> e
        | (Inr _, w) \<Rightarrow> (case w_collect w of None \<Rightarrow> e | Some ls \<Rightarrow> prewarm_batch W today ls e))"

definition resp_mask_request_inner ::
  "'c env \<Rightarrow> responses_api \<Rightarrow> int \<Rightarrow> string \<Rightarrow> bool \<Rightarrow> 'c mask_engine
   \<Rightarrow> (mask_fault + string \<times> unmask_manifest) \<times> 'c mask_engine" where
  "resp_mask_request_inner W K today body force e =
     (case parse_resp K body of
        None \<Rightarrow> (Inl JsonFault, e)
      | Some rq \<Rightarrow>
          (let e = (if force then e else resp_prewarm W today rq e)
           in case walk_resp_request W today rq (walker_new force None e) of
             (Inl err, w) \<Rightarrow> (Inl (EngineFault err), w_engine w)
           | (Inr rq', w) \<Rightarrow>
               (case print_resp K rq' of
                  None \<Rightarrow> (Inl JsonFault, w_engine w)
                | Some bytes \<Rightarrow> (Inr (bytes, w_manifest w), w_engine w))))"

section \<open>Responses\<close>

definition unmask_resp_part ::
  "'c env \<Rightarrow> json_api \<Rightarrow> nat \<Rightarrow> unmask_manifest \<Rightarrow> 'c mask_engine \<Rightarrow> resp_part \<Rightarrow> resp_part" where
  "unmask_resp_part W J now mf e p =
     (case p of
        RpOutputText t x r \<Rightarrow> RpOutputText (unmask_str_assistant W J now mf e t) (unmask_map W J now mf e x) r
      | RpInputText t x \<Rightarrow> RpInputText (unmask_str W J now mf e t) (unmask_map W J now mf e x)
      | RpRefusal t x \<Rightarrow> RpRefusal (unmask_str_assistant W J now mf e t) (unmask_map W J now mf e x)
      | RpInputImage u x r \<Rightarrow> RpInputImage u (unmask_map W J now mf e x) r
      | RpInputFile x r \<Rightarrow> RpInputFile (unmask_map W J now mf e x) r
      | RpOther v \<Rightarrow> RpOther (unmask_value_tool_input W J now mf e v)
      | RpSkipped r \<Rightarrow> p)"

definition unmask_resp_message ::
  "'c env \<Rightarrow> json_api \<Rightarrow> nat \<Rightarrow> unmask_manifest \<Rightarrow> 'c mask_engine \<Rightarrow> resp_message \<Rightarrow> resp_message" where
  "unmask_resp_message W J now mf e m =
     m\<lparr>rm_content :=
         map_option (\<lambda>c. case c of
             RcText t \<Rightarrow> RcText (unmask_str_assistant W J now mf e t)
           | RcParts ps \<Rightarrow> RcParts (map (unmask_resp_part W J now mf e) ps)
           | RcOther v \<Rightarrow> RcOther (unmask_value_tool_input W J now mf e v)
           | RcSkipped r \<Rightarrow> c) (rm_content m),
       rm_extra := unmask_map W J now mf e (rm_extra m)\<rparr>"

definition unmask_output_item ::
  "'c env \<Rightarrow> json_api \<Rightarrow> nat \<Rightarrow> unmask_manifest \<Rightarrow> 'c mask_engine \<Rightarrow> resp_item \<Rightarrow> resp_item" where
  "unmask_output_item W J now mf e i =
     (case i of
        RiMessage m \<Rightarrow> RiMessage (unmask_resp_message W J now mf e m)
      | RiCall c \<Rightarrow>
          RiCall (c\<lparr>rc_arguments := unmask_str_tool_input W J now mf e (rc_arguments c),
                    rc_extra := unmask_map_tool_input W J now mf e (rc_extra c)\<rparr>)
      | RiOutput c \<Rightarrow>
          RiOutput (c\<lparr>ro_output := unmask_str W J now mf e (ro_output c), ro_extra := unmask_map W J now mf e (ro_extra c)\<rparr>)
      | RiOther v \<Rightarrow> RiOther (unmask_value_tool_input W J now mf e v)
      | RiSkipped r \<Rightarrow> i)"

definition unmask_resp_object ::
  "'c env \<Rightarrow> json_api \<Rightarrow> nat \<Rightarrow> unmask_manifest \<Rightarrow> 'c mask_engine \<Rightarrow> resp_object \<Rightarrow> resp_object" where
  "unmask_resp_object W J now mf e rs =
     rs\<lparr>rb_output := map (unmask_output_item W J now mf e) (rb_output rs),
        rb_output_text := map_option (unmask_str_assistant W J now mf e) (rb_output_text rs),
        rb_extra := unmask_map W J now mf e (rb_extra rs)\<rparr>"

definition resp_unmask_response ::
  "'c env \<Rightarrow> responses_api \<Rightarrow> json_api \<Rightarrow> nat \<Rightarrow> unmask_manifest \<Rightarrow> string \<Rightarrow> 'c mask_engine \<Rightarrow> mask_fault + string" where
  "resp_unmask_response W K J now mf body e =
     (case parse_resp_object K body of
        None \<Rightarrow> Inl JsonFault
      | Some rs \<Rightarrow>
          (case print_resp_object K (unmask_resp_object W J now mf e rs) of None \<Rightarrow> Inl JsonFault | Some bytes \<Rightarrow> Inr bytes))"

end
