(* ===== verification/Openai_Sse.thy ===== *)
theory Openai_Sse
  imports Openai_Responses Sse_Unmask
begin

text \<open>
  The streamed answers of \<open>openai_chat.rs\<close> and \<open>openai_responses.rs\<close>: the carry buffers per choice, call or item, the
  per-event transform, the flush of held tails and what an incoming event puts on the output queue. The
  modules' own copies of \<open>classify\<close> and \<open>split_safe\<close> are those of \<open>sse.rs\<close>. The hash maps are association
  lists, listed in one of their iteration orders; the monitor capture is left out.
\<close>

section \<open>Carry buffers\<close>

text \<open>\<open>buffered_content\<close>, \<open>buffered_tool\<close>, \<open>buffered_text\<close> and \<open>buffered_args\<close> up to key and unmask function.\<close>

definition carry_unmask ::
  "(string \<Rightarrow> string) \<Rightarrow> 'k \<Rightarrow> string \<Rightarrow> ('k \<times> string) list \<Rightarrow> string \<times> ('k \<times> string) list" where
  "carry_unmask f key incoming c =
     (let buf = (case map_of c key of Some h \<Rightarrow> h | None \<Rightarrow> []) @ incoming;
          (safe, held) = split_safe buf
      in (f safe, hm_insert key held c))"

definition held_tails :: "('k \<times> string) list \<Rightarrow> ('k \<times> string) list" where
  "held_tails c = filter (\<lambda>(_, v). v \<noteq> []) c"

datatype ('ev) sse_out = OutEvent "string option" 'ev | OutRaw "string option" string

text \<open>The bytes of a queued frame; an event that cannot be printed is dropped.\<close>

definition openai_frame :: "string option \<Rightarrow> string \<Rightarrow> string" where
  "openai_frame event data =
     (case event of Some n \<Rightarrow> ''event: '' @ n @ [CHR 0x0A] | None \<Rightarrow> []) @ ''data: '' @ data @ [CHR 0x0A, CHR 0x0A]"

fun out_frame :: "('ev \<Rightarrow> string option) \<Rightarrow> 'ev sse_out \<Rightarrow> string list" where
  "out_frame print (OutEvent n ev) = (case print ev of Some d \<Rightarrow> [openai_frame n d] | None \<Rightarrow> [])"
| "out_frame print (OutRaw n d) = [openai_frame n d]"

section \<open>Chat completions\<close>

record call_delta =
  cd_index :: int
  cd_arguments :: "string option option"
  cd_rest :: string

record chat_delta =
  dl_content :: "string option"
  dl_tool_calls :: "call_delta list option"
  dl_extra :: "(string \<times> json) list"
  dl_rest :: string

record stream_choice =
  sc_index :: int
  sc_delta :: chat_delta
  sc_finish :: "string option"
  sc_extra :: "(string \<times> json) list"
  sc_rest :: string

record chat_chunk =
  ck_envelope :: string
  ck_choices :: "stream_choice list"
  ck_usage :: "string option"
  ck_extra :: "(string \<times> json) list"
  ck_rest :: string

record chat_unmasker =
  cu_content :: "(int \<times> string) list"
  cu_tool :: "((int \<times> int) \<times> string) list"
  cu_envelope :: string

definition chat_unmasker_new :: chat_unmasker where
  "chat_unmasker_new = \<lparr>cu_content = [], cu_tool = [], cu_envelope = []\<rparr>"

definition delta_default :: chat_delta where
  "delta_default = \<lparr>dl_content = None, dl_tool_calls = None, dl_extra = [], dl_rest = []\<rparr>"

text \<open>A chunk for a flushed tail: the envelope of the latest chunk, one choice, defaults elsewhere.\<close>

definition flush_chunk :: "string \<Rightarrow> int \<Rightarrow> chat_delta \<Rightarrow> chat_chunk" where
  "flush_chunk env i d =
     \<lparr>ck_envelope = env,
      ck_choices = [\<lparr>sc_index = i, sc_delta = d, sc_finish = None, sc_extra = [], sc_rest = []\<rparr>],
      ck_usage = None, ck_extra = [], ck_rest = []\<rparr>"

definition content_chunk :: "string \<Rightarrow> int \<Rightarrow> string \<Rightarrow> chat_chunk" where
  "content_chunk env i t = flush_chunk env i (delta_default\<lparr>dl_content := Some t\<rparr>)"

definition tool_chunk :: "string \<Rightarrow> int \<Rightarrow> int \<Rightarrow> string \<Rightarrow> chat_chunk" where
  "tool_chunk env i j t =
     flush_chunk env i (delta_default\<lparr>dl_tool_calls := Some [\<lparr>cd_index = j, cd_arguments = Some (Some t), cd_rest = []\<rparr>]\<rparr>)"

definition some_text :: "string \<Rightarrow> string option" where
  "some_text t = (if t = [] then None else Some t)"

definition chat_call_step ::
  "'c env \<Rightarrow> json_api \<Rightarrow> nat \<Rightarrow> 'c mask_engine \<Rightarrow> unmask_manifest \<Rightarrow> int \<Rightarrow> call_delta \<Rightarrow> chat_unmasker
   \<Rightarrow> call_delta \<times> chat_unmasker" where
  "chat_call_step W J now e mf i c u =
     (case cd_arguments c of
        Some (Some a) \<Rightarrow>
          (let (t, m) = carry_unmask (unmask_kind W J now e mf HeldInputJson) (i, cd_index c) a (cu_tool u)
           in (c\<lparr>cd_arguments := Some (some_text t)\<rparr>, u\<lparr>cu_tool := m\<rparr>))
      | _ \<Rightarrow> (c, u))"

fun thread :: "('a \<Rightarrow> 's \<Rightarrow> 'a \<times> 's) \<Rightarrow> 'a list \<Rightarrow> 's \<Rightarrow> 'a list \<times> 's" where
  "thread f [] s = ([], s)"
| "thread f (x # xs) s = (let (y, s) = f x s; (ys, s) = thread f xs s in (y # ys, s))"

definition chat_choice_step ::
  "'c env \<Rightarrow> json_api \<Rightarrow> nat \<Rightarrow> 'c mask_engine \<Rightarrow> unmask_manifest \<Rightarrow> stream_choice \<Rightarrow> chat_unmasker
   \<Rightarrow> stream_choice \<times> chat_unmasker" where
  "chat_choice_step W J now e mf c u =
     (let d = sc_delta c;
          (content, u) =
            (case dl_content d of
               Some t \<Rightarrow>
                 (let (t, m) = carry_unmask (unmask_kind W J now e mf HeldText) (sc_index c) t (cu_content u)
                  in (some_text t, u\<lparr>cu_content := m\<rparr>))
             | None \<Rightarrow> (None, u));
          (calls, u) =
            (case dl_tool_calls d of
               Some cs \<Rightarrow> (let (cs, u) = thread (chat_call_step W J now e mf (sc_index c)) cs u in (Some cs, u))
             | None \<Rightarrow> (None, u))
      in (c\<lparr>sc_delta := d\<lparr>dl_content := content, dl_tool_calls := calls, dl_extra := unmask_map W J now mf e (dl_extra d)\<rparr>,
            sc_extra := unmask_map W J now mf e (sc_extra c)\<rparr>, u))"

definition chat_process ::
  "'c env \<Rightarrow> json_api \<Rightarrow> nat \<Rightarrow> 'c mask_engine \<Rightarrow> unmask_manifest \<Rightarrow> chat_chunk \<Rightarrow> chat_unmasker
   \<Rightarrow> chat_chunk \<times> chat_unmasker" where
  "chat_process W J now e mf ck u =
     (let (cs, u) = thread (chat_choice_step W J now e mf) (ck_choices ck) (u\<lparr>cu_envelope := ck_envelope ck\<rparr>)
      in (ck\<lparr>ck_choices := cs, ck_extra := unmask_map W J now mf e (ck_extra ck)\<rparr>, u))"

definition chat_flush ::
  "'c env \<Rightarrow> json_api \<Rightarrow> nat \<Rightarrow> 'c mask_engine \<Rightarrow> unmask_manifest \<Rightarrow> chat_unmasker
   \<Rightarrow> chat_chunk sse_out list \<times> chat_unmasker" where
  "chat_flush W J now e mf u =
     (List.map_filter (\<lambda>(i, held). let t = unmask_kind W J now e mf HeldText held
                                    in if t = [] then None else Some (OutEvent None (content_chunk (cu_envelope u) i t)))
        (held_tails (cu_content u))
      @ List.map_filter (\<lambda>((i, j), held). let t = unmask_kind W J now e mf HeldInputJson held
                                    in if t = [] then None else Some (OutEvent None (tool_chunk (cu_envelope u) i j t)))
        (held_tails (cu_tool u)),
      u\<lparr>cu_content := [], cu_tool := []\<rparr>)"

definition chunk_terminal :: "chat_chunk \<Rightarrow> bool" where
  "chunk_terminal ck \<longleftrightarrow> ck_usage ck \<noteq> None \<or> list_ex (\<lambda>c. sc_finish c \<noteq> None) (ck_choices ck)"

definition chunk_has_content :: "chat_chunk \<Rightarrow> bool" where
  "chunk_has_content ck \<longleftrightarrow>
     list_ex (\<lambda>c. dl_content (sc_delta c) \<noteq> None \<or> dl_tool_calls (sc_delta c) \<noteq> None) (ck_choices ck)"

definition content_part :: "chat_chunk \<Rightarrow> chat_chunk" where
  "content_part ck = ck\<lparr>ck_usage := None, ck_choices := map (\<lambda>c. c\<lparr>sc_finish := None\<rparr>) (ck_choices ck)\<rparr>"

definition terminal_part :: "chat_chunk \<Rightarrow> chat_chunk" where
  "terminal_part ck = ck\<lparr>ck_choices := map (\<lambda>c. c\<lparr>sc_delta := delta_default\<rparr>) (ck_choices ck)\<rparr>"

text \<open>An incoming event: its name, its data, and the chunk the data parses to.\<close>

record 'ev sse_in =
  in_event :: "string option"
  in_data :: string
  in_parsed :: "'ev option"

definition chat_enqueue ::
  "'c env \<Rightarrow> json_api \<Rightarrow> nat \<Rightarrow> 'c mask_engine \<Rightarrow> unmask_manifest \<Rightarrow> chat_chunk sse_in \<Rightarrow> chat_unmasker
   \<Rightarrow> chat_chunk sse_out list \<times> chat_unmasker" where
  "chat_enqueue W J now e mf ev u =
     (if trim (in_data ev) = ''[DONE]'' then
        (let (fl, u) = chat_flush W J now e mf u in (fl @ [OutRaw (in_event ev) ''[DONE]''], u))
      else case in_parsed ev of
          None \<Rightarrow> ([OutRaw (in_event ev) (in_data ev)], u)
        | Some ck \<Rightarrow>
            (let (out, u) = chat_process W J now e mf ck u
             in if chunk_terminal out \<and> chunk_has_content out then
                  (let (fl, u) = chat_flush W J now e mf u
                   in ([OutEvent (in_event ev) (content_part out)] @ fl @ [OutEvent (in_event ev) (terminal_part out)], u))
                else if chunk_terminal out then
                  (let (fl, u) = chat_flush W J now e mf u in (fl @ [OutEvent (in_event ev) out], u))
                else ([OutEvent (in_event ev) out], u)))"

text \<open>The events of a stream; one that ends without an error is flushed a last time.\<close>

fun chat_stream ::
  "'c env \<Rightarrow> json_api \<Rightarrow> nat \<Rightarrow> 'c mask_engine \<Rightarrow> unmask_manifest \<Rightarrow> bool \<Rightarrow> chat_chunk sse_in list \<Rightarrow> chat_unmasker
   \<Rightarrow> chat_chunk sse_out list" where
  "chat_stream W J now e mf ended [] u = (if ended then fst (chat_flush W J now e mf u) else [])"
| "chat_stream W J now e mf ended (ev # evs) u =
     (let (out, u) = chat_enqueue W J now e mf ev u in out @ chat_stream W J now e mf ended evs u)"

section \<open>Responses\<close>

type_synonym text_key = "string option \<times> nat option \<times> nat option"
type_synonym args_key = "string option \<times> nat option"

datatype resp_event =
    ReTextDelta text_key string string
  | ReArgsDelta args_key string string
  | ReItemDone "resp_item option" string
  | ReCompleted "resp_object option" "(string \<times> json) list" string
  | ReFailed "resp_object option" "(string \<times> json) list" string
  | ReIncomplete "resp_object option" "(string \<times> json) list" string
  | ReOther json
  | ReSkipped string

record resp_unmasker =
  ru_text :: "(text_key \<times> string) list"
  ru_args :: "(args_key \<times> string) list"

definition resp_unmasker_new :: resp_unmasker where
  "resp_unmasker_new = \<lparr>ru_text = [], ru_args = []\<rparr>"

definition resp_process ::
  "'c env \<Rightarrow> json_api \<Rightarrow> nat \<Rightarrow> 'c mask_engine \<Rightarrow> unmask_manifest \<Rightarrow> resp_event \<Rightarrow> resp_unmasker
   \<Rightarrow> resp_event list \<times> resp_unmasker" where
  "resp_process W J now e mf ev u =
     (let completed = map_option (unmask_resp_object W J now mf e); extras = unmask_map W J now mf e
      in case ev of
        ReTextDelta k d r \<Rightarrow>
          (let (t, m) = carry_unmask (unmask_kind W J now e mf HeldText) k d (ru_text u)
           in (if t = [] then [] else [ReTextDelta k t r], u\<lparr>ru_text := m\<rparr>))
      | ReArgsDelta k d r \<Rightarrow>
          (let (t, m) = carry_unmask (unmask_kind W J now e mf HeldInputJson) k d (ru_args u)
           in (if t = [] then [] else [ReArgsDelta k t r], u\<lparr>ru_args := m\<rparr>))
      | ReItemDone i r \<Rightarrow> ([ReItemDone (map_option (unmask_output_item W J now mf e) i) r], u)
      | ReCompleted ob x r \<Rightarrow> ([ReCompleted (completed ob) (extras x) r], u)
      | ReFailed ob x r \<Rightarrow> ([ReFailed (completed ob) (extras x) r], u)
      | ReIncomplete ob x r \<Rightarrow> ([ReIncomplete (completed ob) (extras x) r], u)
      | ReOther v \<Rightarrow> ([ReOther (unmask_value_tool_input W J now mf e v)], u)
      | ReSkipped r \<Rightarrow> ([ev], u))"

definition resp_flush ::
  "'c env \<Rightarrow> json_api \<Rightarrow> nat \<Rightarrow> 'c mask_engine \<Rightarrow> unmask_manifest \<Rightarrow> resp_unmasker
   \<Rightarrow> resp_event sse_out list \<times> resp_unmasker" where
  "resp_flush W J now e mf u =
     (List.map_filter (\<lambda>(k, held). let t = unmask_kind W J now e mf HeldText held
                                    in if t = [] then None
                                       else Some (OutEvent (Some ''response.output_text.delta'') (ReTextDelta k t [])))
        (held_tails (ru_text u))
      @ List.map_filter (\<lambda>(k, held). let t = unmask_kind W J now e mf HeldInputJson held
                                    in if t = [] then None
                                       else Some (OutEvent (Some ''response.function_call_arguments.delta'') (ReArgsDelta k t [])))
        (held_tails (ru_args u)),
      u\<lparr>ru_text := [], ru_args := []\<rparr>)"

fun event_terminal :: "resp_event \<Rightarrow> bool" where
  "event_terminal (ReCompleted _ _ _) \<longleftrightarrow> True"
| "event_terminal (ReFailed _ _ _) \<longleftrightarrow> True"
| "event_terminal (ReIncomplete _ _ _) \<longleftrightarrow> True"
| "event_terminal _ \<longleftrightarrow> False"

definition resp_enqueue ::
  "'c env \<Rightarrow> json_api \<Rightarrow> nat \<Rightarrow> 'c mask_engine \<Rightarrow> unmask_manifest \<Rightarrow> resp_event sse_in \<Rightarrow> resp_unmasker
   \<Rightarrow> resp_event sse_out list \<times> resp_unmasker" where
  "resp_enqueue W J now e mf ev u =
     (if trim (in_data ev) = ''[DONE]'' then
        (let (fl, u) = resp_flush W J now e mf u in (fl @ [OutRaw (in_event ev) ''[DONE]''], u))
      else case in_parsed ev of
          None \<Rightarrow> ([OutRaw (in_event ev) (in_data ev)], u)
        | Some x \<Rightarrow>
            (let (out, u) = resp_process W J now e mf x u;
                 (fl, u) = (if list_ex event_terminal out then resp_flush W J now e mf u else ([], u))
             in (fl @ map (OutEvent (in_event ev)) out, u)))"

fun resp_stream ::
  "'c env \<Rightarrow> json_api \<Rightarrow> nat \<Rightarrow> 'c mask_engine \<Rightarrow> unmask_manifest \<Rightarrow> bool \<Rightarrow> resp_event sse_in list \<Rightarrow> resp_unmasker
   \<Rightarrow> resp_event sse_out list" where
  "resp_stream W J now e mf ended [] u = (if ended then fst (resp_flush W J now e mf u) else [])"
| "resp_stream W J now e mf ended (ev # evs) u =
     (let (out, u) = resp_enqueue W J now e mf ev u in out @ resp_stream W J now e mf ended evs u)"

end
