(* ===== verification/Openai_Sse_Laws.thy ===== *)
theory Openai_Sse_Laws
  imports Openai_Sse Sse_Laws
begin

text \<open>
  The streamed OpenAI answers against unmasking the whole text. The four carry buffers (a choice's content,
  a call's arguments, a part's text, an item's arguments) follow one contract, a locale: pieces go through
  the safe split, a flush releases the held tail as it is. What the locale proves needs the flush to come
  after the last piece; the chunk that is flushed too early is a theorem too.
\<close>

section \<open>The contract of a carry buffer\<close>

text \<open>The pieces of text that go through one carry buffer: what is emitted, and what is held at the end.\<close>

fun carry_run :: "(string \<Rightarrow> string) \<Rightarrow> string \<Rightarrow> string list \<Rightarrow> string \<times> string" where
  "carry_run f h [] = ([], h)"
| "carry_run f h (c # cs) =
     (let (safe, h) = split_safe (h @ c); (out, h) = carry_run f h cs in (f safe @ out, h))"

lemma carry_run_append:
  "carry_run f h (xs @ ys) =
     (fst (carry_run f h xs) @ fst (carry_run f (snd (carry_run f h xs)) ys),
      snd (carry_run f (snd (carry_run f h xs)) ys))"
  by (induction xs arbitrary: h) (simp_all add: split_beta Let_def)

definition release :: "(string \<Rightarrow> string) \<Rightarrow> string \<Rightarrow> string" where
  "release f h = (if h = [] then [] else f h)"

lemma release_subst:
  assumes "\<And>s. ok s \<Longrightarrow> f s = subst token_match p s" "ok h"
  shows "release f h = subst token_match p h"
  using assms tok.subst_no_match [of "[]" p] by (simp add: release_def)

lemma carry_run_subst:
  assumes sub: "\<And>s. ok s \<Longrightarrow> f s = subst token_match p s"
    and part: "\<And>a b. ok (a @ b) \<Longrightarrow> ok a \<and> ok b"
  shows "carry_run f h cs = (out, h') \<Longrightarrow> bounded_tokens (h @ concat cs @ g) \<Longrightarrow> ok (h @ concat cs @ g)
    \<Longrightarrow> (\<exists>s. h @ concat cs = s @ h')
      \<and> subst token_match p (h @ concat cs @ g) = out @ subst token_match p (h' @ g)"
proof (induction cs arbitrary: h out)
  case (Cons c cs)
  obtain safe k where s: "split_safe (h @ c) = (safe, k)" by fastforce
  obtain o' where o': "carry_run f k cs = (o', h')" "out = f safe @ o'"
    using Cons.prems(1) s by (cases "carry_run f k cs") auto
  have eq: "h @ concat (c # cs) @ g = safe @ k @ concat cs @ g"
    using split_safe_append [OF s] by (metis append.assoc concat.simps(2))
  have b: "bounded_tokens (k @ concat cs @ g)" "ok safe" "ok (k @ concat cs @ g)"
    using Cons.prems(2,3) bounded_suffix [of safe "k @ concat cs @ g"] part unfolding eq by blast+
  have "no_straddle token_match safe (k @ concat cs @ g)"
    using split_safe_cut [OF s, of "concat cs @ g"] Cons.prems(2) by simp
  from tok.subst_append [OF this, of p] sub [OF b(2)]
  have "subst token_match p (h @ concat (c # cs) @ g) = f safe @ subst token_match p (k @ concat cs @ g)"
    unfolding eq by simp
  moreover from Cons.IH [OF o'(1) b(1,3)] obtain t where "k @ concat cs = t @ h'"
    "subst token_match p (k @ concat cs @ g) = o' @ subst token_match p (h' @ g)" by blast
  moreover have "h @ concat (c # cs) = safe @ k @ concat cs" using split_safe_append [OF s] by (metis append.assoc concat.simps(2))
  ultimately show ?case using o'(2) by (metis append.assoc)
qed simp

text \<open>No event flushes the buffer before its last piece of text.\<close>

fun settled :: "('ev \<Rightarrow> bool) \<Rightarrow> ('ev \<Rightarrow> string list) \<Rightarrow> 'ev list \<Rightarrow> bool" where
  "settled fl pcs [] \<longleftrightarrow> True"
| "settled fl pcs (ev # evs) \<longleftrightarrow>
     (fl ev \<longrightarrow> concat (concat (map pcs evs)) = []) \<and> settled fl pcs evs"

locale carried =
  fixes step :: "'ev \<Rightarrow> 'u \<Rightarrow> 'o list \<times> 'u"
    and stream :: "'ev list \<Rightarrow> 'u \<Rightarrow> 'o list"
    and good :: "'u \<Rightarrow> bool"
    and held :: "'u \<Rightarrow> string"
    and pieces :: "'ev \<Rightarrow> string list"
    and text_of :: "'o \<Rightarrow> string"
    and flushes :: "'ev \<Rightarrow> bool"
    and f :: "string \<Rightarrow> string"
  assumes stream_nil: "good u \<Longrightarrow> concat (map text_of (stream [] u)) = release f (held u)"
    and stream_cons: "stream (ev # evs) u = fst (step ev u) @ stream evs (snd (step ev u))"
    and step_good: "good u \<Longrightarrow> good (snd (step ev u))"
    and quiet: "good u \<Longrightarrow> \<not> flushes ev
      \<Longrightarrow> (concat (map text_of (fst (step ev u))), held (snd (step ev u))) = carry_run f (held u) (pieces ev)"
    and flushed: "good u \<Longrightarrow> flushes ev
      \<Longrightarrow> concat (map text_of (fst (step ev u)))
        = fst (carry_run f (held u) (pieces ev)) @ release f (snd (carry_run f (held u) (pieces ev)))
        \<and> held (snd (step ev u)) = []"
begin

lemma stream_text:
  assumes sub: "\<And>s. ok s \<Longrightarrow> f s = subst token_match p s"
    and part: "\<And>a b. ok (a @ b) \<Longrightarrow> ok a \<and> ok b"
  shows "good u \<Longrightarrow> settled flushes pieces evs \<Longrightarrow> bounded_tokens (held u @ concat (concat (map pieces evs)))
    \<Longrightarrow> ok (held u @ concat (concat (map pieces evs)))
    \<Longrightarrow> concat (map text_of (stream evs u)) = subst token_match p (held u @ concat (concat (map pieces evs)))"
proof (induction evs arbitrary: u)
  case Nil
  then show ?case using release_subst [where ok = ok, OF sub] by (simp add: stream_nil)
next
  case (Cons ev evs)
  let ?t = "concat (concat (map pieces evs))"
  obtain out h where r: "carry_run f (held u) (pieces ev) = (out, h)" by fastforce
  have b: "bounded_tokens (held u @ concat (pieces ev) @ ?t)" "ok (held u @ concat (pieces ev) @ ?t)"
    using Cons.prems(3,4) by simp_all
  from carry_run_subst [where ok = ok, OF sub part r b] obtain s where s: "held u @ concat (pieces ev) = s @ h"
    "subst token_match p (held u @ concat (pieces ev) @ ?t) = out @ subst token_match p (h @ ?t)" by blast
  have eq: "held u @ concat (pieces ev) @ ?t = s @ h @ ?t" using s(1) by (metis append.assoc)
  have ih: "bounded_tokens (h @ ?t)" "ok (h @ ?t)"
    using b bounded_suffix [of s "h @ ?t"] part unfolding eq by blast+
  show ?case
  proof (cases "flushes ev")
    case True
    then have t: "?t = []" using Cons.prems(2) by simp
    moreover have "ok h" "ok []" using ih(2) part [of h "[]"] unfolding t append_Nil2 by blast+
    moreover have "bounded_tokens []" by (rule short_bounded) simp
    ultimately have "concat (map text_of (stream evs (snd (step ev u)))) = []"
      using Cons.IH [of "snd (step ev u)"] step_good [OF Cons.prems(1), of ev] flushed [OF Cons.prems(1) True]
        Cons.prems(2) tok.subst_no_match [of "[]" p] by (simp only: t append_Nil settled.simps list.size)
    with flushed [OF Cons.prems(1) True] release_subst [where ok = ok, OF sub, of h] \<open>ok h\<close> r s(2) t show ?thesis
      by (simp only: stream_cons map_append concat_append fst_conv snd_conv append_Nil2 list.map concat.simps)
  next
    case False
    from quiet [OF Cons.prems(1) False] Cons.IH [of "snd (step ev u)"] step_good [OF Cons.prems(1), of ev] Cons.prems(2) r s(2) ih
    show ?thesis by (simp add: stream_cons)
  qed
qed

end

section \<open>Chat completions\<close>

definition held_of :: "'k \<Rightarrow> ('k \<times> string) list \<Rightarrow> string" where
  "held_of k c = (case map_of c k of Some h \<Rightarrow> h | None \<Rightarrow> [])"

lemma held_of_simps [simp]:
  "held_of k [] = []"
  "held_of k (hm_insert k' v c) = (if k = k' then v else held_of k c)"
  by (simp_all add: held_of_def)

lemma carry_unmask_held:
  "carry_unmask f k t c = (f (fst (split_safe (held_of k c @ t))), hm_insert k (snd (split_safe (held_of k c @ t))) c)"
  by (simp add: carry_unmask_def held_of_def split_beta Let_def)

lemma some_text_cases [simp]: "(case some_text t of Some t \<Rightarrow> [t] | None \<Rightarrow> []) = (if t = [] then [] else [t])"
  by (simp add: some_text_def)

text \<open>The content pieces of a choice, and the argument pieces of one of its calls.\<close>

definition choice_content :: "int \<Rightarrow> stream_choice \<Rightarrow> string list" where
  "choice_content i c =
     (if sc_index c = i then case dl_content (sc_delta c) of Some t \<Rightarrow> [t] | None \<Rightarrow> [] else [])"

definition call_args :: "int \<Rightarrow> call_delta \<Rightarrow> string list" where
  "call_args j d = (if cd_index d = j then case cd_arguments d of Some (Some a) \<Rightarrow> [a] | _ \<Rightarrow> [] else [])"

definition choice_args :: "int \<Rightarrow> int \<Rightarrow> stream_choice \<Rightarrow> string list" where
  "choice_args i j c =
     (if sc_index c = i then case dl_tool_calls (sc_delta c) of Some cs \<Rightarrow> concat (map (call_args j) cs) | None \<Rightarrow> []
      else [])"

definition chunk_pieces :: "(stream_choice \<Rightarrow> string list) \<Rightarrow> chat_chunk \<Rightarrow> string list" where
  "chunk_pieces g ck = concat (map g (ck_choices ck))"

definition chat_event_pieces :: "(stream_choice \<Rightarrow> string list) \<Rightarrow> chat_chunk sse_in \<Rightarrow> string list" where
  "chat_event_pieces g ev =
     (if trim (in_data ev) = ''[DONE]'' then []
      else case in_parsed ev of Some ck \<Rightarrow> chunk_pieces g ck | None \<Rightarrow> [])"

fun chat_out_text :: "(stream_choice \<Rightarrow> string list) \<Rightarrow> chat_chunk sse_out \<Rightarrow> string" where
  "chat_out_text g (OutEvent n ck) = concat (chunk_pieces g ck)"
| "chat_out_text g (OutRaw n d) = []"

definition chat_flushes :: "chat_chunk sse_in \<Rightarrow> bool" where
  "chat_flushes ev \<longleftrightarrow>
     trim (in_data ev) = ''[DONE]'' \<or> (case in_parsed ev of Some ck \<Rightarrow> chunk_terminal ck | None \<Rightarrow> False)"

definition chat_good :: "chat_unmasker \<Rightarrow> bool" where
  "chat_good u \<longleftrightarrow> keys_distinct (cu_content u) \<and> keys_distinct (cu_tool u)"

lemma concat_map_nil: "concat (map (\<lambda>x. []) xs) = []"
  by (induction xs) simp_all

lemma thread_carry:
  assumes "\<And>x u. (concat (pcs (fst (g x u))), hl (snd (g x u))) = carry_run f (hl u) (pcs x)"
  shows "(concat (concat (map pcs (fst (thread g xs u)))), hl (snd (thread g xs u)))
    = carry_run f (hl u) (concat (map pcs xs))"
proof (induction xs arbitrary: u)
  case (Cons x xs)
  from assms [of x u] Cons.IH [of "snd (g x u)"] show ?case
    by (simp add: split_beta carry_run_append prod_eq_iff)
qed simp

lemma thread_keeps:
  assumes "\<And>x u. P u \<Longrightarrow> P (snd (g x u))"
  shows "P u \<Longrightarrow> P (snd (thread g xs u))"
  by (induction xs arbitrary: u) (simp_all add: split_beta Let_def assms)

lemma thread_list_ex:
  assumes "\<And>x u. P (fst (g x u)) \<longleftrightarrow> P x"
  shows "list_ex P (fst (thread g xs u)) \<longleftrightarrow> list_ex P xs"
  by (induction xs arbitrary: u) (simp_all add: split_beta Let_def assms)

text \<open>A selector of pieces and the buffer they go through: what one chunk does to them.\<close>

lemma call_step_args:
  "(concat (if i' = i then call_args j (fst (chat_call_step W J now e mf i' c u)) else []),
    held_of (i, j) (cu_tool (snd (chat_call_step W J now e mf i' c u))))
   = carry_run (unmask_kind W J now e mf HeldInputJson) (held_of (i, j) (cu_tool u)) (if i' = i then call_args j c else [])"
proof (cases "cd_arguments c")
  case (Some a)
  then show ?thesis
    by (cases a) (auto simp: chat_call_step_def carry_unmask_held call_args_def some_text_def split_beta Let_def)
qed (simp add: chat_call_step_def call_args_def)

lemma call_step_content: "cu_content (snd (chat_call_step W J now e mf i c u)) = cu_content u"
  by (auto simp: chat_call_step_def split_beta Let_def split: option.split)

lemma choice_step_content:
  "(concat (choice_content i (fst (chat_choice_step W J now e mf c u))),
    held_of i (cu_content (snd (chat_choice_step W J now e mf c u))))
   = carry_run (unmask_kind W J now e mf HeldText) (held_of i (cu_content u)) (choice_content i c)"
proof -
  have t: "cu_content (snd (thread (chat_call_step W J now e mf k) cs v)) = cu_content v" for k cs v
    by (rule thread_keeps [where P = "\<lambda>w. cu_content w = cu_content v"]) (simp_all add: call_step_content)
  show ?thesis
    by (auto simp: chat_choice_step_def carry_unmask_held choice_content_def some_text_def split_beta Let_def t
        split: option.split)
qed

text \<open>The state between a choice's content and its calls.\<close>

definition after_content ::
  "'c env \<Rightarrow> json_api \<Rightarrow> nat \<Rightarrow> 'c mask_engine \<Rightarrow> unmask_manifest \<Rightarrow> stream_choice \<Rightarrow> chat_unmasker \<Rightarrow> chat_unmasker" where
  "after_content W J now e mf c u =
     (case dl_content (sc_delta c) of
        Some t \<Rightarrow> u\<lparr>cu_content := snd (carry_unmask (unmask_kind W J now e mf HeldText) (sc_index c) t (cu_content u))\<rparr>
      | None \<Rightarrow> u)"

lemma choice_step_state:
  "snd (chat_choice_step W J now e mf c u)
     = (case dl_tool_calls (sc_delta c) of
          Some cs \<Rightarrow> snd (thread (chat_call_step W J now e mf (sc_index c)) cs (after_content W J now e mf c u))
        | None \<Rightarrow> after_content W J now e mf c u)"
  by (auto simp: chat_choice_step_def after_content_def split_beta Let_def split: option.split)

lemma choice_step_calls:
  "sc_index (fst (chat_choice_step W J now e mf c u)) = sc_index c"
  "dl_tool_calls (sc_delta (fst (chat_choice_step W J now e mf c u)))
     = map_option (\<lambda>cs. fst (thread (chat_call_step W J now e mf (sc_index c)) cs (after_content W J now e mf c u)))
         (dl_tool_calls (sc_delta c))"
  by (auto simp: chat_choice_step_def after_content_def split_beta Let_def split: option.split)

lemma choice_step_args:
  "(concat (choice_args i j (fst (chat_choice_step W J now e mf c u))),
    held_of (i, j) (cu_tool (snd (chat_choice_step W J now e mf c u))))
   = carry_run (unmask_kind W J now e mf HeldInputJson) (held_of (i, j) (cu_tool u)) (choice_args i j c)"
proof -
  let ?k = "sc_index c" and ?v = "after_content W J now e mf c u"
  have v: "cu_tool ?v = cu_tool u" by (simp add: after_content_def split: option.split)
  have t: "(concat (concat (map (\<lambda>d. if ?k = i then call_args j d else []) (fst (thread (chat_call_step W J now e mf ?k) cs ?v)))),
      held_of (i, j) (cu_tool (snd (thread (chat_call_step W J now e mf ?k) cs ?v))))
    = carry_run (unmask_kind W J now e mf HeldInputJson) (held_of (i, j) (cu_tool u))
        (concat (map (\<lambda>d. if ?k = i then call_args j d else []) cs))" for cs
    using thread_carry [where hl = "\<lambda>u. held_of (i, j) (cu_tool u)", OF call_step_args, where xs = cs and u = ?v] unfolding v .
  show ?thesis
  proof (cases "dl_tool_calls (sc_delta c)")
    case None
    then show ?thesis unfolding choice_args_def choice_step_state choice_step_calls by (simp add: v)
  next
    case (Some cs)
    then show ?thesis using t [of cs] unfolding choice_args_def choice_step_state choice_step_calls
      by (cases "?k = i") (simp_all add: concat_map_nil)
  qed
qed

lemma process_carry:
  assumes "\<And>c u. (concat (g (fst (chat_choice_step W J now e mf c u))), hl (snd (chat_choice_step W J now e mf c u)))
      = carry_run f (hl u) (g c)"
    and "\<And>u x. hl (u\<lparr>cu_envelope := x\<rparr>) = hl u"
  shows "(concat (chunk_pieces g (fst (chat_process W J now e mf ck u))), hl (snd (chat_process W J now e mf ck u)))
    = carry_run f (hl u) (chunk_pieces g ck)"
  using thread_carry [where g = "chat_choice_step W J now e mf" and hl = hl and pcs = g, OF assms(1),
      where xs = "ck_choices ck" and u = "u\<lparr>cu_envelope := ck_envelope ck\<rparr>"]
  by (simp add: chat_process_def chunk_pieces_def split_beta Let_def assms(2))

lemma process_terminal: "chunk_terminal (fst (chat_process W J now e mf ck u)) \<longleftrightarrow> chunk_terminal ck"
proof -
  have "list_ex (\<lambda>c. sc_finish c \<noteq> None) (fst (thread (chat_choice_step W J now e mf) cs v))
      \<longleftrightarrow> list_ex (\<lambda>c. sc_finish c \<noteq> None) cs" for cs v
    by (rule thread_list_ex) (simp add: chat_choice_step_def split_beta Let_def)
  then show ?thesis by (simp add: chunk_terminal_def chat_process_def split_beta Let_def)
qed

lemma process_good: "chat_good u \<Longrightarrow> chat_good (snd (chat_process W J now e mf ck u))"
proof -
  have call: "chat_good v \<Longrightarrow> chat_good (snd (chat_call_step W J now e mf i c v))" for i c v
    by (auto simp: chat_call_step_def chat_good_def carry_unmask_held split: option.split)
  have "chat_good (snd (chat_choice_step W J now e mf c v))" if v: "chat_good v" for c v
  proof -
    have "chat_good (after_content W J now e mf c v)"
      using v by (auto simp: after_content_def chat_good_def carry_unmask_held split: option.split)
    then show ?thesis unfolding choice_step_state
      by (cases "dl_tool_calls (sc_delta c)") (simp_all only: option.case thread_keeps [where P = chat_good, OF call])
  qed
  then show "chat_good u \<Longrightarrow> chat_good (snd (chat_process W J now e mf ck u))"
    unfolding chat_process_def split_beta Let_def snd_conv
    using thread_keeps [where P = chat_good, of "chat_choice_step W J now e mf" "u\<lparr>cu_envelope := ck_envelope ck\<rparr>"]
    by (simp add: chat_good_def)
qed

text \<open>The release of the held tails.\<close>

lemma flush_text:
  assumes "keys_distinct c" "\<And>k h. concat (map tx (g (k, h))) = (if k = i then f h else [])"
  shows "concat (map tx (concat (map g (held_tails c)))) = release f (held_of i c)"
  using assms(1)
proof (induction c)
  case (Cons x c)
  obtain k h where x: "x = (k, h)" by (cases x)
  have "k = i \<Longrightarrow> held_of i c = []"
    using Cons.prems x by (auto simp: keys_distinct_def held_of_def map_of_eq_None_iff [symmetric])
  moreover have "keys_distinct c" using Cons.prems by (simp add: keys_distinct_def)
  moreover have "held_of i (x # c) = (if k = i then h else held_of i c)" using x by (simp add: held_of_def)
  ultimately show ?case using Cons.IH x assms(2) [of k h]
    by (auto simp: held_tails_def release_def simp del: concat_eq_Nil_conv)
qed (simp add: held_tails_def release_def)

lemma flush_none:
  assumes "\<And>x. concat (map tx (g x)) = []"
  shows "concat (map tx (concat (map g xs))) = []"
  by (induction xs) (simp_all add: assms)

lemma map_filter_concat: "List.map_filter g xs = concat (map (\<lambda>x. case g x of Some y \<Rightarrow> [y] | None \<Rightarrow> []) xs)"
  by (induction xs) (auto simp: List.map_filter_def split: option.split)

section \<open>The lanes of a chat stream\<close>

text \<open>A lane is one kind of text of one choice, with its buffer and how it is unmasked.\<close>

locale chat_lane =
  fixes W :: "'c env" and J :: json_api and now :: nat and e :: "'c mask_engine" and mf :: unmask_manifest
    and g :: "stream_choice \<Rightarrow> string list" and hl :: "chat_unmasker \<Rightarrow> string" and f :: "string \<Rightarrow> string"
  assumes choice_step:
      "(concat (g (fst (chat_choice_step W J now e mf c u))), hl (snd (chat_choice_step W J now e mf c u)))
        = carry_run f (hl u) (g c)"
    and envelope: "hl (u\<lparr>cu_envelope := x\<rparr>) = hl u"
    and flush: "chat_good u \<Longrightarrow> concat (map (chat_out_text g) (fst (chat_flush W J now e mf u))) = release f (hl u)"
    and flushed_empty: "hl (snd (chat_flush W J now e mf u)) = []"
    and in_delta: "dl_content (sc_delta c) = None \<Longrightarrow> dl_tool_calls (sc_delta c) = None \<Longrightarrow> g c = []"
    and not_in_finish: "g (c\<lparr>sc_finish := None\<rparr>) = g c"
begin

lemma no_content: "\<not> chunk_has_content ck \<Longrightarrow> chunk_pieces g ck = []"
  by (auto simp: chunk_has_content_def chunk_pieces_def list_ex_iff intro: in_delta)

lemma parts: "chunk_pieces g (content_part ck) = chunk_pieces g ck" "chunk_pieces g (terminal_part ck) = []"
proof -
  show "chunk_pieces g (content_part ck) = chunk_pieces g ck"
    by (simp add: chunk_pieces_def content_part_def not_in_finish comp_def)
  show "chunk_pieces g (terminal_part ck) = []"
    by (rule no_content) (simp add: chunk_has_content_def terminal_part_def delta_default_def list_ex_iff)
qed

lemma flush_good: "chat_good (snd (chat_flush W J now e mf u))"
  by (simp add: chat_flush_def chat_good_def)

lemma enqueue:
  assumes "chat_good u"
  shows "chat_good (snd (chat_enqueue W J now e mf ev u))
    \<and> concat (map (chat_out_text g) (fst (chat_enqueue W J now e mf ev u)))
      = fst (carry_run f (hl u) (chat_event_pieces g ev))
        @ (if chat_flushes ev then release f (snd (carry_run f (hl u) (chat_event_pieces g ev))) else [])
    \<and> hl (snd (chat_enqueue W J now e mf ev u))
      = (if chat_flushes ev then [] else snd (carry_run f (hl u) (chat_event_pieces g ev)))"
proof (cases "trim (in_data ev) = ''[DONE]''")
  case True
  then show ?thesis using flush [OF assms] flushed_empty [of u] flush_good [of u]
    by (simp add: chat_enqueue_def chat_event_pieces_def chat_flushes_def split_beta Let_def)
next
  case data: False
  show ?thesis
  proof (cases "in_parsed ev")
    case None
    with data assms show ?thesis by (simp add: chat_enqueue_def chat_event_pieces_def chat_flushes_def)
  next
    case (Some ck)
    obtain out v where p: "chat_process W J now e mf ck u = (out, v)" by fastforce
    have c: "concat (chunk_pieces g out) = fst (carry_run f (hl u) (chunk_pieces g ck))"
      "hl v = snd (carry_run f (hl u) (chunk_pieces g ck))"
      using process_carry [where g = g and hl = hl, OF choice_step envelope, of ck u] p by (simp_all add: prod_eq_iff)
    have v: "chat_good v" "chunk_terminal out \<longleftrightarrow> chunk_terminal ck"
      using process_good [OF assms, of W J now e mf ck] process_terminal [of W J now e mf ck u] p by simp_all
    have "\<not> chunk_has_content out \<Longrightarrow> fst (carry_run f (hl u) (chunk_pieces g ck)) = []"
      using no_content [of out] c(1) by simp
    then show ?thesis
      using c v p data Some flush [OF v(1)] flushed_empty [of v] flush_good [of v] parts [of out]
      by (simp add: chat_enqueue_def chat_event_pieces_def chat_flushes_def split_beta Let_def)
  qed
qed

end

sublocale chat_lane \<subseteq> carried "chat_enqueue W J now e mf" "chat_stream W J now e mf True" chat_good hl
    "chat_event_pieces g" "chat_out_text g" chat_flushes f
proof
  show "chat_stream W J now e mf True (ev # evs) u
      = fst (chat_enqueue W J now e mf ev u) @ chat_stream W J now e mf True evs (snd (chat_enqueue W J now e mf ev u))"
    for ev evs u by (simp add: split_beta)
qed (simp_all add: flush enqueue prod_eq_iff)

text \<open>The frames of a flush, one list per held tail.\<close>

definition tail_frames :: "('k \<Rightarrow> string \<Rightarrow> string) \<Rightarrow> ('k \<Rightarrow> string \<Rightarrow> 'o) \<Rightarrow> 'k \<times> string \<Rightarrow> 'o list" where
  "tail_frames F C x = (let t = F (fst x) (snd x) in if t = [] then [] else [C (fst x) t])"

lemma map_filter_frames:
  "List.map_filter (\<lambda>x. let t = F (fst x) (snd x) in if t = [] then None else Some (C (fst x) t)) xs
     = concat (map (tail_frames F C) xs)"
  unfolding map_filter_concat
  by (rule arg_cong [of _ _ concat], rule map_cong [OF refl]) (simp add: tail_frames_def Let_def)

lemma chat_flush_frames:
  "fst (chat_flush W J now e mf u)
     = concat (map (tail_frames (\<lambda>_. unmask_kind W J now e mf HeldText) (\<lambda>i t. OutEvent None (content_chunk (cu_envelope u) i t)))
         (held_tails (cu_content u)))
       @ concat (map (tail_frames (\<lambda>_. unmask_kind W J now e mf HeldInputJson)
           (\<lambda>ij t. OutEvent None (tool_chunk (cu_envelope u) (fst ij) (snd ij) t)))
         (held_tails (cu_tool u)))"
  unfolding map_filter_frames [symmetric] by (simp add: chat_flush_def case_prod_unfold)

lemma flush_pieces:
  "chunk_pieces (choice_content i) (content_chunk env k t) = (if k = i then [t] else [])"
  "chunk_pieces (choice_content i) (tool_chunk env k l t) = []"
  "chunk_pieces (choice_args i j) (content_chunk env k t) = []"
  "chunk_pieces (choice_args i j) (tool_chunk env k l t) = (if (k, l) = (i, j) then [t] else [])"
  unfolding chunk_pieces_def content_chunk_def tool_chunk_def flush_chunk_def delta_default_def
  by (simp_all add: choice_content_def choice_args_def call_args_def)

interpretation content: chat_lane W J now e mf "choice_content i" "\<lambda>u. held_of i (cu_content u)"
    "unmask_kind W J now e mf HeldText" for W J now e mf i
proof
  fix u assume u: "chat_good u"
  let ?c = "tail_frames (\<lambda>_. unmask_kind W J now e mf HeldText) (\<lambda>i t. OutEvent None (content_chunk (cu_envelope u) i t))"
    and ?t = "tail_frames (\<lambda>_. unmask_kind W J now e mf HeldInputJson)
      (\<lambda>ij t. OutEvent None (tool_chunk (cu_envelope u) (fst ij) (snd ij) t))"
  have "concat (map (chat_out_text (choice_content i)) (?c (k, h))) = (if k = i then unmask_kind W J now e mf HeldText h else [])" for k h
    by (simp add: tail_frames_def Let_def flush_pieces)
  moreover have "concat (map (chat_out_text (choice_content i)) (?t x)) = []" for x
    by (simp add: tail_frames_def Let_def flush_pieces)
  ultimately show "concat (map (chat_out_text (choice_content i)) (fst (chat_flush W J now e mf u)))
      = release (unmask_kind W J now e mf HeldText) (held_of i (cu_content u))"
    using flush_text [where g = ?c and i = i and tx = "chat_out_text (choice_content i)", of "cu_content u"]
      flush_none [where g = ?t and tx = "chat_out_text (choice_content i)", of "held_tails (cu_tool u)"] u
    by (simp add: chat_flush_frames chat_good_def)
next
  show "held_of i (cu_content (snd (chat_flush W J now e mf u))) = []" for u by (simp add: chat_flush_def)
  show "choice_content i c = []" if "dl_content (sc_delta c) = None" for c using that by (simp add: choice_content_def)
  show "choice_content i (c\<lparr>sc_finish := None\<rparr>) = choice_content i c" for c by (simp add: choice_content_def)
  show "(concat (choice_content i (fst (chat_choice_step W J now e mf c u))),
      held_of i (cu_content (snd (chat_choice_step W J now e mf c u))))
    = carry_run (unmask_kind W J now e mf HeldText) (held_of i (cu_content u)) (choice_content i c)" for c u by (rule choice_step_content)
qed simp

interpretation args: chat_lane W J now e mf "choice_args i j" "\<lambda>u. held_of (i, j) (cu_tool u)"
    "unmask_kind W J now e mf HeldInputJson" for W J now e mf i j
proof
  fix u assume u: "chat_good u"
  let ?c = "tail_frames (\<lambda>_. unmask_kind W J now e mf HeldText) (\<lambda>i t. OutEvent None (content_chunk (cu_envelope u) i t))"
    and ?t = "tail_frames (\<lambda>_. unmask_kind W J now e mf HeldInputJson)
      (\<lambda>ij t. OutEvent None (tool_chunk (cu_envelope u) (fst ij) (snd ij) t))"
  have "concat (map (chat_out_text (choice_args i j)) (?t (kl, h))) = (if kl = (i, j) then unmask_kind W J now e mf HeldInputJson h else [])" for kl h
    by (cases kl) (auto simp: tail_frames_def Let_def flush_pieces)
  moreover have "concat (map (chat_out_text (choice_args i j)) (?c x)) = []" for x
    by (simp add: tail_frames_def Let_def flush_pieces)
  ultimately show "concat (map (chat_out_text (choice_args i j)) (fst (chat_flush W J now e mf u)))
      = release (unmask_kind W J now e mf HeldInputJson) (held_of (i, j) (cu_tool u))"
    using flush_text [where g = ?t and i = "(i, j)" and tx = "chat_out_text (choice_args i j)", of "cu_tool u"]
      flush_none [where g = ?c and tx = "chat_out_text (choice_args i j)", of "held_tails (cu_content u)"] u
    by (simp add: chat_flush_frames chat_good_def)
next
  show "held_of (i, j) (cu_tool (snd (chat_flush W J now e mf u))) = []" for u by (simp add: chat_flush_def)
  show "choice_args i j c = []" if "dl_tool_calls (sc_delta c) = None" for c using that by (simp add: choice_args_def)
  show "choice_args i j (c\<lparr>sc_finish := None\<rparr>) = choice_args i j c" for c by (simp add: choice_args_def)
  show "(concat (choice_args i j (fst (chat_choice_step W J now e mf c u))),
      held_of (i, j) (cu_tool (snd (chat_choice_step W J now e mf c u))))
    = carry_run (unmask_kind W J now e mf HeldInputJson) (held_of (i, j) (cu_tool u)) (choice_args i j c)" for c u
    by (rule choice_step_args)
qed simp

lemma text_kind_subst:
  assumes "\<And>x. x \<in> set mf \<Longrightarrow> token_is_match (token_handle x)"
  shows "unmask_kind W J now e mf HeldText s = subst token_match (kind_plain W J now e mf HeldText) s"
  by (rule unmask_kind_subst [OF assms]) (simp_all add: position_free_def kind_context_def)

lemma input_kind_subst:
  assumes "\<And>x. x \<in> set mf \<Longrightarrow> token_is_match (token_handle x)" "position_free ToolInput (e_store e) mf s"
  shows "unmask_kind W J now e mf HeldInputJson s = subst token_match (kind_plain W J now e mf HeldInputJson) s"
  by (rule unmask_kind_subst [OF assms(1)]) (use assms(2) in \<open>simp_all add: kind_context_def\<close>)

lemma sample_handles:
  "x \<in> set [sample_entry ''a@b.c'' ''[EMAIL_ADDRESS_0123456789ab]'' ''EMAIL_ADDRESS''] \<Longrightarrow> token_is_match (token_handle x)"
proof -
  have "token_is_match ''[EMAIL_ADDRESS_0123456789ab]''" by code_simp
  then show "x \<in> set [sample_entry ''a@b.c'' ''[EMAIL_ADDRESS_0123456789ab]'' ''EMAIL_ADDRESS''] \<Longrightarrow> token_is_match (token_handle x)"
    by (simp add: sample_entry_def)
qed


lemma position_free_nil: "position_free ctx st mf []"
  by (auto simp: position_free_def token_lang_iff)

definition chunk_of :: "int \<Rightarrow> chat_delta \<Rightarrow> string option \<Rightarrow> chat_chunk sse_in" where
  "chunk_of i d usage =
     \<lparr>in_event = None, in_data = ''{}'', in_parsed = Some ((flush_chunk ''id'' i d)\<lparr>ck_usage := usage\<rparr>)\<rparr>"

definition says :: "string \<Rightarrow> chat_delta" where
  "says t = delta_default\<lparr>dl_content := Some t\<rparr>"

lemma chunk_of_simps [simp]:
  "trim (in_data (chunk_of i d v)) \<noteq> ''[DONE]''"
  "in_parsed (chunk_of i d v) = Some ((flush_chunk ''id'' i d)\<lparr>ck_usage := v\<rparr>)"
  "chat_flushes (chunk_of i d v) \<longleftrightarrow> v \<noteq> None"
proof -
  show d: "trim (in_data (chunk_of i d v)) \<noteq> ''[DONE]''" unfolding chunk_of_def sse_in.simps by code_simp
  show "in_parsed (chunk_of i d v) = Some ((flush_chunk ''id'' i d)\<lparr>ck_usage := v\<rparr>)" by (simp add: chunk_of_def)
  then show "chat_flushes (chunk_of i d v) \<longleftrightarrow> v \<noteq> None"
    using d by (simp add: chat_flushes_def chunk_terminal_def flush_chunk_def)
qed

lemma chunk_of_pieces [simp]:
  "chat_event_pieces (choice_content k) (chunk_of i (says t) v) = (if i = k then [t] else [])"
  "chat_event_pieces (choice_args k j) (chunk_of i (says t) v) = []"
  by (simp_all add: chat_event_pieces_def chunk_pieces_def flush_chunk_def choice_content_def choice_args_def says_def delta_default_def)


section \<open>A flush in the middle\<close>

lemma split_prefix:
  assumes "a @ b \<in> token_lang" "a \<noteq> []" "b \<noteq> []" "length a \<le> MAX_TOKEN_LEN"
  shows "split_safe a = ([], a)"
proof -
  obtain t where t: "a @ b = CHR ''['' # t @ '']''" "token_body t" using assms(1) by (auto simp: token_lang_iff)
  then obtain a' where a': "a = CHR ''['' # a'" using assms(2) by (cases a) auto
  obtain b' where "b = b' @ '']''" using t(1) a' assms(3)
    by (metis append_butlast_last_id append_is_Nil_conv last_appendR last_snoc list.sel(3) append_Cons not_Cons_self2)
  then have "t = a' @ b'" using t(1) a' by simp
  then have c: "list_all possible_token_char a'" using token_body_chars [OF t(2)] by simp
  then have n: "CHR ''['' \<notin> set a'" "CHR '']'' \<notin> set a'" by (auto simp: list_all_iff possible_token_char_def ascii_defs ord_def)
  have "last_bracket a \<noteq> None" using a' by (simp add: last_bracket_None)
  then obtain j where j: "last_bracket a = Some j" by blast
  have "j = 0"
  proof (cases j)
    case (Suc k)
    then have "drop k a' = CHR ''['' # drop j a'" using last_bracket_Some [OF j] a' by simp
    with n(1) show ?thesis by (metis in_set_dropD list.set_intros(1))
  qed simp
  with j have "last_bracket a = Some 0" by simp
  moreover have "token_match a = None" using token_match_body [of "CHR ''[''" a'] n(2) a' by (cases "token_match a") auto
  ultimately show ?thesis using assms(4) a' c by (simp add: split_safe_def classify_cases)
qed

lemma no_bracket_split: "CHR ''['' \<notin> set b \<Longrightarrow> split_safe b = (b, []) \<and> subst token_match p b = b"
proof
  assume b: "CHR ''['' \<notin> set b"
  then show "split_safe b = (b, [])" using last_bracket_None [of b] by (simp add: split_safe_def)
  have "token_match (drop k b) = None" if "k < length b" for k
    using that b token_match_open by (metis Cons_nth_drop_Suc nth_mem)
  then show "subst token_match p b = b" by (rule tok.subst_no_match)
qed

text \<open>
  A usage (or a finish reason) on any chunk releases every held tail, so a token that is cut there goes
  out in two pieces, unrestored, although more of the same choice's content follows; without the usage the
  same two pieces are restored as the whole text is.
\<close>

theorem usage_splits_token:
  assumes "a @ b \<in> token_lang" "a \<noteq> []" "b \<noteq> []" "length (a @ b) \<le> MAX_TOKEN_LEN + 1"
    and "\<And>x. x \<in> set mf \<Longrightarrow> token_is_match (token_handle x)"
  shows "concat (map (chat_out_text (choice_content i))
       (chat_stream W J now e mf True [chunk_of i (says a) (Some v), chunk_of i (says b) None] chat_unmasker_new)) = a @ b
    \<and> concat (map (chat_out_text (choice_content i))
       (chat_stream W J now e mf True [chunk_of i (says a) None, chunk_of i (says b) None] chat_unmasker_new))
      = unmask_kind W J now e mf HeldText (a @ b)"
proof -
  let ?f = "unmask_kind W J now e mf HeldText" and ?p = "kind_plain W J now e mf HeldText"
  have g: "chat_good chat_unmasker_new" by (simp add: chat_good_def chat_unmasker_new_def)
  have h: "held_of i (cu_content chat_unmasker_new) = []" by (simp add: chat_unmasker_new_def)
  have f: "?f s = subst token_match ?p s" for s by (rule text_kind_subst [OF assms(5)])
  have "length a \<le> MAX_TOKEN_LEN" using assms(3,4) by (cases b) auto
  from split_prefix [OF assms(1-3) this] have a: "split_safe a = ([], a)" .
  have fa: "?f a = a" unfolding f by (rule tok.subst_no_match) (rule split_safe_held [OF a])
  have "CHR ''['' \<notin> set b" using token_chars(2) [OF assms(1)] assms(2) by (cases a) auto
  from no_bracket_split [OF this] have b: "split_safe b = (b, [])" "?f b = b" unfolding f by auto
  have "?f [] = []" unfolding f by (rule tok.subst_no_match) simp
  note facts = this fa a b h assms(2)
  let ?x = "chunk_of i (says a) (Some v)" and ?y = "chunk_of i (says b) None"
  let ?u = "snd (chat_enqueue W J now e mf ?x chat_unmasker_new)"
  have x: "concat (map (chat_out_text (choice_content i)) (fst (chat_enqueue W J now e mf ?x chat_unmasker_new))) = a
      \<and> held_of i (cu_content ?u) = []"
    using content.flushed [OF g, of ?x i W J now e mf] facts by (simp add: release_def)
  have u: "chat_good ?u" by (rule content.step_good [OF g])
  have y: "concat (map (chat_out_text (choice_content i)) (fst (chat_enqueue W J now e mf ?y ?u))) = b
      \<and> held_of i (cu_content (snd (chat_enqueue W J now e mf ?y ?u))) = []"
    using content.quiet [OF u, of ?y i W J now e mf] x facts by simp
  have "chat_good (snd (chat_enqueue W J now e mf ?y ?u))" by (rule content.step_good [OF u])
  from content.stream_nil [OF this, where W = W and J = J and now = now and e = e and mf = mf and i = i] y
  have z: "concat (map (chat_out_text (choice_content i))
      (chat_stream W J now e mf True [] (snd (chat_enqueue W J now e mf ?y ?u)))) = []"
    by (simp only: release_def simp_thms if_True)
  have "concat (map (chat_out_text (choice_content i)) (chat_stream W J now e mf True [?x, ?y] chat_unmasker_new)) = a @ b"
    using z x y by (simp only: content.stream_cons map_append concat_append append_Nil2)
  moreover have "bounded_tokens (a @ b)" using assms(4) by (rule short_bounded)
  then have "concat (map (chat_out_text (choice_content i))
       (chat_stream W J now e mf True [chunk_of i (says a) None, ?y] chat_unmasker_new)) = ?f (a @ b)"
    using content.stream_text [where ok = "\<lambda>_. True", OF f _ g, where evs = "[chunk_of i (says a) None, ?y]" and i = i] f [of "a @ b"] h by simp
  ultimately show ?thesis by blast
qed

lemma usage_splits_token_witness:
  "\<exists>e. engine_new sample_env (engine_config_default sample_prims) = Inr e
     \<and> concat (map (chat_out_text (choice_content 0))
         (chat_stream sample_env sample_json 0 e [sample_entry ''a@b.c'' ''[EMAIL_ADDRESS_0123456789ab]'' ''EMAIL_ADDRESS''] True
            [chunk_of 0 (says ''[EMAIL_ADDR'') (Some ''{}''), chunk_of 0 (says ''ESS_0123456789ab]'') None] chat_unmasker_new))
       = ''[EMAIL_ADDRESS_0123456789ab]''"
proof -
  obtain e where e: "engine_new sample_env (engine_config_default sample_prims) = Inr e" by (rule sample_engine)
  have t: "''[EMAIL_ADDR'' @ ''ESS_0123456789ab]'' \<in> token_lang" unfolding token_lang_iff
    by (rule exI [of _ "''EMAIL_ADDRESS_0123456789ab''"]) code_simp
  show ?thesis using e usage_splits_token [OF t, where i = 0 and e = e and W = sample_env and J = sample_json and now = 0
        and mf = "[sample_entry ''a@b.c'' ''[EMAIL_ADDRESS_0123456789ab]'' ''EMAIL_ADDRESS'']" and v = "''{}''"] sample_handles
    by (intro exI [of _ e]) (simp add: MAX_TOKEN_LEN_def del: chat_stream.simps)
qed

section \<open>Responses\<close>

fun resp_text :: "text_key \<Rightarrow> resp_event \<Rightarrow> string list" where
  "resp_text k (ReTextDelta k' d r) = (if k' = k then [d] else [])"
| "resp_text k _ = []"

fun resp_args :: "args_key \<Rightarrow> resp_event \<Rightarrow> string list" where
  "resp_args k (ReArgsDelta k' d r) = (if k' = k then [d] else [])"
| "resp_args k _ = []"

definition resp_event_pieces :: "(resp_event \<Rightarrow> string list) \<Rightarrow> resp_event sse_in \<Rightarrow> string list" where
  "resp_event_pieces g ev =
     (if trim (in_data ev) = ''[DONE]'' then [] else case in_parsed ev of Some x \<Rightarrow> g x | None \<Rightarrow> [])"

fun resp_out_text :: "(resp_event \<Rightarrow> string list) \<Rightarrow> resp_event sse_out \<Rightarrow> string" where
  "resp_out_text g (OutEvent n x) = concat (g x)"
| "resp_out_text g (OutRaw n d) = []"

definition resp_flushes :: "resp_event sse_in \<Rightarrow> bool" where
  "resp_flushes ev \<longleftrightarrow>
     trim (in_data ev) = ''[DONE]'' \<or> (case in_parsed ev of Some x \<Rightarrow> event_terminal x | None \<Rightarrow> False)"

definition resp_good :: "resp_unmasker \<Rightarrow> bool" where
  "resp_good u \<longleftrightarrow> keys_distinct (ru_text u) \<and> keys_distinct (ru_args u)"

lemma resp_process_good: "resp_good u \<Longrightarrow> resp_good (snd (resp_process W J now e mf x u))"
  by (cases x) (simp_all add: resp_process_def resp_good_def carry_unmask_held Let_def)

lemma resp_process_terminal: "list_ex event_terminal (fst (resp_process W J now e mf x u)) \<longleftrightarrow> event_terminal x"
  by (cases x) (simp_all add: resp_process_def carry_unmask_held Let_def)

lemma resp_flush_frames:
  "fst (resp_flush W J now e mf u)
     = concat (map (tail_frames (\<lambda>_. unmask_kind W J now e mf HeldText)
           (\<lambda>k t. OutEvent (Some ''response.output_text.delta'') (ReTextDelta k t [])))
         (held_tails (ru_text u)))
       @ concat (map (tail_frames (\<lambda>_. unmask_kind W J now e mf HeldInputJson)
           (\<lambda>k t. OutEvent (Some ''response.function_call_arguments.delta'') (ReArgsDelta k t [])))
         (held_tails (ru_args u)))"
  unfolding map_filter_frames [symmetric] by (simp add: resp_flush_def case_prod_unfold)

text \<open>The lanes of a responses stream.\<close>

locale resp_lane =
  fixes W :: "'c env" and J :: json_api and now :: nat and e :: "'c mask_engine" and mf :: unmask_manifest
    and g :: "resp_event \<Rightarrow> string list" and hl :: "resp_unmasker \<Rightarrow> string" and f :: "string \<Rightarrow> string"
  assumes event_step:
      "(concat (concat (map g (fst (resp_process W J now e mf x u)))), hl (snd (resp_process W J now e mf x u)))
        = carry_run f (hl u) (g x)"
    and flush: "resp_good u \<Longrightarrow> concat (map (resp_out_text g) (fst (resp_flush W J now e mf u))) = release f (hl u)"
    and flushed_empty: "hl (snd (resp_flush W J now e mf u)) = []"
    and no_terminal: "event_terminal x \<Longrightarrow> g x = []"
begin

lemma out_text: "concat (map (resp_out_text g \<circ> OutEvent n) xs) = concat (concat (map g xs))"
  by (induction xs) simp_all

lemma enqueue:
  assumes "resp_good u"
  shows "resp_good (snd (resp_enqueue W J now e mf ev u))
    \<and> concat (map (resp_out_text g) (fst (resp_enqueue W J now e mf ev u)))
      = fst (carry_run f (hl u) (resp_event_pieces g ev))
        @ (if resp_flushes ev then release f (snd (carry_run f (hl u) (resp_event_pieces g ev))) else [])
    \<and> hl (snd (resp_enqueue W J now e mf ev u))
      = (if resp_flushes ev then [] else snd (carry_run f (hl u) (resp_event_pieces g ev)))"
proof -
  have good: "resp_good (snd (resp_flush W J now e mf v))" for v by (simp add: resp_flush_def resp_good_def)
  show ?thesis
  proof (cases "trim (in_data ev) = ''[DONE]'' \<or> in_parsed ev = None")
    case True
    then show ?thesis using flush [OF assms] flushed_empty [of u] good [of u] assms
      by (auto simp: resp_enqueue_def resp_event_pieces_def resp_flushes_def split_beta Let_def)
  next
    case False
    then obtain x where data: "trim (in_data ev) \<noteq> ''[DONE]''" "in_parsed ev = Some x" by blast
    obtain out v where p: "resp_process W J now e mf x u = (out, v)" by fastforce
    have c: "concat (concat (map g out)) = fst (carry_run f (hl u) (g x))" "hl v = snd (carry_run f (hl u) (g x))"
      using event_step [of x u] p by (simp_all add: prod_eq_iff)
    have v: "resp_good v" "list_ex event_terminal out \<longleftrightarrow> event_terminal x"
      using resp_process_good [OF assms, of W J now e mf x] resp_process_terminal [of W J now e mf x u] p by simp_all
    show ?thesis
    proof (cases "event_terminal x")
      case True
      then show ?thesis using c v p data flush [OF v(1)] flushed_empty [of v] good [of v] no_terminal [OF True]
        by (simp add: resp_enqueue_def resp_event_pieces_def resp_flushes_def split_beta Let_def out_text
            del: concat_eq_Nil_conv)
    next
      case no: False
      then show ?thesis using c v p data
        by (simp add: resp_enqueue_def resp_event_pieces_def resp_flushes_def split_beta Let_def out_text)
    qed
  qed
qed

end

sublocale resp_lane \<subseteq> carried "resp_enqueue W J now e mf" "resp_stream W J now e mf True" resp_good hl
    "resp_event_pieces g" "resp_out_text g" resp_flushes f
proof
  show "resp_stream W J now e mf True (ev # evs) u
      = fst (resp_enqueue W J now e mf ev u) @ resp_stream W J now e mf True evs (snd (resp_enqueue W J now e mf ev u))"
    for ev evs u by (simp add: split_beta)
qed (simp_all add: flush enqueue prod_eq_iff)

interpretation text_lane: resp_lane W J now e mf "resp_text k" "\<lambda>u. held_of k (ru_text u)"
    "unmask_kind W J now e mf HeldText" for W J now e mf k
proof
  fix u assume u: "resp_good u"
  let ?c = "tail_frames (\<lambda>_. unmask_kind W J now e mf HeldText)
      (\<lambda>k t. OutEvent (Some ''response.output_text.delta'') (ReTextDelta k t []))"
    and ?t = "tail_frames (\<lambda>_. unmask_kind W J now e mf HeldInputJson)
      (\<lambda>k t. OutEvent (Some ''response.function_call_arguments.delta'') (ReArgsDelta k t []))"
  have "concat (map (resp_out_text (resp_text k)) (?c (k', h))) = (if k' = k then unmask_kind W J now e mf HeldText h else [])" for k' h
    by (auto simp: tail_frames_def Let_def)
  moreover have "concat (map (resp_out_text (resp_text k)) (?t x)) = []" for x by (simp add: tail_frames_def Let_def)
  ultimately show "concat (map (resp_out_text (resp_text k)) (fst (resp_flush W J now e mf u)))
      = release (unmask_kind W J now e mf HeldText) (held_of k (ru_text u))"
    using flush_text [where g = ?c and i = k and tx = "resp_out_text (resp_text k)", of "ru_text u"]
      flush_none [where g = ?t and tx = "resp_out_text (resp_text k)", of "held_tails (ru_args u)"] u
    by (simp add: resp_flush_frames resp_good_def)
next
  show "(concat (concat (map (resp_text k) (fst (resp_process W J now e mf x u)))),
      held_of k (ru_text (snd (resp_process W J now e mf x u))))
    = carry_run (unmask_kind W J now e mf HeldText) (held_of k (ru_text u)) (resp_text k x)" for x u
    by (cases x) (auto simp: resp_process_def carry_unmask_held split_beta Let_def)
  show "resp_text k x = []" if "event_terminal x" for x using that by (cases x) simp_all
qed (simp add: resp_flush_def)

interpretation args_lane: resp_lane W J now e mf "resp_args k" "\<lambda>u. held_of k (ru_args u)"
    "unmask_kind W J now e mf HeldInputJson" for W J now e mf k
proof
  fix u assume u: "resp_good u"
  let ?c = "tail_frames (\<lambda>_. unmask_kind W J now e mf HeldText)
      (\<lambda>k t. OutEvent (Some ''response.output_text.delta'') (ReTextDelta k t []))"
    and ?t = "tail_frames (\<lambda>_. unmask_kind W J now e mf HeldInputJson)
      (\<lambda>k t. OutEvent (Some ''response.function_call_arguments.delta'') (ReArgsDelta k t []))"
  have "concat (map (resp_out_text (resp_args k)) (?t (k', h))) = (if k' = k then unmask_kind W J now e mf HeldInputJson h else [])" for k' h
    by (auto simp: tail_frames_def Let_def)
  moreover have "concat (map (resp_out_text (resp_args k)) (?c x)) = []" for x by (simp add: tail_frames_def Let_def)
  ultimately show "concat (map (resp_out_text (resp_args k)) (fst (resp_flush W J now e mf u)))
      = release (unmask_kind W J now e mf HeldInputJson) (held_of k (ru_args u))"
    using flush_text [where g = ?t and i = k and tx = "resp_out_text (resp_args k)", of "ru_args u"]
      flush_none [where g = ?c and tx = "resp_out_text (resp_args k)", of "held_tails (ru_text u)"] u
    by (simp add: resp_flush_frames resp_good_def)
next
  show "(concat (concat (map (resp_args k) (fst (resp_process W J now e mf x u)))),
      held_of k (ru_args (snd (resp_process W J now e mf x u))))
    = carry_run (unmask_kind W J now e mf HeldInputJson) (held_of k (ru_args u)) (resp_args k x)" for x u
    by (cases x) (auto simp: resp_process_def carry_unmask_held split_beta Let_def)
  show "resp_args k x = []" if "event_terminal x" for x using that by (cases x) simp_all
qed (simp add: resp_flush_def)

text \<open>
  A streamed response agrees with unmasking the whole text: the text deltas emitted for a content part,
  and the argument deltas emitted for an item, concatenate to the unmasked concatenation of the deltas that
  came in, however they were cut and interleaved, when no terminal event comes before the last of them, no
  token is longer than the carry buffer allows for, and (for the arguments) no handle of a whole-value class
  occurs.
\<close>

theorem resp_stream_equals_whole:
  assumes "\<And>x. x \<in> set mf \<Longrightarrow> token_is_match (token_handle x)"
    and "settled resp_flushes (resp_event_pieces (resp_text k)) evs"
    and "settled resp_flushes (resp_event_pieces (resp_args l)) evs"
    and "bounded_tokens (concat (concat (map (resp_event_pieces (resp_text k)) evs)))"
    and "bounded_tokens (concat (concat (map (resp_event_pieces (resp_args l)) evs)))"
    and "position_free ToolInput (e_store e) mf (concat (concat (map (resp_event_pieces (resp_args l)) evs)))"
  shows "concat (map (resp_out_text (resp_text k)) (resp_stream W J now e mf True evs resp_unmasker_new))
      = unmask_kind W J now e mf HeldText (concat (concat (map (resp_event_pieces (resp_text k)) evs)))
    \<and> concat (map (resp_out_text (resp_args l)) (resp_stream W J now e mf True evs resp_unmasker_new))
      = unmask_kind W J now e mf HeldInputJson (concat (concat (map (resp_event_pieces (resp_args l)) evs)))"
proof -
  have g: "resp_good resp_unmasker_new" by (simp add: resp_good_def resp_unmasker_new_def)
  have h: "held_of k (ru_text resp_unmasker_new) = []" "held_of l (ru_args resp_unmasker_new) = []"
    by (simp_all add: resp_unmasker_new_def)
  note c = text_kind_subst [OF assms(1)] and t = input_kind_subst [OF assms(1)]
  have "concat (map (resp_out_text (resp_text k)) (resp_stream W J now e mf True evs resp_unmasker_new))
      = unmask_kind W J now e mf HeldText (concat (concat (map (resp_event_pieces (resp_text k)) evs)))"
    using text_lane.stream_text [where ok = "\<lambda>_. True", OF c _ g assms(2)] assms(4) c unfolding h append_Nil by metis
  moreover have "concat (map (resp_out_text (resp_args l)) (resp_stream W J now e mf True evs resp_unmasker_new))
      = unmask_kind W J now e mf HeldInputJson (concat (concat (map (resp_event_pieces (resp_args l)) evs)))"
    using args_lane.stream_text [where ok = "position_free ToolInput (e_store e) mf", OF t _ g assms(3)]
      position_free_part [of ToolInput "e_store e" mf] assms(5,6) t [OF _ assms(6)] unfolding h append_Nil by metis
  ultimately show ?thesis by blast
qed

definition delta_event :: "resp_event \<Rightarrow> resp_event sse_in" where
  "delta_event x = \<lparr>in_event = Some ''response.output_text.delta'', in_data = ''{}'', in_parsed = Some x\<rparr>"

lemma delta_event_simps [simp]:
  "resp_event_pieces g (delta_event x) = g x" "resp_flushes (delta_event x) \<longleftrightarrow> event_terminal x"
proof -
  have "trim (in_data (delta_event x)) \<noteq> ''[DONE]''" unfolding delta_event_def sse_in.simps by code_simp
  then show "resp_event_pieces g (delta_event x) = g x" "resp_flushes (delta_event x) \<longleftrightarrow> event_terminal x"
    by (simp_all add: resp_event_pieces_def resp_flushes_def) (simp_all add: delta_event_def)
qed

lemma resp_stream_equals_whole_witness:
  "\<exists>e. engine_new sample_env (engine_config_default sample_prims) = Inr e
     \<and> concat (map (resp_out_text (resp_text (Some ''m'', None, None)))
         (resp_stream sample_env sample_json 0 e [sample_entry ''a@b.c'' ''[EMAIL_ADDRESS_0123456789ab]'' ''EMAIL_ADDRESS''] True
            [delta_event (ReTextDelta (Some ''m'', None, None) ''hi [EMAIL_ADDR'' []),
             delta_event (ReTextDelta (Some ''n'', None, None) ''['' []),
             delta_event (ReTextDelta (Some ''m'', None, None) ''ESS_0123456789ab] x'' []),
             delta_event (ReCompleted None [] [])] resp_unmasker_new))
       = unmask_kind sample_env sample_json 0 e [sample_entry ''a@b.c'' ''[EMAIL_ADDRESS_0123456789ab]'' ''EMAIL_ADDRESS'']
           HeldText ''hi [EMAIL_ADDRESS_0123456789ab] x''"
proof -
  obtain e where e: "engine_new sample_env (engine_config_default sample_prims) = Inr e" by (rule sample_engine)
  have b: "bounded_tokens ''hi [EMAIL_ADDRESS_0123456789ab] x''" "bounded_tokens []"
    by (rule short_bounded; simp add: MAX_TOKEN_LEN_def)+
  note w = resp_stream_equals_whole [OF sample_handles, where k = "(Some ''m'', None, None)" and l = "(None, None)" and e = e
      and mf = "[sample_entry ''a@b.c'' ''[EMAIL_ADDRESS_0123456789ab]'' ''EMAIL_ADDRESS'']"
      and W = sample_env and J = sample_json and now = 0,
      where evs = "[delta_event (ReTextDelta (Some ''m'', None, None) ''hi [EMAIL_ADDR'' []),
             delta_event (ReTextDelta (Some ''n'', None, None) ''['' []),
             delta_event (ReTextDelta (Some ''m'', None, None) ''ESS_0123456789ab] x'' []),
             delta_event (ReCompleted None [] [])]"]
  show ?thesis using e w [THEN conjunct1] b
    by (intro exI [of _ e]) (simp add: position_free_nil del: resp_stream.simps)
qed

end
