(* ===== verification/Openai_Routes.thy ===== *)
theory Openai_Routes
  imports Proxy_Routes Openai_Responses
begin

text \<open>
  The handlers of \<open>/v1/chat/completions\<close> and \<open>/v1/responses\<close>: the stages of the Anthropic intake with the
  OpenAI maskers. A pinned target speaks the other wire, so a pinned conversation is refused before its
  masking switch or its body is read. The two files' copies of \<open>mask_body\<close> differ in the masker only.
\<close>

section \<open>Stages\<close>

definition openai_entry ::
  "net_api \<Rightarrow> nat \<Rightarrow> http_request \<Rightarrow> string option \<Rightarrow> 'c app_state \<Rightarrow> (refusal + bool \<times> string) \<times> 'c app_state" where
  "openai_entry N now rq conversation st =
     (case secrets_gate st of
        Some r \<Rightarrow> (Inl r, st)
      | None \<Rightarrow>
          (case bare_path_zdr_guard N st (rq_headers rq) conversation of
             Some r \<Rightarrow> (Inl r, st)
           | None \<Rightarrow>
               (case resolve_pinned_mode st conversation of
                  Inl r \<Rightarrow> (Inl r, st)
                | Inr (ZdrMode _) \<Rightarrow> (Inl PinUnsupported, st)
                | Inr NormalMode \<Rightarrow>
                    (let (force_disabled, md) =
                           (case conversation of
                              Some c \<Rightarrow> is_masking_disabled now c (as_masking st)
                            | None \<Rightarrow> (False, as_masking st));
                         st = st\<lparr>as_masking := md\<rparr>
                     in case rq_body rq of
                          None \<Rightarrow> (Inl BodyUnreadable, st)
                        | Some body \<Rightarrow> (Inr (force_disabled, body), st)))))"

text \<open>The masker is the one \<open>force_disabled\<close> selects.\<close>

definition openai_mask_body ::
  "(string \<Rightarrow> bool \<Rightarrow> 'c mask_engine \<Rightarrow> (mask_fault + string \<times> unmask_manifest) \<times> 'c mask_engine)
   \<Rightarrow> string \<Rightarrow> bool \<Rightarrow> 'c app_state \<Rightarrow> (refusal + string \<times> unmask_manifest) \<times> 'c app_state" where
  "openai_mask_body masker body force_disabled st =
     (case masker body force_disabled (as_engine st) of
        (Inl f, e) \<Rightarrow>
          (let r = mask_fault_refusal f
           in (Inl r, st\<lparr>as_engine := e, as_ledger := record_refusal r (as_ledger st)\<rparr>))
      | (Inr x, e) \<Rightarrow> (Inr x, st\<lparr>as_engine := e\<rparr>))"

definition openai_egress ::
  "'c env \<Rightarrow> (string \<Rightarrow> bool \<Rightarrow> 'c mask_engine \<Rightarrow> (mask_fault + string \<times> unmask_manifest) \<times> 'c mask_engine)
   \<Rightarrow> net_api \<Rightarrow> nat \<Rightarrow> string \<Rightarrow> http_request \<Rightarrow> string option \<Rightarrow> bool
   \<Rightarrow> 'c app_state \<Rightarrow> 'c app_state \<Rightarrow> 'c app_state \<Rightarrow> refusal + wire_request \<times> unmask_manifest" where
  "openai_egress W masker N now path rq conversation approved st_entry st_mask st_send =
     (case fst (openai_entry N now rq conversation st_entry) of
        Inl r \<Rightarrow> Inl r
      | Inr (force_disabled, body) \<Rightarrow>
          (case fst (openai_mask_body masker body force_disabled st_mask) of
             Inl r \<Rightarrow> Inl r
           | Inr (mbody, manifest) \<Rightarrow>
               (if \<not> approved then Inl ApprovalRejected
                else case fst (send_upstream W N (rq_headers rq) mbody path NormalMode st_send) of
                    Inl r \<Rightarrow> Inl r
                  | Inr wire \<Rightarrow> Inr (wire, manifest))))"

section \<open>The two endpoints\<close>

definition chat_egress ::
  "'c env \<Rightarrow> chat_api \<Rightarrow> net_api \<Rightarrow> nat \<Rightarrow> int \<Rightarrow> http_request \<Rightarrow> string option \<Rightarrow> bool
   \<Rightarrow> 'c app_state \<Rightarrow> 'c app_state \<Rightarrow> 'c app_state \<Rightarrow> refusal + wire_request \<times> unmask_manifest" where
  "chat_egress W K N now today = openai_egress W (chat_mask_request_inner W K today) N now ''/v1/chat/completions''"

definition responses_egress ::
  "'c env \<Rightarrow> responses_api \<Rightarrow> net_api \<Rightarrow> nat \<Rightarrow> int \<Rightarrow> http_request \<Rightarrow> string option \<Rightarrow> bool
   \<Rightarrow> 'c app_state \<Rightarrow> 'c app_state \<Rightarrow> 'c app_state \<Rightarrow> refusal + wire_request \<times> unmask_manifest" where
  "responses_egress W K N now today = openai_egress W (resp_mask_request_inner W K today) N now ''/v1/responses''"

text \<open>The answer that is not streamed: unmasked, or the upstream's bytes when it does not parse.\<close>

definition chat_answer ::
  "'c env \<Rightarrow> chat_api \<Rightarrow> json_api \<Rightarrow> nat \<Rightarrow> unmask_manifest \<Rightarrow> header_map \<Rightarrow> string \<Rightarrow> 'c mask_engine \<Rightarrow> header_map \<times> string" where
  "chat_answer W K J now manifest up_headers bytes e =
     (downstream_response_headers up_headers True, ok_or bytes (chat_unmask_response W K J now manifest bytes e))"

definition responses_answer ::
  "'c env \<Rightarrow> responses_api \<Rightarrow> json_api \<Rightarrow> nat \<Rightarrow> unmask_manifest \<Rightarrow> header_map \<Rightarrow> string \<Rightarrow> 'c mask_engine \<Rightarrow> header_map \<times> string" where
  "responses_answer W K J now manifest up_headers bytes e =
     (downstream_response_headers up_headers True, ok_or bytes (resp_unmask_response W K J now manifest bytes e))"

end
