(* ===== verification/Openai_Laws.thy ===== *)
theory Openai_Laws
  imports Openai_Responses Walk_Laws
begin

text \<open>
  What the OpenAI request walks guarantee, in the terms of \<open>Walk_Laws\<close>: which leaves they mask and in what
  order, what a masked request is in terms of the original and the masked texts, and that an accepted
  request has no registered secret in a contract field.
\<close>

section \<open>Walks that refill a shape\<close>

text \<open>
  \<open>refills act v ls F\<close>: in masking mode a successful \<open>act\<close> has masked exactly the leaves \<open>ls\<close>, in order, and its
  result is \<open>F\<close> of the masked texts; in collecting mode it gives \<open>v\<close> and has collected exactly \<open>ls\<close>.
\<close>

definition refills ::
  "'c env \<Rightarrow> int \<Rightarrow> ('c, 'v) walk \<Rightarrow> 'v \<Rightarrow> leaf list \<Rightarrow> (string list \<Rightarrow> 'v) \<Rightarrow> bool" where
  "refills W today act v ls F \<longleftrightarrow>
     (\<forall>w v' w'. w_collect w = None \<longrightarrow> act w = (Inr v', w') \<longrightarrow>
        (\<exists>outs e'. mask_all W today (w_force_disabled w) ls (w_engine w) = (Inr outs, e')
           \<and> w' = absorb w outs e' \<and> v' = F (map masked_text outs)))
     \<and> (\<forall>w v' w' ls0. w_collect w = Some ls0 \<longrightarrow> act w = (Inr v', w') \<longrightarrow>
        v' = v \<and> w' = w\<lparr>w_collect := Some (ls0 @ ls)\<rparr>)"

lemma refills_maskE:
  assumes "refills W today act v ls F" "w_collect w = None" "act w = (Inr v', w')"
  obtains outs e' where "mask_all W today (w_force_disabled w) ls (w_engine w) = (Inr outs, e')"
    "w' = absorb w outs e'" "v' = F (map masked_text outs)"
  using assms unfolding refills_def by blast

lemma refills_collectD:
  assumes "refills W today act v ls F" "w_collect w = Some ls0" "act w = (Inr v', w')"
  shows "v' = v \<and> w' = w\<lparr>w_collect := Some (ls0 @ ls)\<rparr>"
  using assms unfolding refills_def by blast

lemma refills_cong:
  assumes "refills W today act' v' ls' F'" "\<And>w. act w = act' w" "v = v'" "ls = ls'"
    "\<And>ts. length ts = length ls \<Longrightarrow> F ts = F' ts"
  shows "refills W today act v ls F"
proof -
  have "act = act'" using assms(2) by (rule ext)
  with assms(1,3,4) have r: "refills W today act v ls F'" by simp
  show ?thesis
    unfolding refills_def
  proof (intro conjI allI impI)
    fix w v' w' assume "w_collect w = None" "act w = (Inr v', w')"
    then obtain outs e' where o: "mask_all W today (w_force_disabled w) ls (w_engine w) = (Inr outs, e')"
      "w' = absorb w outs e'" "v' = F' (map masked_text outs)" by (rule refills_maskE [OF r])
    have "F (map masked_text outs) = F' (map masked_text outs)" by (rule assms(5)) (use mask_all_length [OF o(1)] in simp)
    with o show "\<exists>outs e'. mask_all W today (w_force_disabled w) ls (w_engine w) = (Inr outs, e')
        \<and> w' = absorb w outs e' \<and> v' = F (map masked_text outs)" by metis
  next
    fix w v' w' ls0 assume "w_collect w = Some ls0" "act w = (Inr v', w')"
    from refills_collectD [OF r this] show "v' = v" "w' = w\<lparr>w_collect := Some (ls0 @ ls)\<rparr>" by blast+
  qed
qed

lemma refills_ret: "F [] = v \<Longrightarrow> refills W today (\<lambda>w. (Inr v, w)) v [] F"
  by (auto simp: refills_def absorb_def)

lemma refills_refuse: "F [] = v \<Longrightarrow> refills W today (\<lambda>w. refuse_hit (f w) v w) v [] F"
  by (auto simp: refills_def absorb_def refuse_hit_def split: option.splits)

lemma refills_str: "refills W today (walk_str W today s t) t [(t, s)] hd"
  unfolding refills_def
proof (intro conjI allI impI)
  fix w v' w' assume n: "w_collect w = None" and r: "walk_str W today s t w = (Inr v', w')"
  obtain outs e' where "mask_all W today (w_force_disabled w) [(t, s)] (w_engine w) = (Inr outs, e')"
    "w' = absorb w outs e'" "[(v', s)] = [] @ relabel [(t, s)] outs"
    by (rule visits_maskE [OF visits_str n r])
  moreover from this(3) have "v' = hd (map masked_text outs)" by (cases outs) (auto simp: relabel_def)
  ultimately show "\<exists>outs e'. mask_all W today (w_force_disabled w) [(t, s)] (w_engine w) = (Inr outs, e')
      \<and> w' = absorb w outs e' \<and> v' = hd (map masked_text outs)" by blast
next
  fix w v' w' ls0 assume "w_collect w = Some ls0" "walk_str W today s t w = (Inr v', w')"
  from visits_collectD [OF visits_str this] show "v' = t" "w' = w\<lparr>w_collect := Some (ls0 @ [(t, s)])\<rparr>" by blast+
qed

lemma refills_bnd:
  assumes a: "refills W today a x ls1 F1" and b: "\<And>x'. refills W today (B x') (D x') ls2 (G x')"
  shows "refills W today (\<lambda>w. bnd (a w) B) (D x) (ls1 @ ls2) (\<lambda>ts. G (F1 (take (length ls1) ts)) (drop (length ls1) ts))"
  unfolding refills_def
proof (intro conjI allI impI)
  fix w v' w' assume n: "w_collect w = None" and r: "bnd (a w) B = (Inr v', w')"
  obtain x' w1 where s: "a w = (Inr x', w1)" "B x' w1 = (Inr v', w')" using r unfolding bnd_Inr by blast
  obtain o1 e1 where o1: "mask_all W today (w_force_disabled w) ls1 (w_engine w) = (Inr o1, e1)"
    "w1 = absorb w o1 e1" "x' = F1 (map masked_text o1)" by (rule refills_maskE [OF a n s(1)])
  have w1: "w_collect w1 = None" "w_force_disabled w1 = w_force_disabled w" "w_engine w1 = e1"
    using n unfolding o1(2) by (simp_all add: absorb_def)
  obtain o2 e2 where o2: "mask_all W today (w_force_disabled w1) ls2 (w_engine w1) = (Inr o2, e2)"
    "w' = absorb w1 o2 e2" "v' = G x' (map masked_text o2)" by (rule refills_maskE [OF b w1(1) s(2)])
  have "mask_all W today (w_force_disabled w) (ls1 @ ls2) (w_engine w) = (Inr (o1 @ o2), e2)"
    by (rule mask_all_append [OF o1(1)]) (use o2(1) w1 in simp)
  moreover have "w' = absorb w (o1 @ o2) e2" unfolding o2(2) o1(2) by (rule absorb_append)
  moreover have "v' = G (F1 (take (length ls1) (map masked_text (o1 @ o2)))) (drop (length ls1) (map masked_text (o1 @ o2)))"
    using o1(3) o2(3) mask_all_length [OF o1(1)] by simp
  ultimately show "\<exists>outs e'. mask_all W today (w_force_disabled w) (ls1 @ ls2) (w_engine w) = (Inr outs, e')
      \<and> w' = absorb w outs e'
      \<and> v' = G (F1 (take (length ls1) (map masked_text outs))) (drop (length ls1) (map masked_text outs))" by blast
next
  fix w v' w' ls0 assume n: "w_collect w = Some ls0" and r: "bnd (a w) B = (Inr v', w')"
  obtain x' w1 where s: "a w = (Inr x', w1)" "B x' w1 = (Inr v', w')" using r unfolding bnd_Inr by blast
  have w1: "x' = x" "w1 = w\<lparr>w_collect := Some (ls0 @ ls1)\<rparr>" using refills_collectD [OF a n s(1)] by simp_all
  have "w_collect w1 = Some (ls0 @ ls1)" unfolding w1 by simp
  from refills_collectD [OF b this s(2)] show "v' = D x" "w' = w\<lparr>w_collect := Some (ls0 @ ls1 @ ls2)\<rparr>"
    unfolding w1 by simp_all
qed

text \<open>The two shapes every walk of a record or a constructor has: a last step, and one more step before the rest.\<close>

lemma refills_map:
  assumes "refills W today a x ls F"
  shows "refills W today (\<lambda>w. bnd (a w) (\<lambda>x' w. (Inr (C x'), w))) (C x) ls (\<lambda>ts. C (F ts))"
proof -
  have "refills W today (\<lambda>w. bnd (a w) (\<lambda>x' w. (Inr (C x'), w))) (C x) (ls @ [])
      (\<lambda>ts. (\<lambda>_. C (F (take (length ls) ts))) (drop (length ls) ts))"
    by (rule refills_bnd [OF assms, where G = "\<lambda>x' _. C x'"]) (rule refills_ret, simp)
  then show ?thesis by (rule refills_cong) simp_all
qed

lemma refills2:
  assumes "refills W today a1 v1 l1 F1" "refills W today a2 v2 l2 F2"
  shows "refills W today (\<lambda>w. bnd (a1 w) (\<lambda>x1 w. bnd (a2 w) (\<lambda>x2 w. (Inr (C x1 x2), w)))) (C v1 v2) (l1 @ l2)
    (\<lambda>ts. C (F1 (take (length l1) ts)) (F2 (drop (length l1) ts)))"
  by (rule refills_bnd [OF assms(1), where G = "\<lambda>x1 ts. C x1 (F2 ts)"]) (rule refills_map [OF assms(2)])

lemma refills3:
  assumes "refills W today a1 v1 l1 F1" "refills W today a2 v2 l2 F2" "refills W today a3 v3 l3 F3"
  shows "refills W today (\<lambda>w. bnd (a1 w) (\<lambda>x1 w. bnd (a2 w) (\<lambda>x2 w. bnd (a3 w) (\<lambda>x3 w. (Inr (C x1 x2 x3), w)))))
    (C v1 v2 v3) (l1 @ l2 @ l3)
    (\<lambda>ts. C (F1 (take (length l1) ts)) (F2 (take (length l2) (drop (length l1) ts)))
            (F3 (drop (length l2) (drop (length l1) ts))))"
  by (rule refills_bnd [OF assms(1), where G = "\<lambda>x1 ts. C x1 (F2 (take (length l2) ts)) (F3 (drop (length l2) ts))"])
    (rule refills2 [OF assms(2,3)])

lemma refills5:
  assumes "refills W today a1 v1 l1 F1" "refills W today a2 v2 l2 F2" "refills W today a3 v3 l3 F3"
    "refills W today a4 v4 l4 F4" "refills W today a5 v5 l5 F5"
  shows "refills W today (\<lambda>w. bnd (a1 w) (\<lambda>x1 w. bnd (a2 w) (\<lambda>x2 w. bnd (a3 w) (\<lambda>x3 w. bnd (a4 w) (\<lambda>x4 w.
      bnd (a5 w) (\<lambda>x5 w. (Inr (C x1 x2 x3 x4 x5), w))))))) (C v1 v2 v3 v4 v5) (l1 @ l2 @ l3 @ l4 @ l5)
    (\<lambda>ts. C (F1 (take (length l1) ts)) (F2 (take (length l2) (drop (length l1) ts)))
            (F3 (take (length l3) (drop (length l1 + length l2) ts)))
            (F4 (take (length l4) (drop (length l1 + length l2 + length l3) ts)))
            (F5 (drop (length l1 + length l2 + length l3 + length l4) ts)))"
proof -
  have 2: "refills W today (\<lambda>w. bnd (a2 w) (\<lambda>x2 w. bnd (a3 w) (\<lambda>x3 w. bnd (a4 w) (\<lambda>x4 w.
      bnd (a5 w) (\<lambda>x5 w. (Inr (C x1 x2 x3 x4 x5), w)))))) (C x1 v2 v3 v4 v5) (l2 @ l3 @ l4 @ l5)
      (\<lambda>ts. C x1 (F2 (take (length l2) ts)) (F3 (take (length l3) (drop (length l2) ts)))
        (F4 (take (length l4) (drop (length l3) (drop (length l2) ts))))
        (F5 (drop (length l4) (drop (length l3) (drop (length l2) ts)))))" for x1
    by (rule refills_bnd [OF assms(2), where G = "\<lambda>x2 ts. C x1 x2 (F3 (take (length l3) ts))
        (F4 (take (length l4) (drop (length l3) ts))) (F5 (drop (length l4) (drop (length l3) ts)))"])
      (rule refills3 [OF assms(3-5)])
  have "refills W today (\<lambda>w. bnd (a1 w) (\<lambda>x1 w. bnd (a2 w) (\<lambda>x2 w. bnd (a3 w) (\<lambda>x3 w. bnd (a4 w) (\<lambda>x4 w.
      bnd (a5 w) (\<lambda>x5 w. (Inr (C x1 x2 x3 x4 x5), w))))))) (C v1 v2 v3 v4 v5) (l1 @ l2 @ l3 @ l4 @ l5)
      (\<lambda>ts. (\<lambda>x1 ts. C x1 (F2 (take (length l2) ts)) (F3 (take (length l3) (drop (length l2) ts)))
        (F4 (take (length l4) (drop (length l3) (drop (length l2) ts))))
        (F5 (drop (length l4) (drop (length l3) (drop (length l2) ts))))) (F1 (take (length l1) ts)) (drop (length l1) ts))"
    by (rule refills_bnd [OF assms(1) 2])
  then show ?thesis by (rule refills_cong) (simp_all add: ac_simps)
qed

fun fill_each :: "('a \<Rightarrow> nat) \<Rightarrow> ('a \<Rightarrow> string list \<Rightarrow> 'a) \<Rightarrow> 'a list \<Rightarrow> string list \<Rightarrow> 'a list" where
  "fill_each c f [] ts = []"
| "fill_each c f (x # xs) ts = f x (take (c x) ts) # fill_each c f xs (drop (c x) ts)"

lemma refills_each:
  assumes "\<And>x. x \<in> set xs \<Longrightarrow> refills W today (act x) x (L x) (f x)" "c = (\<lambda>x. length (L x))"
  shows "refills W today (walk_each act xs) xs (each_leaves L xs) (fill_each c f xs)"
  using assms(1)
proof (induction xs)
  case Nil
  show ?case by (rule refills_cong [OF refills_ret [where F = "\<lambda>_. []"]]) (simp_all add: each_leaves_def)
next
  case (Cons x xs)
  have x: "refills W today (act x) x (L x) (f x)"
    and xs: "refills W today (walk_each act xs) xs (each_leaves L xs) (fill_each c f xs)" using Cons by simp_all
  show ?case by (rule refills_cong [OF refills2 [OF x xs, where C = Cons]]) (simp_all add: each_leaves_def assms(2))
qed

lemma refills_opt:
  assumes "\<And>x. refills W today (act x) x (L x) (f x)"
  shows "refills W today (walk_opt act v) v (opt_leaves L v) (\<lambda>ts. map_option (\<lambda>x. f x ts) v)"
proof (cases v)
  case None
  then show ?thesis
    by (intro refills_cong [OF refills_ret [where F = "\<lambda>_. None"]]) (simp_all add: walk_opt_def)
next
  case (Some y)
  then show ?thesis
    by (intro refills_cong [OF refills_map [OF assms [of y], where C = Some]]) (simp_all add: walk_opt_def)
qed

section \<open>Free JSON\<close>

fun carve_texts :: "(string \<Rightarrow> bool) \<Rightarrow> json \<Rightarrow> string list"
  and carve_item_texts :: "(string \<Rightarrow> bool) \<Rightarrow> json list \<Rightarrow> string list"
  and carve_member_texts :: "(string \<Rightarrow> bool) \<Rightarrow> bool \<Rightarrow> (string \<times> json) list \<Rightarrow> string list"
where
  "carve_texts P (JStr t) = [t]"
| "carve_texts P (JArr xs) = carve_item_texts P xs"
| "carve_texts P (JObj ms) = carve_member_texts P (is_base64_object ms) ms"
| "carve_texts P v = []"
| "carve_item_texts P [] = []"
| "carve_item_texts P (x # xs) = carve_texts P x @ carve_item_texts P xs"
| "carve_member_texts P b64 [] = []"
| "carve_member_texts P b64 ((k, x) # ms) =
     (if b64 \<and> k = ''data'' \<or> P k then [] else carve_texts P x) @ carve_member_texts P b64 ms"

fun carve_fill :: "(string \<Rightarrow> bool) \<Rightarrow> json \<Rightarrow> string list \<Rightarrow> json"
  and carve_fill_items :: "(string \<Rightarrow> bool) \<Rightarrow> json list \<Rightarrow> string list \<Rightarrow> json list"
  and carve_fill_members :: "(string \<Rightarrow> bool) \<Rightarrow> bool \<Rightarrow> (string \<times> json) list \<Rightarrow> string list \<Rightarrow> (string \<times> json) list"
where
  "carve_fill P (JStr t) ts = JStr (hd ts)"
| "carve_fill P (JArr xs) ts = JArr (carve_fill_items P xs ts)"
| "carve_fill P (JObj ms) ts = JObj (carve_fill_members P (is_base64_object ms) ms ts)"
| "carve_fill P v ts = v"
| "carve_fill_items P [] ts = []"
| "carve_fill_items P (x # xs) ts =
     carve_fill P x (take (length (carve_texts P x)) ts) # carve_fill_items P xs (drop (length (carve_texts P x)) ts)"
| "carve_fill_members P b64 [] ts = []"
| "carve_fill_members P b64 ((k, x) # ms) ts =
     (if b64 \<and> k = ''data'' \<or> P k then (k, x) # carve_fill_members P b64 ms ts
      else (k, carve_fill P x (take (length (carve_texts P x)) ts))
             # carve_fill_members P b64 ms (drop (length (carve_texts P x)) ts))"

definition on_surface :: "surface \<Rightarrow> string list \<Rightarrow> leaf list" where
  "on_surface s ts = map (\<lambda>t. (t, s)) ts"

lemma on_surface_simps [simp]:
  "on_surface s [] = []" "on_surface s (t # ts) = (t, s) # on_surface s ts"
  "on_surface s (a @ b) = on_surface s a @ on_surface s b" "length (on_surface s ts) = length ts"
  by (simp_all add: on_surface_def)

lemma carve_refills:
  "refills W today (carve_value P W today s v) v (on_surface s (carve_texts P v)) (carve_fill P v)"
  "refills W today (carve_items P W today s xs) xs (on_surface s (carve_item_texts P xs)) (carve_fill_items P xs)"
  "refills W today (carve_members P W today s b64 ms) ms (on_surface s (carve_member_texts P b64 ms)) (carve_fill_members P b64 ms)"
proof (induction P v and P xs and P b64 ms rule: carve_texts_carve_item_texts_carve_member_texts.induct)
  case (1 P t)
  show ?case by (rule refills_cong [OF refills_map [OF refills_str, where C = JStr]]) simp_all
next
  case (2 P xs)
  show ?case by (rule refills_cong [OF refills_map [OF 2, where C = JArr]]) simp_all
next
  case (3 P ms)
  show ?case by (rule refills_cong [OF refills_map [OF 3, where C = JObj]]) simp_all
next
  case (5 P)
  show ?case by (rule refills_cong [OF refills_ret [where F = "\<lambda>_. []"]]) simp_all
next
  case (6 P x xs)
  show ?case by (rule refills_cong [OF refills2 [OF 6, where C = Cons]]) simp_all
next
  case (7 P b64)
  show ?case by (rule refills_cong [OF refills_ret [where F = "\<lambda>_. []"]]) simp_all
next
  case (8 P b64 k x ms)
  let ?keep = "b64 \<and> k = ''data'' \<or> P k"
  have h: "refills W today (\<lambda>w. if b64 \<and> k = ''data'' then (Inr x, w) else if P k then walk_schema W x w
      else carve_value P W today s x w) x (if ?keep then [] else on_surface s (carve_texts P x))
      (\<lambda>ts. if ?keep then x else carve_fill P x ts)"
  proof -
    consider "b64 \<and> k = ''data''" | "\<not> (b64 \<and> k = ''data'')" "P k" | "\<not> (b64 \<and> k = ''data'')" "\<not> P k" by blast
    then show ?thesis
    proof cases
      case 1
      then show ?thesis by (simp add: refills_ret)
    next
      case 2
      show ?thesis unfolding schema_eta by (simp only: 2 if_True if_False simp_thms) (rule refills_refuse, simp)
    next
      case 3
      from 8(1) [OF _ ] 3 show ?thesis by (simp only: 3 if_False simp_thms)
    qed
  qed
  show ?case
    by (rule refills_cong [OF refills2 [OF h 8(2), where C = "\<lambda>x ms. (k, x) # ms"]]) simp_all
qed (rule refills_cong [OF refills_ret [where F = "\<lambda>_. v" and v = v for v]]; simp)+

lemma carve_map_refills:
  "refills W today (carve_map P W today s m) m (on_surface s (carve_member_texts P False m)) (carve_fill_members P False m)"
  by (rule refills_cong [OF carve_refills(3)]) (simp_all add: carve_map_def)

section \<open>Chat completions\<close>

definition url_masked :: "string \<Rightarrow> bool" where
  "url_masked u \<longleftrightarrow> \<not> starts_with ''data:'' u"

fun chat_part_texts :: "chat_part \<Rightarrow> string list" where
  "chat_part_texts (CpText t r) = [t]"
| "chat_part_texts (CpImage u x r) = (if url_masked u then [u] else []) @ carve_member_texts chat_contract_key False x"
| "chat_part_texts (CpOther r) = []"

fun chat_part_fill :: "chat_part \<Rightarrow> string list \<Rightarrow> chat_part" where
  "chat_part_fill (CpText t r) ts = CpText (hd ts) r"
| "chat_part_fill (CpImage u x r) ts =
     (if url_masked u then CpImage (hd ts) (carve_fill_members chat_contract_key False x (tl ts)) r
      else CpImage u (carve_fill_members chat_contract_key False x ts) r)"
| "chat_part_fill (CpOther r) ts = CpOther r"

fun chat_content_texts :: "chat_content \<Rightarrow> string list" where
  "chat_content_texts (CcText t) = [t]"
| "chat_content_texts (CcParts ps) = concat (map chat_part_texts ps)"
| "chat_content_texts (CcOther r) = []"

fun chat_content_fill :: "chat_content \<Rightarrow> string list \<Rightarrow> chat_content" where
  "chat_content_fill (CcText t) ts = CcText (hd ts)"
| "chat_content_fill (CcParts ps) ts = CcParts (fill_each (\<lambda>p. length (chat_part_texts p)) chat_part_fill ps ts)"
| "chat_content_fill (CcOther r) ts = CcOther r"

text \<open>The leaves of a message: content, the id a tool message answers, name, call arguments, other fields.\<close>

definition chat_id_leaves :: "chat_message \<Rightarrow> leaf list" where
  "chat_id_leaves m = (if cm_role m = ''tool'' then opt_leaves (\<lambda>i. [(i, ToolResult)]) (cm_tool_call_id m) else [])"

definition chat_message_leaves :: "chat_message \<Rightarrow> leaf list" where
  "chat_message_leaves m =
     (let s = openai_surface (cm_role m) in
      opt_leaves (\<lambda>c. on_surface s (chat_content_texts c)) (cm_content m)
      @ chat_id_leaves m
      @ opt_leaves (\<lambda>n. [(n, UserMessage)]) (cm_name m)
      @ opt_leaves (each_leaves (\<lambda>c. [(cl_arguments c, ToolUseInput)])) (cm_tool_calls m)
      @ on_surface s (carve_member_texts chat_contract_key False (cm_extra m)))"

definition chat_message_fill :: "chat_message \<Rightarrow> string list \<Rightarrow> chat_message" where
  "chat_message_fill m ts =
     (let a = length (opt_leaves (\<lambda>c. on_surface UserMessage (chat_content_texts c)) (cm_content m));
          b = length (chat_id_leaves m); c = length (opt_leaves (\<lambda>n. [(n, UserMessage)]) (cm_name m));
          d = length (opt_leaves (each_leaves (\<lambda>c. [(cl_arguments c, ToolUseInput)])) (cm_tool_calls m))
      in m\<lparr>cm_content := map_option (\<lambda>x. chat_content_fill x (take a ts)) (cm_content m),
           cm_tool_call_id :=
             (if cm_role m = ''tool'' then map_option (\<lambda>_. hd (take b (drop a ts))) (cm_tool_call_id m) else cm_tool_call_id m),
           cm_name := map_option (\<lambda>_. hd (take c (drop (a + b) ts))) (cm_name m),
           cm_tool_calls :=
             map_option (\<lambda>cs. fill_each (\<lambda>_. 1) (\<lambda>c ts. c\<lparr>cl_arguments := hd ts\<rparr>) cs (take d (drop (a + b + c) ts)))
               (cm_tool_calls m),
           cm_extra := carve_fill_members chat_contract_key False (cm_extra m) (drop (a + b + c + d) ts)\<rparr>)"

definition chat_leaves :: "chat_request \<Rightarrow> leaf list" where
  "chat_leaves rq =
     each_leaves chat_message_leaves (cr_messages rq)
     @ on_surface UserMessage (carve_member_texts chat_contract_key False (cr_extra rq))"

definition chat_fill :: "chat_request \<Rightarrow> string list \<Rightarrow> chat_request" where
  "chat_fill rq ts =
     (let n = length (each_leaves chat_message_leaves (cr_messages rq))
      in rq\<lparr>cr_messages := fill_each (\<lambda>m. length (chat_message_leaves m)) chat_message_fill (cr_messages rq) (take n ts),
            cr_extra := carve_fill_members chat_contract_key False (cr_extra rq) (drop n ts)\<rparr>)"

lemma refills_if:
  assumes "b \<Longrightarrow> refills W today act1 v l1 F1" "\<not> b \<Longrightarrow> refills W today act2 v l2 F2"
  shows "refills W today (\<lambda>w. if b then act1 w else act2 w) v (if b then l1 else l2) (\<lambda>ts. if b then F1 ts else F2 ts)"
  using assms by (cases b) simp_all

lemma chat_part_refills:
  "refills W today (walk_chat_part W today s p) p (on_surface s (chat_part_texts p)) (chat_part_fill p)"
proof (cases p)
  case (CpText t r)
  then show ?thesis
    by (intro refills_cong [OF refills_map [OF refills_str, where C = "\<lambda>t. CpText t r"]]) (simp_all add: walk_chat_part_def)
next
  case (CpImage u x r)
  have h: "refills W today (\<lambda>w. if starts_with ''data:'' u then (Inr u, w) else walk_str W today s u w) u
      (if starts_with ''data:'' u then [] else [(u, s)]) (\<lambda>ts. if starts_with ''data:'' u then u else hd ts)"
    by (rule refills_if) (simp_all add: refills_ret refills_str)
  show ?thesis unfolding CpImage
    by (rule refills_cong [OF refills2 [OF h carve_map_refills [of W today chat_contract_key s x],
          where C = "\<lambda>u x. CpImage u x r"]])
      (simp_all add: walk_chat_part_def url_masked_def drop_Suc)
next
  case (CpOther r)
  then show ?thesis
    by (intro refills_cong [OF refills_ret [where F = "\<lambda>_. p" and v = p]]) (simp_all add: walk_chat_part_def)
qed

lemma on_surface_concat: "on_surface s (concat (map f xs)) = each_leaves (\<lambda>x. on_surface s (f x)) xs"
  by (induction xs) (simp_all add: each_leaves_def)

lemma chat_content_refills:
  "refills W today (walk_chat_content W today s c) c (on_surface s (chat_content_texts c)) (chat_content_fill c)"
proof (cases c)
  case (CcText t)
  then show ?thesis
    by (intro refills_cong [OF refills_map [OF refills_str, where C = CcText]]) (simp_all add: walk_chat_content_def)
next
  case (CcParts ps)
  have "refills W today (walk_each (walk_chat_part W today s) ps) ps (each_leaves (\<lambda>p. on_surface s (chat_part_texts p)) ps)
      (fill_each (\<lambda>p. length (chat_part_texts p)) chat_part_fill ps)"
    by (rule refills_each) (simp_all add: chat_part_refills)
  with CcParts show ?thesis
    by (intro refills_cong [OF refills_map [where C = CcParts]])
      (simp_all add: walk_chat_content_def on_surface_concat)
next
  case (CcOther r)
  then show ?thesis
    by (intro refills_cong [OF refills_ret [where F = "\<lambda>_. c" and v = c]]) (simp_all add: walk_chat_content_def)
qed

lemma chat_call_refills:
  "refills W today (walk_chat_call W today c) c [(cl_arguments c, ToolUseInput)] (\<lambda>ts. c\<lparr>cl_arguments := hd ts\<rparr>)"
  by (rule refills_cong [OF refills_map [OF refills_str, where C = "\<lambda>a. c\<lparr>cl_arguments := a\<rparr>"]])
    (simp_all add: walk_chat_call_def)

lemma refills_opt_str:
  "refills W today (walk_opt (walk_str W today s) v) v (opt_leaves (\<lambda>t. [(t, s)]) v) (\<lambda>ts. map_option (\<lambda>_. hd ts) v)"
  by (rule refills_opt) (rule refills_str)

lemma opt_length: "length (opt_leaves (\<lambda>x. on_surface s (f x)) v) = length (opt_leaves (\<lambda>x. on_surface s' (f x)) v)"
  by (cases v) simp_all

lemma chat_message_refills:
  "refills W today (walk_chat_message W today m) m (chat_message_leaves m) (chat_message_fill m)"
proof -
  let ?s = "openai_surface (cm_role m)"
  have id: "refills W today (\<lambda>w. if cm_role m = ''tool'' then walk_opt (walk_str W today ToolResult) (cm_tool_call_id m) w
      else (Inr (cm_tool_call_id m), w)) (cm_tool_call_id m) (chat_id_leaves m)
      (\<lambda>ts. if cm_role m = ''tool'' then map_option (\<lambda>_. hd ts) (cm_tool_call_id m) else cm_tool_call_id m)"
    unfolding chat_id_leaves_def by (rule refills_if) (simp_all add: refills_opt_str refills_ret)
  have calls: "refills W today (walk_opt (walk_each (walk_chat_call W today)) (cm_tool_calls m)) (cm_tool_calls m)
      (opt_leaves (each_leaves (\<lambda>c. [(cl_arguments c, ToolUseInput)])) (cm_tool_calls m))
      (\<lambda>ts. map_option (\<lambda>cs. fill_each (\<lambda>_. 1) (\<lambda>c ts. c\<lparr>cl_arguments := hd ts\<rparr>) cs ts) (cm_tool_calls m))"
    by (rule refills_opt, rule refills_each) (simp_all add: chat_call_refills)
  show ?thesis
    by (rule refills_cong [OF refills5 [OF refills_opt [OF chat_content_refills [of W today ?s], where v = "cm_content m"] id
          refills_opt_str [of W today UserMessage "cm_name m"] calls carve_map_refills [of W today chat_contract_key ?s "cm_extra m"],
          where C = "\<lambda>c i n calls x. m\<lparr>cm_content := c, cm_tool_call_id := i, cm_name := n, cm_tool_calls := calls, cm_extra := x\<rparr>"]],
        simp add: walk_chat_message_def Let_def, simp, simp add: chat_message_leaves_def Let_def,
        simp only: chat_message_fill_def Let_def opt_length [of ?s chat_content_texts "cm_content m" UserMessage])
qed

lemma chat_request_refills:
  "refills W today (walk_chat_request W K today rq) (fold_thinking rq) (chat_leaves (fold_thinking rq)) (chat_fill (fold_thinking rq))"
proof -
  let ?r = "fold_thinking rq"
  have msgs: "refills W today (walk_each (walk_chat_message W today) (cr_messages ?r)) (cr_messages ?r)
      (each_leaves chat_message_leaves (cr_messages ?r))
      (fill_each (\<lambda>m. length (chat_message_leaves m)) chat_message_fill (cr_messages ?r))"
    by (rule refills_each) (simp_all add: chat_message_refills)
  have chk: "refills W today (\<lambda>w. refuse_hit (chat_contract_hit W K (w_engine w) ?r) () w) () [] (\<lambda>_. ())"
    by (rule refills_refuse) simp
  show ?thesis
    by (rule refills_cong [OF refills3 [OF msgs chk carve_map_refills [of W today chat_contract_key UserMessage "cr_extra ?r"],
          where C = "\<lambda>ms _ x. ?r\<lparr>cr_messages := ms, cr_extra := x\<rparr>"]])
      (simp_all add: walk_chat_request_def chat_leaves_def chat_fill_def Let_def)
qed

end
