(* ===== verification/Responses_Laws.thy ===== *)
theory Responses_Laws
  imports Openai_Laws
begin

text \<open>
  The leaves of a Responses request, what refilling it means, and the properties of both OpenAI walks.
\<close>

section \<open>Leaves and refilling\<close>

abbreviation resp_map_texts :: "(string \<times> json) list \<Rightarrow> string list" where
  "resp_map_texts \<equiv> carve_member_texts resp_contract_key False"

abbreviation resp_map_fill :: "(string \<times> json) list \<Rightarrow> string list \<Rightarrow> (string \<times> json) list" where
  "resp_map_fill \<equiv> carve_fill_members resp_contract_key False"

definition image_texts :: "string option \<Rightarrow> string list" where
  "image_texts u = (case u of Some s \<Rightarrow> if url_masked s then [s] else [] | None \<Rightarrow> [])"

fun resp_part_leaves :: "surface \<Rightarrow> resp_part \<Rightarrow> leaf list" where
  "resp_part_leaves s (RpInputText t x) = on_surface s (t # resp_map_texts x)"
| "resp_part_leaves s (RpOutputText t x r) = on_surface s (t # resp_map_texts x)"
| "resp_part_leaves s (RpRefusal t x) = on_surface AssistantText (t # resp_map_texts x)"
| "resp_part_leaves s (RpInputImage u x r) = on_surface s (image_texts u @ resp_map_texts x)"
| "resp_part_leaves s (RpInputFile x r) = on_surface s (resp_map_texts x)"
| "resp_part_leaves s (RpOther v) = on_surface s (carve_texts resp_contract_key v)"
| "resp_part_leaves s (RpSkipped r) = []"

fun resp_part_fill :: "resp_part \<Rightarrow> string list \<Rightarrow> resp_part" where
  "resp_part_fill (RpInputText t x) ts = RpInputText (hd ts) (resp_map_fill x (tl ts))"
| "resp_part_fill (RpOutputText t x r) ts = RpOutputText (hd ts) (resp_map_fill x (tl ts)) r"
| "resp_part_fill (RpRefusal t x) ts = RpRefusal (hd ts) (resp_map_fill x (tl ts))"
| "resp_part_fill (RpInputImage u x r) ts =
     (let n = length (image_texts u)
      in RpInputImage (if n = 0 then u else Some (hd ts)) (resp_map_fill x (drop n ts)) r)"
| "resp_part_fill (RpInputFile x r) ts = RpInputFile (resp_map_fill x ts) r"
| "resp_part_fill (RpOther v) ts = RpOther (carve_fill resp_contract_key v ts)"
| "resp_part_fill (RpSkipped r) ts = RpSkipped r"

fun resp_content_leaves :: "surface \<Rightarrow> resp_content \<Rightarrow> leaf list" where
  "resp_content_leaves s (RcText t) = [(t, s)]"
| "resp_content_leaves s (RcParts ps) = each_leaves (resp_part_leaves s) ps"
| "resp_content_leaves s (RcOther v) = on_surface s (carve_texts resp_contract_key v)"
| "resp_content_leaves s (RcSkipped r) = []"

fun resp_content_fill :: "surface \<Rightarrow> resp_content \<Rightarrow> string list \<Rightarrow> resp_content" where
  "resp_content_fill s (RcText t) ts = RcText (hd ts)"
| "resp_content_fill s (RcParts ps) ts = RcParts (fill_each (\<lambda>p. length (resp_part_leaves s p)) resp_part_fill ps ts)"
| "resp_content_fill s (RcOther v) ts = RcOther (carve_fill resp_contract_key v ts)"
| "resp_content_fill s (RcSkipped r) ts = RcSkipped r"

definition resp_message_leaves :: "resp_message \<Rightarrow> leaf list" where
  "resp_message_leaves m =
     opt_leaves (resp_content_leaves (openai_surface (rm_role m))) (rm_content m)
     @ on_surface (openai_surface (rm_role m)) (resp_map_texts (rm_extra m))"

definition resp_message_fill :: "resp_message \<Rightarrow> string list \<Rightarrow> resp_message" where
  "resp_message_fill m ts =
     (let s = openai_surface (rm_role m); n = length (opt_leaves (resp_content_leaves s) (rm_content m))
      in m\<lparr>rm_content := map_option (\<lambda>c. resp_content_fill s c (take n ts)) (rm_content m),
           rm_extra := resp_map_fill (rm_extra m) (drop n ts)\<rparr>)"

fun resp_item_leaves :: "resp_item \<Rightarrow> leaf list" where
  "resp_item_leaves (RiMessage m) = resp_message_leaves m"
| "resp_item_leaves (RiCall c) = on_surface ToolUseInput (rc_arguments c # resp_map_texts (rc_extra c))"
| "resp_item_leaves (RiOutput c) = on_surface ToolResult (ro_output c # resp_map_texts (ro_extra c))"
| "resp_item_leaves (RiOther v) = on_surface UserMessage (carve_texts resp_contract_key v)"
| "resp_item_leaves (RiSkipped r) = []"

fun resp_item_fill :: "resp_item \<Rightarrow> string list \<Rightarrow> resp_item" where
  "resp_item_fill (RiMessage m) ts = RiMessage (resp_message_fill m ts)"
| "resp_item_fill (RiCall c) ts = RiCall (c\<lparr>rc_arguments := hd ts, rc_extra := resp_map_fill (rc_extra c) (tl ts)\<rparr>)"
| "resp_item_fill (RiOutput c) ts = RiOutput (c\<lparr>ro_output := hd ts, ro_extra := resp_map_fill (ro_extra c) (tl ts)\<rparr>)"
| "resp_item_fill (RiOther v) ts = RiOther (carve_fill resp_contract_key v ts)"
| "resp_item_fill (RiSkipped r) ts = RiSkipped r"

fun resp_input_leaves :: "resp_input \<Rightarrow> leaf list" where
  "resp_input_leaves (InText t) = [(t, UserMessage)]"
| "resp_input_leaves (InItems xs) = each_leaves resp_item_leaves xs"
| "resp_input_leaves (InOther v) = on_surface UserMessage (carve_texts resp_contract_key v)"
| "resp_input_leaves (InSkipped r) = []"

fun resp_input_fill :: "resp_input \<Rightarrow> string list \<Rightarrow> resp_input" where
  "resp_input_fill (InText t) ts = InText (hd ts)"
| "resp_input_fill (InItems xs) ts = InItems (fill_each (\<lambda>i. length (resp_item_leaves i)) resp_item_fill xs ts)"
| "resp_input_fill (InOther v) ts = InOther (carve_fill resp_contract_key v ts)"
| "resp_input_fill (InSkipped r) ts = InSkipped r"

definition resp_leaves :: "resp_request \<Rightarrow> leaf list" where
  "resp_leaves rq =
     opt_leaves resp_input_leaves (rr_input rq) @ opt_leaves (\<lambda>t. [(t, SystemPrompt)]) (rr_instructions rq)
     @ opt_leaves (\<lambda>v. on_surface UserMessage (carve_texts resp_contract_key v)) (rr_metadata rq)
     @ on_surface UserMessage (resp_map_texts (rr_extra rq))"

definition resp_fill :: "resp_request \<Rightarrow> string list \<Rightarrow> resp_request" where
  "resp_fill rq ts =
     (let a = length (opt_leaves resp_input_leaves (rr_input rq));
          b = length (opt_leaves (\<lambda>t. [(t, SystemPrompt)]) (rr_instructions rq));
          c = length (opt_leaves (\<lambda>v. on_surface UserMessage (carve_texts resp_contract_key v)) (rr_metadata rq))
      in rq\<lparr>rr_input := map_option (\<lambda>i. resp_input_fill i (take a ts)) (rr_input rq),
            rr_instructions := map_option (\<lambda>_. hd (take b (drop a ts))) (rr_instructions rq),
            rr_metadata := map_option (\<lambda>v. carve_fill resp_contract_key v (take c (drop (a + b) ts))) (rr_metadata rq),
            rr_extra := resp_map_fill (rr_extra rq) (drop (a + b + c) ts)\<rparr>)"

section \<open>The walks refill\<close>

lemma text_and_map:
  "refills W today (\<lambda>w. bnd (walk_str W today s t w) (\<lambda>t w. bnd (carve_map P W today s x w) (\<lambda>x w. (Inr (C t x), w))))
     (C t x) (on_surface s (t # carve_member_texts P False x))
     (\<lambda>ts. C (hd ts) (carve_fill_members P False x (tl ts)))"
  by (rule refills_cong [OF refills2 [OF refills_str [of W today s t] carve_map_refills [of W today P s x], where C = C]])
    (simp_all add: drop_Suc)

lemma image_refills:
  "refills W today (walk_opt (\<lambda>u w. if starts_with ''data:'' u then (Inr u, w) else walk_str W today s u w) u) u
     (on_surface s (image_texts u)) (\<lambda>ts. if image_texts u = [] then u else Some (hd ts))"
proof (cases u)
  case None
  then show ?thesis
    by (intro refills_cong [OF refills_ret [where F = "\<lambda>_. None"]]) (simp_all add: walk_opt_def image_texts_def)
next
  case (Some v)
  have h: "refills W today (\<lambda>w. if starts_with ''data:'' v then (Inr v, w) else walk_str W today s v w) v
      (if starts_with ''data:'' v then [] else [(v, s)]) (\<lambda>ts. if starts_with ''data:'' v then v else hd ts)"
    by (rule refills_if) (simp_all add: refills_ret refills_str)
  show ?thesis unfolding Some
    by (rule refills_cong [OF refills_map [OF h, where C = Some]]) (simp_all add: walk_opt_def image_texts_def url_masked_def)
qed

lemma resp_part_refills:
  "refills W today (walk_resp_part W today s p) p (resp_part_leaves s p) (resp_part_fill p)"
proof (cases p)
  case (RpInputText t x)
  show ?thesis unfolding RpInputText
    by (rule refills_cong [OF text_and_map [of W today s t resp_contract_key x RpInputText]]) (simp_all add: walk_resp_part_def)
next
  case (RpOutputText t x r)
  show ?thesis unfolding RpOutputText
    by (rule refills_cong [OF text_and_map [of W today s t resp_contract_key x "\<lambda>t x. RpOutputText t x r"]])
      (simp_all add: walk_resp_part_def)
next
  case (RpRefusal t x)
  show ?thesis unfolding RpRefusal
    by (rule refills_cong [OF text_and_map [of W today AssistantText t resp_contract_key x RpRefusal]])
      (simp_all add: walk_resp_part_def)
next
  case (RpInputImage u x r)
  show ?thesis unfolding RpInputImage
    by (rule refills_cong [OF refills2 [OF image_refills [of W today s u] carve_map_refills [of W today resp_contract_key s x],
            where C = "\<lambda>u x. RpInputImage u x r"]])
      (simp_all add: walk_resp_part_def Let_def image_texts_def split: option.split)
next
  case (RpInputFile x r)
  show ?thesis unfolding RpInputFile
    by (rule refills_cong [OF refills_map [OF carve_map_refills [of W today resp_contract_key s x], where C = "\<lambda>x. RpInputFile x r"]])
      (simp_all add: walk_resp_part_def)
next
  case (RpOther v)
  show ?thesis unfolding RpOther
    by (rule refills_cong [OF refills_map [OF carve_refills(1) [of W today resp_contract_key s v], where C = RpOther]])
      (simp_all add: walk_resp_part_def)
next
  case (RpSkipped r)
  show ?thesis unfolding RpSkipped
    by (rule refills_cong [OF refills_ret [where F = "\<lambda>_. RpSkipped r"]]) (simp_all add: walk_resp_part_def)
qed

lemma resp_content_refills:
  "refills W today (walk_resp_content W today s c) c (resp_content_leaves s c) (resp_content_fill s c)"
proof (cases c)
  case (RcText t)
  show ?thesis unfolding RcText
    by (rule refills_cong [OF refills_map [OF refills_str [of W today s t], where C = RcText]]) (simp_all add: walk_resp_content_def)
next
  case (RcParts ps)
  have "refills W today (walk_each (walk_resp_part W today s) ps) ps (each_leaves (resp_part_leaves s) ps)
      (fill_each (\<lambda>p. length (resp_part_leaves s p)) resp_part_fill ps)"
    by (rule refills_each) (simp_all add: resp_part_refills)
  from refills_map [OF this, where C = RcParts] show ?thesis unfolding RcParts
    by (rule refills_cong) (simp_all add: walk_resp_content_def)
next
  case (RcOther v)
  show ?thesis unfolding RcOther
    by (rule refills_cong [OF refills_map [OF carve_refills(1) [of W today resp_contract_key s v], where C = RcOther]])
      (simp_all add: walk_resp_content_def)
next
  case (RcSkipped r)
  show ?thesis unfolding RcSkipped
    by (rule refills_cong [OF refills_ret [where F = "\<lambda>_. RcSkipped r"]]) (simp_all add: walk_resp_content_def)
qed

lemma resp_message_refills:
  "refills W today (walk_resp_message W today m) m (resp_message_leaves m) (resp_message_fill m)"
proof -
  let ?s = "openai_surface (rm_role m)"
  show ?thesis
    by (rule refills_cong [OF refills2 [OF refills_opt [OF resp_content_refills [of W today ?s], where v = "rm_content m"]
            carve_map_refills [of W today resp_contract_key ?s "rm_extra m"],
          where C = "\<lambda>c x. m\<lparr>rm_content := c, rm_extra := x\<rparr>"]])
      (simp_all add: walk_resp_message_def resp_message_leaves_def resp_message_fill_def Let_def)
qed

lemma resp_call_refills:
  "refills W today (walk_resp_call W today c) c (resp_item_leaves (RiCall c))
     (\<lambda>ts. c\<lparr>rc_arguments := hd ts, rc_extra := resp_map_fill (rc_extra c) (tl ts)\<rparr>)"
  by (rule refills_cong [OF text_and_map [of W today ToolUseInput "rc_arguments c" resp_contract_key "rc_extra c"
          "\<lambda>a x. c\<lparr>rc_arguments := a, rc_extra := x\<rparr>"]]) (simp_all add: walk_resp_call_def)

lemma resp_output_refills:
  "refills W today (walk_resp_output W today c) c (resp_item_leaves (RiOutput c))
     (\<lambda>ts. c\<lparr>ro_output := hd ts, ro_extra := resp_map_fill (ro_extra c) (tl ts)\<rparr>)"
  by (rule refills_cong [OF text_and_map [of W today ToolResult "ro_output c" resp_contract_key "ro_extra c"
          "\<lambda>a x. c\<lparr>ro_output := a, ro_extra := x\<rparr>"]]) (simp_all add: walk_resp_output_def)

lemma resp_item_refills:
  "refills W today (walk_resp_item W today i) i (resp_item_leaves i) (resp_item_fill i)"
proof (cases i)
  case (RiMessage m)
  show ?thesis unfolding RiMessage
    by (rule refills_cong [OF refills_map [OF resp_message_refills [of W today m], where C = RiMessage]])
      (simp_all add: walk_resp_item_def)
next
  case (RiCall c)
  show ?thesis unfolding RiCall
    by (rule refills_cong [OF refills_map [OF resp_call_refills [of W today c], where C = RiCall]])
      (simp_all add: walk_resp_item_def)
next
  case (RiOutput c)
  show ?thesis unfolding RiOutput
    by (rule refills_cong [OF refills_map [OF resp_output_refills [of W today c], where C = RiOutput]])
      (simp_all add: walk_resp_item_def)
next
  case (RiOther v)
  show ?thesis unfolding RiOther
    by (rule refills_cong [OF refills_map [OF carve_refills(1) [of W today resp_contract_key UserMessage v], where C = RiOther]])
      (simp_all add: walk_resp_item_def)
next
  case (RiSkipped r)
  show ?thesis unfolding RiSkipped
    by (rule refills_cong [OF refills_ret [where F = "\<lambda>_. RiSkipped r"]]) (simp_all add: walk_resp_item_def)
qed

lemma resp_input_refills:
  "refills W today (walk_resp_input W today i) i (resp_input_leaves i) (resp_input_fill i)"
proof (cases i)
  case (InText t)
  show ?thesis unfolding InText
    by (rule refills_cong [OF refills_map [OF refills_str [of W today UserMessage t], where C = InText]])
      (simp_all add: walk_resp_input_def)
next
  case (InItems xs)
  have "refills W today (walk_each (walk_resp_item W today) xs) xs (each_leaves resp_item_leaves xs)
      (fill_each (\<lambda>i. length (resp_item_leaves i)) resp_item_fill xs)"
    by (rule refills_each) (simp_all add: resp_item_refills)
  from refills_map [OF this, where C = InItems] show ?thesis unfolding InItems
    by (rule refills_cong) (simp_all add: walk_resp_input_def)
next
  case (InOther v)
  show ?thesis unfolding InOther
    by (rule refills_cong [OF refills_map [OF carve_refills(1) [of W today resp_contract_key UserMessage v], where C = InOther]])
      (simp_all add: walk_resp_input_def)
next
  case (InSkipped r)
  show ?thesis unfolding InSkipped
    by (rule refills_cong [OF refills_ret [where F = "\<lambda>_. InSkipped r"]]) (simp_all add: walk_resp_input_def)
qed

lemma resp_request_refills:
  "refills W today (walk_resp_request W today rq) rq (resp_leaves rq) (resp_fill rq)"
proof -
  have chk: "refills W today (\<lambda>w. refuse_hit (resp_contract_hit W (w_engine w) rq) () w) () [] (\<lambda>_. ())"
    by (rule refills_refuse) simp
  show ?thesis
    by (rule refills_cong [OF refills5 [OF refills_opt [OF resp_input_refills [of W today], where v = "rr_input rq"]
          refills_opt_str [of W today SystemPrompt "rr_instructions rq"]
          refills_opt [OF carve_refills(1) [of W today resp_contract_key UserMessage], where v = "rr_metadata rq"]
          chk carve_map_refills [of W today resp_contract_key UserMessage "rr_extra rq"],
          where C = "\<lambda>i s md _ x. rq\<lparr>rr_input := i, rr_instructions := s, rr_metadata := md, rr_extra := x\<rparr>"]],
        simp add: walk_resp_request_def, simp, simp add: resp_leaves_def, simp add: resp_fill_def Let_def)
qed

section \<open>What both walks leave verbatim\<close>

text \<open>The subtrees of free JSON under a contract key: scanned, never masked.\<close>

fun carve_kept :: "(string \<Rightarrow> bool) \<Rightarrow> json \<Rightarrow> json list"
  and carve_kept_items :: "(string \<Rightarrow> bool) \<Rightarrow> json list \<Rightarrow> json list"
  and carve_kept_members :: "(string \<Rightarrow> bool) \<Rightarrow> bool \<Rightarrow> (string \<times> json) list \<Rightarrow> json list"
where
  "carve_kept P (JArr xs) = carve_kept_items P xs"
| "carve_kept P (JObj ms) = carve_kept_members P (is_base64_object ms) ms"
| "carve_kept P v = []"
| "carve_kept_items P [] = []"
| "carve_kept_items P (x # xs) = carve_kept P x @ carve_kept_items P xs"
| "carve_kept_members P b64 [] = []"
| "carve_kept_members P b64 ((k, x) # ms) =
     (if b64 \<and> k = ''data'' then [] else if P k then [x] else carve_kept P x) @ carve_kept_members P b64 ms"

lemma refills_secrets:
  assumes "refills W today act v ls F" "act w = (Inr v', w')"
  shows "e_secrets (w_engine w') = e_secrets (w_engine w)"
proof (cases "w_collect w")
  case None
  obtain outs e' where "mask_all W today (w_force_disabled w) ls (w_engine w) = (Inr outs, e')" "w' = absorb w outs e'"
    by (rule refills_maskE [OF assms(1) None assms(2)])
  then show ?thesis using mask_all_secrets by (simp add: absorb_def)
next
  case (Some ls0)
  then show ?thesis using refills_collectD [OF assms(1) Some assms(2)] by simp
qed

definition json_clean :: "'c env \<Rightarrow> 'c mask_engine \<Rightarrow> json \<Rightarrow> bool" where
  "json_clean W e v \<longleftrightarrow> (json_within MAX_SCAN_DEPTH v \<longrightarrow> list_all (\<lambda>t. registered_secret_hit W e t = None) (json_texts v))"

lemma scan_json_clean: "scan_value W e v 0 = None \<Longrightarrow> json_clean W e v"
  using scan_clean(1) [of W e v 0 MAX_SCAN_DEPTH] by (simp add: json_clean_def)

lemma json_clean_secrets: "e_secrets e = e_secrets e' \<Longrightarrow> json_clean W e v = json_clean W e' v"
proof -
  assume "e_secrets e = e_secrets e'"
  then have "registered_secret_hit W e t = registered_secret_hit W e' t" for t by (rule hit_secrets)
  then show ?thesis by (simp add: json_clean_def)
qed

lemma carve_clean:
  "carve_value P W today s v w = (Inr v', w') \<Longrightarrow> x \<in> set (carve_kept P v) \<Longrightarrow> json_clean W (w_engine w) x"
  "carve_items P W today s xs w = (Inr xs', w') \<Longrightarrow> x \<in> set (carve_kept_items P xs) \<Longrightarrow> json_clean W (w_engine w) x"
  "carve_members P W today s b64 ms w = (Inr ms', w') \<Longrightarrow> x \<in> set (carve_kept_members P b64 ms) \<Longrightarrow> json_clean W (w_engine w) x"
proof (induction P v and P xs and P b64 ms arbitrary: v' w w' and xs' w w' and ms' w w'
    rule: carve_kept_carve_kept_items_carve_kept_members.induct)
  case (1 P xs)
  from 1(2,3) 1(1) show ?case by (auto simp: bnd_Inr)
next
  case (2 P ms)
  from 2(2,3) 2(1) show ?case by (auto simp: bnd_Inr)
next
  case (7 P b64 k y ms)
  from 7(3) obtain y' w1 ms1 where
    h: "(if b64 \<and> k = ''data'' then (Inr y, w) else if P k then walk_schema W y w else carve_value P W today s y w) = (Inr y', w1)"
    and t: "carve_members P W today s b64 ms w1 = (Inr ms1, w')"
    unfolding carve_members.simps bnd_Inr by auto
  have sec: "e_secrets (w_engine w1) = e_secrets (w_engine w)"
    using h refills_secrets [OF carve_refills(1)] by (auto simp: walk_schema_def refuse_Inr split: if_splits)
  show ?case
  proof (cases "x \<in> set (carve_kept_members P b64 ms)")
    case True
    then show ?thesis using 7(2) [OF t] json_clean_secrets [OF sec] by blast
  next
    case False
    with 7(4) have x: "x \<in> set (if b64 \<and> k = ''data'' then [] else if P k then [y] else carve_kept P y)"
      by auto
    show ?thesis
      using x h 7(1) by (auto simp: walk_schema_def refuse_Inr scan_json_clean split: if_splits)
  qed
next
  case (5 P y xs)
  from 5(3) obtain y' w1 xs1 where h: "carve_value P W today s y w = (Inr y', w1)" "carve_items P W today s xs w1 = (Inr xs1, w')"
    by (auto simp: bnd_Inr)
  have sec: "e_secrets (w_engine w1) = e_secrets (w_engine w)" by (rule refills_secrets [OF carve_refills(1) h(1)])
  show ?case using 5(4) 5(1) [OF h(1)] 5(2) [OF h(2)] json_clean_secrets [OF sec] by auto
qed auto

lemma first_some_None: "first_some f xs = None \<longleftrightarrow> (\<forall>x \<in> set xs. f x = None)"
  by (induction xs) (auto split: option.splits)

text \<open>The fields and subtrees of a request that are sent as they came, and are scanned.\<close>

definition chat_verbatim :: "chat_api \<Rightarrow> chat_request \<Rightarrow> json list" where
  "chat_verbatim K rq =
     (case cr_tools rq of Some ts \<Rightarrow> List.map_filter (chat_tool_value K) ts | None \<Rightarrow> [])
     @ List.map_filter (\<lambda>f. f) [cr_response_format rq, cr_tool_choice rq]
     @ map JStr (List.map_filter (\<lambda>f. f) [cr_guided_regex rq, cr_guided_grammar rq]
         @ (case cr_guided_choice rq of Some cs \<Rightarrow> cs | None \<Rightarrow> []))
     @ carve_kept_members chat_contract_key False (cr_extra (fold_thinking rq))"

definition resp_verbatim :: "resp_request \<Rightarrow> json list" where
  "resp_verbatim rq =
     (case rr_tools rq of Some ts \<Rightarrow> ts | None \<Rightarrow> [])
     @ List.map_filter (\<lambda>f. f) [rr_text rq, rr_response_format rq, rr_tool_choice rq, rr_reasoning rq]
     @ (case rr_metadata rq of Some v \<Rightarrow> carve_kept resp_contract_key v | None \<Rightarrow> [])
     @ carve_kept_members resp_contract_key False (rr_extra rq)"

lemma fold_thinking_fields [simp]:
  "cr_tools (fold_thinking rq) = cr_tools rq" "cr_response_format (fold_thinking rq) = cr_response_format rq"
  "cr_tool_choice (fold_thinking rq) = cr_tool_choice rq" "cr_guided_regex (fold_thinking rq) = cr_guided_regex rq"
  "cr_guided_grammar (fold_thinking rq) = cr_guided_grammar rq" "cr_guided_choice (fold_thinking rq) = cr_guided_choice rq"
  "cr_messages (fold_thinking rq) = cr_messages rq"
  by (auto simp: fold_thinking_def split: option.split)

lemma map_filter_set: "x \<in> set (List.map_filter f xs) \<longleftrightarrow> (\<exists>y \<in> set xs. f y = Some x)"
  by (induction xs) (auto simp: List.map_filter_simps split: option.splits)

lemma some_fields:
  assumes "\<forall>f \<in> set fs. Option.bind f g = None" "\<And>v. g v = None \<Longrightarrow> Q v"
  shows "\<forall>v \<in> set (List.map_filter (\<lambda>f. f) fs). Q v"
proof
  fix v assume "v \<in> set (List.map_filter (\<lambda>f. f) fs)"
  then have "Some v \<in> set fs" unfolding map_filter_set by auto
  with assms(1) have "Option.bind (Some v) g = None" by blast
  with assms(2) show "Q v" by simp
qed

lemma str_clean: "registered_secret_hit W e t = None \<Longrightarrow> json_clean W e (JStr t)"
  by (simp add: json_clean_def)

lemma chat_verbatim_clean:
  assumes "walk_chat_request W K today rq w = (Inr rq', w')" "v \<in> set (chat_verbatim K rq)"
  shows "json_clean W (w_engine w) v"
proof -
  let ?r = "fold_thinking rq"
  from assms(1) obtain ms w1 x w2 where
    m: "walk_each (walk_chat_message W today) (cr_messages ?r) w = (Inr ms, w1)"
    and h: "chat_contract_hit W K (w_engine w1) ?r = None"
    and c: "carve_map chat_contract_key W today UserMessage (cr_extra ?r) w1 = (Inr x, w2)"
    unfolding walk_chat_request_def Let_def bnd_Inr refuse_Inr by blast
  have sec: "e_secrets (w_engine w1) = e_secrets (w_engine w)"
    by (rule refills_secrets [OF refills_each [OF chat_message_refills refl] m])
  let ?clean = "\<lambda>vs. \<forall>v \<in> set vs. json_clean W (w_engine w1) v"
  have n: "Option.bind (cr_tools rq) (first_some (\<lambda>t. Option.bind (chat_tool_value K t) (\<lambda>v. scan_value W (w_engine w1) v 0))) = None"
    "\<forall>f \<in> set [cr_response_format rq, cr_tool_choice rq]. Option.bind f (\<lambda>v. scan_value W (w_engine w1) v 0) = None"
    "\<forall>f \<in> set [cr_guided_regex rq, cr_guided_grammar rq]. Option.bind f (registered_secret_hit W (w_engine w1)) = None"
    "Option.bind (cr_guided_choice rq) (first_some (registered_secret_hit W (w_engine w1))) = None"
    using h unfolding chat_contract_hit_def first_some_None fold_thinking_fields by simp_all
  have "?clean (case cr_tools rq of Some ts \<Rightarrow> List.map_filter (chat_tool_value K) ts | None \<Rightarrow> [])"
    using n(1) by (cases "cr_tools rq") (fastforce simp: map_filter_set first_some_None bind_eq_None_conv intro: scan_json_clean)+
  moreover have "?clean (List.map_filter (\<lambda>f. f) [cr_response_format rq, cr_tool_choice rq])"
    by (rule some_fields [OF n(2)]) (rule scan_json_clean)
  moreover have "?clean (map JStr (List.map_filter (\<lambda>f. f) [cr_guided_regex rq, cr_guided_grammar rq]))"
    using some_fields [OF n(3), of "\<lambda>t. json_clean W (w_engine w1) (JStr t)"] str_clean unfolding set_map by blast
  moreover have "?clean (map JStr (case cr_guided_choice rq of Some cs \<Rightarrow> cs | None \<Rightarrow> []))"
    using n(4) by (cases "cr_guided_choice rq") (auto simp: first_some_None str_clean)
  moreover have "?clean (carve_kept_members chat_contract_key False (cr_extra ?r))"
    using carve_clean(3) c by (auto simp: carve_map_def)
  ultimately have "json_clean W (w_engine w1) v"
    using assms(2) unfolding chat_verbatim_def map_append set_append by blast
  then show ?thesis using json_clean_secrets [OF sec] by blast
qed

lemma resp_verbatim_clean:
  assumes "walk_resp_request W today rq w = (Inr rq', w')" "v \<in> set (resp_verbatim rq)"
  shows "json_clean W (w_engine w) v"
proof -
  from assms(1) obtain i s md w1 w2 w3 x w4 where
    r: "walk_opt (walk_resp_input W today) (rr_input rq) w = (Inr i, w1)"
    "walk_opt (walk_str W today SystemPrompt) (rr_instructions rq) w1 = (Inr s, w2)"
    "walk_opt (carve_value resp_contract_key W today UserMessage) (rr_metadata rq) w2 = (Inr md, w3)"
    and h: "resp_contract_hit W (w_engine w3) rq = None"
    and c: "carve_map resp_contract_key W today UserMessage (rr_extra rq) w3 = (Inr x, w4)"
    unfolding walk_resp_request_def bnd_Inr refuse_Inr by blast
  have s1: "e_secrets (w_engine w1) = e_secrets (w_engine w)"
    by (rule refills_secrets [OF refills_opt [OF resp_input_refills] r(1)])
  have s2: "e_secrets (w_engine w2) = e_secrets (w_engine w1)"
    by (rule refills_secrets [OF refills_opt_str r(2)])
  have s3: "e_secrets (w_engine w3) = e_secrets (w_engine w2)"
    by (rule refills_secrets [OF refills_opt [OF carve_refills(1)] r(3)])
  consider (md) "v \<in> set (case rr_metadata rq of Some v \<Rightarrow> carve_kept resp_contract_key v | None \<Rightarrow> [])"
    | (extra) "v \<in> set (carve_kept_members resp_contract_key False (rr_extra rq))"
    | (fields) "v \<in> set ((case rr_tools rq of Some ts \<Rightarrow> ts | None \<Rightarrow> [])
        @ List.map_filter (\<lambda>f. f) [rr_text rq, rr_response_format rq, rr_tool_choice rq, rr_reasoning rq])"
    using assms(2) unfolding resp_verbatim_def set_append Un_iff by blast
  then show ?thesis
  proof cases
    case md
    then obtain m where m: "rr_metadata rq = Some m" "v \<in> set (carve_kept resp_contract_key m)"
      by (cases "rr_metadata rq") auto
    with r(3) obtain m' where "carve_value resp_contract_key W today UserMessage m w2 = (Inr m', w3)"
      by (auto simp: walk_opt_def bnd_Inr)
    from carve_clean(1) [OF this m(2)] show ?thesis using json_clean_secrets s1 s2 by metis
  next
    case extra
    then have "json_clean W (w_engine w3) v" using carve_clean(3) c by (simp add: carve_map_def)
    then show ?thesis using json_clean_secrets s1 s2 s3 by metis
  next
    case fields
    have n: "Option.bind (rr_tools rq) (first_some (\<lambda>v. scan_value W (w_engine w3) v 0)) = None"
      "\<forall>f \<in> set [rr_text rq, rr_response_format rq, rr_tool_choice rq, rr_reasoning rq].
         Option.bind f (\<lambda>v. scan_value W (w_engine w3) v 0) = None"
      using h unfolding resp_contract_hit_def first_some_None by (simp_all del: first_some.simps add: first_some_None)
    have "\<forall>v \<in> set (case rr_tools rq of Some ts \<Rightarrow> ts | None \<Rightarrow> []). json_clean W (w_engine w3) v"
      using n(1) by (cases "rr_tools rq") (auto simp: first_some_None scan_json_clean)
    moreover have "\<forall>v \<in> set (List.map_filter (\<lambda>f. f) [rr_text rq, rr_response_format rq, rr_tool_choice rq, rr_reasoning rq]).
        json_clean W (w_engine w3) v"
      by (rule some_fields [OF n(2)]) (rule scan_json_clean)
    ultimately have "json_clean W (w_engine w3) v" using fields unfolding set_append by blast
    then show ?thesis using json_clean_secrets s1 s2 s3 by metis
  qed
qed

section \<open>Properties\<close>

text \<open>
  C28. Both OpenAI walks are exactly a refilling: an accepted request has every leaf of its shape masked, once, in
  order, on its surface; the request that leaves is the original with those texts in the leaf positions
  and nothing else changed, and its manifest is theirs. The collecting pass that feeds the prewarm changes
  nothing but the fold of \<open>extra_thinking\<close>, which the masking pass repeats without effect.
\<close>

theorem openai_requests_refilled:
  "(\<forall>rq' w. walk_chat_request W K today rq (walker_new force None e) = (Inr rq', w) \<longrightarrow>
      (\<exists>outs. mask_all W today force (chat_leaves (fold_thinking rq)) e = (Inr outs, w_engine w)
         \<and> rq' = chat_fill (fold_thinking rq) (map masked_text outs) \<and> w_manifest w = concat (map outcome_manifest outs)))
   \<and> (\<forall>f e2 rq2 w2. walk_chat_request W K today rq (walker_new f (Some []) e2) = (Inr rq2, w2) \<longrightarrow>
         rq2 = fold_thinking rq \<and> fold_thinking rq2 = rq2 \<and> w_collect w2 = Some (chat_leaves (fold_thinking rq)) \<and> w_engine w2 = e2)
   \<and> (\<forall>rr' w. walk_resp_request W today rr (walker_new force None e) = (Inr rr', w) \<longrightarrow>
      (\<exists>outs. mask_all W today force (resp_leaves rr) e = (Inr outs, w_engine w)
         \<and> rr' = resp_fill rr (map masked_text outs) \<and> w_manifest w = concat (map outcome_manifest outs)))
   \<and> (\<forall>f e2 rr2 w2. walk_resp_request W today rr (walker_new f (Some []) e2) = (Inr rr2, w2) \<longrightarrow>
         rr2 = rr \<and> w_collect w2 = Some (resp_leaves rr) \<and> w_engine w2 = e2)"
proof -
  have fold2: "fold_thinking (fold_thinking rq) = fold_thinking rq"
    by (simp add: fold_thinking_def split: option.split)
  have n: "w_collect (walker_new force None e) = None" by (simp add: walker_new_def)
  have masked_walk: "\<exists>outs. mask_all W today force ls e = (Inr outs, w_engine w) \<and> v' = F (map masked_text outs)
      \<and> w_manifest w = concat (map outcome_manifest outs)"
    if r: "refills W today act v ls F" and a: "act (walker_new force None e) = (Inr v', w)" for act v ls F v' w
  proof -
    obtain outs e' where "mask_all W today (w_force_disabled (walker_new force None e)) ls (w_engine (walker_new force None e)) = (Inr outs, e')"
      "w = absorb (walker_new force None e) outs e'" "v' = F (map masked_text outs)"
      by (rule refills_maskE [OF r n a])
    then show ?thesis by (simp add: absorb_def walker_new_def manifest_new_def)
  qed
  have collected: "v2 = v \<and> w_collect w2 = Some ls \<and> w_engine w2 = e2"
    if r: "refills W today act v ls F" and a: "act (walker_new f (Some []) e2) = (Inr v2, w2)" for act v ls F f e2 v2 w2
    using refills_collectD [OF r _ a] by (simp add: walker_new_def)
  show ?thesis
  proof (intro conjI allI impI)
    fix f e2 rq2 w2 assume "walk_chat_request W K today rq (walker_new f (Some []) e2) = (Inr rq2, w2)"
    from collected [OF chat_request_refills this] fold2
    show "rq2 = fold_thinking rq" "fold_thinking rq2 = rq2" "w_collect w2 = Some (chat_leaves (fold_thinking rq))" "w_engine w2 = e2"
      by simp_all
  next
    fix f e2 rr2 w2 assume "walk_resp_request W today rr (walker_new f (Some []) e2) = (Inr rr2, w2)"
    from collected [OF resp_request_refills this]
    show "rr2 = rr" "w_collect w2 = Some (resp_leaves rr)" "w_engine w2 = e2" by simp_all
  qed (rule masked_walk [OF chat_request_refills], assumption, rule masked_walk [OF resp_request_refills])
qed

definition sample_chat :: "string \<Rightarrow> chat_request" where
  "sample_chat t =
     \<lparr>cr_messages = [\<lparr>cm_role = ''user'', cm_content = Some (CcText t), cm_tool_call_id = None, cm_name = None,
        cm_tool_calls = None, cm_extra = [], cm_rest = []\<rparr>],
      cr_tools = None, cr_response_format = None, cr_tool_choice = Some (JStr ''auto''), cr_guided_regex = None,
      cr_guided_grammar = None, cr_guided_choice = None, cr_extra_thinking = None, cr_extra = [], cr_rest = []\<rparr>"

definition sample_chat_api :: chat_api where
  "sample_chat_api = \<lparr>parse_chat = (\<lambda>b. Some (sample_chat b)), print_chat = (\<lambda>_. Some []), chat_tool_value = (\<lambda>_. None),
     parse_chat_response = (\<lambda>_. None), print_chat_response = (\<lambda>_. None)\<rparr>"

lemma openai_requests_refilled_witness:
  "\<exists>e rq' w outs. walk_chat_request sample_env sample_chat_api 0 (sample_chat ''hello'') (walker_new False None e) = (Inr rq', w)
     \<and> mask_all sample_env 0 False [(''hello'', UserMessage)] e = (Inr outs, w_engine w)
     \<and> rq' = chat_fill (sample_chat ''hello'') (map masked_text outs)"
proof -
  obtain e where e: "e_secrets e = secret_set_empty sample_prims"
    "\<And>t s. user_bypass_segments t = None \<Longrightarrow> mask sample_env 0 t s e = (Inr (passthrough t stats_disabled), e)"
    by (rule sample_off) blast
  have "user_bypass_segments ''hello'' = None" by code_simp
  then have m: "mask sample_env 0 ''hello'' UserMessage e = (Inr (passthrough ''hello'' stats_disabled), e)" by (rule e(2))
  have h: "registered_secret_hit sample_env e ''auto'' = None"
    by (simp add: registered_secret_hit_def e(1) secret_set_empty_def)
  obtain rq' w where w: "walk_chat_request sample_env sample_chat_api 0 (sample_chat ''hello'') (walker_new False None e) = (Inr rq', w)"
    by (simp add: walk_chat_request_def sample_chat_def fold_thinking_def walk_chat_message_def walk_opt_def
        walk_chat_content_def walk_str_def walker_new_def openai_surface_def m carve_map_def chat_contract_hit_def h
        MAX_SCAN_DEPTH_def refuse_hit_def passthrough_def Let_def)
  have l: "chat_leaves (fold_thinking (sample_chat ''hello'')) = [(''hello'', UserMessage)]"
    "fold_thinking (sample_chat ''hello'') = sample_chat ''hello''"
    by (simp_all add: chat_leaves_def sample_chat_def fold_thinking_def each_leaves_def chat_message_leaves_def
        chat_id_leaves_def openai_surface_def)
  from openai_requests_refilled [THEN conjunct1, rule_format, OF w] w l show ?thesis by auto
qed

text \<open>
  No registered secret rides along in what the OpenAI walks leave verbatim: when a request is accepted, no text
  or key of a tool definition, of a structured-output, tool-choice, reasoning or guided-decoding field, or of a
  subtree under a contract key of the request's own free fields, holds a registered value, at the nesting the
  JSON parser admits.
\<close>

theorem openai_verbatim_holds_no_secret:
  assumes "ac_ok (text_of W)" "compile_secrets (prims_of W) (text_of W) rules = Inr (ss_compiled (e_secrets e))"
    and "rule \<in> set rules" "json_within MAX_SCAN_DEPTH v" "t \<in> set (json_texts v)"
  shows "(walk_chat_request W K today rq (walker_new force None e) = (Inr rq', w) \<and> v \<in> set (chat_verbatim K rq)
        \<longrightarrow> \<not> contains (sr_value rule) t)
    \<and> (walk_resp_request W today rr (walker_new force None e) = (Inr rr', w) \<and> v \<in> set (resp_verbatim rr)
        \<longrightarrow> \<not> contains (sr_value rule) t)"
proof -
  have we: "w_engine (walker_new force None e) = e" by (simp add: walker_new_def)
  have clean: "\<not> contains (sr_value rule) t" if "json_clean W e v"
    by (rule hit_complete [OF assms(1-3)]) (use that assms(4,5) in \<open>simp add: json_clean_def list_all_iff\<close>)
  show ?thesis
    using clean chat_verbatim_clean [of W K today rq "walker_new force None e" rq' w v]
      resp_verbatim_clean [of W today rr "walker_new force None e" rr' w v] unfolding we by blast
qed

lemma openai_verbatim_holds_no_secret_witness:
  "\<exists>e rq' w. walk_chat_request sample_env sample_chat_api 0 (sample_chat ''hello'') (walker_new False None e) = (Inr rq', w)
     \<and> ss_compiled (e_secrets e) \<noteq> [] \<and> JStr ''auto'' \<in> set (chat_verbatim sample_chat_api (sample_chat ''hello''))
     \<and> \<not> contains ''hunter2'' ''auto''"
proof -
  let ?r = "\<lparr>sr_name = ''db'', sr_value = ''hunter2'', sr_operator = OpRedact,
         sr_case_sensitive = True, sr_surfaces = None\<rparr>"
  obtain e0 where e0: "engine_new sample_env (engine_config_default sample_prims) = Inr e0"
    by (rule sample_engine)
  have "is_ok (compile_secrets sample_prims sample_text [?r])"
    by (simp add: compile_secrets_def sample_text_def is_ok_def Let_def)
  then obtain cs where cs: "compile_secrets sample_prims sample_text [?r] = Inr cs" by blast
  from compile_secrets_Inr [OF cs] obtain c where c: "cs = [c]" "cs_matcher c = (False, [''hunter2''])"
    by (auto simp: list_all2_Cons1 compiled_from_def)
  let ?e = "set_enabled False e0\<lparr>e_secrets := \<lparr>ss_compiled = cs, ss_fp = 0\<rparr>\<rparr>"
  have f: "find_iter (lit_match_ci False ''hunter2'') ''auto'' = []" "find_iter (lit_match_ci False ''hunter2'') ''hello'' = []"
    by code_simp+
  have h: "secret_hits sample_text c ''auto'' = []" "secret_hits sample_text c ''hello'' = []"
    by (simp_all add: secret_hits_def c(2) sample_text_def f)
  have b: "user_bypass_segments ''hello'' = None" by code_simp
  have m: "mask sample_env 0 ''hello'' UserMessage ?e = (Inr (passthrough ''hello'' stats_disabled), ?e)"
    using b h by (simp add: mask_plain mask_leaf_def Let_def mask_disabled_path_def set_enabled_def detect_secrets_def c(1)
        sample_env_def resolve_overlaps_def)
  have a: "registered_secret_hit sample_env ?e ''auto'' = None"
    by (simp add: registered_secret_hit_def c(1) detect_secrets_unscoped_def sample_env_def h)
  obtain rq' w where w: "walk_chat_request sample_env sample_chat_api 0 (sample_chat ''hello'') (walker_new False None ?e) = (Inr rq', w)"
    by (simp add: walk_chat_request_def sample_chat_def fold_thinking_def walk_chat_message_def walk_opt_def
        walk_chat_content_def walk_str_def walker_new_def openai_surface_def m carve_map_def chat_contract_hit_def a
        MAX_SCAN_DEPTH_def refuse_hit_def passthrough_def Let_def)
  have v: "JStr ''auto'' \<in> set (chat_verbatim sample_chat_api (sample_chat ''hello''))"
    by (simp add: chat_verbatim_def sample_chat_def List.map_filter_simps)
  have k: "ac_ok (text_of sample_env)"
    "compile_secrets (prims_of sample_env) (text_of sample_env) [?r] = Inr (ss_compiled (e_secrets ?e))"
    using cs by (simp_all add: sample_env_def)
  have "\<not> contains (sr_value ?r) ''auto''"
    using openai_verbatim_holds_no_secret [OF k, of ?r "JStr ''auto''" "''auto''", THEN conjunct1] w v by simp
  then show ?thesis using w v c(1) by (intro exI [of _ ?e] exI [of _ rq'] exI [of _ w]) simp
qed

definition untyped_tool_output :: "string \<Rightarrow> string \<Rightarrow> string \<Rightarrow> json" where
  "untyped_tool_output ty part_ty s =
     JObj [(''type'', JStr ty), (''output'', JArr [JObj [(''type'', JStr part_ty), (''text'', JStr s)]])]"

text \<open>
  The contract keys of the Responses wire hold \<open>text\<close>, which names the output format of a request but the
  content everywhere else. In an item the wire crate does not type, such as a tool result whose output is a list
  of content parts, the text of a part is sent as it came, whatever the detectors say; the same part in a
  message is a leaf that is masked.
\<close>

theorem responses_text_key_unmasked:
  assumes "walk_resp_item W today (RiOther (untyped_tool_output ty part_ty s)) w = (Inr i', w')" "w_collect w = None"
  shows "(\<exists>ty' part_ty'. i' = RiOther (untyped_tool_output ty' part_ty' s))
    \<and> resp_part_leaves UserMessage (RpInputText s []) = [(s, UserMessage)]"
proof -
  obtain outs e' where "mask_all W today (w_force_disabled w) (resp_item_leaves (RiOther (untyped_tool_output ty part_ty s))) (w_engine w)
      = (Inr outs, e')" "w' = absorb w outs e'" "i' = resp_item_fill (RiOther (untyped_tool_output ty part_ty s)) (map masked_text outs)"
    by (rule refills_maskE [OF resp_item_refills assms(2,1)])
  then show ?thesis by (simp add: untyped_tool_output_def resp_contract_key_def is_base64_object_def)
qed

lemma responses_text_key_unmasked_witness:
  "\<exists>e i' w'. walk_resp_item sample_env 0 (RiOther (untyped_tool_output ''function_call_output'' ''input_text'' ''mail a@b.c''))
       (walker_new False None e) = (Inr i', w')
     \<and> (\<exists>ty' part_ty'. i' = RiOther (untyped_tool_output ty' part_ty' ''mail a@b.c''))"
proof -
  obtain e where e: "e_secrets e = secret_set_empty sample_prims"
    "\<And>t s. user_bypass_segments t = None \<Longrightarrow> mask sample_env 0 t s e = (Inr (passthrough t stats_disabled), e)"
    by (rule sample_off) blast
  have "user_bypass_segments ''function_call_output'' = None" "user_bypass_segments ''input_text'' = None" by code_simp+
  then have m: "mask sample_env 0 ''function_call_output'' UserMessage e = (Inr (passthrough ''function_call_output'' stats_disabled), e)"
    "mask sample_env 0 ''input_text'' UserMessage e = (Inr (passthrough ''input_text'' stats_disabled), e)"
    using e(2) by blast+
  have h: "registered_secret_hit sample_env x ''mail a@b.c'' = None" if "e_secrets x = e_secrets e" for x
    using that by (simp add: registered_secret_hit_def e(1) secret_set_empty_def)
  obtain i' w' where w: "walk_resp_item sample_env 0 (RiOther (untyped_tool_output ''function_call_output'' ''input_text'' ''mail a@b.c''))
       (walker_new False None e) = (Inr i', w')"
    by (simp add: walk_resp_item_def untyped_tool_output_def resp_contract_key_def walk_str_def walker_new_def m walk_schema_def
        refuse_hit_def h MAX_SCAN_DEPTH_def passthrough_def is_base64_object_def)
  from responses_text_key_unmasked [OF w] w show ?thesis by (auto simp: walker_new_def)
qed

end
