(* ===== verification/Openai_Routes_Laws.thy ===== *)
theory Openai_Routes_Laws
  imports Openai_Routes Responses_Laws Proxy_Routes_Laws
begin

text \<open>
  What leaves over the OpenAI endpoints: nothing of a pinned conversation, only to the default upstream, and
  only the refilled request.
\<close>

lemma openai_entry_Inr:
  "fst (openai_entry N now rq conv st) = Inr (fd, body) \<longleftrightarrow>
     secrets_gate st = None \<and> bare_path_zdr_guard N st (rq_headers rq) conv = None
     \<and> resolve_pinned_mode st conv = Inr NormalMode \<and> rq_body rq = Some body
     \<and> fd = (case conv of Some c \<Rightarrow> fst (is_masking_disabled now c (as_masking st)) | None \<Rightarrow> False)"
  by (auto simp: openai_entry_def Let_def split_beta split: option.splits sum.splits pinned_mode.splits)

lemma openai_egress_Inr:
  "openai_egress W masker N now path rq conv approved s1 s2 s3 = Inr (wire, mf) \<longleftrightarrow>
     (\<exists>fd body mbody. fst (openai_entry N now rq conv s1) = Inr (fd, body)
        \<and> fst (masker body fd (as_engine s2)) = Inr (mbody, mf) \<and> approved
        \<and> wire = wire_build N (for_mode (as_upstream_base s3) (upstream_host (as_upstream_base s3)) NormalMode) (rq_headers rq) path mbody
        \<and> \<not> header_tripwire W (as_engine s3) (wr_headers wire))"
  by (auto simp: openai_egress_def openai_mask_body_def send_upstream_def Let_def split: sum.splits prod.splits if_splits)

text \<open>The masked body of either endpoint is the printed refilling of the parsed request.\<close>

lemma chat_masked_body:
  assumes "fst (chat_mask_request_inner W K today body force e) = Inr (mbody, mf)"
  obtains rq outs e1 e' where "parse_chat K body = Some rq"
    "mask_all W today force (chat_leaves (fold_thinking rq)) e1 = (Inr outs, e')"
    "print_chat K (chat_fill (fold_thinking rq) (map masked_text outs)) = Some mbody" "mf = concat (map outcome_manifest outs)"
proof -
  obtain rq where rq: "parse_chat K body = Some rq" using assms by (auto simp: chat_mask_request_inner_def split: option.splits)
  obtain rq1 e1 where p: "(if force then (rq, e) else chat_prewarm W K today rq e) = (rq1, e1)" by fastforce
  have f: "fold_thinking (fold_thinking rq) = fold_thinking rq" by (simp add: fold_thinking_def split: option.split)
  have one: "fold_thinking rq1 = fold_thinking rq"
  proof -
    have "fst (chat_prewarm W K today rq e) \<in> {rq, fold_thinking rq}"
      using refills_collectD [OF chat_request_refills, where w = "walker_new False (Some []) e"]
      by (auto simp: chat_prewarm_def walker_new_def split: sum.splits prod.splits)
    then show ?thesis using p f by (auto split: if_splits)
  qed
  obtain rq2 w where w: "walk_chat_request W K today rq1 (walker_new force None e1) = (Inr rq2, w)"
    "print_chat K rq2 = Some mbody" "mf = w_manifest w"
    using assms rq p by (auto simp: chat_mask_request_inner_def split: sum.splits prod.splits option.splits)
  have n: "w_collect (walker_new force None e1) = None" by (simp add: walker_new_def)
  obtain outs e' where "mask_all W today (w_force_disabled (walker_new force None e1)) (chat_leaves (fold_thinking rq1)) (w_engine (walker_new force None e1)) = (Inr outs, e')"
    "w = absorb (walker_new force None e1) outs e'" "rq2 = chat_fill (fold_thinking rq1) (map masked_text outs)"
    by (rule refills_maskE [OF chat_request_refills n w(1)])
  with rq w(2,3) that show thesis unfolding one by (simp add: absorb_def walker_new_def manifest_new_def)
qed

lemma resp_masked_body:
  assumes "fst (resp_mask_request_inner W K today body force e) = Inr (mbody, mf)"
  obtains rq outs e1 e' where "parse_resp K body = Some rq"
    "mask_all W today force (resp_leaves rq) e1 = (Inr outs, e')"
    "print_resp K (resp_fill rq (map masked_text outs)) = Some mbody" "mf = concat (map outcome_manifest outs)"
proof -
  obtain rq where rq: "parse_resp K body = Some rq" using assms by (auto simp: resp_mask_request_inner_def split: option.splits)
  let ?e = "if force then e else resp_prewarm W today rq e"
  obtain rq2 w where w: "walk_resp_request W today rq (walker_new force None ?e) = (Inr rq2, w)"
    "print_resp K rq2 = Some mbody" "mf = w_manifest w"
    using assms rq by (auto simp: resp_mask_request_inner_def Let_def split: sum.splits prod.splits option.splits)
  have n: "w_collect (walker_new force None ?e) = None" by (simp add: walker_new_def)
  obtain outs e' where "mask_all W today (w_force_disabled (walker_new force None ?e)) (resp_leaves rq) (w_engine (walker_new force None ?e)) = (Inr outs, e')"
    "w = absorb (walker_new force None ?e) outs e'" "rq2 = resp_fill rq (map masked_text outs)"
    by (rule refills_maskE [OF resp_request_refills n w(1)])
  with rq w(2,3) that show thesis by (simp add: absorb_def walker_new_def manifest_new_def)
qed

text \<open>A parsed body as its leaves and what the walk makes of their masked texts.\<close>

definition chat_parts :: "chat_api \<Rightarrow> string \<Rightarrow> ((string \<times> surface) list \<times> (string list \<Rightarrow> string option)) option" where
  "chat_parts K body =
     map_option (\<lambda>q. (chat_leaves (fold_thinking q), \<lambda>ts. print_chat K (chat_fill (fold_thinking q) ts))) (parse_chat K body)"

definition resp_parts :: "responses_api \<Rightarrow> string \<Rightarrow> ((string \<times> surface) list \<times> (string list \<Rightarrow> string option)) option" where
  "resp_parts K body = map_option (\<lambda>q. (resp_leaves q, \<lambda>ts. print_resp K (resp_fill q ts))) (parse_resp K body)"



end
