(* ===== verification/Monitor_View.thy ===== *)
theory Monitor_View
  imports Engine_Unmask
begin

text \<open>
  What the monitor of \<open>sordino-proxy\<close> shows of a request and its answer: \<open>model.rs\<close> (token classes, previews,
  runs, deltas), \<open>spans.rs\<close> (previews, the re-masking of captured text), \<open>surfaces.rs\<close> (the reviewable surfaces
  of a body and their segmentation), \<open>capture.rs\<close> (the accumulated text of a streamed answer) and \<open>delta.rs\<close>.

  The JSON parser and printer, the quoting of a string and the lossy decoding of bytes are fields of
  \<open>view_api\<close>. The arrow origin, printed by the code, is kept as the surface it prints.
\<close>

record view_api =
  va_parse :: "string \<Rightarrow> json option"
  va_print :: "json \<Rightarrow> string option"
  va_quote :: "string \<Rightarrow> string option"
  va_lossy :: "string \<Rightarrow> string"

section \<open>Token classes\<close>

datatype token_class = AutoPii | CustomClass | GuardClass | BrokerClass | Sad | LocalClass

definition is_peekable :: "token_class \<Rightarrow> bool" where
  "is_peekable c \<longleftrightarrow> c = AutoPii \<or> c = CustomClass"

definition for_manifest_entry :: "manifest_entry \<Rightarrow> token_class" where
  "for_manifest_entry e =
     (if entity_kind e = ENTITY_CVV then Sad
      else if broker e then BrokerClass
      else if local e then LocalClass
      else AutoPii)"

record token_preview =
  tp_token :: string
  tp_value :: string
  tp_kind :: string
  tp_surface :: surface
  tp_range :: "(nat \<times> nat) option"
  tp_class :: token_class
  tp_peekable :: bool

definition token_previews :: "unmask_manifest \<Rightarrow> token_preview list" where
  "token_previews mf =
     map (\<lambda>e. let class = for_manifest_entry e; peek = is_peekable class
               in \<lparr>tp_token = token_handle e, tp_value = if peek then canonical_form e else [],
                   tp_kind = entity_kind e, tp_surface = arrow_origin e, tp_range = exposed_at e,
                   tp_class = class, tp_peekable = peek\<rparr>) mf"

section \<open>Re-masking of captured text\<close>

text \<open>A stable sort, longest value first.\<close>

definition longest_first :: "(string \<times> string) list \<Rightarrow> (string \<times> string) list" where
  "longest_first ps = sort_key (\<lambda>p. - int (length (fst p))) ps"

definition redaction_pairs :: "unmask_manifest \<Rightarrow> (string \<times> string) list" where
  "redaction_pairs mf =
     longest_first (map (\<lambda>e. (canonical_form e, token_handle e))
       (filter (\<lambda>e. canonical_form e \<noteq> []) (filter (\<lambda>e. \<not> is_peekable (for_manifest_entry e)) mf)))"

definition redact_step :: "string \<times> string \<Rightarrow> string \<Rightarrow> string" where
  "redact_step p out = (if contains (fst p) out then str_replace (fst p) (snd p) out else out)"

definition redact_secret_values :: "string \<Rightarrow> (string \<times> string) list \<Rightarrow> string" where
  "redact_secret_values t ps = (if ps = [] then t else fold redact_step ps t)"

definition json_body_expand :: "view_api \<Rightarrow> (string \<times> string) list \<Rightarrow> (string \<times> string) list" where
  "json_body_expand A ps =
     longest_first
       (concat (map (\<lambda>(v, h). (case va_quote A v of
                                Some q \<Rightarrow> (let esc = slice q 1 (length q - 1) in if esc \<noteq> v then [(esc, h)] else [])
                              | None \<Rightarrow> []) @ [(v, h)]) ps))"

definition json_body_redaction_pairs :: "view_api \<Rightarrow> unmask_manifest \<Rightarrow> (string \<times> string) list" where
  "json_body_redaction_pairs A mf = json_body_expand A (redaction_pairs mf)"

section \<open>Previews and spans\<close>

definition PREVIEW_LIMIT :: nat where
  "PREVIEW_LIMIT = 128 * 1024"

definition TRUNCATED :: string where
  "TRUNCATED = [CHR 0x0A] @ ''...[truncated]''"

definition preview :: "view_api \<Rightarrow> string \<Rightarrow> string" where
  "preview A body =
     (if PREVIEW_LIMIT < length body then va_lossy A (take PREVIEW_LIMIT body) @ TRUNCATED else va_lossy A body)"

record preview_span =
  ps_start :: nat
  ps_end :: nat
  ps_token :: string
  ps_kind :: string
  ps_surface :: surface

text \<open>A stable sort by start, then end.\<close>

definition sort_spans :: "preview_span list \<Rightarrow> preview_span list" where
  "sort_spans ss = sort_key ps_start (sort_key ps_end ss)"

definition spans_from_manifest :: "unmask_manifest \<Rightarrow> string \<Rightarrow> preview_span list" where
  "spans_from_manifest mf pv =
     sort_spans (List.map_filter
       (\<lambda>e. case exposed_at e of
           None \<Rightarrow> None
         | Some (a, b) \<Rightarrow>
             (if b \<le> a \<or> length pv < b then None
              else Some \<lparr>ps_start = a, ps_end = b, ps_token = token_handle e, ps_kind = entity_kind e,
                         ps_surface = arrow_origin e\<rparr>)) mf)"

fun dedupe_spans :: "preview_span list \<Rightarrow> preview_span list \<Rightarrow> preview_span list" where
  "dedupe_spans out [] = out"
| "dedupe_spans out (s # ss) =
     (if list_ex (\<lambda>k. ps_start s < ps_end k \<and> ps_start k < ps_end s) out then dedupe_spans out ss
      else dedupe_spans (out @ [s]) ss)"

definition dedupe_overlapping_spans :: "preview_span list \<Rightarrow> preview_span list" where
  "dedupe_overlapping_spans ss = dedupe_spans [] ss"

text \<open>Every non-overlapping occurrence of a value, from the left.\<close>

definition value_hits :: "string \<Rightarrow> string \<Rightarrow> (nat \<times> nat) list" where
  "value_hits v t = (if v = [] then [] else find_iter (lit_match v) t)"

definition spans_from_values :: "token_preview list \<Rightarrow> string \<Rightarrow> preview_span list" where
  "spans_from_values ts pv =
     dedupe_overlapping_spans (sort_spans
       (concat (map (\<lambda>t. map (\<lambda>(a, b). \<lparr>ps_start = a, ps_end = b, ps_token = tp_token t, ps_kind = tp_kind t,
                                          ps_surface = tp_surface t\<rparr>) (value_hits (tp_value t) pv)) ts)))"

section \<open>Surfaces and runs\<close>

record token_ref =
  tr_token :: string
  tr_value :: string
  tr_kind :: string
  tr_surface :: surface

record text_run =
  run_text :: string
  run_token :: "token_ref option"

record view_surface =
  vs_label :: string
  vs_role :: "string option"
  vs_kind :: string
  vs_provenance :: string
  vs_runs :: "text_run list"
  vs_hash :: string

definition block_hash :: "prims \<Rightarrow> string \<Rightarrow> string" where
  "block_hash P t = take 16 (to_hex (blake3 P t))"

definition egress_hash :: "prims \<Rightarrow> view_surface \<Rightarrow> string" where
  "egress_hash P s =
     (if list_all (\<lambda>r. run_token r = None) (vs_runs s) then vs_hash s
      else block_hash P (concat (map (\<lambda>r. case run_token r of Some t \<Rightarrow> tr_token t | None \<Rightarrow> run_text r) (vs_runs s))))"

datatype needle_mode = NeedleHandle | NeedleValue

definition needle_of :: "needle_mode \<Rightarrow> token_preview \<Rightarrow> string" where
  "needle_of m t = (case m of NeedleHandle \<Rightarrow> tp_token t | NeedleValue \<Rightarrow> tp_value t)"

definition token_hits :: "needle_mode \<Rightarrow> token_preview list \<Rightarrow> string \<Rightarrow> (nat \<times> nat \<times> token_ref) list" where
  "token_hits m ts t =
     concat (map (\<lambda>p. map (\<lambda>(a, b). (a, b, \<lparr>tr_token = tp_token p, tr_value = tp_value p, tr_kind = tp_kind p,
                                              tr_surface = tp_surface p\<rparr>)) (value_hits (needle_of m p) t)) ts)"

text \<open>Earliest first, of equal starts the longer; the sort is stable.\<close>

definition sort_hits :: "(nat \<times> nat \<times> token_ref) list \<Rightarrow> (nat \<times> nat \<times> token_ref) list" where
  "sort_hits hs = sort_key fst (sort_key (\<lambda>h. - int (fst (snd h))) hs)"

definition plain_run :: "string \<Rightarrow> text_run list" where
  "plain_run t = (if t = [] then [] else [\<lparr>run_text = t, run_token = None\<rparr>])"

fun emit_runs :: "string \<Rightarrow> nat \<Rightarrow> (nat \<times> nat \<times> token_ref) list \<Rightarrow> text_run list" where
  "emit_runs t cur [] = plain_run (drop cur t)"
| "emit_runs t cur ((a, b, r) # hs) =
     (if a < cur then emit_runs t cur hs
      else plain_run (slice t cur a) @ [\<lparr>run_text = slice t a b, run_token = Some r\<rparr>] @ emit_runs t b hs)"

definition segment_runs_with :: "needle_mode \<Rightarrow> token_preview list \<Rightarrow> string \<Rightarrow> text_run list" where
  "segment_runs_with m ts t =
     (let runs = emit_runs t 0 (sort_hits (token_hits m ts t))
      in if runs = [] then [\<lparr>run_text = t, run_token = None\<rparr>] else runs)"

text \<open>The provenance lane: a hint from kind, role and text prefix.\<close>

definition is_userctx_reminder :: "string \<Rightarrow> bool" where
  "is_userctx_reminder body \<longleftrightarrow>
     (let head = ascii_lower (concat (take 600 (utf8_chars body)))
      in list_ex (\<lambda>m. contains m head)
           [''claudemd'', ''claude.md'', ''memory.md'', ''# memory'', ''codebase and user instructions'',
            ''user'' @ [CHR 0x27] @ ''s private global instructions''])"

definition provenance_of :: "string \<Rightarrow> string option \<Rightarrow> string \<Rightarrow> string" where
  "provenance_of knd role text =
     (let t = trim_start text
      in if knd = ''system'' \<or> knd = ''instructions'' then
           (if starts_with ''x-anthropic'' t then ''harness_meta'' else ''harness_frame'')
         else if knd = ''tool_use'' \<or> knd = ''tool_result'' then ''tool_io''
         else if role = Some ''system'' then ''harness_frame''
         else if role = Some ''assistant'' then ''assistant''
         else if starts_with ''<system-reminder>'' t then
           (if is_userctx_reminder (drop (length ''<system-reminder>'') t) then ''userctx'' else ''harness_frame'')
         else if starts_with ''<command-message>'' t \<or> starts_with ''<command-name>'' t then ''harness_frame''
         else ''user_input'')"

record raw_surface =
  rs_label :: string
  rs_role :: "string option"
  rs_kind :: string
  rs_text :: string

definition segment :: "prims \<Rightarrow> needle_mode \<Rightarrow> token_preview list \<Rightarrow> raw_surface \<Rightarrow> view_surface" where
  "segment P m ts r =
     \<lparr>vs_label = rs_label r, vs_role = rs_role r, vs_kind = rs_kind r,
      vs_provenance = provenance_of (rs_kind r) (rs_role r) (rs_text r),
      vs_runs = segment_runs_with m ts (rs_text r), vs_hash = block_hash P (rs_text r)\<rparr>"

definition response_text_surface ::
  "prims \<Rightarrow> string \<Rightarrow> string option \<Rightarrow> string \<Rightarrow> string \<Rightarrow> token_preview list \<Rightarrow> view_surface" where
  "response_text_surface P label role knd text ts =
     \<lparr>vs_label = label, vs_role = role, vs_kind = knd, vs_provenance = provenance_of knd role text,
      vs_runs = segment_runs_with NeedleValue ts text, vs_hash = block_hash P text\<rparr>"

section \<open>Surfaces of a body\<close>

definition canonical_args :: "view_api \<Rightarrow> string \<Rightarrow> string" where
  "canonical_args A raw =
     (case Option.bind (va_parse A raw) (va_print A) of Some s \<Rightarrow> s | None \<Rightarrow> raw)"

definition call_text :: "string \<Rightarrow> string \<Rightarrow> string" where
  "call_text name args = (if args = [] then name @ ''()'' else name @ ''('' @ args @ '')'')"

definition as_str :: "json option \<Rightarrow> string option" where
  "as_str v = (case v of Some (JStr s) \<Rightarrow> Some s | _ \<Rightarrow> None)"

definition str_or :: "string \<Rightarrow> string option \<Rightarrow> string" where
  "str_or d v = (case v of Some s \<Rightarrow> s | None \<Rightarrow> d)"

text \<open>A tool call: the tool's name and its arguments, not the volatile id.\<close>

definition tool_call_text :: "view_api \<Rightarrow> (string \<times> json) list \<Rightarrow> string" where
  "tool_call_text A ob =
     call_text (str_or ''tool'' (as_str (map_of ob ''name'')))
       (case map_of ob ''input'' of
          Some v \<Rightarrow> (if v = JNull then canonical_args A (str_or [] (as_str (map_of ob ''arguments'')))
                    else str_or [] (va_print A v))
        | None \<Rightarrow> canonical_args A (str_or [] (as_str (map_of ob ''arguments''))))"

definition is_tool_call_block :: "(string \<times> json) list \<Rightarrow> bool" where
  "is_tool_call_block ob \<longleftrightarrow>
     as_str (map_of ob ''type'') = Some ''tool_use'' \<or> as_str (map_of ob ''type'') = Some ''function_call''"

definition is_tool_result_block :: "(string \<times> json) list \<Rightarrow> bool" where
  "is_tool_result_block ob \<longleftrightarrow>
     as_str (map_of ob ''type'') = Some ''tool_result'' \<or> as_str (map_of ob ''type'') = Some ''function_call_output''
     \<or> map_of ob ''tool_use_id'' \<noteq> None"

text \<open>The first of the text fields of a block that is a string.\<close>

definition block_text_field :: "(string \<times> json) list \<Rightarrow> string option" where
  "block_text_field ob =
     (case as_str (map_of ob ''text'') of
        Some s \<Rightarrow> Some s
      | None \<Rightarrow>
          (case as_str (map_of ob ''input_text'') of
             Some s \<Rightarrow> Some s
           | None \<Rightarrow>
               (case as_str (map_of ob ''output_text'') of
                  Some s \<Rightarrow> Some s
                | None \<Rightarrow> if is_tool_result_block ob then as_str (map_of ob ''output'') else None)))"

lemma map_of_size: "map_of ob k = Some v \<Longrightarrow> size v < Suc (size_list (size_prod (\<lambda>_. 0) size) ob)"
  by (induction ob) (auto split: if_splits)

text \<open>\<open>text_values\<close>; its object case is \<open>text_values_from_block\<close>. An array inside an array is skipped.\<close>

function text_values :: "view_api \<Rightarrow> string \<Rightarrow> json \<Rightarrow> (string \<times> string) list" where
  "text_values A knd (JStr s) = [(s, knd)]"
| "text_values A knd (JArr xs) =
     concat (map (\<lambda>x. case x of JArr _ \<Rightarrow> [] | _ \<Rightarrow> text_values A knd x) xs)"
| "text_values A knd (JObj ob) =
     (if is_tool_call_block ob then [(tool_call_text A ob, ''tool_use'')]
      else let knd = (if is_tool_result_block ob then ''tool_result'' else knd)
        in case block_text_field ob of
             Some s \<Rightarrow> [(s, knd)]
           | None \<Rightarrow> (case map_of ob ''content'' of Some c \<Rightarrow> text_values A knd c | None \<Rightarrow> []))"
| "text_values A knd JNull = []"
| "text_values A knd (JBool b) = []"
| "text_values A knd (JNum n) = []"
  by pat_completeness auto
termination
  by (relation "measure (\<lambda>(_, _, v). size v)")
    (auto simp: less_Suc_eq_le size_list_estimation' dest!: map_of_size)

definition push_texts :: "view_api \<Rightarrow> string \<Rightarrow> string \<Rightarrow> string option \<Rightarrow> json \<Rightarrow> raw_surface list" where
  "push_texts A label knd role v =
     map (\<lambda>(t, k). \<lparr>rs_label = label, rs_role = role, rs_kind = k, rs_text = t\<rparr>)
       (filter (\<lambda>(t, _). trim t \<noteq> []) (text_values A knd v))"

definition obj_of :: "json \<Rightarrow> (string \<times> json) list option" where
  "obj_of v = (case v of JObj ob \<Rightarrow> Some ob | _ \<Rightarrow> None)"

definition MIDDLE_DOT :: string where
  "MIDDLE_DOT = '' '' @ [CHR 0xC2, CHR 0xB7] @ '' ''"

definition chat_call_surface :: "view_api \<Rightarrow> string \<Rightarrow> string option \<Rightarrow> nat \<Rightarrow> json \<Rightarrow> raw_surface" where
  "chat_call_surface A label role j call =
     (let func = Option.bind (Option.bind (obj_of call) (\<lambda>c. map_of c ''function'')) obj_of;
          field = (\<lambda>k. as_str (Option.bind func (\<lambda>f. map_of f k)))
      in \<lparr>rs_label = label @ MIDDLE_DOT @ ''tool_call['' @ show_nat j @ '']'', rs_role = role, rs_kind = ''tool_use'',
          rs_text = call_text (str_or ''tool'' (field ''name'')) (canonical_args A (str_or [] (field ''arguments'')))\<rparr>)"

definition message_surfaces :: "view_api \<Rightarrow> string \<Rightarrow> nat \<Rightarrow> json \<Rightarrow> raw_surface list" where
  "message_surfaces A base i m =
     (let ob = obj_of m;
          role = as_str (Option.bind ob (\<lambda>f. map_of f ''role''));
          label = base @ ''['' @ show_nat i @ '']'' @ (case role of Some r \<Rightarrow> '' - '' @ r | None \<Rightarrow> []);
          content = (case Option.bind ob (\<lambda>f. map_of f ''content'') of Some c \<Rightarrow> c | None \<Rightarrow> m)
      in push_texts A label ''message'' role content
         @ (case Option.bind ob (\<lambda>f. map_of f ''tool_calls'') of
              Some (JArr calls) \<Rightarrow> map (\<lambda>(j, c). chat_call_surface A label role j c) (List.enumerate 0 calls)
            | _ \<Rightarrow> []))"

definition collect_message_list :: "view_api \<Rightarrow> string \<Rightarrow> json list \<Rightarrow> raw_surface list" where
  "collect_message_list A base items = concat (map (\<lambda>(i, m). message_surfaces A base i m) (List.enumerate 0 items))"

definition collect_surfaces :: "view_api \<Rightarrow> json \<Rightarrow> raw_surface list" where
  "collect_surfaces A rt =
     (case rt of
        JObj ob \<Rightarrow>
          (case map_of ob ''system'' of Some v \<Rightarrow> push_texts A ''system'' ''system'' None v | None \<Rightarrow> [])
          @ (case map_of ob ''instructions'' of
               Some v \<Rightarrow> push_texts A ''instructions'' ''instructions'' None v | None \<Rightarrow> [])
          @ (case map_of ob ''messages'' of Some (JArr items) \<Rightarrow> collect_message_list A ''messages'' items | _ \<Rightarrow> [])
          @ (case map_of ob ''input'' of
               Some (JArr items) \<Rightarrow> collect_message_list A ''input'' items
             | Some v \<Rightarrow> push_texts A ''input'' ''message'' None v
             | None \<Rightarrow> [])
      | _ \<Rightarrow> [])"

definition surfaces_from_body_with :: "prims \<Rightarrow> view_api \<Rightarrow> needle_mode \<Rightarrow> string \<Rightarrow> token_preview list \<Rightarrow> view_surface list" where
  "surfaces_from_body_with P A m body ts =
     (case va_parse A body of None \<Rightarrow> [] | Some rt \<Rightarrow> map (segment P m ts) (collect_surfaces A rt))"

definition surfaces_from_body :: "prims \<Rightarrow> view_api \<Rightarrow> string \<Rightarrow> token_preview list \<Rightarrow> view_surface list" where
  "surfaces_from_body P A body ts = surfaces_from_body_with P A NeedleHandle body ts"

definition surfaces_from_response_body :: "prims \<Rightarrow> view_api \<Rightarrow> string \<Rightarrow> token_preview list \<Rightarrow> view_surface list" where
  "surfaces_from_response_body P A body ts = surfaces_from_body_with P A NeedleValue body ts"

section \<open>The captured answer\<close>

datatype cap_kind = CapText | CapToolUse

record cap_block =
  cb_kind :: cap_kind
  cb_label :: string
  cb_text :: string
  cb_name :: "string option"

record response_capture =
  rcp_blocks :: "cap_block list"
  rcp_slot :: "(string \<times> nat) list"
  rcp_total :: nat
  rcp_truncated :: bool

definition capture_new :: response_capture where
  "capture_new = \<lparr>rcp_blocks = [], rcp_slot = [], rcp_total = 0, rcp_truncated = False\<rparr>"

fun floor_boundary :: "string \<Rightarrow> nat \<Rightarrow> nat" where
  "floor_boundary s 0 = 0"
| "floor_boundary s (Suc n) = (if is_boundary s (Suc n) then Suc n else floor_boundary s n)"

definition cap_slot :: "string \<Rightarrow> cap_kind \<Rightarrow> string \<Rightarrow> response_capture \<Rightarrow> nat \<times> response_capture" where
  "cap_slot key knd label c =
     (case map_of (rcp_slot c) key of
        Some i \<Rightarrow> (i, c)
      | None \<Rightarrow>
          (length (rcp_blocks c),
           c\<lparr>rcp_blocks := rcp_blocks c @ [\<lparr>cb_kind = knd, cb_label = label, cb_text = [], cb_name = None\<rparr>],
             rcp_slot := hm_insert key (length (rcp_blocks c)) (rcp_slot c)\<rparr>))"

definition cap_push :: "string \<Rightarrow> cap_kind \<Rightarrow> string \<Rightarrow> string \<Rightarrow> response_capture \<Rightarrow> response_capture" where
  "cap_push key knd label text c =
     (if text = [] then c
      else let room = PREVIEW_LIMIT - rcp_total c
        in if room = 0 then c\<lparr>rcp_truncated := True\<rparr>
           else let (text, c) = (if length text \<le> room then (text, c)
                                 else (take (floor_boundary text room) text, c\<lparr>rcp_truncated := True\<rparr>))
             in if text = [] then c
                else let (i, c) = cap_slot key knd label c
                  in c\<lparr>rcp_blocks := (rcp_blocks c)[i := (rcp_blocks c ! i)\<lparr>cb_text := cb_text (rcp_blocks c ! i) @ text\<rparr>],
                       rcp_total := rcp_total c + length text\<rparr>)"

definition cap_start_tool :: "string \<Rightarrow> string \<Rightarrow> response_capture \<Rightarrow> response_capture" where
  "cap_start_tool key name c =
     (let (i, c) = cap_slot key CapToolUse key c
      in if name = [] then c
         else c\<lparr>rcp_blocks := (rcp_blocks c)[i := (rcp_blocks c ! i)\<lparr>cb_name := Some name\<rparr>]\<rparr>)"

definition cap_is_empty :: "response_capture \<Rightarrow> bool" where
  "cap_is_empty c \<longleftrightarrow> \<not> list_ex (\<lambda>b. cb_text b \<noteq> [] \<or> cb_name b \<noteq> None) (rcp_blocks c)"

definition cap_surface_text :: "view_api \<Rightarrow> cap_block \<Rightarrow> string" where
  "cap_surface_text A b =
     (case (cb_kind b, cb_name b) of
        (CapToolUse, Some name) \<Rightarrow> call_text name (canonical_args A (cb_text b))
      | _ \<Rightarrow> cb_text b)"

fun join_preview :: "string \<Rightarrow> string list \<Rightarrow> string" where
  "join_preview pv [] = pv"
| "join_preview pv (t # ts) = join_preview (pv @ (if pv = [] then [] else [CHR 0x0A, CHR 0x0A]) @ t) ts"

definition cap_render :: "prims \<Rightarrow> view_api \<Rightarrow> token_preview list \<Rightarrow> response_capture \<Rightarrow> string \<times> view_surface list" where
  "cap_render P A ts c =
     (let bs = filter (\<lambda>b. cb_text b \<noteq> [] \<or> cb_name b \<noteq> None) (rcp_blocks c)
      in (join_preview [] (map (cap_surface_text A) bs) @ (if rcp_truncated c then TRUNCATED else []),
          map (\<lambda>b. response_text_surface P (cb_label b) (Some ''assistant'')
                     (case cb_kind b of CapText \<Rightarrow> ''message'' | CapToolUse \<Rightarrow> ''tool_use'') (cap_surface_text A b) ts) bs))"

section \<open>The delta of a turn\<close>

record turn_delta =
  td_prev :: "nat option"
  td_first :: bool
  td_unavailable :: bool
  td_added :: "string list"

definition delta_first :: turn_delta where
  "delta_first = \<lparr>td_prev = None, td_first = True, td_unavailable = False, td_added = []\<rparr>"

definition delta_unavailable :: "nat \<Rightarrow> turn_delta" where
  "delta_unavailable n = \<lparr>td_prev = Some n, td_first = False, td_unavailable = True, td_added = []\<rparr>"

fun new_hashes :: "string set \<Rightarrow> string list \<Rightarrow> string set \<Rightarrow> string list" where
  "new_hashes base [] seen = []"
| "new_hashes base (h # hs) seen =
     (if h \<in> base then new_hashes base hs seen
      else if h \<in> seen then new_hashes base hs seen
      else h # new_hashes base hs (insert h seen))"

definition compute_delta ::
  "prims \<Rightarrow> view_surface list \<Rightarrow> (nat \<times> view_surface list \<times> view_surface list) option \<Rightarrow> turn_delta" where
  "compute_delta P current previous =
     (case previous of
        None \<Rightarrow> delta_first
      | Some (n, rq, rs) \<Rightarrow>
          \<lparr>td_prev = Some n, td_first = False, td_unavailable = False,
           td_added = new_hashes (set (map vs_hash rq) \<union> set (map (egress_hash P) rs)) (map vs_hash current) {}\<rparr>)"

end
