(* ===== verification/Monitor_View_Laws.thy ===== *)
theory Monitor_View_Laws
  imports Monitor_View Unmask_Laws
begin

text \<open>
  What the monitor's view promises: the runs of a surface give its text back, a re-masked text holds none of
  the withheld values, the delta of a turn hides nothing new, and a capture stays within its bound.
\<close>

section \<open>Runs\<close>

lemma lit_match_Some: "lit_match p s = Some n \<longleftrightarrow> p \<noteq> [] \<and> n = length p \<and> (\<exists>r. s = p @ r)"
  by (auto simp: lit_match_def starts_with_iff)

lemma value_hits_range:
  assumes "(a, b) \<in> set (value_hits v t)"
  shows "a < b \<and> b \<le> length t \<and> slice t a b = v"
proof -
  have h: "(a, b) \<in> set (scan (lit_match v) 0 t)"
    using assms by (auto simp: value_hits_def find_iter_def split: if_splits)
  have ab: "a < b" "b \<le> length t" using lit.scan_in_bounds [OF h] by simp_all
  have "lit_match v (drop a t) = Some (b - a)" using lit.scan_matches [OF h] by simp
  then show ?thesis using ab by (auto simp: slice_def lit_match_Some)
qed

lemma token_hits_range:
  assumes "(a, b, r) \<in> set (token_hits m ts t)"
  obtains p where "p \<in> set ts" "a < b" "b \<le> length t" "slice t a b = needle_of m p" "tr_token r = tp_token p" "tr_value r = tp_value p"
  using assms value_hits_range by (fastforce simp: token_hits_def)

lemma set_sort_hits [simp]: "set (sort_hits hs) = set hs"
  by (simp add: sort_hits_def)

lemma plain_run_text [simp]: "concat (map run_text (plain_run t)) = t"
  by (simp add: plain_run_def)

lemma emit_runs_text:
  assumes "\<forall>(a, b, r)\<in>set hs. a < b \<and> b \<le> length t" "cur \<le> length t"
  shows "concat (map run_text (emit_runs t cur hs)) = drop cur t"
  using assms
proof (induction t cur hs rule: emit_runs.induct)
  case (2 t cur a b r hs)
  show ?case
  proof (cases "a < cur")
    case True
    with 2 show ?thesis by simp
  next
    case False
    then have "concat (map run_text (emit_runs t b hs)) = drop b t" using 2 by auto
    moreover have "slice t cur a @ slice t a b @ drop b t = drop cur t"
      using False 2(3,4) by (simp add: slice_append_drop)
    ultimately show ?thesis using False by simp
  qed
qed simp

lemma plain_run_token: "r \<in> set (plain_run t) \<Longrightarrow> run_token r = None"
  by (auto simp: plain_run_def split: if_splits)

lemma emit_runs_tokens:
  "r \<in> set (emit_runs t cur hs) \<Longrightarrow> run_token r = Some x \<Longrightarrow> \<exists>a b. (a, b, x) \<in> set hs \<and> run_text r = slice t a b"
proof (induction t cur hs rule: emit_runs.induct)
  case (1 t cur)
  then show ?case using plain_run_token by fastforce
next
  case (2 t cur a b r' hs)
  show ?case
  proof (cases "a < cur")
    case True
    with 2 show ?thesis by auto
  next
    case False
    with 2(3) consider "r \<in> set (plain_run (slice t cur a))" | "r = \<lparr>run_text = slice t a b, run_token = Some r'\<rparr>"
      | "r \<in> set (emit_runs t b hs)" by auto
    then show ?thesis
    proof cases
      case 1 with plain_run_token 2(4) show ?thesis by fastforce
    next
      case 2 with \<open>run_token r = Some x\<close> show ?thesis by auto
    next
      case 3 with "2.IH"(2) False 2(4) show ?thesis by auto
    qed
  qed
qed

text \<open>
  The runs of a surface are its text: joined they give it back byte for byte, every token run is an
  occurrence of the handle (of a request) or of the value (of an answer) it names, and so the hash under which
  a request surface is looked for in the next turn is the hash of its own text.
\<close>

theorem segmentation_exact:
  "concat (map run_text (segment_runs_with m ts t)) = t
   \<and> (\<forall>r \<in> set (segment_runs_with m ts t). \<forall>x. run_token r = Some x
        \<longrightarrow> (\<exists>p \<in> set ts. run_text r = needle_of m p \<and> tr_token x = tp_token p \<and> tr_value x = tp_value p))
   \<and> egress_hash P (segment P NeedleHandle ts \<lparr>rs_label = l, rs_role = ro, rs_kind = kd, rs_text = t\<rparr>) = block_hash P t"
proof -
  have rng: "\<forall>(a, b, r)\<in>set (sort_hits (token_hits m ts t)). a < b \<and> b \<le> length t" for m
    by (auto elim: token_hits_range)
  have joined: "concat (map run_text (segment_runs_with m ts t)) = t" for m
    using emit_runs_text [OF rng, of 0 m] by (simp add: segment_runs_with_def Let_def)
  have tok: "\<exists>p \<in> set ts. run_text r = needle_of m p \<and> tr_token x = tp_token p \<and> tr_value x = tp_value p"
    if r: "r \<in> set (segment_runs_with m ts t)" "run_token r = Some x" for m r x
  proof -
    have "r \<in> set (emit_runs t 0 (sort_hits (token_hits m ts t)))"
      using r by (auto simp: segment_runs_with_def Let_def split: if_splits)
    from emit_runs_tokens [OF this r(2)] obtain a b where "(a, b, x) \<in> set (token_hits m ts t)" "run_text r = slice t a b" by auto
    then show ?thesis by (elim token_hits_range) auto
  qed
  let ?s = "segment P NeedleHandle ts \<lparr>rs_label = l, rs_role = ro, rs_kind = kd, rs_text = t\<rparr>"
  have "map (\<lambda>r. case run_token r of Some t \<Rightarrow> tr_token t | None \<Rightarrow> run_text r) (vs_runs ?s) = map run_text (vs_runs ?s)"
    using tok [where m = NeedleHandle] by (intro map_cong refl) (fastforce simp: segment_def needle_of_def split: option.split)
  with joined [of NeedleHandle]
  have "concat (map (\<lambda>r. case run_token r of Some t \<Rightarrow> tr_token t | None \<Rightarrow> run_text r) (vs_runs ?s)) = t"
    by (simp only: segment_def view_surface.select_convs raw_surface.select_convs)
  then have "egress_hash P ?s = block_hash P t" by (simp add: egress_hash_def segment_def)
  with joined tok show ?thesis by blast
qed

theorem segmentation_exact_witness:
  "concat (map run_text (segment_runs_with NeedleHandle
     [\<lparr>tp_token = ''[A_1]'', tp_value = ''Ann'', tp_kind = ''NAME'', tp_surface = UserMessage, tp_range = None,
       tp_class = AutoPii, tp_peekable = True\<rparr>] ''ask [A_1] now'')) = ''ask [A_1] now''"
  using segmentation_exact by blast

section \<open>Re-masking\<close>

text \<open>A withheld value is plain text without brackets, a handle is bracketed and holds no withheld value.\<close>

definition bracketed :: "string \<Rightarrow> bool" where
  "bracketed h \<longleftrightarrow> (\<exists>b. h = CHR ''['' # b @ [CHR '']''])"

definition bracket_free :: "string \<Rightarrow> bool" where
  "bracket_free v \<longleftrightarrow> v \<noteq> [] \<and> CHR ''['' \<notin> set v \<and> CHR '']'' \<notin> set v"

definition separable :: "(string \<times> string) list \<Rightarrow> bool" where
  "separable ps \<longleftrightarrow> (\<forall>(v, h)\<in>set ps. bracket_free v \<and> bracketed h \<and> (\<forall>(w, k)\<in>set ps. \<not> contains v k))"

lemma subst_prefix:
  "subst (lit_match v) (\<lambda>_. h) t = w @ y \<Longrightarrow> bracketed h \<Longrightarrow> CHR ''['' \<notin> set w
    \<Longrightarrow> \<exists>z. t = w @ z \<and> (\<forall>i<length w. lit_match v (drop i t) = None)"
proof (induction t arbitrary: w rule: lit.match_induct [of _ v])
  case (Skip c cs)
  show ?case
  proof (cases w)
    case (Cons d w')
    with Skip.prems Skip(1) have "subst (lit_match v) (\<lambda>_. h) cs = w' @ y" "CHR ''['' \<notin> set w'" "d = c" by auto
    with Skip.IH [of w'] Skip.prems(2) obtain z where z: "cs = w' @ z" "\<forall>i<length w'. lit_match v (drop i cs) = None" by blast
    have "lit_match v (drop i (c # cs)) = None" if "i < length w" for i
      using that z(2) Skip(1) Cons by (cases i) auto
    with z(1) Cons \<open>d = c\<close> show ?thesis by simp
  qed simp
next
  case (Hit s n)
  then have "w = []" by (cases w) (auto simp: lit.subst_hit bracketed_def)
  then show ?case by simp
qed simp

lemma contains_iff: "contains v t \<longleftrightarrow> (\<exists>x y. t = x @ v @ y)"
  using contains_split [of v t] contains_infix [of v] by auto

text \<open>A handle put in for a value brings neither that value nor another absent one back.\<close>

lemma subst_keeps_out:
  assumes h: "bracketed h" and w: "bracket_free w" and nc: "\<not> contains w h"
  shows "w = v \<or> \<not> contains w t \<Longrightarrow> subst (lit_match v) (\<lambda>_. h) t \<noteq> x @ w @ y"
proof (induction t arbitrary: x rule: lit.match_induct [of _ v])
  case Nil
  then show ?case using w by (simp add: bracket_free_def)
next
  case (Skip c cs)
  show ?case
  proof (cases x)
    case Nil
    show ?thesis
    proof
      assume "subst (lit_match v) (\<lambda>_. h) (c # cs) = x @ w @ y"
      then obtain z where z: "c # cs = w @ z" using subst_prefix [of v h "c # cs" w y] h w Nil by (auto simp: bracket_free_def)
      have "w \<noteq> v"
      proof
        assume "w = v"
        then have "lit_match v (c # cs) = Some (length v)" using z w by (auto simp: lit_match_Some bracket_free_def)
        with Skip(1) show False by simp
      qed
      with Skip(3) z contains_infix [of w "[]" z] show False by simp
    qed
  next
    case (Cons d x')
    have "w = v \<or> \<not> contains w cs" using Skip(3) contains_append [of w cs "[c]"] by auto
    with Skip.IH [of x'] Skip(1) Cons show ?thesis by auto
  qed
next
  case (Hit s n)
  have "w = v \<or> \<not> contains w (drop n s)"
    using Hit.prems contains_append [of w "drop n s" "take n s"] by auto
  then have IH: "subst (lit_match v) (\<lambda>_. h) (drop n s) \<noteq> x @ w @ y" for x by (rule Hit.IH)
  show ?case
  proof
    assume "subst (lit_match v) (\<lambda>_. h) s = x @ w @ y"
    then have e: "h @ subst (lit_match v) (\<lambda>_. h) (drop n s) = x @ w @ y" using Hit(1) by (simp add: lit.subst_hit)
    then obtain us where "h = x @ us \<and> us @ subst (lit_match v) (\<lambda>_. h) (drop n s) = w @ y
        \<or> h @ us = x \<and> subst (lit_match v) (\<lambda>_. h) (drop n s) = us @ w @ y"
      unfolding append_eq_append_conv2 by blast
    then consider us where "x = h @ us" "subst (lit_match v) (\<lambda>_. h) (drop n s) = us @ w @ y"
      | us where "h = x @ us" "us \<noteq> []" "us @ subst (lit_match v) (\<lambda>_. h) (drop n s) = w @ y"
      by (cases "us = []") auto
    then show False
    proof cases
      case 1
      with IH show False by blast
    next
      case 2
      obtain b where "h = b @ [CHR '']'']" using h by (auto simp: bracketed_def)
      then have l: "CHR '']'' \<in> set us" using 2(1,2) by (cases us rule: rev_cases) auto
      from 2(3) have "(\<exists>z. us = w @ z) \<or> (\<exists>z. w = us @ z)" by (auto simp: append_eq_append_conv2)
      then consider z where "us = w @ z" | z where "w = us @ z" by blast
      then show False
      proof cases
        case 1
        with 2(1) contains_infix [of w x z] nc show False by simp
      next
        case 2
        with l w show False by (auto simp: bracket_free_def)
      qed
    qed
  qed
qed

lemma redact_step_out:
  assumes "separable ps" "(v, h) \<in> set ps" "(w, k) \<in> set ps" "w = v \<or> \<not> contains w t"
  shows "\<not> contains w (redact_step (v, h) t)"
proof -
  have "bracketed h" "bracket_free w" "\<not> contains w h" "v \<noteq> []" using assms(1,2,3) by (auto simp: separable_def bracket_free_def)
  with assms(4) subst_keeps_out [of h w v t] show ?thesis
    by (auto simp: redact_step_def contains_iff str_replace_def)
qed

lemma redact_fold_out:
  assumes "separable ps" "(w, k) \<in> set ps" "set qs \<subseteq> set ps" "w \<in> fst ` set qs \<or> \<not> contains w t"
  shows "\<not> contains w (fold redact_step qs t)"
  using assms(3,4)
proof (induction qs arbitrary: t)
  case (Cons q qs)
  have "w = fst q \<or> w \<in> fst ` set qs \<or> \<not> contains w t" using Cons.prems(2) by auto
  moreover have "\<not> contains w (redact_step q t)" if "w = fst q \<or> \<not> contains w t"
    using redact_step_out [OF assms(1), of "fst q" "snd q" w k t] that Cons.prems(1) assms(2) by auto
  ultimately show ?case using Cons.IH [of "redact_step q t"] Cons.prems(1) by auto
qed simp

lemma redacted_out:
  assumes "separable ps" "(w, k) \<in> set ps"
  shows "\<not> contains w (redact_secret_values t ps)"
proof -
  have "w \<in> fst ` set ps" using assms(2) by force
  with redact_fold_out [OF assms subset_refl, of t] assms(2) show ?thesis by (auto simp: redact_secret_values_def)
qed

lemma set_longest_first [simp]: "set (longest_first ps) = set ps"
  by (simp add: longest_first_def)

lemma separable_cong: "set ps = set qs \<Longrightarrow> separable ps = separable qs"
  by (simp add: separable_def)

section \<open>The delta of a turn\<close>

lemma new_hashes_exact:
  "distinct (new_hashes base hs seen) \<and> set (new_hashes base hs seen) = set hs - base - seen"
  by (induction base hs seen rule: new_hashes.induct) auto

section \<open>The captured answer\<close>

definition cap_ok :: "response_capture \<Rightarrow> bool" where
  "cap_ok c \<longleftrightarrow>
     rcp_total c = sum_list (map (length \<circ> cb_text) (rcp_blocks c)) \<and> rcp_total c \<le> PREVIEW_LIMIT
     \<and> (\<forall>k i. map_of (rcp_slot c) k = Some i \<longrightarrow> i < length (rcp_blocks c))
     \<and> (\<forall>k l i. map_of (rcp_slot c) k = Some i \<longrightarrow> map_of (rcp_slot c) l = Some i \<longrightarrow> k = l)"

definition cap_text_at :: "string \<Rightarrow> response_capture \<Rightarrow> string" where
  "cap_text_at k c = (case map_of (rcp_slot c) k of Some i \<Rightarrow> cb_text (rcp_blocks c ! i) | None \<Rightarrow> [])"

lemma cap_new_ok: "cap_ok capture_new"
  by (simp add: cap_ok_def capture_new_def)

lemma floor_boundary_le: "floor_boundary s n \<le> n"
  by (induction s n rule: floor_boundary.induct) auto

lemma cap_ok_slot: "cap_ok c \<Longrightarrow> map_of (rcp_slot c) k = Some i \<Longrightarrow> i < length (rcp_blocks c)"
  by (simp add: cap_ok_def)

lemma cap_ok_slot_inj: "cap_ok c \<Longrightarrow> map_of (rcp_slot c) k = Some i \<Longrightarrow> map_of (rcp_slot c) l = Some i \<Longrightarrow> k = l"
  by (simp add: cap_ok_def)

lemma cap_slot_ok:
  assumes c: "cap_ok c" and s: "cap_slot k kd lb c = (i, d)"
  shows "cap_ok d" "map_of (rcp_slot d) k = Some i" "i < length (rcp_blocks d)"
    "rcp_total d = rcp_total c" "rcp_truncated d = rcp_truncated c" "cap_text_at j d = cap_text_at j c"
proof -
  note lt = cap_ok_slot [OF c] and inj = cap_ok_slot_inj [OF c]
  have "cap_ok d \<and> map_of (rcp_slot d) k = Some i \<and> i < length (rcp_blocks d)
    \<and> rcp_total d = rcp_total c \<and> rcp_truncated d = rcp_truncated c \<and> cap_text_at j d = cap_text_at j c"
  proof (cases "map_of (rcp_slot c) k")
    case (Some n)
    then show ?thesis using c s lt [OF Some] by (auto simp: cap_slot_def)
  next
    case None
    have ne: "map_of (rcp_slot c) l \<noteq> Some (length (rcp_blocks c))" for l using lt [of l] by blast
    have "cap_ok d" using c s None ne lt inj
      by (auto simp: cap_slot_def cap_ok_def split: if_splits dest: inj) (use lt less_SucI in blast)
    moreover have "cap_text_at j d = cap_text_at j c"
    proof (cases "j = k")
      case True
      then show ?thesis using s None by (auto simp: cap_slot_def cap_text_at_def)
    next
      case False
      then show ?thesis using s None lt [of j]
        by (cases "map_of (rcp_slot c) j") (auto simp: cap_slot_def cap_text_at_def nth_append)
    qed
    ultimately show ?thesis using s None by (auto simp: cap_slot_def)
  qed
  then show "cap_ok d" "map_of (rcp_slot d) k = Some i" "i < length (rcp_blocks d)"
    "rcp_total d = rcp_total c" "rcp_truncated d = rcp_truncated c" "cap_text_at j d = cap_text_at j c" by simp_all
qed

lemma sum_list_text_update:
  "i < length bs \<Longrightarrow> sum_list (map (length \<circ> cb_text) (bs[i := (bs ! i)\<lparr>cb_text := cb_text (bs ! i) @ t\<rparr>]))
     = sum_list (map (length \<circ> cb_text) bs) + length t"
proof (induction bs arbitrary: i)
  case (Cons b bs)
  then show ?case by (cases i) auto
qed simp

lemma cap_append_ok:
  assumes c: "cap_ok c" and s: "cap_slot k kd lb c = (i, d)" and t: "rcp_total c + length t \<le> PREVIEW_LIMIT"
  defines "e \<equiv> d\<lparr>rcp_blocks := (rcp_blocks d)[i := (rcp_blocks d ! i)\<lparr>cb_text := cb_text (rcp_blocks d ! i) @ t\<rparr>],
                  rcp_total := rcp_total d + length t\<rparr>"
  shows "cap_ok e" "rcp_truncated e = rcp_truncated c"
    "cap_text_at j e = cap_text_at j c @ (if j = k then t else [])"
proof -
  note d = cap_slot_ok [OF c s]
  show "cap_ok e" using d(1,3,4) t by (simp add: e_def cap_ok_def sum_list_text_update)
  show "rcp_truncated e = rcp_truncated c" using d(5) by (simp add: e_def)
  have "cap_text_at j e = cap_text_at j d @ (if j = k then t else [])"
  proof (cases "map_of (rcp_slot d) j")
    case None
    with d(2) show ?thesis by (auto simp: cap_text_at_def e_def)
  next
    case (Some n)
    with cap_ok_slot_inj [OF d(1) _ d(2), of j] d(2,3) show ?thesis by (auto simp: cap_text_at_def e_def nth_list_update)
  qed
  then show "cap_text_at j e = cap_text_at j c @ (if j = k then t else [])" by (simp add: d(6))
qed

lemma cap_push_ok:
  assumes c: "cap_ok c"
  shows "cap_ok (cap_push k kd lb t c)"
    and "\<not> rcp_truncated (cap_push k kd lb t c) \<Longrightarrow> \<not> rcp_truncated c \<and>
          cap_text_at j (cap_push k kd lb t c) = cap_text_at j c @ (if j = k then t else [])"
proof -
  have "cap_ok (cap_push k kd lb t c) \<and> (\<not> rcp_truncated (cap_push k kd lb t c) \<longrightarrow> \<not> rcp_truncated c \<and>
          cap_text_at j (cap_push k kd lb t c) = cap_text_at j c @ (if j = k then t else []))"
  proof -
    let ?room = "PREVIEW_LIMIT - rcp_total c" and ?c = "c\<lparr>rcp_truncated := True\<rparr>"
    let ?u = "take (floor_boundary t ?room) t"
    have cc: "cap_ok ?c" using c by (simp add: cap_ok_def)
    have le: "rcp_total c \<le> PREVIEW_LIMIT" using c by (simp add: cap_ok_def)
    consider (a) "t = []" | (b) "t \<noteq> []" "?room = 0" | (c) "t \<noteq> []" "0 < ?room" "length t \<le> ?room"
      | (d) "t \<noteq> []" "0 < ?room" "?room < length t" "?u = []" | (e) "t \<noteq> []" "0 < ?room" "?room < length t" "?u \<noteq> []"
      by linarith
    then show ?thesis
    proof cases
      case c': c
      obtain i d where s: "cap_slot k kd lb c = (i, d)" by (cases "cap_slot k kd lb c")
      have "rcp_total c + length t \<le> PREVIEW_LIMIT" using c' le by simp
      note A = cap_append_ok [OF c s this]
      show ?thesis using A c' s by (simp add: cap_push_def)
    next
      case e
      obtain i d where s: "cap_slot k kd lb ?c = (i, d)" by (cases "cap_slot k kd lb ?c")
      have "rcp_total ?c + length ?u \<le> PREVIEW_LIMIT" using e le floor_boundary_le [of t ?room] by simp
      note A = cap_append_ok [OF cc s this]
      show ?thesis using A(1,2) e s by (simp add: cap_push_def Let_def)
    qed (use c cc in \<open>auto simp: cap_push_def\<close>)
  qed
  then show "cap_ok (cap_push k kd lb t c)"
    and "\<not> rcp_truncated (cap_push k kd lb t c) \<Longrightarrow> \<not> rcp_truncated c \<and>
          cap_text_at j (cap_push k kd lb t c) = cap_text_at j c @ (if j = k then t else [])" by blast+
qed

lemma cap_start_tool_ok:
  assumes c: "cap_ok c"
  shows "cap_ok (cap_start_tool k n c)" "rcp_truncated (cap_start_tool k n c) = rcp_truncated c"
    "cap_text_at j (cap_start_tool k n c) = cap_text_at j c"
proof -
  obtain i d where s: "cap_slot k CapToolUse k c = (i, d)" by (cases "cap_slot k CapToolUse k c")
  note d = cap_slot_ok [OF c s]
  have m: "map (length \<circ> cb_text) (rcp_blocks d) = map (length \<circ> cb_text) ((rcp_blocks d)[i := (rcp_blocks d ! i)\<lparr>cb_name := nm\<rparr>])" for nm
    using d(3) by (auto simp: map_update intro!: nth_equalityI simp: nth_list_update)
  show "cap_ok (cap_start_tool k n c)" using d(1) s m [symmetric] by (simp add: cap_start_tool_def cap_ok_def)
  show "rcp_truncated (cap_start_tool k n c) = rcp_truncated c" using d(5) s by (simp add: cap_start_tool_def)
  have "cap_text_at j (cap_start_tool k n c) = cap_text_at j d" using d(3) s
    by (auto simp: cap_start_tool_def cap_text_at_def nth_list_update split: option.split)
  then show "cap_text_at j (cap_start_tool k n c) = cap_text_at j c" by (simp add: d(6))
qed

text \<open>What arrives while an answer streams: a fragment of a block, or the announcement of a tool call.\<close>

datatype cap_event = Fragment string cap_kind string string | ToolStart string string

fun cap_event_step :: "cap_event \<Rightarrow> response_capture \<Rightarrow> response_capture" where
  "cap_event_step (Fragment k kd lb t) c = cap_push k kd lb t c"
| "cap_event_step (ToolStart k n) c = cap_start_tool k n c"

fun fragment_of :: "string \<Rightarrow> cap_event \<Rightarrow> string" where
  "fragment_of j (Fragment k kd lb t) = (if j = k then t else [])"
| "fragment_of j (ToolStart k n) = []"

lemma cap_run_ok:
  "cap_ok c \<Longrightarrow> cap_ok (fold cap_event_step es c)
    \<and> (\<not> rcp_truncated (fold cap_event_step es c) \<longrightarrow>
        \<not> rcp_truncated c \<and> cap_text_at j (fold cap_event_step es c) = cap_text_at j c @ concat (map (fragment_of j) es))"
proof (induction es arbitrary: c)
  case (Cons e es)
  show ?case
  proof (cases e)
    case (Fragment k kd lb t)
    with Cons.IH [OF cap_push_ok(1) [OF Cons.prems]] cap_push_ok(2) [OF Cons.prems, of k kd lb t j] show ?thesis by auto
  next
    case (ToolStart k n)
    with Cons.IH [OF cap_start_tool_ok(1) [OF Cons.prems]] cap_start_tool_ok(2,3) [OF Cons.prems] show ?thesis by simp
  qed
qed simp

text \<open>
  Whatever an answer streams, its capture never holds more than the preview limit, and unless it says that it was
  truncated every block holds the concatenation of exactly its own fragments, in order.
\<close>

theorem capture_bounded:
  "sum_list (map (length \<circ> cb_text) (rcp_blocks (fold cap_event_step es capture_new))) \<le> PREVIEW_LIMIT
   \<and> (rcp_truncated (fold cap_event_step es capture_new)
       \<or> cap_text_at j (fold cap_event_step es capture_new) = concat (map (fragment_of j) es))"
  using cap_run_ok [OF cap_new_ok, of es j]
  by (auto simp: cap_ok_def cap_text_at_def capture_new_def)

end
