(* ===== verification/Monitor_Store.thy ===== *)
theory Monitor_Store
  imports Monitor_View Zdr_Target
begin

text \<open>
  \<open>monitor/store.rs\<close>: the state of the monitor and every operation on it, each one section under its mutex.
  A hash map is an association list, listed in one of its iteration orders; clock readings (milliseconds) are
  arguments; counters are naturals. The broadcast of events is left out: it reads copies and no operation
  depends on it. The sender half of a held request's channel is the id under which it waits; the channel and
  the waiting side are in the theory of the hold.
\<close>

section \<open>State\<close>

datatype monitor_mode = ModeOff | ManualAllLlm | ManualOnDetection
datatype approval = Approve | Reject string

datatype request_decision =
    AutoAccepted | Pending | Approved | InFlight | Rejected | BackpressureRejected | TimedOut | UpstreamError | Aborted | Completed

definition is_terminal :: "request_decision \<Rightarrow> bool" where
  "is_terminal d \<longleftrightarrow> d \<in> {Rejected, BackpressureRejected, TimedOut, UpstreamError, Aborted, Completed}"

record request_record =
  rrd_id :: string
  rrd_conversation :: string
  rrd_endpoint :: string
  rrd_method :: string
  rrd_started :: nat
  rrd_updated :: nat
  rrd_decision :: request_decision
  rrd_preview :: string
  rrd_spans :: "preview_span list"
  rrd_response_preview :: "string option"
  rrd_response_spans :: "preview_span list"
  rrd_response_status :: "nat option"
  rrd_tokens :: "token_preview list"
  rrd_tags :: "string list"
  rrd_reason :: "string option"
  rrd_turn :: nat
  rrd_dispatched :: "nat option"
  rrd_surfaces :: "view_surface list"
  rrd_response_surfaces :: "view_surface list"
  rrd_delta :: turn_delta
  rrd_human_turn :: nat
  rrd_upstream :: "string option"
  rrd_masked :: "bool option"

record token_entry =
  te_token :: string
  te_value :: string
  te_kind :: string
  te_class :: token_class
  te_peekable :: bool
  te_first :: nat
  te_last :: nat
  te_count :: nat
  te_lane :: "string option"

record monitor =
  mo_mode :: monitor_mode
  mo_max_pending :: nat
  mo_next_seq :: nat
  mo_records :: "request_record list"
  mo_waiters :: "string list"
  mo_turns :: "(string \<times> nat) list"
  mo_human_turns :: "(string \<times> nat) list"
  mo_user_inputs :: "(string \<times> nat) list"
  mo_anchors :: "(string \<times> string list) list"
  mo_last_seen :: "(string \<times> nat) list"
  mo_labels :: "(string \<times> string) list"
  mo_tokens :: "(string \<times> token_entry) list"
  mo_local :: "(string \<times> string) list"

definition MAX_RECORDS :: nat where "MAX_RECORDS = 500"
definition DEFAULT_MAX_PENDING :: nat where "DEFAULT_MAX_PENDING = 32"
definition MAX_TRACKED :: nat where "MAX_TRACKED = 1024"
definition MAX_SESSION_TOKENS :: nat where "MAX_SESSION_TOKENS = 5000"

definition monitor_new :: monitor where
  "monitor_new =
     \<lparr>mo_mode = ModeOff, mo_max_pending = DEFAULT_MAX_PENDING, mo_next_seq = 1, mo_records = [], mo_waiters = [],
      mo_turns = [], mo_human_turns = [], mo_user_inputs = [], mo_anchors = [], mo_last_seen = [], mo_labels = [],
      mo_tokens = [], mo_local = []\<rparr>"

definition set_local_redactions :: "(string \<times> string) list \<Rightarrow> monitor \<Rightarrow> monitor" where
  "set_local_redactions ps mo = mo\<lparr>mo_local := ps\<rparr>"

definition set_mode :: "monitor_mode \<Rightarrow> nat option \<Rightarrow> monitor \<Rightarrow> monitor" where
  "set_mode m cap mo =
     mo\<lparr>mo_mode := m, mo_max_pending := (case cap of Some n \<Rightarrow> n | None \<Rightarrow> mo_max_pending mo)\<rparr>"

definition routed_recently :: "nat \<Rightarrow> string \<Rightarrow> nat \<Rightarrow> monitor \<Rightarrow> bool \<times> nat option" where
  "routed_recently now conv window mo =
     (let seen = map_of (mo_last_seen mo) conv
      in (case seen of Some ts \<Rightarrow> now - ts \<le> window | None \<Rightarrow> False, seen))"

section \<open>The session ledger of masked values\<close>

definition provenance_rank :: "string \<Rightarrow> nat" where
  "provenance_rank lane =
     (if lane = ''userctx'' then 5 else if lane = ''tool_io'' then 4 else if lane = ''user_input'' then 3
      else if lane = ''assistant'' then 2 else if lane = ''harness_frame'' then 1 else if lane = ''harness_meta'' then 0
      else 3)"

definition lane_step :: "string \<Rightarrow> text_run \<Rightarrow> (string \<times> string) list \<Rightarrow> (string \<times> string) list" where
  "lane_step lane r m =
     (case run_token r of
        None \<Rightarrow> m
      | Some t \<Rightarrow>
          (case map_of m (tr_token t) of
             None \<Rightarrow> hm_insert (tr_token t) lane m
           | Some cur \<Rightarrow> if provenance_rank cur < provenance_rank lane then hm_insert (tr_token t) lane m else m))"

definition token_provenance_map :: "view_surface list \<Rightarrow> (string \<times> string) list" where
  "token_provenance_map ss = fold (\<lambda>s m. fold (lane_step (vs_provenance s)) (vs_runs s) m) ss []"

definition ingest_one :: "nat \<Rightarrow> (string \<times> string) list \<Rightarrow> manifest_entry \<Rightarrow> (string \<times> token_entry) list \<Rightarrow> (string \<times> token_entry) list" where
  "ingest_one now prov e m =
     (let lane = map_of prov (token_handle e)
      in case map_of m (token_handle e) of
           Some x \<Rightarrow>
             (let up = (case lane of
                          None \<Rightarrow> False
                        | Some l \<Rightarrow> (case te_lane x of Some cur \<Rightarrow> provenance_rank cur < provenance_rank l | None \<Rightarrow> True))
              in hm_insert (token_handle e)
                   (x\<lparr>te_count := te_count x + 1, te_last := now, te_lane := if up then lane else te_lane x\<rparr>) m)
         | None \<Rightarrow>
             (let class = for_manifest_entry e; peek = is_peekable class
              in hm_insert (token_handle e)
                   \<lparr>te_token = token_handle e, te_value = if peek then canonical_form e else [], te_kind = entity_kind e,
                    te_class = class, te_peekable = peek, te_first = now, te_last = now, te_count = 1, te_lane = lane\<rparr> m))"

text \<open>
  The eviction order: what this manifest does not hold first, then the least recently seen. The code's
  selection is unstable; here equals keep the iteration order.
\<close>

definition eviction_order :: "string set \<Rightarrow> (string \<times> token_entry) list \<Rightarrow> token_entry list" where
  "eviction_order cur m =
     sort_key (\<lambda>x. if te_token x \<in> cur then 1 else (0::nat)) (sort_key te_last (map snd m))"

definition evict_tokens :: "unmask_manifest \<Rightarrow> (string \<times> token_entry) list \<Rightarrow> (string \<times> token_entry) list" where
  "evict_tokens mf m =
     (if MAX_SESSION_TOKENS < length m then
        fold hm_remove (map te_token (take (length m - MAX_SESSION_TOKENS) (eviction_order (set (map token_handle mf)) m))) m
      else m)"

definition ingest_tokens_into :: "unmask_manifest \<Rightarrow> nat \<Rightarrow> (string \<times> string) list \<Rightarrow> monitor \<Rightarrow> monitor" where
  "ingest_tokens_into mf now prov mo =
     mo\<lparr>mo_tokens := evict_tokens mf (fold (ingest_one now prov) mf (mo_tokens mo))\<rparr>"

definition ingest_session_tokens :: "unmask_manifest \<Rightarrow> nat \<Rightarrow> monitor \<Rightarrow> monitor" where
  "ingest_session_tokens mf now mo = (if mf = [] then mo else ingest_tokens_into mf now [] mo)"

section \<open>Conversations\<close>

definition is_control_char :: "string \<Rightarrow> bool" where
  "is_control_char c \<longleftrightarrow>
     (case c of
        [b] \<Rightarrow> ord b < 32 \<or> ord b = 127
      | [a, b] \<Rightarrow> ord a = 194 \<and> 128 \<le> ord b \<and> ord b < 160
      | _ \<Rightarrow> False)"

definition bound_id :: "prims \<Rightarrow> string \<Rightarrow> string" where
  "bound_id P raw0 =
     (let raw = trim raw0
      in if raw = [] then ''unknown''
         else if length raw \<le> 128 \<and> list_all (\<lambda>c. \<not> is_control_char c) (utf8_chars raw) then raw
         else ''h-'' @ take 16 (to_hex (blake3 P raw)))"

definition jget :: "string \<Rightarrow> json \<Rightarrow> json option" where
  "jget k v = Option.bind (obj_of v) (\<lambda>ob. map_of ob k)"

definition session_id_from_body :: "prims \<Rightarrow> view_api \<Rightarrow> string \<Rightarrow> string option" where
  "session_id_from_body P A body =
     Option.bind (va_parse A body) (\<lambda>rt.
     Option.bind (as_str (Option.bind (jget ''metadata'' rt) (jget ''user_id''))) (\<lambda>uid.
     Option.bind (va_parse A uid) (\<lambda>inner.
     Option.bind (as_str (jget ''session_id'' inner)) (\<lambda>sid.
       let sid = trim sid in if sid = [] then None else Some (bound_id P sid)))))"

definition anchor_prefix_len :: "string list \<Rightarrow> string list \<Rightarrow> nat" where
  "anchor_prefix_len anchor seq =
     (if anchor = [] \<or> length seq < length anchor then 0
      else if take (length anchor) seq = anchor then length anchor else 0)"

text \<open>The byte order of strings; the last of the greatest elements, as \<open>Iterator::max_by\<close> takes it.\<close>

fun str_le :: "string \<Rightarrow> string \<Rightarrow> bool" where
  "str_le [] t \<longleftrightarrow> True"
| "str_le (c # s) [] \<longleftrightarrow> False"
| "str_le (c # s) (d # t) \<longleftrightarrow> ord c < ord d \<or> (ord c = ord d \<and> str_le s t)"

fun max_last :: "('a \<Rightarrow> 'a \<Rightarrow> bool) \<Rightarrow> 'a list \<Rightarrow> 'a option" where
  "max_last le [] = None"
| "max_last le (x # xs) =
     (case max_last le xs of None \<Rightarrow> Some x | Some y \<Rightarrow> if le x y then Some y else Some x)"

text \<open>Longer match first; of equal ones the smaller id is the greater.\<close>

definition match_le :: "nat \<times> string \<Rightarrow> nat \<times> string \<Rightarrow> bool" where
  "match_le x y \<longleftrightarrow> fst x < fst y \<or> (fst x = fst y \<and> str_le (snd y) (snd x))"

definition best_anchor :: "(string \<times> string list) list \<Rightarrow> string list \<Rightarrow> (nat \<times> string) option" where
  "best_anchor anchors seq =
     max_last match_le
       (List.map_filter (\<lambda>(i, a). let n = anchor_prefix_len a seq in if 0 < n then Some (n, i) else None) anchors)"

fun join_bar :: "string list \<Rightarrow> string" where
  "join_bar [] = []"
| "join_bar [x] = x"
| "join_bar (x # xs) = x @ ''|'' @ join_bar xs"

text \<open>Called with a sequence that is not empty.\<close>

definition resolve_content_conversation ::
  "prims \<Rightarrow> string list \<Rightarrow> (string \<times> string list) list \<Rightarrow> string \<times> (string \<times> string list) list" where
  "resolve_content_conversation P seq anchors =
     (case best_anchor anchors seq of
        Some (n, i) \<Rightarrow> (i, if n < length seq then hm_insert i seq anchors else anchors)
      | None \<Rightarrow>
          (let base = ''auto-'' @ hd seq;
               i = (if map_of anchors base \<noteq> None
                    then base @ ''-'' @ take 8 (to_hex (blake3 P (join_bar seq))) else base)
           in (i, hm_insert i seq anchors)))"

fun words_go :: "string list \<Rightarrow> string \<Rightarrow> string list" where
  "words_go [] cur = (if cur = [] then [] else [cur])"
| "words_go (c # cs) cur =
     (if is_ws_char c then (if cur = [] then words_go cs [] else cur # words_go cs []) else words_go cs (cur @ c))"

definition split_whitespace :: "string \<Rightarrow> string list" where
  "split_whitespace s = words_go (utf8_chars s) []"

fun join_space :: "string list \<Rightarrow> string" where
  "join_space [] = []"
| "join_space [x] = x"
| "join_space (x # xs) = x @ '' '' @ join_space xs"

fun last_segment :: "string \<Rightarrow> string \<Rightarrow> string option" where
  "last_segment [] cur = (if cur = [] then None else Some cur)"
| "last_segment (c # cs) cur =
     (if c = CHR ''/'' \<or> c = CHR '':'' then
        (case last_segment cs [] of Some s \<Rightarrow> Some s | None \<Rightarrow> if cur = [] then None else Some cur)
      else last_segment cs (cur @ [c]))"

definition conversation_label :: "string \<Rightarrow> string \<Rightarrow> string" where
  "conversation_label ep conv =
     (let leaf = str_or ep (last_segment ep []); i = trim conv
      in if i = ''unknown'' \<or> i = [] then leaf @ MIDDLE_DOT @ ''unknown''
         else let cs = utf8_chars i; tail = concat (drop (length cs - 6) cs)
           in if tail = i then i else leaf @ MIDDLE_DOT @ tail)"

definition is_harness :: "view_surface \<Rightarrow> bool" where
  "is_harness s \<longleftrightarrow> vs_provenance s = ''harness_frame'' \<or> vs_provenance s = ''harness_meta''"

definition label_surface :: "view_surface list \<Rightarrow> view_surface option" where
  "label_surface ss =
     (case find (\<lambda>s. vs_provenance s = ''user_input'') ss of
        Some s \<Rightarrow> Some s
      | None \<Rightarrow>
          (case find (\<lambda>s. vs_kind s = ''message'' \<and> vs_role s = Some ''user'' \<and> \<not> is_harness s) ss of
             Some s \<Rightarrow> Some s
           | None \<Rightarrow> find (\<lambda>s. vs_kind s = ''message'' \<and> \<not> is_harness s) ss))"

definition first_message_label :: "view_surface list \<Rightarrow> string \<Rightarrow> string \<Rightarrow> string" where
  "first_message_label ss ep conv =
     (case label_surface ss of
        None \<Rightarrow> conversation_label ep conv
      | Some s \<Rightarrow>
          (let text = join_space (split_whitespace (concat (map run_text (vs_runs s)))); cs = utf8_chars text
           in if text = [] then conversation_label ep conv
              else if 48 < length cs then concat (take 48 cs) @ [CHR 0xE2, CHR 0x80, CHR 0xA6]
              else text))"

text \<open>The first of the least recently seen conversations goes, with all its entries, until the cap holds.\<close>

fun min_first :: "(string \<times> nat) list \<Rightarrow> (string \<times> nat) option" where
  "min_first [] = None"
| "min_first (x # xs) = (case min_first xs of None \<Rightarrow> Some x | Some y \<Rightarrow> if snd y < snd x then Some y else Some x)"

definition drop_conversation :: "string \<Rightarrow> monitor \<Rightarrow> monitor" where
  "drop_conversation c mo =
     mo\<lparr>mo_last_seen := hm_remove c (mo_last_seen mo), mo_turns := hm_remove c (mo_turns mo),
        mo_human_turns := hm_remove c (mo_human_turns mo), mo_user_inputs := hm_remove c (mo_user_inputs mo),
        mo_anchors := hm_remove c (mo_anchors mo), mo_labels := hm_remove c (mo_labels mo)\<rparr>"

lemma min_first_in: "min_first xs = Some x \<Longrightarrow> x \<in> set xs"
  by (induction xs) (auto split: option.splits if_splits)

lemma hm_remove_shrinks: "x \<in> set m \<Longrightarrow> length (hm_remove (fst x) m) < length m"
  unfolding hm_remove_def by (rule length_filter_less) auto

function evict_stale :: "monitor \<Rightarrow> monitor" where
  "evict_stale mo =
     (if MAX_TRACKED < length (mo_last_seen mo) then
        (case min_first (mo_last_seen mo) of
           None \<Rightarrow> mo
         | Some victim \<Rightarrow> evict_stale (drop_conversation (fst victim) mo))
      else mo)"
  by pat_completeness auto
termination
  by (relation "measure (\<lambda>mo. length (mo_last_seen mo))")
    (auto simp: drop_conversation_def dest!: min_first_in hm_remove_shrinks)

declare evict_stale.simps [simp del]

section \<open>Recording a request\<close>

record llm_input =
  li_endpoint :: string
  li_method :: string
  li_conversation :: "string option"
  li_body :: string
  li_manifest :: unmask_manifest
  li_pinned :: pinned_mode
  li_masking :: bool

datatype ticket_state = Free | Held | Refused string

record review_ticket =
  tk_id :: string
  tk_state :: ticket_state

definition conversation_of ::
  "prims \<Rightarrow> view_api \<Rightarrow> llm_input \<Rightarrow> string list \<Rightarrow> monitor \<Rightarrow> string \<times> monitor" where
  "conversation_of P A inp anchor_seq mo =
     (case li_conversation inp of
        Some i \<Rightarrow> (bound_id P i, mo)
      | None \<Rightarrow>
          (case session_id_from_body P A (li_body inp) of
             Some sid \<Rightarrow> (''cc-'' @ sid, mo)
           | None \<Rightarrow>
               (if anchor_seq = [] then (''unknown'', mo)
                else let (i, an) = resolve_content_conversation P anchor_seq (mo_anchors mo)
                  in (i, mo\<lparr>mo_anchors := an\<rparr>))))"

definition should_hold :: "llm_input \<Rightarrow> monitor \<Rightarrow> bool" where
  "should_hold inp mo \<longleftrightarrow>
     li_masking inp
     \<and> (case mo_mode mo of ModeOff \<Rightarrow> False | ManualAllLlm \<Rightarrow> True | ManualOnDetection \<Rightarrow> li_manifest inp \<noteq> [])"

definition bump :: "string \<Rightarrow> (string \<times> nat) list \<Rightarrow> (string \<times> nat) list" where
  "bump c m = hm_insert c ((case map_of m c of Some n \<Rightarrow> n | None \<Rightarrow> 0) + 1) m"

definition count_of :: "string \<Rightarrow> (string \<times> nat) list \<Rightarrow> nat" where
  "count_of c m = (case map_of m c of Some n \<Rightarrow> n | None \<Rightarrow> 0)"

text \<open>The predecessor: most shared surfaces, of equal ones the latest turn; the last such record of the ring.\<close>

definition overlap :: "string set \<Rightarrow> request_record \<Rightarrow> nat" where
  "overlap cur r = length (filter (\<lambda>s. vs_hash s \<in> cur) (rrd_surfaces r))"

definition previous_turn_surfaces ::
  "request_record list \<Rightarrow> string \<Rightarrow> nat \<Rightarrow> string set \<Rightarrow> (nat \<times> view_surface list \<times> view_surface list) option" where
  "previous_turn_surfaces rs conv turn cur =
     map_option (\<lambda>r. (rrd_turn r, rrd_surfaces r, rrd_response_surfaces r))
       (max_last (\<lambda>x y. overlap cur x < overlap cur y \<or> (overlap cur x = overlap cur y \<and> rrd_turn x \<le> rrd_turn y))
         (filter (\<lambda>r. rrd_conversation r = conv \<and> rrd_turn r < turn) rs))"

definition turn_delta_of :: "prims \<Rightarrow> monitor \<Rightarrow> string \<Rightarrow> nat \<Rightarrow> view_surface list \<Rightarrow> turn_delta" where
  "turn_delta_of P mo conv turn ss =
     (case previous_turn_surfaces (mo_records mo) conv turn (set (map vs_hash ss)) of
        Some prev \<Rightarrow> compute_delta P ss (Some prev)
      | None \<Rightarrow> if turn = 1 then delta_first else delta_unavailable (turn - 1))"

text \<open>The human turn: counted up when the request carries more user inputs than the one before.\<close>

definition user_input_count :: "view_surface list \<Rightarrow> nat" where
  "user_input_count ss = length (filter (\<lambda>s. vs_provenance s = ''user_input'') ss)"

definition human_turn :: "string \<Rightarrow> view_surface list \<Rightarrow> monitor \<Rightarrow> nat \<times> monitor" where
  "human_turn c ss mo =
     (let fresh = count_of c (mo_user_inputs mo) < user_input_count ss;
          h = count_of c (mo_human_turns mo) + (if fresh then 1 else 0)
      in (h, mo\<lparr>mo_user_inputs := hm_insert c (user_input_count ss) (mo_user_inputs mo),
                mo_human_turns := hm_insert c h (mo_human_turns mo)\<rparr>))"

definition stamp_conversation :: "nat \<Rightarrow> string \<Rightarrow> string \<Rightarrow> view_surface list \<Rightarrow> monitor \<Rightarrow> monitor" where
  "stamp_conversation now c ep ss mo =
     evict_stale
       (mo\<lparr>mo_last_seen := hm_insert c now (mo_last_seen mo),
           mo_labels := (if map_of (mo_labels mo) c = None then hm_insert c (first_message_label ss ep c) (mo_labels mo)
                         else mo_labels mo)\<rparr>)"

definition push_record :: "request_record \<Rightarrow> request_record list \<Rightarrow> request_record list" where
  "push_record r rs = take MAX_RECORDS (r # rs)"

text \<open>A held request waits under its id; past the limit it is refused at once.\<close>

definition hold_step :: "llm_input \<Rightarrow> string \<Rightarrow> bool \<Rightarrow> monitor \<Rightarrow> request_decision \<times> ticket_state \<times> monitor" where
  "hold_step inp i hold mo =
     (if hold \<and> mo_max_pending mo \<le> length (mo_waiters mo) then
        (BackpressureRejected, Refused (''pending approval limit reached ('' @ show_nat (mo_max_pending mo) @ '')''), mo)
      else if hold then (Pending, Held, mo\<lparr>mo_waiters := i # mo_waiters mo\<rparr>)
      else (AutoAccepted, Free, mo))"

definition upstream_name :: "pinned_mode \<Rightarrow> string" where
  "upstream_name p = (case p of NormalMode \<Rightarrow> ''anthropic'' | ZdrMode t \<Rightarrow> ''zdr:'' @ zt_name t)"

definition record_llm_request :: "prims \<Rightarrow> view_api \<Rightarrow> nat \<Rightarrow> llm_input \<Rightarrow> monitor \<Rightarrow> review_ticket \<times> monitor" where
  "record_llm_request P A now inp mo0 =
     (let pv = preview A (li_body inp);
          tokens = token_previews (li_manifest inp);
          spans = spans_from_manifest (li_manifest inp) pv;
          ss = surfaces_from_body P A (li_body inp) tokens;
          anchor_seq = map vs_hash (filter (\<lambda>s. vs_kind s \<noteq> ''system'' \<and> vs_kind s \<noteq> ''instructions'') ss);
          mo = ingest_tokens_into (li_manifest inp) now (token_provenance_map ss) mo0;
          i = ''req-'' @ show_nat (mo_next_seq mo);
          mo = mo\<lparr>mo_next_seq := mo_next_seq mo + 1\<rparr>;
          (conv, mo) = conversation_of P A inp anchor_seq mo;
          hold = should_hold inp mo;
          mo = mo\<lparr>mo_turns := bump conv (mo_turns mo)\<rparr>;
          turn = count_of conv (mo_turns mo);
          delta = turn_delta_of P mo conv turn ss;
          (human, mo) = human_turn conv ss mo;
          mo = stamp_conversation now conv (li_endpoint inp) ss mo;
          (status, tk, mo) = hold_step inp i hold mo;
          r = \<lparr>rrd_id = i, rrd_conversation = conv, rrd_endpoint = li_endpoint inp, rrd_method = li_method inp,
               rrd_started = now, rrd_updated = now, rrd_decision = status, rrd_preview = pv, rrd_spans = spans,
               rrd_response_preview = None, rrd_response_spans = [], rrd_response_status = None, rrd_tokens = tokens,
               rrd_tags = [], rrd_reason = (case tk of Refused m \<Rightarrow> Some m | _ \<Rightarrow> None), rrd_turn = turn,
               rrd_dispatched = None, rrd_surfaces = ss, rrd_response_surfaces = [], rrd_delta = delta,
               rrd_human_turn = human, rrd_upstream = Some (upstream_name (li_pinned inp)),
               rrd_masked = Some (li_masking inp)\<rparr>
      in (\<lparr>tk_id = i, tk_state = tk\<rparr>, mo\<lparr>mo_records := push_record r (mo_records mo)\<rparr>))"

section \<open>Updating a record\<close>

text \<open>The first record with the id is changed and stamped; without one nothing happens.\<close>

fun update_first :: "string \<Rightarrow> (request_record \<Rightarrow> request_record) \<Rightarrow> request_record list \<Rightarrow> request_record list" where
  "update_first i f [] = []"
| "update_first i f (r # rs) = (if rrd_id r = i then f r # rs else r # update_first i f rs)"

definition find_record :: "string \<Rightarrow> monitor \<Rightarrow> request_record option" where
  "find_record i mo = find (\<lambda>r. rrd_id r = i) (mo_records mo)"

definition update_record :: "nat \<Rightarrow> string \<Rightarrow> (request_record \<Rightarrow> request_record) \<Rightarrow> monitor \<Rightarrow> monitor" where
  "update_record now i f mo = mo\<lparr>mo_records := update_first i (\<lambda>r. (f r)\<lparr>rrd_updated := now\<rparr>) (mo_records mo)\<rparr>"

definition unless_terminal :: "(request_record \<Rightarrow> request_record) \<Rightarrow> request_record \<Rightarrow> request_record" where
  "unless_terminal f r = (if is_terminal (rrd_decision r) then r else f r)"

definition record_response ::
  "prims \<Rightarrow> view_api \<Rightarrow> nat \<Rightarrow> string \<Rightarrow> nat \<Rightarrow> string option \<Rightarrow> unmask_manifest \<Rightarrow> monitor \<Rightarrow> monitor" where
  "record_response P A now i status body mf mo =
     (let pairs = longest_first (json_body_redaction_pairs A mf @ json_body_expand A (mo_local mo));
          scrubbed = map_option (\<lambda>b. redact_secret_values (va_lossy A b) pairs) body
      in update_record now i (unless_terminal (\<lambda>r.
           let pv = map_option (preview A) scrubbed
           in r\<lparr>rrd_response_status := Some status, rrd_response_preview := pv,
                rrd_response_spans := (case pv of Some p \<Rightarrow> spans_from_values (rrd_tokens r) p | None \<Rightarrow> []),
                rrd_response_surfaces :=
                  (case scrubbed of Some b \<Rightarrow> surfaces_from_response_body P A b (rrd_tokens r) | None \<Rightarrow> []),
                rrd_decision := Completed\<rparr>)) mo)"

definition record_response_progress ::
  "nat \<Rightarrow> string \<Rightarrow> nat \<Rightarrow> string \<Rightarrow> view_surface list \<Rightarrow> monitor \<Rightarrow> monitor" where
  "record_response_progress now i status pv ss mo =
     mo\<lparr>mo_records := update_first i (unless_terminal (\<lambda>r.
          r\<lparr>rrd_response_status := Some status, rrd_response_spans := spans_from_values (rrd_tokens r) pv,
            rrd_response_preview := Some pv, rrd_response_surfaces := ss, rrd_updated := now\<rparr>)) (mo_records mo)\<rparr>"

definition complete_response ::
  "nat \<Rightarrow> string \<Rightarrow> nat \<Rightarrow> string option \<Rightarrow> view_surface list \<Rightarrow> monitor \<Rightarrow> monitor" where
  "complete_response now i status pv ss mo =
     update_record now i (unless_terminal (\<lambda>r.
       let r = r\<lparr>rrd_response_status := Some status\<rparr>;
           r = (case pv of
                  Some p \<Rightarrow> r\<lparr>rrd_response_spans := spans_from_values (rrd_tokens r) p, rrd_response_preview := Some p,
                              rrd_response_surfaces := ss\<rparr>
                | None \<Rightarrow> r)
       in r\<lparr>rrd_decision := Completed\<rparr>)) mo"

definition record_dispatched :: "nat \<Rightarrow> string \<Rightarrow> monitor \<Rightarrow> monitor" where
  "record_dispatched now i mo =
     update_record now i (\<lambda>r.
       if rrd_decision r = AutoAccepted \<or> rrd_decision r = Approved
       then r\<lparr>rrd_decision := InFlight, rrd_dispatched := Some now\<rparr> else r) mo"

definition record_aborted :: "nat \<Rightarrow> string \<Rightarrow> monitor \<Rightarrow> monitor" where
  "record_aborted now i mo =
     update_record now i (unless_terminal (\<lambda>r.
       r\<lparr>rrd_decision := Aborted, rrd_reason := Some ''client disconnected before response completed''\<rparr>)) mo"

definition record_upstream_error :: "nat \<Rightarrow> string \<Rightarrow> string \<Rightarrow> monitor \<Rightarrow> monitor" where
  "record_upstream_error now i msg mo =
     update_record now i (unless_terminal (\<lambda>r. r\<lparr>rrd_decision := UpstreamError, rrd_reason := Some msg\<rparr>)) mo"

definition update_tags :: "nat \<Rightarrow> string \<Rightarrow> string list \<Rightarrow> monitor \<Rightarrow> request_record option \<times> monitor" where
  "update_tags now i tags mo =
     (let mo = update_record now i (\<lambda>r. r\<lparr>rrd_tags := tags\<rparr>) mo in (find_record i mo, mo))"

text \<open>The mark a decision and a timeout leave on the record.\<close>

definition mark_decided :: "nat \<Rightarrow> string \<Rightarrow> approval \<Rightarrow> monitor \<Rightarrow> monitor" where
  "mark_decided now i d mo =
     update_record now i (\<lambda>r. case d of
         Approve \<Rightarrow> r\<lparr>rrd_decision := Approved\<rparr>
       | Reject reason \<Rightarrow> r\<lparr>rrd_decision := Rejected, rrd_reason := Some reason\<rparr>) mo"

definition mark_timed_out :: "nat \<Rightarrow> string \<Rightarrow> monitor \<Rightarrow> monitor" where
  "mark_timed_out now i mo =
     update_record now i (\<lambda>r. r\<lparr>rrd_decision := TimedOut, rrd_reason := Some ''approval timed out''\<rparr>) mo"

section \<open>Snapshots\<close>

record conversation_meta =
  cv_id :: string
  cv_label :: string
  cv_turns :: nat
  cv_updated :: nat
  cv_pending :: nat

definition meta_step :: "(string \<times> string) list \<Rightarrow> request_record \<Rightarrow> (string \<times> conversation_meta) list \<Rightarrow> (string \<times> conversation_meta) list" where
  "meta_step labels r m =
     (let c = rrd_conversation r;
          old = (case map_of m c of
                   Some x \<Rightarrow> x
                 | None \<Rightarrow> \<lparr>cv_id = c, cv_label = str_or (conversation_label (rrd_endpoint r) c) (map_of labels c),
                            cv_turns = 0, cv_updated = 0, cv_pending = 0\<rparr>);
          turns = (if 0 < rrd_human_turn r then rrd_human_turn r else rrd_turn r)
      in hm_insert c
           (old\<lparr>cv_turns := max (cv_turns old) turns, cv_updated := max (cv_updated old) (rrd_updated r),
                cv_pending := cv_pending old + (if rrd_decision r = Pending then 1 else 0)\<rparr>) m)"

definition conversations_from_records :: "request_record list \<Rightarrow> (string \<times> string) list \<Rightarrow> conversation_meta list" where
  "conversations_from_records rs labels =
     sort_key (\<lambda>x. - int (cv_updated x)) (map snd (fold (meta_step labels) rs []))"

record monitor_snapshot =
  sn_mode :: monitor_mode
  sn_pending :: nat
  sn_max_pending :: nat
  sn_records :: "request_record list"
  sn_conversations :: "conversation_meta list"
  sn_tokens :: "token_entry list"

definition snapshot :: "monitor \<Rightarrow> monitor_snapshot" where
  "snapshot mo =
     \<lparr>sn_mode = mo_mode mo, sn_pending = length (mo_waiters mo), sn_max_pending = mo_max_pending mo,
      sn_records = mo_records mo, sn_conversations = conversations_from_records (mo_records mo) (mo_labels mo),
      sn_tokens = sort_key te_first (map snd (mo_tokens mo))\<rparr>"

section \<open>The guard of a streamed answer\<close>

definition PROGRESS_FLUSH_BYTES :: nat where "PROGRESS_FLUSH_BYTES = 160"

record completion_guard =
  gd_id :: string
  gd_status :: nat
  gd_armed :: bool
  gd_tokens :: "token_preview list"
  gd_redactions :: "(string \<times> string) list"
  gd_capture :: response_capture
  gd_flushed :: nat

definition guard_new :: "string \<Rightarrow> nat \<Rightarrow> unmask_manifest \<Rightarrow> monitor \<Rightarrow> completion_guard" where
  "guard_new i status mf mo =
     \<lparr>gd_id = i, gd_status = status, gd_armed = True, gd_tokens = token_previews mf,
      gd_redactions = longest_first (redaction_pairs mf @ mo_local mo), gd_capture = capture_new, gd_flushed = 0\<rparr>"

definition persist_partial :: "prims \<Rightarrow> view_api \<Rightarrow> nat \<Rightarrow> completion_guard \<Rightarrow> monitor \<Rightarrow> monitor" where
  "persist_partial P A now g mo =
     (if cap_is_empty (gd_capture g) then mo
      else let (pv, ss) = cap_render P A (gd_tokens g) (gd_capture g)
        in record_response_progress now (gd_id g) (gd_status g) pv ss mo)"

definition guard_capture ::
  "prims \<Rightarrow> view_api \<Rightarrow> nat \<Rightarrow> string \<Rightarrow> cap_kind \<Rightarrow> string \<Rightarrow> string \<Rightarrow> completion_guard \<Rightarrow> monitor \<Rightarrow> completion_guard \<times> monitor" where
  "guard_capture P A now key knd label text g mo =
     (if \<not> gd_armed g then (g, mo)
      else let g = g\<lparr>gd_capture := cap_push key knd label (redact_secret_values text (gd_redactions g)) (gd_capture g)\<rparr>
        in if PROGRESS_FLUSH_BYTES \<le> rcp_total (gd_capture g) - gd_flushed g \<and> \<not> cap_is_empty (gd_capture g)
           then (g\<lparr>gd_flushed := rcp_total (gd_capture g)\<rparr>, persist_partial P A now g mo)
           else (g, mo))"

definition guard_start_tool :: "string \<Rightarrow> string \<Rightarrow> completion_guard \<Rightarrow> completion_guard" where
  "guard_start_tool key name g =
     (if \<not> gd_armed g then g else g\<lparr>gd_capture := cap_start_tool key name (gd_capture g)\<rparr>)"

definition guard_complete :: "prims \<Rightarrow> view_api \<Rightarrow> nat \<Rightarrow> completion_guard \<Rightarrow> monitor \<Rightarrow> completion_guard \<times> monitor" where
  "guard_complete P A now g mo =
     (if \<not> gd_armed g then (g, mo)
      else let (pv, ss) = cap_render P A (gd_tokens g) (gd_capture g)
        in (g\<lparr>gd_armed := False\<rparr>,
            complete_response now (gd_id g) (gd_status g) (if cap_is_empty (gd_capture g) then None else Some pv) ss mo))"

definition guard_upstream_error ::
  "prims \<Rightarrow> view_api \<Rightarrow> nat \<Rightarrow> string \<Rightarrow> completion_guard \<Rightarrow> monitor \<Rightarrow> completion_guard \<times> monitor" where
  "guard_upstream_error P A now msg g mo =
     (if \<not> gd_armed g then (g, mo)
      else (g\<lparr>gd_armed := False\<rparr>, record_upstream_error now (gd_id g) msg (persist_partial P A now g mo)))"

definition guard_drop :: "prims \<Rightarrow> view_api \<Rightarrow> nat \<Rightarrow> completion_guard \<Rightarrow> monitor \<Rightarrow> monitor" where
  "guard_drop P A now g mo =
     (if gd_armed g then record_aborted now (gd_id g) (persist_partial P A now g mo) else mo)"

end
