(* ===== verification/Monitor_Hold.thy ===== *)
theory Monitor_Hold
  imports Monitor_Store
begin

text \<open>
  The hold of a request for the operator's verdict, as the tasks of the proxy interleave: the handlers of held
  requests (\<open>wait_for_approval\<close>, \<open>maybe_approve\<close>), the operator's handlers (\<open>decide\<close>) and the timers. Each
  step is one section under the monitor's mutex or one operation of the one-shot channel between them; the
  state is the monitor, the channel of every held request, the operations under way and what was answered.
\<close>

section \<open>State\<close>

text \<open>The channel of a held request: no channel, waiting, a decision sent, or the receiver gone.\<close>

datatype chan = NoChan | Waiting | Sent approval | Closed

record msys =
  sy_mo :: monitor
  sy_chan :: "string \<Rightarrow> chan"
  sy_taken :: "(string \<times> approval) list"
  sy_sent :: "(string \<times> approval) list"
  sy_expired :: "string list"
  sy_verdict :: "string \<Rightarrow> approval option"
  sy_released :: "string list"
  sy_log :: "(string \<times> approval) list"
  sy_peak :: nat

definition msys_new :: "monitor \<Rightarrow> msys" where
  "msys_new mo =
     \<lparr>sy_mo = mo, sy_chan = (\<lambda>_. NoChan), sy_taken = [], sy_sent = [], sy_expired = [], sy_verdict = (\<lambda>_. None),
      sy_released = [], sy_log = [], sy_peak = mo_max_pending mo\<rparr>"

section \<open>Steps\<close>

text \<open>A request that is not held has its verdict at once.\<close>

definition arrive :: "prims \<Rightarrow> view_api \<Rightarrow> nat \<Rightarrow> llm_input \<Rightarrow> msys \<Rightarrow> msys" where
  "arrive P A now inp s =
     (let (tk, mo) = record_llm_request P A now inp (sy_mo s)
      in case tk_state tk of
           Held \<Rightarrow> s\<lparr>sy_mo := mo, sy_chan := (sy_chan s)(tk_id tk := Waiting)\<rparr>
         | Refused m \<Rightarrow> s\<lparr>sy_mo := mo, sy_verdict := (sy_verdict s)(tk_id tk \<mapsto> Reject m)\<rparr>
         | Free \<Rightarrow> s\<lparr>sy_mo := mo, sy_verdict := (sy_verdict s)(tk_id tk \<mapsto> Approve)\<rparr>)"

text \<open>\<open>decide\<close>: take the waiter, send the decision, mark the record. Without a waiter it answers Unknown.\<close>

definition decide_take :: "string \<Rightarrow> approval \<Rightarrow> msys \<Rightarrow> msys option" where
  "decide_take i d s =
     (if i \<in> set (mo_waiters (sy_mo s)) then
        Some (s\<lparr>sy_mo := (sy_mo s)\<lparr>mo_waiters := removeAll i (mo_waiters (sy_mo s))\<rparr>,
                sy_taken := (i, d) # sy_taken s, sy_log := (i, d) # sy_log s\<rparr>)
      else None)"

definition decide_send :: "string \<Rightarrow> approval \<Rightarrow> msys \<Rightarrow> msys option" where
  "decide_send i d s =
     (if (i, d) \<in> set (sy_taken s) then
        Some (s\<lparr>sy_taken := remove1 (i, d) (sy_taken s), sy_sent := (i, d) # sy_sent s,
                sy_chan := (if sy_chan s i = Waiting then (sy_chan s)(i := Sent d) else sy_chan s)\<rparr>)
      else None)"

text \<open>The record is answered with, or Unknown when the ring has dropped it.\<close>

definition decide_mark :: "nat \<Rightarrow> string \<Rightarrow> approval \<Rightarrow> msys \<Rightarrow> (request_record option \<times> msys) option" where
  "decide_mark now i d s =
     (if (i, d) \<in> set (sy_sent s) then
        (let mo = mark_decided now i d (sy_mo s)
         in Some (find_record i mo, s\<lparr>sy_mo := mo, sy_sent := remove1 (i, d) (sy_sent s)\<rparr>))
      else None)"

text \<open>\<open>wait_for_approval\<close> of a held request: a decision that came through, or the timeout.\<close>

definition wait_answer :: "string \<Rightarrow> msys \<Rightarrow> msys option" where
  "wait_answer i s =
     (case sy_chan s i of
        Sent d \<Rightarrow> Some (s\<lparr>sy_chan := (sy_chan s)(i := Closed), sy_verdict := (sy_verdict s)(i \<mapsto> d)\<rparr>)
      | _ \<Rightarrow> None)"

definition wait_expire :: "string \<Rightarrow> msys \<Rightarrow> msys option" where
  "wait_expire i s =
     (if sy_chan s i = Waiting then
        Some (s\<lparr>sy_mo := (sy_mo s)\<lparr>mo_waiters := removeAll i (mo_waiters (sy_mo s))\<rparr>,
                sy_chan := (sy_chan s)(i := Closed), sy_expired := i # sy_expired s\<rparr>)
      else None)"

definition wait_expire_mark :: "nat \<Rightarrow> string \<Rightarrow> msys \<Rightarrow> msys option" where
  "wait_expire_mark now i s =
     (if i \<in> set (sy_expired s) then
        Some (s\<lparr>sy_mo := mark_timed_out now i (sy_mo s), sy_expired := removeAll i (sy_expired s),
                sy_verdict := (sy_verdict s)(i \<mapsto> Reject ''approval timed out'')\<rparr>)
      else None)"

text \<open>The client of a held request disconnects: the handler is dropped, with it the receiver and the timer.\<close>

definition wait_vanish :: "string \<Rightarrow> msys \<Rightarrow> msys option" where
  "wait_vanish i s =
     (case sy_chan s i of
        Waiting \<Rightarrow> Some (s\<lparr>sy_chan := (sy_chan s)(i := Closed)\<rparr>)
      | Sent d \<Rightarrow> Some (s\<lparr>sy_chan := (sy_chan s)(i := Closed)\<rparr>)
      | _ \<Rightarrow> None)"

text \<open>The handler goes on only past an approving verdict (\<open>maybe_approve\<close>), and then records the dispatch.\<close>

definition maybe_approve :: "string \<Rightarrow> nat \<Rightarrow> msys \<Rightarrow> msys option" where
  "maybe_approve i now s =
     (if sy_verdict s i = Some Approve then
        Some (s\<lparr>sy_mo := record_dispatched now i (sy_mo s), sy_released := i # sy_released s\<rparr>)
      else None)"

datatype label =
    Arrive nat llm_input
  | Take string approval
  | Send string approval
  | Mark nat string approval
  | Answer string
  | Expire string
  | ExpireMark nat string
  | Vanish string
  | Dispatch nat string
  | Mode monitor_mode "nat option"
  | Abort nat string
  | Fail nat string string
  | Respond nat string nat "string option" unmask_manifest
  | Tag nat string "string list"

text \<open>A reject without a reason gets the standing one (\<open>reject\<close>).\<close>

definition reject_reason :: "string \<Rightarrow> string" where
  "reject_reason r = (if trim r = [] then ''rejected by monitor'' else r)"

definition msys_step :: "prims \<Rightarrow> view_api \<Rightarrow> label \<Rightarrow> msys \<Rightarrow> msys option" where
  "msys_step P A l s =
     (case l of
        Arrive now inp \<Rightarrow> Some (arrive P A now inp s)
      | Take i d \<Rightarrow> decide_take i (case d of Approve \<Rightarrow> Approve | Reject r \<Rightarrow> Reject (reject_reason r)) s
      | Send i d \<Rightarrow> decide_send i d s
      | Mark now i d \<Rightarrow> map_option snd (decide_mark now i d s)
      | Answer i \<Rightarrow> wait_answer i s
      | Expire i \<Rightarrow> wait_expire i s
      | ExpireMark now i \<Rightarrow> wait_expire_mark now i s
      | Vanish i \<Rightarrow> wait_vanish i s
      | Dispatch now i \<Rightarrow> maybe_approve i now s
      | Mode m cap \<Rightarrow>
          (let mo = set_mode m cap (sy_mo s)
           in Some (s\<lparr>sy_mo := mo, sy_peak := max (sy_peak s) (mo_max_pending mo)\<rparr>))
      | Abort now i \<Rightarrow> Some (s\<lparr>sy_mo := record_aborted now i (sy_mo s)\<rparr>)
      | Fail now i m \<Rightarrow> Some (s\<lparr>sy_mo := record_upstream_error now i m (sy_mo s)\<rparr>)
      | Respond now i st b mf \<Rightarrow> Some (s\<lparr>sy_mo := record_response P A now i st b mf (sy_mo s)\<rparr>)
      | Tag now i ts \<Rightarrow> Some (s\<lparr>sy_mo := snd (update_tags now i ts (sy_mo s))\<rparr>))"

text \<open>The states that a monitor reaches, whatever order its tasks run in.\<close>

inductive msys_reach :: "prims \<Rightarrow> view_api \<Rightarrow> msys \<Rightarrow> bool" for P A where
  init: "mo_waiters mo = [] \<Longrightarrow> msys_reach P A (msys_new mo)"
| step: "msys_reach P A s \<Longrightarrow> msys_step P A l s = Some t \<Longrightarrow> msys_reach P A t"

inductive_cases msys_reachE: "msys_reach P A s"

fun msys_run :: "prims \<Rightarrow> view_api \<Rightarrow> label list \<Rightarrow> msys \<Rightarrow> msys option" where
  "msys_run P A [] s = Some s"
| "msys_run P A (l # ls) s = (case msys_step P A l s of Some t \<Rightarrow> msys_run P A ls t | None \<Rightarrow> None)"

lemma msys_run_reach: "msys_reach P A s \<Longrightarrow> msys_run P A ls s = Some t \<Longrightarrow> msys_reach P A t"
  by (induction ls arbitrary: s) (auto split: option.splits intro: msys_reach.step)

end
