(* ===== verification/Monitor_Hold_Laws.thy ===== *)
theory Monitor_Hold_Laws
  imports Monitor_Hold Broker_Resolve
begin

text \<open>
  What the hold promises: a held request leaves only with the operator's approval, given once; the requests that
  wait never outnumber the limit; and what happens when the client of a held request goes away.
\<close>

section \<open>What recording a request does to the waiters\<close>

lemma evict_stale_frame [simp]:
  "mo_waiters (evict_stale mo) = mo_waiters mo" "mo_max_pending (evict_stale mo) = mo_max_pending mo"
  "mo_next_seq (evict_stale mo) = mo_next_seq mo" "mo_mode (evict_stale mo) = mo_mode mo"
  "mo_records (evict_stale mo) = mo_records mo" "mo_tokens (evict_stale mo) = mo_tokens mo"
  "mo_local (evict_stale mo) = mo_local mo"
proof -
  have "mo_waiters (evict_stale mo) = mo_waiters mo \<and> mo_max_pending (evict_stale mo) = mo_max_pending mo
    \<and> mo_next_seq (evict_stale mo) = mo_next_seq mo \<and> mo_mode (evict_stale mo) = mo_mode mo
    \<and> mo_records (evict_stale mo) = mo_records mo \<and> mo_tokens (evict_stale mo) = mo_tokens mo
    \<and> mo_local (evict_stale mo) = mo_local mo"
  proof (induction mo rule: evict_stale.induct)
    case (1 mo)
    then show ?case by (subst (1 2 3 4 5 6 7) evict_stale.simps) (auto simp: drop_conversation_def split: option.split)
  qed
  then show "mo_waiters (evict_stale mo) = mo_waiters mo" "mo_max_pending (evict_stale mo) = mo_max_pending mo"
    "mo_next_seq (evict_stale mo) = mo_next_seq mo" "mo_mode (evict_stale mo) = mo_mode mo"
    "mo_records (evict_stale mo) = mo_records mo" "mo_tokens (evict_stale mo) = mo_tokens mo"
    "mo_local (evict_stale mo) = mo_local mo" by simp_all
qed

lemma conversation_of_frame:
  "conversation_of P A inp sq mo = (c, mo') \<Longrightarrow> \<exists>an. mo' = mo\<lparr>mo_anchors := an\<rparr>"
  by (cases "resolve_content_conversation P sq (mo_anchors mo)")
    (auto simp: conversation_of_def split: option.splits if_splits intro: exI [of _ "mo_anchors mo"])

definition request_id :: "nat \<Rightarrow> string" where
  "request_id n = ''req-'' @ show_nat n"

lemma show_nat_inject: "show_nat m = show_nat n \<longleftrightarrow> m = n"
  by (metis show_nat_value)

lemma request_id_inject [simp]: "request_id m = request_id n \<longleftrightarrow> m = n"
  by (simp add: request_id_def show_nat_inject)

text \<open>The effect of recording a request on what the hold depends on.\<close>

lemma record_llm_request_hold:
  fixes P A now inp mo
  defines "i \<equiv> request_id (mo_next_seq mo)" and "R \<equiv> record_llm_request P A now inp mo"
  shows "tk_id (fst R) = i" "mo_next_seq (snd R) = mo_next_seq mo + 1" "mo_max_pending (snd R) = mo_max_pending mo"
    "mo_mode (snd R) = mo_mode mo"
    "tk_state (fst R) = Held \<longleftrightarrow> should_hold inp mo \<and> length (mo_waiters mo) < mo_max_pending mo"
    "tk_state (fst R) = Free \<longleftrightarrow> \<not> should_hold inp mo"
    "mo_waiters (snd R) = (if tk_state (fst R) = Held then i # mo_waiters mo else mo_waiters mo)"
proof -
  have sh: "should_hold inp (m\<lparr>mo_anchors := x\<rparr>) = should_hold inp m" "should_hold inp (m\<lparr>mo_next_seq := n\<rparr>) = should_hold inp m"
    "should_hold inp (m\<lparr>mo_tokens := y\<rparr>) = should_hold inp m" for m x n y
    by (simp_all add: should_hold_def split: monitor_mode.split)
  have "tk_id (fst R) = i \<and> mo_next_seq (snd R) = mo_next_seq mo + 1 \<and> mo_max_pending (snd R) = mo_max_pending mo
    \<and> mo_mode (snd R) = mo_mode mo
    \<and> (tk_state (fst R) = Held \<longleftrightarrow> should_hold inp mo \<and> length (mo_waiters mo) < mo_max_pending mo)
    \<and> (tk_state (fst R) = Free \<longleftrightarrow> \<not> should_hold inp mo)
    \<and> mo_waiters (snd R) = (if tk_state (fst R) = Held then i # mo_waiters mo else mo_waiters mo)"
    unfolding R_def record_llm_request_def ingest_tokens_into_def
    by (auto simp: Let_def i_def request_id_def human_turn_def stamp_conversation_def hold_step_def sh
      split: prod.splits dest!: conversation_of_frame)
  then show "tk_id (fst R) = i" "mo_next_seq (snd R) = mo_next_seq mo + 1" "mo_max_pending (snd R) = mo_max_pending mo"
    "mo_mode (snd R) = mo_mode mo"
    "tk_state (fst R) = Held \<longleftrightarrow> should_hold inp mo \<and> length (mo_waiters mo) < mo_max_pending mo"
    "tk_state (fst R) = Free \<longleftrightarrow> \<not> should_hold inp mo"
    "mo_waiters (snd R) = (if tk_state (fst R) = Held then i # mo_waiters mo else mo_waiters mo)" by blast+
qed

lemma update_record_frame [simp]:
  "mo_waiters (update_record now i f mo) = mo_waiters mo" "mo_max_pending (update_record now i f mo) = mo_max_pending mo"
  "mo_next_seq (update_record now i f mo) = mo_next_seq mo"
  by (simp_all add: update_record_def)

lemmas record_ops = mark_decided_def mark_timed_out_def record_dispatched_def record_aborted_def record_upstream_error_def
  record_response_def update_tags_def set_mode_def

section \<open>The invariant of the hold\<close>

text \<open>The requests that arrived: their ids run below the counter.\<close>

definition known :: "msys \<Rightarrow> string \<Rightarrow> bool" where
  "known s i \<longleftrightarrow> (\<exists>n<mo_next_seq (sy_mo s). i = request_id n)"

definition hold_inv :: "msys \<Rightarrow> bool" where
  "hold_inv s \<longleftrightarrow>
     (\<forall>i. sy_chan s i \<noteq> NoChan \<or> sy_verdict s i \<noteq> None \<longrightarrow> known s i)
     \<and> (\<forall>i\<in>set (mo_waiters (sy_mo s)). (sy_chan s i = Waiting \<or> sy_chan s i = Closed) \<and> i \<notin> fst ` set (sy_log s))
     \<and> distinct (mo_waiters (sy_mo s)) \<and> distinct (map fst (sy_log s))
     \<and> set (sy_taken s) \<subseteq> set (sy_log s)
     \<and> (\<forall>x\<in>set (sy_log s). sy_chan s (fst x) \<noteq> NoChan)
     \<and> (\<forall>i d. sy_chan s i = Sent d \<longrightarrow> (i, d) \<in> set (sy_log s))
     \<and> (\<forall>i. sy_chan s i = Waiting \<or> (\<exists>d. sy_chan s i = Sent d) \<longrightarrow> sy_verdict s i = None)
     \<and> (\<forall>i\<in>set (sy_expired s). sy_chan s i = Closed \<and> sy_verdict s i = None)
     \<and> (\<forall>i. sy_chan s i \<noteq> NoChan \<longrightarrow> sy_verdict s i = Some Approve \<longrightarrow> (i, Approve) \<in> set (sy_log s))
     \<and> (\<forall>i\<in>set (sy_released s). sy_verdict s i = Some Approve)
     \<and> length (mo_waiters (sy_mo s)) \<le> sy_peak s \<and> mo_max_pending (sy_mo s) \<le> sy_peak s"

lemma hold_inv_waiter_chan: "hold_inv s \<Longrightarrow> i \<in> set (mo_waiters (sy_mo s)) \<Longrightarrow> sy_chan s i = Waiting \<or> sy_chan s i = Closed"
  unfolding hold_inv_def by simp

lemma hold_inv_waiter_log: "hold_inv s \<Longrightarrow> i \<in> set (mo_waiters (sy_mo s)) \<Longrightarrow> i \<notin> fst ` set (sy_log s)"
  unfolding hold_inv_def by simp

lemma hold_inv_taken: "hold_inv s \<Longrightarrow> x \<in> set (sy_taken s) \<Longrightarrow> x \<in> set (sy_log s)"
  unfolding hold_inv_def by (cases x) (simp add: subset_iff)

lemma hold_inv_log: "hold_inv s \<Longrightarrow> x \<in> set (sy_log s) \<Longrightarrow> sy_chan s (fst x) \<noteq> NoChan"
  unfolding hold_inv_def by simp

lemma hold_inv_sent: "hold_inv s \<Longrightarrow> sy_chan s i = Sent d \<Longrightarrow> (i, d) \<in> set (sy_log s)"
  unfolding hold_inv_def by simp

lemma hold_inv_open: "hold_inv s \<Longrightarrow> sy_chan s i = Waiting \<or> (\<exists>d. sy_chan s i = Sent d) \<Longrightarrow> sy_verdict s i = None"
  by (erule disjE) (simp_all add: hold_inv_def)

lemma hold_inv_expired: "hold_inv s \<Longrightarrow> i \<in> set (sy_expired s) \<Longrightarrow> sy_chan s i = Closed \<and> sy_verdict s i = None"
  unfolding hold_inv_def by simp

lemma hold_inv_known: "hold_inv s \<Longrightarrow> sy_chan s i \<noteq> NoChan \<or> sy_verdict s i \<noteq> None \<Longrightarrow> known s i"
  unfolding hold_inv_def by simp

lemma hold_inv_approved: "hold_inv s \<Longrightarrow> sy_chan s i \<noteq> NoChan \<Longrightarrow> sy_verdict s i = Some Approve \<Longrightarrow> (i, Approve) \<in> set (sy_log s)"
  unfolding hold_inv_def by simp

lemma hold_inv_released: "hold_inv s \<Longrightarrow> i \<in> set (sy_released s) \<Longrightarrow> sy_verdict s i = Some Approve"
  unfolding hold_inv_def by simp

lemma hold_inv_peak: "hold_inv s \<Longrightarrow> length (mo_waiters (sy_mo s)) \<le> sy_peak s"
  unfolding hold_inv_def by simp

lemma hold_inv_distinct: "hold_inv s \<Longrightarrow> distinct (map fst (sy_log s))"
  unfolding hold_inv_def by simp

lemma hold_inv_new: "mo_waiters mo = [] \<Longrightarrow> hold_inv (msys_new mo)"
  by (simp add: hold_inv_def msys_new_def)

lemma known_fresh: "\<not> known s (request_id (mo_next_seq (sy_mo s)))"
  by (simp add: known_def)

lemma hold_inv_arrive:
  assumes I: "hold_inv s"
  shows "hold_inv (arrive P A now inp s)"
proof -
  let ?R = "record_llm_request P A now inp (sy_mo s)"
  let ?i = "request_id (mo_next_seq (sy_mo s))"
  note R = record_llm_request_hold [of P A now inp "sy_mo s"]
  have f: "sy_chan s ?i = NoChan" "sy_verdict s ?i = None" using I known_fresh [of s] unfolding hold_inv_def by blast+
  have k: "known (s\<lparr>sy_mo := snd ?R, sy_chan := c, sy_verdict := v\<rparr>) j = (known s j \<or> j = ?i)" for c v j
    by (auto simp: known_def R less_Suc_eq)
  have fw: "?i \<notin> set (mo_waiters (sy_mo s))" "?i \<notin> set (sy_released s)" "?i \<notin> set (sy_expired s)" "?i \<notin> fst ` set (sy_log s)"
    using I f unfolding hold_inv_def by fastforce+
  obtain tk mo where e: "?R = (tk, mo)" by (cases ?R)
  show ?thesis
  proof (cases "tk_state tk")
    case Held
    then have a: "arrive P A now inp s = s\<lparr>sy_mo := mo, sy_chan := (sy_chan s)(?i := Waiting), sy_verdict := sy_verdict s\<rparr>"
      using R(1) e by (simp add: arrive_def)
    have "length (mo_waiters (sy_mo s)) < mo_max_pending (sy_mo s)" using R(5) Held e by simp
    with I show ?thesis unfolding a hold_inv_def using k [where c = "(sy_chan s)(?i := Waiting)" and v = "sy_verdict s"] R(2,3,7) Held e f fw
      by (auto simp: image_iff)
  next
    case Free
    then have a: "arrive P A now inp s = s\<lparr>sy_mo := mo, sy_chan := sy_chan s, sy_verdict := (sy_verdict s)(?i \<mapsto> Approve)\<rparr>"
      using R(1) e by (simp add: arrive_def)
    from I show ?thesis unfolding a hold_inv_def using k [where c = "sy_chan s" and v = "(sy_verdict s)(?i \<mapsto> Approve)"] R(2,3,7) Free e f fw
      by (auto simp: image_iff)
  next
    case (Refused m)
    then have a: "arrive P A now inp s = s\<lparr>sy_mo := mo, sy_chan := sy_chan s, sy_verdict := (sy_verdict s)(?i \<mapsto> Reject m)\<rparr>"
      using R(1) e by (simp add: arrive_def)
    from I show ?thesis unfolding a hold_inv_def using k [where c = "sy_chan s" and v = "(sy_verdict s)(?i \<mapsto> Reject m)"] R(2,3,7) Refused e f fw
      by (auto simp: image_iff)
  qed
qed

text \<open>The steps of a decision, of a waiting handler and of everything that only edits a record.\<close>

lemma hold_inv_take:
  assumes I: "hold_inv s" and t: "decide_take i d s = Some t"
  shows "hold_inv t"
proof -
  have i: "i \<in> set (mo_waiters (sy_mo s))" and e: "t = s\<lparr>sy_mo := (sy_mo s)\<lparr>mo_waiters := removeAll i (mo_waiters (sy_mo s))\<rparr>,
      sy_taken := (i, d) # sy_taken s, sy_log := (i, d) # sy_log s\<rparr>"
    using t by (auto simp: decide_take_def split: if_splits)
  have k: "known t = known s" by (rule ext) (simp add: e known_def)
  have c: "sy_chan s i \<noteq> NoChan" "i \<notin> fst ` set (sy_log s)" using hold_inv_waiter_chan [OF I i] hold_inv_waiter_log [OF I i] by auto
  have l: "length (removeAll i (mo_waiters (sy_mo s))) \<le> sy_peak s"
    using I le_trans [OF length_removeAll_less_eq [of i "mo_waiters (sy_mo s)"]] unfolding hold_inv_def by blast
  show ?thesis using I c l unfolding hold_inv_def k by (auto simp: e distinct_removeAll)
qed

lemma hold_inv_send:
  assumes I: "hold_inv s" and t: "decide_send i d s = Some t"
  shows "hold_inv t"
proof -
  have i: "(i, d) \<in> set (sy_taken s)" and e: "t = s\<lparr>sy_taken := remove1 (i, d) (sy_taken s), sy_sent := (i, d) # sy_sent s,
      sy_chan := (if sy_chan s i = Waiting then (sy_chan s)(i := Sent d) else sy_chan s)\<rparr>"
    using t by (auto simp: decide_send_def split: if_splits)
  have k: "known t = known s" by (rule ext) (simp add: e known_def)
  have w: "(i, d) \<in> set (sy_log s)" "i \<notin> set (mo_waiters (sy_mo s))" "sy_chan s i = Waiting \<Longrightarrow> i \<notin> set (sy_expired s)"
    using hold_inv_taken [OF I i] hold_inv_waiter_log [OF I, of i] hold_inv_expired [OF I, of i] by force+
  have r: "set (remove1 (i, d) (sy_taken s)) \<subseteq> set (sy_log s)"
    using hold_inv_taken [OF I] set_remove1_subset [of "(i, d)" "sy_taken s"] by blast
  show ?thesis
  proof (cases "sy_chan s i = Waiting")
    case True
    with w(3) have "i \<notin> set (sy_expired s)" by simp
    with I w(1,2) r True hold_inv_open [OF I, of i] hold_inv_known [OF I, of i] show ?thesis unfolding hold_inv_def k by (auto simp: e)
  next
    case False
    with I r show ?thesis unfolding hold_inv_def k by (simp add: e)
  qed
qed

lemma hold_inv_records:
  assumes I: "hold_inv s" and "mo_waiters mo = mo_waiters (sy_mo s)" "mo_max_pending mo = mo_max_pending (sy_mo s)"
    "mo_next_seq mo = mo_next_seq (sy_mo s)"
  shows "hold_inv (s\<lparr>sy_mo := mo\<rparr>)" "hold_inv (s\<lparr>sy_mo := mo, sy_sent := x\<rparr>)"
  using I assms(2,3,4) unfolding hold_inv_def by (simp_all add: known_def)

lemma hold_inv_answer:
  assumes I: "hold_inv s" and t: "wait_answer i s = Some t"
  shows "hold_inv t"
proof -
  obtain d where i: "sy_chan s i = Sent d" and e: "t = s\<lparr>sy_chan := (sy_chan s)(i := Closed), sy_verdict := (sy_verdict s)(i \<mapsto> d)\<rparr>"
    using t by (auto simp: wait_answer_def split: chan.splits)
  have k: "known t = known s" by (rule ext) (simp add: e known_def)
  have w: "(i, d) \<in> set (sy_log s)" "sy_verdict s i = None" "i \<notin> set (sy_expired s)" "known s i"
    using I i unfolding hold_inv_def by force+
  show ?thesis using I w unfolding hold_inv_def k by (auto simp: e)
qed

lemma hold_inv_expire:
  assumes I: "hold_inv s" and t: "wait_expire i s = Some t"
  shows "hold_inv t"
proof -
  have i: "sy_chan s i = Waiting" and e: "t = s\<lparr>sy_mo := (sy_mo s)\<lparr>mo_waiters := removeAll i (mo_waiters (sy_mo s))\<rparr>,
      sy_chan := (sy_chan s)(i := Closed), sy_expired := i # sy_expired s\<rparr>"
    using t by (auto simp: wait_expire_def split: if_splits)
  have k: "known t = known s" by (rule ext) (simp add: e known_def)
  have w: "sy_verdict s i = None" "known s i" using I i unfolding hold_inv_def by force+
  have l: "length (removeAll i (mo_waiters (sy_mo s))) \<le> sy_peak s"
    using I le_trans [OF length_removeAll_less_eq [of i "mo_waiters (sy_mo s)"]] unfolding hold_inv_def by blast
  show ?thesis using I w l unfolding hold_inv_def k by (auto simp: e distinct_removeAll)
qed

lemma hold_inv_expire_mark:
  assumes I: "hold_inv s" and t: "wait_expire_mark now i s = Some t"
  shows "hold_inv t"
proof -
  have i: "i \<in> set (sy_expired s)" and e: "t = s\<lparr>sy_mo := mark_timed_out now i (sy_mo s), sy_expired := removeAll i (sy_expired s),
      sy_verdict := (sy_verdict s)(i \<mapsto> Reject ''approval timed out'')\<rparr>"
    using t by (auto simp: wait_expire_mark_def split: if_splits)
  have k: "known t = known s" by (rule ext) (simp add: e known_def mark_timed_out_def)
  have w: "sy_chan s i = Closed" "sy_verdict s i = None" "known s i" using I i unfolding hold_inv_def by force+
  show ?thesis using I w unfolding hold_inv_def k by (auto simp: e mark_timed_out_def)
qed

lemma hold_inv_vanish:
  assumes I: "hold_inv s" and t: "wait_vanish i s = Some t"
  shows "hold_inv t"
proof -
  have i: "sy_chan s i = Waiting \<or> (\<exists>d. sy_chan s i = Sent d)" and e: "t = s\<lparr>sy_chan := (sy_chan s)(i := Closed)\<rparr>"
    using t by (auto simp: wait_vanish_def split: chan.splits)
  have k: "known t = known s" by (rule ext) (simp add: e known_def)
  have w: "sy_verdict s i = None" "known s i" using I i unfolding hold_inv_def by force+
  show ?thesis using I w unfolding hold_inv_def k by (auto simp: e)
qed

lemma hold_inv_dispatch:
  assumes I: "hold_inv s" and t: "maybe_approve i now s = Some t"
  shows "hold_inv t"
proof -
  have i: "sy_verdict s i = Some Approve" and e: "t = s\<lparr>sy_mo := record_dispatched now i (sy_mo s), sy_released := i # sy_released s\<rparr>"
    using t by (auto simp: maybe_approve_def split: if_splits)
  have k: "known t = known s" by (rule ext) (simp add: e known_def record_dispatched_def)
  show ?thesis using I i unfolding hold_inv_def k by (auto simp: e record_dispatched_def)
qed

lemma hold_inv_step:
  assumes I: "hold_inv s" and t: "msys_step P A l s = Some t"
  shows "hold_inv t"
proof (cases l)
  case (Arrive now inp)
  with t hold_inv_arrive [OF I] show ?thesis by (auto simp: msys_step_def)
next
  case (Take i d)
  with t hold_inv_take [OF I] show ?thesis by (simp add: msys_step_def)
next
  case (Send i d)
  with t hold_inv_send [OF I] show ?thesis by (simp add: msys_step_def)
next
  case (Mark now i d)
  with t hold_inv_records(2) [OF I] show ?thesis
    by (auto simp: msys_step_def decide_mark_def Let_def mark_decided_def split: if_splits)
next
  case (Answer i)
  with t hold_inv_answer [OF I] show ?thesis by (simp add: msys_step_def)
next
  case (Expire i)
  with t hold_inv_expire [OF I] show ?thesis by (simp add: msys_step_def)
next
  case (ExpireMark now i)
  with t hold_inv_expire_mark [OF I] show ?thesis by (simp add: msys_step_def)
next
  case (Vanish i)
  with t hold_inv_vanish [OF I] show ?thesis by (simp add: msys_step_def)
next
  case (Dispatch now i)
  with t hold_inv_dispatch [OF I] show ?thesis by (simp add: msys_step_def)
next
  case (Mode m cap)
  with t have e: "t = s\<lparr>sy_mo := set_mode m cap (sy_mo s), sy_peak := max (sy_peak s) (mo_max_pending (set_mode m cap (sy_mo s)))\<rparr>"
    by (simp add: msys_step_def Let_def)
  have k: "known t = known s" by (rule ext) (simp add: e known_def set_mode_def)
  show ?thesis using I unfolding hold_inv_def k by (simp add: e set_mode_def le_max_iff_disj)
next
  case (Abort now i)
  with t have "t = s\<lparr>sy_mo := record_aborted now i (sy_mo s)\<rparr>" by (simp add: msys_step_def)
  with hold_inv_records(1) [OF I, of "record_aborted now i (sy_mo s)"] show ?thesis by (simp add: record_aborted_def)
next
  case (Fail now i m)
  with t have "t = s\<lparr>sy_mo := record_upstream_error now i m (sy_mo s)\<rparr>" by (simp add: msys_step_def)
  with hold_inv_records(1) [OF I, of "record_upstream_error now i m (sy_mo s)"] show ?thesis by (simp add: record_upstream_error_def)
next
  case (Respond now i st b mf)
  with t have "t = s\<lparr>sy_mo := record_response P A now i st b mf (sy_mo s)\<rparr>" by (simp add: msys_step_def)
  with hold_inv_records(1) [OF I, of "record_response P A now i st b mf (sy_mo s)"] show ?thesis by (simp add: record_response_def Let_def)
next
  case (Tag now i ts)
  with t have "t = s\<lparr>sy_mo := snd (update_tags now i ts (sy_mo s))\<rparr>" by (simp add: msys_step_def)
  with hold_inv_records(1) [OF I, of "snd (update_tags now i ts (sy_mo s))"] show ?thesis by (simp add: update_tags_def Let_def)
qed

lemma hold_inv_reach: "msys_reach P A s \<Longrightarrow> hold_inv s"
  by (induction rule: msys_reach.induct) (auto intro: hold_inv_new hold_inv_step)

section \<open>Nothing held leaves without approval\<close>

text \<open>Once a request has a channel it keeps one; without a channel its first verdict stands.\<close>

definition settled :: "string \<Rightarrow> msys \<Rightarrow> bool" where
  "settled i s \<longleftrightarrow> sy_chan s i \<noteq> NoChan \<or> (\<exists>m. sy_verdict s i = Some (Reject m))"

lemma settled_step:
  assumes I: "hold_inv s" and i: "settled i s" and t: "msys_step P A l s = Some t"
  shows "settled i t"
proof -
  have k: "known s i" using hold_inv_known [OF I] i by (force simp: settled_def)
  then have f: "i \<noteq> request_id (mo_next_seq (sy_mo s))" using known_fresh by blast
  show ?thesis
  proof (cases l)
    case (Arrive now inp)
    have "tk_id (fst (record_llm_request P A now inp (sy_mo s))) = request_id (mo_next_seq (sy_mo s))"
      by (rule record_llm_request_hold(1))
    with Arrive t i f show ?thesis
      by (auto simp: msys_step_def arrive_def settled_def split: prod.splits ticket_state.splits)
  next
    case (Answer j)
    with t i show ?thesis by (auto simp: msys_step_def wait_answer_def settled_def split: chan.splits)
  next
    case (ExpireMark now j)
    with t i show ?thesis by (auto simp: msys_step_def wait_expire_mark_def settled_def split: if_splits)
  qed (use t i in \<open>auto simp: msys_step_def settled_def decide_take_def decide_send_def decide_mark_def wait_expire_def
         wait_vanish_def maybe_approve_def Let_def split: if_splits chan.splits\<close>)
qed

lemma settled_run:
  assumes "hold_inv s" "settled i s" "msys_run P A ls s = Some t"
  shows "hold_inv t \<and> settled i t"
  using assms
proof (induction ls arbitrary: s)
  case (Cons l ls)
  then show ?case by (auto split: option.splits dest: hold_inv_step settled_step)
qed simp

lemma settled_arrive:
  assumes "should_hold inp (sy_mo s)"
  shows "settled (request_id (mo_next_seq (sy_mo s))) (arrive P A now inp s)"
proof -
  note R = record_llm_request_hold [of P A now inp "sy_mo s"]
  obtain tk mo where e: "record_llm_request P A now inp (sy_mo s) = (tk, mo)" by force
  with R(1,6) assms show ?thesis by (auto simp: arrive_def settled_def split: ticket_state.split)
qed

lemma filter_key_unique:
  "distinct (map fst xs) \<Longrightarrow> (k, v) \<in> set xs \<Longrightarrow> filter (\<lambda>x. fst x = k) xs = [(k, v)]"
proof (induction xs)
  case (Cons x xs)
  have "filter (\<lambda>y. fst y = k) xs = []" if "k \<notin> fst ` set xs" using that by (force simp: filter_empty_conv)
  with Cons show ?case by (cases "x = (k, v)") (auto simp: image_iff)
qed simp

text \<open>
  C2. A request that has to be held is released upstream only if the operator approved it: whatever the order in
  which handlers, operator, timers and disconnects run, a release means that \<open>decide\<close> took its waiter with an
  approval, and that no other decision was ever accepted for it.
\<close>

theorem held_needs_approval:
  assumes "msys_reach P A s" "should_hold inp (sy_mo s)"
    and "msys_run P A ls (arrive P A now inp s) = Some t"
    and "request_id (mo_next_seq (sy_mo s)) \<in> set (sy_released t)"
  shows "filter (\<lambda>x. fst x = request_id (mo_next_seq (sy_mo s))) (sy_log t) = [(request_id (mo_next_seq (sy_mo s)), Approve)]"
proof -
  let ?i = "request_id (mo_next_seq (sy_mo s))"
  have "hold_inv (arrive P A now inp s)" using hold_inv_arrive hold_inv_reach assms(1) by blast
  with settled_run settled_arrive [OF assms(2)] assms(3) have t: "hold_inv t" "settled ?i t" by blast+
  have v: "sy_verdict t ?i = Some Approve" using hold_inv_released [OF t(1) assms(4)] .
  with t(2) have "(?i, Approve) \<in> set (sy_log t)" using hold_inv_approved [OF t(1)] by (auto simp: settled_def)
  with hold_inv_distinct [OF t(1)] show ?thesis by (rule filter_key_unique)
qed

section \<open>A run of the hold\<close>

definition sample_view :: view_api where
  "sample_view = \<lparr>va_parse = (\<lambda>_. None), va_print = (\<lambda>_. None), va_quote = (\<lambda>_. None), va_lossy = (\<lambda>s. s)\<rparr>"

definition sample_input :: llm_input where
  "sample_input =
     \<lparr>li_endpoint = ''/v1/messages'', li_method = ''POST'', li_conversation = Some ''c'', li_body = [], li_manifest = [],
      li_pinned = NormalMode, li_masking = True\<rparr>"

definition sample_monitor :: monitor where
  "sample_monitor = set_mode ManualAllLlm (Some 1) monitor_new"

lemma sample_hold: "should_hold sample_input sample_monitor" "mo_waiters sample_monitor = []"
  "mo_max_pending sample_monitor = 1" "mo_next_seq sample_monitor = 1"
  by (simp_all add: should_hold_def sample_input_def sample_monitor_def set_mode_def monitor_new_def)

text \<open>A request that is held waits under its own id.\<close>

lemma arrive_held:
  assumes "should_hold inp (sy_mo s)" "length (mo_waiters (sy_mo s)) < mo_max_pending (sy_mo s)"
  obtains mo where "arrive P A now inp s
      = s\<lparr>sy_mo := mo, sy_chan := (sy_chan s)(request_id (mo_next_seq (sy_mo s)) := Waiting)\<rparr>"
    "mo_waiters mo = request_id (mo_next_seq (sy_mo s)) # mo_waiters (sy_mo s)"
    "mo_max_pending mo = mo_max_pending (sy_mo s)" "mo_mode mo = mo_mode (sy_mo s)"
    "mo_next_seq mo = mo_next_seq (sy_mo s) + 1"
proof -
  note R = record_llm_request_hold [of P A now inp "sy_mo s"]
  obtain tk mo where e: "record_llm_request P A now inp (sy_mo s) = (tk, mo)" by force
  with R(5) assms have "tk_state tk = Held" by simp
  with R(1,2,3,4,7) e that [of mo] show thesis by (simp add: arrive_def)
qed

text \<open>
  An approval gets through: in every reachable state a request that waits is released by the operator's
  approval, its delivery, the handler's return and the dispatch, whatever else is under way.
\<close>

theorem approval_releases:
  assumes "msys_reach P A s" "i \<in> set (mo_waiters (sy_mo s))" "sy_chan s i = Waiting"
  shows "\<exists>t. msys_run P A [Take i Approve, Send i Approve, Answer i, Dispatch now i] s = Some t \<and> i \<in> set (sy_released t)"
  using assms(2,3)
  by (simp add: msys_step_def decide_take_def decide_send_def wait_answer_def maybe_approve_def Let_def)

lemma sample_arrived:
  "sy_chan (arrive P A 0 sample_input (msys_new sample_monitor)) (request_id 1) = Waiting"
  "mo_waiters (sy_mo (arrive P A 0 sample_input (msys_new sample_monitor))) = [request_id 1]"
  "msys_reach P A (msys_new sample_monitor)" "msys_reach P A (arrive P A 0 sample_input (msys_new sample_monitor))"
proof -
  have s: "should_hold sample_input (sy_mo (msys_new sample_monitor))"
    "length (mo_waiters (sy_mo (msys_new sample_monitor))) < mo_max_pending (sy_mo (msys_new sample_monitor))"
    using sample_hold by (simp_all add: msys_new_def)
  from arrive_held [OF s, of P A 0] show "sy_chan (arrive P A 0 sample_input (msys_new sample_monitor)) (request_id 1) = Waiting"
    "mo_waiters (sy_mo (arrive P A 0 sample_input (msys_new sample_monitor))) = [request_id 1]"
    using sample_hold by (metis (no_types) ext_inject fun_upd_same msys.select_convs msys.simps msys_new_def)+
  show r: "msys_reach P A (msys_new sample_monitor)" by (rule msys_reach.init) (rule sample_hold(2))
  show "msys_reach P A (arrive P A 0 sample_input (msys_new sample_monitor))"
    by (rule msys_reach.step [OF r, of "Arrive 0 sample_input"]) (simp add: msys_step_def)
qed

theorem approval_releases_witness:
  "\<exists>t. msys_run sample_prims sample_view [Take (request_id 1) Approve, Send (request_id 1) Approve, Answer (request_id 1), Dispatch 5 (request_id 1)]
     (arrive sample_prims sample_view 0 sample_input (msys_new sample_monitor)) = Some t \<and> request_id 1 \<in> set (sy_released t)"
  by (rule approval_releases [OF sample_arrived(4) _ sample_arrived(1)]) (simp only: sample_arrived(2) list.set_intros)

lemma sample_released:
  obtains t where "msys_run P A [Take (request_id 1) Approve, Send (request_id 1) Approve, Answer (request_id 1), Dispatch 5 (request_id 1)]
     (arrive P A 0 sample_input (msys_new sample_monitor)) = Some t" "request_id 1 \<in> set (sy_released t)"
  using sample_arrived
  by (simp add: msys_step_def decide_take_def decide_send_def wait_answer_def maybe_approve_def Let_def)

theorem held_needs_approval_witness:
  "\<exists>t. msys_run sample_prims sample_view [Take (request_id 1) Approve, Send (request_id 1) Approve, Answer (request_id 1), Dispatch 5 (request_id 1)]
     (arrive sample_prims sample_view 0 sample_input (msys_new sample_monitor)) = Some t
   \<and> filter (\<lambda>x. fst x = request_id 1) (sy_log t) = [(request_id 1, Approve)]"
proof -
  obtain t where t: "msys_run sample_prims sample_view [Take (request_id 1) Approve, Send (request_id 1) Approve, Answer (request_id 1), Dispatch 5 (request_id 1)]
     (arrive sample_prims sample_view 0 sample_input (msys_new sample_monitor)) = Some t" "request_id 1 \<in> set (sy_released t)"
    by (rule sample_released)
  have n: "mo_next_seq (sy_mo (msys_new sample_monitor)) = 1" "should_hold sample_input (sy_mo (msys_new sample_monitor))"
    using sample_hold by (simp_all add: msys_new_def)
  from held_needs_approval [OF sample_arrived(3) n(2) t(1)] t show ?thesis unfolding n(1) by blast
qed

text \<open>
  The requests that wait for a verdict never outnumber the largest limit that was in force, and none waits
  twice.
\<close>

theorem waiters_bounded:
  assumes "msys_reach P A s"
  shows "length (mo_waiters (sy_mo s)) \<le> sy_peak s \<and> distinct (mo_waiters (sy_mo s))"
  using hold_inv_reach [OF assms] by (simp add: hold_inv_def)

theorem waiters_bounded_witness:
  "length (mo_waiters (sy_mo (arrive sample_prims sample_view 0 sample_input (msys_new sample_monitor))))
     \<le> sy_peak (arrive sample_prims sample_view 0 sample_input (msys_new sample_monitor))"
  using waiters_bounded [OF sample_arrived(4)] by blast

section \<open>A held request whose client goes away\<close>

definition stuck :: "string \<Rightarrow> msys \<Rightarrow> bool" where
  "stuck i s \<longleftrightarrow> i \<in> set (mo_waiters (sy_mo s)) \<and> sy_chan s i = Closed"

lemma stuck_step:
  assumes I: "hold_inv s" and i: "stuck i s" and t: "msys_step P A l s = Some t" and l: "\<And>d. l \<noteq> Take i d"
  shows "stuck i t"
proof -
  have f: "i \<noteq> request_id (mo_next_seq (sy_mo s))"
    using hold_inv_known [OF I, of i] i known_fresh [of s] by (auto simp: stuck_def)
  show ?thesis
  proof (cases l)
    case (Arrive now inp)
    note R = record_llm_request_hold [of P A now inp "sy_mo s"]
    obtain tk mo where e: "record_llm_request P A now inp (sy_mo s) = (tk, mo)" by force
    with R(1,7) Arrive t i f show ?thesis
      by (auto simp: msys_step_def arrive_def stuck_def split: ticket_state.splits if_splits)
  next
    case (Take j d)
    with l [of d] t i show ?thesis by (auto simp: msys_step_def stuck_def decide_take_def split: if_splits)
  qed (use t i in \<open>auto simp: msys_step_def stuck_def decide_take_def decide_send_def decide_mark_def wait_expire_def
        wait_expire_mark_def wait_answer_def wait_vanish_def maybe_approve_def set_mode_def mark_decided_def mark_timed_out_def
        record_dispatched_def record_aborted_def record_upstream_error_def record_response_def update_tags_def Let_def
        split: if_splits chan.splits\<close>)
qed

text \<open>
  C38. When the client of a held request disconnects, the request's place among the waiting ones is freed by
  nothing but a decision of the operator: no timeout fires for it any more, and whatever else happens it keeps
  counting against the limit of pending approvals.
\<close>

theorem abandoned_hold_keeps_slot:
  assumes "msys_reach P A s" "i \<in> set (mo_waiters (sy_mo s))" "wait_vanish i s = Some u"
    and "msys_run P A ls u = Some t" and "\<forall>d. Take i d \<notin> set ls"
  shows "i \<in> set (mo_waiters (sy_mo t))"
proof -
  have u: "hold_inv u" "stuck i u"
    using hold_inv_vanish [OF hold_inv_reach [OF assms(1)] assms(3)] assms(2,3)
    by (auto simp: wait_vanish_def stuck_def split: chan.splits)
  have "hold_inv u \<Longrightarrow> stuck i u \<Longrightarrow> stuck i t"
    using assms(4,5)
  proof (induction ls arbitrary: u)
    case (Cons l ls)
    from Cons.prems(3) obtain v where v: "msys_step P A l u = Some v" "msys_run P A ls v = Some t" by (auto split: option.splits)
    have "stuck i v" using stuck_step [OF Cons.prems(1,2) v(1)] Cons.prems(4) by auto
    with Cons.IH [OF hold_inv_step [OF Cons.prems(1) v(1)]] v(2) Cons.prems(4) show ?case by auto
  qed simp
  with u show ?thesis by (simp add: stuck_def)
qed

theorem abandoned_hold_keeps_slot_witness:
  "request_id 1 \<in> set (mo_waiters (sy_mo
     (the (msys_run sample_prims sample_view [Arrive 1 sample_input] (the (wait_vanish (request_id 1)
        (arrive sample_prims sample_view 0 sample_input (msys_new sample_monitor))))))))"
proof -
  obtain u where u: "wait_vanish (request_id 1) (arrive sample_prims sample_view 0 sample_input (msys_new sample_monitor)) = Some u"
    using sample_arrived(1) by (simp add: wait_vanish_def)
  have t: "msys_run sample_prims sample_view [Arrive 1 sample_input] u = Some (arrive sample_prims sample_view 1 sample_input u)"
    by (simp add: msys_step_def)
  have "request_id 1 \<in> set (mo_waiters (sy_mo (arrive sample_prims sample_view 1 sample_input u)))"
    by (rule abandoned_hold_keeps_slot [OF sample_arrived(4) _ u t]) (simp_all add: sample_arrived)
  with u t show ?thesis by simp
qed

end
