(* ===== verification/Monitor_Laws.thy ===== *)
theory Monitor_Laws
  imports Monitor_View_Laws Monitor_Hold_Laws
begin

text \<open>
  What the monitor keeps: an answer is stored with its withheld values re-masked, the ledger of masked values
  stays bounded and shows no withheld value, and the end of a request is final.
\<close>

section \<open>The stored answer\<close>

definition withheld :: "unmask_manifest \<Rightarrow> string set" where
  "withheld mf = {canonical_form e |e. e \<in> set mf \<and> \<not> is_peekable (for_manifest_entry e) \<and> canonical_form e \<noteq> []}"

lemma redaction_pairs_cover: "v \<in> withheld mf \<longleftrightarrow> v \<in> fst ` set (redaction_pairs mf)"
  by (force simp: withheld_def redaction_pairs_def)

lemma json_body_expand_cover: "v \<in> fst ` set ps \<Longrightarrow> v \<in> fst ` set (json_body_expand A ps)"
  by (force simp: json_body_expand_def)

lemma find_update_first:
  "find (\<lambda>r. rrd_id r = i) rs = Some r \<Longrightarrow> (\<And>x. rrd_id (f x) = rrd_id x)
    \<Longrightarrow> find (\<lambda>r. rrd_id r = i) (update_first i f rs) = Some (f r)"
  by (induction rs) (auto split: if_splits)

lemma find_update_record:
  "find_record i mo = Some r \<Longrightarrow> (\<And>x. rrd_id (f x) = rrd_id x)
    \<Longrightarrow> find_record i (update_record now i f mo) = Some ((f r)\<lparr>rrd_updated := now\<rparr>)"
  unfolding find_record_def update_record_def by (simp add: find_update_first)

text \<open>
  C39. A plain answer enters the monitor only after its withheld values are put back under their handles: the
  stored preview, spans and surfaces are computed from a text in which no value of a secret, a broker
  credential, a CVV or a pattern-local entry of the manifest occurs, nor any registered local secret, provided
  the values are free of brackets and occur in no handle.
\<close>

theorem stored_answer_withholds:
  assumes "find_record i mo = Some r" "\<not> is_terminal (rrd_decision r)"
    and "separable (json_body_redaction_pairs A mf @ json_body_expand A (mo_local mo))"
  shows "\<exists>t. find_record i (record_response P A now i status (Some body) mf mo)
           = Some (r\<lparr>rrd_response_status := Some status, rrd_response_preview := Some (preview A t),
                     rrd_response_spans := spans_from_values (rrd_tokens r) (preview A t),
                     rrd_response_surfaces := surfaces_from_response_body P A t (rrd_tokens r),
                     rrd_decision := Completed, rrd_updated := now\<rparr>)
         \<and> (\<forall>v \<in> withheld mf \<union> fst ` set (mo_local mo). \<not> contains v t)"
proof -
  let ?ps = "longest_first (json_body_redaction_pairs A mf @ json_body_expand A (mo_local mo))"
  let ?t = "redact_secret_values (va_lossy A body) ?ps"
  have sep: "separable ?ps" using assms(3) by (subst separable_cong [where qs = "json_body_redaction_pairs A mf @ json_body_expand A (mo_local mo)"]) simp_all
  have "\<not> contains v ?t" if v: "v \<in> withheld mf \<union> fst ` set (mo_local mo)" for v
  proof -
    have "v \<in> fst ` set (json_body_redaction_pairs A mf) \<union> fst ` set (json_body_expand A (mo_local mo))"
      using v redaction_pairs_cover [of v mf] json_body_expand_cover [of v _ A] unfolding json_body_redaction_pairs_def by blast
    then have "v \<in> fst ` set ?ps" by auto
    then obtain h where "(v, h) \<in> set ?ps" by force
    with redacted_out [OF sep] show ?thesis by blast
  qed
  moreover have "find_record i (record_response P A now i status (Some body) mf mo)
      = Some (r\<lparr>rrd_response_status := Some status, rrd_response_preview := Some (preview A ?t),
                rrd_response_spans := spans_from_values (rrd_tokens r) (preview A ?t),
                rrd_response_surfaces := surfaces_from_response_body P A ?t (rrd_tokens r),
                rrd_decision := Completed, rrd_updated := now\<rparr>)"
    unfolding record_response_def Let_def
    by (subst find_update_record [OF assms(1)]) (simp_all add: unless_terminal_def assms(2))
  ultimately show ?thesis by blast
qed

definition sample_secret :: manifest_entry where
  "sample_secret =
     \<lparr>canonical_form = ''hunter2'', token_handle = ''[KEY_ab]'', entity_kind = ''KEY'', arrow_origin = UserMessage,
      exposed_at = None, broker = False, local = True\<rparr>"

definition sample_record :: "request_decision \<Rightarrow> request_record" where
  "sample_record d =
     \<lparr>rrd_id = ''req-1'', rrd_conversation = ''c'', rrd_endpoint = ''/v1/messages'', rrd_method = ''POST'', rrd_started = 0,
      rrd_updated = 0, rrd_decision = d, rrd_preview = [], rrd_spans = [], rrd_response_preview = None,
      rrd_response_spans = [], rrd_response_status = None, rrd_tokens = [], rrd_tags = [], rrd_reason = None,
      rrd_turn = 1, rrd_dispatched = None, rrd_surfaces = [], rrd_response_surfaces = [], rrd_delta = delta_first,
      rrd_human_turn = 1, rrd_upstream = None, rrd_masked = None\<rparr>"

lemma sample_separable:
  "separable (json_body_redaction_pairs sample_view [sample_secret] @ json_body_expand sample_view [])"
proof -
  have e: "json_body_redaction_pairs sample_view [sample_secret] @ json_body_expand sample_view [] = [(''hunter2'', ''[KEY_ab]'')]"
    by (simp add: json_body_redaction_pairs_def json_body_expand_def redaction_pairs_def longest_first_def sample_view_def
      sample_secret_def is_peekable_def for_manifest_entry_def ENTITY_CVV_def)
  have "\<not> contains ''hunter2'' ''[KEY_ab]''" by code_simp
  then show ?thesis unfolding e by (simp add: separable_def bracket_free_def bracketed_def)
qed

theorem stored_answer_withholds_witness:
  "\<exists>t r. find_record ''req-1'' (record_response sample_prims sample_view 9 ''req-1'' 200 (Some ''your key: hunter2'') [sample_secret]
       (monitor_new\<lparr>mo_records := [sample_record InFlight]\<rparr>)) = Some r
     \<and> rrd_response_preview r = Some (preview sample_view t) \<and> \<not> contains ''hunter2'' t"
proof -
  have a: "find_record ''req-1'' (monitor_new\<lparr>mo_records := [sample_record InFlight]\<rparr>) = Some (sample_record InFlight)"
    by (simp add: find_record_def sample_record_def)
  have t: "\<not> is_terminal (rrd_decision (sample_record InFlight))" by (simp add: sample_record_def is_terminal_def)
  have "separable (json_body_redaction_pairs sample_view [sample_secret]
      @ json_body_expand sample_view (mo_local (monitor_new\<lparr>mo_records := [sample_record InFlight]\<rparr>)))"
    using sample_separable by (simp add: monitor_new_def)
  from stored_answer_withholds [OF a t this, of sample_prims 9 200 "''your key: hunter2''"]
  obtain u where u: "find_record ''req-1'' (record_response sample_prims sample_view 9 ''req-1'' 200 (Some ''your key: hunter2'') [sample_secret]
       (monitor_new\<lparr>mo_records := [sample_record InFlight]\<rparr>))
     = Some ((sample_record InFlight)\<lparr>rrd_response_status := Some 200, rrd_response_preview := Some (preview sample_view u),
                     rrd_response_spans := spans_from_values (rrd_tokens (sample_record InFlight)) (preview sample_view u),
                     rrd_response_surfaces := surfaces_from_response_body sample_prims sample_view u (rrd_tokens (sample_record InFlight)),
                     rrd_decision := Completed, rrd_updated := 9\<rparr>)" "\<forall>v \<in> withheld [sample_secret]. \<not> contains v u" by blast
  have "''hunter2'' \<in> withheld [sample_secret]"
    by (simp add: withheld_def sample_secret_def is_peekable_def for_manifest_entry_def ENTITY_CVV_def)
  with u show ?thesis by (intro exI [of _ u]) simp
qed

text \<open>What is shown of the entries of a manifest: of a withheld one no value.\<close>

lemma token_previews_withhold: "p \<in> set (token_previews mf) \<Longrightarrow> \<not> tp_peekable p \<Longrightarrow> tp_value p = []"
  by (auto simp: token_previews_def Let_def)

section \<open>The ledger\<close>

definition entry_ok :: "string \<Rightarrow> token_entry \<Rightarrow> bool" where
  "entry_ok k x \<longleftrightarrow>
     te_token x = k \<and> (te_peekable x \<longleftrightarrow> is_peekable (te_class x)) \<and> (\<not> te_peekable x \<longrightarrow> te_value x = []) \<and> 0 < te_count x"

definition ledger_ok :: "(string \<times> token_entry) list \<Rightarrow> bool" where
  "ledger_ok m \<longleftrightarrow> keys_distinct m \<and> (\<forall>(k, x)\<in>set m. entry_ok k x)"

lemma hm_insert_keys: "fst ` set (hm_insert k v m) = insert k (fst ` set m)"
  by (auto simp: hm_insert_def hm_remove_def image_iff)

lemma ledger_ok_insert: "ledger_ok m \<Longrightarrow> entry_ok k x \<Longrightarrow> ledger_ok (hm_insert k x m)"
  by (auto simp: ledger_ok_def hm_insert_def hm_remove_def keys_distinct_def distinct_map_filter)

lemma ledger_ok_lookup: "ledger_ok m \<Longrightarrow> map_of m k = Some x \<Longrightarrow> entry_ok k x"
  by (auto simp: ledger_ok_def dest: map_of_SomeD)

lemma ingest_one_ok:
  assumes "ledger_ok m"
  shows "ledger_ok (ingest_one now prov e m)"
    and "fst ` set (ingest_one now prov e m) = insert (token_handle e) (fst ` set m)"
proof -
  obtain x where x: "ingest_one now prov e m = hm_insert (token_handle e) x m" "entry_ok (token_handle e) x"
  proof (cases "map_of m (token_handle e)")
    case None
    then show thesis by (intro that) (auto simp: ingest_one_def entry_ok_def Let_def)
  next
    case (Some y)
    have "\<exists>l. ingest_one now prov e m
        = hm_insert (token_handle e) (y\<lparr>te_count := te_count y + 1, te_last := now, te_lane := l\<rparr>) m"
      by (simp only: ingest_one_def Let_def Some option.case) (rule exI, rule refl)
    with that ledger_ok_lookup [OF assms Some] show thesis by (force simp: entry_ok_def)
  qed
  then show "ledger_ok (ingest_one now prov e m)"
    and "fst ` set (ingest_one now prov e m) = insert (token_handle e) (fst ` set m)"
    using ledger_ok_insert [OF assms] by (simp_all add: hm_insert_keys)
qed

lemma ingest_all_ok:
  "ledger_ok m \<Longrightarrow> ledger_ok (fold (ingest_one now prov) mf m)
     \<and> fst ` set (fold (ingest_one now prov) mf m) = fst ` set m \<union> token_handle ` set mf"
  by (induction mf arbitrary: m) (auto simp: ingest_one_ok)

lemma fold_hm_remove: "fold hm_remove ks m = filter (\<lambda>x. fst x \<notin> set ks) m"
  by (induction ks arbitrary: m) (auto simp: hm_remove_def intro: filter_cong)

lemma ledger_ok_filter: "ledger_ok m \<Longrightarrow> ledger_ok (filter q m)"
  by (auto simp: ledger_ok_def keys_distinct_def distinct_map_filter)

lemma eviction_tokens:
  assumes "ledger_ok m"
  shows "mset (map te_token (eviction_order cur m)) = mset (map fst m)" "distinct (map te_token (eviction_order cur m))"
proof -
  have "map te_token (map snd m) = map fst m" using assms by (auto simp: ledger_ok_def entry_ok_def)
  moreover have "mset (map te_token (eviction_order cur m)) = mset (map te_token (map snd m))"
    by (simp only: eviction_order_def mset_map mset_sort)
  ultimately show e: "mset (map te_token (eviction_order cur m)) = mset (map fst m)" by (simp only:)
  with assms show "distinct (map te_token (eviction_order cur m))"
    by (metis keys_distinct_def ledger_ok_def mset_eq_imp_distinct_iff)
qed

text \<open>What is evicted fits the excess, and as long as the request's own values fit they stay.\<close>

lemma evict_tokens_ok:
  assumes m: "ledger_ok m"
  shows "ledger_ok (evict_tokens mf m)" "length (evict_tokens mf m) \<le> MAX_SESSION_TOKENS"
    and "length (remdups (map token_handle mf)) \<le> MAX_SESSION_TOKENS
           \<Longrightarrow> fst ` set (evict_tokens mf m) \<supseteq> fst ` set m \<inter> token_handle ` set mf"
proof -
  let ?L = "eviction_order (set (map token_handle mf)) m" and ?k = "length m - MAX_SESSION_TOKENS"
  let ?ks = "map te_token (take ?k ?L)"
  note L = eviction_tokens [OF m, of "set (map token_handle mf)"]
  have len: "length ?L = length m" using arg_cong [OF L(1), of size] by simp
  have dk: "distinct ?ks" using L(2) by (metis distinct_take take_map)
  have sub: "set ?ks \<subseteq> fst ` set m"
  proof -
    have "set ?ks \<subseteq> set (map te_token ?L)" using set_take_subset [of ?k ?L] by auto
    also have "\<dots> = fst ` set m" using arg_cong [OF L(1), of set_mset] by (simp only: set_mset_mset set_map)
    finally show ?thesis .
  qed
  show "ledger_ok (evict_tokens mf m)" using m by (simp add: evict_tokens_def fold_hm_remove ledger_ok_filter)
  show "length (evict_tokens mf m) \<le> MAX_SESSION_TOKENS"
  proof (cases "MAX_SESSION_TOKENS < length m")
    case True
    have d: "distinct (map fst m)" using m by (simp add: ledger_ok_def keys_distinct_def)
    have "length (filter (\<lambda>x. fst x \<notin> set ?ks) m) = length (filter (\<lambda>k. k \<notin> set ?ks) (map fst m))"
      by (simp add: filter_map comp_def)
    also have "\<dots> = card (fst ` set m - set ?ks)"
      using d distinct_card [of "filter (\<lambda>k. k \<notin> set ?ks) (map fst m)"] by (simp add: set_diff_eq)
    also have "\<dots> = card (fst ` set m) - card (set ?ks)" using sub by (simp add: card_Diff_subset)
    also have "card (fst ` set m) = length m" using d distinct_card [of "map fst m"] by simp
    also have "card (set ?ks) = ?k" using distinct_card [OF dk] len by simp
    finally show ?thesis using True by (simp add: evict_tokens_def fold_hm_remove)
  next
    case False
    then show ?thesis by (simp add: evict_tokens_def)
  qed
  show "fst ` set (evict_tokens mf m) \<supseteq> fst ` set m \<inter> token_handle ` set mf"
    if small: "length (remdups (map token_handle mf)) \<le> MAX_SESSION_TOKENS"
  proof (cases "MAX_SESSION_TOKENS < length m")
    case True
    let ?f = "\<lambda>x. if te_token x \<in> set (map token_handle mf) then 1 else (0::nat)"
    have so: "sorted (map ?f ?L)" by (simp add: eviction_order_def)
    have none: "te_token x \<notin> token_handle ` set mf" if x: "x \<in> set (take ?k ?L)" for x
    proof
      assume c: "te_token x \<in> token_handle ` set mf"
      have "?f x \<le> ?f y" if "y \<in> set (drop ?k ?L)" for y
        using so x that append_take_drop_id [of ?k ?L] by (metis (no_types, lifting) imageI list.set_map map_append sorted_append)
      then have "te_token ` set (drop ?k ?L) \<subseteq> token_handle ` set mf" using c by (force split: if_splits)
      moreover have "te_token x \<notin> te_token ` set (drop ?k ?L)"
        using L(2) x append_take_drop_id [of ?k ?L]
        by (metis (no_types, lifting) disjoint_iff distinct_append imageI list.set_map map_append)
      ultimately have "card (insert (te_token x) (te_token ` set (drop ?k ?L))) \<le> card (token_handle ` set mf)"
        using c by (intro card_mono) auto
      moreover have "card (te_token ` set (drop ?k ?L)) = MAX_SESSION_TOKENS"
      proof -
        have "distinct (map te_token (drop ?k ?L))" using distinct_drop [OF L(2), of ?k] by (simp only: drop_map)
        from distinct_card [OF this] show ?thesis using len True by simp
      qed
      ultimately show False
        using small \<open>te_token x \<notin> te_token ` set (drop ?k ?L)\<close> by (simp add: length_remdups_card_conv)
    qed
    have "x \<in> fst ` set (evict_tokens mf m)" if x: "x \<in> fst ` set m" "x \<in> token_handle ` set mf" for x
    proof -
      have "x \<notin> set ?ks" using none x(2) unfolding set_map by blast
      with x(1) True show ?thesis by (auto simp: evict_tokens_def fold_hm_remove)
    qed
    then show ?thesis by blast
  next
    case False
    then show ?thesis by (auto simp: evict_tokens_def)
  qed
qed

lemma record_llm_request_tokens:
  "mo_tokens (snd (record_llm_request P A now inp mo))
     = mo_tokens (ingest_tokens_into (li_manifest inp) now
         (token_provenance_map (surfaces_from_body P A (li_body inp) (token_previews (li_manifest inp)))) mo)"
  unfolding record_llm_request_def
  by (auto simp: Let_def ingest_tokens_into_def human_turn_def stamp_conversation_def hold_step_def
    split: prod.splits dest!: conversation_of_frame)

text \<open>
  C40. The ledger of masked values keeps one entry per handle, never more than its limit, and of a value that is
  not peekable (a secret, a broker credential, a CVV) it keeps no value; a recorded request finds all its own
  handles in it, as long as they alone do not exceed the limit.
\<close>

theorem ledger_bounded:
  assumes "ledger_ok (mo_tokens mo)"
  shows "ledger_ok (mo_tokens (snd (record_llm_request P A now inp mo)))
    \<and> length (mo_tokens (snd (record_llm_request P A now inp mo))) \<le> MAX_SESSION_TOKENS
    \<and> (length (remdups (map token_handle (li_manifest inp))) \<le> MAX_SESSION_TOKENS
        \<longrightarrow> token_handle ` set (li_manifest inp) \<subseteq> fst ` set (mo_tokens (snd (record_llm_request P A now inp mo))))"
proof -
  let ?prov = "token_provenance_map (surfaces_from_body P A (li_body inp) (token_previews (li_manifest inp)))"
  have I: "ledger_ok (fold (ingest_one now ?prov) (li_manifest inp) (mo_tokens mo))"
    "fst ` set (fold (ingest_one now ?prov) (li_manifest inp) (mo_tokens mo)) = fst ` set (mo_tokens mo) \<union> token_handle ` set (li_manifest inp)"
    using ingest_all_ok [OF assms] by blast+
  show ?thesis unfolding record_llm_request_tokens ingest_tokens_into_def
    using evict_tokens_ok [OF I(1), of "li_manifest inp"] I(2) by auto
qed

theorem ledger_bounded_witness:
  "length (mo_tokens (snd (record_llm_request sample_prims sample_view 0 (sample_input\<lparr>li_manifest := [sample_secret]\<rparr>) monitor_new)))
     \<le> MAX_SESSION_TOKENS"
proof -
  have "ledger_ok (mo_tokens monitor_new)" by (simp add: monitor_new_def ledger_ok_def)
  from ledger_bounded [OF this] show ?thesis by blast
qed

section \<open>The end of a request is final\<close>

lemma find_update_other:
  assumes "find_record j mo = Some r" "\<And>x. rrd_id (f x) = rrd_id x" "f r = r"
  shows "\<exists>n. find_record j (update_record now i f mo) = Some (r\<lparr>rrd_updated := n\<rparr>)"
proof -
  have "find (\<lambda>r. rrd_id r = j) rs = Some r \<Longrightarrow>
      find (\<lambda>r. rrd_id r = j) (update_first i (\<lambda>r. (f r)\<lparr>rrd_updated := now\<rparr>) rs) = Some r
      \<or> find (\<lambda>r. rrd_id r = j) (update_first i (\<lambda>r. (f r)\<lparr>rrd_updated := now\<rparr>) rs) = Some (r\<lparr>rrd_updated := now\<rparr>)" for rs
    using assms(2,3) by (induction rs) (auto split: if_splits)
  from this [of "mo_records mo"] assms(1)
  have "find_record j (update_record now i f mo) = Some (r\<lparr>rrd_updated := rrd_updated r\<rparr>)
      \<or> find_record j (update_record now i f mo) = Some (r\<lparr>rrd_updated := now\<rparr>)"
    by (simp add: find_record_def update_record_def)
  then show ?thesis by blast
qed

lemma progress_as_update:
  assumes "find_record j mo = Some r" "is_terminal (rrd_decision r)"
  shows "find_record j (record_response_progress now i st pv ss mo) = Some r"
proof -
  have "find (\<lambda>r. rrd_id r = j) rs = Some r \<Longrightarrow> (\<And>x. rrd_id (f x) = rrd_id x) \<Longrightarrow> f r = r
      \<Longrightarrow> find (\<lambda>r. rrd_id r = j) (update_first i f rs) = Some r" for f rs
    by (induction rs) (auto split: if_splits)
  with assms show ?thesis by (simp add: find_record_def record_response_progress_def unless_terminal_def)
qed

text \<open>
  What has ended stays ended: no answer, progress report, completion, dispatch, abort or upstream error that
  comes in for any request changes a record whose request was refused, failed, timed out, aborted or completed;
  at most its time stamp moves.
\<close>

theorem ended_record_final:
  assumes "find_record j mo = Some r" "is_terminal (rrd_decision r)"
  shows "(\<exists>n. find_record j (record_response P A now i st b mf mo) = Some (r\<lparr>rrd_updated := n\<rparr>))
    \<and> (\<exists>n. find_record j (record_response_progress now i st pv ss mo) = Some (r\<lparr>rrd_updated := n\<rparr>))
    \<and> (\<exists>n. find_record j (complete_response now i st opv ss mo) = Some (r\<lparr>rrd_updated := n\<rparr>))
    \<and> (\<exists>n. find_record j (record_dispatched now i mo) = Some (r\<lparr>rrd_updated := n\<rparr>))
    \<and> (\<exists>n. find_record j (record_aborted now i mo) = Some (r\<lparr>rrd_updated := n\<rparr>))
    \<and> (\<exists>n. find_record j (record_upstream_error now i msg mo) = Some (r\<lparr>rrd_updated := n\<rparr>))"
proof -
  note T = find_update_other [OF assms(1)]
  have a: "\<exists>n. find_record j (record_response P A now i st b mf mo) = Some (r\<lparr>rrd_updated := n\<rparr>)"
    unfolding record_response_def Let_def by (rule T) (simp_all add: unless_terminal_def assms(2))
  have b: "\<exists>n. find_record j (record_response_progress now i st pv ss mo) = Some (r\<lparr>rrd_updated := n\<rparr>)"
    using progress_as_update [OF assms] by (intro exI [of _ "rrd_updated r"]) simp
  have c: "\<exists>n. find_record j (complete_response now i st opv ss mo) = Some (r\<lparr>rrd_updated := n\<rparr>)"
    unfolding complete_response_def by (rule T) (simp_all add: unless_terminal_def assms(2) Let_def split: option.split)
  have d: "\<exists>n. find_record j (record_dispatched now i mo) = Some (r\<lparr>rrd_updated := n\<rparr>)"
    unfolding record_dispatched_def by (rule T) (use assms(2) in \<open>auto simp: is_terminal_def\<close>)
  have e: "\<exists>n. find_record j (record_aborted now i mo) = Some (r\<lparr>rrd_updated := n\<rparr>)"
    unfolding record_aborted_def by (rule T) (simp_all add: unless_terminal_def assms(2))
  have f: "\<exists>n. find_record j (record_upstream_error now i msg mo) = Some (r\<lparr>rrd_updated := n\<rparr>)"
    unfolding record_upstream_error_def by (rule T) (simp_all add: unless_terminal_def assms(2))
  show ?thesis by (intro conjI a b c d e f)
qed

theorem ended_record_final_witness:
  "\<exists>n. find_record ''req-1'' (record_aborted 7 ''req-1'' (monitor_new\<lparr>mo_records := [sample_record Completed]\<rparr>))
     = Some ((sample_record Completed)\<lparr>rrd_updated := n\<rparr>)"
proof -
  have a: "find_record ''req-1'' (monitor_new\<lparr>mo_records := [sample_record Completed]\<rparr>) = Some (sample_record Completed)"
    by (simp add: find_record_def sample_record_def)
  have t: "is_terminal (rrd_decision (sample_record Completed))" by (simp add: sample_record_def is_terminal_def)
  show ?thesis using ended_record_final [OF a t, where i = "''req-1''" and now = 7] by blast
qed

section \<open>The tracked conversations\<close>

lemma min_first_least: "min_first xs = Some v \<Longrightarrow> v \<in> set xs \<and> (\<forall>x\<in>set xs. snd v \<le> snd x)"
proof (induction xs arbitrary: v)
  case (Cons x xs)
  show ?case
  proof (cases "min_first xs")
    case None
    with Cons.prems show ?thesis by (cases xs) (auto split: option.splits if_splits)
  next
    case (Some y)
    with Cons.IH [of y] Cons.prems show ?thesis by (cases "snd y < snd x") force+
  qed
qed simp

lemma min_first_None: "min_first xs = None \<longleftrightarrow> xs = []"
  by (cases xs) (auto split: option.splits)

text \<open>
  The loop that forgets conversations ends, with at most the tracked number left; it only forgets the ones not
  seen for the longest: none it keeps was last seen before one it drops.
\<close>

theorem evict_stale_bounds:
  assumes "keys_distinct (mo_last_seen mo)"
  shows "length (mo_last_seen (evict_stale mo)) \<le> MAX_TRACKED
    \<and> set (mo_last_seen (evict_stale mo)) \<subseteq> set (mo_last_seen mo)
    \<and> (\<forall>x \<in> set (mo_last_seen mo) - set (mo_last_seen (evict_stale mo)). \<forall>y \<in> set (mo_last_seen (evict_stale mo)). snd x \<le> snd y)"
  using assms
proof (induction mo rule: evict_stale.induct)
  case (1 mo)
  show ?case
  proof (cases "MAX_TRACKED < length (mo_last_seen mo)")
    case False
    then show ?thesis by (simp add: evict_stale.simps [of mo])
  next
    case True
    then have "mo_last_seen mo \<noteq> []" by auto
    then obtain v where v: "min_first (mo_last_seen mo) = Some v" using min_first_None by fastforce
    let ?m = "drop_conversation (fst v) mo"
    have e: "evict_stale mo = evict_stale ?m" using True v by (simp add: evict_stale.simps [of mo])
    have m: "mo_last_seen ?m = hm_remove (fst v) (mo_last_seen mo)" by (simp add: drop_conversation_def)
    note l = min_first_least [OF v]
    have s: "set (mo_last_seen mo) - set (mo_last_seen ?m) \<subseteq> {v}"
    proof
      fix x assume x: "x \<in> set (mo_last_seen mo) - set (mo_last_seen ?m)"
      then have "fst x = fst v" by (auto simp: m hm_remove_def)
      with x l "1.prems" eq_key_imp_eq_value [of "mo_last_seen mo" "fst v" "snd x" "snd v"] show "x \<in> {v}"
        by (cases x, cases v) (auto simp: keys_distinct_def)
    qed
    have "set (mo_last_seen ?m) \<subseteq> set (mo_last_seen mo)" by (auto simp: m hm_remove_def)
    moreover have "keys_distinct (mo_last_seen ?m)" using "1.prems" by (simp add: m)
    moreover note IH = "1.IH" [OF True v]
    ultimately have I: "length (mo_last_seen (evict_stale ?m)) \<le> MAX_TRACKED"
      "set (mo_last_seen (evict_stale ?m)) \<subseteq> set (mo_last_seen mo)"
      "\<And>x y. x \<in> set (mo_last_seen ?m) - set (mo_last_seen (evict_stale ?m)) \<Longrightarrow> y \<in> set (mo_last_seen (evict_stale ?m)) \<Longrightarrow> snd x \<le> snd y"
      by blast+
    have "snd x \<le> snd y" if x: "x \<in> set (mo_last_seen mo) - set (mo_last_seen (evict_stale ?m))"
      and y: "y \<in> set (mo_last_seen (evict_stale ?m))" for x y
    proof (cases "x \<in> set (mo_last_seen ?m)")
      case True
      with I(3) x y show ?thesis by blast
    next
      case False
      with x s have "x = v" by blast
      with l I(2) y show ?thesis by blast
    qed
    with I(1,2) show ?thesis unfolding e by blast
  qed
qed

theorem evict_stale_bounds_witness:
  "length (mo_last_seen (evict_stale (monitor_new\<lparr>mo_last_seen := [(''c'', 3), (''d'', 4)]\<rparr>))) \<le> MAX_TRACKED"
proof -
  have "keys_distinct (mo_last_seen (monitor_new\<lparr>mo_last_seen := [(''c'', 3), (''d'', 4)]\<rparr>))" by (simp add: keys_distinct_def)
  from evict_stale_bounds [OF this] show ?thesis by blast
qed

end
