(* ===== verification/Hooks_Settings.thy ===== *)
theory Hooks_Settings
  imports Engine_Unmask
begin

text \<open>
  The settings plumbing of \<open>sordino-hooks\<close> (\<open>main.rs\<close>): what \<open>settings_enable\<close> writes into a project's
  Claude Code settings, what \<open>settings_disable_at\<close> takes out again, and who owns which entry. A JSON object is
  the list of its members in order (\<open>serde_json\<close> with \<open>preserve_order\<close>): an insert replaces in place or appends,
  a removal puts the last member into the gap. The JSON parser and printer are parameters; a file is missing,
  unreadable or a text.
\<close>

section \<open>Objects\<close>

fun jm_put :: "string \<Rightarrow> json \<Rightarrow> (string \<times> json) list \<Rightarrow> (string \<times> json) list" where
  "jm_put k v [] = [(k, v)]"
| "jm_put k v ((l, w) # r) = (if l = k then (k, v) # r else (l, w) # jm_put k v r)"

fun jm_remove :: "string \<Rightarrow> (string \<times> json) list \<Rightarrow> (string \<times> json) list" where
  "jm_remove k [] = []"
| "jm_remove k ((l, w) # r) = (if l = k then (if r = [] then [] else last r # butlast r) else (l, w) # jm_remove k r)"

definition jmembers :: "json \<Rightarrow> (string \<times> json) list option" where
  "jmembers v = (case v of JObj ob \<Rightarrow> Some ob | _ \<Rightarrow> None)"

definition jfield :: "string \<Rightarrow> json \<Rightarrow> json option" where
  "jfield k v = Option.bind (jmembers v) (\<lambda>ob. map_of ob k)"

definition jpath :: "string \<Rightarrow> string \<Rightarrow> json \<Rightarrow> json option" where
  "jpath a b v = Option.bind (jfield a v) (jfield b)"

definition jstr :: "json option \<Rightarrow> string option" where
  "jstr v = (case v of Some (JStr s) \<Rightarrow> Some s | _ \<Rightarrow> None)"

definition str_default :: "string option \<Rightarrow> string" where
  "str_default s = (case s of Some t \<Rightarrow> t | None \<Rightarrow> [])"

text \<open>\<open>ensure_object\<close>: the members under a key, an empty object put there if it is absent or no object.\<close>

definition ensure_object :: "string \<Rightarrow> (string \<times> json) list \<Rightarrow> (string \<times> json) list" where
  "ensure_object k ob = (case map_of ob k of Some (JObj m) \<Rightarrow> m | _ \<Rightarrow> [])"

section \<open>Numbers and URLs\<close>

fun digits_nat :: "nat \<Rightarrow> string \<Rightarrow> nat option" where
  "digits_nat n [] = Some n"
| "digits_nat n (c # s) = (if 48 \<le> ord c \<and> ord c < 58 then digits_nat (10 * n + (ord c - 48)) s else None)"

text \<open>\<open>str::parse\<close> of an unsigned integer below \<open>bound\<close>: an optional plus sign, then digits.\<close>

definition parse_unsigned :: "nat \<Rightarrow> string \<Rightarrow> nat option" where
  "parse_unsigned bound s =
     (let d = (case s of c # r \<Rightarrow> if c = CHR ''+'' \<and> r \<noteq> [] then r else s | [] \<Rightarrow> s)
      in if d = [] then None
         else case digits_nat 0 d of Some n \<Rightarrow> if n < bound then Some n else None | None \<Rightarrow> None)"

definition parse_u16 :: "string \<Rightarrow> nat option" where
  "parse_u16 s = parse_unsigned 65536 s"

definition json_port :: "json \<Rightarrow> nat option" where
  "json_port v =
     (case v of
        JStr s \<Rightarrow> parse_u16 s
      | JNum s \<Rightarrow> (case digits_nat 0 s of Some n \<Rightarrow> if s \<noteq> [] \<and> n < 65536 then Some n else None | None \<Rightarrow> None)
      | _ \<Rightarrow> None)"

definition trim_slashes :: "string \<Rightarrow> string" where
  "trim_slashes s = rev (dropWhile (\<lambda>c. c = CHR ''/'') (rev s))"

definition base_url_matches :: "string \<Rightarrow> string \<Rightarrow> bool" where
  "base_url_matches have' want \<longleftrightarrow>
     trim_slashes have' = trim_slashes want \<or> starts_with (trim_slashes want @ ''/'') (trim_slashes have')"

text \<open>Before and after the last colon.\<close>

definition rsplit_colon :: "string \<Rightarrow> (string \<times> string) option" where
  "rsplit_colon s =
     (let t = takeWhile (\<lambda>c. c \<noteq> CHR '':'') (rev s)
      in if length t = length s then None else Some (take (length s - length t - 1) s, rev t))"

definition is_sordino_base_url :: "string \<Rightarrow> nat option \<Rightarrow> bool" where
  "is_sordino_base_url url co_key \<longleftrightarrow>
     (let u = trim_slashes (trim url)
      in starts_with ''http://'' u
         \<and> (case rsplit_colon (drop 7 u) of
              None \<Rightarrow> False
            | Some (host, port) \<Rightarrow>
                (host = ''127.0.0.1'' \<or> host = ''localhost'') \<and> CHR ''/'' \<notin> set port
                \<and> (case parse_u16 port of Some p \<Rightarrow> co_key = Some p | None \<Rightarrow> False)))"

section \<open>The status line\<close>

definition STATUSLINE_NEEDLES :: "string list" where
  "STATUSLINE_NEEDLES = [''sordino-hooks statusline'', ''sordino-hooks.exe statusline'']"

text \<open>An occurrence at the start or after a path separator; \<open>at_base\<close> says that the cursor is such a place.\<close>

fun needle_at_base :: "string \<Rightarrow> bool \<Rightarrow> string \<Rightarrow> bool" where
  "needle_at_base n at_base [] = False"
| "needle_at_base n at_base (c # s) =
     ((at_base \<and> starts_with n (c # s)) \<or> needle_at_base n (c = CHR ''/'' \<or> c = CHR 0x5C) s)"

definition is_sordino_statusline :: "string \<Rightarrow> bool" where
  "is_sordino_statusline cmd \<longleftrightarrow> list_ex (\<lambda>n. needle_at_base n True cmd) STATUSLINE_NEEDLES"

definition statusline_cmd :: "json \<Rightarrow> string" where
  "statusline_cmd v = str_default (jstr (jpath ''statusLine'' ''command'' v))"

definition own_line :: "json \<Rightarrow> json option" where
  "own_line v = (case jfield ''statusLine'' v of Some l \<Rightarrow> if l = JNull then None else Some l | None \<Rightarrow> None)"

definition effective_user_statusline :: "json \<Rightarrow> json \<Rightarrow> json option" where
  "effective_user_statusline local_v committed_v =
     (if is_sordino_statusline (statusline_cmd local_v) then None
      else case own_line local_v of
             Some l \<Rightarrow> Some l
           | None \<Rightarrow> (if is_sordino_statusline (statusline_cmd committed_v) then None else own_line committed_v))"

section \<open>The rules and entries of our own\<close>

definition DENY_RULES :: "string list" where
  "DENY_RULES =
     [''Bash(sordino-hooks:*)'', ''Bash(sordino-proxy:*)'', ''Bash(*/sordino-hooks:*)'', ''Bash(*/sordino-proxy:*)'']"

definition ASK_RULES :: "string list" where
  "ASK_RULES = [''Edit(/sordino.toml)'', ''Edit(/sordino.local.toml)'']"

definition permission_rule_sets :: "(string \<times> string list) list" where
  "permission_rule_sets = [(''deny'', DENY_RULES), (''ask'', ASK_RULES)]"

text \<open>The prose of the auto-mode entries.\<close>

record automode_texts =
  an_environment :: "string list"
  an_soft_deny :: "string list"

definition automode_entry_sets :: "automode_texts \<Rightarrow> (string \<times> string list) list" where
  "automode_entry_sets T = [(''environment'', an_environment T), (''soft_deny'', an_soft_deny T)]"

datatype settings_error = NotAnArray string | NotJson | NotAnObject | WriteFailed | Unreadable

definition has_entry :: "string \<Rightarrow> json list \<Rightarrow> bool" where
  "has_entry w xs \<longleftrightarrow> list_ex (\<lambda>x. jstr (Some x) = Some w) xs"

fun add_entries :: "string list \<Rightarrow> json list \<Rightarrow> json list" where
  "add_entries [] xs = xs"
| "add_entries (w # ws) xs = add_entries ws (if has_entry w xs then xs else xs @ [JStr w])"

definition drop_entries :: "string list \<Rightarrow> json list \<Rightarrow> json list" where
  "drop_entries ws xs = filter (\<lambda>x. \<not> list_ex (\<lambda>w. jstr (Some x) = Some w) ws) xs"

text \<open>\<open>merge_permission_rules\<close> and \<open>merge_automode_entries\<close> on the object they own.\<close>

fun merge_rules :: "(string \<times> string list) list \<Rightarrow> (string \<times> json) list \<Rightarrow> settings_error + (string \<times> json) list" where
  "merge_rules [] perms = Inr perms"
| "merge_rules ((key, wanted) # rest) perms =
     (case (case map_of perms key of Some v \<Rightarrow> v | None \<Rightarrow> JArr []) of
        JArr xs \<Rightarrow> merge_rules rest (jm_put key (JArr (add_entries wanted xs)) perms)
      | _ \<Rightarrow> Inl (NotAnArray key))"

definition merge_permission_rules :: "(string \<times> json) list \<Rightarrow> settings_error + (string \<times> json) list" where
  "merge_permission_rules rt =
     (case merge_rules permission_rule_sets (ensure_object ''permissions'' rt) of
        Inl e \<Rightarrow> Inl e
      | Inr perms \<Rightarrow> Inr (jm_put ''permissions'' (JObj perms) rt))"

definition is_array :: "json \<Rightarrow> bool" where
  "is_array v = (case v of JArr _ \<Rightarrow> True | _ \<Rightarrow> False)"

definition DEFAULTS :: string where "DEFAULTS = ''$defaults''"

definition seeded :: "json option \<Rightarrow> json list" where
  "seeded v = (case v of Some (JArr (x # xs)) \<Rightarrow> x # xs | _ \<Rightarrow> [JStr DEFAULTS])"

fun merge_entries :: "(string \<times> string list) list \<Rightarrow> (string \<times> json) list \<Rightarrow> (string \<times> json) list" where
  "merge_entries [] auto' = auto'"
| "merge_entries ((key, wanted) # rest) auto' =
     merge_entries rest (jm_put key (JArr (add_entries wanted (seeded (map_of auto' key)))) auto')"

definition merge_automode_entries ::
  "automode_texts \<Rightarrow> (string \<times> json) list \<Rightarrow> settings_error + (string \<times> json) list" where
  "merge_automode_entries T rt =
     (let auto' = ensure_object ''autoMode'' rt
      in case find (\<lambda>(key, _). case map_of auto' key of Some v \<Rightarrow> \<not> is_array v | None \<Rightarrow> False) (automode_entry_sets T) of
           Some (key, _) \<Rightarrow> Inl (NotAnArray key)
         | None \<Rightarrow> Inr (jm_put ''autoMode'' (JObj (merge_entries (automode_entry_sets T) auto')) rt))"

definition entries_at :: "string \<Rightarrow> string \<Rightarrow> json \<Rightarrow> json list option" where
  "entries_at tk key v = (case jpath tk key v of Some (JArr xs) \<Rightarrow> Some xs | _ \<Rightarrow> None)"

definition all_present :: "string \<Rightarrow> (string \<times> string list) list \<Rightarrow> json \<Rightarrow> bool" where
  "all_present tk sets v \<longleftrightarrow>
     list_all (\<lambda>(key, wanted). case entries_at tk key v of Some xs \<Rightarrow> list_all (\<lambda>w. has_entry w xs) wanted | None \<Rightarrow> False) sets"

definition any_present :: "string \<Rightarrow> (string \<times> string list) list \<Rightarrow> json \<Rightarrow> bool" where
  "any_present tk sets v \<longleftrightarrow>
     list_ex (\<lambda>(key, wanted). case entries_at tk key v of Some xs \<Rightarrow> list_ex (\<lambda>w. has_entry w xs) wanted | None \<Rightarrow> False) sets"

definition permission_rules_present :: "json \<Rightarrow> bool" where
  "permission_rules_present v = all_present ''permissions'' permission_rule_sets v"

definition any_permission_rule_present :: "json \<Rightarrow> bool" where
  "any_permission_rule_present v = any_present ''permissions'' permission_rule_sets v"

definition automode_entries_present :: "automode_texts \<Rightarrow> json \<Rightarrow> bool" where
  "automode_entries_present T v = all_present ''autoMode'' (automode_entry_sets T) v"

definition any_automode_entry_present :: "automode_texts \<Rightarrow> json \<Rightarrow> bool" where
  "any_automode_entry_present T v = any_present ''autoMode'' (automode_entry_sets T) v"

text \<open>
  The removals; the flag says whether an entry went. An emptied array of rules goes with its key, an auto-mode
  array when it lost an entry and at most the seed is left; an emptied object goes too.
\<close>

fun remove_rules :: "(string \<times> string list) list \<Rightarrow> (string \<times> json) list \<Rightarrow> bool \<times> (string \<times> json) list" where
  "remove_rules [] perms = (False, perms)"
| "remove_rules ((key, ours) # rest) perms =
     (case map_of perms key of
        Some (JArr xs) \<Rightarrow>
          (let ys = drop_entries ours xs;
               (ch, p) = remove_rules rest (if ys = [] then jm_remove key perms else jm_put key (JArr ys) perms)
           in (length ys \<noteq> length xs \<or> ch, p))
      | _ \<Rightarrow> remove_rules rest perms)"

definition remove_permission_rules :: "(string \<times> json) list \<Rightarrow> bool \<times> (string \<times> json) list" where
  "remove_permission_rules rt =
     (case map_of rt ''permissions'' of
        Some (JObj perms) \<Rightarrow>
          (let (ch, p) = remove_rules permission_rule_sets perms
           in (ch, if p = [] then jm_remove ''permissions'' rt else jm_put ''permissions'' (JObj p) rt))
      | _ \<Rightarrow> (False, rt))"

fun remove_entries :: "(string \<times> string list) list \<Rightarrow> (string \<times> json) list \<Rightarrow> bool \<times> (string \<times> json) list" where
  "remove_entries [] auto' = (False, auto')"
| "remove_entries ((key, ours) # rest) auto' =
     (case map_of auto' key of
        Some (JArr xs) \<Rightarrow>
          (let ys = drop_entries ours xs; this = (length ys \<noteq> length xs);
               (ch, p) = remove_entries rest
                 (if this \<and> list_all (\<lambda>x. jstr (Some x) = Some DEFAULTS) ys then jm_remove key auto' else jm_put key (JArr ys) auto')
           in (this \<or> ch, p))
      | _ \<Rightarrow> remove_entries rest auto')"

definition remove_automode_entries :: "automode_texts \<Rightarrow> (string \<times> json) list \<Rightarrow> bool \<times> (string \<times> json) list" where
  "remove_automode_entries T rt =
     (case map_of rt ''autoMode'' of
        Some (JObj auto') \<Rightarrow>
          (let (ch, p) = remove_entries (automode_entry_sets T) auto'
           in (ch, if p = [] then jm_remove ''autoMode'' rt else jm_put ''autoMode'' (JObj p) rt))
      | _ \<Rightarrow> (False, rt))"

section \<open>Plumbing and stripping one settings value\<close>

text \<open>The value that \<open>settings_enable\<close> writes for the one it read.\<close>

definition plumb :: "automode_texts \<Rightarrow> string \<Rightarrow> string \<Rightarrow> string \<Rightarrow> (string \<times> json) list \<Rightarrow> settings_error + (string \<times> json) list" where
  "plumb T url zport statusline rt =
     (let env = jm_put ''SORDINO_PORT'' (JStr zport) (jm_put ''ANTHROPIC_BASE_URL'' (JStr url) (ensure_object ''env'' rt));
          rt = jm_put ''env'' (JObj env) rt;
          rt = jm_put ''statusLine'' (JObj [(''type'', JStr ''command''), (''command'', JStr statusline)]) rt
      in case merge_permission_rules rt of
           Inl e \<Rightarrow> Inl e
         | Inr rt \<Rightarrow> merge_automode_entries T rt)"

definition already_plumbed :: "automode_texts \<Rightarrow> string \<Rightarrow> string \<Rightarrow> json \<Rightarrow> bool" where
  "already_plumbed T url zport v \<longleftrightarrow>
     base_url_matches (str_default (jstr (jpath ''env'' ''ANTHROPIC_BASE_URL'' v))) url
     \<and> str_default (jstr (jpath ''env'' ''SORDINO_PORT'' v)) = zport
     \<and> permission_rules_present v \<and> automode_entries_present T v"

definition base_url_ours :: "json \<Rightarrow> bool" where
  "base_url_ours v \<longleftrightarrow>
     (case jstr (jpath ''env'' ''ANTHROPIC_BASE_URL'' v) of
        Some u \<Rightarrow> is_sordino_base_url u (Option.bind (jpath ''env'' ''SORDINO_PORT'' v) json_port)
      | None \<Rightarrow> False)"

definition strip_env :: "bool \<Rightarrow> (string \<times> json) list \<Rightarrow> (string \<times> json) list" where
  "strip_env ours rt =
     (case map_of rt ''env'' of
        Some (JObj env) \<Rightarrow>
          (let env = jm_remove ''SORDINO_PORT'' env; env = (if ours then jm_remove ''ANTHROPIC_BASE_URL'' env else env)
           in if env = [] then jm_remove ''env'' rt else jm_put ''env'' (JObj env) rt)
      | _ \<Rightarrow> rt)"

text \<open>
  \<open>strip_routing_from\<close> on a parsed value: nothing without wiring of ours, else the value to write and whether
  the saved line went back into it.
\<close>

definition strip_value :: "automode_texts \<Rightarrow> json option \<Rightarrow> json \<Rightarrow> (json \<times> bool) option" where
  "strip_value T restore v =
     (let ours = base_url_ours v; sl = is_sordino_statusline (statusline_cmd v)
      in if \<not> ours \<and> jpath ''env'' ''SORDINO_PORT'' v = None \<and> \<not> sl \<and> \<not> any_permission_rule_present v
            \<and> \<not> any_automode_entry_present T v then None
         else case jmembers v of
           None \<Rightarrow> Some (v, False)
         | Some rt \<Rightarrow>
             (let rt = strip_env ours rt;
                  (rt, back) = (if sl then (case restore of
                                               Some l \<Rightarrow> (jm_put ''statusLine'' l rt, True)
                                             | None \<Rightarrow> (jm_remove ''statusLine'' rt, False))
                                  else (rt, False));
                  rt = snd (remove_permission_rules rt);
                  rt = snd (remove_automode_entries T rt)
              in Some (JObj rt, back)))"

section \<open>The files of a project\<close>

datatype file_state = FMissing | FBad | FText string

record settings_api =
  sa_parse :: "string \<Rightarrow> json option"
  sa_pretty :: "json \<Rightarrow> string"
  sa_compact :: "json \<Rightarrow> string"

record project_files =
  pf_local :: file_state
  pf_committed :: file_state
  pf_sidecar :: file_state

datatype settings_outcome = Changed | NoOp

definition strip_bom :: "string \<Rightarrow> string" where
  "strip_bom s = (if starts_with [CHR 0xEF, CHR 0xBB, CHR 0xBF] s then drop 3 s else s)"

definition load_settings :: "settings_api \<Rightarrow> file_state \<Rightarrow> settings_error + json" where
  "load_settings S f =
     (case f of
        FMissing \<Rightarrow> Inr (JObj [])
      | FBad \<Rightarrow> Inl Unreadable
      | FText t \<Rightarrow> (case sa_parse S (strip_bom t) of Some v \<Rightarrow> Inr v | None \<Rightarrow> Inl NotJson))"

text \<open>\<open>atomic_write_json\<close>; a failed write leaves the file as it was.\<close>

definition written :: "settings_api \<Rightarrow> json \<Rightarrow> file_state" where
  "written S v = FText (sa_pretty S v @ [CHR 0x0A])"

definition strip_file :: "settings_api \<Rightarrow> automode_texts \<Rightarrow> bool \<Rightarrow> json option \<Rightarrow> file_state \<Rightarrow> settings_error + (bool \<times> bool \<times> file_state)" where
  "strip_file S T ok restore f =
     (case f of
        FMissing \<Rightarrow> Inr (False, False, f)
      | FBad \<Rightarrow> Inl Unreadable
      | FText t \<Rightarrow>
          (case sa_parse S (strip_bom t) of
             None \<Rightarrow> Inl NotJson
           | Some v \<Rightarrow>
               (case strip_value T restore v of
                  None \<Rightarrow> Inr (False, False, f)
                | Some (w, back) \<Rightarrow> if ok then Inr (True, back, written S w) else Inl WriteFailed)))"

text \<open>\<open>settings_enable\<close>; the flags say which of the writes (sidecar, committed, local) succeed.\<close>

record write_flags =
  wf_sidecar :: bool
  wf_committed :: bool
  wf_local :: bool

definition settings_enable ::
  "settings_api \<Rightarrow> automode_texts \<Rightarrow> write_flags \<Rightarrow> string \<Rightarrow> string \<Rightarrow> string \<Rightarrow> project_files
     \<Rightarrow> (settings_error + settings_outcome) \<times> project_files" where
  "settings_enable S T ok url zport statusline fs =
     (case load_settings S (pf_local fs) of
        Inl e \<Rightarrow> (Inl e, fs)
      | Inr local_v \<Rightarrow>
          (case jmembers local_v of
             None \<Rightarrow> (Inl NotAnObject, fs)
           | Some rt \<Rightarrow>
               (case load_settings S (pf_committed fs) of
                  Inl e \<Rightarrow> (Inl e, fs)
                | Inr committed_v \<Rightarrow>
                    (let orig = effective_user_statusline local_v committed_v;
                         already = already_plumbed T url zport local_v
                     in if orig \<noteq> None \<and> \<not> wf_sidecar ok then (Inl WriteFailed, fs)
                        else let fs = (case orig of Some l \<Rightarrow> fs\<lparr>pf_sidecar := FText (sa_compact S l @ [CHR 0x0A])\<rparr> | None \<Rightarrow> fs)
                          in case strip_file S T (wf_committed ok) None (pf_committed fs) of
                               Inl e \<Rightarrow> (Inl e, fs)
                             | Inr (_, _, c) \<Rightarrow>
                                 (let fs = fs\<lparr>pf_committed := c\<rparr>
                                  in case plumb T url zport statusline rt of
                                       Inl e \<Rightarrow> (Inl e, fs)
                                     | Inr rt \<Rightarrow>
                                         if wf_local ok then (Inr (if already then NoOp else Changed), fs\<lparr>pf_local := written S (JObj rt)\<rparr>)
                                         else (Inl WriteFailed, fs))))))"

text \<open>\<open>settings_disable_at\<close>: the saved line goes back into the first file that still shows ours.\<close>

definition saved_line :: "settings_api \<Rightarrow> file_state \<Rightarrow> json option" where
  "saved_line S f = (case f of FText t \<Rightarrow> sa_parse S (strip_bom t) | _ \<Rightarrow> None)"

definition settings_disable_at ::
  "settings_api \<Rightarrow> automode_texts \<Rightarrow> write_flags \<Rightarrow> project_files \<Rightarrow> (settings_error + settings_outcome) \<times> project_files" where
  "settings_disable_at S T ok fs =
     (let restore = saved_line S (pf_sidecar fs)
      in case strip_file S T (wf_local ok) restore (pf_local fs) of
           Inl e \<Rightarrow> (Inl e, fs)
         | Inr (did1, back, l) \<Rightarrow>
             (let fs = fs\<lparr>pf_local := l\<rparr>; restore = (if back then None else restore)
              in case strip_file S T (wf_committed ok) restore (pf_committed fs) of
                   Inl e \<Rightarrow> (Inl e, fs)
                 | Inr (did2, _, c) \<Rightarrow>
                     (let fs = fs\<lparr>pf_committed := c\<rparr>
                      in if did1 \<or> did2 then (Inr Changed, fs\<lparr>pf_sidecar := FMissing\<rparr>) else (Inr NoOp, fs))))"

end
