(* ===== verification/Hooks_Settings_Laws.thy ===== *)
theory Hooks_Settings_Laws
  imports Hooks_Settings Sordino_Prelude
begin

text \<open>
  What plumbing a project promises: it adds to the user's settings without taking anything, stripping it again
  gives back the very settings that were there, and only provably own values are removed.
\<close>

section \<open>Objects\<close>

lemma map_of_put [simp]: "map_of (jm_put k v ob) l = (if l = k then Some v else map_of ob l)"
  by (induction ob) auto

lemma put_keys: "map fst (jm_put k v ob) = (if k \<in> set (map fst ob) then map fst ob else map fst ob @ [k])"
  by (induction ob) force+

fun swap_out :: "'a \<Rightarrow> 'a list \<Rightarrow> 'a list" where
  "swap_out k [] = []"
| "swap_out k (l # r) = (if l = k then (if r = [] then [] else last r # butlast r) else l # swap_out k r)"

lemma remove_keys: "map fst (jm_remove k ob) = swap_out k (map fst ob)"
  by (induction ob) (auto simp: last_map map_butlast)

lemma swap_out_append: "k \<notin> set b \<Longrightarrow> swap_out k (b @ s) = b @ swap_out k s"
  by (induction b) auto

lemma swap_out_set: "distinct ks \<Longrightarrow> set (swap_out k ks) = set ks - {k} \<and> distinct (swap_out k ks)"
proof (induction ks)
  case (Cons l r)
  have "r \<noteq> [] \<Longrightarrow> set (last r # butlast r) = set r \<and> distinct (last r # butlast r)"
    using Cons.prems by (cases r rule: rev_cases) auto
  with Cons show ?case by auto
qed simp

lemma distinct_put: "distinct (map fst ob) \<Longrightarrow> distinct (map fst (jm_put k v ob))"
  by (auto simp: put_keys)

lemma distinct_jm_remove: "distinct (map fst ob) \<Longrightarrow> distinct (map fst (jm_remove k ob))"
  by (simp only: remove_keys swap_out_set)

lemma map_of_jm_remove: "distinct (map fst ob) \<Longrightarrow> map_of (jm_remove k ob) l = (if l = k then None else map_of ob l)"
proof (induction ob)
  case (Cons x r)
  obtain a v where x: "x = (a, v)" by force
  show ?case
  proof (cases "a = k")
    case True
    have n: "k \<notin> fst ` set r" using Cons.prems x True by simp
    have "map_of (last r # butlast r) l = map_of r l" if "r \<noteq> []"
    proof -
      obtain b z where "r = b @ [z]" using \<open>r \<noteq> []\<close> by (metis rev_exhaust)
      then obtain w y where r: "r = b @ [(w, y)]" by (cases z) auto
      with Cons.prems x have "w \<notin> fst ` set b" by auto
      then have "map_of b w = None" by (simp add: map_of_eq_None_iff)
      then show ?thesis using r by (auto simp: map_add_def split: option.split)
    qed
    then have e: "map_of (if r = [] then [] else last r # butlast r) l = map_of r l" by (cases "r = []") (simp_all del: map_of.simps)
    have "map_of r k = None" using n by (simp add: map_of_eq_None_iff)
    with True x e show ?thesis by (auto simp del: map_of.simps(2) simp: map_of_Cons_code)
  next
    case False
    with Cons x show ?thesis by auto
  qed
qed simp

text \<open>An object is its keys in order and its members.\<close>

lemma object_eqI:
  assumes "map fst xs = map fst ys" "distinct (map fst ys)" "\<And>k. map_of xs k = map_of ys k"
  shows "xs = ys"
proof (rule nth_equalityI)
  show l: "length xs = length ys" using arg_cong [OF assms(1), of length] by simp
  fix i assume i: "i < length xs"
  have k: "fst (xs ! i) = fst (ys ! i)" using i l assms(1) by (metis nth_map)
  have "map_of xs (fst (xs ! i)) = Some (snd (xs ! i))"
    using i assms(1,2) by (intro map_of_is_SomeI) (auto simp: nth_mem)
  moreover have "map_of ys (fst (ys ! i)) = Some (snd (ys ! i))"
    using i l assms(2) by (intro map_of_is_SomeI) (auto simp: nth_mem)
  ultimately show "xs ! i = ys ! i" using k assms(3) by (metis option.inject prod.expand)
qed

section \<open>Entries\<close>

lemma jstr_iff: "jstr (Some x) = Some w \<longleftrightarrow> x = JStr w"
  by (cases x) (auto simp: jstr_def)

lemma has_entry_iff: "has_entry w xs \<longleftrightarrow> JStr w \<in> set xs"
  by (auto simp: has_entry_def list_ex_iff jstr_iff)

lemma add_entries_form:
  "\<exists>ys. add_entries ws xs = xs @ map JStr ys \<and> set ys = {w \<in> set ws. JStr w \<notin> set xs} \<and> distinct ys"
proof (induction ws arbitrary: xs)
  case (Cons w ws)
  show ?case
  proof (cases "JStr w \<in> set xs")
    case True
    with Cons.IH [of xs] show ?thesis by (auto simp: has_entry_iff)
  next
    case False
    from Cons.IH [of "xs @ [JStr w]"] obtain ys where "add_entries ws (xs @ [JStr w]) = (xs @ [JStr w]) @ map JStr ys"
      "set ys = {v \<in> set ws. JStr v \<notin> set (xs @ [JStr w])}" "distinct ys" by blast
    with False show ?thesis by (intro exI [of _ "w # ys"]) (auto simp: has_entry_iff)
  qed
qed simp

lemma drop_entries_iff: "drop_entries ws xs = filter (\<lambda>x. x \<notin> JStr ` set ws) xs"
  unfolding drop_entries_def
  by (rule filter_cong) (auto simp: list_ex_iff jstr_iff)

lemma drop_add: "JStr ` set ws \<inter> set xs = {} \<Longrightarrow> drop_entries ws (add_entries ws xs) = xs"
proof -
  assume d: "JStr ` set ws \<inter> set xs = {}"
  obtain ys where y: "add_entries ws xs = xs @ map JStr ys" "set ys = {w \<in> set ws. JStr w \<notin> set xs}"
    using add_entries_form by blast
  have "filter (\<lambda>x. x \<notin> JStr ` set ws) xs = xs" using d by (auto simp: filter_id_conv)
  moreover have "filter (\<lambda>x. x \<notin> JStr ` set ws) (map JStr ys) = []" using y(2) by (auto simp: filter_empty_conv)
  ultimately show ?thesis by (simp add: drop_entries_iff y(1))
qed

lemma add_entries_grows: "ws \<noteq> [] \<Longrightarrow> JStr ` set ws \<inter> set xs = {} \<Longrightarrow> length xs < length (add_entries ws xs)"
proof -
  assume w: "ws \<noteq> []" "JStr ` set ws \<inter> set xs = {}"
  obtain ys where y: "add_entries ws xs = xs @ map JStr ys" "set ys = {w \<in> set ws. JStr w \<notin> set xs}"
    using add_entries_form by blast
  with w have "ys \<noteq> []" by (cases ws) auto
  with y show ?thesis by simp
qed

section \<open>The user's own settings\<close>

definition none_ours :: "string list \<Rightarrow> json list \<Rightarrow> bool" where
  "none_ours ws xs \<longleftrightarrow> JStr ` set ws \<inter> set xs = {}"

lemma none_ours_Nil [simp]: "none_ours ws []"
  by (simp add: none_ours_def)

text \<open>Settings that carry nothing of ours and no empty containers, which a removal would tidy away.\<close>

definition clean_rules :: "(string \<times> string list) list \<Rightarrow> (string \<times> json) list \<Rightarrow> bool" where
  "clean_rules sets p \<longleftrightarrow>
     distinct (map fst p) \<and> (\<forall>(k, ws)\<in>set sets. \<forall>v. map_of p k = Some v \<longrightarrow> (\<exists>xs. v = JArr xs \<and> xs \<noteq> [] \<and> none_ours ws xs))"

definition clean_entries :: "(string \<times> string list) list \<Rightarrow> (string \<times> json) list \<Rightarrow> bool" where
  "clean_entries sets p \<longleftrightarrow>
     distinct (map fst p) \<and> (\<forall>(k, ws)\<in>set sets. ws \<noteq> [] \<and> DEFAULTS \<notin> set ws
       \<and> (\<forall>v. map_of p k = Some v \<longrightarrow> (\<exists>xs. v = JArr xs \<and> \<not> set xs \<subseteq> {JStr DEFAULTS} \<and> none_ours ws xs)))"

lemma swap_out_fresh: "k \<notin> set ks \<Longrightarrow> swap_out k (ks @ [k]) = ks"
  by (simp add: swap_out_append)

text \<open>
  Two keys are set and undone one after the other: what was absent is removed, what was there put back. The
  object is the one before, members and order.
\<close>

lemma two_keys_undone:
  fixes w1 w2
  assumes d: "distinct (map fst p)" and k: "k1 \<noteq> k2"
    and b1: "map_of p k1 = (if b1 then None else Some v1)" and b2: "map_of p k2 = (if b2 then None else Some v2)"
  defines "q \<equiv> jm_put k2 w2 (jm_put k1 w1 p)"
  defines "r \<equiv> (if b1 then jm_remove k1 q else jm_put k1 v1 q)"
  shows "(if b2 then jm_remove k2 r else jm_put k2 v2 r) = p" "map_of r k2 = Some w2"
proof -
  have dq: "distinct (map fst q)" unfolding q_def by (simp only: d distinct_put)
  have dr: "distinct (map fst r)" using dq by (cases b1) (simp_all only: r_def if_True if_False distinct_put distinct_jm_remove)
  have r: "map_of r k = (if k = k1 then map_of p k else map_of q k)" for k
    using b1 dq by (cases b1) (auto simp: r_def map_of_jm_remove)
  show "map_of r k2 = Some w2" using r k by (simp add: q_def)
  let ?r2 = "if b2 then jm_remove k2 r else jm_put k2 v2 r"
  have m: "map_of ?r2 k = map_of p k" for k
    using b2 dr r by (cases b2) (auto simp: map_of_jm_remove q_def)
  have i: "(x \<in> set (map fst p)) = (map_of p x \<noteq> None)" for x by (auto simp: map_of_eq_None_iff)
  have "map fst ?r2 = map fst p"
    using b1 b2 i [of k1] i [of k2] k
    by (cases b1; cases b2) (simp_all add: r_def q_def put_keys remove_keys swap_out_append)
  from object_eqI [OF this d m] show "?r2 = p" .
qed

lemma some_own_added: "none_ours ws xs \<Longrightarrow> w \<in> set ws \<Longrightarrow> list_ex (\<lambda>w. has_entry w (add_entries ws xs)) ws"
proof -
  assume a: "none_ours ws xs" "w \<in> set ws"
  obtain ys where "add_entries ws xs = xs @ map JStr ys" "set ys = {w \<in> set ws. JStr w \<notin> set xs}"
    using add_entries_form by blast
  with a show ?thesis unfolding list_ex_iff by (intro bexI [of _ w]) (auto simp: has_entry_iff none_ours_def)
qed

lemma drop_add_ours: "none_ours ws xs \<Longrightarrow> drop_entries ws (add_entries ws xs) = xs"
  by (simp add: none_ours_def drop_add)

definition marks :: "(string \<times> string list) list \<Rightarrow> (string \<times> json) list \<Rightarrow> bool" where
  "marks sets q \<longleftrightarrow>
     list_ex (\<lambda>(k, ws). case map_of q k of Some (JArr xs) \<Rightarrow> list_ex (\<lambda>w. has_entry w xs) ws | _ \<Rightarrow> False) sets"

text \<open>Rules that were merged in go out again.\<close>

lemma rules_round_trip:
  assumes "clean_rules permission_rule_sets p"
  shows "\<exists>q. merge_rules permission_rule_sets p = Inr q \<and> snd (remove_rules permission_rule_sets q) = p
    \<and> marks permission_rule_sets q"
proof -
  define D where "D = (case map_of p ''deny'' of Some (JArr xs) \<Rightarrow> xs | _ \<Rightarrow> [])"
  define K where "K = (case map_of p ''ask'' of Some (JArr xs) \<Rightarrow> xs | _ \<Rightarrow> [])"
  have cl: "distinct (map fst p)"
    and de: "map_of p ''deny'' = (if D = [] then None else Some (JArr D))" "none_ours DENY_RULES D"
    and as: "map_of p ''ask'' = (if K = [] then None else Some (JArr K))" "none_ours ASK_RULES K"
    using assms by (auto simp: clean_rules_def permission_rule_sets_def D_def K_def split: option.splits)
  let ?q = "jm_put ''ask'' (JArr (add_entries ASK_RULES K)) (jm_put ''deny'' (JArr (add_entries DENY_RULES D)) p)"
  have m: "merge_rules permission_rule_sets p = Inr ?q"
    using de(1) as(1) by (auto simp: permission_rule_sets_def)
  note U = two_keys_undone [OF cl _ de(1) as(1), of "JArr (add_entries ASK_RULES K)" "JArr (add_entries DENY_RULES D)"]
  have "snd (remove_rules permission_rule_sets ?q) = p"
    using U drop_add_ours [OF de(2)] drop_add_ours [OF as(2)]
    by (auto simp: permission_rule_sets_def Let_def split_beta)
  moreover have "marks permission_rule_sets ?q"
    using some_own_added [OF de(2), of "''Bash(sordino-hooks:*)''"]
    by (simp add: marks_def permission_rule_sets_def) (simp add: DENY_RULES_def)
  ultimately show ?thesis using m by blast
qed

lemma seeded_clean:
  assumes "clean_entries sets p" "(k, ws) \<in> set sets"
  defines "b \<equiv> map_of p k = None"
  defines "X \<equiv> seeded (map_of p k)"
  shows "map_of p k = (if b then None else Some (JArr X))" "none_ours ws X"
    "length (drop_entries ws (add_entries ws X)) \<noteq> length (add_entries ws X)"
    "list_all (\<lambda>x. jstr (Some x) = Some DEFAULTS) (drop_entries ws (add_entries ws X)) = b"
    "list_ex (\<lambda>w. has_entry w (add_entries ws X)) ws"
proof -
  have s: "ws \<noteq> []" "DEFAULTS \<notin> set ws"
    "\<And>v. map_of p k = Some v \<Longrightarrow> \<exists>xs. v = JArr xs \<and> \<not> set xs \<subseteq> {JStr DEFAULTS} \<and> none_ours ws xs"
    using assms(1,2) by (auto simp: clean_entries_def)
  have X: "if b then X = [JStr DEFAULTS] else map_of p k = Some (JArr X) \<and> \<not> set X \<subseteq> {JStr DEFAULTS} \<and> none_ours ws X"
  proof (cases "map_of p k")
    case None
    then show ?thesis by (simp add: b_def X_def seeded_def)
  next
    case (Some v)
    with s(3) [OF Some] obtain xs where "v = JArr xs" "\<not> set xs \<subseteq> {JStr DEFAULTS}" "none_ours ws xs" by blast
    with Some show ?thesis by (cases xs) (auto simp: b_def X_def seeded_def)
  qed
  show "map_of p k = (if b then None else Some (JArr X))" using X by (auto simp: b_def)
  show n: "none_ours ws X" using X s(2) by (cases b) (auto simp: none_ours_def)
  show "length (drop_entries ws (add_entries ws X)) \<noteq> length (add_entries ws X)"
    using add_entries_grows [OF s(1), of X] n by (simp add: drop_add_ours none_ours_def)
  show "list_all (\<lambda>x. jstr (Some x) = Some DEFAULTS) (drop_entries ws (add_entries ws X)) = b"
    unfolding drop_add_ours [OF n] jstr_iff using X by (cases b) (auto simp: list_all_iff)
  show "list_ex (\<lambda>w. has_entry w (add_entries ws X)) ws"
    using some_own_added [OF n, of "hd ws"] s(1) by simp
qed

lemma remove_entries_step:
  "map_of q k = Some (JArr xs) \<Longrightarrow> drop_entries ws xs = ys \<Longrightarrow> length ys \<noteq> length xs
    \<Longrightarrow> list_all (\<lambda>x. jstr (Some x) = Some DEFAULTS) ys = b
    \<Longrightarrow> snd (remove_entries ((k, ws) # rest) q) = snd (remove_entries rest (if b then jm_remove k q else jm_put k (JArr ys) q))"
  by (simp add: Let_def split_beta)

lemma entries_round_trip:
  assumes c: "clean_entries (automode_entry_sets T) p"
  shows "snd (remove_entries (automode_entry_sets T) (merge_entries (automode_entry_sets T) p)) = p"
    and "marks (automode_entry_sets T) (merge_entries (automode_entry_sets T) p)"
    and "find (\<lambda>(key, _). case map_of p key of Some v \<Rightarrow> \<not> is_array v | None \<Rightarrow> False) (automode_entry_sets T) = None"
proof -
  let ?E = "seeded (map_of p ''environment'')" and ?S = "seeded (map_of p ''soft_deny'')"
  let ?AE = "add_entries (an_environment T) ?E" and ?AS = "add_entries (an_soft_deny T) ?S"
  have i: "(''environment'', an_environment T) \<in> set (automode_entry_sets T)"
    "(''soft_deny'', an_soft_deny T) \<in> set (automode_entry_sets T)" by (simp_all add: automode_entry_sets_def)
  note E = seeded_clean [OF c i(1)] and S = seeded_clean [OF c i(2)]
  have m: "merge_entries (automode_entry_sets T) p = jm_put ''soft_deny'' (JArr ?AS) (jm_put ''environment'' (JArr ?AE) p)"
    by (simp add: automode_entry_sets_def)
  have cl: "distinct (map fst p)" using c by (simp add: clean_entries_def)
  define q where "q = jm_put ''soft_deny'' (JArr ?AS) (jm_put ''environment'' (JArr ?AE) p)"
  define r where "r = (if map_of p ''environment'' = None then jm_remove ''environment'' q
    else jm_put ''environment'' (JArr ?E) q)"
  have U: "(if map_of p ''soft_deny'' = None then jm_remove ''soft_deny'' r else jm_put ''soft_deny'' (JArr ?S) r) = p"
    "map_of r ''soft_deny'' = Some (JArr ?AS)"
    using two_keys_undone [OF cl _ E(1) S(1), of "JArr ?AS" "JArr ?AE"] by (simp_all only: q_def [symmetric] r_def [symmetric]) simp_all
  have q: "map_of q ''environment'' = Some (JArr ?AE)" by (simp add: q_def)
  note D = drop_add_ours [OF E(2)] drop_add_ours [OF S(2)]
  have "snd (remove_entries (automode_entry_sets T) q) = snd (remove_entries [(''soft_deny'', an_soft_deny T)] r)"
    unfolding automode_entry_sets_def r_def
    by (rule remove_entries_step [OF q D(1)]) (use E(3,4) in \<open>simp_all only: D simp_thms\<close>)
  also have "\<dots> = snd (remove_entries []
      (if map_of p ''soft_deny'' = None then jm_remove ''soft_deny'' r else jm_put ''soft_deny'' (JArr ?S) r))"
    by (rule remove_entries_step [OF U(2) D(2)]) (use S(3,4) in \<open>simp_all only: D simp_thms\<close>)
  finally have "snd (remove_entries (automode_entry_sets T) q)
      = (if map_of p ''soft_deny'' = None then jm_remove ''soft_deny'' r else jm_put ''soft_deny'' (JArr ?S) r)" by simp
  then show "snd (remove_entries (automode_entry_sets T) (merge_entries (automode_entry_sets T) p)) = p"
    unfolding m q_def [symmetric] U(1) .
  show "marks (automode_entry_sets T) (merge_entries (automode_entry_sets T) p)"
    unfolding m using E(5) by (simp add: marks_def automode_entry_sets_def)
  show "find (\<lambda>(key, _). case map_of p key of Some v \<Rightarrow> \<not> is_array v | None \<Rightarrow> False) (automode_entry_sets T) = None"
  proof -
    have "is_array v" if "map_of p k = (if b then None else Some (JArr xs))" "map_of p k = Some v" for k b v xs
      using that by (auto simp: is_array_def split: if_splits)
    from this [OF E(1)] this [OF S(1)] show ?thesis by (auto simp: automode_entry_sets_def split: option.split)
  qed
qed

section \<open>The round trip\<close>

text \<open>A settings object of the user: no wiring of ours, no container that is empty or of another type.\<close>

definition user_settings :: "automode_texts \<Rightarrow> (string \<times> json) list \<Rightarrow> bool" where
  "user_settings T u \<longleftrightarrow>
     distinct (map fst u)
     \<and> (\<forall>v. map_of u ''env'' = Some v \<longrightarrow> (\<exists>m. v = JObj m \<and> m \<noteq> [] \<and> distinct (map fst m)
          \<and> map_of m ''ANTHROPIC_BASE_URL'' = None \<and> map_of m ''SORDINO_PORT'' = None))
     \<and> (\<forall>v. map_of u ''permissions'' = Some v \<longrightarrow> (\<exists>m. v = JObj m \<and> m \<noteq> [] \<and> clean_rules permission_rule_sets m))
     \<and> (\<forall>v. map_of u ''autoMode'' = Some v \<longrightarrow> (\<exists>m. v = JObj m \<and> m \<noteq> [] \<and> clean_entries (automode_entry_sets T) m))
     \<and> clean_entries (automode_entry_sets T) []
     \<and> map_of u ''statusLine'' \<noteq> Some JNull \<and> \<not> is_sordino_statusline (statusline_cmd (JObj u))"

lemma env_round_trip:
  assumes "map_of m ''ANTHROPIC_BASE_URL'' = None" "map_of m ''SORDINO_PORT'' = None"
  shows "jm_remove ''ANTHROPIC_BASE_URL'' (jm_remove ''SORDINO_PORT''
      (jm_put ''SORDINO_PORT'' z (jm_put ''ANTHROPIC_BASE_URL'' b m))) = m"
proof -
  have app: "map_of m k = None \<Longrightarrow> jm_put k v m = m @ [(k, v)]" "map_of m k = None \<Longrightarrow> jm_remove k (m @ [(k, v)]) = m" for k v m
    by (induction m) (auto split: if_splits)
  have b: "jm_put ''ANTHROPIC_BASE_URL'' b m = m @ [(''ANTHROPIC_BASE_URL'', b)]" using app(1) assms(1) by blast
  have z: "jm_put ''SORDINO_PORT'' z (m @ [(''ANTHROPIC_BASE_URL'', b)]) = (m @ [(''ANTHROPIC_BASE_URL'', b)]) @ [(''SORDINO_PORT'', z)]"
    by (rule app(1)) (simp add: map_add_def assms)
  have "jm_remove ''SORDINO_PORT'' ((m @ [(''ANTHROPIC_BASE_URL'', b)]) @ [(''SORDINO_PORT'', z)]) = m @ [(''ANTHROPIC_BASE_URL'', b)]"
    by (rule app(2)) (simp add: map_add_def assms)
  with app(2) assms(1) show ?thesis unfolding b z by metis
qed

text \<open>Four keys set in turn and undone in turn: what was there is put back in place, what was new is gone.\<close>

definition undo :: "(string \<times> json) list \<Rightarrow> string \<Rightarrow> (string \<times> json) list \<Rightarrow> (string \<times> json) list" where
  "undo u k w = (case map_of u k of None \<Rightarrow> jm_remove k w | Some v \<Rightarrow> jm_put k v w)"

lemma distinct_undo: "distinct (map fst w) \<Longrightarrow> distinct (map fst (undo u k w))"
  by (simp add: undo_def distinct_put distinct_jm_remove split: option.split)

lemma map_of_undo: "distinct (map fst w) \<Longrightarrow> map_of (undo u k w) l = (if l = k then map_of u k else map_of w l)"
  by (auto simp: undo_def map_of_jm_remove split: option.split)

lemma four_keys_undone:
  assumes d: "distinct (map fst u)"
  shows "undo u ''autoMode'' (undo u ''permissions'' (undo u ''statusLine'' (undo u ''env''
     (jm_put ''autoMode'' a (jm_put ''permissions'' p (jm_put ''statusLine'' s (jm_put ''env'' e u))))))) = u"
proof -
  let ?w = "jm_put ''autoMode'' a (jm_put ''permissions'' p (jm_put ''statusLine'' s (jm_put ''env'' e u)))"
  have dw: "distinct (map fst ?w)" using d by (intro distinct_put)
  have m: "map_of (undo u ''autoMode'' (undo u ''permissions'' (undo u ''statusLine'' (undo u ''env'' ?w)))) k = map_of u k" for k
    by (simp add: map_of_undo distinct_undo dw)
  have i: "(k \<in> set (map fst u)) = (map_of u k \<noteq> None)" for k by (auto simp: map_of_eq_None_iff)
  have "map fst (undo u ''autoMode'' (undo u ''permissions'' (undo u ''statusLine'' (undo u ''env'' ?w)))) = map fst u"
    using i [of "''env''"] i [of "''statusLine''"] i [of "''permissions''"] i [of "''autoMode''"]
    by (cases "map_of u ''env''"; cases "map_of u ''statusLine''"; cases "map_of u ''permissions''"; cases "map_of u ''autoMode''")
      (simp_all add: undo_def put_keys remove_keys swap_out_append)
  from object_eqI [OF this d m] show ?thesis .
qed

lemma plumb_env:
  assumes "user_settings T u"
  shows "jm_remove ''ANTHROPIC_BASE_URL'' (jm_remove ''SORDINO_PORT''
      (jm_put ''SORDINO_PORT'' z (jm_put ''ANTHROPIC_BASE_URL'' b (ensure_object ''env'' u)))) = ensure_object ''env'' u"
    "(ensure_object ''env'' u = []) = (map_of u ''env'' = None)" "\<And>v. map_of u ''env'' = Some v \<Longrightarrow> v = JObj (ensure_object ''env'' u)"
proof -
  have e: "map_of u ''env'' = None \<or> (\<exists>m. map_of u ''env'' = Some (JObj m) \<and> m \<noteq> []
      \<and> map_of m ''ANTHROPIC_BASE_URL'' = None \<and> map_of m ''SORDINO_PORT'' = None)"
    using assms by (cases "map_of u ''env''") (auto simp: user_settings_def)
  show "jm_remove ''ANTHROPIC_BASE_URL'' (jm_remove ''SORDINO_PORT''
      (jm_put ''SORDINO_PORT'' z (jm_put ''ANTHROPIC_BASE_URL'' b (ensure_object ''env'' u)))) = ensure_object ''env'' u"
    using e by (intro env_round_trip) (auto simp: ensure_object_def)
  show "(ensure_object ''env'' u = []) = (map_of u ''env'' = None)" "\<And>v. map_of u ''env'' = Some v \<Longrightarrow> v = JObj (ensure_object ''env'' u)"
    using e by (auto simp: ensure_object_def)
qed

lemma ensure_clean:
  assumes "\<And>v. map_of u k = Some v \<Longrightarrow> \<exists>m. v = JObj m \<and> m \<noteq> [] \<and> q m" "q []"
  shows "q (ensure_object k u)" "(ensure_object k u = []) = (map_of u k = None)" "\<And>v. map_of u k = Some v \<Longrightarrow> v = JObj (ensure_object k u)"
  using assms by (cases "map_of u k"; auto simp: ensure_object_def)+

lemma user_parts:
  assumes u: "user_settings T u"
  shows "clean_rules permission_rule_sets (ensure_object ''permissions'' u)"
    "(ensure_object ''permissions'' u = []) = (map_of u ''permissions'' = None)"
    "\<And>v. map_of u ''permissions'' = Some v \<Longrightarrow> v = JObj (ensure_object ''permissions'' u)"
    "clean_entries (automode_entry_sets T) (ensure_object ''autoMode'' u)"
    "(ensure_object ''autoMode'' u = []) = (map_of u ''autoMode'' = None)"
    "\<And>v. map_of u ''autoMode'' = Some v \<Longrightarrow> v = JObj (ensure_object ''autoMode'' u)"
proof -
  have p: "\<exists>m. v = JObj m \<and> m \<noteq> [] \<and> clean_rules permission_rule_sets m" if "map_of u ''permissions'' = Some v" for v
    using u that unfolding user_settings_def by blast
  have a: "\<exists>m. v = JObj m \<and> m \<noteq> [] \<and> clean_entries (automode_entry_sets T) m" if "map_of u ''autoMode'' = Some v" for v
    using u that unfolding user_settings_def by blast
  have n: "clean_rules permission_rule_sets []" "clean_entries (automode_entry_sets T) []"
    using u unfolding user_settings_def by (simp_all add: clean_rules_def)
  note E = ensure_clean [where q = "clean_rules permission_rule_sets" and u = u and k = "''permissions''", OF p n(1)]
  note F = ensure_clean [where q = "clean_entries (automode_entry_sets T)" and u = u and k = "''autoMode''", OF a n(2)]
  show "clean_rules permission_rule_sets (ensure_object ''permissions'' u)"
    "(ensure_object ''permissions'' u = []) = (map_of u ''permissions'' = None)"
    "\<And>v. map_of u ''permissions'' = Some v \<Longrightarrow> v = JObj (ensure_object ''permissions'' u)"
    "clean_entries (automode_entry_sets T) (ensure_object ''autoMode'' u)"
    "(ensure_object ''autoMode'' u = []) = (map_of u ''autoMode'' = None)"
    "\<And>v. map_of u ''autoMode'' = Some v \<Longrightarrow> v = JObj (ensure_object ''autoMode'' u)"
    using E F by blast+
qed

text \<open>What plumbing writes: the four members in turn.\<close>

lemma plumb_form:
  assumes u: "user_settings T u"
  obtains P where "merge_rules permission_rule_sets (ensure_object ''permissions'' u) = Inr P"
    "plumb T url zport sl u = Inr
      (jm_put ''autoMode'' (JObj (merge_entries (automode_entry_sets T) (ensure_object ''autoMode'' u)))
        (jm_put ''permissions'' (JObj P) (jm_put ''statusLine'' (JObj [(''type'', JStr ''command''), (''command'', JStr sl)])
          (jm_put ''env'' (JObj (jm_put ''SORDINO_PORT'' (JStr zport) (jm_put ''ANTHROPIC_BASE_URL'' (JStr url) (ensure_object ''env'' u)))) u))))"
    "snd (remove_rules permission_rule_sets P) = ensure_object ''permissions'' u" "marks permission_rule_sets P"
proof -
  have p: "clean_rules permission_rule_sets (ensure_object ''permissions'' u)"
    and a: "clean_entries (automode_entry_sets T) (ensure_object ''autoMode'' u)"
    using user_parts [OF u] by simp_all
  obtain P where P: "merge_rules permission_rule_sets (ensure_object ''permissions'' u) = Inr P"
    "snd (remove_rules permission_rule_sets P) = ensure_object ''permissions'' u" "marks permission_rule_sets P"
    using rules_round_trip [OF p] by blast
  have o: "ensure_object ''permissions'' (jm_put ''statusLine'' s (jm_put ''env'' e u)) = ensure_object ''permissions'' u"
    "ensure_object ''autoMode'' (jm_put ''permissions'' q (jm_put ''statusLine'' s (jm_put ''env'' e u))) = ensure_object ''autoMode'' u" for s e q
    by (simp_all add: ensure_object_def)
  show thesis
    by (rule that [OF P(1) _ P(2,3)])
      (simp add: plumb_def Let_def merge_permission_rules_def o P(1) merge_automode_entries_def entries_round_trip(3) [OF a])
qed

lemma strip_plumbed:
  assumes u: "user_settings T u" and w: "plumb T url zport sl u = Inr w"
    and o: "is_sordino_base_url url (parse_u16 zport)" "is_sordino_statusline sl"
  shows "strip_value T (map_of u ''statusLine'') (JObj w) = Some (JObj u, map_of u ''statusLine'' \<noteq> None)"
proof -
  obtain P where P: "merge_rules permission_rule_sets (ensure_object ''permissions'' u) = Inr P"
    "plumb T url zport sl u = Inr
      (jm_put ''autoMode'' (JObj (merge_entries (automode_entry_sets T) (ensure_object ''autoMode'' u)))
        (jm_put ''permissions'' (JObj P) (jm_put ''statusLine'' (JObj [(''type'', JStr ''command''), (''command'', JStr sl)])
          (jm_put ''env'' (JObj (jm_put ''SORDINO_PORT'' (JStr zport) (jm_put ''ANTHROPIC_BASE_URL'' (JStr url) (ensure_object ''env'' u)))) u))))"
    "snd (remove_rules permission_rule_sets P) = ensure_object ''permissions'' u" "marks permission_rule_sets P"
    by (rule plumb_form [OF u])
  define A where "A = merge_entries (automode_entry_sets T) (ensure_object ''autoMode'' u)"
  define V where "V = jm_put ''SORDINO_PORT'' (JStr zport) (jm_put ''ANTHROPIC_BASE_URL'' (JStr url) (ensure_object ''env'' u))"
  define L where "L = JObj [(''type'', JStr ''command''), (''command'', JStr sl)]"
  have we: "w = jm_put ''autoMode'' (JObj A) (jm_put ''permissions'' (JObj P) (jm_put ''statusLine'' L (jm_put ''env'' (JObj V) u)))"
    using w P(2) by (simp add: A_def V_def L_def)
  have du: "distinct (map fst u)" using u unfolding user_settings_def by blast
  have dw: "distinct (map fst w)" using du unfolding we by (intro distinct_put)
  note parts = user_parts [OF u] and env = plumb_env(1) [OF u, of "JStr zport" "JStr url", folded V_def] plumb_env(2,3) [OF u]
  have mw: "map_of w ''env'' = Some (JObj V)" "map_of w ''statusLine'' = Some L" "map_of w ''permissions'' = Some (JObj P)"
    "map_of w ''autoMode'' = Some (JObj A)" by (simp_all add: we)
  have mv: "map_of V ''SORDINO_PORT'' = Some (JStr zport)" "map_of V ''ANTHROPIC_BASE_URL'' = Some (JStr url)"
    by (simp_all add: V_def)
  have ours: "base_url_ours (JObj w)" "is_sordino_statusline (statusline_cmd (JObj w))"
    using o by (simp_all add: base_url_ours_def statusline_cmd_def jpath_def jfield_def jmembers_def mw mv jstr_def json_port_def
      str_default_def L_def)
  have e1: "strip_env True w = undo u ''env'' w"
    using env by (auto simp: strip_env_def mw Let_def undo_def split: option.split)
  have e2: "(case map_of u ''statusLine'' of Some l \<Rightarrow> (jm_put ''statusLine'' l x, True) | None \<Rightarrow> (jm_remove ''statusLine'' x, False))
      = (undo u ''statusLine'' x, map_of u ''statusLine'' \<noteq> None)" for x by (simp add: undo_def split: option.split)
  have e3: "snd (remove_permission_rules x) = undo u ''permissions'' x" if "map_of x ''permissions'' = Some (JObj P)" for x
    using that P(3) parts(2,3) by (auto simp: remove_permission_rules_def undo_def split_beta Let_def split: option.split)
  have e4: "snd (remove_automode_entries T x) = undo u ''autoMode'' x" if "map_of x ''autoMode'' = Some (JObj A)" for x
    using that entries_round_trip(1) [OF parts(4), folded A_def] parts(5,6)
    by (auto simp: remove_automode_entries_def undo_def split_beta Let_def split: option.split)
  have "strip_value T (map_of u ''statusLine'') (JObj w)
      = Some (JObj (undo u ''autoMode'' (undo u ''permissions'' (undo u ''statusLine'' (undo u ''env'' w)))), map_of u ''statusLine'' \<noteq> None)"
    unfolding strip_value_def Let_def
    using ours by (simp add: jmembers_def e1 e2 e3 e4 map_of_undo distinct_undo dw mw)
  then show ?thesis using four_keys_undone [OF du] by (simp only: we)
qed

lemma effective_line_own:
  assumes "user_settings T u"
  shows "effective_user_statusline (JObj u) (JObj []) = map_of u ''statusLine''"
  using assms by (auto simp: user_settings_def effective_user_statusline_def own_line_def jfield_def jmembers_def statusline_cmd_def
    jpath_def jstr_def str_default_def is_sordino_statusline_def STATUSLINE_NEEDLES_def split: option.splits)


definition sample_texts :: automode_texts where
  "sample_texts = \<lparr>an_environment = [''Sordino is a local masking proxy.''], an_soft_deny = [''Masking Circumvention'']\<rparr>"

definition sample_user :: "(string \<times> json) list" where
  "sample_user =
     [(''model'', JStr ''opus''), (''statusLine'', JObj [(''command'', JStr ''date'')]),
      (''permissions'', JObj [(''deny'', JArr [JStr ''WebFetch''])])]"

definition sample_plumbed :: "(string \<times> json) list" where
  "sample_plumbed =
     (case plumb sample_texts ''http://127.0.0.1:8787'' ''8787'' ''/opt/sordino-hooks statusline'' sample_user of Inr w \<Rightarrow> w | Inl _ \<Rightarrow> [])"

definition sample_settings :: settings_api where
  "sample_settings =
     \<lparr>sa_parse = (\<lambda>t. if t = ''user'' then Some (JObj sample_user)
                     else if t = ''line'' @ [CHR 0x0A] then map_of sample_user ''statusLine'' else Some (JObj sample_plumbed)),
      sa_pretty = (\<lambda>_. ''settings''), sa_compact = (\<lambda>_. ''line'')\<rparr>"

definition sample_files :: project_files where
  "sample_files = \<lparr>pf_local = FText ''user'', pf_committed = FMissing, pf_sidecar = FMissing\<rparr>"

lemma sample_user_settings: "user_settings sample_texts sample_user"
  by (auto simp: user_settings_def sample_user_def clean_rules_def clean_entries_def none_ours_def permission_rule_sets_def
    automode_entry_sets_def sample_texts_def DENY_RULES_def ASK_RULES_def DEFAULTS_def statusline_cmd_def jpath_def jfield_def
    jmembers_def jstr_def str_default_def is_sordino_statusline_def STATUSLINE_NEEDLES_def starts_with_def)

lemma sample_owned: "is_sordino_base_url ''http://127.0.0.1:8787'' (parse_u16 ''8787'')"
  "is_sordino_statusline ''/opt/sordino-hooks statusline''"
proof -
  have t: "trim ''http://127.0.0.1:8787'' = ''http://127.0.0.1:8787''" by code_simp
  have u: "trim_slashes ''http://127.0.0.1:8787'' = ''http://127.0.0.1:8787''" by (simp add: trim_slashes_def)
  have r: "rsplit_colon ''127.0.0.1:8787'' = Some (''127.0.0.1'', ''8787'')" by (simp add: rsplit_colon_def)
  have p: "parse_u16 ''8787'' = Some 8787" by (simp add: parse_u16_def parse_unsigned_def ord_def)
  show "is_sordino_base_url ''http://127.0.0.1:8787'' (parse_u16 ''8787'')"
    by (simp add: is_sordino_base_url_def t u r p starts_with_def)
  show "is_sordino_statusline ''/opt/sordino-hooks statusline''"
    by (simp add: is_sordino_statusline_def STATUSLINE_NEEDLES_def starts_with_def)
qed


end
