(* ===== verification/Hooks_Plumb_Laws.thy ===== *)
theory Hooks_Plumb_Laws
  imports Hooks_Settings_Laws
begin

text \<open>
  What enabling leaves of the settings it found, whatever they were: nothing but the four members of its own
  changes, a user's rule or entry keeps its place, everything of ours is present afterwards and a second run
  writes the same value. The base URL is the exception, and its loss is shown on a concrete project.
\<close>

section \<open>Adding and putting again\<close>

lemma add_entries_extends: "\<exists>ys. add_entries ws xs = xs @ ys"
  using add_entries_form [of ws xs] by blast

lemma add_entries_have: "w \<in> set ws \<Longrightarrow> JStr w \<in> set (add_entries ws xs)"
  using add_entries_form [of ws xs] by auto

lemma add_entries_present: "(\<And>w. w \<in> set ws \<Longrightarrow> JStr w \<in> set xs) \<Longrightarrow> add_entries ws xs = xs"
  by (induction ws) (simp_all add: has_entry_iff)

lemma put_same: "map_of ob k = Some v \<Longrightarrow> jm_put k v ob = ob"
  by (induction ob) (auto split: if_splits)

section \<open>The rule sets\<close>

definition grown :: "json option \<Rightarrow> json option \<Rightarrow> bool" where
  "grown old new \<longleftrightarrow> (case old of Some (JArr xs) \<Rightarrow> \<exists>ys. new = Some (JArr (xs @ ys)) | _ \<Rightarrow> True)"

definition holds_all :: "(string \<times> string list) list \<Rightarrow> (string \<times> json) list \<Rightarrow> bool" where
  "holds_all sets ob \<longleftrightarrow> (\<forall>(key, ws) \<in> set sets. \<exists>xs. map_of ob key = Some (JArr xs) \<and> (\<forall>w \<in> set ws. JStr w \<in> set xs))"

lemma grown_refl [simp]: "grown v v"
  by (auto simp: grown_def split: option.splits json.splits)

lemma merge_rules_other: "merge_rules sets ob = Inr p \<Longrightarrow> k \<notin> fst ` set sets \<Longrightarrow> map_of p k = map_of ob k"
  by (induction sets ob rule: merge_rules.induct) (auto split: option.splits json.splits)

lemma merge_rules_facts:
  "merge_rules sets ob = Inr p \<Longrightarrow> distinct (map fst sets) \<Longrightarrow> holds_all sets p \<and> (\<forall>k. grown (map_of ob k) (map_of p k))"
proof (induction sets ob rule: merge_rules.induct)
  case (1 perms)
  then show ?case by (simp add: holds_all_def)
next
  case (2 key wanted rest perms)
  obtain xs where xs: "(case map_of perms key of Some v \<Rightarrow> v | None \<Rightarrow> JArr []) = JArr xs"
    and m: "merge_rules rest (jm_put key (JArr (add_entries wanted xs)) perms) = Inr p"
    using 2(2) by (simp split: json.splits)
  have ih: "holds_all rest p" "\<forall>k. grown (map_of (jm_put key (JArr (add_entries wanted xs)) perms) k) (map_of p k)"
    using 2(1) [OF xs m] 2(3) by simp_all
  have here: "map_of p key = Some (JArr (add_entries wanted xs))"
    using merge_rules_other [OF m, of key] 2(3) by simp
  obtain ys where ys: "add_entries wanted xs = xs @ ys" using add_entries_extends by blast
  have "grown (map_of perms k) (map_of p k)" for k
  proof (cases "k = key")
    case True
    with xs here ys show ?thesis by (auto simp: grown_def split: option.splits json.splits)
  next
    case False
    with ih(2) have "grown (map_of (jm_put key (JArr (add_entries wanted xs)) perms) k) (map_of p k)" by blast
    with False show ?thesis by simp
  qed
  moreover have "holds_all ((key, wanted) # rest) p"
    using ih(1) here add_entries_have by (auto simp: holds_all_def)
  ultimately show ?case by blast
qed

lemma merge_rules_again: "holds_all sets p \<Longrightarrow> merge_rules sets p = Inr p"
proof (induction sets)
  case (Cons s sets)
  obtain key ws where s: "s = (key, ws)" by (cases s)
  obtain xs where xs: "map_of p key = Some (JArr xs)" "\<forall>w \<in> set ws. JStr w \<in> set xs" and r: "holds_all sets p"
    using Cons.prems by (auto simp: holds_all_def s)
  then have "add_entries ws xs = xs" by (intro add_entries_present) blast
  with xs r Cons.IH show ?case by (simp add: s put_same)
qed simp

section \<open>The entry sets\<close>

lemma merge_entries_other: "k \<notin> fst ` set sets \<Longrightarrow> map_of (merge_entries sets ob) k = map_of ob k"
  by (induction sets ob rule: merge_entries.induct) auto

lemma seeded_extends: "v = Some (JArr xs) \<Longrightarrow> \<exists>ys. seeded v = xs @ ys"
  by (cases xs) (simp_all add: seeded_def)

lemma merge_entries_facts:
  "distinct (map fst sets) \<Longrightarrow> holds_all sets (merge_entries sets ob) \<and> (\<forall>k. grown (map_of ob k) (map_of (merge_entries sets ob) k))"
proof (induction sets ob rule: merge_entries.induct)
  case (1 ob)
  then show ?case by (simp add: holds_all_def)
next
  case (2 key wanted rest ob)
  let ?s = "seeded (map_of ob key)" and ?p = "merge_entries ((key, wanted) # rest) ob"
  have ih: "holds_all rest ?p" "\<forall>k. grown (map_of (jm_put key (JArr (add_entries wanted ?s)) ob) k) (map_of ?p k)"
    using 2 by simp_all
  have here: "map_of ?p key = Some (JArr (add_entries wanted ?s))"
    using merge_entries_other [of key rest] 2(2) by simp
  obtain ys where ys: "add_entries wanted ?s = ?s @ ys" using add_entries_extends by blast
  have "grown (map_of ob k) (map_of ?p k)" for k
  proof (cases "k = key")
    case True
    then show ?thesis using here ys seeded_extends [of "map_of ob key"]
      by (auto simp: grown_def split: option.splits json.splits)
  next
    case False
    with ih(2) have "grown (map_of (jm_put key (JArr (add_entries wanted ?s)) ob) k) (map_of ?p k)" by blast
    with False show ?thesis by simp
  qed
  moreover have "holds_all ((key, wanted) # rest) ?p"
    using ih(1) here add_entries_have by (auto simp: holds_all_def)
  ultimately show ?case by blast
qed

lemma merge_entries_again:
  "holds_all sets p \<Longrightarrow> (\<And>k xs. map_of p k = Some (JArr xs) \<Longrightarrow> k \<in> fst ` set sets \<Longrightarrow> xs \<noteq> []) \<Longrightarrow> merge_entries sets p = p"
proof (induction sets)
  case (Cons s sets)
  obtain key ws where s: "s = (key, ws)" by (cases s)
  obtain xs where xs: "map_of p key = Some (JArr xs)" "\<forall>w \<in> set ws. JStr w \<in> set xs" and r: "holds_all sets p"
    using Cons.prems(1) by (auto simp: holds_all_def s)
  have "xs \<noteq> []" using Cons.prems(2) xs(1) s by force
  then have "seeded (map_of p key) = xs" using xs(1) by (cases xs) (simp_all add: seeded_def)
  moreover have "add_entries ws xs = xs" using xs(2) by (intro add_entries_present) blast
  moreover have "merge_entries sets p = p" using Cons.prems(2) by (intro Cons.IH r) auto
  ultimately show ?case by (simp add: s put_same xs(1))
qed simp

lemma merge_entries_nonempty:
  "map_of (merge_entries sets ob) k = Some (JArr xs) \<Longrightarrow> k \<in> fst ` set sets \<Longrightarrow> distinct (map fst sets) \<Longrightarrow> xs \<noteq> []"
proof (induction sets ob rule: merge_entries.induct)
  case (2 key wanted rest ob)
  show ?case
  proof (cases "k = key")
    case True
    then have "xs = add_entries wanted (seeded (map_of ob key))"
      using 2(2,4) merge_entries_other [of key rest] by simp
    moreover obtain ys where "add_entries wanted (seeded (map_of ob key)) = seeded (map_of ob key) @ ys"
      using add_entries_extends by blast
    moreover have "seeded v \<noteq> []" for v by (auto simp: seeded_def split: option.split json.split list.split)
    ultimately show ?thesis by simp
  next
    case False
    with 2 show ?thesis by simp
  qed
qed simp

section \<open>The plumbed value\<close>

lemma rule_keys: "distinct (map fst permission_rule_sets)" "distinct (map fst (automode_entry_sets T))"
  by (simp_all add: permission_rule_sets_def automode_entry_sets_def)

lemma plumb_parts:
  assumes "plumb T url z sl rt = Inr w"
  obtains P where "merge_rules permission_rule_sets (ensure_object ''permissions'' rt) = Inr P"
    "list_all (\<lambda>(key, _). case map_of (ensure_object ''autoMode'' rt) key of Some v \<Rightarrow> is_array v | None \<Rightarrow> True) (automode_entry_sets T)"
    "w = jm_put ''autoMode'' (JObj (merge_entries (automode_entry_sets T) (ensure_object ''autoMode'' rt)))
        (jm_put ''permissions'' (JObj P) (jm_put ''statusLine'' (JObj [(''type'', JStr ''command''), (''command'', JStr sl)])
          (jm_put ''env'' (JObj (jm_put ''SORDINO_PORT'' (JStr z) (jm_put ''ANTHROPIC_BASE_URL'' (JStr url) (ensure_object ''env'' rt)))) rt)))"
proof -
  have o: "ensure_object ''permissions'' (jm_put ''statusLine'' s (jm_put ''env'' e rt)) = ensure_object ''permissions'' rt"
    "ensure_object ''autoMode'' (jm_put ''permissions'' q (jm_put ''statusLine'' s (jm_put ''env'' e rt))) = ensure_object ''autoMode'' rt" for s e q
    by (simp_all add: ensure_object_def)
  obtain P where P: "merge_rules permission_rule_sets (ensure_object ''permissions'' rt) = Inr P"
    using assms by (auto simp: plumb_def Let_def merge_permission_rules_def o split: sum.splits)
  have n: "find (\<lambda>(key, _). case map_of (ensure_object ''autoMode'' rt) key of Some v \<Rightarrow> \<not> is_array v | None \<Rightarrow> False) (automode_entry_sets T) = None"
    using assms by (auto simp: plumb_def Let_def merge_permission_rules_def o P merge_automode_entries_def split: sum.splits option.splits)
  show thesis
  proof (rule that [OF P])
    show "list_all (\<lambda>(key, _). case map_of (ensure_object ''autoMode'' rt) key of Some v \<Rightarrow> is_array v | None \<Rightarrow> True) (automode_entry_sets T)"
      using n by (fastforce simp: find_None_iff list_all_iff split: option.splits)
  qed (use assms n in \<open>simp add: plumb_def Let_def merge_permission_rules_def o P merge_automode_entries_def\<close>)
qed

lemma all_present_iff:
  "map_of rt tk = Some (JObj ob) \<Longrightarrow> all_present tk sets (JObj rt) = holds_all sets ob"
  by (auto simp: all_present_def holds_all_def entries_at_def jpath_def jfield_def jmembers_def list_all_iff has_entry_iff
      split: option.splits json.splits)

lemma entries_at_field:
  "entries_at tk key (JObj rt) = Some xs \<longleftrightarrow> map_of (ensure_object tk rt) key = Some (JArr xs)"
  by (auto simp: entries_at_def jpath_def jfield_def jmembers_def ensure_object_def Option.bind_eq_Some_conv split: option.splits json.splits)

lemma jpath_field: "jpath tk k (JObj rt) = map_of (ensure_object tk rt) k"
  by (auto simp: jpath_def jfield_def jmembers_def ensure_object_def split: option.splits json.splits)

lemma ensure_put [simp]: "ensure_object k (jm_put l v ob) = (if k = l then (case v of JObj m \<Rightarrow> m | _ \<Rightarrow> []) else ensure_object k ob)"
  by (simp add: ensure_object_def)

lemma ensure_remove: "distinct (map fst ob) \<Longrightarrow> k \<noteq> l \<Longrightarrow> ensure_object k (jm_remove l ob) = ensure_object k ob"
  by (simp add: ensure_object_def map_of_jm_remove)

lemma grown_entries:
  "grown (map_of (ensure_object tk rt) k) (map_of (ensure_object tk w) k) \<Longrightarrow> entries_at tk k (JObj rt) = Some xs
    \<Longrightarrow> \<exists>ys. entries_at tk k (JObj w) = Some (xs @ ys)"
  unfolding entries_at_field grown_def by auto

lemma merged_auto_arrays:
  "list_all (\<lambda>(key, _). case map_of (merge_entries (automode_entry_sets T) a) key of Some v \<Rightarrow> is_array v | None \<Rightarrow> True)
     (automode_entry_sets T)"
proof -
  have "holds_all (automode_entry_sets T) (merge_entries (automode_entry_sets T) a)"
    using merge_entries_facts rule_keys by blast
  then show ?thesis by (fastforce simp: holds_all_def list_all_iff is_array_def)
qed

lemma plumb_again:
  assumes w: "plumb T url z sl rt = Inr w"
  shows "plumb T url z sl w = Inr w"
proof -
  obtain P where P: "merge_rules permission_rule_sets (ensure_object ''permissions'' rt) = Inr P"
    and we: "w = jm_put ''autoMode'' (JObj (merge_entries (automode_entry_sets T) (ensure_object ''autoMode'' rt)))
        (jm_put ''permissions'' (JObj P) (jm_put ''statusLine'' (JObj [(''type'', JStr ''command''), (''command'', JStr sl)])
          (jm_put ''env'' (JObj (jm_put ''SORDINO_PORT'' (JStr z) (jm_put ''ANTHROPIC_BASE_URL'' (JStr url) (ensure_object ''env'' rt)))) rt)))"
    using plumb_parts [OF w] by metis
  define A where "A = merge_entries (automode_entry_sets T) (ensure_object ''autoMode'' rt)"
  define V where "V = jm_put ''SORDINO_PORT'' (JStr z) (jm_put ''ANTHROPIC_BASE_URL'' (JStr url) (ensure_object ''env'' rt))"
  define L where "L = JObj [(''type'', JStr ''command''), (''command'', JStr sl)]"
  have fields: "map_of w ''env'' = Some (JObj V)" "map_of w ''statusLine'' = Some L"
    "map_of w ''permissions'' = Some (JObj P)" "map_of w ''autoMode'' = Some (JObj A)"
    by (simp_all add: we A_def V_def L_def)
  have parts: "ensure_object ''env'' w = V" "ensure_object ''permissions'' w = P" "ensure_object ''autoMode'' w = A"
    by (simp_all add: ensure_object_def fields)
  have V: "jm_put ''SORDINO_PORT'' (JStr z) (jm_put ''ANTHROPIC_BASE_URL'' (JStr url) V) = V"
    by (simp add: put_same V_def)
  have "merge_rules permission_rule_sets P = Inr P"
    using merge_rules_facts [OF P] rule_keys by (blast intro: merge_rules_again)
  then have R: "merge_permission_rules w = Inr w"
    by (simp add: merge_permission_rules_def parts put_same fields)
  have "merge_entries (automode_entry_sets T) A = A"
    unfolding A_def using merge_entries_facts merge_entries_nonempty rule_keys by (blast intro: merge_entries_again)
  moreover have "find (\<lambda>(key, _). case map_of A key of Some v \<Rightarrow> \<not> is_array v | None \<Rightarrow> False) (automode_entry_sets T) = None"
    using merged_auto_arrays [of T "ensure_object ''autoMode'' rt"]
    by (fastforce simp: A_def find_None_iff list_all_iff split: option.splits)
  ultimately have M: "merge_automode_entries T w = Inr w"
    by (simp add: merge_automode_entries_def parts put_same fields)
  show ?thesis
    by (simp add: plumb_def Let_def parts V put_same fields R M L_def [symmetric])
qed

text \<open>
  Enabling only adds: a member outside the four it owns, an environment variable outside its two and every
  array of permission rules or auto-mode entries keep what they held, in place; afterwards the route, all rules
  and all entries are there, so that a repetition is recognised as one and writes the very same value.
\<close>

theorem plumb_additive:
  assumes "plumb T url z sl rt = Inr w"
  shows "(\<forall>k. map_of w k = map_of rt k \<or> k = ''env'' \<or> k = ''statusLine'' \<or> k = ''permissions'' \<or> k = ''autoMode'')
    \<and> (\<forall>k. jpath ''env'' k (JObj w) = jpath ''env'' k (JObj rt) \<or> k = ''ANTHROPIC_BASE_URL'' \<or> k = ''SORDINO_PORT'')
    \<and> (\<forall>tk k xs. entries_at tk k (JObj rt) = Some xs \<longrightarrow> (\<exists>ys. entries_at tk k (JObj w) = Some (xs @ ys)) \<or> tk = ''env'' \<or> tk = ''statusLine'')
    \<and> already_plumbed T url z (JObj w) \<and> plumb T url z sl w = Inr w"
proof -
  obtain P where P: "merge_rules permission_rule_sets (ensure_object ''permissions'' rt) = Inr P"
    and we: "w = jm_put ''autoMode'' (JObj (merge_entries (automode_entry_sets T) (ensure_object ''autoMode'' rt)))
        (jm_put ''permissions'' (JObj P) (jm_put ''statusLine'' (JObj [(''type'', JStr ''command''), (''command'', JStr sl)])
          (jm_put ''env'' (JObj (jm_put ''SORDINO_PORT'' (JStr z) (jm_put ''ANTHROPIC_BASE_URL'' (JStr url) (ensure_object ''env'' rt)))) rt)))"
    using plumb_parts [OF assms] by metis
  let ?A = "merge_entries (automode_entry_sets T) (ensure_object ''autoMode'' rt)"
  note R = merge_rules_facts [OF P rule_keys(1)] and E = merge_entries_facts [OF rule_keys(2), of T "ensure_object ''autoMode'' rt"]
  have "grown (map_of (ensure_object tk rt) k) (map_of (ensure_object tk w) k)" if "tk \<noteq> ''env''" "tk \<noteq> ''statusLine''" for tk k
    using that R E by (cases "tk = ''permissions''"; cases "tk = ''autoMode''") (simp_all add: we)
  then have arrays: "\<forall>tk k xs. entries_at tk k (JObj rt) = Some xs \<longrightarrow> (\<exists>ys. entries_at tk k (JObj w) = Some (xs @ ys)) \<or> tk = ''env'' \<or> tk = ''statusLine''"
    by (intro allI impI) (metis grown_entries)
  have "permission_rules_present (JObj w)" "automode_entries_present T (JObj w)"
    unfolding permission_rules_present_def automode_entries_present_def
    using R E all_present_iff [of w "''permissions''" P] all_present_iff [of w "''autoMode''" ?A] by (simp_all add: we)
  then have "already_plumbed T url z (JObj w)"
    by (simp add: already_plumbed_def jpath_field we base_url_matches_def jstr_def str_default_def)
  moreover have "\<forall>k. jpath ''env'' k (JObj w) = jpath ''env'' k (JObj rt) \<or> k = ''ANTHROPIC_BASE_URL'' \<or> k = ''SORDINO_PORT''"
    by (simp add: jpath_field we)
  moreover have "\<forall>k. map_of w k = map_of rt k \<or> k = ''env'' \<or> k = ''statusLine'' \<or> k = ''permissions'' \<or> k = ''autoMode''"
    by (simp add: we)
  ultimately show ?thesis using arrays plumb_again [OF assms] by blast
qed

definition team_settings :: "(string \<times> json) list" where
  "team_settings =
     [(''env'', JObj [(''ANTHROPIC_BASE_URL'', JStr ''https://gw.corp/v1'')]),
      (''permissions'', JObj [(''deny'', JArr [JStr ''Read(.env)'']), (''defaultMode'', JStr ''plan'')])]"

lemma team_plumbed: "\<exists>w. plumb sample_texts ''http://127.0.0.1:8787'' ''8787'' ''/opt/sordino-hooks statusline'' team_settings = Inr w"
  by (simp add: plumb_def team_settings_def Let_def ensure_object_def merge_permission_rules_def permission_rule_sets_def
      merge_automode_entries_def automode_entry_sets_def sample_texts_def)

theorem plumb_additive_witness:
  "\<exists>w ys. entries_at ''permissions'' ''deny'' (JObj w) = Some (JStr ''Read(.env)'' # ys)
     \<and> jpath ''permissions'' ''deny'' (JObj w) = Some (JArr (JStr ''Read(.env)'' # ys))
     \<and> already_plumbed sample_texts ''http://127.0.0.1:8787'' ''8787'' (JObj w)"
proof -
  obtain w where w: "plumb sample_texts ''http://127.0.0.1:8787'' ''8787'' ''/opt/sordino-hooks statusline'' team_settings = Inr w"
    using team_plumbed by blast
  have "entries_at ''permissions'' ''deny'' (JObj team_settings) = Some [JStr ''Read(.env)'']"
    by (simp add: entries_at_field team_settings_def ensure_object_def)
  with plumb_additive [OF w] obtain ys where "entries_at ''permissions'' ''deny'' (JObj w) = Some ([JStr ''Read(.env)''] @ ys)" by force
  then show ?thesis using plumb_additive [OF w] by (auto simp: entries_at_field jpath_field)
qed

text \<open>
  The exception: whatever base URL the settings had, enabling overwrites it, and nothing keeps it; disabling
  takes the URL of ours out and the settings end without one.
\<close>

theorem own_base_url_lost:
  assumes "plumb T url z sl rt = Inr w" "is_sordino_base_url url (parse_u16 z)"
    and "distinct (map fst rt)" "distinct (map fst (ensure_object ''env'' rt))"
  shows "\<exists>v back. strip_value T restore (JObj w) = Some (v, back) \<and> jpath ''env'' ''ANTHROPIC_BASE_URL'' v = None"
proof -
  obtain P where we: "w = jm_put ''autoMode'' (JObj (merge_entries (automode_entry_sets T) (ensure_object ''autoMode'' rt)))
        (jm_put ''permissions'' (JObj P) (jm_put ''statusLine'' (JObj [(''type'', JStr ''command''), (''command'', JStr sl)])
          (jm_put ''env'' (JObj (jm_put ''SORDINO_PORT'' (JStr z) (jm_put ''ANTHROPIC_BASE_URL'' (JStr url) (ensure_object ''env'' rt)))) rt)))"
    using plumb_parts [OF assms(1)] by metis
  define V where "V = jm_put ''SORDINO_PORT'' (JStr z) (jm_put ''ANTHROPIC_BASE_URL'' (JStr url) (ensure_object ''env'' rt))"
  have V: "distinct (map fst V)" unfolding V_def using assms(4) by (intro distinct_put)
  have W: "distinct (map fst w)" unfolding we using assms(3) by (intro distinct_put)
  have env: "map_of w ''env'' = Some (JObj V)" by (simp add: we V_def)
  have ours: "base_url_ours (JObj w)"
    using assms(2) by (simp add: base_url_ours_def jpath_field we jstr_def json_port_def)
  let ?e = "strip_env True w"
  have de: "distinct (map fst ?e)" using W by (simp add: strip_env_def env Let_def distinct_put distinct_jm_remove)
  have gone: "map_of (ensure_object ''env'' ?e) ''ANTHROPIC_BASE_URL'' = None"
    using V W by (auto simp: strip_env_def env Let_def map_of_jm_remove distinct_jm_remove ensure_object_def)
  have kept: "ensure_object ''env'' (snd (remove_permission_rules x)) = ensure_object ''env'' x \<and> distinct (map fst (snd (remove_permission_rules x)))"
    if "distinct (map fst x)" for x
  proof (cases "\<exists>m. map_of x ''permissions'' = Some (JObj m)")
    case True
    with that show ?thesis
      by (auto simp: remove_permission_rules_def split_beta Let_def ensure_remove distinct_put distinct_jm_remove)
  next
    case False
    then have "remove_permission_rules x = (False, x)"
      by (cases "map_of x ''permissions''"; cases "the (map_of x ''permissions'')") (auto simp: remove_permission_rules_def)
    with that show ?thesis by simp
  qed
  have kept': "ensure_object ''env'' (snd (remove_automode_entries T x)) = ensure_object ''env'' x" if "distinct (map fst x)" for x
  proof (cases "\<exists>m. map_of x ''autoMode'' = Some (JObj m)")
    case True
    with that show ?thesis by (auto simp: remove_automode_entries_def split_beta Let_def ensure_remove)
  next
    case False
    then have "remove_automode_entries T x = (False, x)"
      by (cases "map_of x ''autoMode''"; cases "the (map_of x ''autoMode'')") (auto simp: remove_automode_entries_def)
    then show ?thesis by simp
  qed
  have line: "ensure_object ''env'' (jm_put ''statusLine'' l x) = ensure_object ''env'' x \<and> distinct (map fst (jm_put ''statusLine'' l x))
      \<and> ensure_object ''env'' (jm_remove ''statusLine'' x) = ensure_object ''env'' x \<and> distinct (map fst (jm_remove ''statusLine'' x))"
    if "distinct (map fst x)" for l x
    using that by (simp add: ensure_remove distinct_put distinct_jm_remove)
  show ?thesis
    unfolding strip_value_def Let_def using ours gone de line [OF de] kept kept'
    by (cases restore; cases "is_sordino_statusline (statusline_cmd (JObj w))") (simp_all add: jmembers_def jpath_field ex_bool_eq)
qed

theorem own_base_url_lost_witness:
  "\<exists>w v back. plumb sample_texts ''http://127.0.0.1:8787'' ''8787'' ''/opt/sordino-hooks statusline'' team_settings = Inr w
     \<and> jpath ''env'' ''ANTHROPIC_BASE_URL'' (JObj team_settings) = Some (JStr ''https://gw.corp/v1'')
     \<and> strip_value sample_texts None (JObj w) = Some (v, back) \<and> jpath ''env'' ''ANTHROPIC_BASE_URL'' v = None"
proof -
  obtain w where w: "plumb sample_texts ''http://127.0.0.1:8787'' ''8787'' ''/opt/sordino-hooks statusline'' team_settings = Inr w"
    using team_plumbed by blast
  have "distinct (map fst team_settings)" "distinct (map fst (ensure_object ''env'' team_settings))"
    "jpath ''env'' ''ANTHROPIC_BASE_URL'' (JObj team_settings) = Some (JStr ''https://gw.corp/v1'')"
    by (simp_all add: team_settings_def ensure_object_def jpath_field)
  with own_base_url_lost [OF w sample_owned(1), of None] w show ?thesis by blast
qed

end
