(* ===== verification/State_Files.thy ===== *)
theory State_Files
  imports Precision_Gates
begin

text \<open>
  The files of \<open>sordino-state\<close> (\<open>lib.rs\<close>): the registry of plumbed projects, one file each, and the rendezvous
  record of a project's live proxy. A directory is the association list of its file names and contents; the
  hash that names a project's file, the process table and the outcome of a write are parameters.
\<close>

section \<open>The registry\<close>

datatype plumb_state = Plumbed | Optout

record registry_entry =
  re_root :: string
  re_state :: plumb_state

text \<open>A file that does not parse as an entry is \<open>None\<close>.\<close>

type_synonym registry = "(string \<times> registry_entry option) list"

definition registry_entry_path :: "(string \<Rightarrow> string) \<Rightarrow> string \<Rightarrow> string" where
  "registry_entry_path h rt = h rt @ ''.json''"

definition registry_get :: "(string \<Rightarrow> string) \<Rightarrow> registry \<Rightarrow> string \<Rightarrow> plumb_state option" where
  "registry_get h d rt =
     (case map_of d (registry_entry_path h rt) of
        Some (Some e) \<Rightarrow> if re_root e = rt then Some (re_state e) else None
      | _ \<Rightarrow> None)"

text \<open>A write to a temporary sibling and a rename: the entry is there or the directory is as it was.\<close>

definition registry_set :: "(string \<Rightarrow> string) \<Rightarrow> bool \<Rightarrow> registry \<Rightarrow> string \<Rightarrow> plumb_state \<Rightarrow> bool \<times> registry" where
  "registry_set h ok d rt s =
     (if ok then (True, hm_insert (registry_entry_path h rt) (Some \<lparr>re_root = rt, re_state = s\<rparr>) d) else (False, d))"

definition registry_remove :: "(string \<Rightarrow> string) \<Rightarrow> bool \<Rightarrow> registry \<Rightarrow> string \<Rightarrow> bool \<times> registry" where
  "registry_remove h ok d rt =
     (if map_of d (registry_entry_path h rt) = None then (True, d)
      else if ok then (True, hm_remove (registry_entry_path h rt) d) else (False, d))"

text \<open>\<open>Path::extension\<close> is \<open>json\<close>: a name that is only the extension has none.\<close>

definition json_extension :: "string \<Rightarrow> bool" where
  "json_extension n \<longleftrightarrow> ends_with ''.json'' n \<and> n \<noteq> ''.json''"

definition registry_plumbed_roots :: "(string \<Rightarrow> string) \<Rightarrow> registry \<Rightarrow> string list" where
  "registry_plumbed_roots h d =
     map re_root
       (filter (\<lambda>e. re_state e = Plumbed)
         (List.map_filter
           (\<lambda>(n, c). if json_extension n
              then Option.bind c (\<lambda>e. if n = registry_entry_path h (re_root e) then Some e else None) else None) d))"

section \<open>The rendezvous\<close>

record rendezvous =
  rv_project_root :: string
  rv_port :: nat
  rv_admin_key :: string
  rv_salt :: string
  rv_base_url :: string
  rv_pid :: nat
  rv_bind :: string
  rv_last_port :: nat
  rv_build_id :: string
  rv_started :: nat
  rv_nonce :: string

text \<open>A file with whether it is owner-only and ours, and the record if it parses.\<close>

type_synonym rv_dir = "(string \<times> (bool \<times> rendezvous option)) list"

definition rendezvous_path :: "(string \<Rightarrow> string) \<Rightarrow> string \<Rightarrow> string" where
  "rendezvous_path h rt = h rt @ ''.json''"

definition read_rendezvous :: "(string \<Rightarrow> string) \<Rightarrow> rv_dir \<Rightarrow> string \<Rightarrow> rendezvous option" where
  "read_rendezvous h d rt =
     (case map_of d (rendezvous_path h rt) of
        Some (True, Some r) \<Rightarrow> if rv_project_root r = rt then Some r else None
      | _ \<Rightarrow> None)"

definition write_rendezvous :: "(string \<Rightarrow> string) \<Rightarrow> bool \<Rightarrow> rv_dir \<Rightarrow> rendezvous \<Rightarrow> bool \<times> rv_dir" where
  "write_rendezvous h ok d r =
     (if ok then (True, hm_insert (rendezvous_path h (rv_project_root r)) (True, Some r) d) else (False, d))"

definition rendezvous_remove :: "(string \<Rightarrow> string) \<Rightarrow> bool \<Rightarrow> rv_dir \<Rightarrow> string \<Rightarrow> bool \<times> rv_dir" where
  "rendezvous_remove h ok d rt =
     (if map_of d (rendezvous_path h rt) = None then (True, d)
      else if ok then (True, hm_remove (rendezvous_path h rt) d) else (False, d))"

definition rendezvous_remove_if_owned ::
  "(string \<Rightarrow> string) \<Rightarrow> bool \<Rightarrow> rv_dir \<Rightarrow> string \<Rightarrow> string \<Rightarrow> nat \<Rightarrow> bool \<times> rv_dir" where
  "rendezvous_remove_if_owned h ok d rt nonce pid =
     (case read_rendezvous h d rt of
        Some r \<Rightarrow> if rv_nonce r = nonce \<and> rv_pid r = pid then rendezvous_remove h ok d rt else (True, d)
      | None \<Rightarrow> (True, d))"

definition pid_alive :: "(nat \<Rightarrow> bool) \<Rightarrow> nat \<Rightarrow> bool" where
  "pid_alive os pid \<longleftrightarrow> pid \<noteq> 0 \<and> os pid"

definition live_port :: "(string \<Rightarrow> string) \<Rightarrow> (nat \<Rightarrow> bool) \<Rightarrow> rv_dir \<Rightarrow> string \<Rightarrow> (nat \<times> rendezvous) option" where
  "live_port h os d rt =
     (case read_rendezvous h d rt of
        Some r \<Rightarrow> if rv_port r \<noteq> 0 \<and> pid_alive os (rv_pid r) then Some (rv_port r, r) else None
      | None \<Rightarrow> None)"

section \<open>Binding\<close>

text \<open>\<open>strip_prefix('[')\<close> and then \<open>strip_suffix(']')\<close>, or the text as it is.\<close>

definition strip_brackets :: "string \<Rightarrow> string" where
  "strip_brackets s = (if starts_with ''['' s \<and> ends_with '']'' (drop 1 s) then butlast (drop 1 s) else s)"

text \<open>\<open>IpAddr::to_canonical\<close> and \<open>is_loopback\<close>: an IPv4-mapped IPv6 address counts as the IPv4 one.\<close>

definition ip_is_loopback :: "ip_addr \<Rightarrow> bool" where
  "ip_is_loopback a =
     (case a of
        V4 os \<Rightarrow> os ! 0 = 127
      | V6 gs \<Rightarrow> (if take 6 gs = [0, 0, 0, 0, 0, 65535] then gs ! 6 div 256 = 127 else gs = [0, 0, 0, 0, 0, 0, 0, 1]))"

definition is_loopback_bind :: "string \<Rightarrow> bool" where
  "is_loopback_bind bnd =
     (let b = trim bnd
      in ascii_lower b = ''localhost''
         \<or> (case parse_ip (strip_brackets b) of Some a \<Rightarrow> ip_is_loopback a | None \<Rightarrow> False))"

datatype io_kind = AddrInUse | PermissionDenied | AddrNotAvailable | OtherKind

datatype bind_fault = InUse | Permission | AddrNotAvail | OtherFault

definition classify_bind_error :: "int option \<Rightarrow> io_kind \<Rightarrow> bind_fault" where
  "classify_bind_error raw_os k =
     (case k of
        AddrInUse \<Rightarrow> InUse
      | PermissionDenied \<Rightarrow> Permission
      | AddrNotAvailable \<Rightarrow> AddrNotAvail
      | OtherKind \<Rightarrow>
          (if raw_os = Some 10048 then InUse else if raw_os = Some 10013 then Permission
           else if raw_os = Some 10049 then AddrNotAvail else OtherFault))"

text \<open>\<open>bind.rs\<close>: \<open>loopback_guard\<close> and \<open>bind_listener\<close> over what the operating system answers to a bind.\<close>

definition loopback_guard :: "bool \<Rightarrow> string \<Rightarrow> bool" where
  "loopback_guard acknowledged bnd \<longleftrightarrow> is_loopback_bind bnd \<or> acknowledged"

type_synonym os_bind = "string \<Rightarrow> nat \<Rightarrow> ((int option \<times> io_kind) + nat)"

definition bind_exact :: "os_bind \<Rightarrow> string \<Rightarrow> nat \<Rightarrow> (int option \<times> io_kind) + nat" where
  "bind_exact os bnd p = os (strip_brackets bnd) p"

definition bind_listener ::
  "os_bind \<Rightarrow> (string \<Rightarrow> string) \<Rightarrow> rv_dir \<Rightarrow> string \<Rightarrow> nat option \<Rightarrow> string \<Rightarrow> bind_fault option + nat" where
  "bind_listener os h d bnd static_port rt =
     (case static_port of
        Some p \<Rightarrow> (case bind_exact os bnd p of
                      Inl (raw, k) \<Rightarrow> Inl (Some (classify_bind_error raw k))
                    | Inr l \<Rightarrow> Inr l)
      | None \<Rightarrow>
          (let fresh = (case bind_exact os bnd 0 of Inl _ \<Rightarrow> Inl None | Inr l \<Rightarrow> Inr l)
           in case read_rendezvous h d rt of
                Some r \<Rightarrow> (if rv_last_port r \<noteq> 0
                            then (case bind_exact os bnd (rv_last_port r) of Inr l \<Rightarrow> Inr l | Inl _ \<Rightarrow> fresh)
                            else fresh)
              | None \<Rightarrow> fresh))"

end
