(* ===== verification/Hooks_Gate.thy ===== *)
theory Hooks_Gate
  imports Hooks_Settings State_Files
begin

text \<open>
  The gates of \<open>sordino-hooks\<close> (\<open>main.rs\<close>): may this prompt leave, and what is the model told about masking.
  First the Codex side (key and route checks, the session's age against the configuration's, the intake gate and
  its override warning), then the Claude Code side (the identity check of the proxy, the intake gate, the
  masking state of a session, the status lines and the reload reports). Files, environment variables and HTTP
  replies are fields of a record of facts; the TOML parser is a parameter that yields the document as a tree.
\<close>

section \<open>The Codex key\<close>

datatype codex_auth_mode = ApiKey | Chatgpt | KeyNotExported | OtherAuth

definition not_blank :: "json option \<Rightarrow> bool" where
  "not_blank v \<longleftrightarrow> (case jstr v of Some s \<Rightarrow> trim s \<noteq> [] | None \<Rightarrow> False)"

definition not_null :: "json option \<Rightarrow> bool" where
  "not_null v \<longleftrightarrow> (case v of Some x \<Rightarrow> x \<noteq> JNull | None \<Rightarrow> False)"

definition stated_auth_mode :: "json \<Rightarrow> string option" where
  "stated_auth_mode auth =
     (case jstr (jfield ''auth_mode'' auth) of
        Some s \<Rightarrow> if trim s = [] then None else Some (trim s)
      | None \<Rightarrow> None)"

definition classify_codex_auth :: "string option \<Rightarrow> json option \<Rightarrow> codex_auth_mode \<times> bool" where
  "classify_codex_auth env_key auth_json =
     (if (case env_key of Some k \<Rightarrow> trim k \<noteq> [] \<and> starts_with ''sk-'' (trim k) | None \<Rightarrow> False) then (ApiKey, True)
      else case auth_json of
        None \<Rightarrow> (Chatgpt, False)
      | Some auth \<Rightarrow>
          (let m = stated_auth_mode auth
           in if not_blank (jfield ''OPENAI_API_KEY'' auth) \<or> m = Some ''apikey'' then (KeyNotExported, False)
              else if m = Some ''chatgpt'' \<or> not_null (jfield ''tokens'' auth) then (Chatgpt, False)
              else if m = Some ''personal_access_token'' \<or> not_blank (jfield ''personal_access_token'' auth) then (OtherAuth, False)
              else if m = Some ''bedrock_api_key'' \<or> not_null (jfield ''bedrock_api_key'' auth) then (OtherAuth, False)
              else (OtherAuth, False)))"

definition KNOWN_AUTH_MODES :: "string list" where
  "KNOWN_AUTH_MODES = [''apikey'', ''chatgpt'', ''personal_access_token'', ''bedrock_api_key'']"

definition unmapped_auth_mode :: "json option \<Rightarrow> string option" where
  "unmapped_auth_mode auth_json =
     (case auth_json of
        None \<Rightarrow> None
      | Some auth \<Rightarrow>
          (case stated_auth_mode auth of
             None \<Rightarrow> None
           | Some am \<Rightarrow>
               if am \<in> set KNOWN_AUTH_MODES then None
               else if not_blank (jfield ''OPENAI_API_KEY'' auth) \<or> not_null (jfield ''tokens'' auth)
                       \<or> not_blank (jfield ''personal_access_token'' auth) \<or> not_null (jfield ''bedrock_api_key'' auth) then None
               else Some am))"

section \<open>The Codex route\<close>

definition strip_pre :: "string \<Rightarrow> string \<Rightarrow> string option" where
  "strip_pre p s = (if starts_with p s then Some (drop (length p) s) else None)"

definition strip_suf :: "string \<Rightarrow> string \<Rightarrow> string option" where
  "strip_suf p s = (if ends_with p s then Some (take (length s - length p) s) else None)"

definition loopback_v1_port :: "string \<Rightarrow> nat option" where
  "loopback_v1_port base_url =
     (case strip_pre ''http://127.0.0.1:'' base_url of
        None \<Rightarrow> None
      | Some r0 \<Rightarrow>
          (let r = (case strip_suf ''/'' r0 of Some x \<Rightarrow> x | None \<Rightarrow> r0)
           in case strip_suf ''/v1'' r of
                None \<Rightarrow> None
              | Some p \<Rightarrow> if p = [] \<or> \<not> list_all is_digit p then None else parse_u16 p))"

definition codex_route_from_config :: "(string \<Rightarrow> json option) \<Rightarrow> string \<Rightarrow> string \<Rightarrow> (string \<times> nat) option" where
  "codex_route_from_config toml cfg_text pid =
     (case toml cfg_text of
        None \<Rightarrow> None
      | Some doc \<Rightarrow>
          (case jstr (jfield ''model_provider'' doc) of
             None \<Rightarrow> None
           | Some sel \<Rightarrow>
               (if sel \<noteq> pid then None
                else case jstr (Option.bind (Option.bind (jfield ''model_providers'' doc) (jfield pid)) (jfield ''base_url'')) of
                  None \<Rightarrow> None
                | Some u \<Rightarrow> map_option (\<lambda>p. (u, p)) (loopback_v1_port u))))"

section \<open>Launch generation\<close>

definition leap_year :: "int \<Rightarrow> bool" where
  "leap_year y \<longleftrightarrow> (y mod 4 = 0 \<and> y mod 100 \<noteq> 0) \<or> y mod 400 = 0"

definition days_in_month :: "int \<Rightarrow> nat \<Rightarrow> int" where
  "days_in_month y m =
     (if m \<in> {1, 3, 5, 7, 8, 10, 12} then 31
      else if m \<in> {4, 6, 9, 11} then 30
      else if m = 2 then (if leap_year y then 29 else 28) else 0)"

definition year_days :: "int \<Rightarrow> int" where
  "year_days y = (if leap_year y then 366 else 365)"

text \<open>The two loops over the years and the one over the months.\<close>

definition days_to_year :: "int \<Rightarrow> int" where
  "days_to_year y =
     (if 1970 \<le> y then sum_list (map year_days [1970..y - 1]) else - sum_list (map year_days [y..1969]))"

definition days_to_month :: "int \<Rightarrow> nat \<Rightarrow> int" where
  "days_to_month y mo = sum_list (map (days_in_month y) [1..<mo])"

text \<open>Without the overflow of \<open>i64\<close>, which a year beyond 292 million would bring.\<close>

definition civil_to_epoch_ms :: "int \<Rightarrow> nat \<Rightarrow> nat \<Rightarrow> nat \<Rightarrow> nat \<Rightarrow> nat \<Rightarrow> int option" where
  "civil_to_epoch_ms y mo d h mi s =
     (if \<not> (1 \<le> mo \<and> mo \<le> 12) \<or> mi > 59 \<or> s > 59 \<or> h > 23 then None
      else if d < 1 \<or> int d > days_in_month y mo then None
      else Some (((days_to_year y + days_to_month y mo + (int d - 1)) * 86400 + int h * 3600 + int mi * 60 + int s) * 1000))"

text \<open>\<open>splitn\<close> on a character.\<close>

fun splitn_at :: "nat \<Rightarrow> char \<Rightarrow> string \<Rightarrow> string list" where
  "splitn_at 0 c s = []"
| "splitn_at (Suc 0) c s = [s]"
| "splitn_at (Suc (Suc n)) c s =
     (case split_once_at c s of None \<Rightarrow> [s] | Some (a, b) \<Rightarrow> a # splitn_at (Suc n) c b)"

definition parse_i64 :: "string \<Rightarrow> int option" where
  "parse_i64 s =
     (case s of
        c # r \<Rightarrow> (if c = CHR ''-'' then (if r = [] \<or> hd r = CHR ''+'' then None else map_option (\<lambda>n. - int n) (parse_unsigned (2 ^ 63 + 1) r))
                  else map_option int (parse_unsigned (2 ^ 63) s))
      | [] \<Rightarrow> None)"

definition parse_u32 :: "string \<Rightarrow> nat option" where
  "parse_u32 s = parse_unsigned (2 ^ 32) s"

definition path_base :: "string \<Rightarrow> string" where
  "path_base p = rev (takeWhile (\<lambda>c. c \<noteq> CHR ''/'' \<and> ord c \<noteq> 92) (rev p))"

definition session_start_ms_from_transcript :: "string \<Rightarrow> int option" where
  "session_start_ms_from_transcript path =
     (case Option.bind (strip_pre ''rollout-'' (path_base path)) (split_once_at (CHR ''T'')) of
        None \<Rightarrow> None
      | Some (date, rest) \<Rightarrow>
          (case (splitn_at 4 (CHR ''-'') date, splitn_at 4 (CHR ''-'') rest) of
             ([y, mo, d], [h, mi, s, tail]) \<Rightarrow>
               (case (parse_i64 y, parse_u32 mo, parse_u32 d, parse_u32 h, parse_u32 mi, parse_u32 s) of
                  (Some y, Some mo, Some d, Some h, Some mi, Some s) \<Rightarrow>
                    (if ends_with ''.jsonl'' tail \<and> 6 < length tail then civil_to_epoch_ms y mo d h mi s else None)
                | _ \<Rightarrow> None)
           | _ \<Rightarrow> None))"

definition launch_generation_ok :: "string option \<Rightarrow> int \<Rightarrow> bool" where
  "launch_generation_ok transcript_path config_mtime_ms =
     (case Option.bind transcript_path session_start_ms_from_transcript of
        Some session_start_ms \<Rightarrow> config_mtime_ms \<le> session_start_ms
      | None \<Rightarrow> False)"

text \<open>
  \<open>codex_config_mtime_ms\<close> from the modification time in UTC (\<open>None\<close>: unreadable, or before the epoch) and the
  zone's offset in seconds; the largest \<open>i64\<close> is the value of every failure.
\<close>

definition I64_MAX :: int where "I64_MAX = 2 ^ 63 - 1"

definition sat_i64 :: "int \<Rightarrow> int" where
  "sat_i64 x = max (- (2 ^ 63)) (min I64_MAX x)"

definition codex_config_mtime_ms :: "(int \<Rightarrow> int) \<Rightarrow> int option \<Rightarrow> int" where
  "codex_config_mtime_ms offset utc_ms =
     (case utc_ms of
        Some ms \<Rightarrow> if 0 \<le> ms \<and> ms \<le> I64_MAX then sat_i64 (ms + sat_i64 (offset (ms div 1000) * 1000)) else I64_MAX
      | None \<Rightarrow> I64_MAX)"

section \<open>The start of a Codex session\<close>

datatype session_start_verdict = NotRouted | AuthFail | ProxyDown | RestartNeeded | NeutralOnboarding

definition codex_session_start_verdict :: "bool \<Rightarrow> bool \<Rightarrow> bool \<Rightarrow> bool \<Rightarrow> session_start_verdict" where
  "codex_session_start_verdict routed auth_ok identity_ok launch_gen_ok =
     (if \<not> routed then NotRouted
      else if \<not> auth_ok then AuthFail
      else if \<not> identity_ok then ProxyDown
      else if \<not> launch_gen_ok then RestartNeeded
      else NeutralOnboarding)"

text \<open>
  What both Codex hooks look at: the configuration's text (\<open>None\<close> when its place cannot be resolved) and
  comparand, the transcript's path, the key and the answer of the identity probe on a port.
\<close>

record codex_facts =
  xf_config :: "string option"
  xf_mtime :: int
  xf_transcript :: "string option"
  xf_env_key :: "string option"
  xf_auth_json :: "json option"
  xf_identity :: "nat \<Rightarrow> bool"

definition CODEX_PROVIDER_ID :: string where "CODEX_PROVIDER_ID = ''sordino''"

definition codex_route :: "(string \<Rightarrow> json option) \<Rightarrow> codex_facts \<Rightarrow> (string \<times> nat) option" where
  "codex_route toml F =
     (case xf_config F of None \<Rightarrow> None | Some t \<Rightarrow> codex_route_from_config toml t CODEX_PROVIDER_ID)"

definition codex_session_start_cmd :: "(string \<Rightarrow> json option) \<Rightarrow> codex_facts \<Rightarrow> session_start_verdict" where
  "codex_session_start_cmd toml F =
     (case codex_route toml F of
        None \<Rightarrow> NotRouted
      | Some (_, port) \<Rightarrow>
          (if \<not> snd (classify_codex_auth (xf_env_key F) (xf_auth_json F)) then AuthFail
           else if \<not> xf_identity F port then ProxyDown
           else codex_session_start_verdict True True True (launch_generation_ok (xf_transcript F) (xf_mtime F))))"

section \<open>The Codex intake gate\<close>

definition is_truthy_flag :: "string \<Rightarrow> bool" where
  "is_truthy_flag v \<longleftrightarrow> ascii_lower (trim v) \<in> {''1'', ''true'', ''yes'', ''on''}"

definition prompt_is_sordino_command :: "string \<Rightarrow> bool" where
  "prompt_is_sordino_command prompt \<longleftrightarrow> starts_with ''/sordino:'' prompt"

definition codex_intake_should_block :: "bool \<Rightarrow> bool \<Rightarrow> bool \<Rightarrow> bool" where
  "codex_intake_should_block opted_out route_confirmed escape_hatch \<longleftrightarrow> \<not> escape_hatch \<and> \<not> opted_out \<and> \<not> route_confirmed"

definition codex_route_confirmed :: "bool \<Rightarrow> bool \<Rightarrow> bool \<Rightarrow> bool" where
  "codex_route_confirmed config_selects_loopback identity_ok launch_gen_ok \<longleftrightarrow>
     config_selects_loopback \<and> identity_ok \<and> launch_gen_ok"

definition should_emit_override_warn :: "nat \<Rightarrow> bool \<Rightarrow> bool" where
  "should_emit_override_warn prior_allowed_count a8_routed_recently \<longleftrightarrow> 1 \<le> prior_allowed_count \<and> \<not> a8_routed_recently"

text \<open>The prompt and its session; what the proxy says of the session's traffic (\<open>None\<close>: no answer).\<close>

record codex_prompt =
  xp_text :: string
  xp_session :: "string option"
  xp_conversation :: "string option"
  xp_opted_out :: bool
  xp_no_gate :: "string option"
  xp_a8 :: "nat \<Rightarrow> string \<Rightarrow> bool option"
  xp_write_ok :: bool

datatype codex_outcome = CodexBlock | CodexAllow bool

definition codex_confirmed :: "(string \<Rightarrow> json option) \<Rightarrow> codex_facts \<Rightarrow> bool" where
  "codex_confirmed toml F \<longleftrightarrow>
     codex_route_confirmed (codex_route toml F \<noteq> None)
       (case codex_route toml F of Some (_, port) \<Rightarrow> xf_identity F port | None \<Rightarrow> False)
       (xf_config F \<noteq> None \<and> launch_generation_ok (xf_transcript F) (xf_mtime F))"

text \<open>The counter file of a conversation, a saturating \<open>u32\<close>.\<close>

type_synonym codex_markers = "(string \<times> nat) list"

definition read_codex_allowed_count :: "codex_markers \<Rightarrow> string \<Rightarrow> nat" where
  "read_codex_allowed_count m conv = (case map_of m conv of Some n \<Rightarrow> n | None \<Rightarrow> 0)"

definition bump_codex_allowed_count :: "bool \<Rightarrow> codex_markers \<Rightarrow> string \<Rightarrow> nat \<Rightarrow> codex_markers" where
  "bump_codex_allowed_count ok m conv prior = (if ok then hm_insert conv (min (2 ^ 32 - 1) (prior + 1)) m else m)"

definition codex_user_prompt_submit_cmd ::
  "(string \<Rightarrow> json option) \<Rightarrow> codex_facts \<Rightarrow> codex_prompt \<Rightarrow> codex_markers \<Rightarrow> codex_outcome \<times> codex_markers" where
  "codex_user_prompt_submit_cmd toml F p m =
     (let escape_hatch = (case xp_no_gate p of Some v \<Rightarrow> is_truthy_flag v | None \<Rightarrow> False)
      in if codex_intake_should_block (xp_opted_out p) (codex_confirmed toml F) escape_hatch
            \<and> \<not> prompt_is_sordino_command (xp_text p) then (CodexBlock, m)
         else case (if codex_confirmed toml F then xp_conversation p else None) of
           None \<Rightarrow> (CodexAllow False, m)
         | Some conv \<Rightarrow>
             (let prior = read_codex_allowed_count m conv;
                  a8 = (case (codex_route toml F, xp_session p) of
                          (Some (_, port), Some sid) \<Rightarrow> xp_a8 p port sid
                        | _ \<Rightarrow> None);
                  warn = (case a8 of Some r \<Rightarrow> should_emit_override_warn prior r | None \<Rightarrow> False)
              in (CodexAllow warn, bump_codex_allowed_count (xp_write_ok p) m conv prior)))"

end
