(* ===== verification/Hooks_Gate_Laws.thy ===== *)
theory Hooks_Gate_Laws
  imports Hooks_Gate "HOL-Library.Product_Lexorder"
begin

text \<open>
  The Codex gates: the serial number of a civil time orders times as the calendar does, a prompt passes only for
  a reason the code names, no onboarding without all four checks, and the override warning never comes before a
  prompt of the same conversation has been let through.
\<close>

section \<open>The calendar\<close>

lemma upto_snoc: "i \<le> j \<Longrightarrow> [i..j] = [i..j - 1] @ [j]" for i j :: int
  by (rule upto_rec2)

lemma days_to_year_Suc: "days_to_year (y + 1) = days_to_year y + year_days y"
proof -
  consider "1970 \<le> y" | "y = 1969" | "y < 1969" by linarith
  then show ?thesis
  proof cases
    case 1
    then show ?thesis using upto_snoc [of 1970 y] by (simp add: days_to_year_def)
  next
    case 2
    then show ?thesis by (simp add: days_to_year_def upto.simps)
  next
    case 3
    then show ?thesis using upto_rec1 [of y 1969] by (simp add: days_to_year_def)
  qed
qed

lemma days_to_year_mono: "y + int n = z \<Longrightarrow> 0 < n \<Longrightarrow> days_to_year y + year_days y \<le> days_to_year z"
proof (induction n arbitrary: z)
  case (Suc n)
  show ?case
  proof (cases "n = 0")
    case True
    with Suc.prems show ?thesis using days_to_year_Suc [of y] by simp
  next
    case False
    have "days_to_year y + year_days y \<le> days_to_year (z - 1)" using Suc.prems False by (intro Suc.IH) auto
    moreover have "days_to_year z = days_to_year (z - 1) + year_days (z - 1)" using days_to_year_Suc [of "z - 1"] by simp
    moreover have "0 \<le> year_days (z - 1)" by (simp add: year_days_def)
    ultimately show ?thesis by linarith
  qed
qed simp

lemma days_to_month_Suc: "1 \<le> m \<Longrightarrow> days_to_month y (Suc m) = days_to_month y m + days_in_month y m"
  by (simp add: days_to_month_def)

lemma days_in_month_nonneg [simp]: "0 \<le> days_in_month y m"
  by (simp add: days_in_month_def)

lemma days_to_month_mono: "1 \<le> m \<Longrightarrow> m < n \<Longrightarrow> days_to_month y m + days_in_month y m \<le> days_to_month y n"
proof (induction n)
  case (Suc n)
  show ?case
  proof (cases "m = n")
    case True
    with Suc.prems show ?thesis by (simp add: days_to_month_Suc)
  next
    case False
    with Suc have "days_to_month y m + days_in_month y m \<le> days_to_month y n" by simp
    with Suc.prems False days_to_month_Suc [of n y] days_in_month_nonneg [of y n] show ?thesis by linarith
  qed
qed simp

lemma days_to_month_13: "days_to_month y 13 = year_days y"
  by (simp add: days_to_month_def days_in_month_def year_days_def upt_rec)

lemma lex_pair: "(a, b) < (c, d) \<longleftrightarrow> a < c \<or> a = c \<and> b < d"
  for a c :: "'a :: linorder" and b d :: "'b :: linorder"
  by auto

definition civil_days :: "int \<Rightarrow> nat \<Rightarrow> nat \<Rightarrow> int" where
  "civil_days y mo d = days_to_year y + days_to_month y mo + (int d - 1)"

definition civil_secs :: "nat \<Rightarrow> nat \<Rightarrow> nat \<Rightarrow> int" where
  "civil_secs h mi s = int h * 3600 + int mi * 60 + int s"

definition civil_date :: "int \<Rightarrow> nat \<Rightarrow> nat \<Rightarrow> bool" where
  "civil_date y mo d \<longleftrightarrow> 1 \<le> mo \<and> mo \<le> 12 \<and> 1 \<le> d \<and> int d \<le> days_in_month y mo"

lemma civil_Some:
  "civil_to_epoch_ms y mo d h mi s = Some a \<longleftrightarrow>
     civil_date y mo d \<and> h \<le> 23 \<and> mi \<le> 59 \<and> s \<le> 59 \<and> a = (civil_days y mo d * 86400 + civil_secs h mi s) * 1000"
  by (auto simp: civil_to_epoch_ms_def civil_date_def civil_days_def civil_secs_def)

lemma civil_days_in_year: "civil_date y mo d \<Longrightarrow> days_to_year y \<le> civil_days y mo d \<and> civil_days y mo d < days_to_year y + year_days y"
proof -
  assume v: "civil_date y mo d"
  have "0 \<le> days_to_month y mo"
    by (auto simp: days_to_month_def intro!: sum_list_nonneg)
  moreover have "days_to_month y mo + days_in_month y mo \<le> days_to_month y 13"
    using v by (intro days_to_month_mono) (auto simp: civil_date_def)
  ultimately show ?thesis using v days_to_month_13 [of y] by (simp add: civil_date_def civil_days_def)
qed

lemma civil_days_less:
  assumes v: "civil_date y mo d" and w: "civil_date y' mo' d'" and l: "(y, mo, d) < (y', mo', d')"
  shows "civil_days y mo d < civil_days y' mo' d'"
proof -
  consider "y < y'" | "y = y'" "mo < mo'" | "y = y'" "mo = mo'" "d < d'" using l unfolding lex_pair by blast
  then show ?thesis
  proof cases
    case 1
    then have "days_to_year y + year_days y \<le> days_to_year y'"
      using days_to_year_mono [of y "nat (y' - y)" y'] by simp
    with civil_days_in_year [OF v] civil_days_in_year [OF w] show ?thesis by linarith
  next
    case 2
    have "days_to_month y mo + days_in_month y mo \<le> days_to_month y mo'"
      using 2 v by (intro days_to_month_mono) (auto simp: civil_date_def)
    with 2 v w show ?thesis by (simp add: civil_days_def civil_date_def)
  next
    case 3
    then show ?thesis by (simp add: civil_days_def)
  qed
qed

lemma civil_secs_less:
  "mi \<le> 59 \<Longrightarrow> s \<le> 59 \<Longrightarrow> (h, mi, s) < (h', mi', s') \<Longrightarrow> civil_secs h mi s < civil_secs h' mi' s'"
  by (auto simp: civil_secs_def)

lemma civil_secs_bounds: "h \<le> 23 \<Longrightarrow> mi \<le> 59 \<Longrightarrow> s \<le> 59 \<Longrightarrow> 0 \<le> civil_secs h mi s \<and> civil_secs h mi s < 86400"
  by (auto simp: civil_secs_def)

lemma civil_less:
  assumes a: "civil_to_epoch_ms y mo d h mi s = Some a" and b: "civil_to_epoch_ms y' mo' d' h' mi' s' = Some b"
    and l: "(y, mo, d, h, mi, s) < (y', mo', d', h', mi', s')"
  shows "a < b"
proof -
  have v: "civil_date y mo d" "civil_date y' mo' d'" "mi \<le> 59" "s \<le> 59"
    and t: "0 \<le> civil_secs h mi s" "civil_secs h mi s < 86400" "0 \<le> civil_secs h' mi' s'" "civil_secs h' mi' s' < 86400"
    and e: "a = (civil_days y mo d * 86400 + civil_secs h mi s) * 1000"
      "b = (civil_days y' mo' d' * 86400 + civil_secs h' mi' s') * 1000"
    using a b civil_secs_bounds unfolding civil_Some by auto
  consider "(y, mo, d) < (y', mo', d')" | "(y, mo, d) = (y', mo', d')" "(h, mi, s) < (h', mi', s')"
    using l unfolding lex_pair by blast
  then show ?thesis
  proof cases
    case 1
    with civil_days_less v have "civil_days y mo d + 1 \<le> civil_days y' mo' d'" by fastforce
    with t have "civil_days y mo d * 86400 + civil_secs h mi s < civil_days y' mo' d' * 86400 + civil_secs h' mi' s'" by linarith
    with e show ?thesis by simp
  next
    case 2
    with civil_secs_less v(3,4) e show ?thesis by auto
  qed
qed

text \<open>
  The serial number that the launch guard compares is faithful to the calendar: of two times that pass the
  range checks one is less than the other exactly when its fields come first from the year to the second, so that
  different times never share a number.
\<close>

theorem civil_serial_order:
  assumes "civil_to_epoch_ms y mo d h mi s = Some a" "civil_to_epoch_ms y' mo' d' h' mi' s' = Some b"
  shows "a < b \<longleftrightarrow> (y, mo, d, h, mi, s) < (y', mo', d', h', mi', s')"
proof -
  consider "(y, mo, d, h, mi, s) < (y', mo', d', h', mi', s')" | "(y', mo', d', h', mi', s') < (y, mo, d, h, mi, s)"
    | "(y, mo, d, h, mi, s) = (y', mo', d', h', mi', s')" using linorder_less_linear by blast
  then show ?thesis
    using civil_less [OF assms] civil_less [OF assms(2,1)] assms by cases auto
qed

theorem civil_serial_order_witness:
  "civil_to_epoch_ms 1972 2 29 23 59 59 = Some 68255999000 \<and> civil_to_epoch_ms 1972 3 1 0 0 0 = Some 68256000000
     \<and> (1972::int, 2::nat, 29::nat, 23::nat, 59::nat, 59::nat) < (1972, 3, 1, 0, 0, 0)"
proof -
  have a: "civil_to_epoch_ms 1972 2 29 23 59 59 = Some 68255999000" "civil_to_epoch_ms 1972 3 1 0 0 0 = Some 68256000000"
    by (simp_all add: civil_to_epoch_ms_def days_in_month_def leap_year_def days_to_year_def year_days_def days_to_month_def
        upto.simps upt_rec)
  then show ?thesis using civil_serial_order [OF a] by simp
qed

section \<open>The intake gate\<close>

lemma codex_confirmed_iff:
  "codex_confirmed toml F \<longleftrightarrow>
     (\<exists>url port start t. codex_route toml F = Some (url, port) \<and> xf_identity F port
        \<and> xf_transcript F = Some t \<and> session_start_ms_from_transcript t = Some start \<and> xf_mtime F \<le> start)"
  by (auto simp: codex_confirmed_def codex_route_confirmed_def launch_generation_ok_def codex_route_def
      Option.bind_eq_Some_conv split: option.splits prod.splits)

lemma codex_route_facts:
  "codex_route toml F = Some (url, port) \<Longrightarrow>
     loopback_v1_port url = Some port
     \<and> (\<exists>t doc. xf_config F = Some t \<and> toml t = Some doc \<and> jstr (jfield ''model_provider'' doc) = Some CODEX_PROVIDER_ID)"
  by (auto simp: codex_route_def codex_route_from_config_def split: option.splits if_splits)

lemma codex_allow_conf:
  "fst (codex_user_prompt_submit_cmd toml F p m) = CodexAllow True \<Longrightarrow>
     codex_confirmed toml F \<and> (\<exists>conv. xp_conversation p = Some conv \<and> 1 \<le> read_codex_allowed_count m conv)"
  by (auto simp: codex_user_prompt_submit_cmd_def Let_def should_emit_override_warn_def split: if_splits option.splits)

text \<open>
  C26. The Codex gate fails closed: a prompt is let through only because the project is opted out, the escape
  hatch holds an affirmative value, the prompt is one of our commands, or the route is confirmed: the provider is
  ours, its URL is our loopback form, our proxy answers on that very port and the configuration is not newer than
  the session. A blocked prompt leaves the counters alone.
\<close>

theorem codex_gate_fails_closed:
  "(fst (codex_user_prompt_submit_cmd toml F p m) = CodexBlock \<and> snd (codex_user_prompt_submit_cmd toml F p m) = m)
   \<or> xp_opted_out p \<or> (\<exists>v. xp_no_gate p = Some v \<and> ascii_lower (trim v) \<in> {''1'', ''true'', ''yes'', ''on''})
   \<or> starts_with ''/sordino:'' (xp_text p)
   \<or> (\<exists>url port start t. codex_route toml F = Some (url, port) \<and> loopback_v1_port url = Some port \<and> xf_identity F port
        \<and> xf_transcript F = Some t \<and> session_start_ms_from_transcript t = Some start \<and> xf_mtime F \<le> start)"
  (is "_ \<or> _ \<or> _ \<or> _ \<or> ?ok")
proof (cases "codex_confirmed toml F")
  case True
  then have ?ok using codex_route_facts unfolding codex_confirmed_iff by blast
  then show ?thesis by blast
next
  case False
  then show ?thesis
    by (auto simp: codex_user_prompt_submit_cmd_def Let_def codex_intake_should_block_def prompt_is_sordino_command_def
        is_truthy_flag_def split: option.splits)
qed

text \<open>
  The onboarding is the verdict of exactly the sessions that have a usable exported key and whose route the
  intake gate would confirm; every other session is warned.
\<close>

theorem onboarding_iff_confirmed:
  "codex_session_start_cmd toml F = NeutralOnboarding \<longleftrightarrow>
     codex_confirmed toml F \<and> fst (classify_codex_auth (xf_env_key F) (xf_auth_json F)) = ApiKey"
proof -
  have "snd (classify_codex_auth k a) = (fst (classify_codex_auth k a) = ApiKey)" for k a
    by (auto simp: classify_codex_auth_def Let_def split: option.split)
  moreover have "codex_route toml F \<noteq> None \<Longrightarrow> xf_config F \<noteq> None"
    by (cases "xf_config F") (simp_all add: codex_route_def)
  ultimately show ?thesis
    by (auto simp: codex_session_start_cmd_def codex_session_start_verdict_def codex_confirmed_def codex_route_confirmed_def
        split: option.splits prod.splits if_splits)
qed

section \<open>The override warning over a session\<close>

text \<open>The prompts of all sessions in the order of their submission, from the counters on disk.\<close>

fun codex_run ::
  "(string \<Rightarrow> json option) \<Rightarrow> (codex_facts \<times> codex_prompt) list \<Rightarrow> codex_markers \<Rightarrow> codex_outcome list" where
  "codex_run toml [] m = []"
| "codex_run toml ((F, p) # ps) m =
     (case codex_user_prompt_submit_cmd toml F p m of (out, m') \<Rightarrow> out # codex_run toml ps m')"

lemma codex_counter_step:
  "read_codex_allowed_count (snd (codex_user_prompt_submit_cmd toml F p m)) conv = read_codex_allowed_count m conv
   \<or> (codex_confirmed toml F \<and> xp_conversation p = Some conv)"
  by (auto simp: codex_user_prompt_submit_cmd_def Let_def bump_codex_allowed_count_def read_codex_allowed_count_def
      split: if_splits option.splits)

lemma codex_run_counts:
  "i < length ps \<Longrightarrow> codex_run toml ps m ! i = CodexAllow True \<Longrightarrow>
     \<exists>conv. xp_conversation (snd (ps ! i)) = Some conv \<and> codex_confirmed toml (fst (ps ! i))
       \<and> (1 \<le> read_codex_allowed_count m conv
          \<or> (\<exists>j < i. xp_conversation (snd (ps ! j)) = Some conv \<and> codex_confirmed toml (fst (ps ! j))))"
proof (induction toml ps m arbitrary: i rule: codex_run.induct)
  case (2 toml F p ps m)
  obtain out m' where r: "codex_user_prompt_submit_cmd toml F p m = (out, m')" by (cases "codex_user_prompt_submit_cmd toml F p m")
  show ?case
  proof (cases i)
    case 0
    with 2(3) r codex_allow_conf [of toml F p m] show ?thesis by auto
  next
    case (Suc k)
    obtain conv where c: "xp_conversation (snd (ps ! k)) = Some conv" "codex_confirmed toml (fst (ps ! k))"
      and w: "1 \<le> read_codex_allowed_count m' conv
        \<or> (\<exists>j < k. xp_conversation (snd (ps ! j)) = Some conv \<and> codex_confirmed toml (fst (ps ! j)))"
      using 2(1) [OF r [symmetric], of k] 2(2,3) r Suc by auto
    have "1 \<le> read_codex_allowed_count m conv
        \<or> (\<exists>j < i. xp_conversation (snd (((F, p) # ps) ! j)) = Some conv \<and> codex_confirmed toml (fst (((F, p) # ps) ! j)))"
    proof (cases "codex_confirmed toml F \<and> xp_conversation p = Some conv")
      case True
      then show ?thesis using Suc by (intro disjI2 exI [of _ 0]) simp
    next
      case False
      with codex_counter_step [of toml F p m conv] r
      have same: "read_codex_allowed_count m' conv = read_codex_allowed_count m conv" by auto
      show ?thesis
        using w
      proof
        assume "\<exists>j < k. xp_conversation (snd (ps ! j)) = Some conv \<and> codex_confirmed toml (fst (ps ! j))"
        then obtain j where "j < k" "xp_conversation (snd (ps ! j)) = Some conv" "codex_confirmed toml (fst (ps ! j))" by blast
        then show ?thesis using Suc by (intro disjI2 exI [of _ "Suc j"]) simp
      qed (simp add: same)
    qed
    with c Suc show ?thesis by auto
  qed
qed simp

text \<open>
  No false alarm on a first turn: starting without counters, whenever a prompt gets the override warning an
  earlier prompt of the same conversation had been let through on a confirmed route, whatever other sessions do
  in between.
\<close>

theorem override_warning_grounded:
  assumes "i < length ps" "codex_run toml ps [] ! i = CodexAllow True"
  shows "\<exists>conv j. j < i \<and> xp_conversation (snd (ps ! i)) = Some conv \<and> xp_conversation (snd (ps ! j)) = Some conv
     \<and> codex_confirmed toml (fst (ps ! j)) \<and> codex_confirmed toml (fst (ps ! i))"
  using codex_run_counts [OF assms] by (auto simp: read_codex_allowed_count_def)

definition sample_doc :: json where
  "sample_doc =
     JObj [(''model_provider'', JStr ''sordino''),
       (''model_providers'', JObj [(''sordino'', JObj [(''base_url'', JStr ''http://127.0.0.1:80/v1'')])])]"

definition sample_facts :: codex_facts where
  "sample_facts =
     \<lparr>xf_config = Some [], xf_mtime = 500, xf_transcript = Some ''rollout-1970-01-01T00-00-01-u.jsonl'', xf_env_key = None,
      xf_auth_json = None, xf_identity = (\<lambda>p. p = 80)\<rparr>"

definition sample_prompt :: codex_prompt where
  "sample_prompt =
     \<lparr>xp_text = ''hi'', xp_session = Some ''s1'', xp_conversation = Some ''c1'', xp_opted_out = False, xp_no_gate = None,
      xp_a8 = (\<lambda>_ _. Some False), xp_write_ok = True\<rparr>"

lemma sample_launch: "launch_generation_ok (Some ''rollout-1970-01-01T00-00-01-u.jsonl'') 500"
proof -
  have b: "path_base ''rollout-1970-01-01T00-00-01-u.jsonl'' = ''rollout-1970-01-01T00-00-01-u.jsonl''"
    by (simp add: path_base_def ord_def)
  have d: "splitn_at 4 (CHR ''-'') ''1970-01-01'' = [''1970'', ''01'', ''01'']"
    "splitn_at 4 (CHR ''-'') ''00-00-01-u.jsonl'' = [''00'', ''00'', ''01'', ''u.jsonl'']"
    by (simp_all add: numeral_eq_Suc split_once_at_def)
  have n: "parse_i64 ''1970'' = Some 1970" "parse_u32 ''01'' = Some 1" "parse_u32 ''00'' = Some 0"
    by (simp_all add: parse_i64_def parse_u32_def parse_unsigned_def ord_def)
  have c: "civil_to_epoch_ms 1970 1 1 0 0 1 = Some 1000"
    by (simp add: civil_to_epoch_ms_def days_in_month_def days_to_year_def days_to_month_def)
  show ?thesis
    by (simp add: launch_generation_ok_def session_start_ms_from_transcript_def strip_pre_def starts_with_def b
        split_once_at_def d n c [simplified] ends_with_def)
qed

lemma sample_port: "loopback_v1_port ''http://127.0.0.1:80/v1'' = Some 80"
  by (simp add: loopback_v1_port_def strip_pre_def strip_suf_def starts_with_def ends_with_def is_digit_def parse_u16_def
      parse_unsigned_def ord_def)

theorem override_warning_grounded_witness:
  "codex_run (\<lambda>_. Some sample_doc) [(sample_facts, sample_prompt), (sample_facts, sample_prompt)] [] = [CodexAllow False, CodexAllow True]
   \<and> codex_confirmed (\<lambda>_. Some sample_doc) sample_facts"
proof -
  let ?ps = "[(sample_facts, sample_prompt), (sample_facts, sample_prompt)]"
  have r: "codex_route (\<lambda>_. Some sample_doc) sample_facts = Some (''http://127.0.0.1:80/v1'', 80)"
    by (simp add: codex_route_def sample_facts_def codex_route_from_config_def sample_doc_def jfield_def jmembers_def jstr_def
        CODEX_PROVIDER_ID_def sample_port)
  have c: "codex_confirmed (\<lambda>_. Some sample_doc) sample_facts"
    unfolding codex_confirmed_def codex_route_confirmed_def r using sample_launch by (simp add: sample_facts_def)
  have run: "codex_run (\<lambda>_. Some sample_doc) ?ps [] = [CodexAllow False, CodexAllow True]"
    by (simp add: codex_user_prompt_submit_cmd_def Let_def codex_intake_should_block_def c r sample_prompt_def
        read_codex_allowed_count_def bump_codex_allowed_count_def should_emit_override_warn_def)
  obtain conv j where "j < (1::nat)" "codex_confirmed (\<lambda>_. Some sample_doc) (fst (?ps ! j))"
    using override_warning_grounded [of 1 ?ps "\<lambda>_. Some sample_doc"] run by auto
  with run show ?thesis by simp
qed

end
