(* ===== verification/Hooks_Session.thy ===== *)
theory Hooks_Session
  imports Hooks_Gate Proxy_State Broker_Resolve
begin

text \<open>
  The prompt hook of \<open>sordino-hooks\<close> for Claude Code (\<open>main.rs\<close>): the identity check of the proxy, the intake
  gate, the masking state of a session, the line that tells the model of a change, and the consumption of the
  reload reports that the proxy writes at its start. The prose of the lines is left out; a line is what it is
  about.
\<close>

section \<open>Names of conversations\<close>

definition conversation_char :: "string \<Rightarrow> char" where
  "conversation_char ch = (case ch of [b] \<Rightarrow> if is_alnum b \<or> b \<in> {CHR ''-'', CHR ''_''} then b else CHR ''-'' | _ \<Rightarrow> CHR ''-'')"

text \<open>The loop that halves runs of dashes until none is left, in one pass.\<close>

fun squeeze_dashes :: "string \<Rightarrow> string" where
  "squeeze_dashes (a # b # s) =
     (if a = CHR ''-'' \<and> b = CHR ''-'' then squeeze_dashes (b # s) else a # squeeze_dashes (b # s))"
| "squeeze_dashes s = s"

definition trim_dashes :: "string \<Rightarrow> string" where
  "trim_dashes s = rev (dropWhile (\<lambda>c. c = CHR ''-'') (rev (dropWhile (\<lambda>c. c = CHR ''-'') s)))"

definition safe_conversation_id :: "prims \<Rightarrow> string \<Rightarrow> string" where
  "safe_conversation_id P raw =
     (let out = trim_dashes (squeeze_dashes (map conversation_char (utf8_chars raw)))
      in if 80 < length out then take 40 out @ ''-'' @ take 16 (to_hex (blake3 P raw))
         else if out = [] then ''unknown'' else out)"

text \<open>
  \<open>Path::file_stem\<close>: the last component (empty and dot components do not count), up to its last dot unless that is
  its first character.
\<close>

definition split_stem :: "string \<Rightarrow> string" where
  "split_stem n =
     (if CHR ''.'' \<notin> set (drop 1 n) then n
      else rev (drop 1 (dropWhile (\<lambda>c. c \<noteq> CHR ''.'') (rev n))))"

definition file_stem :: "string \<Rightarrow> string option" where
  "file_stem p =
     (let cs = filter (\<lambda>c. c \<noteq> [] \<and> c \<noteq> ''.'') (splitn_at (Suc (length p)) (CHR ''/'') p)
      in if cs = [] \<or> last cs = ''..'' then None else Some (split_stem (last cs)))"

definition conversation_id_from_transcript_path :: "string \<Rightarrow> string" where
  "conversation_id_from_transcript_path raw =
     (case file_stem raw of Some n \<Rightarrow> if n = [] then raw else n | None \<Rightarrow> raw)"

fun find_string_key :: "string \<Rightarrow> json \<Rightarrow> string option"
  and find_string_items :: "string \<Rightarrow> json list \<Rightarrow> string option"
  and find_string_members :: "string \<Rightarrow> (string \<times> json) list \<Rightarrow> string option" where
  "find_string_key k (JObj ob) = (case jstr (map_of ob k) of Some s \<Rightarrow> Some s | None \<Rightarrow> find_string_members k ob)"
| "find_string_key k (JArr xs) = find_string_items k xs"
| "find_string_key k _ = None"
| "find_string_items k [] = None"
| "find_string_items k (x # xs) = (case find_string_key k x of Some s \<Rightarrow> Some s | None \<Rightarrow> find_string_items k xs)"
| "find_string_members k [] = None"
| "find_string_members k ((l, v) # r) = (case find_string_key k v of Some s \<Rightarrow> Some s | None \<Rightarrow> find_string_members k r)"

definition SESSION_KEYS :: "string list" where
  "SESSION_KEYS = [''session_id'', ''sessionId'', ''conversation_id'', ''conversationId'']"

definition TRANSCRIPT_KEYS :: "string list" where
  "TRANSCRIPT_KEYS = [''transcript_path'', ''transcriptPath'']"

definition first_some :: "('a \<Rightarrow> 'b option) \<Rightarrow> 'a list \<Rightarrow> 'b option" where
  "first_some f xs = (case List.map_filter f xs of y # _ \<Rightarrow> Some y | [] \<Rightarrow> None)"

definition conversation_id_from_hook_payload :: "prims \<Rightarrow> json option \<Rightarrow> string option" where
  "conversation_id_from_hook_payload P payload =
     (case payload of
        None \<Rightarrow> None
      | Some v \<Rightarrow>
          (case first_some (\<lambda>k. find_string_key k v) SESSION_KEYS of
             Some raw \<Rightarrow> Some (safe_conversation_id P raw)
           | None \<Rightarrow>
               map_option (\<lambda>raw. safe_conversation_id P (conversation_id_from_transcript_path raw))
                 (first_some (\<lambda>k. find_string_key k v) TRANSCRIPT_KEYS)))"

definition prompt_from_hook_payload :: "json option \<Rightarrow> string option" where
  "prompt_from_hook_payload payload =
     (case Option.bind payload jmembers of
        None \<Rightarrow> None
      | Some ob \<Rightarrow> first_some (\<lambda>k. jstr (map_of ob k)) [''prompt'', ''user_prompt'', ''userPrompt''])"

definition SESSION_MARKER :: string where "SESSION_MARKER = ''/sordino/session/''"

definition conversation_from_url :: "string \<Rightarrow> string option" where
  "conversation_from_url url =
     (let path = takeWhile (\<lambda>c. c \<noteq> CHR ''?'' \<and> c \<noteq> CHR ''#'') url
      in case str_find SESSION_MARKER path of
           None \<Rightarrow> None
         | Some i \<Rightarrow>
             (let cid = trim (takeWhile (\<lambda>c. c \<noteq> CHR ''/'') (drop (i + length SESSION_MARKER) path))
              in if cid = [] then None else Some cid))"

section \<open>The route and the identity of the proxy\<close>

text \<open>
  What the hook sees of its surroundings: the registry's and the settings' word on the project, two environment
  variables, the live rendezvous, the nonce of a successful health reply and the body of a successful
  configuration reply (\<open>JNull\<close> if it does not parse) per port.
\<close>

record claude_facts =
  cf_opted_out :: bool
  cf_baked :: "nat option"
  cf_base_url :: "string option"
  cf_no_gate :: "string option"
  cf_live :: "(nat \<times> rendezvous) option"
  cf_healthz :: "nat \<Rightarrow> string option option"
  cf_config :: "nat \<Rightarrow> json option"

definition loopback_url_port :: "string \<Rightarrow> nat option" where
  "loopback_url_port url =
     (case strip_pre ''http://'' (trim_slashes (trim url)) of
        None \<Rightarrow> None
      | Some authority \<Rightarrow>
          (case rsplit_colon authority of
             None \<Rightarrow> None
           | Some (host, port) \<Rightarrow>
               if (host \<noteq> ''127.0.0.1'' \<and> host \<noteq> ''localhost'') \<or> CHR ''/'' \<in> set port then None else parse_u16 port))"

text \<open>The port baked into one settings value, and into the first of the two files that has one.\<close>

definition baked_port_of :: "json \<Rightarrow> nat option" where
  "baked_port_of v =
     (case (jstr (jpath ''env'' ''ANTHROPIC_BASE_URL'' v), Option.bind (jstr (jpath ''env'' ''SORDINO_PORT'' v)) parse_u16) of
        (Some url, Some zp) \<Rightarrow> if loopback_url_port url = Some zp then Some zp else None
      | _ \<Rightarrow> None)"

definition project_baked_route :: "settings_api \<Rightarrow> project_files \<Rightarrow> nat option" where
  "project_baked_route S fs =
     first_some (\<lambda>f. case f of FText t \<Rightarrow> Option.bind (sa_parse S (strip_bom t)) baked_port_of | _ \<Rightarrow> None)
       [pf_local fs, pf_committed fs]"

definition session_routed_through :: "claude_facts \<Rightarrow> nat \<Rightarrow> bool" where
  "session_routed_through F p =
     (case cf_base_url F of Some u \<Rightarrow> base_url_matches u (''http://127.0.0.1:'' @ show_nat p) | None \<Rightarrow> False)"

definition verified_proxy_rec :: "claude_facts \<Rightarrow> nat \<Rightarrow> rendezvous option" where
  "verified_proxy_rec F port =
     (case cf_live F of
        None \<Rightarrow> None
      | Some (lp, r) \<Rightarrow>
          (if lp \<noteq> port \<or> rv_nonce r = [] then None
           else if cf_healthz F lp = Some (Some (rv_nonce r)) then Some r else None))"

definition intake_identity_ok :: "claude_facts \<Rightarrow> nat \<Rightarrow> bool" where
  "intake_identity_ok F port \<longleftrightarrow> verified_proxy_rec F port \<noteq> None"

section \<open>The masking state of a session\<close>

datatype mask_state = Masked | Off | DisabledThisConversation | NotReaching | Disabled | UnmaskedBypass

record session_status =
  ss_state :: mask_state
  ss_port :: nat
  ss_profile :: string

definition as_bool :: "json option \<Rightarrow> bool option" where
  "as_bool v = (case v of Some (JBool b) \<Rightarrow> Some b | _ \<Rightarrow> None)"

definition as_strings :: "json option \<Rightarrow> string list" where
  "as_strings v = (case v of Some (JArr xs) \<Rightarrow> List.map_filter (\<lambda>x. jstr (Some x)) xs | _ \<Rightarrow> [])"

definition resolve_routed_mask_state :: "bool option \<Rightarrow> string list \<Rightarrow> string \<Rightarrow> mask_state" where
  "resolve_routed_mask_state enabled disabled_conversations conv =
     (case enabled of
        Some True \<Rightarrow> if conv \<in> set disabled_conversations then DisabledThisConversation else Masked
      | Some False \<Rightarrow> Off
      | None \<Rightarrow> NotReaching)"

definition routed_proxy_status :: "claude_facts \<Rightarrow> string \<Rightarrow> nat \<Rightarrow> mask_state \<times> string" where
  "routed_proxy_status F conv port =
     (case verified_proxy_rec F port of
        None \<Rightarrow> (NotReaching, [])
      | Some _ \<Rightarrow>
          (case cf_config F port of
             None \<Rightarrow> (NotReaching, [])
           | Some v \<Rightarrow>
               (case resolve_routed_mask_state (as_bool (jfield ''enabled'' v))
                       (as_strings (jfield ''masking_disabled_conversations'' v)) conv of
                  NotReaching \<Rightarrow> (NotReaching, [])
                | st \<Rightarrow> (st, str_default (jstr (jpath ''config'' ''profile'' v))))))"

definition session_mask_state :: "claude_facts \<Rightarrow> string \<Rightarrow> bool \<Rightarrow> session_status option" where
  "session_mask_state F conv escape_hatch =
     (if cf_opted_out F then Some \<lparr>ss_state = Disabled, ss_port = 0, ss_profile = []\<rparr>
      else case cf_baked F of
        None \<Rightarrow> None
      | Some port \<Rightarrow>
          (if \<not> session_routed_through F port
           then Some \<lparr>ss_state = (if escape_hatch then UnmaskedBypass else NotReaching), ss_port = 0, ss_profile = []\<rparr>
           else case routed_proxy_status F conv port of
             (st, profile) \<Rightarrow> Some \<lparr>ss_state = st, ss_port = port, ss_profile = profile\<rparr>))"

section \<open>The line that tells of a change\<close>

definition should_narrate :: "mask_state option \<Rightarrow> mask_state \<Rightarrow> bool" where
  "should_narrate prev cur \<longleftrightarrow>
     prev \<noteq> Some cur
     \<and> (prev = Some Masked \<or> cur = Masked \<or> cur = UnmaskedBypass \<or> cur = DisabledThisConversation)"

datatype status_line =
    MaskRearmed nat string
  | MaskActive nat string
  | MaskOff
  | MaskOffHere
  | MaskNotReaching
  | MaskRemoved
  | MaskBypassed
  | ZdrRestored string
  | ZdrReverted revert_cause
  | ZdrAllLost string

definition mask_delta_message :: "mask_state option \<Rightarrow> session_status \<Rightarrow> status_line" where
  "mask_delta_message prev s =
     (let profile = (if ss_profile s = [] then ''on'' else ss_profile s)
      in case ss_state s of
           Masked \<Rightarrow> if prev = Some DisabledThisConversation then MaskRearmed (ss_port s) profile else MaskActive (ss_port s) profile
         | Off \<Rightarrow> MaskOff
         | DisabledThisConversation \<Rightarrow> MaskOffHere
         | NotReaching \<Rightarrow> MaskNotReaching
         | Disabled \<Rightarrow> MaskRemoved
         | UnmaskedBypass \<Rightarrow> MaskBypassed)"

text \<open>The records of the sessions; \<open>aged\<close> are those not written for two weeks, which the write prunes.\<close>

type_synonym status_dir = "(string \<times> mask_state) list"

definition write_session_mask_state :: "bool \<Rightarrow> (string \<Rightarrow> bool) \<Rightarrow> string \<Rightarrow> mask_state \<Rightarrow> status_dir \<Rightarrow> status_dir" where
  "write_session_mask_state ok aged conv st d =
     (if ok then hm_insert conv st (filter (\<lambda>(c, _). \<not> aged c) d) else filter (\<lambda>(c, _). \<not> aged c) d)"

definition mask_delta_line ::
  "claude_facts \<Rightarrow> bool \<Rightarrow> (string \<Rightarrow> bool) \<Rightarrow> string \<Rightarrow> bool \<Rightarrow> status_dir \<Rightarrow> status_line option \<times> status_dir" where
  "mask_delta_line F ok aged conv escape_hatch d =
     (case session_mask_state F conv escape_hatch of
        None \<Rightarrow> (None, d)
      | Some cur \<Rightarrow>
          (let prev = map_of d conv
           in (if should_narrate prev (ss_state cur) then Some (mask_delta_message prev cur) else None,
               write_session_mask_state ok aged conv (ss_state cur) d)))"

section \<open>The reload reports\<close>

text \<open>
  The directory the proxy writes into, with the markers of the conversations that heard of a lost state. Whether
  a report can be read as one, the removal that claims it and the stamp succeed are parameters.
\<close>

record zdr_dir =
  zr_disk :: zdr_disk
  zr_seen :: "(string \<times> nat) list"

record report_io =
  rio_parses :: bool
  rio_claim :: bool
  rio_global_parses :: bool
  rio_stamp :: bool

definition seen_name :: "prims \<Rightarrow> string \<Rightarrow> string" where
  "seen_name P conv = sanitize_component P conv @ ''.global-seen''"

definition zdr_report_message :: "reload_outcome \<Rightarrow> status_line" where
  "zdr_report_message r = (case r of Restored _ target \<Rightarrow> ZdrRestored target | Reverted _ why \<Rightarrow> ZdrReverted why)"

definition consume_report :: "prims \<Rightarrow> report_io \<Rightarrow> string \<Rightarrow> zdr_dir \<Rightarrow> status_line list \<times> zdr_dir" where
  "consume_report P i conv d =
     (case map_of (dk_reports (zr_disk d)) (report_name P conv) of
        None \<Rightarrow> ([], d)
      | Some r \<Rightarrow>
          (if rio_parses i \<and> rio_claim i
           then ([zdr_report_message r],
                 d\<lparr>zr_disk := (zr_disk d)\<lparr>dk_reports := hm_remove (report_name P conv) (dk_reports (zr_disk d))\<rparr>\<rparr>)
           else ([], d)))"

definition consume_global :: "prims \<Rightarrow> report_io \<Rightarrow> string \<Rightarrow> zdr_dir \<Rightarrow> status_line list \<times> zdr_dir" where
  "consume_global P i conv d =
     (case (if rio_global_parses i then dk_global (zr_disk d) else None) of
        None \<Rightarrow> ([], d)
      | Some (epoch, why) \<Rightarrow>
          (if map_of (zr_seen d) (seen_name P conv) = Some epoch then ([], d)
           else ([ZdrAllLost why],
                 if rio_stamp i then d\<lparr>zr_seen := hm_insert (seen_name P conv) epoch (zr_seen d)\<rparr> else d)))"

definition consume_zdr_transitions :: "prims \<Rightarrow> report_io \<Rightarrow> string \<Rightarrow> zdr_dir \<Rightarrow> status_line list \<times> zdr_dir" where
  "consume_zdr_transitions P i conv d =
     (let (l1, d) = consume_report P i conv d; (l2, d) = consume_global P i conv d in (l1 @ l2, d))"

section \<open>The prompt hook\<close>

definition intake_should_block_verified :: "bool \<Rightarrow> bool \<Rightarrow> bool \<Rightarrow> bool \<Rightarrow> bool" where
  "intake_should_block_verified opted_out plumbed identity_ok escape_hatch \<longleftrightarrow>
     \<not> escape_hatch \<and> \<not> opted_out \<and> plumbed \<and> \<not> identity_ok"

record prompt_io =
  pio_status_ok :: bool
  pio_aged :: "string \<Rightarrow> bool"
  pio_reports :: report_io

record hook_state =
  hs_status :: status_dir
  hs_zdr :: zdr_dir

text \<open>The gate's two reasons: the session does not point at the port, or the listener is not verified.\<close>

datatype intake_outcome = IntakeBlock bool | IntakeAllow "status_line list"

definition escape_hatch_open :: "claude_facts \<Rightarrow> bool" where
  "escape_hatch_open F = (case cf_no_gate F of Some v \<Rightarrow> is_truthy_flag v | None \<Rightarrow> False)"

definition env_routed :: "claude_facts \<Rightarrow> bool" where
  "env_routed F = (case cf_baked F of Some p \<Rightarrow> session_routed_through F p | None \<Rightarrow> False)"

definition user_prompt_submit ::
  "prims \<Rightarrow> claude_facts \<Rightarrow> prompt_io \<Rightarrow> json option \<Rightarrow> hook_state \<Rightarrow> intake_outcome \<times> hook_state" where
  "user_prompt_submit P F i payload s =
     (let prompt = str_default (prompt_from_hook_payload payload);
          escape_hatch = escape_hatch_open F;
          must_check = cf_baked F \<noteq> None \<and> \<not> cf_opted_out F \<and> \<not> escape_hatch \<and> \<not> prompt_is_sordino_command prompt;
          identity_ok = must_check \<and> env_routed F \<and> (case cf_baked F of Some p \<Rightarrow> intake_identity_ok F p | None \<Rightarrow> False)
      in if intake_should_block_verified (cf_opted_out F) (cf_baked F \<noteq> None) identity_ok escape_hatch
            \<and> \<not> prompt_is_sordino_command prompt
         then (IntakeBlock (env_routed F), s)
         else case conversation_id_from_hook_payload P payload of
           None \<Rightarrow> (IntakeAllow [], s)
         | Some conv \<Rightarrow>
             (let (l, st) = mask_delta_line F (pio_status_ok i) (pio_aged i) conv escape_hatch (hs_status s);
                  (ls, z) = consume_zdr_transitions P (pio_reports i) conv (hs_zdr s)
              in (IntakeAllow ((case l of Some x \<Rightarrow> [x] | None \<Rightarrow> []) @ ls), \<lparr>hs_status = st, hs_zdr = z\<rparr>)))"

end
