(* ===== verification/Hooks_Session_Laws.thy ===== *)
theory Hooks_Session_Laws
  imports Hooks_Session Proxy_State_Laws
begin

text \<open>
  The prompt hook: its gate lets a prompt through for named reasons only, it claims masking only of what it has
  verified, what the model was last told agrees with the state of its session, and a reload report or a lost
  selection state is told to each conversation once.
\<close>

section \<open>The gate\<close>

lemma verified_facts:
  "verified_proxy_rec F port = Some r \<longleftrightarrow>
     cf_live F = Some (port, r) \<and> rv_nonce r \<noteq> [] \<and> cf_healthz F port = Some (Some (rv_nonce r))"
  by (auto simp: verified_proxy_rec_def split: option.splits if_splits)

text \<open>
  C6. The gate of a plumbed project fails closed: a prompt passes only because the project is opted out, has no
  baked route, the escape hatch is open, the prompt is one of our commands, or the session's base URL leads to the
  baked port and what lives there is the process that published our rendezvous record, by its nonce. A blocked
  prompt changes nothing.
\<close>

theorem intake_fails_closed:
  "(\<exists>r. user_prompt_submit P F i payload s = (IntakeBlock r, s))
   \<or> cf_opted_out F \<or> cf_baked F = None \<or> escape_hatch_open F
   \<or> starts_with ''/sordino:'' (str_default (prompt_from_hook_payload payload))
   \<or> (\<exists>port rec u. cf_baked F = Some port \<and> cf_base_url F = Some u \<and> base_url_matches u (''http://127.0.0.1:'' @ show_nat port)
        \<and> cf_live F = Some (port, rec) \<and> rv_nonce rec \<noteq> [] \<and> cf_healthz F port = Some (Some (rv_nonce rec)))"
proof (cases "cf_baked F")
  case (Some port)
  show ?thesis
  proof (cases "session_routed_through F port \<and> intake_identity_ok F port")
    case True
    then obtain rec u where "verified_proxy_rec F port = Some rec" "cf_base_url F = Some u"
      "base_url_matches u (''http://127.0.0.1:'' @ show_nat port)"
      by (auto simp: intake_identity_ok_def session_routed_through_def split: option.splits)
    with Some show ?thesis unfolding verified_facts by blast
  next
    case False
    with Some show ?thesis
      by (auto simp: user_prompt_submit_def Let_def intake_should_block_verified_def prompt_is_sordino_command_def env_routed_def)
  qed
qed simp

section \<open>What is claimed\<close>

fun says_masked :: "status_line \<Rightarrow> bool" where
  "says_masked (MaskActive _ _) = True"
| "says_masked (MaskRearmed _ _) = True"
| "says_masked _ = False"

lemma says_masked_delta: "says_masked (mask_delta_message prev cur) \<longleftrightarrow> ss_state cur = Masked"
  by (cases "ss_state cur") (auto simp: mask_delta_message_def Let_def)

lemma zdr_lines_not_mask: "(ls, z) = consume_zdr_transitions P i conv d \<Longrightarrow> l \<in> set ls \<Longrightarrow> \<not> says_masked l"
  by (auto simp: consume_zdr_transitions_def consume_report_def consume_global_def zdr_report_message_def split_beta Let_def
      split: option.splits if_splits reload_outcome.splits)

lemma masked_state:
  assumes "session_mask_state F conv hatch = Some cur" "ss_state cur = Masked"
  shows "\<exists>port rec v. cf_baked F = Some port \<and> session_routed_through F port \<and> \<not> cf_opted_out F
     \<and> cf_live F = Some (port, rec) \<and> rv_nonce rec \<noteq> [] \<and> cf_healthz F port = Some (Some (rv_nonce rec))
     \<and> cf_config F port = Some v \<and> as_bool (jfield ''enabled'' v) = Some True
     \<and> conv \<notin> set (as_strings (jfield ''masking_disabled_conversations'' v))"
proof -
  obtain port where p: "cf_baked F = Some port" "session_routed_through F port" "\<not> cf_opted_out F"
    and r: "fst (routed_proxy_status F conv port) = Masked"
    using assms by (auto simp: session_mask_state_def split: if_splits option.splits prod.splits)
  obtain rec v where v: "verified_proxy_rec F port = Some rec" "cf_config F port = Some v"
    and m: "resolve_routed_mask_state (as_bool (jfield ''enabled'' v)) (as_strings (jfield ''masking_disabled_conversations'' v)) conv = Masked"
    using r by (auto simp: routed_proxy_status_def split: option.splits mask_state.splits)
  have "as_bool (jfield ''enabled'' v) = Some True \<and> conv \<notin> set (as_strings (jfield ''masking_disabled_conversations'' v))"
    using m by (auto simp: resolve_routed_mask_state_def split: option.splits bool.splits if_splits)
  with p v show ?thesis unfolding verified_facts by blast
qed

text \<open>
  C25. No claim without proof: a line that says masking is active goes out only for a conversation whose session
  leads to the verified proxy of this project, with the master switch read as on from that very proxy and the
  conversation absent from its list of exceptions.
\<close>

theorem masked_claim_proven:
  assumes "fst (user_prompt_submit P F i payload s) = IntakeAllow ls" "l \<in> set ls" "says_masked l"
  shows "\<exists>conv port rec v. conversation_id_from_hook_payload P payload = Some conv
     \<and> cf_baked F = Some port \<and> session_routed_through F port \<and> \<not> cf_opted_out F
     \<and> cf_live F = Some (port, rec) \<and> rv_nonce rec \<noteq> [] \<and> cf_healthz F port = Some (Some (rv_nonce rec))
     \<and> cf_config F port = Some v \<and> as_bool (jfield ''enabled'' v) = Some True
     \<and> conv \<notin> set (as_strings (jfield ''masking_disabled_conversations'' v))"
proof -
  obtain conv where c: "conversation_id_from_hook_payload P payload = Some conv"
    using assms by (auto simp: user_prompt_submit_def Let_def split: if_splits option.splits)
  obtain ml st zs z where ml: "mask_delta_line F (pio_status_ok i) (pio_aged i) conv (escape_hatch_open F) (hs_status s) = (ml, st)"
    and zs: "consume_zdr_transitions P (pio_reports i) conv (hs_zdr s) = (zs, z)"
    by (meson surj_pair)
  have "l \<in> set zs \<or> ml = Some l"
    using assms(1,2) c by (auto simp: user_prompt_submit_def Let_def ml zs split: if_splits option.splits)
  then have "ml = Some l" using zdr_lines_not_mask [OF zs [symmetric]] assms(3) by blast
  then obtain cur where cur: "session_mask_state F conv (escape_hatch_open F) = Some cur"
    and "l = mask_delta_message (map_of (hs_status s) conv) cur"
    using ml by (auto simp: mask_delta_line_def Let_def split: option.splits if_splits)
  then have "ss_state cur = Masked" using assms(3) says_masked_delta by simp
  from masked_state [OF cur this] c show ?thesis by blast
qed

section \<open>What the model believes\<close>

text \<open>The turns of all sessions of a machine and what each model was last told: masked or not.\<close>

fun belief_run ::
  "(claude_facts \<times> bool \<times> string) list \<Rightarrow> status_dir \<times> (string \<Rightarrow> bool) \<Rightarrow> status_dir \<times> (string \<Rightarrow> bool)" where
  "belief_run [] s = s"
| "belief_run ((F, hatch, conv) # ts) (d, told) =
     (case mask_delta_line F True (\<lambda>_. False) conv hatch d of
        (l, d') \<Rightarrow> belief_run ts (d', case l of Some x \<Rightarrow> told(conv := says_masked x) | None \<Rightarrow> told))"

definition belief_inv :: "status_dir \<times> (string \<Rightarrow> bool) \<Rightarrow> bool" where
  "belief_inv s \<longleftrightarrow> (\<forall>c. snd s c = (map_of (fst s) c = Some Masked))"

lemma delta_facts:
  assumes "session_mask_state F conv hatch = Some cur"
  shows "mask_delta_line F True (\<lambda>_. False) conv hatch d
     = (if should_narrate (map_of d conv) (ss_state cur) then Some (mask_delta_message (map_of d conv) cur) else None,
        hm_insert conv (ss_state cur) (filter (\<lambda>_. True) d))"
  using assms by (simp add: mask_delta_line_def Let_def write_session_mask_state_def split_def)

lemma belief_step:
  "belief_inv (d, told) \<Longrightarrow> belief_inv (belief_run [(F, hatch, conv)] (d, told))"
  by (cases "session_mask_state F conv hatch")
    (auto simp: belief_inv_def mask_delta_line_def [of F _ _ _ _ d] Let_def write_session_mask_state_def says_masked_delta should_narrate_def
      split_def split: option.splits)

lemma belief_run_append: "belief_run (xs @ ys) s = belief_run ys (belief_run xs s)"
  by (induction xs s rule: belief_run.induct) (simp_all split: prod.splits)

lemma belief_run_inv: "belief_inv s \<Longrightarrow> belief_inv (belief_run ts s)"
proof (induction ts arbitrary: s)
  case (Cons t ts)
  obtain F hatch conv d told where t: "t = (F, hatch, conv)" "s = (d, told)" by (metis prod_cases3 surj_pair)
  have "belief_run (t # ts) s = belief_run ts (belief_run [t] s)" using belief_run_append [of "[t]" ts s] by simp
  moreover have "belief_inv (belief_run [t] s)" using belief_step Cons.prems by (simp only: t)
  ultimately show ?case using Cons.IH by simp
qed simp

text \<open>
  C10. The model's last word on masking is true: over any history of turns of any sessions, and whatever the
  state of the first turn was, after a turn with a determinable state the model of that conversation was last told
  that it is masked exactly when it is, provided the records are written and none is pruned.
\<close>

theorem model_belief_true:
  assumes "session_mask_state F conv hatch = Some cur"
  shows "snd (belief_run (ts @ [(F, hatch, conv)]) ([], \<lambda>_. False)) conv \<longleftrightarrow> ss_state cur = Masked"
proof -
  let ?s = "belief_run ts ([], \<lambda>_. False)"
  obtain d told where s: "?s = (d, told)" by (cases ?s)
  have "belief_inv ([], \<lambda>_. False)" by (simp add: belief_inv_def)
  then have i: "belief_inv (belief_run (ts @ [(F, hatch, conv)]) ([], \<lambda>_. False))" by (rule belief_run_inv)
  have "map_of (fst (belief_run [(F, hatch, conv)] (d, told))) conv = Some (ss_state cur)"
    by (simp add: delta_facts [OF assms])
  with i show ?thesis by (simp add: belief_run_append s belief_inv_def)
qed

section \<open>Lines that do not come\<close>

fun zdr_line :: "status_line \<Rightarrow> bool" where
  "zdr_line (ZdrRestored _) = True"
| "zdr_line (ZdrReverted _) = True"
| "zdr_line (ZdrAllLost _) = True"
| "zdr_line _ = False"

text \<open>
  The other way for real text to leave unannounced: with the escape hatch open, a session that points at the
  baked port while nothing verified lives there gets every prompt through, and unless masking had been announced
  before, not one line says so; the bypass line is for sessions that do not point at the port.
\<close>

theorem unverified_bypass_silent:
  assumes "cf_baked F = Some port" "session_routed_through F port" "verified_proxy_rec F port = None"
    and "\<not> cf_opted_out F" "escape_hatch_open F"
    and "\<And>conv. map_of (hs_status s) conv \<noteq> Some Masked"
  shows "\<exists>ls. fst (user_prompt_submit P F i payload s) = IntakeAllow ls \<and> list_all zdr_line ls"
proof -
  have quiet: "fst (mask_delta_line F ok aged conv (escape_hatch_open F) (hs_status s)) = None" for ok aged conv
    using assms by (auto simp: mask_delta_line_def session_mask_state_def routed_proxy_status_def Let_def should_narrate_def)
  have zdr: "list_all zdr_line (fst (consume_zdr_transitions P j conv d))" for j conv d
    by (auto simp: consume_zdr_transitions_def consume_report_def consume_global_def zdr_report_message_def split_beta Let_def
        split: option.splits if_splits reload_outcome.splits)
  show ?thesis
    using assms(4,5) quiet zdr
    by (cases "conversation_id_from_hook_payload P payload")
      (auto simp: user_prompt_submit_def Let_def intake_should_block_verified_def split_beta)
qed

definition sample_rec :: rendezvous where
  "sample_rec = rendezvous.make ''/p'' 80 ''k'' [] [] 9 [] 80 [] 0 ''n1''"

definition sample_claude :: "string option \<Rightarrow> string option \<Rightarrow> claude_facts" where
  "sample_claude nce gate =
     \<lparr>cf_opted_out = False, cf_baked = Some 80, cf_base_url = Some ''http://127.0.0.1:80/sordino/session/c1'', cf_no_gate = gate,
      cf_live = Some (80, sample_rec), cf_healthz = (\<lambda>p. if p = 80 then Some nce else None),
      cf_config = (\<lambda>p. if p = 80 then Some (JObj [(''enabled'', JBool True)]) else None)\<rparr>"

definition sample_payload :: json where
  "sample_payload = JObj [(''session_id'', JStr ''c1''), (''prompt'', JStr ''hi'')]"

definition sample_io :: prompt_io where
  "sample_io =
     \<lparr>pio_status_ok = True, pio_aged = (\<lambda>_. False),
      pio_reports = \<lparr>rio_parses = True, rio_claim = True, rio_global_parses = True, rio_stamp = True\<rparr>\<rparr>"

definition fresh_hook :: hook_state where
  "fresh_hook =
     \<lparr>hs_status = [], hs_zdr = \<lparr>zr_disk = \<lparr>dk_file = NoFile, dk_reports = [], dk_global = None, dk_quarantined = []\<rparr>, zr_seen = []\<rparr>\<rparr>"

lemma sample_routed: "session_routed_through (sample_claude nce gate) 80"
proof -
  have "show_nat 80 = ''80''" by code_simp
  then show ?thesis
    by (simp add: session_routed_through_def sample_claude_def base_url_matches_def trim_slashes_def starts_with_def)
qed

lemma sample_payload_conv: "conversation_id_from_hook_payload P (Some sample_payload) = Some ''c1''"
proof -
  have "map conversation_char (utf8_chars ''c1'') = ''c1''" by code_simp
  then have "safe_conversation_id P ''c1'' = ''c1''" by (simp add: safe_conversation_id_def trim_dashes_def)
  then show ?thesis
    by (simp add: conversation_id_from_hook_payload_def sample_payload_def SESSION_KEYS_def first_some_def List.map_filter_simps jstr_def)
qed

lemma sample_truthy: "escape_hatch_open (sample_claude nce (Some ''1''))" "\<not> escape_hatch_open (sample_claude nce None)"
proof -
  have "trim ''1'' = ''1''" by code_simp
  then show "escape_hatch_open (sample_claude nce (Some ''1''))"
    by (simp add: escape_hatch_open_def sample_claude_def is_truthy_flag_def ascii_lower_def to_lower_byte_def is_upper_def ord_def)
  show "\<not> escape_hatch_open (sample_claude nce None)" by (simp add: escape_hatch_open_def sample_claude_def)
qed

lemma sample_state:
  "session_mask_state (sample_claude (Some ''n1'') gate) ''c1'' hatch = Some \<lparr>ss_state = Masked, ss_port = 80, ss_profile = []\<rparr>"
proof -
  have v: "verified_proxy_rec (sample_claude (Some ''n1'') gate) 80 = Some sample_rec"
    unfolding verified_facts by (simp add: sample_claude_def sample_rec_def rendezvous.defs)
  have "routed_proxy_status (sample_claude (Some ''n1'') gate) ''c1'' 80 = (Masked, [])"
    unfolding routed_proxy_status_def v
    by (simp add: sample_claude_def resolve_routed_mask_state_def as_bool_def as_strings_def jfield_def jmembers_def jpath_def
        jstr_def str_default_def)
  moreover have "cf_baked (sample_claude (Some ''n1'') gate) = Some 80" "\<not> cf_opted_out (sample_claude (Some ''n1'') gate)"
    by (simp_all add: sample_claude_def)
  ultimately show ?thesis using sample_routed by (simp add: session_mask_state_def)
qed

lemma sample_allowed:
  "fst (user_prompt_submit P (sample_claude (Some ''n1'') None) sample_io (Some sample_payload) fresh_hook)
     = IntakeAllow [MaskActive 80 ''on'']"
proof -
  let ?F = "sample_claude (Some ''n1'') None"
  have b: "cf_baked ?F = Some 80" "\<not> cf_opted_out ?F" by (simp_all add: sample_claude_def)
  have ok: "intake_identity_ok ?F 80"
    unfolding intake_identity_ok_def by (simp add: verified_facts sample_claude_def sample_rec_def rendezvous.defs)
  have m: "fst (mask_delta_line ?F ok aged ''c1'' False []) = Some (MaskActive 80 ''on'')" for ok aged
    by (simp add: mask_delta_line_def sample_state Let_def should_narrate_def mask_delta_message_def)
  have pr: "str_default (prompt_from_hook_payload (Some sample_payload)) = ''hi''"
    by (simp add: prompt_from_hook_payload_def sample_payload_def jmembers_def first_some_def List.map_filter_simps jstr_def str_default_def)
  have z: "fst (consume_zdr_transitions P j c (hs_zdr fresh_hook)) = []" for j c
    by (simp add: consume_zdr_transitions_def consume_report_def consume_global_def fresh_hook_def Let_def)
  have e: "env_routed ?F" using sample_routed by (simp add: env_routed_def b)
  show ?thesis
    using m [of True "\<lambda>_. False"] z
    by (simp add: user_prompt_submit_def Let_def b pr sample_truthy e ok sample_payload_conv intake_should_block_verified_def
        prompt_is_sordino_command_def starts_with_def split_beta fresh_hook_def sample_io_def)
qed

theorem masked_claim_proven_witness:
  "fst (user_prompt_submit sample_prims (sample_claude (Some ''n1'') None) sample_io (Some sample_payload) fresh_hook) = IntakeAllow [MaskActive 80 ''on'']
   \<and> (\<exists>v. cf_config (sample_claude (Some ''n1'') None) 80 = Some v \<and> as_bool (jfield ''enabled'' v) = Some True)"
proof -
  have "cf_baked (sample_claude (Some ''n1'') None) = Some 80" by (simp add: sample_claude_def)
  with masked_claim_proven [OF sample_allowed, of "MaskActive 80 ''on''"] show ?thesis using sample_allowed by auto
qed

theorem model_belief_true_witness:
  "snd (belief_run ([(sample_claude None None, False, ''c1'')] @ [(sample_claude (Some ''n1'') None, False, ''c1'')]) ([], \<lambda>_. False)) ''c1''"
  using model_belief_true [OF sample_state [of None False], of "[(sample_claude None None, False, ''c1'')]"] by simp

theorem unverified_bypass_silent_witness:
  "\<exists>ls. fst (user_prompt_submit sample_prims (sample_claude (Some ''other'') (Some ''1'')) sample_io (Some sample_payload) fresh_hook) = IntakeAllow ls
     \<and> list_all zdr_line ls"
proof -
  let ?F = "sample_claude (Some ''other'') (Some ''1'')"
  have b: "cf_baked ?F = Some 80" "\<not> cf_opted_out ?F" by (simp_all add: sample_claude_def)
  have v: "verified_proxy_rec ?F 80 = None"
    by (simp add: verified_proxy_rec_def sample_claude_def sample_rec_def rendezvous.defs)
  have f: "map_of (hs_status fresh_hook) c \<noteq> Some Masked" for c by (simp add: fresh_hook_def)
  show ?thesis by (rule unverified_bypass_silent [OF b(1) sample_routed v b(2) sample_truthy(1) f])
qed

end
