(* ===== verification/Hooks_Report_Laws.thy ===== *)
theory Hooks_Report_Laws
  imports Hooks_Session Proxy_State_Laws
begin

text \<open>
  The channel between the proxy's reload at boot and the prompt hook: the ids the hook makes are their own file
  names, and over any sequence of turns each conversation hears its report and the loss of the selection state
  once, in its first turn, whatever other conversations do.
\<close>

section \<open>The ids of the hook\<close>

definition plain_component :: "string \<Rightarrow> bool" where
  "plain_component c \<longleftrightarrow> list_all safe_component_char c \<and> (\<exists>x \<in> set c. x \<noteq> CHR ''.'') \<and> length c \<le> SANITIZE_COMPONENT_MAX"

lemma sanitize_plain_id: "plain_component c \<Longrightarrow> sanitize_component P c = c"
  by (auto simp: plain_component_def sanitize_component_def sanitize_plain Let_def list_all_iff)

definition id_char :: "char \<Rightarrow> bool" where
  "id_char b \<longleftrightarrow> is_alnum b \<or> b \<in> {CHR ''-'', CHR ''_''}"

lemma conversation_char_id: "id_char (conversation_char ch)"
  by (auto simp: conversation_char_def id_char_def split: list.split)

lemma id_char_safe: "id_char c \<Longrightarrow> safe_component_char c \<and> c \<noteq> CHR ''.''"
proof -
  have "\<not> id_char (CHR ''.'')" by code_simp
  then show "id_char c \<Longrightarrow> safe_component_char c \<and> c \<noteq> CHR ''.''"
    by (auto simp: id_char_def safe_component_char_def)
qed

lemma squeeze_subset: "set (squeeze_dashes s) \<subseteq> set s"
  by (induction s rule: squeeze_dashes.induct) auto

lemma trim_subset: "set (trim_dashes s) \<subseteq> set s"
  by (auto simp: trim_dashes_def dest!: set_dropWhileD)

lemma safe_conversation_id_chars: "list_all id_char (safe_conversation_id P raw)"
proof -
  let ?o = "trim_dashes (squeeze_dashes (map conversation_char (utf8_chars raw)))"
  have "set ?o \<subseteq> set (map conversation_char (utf8_chars raw))"
    using squeeze_subset trim_subset by blast
  then have o: "list_all id_char ?o" using conversation_char_id by (auto simp: list_all_iff)
  have h: "list_all id_char (to_hex (blake3 P raw))"
  proof -
    have "is_lower_hex c \<Longrightarrow> id_char c" for c by (auto simp: id_char_def ascii_defs)
    then show ?thesis using to_hex_lower_hex [of "blake3 P raw"] by (auto simp: list_all_iff)
  qed
  have u: "list_all id_char ''unknown''" "id_char (CHR ''-'')" by code_simp+
  show ?thesis
    using o h u by (auto simp: safe_conversation_id_def Let_def list_all_iff dest!: in_set_takeD)
qed

lemma safe_conversation_id_plain: "plain_component (safe_conversation_id P raw)"
proof -
  let ?i = "safe_conversation_id P raw"
  have l: "length ?i \<le> 80" "?i \<noteq> []"
    by (auto simp: safe_conversation_id_def Let_def)
  have c: "list_all safe_component_char ?i" "\<And>x. x \<in> set ?i \<Longrightarrow> x \<noteq> CHR ''.''"
    using safe_conversation_id_chars [of P raw] id_char_safe by (auto simp: list_all_iff)
  obtain x where "x \<in> set ?i" using l(2) by (cases ?i) auto
  with l c show ?thesis by (auto simp: plain_component_def SANITIZE_COMPONENT_MAX_def)
qed

section \<open>Turns\<close>

definition all_ok :: report_io where
  "all_ok = \<lparr>rio_parses = True, rio_claim = True, rio_global_parses = True, rio_stamp = True\<rparr>"

text \<open>The turns of the conversations, each with the lines it gets.\<close>

fun report_run :: "prims \<Rightarrow> string list \<Rightarrow> zdr_dir \<Rightarrow> (string \<times> status_line list) list" where
  "report_run P [] d = []"
| "report_run P (c # cs) d = (case consume_zdr_transitions P all_ok c d of (ls, d') \<Rightarrow> (c, ls) # report_run P cs d')"

definition told :: "string \<Rightarrow> (string \<times> status_line list) list \<Rightarrow> status_line list" where
  "told c out = concat (map snd (filter (\<lambda>(x, _). x = c) out))"

lemma told_simps [simp]: "told c [] = []" "told c ((x, ls) # out) = (if x = c then ls else []) @ told c out"
  by (simp_all add: told_def)

definition pending :: "prims \<Rightarrow> string \<Rightarrow> zdr_dir \<Rightarrow> status_line list" where
  "pending P c d =
     (case map_of (dk_reports (zr_disk d)) (report_name P c) of Some r \<Rightarrow> [zdr_report_message r] | None \<Rightarrow> [])
     @ (case dk_global (zr_disk d) of
          Some (e, why) \<Rightarrow> if map_of (zr_seen d) (seen_name P c) = Some e then [] else [ZdrAllLost why]
        | None \<Rightarrow> [])"

lemma consume_lines: "fst (consume_zdr_transitions P all_ok c d) = pending P c d"
  by (auto simp: consume_zdr_transitions_def consume_report_def consume_global_def pending_def all_ok_def split: option.split prod.split)

lemma consume_own: "pending P c (snd (consume_zdr_transitions P all_ok c d)) = []"
  by (auto simp: consume_zdr_transitions_def consume_report_def consume_global_def pending_def all_ok_def split: option.splits prod.splits)

lemma consume_other:
  assumes "plain_component c" "plain_component x" "c \<noteq> x"
  shows "pending P c (snd (consume_zdr_transitions P all_ok x d)) = pending P c d"
proof -
  have n: "report_name P c \<noteq> report_name P x" "seen_name P c \<noteq> seen_name P x"
    using assms by (simp_all add: report_name_def seen_name_def sanitize_plain_id)
  show ?thesis
    using n by (auto simp: consume_zdr_transitions_def consume_report_def consume_global_def pending_def all_ok_def
        split: option.splits prod.splits)
qed

lemma told_run:
  assumes "plain_component c" "\<And>x. x \<in> set cs \<Longrightarrow> plain_component x"
  shows "told c (report_run P cs d) = (if c \<in> set cs then pending P c d else [])"
  using assms(2)
proof (induction cs arbitrary: d)
  case (Cons x cs)
  obtain ls d' where r: "consume_zdr_transitions P all_ok x d = (ls, d')" by (meson surj_pair)
  have ls: "ls = pending P x d" and own: "pending P x d' = []"
    using consume_lines [of P x d] consume_own [of P x d] r by simp_all
  have other: "pending P c d' = pending P c d" if "c \<noteq> x"
    using consume_other [OF assms(1) Cons.prems [of x] that, of P d] r by simp
  show ?case
    using Cons.IH [of d'] Cons.prems ls own other r by (cases "x = c") auto
qed simp

text \<open>
  A change of routing at a restart is never silent and never repeated: over any sequence of turns of any
  conversations, a conversation that takes a turn hears its own restored or reverted report and, if the selection
  state was lost, of that loss, each exactly once and in this order; the other conversations' turns neither take
  its lines nor repeat them. The ids are those the hook derives from the session ids.
\<close>

theorem routing_change_told_once:
  assumes "raw \<in> set raws"
    and "map_of (dk_reports (zr_disk d)) (report_name P (safe_conversation_id P raw)) = Some r"
    and "dk_global (zr_disk d) = Some (epoch, why)"
    and "map_of (zr_seen d) (seen_name P (safe_conversation_id P raw)) \<noteq> Some epoch"
  shows "told (safe_conversation_id P raw) (report_run P (map (safe_conversation_id P) raws) d) = [zdr_report_message r, ZdrAllLost why]"
proof -
  have "told (safe_conversation_id P raw) (report_run P (map (safe_conversation_id P) raws) d) = pending P (safe_conversation_id P raw) d"
    using assms(1) safe_conversation_id_plain by (subst told_run) auto
  then show ?thesis using assms(2-4) by (simp add: pending_def)
qed

definition sample_reports :: zdr_dir where
  "sample_reports =
     \<lparr>zr_disk = \<lparr>dk_file = NoFile, dk_reports = [(''c1.json'', Reverted ''c1'' NotVerified)], dk_global = Some (7, ''bad''), dk_quarantined = []\<rparr>,
      zr_seen = [(''c1.global-seen'', 3)]\<rparr>"

theorem routing_change_told_once_witness:
  "told ''c1'' (report_run sample_prims [''c2'', ''c1'', ''c2'', ''c1''] sample_reports) = [ZdrReverted NotVerified, ZdrAllLost ''bad'']"
proof -
  have i: "safe_conversation_id sample_prims ''c1'' = ''c1''" "safe_conversation_id sample_prims ''c2'' = ''c2''"
  proof -
    have "map conversation_char (utf8_chars ''c1'') = ''c1''" "map conversation_char (utf8_chars ''c2'') = ''c2''" by code_simp+
    then show "safe_conversation_id sample_prims ''c1'' = ''c1''" "safe_conversation_id sample_prims ''c2'' = ''c2''"
      by (simp_all add: safe_conversation_id_def trim_dashes_def)
  qed
  have n: "report_name sample_prims ''c1'' = ''c1.json''" "seen_name sample_prims ''c1'' = ''c1.global-seen''"
    using safe_conversation_id_plain [of sample_prims "''c1''"] by (simp_all add: i report_name_def seen_name_def sanitize_plain_id)
  show ?thesis
    using routing_change_told_once [of "''c1''" "[''c2'', ''c1'', ''c2'', ''c1'']" sample_reports sample_prims]
    by (simp add: i n sample_reports_def zdr_report_message_def)
qed

end
