(* ===== verification/State_Laws.thy ===== *)
theory State_Laws
  imports State_Files
begin

text \<open>
  What the files of \<open>sordino-state\<close> promise: the sweep over the registry and the lookup of one project agree,
  an update is seen by its project and by no other, and a proxy that goes never takes its successor's record.
\<close>

section \<open>The registry\<close>

text \<open>A directory of files under one hash: what a lookup returns after an update, for any client.\<close>

locale file_store =
  fixes h :: "string \<Rightarrow> string"
    and get :: "'d \<Rightarrow> string \<Rightarrow> 'v option"
    and put :: "'d \<Rightarrow> string \<Rightarrow> 'v \<Rightarrow> 'd"
    and del :: "'d \<Rightarrow> string \<Rightarrow> 'd"
  assumes get_put: "get (put d k v) k = Some v"
    and get_del: "get (del d k) k = None"
    and put_other: "h l \<noteq> h k \<Longrightarrow> get (put d k v) l = get d l"
    and del_other: "h l \<noteq> h k \<Longrightarrow> get (del d k) l = get d l"
begin

lemma put_put: "h l \<noteq> h k \<or> l = k \<Longrightarrow> get (put (put d k v) k w) l = get (put d k w) l"
  using get_put put_other by metis

lemma del_put: "get d k = None \<Longrightarrow> h l \<noteq> h k \<or> l = k \<Longrightarrow> get (del (put d k v) k) l = get d l"
  using get_del put_other del_other by metis

lemma put_commute:
  "h k \<noteq> h m \<Longrightarrow> h l \<noteq> h k \<or> l = k \<Longrightarrow> h l \<noteq> h m \<or> l = m \<Longrightarrow> get (put (put d k v) m w) l = get (put (put d m w) k v) l"
  using get_put put_other by metis

lemma get_put_inj: "inj h \<Longrightarrow> get (put d k v) l = (if l = k then Some v else get d l)"
  using get_put put_other by (metis injD)

lemma get_del_inj: "inj h \<Longrightarrow> get (del d k) l = (if l = k then None else get d l)"
  using get_del del_other by (metis injD)

end

lemma path_inject [simp]:
  "registry_entry_path h r = registry_entry_path h s \<longleftrightarrow> h r = h s"
  "rendezvous_path h r = rendezvous_path h s \<longleftrightarrow> h r = h s"
  by (simp_all add: registry_entry_path_def rendezvous_path_def)

definition ext_hash :: "string \<Rightarrow> string" where "ext_hash s = ''k'' @ s"

lemma ext_hash_inj: "inj ext_hash"
  by (simp add: inj_def ext_hash_def)

interpretation reg: file_store h "registry_get h" "\<lambda>d k v. snd (registry_set h True d k v)"
  "\<lambda>d k. snd (registry_remove h True d k)" for h
  by unfold_locales (auto simp: registry_get_def registry_set_def registry_remove_def split: option.split)

text \<open>Sessions of different projects update the registry in either order to the same effect.\<close>

lemma registry_order_free:
  "h a \<noteq> h b \<Longrightarrow> h r \<noteq> h a \<or> r = a \<Longrightarrow> h r \<noteq> h b \<or> r = b \<Longrightarrow>
     registry_get h (snd (registry_set h True (snd (registry_set h True d a s)) b t)) r
     = registry_get h (snd (registry_set h True (snd (registry_set h True d b t)) a s)) r"
  by (rule reg.put_commute)

lemma registry_optout_kept:
  "inj h \<Longrightarrow> registry_get h d a = Some Optout \<Longrightarrow> b \<noteq> a \<Longrightarrow>
     registry_get h (snd (registry_set h True d b Plumbed)) a = Some Optout"
  by (simp add: reg.get_put_inj)

lemma map_filter_in: "x \<in> set (List.map_filter f xs) \<longleftrightarrow> (\<exists>y \<in> set xs. f y = Some x)"
  by (induction xs) (auto simp: List.map_filter_simps split: option.splits)

lemma entry_path_json: "h rt \<noteq> [] \<Longrightarrow> json_extension (registry_entry_path h rt)"
  by (simp add: json_extension_def registry_entry_path_def ends_with_def)

text \<open>
  The sweep that takes the routing out of every plumbed project visits exactly the projects that a lookup
  calls plumbed, whatever else lies in the directory: stray, torn, renamed and copied files drop out on both ways.
\<close>

theorem registry_sweep_exact:
  assumes "keys_distinct d" "\<And>r. h r \<noteq> []"
  shows "set (registry_plumbed_roots h d) = {rt. registry_get h d rt = Some Plumbed}"
proof (rule set_eqI)
  fix rt
  have "rt \<in> set (registry_plumbed_roots h d)
      \<longleftrightarrow> (\<exists>n e. (n, Some e) \<in> set d \<and> json_extension n \<and> n = registry_entry_path h (re_root e) \<and> re_state e = Plumbed \<and> re_root e = rt)"
    by (force simp: registry_plumbed_roots_def map_filter_in Option.bind_eq_Some_conv split: if_splits)
  also have "\<dots> \<longleftrightarrow> (\<exists>e. (registry_entry_path h rt, Some e) \<in> set d \<and> re_state e = Plumbed \<and> re_root e = rt)"
    using entry_path_json [of h, OF assms(2)] by metis
  also have "\<dots> \<longleftrightarrow> (\<exists>e. map_of d (registry_entry_path h rt) = Some (Some e) \<and> re_state e = Plumbed \<and> re_root e = rt)"
    using assms(1) by (simp add: keys_distinct_def)
  also have "\<dots> \<longleftrightarrow> rt \<in> {rt. registry_get h d rt = Some Plumbed}"
    by (auto simp: registry_get_def split: option.splits if_splits)
  finally show "rt \<in> set (registry_plumbed_roots h d) \<longleftrightarrow> rt \<in> {rt. registry_get h d rt = Some Plumbed}" .
qed

definition sample_registry :: registry where
  "sample_registry =
     [(''k/a.json'', Some \<lparr>re_root = ''/a'', re_state = Plumbed\<rparr>), (''k/b.json'', Some \<lparr>re_root = ''/b'', re_state = Optout\<rparr>),
      (''.k/c.json.tmp.9'', Some \<lparr>re_root = ''/c'', re_state = Plumbed\<rparr>), (''copy.json'', Some \<lparr>re_root = ''/d'', re_state = Plumbed\<rparr>),
      (''k/e.json'', None)]"

theorem registry_sweep_exact_witness:
  "set (registry_plumbed_roots ext_hash sample_registry) = {''/a''} \<and> registry_get ext_hash sample_registry ''/a'' = Some Plumbed
     \<and> registry_get ext_hash sample_registry ''/d'' = None"
proof -
  have "set (registry_plumbed_roots ext_hash sample_registry) = {rt. registry_get ext_hash sample_registry rt = Some Plumbed}"
    by (rule registry_sweep_exact) (simp_all add: keys_distinct_def sample_registry_def ext_hash_def)
  moreover have "registry_plumbed_roots ext_hash sample_registry = [''/a'']"
    by (simp add: registry_plumbed_roots_def sample_registry_def ext_hash_def json_extension_def ends_with_def
        registry_entry_path_def List.map_filter_simps)
  moreover have "registry_get ext_hash sample_registry ''/a'' = Some Plumbed" "registry_get ext_hash sample_registry ''/d'' = None"
    by (simp_all add: registry_get_def sample_registry_def ext_hash_def registry_entry_path_def)
  ultimately show ?thesis by simp
qed

section \<open>The rendezvous\<close>

lemma live_port_facts:
  "live_port h os d rt = Some (p, r) \<Longrightarrow>
     p = rv_port r \<and> p \<noteq> 0 \<and> rv_pid r \<noteq> 0 \<and> os (rv_pid r) \<and> rv_project_root r = rt \<and> read_rendezvous h d rt = Some r"
  by (auto simp: live_port_def read_rendezvous_def pid_alive_def split: option.splits bool.splits if_splits)

lemma read_write:
  "inj h \<Longrightarrow> read_rendezvous h (snd (write_rendezvous h True d r)) rt
     = (if rt = rv_project_root r then Some r else read_rendezvous h d rt)"
  by (auto simp: read_rendezvous_def write_rendezvous_def inj_eq)

lemma read_remove:
  "inj h \<Longrightarrow> read_rendezvous h (snd (rendezvous_remove h True d rt)) s = (if s = rt then None else read_rendezvous h d s)"
  by (auto simp: read_rendezvous_def rendezvous_remove_def inj_eq split: option.split)

text \<open>
  A proxy that shuts down takes its own record and no other: a record of a different nonce or pid stays as it
  is, its own goes, and what another project reads is untouched.
\<close>

theorem shutdown_removes_own_only:
  assumes "inj h"
  shows "read_rendezvous h (snd (rendezvous_remove_if_owned h True d rt nonce pid)) s
     = (case read_rendezvous h d s of
          None \<Rightarrow> None
        | Some r \<Rightarrow> if s = rt \<and> rv_nonce r = nonce \<and> rv_pid r = pid then None else Some r)"
  using read_remove [OF assms, of d rt s]
  by (auto simp: rendezvous_remove_if_owned_def split: option.split)

theorem shutdown_removes_own_only_witness:
  "read_rendezvous ext_hash (snd (rendezvous_remove_if_owned ext_hash True
       (snd (write_rendezvous ext_hash True [] (rendezvous.make ''/a'' 4100 [] [] [] 12 [] 0 [] 0 ''new''))) ''/a'' ''old'' 11)) ''/a''
     = Some (rendezvous.make ''/a'' 4100 [] [] [] 12 [] 0 [] 0 ''new'')"
proof -
  let ?r = "rendezvous.make ''/a'' 4100 [] [] [] 12 [] 0 [] 0 ''new''"
  have "read_rendezvous ext_hash (snd (write_rendezvous ext_hash True [] ?r)) ''/a'' = Some ?r"
    by (simp add: read_write ext_hash_inj rendezvous.defs)
  then show ?thesis using shutdown_removes_own_only [OF ext_hash_inj] by (simp add: rendezvous.defs)
qed

section \<open>Binding\<close>

text \<open>The sticky port is advisory, a pinned one is not; nothing is bound beyond loopback unasked.\<close>

lemma static_pin_exact:
  "bind_listener os h d bnd (Some p) rt = Inr l \<Longrightarrow> bind_exact os bnd p = Inr l"
  by (auto simp: bind_listener_def split: sum.splits prod.splits)

lemma ephemeral_falls_back:
  "bind_exact os bnd 0 = Inr l \<Longrightarrow> \<exists>l. bind_listener os h d bnd None rt = Inr l"
  by (auto simp: bind_listener_def Let_def split: option.split sum.split)

lemma guarded_bind:
  "loopback_guard False bnd \<longleftrightarrow>
     ascii_lower (trim bnd) = ''localhost'' \<or> (\<exists>a. parse_ip (strip_brackets (trim bnd)) = Some a \<and> ip_is_loopback a)"
  by (auto simp: loopback_guard_def is_loopback_bind_def Let_def split: option.split)

end
