(* ===== verification/State_Lock.thy ===== *)
theory State_Lock
  imports State_Files
begin

text \<open>
  The launch lock of \<open>sordino-state\<close> (\<open>lib.rs\<close>: \<open>try_launch_lock\<close>, \<open>try_create_lock\<close>, \<open>LaunchLock\<close>) as the
  interleaving of any number of launchers on one lock file. A launcher is at one of the points between two
  system calls; every call on the file is one move, which is what makes the create (a hard link) and the claim
  (a rename) atomic. I/O errors other than an existing or a missing file are left out.
\<close>

definition LAUNCH_LOCK_TTL_SECS :: nat where "LAUNCH_LOCK_TTL_SECS = 30"

record lock_body =
  lb_pid :: nat
  lb_nonce :: string
  lb_started :: nat

text \<open>
  \<open>Found\<close>: the first create met a file; \<open>Again\<close>: before the second create; \<open>Claim\<close>: the lock read was
  reclaimable; \<open>Unlinking\<close>: the guard is dropped and has read its own nonce.
\<close>

datatype lock_point = Idle | Found nat | Again nat | Claim nat | Holding | Unlinking | Lost | Gone

record lock_world =
  lw_file :: "lock_body option"
  lw_now :: nat
  lw_dead :: "nat set"
  lw_at :: "nat \<Rightarrow> lock_point"

definition lock_reclaimable :: "lock_world \<Rightarrow> lock_body \<Rightarrow> bool" where
  "lock_reclaimable w b \<longleftrightarrow>
     \<not> pid_alive (\<lambda>p. p \<notin> lw_dead w) (lb_pid b) \<or> lw_now w - lb_started b > LAUNCH_LOCK_TTL_SECS"

definition at_point :: "nat \<Rightarrow> lock_point \<Rightarrow> lock_world \<Rightarrow> lock_world" where
  "at_point p x w = w\<lparr>lw_at := (lw_at w)(p := x)\<rparr>"

definition try_create_lock :: "(nat \<Rightarrow> string) \<Rightarrow> nat \<Rightarrow> nat \<Rightarrow> lock_point \<Rightarrow> lock_world \<Rightarrow> lock_world" where
  "try_create_lock nonce p started miss w =
     (case lw_file w of
        None \<Rightarrow> at_point p Holding (w\<lparr>lw_file := Some \<lparr>lb_pid = p, lb_nonce = nonce p, lb_started = started\<rparr>\<rparr>)
      | Some _ \<Rightarrow> at_point p miss w)"

text \<open>One system call of the launcher with pid \<open>p\<close>: \<open>try_launch_lock\<close> up to \<open>Holding\<close> or \<open>Lost\<close>, then the drop.\<close>

definition lock_call :: "(nat \<Rightarrow> string) \<Rightarrow> nat \<Rightarrow> lock_world \<Rightarrow> lock_world" where
  "lock_call nonce p w =
     (case lw_at w p of
        Idle \<Rightarrow> try_create_lock nonce p (lw_now w) (Found (lw_now w)) w
      | Found t \<Rightarrow>
          (case lw_file w of
             None \<Rightarrow> at_point p (Again t) w
           | Some b \<Rightarrow> at_point p (if lock_reclaimable w b then Claim t else Lost) w)
      | Again t \<Rightarrow> try_create_lock nonce p t Lost w
      | Claim t \<Rightarrow>
          (case lw_file w of
             None \<Rightarrow> at_point p Lost w
           | Some _ \<Rightarrow> at_point p (Again t) (w\<lparr>lw_file := None\<rparr>))
      | Holding \<Rightarrow>
          (case lw_file w of
             Some b \<Rightarrow> at_point p (if lb_nonce b = nonce p then Unlinking else Gone) w
           | None \<Rightarrow> at_point p Gone w)
      | Unlinking \<Rightarrow> at_point p Gone (w\<lparr>lw_file := None\<rparr>)
      | Lost \<Rightarrow> w
      | Gone \<Rightarrow> w)"

text \<open>A move: a call of a launcher that is alive, the clock going on, a process dying.\<close>

datatype lock_move = Call nat | Tick nat | Die nat

definition lock_move :: "(nat \<Rightarrow> string) \<Rightarrow> lock_move \<Rightarrow> lock_world \<Rightarrow> lock_world" where
  "lock_move nonce m w =
     (case m of
        Call p \<Rightarrow> if p \<in> lw_dead w then w else lock_call nonce p w
      | Tick n \<Rightarrow> w\<lparr>lw_now := lw_now w + n\<rparr>
      | Die p \<Rightarrow> w\<lparr>lw_dead := insert p (lw_dead w)\<rparr>)"

definition lock_run :: "(nat \<Rightarrow> string) \<Rightarrow> lock_move list \<Rightarrow> lock_world \<Rightarrow> lock_world" where
  "lock_run nonce ms w = fold (lock_move nonce) ms w"

definition holds_lock :: "lock_world \<Rightarrow> nat \<Rightarrow> bool" where
  "holds_lock w p \<longleftrightarrow> lw_at w p \<in> {Holding, Unlinking}"

section \<open>Exclusion while no lock goes stale\<close>

text \<open>Worlds reached through worlds in which the lock on disk, if any, is not reclaimable.\<close>

definition not_stale :: "lock_world \<Rightarrow> bool" where
  "not_stale w \<longleftrightarrow> (case lw_file w of Some b \<Rightarrow> \<not> lock_reclaimable w b | None \<Rightarrow> True)"

inductive lock_reach :: "(nat \<Rightarrow> string) \<Rightarrow> lock_world \<Rightarrow> bool" for nonce where
  start: "lw_file w = None \<Longrightarrow> (\<And>p. lw_at w p = Idle) \<Longrightarrow> lock_reach nonce w"
| move: "lock_reach nonce w \<Longrightarrow> not_stale (lock_move nonce m w) \<Longrightarrow> lock_reach nonce (lock_move nonce m w)"

text \<open>Who holds the lock is whom the file names, and nobody is about to take a file away.\<close>

definition lock_inv :: "(nat \<Rightarrow> string) \<Rightarrow> lock_world \<Rightarrow> bool" where
  "lock_inv nonce w \<longleftrightarrow>
     not_stale w
     \<and> (\<forall>p. holds_lock w p \<longrightarrow> (\<exists>b. lw_file w = Some b \<and> lb_nonce b = nonce p))
     \<and> (\<forall>p t. lw_at w p \<noteq> Claim t)"

lemma at_point_simps [simp]:
  "lw_file (at_point p x w) = lw_file w" "lw_now (at_point p x w) = lw_now w" "lw_dead (at_point p x w) = lw_dead w"
  "lw_at (at_point p x w) q = (if q = p then x else lw_at w q)"
  by (simp_all add: at_point_def)

lemma holds_at_point [simp]: "holds_lock (at_point p x w) q = (if q = p then x \<in> {Holding, Unlinking} else holds_lock w q)"
  by (simp add: holds_lock_def)

lemma holds_file [simp]: "holds_lock (w\<lparr>lw_file := f\<rparr>) q = holds_lock w q"
  by (simp add: holds_lock_def)

lemma inv_holds: "lock_inv nonce w \<Longrightarrow> holds_lock w p \<Longrightarrow> \<exists>b. lw_file w = Some b \<and> lb_nonce b = nonce p"
  by (simp add: lock_inv_def)

lemma lock_inv_create:
  assumes i: "lock_inv nonce w" and n: "not_stale (try_create_lock nonce p t x w)"
    and x: "x \<notin> {Holding, Unlinking}" "\<And>s. x \<noteq> Claim s"
  shows "lock_inv nonce (try_create_lock nonce p t x w)"
proof (cases "lw_file w")
  case None
  then have "\<not> holds_lock w q" for q using inv_holds [OF i] by fastforce
  with None i n show ?thesis by (auto simp: lock_inv_def try_create_lock_def holds_lock_def)
next
  case (Some b)
  with i n x show ?thesis by (auto simp: lock_inv_def try_create_lock_def)
qed

lemma lock_inv_call:
  assumes inj: "inj nonce" and i: "lock_inv nonce w" and n: "not_stale (lock_call nonce p w)"
  shows "lock_inv nonce (lock_call nonce p w)"
proof (cases "lw_at w p")
  case Idle
  with i n show ?thesis by (auto simp: lock_call_def intro!: lock_inv_create)
next
  case (Again t)
  with i n show ?thesis by (auto simp: lock_call_def intro!: lock_inv_create)
next
  case (Found t)
  then have "\<not> holds_lock w p" by (simp add: holds_lock_def)
  with Found i n show ?thesis
    by (auto simp: lock_call_def lock_inv_def not_stale_def split: option.splits)
next
  case (Claim t)
  with i show ?thesis by (simp add: lock_inv_def)
next
  case Holding
  with i n show ?thesis
    by (auto simp: lock_call_def lock_inv_def split: option.splits)
next
  case Unlinking
  then have "holds_lock w p" by (simp add: holds_lock_def)
  then obtain b where b: "lw_file w = Some b" "lb_nonce b = nonce p" using inv_holds [OF i] by blast
  have "\<not> holds_lock w q" if "q \<noteq> p" for q
    using inv_holds [OF i, of q] b injD [OF inj, of p q] that by auto
  with Unlinking i n show ?thesis by (auto simp: lock_call_def lock_inv_def)
next
  case Lost
  with i show ?thesis by (simp add: lock_call_def)
next
  case Gone
  with i show ?thesis by (simp add: lock_call_def)
qed

lemma lock_inv_reach: "lock_reach nonce w \<Longrightarrow> inj nonce \<Longrightarrow> lock_inv nonce w"
proof (induction rule: lock_reach.induct)
  case (start w)
  then show ?case by (simp add: lock_inv_def not_stale_def holds_lock_def)
next
  case (move w m)
  then have i: "lock_inv nonce w" and n: "not_stale (lock_move nonce m w)" by simp_all
  show ?case
  proof (cases m)
    case (Call p)
    with i n lock_inv_call [OF move.prems i, of p] show ?thesis by (auto simp: lock_move_def)
  next
    case (Tick k)
    with i n show ?thesis by (simp add: lock_move_def lock_inv_def holds_lock_def)
  next
    case (Die p)
    with i n show ?thesis by (simp add: lock_move_def lock_inv_def holds_lock_def)
  qed
qed

text \<open>
  C19. One launcher at a time: as long as the lock on disk belongs to a process that is alive and is not older
  than its time to live, at most one launcher holds a guard, whatever the interleaving, and the file names it.
\<close>

theorem launch_lock_exclusive:
  assumes "lock_reach nonce w" "inj nonce" "holds_lock w p" "holds_lock w q"
  shows "p = q \<and> (\<exists>b. lw_file w = Some b \<and> lb_nonce b = nonce p)"
proof -
  have i: "lock_inv nonce w" by (rule lock_inv_reach [OF assms(1,2)])
  obtain b where "lw_file w = Some b" "lb_nonce b = nonce p" "lb_nonce b = nonce q"
    using inv_holds [OF i assms(3)] inv_holds [OF i assms(4)] by auto
  then show ?thesis using injD [OF assms(2), of p q] by auto
qed

definition sample_nonce :: "nat \<Rightarrow> string" where "sample_nonce p = replicate p (CHR ''n'')"

definition quiet_world :: lock_world where
  "quiet_world = \<lparr>lw_file = None, lw_now = 100, lw_dead = {}, lw_at = (\<lambda>_. Idle)\<rparr>"

lemma sample_nonce_inj: "inj sample_nonce"
  by (auto simp: inj_def sample_nonce_def)

theorem launch_lock_exclusive_witness:
  "\<exists>b. lw_file (lock_run sample_nonce [Call 3, Call 4, Call 4] quiet_world) = Some b \<and> lb_nonce b = sample_nonce 3
     \<and> lw_at (lock_run sample_nonce [Call 3, Call 4, Call 4] quiet_world) 4 = Lost"
proof -
  let ?a = "lock_move sample_nonce (Call 3) quiet_world"
  let ?b = "lock_move sample_nonce (Call 4) ?a"
  let ?c = "lock_move sample_nonce (Call 4) ?b"
  note ev = lock_move_def lock_call_def try_create_lock_def quiet_world_def not_stale_def lock_reclaimable_def pid_alive_def
    LAUNCH_LOCK_TTL_SECS_def at_point_def
  have "lock_reach sample_nonce quiet_world" by (rule lock_reach.start) (simp_all add: quiet_world_def)
  then have "lock_reach sample_nonce ?a" by (rule lock_reach.move) (simp add: ev)
  then have "lock_reach sample_nonce ?b" by (rule lock_reach.move) (simp add: ev)
  then have r: "lock_reach sample_nonce ?c" by (rule lock_reach.move) (simp add: ev)
  have h: "holds_lock ?c 3" by (simp add: holds_lock_def ev)
  have "lw_at ?c 4 = Lost" by (simp add: ev)
  then show ?thesis using launch_lock_exclusive [OF r sample_nonce_inj h h] by (simp add: lock_run_def)
qed

section \<open>Two reclaimers\<close>

definition stale_world :: lock_world where
  "stale_world =
     \<lparr>lw_file = Some \<lparr>lb_pid = 7, lb_nonce = sample_nonce 7, lb_started = 90\<rparr>, lw_now = 100, lw_dead = {7}, lw_at = (\<lambda>_. Idle)\<rparr>"

definition overtaking :: "lock_move list" where
  "overtaking = [Call 1, Call 2, Call 1, Call 2, Call 1, Call 1, Call 2, Call 2]"


end
