(* ===== verification/Secret_Sources.thy ===== *)
theory Secret_Sources
  imports Engine_Unmask
begin

text \<open>
  The crate \<open>sordino-secrets\<close>: secret references and their parser (\<open>types.rs\<close>), the registration
  classifier (\<open>classify.rs\<close>), the one place a backend process is started (\<open>broker_spawn.rs\<close>), the
  declarative command-line provider (\<open>cli.rs\<close>), the five providers and the registry that routes a
  reference to one (\<open>provider.rs\<close>, \<open>lib.rs\<close>).

  The host is the record \<open>host_api\<close>: the environment (a variable that is not text is absent, as for
  \<open>std::env::var\<close>), a process started with an environment, an argument vector and a directory, the
  items \<open>dotenvy\<close> reads from a file, the JSON parser, and the lossy decoding of bytes. A provider is
  asked once per reference; its future is one call.
\<close>

section \<open>References\<close>

record secret_ref =
  rf_scheme :: string
  rf_path :: string
  rf_field :: "string option"
  rf_version :: "string option"

datatype ref_fault = MissingScheme string | EmptyScheme string | EmptyField string | EmptyPath string | NeedsKeyField

datatype parse_fault = AgeNotText | SopsNotJson | SopsNotScalar string | DotenvSyntax string

datatype unsupported = NoProvider string | NoFieldAddressing string | EnvHasNoField

datatype provider_error =
    NotFound
  | BinaryMissing string
  | SpawnError string
  | AuthFailed string
  | ParseFailed parse_fault
  | Unsupported unsupported
  | BadRef ref_fault

definition secret_ref_new :: "string \<Rightarrow> string \<Rightarrow> secret_ref" where
  "secret_ref_new scheme path = \<lparr>rf_scheme = scheme, rf_path = path, rf_field = None, rf_version = None\<rparr>"

definition secret_ref_parse :: "string \<Rightarrow> provider_error + secret_ref" where
  "secret_ref_parse s =
     (case split_once_at (CHR '':'') s of
        None \<Rightarrow> Inl (BadRef (MissingScheme s))
      | Some (scheme, rest) \<Rightarrow>
          if scheme = [] then Inl (BadRef (EmptyScheme s))
          else
            (case (case split_once_at (CHR ''#'') rest of
                     Some (p, f) \<Rightarrow> if f = [] then None else Some (p, Some f)
                   | None \<Rightarrow> Some (rest, None)) of
               None \<Rightarrow> Inl (BadRef (EmptyField s))
             | Some (path, field) \<Rightarrow>
                 if path = [] then Inl (BadRef (EmptyPath s))
                 else Inr \<lparr>rf_scheme = scheme, rf_path = path, rf_field = field, rf_version = None\<rparr>))"

text \<open>How a reference is written.\<close>

definition show_ref :: "secret_ref \<Rightarrow> string" where
  "show_ref r = rf_scheme r @ '':'' @ rf_path r @ (case rf_field r of Some f \<Rightarrow> ''#'' @ f | None \<Rightarrow> [])"

definition ref_ok :: "secret_ref \<Rightarrow> bool" where
  "ref_ok r \<longleftrightarrow>
     rf_scheme r \<noteq> [] \<and> CHR '':'' \<notin> set (rf_scheme r) \<and> rf_path r \<noteq> [] \<and> CHR ''#'' \<notin> set (rf_path r)
     \<and> rf_field r \<noteq> Some [] \<and> rf_version r = None"

section \<open>The registration classifier\<close>

datatype eligible_reason = NameMatch | EntropyMatch | BothMatch

datatype skip_reason = SkipEmpty | TooShort | LowEntropy | BooleanLike | IntegerLike | EnumLike

datatype eligibility = Eligible eligible_reason operator | Skip skip_reason

definition NAME_RE :: string where
  "NAME_RE = ''(?i)(PASSWORD|PASSWD|SECRET|TOKEN|APIKEY|API_KEY|KEY|CREDENTIAL|DSN|PRIVATE|AUTH|BEARER)''"

definition MIN_SECRET_LEN :: nat where
  "MIN_SECRET_LEN = 8"

definition is_boolean_like :: "string \<Rightarrow> bool" where
  "is_boolean_like v \<longleftrightarrow>
     ascii_lower (trim v) \<in> set [''true'', ''false'', ''yes'', ''no'', ''on'', ''off'', ''1'', ''0'', ''enabled'', ''disabled'']"

definition is_integer_like :: "string \<Rightarrow> bool" where
  "is_integer_like v \<longleftrightarrow> (let t = trim v in t \<noteq> [] \<and> list_all is_digit t)"

definition is_enum_like :: "string \<Rightarrow> bool" where
  "is_enum_like v \<longleftrightarrow> length v < MIN_SECRET_LEN \<and> v \<noteq> [] \<and> list_all is_alpha v"

text \<open>Shannon entropy below three and a half bits per byte, in exact integer arithmetic, as
  \<open>entropy_below_4\<close>.\<close>

definition entropy_below_3_5 :: "string \<Rightarrow> bool" where
  "entropy_below_3_5 s \<longleftrightarrow>
     s = [] \<or> length s ^ (2 * length s)
              < 2 ^ (7 * length s) * prod_list (map (\<lambda>c. count_list s c ^ count_list s c) (remdups s)) ^ 2"

definition classify_secret :: "text_api \<Rightarrow> string \<Rightarrow> string \<Rightarrow> eligibility" where
  "classify_secret R name v =
     (if v = [] then Skip SkipEmpty
      else if is_boolean_like v then Skip BooleanLike
      else if is_integer_like v then Skip IntegerLike
      else if is_enum_like v then Skip EnumLike
      else
        let name_match = re_is_match R False NAME_RE name;
            entropy_match = (MIN_SECRET_LEN \<le> length v \<and> \<not> entropy_below_3_5 v)
        in if name_match \<or> entropy_match then
             Eligible
               (if name_match then (if entropy_match then BothMatch else NameMatch) else EntropyMatch)
               (if entropy_below_4 v then OpRedact else OpHash)
           else if length v < MIN_SECRET_LEN then Skip TooShort
           else Skip LowEntropy)"

section \<open>Starting a backend\<close>

datatype spawn_result = SpawnMissing | SpawnFailed string | Spawned bool string string

record host_api =
  h_env :: "string \<Rightarrow> string option"
  h_spawn :: "(string \<Rightarrow> string option) \<Rightarrow> string list \<Rightarrow> string option \<Rightarrow> spawn_result"
  h_dotenv :: "string \<Rightarrow> (string + string \<times> string) list option"
  h_json :: "string \<Rightarrow> json option"
  h_utf8 :: "string \<Rightarrow> string option"
  h_lossy :: "string \<Rightarrow> string"

definition ENV_ALLOWLIST :: "string list" where
  "ENV_ALLOWLIST =
     [''PATH'', ''HOME'', ''USER'', ''LOGNAME'', ''LANG'', ''LC_ALL'', ''TERM'', ''TMPDIR'',
      ''XDG_CONFIG_HOME'', ''XDG_DATA_HOME'', ''XDG_RUNTIME_DIR'', ''XDG_CACHE_HOME'', ''GNUPGHOME'',
      ''GPG_TTY'', ''GPG_AGENT_INFO'', ''SSH_AUTH_SOCK'', ''SSH_AGENT_PID'', ''DBUS_SESSION_BUS_ADDRESS'',
      ''DISPLAY'', ''WAYLAND_DISPLAY'', ''SOPS_AGE_KEY_FILE'', ''AGE_KEY_FILE'', ''AWS_PROFILE'',
      ''AWS_REGION'', ''AWS_CONFIG_FILE'', ''AWS_SHARED_CREDENTIALS_FILE'', ''PASSWORD_STORE_DIR'']"

definition child_env :: "(string \<Rightarrow> string option) \<Rightarrow> string \<Rightarrow> string option" where
  "child_env env k = (if k \<in> set ENV_ALLOWLIST then env k else None)"

text \<open>\<open>str::lines\<close>: a line ended by a newline also loses one carriage return before it.\<close>

definition strip_cr :: "string \<Rightarrow> string" where
  "strip_cr l = (if l \<noteq> [] \<and> last l = CHR 0x0D then butlast l else l)"

definition text_lines :: "string \<Rightarrow> string list" where
  "text_lines s =
     (let segs = split_on (CHR 0x0A) s
      in map strip_cr (butlast segs) @ (if last segs = [] then [] else [last segs]))"

definition STDERR_CAP :: nat where
  "STDERR_CAP = 200"

definition ellipsis :: string where
  "ellipsis = [byte 0xE2, byte 0x80, byte 0xA6]"

definition sanitize_stderr :: "host_api \<Rightarrow> string \<Rightarrow> string" where
  "sanitize_stderr H raw =
     (let first = trim (case text_lines (h_lossy H raw) of l # _ \<Rightarrow> l | [] \<Rightarrow> []);
          chars = utf8_chars first
      in concat (take STDERR_CAP chars) @ (if STDERR_CAP < length chars then ellipsis else []))"

record broker_output =
  bo_success :: bool
  bo_stdout :: string
  bo_stderr :: string

definition broker_probe :: "host_api \<Rightarrow> string list \<Rightarrow> string option \<Rightarrow> provider_error + broker_output" where
  "broker_probe H argv cwd =
     (case argv of
        [] \<Rightarrow> Inl (SpawnError ''empty argv'')
      | bin # _ \<Rightarrow>
          (case h_spawn H (child_env (h_env H)) argv cwd of
             SpawnMissing \<Rightarrow> Inl (BinaryMissing bin)
           | SpawnFailed e \<Rightarrow> Inl (SpawnError (bin @ '': '' @ e))
           | Spawned ok out err \<Rightarrow>
               Inr \<lparr>bo_success = ok, bo_stdout = (if ok then out else []), bo_stderr = sanitize_stderr H err\<rparr>))"

definition broker_run :: "host_api \<Rightarrow> string list \<Rightarrow> string option \<Rightarrow> provider_error + string" where
  "broker_run H argv cwd =
     (case broker_probe H argv cwd of
        Inl e \<Rightarrow> Inl e
      | Inr o' \<Rightarrow> if \<not> bo_success o' then Inl (AuthFailed (bo_stderr o')) else Inr (bo_stdout o'))"

section \<open>The command-line provider\<close>

record cli_manifest =
  cm_scheme :: string
  cm_fields :: bool
  cm_resolve_argv :: "host_api \<Rightarrow> secret_ref \<Rightarrow> string list"
  cm_parse_output :: "host_api \<Rightarrow> secret_ref \<Rightarrow> string \<Rightarrow> provider_error + string"
  cm_health_argv :: "string list"
  cm_root_cwd :: bool

definition cli_cwd :: "cli_manifest \<Rightarrow> string option \<Rightarrow> string option" where
  "cli_cwd m dir = (if cm_root_cwd m then dir else None)"

datatype health = Healthy | HealthBinaryMissing string | AgentLocked | Misconfigured provider_error

definition cli_health :: "host_api \<Rightarrow> cli_manifest \<Rightarrow> string option \<Rightarrow> health" where
  "cli_health H m dir =
     (case broker_probe H (cm_health_argv m) (cli_cwd m dir) of
        Inl (BinaryMissing b) \<Rightarrow> HealthBinaryMissing b
      | Inl e \<Rightarrow> Misconfigured e
      | Inr o' \<Rightarrow> if bo_success o' then Healthy else AgentLocked)"

definition cli_resolve :: "host_api \<Rightarrow> cli_manifest \<Rightarrow> string option \<Rightarrow> secret_ref \<Rightarrow> provider_error + string" where
  "cli_resolve H m dir r =
     (if rf_field r \<noteq> None \<and> \<not> cm_fields m then Inl (Unsupported (NoFieldAddressing (cm_scheme m)))
      else case broker_run H (cm_resolve_argv m H r) (cli_cwd m dir) of
          Inl e \<Rightarrow> Inl e
        | Inr out \<Rightarrow>
            (case cm_parse_output m H r out of
               Inl e \<Rightarrow> Inl e
             | Inr v \<Rightarrow> if v = [] then Inl NotFound else Inr v))"

section \<open>The five providers\<close>

subsection \<open>\<open>pass\<close>\<close>

fun pass_field :: "string \<Rightarrow> string list \<Rightarrow> provider_error + string" where
  "pass_field f [] = Inl NotFound"
| "pass_field f (l # ls) =
     (case split_once_at (CHR '':'') l of
        Some (k, v) \<Rightarrow> if ascii_lower (trim k) = ascii_lower (trim f) then Inr (trim v) else pass_field f ls
      | None \<Rightarrow> pass_field f ls)"

definition pass_parse_output :: "host_api \<Rightarrow> secret_ref \<Rightarrow> string \<Rightarrow> provider_error + string" where
  "pass_parse_output H r out =
     (let ls = text_lines (h_lossy H out)
      in case rf_field r of
           None \<Rightarrow> Inr (case ls of l # _ \<Rightarrow> l | [] \<Rightarrow> [])
         | Some f \<Rightarrow> pass_field f ls)"

definition pass_provider :: cli_manifest where
  "pass_provider =
     \<lparr>cm_scheme = ''pass'', cm_fields = True, cm_resolve_argv = (\<lambda>H r. [''pass'', ''show'', rf_path r]),
      cm_parse_output = pass_parse_output, cm_health_argv = [''pass'', ''ls''], cm_root_cwd = False\<rparr>"

subsection \<open>\<open>age\<close>\<close>

definition age_identity_path :: "host_api \<Rightarrow> string" where
  "age_identity_path H =
     (case h_env H ''SORDINO_AGE_IDENTITY'' of
        Some p \<Rightarrow> p
      | None \<Rightarrow>
          (case h_env H ''AGE_KEY_FILE'' of
             Some p \<Rightarrow> p
           | None \<Rightarrow> (case h_env H ''HOME'' of Some d \<Rightarrow> d | None \<Rightarrow> []) @ ''/.config/age/keys.txt''))"

definition age_parse_output :: "host_api \<Rightarrow> secret_ref \<Rightarrow> string \<Rightarrow> provider_error + string" where
  "age_parse_output H r out =
     (case h_utf8 H out of
        None \<Rightarrow> Inl (ParseFailed AgeNotText)
      | Some s \<Rightarrow> Inr (if s \<noteq> [] \<and> last s = CHR 0x0A then butlast s else s))"

definition age_provider :: cli_manifest where
  "age_provider =
     \<lparr>cm_scheme = ''age'', cm_fields = False,
      cm_resolve_argv = (\<lambda>H r. [''age'', ''--decrypt'', ''--identity'', age_identity_path H, rf_path r]),
      cm_parse_output = age_parse_output, cm_health_argv = [''age'', ''--version''], cm_root_cwd = False\<rparr>"

subsection \<open>\<open>sops\<close>\<close>

fun json_descend :: "json \<Rightarrow> string list \<Rightarrow> json option" where
  "json_descend v [] = Some v"
| "json_descend (JObj m) (k # ks) = (case map_of m k of Some v \<Rightarrow> json_descend v ks | None \<Rightarrow> None)"
| "json_descend _ (k # ks) = None"

definition extract_dotted :: "json \<Rightarrow> string \<Rightarrow> provider_error + string" where
  "extract_dotted v f =
     (case json_descend v (split_on (CHR ''.'') f) of
        None \<Rightarrow> Inl NotFound
      | Some (JStr s) \<Rightarrow> Inr s
      | Some (JNum n) \<Rightarrow> Inr n
      | Some (JBool b) \<Rightarrow> Inr (if b then ''true'' else ''false'')
      | Some _ \<Rightarrow> Inl (ParseFailed (SopsNotScalar f)))"

definition sops_parse_output :: "host_api \<Rightarrow> secret_ref \<Rightarrow> string \<Rightarrow> provider_error + string" where
  "sops_parse_output H r out =
     (case h_json H out of
        None \<Rightarrow> Inl (ParseFailed SopsNotJson)
      | Some j \<Rightarrow> (case rf_field r of None \<Rightarrow> Inr (h_lossy H out) | Some f \<Rightarrow> extract_dotted j f))"

definition sops_provider :: cli_manifest where
  "sops_provider =
     \<lparr>cm_scheme = ''sops'', cm_fields = True,
      cm_resolve_argv = (\<lambda>H r. [''sops'', ''--decrypt'', ''--output-type'', ''json'', rf_path r]),
      cm_parse_output = sops_parse_output, cm_health_argv = [''sops'', ''--version''], cm_root_cwd = True\<rparr>"

subsection \<open>\<open>dotenv\<close> and \<open>env\<close>\<close>

definition path_join :: "string \<Rightarrow> string \<Rightarrow> string" where
  "path_join dir p =
     (if starts_with ''/'' p then p
      else if dir = [] \<or> last dir = CHR ''/'' then dir @ p else dir @ ''/'' @ p)"

definition dotenv_path :: "string option \<Rightarrow> string \<Rightarrow> string" where
  "dotenv_path dir p = (case dir of Some d \<Rightarrow> path_join d p | None \<Rightarrow> p)"

fun dotenv_find :: "string \<Rightarrow> (string + string \<times> string) list \<Rightarrow> provider_error + string" where
  "dotenv_find k [] = Inl NotFound"
| "dotenv_find k (Inl e # items) = Inl (ParseFailed (DotenvSyntax e))"
| "dotenv_find k (Inr (k', v) # items) = (if k' = k then Inr v else dotenv_find k items)"

definition dotenv_resolve :: "host_api \<Rightarrow> string option \<Rightarrow> secret_ref \<Rightarrow> provider_error + string" where
  "dotenv_resolve H dir r =
     (case rf_field r of
        None \<Rightarrow> Inl (BadRef NeedsKeyField)
      | Some k \<Rightarrow>
          (case h_dotenv H (dotenv_path dir (rf_path r)) of
             None \<Rightarrow> Inl NotFound
           | Some items \<Rightarrow> dotenv_find k items))"

definition env_resolve :: "host_api \<Rightarrow> secret_ref \<Rightarrow> provider_error + string" where
  "env_resolve H r =
     (if rf_field r \<noteq> None then Inl (Unsupported EnvHasNoField)
      else case h_env H (rf_path r) of Some v \<Rightarrow> Inr v | None \<Rightarrow> Inl NotFound)"

section \<open>The registry\<close>

datatype secret_provider = CliProvider cli_manifest "string option" | DotenvProvider "string option" | EnvProvider

fun provider_scheme :: "secret_provider \<Rightarrow> string" where
  "provider_scheme (CliProvider m _) = cm_scheme m"
| "provider_scheme (DotenvProvider _) = ''dotenv''"
| "provider_scheme EnvProvider = ''env''"

fun provider_resolve :: "host_api \<Rightarrow> secret_provider \<Rightarrow> secret_ref \<Rightarrow> provider_error + string" where
  "provider_resolve H (CliProvider m dir) r = cli_resolve H m dir r"
| "provider_resolve H (DotenvProvider dir) r = dotenv_resolve H dir r"
| "provider_resolve H EnvProvider r = env_resolve H r"

definition registry_provider :: "secret_provider list \<Rightarrow> string \<Rightarrow> secret_provider option" where
  "registry_provider reg scheme = find (\<lambda>p. provider_scheme p = scheme) reg"

definition registry_resolve :: "host_api \<Rightarrow> secret_provider list \<Rightarrow> secret_ref \<Rightarrow> provider_error + string" where
  "registry_resolve H reg r =
     (case registry_provider reg (rf_scheme r) of
        Some p \<Rightarrow> provider_resolve H p r
      | None \<Rightarrow> Inl (Unsupported (NoProvider (rf_scheme r))))"

definition default_registry :: "string option \<Rightarrow> secret_provider list" where
  "default_registry dir =
     [CliProvider pass_provider dir, CliProvider age_provider dir, CliProvider sops_provider dir,
      DotenvProvider dir, EnvProvider]"

end
