(* ===== verification/Secret_Install.thy ===== *)
theory Secret_Install
  imports Secret_Sources
begin

text \<open>
  \<open>secrets.rs\<close> of \<open>sordino-proxy\<close>: how the configured secret references become rules of the engine, with
  the value-free status of every reference and the signal that opens LLM intake, and how the configured
  broker rules become the broker policy.

  Messages that only format their inputs are constructors: \<open>install_fault\<close> is the \<open>error\<close> field of a
  status entry. The provider registry is asked for one reference after the other, as the loop does.
\<close>

section \<open>The configured rules\<close>

record secret_spec =
  sp_name :: string
  sp_operator :: "string option"
  sp_from_ref :: "string option"
  sp_from_env :: "string option"
  sp_required :: bool
  sp_case_sensitive :: bool

record broker_allow_spec =
  bs_secret :: "string option"
  bs_tool :: string
  bs_param :: string
  bs_dest :: "string option"
  bs_ttl_secs :: "nat option"

section \<open>The broker policy\<close>

datatype policy_fault = UnknownDest string | EmptyHostList string | BadRule engine_error

definition parse_dest :: "string option \<Rightarrow> policy_fault + dest_rule option" where
  "parse_dest spec =
     (case spec of
        None \<Rightarrow> Inr None
      | Some s \<Rightarrow>
          if s = ''any'' then Inr (Some AnyHost)
          else case strip_prefix ''host_allowlist:'' s of
              None \<Rightarrow> Inl (UnknownDest s)
            | Some rest \<Rightarrow>
                let hosts = filter (\<lambda>h. h \<noteq> []) (map trim (split_on (CHR '','') rest))
                in if hosts = [] then Inl (EmptyHostList s) else Inr (Some (HostAllowList hosts)))"

fun build_allows :: "broker_api \<Rightarrow> broker_allow_spec list \<Rightarrow> policy_fault + broker_allow list" where
  "build_allows B [] = Inr []"
| "build_allows B (s # ss) =
     (case parse_dest (bs_dest s) of
        Inl e \<Rightarrow> Inl e
      | Inr dest \<Rightarrow>
          (case broker_allow_new B (bs_secret s) (bs_tool s) (bs_param s) dest
                  (map_option (\<lambda>t. t * 10 ^ 9) (bs_ttl_secs s)) of
             Inl e \<Rightarrow> Inl (BadRule e)
           | Inr rule \<Rightarrow> (case build_allows B ss of Inl e \<Rightarrow> Inl e | Inr rules \<Rightarrow> Inr (rule # rules))))"

definition build_broker_policy :: "broker_api \<Rightarrow> broker_allow_spec list \<Rightarrow> policy_fault + broker_policy" where
  "build_broker_policy B specs =
     (case build_allows B specs of Inl e \<Rightarrow> Inl e | Inr rules \<Rightarrow> Inr \<lparr>allow = rules\<rparr>)"

section \<open>Status\<close>

datatype install_fault =
    ReservedName
  | InvalidFromRef
  | BothReferences string
  | NoReference string
  | SafeReason string
  | UnknownOperator string
  | InstallFailed engine_error

record secret_runtime_entry =
  re_name :: string
  re_operator :: string
  re_scheme :: string
  re_required :: bool
  re_resolved :: bool
  re_error :: "install_fault option"

type_synonym secrets_status = "secret_runtime_entry list"

definition status_resolved :: "secrets_status \<Rightarrow> nat" where
  "status_resolved es = length (filter re_resolved es)"

definition status_required :: "secrets_status \<Rightarrow> nat" where
  "status_required es = length (filter re_required es)"

section \<open>One reference\<close>

definition admin_key_rule :: "string \<Rightarrow> secret_rule" where
  "admin_key_rule key =
     \<lparr>sr_name = RESERVED_NONDEREF_SECRET, sr_value = key, sr_operator = OpLocal, sr_case_sensitive = True,
      sr_surfaces = None\<rparr>"

definition spec_to_ref :: "secret_spec \<Rightarrow> install_fault + secret_ref" where
  "spec_to_ref s =
     (case sp_from_ref s of
        Some r \<Rightarrow>
          (case sp_from_env s of
             None \<Rightarrow> (case secret_ref_parse r of Inl _ \<Rightarrow> Inl InvalidFromRef | Inr x \<Rightarrow> Inr x)
           | Some _ \<Rightarrow> Inl (BothReferences (sp_name s)))
      | None \<Rightarrow>
          (case sp_from_env s of
             Some v \<Rightarrow> Inr (secret_ref_new ''env'' v)
           | None \<Rightarrow> Inl (NoReference (sp_name s))))"

definition parse_secret_operator :: "string \<Rightarrow> install_fault + operator" where
  "parse_secret_operator s =
     (if s = ''hash'' then Inr OpHash
      else if s = ''redact'' then Inr OpRedact
      else if s = ''broker'' then Inr OpBroker
      else if s = ''mask'' then Inr (OpMask ''*'' 4)
      else Inl (UnknownOperator s))"

definition default_secret_operator :: "text_api \<Rightarrow> string \<Rightarrow> string \<Rightarrow> operator" where
  "default_secret_operator R name v =
     (case classify_secret R name v of Eligible _ op \<Rightarrow> op | Skip _ \<Rightarrow> OpHash)"

fun operator_name :: "operator \<Rightarrow> string" where
  "operator_name OpToken = ''token''"
| "operator_name OpRedact = ''redact''"
| "operator_name (OpMask _ _) = ''mask''"
| "operator_name OpHash = ''hash''"
| "operator_name OpBroker = ''broker''"
| "operator_name OpLocal = ''local''"
| "operator_name OpKeep = ''keep''"

fun safe_reason :: "provider_error \<Rightarrow> string" where
  "safe_reason NotFound = ''not found''"
| "safe_reason (BinaryMissing b) = ''backend binary `'' @ b @ ''` not found''"
| "safe_reason (SpawnError _) = ''backend spawn failed''"
| "safe_reason (AuthFailed _) = ''authentication/decryption failed (see proxy log)''"
| "safe_reason (ParseFailed _) = ''could not parse backend output''"
| "safe_reason (Unsupported _) = ''unsupported reference for this backend''"
| "safe_reason (BadRef _) = ''invalid secret reference''"

definition failed_entry :: "secret_spec \<Rightarrow> string \<Rightarrow> install_fault \<Rightarrow> secret_runtime_entry" where
  "failed_entry s scheme err =
     \<lparr>re_name = sp_name s, re_operator = (case sp_operator s of Some x \<Rightarrow> x | None \<Rightarrow> ''auto''), re_scheme = scheme,
      re_required = sp_required s, re_resolved = False, re_error = Some err\<rparr>"

text \<open>The outcome of one round of the loop: the entry, and the rule when the reference resolved.\<close>

definition resolve_spec ::
  "text_api \<Rightarrow> (secret_ref \<Rightarrow> provider_error + string) \<Rightarrow> secret_spec
   \<Rightarrow> secret_runtime_entry \<times> secret_rule option" where
  "resolve_spec R resolve s =
     (if slugify (sp_name s) = slugify RESERVED_NONDEREF_SECRET then (failed_entry s [] ReservedName, None)
      else case spec_to_ref s of
          Inl e \<Rightarrow> (failed_entry s [] e, None)
        | Inr sref \<Rightarrow>
            (case resolve sref of
               Inl e \<Rightarrow> (failed_entry s (rf_scheme sref) (SafeReason (safe_reason e)), None)
             | Inr v \<Rightarrow>
                 (case (case sp_operator s of
                          Some x \<Rightarrow> parse_secret_operator x
                        | None \<Rightarrow> Inr (default_secret_operator R (sp_name s) v)) of
                    Inl e \<Rightarrow> (failed_entry s (rf_scheme sref) e, None)
                  | Inr op \<Rightarrow>
                      (\<lparr>re_name = sp_name s, re_operator = operator_name op, re_scheme = rf_scheme sref,
                        re_required = sp_required s, re_resolved = True, re_error = None\<rparr>,
                       Some \<lparr>sr_name = sp_name s, sr_value = v, sr_operator = op,
                             sr_case_sensitive = sp_case_sensitive s, sr_surfaces = None\<rparr>))))"

section \<open>The loop and the installation\<close>

fun resolve_loop ::
  "text_api \<Rightarrow> (secret_ref \<Rightarrow> provider_error + string) \<Rightarrow> secret_spec list
   \<Rightarrow> secret_rule list \<times> secrets_status \<times> bool \<Rightarrow> secret_rule list \<times> secrets_status \<times> bool" where
  "resolve_loop R resolve [] acc = acc"
| "resolve_loop R resolve (s # ss) (rules, entries, ok) =
     (case resolve_spec R resolve s of
        (e, Some r) \<Rightarrow> resolve_loop R resolve ss (rules @ [r], entries @ [e], ok)
      | (e, None) \<Rightarrow> resolve_loop R resolve ss (rules, entries @ [e], ok \<and> \<not> sp_required s))"

definition install_entry :: "engine_error \<Rightarrow> secret_runtime_entry" where
  "install_entry e =
     \<lparr>re_name = ''<install>'', re_operator = [], re_scheme = [], re_required = True, re_resolved = False,
      re_error = Some (InstallFailed e)\<rparr>"

definition resolve_and_install ::
  "'c env \<Rightarrow> (secret_ref \<Rightarrow> provider_error + string) \<Rightarrow> string \<Rightarrow> secret_spec list \<Rightarrow> 'c mask_engine
   \<Rightarrow> (secrets_status \<times> bool) \<times> 'c mask_engine" where
  "resolve_and_install W resolve key specs e =
     (case resolve_loop (text_of W) resolve specs ([admin_key_rule key], [], True) of
        (rules, entries, ok) \<Rightarrow>
          (case set_secret_rules W rules e of
             (Inl err, e') \<Rightarrow> ((entries @ [install_entry err], False), e')
           | (Inr _, e') \<Rightarrow> ((entries, ok), e')))"

end
