(* ===== verification/Proxy_Config.thy ===== *)
theory Proxy_Config
  imports Secret_Install Zdr_Target "HOL-Library.AList"
begin

text \<open>
  \<open>config.rs\<close> of \<open>sordino-proxy\<close>: the layered configuration files. The deep merge of the layers, the
  scope invariant that no secret value or credential stands in a file, loading at startup, the two
  partial re-reads of a reload, the allow-list, and where a profile is persisted.

  A parsed TOML document is the tree \<open>toml\<close>; its maps are lists of members in iteration order. The TOML
  parser, the derived reader of the typed sections and the format-preserving editor are fields of
  \<open>config_api\<close>. A layer file is absent, unreadable or its text.
\<close>

section \<open>Trees and the deep merge\<close>

datatype toml =
    TomlStr string
  | TomlInt int
  | TomlFloat string
  | TomlBool bool
  | TomlDatetime string
  | TomlArr "toml list"
  | TomlTable "(string \<times> toml) list"

definition toml_members :: "toml \<Rightarrow> (string \<times> toml) list option" where
  "toml_members v = (case v of TomlTable m \<Rightarrow> Some m | _ \<Rightarrow> None)"

definition toml_array :: "toml \<Rightarrow> toml list option" where
  "toml_array v = (case v of TomlArr xs \<Rightarrow> Some xs | _ \<Rightarrow> None)"

definition toml_str :: "toml \<Rightarrow> string option" where
  "toml_str v = (case v of TomlStr s \<Rightarrow> Some s | _ \<Rightarrow> None)"

definition toml_get :: "string \<Rightarrow> toml \<Rightarrow> toml option" where
  "toml_get k v = Option.bind (toml_members v) (\<lambda>m. map_of m k)"

fun toml_merge :: "toml \<Rightarrow> toml \<Rightarrow> toml"
and toml_merge_members :: "(string \<times> toml) list \<Rightarrow> (string \<times> toml) list \<Rightarrow> (string \<times> toml) list" where
  "toml_merge b (TomlTable o') = (case b of TomlTable m \<Rightarrow> TomlTable (toml_merge_members m o') | _ \<Rightarrow> TomlTable o')"
| "toml_merge b (TomlStr s) = TomlStr s"
| "toml_merge b (TomlInt i) = TomlInt i"
| "toml_merge b (TomlFloat x) = TomlFloat x"
| "toml_merge b (TomlBool x) = TomlBool x"
| "toml_merge b (TomlDatetime d) = TomlDatetime d"
| "toml_merge b (TomlArr xs) = TomlArr xs"
| "toml_merge_members m [] = m"
| "toml_merge_members m ((k, v) # rest) =
     toml_merge_members
       (AList.update k (case map_of m k of Some bv \<Rightarrow> toml_merge bv v | None \<Rightarrow> v) m) rest"

section \<open>Files\<close>

record config_layers =
  cl_user :: string
  cl_project :: "string option"
  cl_local :: "string option"

datatype layer_file = LayerAbsent | LayerUnreadable string | LayerText string

datatype config_fault =
    ReadFailed string
  | TomlSyntax string
  | InlineSecret nat string
  | InlineZdrKey nat string
  | InlineZdrHeader nat string
  | SchemaFault
  | BadAllowPattern string
  | NoScopePath
  | WriteFault string

record file_config =
  fc_port :: "nat option"
  fc_bind :: string
  fc_upstream :: string
  fc_ledger :: bool
  fc_ledger_path :: "string option"
  fc_engine :: engine_config_shadow
  fc_secrets :: "secret_spec list"
  fc_broker_allow :: "broker_allow_spec list"
  fc_zdr :: zdr_section

record profile_edit =
  pe_profile :: string
  pe_threshold :: rat
  pe_categories :: "string list"
  pe_operator :: "string option"

record config_api =
  ca_toml :: "string \<Rightarrow> toml option"
  ca_schema :: "toml \<Rightarrow> file_config option"
  ca_edit :: "string \<Rightarrow> profile_edit \<Rightarrow> string option"

definition layer_paths :: "config_layers \<Rightarrow> string list" where
  "layer_paths l =
     cl_user l # (case cl_project l of Some p \<Rightarrow> [p] | None \<Rightarrow> []) @ (case cl_local l of Some p \<Rightarrow> [p] | None \<Rightarrow> [])"

definition read_layer :: "config_api \<Rightarrow> (string \<Rightarrow> layer_file) \<Rightarrow> string \<Rightarrow> config_fault + toml option" where
  "read_layer A fs path =
     (case fs path of
        LayerAbsent \<Rightarrow> Inr None
      | LayerUnreadable e \<Rightarrow> Inl (ReadFailed path)
      | LayerText s \<Rightarrow> (case ca_toml A s of None \<Rightarrow> Inl (TomlSyntax path) | Some v \<Rightarrow> Inr (Some v)))"

fun merge_layers :: "config_api \<Rightarrow> (string \<Rightarrow> layer_file) \<Rightarrow> string list \<Rightarrow> toml \<Rightarrow> config_fault + toml" where
  "merge_layers A fs [] acc = Inr acc"
| "merge_layers A fs (p # ps) acc =
     (case read_layer A fs p of
        Inl e \<Rightarrow> Inl e
      | Inr None \<Rightarrow> merge_layers A fs ps acc
      | Inr (Some v) \<Rightarrow> merge_layers A fs ps (toml_merge acc v))"

definition merged_value :: "config_api \<Rightarrow> (string \<Rightarrow> layer_file) \<Rightarrow> config_layers \<Rightarrow> config_fault + toml" where
  "merged_value A fs l = merge_layers A fs (layer_paths l) (TomlTable [])"

section \<open>The scope invariant\<close>

definition SECRET_FORBIDDEN :: "string list" where
  "SECRET_FORBIDDEN = [''value'', ''literal'', ''secret'', ''plaintext'']"

definition ZDR_FORBIDDEN :: "string list" where
  "ZDR_FORBIDDEN = [''key'', ''api_key'', ''apikey'', ''auth'', ''token'', ''secret'', ''value'']"

text \<open>The first item an inspection rejects, with its index.\<close>

fun first_fault :: "(nat \<Rightarrow> 'a \<Rightarrow> 'e option) \<Rightarrow> nat \<Rightarrow> 'a list \<Rightarrow> 'e option" where
  "first_fault chk i [] = None"
| "first_fault chk i (x # xs) = (case chk i x of Some e \<Rightarrow> Some e | None \<Rightarrow> first_fault chk (Suc i) xs)"

definition secret_item_fault :: "nat \<Rightarrow> toml \<Rightarrow> config_fault option" where
  "secret_item_fault i item =
     (case toml_members item of
        None \<Rightarrow> None
      | Some m \<Rightarrow> map_option (InlineSecret i) (find (\<lambda>k. map_of m k \<noteq> None) SECRET_FORBIDDEN))"

definition validate_no_inline_secret_values :: "toml \<Rightarrow> config_fault option" where
  "validate_no_inline_secret_values v =
     (case Option.bind (toml_get ''secrets'' v) toml_array of
        None \<Rightarrow> None
      | Some xs \<Rightarrow> first_fault secret_item_fault 0 xs)"

definition zdr_item_fault :: "nat \<Rightarrow> toml \<Rightarrow> config_fault option" where
  "zdr_item_fault i item =
     (case toml_members item of
        None \<Rightarrow> None
      | Some m \<Rightarrow>
          (case find (\<lambda>(k, _). ascii_lower k \<in> set ZDR_FORBIDDEN) m of
             Some (k, _) \<Rightarrow> Some (InlineZdrKey i k)
           | None \<Rightarrow>
               (case Option.bind (map_of m ''extra_headers'') toml_members of
                  None \<Rightarrow> None
                | Some hs \<Rightarrow> map_option (InlineZdrHeader i \<circ> fst) (find (\<lambda>(k, _). header_name_is_auth_bearing k) hs))))"

definition validate_no_inline_zdr_creds :: "toml \<Rightarrow> config_fault option" where
  "validate_no_inline_zdr_creds v =
     (case Option.bind (Option.bind (toml_get ''zdr'' v) (toml_get ''target'')) toml_array of
        None \<Rightarrow> None
      | Some xs \<Rightarrow> first_fault zdr_item_fault 0 xs)"

section \<open>The allow-list\<close>

definition toml_strings :: "toml option \<Rightarrow> string list" where
  "toml_strings v = (case Option.bind v toml_array of Some xs \<Rightarrow> List.map_filter toml_str xs | None \<Rightarrow> [])"

definition build_allow_list :: "prims \<Rightarrow> text_api \<Rightarrow> toml \<Rightarrow> config_fault + allow_list" where
  "build_allow_list P R raw =
     (case Option.bind (toml_get ''engine'' raw) (toml_get ''allow_list'') of
        None \<Rightarrow> Inr (with_common_words P)
      | Some al \<Rightarrow>
          (case from_specs P R (toml_strings (toml_get ''exact'' al)) (toml_strings (toml_get ''exact_ci'' al))
                  (toml_strings (toml_get ''patterns'' al)) of
             Inl p \<Rightarrow> Inl (BadAllowPattern p)
           | Inr x \<Rightarrow> Inr x))"

section \<open>Loading and the two re-reads\<close>

record loaded_config =
  lc_port :: "nat option"
  lc_bind :: string
  lc_upstream :: string
  lc_engine :: engine_config
  lc_secrets :: "secret_spec list"
  lc_broker_allows :: "broker_allow_spec list"
  lc_zdr :: zdr_section
  lc_ledger :: bool
  lc_ledger_path :: "string option"
  lc_layers :: config_layers

definition checked_file :: "config_api \<Rightarrow> toml \<Rightarrow> config_fault + file_config" where
  "checked_file A merged =
     (case validate_no_inline_secret_values merged of
        Some e \<Rightarrow> Inl e
      | None \<Rightarrow>
          (case validate_no_inline_zdr_creds merged of
             Some e \<Rightarrow> Inl e
           | None \<Rightarrow> (case ca_schema A merged of None \<Rightarrow> Inl SchemaFault | Some f \<Rightarrow> Inr f)))"

definition engine_of_file :: "prims \<Rightarrow> text_api \<Rightarrow> toml \<Rightarrow> file_config \<Rightarrow> config_fault + engine_config" where
  "engine_of_file P R merged f =
     (case build_allow_list P R merged of
        Inl e \<Rightarrow> Inl e
      | Inr al \<Rightarrow> Inr ((from_shadow P (fc_engine f))\<lparr>cfg_allow_list := al\<rparr>))"

definition load_config ::
  "prims \<Rightarrow> text_api \<Rightarrow> config_api \<Rightarrow> (string \<Rightarrow> layer_file) \<Rightarrow> config_layers \<Rightarrow> config_fault + loaded_config" where
  "load_config P R A fs l =
     (case merged_value A fs l of
        Inl e \<Rightarrow> Inl e
      | Inr merged \<Rightarrow>
          (case checked_file A merged of
             Inl e \<Rightarrow> Inl e
           | Inr f \<Rightarrow>
               (case engine_of_file P R merged f of
                  Inl e \<Rightarrow> Inl e
                | Inr eng \<Rightarrow>
                    Inr \<lparr>lc_port = fc_port f, lc_bind = fc_bind f, lc_upstream = fc_upstream f, lc_engine = eng,
                         lc_secrets = fc_secrets f, lc_broker_allows = fc_broker_allow f, lc_zdr = fc_zdr f,
                         lc_ledger = fc_ledger f, lc_ledger_path = fc_ledger_path f, lc_layers = l\<rparr>)))"

definition reload_engine ::
  "prims \<Rightarrow> text_api \<Rightarrow> config_api \<Rightarrow> (string \<Rightarrow> layer_file) \<Rightarrow> config_layers \<Rightarrow> config_fault + engine_config" where
  "reload_engine P R A fs l =
     (case merged_value A fs l of
        Inl e \<Rightarrow> Inl e
      | Inr merged \<Rightarrow>
          (case checked_file A merged of Inl e \<Rightarrow> Inl e | Inr f \<Rightarrow> engine_of_file P R merged f))"

definition reload_broker_allows ::
  "config_api \<Rightarrow> (string \<Rightarrow> layer_file) \<Rightarrow> config_layers \<Rightarrow> config_fault + broker_allow_spec list" where
  "reload_broker_allows A fs l =
     (case merged_value A fs l of
        Inl e \<Rightarrow> Inl e
      | Inr merged \<Rightarrow>
          (case checked_file A merged of Inl e \<Rightarrow> Inl e | Inr f \<Rightarrow> Inr (fc_broker_allow f)))"

text \<open>When the one-time note about a narrowing profile is printed.\<close>

definition narrowing_noted :: "toml \<Rightarrow> engine_config \<Rightarrow> bool" where
  "narrowing_noted merged e \<longleftrightarrow>
     (cfg_profile e = Minimal \<or> cfg_profile e = SecretsOnly)
     \<and> Option.bind (toml_get ''engine'' merged) (toml_get ''enabled_categories'') = None"

section \<open>Persisting a profile\<close>

datatype config_scope = SessionScope | ProjectScope | UserScope | LocalScope

definition scope_file_path :: "config_layers \<Rightarrow> string \<Rightarrow> config_scope \<Rightarrow> string option" where
  "scope_file_path l dir scope =
     (case scope of
        SessionScope \<Rightarrow> None
      | UserScope \<Rightarrow> Some (cl_user l)
      | ProjectScope \<Rightarrow>
          (case cl_project l of
             Some p \<Rightarrow> Some p
           | None \<Rightarrow> if dir \<noteq> [] then Some (path_join dir ''sordino.toml'') else None)
      | LocalScope \<Rightarrow>
          (case cl_local l of
             Some p \<Rightarrow> Some p
           | None \<Rightarrow> if dir \<noteq> [] then Some (path_join dir ''sordino.local.toml'') else None))"

fun profile_name :: "profile \<Rightarrow> string" where
  "profile_name Strict = ''strict''"
| "profile_name Balanced = ''balanced''"
| "profile_name Minimal = ''minimal''"
| "profile_name SecretsOnly = ''secrets_only''"

fun category_name :: "category \<Rightarrow> string" where
  "category_name Secrets = ''secrets''"
| "category_name Financial = ''financial''"
| "category_name Identity = ''identity''"
| "category_name Contact = ''contact''"
| "category_name Network = ''network''"
| "category_name Personal = ''personal''"

definition edit_of_profile :: "prims \<Rightarrow> profile \<Rightarrow> profile_edit" where
  "edit_of_profile P p =
     (let d = for_profile P p in
      \<lparr>pe_profile = profile_name p, pe_threshold = score_threshold d,
       pe_categories = sort (map category_name (filter (\<lambda>k. k \<in> enabled_categories d) ALL_CATEGORIES)),
       pe_operator = Some (operator_name (default_operator d))\<rparr>)"

definition persist_profile ::
  "prims \<Rightarrow> config_api \<Rightarrow> bool \<Rightarrow> (string \<Rightarrow> layer_file) \<Rightarrow> config_layers \<Rightarrow> string \<Rightarrow> config_scope \<Rightarrow> profile
   \<Rightarrow> (config_fault + string) \<times> (string \<Rightarrow> layer_file)" where
  "persist_profile P A write_ok fs l dir scope p =
     (case scope_file_path l dir scope of
        None \<Rightarrow> (Inl NoScopePath, fs)
      | Some path \<Rightarrow>
          (case ca_edit A (case fs path of LayerText s \<Rightarrow> s | _ \<Rightarrow> []) (edit_of_profile P p) of
             None \<Rightarrow> (Inl (TomlSyntax path), fs)
           | Some doc \<Rightarrow> if write_ok then (Inr path, fs(path := LayerText doc)) else (Inl (WriteFault path), fs)))"

end
