(* ===== verification/Control_Plane.thy ===== *)
theory Control_Plane
  imports Proxy_Routes Proxy_Config
begin

text \<open>
  \<open>admin.rs\<close> of \<open>sordino-proxy\<close> with \<open>reconcile_ml\<close> of \<open>ml.rs\<close>: the key-gated operations that read and
  hot-swap the live policy of one project's proxy.

  Every configuration writer holds \<open>config_control\<close> (and \<open>ml_control\<close> where it touches the slot) for
  its whole section, so a handler is one step on \<open>control\<close>. A background model load is its generation
  token in \<open>ct_loads\<close>; the policy frames pushed to monitor pages are their write ids. The readers serde
  derives for a request body, and the writer and reader of the configuration's wire form, are fields of
  \<open>control_api\<close>. A reply that only renders the state is the value it renders.
\<close>

section \<open>State\<close>

record wire_allow_list =
  wa_exact :: "string list"
  wa_exact_ci :: "string list"
  wa_patterns :: "string list"

record 'c control_api =
  k_env :: "'c env"
  k_net :: net_api
  k_broker :: broker_api
  k_files :: config_api
  k_json :: "string \<Rightarrow> json option"
  k_encode :: "engine_config \<Rightarrow> wire_allow_list \<Rightarrow> json option"
  k_decode :: "json \<Rightarrow> (engine_config_shadow \<times> wire_allow_list) option"
  k_canon :: "string \<Rightarrow> string option"
  k_broker_body :: "string \<Rightarrow> (string \<times> json) option"
  k_diag_body :: "string \<Rightarrow> (string \<times> string option) option"
  k_zdr_body :: "string \<Rightarrow> string option option"
  k_ttl_body :: "string \<Rightarrow> nat option option"

record 'c control =
  ct_app :: "'c app_state"
  ct_layers :: config_layers
  ct_fs :: "string \<Rightarrow> layer_file"
  ct_secrets :: secrets_status
  ct_loads :: "(nat \<times> ml_config) list"
  ct_pushed :: "string option list"

datatype ctl_fault =
    NotJsonBody
  | BodyNotObject
  | EncodeFailed
  | MergedInvalid
  | BadAllowRegex string
  | ThresholdOutOfRange rat
  | UnknownEntities "string list"
  | ConfigRejected engine_error
  | UnknownProfile string
  | UnknownScope string
  | ReloadFailed config_fault
  | MaskFailed engine_error
  | NoZdrConfig
  | UnknownZdrConfig string
  | ZdrNotVerified string
  | ZdrNotDurable persist_error

datatype 'a ctl_reply = Forbidden | Refused ctl_fault | Done 'a

fun ctl_status :: "'a ctl_reply \<Rightarrow> nat" where
  "ctl_status Forbidden = 403"
| "ctl_status (Refused EncodeFailed) = 500"
| "ctl_status (Refused (ReloadFailed _)) = 500"
| "ctl_status (Refused (MaskFailed _)) = 500"
| "ctl_status (Refused (ZdrNotDurable _)) = 500"
| "ctl_status (Refused (UnknownZdrConfig _)) = 404"
| "ctl_status (Refused _) = 400"
| "ctl_status (Done _) = 200"

definition ctl_authed :: "'c control_api \<Rightarrow> header_map \<Rightarrow> 'c control \<Rightarrow> bool" where
  "ctl_authed K h c = authed_for_project (prims_of (k_env K)) (k_net K) (as_identity (ct_app c)) h"

definition ctl_engine :: "'c control \<Rightarrow> 'c mask_engine" where
  "ctl_engine c = as_engine (ct_app c)"

definition with_engine :: "'c mask_engine \<Rightarrow> 'c control \<Rightarrow> 'c control" where
  "with_engine e c = c\<lparr>ct_app := (ct_app c)\<lparr>as_engine := e\<rparr>\<rparr>"

definition ctl_config :: "'c control \<Rightarrow> engine_config" where
  "ctl_config c = config_snapshot (ctl_engine c)"

definition push_policy :: "'c control_api \<Rightarrow> header_map \<Rightarrow> 'c control \<Rightarrow> 'c control" where
  "push_policy K h c = c\<lparr>ct_pushed := ct_pushed c @ [header_str (k_net K) ''x-sordino-write-id'' h]\<rparr>"

section \<open>The snapshot\<close>

record ml_view =
  mv_enabled :: bool
  mv_required :: bool
  mv_backend :: ml_backend
  mv_model :: string
  mv_endpoint :: "string option"
  mv_status :: ml_status
  mv_error :: "string option"
  mv_last_runtime_error :: "engine_error option"
  mv_runtime_failures :: nat

record control_snapshot =
  sn_enabled :: bool
  sn_project_root :: string
  sn_token_count :: nat
  sn_config :: engine_config
  sn_allow :: wire_allow_list
  sn_ml :: ml_view
  sn_secrets_ready :: bool
  sn_total :: nat
  sn_resolved :: nat
  sn_required :: nat
  sn_entries :: secrets_status
  sn_zdr_configured :: "zdr_target_view list"
  sn_zdr_default :: "string option"
  sn_zdr_active :: zdr_sessions
  sn_masking_off :: "string list"

definition wire_of_allow_list :: "allow_list \<Rightarrow> wire_allow_list" where
  "wire_of_allow_list a =
     \<lparr>wa_exact = sorted_list_of_set (exact a), wa_exact_ci = sorted_list_of_set (exact_ci a), wa_patterns = patterns a\<rparr>"

definition build_wire_allow_list :: "prims \<Rightarrow> text_api \<Rightarrow> wire_allow_list \<Rightarrow> string + allow_list" where
  "build_wire_allow_list P R w = from_specs P R (wa_exact w) (wa_exact_ci w) (wa_patterns w)"

definition into_engine :: "prims \<Rightarrow> text_api \<Rightarrow> engine_config_shadow \<times> wire_allow_list \<Rightarrow> string + engine_config" where
  "into_engine P R w =
     (case build_wire_allow_list P R (snd w) of
        Inl e \<Rightarrow> Inl e
      | Inr al \<Rightarrow> Inr ((from_shadow P (fst w))\<lparr>cfg_allow_list := al\<rparr>))"

definition control_view :: "'c control \<Rightarrow> control_snapshot" where
  "control_view c =
     (let st = ct_app c; e = as_engine st; cfg = config_snapshot e; m = ml_snapshot (e_ml e) in
      \<lparr>sn_enabled = cfg_enabled cfg, sn_project_root = ai_project_root (as_identity st),
       sn_token_count = token_count e, sn_config = cfg, sn_allow = wire_of_allow_list (cfg_allow_list cfg),
       sn_ml = \<lparr>mv_enabled = ml_enabled (ml cfg), mv_required = required_effective (ml cfg),
                mv_backend = backend (ml cfg), mv_model = model (ml cfg), mv_endpoint = endpoint (ml cfg),
                mv_status = snap_status m, mv_error = snap_error m,
                mv_last_runtime_error = snap_last_runtime_error m, mv_runtime_failures = snap_runtime_failures m\<rparr>,
       sn_secrets_ready = as_secrets_ready st, sn_total = length (ct_secrets c),
       sn_resolved = status_resolved (ct_secrets c), sn_required = status_required (ct_secrets c),
       sn_entries = ct_secrets c, sn_zdr_configured = map (zdr_view \<circ> snd) (as_targets st),
       sn_zdr_default = as_default st, sn_zdr_active = sort_key fst (as_sessions st),
       sn_masking_off = masking_disabled_active (as_masking st)\<rparr>)"

definition get_config :: "'c control_api \<Rightarrow> header_map \<Rightarrow> 'c control \<Rightarrow> control_snapshot ctl_reply" where
  "get_config K h c = (if \<not> ctl_authed K h c then Forbidden else Done (control_view c))"

section \<open>The live model slot\<close>

definition reconcile_ml ::
  "prims \<Rightarrow> text_api \<Rightarrow> ml_config \<Rightarrow> bool \<Rightarrow> ml_runtime \<Rightarrow> (nat \<times> ml_config) option \<times> ml_runtime" where
  "reconcile_ml P R new retry rt =
     (let snap = ml_snapshot rt in
      if \<not> ml_enabled new then (None, if snap_status snap \<noteq> MlDisabled then ml_disable P R rt else rt)
      else
        let changed = (case snap_desired snap of Some d \<Rightarrow> \<not> same_model_params d new | None \<Rightarrow> True);
            needs_load = (case snap_status snap of
                            MlDisabled \<Rightarrow> True
                          | MlFailed \<Rightarrow> retry \<or> changed
                          | MlLoading \<Rightarrow> changed
                          | MlReady \<Rightarrow> changed)
        in if needs_load then let (gen, rt') = ml_begin_load P R new rt in (Some (gen, new), rt')
           else (None, ml_update_required (required new) rt))"

definition reconcile :: "'c control_api \<Rightarrow> ml_config \<Rightarrow> bool \<Rightarrow> 'c control \<Rightarrow> 'c control" where
  "reconcile K new retry c =
     (let e = ctl_engine c; (load, rt) = reconcile_ml (prims_of (k_env K)) (text_of (k_env K)) new retry (e_ml e) in
      (with_engine (e\<lparr>e_ml := rt\<rparr>) c)\<lparr>ct_loads := ct_loads c @ (case load of Some l \<Rightarrow> [l] | None \<Rightarrow> [])\<rparr>)"

section \<open>Configuration writers\<close>

fun merge_json :: "json \<Rightarrow> json \<Rightarrow> json"
and merge_json_members :: "(string \<times> json) list \<Rightarrow> (string \<times> json) list \<Rightarrow> (string \<times> json) list" where
  "merge_json b (JObj o') = (case b of JObj m \<Rightarrow> JObj (merge_json_members m o') | _ \<Rightarrow> JObj o')"
| "merge_json b JNull = JNull"
| "merge_json b (JBool x) = JBool x"
| "merge_json b (JNum x) = JNum x"
| "merge_json b (JStr x) = JStr x"
| "merge_json b (JArr xs) = JArr xs"
| "merge_json_members m [] = m"
| "merge_json_members m ((k, v) # rest) =
     merge_json_members (AList.update k (case map_of m k of Some bv \<Rightarrow> merge_json bv v | None \<Rightarrow> v) m) rest"

definition new_unknown_entity_keys ::
  "(string \<Rightarrow> string option) \<Rightarrow> engine_config \<Rightarrow> engine_config \<Rightarrow> string list" where
  "new_unknown_entity_keys canon current merged =
     map fst (filter (\<lambda>(k, v). k \<in> set (unknown_entity_types canon merged)
                         \<and> map_of (entity_operators current) k \<noteq> Some v) (entity_operators merged))"

text \<open>The checks a posted configuration goes through before it is installed.\<close>

definition merged_config :: "'c control_api \<Rightarrow> engine_config \<Rightarrow> string \<Rightarrow> ctl_fault + engine_config" where
  "merged_config K current body =
     (case k_json K body of
        None \<Rightarrow> Inl NotJsonBody
      | Some (JObj over) \<Rightarrow>
          (case k_encode K current (wire_of_allow_list (cfg_allow_list current)) of
             None \<Rightarrow> Inl EncodeFailed
           | Some base \<Rightarrow>
               (case k_decode K (merge_json base (JObj over)) of
                  None \<Rightarrow> Inl MergedInvalid
                | Some w \<Rightarrow>
                    (case into_engine (prims_of (k_env K)) (text_of (k_env K)) w of
                       Inl p \<Rightarrow> Inl (BadAllowRegex p)
                     | Inr cfg \<Rightarrow>
                         if \<not> (0 \<le> score_threshold cfg \<and> score_threshold cfg \<le> 1)
                         then Inl (ThresholdOutOfRange (score_threshold cfg))
                         else let ks = new_unknown_entity_keys (k_canon K) current cfg
                              in if ks \<noteq> [] then Inl (UnknownEntities ks) else Inr cfg)))
      | Some _ \<Rightarrow> Inl BodyNotObject)"

definition live_ml_on :: "'c control \<Rightarrow> bool" where
  "live_ml_on c \<longleftrightarrow> snap_status (ml_snapshot (e_ml (ctl_engine c))) \<noteq> MlDisabled"

definition with_ml_enabled :: "bool \<Rightarrow> engine_config \<Rightarrow> engine_config" where
  "with_ml_enabled b cfg = cfg\<lparr>ml := (ml cfg)\<lparr>ml_enabled := b\<rparr>\<rparr>"

definition put_config ::
  "'c control_api \<Rightarrow> header_map \<Rightarrow> string \<Rightarrow> 'c control \<Rightarrow> control_snapshot ctl_reply \<times> 'c control" where
  "put_config K h body c =
     (if \<not> ctl_authed K h c then (Forbidden, c)
      else case merged_config K (ctl_config c) body of
          Inl e \<Rightarrow> (Refused e, c)
        | Inr cfg0 \<Rightarrow>
            let cfg = with_ml_enabled (live_ml_on c) cfg0 in
            (case set_config (k_env K) cfg (ctl_engine c) of
               (Inl err, e') \<Rightarrow> (Refused (ConfigRejected err), with_engine e' c)
             | (Inr _, e') \<Rightarrow>
                 let c' = push_policy K h (reconcile K (ml cfg) False (with_engine e' c)) in (Done (control_view c'), c')))"

definition parse_profile :: "string \<Rightarrow> profile option" where
  "parse_profile s =
     (if s = ''strict'' then Some Strict
      else if s = ''balanced'' then Some Balanced
      else if s = ''minimal'' then Some Minimal
      else if s = ''secrets_only'' \<or> s = ''development_safe'' then Some SecretsOnly
      else None)"

definition parse_scope :: "string option \<Rightarrow> ctl_fault + config_scope" where
  "parse_scope q =
     (case q of
        None \<Rightarrow> Inr SessionScope
      | Some s \<Rightarrow>
          if s = ''session'' then Inr SessionScope
          else if s = ''project'' then Inr ProjectScope
          else if s = ''user'' then Inr UserScope
          else if s = ''local'' then Inr LocalScope
          else Inl (UnknownScope s))"

record profile_reply =
  pr_snapshot :: control_snapshot
  pr_applied :: string
  pr_persisted :: "string option"
  pr_session_only :: bool
  pr_persist_error :: "config_fault option"

definition apply_profile ::
  "'c control_api \<Rightarrow> bool \<Rightarrow> header_map \<Rightarrow> string \<Rightarrow> string option \<Rightarrow> 'c control
   \<Rightarrow> profile_reply ctl_reply \<times> 'c control" where
  "apply_profile K write_ok h name q c =
     (if \<not> ctl_authed K h c then (Forbidden, c)
      else case parse_profile name of
          None \<Rightarrow> (Refused (UnknownProfile name), c)
        | Some p \<Rightarrow>
            (case parse_scope q of
               Inl e \<Rightarrow> (Refused e, c)
             | Inr scope \<Rightarrow>
                 let P = prims_of (k_env K); d = for_profile P p;
                     cfg = (ctl_config c)\<lparr>cfg_profile := p, score_threshold := score_threshold d,
                              enabled_categories := enabled_categories d, default_operator := default_operator d\<rparr>
                 in (case set_config (k_env K) cfg (ctl_engine c) of
                       (Inl err, e') \<Rightarrow> (Refused (ConfigRejected err), with_engine e' c)
                     | (Inr _, e') \<Rightarrow>
                         let c1 = with_engine e' c;
                             (out, fs) = (if scope = SessionScope then (None, ct_fs c1)
                                else let (r, fs) = persist_profile P (k_files K) write_ok (ct_fs c1) (ct_layers c1)
                                                     (ai_project_root (as_identity (ct_app c1))) scope p
                                     in (Some r, fs));
                             c2 = push_policy K h (c1\<lparr>ct_fs := fs\<rparr>)
                         in (Done \<lparr>pr_snapshot = control_view c2, pr_applied = name,
                                   pr_persisted = (case out of Some (Inr path) \<Rightarrow> Some path | _ \<Rightarrow> None),
                                   pr_session_only = (scope = SessionScope),
                                   pr_persist_error = (case out of Some (Inl e) \<Rightarrow> Some e | _ \<Rightarrow> None)\<rparr>, c2))))"

definition ml_enable_route ::
  "'c control_api \<Rightarrow> header_map \<Rightarrow> 'c control \<Rightarrow> control_snapshot ctl_reply \<times> 'c control" where
  "ml_enable_route K h c =
     (if \<not> ctl_authed K h c then (Forbidden, c)
      else let cfg = with_ml_enabled True (ctl_config c) in
        (case set_config (k_env K) cfg (ctl_engine c) of
           (Inl err, e') \<Rightarrow> (Refused (ConfigRejected err), with_engine e' c)
         | (Inr _, e') \<Rightarrow>
             let c' = push_policy K h (reconcile K (ml cfg) True (with_engine e' c)) in (Done (control_view c'), c')))"

definition ml_disable_route ::
  "'c control_api \<Rightarrow> header_map \<Rightarrow> 'c control \<Rightarrow> control_snapshot ctl_reply \<times> 'c control" where
  "ml_disable_route K h c =
     (if \<not> ctl_authed K h c then (Forbidden, c)
      else let cfg = with_ml_enabled False (ctl_config c) in
        (case set_config (k_env K) cfg (ctl_engine c) of
           (Inl err, e') \<Rightarrow> (Refused (ConfigRejected err), with_engine e' c)
         | (Inr _, e') \<Rightarrow>
             let c' = push_policy K h (with_engine
                        (e'\<lparr>e_ml := ml_disable (prims_of (k_env K)) (text_of (k_env K)) (e_ml e')\<rparr>) c)
             in (Done (control_view c'), c')))"

definition set_enabled_route ::
  "'c control_api \<Rightarrow> header_map \<Rightarrow> bool \<Rightarrow> 'c control \<Rightarrow> control_snapshot ctl_reply \<times> 'c control" where
  "set_enabled_route K h b c =
     (if \<not> ctl_authed K h c then (Forbidden, c)
      else let c' = with_engine (set_enabled b (ctl_engine c)) c in (Done (control_view c'), c'))"

text \<open>A reload reads the files twice, for the engine and for the broker rules: \<open>fs1\<close>, then \<open>fs2\<close>.\<close>

definition reloaded_policy :: "'c control_api \<Rightarrow> (string \<Rightarrow> layer_file) \<Rightarrow> config_layers \<Rightarrow> broker_policy" where
  "reloaded_policy K fs l =
     (case reload_broker_allows (k_files K) fs l of
        Inl _ \<Rightarrow> broker_policy_default
      | Inr allows \<Rightarrow>
          (case build_broker_policy (k_broker K) allows of Inl _ \<Rightarrow> broker_policy_default | Inr p \<Rightarrow> p))"

definition deny_all :: "'c control \<Rightarrow> 'c control" where
  "deny_all c = with_engine (set_broker_policy broker_policy_default (ctl_engine c)) c"

definition reload_route ::
  "'c control_api \<Rightarrow> (string \<Rightarrow> layer_file) \<Rightarrow> (string \<Rightarrow> layer_file) \<Rightarrow> header_map \<Rightarrow> 'c control
   \<Rightarrow> control_snapshot ctl_reply \<times> 'c control" where
  "reload_route K fs1 fs2 h c =
     (if \<not> ctl_authed K h c then (Forbidden, c)
      else case reload_engine (prims_of (k_env K)) (text_of (k_env K)) (k_files K) fs1 (ct_layers c) of
          Inl e \<Rightarrow> (Refused (ReloadFailed e), deny_all c)
        | Inr cfg0 \<Rightarrow>
            let cfg = with_ml_enabled (live_ml_on c) (cfg0\<lparr>cfg_enabled := is_enabled (ctl_engine c)\<rparr>) in
            (case set_config (k_env K) cfg (ctl_engine c) of
               (Inl err, e') \<Rightarrow> (Refused (ConfigRejected err), deny_all (with_engine e' c))
             | (Inr _, e') \<Rightarrow>
                 let c1 = reconcile K (ml cfg) False (with_engine e' c);
                     c2 = with_engine (set_broker_policy (reloaded_policy K fs2 (ct_layers c)) (ctl_engine c1)) c1;
                     c' = push_policy K h c2
                 in (Done (control_view c'), c')))"

section \<open>The broker boundary and the canary\<close>

fun deny_reason_label :: "deny_reason \<Rightarrow> string" where
  "deny_reason_label NoRule = ''no matching [[broker.allow]] rule for this secret + tool + param''"
| "deny_reason_label EgressBoundary =
     ''tool is an egress boundary (MCP / sub-agent) '' @ em_dash @ '' never brokered''"
| "deny_reason_label OpaqueCommand =
     ''tool runs a free-form shell command '' @ em_dash @ '' use a structured tool instead''"
| "deny_reason_label (HostNotAllowed _) = ''the destination host is not on the rule'' @ [CHR 0x27] @ ''s allow-list''"
| "deny_reason_label HostUnparsed = ''the rule requires a host allow-list but no host could be parsed''"

record broker_reply =
  rp_input :: json
  rp_resolved :: nat
  rp_denied :: "(string \<times> string) list"
  rp_denied_count :: nat

definition broker_resolve_route ::
  "'c control_api \<Rightarrow> nat \<Rightarrow> header_map \<Rightarrow> string \<Rightarrow> 'c control \<Rightarrow> broker_reply ctl_reply" where
  "broker_resolve_route K now h body c =
     (if \<not> ctl_authed K h c then Forbidden
      else case k_broker_body K body of
          None \<Rightarrow> Refused NotJsonBody
        | Some (tool, input) \<Rightarrow>
            let (out, rep) = broker_resolve_pointers (k_env K) (k_broker K) now tool input (ctl_engine c)
            in Done \<lparr>rp_input = out, rp_resolved = br_resolved rep,
                     rp_denied = map (\<lambda>(p, r). (p, deny_reason_label r)) (br_denied rep),
                     rp_denied_count = length (br_denied rep)\<rparr>)"

text \<open>The masking canary; \<open>today\<close> is the day the mask call reads, \<open>now\<close> the clock of the off-window.\<close>

definition diag_mask ::
  "'c control_api \<Rightarrow> int \<Rightarrow> nat \<Rightarrow> header_map \<Rightarrow> string \<Rightarrow> 'c control \<Rightarrow> (string \<times> bool) ctl_reply \<times> 'c control" where
  "diag_mask K today now h body c =
     (if \<not> ctl_authed K h c then (Forbidden, c)
      else case k_diag_body K body of
          None \<Rightarrow> (Refused NotJsonBody, c)
        | Some (txt, conv) \<Rightarrow>
            let (off, md) = (case conv of
                    Some cv \<Rightarrow> is_masking_disabled now cv (as_masking (ct_app c))
                  | None \<Rightarrow> (False, as_masking (ct_app c)));
                c1 = c\<lparr>ct_app := (ct_app c)\<lparr>as_masking := md\<rparr>\<rparr>;
                (out, e') = (if off then mask_when_disabled (k_env K) txt UserMessage (ctl_engine c1)
                             else mask (k_env K) today txt UserMessage (ctl_engine c1));
                c2 = with_engine e' c1
            in (case out of
                  Inr m \<Rightarrow> (Done (masked_text m, masked_text m \<noteq> txt), c2)
                | Inl err \<Rightarrow> (Refused (MaskFailed err), c2)))"

section \<open>The trust switch\<close>

record zdr_status =
  zs_conversation :: string
  zs_active :: "string option"
  zs_default :: "string option"
  zs_configured :: "zdr_target_view list"

definition zdr_status_of :: "string \<Rightarrow> 'c control \<Rightarrow> zdr_status" where
  "zdr_status_of conv c =
     (let st = ct_app c in
      \<lparr>zs_conversation = conv, zs_active = zdr_selection conv (as_sessions st), zs_default = as_default st,
       zs_configured = map (zdr_view \<circ> snd) (as_targets st)\<rparr>)"

definition zdr_get :: "'c control_api \<Rightarrow> header_map \<Rightarrow> string \<Rightarrow> 'c control \<Rightarrow> zdr_status ctl_reply" where
  "zdr_get K h conv c = (if \<not> ctl_authed K h c then Forbidden else Done (zdr_status_of conv c))"

definition with_selections :: "zdr_sessions \<times> selections_file \<Rightarrow> 'c control \<Rightarrow> 'c control" where
  "with_selections s c = c\<lparr>ct_app := (ct_app c)\<lparr>as_sessions := fst s, as_selections := snd s\<rparr>\<rparr>"

text \<open>\<open>ok\<close> is whether the durable write succeeds; the reply of an engagement names its target.\<close>

definition zdr_set ::
  "'c control_api \<Rightarrow> bool \<Rightarrow> header_map \<Rightarrow> string \<Rightarrow> string \<Rightarrow> 'c control
   \<Rightarrow> (zdr_status \<times> string) ctl_reply \<times> 'c control" where
  "zdr_set K ok h conv body c =
     (if \<not> ctl_authed K h c then (Forbidden, c)
      else case (if body = [] then Some None else k_zdr_body K body) of
          None \<Rightarrow> (Refused NotJsonBody, c)
        | Some cfg \<Rightarrow>
            (case (case cfg of Some n \<Rightarrow> Some n | None \<Rightarrow> as_default (ct_app c)) of
               None \<Rightarrow> (Refused NoZdrConfig, c)
             | Some name \<Rightarrow>
                 (case map_of (as_targets (ct_app c)) name of
                    None \<Rightarrow> (Refused (UnknownZdrConfig name), c)
                  | Some t \<Rightarrow>
                      if \<not> zt_verified t then (Refused (ZdrNotVerified name), c)
                      else (case set_zdr_selection ok conv name (as_sessions (ct_app c), as_selections (ct_app c)) of
                              (Inl e, s) \<Rightarrow> (Refused (ZdrNotDurable e), with_selections s c)
                            | (Inr _, s) \<Rightarrow>
                                let c' = with_selections s c in (Done (zdr_status_of conv c', name), c')))))"

definition zdr_clear ::
  "'c control_api \<Rightarrow> bool \<Rightarrow> header_map \<Rightarrow> string \<Rightarrow> 'c control \<Rightarrow> (zdr_status \<times> bool) ctl_reply \<times> 'c control" where
  "zdr_clear K ok h conv c =
     (if \<not> ctl_authed K h c then (Forbidden, c)
      else case clear_zdr_selection ok conv (as_sessions (ct_app c), as_selections (ct_app c)) of
          (Inl e, s) \<Rightarrow> (Refused (ZdrNotDurable e), with_selections s c)
        | (Inr was, s) \<Rightarrow> let c' = with_selections s c in (Done (zdr_status_of conv c', was), c'))"

section \<open>The masking switch of a conversation\<close>

record masking_status =
  ms_conversation :: string
  ms_disabled :: bool
  ms_master :: bool

definition with_masking :: "masking_disabled \<Rightarrow> 'c control \<Rightarrow> 'c control" where
  "with_masking md c = c\<lparr>ct_app := (ct_app c)\<lparr>as_masking := md\<rparr>\<rparr>"

definition masking_status_of :: "nat \<Rightarrow> string \<Rightarrow> 'c control \<Rightarrow> masking_status \<times> 'c control" where
  "masking_status_of now conv c =
     (let (off, md) = is_masking_disabled now conv (as_masking (ct_app c)) in
      (\<lparr>ms_conversation = conv, ms_disabled = off, ms_master = is_enabled (ctl_engine c)\<rparr>, with_masking md c))"

definition masking_get ::
  "'c control_api \<Rightarrow> nat \<Rightarrow> header_map \<Rightarrow> string \<Rightarrow> 'c control \<Rightarrow> masking_status ctl_reply \<times> 'c control" where
  "masking_get K now h conv c =
     (if \<not> ctl_authed K h c then (Forbidden, c)
      else let (ms, c') = masking_status_of now conv c in (Done ms, c'))"

record masking_off_reply =
  mo_status :: masking_status
  mo_changed :: bool
  mo_ttl_secs :: nat
  mo_minutes :: nat

definition masking_disable ::
  "'c control_api \<Rightarrow> nat \<Rightarrow> nat \<Rightarrow> header_map \<Rightarrow> string \<Rightarrow> string \<Rightarrow> 'c control
   \<Rightarrow> masking_off_reply ctl_reply \<times> 'c control" where
  "masking_disable K now wall h conv body c =
     (if \<not> ctl_authed K h c then (Forbidden, c)
      else case (if body = [] then Some None else k_ttl_body K body) of
          None \<Rightarrow> (Refused NotJsonBody, c)
        | Some secs \<Rightarrow>
            let ttl = min (case secs of Some s \<Rightarrow> s * 10 ^ 9 | None \<Rightarrow> DEFAULT_MASKING_OFF_TTL) MAX_MASKING_OFF_TTL;
                (newly, md) = set_masking_disabled now wall conv (Some ttl) (as_masking (ct_app c));
                (ms, c') = masking_status_of now conv (with_masking md c);
                s = ttl div 10 ^ 9
            in (Done \<lparr>mo_status = ms, mo_changed = newly, mo_ttl_secs = s, mo_minutes = (s + 59) div 60\<rparr>, c'))"

definition masking_sweep :: "'c control_api \<Rightarrow> nat \<Rightarrow> header_map \<Rightarrow> 'c control \<Rightarrow> nat ctl_reply \<times> 'c control" where
  "masking_sweep K now h c =
     (if \<not> ctl_authed K h c then (Forbidden, c)
      else let (n, md) = sweep_expired_masking_disabled now (as_masking (ct_app c)) in (Done n, with_masking md c))"

definition masking_enable ::
  "'c control_api \<Rightarrow> nat \<Rightarrow> header_map \<Rightarrow> string \<Rightarrow> 'c control \<Rightarrow> (masking_status \<times> bool) ctl_reply \<times> 'c control" where
  "masking_enable K now h conv c =
     (if \<not> ctl_authed K h c then (Forbidden, c)
      else let (was, md) = clear_masking_disabled conv (as_masking (ct_app c));
               (ms, c') = masking_status_of now conv (with_masking md c)
           in (Done (ms, was), c'))"

section \<open>One control operation\<close>

text \<open>The operations that can change state, with what each reads from its environment. \<close>

datatype ctl_op =
    PutConfig string
  | ApplyProfile bool string "string option"
  | MlEnable
  | MlDisable
  | SetEnabled bool
  | Reload
  | DiagMask int nat string
  | ZdrSet bool string string
  | ZdrClear bool string
  | MaskingGet nat string
  | MaskingDisable nat nat string string
  | MaskingSweep nat
  | MaskingEnable nat string

fun ctl_step :: "'c control_api \<Rightarrow> header_map \<Rightarrow> ctl_op \<Rightarrow> 'c control \<Rightarrow> nat \<times> 'c control" where
  "ctl_step K h (PutConfig body) c = (let (r, c') = put_config K h body c in (ctl_status r, c'))"
| "ctl_step K h (ApplyProfile ok name q) c = (let (r, c') = apply_profile K ok h name q c in (ctl_status r, c'))"
| "ctl_step K h MlEnable c = (let (r, c') = ml_enable_route K h c in (ctl_status r, c'))"
| "ctl_step K h MlDisable c = (let (r, c') = ml_disable_route K h c in (ctl_status r, c'))"
| "ctl_step K h (SetEnabled b) c = (let (r, c') = set_enabled_route K h b c in (ctl_status r, c'))"
| "ctl_step K h Reload c = (let (r, c') = reload_route K (ct_fs c) (ct_fs c) h c in (ctl_status r, c'))"
| "ctl_step K h (DiagMask today now body) c = (let (r, c') = diag_mask K today now h body c in (ctl_status r, c'))"
| "ctl_step K h (ZdrSet ok conv body) c = (let (r, c') = zdr_set K ok h conv body c in (ctl_status r, c'))"
| "ctl_step K h (ZdrClear ok conv) c = (let (r, c') = zdr_clear K ok h conv c in (ctl_status r, c'))"
| "ctl_step K h (MaskingGet now conv) c = (let (r, c') = masking_get K now h conv c in (ctl_status r, c'))"
| "ctl_step K h (MaskingDisable now wall conv body) c =
     (let (r, c') = masking_disable K now wall h conv body c in (ctl_status r, c'))"
| "ctl_step K h (MaskingSweep now) c = (let (r, c') = masking_sweep K now h c in (ctl_status r, c'))"
| "ctl_step K h (MaskingEnable now conv) c = (let (r, c') = masking_enable K now h conv c in (ctl_status r, c'))"

end
