(* ===== verification/Config_Laws.thy ===== *)
theory Config_Laws
  imports Control_Plane
begin

text \<open>
  What holds of the layered configuration: the locale \<open>deep_overlay\<close> is the contract of a deep merge (a
  sent leaf wins, a path the overlay does not mention keeps its value), interpreted for the TOML merge
  of the layers and for the JSON merge of a posted configuration; the layer that decides a value; what
  the scope invariant keeps out of a loaded configuration, and what passes it.
\<close>

section \<open>Overlays\<close>

text \<open>The value at a path of member names, and the paths an overlay says nothing about: where it is a
  table without the next name.\<close>

fun lookup_path :: "('v \<Rightarrow> (string \<times> 'v) list option) \<Rightarrow> string list \<Rightarrow> 'v \<Rightarrow> 'v option" where
  "lookup_path mem [] v = Some v"
| "lookup_path mem (k # ks) v =
     (case mem v of None \<Rightarrow> None | Some m \<Rightarrow> (case map_of m k of None \<Rightarrow> None | Some x \<Rightarrow> lookup_path mem ks x))"

fun silent :: "('v \<Rightarrow> (string \<times> 'v) list option) \<Rightarrow> string list \<Rightarrow> 'v \<Rightarrow> bool" where
  "silent mem [] v \<longleftrightarrow> False"
| "silent mem (k # ks) v \<longleftrightarrow>
     (case mem v of None \<Rightarrow> False | Some m \<Rightarrow> (case map_of m k of None \<Rightarrow> True | Some x \<Rightarrow> silent mem ks x))"

lemma silent_lookup: "silent mem p v \<Longrightarrow> lookup_path mem p v = None"
  by (induction mem p v rule: silent.induct) (auto split: option.splits)

locale deep_overlay =
  fixes members :: "'v \<Rightarrow> (string \<times> 'v) list option"
    and overlay :: "'v \<Rightarrow> 'v \<Rightarrow> 'v"
    and proper :: "'v \<Rightarrow> bool"
  assumes replaces: "members b = None \<or> members v = None \<Longrightarrow> overlay b v = v"
    and merges: "members b = Some bs \<Longrightarrow> members v = Some vs \<Longrightarrow> proper v \<Longrightarrow>
      \<exists>ms. members (overlay b v) = Some ms \<and>
        (\<forall>k. map_of ms k = (case map_of vs k of
            None \<Rightarrow> map_of bs k
          | Some x \<Rightarrow> Some (case map_of bs k of None \<Rightarrow> x | Some y \<Rightarrow> overlay y x)))"
    and proper_member: "proper v \<Longrightarrow> members v = Some vs \<Longrightarrow> map_of vs k = Some x \<Longrightarrow> proper x"
begin

lemma sent:
  "proper v \<Longrightarrow> lookup_path members p v = Some x \<Longrightarrow> members x = None \<Longrightarrow> lookup_path members p (overlay b v) = Some x"
proof (induction p arbitrary: b v)
  case (Cons k ks)
  from Cons.prems(2) obtain vs y where v: "members v = Some vs" "map_of vs k = Some y" "lookup_path members ks y = Some x"
    by (auto split: option.splits)
  show ?case
  proof (cases "members b")
    case (Some bs)
    from merges [OF Some v(1) Cons.prems(1)] obtain ms where
      ms: "members (overlay b v) = Some ms" "map_of ms k = Some (case map_of bs k of None \<Rightarrow> y | Some z \<Rightarrow> overlay z y)"
      using v(2) by auto
    have "lookup_path members ks (overlay z y) = Some x" for z
      using Cons.IH [OF proper_member [OF Cons.prems(1) v(1,2)] v(3) Cons.prems(3)] .
    with ms v(3) show ?thesis by (cases "map_of bs k") simp_all
  qed (use Cons.prems(2) replaces in simp)
qed (use replaces in simp)

lemma kept:
  "proper v \<Longrightarrow> silent members p v \<Longrightarrow> lookup_path members p (overlay b v) = lookup_path members p b"
proof (induction p arbitrary: b v)
  case (Cons k ks)
  from Cons.prems(2) obtain vs where v: "members v = Some vs" by (auto split: option.splits)
  show ?case
  proof (cases "members b")
    case None
    have "lookup_path members (k # ks) v = None" using Cons.prems(2) by (rule silent_lookup)
    with None Cons.prems(2) replaces show ?thesis by simp
  next
    case (Some bs)
    from merges [OF Some v Cons.prems(1)] obtain ms where
      ms: "members (overlay b v) = Some ms" "map_of ms k = (case map_of vs k of None \<Rightarrow> map_of bs k
          | Some x \<Rightarrow> Some (case map_of bs k of None \<Rightarrow> x | Some y \<Rightarrow> overlay y x))" by blast
    show ?thesis
    proof (cases "map_of vs k")
      case None
      with ms Some show ?thesis by simp
    next
      case x: (Some x)
      with Cons.prems(2) v have sil: "silent members ks x" by simp
      note IH = Cons.IH [OF proper_member [OF Cons.prems(1) v x] sil]
      have "lookup_path members ks x = None" using sil by (rule silent_lookup)
      with ms x Some IH show ?thesis by (cases "map_of bs k") simp_all
    qed
  qed
qed simp

end

section \<open>The two merges\<close>

text \<open>The trees a parser yields: no name twice in a table.\<close>

fun toml_proper :: "toml \<Rightarrow> bool" where
  "toml_proper (TomlTable m) \<longleftrightarrow> distinct (map fst m) \<and> (\<forall>(k, v)\<in>set m. toml_proper v)"
| "toml_proper (TomlArr xs) \<longleftrightarrow> (\<forall>v\<in>set xs. toml_proper v)"
| "toml_proper _ \<longleftrightarrow> True"

fun json_proper :: "json \<Rightarrow> bool" where
  "json_proper (JObj m) \<longleftrightarrow> distinct (map fst m) \<and> (\<forall>(k, v)\<in>set m. json_proper v)"
| "json_proper (JArr xs) \<longleftrightarrow> (\<forall>v\<in>set xs. json_proper v)"
| "json_proper _ \<longleftrightarrow> True"

definition json_members :: "json \<Rightarrow> (string \<times> json) list option" where
  "json_members v = (case v of JObj m \<Rightarrow> Some m | _ \<Rightarrow> None)"

text \<open>Both loops merge member by member; what a name has afterwards.\<close>

lemma merge_members_lookup:
  assumes step: "\<And>m k v rest. f m ((k, v) # rest) = f (AList.update k (case map_of m k of Some b \<Rightarrow> g b v | None \<Rightarrow> v) m) rest"
    and nil: "\<And>m. f m [] = m"
  shows "distinct (map fst o') \<Longrightarrow>
    map_of (f m o') k = (case map_of o' k of None \<Rightarrow> map_of m k
      | Some x \<Rightarrow> Some (case map_of m k of None \<Rightarrow> x | Some y \<Rightarrow> g y x))"
proof (induction o' arbitrary: m)
  case (Cons kv rest)
  obtain k' v where kv: "kv = (k', v)" by force
  have d: "distinct (map fst rest)" "k' \<notin> fst ` set rest" using Cons.prems kv by auto
  then have "map_of rest k' = None" by (simp add: map_of_eq_None_iff)
  then show ?case
    unfolding kv step Cons.IH [OF d(1)]
    by (auto simp: update_conv split: option.splits)
qed (simp add: nil)

interpretation layers: deep_overlay toml_members toml_merge toml_proper
proof unfold_locales
  fix b v :: toml
  assume "toml_members b = None \<or> toml_members v = None"
  then show "toml_merge b v = v" by (cases v; cases b) (simp_all add: toml_members_def)
next
  fix b v :: toml and bs vs
  assume "toml_members b = Some bs" "toml_members v = Some vs" "toml_proper v"
  then have m: "b = TomlTable bs" "v = TomlTable vs" "distinct (map fst vs)"
    by (auto simp: toml_members_def split: toml.splits)
  then have "map_of (toml_merge_members bs vs) k = (case map_of vs k of None \<Rightarrow> map_of bs k
      | Some x \<Rightarrow> Some (case map_of bs k of None \<Rightarrow> x | Some y \<Rightarrow> toml_merge y x))" for k
    by (intro merge_members_lookup) simp_all
  with m show "\<exists>ms. toml_members (toml_merge b v) = Some ms \<and> (\<forall>k. map_of ms k = (case map_of vs k of None \<Rightarrow> map_of bs k
      | Some x \<Rightarrow> Some (case map_of bs k of None \<Rightarrow> x | Some y \<Rightarrow> toml_merge y x)))"
    by (simp add: toml_members_def)
next
  fix v vs k x
  assume "toml_proper v" "toml_members v = Some vs" "map_of vs k = Some x"
  then show "toml_proper x" by (auto simp: toml_members_def split: toml.splits dest!: map_of_SomeD)
qed

interpretation posted: deep_overlay json_members merge_json json_proper
proof unfold_locales
  fix b v :: json
  assume "json_members b = None \<or> json_members v = None"
  then show "merge_json b v = v" by (cases v; cases b) (simp_all add: json_members_def)
next
  fix b v :: json and bs vs
  assume "json_members b = Some bs" "json_members v = Some vs" "json_proper v"
  then have m: "b = JObj bs" "v = JObj vs" "distinct (map fst vs)"
    by (auto simp: json_members_def split: json.splits)
  then have "map_of (merge_json_members bs vs) k = (case map_of vs k of None \<Rightarrow> map_of bs k
      | Some x \<Rightarrow> Some (case map_of bs k of None \<Rightarrow> x | Some y \<Rightarrow> merge_json y x))" for k
    by (intro merge_members_lookup) simp_all
  with m show "\<exists>ms. json_members (merge_json b v) = Some ms \<and> (\<forall>k. map_of ms k = (case map_of vs k of None \<Rightarrow> map_of bs k
      | Some x \<Rightarrow> Some (case map_of bs k of None \<Rightarrow> x | Some y \<Rightarrow> merge_json y x)))"
    by (simp add: json_members_def)
next
  fix v vs k x
  assume "json_proper v" "json_members v = Some vs" "map_of vs k = Some x"
  then show "json_proper x" by (auto simp: json_members_def split: json.splits dest!: map_of_SomeD)
qed

section \<open>Which layer decides\<close>

lemma merge_layers_append:
  "merge_layers A fs (ps @ qs) acc = (case merge_layers A fs ps acc of Inl e \<Rightarrow> Inl e | Inr b \<Rightarrow> merge_layers A fs qs b)"
  by (induction ps arbitrary: acc) (auto split: sum.split option.split)

definition layer_silent :: "config_api \<Rightarrow> (string \<Rightarrow> layer_file) \<Rightarrow> string list \<Rightarrow> string \<Rightarrow> bool" where
  "layer_silent A fs p q \<longleftrightarrow>
     fs q = LayerAbsent
     \<or> (\<exists>t w. fs q = LayerText t \<and> ca_toml A t = Some w \<and> toml_proper w \<and> silent toml_members p w)"

lemma silent_layers_keep:
  "\<forall>q\<in>set qs. layer_silent A fs p q \<Longrightarrow> merge_layers A fs qs b = Inr m \<Longrightarrow>
   lookup_path toml_members p m = lookup_path toml_members p b"
proof (induction qs arbitrary: b)
  case (Cons q qs)
  from Cons.prems(1) consider "fs q = LayerAbsent"
    | t w where "fs q = LayerText t" "ca_toml A t = Some w" "toml_proper w" "silent toml_members p w"
    by (auto simp: layer_silent_def)
  then show ?case
  proof cases
    case 1
    with Cons show ?thesis by (simp add: read_layer_def)
  next
    case 2
    with Cons.prems have "merge_layers A fs qs (toml_merge b w) = Inr m" by (simp add: read_layer_def)
    with Cons.IH Cons.prems(1) layers.kept [OF 2(3,4)] show ?thesis by simp
  qed
qed simp

text \<open>
  C32. The last layer that sets a value decides it. When the layers merge, and one of them has a leaf at a
  path while each later one is absent or says nothing about that path, the effective configuration has
  that leaf there, whatever the earlier layers hold.
\<close>

theorem deciding_layer:
  assumes "merged_value A fs l = Inr m" "layer_paths l = earlier @ q # later"
    and "fs q = LayerText s" "ca_toml A s = Some v" "toml_proper v"
    and "lookup_path toml_members p v = Some x" "toml_members x = None"
    and "\<forall>r\<in>set later. layer_silent A fs p r"
  shows "lookup_path toml_members p m = Some x"
proof -
  from assms(1,2) obtain b where "merge_layers A fs (q # later) b = Inr m"
    by (auto simp: merged_value_def merge_layers_append split: sum.splits)
  then have "merge_layers A fs later (toml_merge b v) = Inr m" using assms(3,4) by (simp add: read_layer_def)
  from silent_layers_keep [OF assms(8) this] layers.sent [OF assms(5,6,7)] show ?thesis by simp
qed

definition sample_schema :: "(string \<Rightarrow> toml option) \<Rightarrow> config_api" where
  "sample_schema parse = \<lparr>ca_toml = parse, ca_schema = (\<lambda>_. None), ca_edit = (\<lambda>s _. Some s)\<rparr>"

lemma deciding_layer_witness:
  "let A = sample_schema (\<lambda>s. Some (TomlTable [(''engine'', TomlTable [(if s = ''u'' then ''a'' else s, TomlStr s)])]));
       fs = (\<lambda>q. if q = ''none'' then LayerAbsent else LayerText q);
       l = \<lparr>cl_user = ''u'', cl_project = Some ''a'', cl_local = Some ''none''\<rparr>
   in \<exists>m. merged_value A fs l = Inr m \<and> lookup_path toml_members [''engine'', ''a''] m = Some (TomlStr ''a'')"
proof -
  let ?A = "sample_schema (\<lambda>s. Some (TomlTable [(''engine'', TomlTable [(if s = ''u'' then ''a'' else s, TomlStr s)])]))"
  let ?fs = "\<lambda>q. if q = ''none'' then LayerAbsent else LayerText q"
  let ?l = "\<lparr>cl_user = ''u'', cl_project = Some ''a'', cl_local = Some ''none''\<rparr>"
  obtain m where m: "merged_value ?A ?fs ?l = Inr m"
    by (simp add: merged_value_def layer_paths_def read_layer_def sample_schema_def)
  have "lookup_path toml_members [''engine'', ''a''] m = Some (TomlStr ''a'')"
  proof (rule deciding_layer [OF m, where earlier = "[''u'']" and q = "''a''" and later = "[''none'']"])
    show "layer_paths ?l = [''u''] @ ''a'' # [''none'']" by (simp add: layer_paths_def)
    show "ca_toml ?A ''a'' = Some (TomlTable [(''engine'', TomlTable [(''a'', TomlStr ''a'')])])"
      by (simp add: sample_schema_def)
  qed (simp_all add: toml_members_def layer_silent_def)
  with m show ?thesis by simp
qed

section \<open>What a loaded configuration cannot hold\<close>

lemma first_fault_None: "first_fault chk i xs = None \<longleftrightarrow> (\<forall>j<length xs. chk (i + j) (xs ! j) = None)"
proof (induction xs arbitrary: i)
  case (Cons x xs)
  have "(\<forall>j<length (x # xs). chk (i + j) ((x # xs) ! j) = None) \<longleftrightarrow>
      chk i x = None \<and> (\<forall>j<length xs. chk (Suc i + j) (xs ! j) = None)"
    by (auto simp: All_less_Suc2)
  with Cons show ?case by (simp split: option.split)
qed simp

text \<open>No item of the secrets array has a member of a forbidden name; no target of the routing section has
  one, in any case, nor an injected header that carries a credential.\<close>

definition holds_no_value :: "toml \<Rightarrow> bool" where
  "holds_no_value v \<longleftrightarrow>
     (\<forall>xs item m. Option.bind (toml_get ''secrets'' v) toml_array = Some xs \<longrightarrow> item \<in> set xs \<longrightarrow> toml_members item = Some m \<longrightarrow>
        (\<forall>k\<in>set SECRET_FORBIDDEN. map_of m k = None))
     \<and> (\<forall>xs item m. Option.bind (Option.bind (toml_get ''zdr'' v) (toml_get ''target'')) toml_array = Some xs \<longrightarrow>
          item \<in> set xs \<longrightarrow> toml_members item = Some m \<longrightarrow>
          (\<forall>k\<in>fst ` set m. ascii_lower k \<notin> set ZDR_FORBIDDEN)
          \<and> (\<forall>hs. Option.bind (map_of m ''extra_headers'') toml_members = Some hs \<longrightarrow>
               (\<forall>h\<in>fst ` set hs. \<not> header_name_is_auth_bearing h)))"

lemma secret_item_ok: "secret_item_fault i item = None \<Longrightarrow> toml_members item = Some m \<Longrightarrow> k \<in> set SECRET_FORBIDDEN \<Longrightarrow> map_of m k = None"
  by (auto simp: secret_item_fault_def find_None_iff split: option.splits)

lemma zdr_item_ok:
  assumes "zdr_item_fault i item = None" "toml_members item = Some m"
  shows "(\<forall>k\<in>fst ` set m. ascii_lower k \<notin> set ZDR_FORBIDDEN)
    \<and> (\<forall>hs. Option.bind (map_of m ''extra_headers'') toml_members = Some hs \<longrightarrow>
         (\<forall>h\<in>fst ` set hs. \<not> header_name_is_auth_bearing h))"
proof -
  from assms have none: "find (\<lambda>(k, _). ascii_lower k \<in> set ZDR_FORBIDDEN) m = None"
    and hs: "\<And>hs. Option.bind (map_of m ''extra_headers'') toml_members = Some hs \<Longrightarrow>
        find (\<lambda>(k, _). header_name_is_auth_bearing k) hs = None"
    by (auto simp: zdr_item_fault_def split: option.splits prod.splits)
  from none have "\<forall>k\<in>fst ` set m. ascii_lower k \<notin> set ZDR_FORBIDDEN" by (auto simp: find_None_iff)
  moreover have "\<forall>h\<in>fst ` set xs. \<not> header_name_is_auth_bearing h"
    if "Option.bind (map_of m ''extra_headers'') toml_members = Some xs" for xs
    using hs [OF that] by (auto simp: find_None_iff)
  ultimately show ?thesis by blast
qed

lemma checked_holds_no_value:
  assumes "checked_file A m = Inr f"
  shows "holds_no_value m"
proof -
  from assms have s: "validate_no_inline_secret_values m = None" and z: "validate_no_inline_zdr_creds m = None"
    by (auto simp: checked_file_def split: option.splits)
  have a: "map_of ms k = None"
    if "Option.bind (toml_get ''secrets'' m) toml_array = Some xs" "item \<in> set xs" "toml_members item = Some ms"
      "k \<in> set SECRET_FORBIDDEN" for xs item ms k
  proof -
    from s that(1) have "first_fault secret_item_fault 0 xs = None" by (simp add: validate_no_inline_secret_values_def)
    with that(2) obtain j where "secret_item_fault j item = None"
      by (auto simp: first_fault_None in_set_conv_nth)
    with that(3,4) show ?thesis by (rule secret_item_ok [rotated 1])
  qed
  have b: "(\<forall>k\<in>fst ` set ms. ascii_lower k \<notin> set ZDR_FORBIDDEN)
      \<and> (\<forall>hs. Option.bind (map_of ms ''extra_headers'') toml_members = Some hs \<longrightarrow>
           (\<forall>h\<in>fst ` set hs. \<not> header_name_is_auth_bearing h))"
    if "Option.bind (Option.bind (toml_get ''zdr'' m) (toml_get ''target'')) toml_array = Some xs" "item \<in> set xs"
      "toml_members item = Some ms" for xs item ms
  proof -
    from z that(1) have "first_fault zdr_item_fault 0 xs = None" by (simp add: validate_no_inline_zdr_creds_def)
    with that(2) obtain j where "zdr_item_fault j item = None"
      by (auto simp: first_fault_None in_set_conv_nth)
    with that(3) show ?thesis by (rule zdr_item_ok [rotated 1])
  qed
  from a b show ?thesis unfolding holds_no_value_def by blast
qed

text \<open>
  No operation accepts files whose effective configuration holds a secret. Whenever the startup load,
  the engine part of a reload or its broker part succeeds, the merged tree has no member of a forbidden
  name in its secrets, and none in its routing targets in any case, nor a credential-bearing header there.
\<close>

theorem accepted_files_hold_no_value:
  assumes "is_ok (load_config P R A fs l) \<or> is_ok (reload_engine P R A fs l) \<or> is_ok (reload_broker_allows A fs l)"
  shows "\<exists>m. merged_value A fs l = Inr m \<and> holds_no_value m"
proof -
  from assms obtain m f where "merged_value A fs l = Inr m" "checked_file A m = Inr f"
    by (auto simp: load_config_def reload_engine_def reload_broker_allows_def is_ok_def split: sum.splits)
  with checked_holds_no_value show ?thesis by blast
qed

text \<open>Startup and a reload agree on the same files.\<close>

lemma reload_agrees:
  "load_config P R A fs l = Inr lc \<Longrightarrow>
     reload_engine P R A fs l = Inr (lc_engine lc) \<and> reload_broker_allows A fs l = Inr (lc_broker_allows lc)"
  by (auto simp: load_config_def reload_engine_def reload_broker_allows_def split: sum.splits)

text \<open>
  The check on the secrets array is by exact name. A value under \<open>Value\<close> passes it, while the check on
  the routing targets rejects the same member there; and a value in the array of a lower layer passes
  once a higher layer has an array of its own, since arrays replace wholesale.
\<close>

theorem inline_value_evades:
  "(let doc = (\<lambda>sect items. TomlTable [(sect, items)]);
        entry = TomlTable [(''name'', TomlStr ''db''), (''from_env'', TomlStr ''PG''), (''Value'', TomlStr v)]
    in validate_no_inline_secret_values (doc ''secrets'' (TomlArr [entry])) = None
       \<and> validate_no_inline_zdr_creds (doc ''zdr'' (TomlTable [(''target'', TomlArr [entry])])) = Some (InlineZdrKey 0 ''Value''))
   \<and> validate_no_inline_secret_values
        (toml_merge (TomlTable [(''secrets'', TomlArr [TomlTable [(''name'', TomlStr ''db''), (''value'', TomlStr v)]])])
                    (TomlTable [(''secrets'', TomlArr [])])) = None"
proof -
  have "ascii_lower ''Value'' = ''value''" "ascii_lower ''name'' = ''name''" "ascii_lower ''from_env'' = ''from_env''"
    by code_simp+
  then show ?thesis
    by (simp add: validate_no_inline_secret_values_def validate_no_inline_zdr_creds_def toml_get_def toml_members_def
        toml_array_def secret_item_fault_def zdr_item_fault_def SECRET_FORBIDDEN_def ZDR_FORBIDDEN_def)
qed

end
