(* ===== verification/Secret_Laws.thy ===== *)
theory Secret_Laws
  imports Secret_Install Engine_Laws
begin

text \<open>
  What holds of secret references, providers and their installation: the parser inverts the printed
  form, a backend sees no other environment, a command-line backend never yields an empty value, and
  the installation opens intake only with every required secret compiled into the engine.
\<close>

section \<open>References\<close>

lemma split_once_at_cut:
  assumes "c \<notin> set a"
  shows "split_once_at c (a @ c # b) = Some (a, b)"
proof -
  have "\<And>x. x \<in> set a \<Longrightarrow> x \<noteq> c" using assms by auto
  then have "takeWhile (\<lambda>x. x \<noteq> c) (a @ c # b) = a" "dropWhile (\<lambda>x. x \<noteq> c) (a @ c # b) = c # b"
    by (simp_all add: takeWhile_append2 dropWhile_append2)
  then show ?thesis by (simp add: split_once_at_def)
qed

lemma split_once_at_Some:
  "split_once_at c s = Some (a, b) \<longleftrightarrow> s = a @ c # b \<and> c \<notin> set a"
proof
  assume x: "split_once_at c s = Some (a, b)"
  then have "c \<in> set s" by (simp add: split_once_at_def split: if_splits)
  then obtain u v where "s = u @ c # v" "c \<notin> set u" by (metis split_list_first)
  with x split_once_at_cut [of c u v] show "s = a @ c # b \<and> c \<notin> set a" by simp
qed (use split_once_at_cut in blast)

lemma split_once_at_None: "split_once_at c s = None \<longleftrightarrow> c \<notin> set s"
  by (simp add: split_once_at_def)

text \<open>
  The parser of secret references accepts exactly the printed forms of the references it yields: a
  text parses to a reference when, and only when, the reference has a non-empty scheme and path that its
  separators cannot cut, a field that is not empty, and prints as that text.
\<close>

theorem ref_round_trip: "secret_ref_parse s = Inr r \<longleftrightarrow> ref_ok r \<and> show_ref r = s"
proof
  assume p: "secret_ref_parse s = Inr r"
  then obtain scheme rest where c: "split_once_at (CHR '':'') s = Some (scheme, rest)" "scheme \<noteq> []"
    by (auto simp: secret_ref_parse_def split: option.splits if_splits)
  from c(1) have s: "s = scheme @ CHR '':'' # rest" "CHR '':'' \<notin> set scheme"
    by (auto simp: split_once_at_Some)
  show "ref_ok r \<and> show_ref r = s"
  proof (cases "split_once_at (CHR ''#'') rest")
    case None
    then have "CHR ''#'' \<notin> set rest" by (simp add: split_once_at_None)
    with p c None s show ?thesis
      by (auto simp: secret_ref_parse_def ref_ok_def show_ref_def split: if_splits)
  next
    case (Some pf)
    then obtain q f where q: "rest = q @ CHR ''#'' # f" "CHR ''#'' \<notin> set q" "pf = (q, f)"
      by (cases pf) (auto simp: split_once_at_Some)
    with p c Some s show ?thesis
      by (auto simp: secret_ref_parse_def ref_ok_def show_ref_def split: if_splits)
  qed
next
  assume x: "ref_ok r \<and> show_ref r = s"
  obtain scheme path field where r: "r = \<lparr>rf_scheme = scheme, rf_path = path, rf_field = field, rf_version = None\<rparr>"
    using x by (cases r) (auto simp: ref_ok_def)
  from x r have ok: "scheme \<noteq> []" "CHR '':'' \<notin> set scheme" "path \<noteq> []" "CHR ''#'' \<notin> set path" "field \<noteq> Some []"
    by (simp_all add: ref_ok_def)
  let ?rest = "path @ (case field of Some f \<Rightarrow> ''#'' @ f | None \<Rightarrow> [])"
  have "split_once_at (CHR '':'') s = Some (scheme, ?rest)"
    using x r ok by (auto simp: split_once_at_Some show_ref_def)
  moreover have "split_once_at (CHR ''#'') ?rest = (case field of Some f \<Rightarrow> Some (path, f) | None \<Rightarrow> None)"
    using ok by (auto simp: split_once_at_Some split_once_at_None split: option.split)
  ultimately show "secret_ref_parse s = Inr r"
    using ok r by (auto simp: secret_ref_parse_def split: option.split)
qed

section \<open>The classifier\<close>

lemma entropy_below_3_5_real: "entropy_below_3_5 s \<longleftrightarrow> shannon_entropy s < 3.5"
proof (cases "s = []")
  case False
  then show ?thesis using entropy_below_integers [OF False, of 2 7] by (simp add: entropy_below_3_5_def)
qed (simp add: entropy_below_3_5_def shannon_entropy_def)

text \<open>A value is registered when its name asks for it or it is long and random enough, and never when it
  reads as a switch, a number or a mode; random values are hashed and the others redacted.\<close>

lemma classify_eligible:
  "classify_secret R name v = Eligible why op \<longleftrightarrow>
     v \<noteq> [] \<and> \<not> is_boolean_like v \<and> \<not> is_integer_like v \<and> \<not> is_enum_like v
     \<and> why = (if re_is_match R False NAME_RE name
               then (if 8 \<le> length v \<and> 3.5 \<le> shannon_entropy v then BothMatch else NameMatch) else EntropyMatch)
     \<and> (re_is_match R False NAME_RE name \<or> (8 \<le> length v \<and> 3.5 \<le> shannon_entropy v))
     \<and> op = (if 4 \<le> shannon_entropy v then OpHash else OpRedact)"
  unfolding classify_secret_def Let_def entropy_below_3_5_real entropy_below_4_real MIN_SECRET_LEN_def by auto

section \<open>Backends\<close>

text \<open>The references of the \<open>pass\<close> and \<open>sops\<close> backends resolve the same under every two environments
  that agree on the allow-list: nothing else of the proxy's environment reaches them.\<close>

lemma child_env_agree: "(\<forall>k\<in>set ENV_ALLOWLIST. env k = env' k) \<Longrightarrow> child_env env = child_env env'"
  by (auto simp: child_env_def fun_eq_iff)

lemma cli_resolve_scrubbed:
  assumes "\<forall>k\<in>set ENV_ALLOWLIST. h_env H k = env' k" "m = pass_provider \<or> m = sops_provider"
  shows "cli_resolve (H\<lparr>h_env := env'\<rparr>) m dir r = cli_resolve H m dir r"
proof -
  have e: "child_env env' = child_env (h_env H)" using assms(1) child_env_agree by metis
  have "broker_run (H\<lparr>h_env := env'\<rparr>) argv cwd = broker_run H argv cwd" for argv cwd
  proof -
    have "sanitize_stderr (H\<lparr>h_env := env'\<rparr>) err = sanitize_stderr H err" for err
      by (simp add: sanitize_stderr_def)
    then show ?thesis
      by (cases argv; cases "h_spawn H (child_env (h_env H)) argv cwd") (simp_all add: broker_run_def broker_probe_def e)
  qed
  moreover have "cm_resolve_argv m (H\<lparr>h_env := env'\<rparr>) r = cm_resolve_argv m H r"
    "cm_parse_output m (H\<lparr>h_env := env'\<rparr>) r out = cm_parse_output m H r out" for out
    using assms(2) by (auto simp: pass_provider_def sops_provider_def pass_parse_output_def sops_parse_output_def split: option.split)
  ultimately show ?thesis
    by (cases "broker_run H (cm_resolve_argv m H r) (cli_cwd m dir)") (simp_all add: cli_resolve_def)
qed

text \<open>A command-line backend yields no empty value, and none when it fails.\<close>

lemma cli_value_nonempty: "cli_resolve H m dir r = Inr v \<Longrightarrow> v \<noteq> []"
  by (auto simp: cli_resolve_def split: if_splits sum.splits)

lemma failed_backend_silent:
  "broker_probe H argv cwd = Inr o' \<Longrightarrow> \<not> bo_success o' \<Longrightarrow> bo_stdout o' = []"
  by (auto simp: broker_probe_def split: list.splits spawn_result.splits)

section \<open>The loop\<close>

abbreviation spec_entry ::
  "text_api \<Rightarrow> (secret_ref \<Rightarrow> provider_error + string) \<Rightarrow> secret_spec \<Rightarrow> secret_runtime_entry" where
  "spec_entry R resolve s \<equiv> fst (resolve_spec R resolve s)"

abbreviation spec_rule ::
  "text_api \<Rightarrow> (secret_ref \<Rightarrow> provider_error + string) \<Rightarrow> secret_spec \<Rightarrow> secret_rule option" where
  "spec_rule R resolve s \<equiv> snd (resolve_spec R resolve s)"

lemma resolve_loop_eq:
  "resolve_loop R resolve specs (rules, entries, ok) =
     (rules @ List.map_filter (spec_rule R resolve) specs, entries @ map (spec_entry R resolve) specs,
      ok \<and> (\<forall>s\<in>set specs. sp_required s \<longrightarrow> spec_rule R resolve s \<noteq> None))"
proof (induction specs arbitrary: rules entries ok)
  case (Cons s specs)
  obtain e r where "resolve_spec R resolve s = (e, r)" by force
  then show ?case by (cases r) (auto simp: Cons.IH List.map_filter_simps)
qed (simp add: List.map_filter_simps)

lemma spec_rule_Some:
  assumes "spec_rule R resolve s = Some r"
  shows "\<exists>sref. spec_to_ref s = Inr sref \<and> resolve sref = Inr (sr_value r) \<and> sr_name r = sp_name s
    \<and> sr_case_sensitive r = sp_case_sensitive s \<and> slugify (sp_name s) \<noteq> slugify RESERVED_NONDEREF_SECRET
    \<and> re_resolved (spec_entry R resolve s)"
  using assms by (auto simp: resolve_spec_def split: if_splits sum.splits)

lemma set_secret_rules_Inl: "set_secret_rules W rules e = (Inl err, e') \<Longrightarrow> e_secrets e' = e_secrets e"
  by (auto simp: set_secret_rules_def split: sum.splits prod.splits)

lemma set_secret_rules_Inr:
  "set_secret_rules W rules e = (Inr u, e') \<Longrightarrow>
     list_all2 (compiled_from (prims_of W)) rules (ss_compiled (e_secrets e'))"
  by (auto simp: set_secret_rules_def split: sum.splits prod.splits dest: compile_secrets_Inr)

lemma set_secret_rules_empty:
  assumes "r \<in> set rules" "sr_value r = []"
  shows "\<exists>err e'. set_secret_rules W rules e = (Inl err, e') \<and> e_secrets e' = e_secrets e"
proof (cases "set_secret_rules W rules e")
  case (Pair q e')
  show ?thesis
  proof (cases q)
    case (Inr u)
    with Pair have "list_all2 (compiled_from (prims_of W)) rules (ss_compiled (e_secrets e'))"
      by (metis set_secret_rules_Inr)
    with assms(1) obtain c where "compiled_from (prims_of W) r c"
      by (metis in_set_conv_nth list_all2_conv_all_nth)
    with assms(2) show ?thesis by (simp add: compiled_from_def)
  qed (use Pair set_secret_rules_Inl in blast)
qed

section \<open>Installation\<close>

definition registered :: "'c mask_engine \<Rightarrow> string \<Rightarrow> string \<Rightarrow> bool" where
  "registered e name v \<longleftrightarrow> (\<exists>c\<in>set (ss_compiled (e_secrets e)). cs_name c = name \<and> cs_value c = v \<and> v \<noteq> [])"

lemma compiled_registered:
  assumes "list_all2 (compiled_from P) rules (ss_compiled (e_secrets e))" "r \<in> set rules"
  shows "registered e (sr_name r) (sr_value r)"
proof -
  from assms obtain c where "c \<in> set (ss_compiled (e_secrets e))" "compiled_from P r c"
    by (metis in_set_conv_nth list_all2_conv_all_nth)
  moreover from this(2) have "cs_name c = sr_name r" "cs_value c = sr_value r" "sr_value r \<noteq> []"
    by (simp_all add: compiled_from_def)
  ultimately show ?thesis unfolding registered_def by blast
qed

text \<open>
  Intake opens only when every required secret is in force. If the installation reports that all
  required references resolved, each of them resolved to a value that is now a compiled secret of the
  engine under its name, and so is the proxy's own control key, with the operator that masks it on the
  wire and never gives it to a tool.
\<close>

theorem intake_opens_with_required:
  assumes "resolve_and_install W resolve key specs e = ((entries, True), e')"
  shows "(\<forall>s\<in>set specs. sp_required s \<longrightarrow>
            (\<exists>sref v. spec_to_ref s = Inr sref \<and> resolve sref = Inr v \<and> registered e' (sp_name s) v))
         \<and> registered e' RESERVED_NONDEREF_SECRET key
         \<and> (\<exists>c\<in>set (ss_compiled (e_secrets e')). cs_value c = key \<and> cs_operator c = OpLocal)"
proof -
  let ?rules = "admin_key_rule key # List.map_filter (spec_rule (text_of W) resolve) specs"
  have l: "resolve_loop (text_of W) resolve specs ([admin_key_rule key], [], True) =
      (?rules, map (spec_entry (text_of W) resolve) specs,
       \<forall>s\<in>set specs. sp_required s \<longrightarrow> spec_rule (text_of W) resolve s \<noteq> None)"
    by (simp add: resolve_loop_eq)
  obtain u where set: "set_secret_rules W ?rules e = (Inr u, e')"
    and req: "\<forall>s\<in>set specs. sp_required s \<longrightarrow> spec_rule (text_of W) resolve s \<noteq> None"
    using assms unfolding resolve_and_install_def l by (auto split: sum.splits prod.splits)
  note comp = set_secret_rules_Inr [OF set]
  have "registered e' RESERVED_NONDEREF_SECRET key"
    using compiled_registered [OF comp, of "admin_key_rule key"] by (simp add: admin_key_rule_def)
  moreover obtain c where "c \<in> set (ss_compiled (e_secrets e'))" "compiled_from (prims_of W) (admin_key_rule key) c"
    using comp by (metis in_set_conv_nth list.set_intros(1) list_all2_conv_all_nth)
  moreover from this(2) have "cs_value c = key" "cs_operator c = OpLocal"
    by (simp_all add: compiled_from_def admin_key_rule_def)
  ultimately have "\<exists>c\<in>set (ss_compiled (e_secrets e')). cs_value c = key \<and> cs_operator c = OpLocal"
    "registered e' RESERVED_NONDEREF_SECRET key" by blast+
  moreover have "\<exists>sref v. spec_to_ref s = Inr sref \<and> resolve sref = Inr v \<and> registered e' (sp_name s) v"
    if s: "s \<in> set specs" "sp_required s" for s
  proof -
    from req s obtain r where r: "spec_rule (text_of W) resolve s = Some r" by auto
    with s(1) have "r \<in> set ?rules" by (force simp: List.map_filter_def)
    from compiled_registered [OF comp this] spec_rule_Some [OF r] show ?thesis by metis
  qed
  ultimately show ?thesis by blast
qed

definition sample_spec :: "string \<Rightarrow> string \<Rightarrow> string option \<Rightarrow> bool \<Rightarrow> secret_spec" where
  "sample_spec name var op need =
     \<lparr>sp_name = name, sp_operator = op, sp_from_ref = None, sp_from_env = Some var, sp_required = need,
      sp_case_sensitive = True\<rparr>"

definition sample_host :: "string \<Rightarrow> string \<Rightarrow> host_api" where
  "sample_host var v =
     \<lparr>h_env = (\<lambda>k. if k = var then Some v else None), h_spawn = (\<lambda>_ _ _. SpawnMissing), h_dotenv = (\<lambda>_. None),
      h_json = (\<lambda>_. None), h_utf8 = Some, h_lossy = (\<lambda>s. s)\<rparr>"

lemma set_secret_rules_ok:
  assumes "compile_secrets (prims_of W) (text_of W) rules = Inr cs" "is_ok (fst (intern_locals (prims_of W) cs (e_store e)))"
  shows "\<exists>u e'. set_secret_rules W rules e = (Inr u, e')"
  using assms by (cases "intern_locals (prims_of W) cs (e_store e)") (auto simp: set_secret_rules_def is_ok_def split: sum.splits)

lemma intake_opens_with_required_witness:
  "\<exists>e0 entries e'. engine_new sample_env (engine_config_default sample_prims) = Inr e0
     \<and> resolve_and_install sample_env (\<lambda>_. Inr ''hunter2!xQ'') ''k3y'' [sample_spec ''db'' ''PG'' (Some ''hash'') True] e0
        = ((entries, True), e')
     \<and> registered e' ''db'' ''hunter2!xQ'' \<and> registered e' RESERVED_NONDEREF_SECRET ''k3y''"
proof -
  let ?s = "sample_spec ''db'' ''PG'' (Some ''hash'') True" and ?f = "\<lambda>_ :: secret_ref. (Inr ''hunter2!xQ'' :: provider_error + string)"
  obtain e0 where e0: "engine_new sample_env (engine_config_default sample_prims) = Inr e0"
    "e_store e0 = store_new sample_prims" by (rule sample_engine) blast
  let ?r = "\<lparr>sr_name = ''db'', sr_value = ''hunter2!xQ'', sr_operator = OpHash, sr_case_sensitive = True, sr_surfaces = None\<rparr>"
  have sl: "slugify ''db'' \<noteq> slugify RESERVED_NONDEREF_SECRET" by code_simp
  then have sp: "spec_rule (text_of sample_env) ?f ?s = Some ?r"
    by (simp add: resolve_spec_def sample_spec_def spec_to_ref_def parse_secret_operator_def)
  have "is_ok (compile_secrets (prims_of sample_env) (text_of sample_env) [admin_key_rule ''k3y'', ?r])"
    by (simp add: compile_secrets_def admin_key_rule_def sample_env_def sample_text_def is_ok_def Let_def)
  then obtain cs where cs: "compile_secrets (prims_of sample_env) (text_of sample_env) [admin_key_rule ''k3y'', ?r] = Inr cs"
    by (auto simp: is_ok_def split: sum.splits)
  then have l: "list_all2 (compiled_from (prims_of sample_env)) [admin_key_rule ''k3y'', ?r] cs"
    using compile_secrets_Inr by blast
  then obtain c d where c: "cs = [c, d]" "cs_operator c = OpLocal" "cs_name c = RESERVED_NONDEREF_SECRET" "cs_value c = ''k3y''"
    "cs_operator d = OpHash"
    by (auto simp: list_all2_Cons1 compiled_from_def admin_key_rule_def)
  have "is_ok (fst (intern_local sample_prims RESERVED_NONDEREF_SECRET ''k3y'' (store_new sample_prims)))" by code_simp
  with c have "is_ok (fst (intern_locals (prims_of sample_env) cs (e_store e0)))"
    using e0(2) by (auto simp: sample_env_def is_ok_def split: sum.splits prod.splits)
  then obtain u e' where "set_secret_rules sample_env [admin_key_rule ''k3y'', ?r] e0 = (Inr u, e')"
    using set_secret_rules_ok [OF cs] by blast
  then obtain entries where run: "resolve_and_install sample_env ?f ''k3y'' [?s] e0 = ((entries, True), e')"
    using sp by (simp add: resolve_and_install_def resolve_loop_eq List.map_filter_simps)
  from intake_opens_with_required [OF run] have "registered e' ''db'' ''hunter2!xQ''"
    "registered e' RESERVED_NONDEREF_SECRET ''k3y''" by (auto simp: sample_spec_def)
  with e0(1) run show ?thesis by blast
qed

text \<open>
  C30. One reference to an empty environment variable disarms all of them. If any configured secret,
  required or not, names a variable that is set and empty, with no operator of its own, the installation
  fails as a whole: the engine keeps the secrets it had, no value of this configuration is masked, and
  the status still lists that reference as resolved.
\<close>

theorem empty_variable_disarms_all:
  assumes "s \<in> set specs" "sp_from_ref s = None" "sp_from_env s = Some x" "h_env H x = Some []"
    "slugify (sp_name s) \<noteq> slugify RESERVED_NONDEREF_SECRET" "sp_operator s = None"
    "resolve_and_install W (registry_resolve H (default_registry dir)) key specs e = ((entries, ok), e')"
  shows "\<not> ok \<and> e_secrets e' = e_secrets e \<and> (\<exists>en\<in>set entries. re_name en = sp_name s \<and> re_resolved en)"
proof -
  let ?res = "registry_resolve H (default_registry dir)"
  have "?res (secret_ref_new ''env'' x) = Inr []"
    using assms(4) by (simp add: registry_resolve_def registry_provider_def default_registry_def secret_ref_new_def
        pass_provider_def age_provider_def sops_provider_def env_resolve_def)
  then obtain en r where sp: "resolve_spec (text_of W) ?res s = (en, Some r)" "sr_value r = []"
      "re_resolved en" "re_name en = sp_name s"
    using assms(2,3,5,6) by (auto simp: resolve_spec_def spec_to_ref_def)
  let ?rules = "admin_key_rule key # List.map_filter (spec_rule (text_of W) ?res) specs"
  from assms(1) sp(1) have "r \<in> set ?rules" by (force simp: List.map_filter_def)
  from set_secret_rules_empty [OF this sp(2)] obtain err e1
    where set: "set_secret_rules W ?rules e = (Inl err, e1)" "e_secrets e1 = e_secrets e" by blast
  have "en \<in> set (map (spec_entry (text_of W) ?res) specs)" using assms(1) sp(1) by force
  with assms(7) set sp show ?thesis by (auto simp: resolve_and_install_def resolve_loop_eq)
qed

lemma empty_variable_disarms_all_witness:
  "\<exists>e0 entries e'. engine_new sample_env (engine_config_default sample_prims) = Inr e0
     \<and> resolve_and_install sample_env (registry_resolve (sample_host ''EXTRA'' []) (default_registry None)) ''k3y''
         [sample_spec ''extra'' ''EXTRA'' None False] e0 = ((entries, False), e')
     \<and> e_secrets e' = e_secrets e0"
proof -
  let ?s = "sample_spec ''extra'' ''EXTRA'' None False"
  obtain e0 where e0: "engine_new sample_env (engine_config_default sample_prims) = Inr e0" by (rule sample_engine)
  have sl: "slugify (sp_name ?s) \<noteq> slugify RESERVED_NONDEREF_SECRET" by code_simp
  obtain entries ok e' where
    run: "resolve_and_install sample_env (registry_resolve (sample_host ''EXTRA'' []) (default_registry None)) ''k3y'' [?s] e0
        = ((entries, ok), e')" by (metis prod.collapse)
  have "sp_from_ref ?s = None" "sp_from_env ?s = Some ''EXTRA''" "h_env (sample_host ''EXTRA'' []) ''EXTRA'' = Some []"
    "sp_operator ?s = None" by (simp_all add: sample_spec_def sample_host_def)
  from empty_variable_disarms_all [OF _ this(1,2,3) sl this(4) run] e0 run show ?thesis by auto
qed

section \<open>The status carries no value\<close>

text \<open>With operators configured, the entries are the same for every two backends that resolve the same
  references and fail for the same reasons: no value reaches them.\<close>

definition same_outcomes ::
  "(secret_ref \<Rightarrow> provider_error + string) \<Rightarrow> (secret_ref \<Rightarrow> provider_error + string) \<Rightarrow> bool" where
  "same_outcomes f g \<longleftrightarrow>
     (\<forall>r. case f r of Inl e \<Rightarrow> (case g r of Inl e' \<Rightarrow> safe_reason e = safe_reason e' | Inr _ \<Rightarrow> False)
                    | Inr _ \<Rightarrow> is_ok (g r))"

lemma status_value_free:
  assumes "same_outcomes f g" "\<forall>s\<in>set specs. sp_operator s \<noteq> None"
  shows "map (spec_entry R f) specs = map (spec_entry R g) specs"
proof (rule map_cong [OF refl])
  fix s assume "s \<in> set specs"
  with assms(2) obtain x where x: "sp_operator s = Some x" by auto
  show "spec_entry R f s = spec_entry R g s"
  proof (cases "spec_to_ref s")
    case (Inr sref)
    from assms(1) have "case f sref of Inl e \<Rightarrow> (case g sref of Inl e' \<Rightarrow> safe_reason e = safe_reason e' | Inr _ \<Rightarrow> False)
        | Inr _ \<Rightarrow> is_ok (g sref)" by (simp add: same_outcomes_def)
    then show ?thesis using Inr x
      by (cases "f sref"; cases "g sref"; cases "parse_secret_operator x")
        (simp_all add: resolve_spec_def is_ok_def)
  qed (simp add: resolve_spec_def)
qed

section \<open>The broker policy\<close>

text \<open>An accepted policy is the configured rules, one for one; a host list in it is never empty, and its
  hosts are neither empty nor padded with separators.\<close>

definition dest_matches :: "string option \<Rightarrow> dest_rule option \<Rightarrow> bool" where
  "dest_matches spec d \<longleftrightarrow>
     (case d of
        None \<Rightarrow> spec = None
      | Some AnyHost \<Rightarrow> spec = Some ''any''
      | Some (HostAllowList hs) \<Rightarrow> spec \<noteq> None \<and> spec \<noteq> Some ''any'' \<and> hs \<noteq> [] \<and> [] \<notin> set hs)"

definition allow_matches :: "broker_allow_spec \<Rightarrow> broker_allow \<Rightarrow> bool" where
  "allow_matches s a \<longleftrightarrow>
     ba_secret a = bs_secret s \<and> ba_tool a = bs_tool s \<and> ba_pointer a = bs_param s \<and> dest_matches (bs_dest s) (ba_dest a)"

lemma parse_dest_Inr: "parse_dest spec = Inr d \<Longrightarrow> dest_matches spec d"
  by (auto simp: parse_dest_def dest_matches_def Let_def filter_empty_conv split: option.splits if_splits)

lemma broker_allow_new_Inr:
  "broker_allow_new B sec tool ptr dest ttl = Inr a \<Longrightarrow>
     ba_secret a = sec \<and> ba_tool a = tool \<and> ba_pointer a = ptr \<and> ba_dest a = dest \<and> ba_ttl a = ttl"
  by (auto simp: broker_allow_new_def compile_glob_def split: option.splits if_splits sum.splits)

lemma build_broker_policy_exact:
  assumes "build_broker_policy B specs = Inr p"
  shows "list_all2 allow_matches specs (allow p)"
proof -
  have "build_allows B specs = Inr rules \<Longrightarrow> list_all2 allow_matches specs rules" for rules
  proof (induction specs arbitrary: rules)
    case (Cons s ss)
    then show ?case
      by (auto split: sum.splits dest!: broker_allow_new_Inr simp: allow_matches_def dest: parse_dest_Inr)
  qed simp
  with assms show ?thesis by (auto simp: build_broker_policy_def split: sum.splits)
qed

end
