(* ===== verification/Control_Laws.thy ===== *)
theory Control_Laws
  imports Config_Laws Secret_Laws Proxy_Routes_Laws Walk_Laws
begin

text \<open>
  What holds of the control plane: no operation without the project's key does anything, a refused
  configuration changes nothing, a reload leaves exactly the broker policy of the files or none, the two
  live switches move only where the code means them to, registered secrets and the verification of
  selections survive every run of operations, and what a posted configuration does to the allow-list.
\<close>

section \<open>Steps that change nothing\<close>

lemma with_engine_same [simp]: "with_engine (ctl_engine c) c = c"
  by (simp add: with_engine_def ctl_engine_def)

lemma with_engine_simps [simp]:
  "ctl_engine (with_engine e c) = e" "as_identity (ct_app (with_engine e c)) = as_identity (ct_app c)"
  "as_targets (ct_app (with_engine e c)) = as_targets (ct_app c)"
  "as_sessions (ct_app (with_engine e c)) = as_sessions (ct_app c)"
  "as_default (ct_app (with_engine e c)) = as_default (ct_app c)"
  "as_secrets_ready (ct_app (with_engine e c)) = as_secrets_ready (ct_app c)"
  "ct_layers (with_engine e c) = ct_layers c" "ct_fs (with_engine e c) = ct_fs c"
  by (simp_all add: with_engine_def ctl_engine_def)

lemma set_config_Inl: "set_config W cfg e = (Inl err, e') \<Longrightarrow> e' = e"
  by (auto simp: set_config_def split: sum.splits)

lemma set_config_Inr:
  "set_config W cfg e = (Inr u, e') \<Longrightarrow>
     p_config (e_policy e') = cfg\<lparr>fail_closed := True\<rparr> \<and> e_ml e' = e_ml e \<and> e_store e' = e_store e
     \<and> e_secrets e' = e_secrets e \<and> e_broker_policy e' = e_broker_policy e"
  by (auto simp: set_config_def policy_new_def Let_def split: sum.splits if_splits)


text \<open>
  A refused configuration leaves no trace. When a posted configuration, a profile, or a switch of the
  model or of masking is answered with anything but 200, the state is unchanged: no half-applied policy,
  no started load, no frame to the monitor pages.
\<close>

definition config_writer :: "ctl_op \<Rightarrow> bool" where
  "config_writer op \<longleftrightarrow>
     (case op of PutConfig _ \<Rightarrow> True | ApplyProfile _ _ _ \<Rightarrow> True | MlEnable \<Rightarrow> True | MlDisable \<Rightarrow> True
      | SetEnabled _ \<Rightarrow> True | _ \<Rightarrow> False)"

theorem refused_writer_inert:
  assumes "config_writer op" "ctl_step K h op c = (code, c')" "code \<noteq> 200"
  shows "c' = c"
proof (cases op)
  case (PutConfig body)
  with assms show ?thesis
    by (auto simp: put_config_def Let_def dest!: set_config_Inl split: if_splits sum.splits prod.splits)
next
  case (ApplyProfile ok name q)
  with assms show ?thesis
    by (auto simp: apply_profile_def Let_def dest!: set_config_Inl split: if_splits sum.splits prod.splits option.splits)
next
  case MlEnable
  with assms show ?thesis
    by (auto simp: ml_enable_route_def Let_def dest!: set_config_Inl split: if_splits sum.splits prod.splits)
next
  case MlDisable
  with assms show ?thesis
    by (auto simp: ml_disable_route_def Let_def dest!: set_config_Inl split: if_splits sum.splits prod.splits)
next
  case (SetEnabled b)
  with assms show ?thesis by (auto simp: set_enabled_route_def Let_def split: if_splits)
qed (use assms(1) in \<open>simp_all add: config_writer_def\<close>)

section \<open>Reloading\<close>

lemma reconcile_simps [simp]:
  "e_broker_policy (ctl_engine (reconcile K new r c)) = e_broker_policy (ctl_engine c)"
  "e_policy (ctl_engine (reconcile K new r c)) = e_policy (ctl_engine c)"
  "e_secrets (ctl_engine (reconcile K new r c)) = e_secrets (ctl_engine c)"
  "as_identity (ct_app (reconcile K new r c)) = as_identity (ct_app c)"
  "as_targets (ct_app (reconcile K new r c)) = as_targets (ct_app c)"
  "as_sessions (ct_app (reconcile K new r c)) = as_sessions (ct_app c)"
  "as_secrets_ready (ct_app (reconcile K new r c)) = as_secrets_ready (ct_app c)"
  "ct_layers (reconcile K new r c) = ct_layers c"
  by (simp_all add: reconcile_def Let_def with_engine_def ctl_engine_def split: prod.split)

lemma push_simps [simp]:
  "ct_app (push_policy K h c) = ct_app c" "ctl_engine (push_policy K h c) = ctl_engine c"
  "ct_layers (push_policy K h c) = ct_layers c"
  by (simp_all add: push_policy_def ctl_engine_def)

lemma set_broker_simps [simp]:
  "e_broker_policy (set_broker_policy p e) = p" "e_policy (set_broker_policy p e) = e_policy e"
  "e_secrets (set_broker_policy p e) = e_secrets e" "e_ml (set_broker_policy p e) = e_ml e"
  by (simp_all add: set_broker_policy_def)

text \<open>
  C17. After a reload no broker rule is stale. An authorised reload leaves the broker policy of the files
  as they are, compiled rule for rule, or none at all: if the files cannot be read, hold a secret value,
  do not fit the schema or are rejected by the engine, or if one broker rule does not compile, no secret
  can be resolved into a tool; and then the masking policy is the one that was in force.
\<close>

theorem reload_never_stale:
  assumes "ctl_authed K h c" "reload_route K fs1 fs2 h c = (r, c')"
  shows "(\<exists>s. r = Done s
            \<and> (e_broker_policy (ctl_engine c') = broker_policy_default
               \<or> (\<exists>specs. reload_broker_allows (k_files K) fs2 (ct_layers c) = Inr specs
                    \<and> list_all2 allow_matches specs (allow (e_broker_policy (ctl_engine c'))))))
         \<or> ((\<forall>s. r \<noteq> Done s) \<and> e_broker_policy (ctl_engine c') = broker_policy_default
            \<and> e_policy (ctl_engine c') = e_policy (ctl_engine c))"
proof (cases "reload_engine (prims_of (k_env K)) (text_of (k_env K)) (k_files K) fs1 (ct_layers c)")
  case (Inl e)
  with assms show ?thesis by (auto simp: reload_route_def deny_all_def)
next
  case (Inr cfg0)
  let ?cfg = "with_ml_enabled (live_ml_on c) (cfg0\<lparr>cfg_enabled := is_enabled (ctl_engine c)\<rparr>)"
  obtain q e' where q: "set_config (k_env K) ?cfg (ctl_engine c) = (q, e')" by force
  show ?thesis
  proof (cases q)
    case l: (Inl err)
    with q set_config_Inl have "e' = ctl_engine c" by blast
    with assms Inr q l show ?thesis by (auto simp: reload_route_def deny_all_def Let_def)
  next
    case r: (Inr u)
    let ?p = "reloaded_policy K fs2 (ct_layers c)"
    have "e_broker_policy (ctl_engine c') = ?p" "\<exists>s. r = Done s"
      using assms Inr q r by (auto simp: reload_route_def Let_def)
    moreover have "?p = broker_policy_default
        \<or> (\<exists>specs. reload_broker_allows (k_files K) fs2 (ct_layers c) = Inr specs \<and> list_all2 allow_matches specs (allow ?p))"
      by (auto simp: reloaded_policy_def split: sum.split dest: build_broker_policy_exact)
    ultimately show ?thesis by auto
  qed
qed

section \<open>The live switches\<close>

lemma live_reconcile:
  "ml_enabled new = live_ml_on c \<Longrightarrow> live_ml_on (reconcile K new r c) = live_ml_on c"
  by (auto simp: live_ml_on_def reconcile_def reconcile_ml_def ml_snapshot_def Let_def ctl_engine_def with_engine_def
      ml_begin_load_def refresh_fp_def ml_update_required_def ml_disable_def split: prod.split if_splits ml_status.splits)

lemma live_push [simp]: "live_ml_on (push_policy K h c) = live_ml_on c"
  by (simp add: live_ml_on_def)

lemma live_frame: "frame (ctl_engine c') = frame (ctl_engine c) \<Longrightarrow> live_ml_on c' = live_ml_on c"
  by (simp add: frame_def live_ml_on_def ml_snapshot_def)

lemma live_with_engine: "e_ml e = e_ml (ctl_engine c) \<Longrightarrow> live_ml_on (with_engine e c) = live_ml_on c"
  by (simp add: live_ml_on_def)

lemma ml_with_enabled [simp]:
  "ml_enabled (ml (with_ml_enabled b cfg)) = b" "cfg_enabled (with_ml_enabled b cfg) = cfg_enabled cfg"
  by (simp_all add: with_ml_enabled_def)

lemma enabled_config: "p_config (e_policy e) = cfg\<lparr>fail_closed := True\<rparr> \<Longrightarrow> is_enabled e = cfg_enabled cfg"
  by (simp add: is_enabled_def)

text \<open>What an operation other than a configuration writer or a reload does to the engine.\<close>

lemma diag_frame:
  assumes d: "diag_mask K today now h body c = (r, c')"
  shows "frame (ctl_engine c') = frame (ctl_engine c) \<and> as_identity (ct_app c') = as_identity (ct_app c)
    \<and> as_targets (ct_app c') = as_targets (ct_app c) \<and> as_sessions (ct_app c') = as_sessions (ct_app c)
    \<and> as_secrets_ready (ct_app c') = as_secrets_ready (ct_app c)"
proof (cases "ctl_authed K h c \<and> k_diag_body K body \<noteq> None")
  case True
  from True obtain t conv where b: "k_diag_body K body = Some (t, conv)" by auto
  obtain w md where ob: "(case conv of Some cv \<Rightarrow> is_masking_disabled now cv (as_masking (ct_app c))
      | None \<Rightarrow> (False, as_masking (ct_app c))) = (w, md)" by force
  let ?c1 = "c\<lparr>ct_app := (ct_app c)\<lparr>as_masking := md\<rparr>\<rparr>"
  obtain out e' where m: "(if w then mask_when_disabled (k_env K) t UserMessage (ctl_engine ?c1)
      else mask (k_env K) today t UserMessage (ctl_engine ?c1)) = (out, e')" by force
  then have "frame e' = frame (ctl_engine ?c1)"
    using mask_frame when_disabled_frame by (metis snd_conv)
  moreover have "c' = with_engine e' ?c1"
    using d True b ob m by (cases out) (simp_all add: diag_mask_def Let_def)
  moreover have "ctl_engine ?c1 = ctl_engine c" by (simp add: ctl_engine_def)
  ultimately show ?thesis by simp
qed (use d in \<open>auto simp: diag_mask_def split: if_splits option.splits\<close>)

lemma masking_kept:
  "ctl_engine (with_masking md c) = ctl_engine c" "as_identity (ct_app (with_masking md c)) = as_identity (ct_app c)"
  "as_targets (ct_app (with_masking md c)) = as_targets (ct_app c)"
  "as_sessions (ct_app (with_masking md c)) = as_sessions (ct_app c)"
  "ctl_engine (with_selections x c) = ctl_engine c" "as_identity (ct_app (with_selections x c)) = as_identity (ct_app c)"
  "as_targets (ct_app (with_selections x c)) = as_targets (ct_app c)"
  "as_sessions (ct_app (with_selections x c)) = fst x"
  "as_secrets_ready (ct_app (with_masking md c)) = as_secrets_ready (ct_app c)"
  "as_secrets_ready (ct_app (with_selections x c)) = as_secrets_ready (ct_app c)"
  by (simp_all add: with_masking_def with_selections_def ctl_engine_def)

lemma masking_status_kept:
  "masking_status_of now conv c = (ms, c') \<Longrightarrow> \<exists>md. c' = with_masking md c"
  by (auto simp: masking_status_of_def split: prod.splits)

definition conversation_op :: "ctl_op \<Rightarrow> bool" where
  "conversation_op op \<longleftrightarrow>
     (case op of ZdrSet _ _ _ \<Rightarrow> True | ZdrClear _ _ \<Rightarrow> True | MaskingGet _ _ \<Rightarrow> True | MaskingDisable _ _ _ _ \<Rightarrow> True
      | MaskingSweep _ \<Rightarrow> True | MaskingEnable _ _ \<Rightarrow> True | _ \<Rightarrow> False)"

lemma conversation_op_kept:
  assumes "conversation_op op" "ctl_step K h op c = (code, c')"
  shows "ctl_engine c' = ctl_engine c \<and> as_identity (ct_app c') = as_identity (ct_app c)
    \<and> as_targets (ct_app c') = as_targets (ct_app c)
    \<and> as_secrets_ready (ct_app c') = as_secrets_ready (ct_app c)"
proof (cases op)
  case (ZdrSet ok conv body)
  with assms(2) show ?thesis
    by (auto simp: zdr_set_def masking_kept Let_def split: if_splits option.splits sum.splits prod.splits)
next
  case (ZdrClear ok conv)
  with assms(2) show ?thesis
    by (auto simp: zdr_clear_def masking_kept Let_def split: if_splits sum.splits prod.splits)
next
  case (MaskingGet now conv)
  with assms(2) show ?thesis
    by (auto simp: masking_get_def masking_kept dest!: masking_status_kept split: if_splits prod.splits)
next
  case (MaskingDisable now wall conv body)
  with assms(2) show ?thesis
    by (auto simp: masking_disable_def masking_kept Let_def dest!: masking_status_kept split: if_splits option.splits prod.splits)
next
  case (MaskingSweep now)
  with assms(2) show ?thesis by (auto simp: masking_sweep_def masking_kept split: if_splits prod.splits)
next
  case (MaskingEnable now conv)
  with assms(2) show ?thesis
    by (auto simp: masking_enable_def masking_kept Let_def dest!: masking_status_kept split: if_splits prod.splits)
qed (use assms(1) in \<open>simp_all add: conversation_op_def\<close>)

text \<open>The configuration writers and a reload.\<close>

lemma writer_kept:
  assumes "config_writer op \<or> op = Reload" "ctl_step K h op c = (code, c')"
  shows "e_secrets (ctl_engine c') = e_secrets (ctl_engine c) \<and> as_identity (ct_app c') = as_identity (ct_app c)
    \<and> as_targets (ct_app c') = as_targets (ct_app c) \<and> as_sessions (ct_app c') = as_sessions (ct_app c)
    \<and> as_secrets_ready (ct_app c') = as_secrets_ready (ct_app c)"
proof (cases op)
  case (PutConfig body)
  with assms(2) show ?thesis
    by (auto simp: put_config_def Let_def dest!: set_config_Inl set_config_Inr split: if_splits sum.splits prod.splits)
next
  case (ApplyProfile ok name q)
  with assms(2) show ?thesis
    by (auto simp: apply_profile_def Let_def ctl_engine_def with_engine_def push_policy_def
        dest!: set_config_Inl set_config_Inr split: if_splits sum.splits prod.splits option.splits)
next
  case MlEnable
  with assms(2) show ?thesis
    by (auto simp: ml_enable_route_def Let_def dest!: set_config_Inl set_config_Inr split: if_splits sum.splits prod.splits)
next
  case MlDisable
  with assms(2) show ?thesis
    by (auto simp: ml_disable_route_def Let_def dest!: set_config_Inl set_config_Inr split: if_splits sum.splits prod.splits)
next
  case (SetEnabled b)
  with assms(2) show ?thesis by (auto simp: set_enabled_route_def set_enabled_def Let_def split: if_splits)
next
  case Reload
  with assms(2) show ?thesis
    by (auto simp: reload_route_def deny_all_def Let_def dest!: set_config_Inl set_config_Inr
        split: if_splits sum.splits prod.splits)
qed (use assms(1) in \<open>simp_all add: config_writer_def\<close>)

text \<open>What each route does to the two switches.\<close>

lemma put_live:
  assumes "ctl_step K h (PutConfig body) c = (code, c')"
  shows "live_ml_on c' = live_ml_on c"
proof (cases "ctl_authed K h c \<and> is_ok (merged_config K (ctl_config c) body)")
  case True
  then obtain cfg0 where m: "merged_config K (ctl_config c) body = Inr cfg0" by auto
  obtain q e' where q: "set_config (k_env K) (with_ml_enabled (live_ml_on c) cfg0) (ctl_engine c) = (q, e')" by force
  show ?thesis
  proof (cases q)
    case (Inr u)
    then have "e_ml e' = e_ml (ctl_engine c)" using set_config_Inr q by blast
    then have "live_ml_on (with_engine e' c) = live_ml_on c" by (rule live_with_engine)
    then have "live_ml_on (reconcile K (ml (with_ml_enabled (live_ml_on c) cfg0)) False (with_engine e' c)) = live_ml_on c"
      by (simp add: live_reconcile)
    with assms True m q Inr show ?thesis by (auto simp: put_config_def Let_def)
  qed (use assms True m q set_config_Inl in \<open>force simp: put_config_def Let_def\<close>)
qed (use assms in \<open>auto simp: put_config_def is_ok_def split: if_splits sum.splits\<close>)

lemma profile_live:
  assumes "ctl_step K h (ApplyProfile ok name q) c = (code, c')"
  shows "is_enabled (ctl_engine c') = is_enabled (ctl_engine c) \<and> live_ml_on c' = live_ml_on c"
proof -
  have e: "is_enabled e' = is_enabled (ctl_engine c) \<and> e_ml e' = e_ml (ctl_engine c)"
    if "set_config (k_env K) ((ctl_config c)\<lparr>cfg_profile := p, score_threshold := t, enabled_categories := k,
        default_operator := d\<rparr>) (ctl_engine c) = (Inr u, e')" for p t k d u e'
    using set_config_Inr [OF that] by (simp add: is_enabled_def ctl_config_def config_snapshot_def)
  from assms show ?thesis
    by (auto simp: apply_profile_def Let_def live_ml_on_def ctl_engine_def with_engine_def push_policy_def
        dest!: set_config_Inl e [unfolded ctl_engine_def] split: if_splits sum.splits prod.splits option.splits)
qed

lemma ml_routes_enabled:
  assumes "ctl_step K h MlEnable c = (code, c') \<or> ctl_step K h MlDisable c = (code, c')"
  shows "is_enabled (ctl_engine c') = is_enabled (ctl_engine c)"
  using assms
  by (auto simp: ml_enable_route_def ml_disable_route_def Let_def is_enabled_def with_ml_enabled_def ctl_config_def
      config_snapshot_def dest!: set_config_Inl set_config_Inr split: if_splits sum.splits prod.splits)

lemma diag_live:
  assumes "ctl_step K h (DiagMask today now body) c = (code, c')"
  shows "is_enabled (ctl_engine c') = is_enabled (ctl_engine c) \<and> live_ml_on c' = live_ml_on c"
proof -
  from assms obtain r where "diag_mask K today now h body c = (r, c')" by (auto split: prod.splits)
  from diag_frame [OF this] have f: "frame (ctl_engine c') = frame (ctl_engine c)" by simp
  then have "is_enabled (ctl_engine c') = is_enabled (ctl_engine c)" by (simp add: frame_def is_enabled_def)
  with live_frame [OF f] show ?thesis by simp
qed

lemma reload_live:
  assumes "ctl_step K h Reload c = (code, c')"
  shows "is_enabled (ctl_engine c') = is_enabled (ctl_engine c) \<and> live_ml_on c' = live_ml_on c"
proof (cases "ctl_authed K h c \<and> is_ok (reload_engine (prims_of (k_env K)) (text_of (k_env K)) (k_files K) (ct_fs c) (ct_layers c))")
  case True
  then obtain cfg0 where m: "reload_engine (prims_of (k_env K)) (text_of (k_env K)) (k_files K) (ct_fs c) (ct_layers c) = Inr cfg0"
    by auto
  let ?cfg = "with_ml_enabled (live_ml_on c) (cfg0\<lparr>cfg_enabled := is_enabled (ctl_engine c)\<rparr>)"
  obtain q e' where q: "set_config (k_env K) ?cfg (ctl_engine c) = (q, e')" by force
  show ?thesis
  proof (cases q)
    case (Inr u)
    then have s: "p_config (e_policy e') = ?cfg\<lparr>fail_closed := True\<rparr>" "e_ml e' = e_ml (ctl_engine c)"
      using set_config_Inr q by blast+
    then have "live_ml_on (with_engine e' c) = live_ml_on c" by (intro live_with_engine)
    then have "live_ml_on (reconcile K (ml ?cfg) False (with_engine e' c)) = live_ml_on c" by (simp add: live_reconcile)
    moreover have "is_enabled e' = is_enabled (ctl_engine c)" using enabled_config [OF s(1)] by simp
    ultimately show ?thesis using assms True m q Inr
      by (auto simp: reload_route_def Let_def live_ml_on_def is_enabled_def)
  next
    case (Inl err)
    then have "e' = ctl_engine c" using q set_config_Inl by blast
    with assms True m q Inl show ?thesis
      by (auto simp: reload_route_def deny_all_def Let_def live_ml_on_def is_enabled_def)
  qed
qed (use assms in \<open>auto simp: reload_route_def deny_all_def is_ok_def live_ml_on_def is_enabled_def split: if_splits sum.splits\<close>)

text \<open>
  The two live switches move only where they should. No operation but the two that switch masking, and
  a posted configuration, moves the master switch: not a reload of files that say otherwise, not a
  profile. No operation but the two that switch the model turns it on or off, a posted configuration and
  a reload included.
\<close>

theorem live_switches:
  assumes "ctl_step K h op c = (code, c')"
  shows "((\<forall>b. op \<noteq> SetEnabled b) \<and> (\<forall>body. op \<noteq> PutConfig body) \<longrightarrow>
            is_enabled (ctl_engine c') = is_enabled (ctl_engine c))
         \<and> (op \<noteq> MlEnable \<and> op \<noteq> MlDisable \<longrightarrow> live_ml_on c' = live_ml_on c)"
proof (cases op)
  case (PutConfig body)
  with assms put_live show ?thesis by blast
next
  case (ApplyProfile ok name q)
  with assms profile_live show ?thesis by blast
next
  case MlEnable
  with assms ml_routes_enabled show ?thesis by blast
next
  case MlDisable
  with assms ml_routes_enabled show ?thesis by blast
next
  case (SetEnabled b)
  with assms show ?thesis
    by (auto simp: set_enabled_route_def set_enabled_def Let_def live_ml_on_def split: if_splits)
next
  case (DiagMask today now body)
  with assms diag_live show ?thesis by blast
next
  case Reload
  with assms reload_live show ?thesis by blast
qed (use assms conversation_op_kept [OF _ assms] in \<open>simp_all add: conversation_op_def live_ml_on_def\<close>)

section \<open>Runs of control operations\<close>

definition selections_verified :: "'c control \<Rightarrow> bool" where
  "selections_verified c \<longleftrightarrow>
     (\<forall>cv t. map_of (as_sessions (ct_app c)) cv = Some t \<longrightarrow>
        (\<exists>tg. map_of (as_targets (ct_app c)) t = Some tg \<and> zt_verified tg))"

inductive ctl_moves :: "'c control_api \<Rightarrow> 'c control \<Rightarrow> 'c control \<Rightarrow> bool" for K where
  ctl_moves: "ctl_step K h op c = (code, c') \<Longrightarrow> ctl_moves K c c'"

inductive_cases ctl_movesE: "ctl_moves K c c'"

lemma verified_cong:
  "as_targets (ct_app c') = as_targets (ct_app c) \<Longrightarrow>
   (\<And>cv. map_of (as_sessions (ct_app c')) cv = map_of (as_sessions (ct_app c)) cv) \<Longrightarrow>
   selections_verified c' = selections_verified c"
  by (simp add: selections_verified_def)

lemma rollback_lookup:
  "map_of (engage_rollback conv (map_of m conv) (hm_insert conv t m)) cv = map_of m cv"
  by (cases "map_of m conv") (auto simp: engage_rollback_def)

lemma zdr_set_verified:
  assumes "zdr_set K ok h conv body c = (r, c')" "selections_verified c"
  shows "selections_verified c'"
proof (cases "\<exists>s. r = Done s")
  case False
  have "map_of (as_sessions (ct_app c')) cv = map_of (as_sessions (ct_app c)) cv" for cv
    using assms(1) False
    by (auto simp: zdr_set_def set_zdr_selection_def masking_kept rollback_lookup Let_def
        split: if_splits option.splits sum.splits prod.splits)
  moreover have "as_targets (ct_app c') = as_targets (ct_app c)"
    using assms(1) by (auto simp: zdr_set_def masking_kept Let_def split: if_splits option.splits sum.splits prod.splits)
  ultimately show ?thesis using assms(2) verified_cong by blast
next
  case True
  then obtain name tg where t: "map_of (as_targets (ct_app c)) name = Some tg" "zt_verified tg"
    and m: "as_sessions (ct_app c') = hm_insert conv name (as_sessions (ct_app c))"
      "as_targets (ct_app c') = as_targets (ct_app c)"
    using assms(1) by (auto simp: zdr_set_def set_zdr_selection_def masking_kept Let_def
        split: if_splits option.splits sum.splits prod.splits)
  with assms(2) show ?thesis by (auto simp: selections_verified_def)
qed

lemma zdr_clear_verified:
  assumes "zdr_clear K ok h conv c = (r, c')" "selections_verified c"
  shows "selections_verified c'"
proof -
  have "as_sessions (ct_app c') = as_sessions (ct_app c) \<or> as_sessions (ct_app c') = hm_remove conv (as_sessions (ct_app c))"
    "as_targets (ct_app c') = as_targets (ct_app c)"
    using assms(1) by (auto simp: zdr_clear_def clear_zdr_selection_def masking_kept Let_def split: if_splits sum.splits prod.splits)
  with assms(2) show ?thesis by (auto simp: selections_verified_def split: if_splits)
qed

lemma ctl_move_kept:
  assumes "ctl_step K h op c = (code, c')"
  shows "e_secrets (ctl_engine c') = e_secrets (ctl_engine c) \<and> as_identity (ct_app c') = as_identity (ct_app c)
    \<and> as_targets (ct_app c') = as_targets (ct_app c)
    \<and> as_secrets_ready (ct_app c') = as_secrets_ready (ct_app c)"
proof -
  consider "conversation_op op" | "config_writer op \<or> op = Reload" | today now body where "op = DiagMask today now body"
    by (cases op) (auto simp: conversation_op_def config_writer_def)
  then show ?thesis
  proof cases
    case 1
    from conversation_op_kept [OF 1 assms] show ?thesis by simp
  next
    case 2
    from writer_kept [OF 2 assms] show ?thesis by simp
  next
    case 3
    with assms obtain r where "diag_mask K today now h body c = (r, c')" by (auto split: prod.splits)
    from diag_frame [OF this] show ?thesis by (simp add: frame_def)
  qed
qed

lemma ctl_move_verified:
  assumes "ctl_step K h op c = (code, c')" "selections_verified c"
  shows "selections_verified c'"
proof -
  have t: "as_targets (ct_app c') = as_targets (ct_app c)" using ctl_move_kept [OF assms(1)] by simp
  have same: "as_sessions (ct_app c') = as_sessions (ct_app c) \<Longrightarrow> ?thesis"
    using verified_cong [OF t] assms(2) by simp
  show ?thesis
  proof (cases op)
    case (ZdrSet ok conv body)
    with assms(1) obtain r where "zdr_set K ok h conv body c = (r, c')" by (auto split: prod.splits)
    from zdr_set_verified [OF this assms(2)] show ?thesis .
  next
    case (ZdrClear ok conv)
    with assms(1) obtain r where "zdr_clear K ok h conv c = (r, c')" by (auto split: prod.splits)
    from zdr_clear_verified [OF this assms(2)] show ?thesis .
  next
    case (MaskingGet now conv)
    with assms(1) show ?thesis
      by (intro same) (auto simp: masking_get_def masking_kept dest!: masking_status_kept split: if_splits prod.splits)
  next
    case (MaskingDisable now wall conv body)
    with assms(1) show ?thesis
      by (intro same) (auto simp: masking_disable_def masking_kept Let_def dest!: masking_status_kept
          split: if_splits option.splits prod.splits)
  next
    case (MaskingSweep now)
    with assms(1) show ?thesis by (intro same) (auto simp: masking_sweep_def masking_kept split: if_splits prod.splits)
  next
    case (MaskingEnable now conv)
    with assms(1) show ?thesis
      by (intro same) (auto simp: masking_enable_def masking_kept Let_def dest!: masking_status_kept split: if_splits prod.splits)
  next
    case (DiagMask today now body)
    with assms(1) obtain r where "diag_mask K today now h body c = (r, c')" by (auto split: prod.splits)
    from diag_frame [OF this] show ?thesis by (intro same) simp
  qed (use writer_kept [OF _ assms(1)] same in \<open>simp_all add: config_writer_def\<close>)
qed

text \<open>
  No sequence of control operations, from however many callers, disarms what was established at
  startup: the registered secrets of the engine, the control key and the configured targets are those it
  began with, and if every engaged conversation named a verified target, every one still does.
\<close>

theorem control_run_safe:
  assumes "(ctl_moves K)\<^sup>*\<^sup>* c c'"
  shows "e_secrets (ctl_engine c') = e_secrets (ctl_engine c) \<and> as_identity (ct_app c') = as_identity (ct_app c)
    \<and> as_targets (ct_app c') = as_targets (ct_app c) \<and> (selections_verified c \<longrightarrow> selections_verified c')"
  using assms
proof induction
  case (step c1 c2)
  from step(2) obtain h op code where "ctl_step K h op c1 = (code, c2)" by (auto elim: ctl_movesE)
  from ctl_move_kept [OF this] ctl_move_verified [OF this] step(3) show ?case by simp
qed simp

section \<open>What a posted configuration does to the allow-list\<close>

lemma fold_patterns [simp]:
  "patterns (fold add_exact xs al) = patterns al" "patterns (fold (add_exact_ci P) xs al) = patterns al"
  by (induction xs arbitrary: al) (simp_all add: add_exact_def add_exact_ci_def)

lemma fold_add_pattern: "patterns (fold add_pattern ps al) = patterns al @ ps"
  by (induction ps arbitrary: al) (simp_all add: add_pattern_def)

lemma common_words_patterns: "patterns (with_common_words P) = common_patterns"
  by (simp add: with_common_words_def Let_def fold_add_pattern allow_list_empty_def add_exact_ci_def add_exact_def)

lemma add_patterns_Inr: "add_patterns R ps al = Inr al' \<Longrightarrow> patterns al' = patterns al @ ps"
  by (induction ps arbitrary: al) (auto simp: add_pattern_def split: if_splits)

lemma from_specs_patterns: "from_specs P R ex ci ps = Inr al \<Longrightarrow> patterns al = common_patterns @ ps"
  by (auto simp: from_specs_def common_words_patterns dest: add_patterns_Inr)

text \<open>
  C31. Every posted configuration makes the allow-list longer. When a body that does not mention the
  allow-list is accepted (its wire form comes back as it was written), the live list holds the common
  patterns once more than before: they are prepended on each write and never removed, so the list, every
  pattern of which each detected value is matched against, grows with every write.
\<close>

theorem put_grows_allow_list:
  assumes "put_config K h body c = (Done s, c')" "k_json K body = Some (JObj over)"
    "k_encode K (ctl_config c) (wire_of_allow_list (cfg_allow_list (ctl_config c))) = Some base"
    "k_decode K (merge_json base (JObj over)) = Some (sh, wire_of_allow_list (cfg_allow_list (ctl_config c)))"
  shows "patterns (cfg_allow_list (ctl_config c')) = common_patterns @ patterns (cfg_allow_list (ctl_config c))"
proof -
  obtain cfg0 where m: "merged_config K (ctl_config c) body = Inr cfg0"
    using assms(1) by (auto simp: put_config_def split: if_splits sum.splits)
  with assms(2-4) obtain al where
    "from_specs (prims_of (k_env K)) (text_of (k_env K)) (wa_exact (wire_of_allow_list (cfg_allow_list (ctl_config c))))
        (wa_exact_ci (wire_of_allow_list (cfg_allow_list (ctl_config c))))
        (wa_patterns (wire_of_allow_list (cfg_allow_list (ctl_config c)))) = Inr al" "cfg_allow_list cfg0 = al"
    by (auto simp: merged_config_def into_engine_def build_wire_allow_list_def Let_def split: sum.splits if_splits)
  then have p: "patterns (cfg_allow_list cfg0) = common_patterns @ patterns (cfg_allow_list (ctl_config c))"
    using from_specs_patterns by (fastforce simp: wire_of_allow_list_def)
  obtain q e' where q: "set_config (k_env K) (with_ml_enabled (live_ml_on c) cfg0) (ctl_engine c) = (q, e')" by force
  obtain u where u: "q = Inr u" using assms(1) m q by (cases q) (auto simp: put_config_def Let_def split: if_splits)
  then have "p_config (e_policy e') = (with_ml_enabled (live_ml_on c) cfg0)\<lparr>fail_closed := True\<rparr>"
    using set_config_Inr q by blast
  moreover have "e_policy (ctl_engine c') = e_policy e'"
    using assms(1) m q u by (auto simp: put_config_def Let_def split: if_splits)
  ultimately show ?thesis using p by (simp add: ctl_config_def config_snapshot_def with_ml_enabled_def)
qed

section \<open>A posted configuration is a partial update\<close>

text \<open>
  A posted configuration changes what it sends and nothing else. When the checks accept a body, the
  tree they read back agrees with the live configuration at every path the body does not mention, and
  has the body's leaf at every path the body sets.
\<close>

theorem put_is_partial:
  assumes "merged_config K current body = Inr cfg" "k_json K body = Some (JObj over)" "json_proper (JObj over)"
  shows "\<exists>base merged w. k_encode K current (wire_of_allow_list (cfg_allow_list current)) = Some base
    \<and> k_decode K merged = Some w \<and> into_engine (prims_of (k_env K)) (text_of (k_env K)) w = Inr cfg
    \<and> (\<forall>p. silent json_members p (JObj over) \<longrightarrow> lookup_path json_members p merged = lookup_path json_members p base)
    \<and> (\<forall>p x. lookup_path json_members p (JObj over) = Some x \<and> json_members x = None \<longrightarrow>
         lookup_path json_members p merged = Some x)"
proof -
  from assms(1,2) obtain base w where x: "k_encode K current (wire_of_allow_list (cfg_allow_list current)) = Some base"
    "k_decode K (merge_json base (JObj over)) = Some w"
    "into_engine (prims_of (k_env K)) (text_of (k_env K)) w = Inr cfg"
    by (auto simp: merged_config_def Let_def split: option.splits json.splits sum.splits if_splits)
  note pr = assms(3)
  have "silent json_members p (JObj over) \<Longrightarrow>
      lookup_path json_members p (merge_json base (JObj over)) = lookup_path json_members p base" for p
    using posted.kept [OF pr] by blast
  moreover have "lookup_path json_members p (JObj over) = Some y \<Longrightarrow> json_members y = None \<Longrightarrow>
      lookup_path json_members p (merge_json base (JObj over)) = Some y" for p y
    using posted.sent [OF pr] by blast
  ultimately show ?thesis using x by blast
qed

section \<open>Examples\<close>

text \<open>A configuration whose wire form is the master switch and the allow-list, no files, one verified
  target, and the headers of an authorised caller.\<close>

definition sample_shadow :: "bool \<Rightarrow> engine_config_shadow" where
  "sample_shadow b =
     \<lparr>sh_enabled = b, sh_profile = Balanced, sh_score_threshold = None, sh_enabled_categories = None,
      sh_default_operator = None, sh_entity_operators = [], sh_language = ''en'', sh_fail_closed = True,
      sh_disabled_surfaces = {}, sh_custom_replacements = [], sh_ml = ml_config_default,
      sh_preserve_current_date = True, sh_reveal_marker = reveal_marker_default, sh_detection_cache_cap = 50000,
      sh_detection_cache_persist = False, sh_detection_cache_path = None, sh_redact_exposed_on_ml = False,
      sh_exposure_redaction_scope = LeafScope, sh_salt_scope = ProjectSalt, sh_drop_contaminated_thinking = False\<rparr>"

definition json_text :: "json \<Rightarrow> string" where
  "json_text v = (case v of JStr s \<Rightarrow> s | _ \<Rightarrow> [])"

definition sample_encode :: "engine_config \<Rightarrow> wire_allow_list \<Rightarrow> json option" where
  "sample_encode c w =
     Some (JObj [(''enabled'', JBool (cfg_enabled c)), (''exact'', JArr (map JStr (wa_exact w))),
       (''exact_ci'', JArr (map JStr (wa_exact_ci w))), (''patterns'', JArr (map JStr (wa_patterns w)))])"

definition sample_decode :: "json \<Rightarrow> (engine_config_shadow \<times> wire_allow_list) option" where
  "sample_decode v =
     (case v of
        JObj [(_, JBool b), (_, JArr ex), (_, JArr ci), (_, JArr ps)] \<Rightarrow>
          Some (sample_shadow b, \<lparr>wa_exact = map json_text ex, wa_exact_ci = map json_text ci, wa_patterns = map json_text ps\<rparr>)
      | _ \<Rightarrow> None)"

definition sample_control :: "(cache_key \<Rightarrow> cached_detection list option) control_api" where
  "sample_control =
     \<lparr>k_env = sample_env, k_net = sample_net, k_broker = sample_broker,
      k_files = \<lparr>ca_toml = (\<lambda>_. None), ca_schema = (\<lambda>_. None), ca_edit = (\<lambda>_ _. None)\<rparr>,
      k_json = (\<lambda>b. if b = ''{}'' then Some (JObj []) else if b = ''off'' then Some (JObj [(''enabled'', JBool False)]) else None),
      k_encode = sample_encode, k_decode = sample_decode, k_canon = (\<lambda>_. None), k_broker_body = (\<lambda>_. None),
      k_diag_body = (\<lambda>_. None), k_zdr_body = (\<lambda>_. None), k_ttl_body = (\<lambda>_. None)\<rparr>"

definition sample_ctl :: "'c mask_engine \<Rightarrow> 'c control" where
  "sample_ctl e =
     \<lparr>ct_app = sample_app e, ct_layers = \<lparr>cl_user = ''u'', cl_project = None, cl_local = None\<rparr>,
      ct_fs = (\<lambda>_. LayerUnreadable ''denied''), ct_secrets = [], ct_loads = [], ct_pushed = []\<rparr>"

definition sample_headers :: header_map where
  "sample_headers = [(''x-sordino-key'', ''k''), (''x-sordino-project'', project_key sample_prims ''/p'')]"

lemma sample_authed: "ctl_authed sample_control sample_headers (sample_ctl e)"
  by (simp add: ctl_authed_def sample_control_def sample_headers_def sample_ctl_def sample_app_def sample_env_def
      sample_net_def authed_for_project_def authed_def header_str_def hd_get_def hd_values_def project_header_matches_def)

lemma sample_unauthed: "\<not> ctl_authed sample_control [] (sample_ctl e)"
  by (simp add: ctl_authed_def sample_control_def authed_for_project_def authed_def header_str_def hd_get_def hd_values_def)

lemma sample_verified: "selections_verified (sample_ctl e)"
  by (simp add: selections_verified_def sample_ctl_def sample_app_def sample_target_def)

lemma add_patterns_ok: "list_all (re_compiles R False) ps \<Longrightarrow> is_ok (add_patterns R ps al)"
  by (induction ps arbitrary: al) simp_all

lemma sample_common_ok: "list_all (re_compiles sample_text False) common_patterns"
  unfolding sample_text_def common_patterns_def by code_simp

text \<open>An accepted body of that configuration.\<close>

lemma sample_put:
  assumes e: "p_config (e_policy e) = engine_config_default sample_prims"
    and b: "k_json sample_control body = Some (JObj over)"
      "merge_json (the (sample_encode (engine_config_default sample_prims)
           (wire_of_allow_list (with_common_words sample_prims)))) (JObj over)
         = the (sample_encode ((engine_config_default sample_prims)\<lparr>cfg_enabled := b\<rparr>)
             (wire_of_allow_list (with_common_words sample_prims)))"
  shows "\<exists>cfg. merged_config sample_control (engine_config_default sample_prims) body = Inr cfg
    \<and> default_operator cfg = OpToken \<and> entity_operators cfg = [] \<and> custom_replacements cfg = []"
proof -
  let ?d = "engine_config_default sample_prims" and ?w = "wire_of_allow_list (with_common_words sample_prims)"
  have id: "map (json_text \<circ> JStr) xs = xs" for xs by (induction xs) (simp_all add: json_text_def)
  have al: "cfg_allow_list ?d = with_common_words sample_prims" by (simp add: engine_config_default_def)
  have "wa_patterns ?w = common_patterns" by (simp add: wire_of_allow_list_def common_words_patterns)
  then have "is_ok (from_specs sample_prims sample_text (wa_exact ?w) (wa_exact_ci ?w) (wa_patterns ?w))"
    using add_patterns_ok [OF sample_common_ok] by (simp add: from_specs_def)
  then obtain al' where al': "build_wire_allow_list sample_prims sample_text ?w = Inr al'"
    by (auto simp: build_wire_allow_list_def)
  have dec: "sample_decode (the (sample_encode (?d\<lparr>cfg_enabled := b\<rparr>) ?w)) = Some (sample_shadow b, ?w)"
    by (simp add: sample_decode_def sample_encode_def id)
  let ?cfg = "(from_shadow sample_prims (sample_shadow b))\<lparr>cfg_allow_list := al'\<rparr>"
  have f: "k_encode sample_control = sample_encode" "k_decode sample_control = sample_decode"
    "prims_of (k_env sample_control) = sample_prims" "text_of (k_env sample_control) = sample_text"
    by (simp_all add: sample_control_def sample_env_def)
  have enc: "sample_encode ?d ?w = Some (the (sample_encode ?d ?w))" by (simp add: sample_encode_def)
  have into: "into_engine sample_prims sample_text (sample_shadow b, ?w) = Inr ?cfg"
    using al' by (simp add: into_engine_def)
  have thr: "0 \<le> score_threshold (from_shadow sample_prims (sample_shadow b))"
    "score_threshold (from_shadow sample_prims (sample_shadow b)) \<le> 1"
    by (simp_all add: from_shadow_def sample_shadow_def unwrap_or_def)
  have ok: "0 \<le> score_threshold ?cfg" "score_threshold ?cfg \<le> 1" "new_unknown_entity_keys cn ?d ?cfg = []" for cn
    by (simp_all add: from_shadow_def sample_shadow_def unwrap_or_def new_unknown_entity_keys_def)
  have "merged_config sample_control ?d body = Inr ?cfg"
    unfolding merged_config_def f b(1) option.case json.case al 
    by (subst enc) (simp add: b(2) dec into ok thr del: merge_json.simps)
  moreover have "default_operator ?cfg = OpToken" "entity_operators ?cfg = []" "custom_replacements ?cfg = []"
    by (simp_all add: from_shadow_def sample_shadow_def unwrap_or_def profile_default_operator_def)
  ultimately show ?thesis by blast
qed

lemma sample_put_done:
  assumes "p_config (e_policy e) = engine_config_default sample_prims"
    and m: "merged_config sample_control (engine_config_default sample_prims) body = Inr cfg"
      "default_operator cfg = OpToken" "entity_operators cfg = []" "custom_replacements cfg = []"
  shows "\<exists>s c'. put_config sample_control sample_headers body (sample_ctl e) = (Done s, c')"
proof -
  have c: "ctl_config (sample_ctl e) = engine_config_default sample_prims"
    using assms(1) by (simp add: ctl_config_def config_snapshot_def ctl_engine_def sample_ctl_def sample_app_def)
  have "is_ok (policy_new (k_env sample_control) (with_ml_enabled (live_ml_on (sample_ctl e)) cfg))"
    using m by (simp add: policy_new_def with_ml_enabled_def secret_only_operator_def compile_customs_def Let_def)
  then obtain e' where "set_config (k_env sample_control) (with_ml_enabled (live_ml_on (sample_ctl e)) cfg)
      (ctl_engine (sample_ctl e)) = (Inr (), e')" by (auto simp: set_config_def)
  with m c sample_authed [of e] show ?thesis by (simp add: put_config_def Let_def)
qed

lemma sample_config: "p_config (e_policy e) = engine_config_default sample_prims \<Longrightarrow>
    ctl_config (sample_ctl e) = engine_config_default sample_prims"
  by (simp add: ctl_config_def config_snapshot_def ctl_engine_def sample_ctl_def sample_app_def)



lemma live_switches_witness:
  "\<exists>e0 code c'. engine_new sample_env (engine_config_default sample_prims) = Inr e0
     \<and> ctl_step sample_control sample_headers Reload (sample_ctl e0) = (code, c')
     \<and> is_enabled (ctl_engine c') = is_enabled (ctl_engine (sample_ctl e0)) \<and> live_ml_on c' = live_ml_on (sample_ctl e0)"
proof -
  obtain e0 where e0: "engine_new sample_env (engine_config_default sample_prims) = Inr e0" by (rule sample_engine)
  obtain code c' where st: "ctl_step sample_control sample_headers Reload (sample_ctl e0) = (code, c')" by force
  from live_switches [OF st] e0 st show ?thesis by auto
qed

lemma control_run_safe_witness:
  "\<exists>e0 code c'. engine_new sample_env (engine_config_default sample_prims) = Inr e0
     \<and> ctl_step sample_control sample_headers (ZdrClear True ''c1'') (sample_ctl e0) = (code, c')
     \<and> selections_verified c' \<and> e_secrets (ctl_engine c') = e_secrets e0"
proof -
  obtain e0 where e0: "engine_new sample_env (engine_config_default sample_prims) = Inr e0" by (rule sample_engine)
  obtain code c' where st: "ctl_step sample_control sample_headers (ZdrClear True ''c1'') (sample_ctl e0) = (code, c')" by force
  have "(ctl_moves sample_control)\<^sup>*\<^sup>* (sample_ctl e0) c'" by (rule r_into_rtranclp) (rule ctl_moves [OF st])
  from control_run_safe [OF this] sample_verified [of e0] e0 st show ?thesis
    by (auto simp: ctl_engine_def sample_ctl_def sample_app_def)
qed

lemma reload_never_stale_witness:
  "\<exists>e0 s c'. engine_new sample_env (engine_config_default sample_prims) = Inr e0
     \<and> reload_route sample_control (\<lambda>_. LayerUnreadable []) (\<lambda>_. LayerUnreadable []) sample_headers
          (sample_ctl (set_broker_policy \<lparr>allow = [\<lparr>ba_secret = None, ba_tool = ''*'', ba_pointer = ''*'',
             ba_dest = None, ba_ttl = None\<rparr>]\<rparr> e0)) = (Refused s, c')
     \<and> e_broker_policy (ctl_engine c') = broker_policy_default"
proof -
  obtain e0 where e0: "engine_new sample_env (engine_config_default sample_prims) = Inr e0" by (rule sample_engine)
  let ?c = "sample_ctl (set_broker_policy \<lparr>allow = [\<lparr>ba_secret = None, ba_tool = ''*'', ba_pointer = ''*'',
             ba_dest = None, ba_ttl = None\<rparr>]\<rparr> e0)"
  let ?fs = "\<lambda>_ :: string. LayerUnreadable []"
  have "reload_engine P R A ?fs (ct_layers ?c) = Inl (ReadFailed ''u'')" for P R A
    by (simp add: reload_engine_def merged_value_def layer_paths_def read_layer_def sample_ctl_def)
  then obtain s c' where r: "reload_route sample_control ?fs ?fs sample_headers ?c = (Refused s, c')"
    using sample_authed by (simp add: reload_route_def)
  from reload_never_stale [OF sample_authed r] e0 r show ?thesis by auto
qed

lemma put_grows_allow_list_witness:
  "\<exists>e0 s c'. engine_new sample_env (engine_config_default sample_prims) = Inr e0
     \<and> put_config sample_control sample_headers ''{}'' (sample_ctl e0) = (Done s, c')
     \<and> patterns (cfg_allow_list (ctl_config (sample_ctl e0))) = common_patterns
     \<and> patterns (cfg_allow_list (ctl_config c')) = common_patterns @ common_patterns"
proof -
  let ?d = "engine_config_default sample_prims" and ?w = "wire_of_allow_list (with_common_words sample_prims)"
  obtain e0 where e0: "engine_new sample_env ?d = Inr e0" "p_config (e_policy e0) = ?d"
    by (rule sample_engine) blast
  have en: "cfg_enabled ?d" "cfg_allow_list ?d = with_common_words sample_prims"
    by (simp_all add: engine_config_default_def)
  have j: "k_json sample_control ''{}'' = Some (JObj [])" by (simp add: sample_control_def)
  have m: "merge_json (the (sample_encode ?d ?w)) (JObj []) = the (sample_encode (?d\<lparr>cfg_enabled := True\<rparr>) ?w)"
    using en(1) by (simp add: sample_encode_def)
  from sample_put [OF e0(2) j m] obtain cfg where
    cfg: "merged_config sample_control ?d ''{}'' = Inr cfg" "default_operator cfg = OpToken"
      "entity_operators cfg = []" "custom_replacements cfg = []" by blast
  from sample_put_done [OF e0(2) cfg] obtain s c' where
    p: "put_config sample_control sample_headers ''{}'' (sample_ctl e0) = (Done s, c')" by blast
  have c: "ctl_config (sample_ctl e0) = ?d" using e0(2) by (rule sample_config)
  have id: "map (json_text \<circ> JStr) xs = xs" for xs by (induction xs) (simp_all add: json_text_def)
  have enc: "k_encode sample_control (ctl_config (sample_ctl e0)) (wire_of_allow_list (cfg_allow_list (ctl_config (sample_ctl e0))))
      = Some (the (sample_encode ?d ?w))"
    by (simp add: c en(2) sample_control_def sample_encode_def)
  have dec: "k_decode sample_control (merge_json (the (sample_encode ?d ?w)) (JObj []))
      = Some (sample_shadow True, wire_of_allow_list (cfg_allow_list (ctl_config (sample_ctl e0))))"
    unfolding m c en(2) by (simp add: sample_control_def sample_decode_def sample_encode_def id)
  from put_grows_allow_list [OF p j enc dec] e0(1) p show ?thesis by (simp add: c en(2) common_words_patterns)
qed

end
