(* ===== verification/Proxy_Boot.thy ===== *)
theory Proxy_Boot
  imports Control_Plane State_Files Monitor_Store
begin

text \<open>
  \<open>main.rs\<close> of \<open>sordino-proxy\<close>: from the arguments, the files and the environment to a proxy that serves, the
  background resolution of the registered secrets, and what a graceful stop leaves behind.

  What the operating system answers (binding, writing, opening the ledger, resolving the state directory) and
  the environment are fields of \<open>boot_host\<close>. The steps are in the order of \<open>main\<close>; a \<open>?\<close> of the code is a
  \<open>boot_fault\<close>, after which the process ends without having served.
\<close>

section \<open>Hexadecimal\<close>

definition hex_encode :: "string \<Rightarrow> string" where
  "hex_encode bs = to_hex bs"

text \<open>\<open>u8::from_str_radix(s, 16)\<close>: one leading plus is accepted before at least one digit.\<close>

definition u8_from_hex :: "string \<Rightarrow> nat option" where
  "u8_from_hex s =
     (let ds = (case s of c # r \<Rightarrow> if c = CHR ''+'' \<and> r \<noteq> [] then r else s | [] \<Rightarrow> []);
          v = foldl (\<lambda>v c. v * 16 + the (radix_digit 16 c)) 0 ds
      in if ds = [] \<or> list_ex (\<lambda>c. radix_digit 16 c = None) ds then None
         else if v < 256 then Some v else None)"

text \<open>The slice panics inside a character.\<close>

datatype hex_fault = HexLength nat | HexByte nat | HexPanic nat

fun hex_loop :: "string \<Rightarrow> nat list \<Rightarrow> string \<Rightarrow> hex_fault + string" where
  "hex_loop s [] out = Inr out"
| "hex_loop s (i # is) out =
     (if \<not> is_boundary s (i * 2) \<or> \<not> is_boundary s (i * 2 + 2) then Inl (HexPanic i)
      else case u8_from_hex (slice s (i * 2) (i * 2 + 2)) of
          None \<Rightarrow> Inl (HexByte i)
        | Some v \<Rightarrow> hex_loop s is (out @ [char_of v]))"

definition decode_hex_array :: "nat \<Rightarrow> string \<Rightarrow> hex_fault + string" where
  "decode_hex_array n raw =
     (let s = trim raw in
      if length s \<noteq> n * 2 then Inl (HexLength (length s)) else hex_loop s [0..<n] [])"

section \<open>Starting\<close>

record boot_args =
  ba_port :: "nat option"
  ba_bind :: "string option"
  ba_upstream :: "string option"
  ba_root :: "string option"

record boot_host =
  bh_session_salt :: "string option"
  bh_launch_nonce :: "string option"
  bh_ack_bind :: bool
  bh_env :: "string \<Rightarrow> string option"
  bh_claude_dir :: "string option"
  bh_cwd :: "string option"
  bh_canonical :: "string \<Rightarrow> string option"
  bh_bind :: os_bind
  bh_state_dir :: bool
  bh_ledger_opens :: bool
  bh_selections_path :: "string option"
  bh_io :: boot_io
  bh_publishes :: bool
  bh_pid :: nat
  bh_build :: string
  bh_unix :: nat
  bh_clock :: nat

datatype boot_fault =
    BootConfig config_fault
  | BindRefused
  | BindFailed "bind_fault option"
  | SaltFault hex_fault
  | BootEngine engine_error
  | AdminRule engine_error
  | NoStateDir
  | RevertInvisible

record 'c serving =
  sv_ctl :: "'c control"
  sv_monitor :: monitor
  sv_port :: nat
  sv_nonce :: string
  sv_pending :: "secret_spec list option"

definition resolve_project_root :: "boot_host \<Rightarrow> string option \<Rightarrow> string" where
  "resolve_project_root host explicit =
     (let raw = (case explicit of Some p \<Rightarrow> p
                 | None \<Rightarrow> (case bh_claude_dir host of Some p \<Rightarrow> p | None \<Rightarrow> unwrap_or ''.'' (bh_cwd host)))
      in unwrap_or raw (bh_canonical host raw))"

definition build_engine :: "'c env \<Rightarrow> boot_host \<Rightarrow> engine_config \<Rightarrow> boot_fault + 'c mask_engine" where
  "build_engine W host cfg =
     (case bh_session_salt host of
        Some s \<Rightarrow>
          (case decode_hex_array 16 s of
             Inl f \<Rightarrow> Inl (SaltFault f)
           | Inr sl \<Rightarrow> (case engine_with_salt W cfg sl of Inl e \<Rightarrow> Inl (BootEngine e) | Inr x \<Rightarrow> Inr x))
      | None \<Rightarrow> (case engine_new W cfg of Inl e \<Rightarrow> Inl (BootEngine e) | Inr x \<Rightarrow> Inr x))"

text \<open>A policy that does not compile leaves the default, which denies everything.\<close>

definition install_policy :: "broker_api \<Rightarrow> broker_allow_spec list \<Rightarrow> 'c mask_engine \<Rightarrow> 'c mask_engine" where
  "install_policy B specs e =
     (if specs = [] then e
      else case build_broker_policy B specs of Inr p \<Rightarrow> set_broker_policy p e | Inl _ \<Rightarrow> e)"

text \<open>The engine as it serves, with the control key: the key's own rule is in force before anything else.\<close>

definition arm_engine ::
  "'c control_api \<Rightarrow> boot_host \<Rightarrow> loaded_config \<Rightarrow> boot_fault + string \<times> 'c mask_engine" where
  "arm_engine K host cfg =
     (case build_engine (k_env K) host (lc_engine cfg) of
        Inl f \<Rightarrow> Inl f
      | Inr e0 \<Rightarrow>
          (let e1 = install_policy (k_broker K) (lc_broker_allows cfg) e0; key = control_token (k_env K) e1
           in case set_secret_rules (k_env K) [admin_key_rule key] e1 of
                (Inl err, _) \<Rightarrow> Inl (AdminRule err)
              | (Inr _, e) \<Rightarrow> Inr (key, e)))"

text \<open>The ledger: off, open, or off with a warning; only a missing state directory ends the start.\<close>

definition open_ledger :: "boot_host \<Rightarrow> loaded_config \<Rightarrow> boot_fault + (string \<times> string) list option" where
  "open_ledger host cfg =
     (if \<not> lc_ledger cfg then Inr None
      else if lc_ledger_path cfg = None \<and> \<not> bh_state_dir host then Inl NoStateDir
      else Inr (if bh_ledger_opens host then Some [] else None))"

definition initial_app ::
  "'c control_api \<Rightarrow> boot_host \<Rightarrow> loaded_config \<Rightarrow> string \<Rightarrow> string \<Rightarrow> string \<Rightarrow> (string \<times> string) list option
   \<Rightarrow> zdr_sessions \<times> selections_file \<Rightarrow> 'c mask_engine \<Rightarrow> 'c app_state" where
  "initial_app K host cfg up rt key led sel e =
     (let rz = resolve_targets (k_net K) (bh_env host) (lc_zdr cfg) in
      \<lparr>as_engine = e, as_identity = \<lparr>ai_admin_key = key, ai_project_root = rt\<rparr>, as_upstream_base = up,
       as_targets = rz_targets rz, as_default = rz_default rz, as_sessions = fst sel, as_selections = snd sel,
       as_masking = masking_disabled_new, as_secrets_ready = \<not> list_ex sp_required (lc_secrets cfg),
       as_ledger = led\<rparr>)"

definition boot_state ::
  "'c control_api \<Rightarrow> boot_host \<Rightarrow> (string \<Rightarrow> layer_file) \<Rightarrow> loaded_config \<Rightarrow> string \<Rightarrow> string \<Rightarrow> nat \<Rightarrow> zdr_disk
   \<Rightarrow> (boot_fault + 'c serving) \<times> zdr_disk" where
  "boot_state K host fs cfg up rt port dk =
     (case arm_engine K host cfg of
        Inl f \<Rightarrow> (Inl f, dk)
      | Inr (key, e) \<Rightarrow>
          (case open_ledger host cfg of
             Inl f \<Rightarrow> (Inl f, dk)
           | Inr led \<Rightarrow>
               (let targets = rz_targets (resolve_targets (k_net K) (bh_env host) (lc_zdr cfg));
                    load = load_persisted_selections (bh_selections_path host) (dk_file dk)
                in case reload_zdr_sessions (prims_of (k_env K)) (bh_io host) targets load ([], dk) of
                     (Inl _, _, dk') \<Rightarrow> (Inl RevertInvisible, dk')
                   | (Inr _, sessions, dk') \<Rightarrow>
                       (let app = initial_app K host cfg up rt key led (sessions, dk_file dk') e;
                            ctl = \<lparr>ct_app = app, ct_layers = lc_layers cfg, ct_fs = fs, ct_secrets = [], ct_loads = [],
                                   ct_pushed = []\<rparr>
                        in (Inr \<lparr>sv_ctl = ctl,
                                 sv_monitor = set_local_redactions (local_redaction_pairs (k_env K) (bh_clock host) e) monitor_new,
                                 sv_port = port, sv_nonce = unwrap_or [] (bh_launch_nonce host),
                                 sv_pending = (if lc_secrets cfg = [] then None else Some (lc_secrets cfg))\<rparr>, dk')))))"

text \<open>A number as \<open>format!\<close> prints it.\<close>

fun decimal :: "nat \<Rightarrow> string" where
  "decimal n = (if n < 10 then [char_of (48 + n)] else decimal (n div 10) @ [char_of (48 + n mod 10)])"

declare decimal.simps [simp del]

definition loopback_url :: "nat \<Rightarrow> string" where
  "loopback_url port = ''http://127.0.0.1:'' @ decimal port"

definition published_record :: "boot_host \<Rightarrow> string \<Rightarrow> 'c serving \<Rightarrow> rendezvous" where
  "published_record host addr sv =
     (let app = ct_app (sv_ctl sv) in
      \<lparr>rv_project_root = ai_project_root (as_identity app), rv_port = sv_port sv,
       rv_admin_key = ai_admin_key (as_identity app), rv_salt = hex_encode (snd (session_handle (as_engine app))),
       rv_base_url = loopback_url (sv_port sv), rv_pid = bh_pid host, rv_bind = addr, rv_last_port = sv_port sv,
       rv_build_id = bh_build host, rv_started = bh_unix host, rv_nonce = sv_nonce sv\<rparr>)"

text \<open>\<open>spawn_ml_load\<close>: the load takes its token; its task is one more pending load.\<close>

definition start_load :: "'c control_api \<Rightarrow> ml_config \<Rightarrow> 'c control \<Rightarrow> 'c control" where
  "start_load K want c =
     (if \<not> ml_enabled want then c
      else let e = ctl_engine c; (gen, slot) = ml_begin_load (prims_of (k_env K)) (text_of (k_env K)) want (e_ml e)
           in (with_engine (e\<lparr>e_ml := slot\<rparr>) c)\<lparr>ct_loads := ct_loads c @ [(gen, want)]\<rparr>)"

definition proxy_boot ::
  "'c control_api \<Rightarrow> boot_host \<Rightarrow> boot_args \<Rightarrow> config_layers \<Rightarrow> (string \<Rightarrow> layer_file) \<Rightarrow> zdr_disk \<Rightarrow> rv_dir
   \<Rightarrow> (boot_fault + 'c serving) \<times> zdr_disk \<times> rv_dir" where
  "proxy_boot K host args layers fs dk d =
     (case load_config (prims_of (k_env K)) (text_of (k_env K)) (k_files K) fs layers of
        Inl f \<Rightarrow> (Inl (BootConfig f), dk, d)
      | Inr cfg \<Rightarrow>
          (let static_port = (case ba_port args of Some p \<Rightarrow> Some p | None \<Rightarrow> lc_port cfg);
               addr = unwrap_or (lc_bind cfg) (ba_bind args);
               up = unwrap_or (lc_upstream cfg) (ba_upstream args);
               rt = resolve_project_root host (ba_root args);
               h = project_key (prims_of (k_env K))
           in if \<not> loopback_guard (bh_ack_bind host) addr then (Inl BindRefused, dk, d)
              else case bind_listener (bh_bind host) h d addr static_port rt of
                  Inl f \<Rightarrow> (Inl (BindFailed f), dk, d)
                | Inr port \<Rightarrow>
                    (case boot_state K host fs cfg up rt port dk of
                       (Inl f, dk') \<Rightarrow> (Inl f, dk', d)
                     | (Inr sv, dk') \<Rightarrow>
                         (Inr (sv\<lparr>sv_ctl := start_load K (ml (lc_engine cfg)) (sv_ctl sv)\<rparr>), dk',
                          snd (write_rendezvous h (bh_publishes host) d (published_record host addr sv))))))"

section \<open>Serving\<close>

text \<open>The background task: it runs once, when there is something to resolve.\<close>

definition finish_secrets ::
  "'c control_api \<Rightarrow> (secret_ref \<Rightarrow> provider_error + string) \<Rightarrow> nat \<Rightarrow> 'c serving \<Rightarrow> 'c serving" where
  "finish_secrets K resolve now sv =
     (case sv_pending sv of
        None \<Rightarrow> sv
      | Some specs \<Rightarrow>
          (let c = sv_ctl sv; app = ct_app c;
               ((status, all_ok), e) =
                 resolve_and_install (k_env K) resolve (ai_admin_key (as_identity app)) specs (as_engine app)
           in sv\<lparr>sv_ctl := c\<lparr>ct_app := app\<lparr>as_engine := e, as_secrets_ready := as_secrets_ready app \<or> all_ok\<rparr>,
                              ct_secrets := status\<rparr>,
                 sv_monitor := set_local_redactions (local_redaction_pairs (k_env K) now e) (sv_monitor sv),
                 sv_pending := None\<rparr>))"

text \<open>A graceful stop takes the record away when it is still this proxy's.\<close>

definition proxy_stop :: "(string \<Rightarrow> string) \<Rightarrow> boot_host \<Rightarrow> bool \<Rightarrow> 'c serving \<Rightarrow> rv_dir \<Rightarrow> rv_dir" where
  "proxy_stop h host ok sv d =
     snd (rendezvous_remove_if_owned h ok d (ai_project_root (as_identity (ct_app (sv_ctl sv)))) (sv_nonce sv) (bh_pid host))"

end
