(* ===== verification/Proxy_Launch.thy ===== *)
theory Proxy_Launch
  imports Proxy_Boot
begin

text \<open>
  The launcher of \<open>sordino-hooks\<close> (\<open>main.rs\<close>: \<open>ensure_up\<close>, \<open>launch_proxy\<close>, \<open>wait_for_live\<close>,
  \<open>proxy_identity\<close>, \<open>launch_failure_diag\<close>): adopt the live proxy of a project, replace one of an older build,
  or spawn one and wait until it has published itself.

  Other processes move between any two steps, so every look at the world is a view of its own: the rendezvous
  directory, which processes live, and what answers \<open>/healthz\<close> on a port. The random values drawn are arguments.
\<close>

section \<open>Looking at the world\<close>

text \<open>\<open>lv_healthz\<close>: the build id and the nonce header of a successful answer.\<close>

record launch_view =
  lv_dir :: rv_dir
  lv_alive :: "nat \<Rightarrow> bool"
  lv_healthz :: "nat \<Rightarrow> (string \<times> string) option"

text \<open>The record of a proxy that is alive and whose listener is the process that wrote the record.\<close>

definition identified :: "(string \<Rightarrow> string) \<Rightarrow> launch_view \<Rightarrow> string \<Rightarrow> (nat \<times> rendezvous \<times> string) option" where
  "identified h v rt =
     (case live_port h (lv_alive v) (lv_dir v) rt of
        None \<Rightarrow> None
      | Some (port, rec) \<Rightarrow>
          (if rv_nonce rec = [] then None
           else case lv_healthz v port of
               Some (build, n) \<Rightarrow> if n = rv_nonce rec then Some (port, rec, build) else None
             | None \<Rightarrow> None))"

definition stale_build :: "string \<Rightarrow> string \<Rightarrow> bool" where
  "stale_build ours build \<longleftrightarrow> ours \<noteq> ''unknown'' \<and> build \<noteq> ''unknown'' \<and> build \<noteq> ours"

section \<open>Launching\<close>

datatype launch_diag =
    SpawnFailed
  | RunningUnreachable nat nat
  | ExitedWithLog string
  | NoLogOutput

datatype ensure_outcome = Ours nat | Failed launch_diag

datatype launch_error = LockError | NoStateDirectory | LogNotCreated

text \<open>What the launcher does to the world: the process it signals, and what it hands to the one it spawns.\<close>

record launch_acts =
  la_stopped :: "(nat \<times> nat) option"
  la_spawned :: "(string \<times> string) option"

record launch_world =
  lw_first :: launch_view
  lw_after :: rv_dir
  lw_lock :: "unit + bool"
  lw_state_dir :: bool
  lw_log_created :: bool
  lw_spawns :: bool
  lw_polls :: "nat \<Rightarrow> launch_view"
  lw_diag :: launch_view
  lw_log_tail :: "string option"

definition launch_failure_diag :: "(string \<Rightarrow> string) \<Rightarrow> launch_view \<Rightarrow> string option \<Rightarrow> string \<Rightarrow> launch_diag" where
  "launch_failure_diag h v log_tail rt =
     (case live_port h (lv_alive v) (lv_dir v) rt of
        Some (port, rec) \<Rightarrow> RunningUnreachable (rv_pid rec) port
      | None \<Rightarrow>
          (case log_tail of
             Some t \<Rightarrow> if trim t \<noteq> [] then ExitedWithLog t else NoLogOutput
           | None \<Rightarrow> NoLogOutput))"

definition LAUNCH_POLLS :: nat where "LAUNCH_POLLS = 100"

fun wait_loop :: "(string \<Rightarrow> string) \<Rightarrow> string \<Rightarrow> string option \<Rightarrow> launch_view list \<Rightarrow> nat option" where
  "wait_loop h rt expect [] = None"
| "wait_loop h rt expect (v # vs) =
     (case identified h v rt of
        Some (port, rec, _) \<Rightarrow>
          (if (case expect of Some n \<Rightarrow> rv_nonce rec = n | None \<Rightarrow> True) then Some port else wait_loop h rt expect vs)
      | None \<Rightarrow> wait_loop h rt expect vs)"

definition wait_for_live :: "(string \<Rightarrow> string) \<Rightarrow> launch_world \<Rightarrow> string \<Rightarrow> string option \<Rightarrow> ensure_outcome" where
  "wait_for_live h w rt expect =
     (case wait_loop h rt expect (map (lw_polls w) [0..<LAUNCH_POLLS]) of
        Some port \<Rightarrow> Ours port
      | None \<Rightarrow> Failed (launch_failure_diag h (lw_diag w) (lw_log_tail w) rt))"

text \<open>The salt of a record is taken over by its length alone.\<close>

definition launch_salt :: "(string \<Rightarrow> string) \<Rightarrow> rv_dir \<Rightarrow> string \<Rightarrow> string \<Rightarrow> string" where
  "launch_salt h d rt fresh_salt =
     (case read_rendezvous h d rt of Some rec \<Rightarrow> if length (rv_salt rec) = 32 then rv_salt rec else fresh_salt | None \<Rightarrow> fresh_salt)"

definition launch_proxy ::
  "(string \<Rightarrow> string) \<Rightarrow> launch_world \<Rightarrow> string \<Rightarrow> string \<Rightarrow> string \<Rightarrow> (launch_error + ensure_outcome) \<times> (string \<times> string) option" where
  "launch_proxy h w rt fresh_nonce fresh_salt =
     (let salt = launch_salt h (lw_after w) rt fresh_salt in
      case lw_lock w of
        Inl _ \<Rightarrow> (Inl LockError, None)
      | Inr False \<Rightarrow> (Inr (wait_for_live h w rt None), None)
      | Inr True \<Rightarrow>
          (if \<not> lw_state_dir w then (Inl NoStateDirectory, None)
           else if \<not> lw_log_created w then (Inl LogNotCreated, None)
           else if \<not> lw_spawns w then (Inr (Failed SpawnFailed), None)
           else (Inr (wait_for_live h w rt (Some fresh_nonce)), Some (salt, fresh_nonce))))"

definition ensure_up ::
  "(string \<Rightarrow> string) \<Rightarrow> string \<Rightarrow> launch_world \<Rightarrow> string \<Rightarrow> string \<Rightarrow> string \<Rightarrow> (launch_error + ensure_outcome) \<times> launch_acts" where
  "ensure_up h ours w rt fresh_nonce fresh_salt =
     (case identified h (lw_first w) rt of
        Some (port, rec, build) \<Rightarrow>
          (if \<not> stale_build ours build then (Inr (Ours port), \<lparr>la_stopped = None, la_spawned = None\<rparr>)
           else let (r, spawned) = launch_proxy h w rt fresh_nonce fresh_salt
                in (r, \<lparr>la_stopped = Some (port, rv_pid rec), la_spawned = spawned\<rparr>))
      | None \<Rightarrow>
          (let (r, spawned) = launch_proxy h w rt fresh_nonce fresh_salt
           in (r, \<lparr>la_stopped = None, la_spawned = spawned\<rparr>)))"

end
