(* ===== verification/Request_Frame.thy ===== *)
theory Request_Frame
  imports Openai_Laws Proxy_Routes_Laws Openai_Routes
begin

text \<open>
  Masking a whole request, on any of the three wires, whether it succeeds or stops at an error, leaves the policy, the
  registered secrets, the broker policy and the status of the model slot as they were: \<open>frame\<close> of \<open>Walk_Laws\<close>,
  carried over the walks by one composition rule.
\<close>

named_theorems stays

definition stays :: "policy \<times> secret_set \<times> broker_policy \<times> ml_status \<Rightarrow> 'r \<times> 'c mask_walker \<Rightarrow> bool" where
  "stays f r \<longleftrightarrow> frame (w_engine (snd r)) = f"

lemma stays_pair [stays]: "frame (w_engine w) = f \<Longrightarrow> stays f (r, w)"
  by (simp add: stays_def)

lemma stays_bnd [stays]:
  assumes "stays f r" "\<And>x w. frame (w_engine w) = f \<Longrightarrow> stays f (k x w)"
  shows "stays f (bnd r k)"
  using assms by (cases r; cases "fst r") (auto simp: bnd_def stays_def)

lemma stays_str [stays]:
  assumes "frame (w_engine w) = f"
  shows "stays f (walk_str W today s t w)"
proof (cases "w_collect w")
  case None
  obtain q e where q: "mask_one W today (w_force_disabled w) (t, s) (w_engine w) = (q, e)" by force
  then have "frame e = f"
    using assms mask_frame [of W today t s "w_engine w"] when_disabled_frame [of W t s "w_engine w"]
    by (auto simp: mask_one_def split: if_splits)
  then show ?thesis unfolding stays_def walk_str_mask [OF None] q by (cases q) (simp_all add: absorb_def)
next
  case (Some ls)
  with assms show ?thesis unfolding stays_def walk_str_def by simp
qed

lemma stays_refuse [stays]: "frame (w_engine w) = f \<Longrightarrow> stays f (refuse_hit x v w)"
  by (simp add: refuse_hit_def stays_def split: option.split)

lemma stays_each [stays]:
  assumes "frame (w_engine w) = f" "\<And>x w. frame (w_engine w) = f \<Longrightarrow> stays f (g x w)"
  shows "stays f (walk_each g xs w)"
  using assms(1)
proof (induction xs arbitrary: w)
  case (Cons x xs)
  show ?case unfolding walk_each.simps
    by (intro stays_bnd assms(2) Cons.IH stays_pair) (rule Cons.prems | assumption)+
qed (simp add: stays)

lemma stays_opt [stays]:
  assumes "frame (w_engine w) = f" "\<And>x w. frame (w_engine w) = f \<Longrightarrow> stays f (g x w)"
  shows "stays f (walk_opt g x w)"
  using assms by (cases x) (auto simp: walk_opt_def intro!: stays)

lemma stays_if [stays]: "(b \<Longrightarrow> stays f x) \<Longrightarrow> (\<not> b \<Longrightarrow> stays f y) \<Longrightarrow> stays f (if b then x else y)"
  by simp

section \<open>Values\<close>

lemma stays_unknown [stays]: "frame (w_engine w) = f \<Longrightarrow> stays f (check_unknown_map W m w)"
  by (auto simp: check_unknown_map_def intro!: stays)

lemma stays_schema [stays]: "frame (w_engine w) = f \<Longrightarrow> stays f (walk_schema W v w)"
  by (auto simp: walk_schema_def intro!: stays)

lemma stays_value [stays]:
  "frame (w_engine w) = f \<Longrightarrow> stays f (walk_value W today s v w)"
  "frame (w_engine w) = f \<Longrightarrow> stays f (walk_items W today s xs w)"
  "frame (w_engine w) = f \<Longrightarrow> stays f (walk_members W today s ms w)"
  by (induction W today s v w and W today s xs w and W today s ms w
      rule: walk_value_walk_items_walk_members.induct) (auto intro!: stays)

lemma stays_protocol [stays]:
  "frame (w_engine w) = f \<Longrightarrow> stays f (walk_protocol W today s v w)"
  "frame (w_engine w) = f \<Longrightarrow> stays f (walk_protocol_items W today s xs w)"
  "frame (w_engine w) = f \<Longrightarrow> stays f (walk_protocol_members W today s ms w)"
  by (induction W today s v w and W today s xs w and W today s ms w
      rule: walk_protocol_walk_protocol_items_walk_protocol_members.induct) (auto intro!: stays)

lemma stays_context [stays]: "frame (w_engine w) = f \<Longrightarrow> stays f (context_management W today v w)"
  by (auto simp: context_management_def intro!: stays)

lemma stays_safe [stays]:
  "frame (w_engine w) = f \<Longrightarrow> stays f (walk_safe W today m v w)"
  "frame (w_engine w) = f \<Longrightarrow> stays f (walk_safe_items W today m xs w)"
  "frame (w_engine w) = f \<Longrightarrow> stays f (walk_safe_members W today m b64 ms w)"
  by (induction W today m v w and W today m xs w and W today m b64 ms w
      rule: walk_safe_walk_safe_items_walk_safe_members.induct) (auto intro!: stays split: member_action.split)

lemma stays_carve [stays]:
  "frame (w_engine w) = f \<Longrightarrow> stays f (carve_value P W today s v w)"
  "frame (w_engine w) = f \<Longrightarrow> stays f (carve_items P W today s xs w)"
  "frame (w_engine w) = f \<Longrightarrow> stays f (carve_members P W today s b64 ms w)"
  by (induction P W today s v w and P W today s xs w and P W today s b64 ms w
      rule: carve_value_carve_items_carve_members.induct) (auto intro!: stays)

lemma stays_carve_map [stays]: "frame (w_engine w) = f \<Longrightarrow> stays f (carve_map P W today s m w)"
  by (auto simp: carve_map_def intro!: stays)

section \<open>The three wires\<close>

lemma stays_image [stays]: "frame (w_engine w) = f \<Longrightarrow> stays f (walk_image W today s x w)"
  by (auto simp: walk_image_def intro!: stays split: image_source.split)

lemma stays_document [stays]: "frame (w_engine w) = f \<Longrightarrow> stays f (walk_document W today s x w)"
  by (auto simp: walk_document_def intro!: stays split: document_source.split)

lemma stays_result_block [stays]: "frame (w_engine w) = f \<Longrightarrow> stays f (walk_result_block W today x w)"
  by (auto simp: walk_result_block_def intro!: stays split: tool_result_block.split)

lemma stays_tool_result [stays]: "frame (w_engine w) = f \<Longrightarrow> stays f (walk_tool_result W today x w)"
  by (auto simp: walk_tool_result_def intro!: stays split: tool_result_content.split)

lemma stays_block [stays]: "frame (w_engine w) = f \<Longrightarrow> stays f (walk_block W today role x w)"
  by (auto simp: walk_block_def intro!: stays split: content_block.split)

lemma stays_system_block [stays]: "frame (w_engine w) = f \<Longrightarrow> stays f (walk_system_block W today x w)"
  by (auto simp: walk_system_block_def intro!: stays)

lemma stays_system [stays]: "frame (w_engine w) = f \<Longrightarrow> stays f (walk_system W today x w)"
  by (auto simp: walk_system_def intro!: stays split: system_content.split)

lemma stays_message [stays]: "frame (w_engine w) = f \<Longrightarrow> stays f (walk_message W today x w)"
  by (auto simp: walk_message_def intro!: stays)

lemma stays_tool [stays]: "frame (w_engine w) = f \<Longrightarrow> stays f (walk_tool W today x w)"
  by (auto simp: walk_tool_def intro!: stays)

lemma stays_output_config [stays]: "frame (w_engine w) = f \<Longrightarrow> stays f (walk_output_config W K x w)"
  by (auto simp: walk_output_config_def intro!: stays split: option.split)

lemma stays_metadata_member [stays]: "frame (w_engine w) = f \<Longrightarrow> stays f (walk_metadata_member W today x w)"
  by (auto simp: walk_metadata_member_def intro!: stays)

lemma stays_metadata [stays]: "frame (w_engine w) = f \<Longrightarrow> stays f (walk_metadata W today x w)"
  by (auto simp: walk_metadata_def intro!: stays split: json.split)

lemma stays_request [stays]: "frame (w_engine w) = f \<Longrightarrow> stays f (walk_request W K today x w)"
  by (auto simp: walk_request_def intro!: stays)

lemma stays_chat_part [stays]: "frame (w_engine w) = f \<Longrightarrow> stays f (walk_chat_part W today s x w)"
  by (auto simp: walk_chat_part_def intro!: stays split: chat_part.split)

lemma stays_chat_content [stays]: "frame (w_engine w) = f \<Longrightarrow> stays f (walk_chat_content W today s x w)"
  by (auto simp: walk_chat_content_def intro!: stays split: chat_content.split)

lemma stays_chat_call [stays]: "frame (w_engine w) = f \<Longrightarrow> stays f (walk_chat_call W today x w)"
  by (auto simp: walk_chat_call_def intro!: stays)

lemma stays_chat_message [stays]: "frame (w_engine w) = f \<Longrightarrow> stays f (walk_chat_message W today x w)"
  by (auto simp: walk_chat_message_def Let_def intro!: stays)

lemma stays_chat_request [stays]: "frame (w_engine w) = f \<Longrightarrow> stays f (walk_chat_request W K today x w)"
  by (auto simp: walk_chat_request_def Let_def intro!: stays)

lemma stays_resp_part [stays]: "frame (w_engine w) = f \<Longrightarrow> stays f (walk_resp_part W today s x w)"
  by (auto simp: walk_resp_part_def intro!: stays split: resp_part.split)

lemma stays_resp_content [stays]: "frame (w_engine w) = f \<Longrightarrow> stays f (walk_resp_content W today s x w)"
  by (auto simp: walk_resp_content_def intro!: stays split: resp_content.split)

lemma stays_resp_message [stays]: "frame (w_engine w) = f \<Longrightarrow> stays f (walk_resp_message W today x w)"
  by (auto simp: walk_resp_message_def Let_def intro!: stays)

lemma stays_resp_call [stays]: "frame (w_engine w) = f \<Longrightarrow> stays f (walk_resp_call W today x w)"
  by (auto simp: walk_resp_call_def intro!: stays)

lemma stays_resp_output [stays]: "frame (w_engine w) = f \<Longrightarrow> stays f (walk_resp_output W today x w)"
  by (auto simp: walk_resp_output_def intro!: stays)

lemma stays_resp_item [stays]: "frame (w_engine w) = f \<Longrightarrow> stays f (walk_resp_item W today x w)"
  by (auto simp: walk_resp_item_def intro!: stays split: resp_item.split)

lemma stays_resp_input [stays]: "frame (w_engine w) = f \<Longrightarrow> stays f (walk_resp_input W today x w)"
  by (auto simp: walk_resp_input_def intro!: stays split: resp_input.split)

lemma stays_resp_request [stays]: "frame (w_engine w) = f \<Longrightarrow> stays f (walk_resp_request W today x w)"
  by (auto simp: walk_resp_request_def intro!: stays)

section \<open>Whole bodies\<close>

lemma prewarm_frame [simp]: "frame (prewarm_batch W today ls e) = frame e"
  by (simp add: prewarm_batch_def Let_def split: option.split prod.split list.split sum.split)

lemma walker_engine [simp]: "w_engine (walker_new force ls e) = e"
  by (simp add: walker_new_def)

lemma staysD: "stays f r \<Longrightarrow> r = (x, w) \<Longrightarrow> frame (w_engine w) = f"
  by (simp add: stays_def)

lemma prewarm_request_frame [simp]: "frame (prewarm_request W K today rq e) = frame e"
  by (simp add: prewarm_request_def split: sum.split prod.split option.split)

lemma mask_request_frame: "frame (snd (mask_request_inner W K today body force e)) = frame e"
  by (auto simp: mask_request_inner_def Let_def split: option.split sum.split prod.split
      dest!: staysD [OF stays_request [OF refl]] staysD [OF stays_safe(1) [OF refl]])

lemma chat_prewarm_frame: "chat_prewarm W K today rq e = (rq', e') \<Longrightarrow> frame e' = frame e"
  by (auto simp: chat_prewarm_def split: if_splits sum.splits prod.splits option.splits)

lemma chat_mask_frame: "frame (snd (chat_mask_request_inner W K today body force e)) = frame e"
  by (auto simp: chat_mask_request_inner_def Let_def split: option.split sum.split prod.split
      dest!: staysD [OF stays_chat_request [OF refl]] chat_prewarm_frame)

lemma resp_prewarm_frame [simp]: "frame (resp_prewarm W today rq e) = frame e"
  by (simp add: resp_prewarm_def split: sum.split prod.split option.split)

lemma resp_mask_frame: "frame (snd (resp_mask_request_inner W K today body force e)) = frame e"
  by (auto simp: resp_mask_request_inner_def Let_def split: option.split sum.split prod.split
      dest!: staysD [OF stays_resp_request [OF refl]])

end
