(* ===== verification/Boot_Laws.thy ===== *)
theory Boot_Laws
  imports Proxy_Launch Request_Frame Control_Laws Secret_Laws State_Laws
begin

text \<open>
  What holds of the start of the proxy, of what it does while it serves, and of the launcher around it: a failed
  start publishes nothing, a served proxy is armed before its first request, intake opens only on every required
  secret, a project's tokens survive a crash of its proxy and not its graceful stop, and the launcher adopts only
  a listener that answered as the process that wrote the record.
\<close>

section \<open>Hexadecimal\<close>

lemma hex_digit_radix: "n < 16 \<Longrightarrow> radix_digit 16 (hex_digit n) = Some n"
proof -
  assume "n < 16"
  then have "n \<in> set [0..<16]" by simp
  then show ?thesis
    by (simp add: upt_rec numeral_eq_Suc) (elim disjE; simp; code_simp)
qed

lemma hex_digit_ascii: "n < 16 \<Longrightarrow> is_lower_hex (hex_digit n)"
  using to_hex_lower_hex [of "[char_of n]"] by (simp add: to_hex_def ord_char_of)

lemma u8_round_trip: "u8_from_hex [hex_digit (ord b div 16), hex_digit (ord b mod 16)] = Some (ord b)"
proof -
  have b: "ord b div 16 < 16" "ord b mod 16 < 16"
    using ord_less_256 [of b] by (simp_all add: less_mult_imp_div_less)
  have p: "hex_digit (ord b div 16) \<noteq> CHR ''+''" using hex_digit_ascii [OF b(1)] by (auto simp: ascii_defs ord_def)
  from b p show ?thesis
    by (simp add: u8_from_hex_def hex_digit_radix ord_less_256 mult.commute [of _ 16])
qed

lemma lower_hex_plain: "is_lower_hex c \<Longrightarrow> is_ascii c \<and> \<not> is_cont c \<and> \<not> is_ws_char [c]"
  by (auto simp: ascii_defs is_ascii_def is_cont_def is_ws_char_def)

lemma trim_plain:
  assumes "list_all is_lower_hex s"
  shows "trim s = s"
proof -
  have u: "utf8_chars s = map (\<lambda>c. [c]) s"
    using assms by (intro utf8_chars_ascii) (auto simp: list_all_iff dest: lower_hex_plain)
  have d: "dropWhile is_ws_char (map (\<lambda>c. [c]) t) = map (\<lambda>c. [c]) t" if "set t \<subseteq> set s" for t
    using that assms by (cases t) (auto simp: list_all_iff dest: lower_hex_plain)
  have c: "concat (map (\<lambda>c. [c]) t) = t" for t :: string by (induction t) simp_all
  show ?thesis using d [of s] d [of "rev s"] by (simp add: trim_def trim_start_def trim_end_def u c rev_map [symmetric])
qed

lemma hex_loop_step:
  assumes "list_all is_lower_hex s" "length s = 2 * n" "i < n" "slice s (2 * i) (2 * i + 2) = x"
    "u8_from_hex x = Some v"
  shows "hex_loop s (i # is) out = hex_loop s is (out @ [char_of v])"
proof -
  have "is_boundary s j" if "j \<le> length s" for j
    using that assms(1) by (cases "j = length s") (auto simp: is_boundary_def list_all_length dest!: spec [of _ j] lower_hex_plain)
  with assms show ?thesis by (simp add: mult.commute)
qed

lemma hex_slice:
  assumes "i < length bs"
  shows "slice (to_hex bs) (2 * i) (2 * i + 2) = [hex_digit (ord (bs ! i) div 16), hex_digit (ord (bs ! i) mod 16)]"
proof -
  have "to_hex bs = to_hex (take i bs) @ to_hex [bs ! i] @ to_hex (drop (Suc i) bs)"
    by (subst id_take_nth_drop [OF assms]) (simp add: to_hex_def)
  moreover have "length (to_hex (take i bs)) = 2 * i" using assms by simp
  ultimately show ?thesis by (simp add: slice_def to_hex_def numeral_2_eq_2)
qed

lemma hex_loop_all:
  assumes "i \<le> length bs"
  shows "hex_loop (to_hex bs) [i..<length bs] (take i bs) = Inr bs"
  using assms
proof (induction "length bs - i" arbitrary: i)
  case (Suc k)
  then have i: "i < length bs" by simp
  have "hex_loop (to_hex bs) (i # [Suc i..<length bs]) (take i bs)
      = hex_loop (to_hex bs) [Suc i..<length bs] (take i bs @ [char_of (ord (bs ! i))])"
    by (rule hex_loop_step [OF to_hex_lower_hex _ i hex_slice [OF i] u8_round_trip]) simp
  also have "\<dots> = Inr bs" using Suc(1) [of "Suc i"] Suc(2) i by (simp add: char_of_ord take_Suc_conv_app_nth)
  finally show ?case using i by (simp add: upt_rec [of i])
qed simp

lemma hex_round_trip: "length bs = n \<Longrightarrow> decode_hex_array n (hex_encode bs) = Inr bs"
  using hex_loop_all [of 0 bs] by (simp add: decode_hex_array_def hex_encode_def trim_plain [OF to_hex_lower_hex] mult.commute)

lemma hex_loop_length: "hex_loop s is out = Inr r \<Longrightarrow> length r = length out + length is"
  by (induction s "is" out rule: hex_loop.induct) (auto split: if_splits option.splits)

lemma decode_length: "decode_hex_array n s = Inr r \<Longrightarrow> length r = n"
  by (auto simp: decode_hex_array_def Let_def split: if_splits dest: hex_loop_length)

section \<open>What a start leaves\<close>

lemma intern_locals_keys:
  "intern_locals P cs st = (r, st') \<Longrightarrow> salt st' = salt st \<and> session_key st' = session_key st"
proof (induction cs arbitrary: st)
  case (Cons c cs)
  have i: "salt s' = salt st \<and> session_key s' = session_key st" if "intern_local P n p st = (q, s')" for n p q s'
    using that insert_salt returning_snd by (metis intern_local_def)
  from Cons show ?case by (auto split: if_splits sum.splits prod.splits dest!: i)
qed simp

lemma rules_keep_keys:
  "set_secret_rules W rs e = (r, e') \<Longrightarrow>
     salt (e_store e') = salt (e_store e) \<and> session_key (e_store e') = session_key (e_store e)
     \<and> e_policy e' = e_policy e \<and> e_broker_policy e' = e_broker_policy e \<and> e_ml e' = e_ml e"
  by (auto simp: set_secret_rules_def split: sum.splits prod.splits dest: intern_locals_keys)

lemma control_token_cong: "session_key (e_store e') = session_key (e_store e) \<Longrightarrow> control_token W e' = control_token W e"
  by (simp add: control_token_def)

lemma proxy_boot_Inl: "proxy_boot K host args layers fs dk d = (Inl f, dk', d') \<Longrightarrow> d' = d"
  by (auto simp: proxy_boot_def Let_def split: sum.splits if_splits prod.splits)

definition boot_port :: "boot_args \<Rightarrow> loaded_config \<Rightarrow> nat option" where
  "boot_port args cfg = (case ba_port args of Some p \<Rightarrow> Some p | None \<Rightarrow> lc_port cfg)"

lemma proxy_boot_Inr:
  assumes "proxy_boot K host args layers fs dk d = (Inr sv, dk', d')"
  obtains cfg sv0 where
    "load_config (prims_of (k_env K)) (text_of (k_env K)) (k_files K) fs layers = Inr cfg"
    "loopback_guard (bh_ack_bind host) (unwrap_or (lc_bind cfg) (ba_bind args))"
    "bind_listener (bh_bind host) (project_key (prims_of (k_env K))) d (unwrap_or (lc_bind cfg) (ba_bind args))
       (boot_port args cfg) (resolve_project_root host (ba_root args)) = Inr (sv_port sv0)"
    "boot_state K host fs cfg (unwrap_or (lc_upstream cfg) (ba_upstream args)) (resolve_project_root host (ba_root args))
       (sv_port sv0) dk = (Inr sv0, dk')"
    "sv = sv0\<lparr>sv_ctl := start_load K (ml (lc_engine cfg)) (sv_ctl sv0)\<rparr>"
    "d' = snd (write_rendezvous (project_key (prims_of (k_env K))) (bh_publishes host) d
       (published_record host (unwrap_or (lc_bind cfg) (ba_bind args)) sv0))"
proof -
  have p: "sv_port sv0 = port" if "boot_state K host fs cfg up rt port dk = (Inr sv0, dk')" for sv0 cfg up rt port
    using that by (auto simp: boot_state_def Let_def split: sum.splits prod.splits)
  from assms show thesis
    by (auto simp: proxy_boot_def Let_def boot_port_def [symmetric] split: sum.splits if_splits prod.splits
        intro!: that dest: p)
qed

lemma boot_state_Inr:
  assumes "boot_state K host fs cfg up rt port dk = (Inr sv, dk')"
  obtains e led outs sessions where
    "arm_engine K host cfg = Inr (ai_admin_key (as_identity (ct_app (sv_ctl sv))), e)"
    "reload_zdr_sessions (prims_of (k_env K)) (bh_io host) (rz_targets (resolve_targets (k_net K) (bh_env host) (lc_zdr cfg)))
       (load_persisted_selections (bh_selections_path host) (dk_file dk)) ([], dk) = (Inr outs, sessions, dk')"
    "ct_app (sv_ctl sv) = initial_app K host cfg up rt (ai_admin_key (as_identity (ct_app (sv_ctl sv)))) led
       (sessions, dk_file dk') e"
    "sv_pending sv = (if lc_secrets cfg = [] then None else Some (lc_secrets cfg))"
    "sv_nonce sv = unwrap_or [] (bh_launch_nonce host)"
  using assms
  by (auto simp: boot_state_def Let_def initial_app_def split: sum.splits prod.splits intro!: that)

text \<open>The rule of the control key is in force: masked on the wire, never given to a tool.\<close>

definition armed :: "string \<Rightarrow> 'c mask_engine \<Rightarrow> bool" where
  "armed key e \<longleftrightarrow>
     key \<noteq> [] \<and> (\<exists>c\<in>set (ss_compiled (e_secrets e)).
       cs_name c = RESERVED_NONDEREF_SECRET \<and> cs_value c = key \<and> cs_operator c = OpLocal)"

lemma armed_cong: "e_secrets e' = e_secrets e \<Longrightarrow> armed key e' = armed key e"
  by (simp add: armed_def)

lemma rules_armed:
  assumes "set_secret_rules W rs e = (Inr u, e')" "admin_key_rule key \<in> set rs"
  shows "armed key e'"
proof -
  from set_secret_rules_Inr [OF assms(1)] assms(2) obtain c
    where "c \<in> set (ss_compiled (e_secrets e'))" "compiled_from (prims_of W) (admin_key_rule key) c"
    by (metis in_set_conv_nth list_all2_conv_all_nth)
  then show ?thesis unfolding armed_def
    by (intro conjI bexI [of _ c]) (simp_all add: compiled_from_def admin_key_rule_def)
qed

lemma install_policy_keeps [simp]:
  "e_store (install_policy B specs e) = e_store e" "e_policy (install_policy B specs e) = e_policy e"
  by (auto simp: install_policy_def set_broker_policy_def split: sum.splits)

lemma install_policy_policy:
  "e_broker_policy e = broker_policy_default \<Longrightarrow>
     e_broker_policy (install_policy B specs e) = broker_policy_default
     \<or> build_broker_policy B specs = Inr (e_broker_policy (install_policy B specs e))"
  by (auto simp: install_policy_def set_broker_policy_def split: sum.splits)

lemma arm_engine_Inr:
  assumes "arm_engine K host cfg = Inr (key, e)"
  obtains e0 where "build_engine (k_env K) host (lc_engine cfg) = Inr e0"
    "key = control_token (k_env K) e" "armed key e" "salt (e_store e) = salt (e_store e0)"
    "e_broker_policy e = e_broker_policy (install_policy (k_broker K) (lc_broker_allows cfg) e0)"
proof -
  from assms obtain e0 u where b: "build_engine (k_env K) host (lc_engine cfg) = Inr e0"
    and s: "set_secret_rules (k_env K) [admin_key_rule key] (install_policy (k_broker K) (lc_broker_allows cfg) e0) = (Inr u, e)"
    and k: "key = control_token (k_env K) (install_policy (k_broker K) (lc_broker_allows cfg) e0)"
    by (auto simp: arm_engine_def Let_def split: sum.splits prod.splits)
  from rules_keep_keys [OF s] control_token_cong [of e] k have "key = control_token (k_env K) e" by metis
  moreover have "armed key e" using rules_armed [OF s] by simp
  ultimately show thesis using b rules_keep_keys [OF s] by (auto intro: that)
qed

lemma reload_loop_verified:
  assumes "reload_loop P targets xs m sv rp oc = (m', sv', rp', oc')"
    "\<And>c t. map_of m c = Some t \<Longrightarrow> verified_target targets t" "map_of m' c = Some t"
  shows "verified_target targets t"
  using assms
proof (induction xs arbitrary: m sv rp oc)
  case (Cons x xs)
  obtain e ok where x: "x = (e, ok)" by fastforce
  show ?case
    by (rule Cons.IH [OF _ _ Cons.prems(3)], use Cons.prems(1) x in \<open>simp only: reload_loop.simps Let_def\<close>)
      (use Cons.prems(2) in \<open>auto simp: validate_cases split: if_splits\<close>)
qed simp

lemma reload_verified:
  assumes "reload_zdr_sessions P io targets load ([], dk) = (r, m, dk')" "map_of m c = Some t"
  shows "verified_target targets t"
  using assms reload_loop_verified [of P targets _ "[]"]
  by (auto simp: reload_zdr_sessions_def Let_def split: persisted_load.splits if_splits prod.splits)

section \<open>What a proxy publishes\<close>

definition app_of :: "'c serving \<Rightarrow> 'c app_state" where
  "app_of sv = ct_app (sv_ctl sv)"

lemma start_load_simps [simp]:
  "as_identity (ct_app (start_load K want c)) = as_identity (ct_app c)"
  "as_targets (ct_app (start_load K want c)) = as_targets (ct_app c)"
  "as_sessions (ct_app (start_load K want c)) = as_sessions (ct_app c)"
  "as_secrets_ready (ct_app (start_load K want c)) = as_secrets_ready (ct_app c)"
  "e_secrets (as_engine (ct_app (start_load K want c))) = e_secrets (as_engine (ct_app c))"
  "e_store (as_engine (ct_app (start_load K want c))) = e_store (as_engine (ct_app c))"
  by (simp_all add: start_load_def Let_def with_engine_def ctl_engine_def split: prod.split)

lemma rendezvous_path_iff [simp]: "rendezvous_path h rt = rendezvous_path h rt' \<longleftrightarrow> h rt = h rt'"
  by (simp add: rendezvous_path_def)

lemma read_written:
  "read_rendezvous h (snd (write_rendezvous h True d r)) rt =
     (if h rt = h (rv_project_root r) then if rv_project_root r = rt then Some r else None else read_rendezvous h d rt)"
  by (auto simp: read_rendezvous_def write_rendezvous_def)

lemma boot_key:
  assumes "proxy_boot K host args layers fs dk d = (Inr sv, dk', d')"
  shows "ai_admin_key (as_identity (ct_app (sv_ctl sv))) = control_token (k_env K) (as_engine (ct_app (sv_ctl sv)))"
proof -
  from assms obtain cfg sv0 where b:
    "boot_state K host fs cfg (unwrap_or (lc_upstream cfg) (ba_upstream args)) (resolve_project_root host (ba_root args))
       (sv_port sv0) dk = (Inr sv0, dk')"
    and sv: "sv = sv0\<lparr>sv_ctl := start_load K (ml (lc_engine cfg)) (sv_ctl sv0)\<rparr>"
    by (rule proxy_boot_Inr) blast
  let ?key = "ai_admin_key (as_identity (ct_app (sv_ctl sv0)))"
  obtain e led sessions where a: "arm_engine K host cfg = Inr (?key, e)"
    and app: "ct_app (sv_ctl sv0) = initial_app K host cfg (unwrap_or (lc_upstream cfg) (ba_upstream args))
       (resolve_project_root host (ba_root args)) ?key led (sessions, dk_file dk') e"
    by (rule boot_state_Inr [OF b]) blast
  have e: "as_engine (ct_app (sv_ctl sv0)) = e" using arg_cong [OF app, of as_engine] by (simp add: initial_app_def Let_def)
  have "?key = control_token (k_env K) e" by (rule arm_engine_Inr [OF a])
  then show ?thesis using e by (simp add: control_token_def sv)
qed

lemma boot_record:
  assumes "proxy_boot K host args layers fs dk d = (Inr sv, dk', d')" "bh_publishes host"
  obtains rec where
    "d' = snd (write_rendezvous (project_key (prims_of (k_env K))) True d rec)"
    "rv_port rec = sv_port sv" "rv_last_port rec = sv_port sv" "rv_pid rec = bh_pid host" "rv_nonce rec = sv_nonce sv"
    "rv_admin_key rec = ai_admin_key (as_identity (app_of sv))"
    "rv_salt rec = hex_encode (salt (e_store (as_engine (app_of sv))))"
    "rv_project_root rec = ai_project_root (as_identity (app_of sv))"
    "read_rendezvous (project_key (prims_of (k_env K))) d' (ai_project_root (as_identity (app_of sv))) = Some rec"
  using assms
  by (elim proxy_boot_Inr) (auto simp: app_of_def published_record_def session_handle_def read_written Let_def intro!: that)

text \<open>
  C11. A start publishes the proxy that serves, or nothing. When any step of the start fails, the rendezvous
  directory is as it was, so no client can be led to a process that never serves. When it succeeds and the
  write does, the record of the project is the record of this proxy: its port, its process and its nonce, the
  control key that its engine derives and answers to, and the salt its tokens are minted with; the record of no
  other project changes.
\<close>

theorem boot_publishes_what_it_serves:
  assumes "proxy_boot K host args layers fs dk d = (r, dk', d')"
  defines "h \<equiv> project_key (prims_of (k_env K))"
  shows "case r of
      Inl _ \<Rightarrow> d' = d
    | Inr sv \<Rightarrow>
        (let app = ct_app (sv_ctl sv); rt = ai_project_root (as_identity app) in
         ai_admin_key (as_identity app) = control_token (k_env K) (as_engine app)
         \<and> (if bh_publishes host
            then (\<exists>rec. read_rendezvous h d' rt = Some rec \<and> rv_port rec = sv_port sv \<and> rv_last_port rec = sv_port sv
                    \<and> rv_pid rec = bh_pid host \<and> rv_nonce rec = sv_nonce sv
                    \<and> rv_admin_key rec = ai_admin_key (as_identity app)
                    \<and> rv_salt rec = hex_encode (salt (e_store (as_engine app))))
                 \<and> (\<forall>other. h other \<noteq> h rt \<longrightarrow> read_rendezvous h d' other = read_rendezvous h d other)
            else d' = d))"
proof (cases r)
  case (Inl f)
  with assms(1) proxy_boot_Inl show ?thesis by fastforce
next
  case (Inr sv)
  note b = assms(1) [unfolded Inr]
  have no: "\<not> bh_publishes host \<Longrightarrow> d' = d"
    by (rule proxy_boot_Inr [OF b]) (simp add: write_rendezvous_def)
  show ?thesis
  proof (cases "bh_publishes host")
    case True
    then obtain rec where rec: "d' = snd (write_rendezvous h True d rec)"
      "rv_port rec = sv_port sv" "rv_last_port rec = sv_port sv" "rv_pid rec = bh_pid host" "rv_nonce rec = sv_nonce sv"
      "rv_admin_key rec = ai_admin_key (as_identity (app_of sv))"
      "rv_salt rec = hex_encode (salt (e_store (as_engine (app_of sv))))"
      "rv_project_root rec = ai_project_root (as_identity (app_of sv))"
      unfolding h_def by (rule boot_record [OF b]) blast
    with True Inr boot_key [OF b] show ?thesis by (simp add: Let_def app_of_def read_written)
  qed (use Inr no boot_key [OF b] in \<open>simp add: Let_def\<close>)
qed

section \<open>Serving\<close>

text \<open>
  What can happen to a proxy that serves: a control operation, the background task, the stages of a request on any
  of the three wires (each a step of its own, since other requests run between them), and the end of a model load.
\<close>

definition with_app :: "'c app_state \<Rightarrow> 'c serving \<Rightarrow> 'c serving" where
  "with_app st sv = sv\<lparr>sv_ctl := (sv_ctl sv)\<lparr>ct_app := st\<rparr>\<rparr>"

record wires =
  ws_messages :: wire_api
  ws_chat :: chat_api
  ws_responses :: responses_api

inductive serving_moves ::
  "'c control_api \<Rightarrow> wires \<Rightarrow> (secret_ref \<Rightarrow> provider_error + string) \<Rightarrow> 'c serving \<Rightarrow> 'c serving \<Rightarrow> bool"
  for K X resolve where
  control: "ctl_step K hm op (sv_ctl sv) = (code, c') \<Longrightarrow> serving_moves K X resolve sv (sv\<lparr>sv_ctl := c'\<rparr>)"
| resolved: "serving_moves K X resolve sv (finish_secrets K resolve now sv)"
| entry: "intake_entry (k_net K) now rq conv (app_of sv) = (r1, st) \<Longrightarrow> serving_moves K X resolve sv (with_app st sv)"
| masking: "mask_body (k_env K) (ws_messages X) today body force (app_of sv) = (r2, st)
    \<Longrightarrow> serving_moves K X resolve sv (with_app st sv)"
| sending: "send_upstream (k_env K) (k_net K) hm body path pinned (app_of sv) = (r3, st)
    \<Longrightarrow> serving_moves K X resolve sv (with_app st sv)"
| entry_openai: "openai_entry (k_net K) now rq conv (app_of sv) = (r4, st) \<Longrightarrow> serving_moves K X resolve sv (with_app st sv)"
| masking_chat: "openai_mask_body (chat_mask_request_inner (k_env K) (ws_chat X) today) body force (app_of sv) = (r5, st)
    \<Longrightarrow> serving_moves K X resolve sv (with_app st sv)"
| masking_responses:
    "openai_mask_body (resp_mask_request_inner (k_env K) (ws_responses X) today) body force (app_of sv) = (r6, st)
    \<Longrightarrow> serving_moves K X resolve sv (with_app st sv)"
| relaying: "passthrough_route (k_env K) (k_net K) rq (app_of sv) = (r7, st) \<Longrightarrow> serving_moves K X resolve sv (with_app st sv)"
| model_ready: "e = as_engine (app_of sv)
    \<Longrightarrow> serving_moves K X resolve sv (with_app ((app_of sv)\<lparr>as_engine :=
         e\<lparr>e_ml := ml_set_ready (prims_of (k_env K)) (text_of (k_env K)) gen rec (e_ml e)\<rparr>\<rparr>) sv)"
| model_failed: "e = as_engine (app_of sv)
    \<Longrightarrow> serving_moves K X resolve sv (with_app ((app_of sv)\<lparr>as_engine :=
         e\<lparr>e_ml := ml_set_failed (prims_of (k_env K)) (text_of (k_env K)) gen why (e_ml e)\<rparr>\<rparr>) sv)"

text \<open>What none of them but the background task touches.\<close>

definition trust_of :: "'c app_state \<Rightarrow> secret_set \<times> app_identity \<times> (string \<times> zdr_target) list \<times> bool" where
  "trust_of st = (e_secrets (as_engine st), as_identity st, as_targets st, as_secrets_ready st)"

lemma intake_trust: "intake_entry N now rq conv st = (r, st') \<Longrightarrow> trust_of st' = trust_of st \<and> as_sessions st' = as_sessions st"
  by (auto simp: intake_entry_def trust_of_def Let_def split: option.splits sum.splits prod.splits)

lemma openai_trust: "openai_entry N now rq conv st = (r, st') \<Longrightarrow> trust_of st' = trust_of st \<and> as_sessions st' = as_sessions st"
  by (auto simp: openai_entry_def trust_of_def Let_def split: option.splits sum.splits prod.splits pinned_mode.splits)

lemma mask_trust:
  assumes "mask_body W Wk today body force st = (r, st')"
  shows "trust_of st' = trust_of st \<and> as_sessions st' = as_sessions st"
proof -
  obtain q e where m: "mask_request_inner W Wk today body force (as_engine st) = (q, e)" by force
  then have "(if force then mask_request_disabled W Wk today body (as_engine st)
      else mask_request W Wk today body (as_engine st)) = (q, e)"
    by (cases force) (simp_all add: mask_request_def mask_request_disabled_def)
  moreover have "frame e = frame (as_engine st)" using mask_request_frame m by (metis snd_conv)
  ultimately show ?thesis using assms
    by (auto simp: mask_body_def trust_of_def frame_def Let_def split: sum.splits)
qed

lemma openai_mask_trust:
  assumes "openai_mask_body f body force st = (r, st')" "frame (snd (f body force (as_engine st))) = frame (as_engine st)"
  shows "trust_of st' = trust_of st \<and> as_sessions st' = as_sessions st"
  using assms by (auto simp: openai_mask_body_def trust_of_def frame_def Let_def split: sum.splits prod.splits)

lemma send_trust: "send_upstream W N hm body path pinned st = (r, st') \<Longrightarrow> trust_of st' = trust_of st \<and> as_sessions st' = as_sessions st"
  by (auto simp: send_upstream_def trust_of_def Let_def split: if_splits)

lemma relay_trust: "passthrough_route W N rq st = (r, st') \<Longrightarrow> trust_of st' = trust_of st \<and> as_sessions st' = as_sessions st"
  by (auto simp: passthrough_route_def relay_verbatim_def relay_session_def relay_built_def trust_of_def Let_def
      split: option.splits if_splits prod.splits sum.splits)

text \<open>The invariant of a served proxy.\<close>

definition required_armed :: "(secret_ref \<Rightarrow> provider_error + string) \<Rightarrow> secret_spec list \<Rightarrow> 'c mask_engine \<Rightarrow> bool" where
  "required_armed resolve specs e \<longleftrightarrow>
     (\<forall>s\<in>set specs. sp_required s \<longrightarrow>
        (\<exists>sref v. spec_to_ref s = Inr sref \<and> resolve sref = Inr v \<and> registered e (sp_name s) v))"

definition serving_ok ::
  "(secret_ref \<Rightarrow> provider_error + string) \<Rightarrow> secret_spec list \<Rightarrow> app_identity \<Rightarrow> 'c serving \<Rightarrow> bool" where
  "serving_ok resolve specs ident sv \<longleftrightarrow>
     (let st = app_of sv in
      as_identity st = ident \<and> armed (ai_admin_key ident) (as_engine st) \<and> selections_verified (sv_ctl sv)
      \<and> (as_secrets_ready st \<longrightarrow> required_armed resolve specs (as_engine st))
      \<and> (case sv_pending sv of
             Some ss \<Rightarrow> ss = specs \<and> (as_secrets_ready st \<longrightarrow> \<not> list_ex sp_required specs)
           | None \<Rightarrow> True))"

lemma trust_ok:
  assumes "trust_of (app_of sv') = trust_of (app_of sv)" "sv_pending sv' = sv_pending sv"
    "selections_verified (sv_ctl sv) \<Longrightarrow> selections_verified (sv_ctl sv')" "serving_ok resolve specs ident sv"
  shows "serving_ok resolve specs ident sv'"
  using assms
  by (simp add: serving_ok_def trust_of_def Let_def armed_def required_armed_def registered_def split: option.splits)

lemma app_ok:
  assumes "trust_of st = trust_of (app_of sv) \<and> as_sessions st = as_sessions (app_of sv)" "serving_ok resolve specs ident sv"
  shows "serving_ok resolve specs ident (with_app st sv)"
  by (rule trust_ok [OF _ _ _ assms(2)])
    (use assms(1) in \<open>simp_all add: with_app_def app_of_def trust_of_def selections_verified_def\<close>)

lemma control_ok:
  assumes "ctl_step K hm op (sv_ctl sv) = (code, c')" "serving_ok resolve specs ident sv"
  shows "serving_ok resolve specs ident (sv\<lparr>sv_ctl := c'\<rparr>)"
  by (rule trust_ok [OF _ _ _ assms(2)])
    (use ctl_move_kept [OF assms(1)] ctl_move_verified [OF assms(1)]
     in \<open>simp_all add: app_of_def trust_of_def ctl_engine_def\<close>)

lemma install_outcome:
  assumes "resolve_and_install W resolve key specs e = ((status, ok), e')"
  shows "(armed key e' \<or> e_secrets e' = e_secrets e) \<and> (ok \<longrightarrow> required_armed resolve specs e')
    \<and> (ok \<longrightarrow> armed key e')"
proof -
  let ?rules = "admin_key_rule key # List.map_filter (spec_rule (text_of W) resolve) specs"
  have l: "resolve_loop (text_of W) resolve specs ([admin_key_rule key], [], True) =
      (?rules, map (spec_entry (text_of W) resolve) specs,
       \<forall>s\<in>set specs. sp_required s \<longrightarrow> spec_rule (text_of W) resolve s \<noteq> None)"
    by (simp add: resolve_loop_eq)
  obtain q where set: "set_secret_rules W ?rules e = (q, e')" and ok: "ok \<Longrightarrow> is_ok q"
    using assms unfolding resolve_and_install_def l by (auto split: sum.splits prod.splits)
  have "is_ok q \<Longrightarrow> armed key e'" "\<not> is_ok q \<Longrightarrow> e_secrets e' = e_secrets e"
    using rules_armed [of W ?rules e _ e' key] set set_secret_rules_Inl by (cases q; force)+
  moreover have "ok \<Longrightarrow> required_armed resolve specs e'"
    using intake_opens_with_required [of W resolve key specs e status e'] assms by (simp add: required_armed_def)
  ultimately show ?thesis using ok by blast
qed

lemma finish_ok:
  assumes "serving_ok resolve specs ident sv"
  shows "serving_ok resolve specs ident (finish_secrets K resolve now sv)"
proof (cases "sv_pending sv")
  case (Some ss)
  obtain status ok e where r: "resolve_and_install (k_env K) resolve (ai_admin_key ident) specs (as_engine (app_of sv))
      = ((status, ok), e)" by (metis prod.exhaust)
  have s: "ss = specs" "as_identity (app_of sv) = ident" "armed (ai_admin_key ident) (as_engine (app_of sv))"
    "selections_verified (sv_ctl sv)" "as_secrets_ready (app_of sv) \<Longrightarrow> \<not> list_ex sp_required specs"
    using assms Some by (simp_all add: serving_ok_def Let_def)
  have "armed (ai_admin_key ident) e" using install_outcome [OF r] s(3) armed_cong by blast
  moreover have "required_armed resolve specs e" if "as_secrets_ready (app_of sv) \<or> ok"
    using install_outcome [OF r] that s(5) by (auto simp: required_armed_def list_ex_iff)
  ultimately show ?thesis
    using r s Some by (simp add: finish_secrets_def serving_ok_def app_of_def Let_def selections_verified_def)
qed (simp add: finish_secrets_def assms)

lemma serving_step_ok:
  assumes "serving_moves K X resolve sv sv'" "serving_ok resolve specs ident sv"
  shows "serving_ok resolve specs ident sv'"
  using assms(1)
proof cases
  case (control hm op code c')
  with control_ok [OF control(2) assms(2)] show ?thesis by simp
next
  case (resolved now)
  with finish_ok [OF assms(2)] show ?thesis by simp
next
  case (entry now rq conv r1 st)
  with app_ok [OF intake_trust [OF entry(2)] assms(2)] show ?thesis by simp
next
  case (masking today body force r2 st)
  with app_ok [OF mask_trust [OF masking(2)] assms(2)] show ?thesis by simp
next
  case (sending hm body path pinned r3 st)
  with app_ok [OF send_trust [OF sending(2)] assms(2)] show ?thesis by simp
next
  case (entry_openai now rq conv r4 st)
  with app_ok [OF openai_trust [OF entry_openai(2)] assms(2)] show ?thesis by simp
next
  case (masking_chat today body force r5 st)
  with app_ok [OF openai_mask_trust [OF masking_chat(2) chat_mask_frame] assms(2)] show ?thesis by simp
next
  case (masking_responses today body force r6 st)
  with app_ok [OF openai_mask_trust [OF masking_responses(2) resp_mask_frame] assms(2)] show ?thesis by simp
next
  case (relaying rq r7 st)
  with app_ok [OF relay_trust [OF relaying(2)] assms(2)] show ?thesis by simp
next
  case (model_ready e gen rec)
  then show ?thesis using app_ok [OF _ assms(2)] by (simp add: trust_of_def)
next
  case (model_failed e gen why)
  then show ?thesis using app_ok [OF _ assms(2)] by (simp add: trust_of_def)
qed

lemma serving_run_ok:
  "(serving_moves K X resolve)\<^sup>*\<^sup>* sv sv' \<Longrightarrow> serving_ok resolve specs ident sv \<Longrightarrow> serving_ok resolve specs ident sv'"
  by (induction rule: rtranclp_induct) (auto intro: serving_step_ok)

lemma boot_ok:
  assumes "proxy_boot K host args layers fs dk d = (Inr sv, dk', d')"
    "load_config (prims_of (k_env K)) (text_of (k_env K)) (k_files K) fs layers = Inr cfg"
  shows "serving_ok resolve (lc_secrets cfg) (as_identity (app_of sv)) sv"
proof -
  obtain sv0 where b:
    "boot_state K host fs cfg (unwrap_or (lc_upstream cfg) (ba_upstream args)) (resolve_project_root host (ba_root args))
       (sv_port sv0) dk = (Inr sv0, dk')"
    and sv: "sv = sv0\<lparr>sv_ctl := start_load K (ml (lc_engine cfg)) (sv_ctl sv0)\<rparr>"
    using assms by (auto elim: proxy_boot_Inr)
  let ?key = "ai_admin_key (as_identity (ct_app (sv_ctl sv0)))" and ?T = "rz_targets (resolve_targets (k_net K) (bh_env host) (lc_zdr cfg))"
  obtain e led sessions outs where a: "arm_engine K host cfg = Inr (?key, e)"
    and rl: "reload_zdr_sessions (prims_of (k_env K)) (bh_io host) ?T
       (load_persisted_selections (bh_selections_path host) (dk_file dk)) ([], dk) = (Inr outs, sessions, dk')"
    and app: "ct_app (sv_ctl sv0) = initial_app K host cfg (unwrap_or (lc_upstream cfg) (ba_upstream args))
       (resolve_project_root host (ba_root args)) ?key led (sessions, dk_file dk') e"
    and pend: "sv_pending sv0 = (if lc_secrets cfg = [] then None else Some (lc_secrets cfg))"
    by (rule boot_state_Inr [OF b]) blast
  have f: "as_engine (ct_app (sv_ctl sv0)) = e" "as_targets (ct_app (sv_ctl sv0)) = ?T"
    "as_sessions (ct_app (sv_ctl sv0)) = sessions"
    "as_secrets_ready (ct_app (sv_ctl sv0)) = (\<not> list_ex sp_required (lc_secrets cfg))"
    by (subst app, simp add: initial_app_def Let_def)+
  have "armed ?key e" by (rule arm_engine_Inr [OF a])
  moreover have "selections_verified (sv_ctl sv0)"
    unfolding selections_verified_def f
    by (intro allI impI, drule reload_verified [OF rl]) (simp add: verified_target_def split: option.splits)
  moreover have "required_armed resolve (lc_secrets cfg) e'" if "\<not> list_ex sp_required (lc_secrets cfg)" for e'
    using that by (auto simp: required_armed_def list_ex_iff)
  moreover have "required_armed resolve [] e'" for e' by (simp add: required_armed_def)
  moreover have "selections_verified (sv_ctl sv) = selections_verified (sv_ctl sv0)"
    by (simp add: selections_verified_def sv)
  ultimately show ?thesis
    by (auto simp: serving_ok_def app_of_def sv f pend armed_cong [of "as_engine (ct_app (start_load K want c))" "as_engine (ct_app c)" for want c])
qed

text \<open>
  C7. From its start on, whatever it is asked to do, a proxy is armed. After any sequence of control operations,
  request stages on any wire, model loads and the background resolution: the control key of the start is still the
  one that is answered to and is masked as a secret, every pinned conversation names a verified target, and
  no request passes the intake or the relay unless every reference the configuration requires resolved
  to a value that the engine has registered under its name.
\<close>

theorem serving_stays_armed:
  assumes "proxy_boot K host args layers fs dk d = (Inr sv0, dk', d')" "(serving_moves K X resolve)\<^sup>*\<^sup>* sv0 sv"
    "load_config (prims_of (k_env K)) (text_of (k_env K)) (k_files K) fs layers = Inr cfg"
  shows "as_identity (app_of sv) = as_identity (app_of sv0)
    \<and> armed (ai_admin_key (as_identity (app_of sv))) (as_engine (app_of sv))
    \<and> selections_verified (sv_ctl sv)
    \<and> (is_ok (fst (intake_entry (k_net K) now rq conv (app_of sv)))
         \<or> is_ok (fst (openai_entry (k_net K) now rq conv (app_of sv)))
         \<or> is_ok (fst (passthrough_route (k_env K) (k_net K) rq (app_of sv)))
       \<longrightarrow> required_armed resolve (lc_secrets cfg) (as_engine (app_of sv)))"
proof -
  from serving_run_ok [OF assms(2) boot_ok [OF assms(1,3)]]
  have "serving_ok resolve (lc_secrets cfg) (as_identity (app_of sv0)) sv" .
  then show ?thesis
    by (auto simp: serving_ok_def Let_def intake_entry_def openai_entry_def passthrough_route_def secrets_gate_def
        split: if_splits)
qed

section \<open>Between two starts\<close>

lemma build_engine_salt:
  assumes "build_engine W host cfg = Inr e"
  shows "(\<exists>s. bh_session_salt host = Some s \<and> decode_hex_array 16 s = Inr (salt (e_store e)))
    \<or> (bh_session_salt host = None \<and> salt (e_store e) = os_rng (prims_of W) 1)"
  using assms
  by (auto simp: build_engine_def engine_with_salt_def engine_new_def from_parts_def with_salt_def store_new_def
      split: option.splits sum.splits)

lemma boot_salt:
  assumes "proxy_boot K host args layers fs dk d = (Inr sv, dk', d')"
  shows "(\<exists>s. bh_session_salt host = Some s \<and> decode_hex_array 16 s = Inr (salt (e_store (as_engine (app_of sv)))))
    \<or> (bh_session_salt host = None \<and> salt (e_store (as_engine (app_of sv))) = os_rng (prims_of (k_env K)) 1)"
proof -
  from assms obtain cfg sv0 where b:
    "boot_state K host fs cfg (unwrap_or (lc_upstream cfg) (ba_upstream args)) (resolve_project_root host (ba_root args))
       (sv_port sv0) dk = (Inr sv0, dk')"
    and sv: "sv = sv0\<lparr>sv_ctl := start_load K (ml (lc_engine cfg)) (sv_ctl sv0)\<rparr>"
    by (rule proxy_boot_Inr) blast
  obtain key e led sessions where a: "arm_engine K host cfg = Inr (key, e)"
    and app: "ct_app (sv_ctl sv0) = initial_app K host cfg (unwrap_or (lc_upstream cfg) (ba_upstream args))
       (resolve_project_root host (ba_root args)) key led (sessions, dk_file dk') e"
    by (rule boot_state_Inr [OF b]) blast
  obtain e0 where "build_engine (k_env K) host (lc_engine cfg) = Inr e0" "salt (e_store e) = salt (e_store e0)"
    by (rule arm_engine_Inr [OF a]) blast
  with build_engine_salt [of "k_env K" host "lc_engine cfg" e0] show ?thesis
    by (simp add: app_of_def sv app initial_app_def Let_def)
qed

lemma initial_root: "ai_project_root (as_identity (initial_app K host cfg up rt key led sel e)) = rt"
  by (simp add: initial_app_def Let_def)

lemma boot_root:
  "proxy_boot K host args layers fs dk d = (Inr sv, dk', d') \<Longrightarrow>
     ai_project_root (as_identity (app_of sv)) = resolve_project_root host (ba_root args)"
  by (elim proxy_boot_Inr boot_state_Inr) (simp add: app_of_def, metis initial_root)

text \<open>
  C21. The crash of a proxy costs a project neither its tokens nor its port. When the launcher starts the next
  proxy from the record that a proxy left, the new one mints the same token for every value, although its
  random source and its vault are new, and it listens on the same port if that port is free and none is pinned.
\<close>

theorem crash_keeps_tokens:
  fixes K :: "'c control_api" and K2 :: "'c control_api"
  assumes "proxy_boot K host args layers fs dk d = (Inr sv, dk', d')" "bh_publishes host"
    "bh_session_salt host = None \<longrightarrow> length (os_rng (prims_of (k_env K)) 1) = 16"
    "prims_of (k_env K2) = (prims_of (k_env K))\<lparr>os_rng := rng\<rparr>"
    "proxy_boot K2 host2 args2 layers2 fs2 dk2 d' = (Inr sv2, dk2', d2)"
    "resolve_project_root host2 (ba_root args2) = resolve_project_root host (ba_root args)"
    "bh_session_salt host2 = Some (launch_salt (project_key (prims_of (k_env K))) d' (resolve_project_root host (ba_root args)) new)"
  shows "make_token (prims_of (k_env K2)) en plaintext (salt (e_store (as_engine (app_of sv2))))
      = make_token (prims_of (k_env K)) en plaintext (salt (e_store (as_engine (app_of sv))))
    \<and> ((\<forall>cfg. load_config (prims_of (k_env K2)) (text_of (k_env K2)) (k_files K2) fs2 layers2 = Inr cfg \<longrightarrow> boot_port args2 cfg = None)
       \<and> sv_port sv \<noteq> 0 \<and> (\<forall>addr. bh_bind host2 addr (sv_port sv) = Inr (sv_port sv)) \<longrightarrow> sv_port sv2 = sv_port sv)"
proof -
  let ?h = "project_key (prims_of (k_env K))" and ?salt = "salt (e_store (as_engine (app_of sv)))"
  let ?rt = "resolve_project_root host (ba_root args)"
  have rt: "ai_project_root (as_identity (app_of sv)) = ?rt" using boot_root [OF assms(1)] .
  obtain rec where rec: "read_rendezvous ?h d' ?rt = Some rec" "rv_last_port rec = sv_port sv" "rv_salt rec = hex_encode ?salt"
    using boot_record [OF assms(1,2)] rt by metis
  have len: "length ?salt = 16" using boot_salt [OF assms(1)] assms(3) decode_length by auto
  then have "launch_salt ?h d' ?rt new = hex_encode ?salt" using rec by (simp add: launch_salt_def hex_encode_def)
  then have s2: "salt (e_store (as_engine (app_of sv2))) = ?salt"
    using boot_salt [OF assms(5)] assms(7) hex_round_trip [OF len] by auto
  have P: "make_token (prims_of (k_env K2)) en plaintext = make_token (prims_of (k_env K)) en plaintext"
    "project_key (prims_of (k_env K2)) = ?h"
    by (simp_all add: fun_eq_iff make_token_def to_uppercase_def project_key_def assms(4) cong: list.case_cong if_cong)
  have "sv_port sv2 = sv_port sv"
    if "\<forall>cfg. load_config (prims_of (k_env K2)) (text_of (k_env K2)) (k_files K2) fs2 layers2 = Inr cfg \<longrightarrow> boot_port args2 cfg = None"
      "sv_port sv \<noteq> 0" "\<forall>addr. bh_bind host2 addr (sv_port sv) = Inr (sv_port sv)"
    using assms(5)
    by (rule proxy_boot_Inr) (use that rec assms(6) P(2) in \<open>auto simp: bind_listener_def bind_exact_def Let_def\<close>)
  with s2 P(1) show ?thesis by simp
qed

lemma serving_moves_nonce: "(serving_moves K X resolve)\<^sup>*\<^sup>* sv sv' \<Longrightarrow> sv_nonce sv' = sv_nonce sv \<and> sv_port sv' = sv_port sv"
  by (induction rule: rtranclp_induct)
    (auto elim!: serving_moves.cases simp: with_app_def finish_secrets_def Let_def split: option.splits prod.splits)

text \<open>
  C22. The graceful stop of a proxy costs a project both. However long it served, a proxy that stops on a
  signal removes its own record, so the next launch draws a new salt and asks for any free port: what the stop of an
  outdated build is meant to keep, it loses whenever the old proxy finishes before the launcher reads.
\<close>

theorem graceful_stop_forgets:
  assumes "proxy_boot K host args layers fs dk d = (Inr sv0, dk', d')" "bh_publishes host"
    "(serving_moves K X resolve)\<^sup>*\<^sup>* sv0 sv"
  defines "h \<equiv> project_key (prims_of (k_env K))" and "rt \<equiv> resolve_project_root host (ba_root args)"
  shows "read_rendezvous h (proxy_stop h host True sv d') rt = None
    \<and> launch_salt h (proxy_stop h host True sv d') rt new = new
    \<and> bind_listener os h (proxy_stop h host True sv d') addr None rt
        = (case bind_exact os addr 0 of Inl _ \<Rightarrow> Inl None | Inr l \<Rightarrow> Inr l)"
proof -
  have ident: "as_identity (app_of sv) = as_identity (app_of sv0)"
  proof -
    obtain cfg where "load_config (prims_of (k_env K)) (text_of (k_env K)) (k_files K) fs layers = Inr cfg"
      using assms(1) by (rule proxy_boot_Inr)
    from serving_run_ok [OF assms(3) boot_ok [OF assms(1) this]]
    have "serving_ok resolve (lc_secrets cfg) (as_identity (app_of sv0)) sv" .
    then show ?thesis by (simp add: serving_ok_def Let_def)
  qed
  obtain rec where rec: "read_rendezvous h d' rt = Some rec" "rv_pid rec = bh_pid host" "rv_nonce rec = sv_nonce sv"
    using boot_record [OF assms(1,2)] boot_root [OF assms(1)] serving_moves_nonce [OF assms(3)] unfolding h_def rt_def by metis
  have "ai_project_root (as_identity (ct_app (sv_ctl sv))) = rt"
    using boot_root [OF assms(1)] ident by (simp add: app_of_def rt_def)
  then have stop: "proxy_stop h host True sv d' = snd (rendezvous_remove h True d' rt)"
    using rec by (simp add: proxy_stop_def rendezvous_remove_if_owned_def)
  have "map_of (snd (rendezvous_remove h True d' rt)) (rendezvous_path h rt) = None"
    by (simp add: rendezvous_remove_def)
  then have "read_rendezvous h (proxy_stop h host True sv d') rt = None" by (simp add: stop read_rendezvous_def)
  then show ?thesis by (simp add: launch_salt_def bind_listener_def)
qed

section \<open>The launcher\<close>

lemma identified_Some:
  "identified h v rt = Some (port, rec, build) \<longleftrightarrow>
     read_rendezvous h (lv_dir v) rt = Some rec \<and> rv_port rec = port \<and> port \<noteq> 0 \<and> pid_alive (lv_alive v) (rv_pid rec)
     \<and> rv_nonce rec \<noteq> [] \<and> lv_healthz v port = Some (build, rv_nonce rec)"
  by (auto simp: identified_def live_port_def split: option.splits if_splits)

lemma wait_loop_Some:
  "wait_loop h rt expect vs = Some port \<Longrightarrow>
     \<exists>v\<in>set vs. \<exists>rec build. identified h v rt = Some (port, rec, build) \<and> (\<forall>n. expect = Some n \<longrightarrow> rv_nonce rec = n)"
  by (induction vs) (auto split: option.splits if_splits)

lemma spawned_polled:
  assumes "ensure_up h ours w rt n fresh_salt = (Inr (Ours port), acts)" "la_spawned acts = Some (sl, n')"
  obtains i rec build where "n' = n" "identified h (lw_polls w i) rt = Some (port, rec, build)" "rv_nonce rec = n"
proof -
  have "n' = n \<and> wait_for_live h w rt (Some n) = Ours port"
    using assms by (auto simp: ensure_up_def launch_proxy_def Let_def split: option.splits if_splits prod.splits sum.splits bool.splits)
  then have "n' = n" "wait_loop h rt (Some n) (map (lw_polls w) [0..<LAUNCH_POLLS]) = Some port"
    by (auto simp: wait_for_live_def split: option.splits)
  with wait_loop_Some [of h rt "Some n" "map (lw_polls w) [0..<LAUNCH_POLLS]" port] that show thesis by auto
qed

text \<open>
  C20. The port a launch returns is the port of the proxy it spawned. If the launcher spawned a process, no other
  record carries the nonce it drew, and the process it spawned, started with that nonce, became a proxy of the project:
  the port is that proxy's, its process was seen alive, the listener on the port answered with the nonce, and
  the record the launcher trusted gives the control key that proxy answers to.
\<close>

theorem launcher_reaches_its_proxy:
  assumes "ensure_up (project_key (prims_of (k_env K))) ours w rt n fresh_salt = (Inr (Ours port), acts)"
    "la_spawned acts = Some (sl, n')"
    "proxy_boot K host args layers fs dk d = (Inr sv, dk', d')" "bh_publishes host"
    "bh_launch_nonce host = Some n" "resolve_project_root host (ba_root args) = rt"
    "\<And>i r. read_rendezvous (project_key (prims_of (k_env K))) (lv_dir (lw_polls w i)) rt = Some r \<Longrightarrow> rv_nonce r = n
       \<Longrightarrow> lv_dir (lw_polls w i) = d'"
  shows "port = sv_port sv \<and> n' = n
    \<and> (\<exists>i rec build. pid_alive (lv_alive (lw_polls w i)) (bh_pid host) \<and> lv_healthz (lw_polls w i) port = Some (build, n)
         \<and> read_rendezvous (project_key (prims_of (k_env K))) (lv_dir (lw_polls w i)) rt = Some rec
         \<and> rv_admin_key rec = control_token (k_env K) (as_engine (app_of sv)))"
proof -
  let ?h = "project_key (prims_of (k_env K))"
  obtain i rec build where i: "n' = n" "identified ?h (lw_polls w i) rt = Some (port, rec, build)" "rv_nonce rec = n"
    by (rule spawned_polled [OF assms(1,2)])
  then have d: "read_rendezvous ?h d' rt = Some rec" "lv_dir (lw_polls w i) = d'"
    using assms(7) [of i rec] by (simp_all add: identified_Some)
  obtain rec' where "read_rendezvous ?h d' rt = Some rec'" "rv_port rec' = sv_port sv" "rv_pid rec' = bh_pid host"
    "rv_admin_key rec' = ai_admin_key (as_identity (app_of sv))"
    using boot_record [OF assms(3,4)] boot_root [OF assms(3)] assms(6) by metis
  moreover have "ai_admin_key (as_identity (app_of sv)) = control_token (k_env K) (as_engine (app_of sv))"
    using boot_key [OF assms(3)] by (simp add: app_of_def)
  ultimately show ?thesis using i d by (auto simp: identified_Some)
qed

section \<open>Examples\<close>

text \<open>A project with one required secret and no files but the defaults, on a machine where every port is free.\<close>

definition sample_file :: file_config where
  "sample_file =
     \<lparr>fc_port = None, fc_bind = ''localhost'', fc_upstream = ''https://up'', fc_ledger = False, fc_ledger_path = None,
      fc_engine = sample_shadow True, fc_secrets = [sample_spec ''db'' ''PG'' (Some ''hash'') True], fc_broker_allow = [],
      fc_zdr = \<lparr>zdr_section.zs_default = None, zs_target = []\<rparr>\<rparr>"

definition boot_control :: "(cache_key \<Rightarrow> cached_detection list option) control_api" where
  "boot_control =
     sample_control\<lparr>k_files := \<lparr>ca_toml = (\<lambda>_. None), ca_schema = (\<lambda>_. Some sample_file), ca_edit = (\<lambda>_ _. None)\<rparr>\<rparr>"

definition sample_layers :: config_layers where
  "sample_layers = \<lparr>cl_user = ''u'', cl_project = None, cl_local = None\<rparr>"

definition sample_args :: boot_args where
  "sample_args = \<lparr>ba_port = None, ba_bind = None, ba_upstream = None, ba_root = Some ''/p''\<rparr>"

definition sample_disk :: zdr_disk where
  "sample_disk = \<lparr>dk_file = NoFile, dk_reports = [], dk_global = None, dk_quarantined = []\<rparr>"

definition boot_salt_bytes :: string where
  "boot_salt_bytes = ''0123456789abcdef''"

definition sample_boot_host :: "string option \<Rightarrow> boot_host" where
  "sample_boot_host salt_env =
     \<lparr>bh_session_salt = salt_env, bh_launch_nonce = Some ''n1'', bh_ack_bind = True, bh_env = (\<lambda>_. None),
      bh_claude_dir = None, bh_cwd = None, bh_canonical = (\<lambda>_. None), bh_bind = (\<lambda>_ p. Inr (if p = 0 then 4242 else p)),
      bh_state_dir = True, bh_ledger_opens = True, bh_selections_path = None,
      bh_io = \<lparr>io_now_nanos = 7, io_global_ok = True, io_quarantine_ok = True, io_report_ok = (\<lambda>_. True),
                io_rewrite_ok = True, io_clear_ok = True\<rparr>,
      bh_publishes = True, bh_pid = 42, bh_build = ''b1'', bh_unix = 7, bh_clock = 7\<rparr>"

lemma sample_load:
  "\<exists>cfg. load_config sample_prims sample_text (k_files boot_control) (\<lambda>_. LayerAbsent) sample_layers = Inr cfg
     \<and> default_operator (lc_engine cfg) = OpToken \<and> entity_operators (lc_engine cfg) = []
     \<and> custom_replacements (lc_engine cfg) = [] \<and> lc_port cfg = None \<and> lc_broker_allows cfg = [] \<and> \<not> lc_ledger cfg
     \<and> lc_secrets cfg = [sample_spec ''db'' ''PG'' (Some ''hash'') True]"
proof -
  have m: "merged_value (k_files boot_control) (\<lambda>_. LayerAbsent) sample_layers = Inr (TomlTable [])"
    by (simp add: merged_value_def layer_paths_def sample_layers_def read_layer_def)
  have c: "checked_file (k_files boot_control) (TomlTable []) = Inr sample_file"
    by (simp add: checked_file_def validate_no_inline_secret_values_def validate_no_inline_zdr_creds_def toml_get_def
        toml_members_def toml_array_def boot_control_def)
  have a: "build_allow_list sample_prims sample_text (TomlTable []) = Inr (with_common_words sample_prims)"
    by (simp add: build_allow_list_def toml_get_def toml_members_def)
  show ?thesis
    by (simp add: load_config_def m c engine_of_file_def a sample_file_def from_shadow_def sample_shadow_def unwrap_or_def
        profile_default_operator_def)
qed

lemma sample_admin:
  assumes "key \<noteq> []"
  shows "\<exists>e'. set_secret_rules sample_env [admin_key_rule key] e = (Inr (), e')"
proof -
  have "is_ok (compile_secrets (prims_of sample_env) (text_of sample_env) [admin_key_rule key])"
    using assms by (simp add: compile_secrets_def admin_key_rule_def sample_env_def sample_text_def Let_def)
  then obtain cs where cs: "compile_secrets (prims_of sample_env) (text_of sample_env) [admin_key_rule key] = Inr cs"
    by (auto simp: is_ok_def split: sum.splits)
  from compile_secrets_Inr [OF cs] obtain c where "cs = [c]" by (auto simp: list_all2_Cons1)
  moreover have "is_ok (fst (intern_local sample_prims n v st))" for n v st
    by (simp add: intern_local_def Let_def returning_def insert_if_absent_def encrypt_def sample_prims_def is_ok_def)
  ultimately have "is_ok (fst (intern_locals (prims_of sample_env) cs (e_store e)))"
    by (simp add: sample_env_def is_ok_def split: sum.splits prod.splits)
       (metis (no_types, lifting) fst_conv old.sum.simps(5))
  from set_secret_rules_ok [OF cs this] show ?thesis by auto
qed

lemma sample_control_parts [simp]:
  "k_env boot_control = sample_env" "prims_of sample_env = sample_prims" "text_of sample_env = sample_text"
  by (simp_all add: boot_control_def sample_control_def sample_env_def)

lemma sample_boot:
  assumes "salt_env = None \<or> (\<exists>s. salt_env = Some (hex_encode s) \<and> length s = 16)"
  shows "\<exists>sv dk' d'. proxy_boot boot_control (sample_boot_host salt_env) sample_args sample_layers (\<lambda>_. LayerAbsent)
    sample_disk d = (Inr sv, dk', d')"
proof -
  let ?host = "sample_boot_host salt_env"
  obtain cfg where load: "load_config sample_prims sample_text (k_files boot_control) (\<lambda>_. LayerAbsent) sample_layers = Inr cfg"
    and c: "default_operator (lc_engine cfg) = OpToken" "entity_operators (lc_engine cfg) = []"
      "custom_replacements (lc_engine cfg) = []" "lc_port cfg = None" "lc_broker_allows cfg = []" "\<not> lc_ledger cfg"
    using sample_load by blast
  have "is_ok (policy_new sample_env (lc_engine cfg))"
    using c by (simp add: policy_new_def secret_only_operator_def compile_customs_def Let_def)
  then obtain pol where pol: "policy_new sample_env (lc_engine cfg) = Inr pol" by (auto simp: is_ok_def split: sum.splits)
  obtain e0 where e0: "build_engine sample_env ?host (lc_engine cfg) = Inr e0"
    using assms pol hex_round_trip [where n = 16]
    by (auto simp: build_engine_def sample_boot_host_def engine_new_def engine_with_salt_def from_parts_def)
  let ?key = "control_token sample_env e0"
  have "length ?key = 64" by (simp add: control_token_def length_to_hex digest_ok_def [THEN iffD1, OF sample_digest_ok])
  then have "?key \<noteq> []" by auto
  from sample_admin [OF this] obtain e where e: "set_secret_rules sample_env [admin_key_rule ?key] e0 = (Inr (), e)" by blast
  have arm: "arm_engine boot_control ?host cfg = Inr (?key, e)"
    by (simp add: arm_engine_def e0 install_policy_def c e Let_def)
  have led: "open_ledger ?host cfg = Inr None" by (simp add: open_ledger_def c)
  have load0: "load_persisted_selections (bh_selections_path ?host) (dk_file sample_disk) = LoadAbsent"
    by (simp add: load_persisted_selections_def sample_boot_host_def sample_disk_def)
  have st: "\<exists>sv dk'. boot_state boot_control ?host (\<lambda>_. LayerAbsent) cfg up rt port sample_disk = (Inr sv, dk')" for up rt port
    by (simp add: boot_state_def arm led load0 reload_zdr_sessions_def Let_def)
  have "\<exists>port. bind_listener (bh_bind ?host) h d addr None rt = Inr port" for h addr rt
    by (auto simp: bind_listener_def bind_exact_def sample_boot_host_def Let_def split: option.split)
  then obtain port where "bind_listener (bh_bind ?host) (project_key sample_prims) d (unwrap_or (lc_bind cfg) None) None
      (resolve_project_root ?host (ba_root sample_args)) = Inr port" by blast
  moreover have "loopback_guard (bh_ack_bind ?host) addr" for addr by (simp add: loopback_guard_def sample_boot_host_def)
  moreover obtain sv dk' where "boot_state boot_control ?host (\<lambda>_. LayerAbsent) cfg (unwrap_or (lc_upstream cfg) None)
      (resolve_project_root ?host (ba_root sample_args)) port sample_disk = (Inr sv, dk')" using st by blast
  ultimately show ?thesis by (simp add: proxy_boot_def load c sample_args_def Let_def)
qed

lemma sample_root [simp]: "resolve_project_root (sample_boot_host x) (ba_root sample_args) = ''/p''"
  by (simp add: resolve_project_root_def sample_args_def sample_boot_host_def unwrap_or_def)

lemma sample_publishes [simp]:
  "bh_publishes (sample_boot_host x)" "bh_session_salt (sample_boot_host x) = x" "bh_launch_nonce (sample_boot_host x) = Some ''n1''"
  "bh_pid (sample_boot_host x) = 42"
  by (simp_all add: sample_boot_host_def)

lemma sample_boot_port:
  assumes "proxy_boot boot_control (sample_boot_host x) sample_args sample_layers (\<lambda>_. LayerAbsent) sample_disk [] = (Inr sv, dk', d')"
  shows "sv_port sv = 4242"
  using assms
proof (rule proxy_boot_Inr)
  fix cfg sv0
  assume "load_config (prims_of (k_env boot_control)) (text_of (k_env boot_control)) (k_files boot_control)
      (\<lambda>_. LayerAbsent) sample_layers = Inr cfg"
    and b: "bind_listener (bh_bind (sample_boot_host x)) (project_key (prims_of (k_env boot_control))) []
       (unwrap_or (lc_bind cfg) (ba_bind sample_args)) (boot_port sample_args cfg)
       (resolve_project_root (sample_boot_host x) (ba_root sample_args)) = Inr (sv_port sv0)"
    and sv: "sv = sv0\<lparr>sv_ctl := start_load boot_control (ml (lc_engine cfg)) (sv_ctl sv0)\<rparr>"
  then have "lc_port cfg = None" using sample_load by auto
  with b sv show ?thesis
    by (simp add: boot_port_def sample_args_def bind_listener_def bind_exact_def read_rendezvous_def sample_boot_host_def)
qed

lemma boot_publishes_what_it_serves_witness:
  "\<exists>sv dk' d' rec. proxy_boot boot_control (sample_boot_host None) sample_args sample_layers (\<lambda>_. LayerAbsent) sample_disk []
       = (Inr sv, dk', d')
     \<and> read_rendezvous (project_key sample_prims) d' ''/p'' = Some rec
     \<and> rv_admin_key rec = control_token sample_env (as_engine (ct_app (sv_ctl sv))) \<and> rv_pid rec = 42"
proof -
  obtain sv dk' d' where b: "proxy_boot boot_control (sample_boot_host None) sample_args sample_layers (\<lambda>_. LayerAbsent)
      sample_disk [] = (Inr sv, dk', d')" using sample_boot by blast
  from boot_publishes_what_it_serves [OF b] boot_root [OF b] b show ?thesis by (auto simp: Let_def app_of_def)
qed

lemma serving_stays_armed_witness:
  "\<exists>sv0 dk' d' sv. proxy_boot boot_control (sample_boot_host None) sample_args sample_layers (\<lambda>_. LayerAbsent) sample_disk []
       = (Inr sv0, dk', d')
     \<and> sv = finish_secrets boot_control (\<lambda>_. Inr ''hunter2!xQ'') 9 sv0
     \<and> armed (ai_admin_key (as_identity (app_of sv))) (as_engine (app_of sv)) \<and> selections_verified (sv_ctl sv)"
proof -
  obtain sv dk' d' where b: "proxy_boot boot_control (sample_boot_host None) sample_args sample_layers (\<lambda>_. LayerAbsent)
      sample_disk [] = (Inr sv, dk', d')" using sample_boot by blast
  obtain cfg where c: "load_config sample_prims sample_text (k_files boot_control) (\<lambda>_. LayerAbsent) sample_layers = Inr cfg"
    using sample_load by blast
  let ?f = "\<lambda>_ :: secret_ref. (Inr ''hunter2!xQ'' :: provider_error + string)"
  have r: "(serving_moves boot_control X ?f)\<^sup>*\<^sup>* sv (finish_secrets boot_control ?f 9 sv)" for X
    by (rule r_into_rtranclp) (rule resolved)
  have "load_config (prims_of (k_env boot_control)) (text_of (k_env boot_control)) (k_files boot_control)
      (\<lambda>_. LayerAbsent) sample_layers = Inr cfg" using c by simp
  from serving_stays_armed [OF b r this] b show ?thesis by blast
qed

lemma sample_relaunch:
  assumes "proxy_boot boot_control (sample_boot_host (Some (hex_encode boot_salt_bytes))) sample_args
      sample_layers (\<lambda>_. LayerAbsent) sample_disk [] = (Inr sv, dk', d')"
  shows "launch_salt (project_key sample_prims) d' ''/p'' ''new'' = hex_encode boot_salt_bytes"
proof -
  have len: "length boot_salt_bytes = 16" by (simp add: boot_salt_bytes_def)
  obtain rec where "read_rendezvous (project_key sample_prims) d' ''/p'' = Some rec"
    "rv_salt rec = hex_encode (salt (e_store (as_engine (app_of sv))))"
    using boot_record [OF assms] boot_root [OF assms] by (metis sample_publishes(1) sample_root sample_control_parts(1,2))
  moreover have "salt (e_store (as_engine (app_of sv))) = boot_salt_bytes"
    using boot_salt [OF assms] hex_round_trip [OF len] by simp
  ultimately show ?thesis using len by (simp add: launch_salt_def hex_encode_def)
qed

lemma crash_keeps_tokens_witness:
  "\<exists>sv dk' d' sv2 dk2' d2. proxy_boot boot_control (sample_boot_host (Some (hex_encode boot_salt_bytes))) sample_args sample_layers
        (\<lambda>_. LayerAbsent) sample_disk [] = (Inr sv, dk', d')
     \<and> proxy_boot boot_control (sample_boot_host (Some (launch_salt (project_key sample_prims) d' ''/p'' ''new''))) sample_args
        sample_layers (\<lambda>_. LayerAbsent) sample_disk d' = (Inr sv2, dk2', d2)
     \<and> make_token sample_prims ''person'' ''ada'' (salt (e_store (as_engine (app_of sv2))))
        = make_token sample_prims ''person'' ''ada'' (salt (e_store (as_engine (app_of sv))))"
proof -
  have len: "length boot_salt_bytes = 16" by (simp add: boot_salt_bytes_def)
  obtain sv dk' d' where b: "proxy_boot boot_control (sample_boot_host (Some (hex_encode boot_salt_bytes))) sample_args
      sample_layers (\<lambda>_. LayerAbsent) sample_disk [] = (Inr sv, dk', d')" using sample_boot len by blast
  obtain sv2 dk2' d2 where b2: "proxy_boot boot_control
      (sample_boot_host (Some (launch_salt (project_key sample_prims) d' ''/p'' ''new''))) sample_args sample_layers
      (\<lambda>_. LayerAbsent) sample_disk d' = (Inr sv2, dk2', d2)" using sample_boot sample_relaunch [OF b] len by metis
  from crash_keeps_tokens [OF b _ _ _ b2, of "os_rng sample_prims" "''new''" "''person''" "''ada''"] b b2
  show ?thesis by simp
qed

lemma graceful_stop_forgets_witness:
  "\<exists>sv dk' d'. proxy_boot boot_control (sample_boot_host (Some (hex_encode boot_salt_bytes))) sample_args sample_layers
        (\<lambda>_. LayerAbsent) sample_disk [] = (Inr sv, dk', d')
     \<and> launch_salt (project_key sample_prims) d' ''/p'' ''new'' = hex_encode boot_salt_bytes
     \<and> launch_salt (project_key sample_prims)
         (proxy_stop (project_key sample_prims) (sample_boot_host (Some (hex_encode boot_salt_bytes))) True sv d') ''/p'' ''new''
        = ''new''"
proof -
  have len: "length boot_salt_bytes = 16" by (simp add: boot_salt_bytes_def)
  obtain sv dk' d' where b: "proxy_boot boot_control (sample_boot_host (Some (hex_encode boot_salt_bytes))) sample_args
      sample_layers (\<lambda>_. LayerAbsent) sample_disk [] = (Inr sv, dk', d')" using sample_boot len by blast
  from graceful_stop_forgets [OF b _ rtranclp.rtrancl_refl] sample_relaunch [OF b] b show ?thesis by simp
qed

definition sample_launch :: "rv_dir \<Rightarrow> launch_world" where
  "sample_launch d =
     \<lparr>lw_first = \<lparr>lv_dir = [], lv_alive = (\<lambda>_. True), lv_healthz = (\<lambda>_. None)\<rparr>, lw_after = [], lw_lock = Inr True,
      lw_state_dir = True, lw_log_created = True, lw_spawns = True,
      lw_polls = (\<lambda>_. \<lparr>lv_dir = d, lv_alive = (\<lambda>_. True), lv_healthz = (\<lambda>_. Some (''b1'', ''n1''))\<rparr>),
      lw_diag = \<lparr>lv_dir = d, lv_alive = (\<lambda>_. True), lv_healthz = (\<lambda>_. None)\<rparr>, lw_log_tail = None\<rparr>"

lemma launcher_reaches_its_proxy_witness:
  "\<exists>sv dk' d'. proxy_boot boot_control (sample_boot_host None) sample_args sample_layers (\<lambda>_. LayerAbsent) sample_disk []
       = (Inr sv, dk', d')
     \<and> ensure_up (project_key sample_prims) ''b1'' (sample_launch d') ''/p'' ''n1'' ''s''
         = (Inr (Ours 4242), \<lparr>la_stopped = None, la_spawned = Some (''s'', ''n1'')\<rparr>)
     \<and> sv_port sv = 4242"
proof -
  let ?h = "project_key sample_prims"
  obtain sv dk' d' where b: "proxy_boot boot_control (sample_boot_host None) sample_args sample_layers (\<lambda>_. LayerAbsent)
      sample_disk [] = (Inr sv, dk', d')" using sample_boot by blast
  obtain rec where "read_rendezvous ?h d' ''/p'' = Some rec" "rv_port rec = sv_port sv" "rv_nonce rec = sv_nonce sv"
    "rv_pid rec = 42"
    using boot_record [OF b] boot_root [OF b] by (metis sample_publishes(1,4) sample_root sample_control_parts(1,2))
  moreover have "sv_nonce sv = ''n1''"
    by (rule proxy_boot_Inr [OF b], erule boot_state_Inr) (simp add: unwrap_or_def)
  ultimately have id: "identified ?h (lw_polls (sample_launch d') i) ''/p'' = Some (4242, rec, ''b1'')" "rv_nonce rec = ''n1''" for i
    using sample_boot_port [OF b] by (simp_all add: identified_Some sample_launch_def pid_alive_def)
  have "identified ?h (lw_first (sample_launch d')) ''/p'' = None"
    by (simp add: identified_def live_port_def read_rendezvous_def sample_launch_def)
  moreover have "wait_for_live ?h (sample_launch d') ''/p'' (Some ''n1'') = Ours 4242"
    by (simp add: wait_for_live_def LAUNCH_POLLS_def upt_rec id)
  moreover have "launch_salt ?h (lw_after (sample_launch d')) ''/p'' ''s'' = ''s''"
    by (simp add: launch_salt_def read_rendezvous_def sample_launch_def)
  ultimately have up: "ensure_up ?h ''b1'' (sample_launch d') ''/p'' ''n1'' ''s''
      = (Inr (Ours 4242), \<lparr>la_stopped = None, la_spawned = Some (''s'', ''n1'')\<rparr>)"
    by (simp add: ensure_up_def launch_proxy_def Let_def) (simp add: sample_launch_def)
  have up': "ensure_up (project_key (prims_of (k_env boot_control))) ''b1'' (sample_launch d') ''/p'' ''n1'' ''s''
      = (Inr (Ours 4242), \<lparr>la_stopped = None, la_spawned = Some (''s'', ''n1'')\<rparr>)" using up by simp
  have "4242 = sv_port sv"
    using launcher_reaches_its_proxy [OF up' _ b] by (simp add: sample_launch_def)
  with up b show ?thesis by simp
qed

end
